(* ===== verification/Prelude.thy ===== *)
theory Prelude
  imports Main "HOL-Library.Word" "HOL-Library.Signed_Division"
begin

unbundle bit_operations_syntax

text \<open>
  Shared vocabulary of the development: the C integer types as machine words, the ways in
  which kernel code stops (a failed \<open>kernel_assert\<close>, an access outside a static array, a
  page fault), the result type of fallible code with its sequencing operator, loops over an
  index range, searches for the first free slot of a static table, and the lemmas on words
  and lists that several components use.
\<close>

section \<open>Integer types\<close>

type_synonym u8 = "8 word"
type_synonym u16 = "16 word"
type_synonym u31 = "31 word"
type_synonym u32 = "32 word"
type_synonym u64 = "64 word"

text \<open>The macro \<open>CEIL_DIV(a, b)\<close> of \<open>util.h\<close>, in unsigned 32-bit arithmetic.\<close>

definition CEIL_DIV :: "u32 \<Rightarrow> u32 \<Rightarrow> u32" where
  "CEIL_DIV a b = (a + b - 1) div b"

section \<open>Faults and results\<close>

text \<open>
  \<open>Assert_Failed\<close> is a false condition in \<open>kernel_assert\<close> (the kernel stops),
  \<open>Out_Of_Bounds\<close> an access outside the array it names (undefined in C), \<open>Page_Fault\<close> an
  access through a page that is not present, \<open>Div_By_Zero\<close> the CPU exception.
\<close>

datatype fault = Assert_Failed | Out_Of_Bounds | Page_Fault | Div_By_Zero

type_synonym 'a res = "fault + 'a"

definition and_then :: "'a res \<Rightarrow> ('a \<Rightarrow> 'b res) \<Rightarrow> 'b res" where
  "and_then m f = (case m of Inl e \<Rightarrow> Inl e | Inr x \<Rightarrow> f x)"

definition kassert :: "bool \<Rightarrow> 'a res \<Rightarrow> 'a res" where
  "kassert c k = (if c then k else Inl Assert_Failed)"

definition in_bounds :: "nat \<Rightarrow> nat \<Rightarrow> 'a res \<Rightarrow> 'a res" where
  "in_bounds i n k = (if i < n then k else Inl Out_Of_Bounds)"

lemma and_then_simps [simp]:
  "and_then (Inl e) f = Inl e"
  "and_then (Inr x) f = f x"
  by (simp_all add: and_then_def)

lemma kassert_simps [simp]:
  "c \<Longrightarrow> kassert c k = k"
  "\<not> c \<Longrightarrow> kassert c k = Inl Assert_Failed"
  by (simp_all add: kassert_def)

lemma in_bounds_simps [simp]:
  "i < n \<Longrightarrow> in_bounds i n k = k"
  "\<not> i < n \<Longrightarrow> in_bounds i n k = Inl Out_Of_Bounds"
  by (simp_all add: in_bounds_def)

lemma and_then_eq_Inr: "and_then m f = Inr y \<longleftrightarrow> (\<exists>x. m = Inr x \<and> f x = Inr y)"
  by (cases m) simp_all

lemma kassert_eq_Inr: "kassert c k = Inr y \<longleftrightarrow> c \<and> k = Inr y"
  by (simp add: kassert_def)

lemma in_bounds_eq_Inr: "in_bounds i n k = Inr y \<longleftrightarrow> i < n \<and> k = Inr y"
  by (simp add: in_bounds_def)

lemmas res_eq_Inr = and_then_eq_Inr kassert_eq_Inr in_bounds_eq_Inr

lemma and_then_assoc: "and_then (and_then m f) g = and_then m (\<lambda>x. and_then (f x) g)"
  by (cases m) simp_all

section \<open>Loops over an index range\<close>

text \<open>\<open>for (i = lo; i < hi; i++) s = body(i, s)\<close>, where the body may stop the kernel.\<close>

function for_res :: "nat \<Rightarrow> nat \<Rightarrow> (nat \<Rightarrow> 's \<Rightarrow> 's res) \<Rightarrow> 's \<Rightarrow> 's res" where
  "for_res lo hi body s =
     (if lo < hi then and_then (body lo s) (for_res (Suc lo) hi body) else Inr s)"
  by pat_completeness auto
termination
  by (relation "measure (\<lambda>(lo, hi, body, s). hi - lo)") auto

declare for_res.simps [simp del]

lemma for_res_done [simp]: "hi \<le> lo \<Longrightarrow> for_res lo hi body s = Inr s"
  by (subst for_res.simps) simp

lemma for_res_step:
  "lo < hi \<Longrightarrow> for_res lo hi body s = and_then (body lo s) (for_res (Suc lo) hi body)"
  by (subst for_res.simps) simp

text \<open>Total correctness of a loop: an invariant that every iteration keeps and that rules
  out a fault gives a normal end of the loop with the invariant at \<open>hi\<close>.\<close>

lemma for_res_rule:
  assumes "lo \<le> hi" and "I lo s"
    and "\<And>i s. lo \<le> i \<Longrightarrow> i < hi \<Longrightarrow> I i s \<Longrightarrow> \<exists>s'. body i s = Inr s' \<and> I (Suc i) s'"
  shows "\<exists>s'. for_res lo hi body s = Inr s' \<and> I hi s'"
  using assms
proof (induction "hi - lo" arbitrary: lo s)
  case 0
  then show ?case by simp
next
  case (Suc n)
  from Suc.hyps(2) have lt: "lo < hi" by simp
  obtain s1 where s1: "body lo s = Inr s1" "I (Suc lo) s1"
    using Suc.prems(3) [OF _ lt Suc.prems(2)] by auto
  have "\<exists>s'. for_res (Suc lo) hi body s1 = Inr s' \<and> I hi s'"
    by (rule Suc.hyps(1)) (use Suc.hyps(2) lt s1 Suc.prems(3) in auto)
  with lt s1 show ?case by (simp add: for_res_step)
qed

text \<open>Partial correctness: whatever the loop returns satisfies the invariant.\<close>

lemma for_res_inv:
  assumes "for_res lo hi body s = Inr s'" and "lo \<le> hi" and "I lo s"
    and "\<And>i s s'. lo \<le> i \<Longrightarrow> i < hi \<Longrightarrow> I i s \<Longrightarrow> body i s = Inr s' \<Longrightarrow> I (Suc i) s'"
  shows "I hi s'"
  using assms
proof (induction "hi - lo" arbitrary: lo s)
  case 0
  then show ?case by simp
next
  case (Suc n)
  from Suc.hyps(2) have lt: "lo < hi" by simp
  with Suc.prems(1) obtain s1 where s1: "body lo s = Inr s1"
    and rest: "for_res (Suc lo) hi body s1 = Inr s'"
    by (auto simp: for_res_step and_then_eq_Inr)
  have "I (Suc lo) s1" using Suc.prems(4) [OF _ lt Suc.prems(3) s1] by simp
  then show ?case
    using Suc.hyps(1) [OF _ rest] Suc.hyps(2) lt Suc.prems(4) by auto
qed

text \<open>\<open>for (i = lo; i < hi; i++) if (p(i)) return true; return false;\<close> where evaluating
  \<open>p\<close> may stop the kernel.\<close>

function exists_res :: "nat \<Rightarrow> nat \<Rightarrow> (nat \<Rightarrow> bool res) \<Rightarrow> bool res" where
  "exists_res lo hi p =
     (if lo < hi then and_then (p lo) (\<lambda>b. if b then Inr True else exists_res (Suc lo) hi p)
      else Inr False)"
  by pat_completeness auto
termination
  by (relation "measure (\<lambda>(lo, hi, p). hi - lo)") auto

declare exists_res.simps [simp del]

lemma exists_res_eq:
  "(\<And>i. lo \<le> i \<Longrightarrow> i < hi \<Longrightarrow> p i = Inr (q i)) \<Longrightarrow>
   exists_res lo hi p = Inr (\<exists>i. lo \<le> i \<and> i < hi \<and> q i)"
proof (induction lo hi p rule: exists_res.induct)
  case (1 lo hi p)
  show ?case
  proof (cases "lo < hi")
    case True
    note lt = this
    have p: "p lo = Inr (q lo)" using "1.prems" lt by simp
    show ?thesis
    proof (cases "q lo")
      case True
      with lt p show ?thesis by (subst exists_res.simps) auto
    next
      case False
      have "exists_res (Suc lo) hi p = Inr (\<exists>i. Suc lo \<le> i \<and> i < hi \<and> q i)"
        using False by (intro "1.IH" [OF lt]) (auto intro: "1.prems")
      moreover have "(\<exists>i. Suc lo \<le> i \<and> i < hi \<and> q i) = (\<exists>i. lo \<le> i \<and> i < hi \<and> q i)"
        using False by (metis Suc_leD le_eq_less_or_eq Suc_leI)
      ultimately show ?thesis using lt p False by (subst exists_res.simps) simp
    qed
  next
    case False
    then show ?thesis by (subst exists_res.simps) auto
  qed
qed

section \<open>Loops that may not end\<close>

text \<open>The result of code with an unbounded loop: \<open>None\<close> when it does not return.\<close>

type_synonym 'a run = "'a res option"

definition run_then :: "'a run \<Rightarrow> ('a \<Rightarrow> 'b run) \<Rightarrow> 'b run" where
  "run_then m f = Option.bind m (\<lambda>r. case r of Inl e \<Rightarrow> Some (Inl e) | Inr x \<Rightarrow> f x)"

lemma run_then_simps [simp]:
  "run_then None f = None"
  "run_then (Some (Inl e)) f = Some (Inl e)"
  "run_then (Some (Inr x)) f = f x"
  by (simp_all add: run_then_def)

lemma run_then_mono [partial_function_mono]:
  assumes "mono_option B" and "\<And>y. mono_option (C y)"
  shows "mono_option (\<lambda>f. run_then (B f) (\<lambda>y. C y f))"
proof -
  have "mono_option (\<lambda>f. case r of Inl e \<Rightarrow> Some (Inl e) | Inr x \<Rightarrow> C x f)" for r :: "'c res"
    using assms(2) by (cases r) (simp_all add: option.const_mono)
  then show ?thesis unfolding run_then_def by (intro bind_mono assms(1))
qed

lemma run_then_eq_Some_Inr: "run_then m f = Some (Inr y) \<longleftrightarrow> (\<exists>x. m = Some (Inr x) \<and> f x = Some (Inr y))"
proof (cases m)
  case (Some r)
  then show ?thesis by (cases r) simp_all
qed simp

lemma run_then_assoc: "run_then (run_then m f) g = run_then m (\<lambda>x. run_then (f x) g)"
  by (simp add: run_then_def split: Option.bind_split sum.split)

text \<open>A counted loop whose body may not return.\<close>

function for_run :: "nat \<Rightarrow> nat \<Rightarrow> (nat \<Rightarrow> 's \<Rightarrow> 's run) \<Rightarrow> 's \<Rightarrow> 's run" where
  "for_run lo hi body s =
     (if lo < hi then run_then (body lo s) (for_run (Suc lo) hi body) else Some (Inr s))"
  by pat_completeness auto
termination
  by (relation "measure (\<lambda>(lo, hi, body, s). hi - lo)") auto

declare for_run.simps [simp del]

lemma for_run_done [simp]: "hi \<le> lo \<Longrightarrow> for_run lo hi body s = Some (Inr s)"
  by (subst for_run.simps) simp

lemma for_run_step:
  "lo < hi \<Longrightarrow> for_run lo hi body s = run_then (body lo s) (for_run (Suc lo) hi body)"
  by (subst for_run.simps) simp

section \<open>The first index that satisfies a condition\<close>

text \<open>\<open>for (i = 0; i < n; i++) if (p(i)) return i;\<close>, with \<open>None\<close> for the end of the loop.\<close>

definition first_index :: "(nat \<Rightarrow> bool) \<Rightarrow> nat \<Rightarrow> nat option" where
  "first_index p n = List.find p [0..<n]"

lemma first_index_Some:
  "first_index p n = Some i \<longleftrightarrow> i < n \<and> p i \<and> (\<forall>j<i. \<not> p j)"
  unfolding first_index_def find_Some_iff
  by (auto intro: less_trans)

lemma first_index_None: "first_index p n = None \<longleftrightarrow> (\<forall>i<n. \<not> p i)"
  unfolding first_index_def find_None_iff by auto

lemma first_index_ex: "i < n \<Longrightarrow> p i \<Longrightarrow> \<exists>j. first_index p n = Some j"
  by (metis first_index_None option.exhaust)

section \<open>Shifting array elements\<close>

text \<open>\<open>for (i = lo; i < hi; i++) xs[i] = xs[i + 1];\<close>\<close>

definition shift_left :: "nat \<Rightarrow> nat \<Rightarrow> 'a list \<Rightarrow> 'a list" where
  "shift_left lo hi xs = fold (\<lambda>i ys. ys[i := ys ! (i + 1)]) [lo..<hi] xs"

lemma length_shift_left [simp]: "length (shift_left lo hi xs) = length xs"
proof (induction "hi - lo" arbitrary: lo xs)
  case (Suc n)
  then show ?case by (simp add: shift_left_def upt_rec [of lo hi])
qed (simp add: shift_left_def)

lemma nth_shift_left:
  "hi < length xs \<Longrightarrow> j < length xs \<Longrightarrow>
   shift_left lo hi xs ! j = (if lo \<le> j \<and> j < hi then xs ! (j + 1) else xs ! j)"
proof (induction "hi - lo" arbitrary: lo xs)
  case (Suc n)
  then have lt: "lo < hi" by simp
  have "shift_left lo hi xs = shift_left (Suc lo) hi (xs[lo := xs ! (lo + 1)])"
    using lt by (simp add: shift_left_def upt_rec [of lo hi])
  then show ?case using Suc.hyps(1) [of "Suc lo" "xs[lo := xs ! (lo + 1)]"] Suc.hyps(2) Suc.prems lt
    by (auto simp: nth_list_update)
qed (auto simp: shift_left_def)

lemma take_shift_left:
  assumes "lo < n" and "n \<le> length xs"
  shows "take (n - 1) (shift_left lo (n - 1) xs) = take lo xs @ drop (Suc lo) (take n xs)"
  using assms by (intro nth_equalityI) (auto simp: nth_shift_left nth_append)

section \<open>Searches for a free slot\<close>

text \<open>The contract of the routines that look for the first free entry of a static table and
  stop the kernel when there is none.\<close>

locale slot_search =
  fixes slot_free :: "'t \<Rightarrow> nat \<Rightarrow> bool" and n :: nat and search :: "'t \<Rightarrow> nat res"
  assumes search_first: "search t = (case first_index (slot_free t) n of Some i \<Rightarrow> Inr i | None \<Rightarrow> Inl Assert_Failed)"
begin

lemma search_found: "search t = Inr i \<longleftrightarrow> i < n \<and> slot_free t i \<and> (\<forall>j<i. \<not> slot_free t j)"
  unfolding first_index_Some [symmetric] by (simp add: search_first split: option.split)

lemma search_full: "search t = Inl e \<longleftrightarrow> e = Assert_Failed \<and> (\<forall>i<n. \<not> slot_free t i)"
  unfolding first_index_None [symmetric] by (auto simp: search_first split: option.split)

lemma search_ex: "i < n \<Longrightarrow> slot_free t i \<Longrightarrow> \<exists>j\<le>i. search t = Inr j"
  using search_full [of t] search_found [of t] by (cases "search t") (auto simp: not_less [symmetric])

end

section \<open>Words\<close>

lemma unat_drop_bit: "unat (drop_bit n x) = unat x div 2 ^ n"
  by (simp add: unat_drop_bit_eq) (simp add: drop_bit_eq_div)

lemma unat_take_bit_mod: "unat (take_bit n x) = unat x mod 2 ^ n"
  by (simp only: unsigned_take_bit_eq) (simp add: take_bit_eq_mod)

lemma unat_and_mask_mod: "unat (x AND mask n) = unat x mod 2 ^ n"
  by (simp add: unat_take_bit_mod flip: take_bit_eq_mask)

lemma unat_of_nat_small: "n < 2 ^ LENGTH('a) \<Longrightarrow> unat (of_nat n :: 'a::len word) = n"
  by (simp add: unsigned_of_nat take_bit_nat_eq_self)

lemma unat_add_small:
  "unat x + unat y < 2 ^ LENGTH('a) \<Longrightarrow> unat (x + y :: 'a::len word) = unat x + unat y"
  by (simp add: unat_word_ariths)

lemma unat_mult_small:
  "unat x * unat y < 2 ^ LENGTH('a) \<Longrightarrow> unat (x * y :: 'a::len word) = unat x * unat y"
  by (simp add: unat_word_ariths)

lemma drop_bit_and_1: "drop_bit i x AND 1 = 0 \<longleftrightarrow> \<not> bit (x :: 'a::len word) i"
  by (simp add: and_one_eq bit_iff_odd_drop_bit odd_iff_mod_2_eq_one)

lemma and_exp_zero: "(x :: 'a::len word) AND 2 ^ n = 0 \<longleftrightarrow> \<not> bit x n"
  by (rule and_exp_eq_0_iff_not_bit)

lemma sint_eq_unat:
  assumes "unat x < 2 ^ 31"
  shows "sint (x :: u32) = int (unat x)"
proof -
  have "int (unat x) < int (2 ^ 31)" using assms by (simp only: of_nat_less_iff)
  then have "signed_take_bit 31 (uint x) = uint x"
    by (subst signed_take_bit_int_eq_self_iff) (simp add: order_trans [of "- 2147483648" 0 "uint x"])
  then show ?thesis by (simp add: sint_uint)
qed

end
