(* ===== verification/Cpu.thy ===== *)
theory Cpu
  imports Prelude
begin

text \<open>
  The interrupt flag and the nesting counter of \<open>kernel/interrupts.c\<close>: \<open>push_cli\<close> and
  \<open>pop_cli\<close> bracket the kernel's critical sections. \<open>cpu_state\<close> is the root of the
  kernel's global state; every later component extends it with its own C globals. Writes to
  I/O ports are collected, in order, in \<open>outb_log\<close>.
\<close>

section \<open>State\<close>

record cpu_state =
  eflags :: u32
  cli_init_state :: bool
  cli_level :: u32
  outb_log :: "(u16 \<times> u8) list"

definition FL_IF :: u32 where
  "FL_IF = 0x200"

definition outb :: "u16 \<Rightarrow> u8 \<Rightarrow> 'a cpu_state_scheme \<Rightarrow> 'a cpu_state_scheme" where
  "outb port v s = s\<lparr>outb_log := outb_log s @ [(port, v)]\<rparr>"

section \<open>Critical sections\<close>

definition read_eflags :: "'a cpu_state_scheme \<Rightarrow> u32" where
  "read_eflags s = eflags s"

definition disable_interrupts :: "'a cpu_state_scheme \<Rightarrow> 'a cpu_state_scheme" where
  "disable_interrupts s = s\<lparr>eflags := eflags s AND NOT FL_IF\<rparr>"

definition enable_interrupts :: "'a cpu_state_scheme \<Rightarrow> 'a cpu_state_scheme" where
  "enable_interrupts s = s\<lparr>eflags := eflags s OR FL_IF\<rparr>"

definition are_interrupts_enabled :: "'a cpu_state_scheme \<Rightarrow> bool" where
  "are_interrupts_enabled s \<longleftrightarrow> read_eflags s AND FL_IF \<noteq> 0"

definition push_cli :: "'a cpu_state_scheme \<Rightarrow> 'a cpu_state_scheme" where
  "push_cli s =
     (let ef = read_eflags s;
          s1 = disable_interrupts s;
          s2 = (if cli_level s1 = 0 then s1\<lparr>cli_init_state := (ef AND FL_IF \<noteq> 0)\<rparr> else s1)
      in s2\<lparr>cli_level := cli_level s2 + 1\<rparr>)"

definition pop_cli :: "'a cpu_state_scheme \<Rightarrow> 'a cpu_state_scheme res" where
  "pop_cli s =
     (let ef = read_eflags s in
      kassert (ef AND FL_IF = 0)
        (kassert (0 <s cli_level s)
          (let s1 = s\<lparr>cli_level := cli_level s - 1\<rparr> in
           Inr (if cli_level s1 = 0 \<and> cli_init_state s1 then enable_interrupts s1 else s1))))"

text \<open>\<open>VERIFY_INTERRUPTS_DISABLED\<close>.\<close>

definition verify_interrupts_disabled :: "'a cpu_state_scheme \<Rightarrow> 'b res \<Rightarrow> 'b res" where
  "verify_interrupts_disabled s k = kassert (\<not> are_interrupts_enabled s) k"

text \<open>A history of calls to the two functions.\<close>

datatype cli_op = Push | Pop

fun run_cli :: "cli_op list \<Rightarrow> 'a cpu_state_scheme \<Rightarrow> 'a cpu_state_scheme res" where
  "run_cli [] s = Inr s"
| "run_cli (Push # ops) s = run_cli ops (push_cli s)"
| "run_cli (Pop # ops) s = and_then (pop_cli s) (run_cli ops)"

text \<open>Well-bracketed histories, with their nesting depth.\<close>

inductive balanced :: "nat \<Rightarrow> cli_op list \<Rightarrow> bool" where
  balanced_Nil: "balanced d []"
| balanced_wrap: "balanced d u \<Longrightarrow> balanced (Suc d) v \<Longrightarrow> balanced (Suc d) (Push # u @ Pop # v)"

inductive_cases balanced_0E: "balanced 0 ops"

section \<open>Flag arithmetic\<close>

lemma FL_IF_exp: "FL_IF = push_bit 9 1"
  by (simp add: FL_IF_def)

lemma if_flag_iff: "x AND FL_IF \<noteq> 0 \<longleftrightarrow> bit x 9"
  by (simp add: FL_IF_exp push_bit_eq_mult and_exp_eq_0_iff_not_bit [of x 9, simplified])

lemma are_interrupts_enabled_iff: "are_interrupts_enabled s \<longleftrightarrow> bit (eflags s) 9"
  by (simp add: are_interrupts_enabled_def read_eflags_def if_flag_iff)

lemma bit_FL_IF: "bit FL_IF n \<longleftrightarrow> n = 9"
  unfolding FL_IF_exp by (subst bit_push_bit_iff) (auto simp: bit_1_iff)

lemma interrupts_disabled [simp]: "\<not> are_interrupts_enabled (disable_interrupts s)"
  by (simp add: are_interrupts_enabled_iff disable_interrupts_def bit_simps bit_FL_IF)

lemma interrupts_enabled [simp]: "are_interrupts_enabled (enable_interrupts s)"
  by (simp add: are_interrupts_enabled_iff enable_interrupts_def bit_simps bit_FL_IF)

lemma enable_after_disable:
  "bit x 9 \<Longrightarrow> (x AND NOT FL_IF) OR FL_IF = x"
  by (rule bit_word_eqI) (auto simp: bit_simps bit_FL_IF)

lemma disable_idle: "\<not> bit x 9 \<Longrightarrow> x AND NOT FL_IF = x"
  by (rule bit_word_eqI) (auto simp: bit_simps bit_FL_IF)

lemma push_cli_frame [simp]:
  "cpu_state.more (push_cli s) = cpu_state.more s"
  "outb_log (push_cli s) = outb_log s"
  by (simp_all add: push_cli_def disable_interrupts_def Let_def)

lemma cpu_extension_frames [simp]:
  "cpu_state.more (disable_interrupts s) = cpu_state.more s"
  "cpu_state.more (enable_interrupts s) = cpu_state.more s"
  "cpu_state.more (outb p v s) = cpu_state.more s"
  by (simp_all add: disable_interrupts_def enable_interrupts_def outb_def)

section \<open>Nesting\<close>

text \<open>The state the kernel keeps between critical sections: inside one the counter is
  positive and interrupts are off.\<close>

definition cli_ok :: "'a cpu_state_scheme \<Rightarrow> bool" where
  "cli_ok s \<longleftrightarrow> 0 \<le>s cli_level s \<and> (cli_level s \<noteq> 0 \<longrightarrow> \<not> are_interrupts_enabled s)"

lemma sint_add_small:
  fixes x :: u32
  assumes "0 \<le> sint x" and "sint x + 1 < 2 ^ 31"
  shows "sint (x + 1) = sint x + 1"
  using assms by (simp add: sint_word_ariths signed_take_bit_int_eq_self_iff)

lemma push_cli_ok:
  assumes "cli_ok s" and "sint (cli_level s) + 1 < 2 ^ 31"
  shows "cli_ok (push_cli s)" and "sint (cli_level (push_cli s)) = sint (cli_level s) + 1"
    and "\<not> are_interrupts_enabled (push_cli s)"
proof -
  show *: "sint (cli_level (push_cli s)) = sint (cli_level s) + 1"
    using assms sint_add_small [of "cli_level s"]
    by (auto simp: push_cli_def disable_interrupts_def Let_def cli_ok_def word_sle_eq)
  show **: "\<not> are_interrupts_enabled (push_cli s)"
    by (simp add: push_cli_def Let_def are_interrupts_enabled_iff disable_interrupts_def
        bit_simps bit_FL_IF)
  from * assms(1) have "0 \<le> sint (cli_level (push_cli s))"
    by (simp add: cli_ok_def word_sle_eq)
  with ** show "cli_ok (push_cli s)" by (simp add: cli_ok_def word_sle_eq)
qed

lemma pop_push_cli:
  assumes "cli_ok s" and "sint (cli_level s) + 1 < 2 ^ 31"
    and t: "eflags t = eflags (push_cli s)" "cli_level t = cli_level (push_cli s)"
      "cli_init_state t = cli_init_state (push_cli s)"
  shows "\<exists>t'. pop_cli t = Inr t' \<and> eflags t' = eflags s \<and> cli_level t' = cli_level s \<and>
    cli_init_state t' = cli_init_state (push_cli s) \<and> outb_log t' = outb_log t \<and>
    cpu_state.more t' = cpu_state.more t"
proof -
  note p = push_cli_ok [OF assms(1,2)]
  have off: "eflags t AND FL_IF = 0"
    using p(3) by (simp add: t are_interrupts_enabled_def read_eflags_def)
  have pos: "0 <s cli_level t"
    using p(2) assms(1) by (simp add: t word_sless_alt cli_ok_def word_sle_eq)
  have lev: "cli_level t - 1 = cli_level s"
    by (simp add: t push_cli_def disable_interrupts_def Let_def)
  have restore: "(eflags s AND NOT FL_IF) OR FL_IF = eflags s" if "eflags s AND FL_IF \<noteq> 0"
    using enable_after_disable that by (simp add: if_flag_iff)
  have idle: "eflags s AND NOT FL_IF = eflags s" if "eflags s AND FL_IF = 0"
    using disable_idle that by (metis if_flag_iff)
  show ?thesis
    using off pos restore idle assms(1)
    by (auto simp: pop_cli_def Let_def read_eflags_def lev t cli_ok_def are_interrupts_enabled_def
        push_cli_def disable_interrupts_def enable_interrupts_def)
qed

text \<open>
  The contract of the pair: any well-bracketed history, from any consistent state with
  room in the counter, ends normally with the interrupt flag and the counter as they were.
\<close>

lemma run_cli_append: "run_cli (u @ v) s = and_then (run_cli u s) (run_cli v)"
  by (induction u s rule: run_cli.induct) (auto simp: and_then_def split: sum.splits)

lemma run_cli_balanced:
  "balanced d ops \<Longrightarrow> cli_ok s \<Longrightarrow> sint (cli_level s) + int d < 2 ^ 31 \<Longrightarrow>
   \<exists>s'. run_cli ops s = Inr s' \<and> eflags s' = eflags s \<and> cli_level s' = cli_level s \<and>
        (cli_level s \<noteq> 0 \<longrightarrow> cli_init_state s' = cli_init_state s) \<and>
        outb_log s' = outb_log s \<and> cpu_state.more s' = cpu_state.more s"
proof (induction arbitrary: s rule: balanced.induct)
  case (balanced_Nil d)
  then show ?case by simp
next
  case (balanced_wrap d u v)
  have room: "sint (cli_level s) + 1 < 2 ^ 31" using balanced_wrap.prems(2) by simp
  note p = push_cli_ok [OF balanced_wrap.prems(1) room]
  have "sint (cli_level (push_cli s)) + int d < 2 ^ 31"
    using balanced_wrap.prems(2) p(2) by simp
  from balanced_wrap.IH(1) [OF p(1) this] obtain t where t: "run_cli u (push_cli s) = Inr t"
    "eflags t = eflags (push_cli s)" "cli_level t = cli_level (push_cli s)"
    "cli_init_state t = cli_init_state (push_cli s)" and t_frame:
    "outb_log t = outb_log s" "cpu_state.more t = cpu_state.more s"
    using p(2) balanced_wrap.prems(1) by (auto simp: cli_ok_def word_sle_eq)
  from pop_push_cli [OF balanced_wrap.prems(1) room t(2-4)] t_frame
  obtain t' where t': "pop_cli t = Inr t'" "eflags t' = eflags s" "cli_level t' = cli_level s"
    "cli_init_state t' = cli_init_state (push_cli s)" "outb_log t' = outb_log s"
    "cpu_state.more t' = cpu_state.more s" by auto
  have "cli_ok t'" using balanced_wrap.prems(1) t'(2,3)
    by (simp add: cli_ok_def are_interrupts_enabled_iff)
  moreover have "run_cli (Push # u @ Pop # v) s = run_cli v t'"
    by (simp add: run_cli_append t(1) t'(1))
  moreover have "cli_level s \<noteq> 0 \<longrightarrow> cli_init_state t' = cli_init_state s"
    by (simp add: t'(4) push_cli_def disable_interrupts_def Let_def)
  ultimately show ?case
    using balanced_wrap.IH(2) [of t'] balanced_wrap.prems(2) t'(2,3,5,6) by auto
qed

section \<open>Properties\<close>

text \<open>C12: Critical sections nest. Any well-bracketed history of \<open>push_cli\<close> and \<open>pop_cli\<close>, from a
  consistent state with room for its depth in the signed counter, runs without a failed
  assertion and leaves the interrupt flag, the counter and, inside another section, the saved
  flag as they were; it does not touch the rest of the kernel state.\<close>

theorem critical_sections_nest:
  assumes "balanced d ops" and "cli_ok s" and "sint (cli_level s) + int d < 2 ^ 31"
  shows "\<exists>t. run_cli ops s = Inr t \<and> eflags t = eflags s \<and> cli_level t = cli_level s \<and>
    (cli_level s \<noteq> 0 \<longrightarrow> cli_init_state t = cli_init_state s) \<and>
    outb_log t = outb_log s \<and> cpu_state.more t = cpu_state.more s"
  by (rule run_cli_balanced [OF assms])

definition example_cpu :: cpu_state where
  "example_cpu = \<lparr>eflags = 0x202, cli_init_state = False, cli_level = 0, outb_log = []\<rparr>"

theorem critical_sections_nest_witness:
  "\<exists>t. run_cli [Push, Push, Pop, Push, Pop, Pop] example_cpu = Inr t \<and> eflags t = 0x202 \<and> cli_level t = 0"
proof -
  have b: "balanced 1 [Push, Pop]"
    using balanced_wrap [OF balanced_Nil balanced_Nil, of 0] by simp
  have "balanced 2 [Push, Push, Pop, Push, Pop, Pop]"
    using balanced_wrap [OF balanced_wrap [OF balanced_Nil b [unfolded One_nat_def]] balanced_Nil]
    by (simp add: numeral_2_eq_2 balanced_wrap balanced_Nil)
  moreover have "cli_ok example_cpu" by (simp add: cli_ok_def example_cpu_def)
  ultimately show ?thesis
    using critical_sections_nest [of 2 "[Push, Push, Pop, Push, Pop, Pop]" example_cpu]
    by (auto simp: example_cpu_def)
qed

end
