(* ===== verification/Physalloc.thy ===== *)
theory Physalloc
  imports Cpu
begin

text \<open>
  The physical page-frame allocator of \<open>kernel/physalloc.c\<close>: a bitmap with one bit for each
  4 KiB frame of the first 512 MiB, a window of managed frames and a counter. A read or write
  of the bitmap outside its 16384 bytes is the fault \<open>Out_Of_Bounds\<close>.
\<close>

section \<open>State and operations\<close>

definition NUM_PAGE_FRAMES :: nat where
  "NUM_PAGE_FRAMES = 131072"

definition PAGE_FRAME_SIZE :: u32 where
  "PAGE_FRAME_SIZE = 0x1000"

record pmm_state = cpu_state +
  physical_memory_bitmap :: "u8 list"
  page_frame_min :: u32
  page_frame_max :: u32
  total_allocated :: u32

definition pmm_init :: "u32 \<Rightarrow> u32 \<Rightarrow> 'a pmm_state_scheme \<Rightarrow> 'a pmm_state_scheme" where
  "pmm_init mem_low mem_high s =
     s\<lparr>page_frame_min := CEIL_DIV mem_low 0x1000,
       page_frame_max := mem_high div 0x1000,
       total_allocated := 0,
       physical_memory_bitmap := replicate (NUM_PAGE_FRAMES div 8) 0\<rparr>"

text \<open>The first and the last (exclusive) byte of the bitmap that the search looks at.\<close>

definition alloc_start :: "'a pmm_state_scheme \<Rightarrow> u32" where
  "alloc_start s = page_frame_min s div 8 + (if page_frame_min s AND 7 \<noteq> 0 then 1 else 0)"

definition alloc_end :: "'a pmm_state_scheme \<Rightarrow> u32" where
  "alloc_end s = page_frame_max s div 8 - (if page_frame_max s AND 7 \<noteq> 0 then 1 else 0)"

text \<open>The inner loop: the first \<open>i\<close> below 8 whose bit is clear.\<close>

definition clear_bit :: "u8 \<Rightarrow> nat option" where
  "clear_bit byte = first_index (\<lambda>i. drop_bit i byte AND 1 = 0) 8"

definition mark_bit :: "u8 \<Rightarrow> nat \<Rightarrow> u8" where
  "mark_bit byte i = byte XOR ((- 1 XOR byte) AND push_bit i 1)"

text \<open>The outer loop of \<open>pmm_alloc_pageframe\<close>, from byte \<open>b\<close> to byte \<open>e\<close>.\<close>

function pmm_scan :: "nat \<Rightarrow> nat \<Rightarrow> 'a pmm_state_scheme \<Rightarrow> (u32 \<times> 'a pmm_state_scheme) res" where
  "pmm_scan b e s =
     (if b < e then
        in_bounds b (length (physical_memory_bitmap s))
          (let byte = physical_memory_bitmap s ! b in
           if byte = 0xFF then pmm_scan (Suc b) e s
           else case clear_bit byte of
             Some i \<Rightarrow>
               Inr (of_nat (b * 8 + i) * PAGE_FRAME_SIZE,
                 s\<lparr>physical_memory_bitmap := (physical_memory_bitmap s)[b := mark_bit byte i],
                   total_allocated := total_allocated s + 1\<rparr>)
           | None \<Rightarrow> pmm_scan (Suc b) e s)
      else Inl Assert_Failed)"
  by pat_completeness auto
termination
  by (relation "measure (\<lambda>(b, e, s). e - b)") auto

declare pmm_scan.simps [simp del]

definition pmm_alloc_pageframe :: "'a pmm_state_scheme \<Rightarrow> (u32 \<times> 'a pmm_state_scheme) res" where
  "pmm_alloc_pageframe s = pmm_scan (unat (alloc_start s)) (unat (alloc_end s)) s"

definition is_pf_used :: "u32 \<Rightarrow> 'a pmm_state_scheme \<Rightarrow> bool res" where
  "is_pf_used pf_index s =
     in_bounds (unat (drop_bit 3 pf_index)) (length (physical_memory_bitmap s))
       (let byte = physical_memory_bitmap s ! unat (drop_bit 3 pf_index) in
        Inr (drop_bit (unat (pf_index AND 7)) byte AND 1 \<noteq> 0))"

definition set_pf_used :: "u32 \<Rightarrow> bool \<Rightarrow> 'a pmm_state_scheme \<Rightarrow> 'a pmm_state_scheme res" where
  "set_pf_used pf_index used s =
     (let i = unat (drop_bit 3 pf_index) in
      in_bounds i (length (physical_memory_bitmap s))
        (let byte = physical_memory_bitmap s ! i;
             byte' = byte XOR ((- of_bool used XOR byte) AND push_bit (unat (pf_index AND 7)) 1)
         in Inr (s\<lparr>physical_memory_bitmap := (physical_memory_bitmap s)[i := byte']\<rparr>)))"

definition pmm_free_pageframe :: "u32 \<Rightarrow> 'a pmm_state_scheme \<Rightarrow> 'a pmm_state_scheme res" where
  "pmm_free_pageframe addr s =
     (let pf_index = addr div PAGE_FRAME_SIZE in
      and_then (is_pf_used pf_index s) (\<lambda>used.
      kassert used
        (and_then (set_pf_used pf_index False s) (\<lambda>s1.
         Inr (s1\<lparr>total_allocated := total_allocated s1 - 1\<rparr>)))))"

definition pmm_get_total_allocated_pages :: "'a pmm_state_scheme \<Rightarrow> u32" where
  "pmm_get_total_allocated_pages s = total_allocated s"

section \<open>The set of used frames\<close>

definition pf_used :: "'a pmm_state_scheme \<Rightarrow> nat \<Rightarrow> bool" where
  "pf_used s f \<longleftrightarrow> f < NUM_PAGE_FRAMES \<and> bit (physical_memory_bitmap s ! (f div 8)) (f mod 8)"

definition used_frames :: "'a pmm_state_scheme \<Rightarrow> nat set" where
  "used_frames s = {f. pf_used s f}"

text \<open>The frames the search can return.\<close>

definition managed_frames :: "'a pmm_state_scheme \<Rightarrow> nat set" where
  "managed_frames s = {unat (alloc_start s) * 8..<unat (alloc_end s) * 8}"

definition pmm_ok :: "'a pmm_state_scheme \<Rightarrow> bool" where
  "pmm_ok s \<longleftrightarrow>
     length (physical_memory_bitmap s) = NUM_PAGE_FRAMES div 8 \<and>
     unat (alloc_end s) \<le> NUM_PAGE_FRAMES div 8 \<and>
     used_frames s \<subseteq> managed_frames s \<and>
     unat (total_allocated s) = card (used_frames s)"

lemma NUM_PAGE_FRAMES_simps [simp]:
  "NUM_PAGE_FRAMES div 8 = 16384" "NUM_PAGE_FRAMES = 131072"
  by (simp_all add: NUM_PAGE_FRAMES_def)

lemma finite_used [simp]: "finite (used_frames s)"
  by (rule finite_subset [of _ "{..<NUM_PAGE_FRAMES}"]) (auto simp: used_frames_def pf_used_def)

section \<open>Bytes of the bitmap\<close>

lemma clear_bit_Some: "clear_bit byte = Some i \<longleftrightarrow> i < 8 \<and> \<not> bit byte i \<and> (\<forall>j<i. bit byte j)"
  by (simp add: clear_bit_def first_index_Some drop_bit_and_1)

lemma clear_bit_None: "clear_bit byte = None \<longleftrightarrow> (\<forall>i<8. bit byte i)"
  by (simp add: clear_bit_def first_index_None drop_bit_and_1)

lemma byte_full: "(byte :: u8) = 0xFF \<longleftrightarrow> (\<forall>i<8. bit byte i)"
proof -
  have "(0xFF :: u8) = - 1" by simp
  then show ?thesis by (simp only: bit_eq_iff) (auto dest: bit_imp_le_length simp: bit_minus_1_iff)
qed

lemma bit_mark_bit: "i < 8 \<Longrightarrow> bit (mark_bit byte i) j \<longleftrightarrow> j = i \<or> bit byte j"
  by (auto simp: mark_bit_def bit_simps bit_1_iff dest: bit_imp_le_length)

lemma bit_set_byte:
  fixes byte :: u8
  assumes "k < 8"
  shows "bit (byte XOR ((- of_bool used XOR byte) AND push_bit k 1)) j \<longleftrightarrow>
    (if j = k then used else bit byte j)"
  using assms by (cases used) (auto simp: bit_simps bit_1_iff dest: bit_imp_le_length)

section \<open>What the operations do to the set of used frames\<close>

text \<open>The state after the search has taken frame \<open>f\<close>, and after frame \<open>f\<close> was given back.\<close>

definition take_frame :: "nat \<Rightarrow> 'a pmm_state_scheme \<Rightarrow> 'a pmm_state_scheme" where
  "take_frame f s =
     s\<lparr>physical_memory_bitmap := (physical_memory_bitmap s)
         [f div 8 := mark_bit (physical_memory_bitmap s ! (f div 8)) (f mod 8)],
       total_allocated := total_allocated s + 1\<rparr>"

lemma take_frame_frame [simp]:
  "page_frame_min (take_frame f s) = page_frame_min s"
  "page_frame_max (take_frame f s) = page_frame_max s"
  "total_allocated (take_frame f s) = total_allocated s + 1"
  "length (physical_memory_bitmap (take_frame f s)) = length (physical_memory_bitmap s)"
  "eflags (take_frame f s) = eflags s"
  "cli_level (take_frame f s) = cli_level s"
  "cli_init_state (take_frame f s) = cli_init_state s"
  "pmm_state.more (take_frame f s) = pmm_state.more s"
  "outb_log (take_frame f s) = outb_log s"
  by (simp_all add: take_frame_def)

lemma managed_frames_cong:
  "page_frame_min t = page_frame_min s \<Longrightarrow> page_frame_max t = page_frame_max s \<Longrightarrow>
   managed_frames t = managed_frames s"
  by (simp add: managed_frames_def alloc_start_def alloc_end_def)

lemma managed_take_frame [simp]: "managed_frames (take_frame f s) = managed_frames s"
  by (rule managed_frames_cong) simp_all

lemma alloc_end_take_frame [simp]: "alloc_end (take_frame f s) = alloc_end s"
  by (simp add: alloc_end_def)

lemma managed_small: "pmm_ok s \<Longrightarrow> f \<in> managed_frames s \<Longrightarrow> f < NUM_PAGE_FRAMES"
  by (auto simp: pmm_ok_def managed_frames_def)

lemma pf_used_take_frame:
  assumes "length (physical_memory_bitmap s) = NUM_PAGE_FRAMES div 8" and "f < NUM_PAGE_FRAMES"
  shows "pf_used (take_frame f s) g \<longleftrightarrow> g = f \<or> pf_used s g"
proof (cases "g div 8 = f div 8")
  case True
  then have "g mod 8 = f mod 8 \<longleftrightarrow> g = f" by (metis mod_div_mult_eq)
  with True assms show ?thesis
    by (auto simp: pf_used_def take_frame_def bit_mark_bit nth_list_update)
next
  case False
  with assms show ?thesis
    by (auto simp: pf_used_def take_frame_def nth_list_update)
qed

lemma used_take_frame:
  assumes "length (physical_memory_bitmap s) = NUM_PAGE_FRAMES div 8" and "f < NUM_PAGE_FRAMES"
  shows "used_frames (take_frame f s) = insert f (used_frames s)"
  using pf_used_take_frame [OF assms] by (auto simp: used_frames_def)

lemma pmm_scan_cases:
  assumes "length (physical_memory_bitmap s) = NUM_PAGE_FRAMES div 8" and "e \<le> NUM_PAGE_FRAMES div 8"
  shows "(\<exists>f. 8 * b \<le> f \<and> f < 8 * e \<and> \<not> pf_used s f \<and> (\<forall>g. 8 * b \<le> g \<longrightarrow> g < f \<longrightarrow> pf_used s g) \<and>
              pmm_scan b e s = Inr (of_nat f * PAGE_FRAME_SIZE, take_frame f s)) \<or>
         ((\<forall>f. 8 * b \<le> f \<longrightarrow> f < 8 * e \<longrightarrow> pf_used s f) \<and> pmm_scan b e s = Inl Assert_Failed)"
  using assms
proof (induction b e s rule: pmm_scan.induct)
  case (1 b e s)
  show ?case
  proof (cases "b < e")
    case False
    then show ?thesis by (subst pmm_scan.simps) auto
  next
    case lt: True
    let ?byte = "physical_memory_bitmap s ! b"
    from lt "1.prems" have len: "b < length (physical_memory_bitmap s)" by simp
    have here: "pf_used s (8 * b + j) \<longleftrightarrow> bit ?byte j" if "j < 8" for j
      using that len "1.prems" by (simp add: pf_used_def)
    show ?thesis
    proof (cases "clear_bit ?byte")
      case None
      then have full: "?byte = 0xFF" by (simp add: clear_bit_None byte_full)
      have block: "pf_used s g" if "8 * b \<le> g" "g < 8 * Suc b" for g
        using here [of "g - 8 * b"] that full byte_full [of ?byte] by simp
      have step: "pmm_scan b e s = pmm_scan (Suc b) e s"
        using lt len full by (subst pmm_scan.simps) simp
      have ih: "(\<exists>f\<ge>8 * Suc b. f < 8 * e \<and> \<not> pf_used s f \<and>
          (\<forall>g\<ge>8 * Suc b. g < f \<longrightarrow> pf_used s g) \<and>
          pmm_scan (Suc b) e s = Inr (of_nat f * PAGE_FRAME_SIZE, take_frame f s)) \<or>
        (\<forall>f\<ge>8 * Suc b. f < 8 * e \<longrightarrow> pf_used s f) \<and> pmm_scan (Suc b) e s = Inl Assert_Failed"
        by (rule "1.IH"(1) [OF lt _ full "1.prems"]) simp
      with step block show ?thesis by (metis Suc_leI add_leD1 mult_Suc_right not_less add.commute)
    next
      case (Some i)
      then have i: "i < 8" "\<not> bit ?byte i" "\<forall>j<i. bit ?byte j" by (auto simp: clear_bit_Some)
      then have "?byte \<noteq> 0xFF" by (auto simp: byte_full)
      with lt len Some have eq: "pmm_scan b e s =
          Inr (of_nat (8 * b + i) * PAGE_FRAME_SIZE, take_frame (8 * b + i) s)"
        using i(1) by (subst pmm_scan.simps) (simp add: take_frame_def Let_def mult.commute)
      have below: "pf_used s g" if "8 * b \<le> g" "g < 8 * b + i" for g
        using here [of "g - 8 * b"] i that by simp
      from eq below here [of i] i lt show ?thesis
        by (intro disjI1 exI [of _ "8 * b + i"]) auto
    qed
  qed
qed

lemma pmm_alloc_cases:
  assumes "pmm_ok s"
  shows "(\<exists>f. f \<in> managed_frames s \<and> f \<notin> used_frames s \<and>
            (\<forall>g\<in>managed_frames s. g < f \<longrightarrow> g \<in> used_frames s) \<and>
            pmm_alloc_pageframe s = Inr (of_nat f * PAGE_FRAME_SIZE, take_frame f s)) \<or>
         (managed_frames s \<subseteq> used_frames s \<and> pmm_alloc_pageframe s = Inl Assert_Failed)"
  using pmm_scan_cases [of s "unat (alloc_end s)" "unat (alloc_start s)"] assms
  unfolding pmm_ok_def pmm_alloc_pageframe_def managed_frames_def used_frames_def
  by (simp add: subset_iff mult.commute Ball_def) blast

lemma pmm_ok_take_frame:
  assumes "pmm_ok s" and "f \<in> managed_frames s" and "f \<notin> used_frames s"
  shows "pmm_ok (take_frame f s)" and "used_frames (take_frame f s) = insert f (used_frames s)"
proof -
  have f: "f < NUM_PAGE_FRAMES" using assms managed_small by blast
  then show used: "used_frames (take_frame f s) = insert f (used_frames s)"
    using assms by (intro used_take_frame) (simp_all add: pmm_ok_def)
  have "used_frames s \<subseteq> {..<NUM_PAGE_FRAMES}" by (auto simp: used_frames_def pf_used_def)
  then have "card (used_frames s) \<le> NUM_PAGE_FRAMES" using card_mono [of "{..<NUM_PAGE_FRAMES}"] by auto
  then have "unat (total_allocated s + 1) = unat (total_allocated s) + 1"
    using assms(1) by (simp add: pmm_ok_def unat_word_ariths)
  with used assms show "pmm_ok (take_frame f s)"
    by (simp add: pmm_ok_def)
qed

lemma unat_and_7: "unat (x AND 7 :: u32) = unat x mod 8"
  using unat_and_mask_mod [of x 3] by (simp add: mask_eq_exp_minus_1)

lemma unat_drop_3: "unat (drop_bit 3 x :: u32) = unat x div 8"
  using unat_drop_bit [of 3 x] by simp

lemma frame_index:
  assumes "f < NUM_PAGE_FRAMES"
  shows "unat ((of_nat f * PAGE_FRAME_SIZE) div PAGE_FRAME_SIZE) = f"
    and "unat (of_nat f * PAGE_FRAME_SIZE) = f * 4096"
proof -
  have u: "unat (of_nat f :: u32) = f"
    using assms by (simp add: unat_of_nat_small)
  show m: "unat (of_nat f * PAGE_FRAME_SIZE) = f * 4096"
    using assms by (simp add: PAGE_FRAME_SIZE_def unat_word_ariths u)
  then show "unat ((of_nat f * PAGE_FRAME_SIZE) div PAGE_FRAME_SIZE) = f"
    by (simp add: unat_div PAGE_FRAME_SIZE_def)
qed

lemma is_pf_used_eq:
  assumes "length (physical_memory_bitmap s) = NUM_PAGE_FRAMES div 8" and "unat pf < NUM_PAGE_FRAMES"
  shows "is_pf_used pf s = Inr (pf_used s (unat pf))"
  using assms by (simp add: is_pf_used_def unat_drop_3 unat_and_7 pf_used_def drop_bit_and_1)

definition drop_frame :: "nat \<Rightarrow> 'a pmm_state_scheme \<Rightarrow> 'a pmm_state_scheme" where
  "drop_frame f s =
     (let byte = physical_memory_bitmap s ! (f div 8) in
      s\<lparr>physical_memory_bitmap := (physical_memory_bitmap s)
          [f div 8 := byte XOR ((- of_bool False XOR byte) AND push_bit (f mod 8) 1)],
        total_allocated := total_allocated s - 1\<rparr>)"

lemma drop_frame_frame [simp]:
  "page_frame_min (drop_frame f s) = page_frame_min s"
  "page_frame_max (drop_frame f s) = page_frame_max s"
  "total_allocated (drop_frame f s) = total_allocated s - 1"
  "length (physical_memory_bitmap (drop_frame f s)) = length (physical_memory_bitmap s)"
  "eflags (drop_frame f s) = eflags s"
  "cli_level (drop_frame f s) = cli_level s"
  "cli_init_state (drop_frame f s) = cli_init_state s"
  "pmm_state.more (drop_frame f s) = pmm_state.more s"
  "outb_log (drop_frame f s) = outb_log s"
  by (simp_all add: drop_frame_def Let_def)

lemma managed_drop_frame [simp]: "managed_frames (drop_frame f s) = managed_frames s"
  by (rule managed_frames_cong) simp_all

lemma alloc_end_drop_frame [simp]: "alloc_end (drop_frame f s) = alloc_end s"
  by (simp add: alloc_end_def)

lemma used_drop_frame:
  assumes "length (physical_memory_bitmap s) = NUM_PAGE_FRAMES div 8" and "f < NUM_PAGE_FRAMES"
  shows "used_frames (drop_frame f s) = used_frames s - {f}"
proof -
  have "pf_used (drop_frame f s) g \<longleftrightarrow> g \<noteq> f \<and> pf_used s g" for g
  proof (cases "g div 8 = f div 8")
    case True
    then have "g mod 8 = f mod 8 \<longleftrightarrow> g = f" by (metis mod_div_mult_eq)
    with True assms bit_set_byte [where used = False] show ?thesis
      by (auto simp: pf_used_def drop_frame_def Let_def nth_list_update simp del: of_bool_eq)
  next
    case False
    with assms show ?thesis by (auto simp: pf_used_def drop_frame_def Let_def nth_list_update)
  qed
  then show ?thesis by (auto simp: used_frames_def)
qed

lemma pmm_free_eq:
  assumes "length (physical_memory_bitmap s) = NUM_PAGE_FRAMES div 8"
    and "unat (addr div PAGE_FRAME_SIZE) < NUM_PAGE_FRAMES"
  shows "pmm_free_pageframe addr s =
    (if unat (addr div PAGE_FRAME_SIZE) \<in> used_frames s
     then Inr (drop_frame (unat (addr div PAGE_FRAME_SIZE)) s) else Inl Assert_Failed)"
  using assms
  by (simp add: pmm_free_pageframe_def is_pf_used_eq used_frames_def set_pf_used_def drop_frame_def
      unat_drop_3 unat_and_7 Let_def)

lemma pmm_ok_drop_frame:
  assumes "pmm_ok s" and "f \<in> used_frames s"
  shows "pmm_ok (drop_frame f s)" and "used_frames (drop_frame f s) = used_frames s - {f}"
proof -
  have f: "f < NUM_PAGE_FRAMES" using assms(2) by (simp add: used_frames_def pf_used_def)
  then show used: "used_frames (drop_frame f s) = used_frames s - {f}"
    using assms by (intro used_drop_frame) (simp_all add: pmm_ok_def)
  have "0 < card (used_frames s)" using assms(2) by (auto simp: card_gt_0_iff)
  then have "unat (total_allocated s - 1) = unat (total_allocated s) - 1"
    using assms(1) by (simp add: pmm_ok_def unat_sub word_le_nat_alt)
  with used assms show "pmm_ok (drop_frame f s)" by (auto simp: pmm_ok_def)
qed

lemma drop_take_frame:
  assumes "length (physical_memory_bitmap s) = NUM_PAGE_FRAMES div 8" and "f < NUM_PAGE_FRAMES"
    and "f \<notin> used_frames s"
  shows "drop_frame f (take_frame f s) = s"
proof -
  let ?byte = "physical_memory_bitmap s ! (f div 8)" and ?k = "f mod 8"
  have "\<not> bit ?byte ?k" using assms(2,3) by (simp add: used_frames_def pf_used_def)
  then have "mark_bit ?byte ?k XOR ((- of_bool False XOR mark_bit ?byte ?k) AND push_bit ?k 1) = ?byte"
    by (intro bit_word_eqI) (auto simp only: bit_set_byte bit_mark_bit mod_less_divisor split: if_splits)
  with assms(1,2) show ?thesis
    by (simp add: drop_frame_def take_frame_def Let_def)
qed

section \<open>The allocator as a pool of frames\<close>

text \<open>
  The interface the rest of the kernel relies on. \<open>used\<close> is the set of frames handed out,
  \<open>pool\<close> the set the allocator may hand out.
\<close>

locale frame_pool =
  fixes inv :: "'s \<Rightarrow> bool"
    and used :: "'s \<Rightarrow> nat set"
    and pool :: "'s \<Rightarrow> nat set"
    and alloc :: "'s \<Rightarrow> (u32 \<times> 's) res"
    and free :: "u32 \<Rightarrow> 's \<Rightarrow> 's res"
  assumes pool_finite: "inv s \<Longrightarrow> finite (pool s)"
    and pool_small: "inv s \<Longrightarrow> f \<in> pool s \<Longrightarrow> f < 1048576"
    and used_in_pool: "inv s \<Longrightarrow> used s \<subseteq> pool s"
    and alloc_fresh: "inv s \<Longrightarrow> alloc s = Inr (a, t) \<Longrightarrow>
      \<exists>f. a = of_nat f * 4096 \<and> f \<in> pool s \<and> f \<notin> used s \<and> inv t \<and>
        used t = insert f (used s) \<and> pool t = pool s"
    and alloc_total: "inv s \<Longrightarrow> f \<in> pool s \<Longrightarrow> f \<notin> used s \<Longrightarrow> \<exists>r. alloc s = Inr r"
    and free_used: "inv s \<Longrightarrow> f \<in> used s \<Longrightarrow>
      \<exists>t. free (of_nat f * 4096) s = Inr t \<and> inv t \<and> used t = used s - {f} \<and> pool t = pool s"
begin

text \<open>Taking \<open>n\<close> frames one after the other, as the loops over \<open>pmm_alloc_pageframe\<close> do.\<close>

primrec take_n :: "nat \<Rightarrow> 's \<Rightarrow> (u32 list \<times> 's) res" where
  "take_n 0 s = Inr ([], s)"
| "take_n (Suc n) s =
     and_then (alloc s) (\<lambda>(a, s1). and_then (take_n n s1) (\<lambda>(as, s2). Inr (a # as, s2)))"

lemma take_n_fresh:
  "inv s \<Longrightarrow> take_n n s = Inr (as, t) \<Longrightarrow>
   \<exists>fs. as = map (\<lambda>f. of_nat f * 4096) fs \<and> length fs = n \<and> distinct fs \<and> set fs \<inter> used s = {} \<and>
     set fs \<subseteq> pool s \<and> inv t \<and> used t = used s \<union> set fs \<and> pool t = pool s"
proof (induction n arbitrary: s as t)
  case 0
  then show ?case by simp
next
  case (Suc n)
  from Suc.prems(2) obtain a s1 bs where a: "alloc s = Inr (a, s1)"
    and bs: "take_n n s1 = Inr (bs, t)" and as: "as = a # bs"
    by (auto simp: and_then_eq_Inr split: prod.splits)
  from alloc_fresh [OF Suc.prems(1) a] obtain f where f: "a = of_nat f * 4096" "f \<in> pool s"
    "f \<notin> used s" "inv s1" "used s1 = insert f (used s)" "pool s1 = pool s" by blast
  from Suc.IH [OF f(4) bs] obtain fs where "bs = map (\<lambda>f. of_nat f * 4096) fs" "length fs = n"
    "distinct fs" "set fs \<inter> used s1 = {}" "set fs \<subseteq> pool s1" "inv t" "used t = used s1 \<union> set fs"
    "pool t = pool s1" by blast
  with f as show ?case by (intro exI [of _ "f # fs"]) auto
qed

lemma take_n_total:
  "inv s \<Longrightarrow> n \<le> card (pool s - used s) \<Longrightarrow> \<exists>r. take_n n s = Inr r"
proof (induction n arbitrary: s)
  case 0
  then show ?case by simp
next
  case (Suc n)
  then obtain f where "f \<in> pool s - used s" by (metis card.empty not_less_eq_eq all_not_in_conv zero_le)
  with alloc_total [OF Suc.prems(1)] obtain a s1 where a: "alloc s = Inr (a, s1)" by fastforce
  from alloc_fresh [OF Suc.prems(1) a] obtain g where g: "g \<in> pool s" "g \<notin> used s" "inv s1"
    "used s1 = insert g (used s)" "pool s1 = pool s" by blast
  have "pool s1 - used s1 = (pool s - used s) - {g}" using g by auto
  then have "n \<le> card (pool s1 - used s1)"
    using Suc.prems g pool_finite [OF Suc.prems(1)] by simp
  from Suc.IH [OF g(3) this] a show ?case by (auto simp: split: prod.splits)
qed

end

lemma frame_pool_pmm: "frame_pool pmm_ok used_frames managed_frames pmm_alloc_pageframe pmm_free_pageframe"
proof
  fix s t :: "'a pmm_state_scheme" and f :: nat and a :: u32
  assume ok: "pmm_ok s"
  show "finite (managed_frames s)" by (simp add: managed_frames_def)
  show "f < 1048576" if "f \<in> managed_frames s" using managed_small [OF ok that] by simp
  show "used_frames s \<subseteq> managed_frames s" using ok by (simp add: pmm_ok_def)
  show "\<exists>f. a = of_nat f * 4096 \<and> f \<in> managed_frames s \<and> f \<notin> used_frames s \<and> pmm_ok t \<and>
      used_frames t = insert f (used_frames s) \<and> managed_frames t = managed_frames s"
    if "pmm_alloc_pageframe s = Inr (a, t)"
    using pmm_alloc_cases [OF ok] that pmm_ok_take_frame [OF ok] by (auto simp: PAGE_FRAME_SIZE_def)
  show "\<exists>r. pmm_alloc_pageframe s = Inr r" if "f \<in> managed_frames s" "f \<notin> used_frames s"
    using pmm_alloc_cases [OF ok] that by auto
  show "\<exists>t. pmm_free_pageframe (of_nat f * 4096) s = Inr t \<and> pmm_ok t \<and>
      used_frames t = used_frames s - {f} \<and> managed_frames t = managed_frames s"
    if "f \<in> used_frames s"
  proof -
    have "f < NUM_PAGE_FRAMES" using that by (simp add: used_frames_def pf_used_def)
    with pmm_free_eq [of s "of_nat f * PAGE_FRAME_SIZE"] frame_index [of f] ok that
      pmm_ok_drop_frame [OF ok that]
    show ?thesis by (simp add: PAGE_FRAME_SIZE_def pmm_ok_def)
  qed
qed

interpretation pmm: frame_pool pmm_ok used_frames managed_frames pmm_alloc_pageframe pmm_free_pageframe
  by (rule frame_pool_pmm)

section \<open>Properties\<close>

text \<open>C11: \<open>pmm_alloc_pageframe\<close> returns the address of the lowest free frame of the managed
  window and marks exactly that frame, keeping the counter equal to the number of marked
  frames; it stops the kernel exactly when every managed frame is in use.\<close>

theorem pmm_alloc_correct:
  assumes "pmm_ok s"
  shows "if managed_frames s \<subseteq> used_frames s then pmm_alloc_pageframe s = Inl Assert_Failed
    else \<exists>f t. f \<in> managed_frames s \<and> f \<notin> used_frames s \<and>
      (\<forall>g\<in>managed_frames s. g < f \<longrightarrow> g \<in> used_frames s) \<and>
      pmm_alloc_pageframe s = Inr (of_nat f * PAGE_FRAME_SIZE, t) \<and>
      pmm_ok t \<and> used_frames t = insert f (used_frames s) \<and> managed_frames t = managed_frames s \<and>
      pmm_state.more t = pmm_state.more s"
proof (cases "managed_frames s \<subseteq> used_frames s")
  case False
  with pmm_alloc_cases [OF assms] obtain f where f: "f \<in> managed_frames s" "f \<notin> used_frames s"
    "\<forall>g\<in>managed_frames s. g < f \<longrightarrow> g \<in> used_frames s"
    "pmm_alloc_pageframe s = Inr (of_nat f * PAGE_FRAME_SIZE, take_frame f s)" by auto
  from False f pmm_ok_take_frame [OF assms f(1,2)] show ?thesis
    by (auto intro!: exI [of _ f])
qed (use pmm_alloc_cases [OF assms] in auto)

definition example_pmm :: pmm_state where
  "example_pmm = \<lparr>eflags = 0, cli_init_state = False, cli_level = 0, outb_log = [],
     physical_memory_bitmap = replicate 16384 0, page_frame_min = 1024, page_frame_max = 8192,
     total_allocated = 0\<rparr>"

lemma example_pmm_facts:
  "pmm_ok example_pmm" "managed_frames example_pmm = {1024..<8192}" "used_frames example_pmm = {}"
proof -
  show u: "used_frames example_pmm = {}"
    by (auto simp: used_frames_def pf_used_def example_pmm_def)
  show "managed_frames example_pmm = {1024..<8192}"
    by (simp add: managed_frames_def alloc_start_def alloc_end_def example_pmm_def)
  show "pmm_ok example_pmm"
    using u by (simp add: pmm_ok_def) (simp add: alloc_end_def example_pmm_def)
qed

theorem pmm_alloc_correct_witness:
  "\<exists>t. pmm_alloc_pageframe example_pmm = Inr (0x400000, t) \<and> used_frames t = {1024}"
proof -
  have "\<not> managed_frames example_pmm \<subseteq> used_frames example_pmm" by (simp add: example_pmm_facts)
  with pmm_alloc_correct [OF example_pmm_facts(1)] obtain f t where f: "f \<in> {1024..<8192}"
    "\<forall>g\<in>{1024..<8192}. g < f \<longrightarrow> g \<in> {}" "used_frames t = insert f {}"
    "pmm_alloc_pageframe example_pmm = Inr (of_nat f * PAGE_FRAME_SIZE, t)"
    unfolding example_pmm_facts by auto
  from f(1) bspec [OF f(2), of 1024] have "f = 1024" by simp
  with f(3,4) show ?thesis by (simp add: PAGE_FRAME_SIZE_def)
qed

text \<open>Freeing undoes allocating: giving back the frame that \<open>pmm_alloc_pageframe\<close> has just
  returned restores the allocator's state bit for bit. Giving back a frame inside the bitmap
  that is not in use stops the kernel.\<close>

theorem pmm_free_undoes_alloc:
  assumes "pmm_ok s"
  shows "(\<forall>a t. pmm_alloc_pageframe s = Inr (a, t) \<longrightarrow> pmm_free_pageframe a t = Inr s) \<and>
    (\<forall>a. unat (a div PAGE_FRAME_SIZE) < NUM_PAGE_FRAMES \<longrightarrow> unat (a div PAGE_FRAME_SIZE) \<notin> used_frames s \<longrightarrow>
       pmm_free_pageframe a s = Inl Assert_Failed)"
proof (intro conjI allI impI)
  have len: "length (physical_memory_bitmap s) = NUM_PAGE_FRAMES div 8"
    using assms by (simp add: pmm_ok_def)
  fix a t
  assume "pmm_alloc_pageframe s = Inr (a, t)"
  with pmm_alloc_cases [OF assms] obtain f where f: "f \<in> managed_frames s" "f \<notin> used_frames s"
    and at: "a = of_nat f * PAGE_FRAME_SIZE" "t = take_frame f s" by auto
  note small = managed_small [OF assms f(1)]
  have "f \<in> used_frames t" using pmm_ok_take_frame(2) [OF assms f] at by simp
  moreover have "unat (a div PAGE_FRAME_SIZE) = f" using frame_index(1) [OF small] at by simp
  ultimately have "pmm_free_pageframe a t = Inr (drop_frame f t)"
    using pmm_free_eq [of t a] len small at(2) by simp
  then show "pmm_free_pageframe a t = Inr s"
    using drop_take_frame [OF len small f(2)] at(2) by simp
next
  fix a :: u32
  assume "unat (a div PAGE_FRAME_SIZE) < NUM_PAGE_FRAMES" "unat (a div PAGE_FRAME_SIZE) \<notin> used_frames s"
  then show "pmm_free_pageframe a s = Inl Assert_Failed"
    using assms by (simp add: pmm_free_eq pmm_ok_def)
qed

theorem pmm_free_undoes_alloc_witness:
  "\<exists>a t. pmm_alloc_pageframe example_pmm = Inr (a, t) \<and> pmm_free_pageframe a t = Inr example_pmm"
  using pmm_free_undoes_alloc [OF example_pmm_facts(1)] pmm_alloc_cases [OF example_pmm_facts(1)]
  by (auto simp: example_pmm_facts)

text \<open>No frame is handed out twice: \<open>n\<close> successive allocations return \<open>n\<close> different frames,
  none of which was in use before, and they succeed as long as \<open>n\<close> managed frames are free.\<close>

theorem pmm_allocations_distinct:
  assumes "pmm_ok s" and "n \<le> card (managed_frames s - used_frames s)"
  shows "\<exists>fs t. pmm.take_n n s = Inr (map (\<lambda>f. of_nat f * 4096) fs, t) \<and> length fs = n \<and> distinct fs \<and>
    set fs \<inter> used_frames s = {} \<and> set fs \<subseteq> managed_frames s \<and> pmm_ok t \<and>
    used_frames t = used_frames s \<union> set fs"
  using pmm.take_n_total [OF assms] pmm.take_n_fresh [OF assms(1), of n] by fastforce

theorem pmm_allocations_distinct_witness:
  "\<exists>fs t. pmm.take_n 100 example_pmm = Inr (map (\<lambda>f. of_nat f * 4096) fs, t) \<and> length fs = 100 \<and> distinct fs"
  using pmm_allocations_distinct [OF example_pmm_facts(1), of 100]
  by (auto simp: example_pmm_facts)

lemma pmm_scan_overrun:
  assumes "length (physical_memory_bitmap s) = NUM_PAGE_FRAMES div 8" and "NUM_PAGE_FRAMES div 8 < e"
  shows "b \<le> NUM_PAGE_FRAMES div 8 \<Longrightarrow> \<forall>f. 8 * b \<le> f \<longrightarrow> f < NUM_PAGE_FRAMES \<longrightarrow> pf_used s f \<Longrightarrow>
    pmm_scan b e s = Inl Out_Of_Bounds"
proof (induction "NUM_PAGE_FRAMES div 8 - b" arbitrary: b)
  case 0
  then have "b = NUM_PAGE_FRAMES div 8" by simp
  with assms show ?case by (subst pmm_scan.simps) (simp add: in_bounds_def)
next
  case (Suc n)
  then have b: "b < NUM_PAGE_FRAMES div 8" by simp
  have "bit (physical_memory_bitmap s ! b) i" if "i < 8" for i
  proof -
    have "8 * b + i < NUM_PAGE_FRAMES" using b that by simp
    then have "pf_used s (8 * b + i)" using Suc.prems(2) by simp
    then show ?thesis using that by (simp add: pf_used_def)
  qed
  then have "physical_memory_bitmap s ! b = 0xFF" by (simp add: byte_full)
  moreover have "pmm_scan (Suc b) e s = Inl Out_Of_Bounds"
    by (rule Suc.hyps(1)) (use Suc b in auto)
  ultimately show ?case using b assms by (subst pmm_scan.simps) simp
qed

text \<open>The bitmap covers 512 MiB only. When the managed window reaches beyond it (the memory
  size is not checked against the bitmap) and every frame that the bitmap covers is in use,
  the search of \<open>pmm_alloc_pageframe\<close> reads past the end of the array instead of reporting
  that memory is exhausted.\<close>

theorem pmm_alloc_overruns_bitmap:
  assumes "length (physical_memory_bitmap s) = NUM_PAGE_FRAMES div 8"
    and "NUM_PAGE_FRAMES div 8 < unat (alloc_end s)" and "unat (alloc_start s) \<le> NUM_PAGE_FRAMES div 8"
    and "\<forall>f. 8 * unat (alloc_start s) \<le> f \<longrightarrow> f < NUM_PAGE_FRAMES \<longrightarrow> f \<in> used_frames s"
  shows "pmm_alloc_pageframe s = Inl Out_Of_Bounds"
  using pmm_scan_overrun [OF assms(1,2,3)] assms(4)
  by (simp add: pmm_alloc_pageframe_def used_frames_def)

theorem pmm_alloc_overruns_bitmap_witness:
  "pmm_alloc_pageframe (pmm_init 0x400000 0xFFFF0000 example_pmm
     \<lparr>physical_memory_bitmap := replicate 16384 0xFF\<rparr>) = Inl Out_Of_Bounds"
proof (rule pmm_alloc_overruns_bitmap)
  let ?s = "pmm_init 0x400000 0xFFFF0000 example_pmm\<lparr>physical_memory_bitmap := replicate 16384 0xFF\<rparr>"
  have "alloc_start ?s = 128" "alloc_end ?s = 0x1FFFE"
    by (simp_all add: alloc_start_def alloc_end_def pmm_init_def CEIL_DIV_def)
  then show "NUM_PAGE_FRAMES div 8 < unat (alloc_end ?s)" "unat (alloc_start ?s) \<le> NUM_PAGE_FRAMES div 8"
    by simp_all
  have "bit (0xFF :: u8) i" if "i < 8" for i using byte_full [of "0xFF"] that by simp
  then show "\<forall>f. 8 * unat (alloc_start ?s) \<le> f \<longrightarrow> f < NUM_PAGE_FRAMES \<longrightarrow> f \<in> used_frames ?s"
    by (simp add: used_frames_def pf_used_def)
qed simp

end
