(* ===== verification/Paging.thy ===== *)
theory Paging
  imports Physalloc
begin

text \<open>
  The page-table code of \<open>kernel/memory.c\<close>. Physical memory is a function from frame numbers
  to 1024 words; \<open>CR3\<close> selects the current page directory; the address translation of the
  MMU is \<open>mmu_walk\<close>, and every access of the code through the recursive mapping
  (\<open>REC_PAGEDIR\<close>, \<open>REC_PAGETABLE\<close>) is a translated access. The kernel image, and so the
  static arrays \<open>initial_page_dir\<close> and \<open>page_dirs\<close>, is mapped linearly at \<open>KERNEL_START\<close>
  by \<open>boot.asm\<close>: an access to those arrays is an access to the physical frame. The TLB is not
  modelled, so the calls of \<open>invalidate\<close> have no counterpart here. (Its \<open>invlpg\<close> has the variable that holds
  the address as its memory operand, and so flushes the page of the stack, not the page that has changed.)
\<close>

section \<open>State\<close>

record vm_state = pmm_state +
  pmem :: "nat \<Rightarrow> nat \<Rightarrow> u32"
  cr3 :: u32
  initial_page_dir :: u32
  page_dirs :: u32
  page_dir_used :: "bool list"
  mem_num_vpages :: u32

definition NUM_PAGE_DIRS :: nat where
  "NUM_PAGE_DIRS = 256"

definition KERNEL_START :: u32 where
  "KERNEL_START = 0xC0000000"

definition PAGE_FLAG_PRESENT :: u32 where "PAGE_FLAG_PRESENT = 1"

definition PAGE_FLAG_WRITE :: u32 where "PAGE_FLAG_WRITE = 2"

definition PAGE_FLAG_USER :: u32 where "PAGE_FLAG_USER = 4"

definition PAGE_FLAG_4MB :: u32 where "PAGE_FLAG_4MB = 0x80"

definition PAGE_FLAG_OWNER :: u32 where "PAGE_FLAG_OWNER = 0x200"

definition P_PHYS_ADDR :: "u32 \<Rightarrow> u32" where
  "P_PHYS_ADDR x = x AND NOT 0xFFF"

definition REC_PAGEDIR :: u32 where
  "REC_PAGEDIR = 0xFFFFF000"

definition REC_PAGETABLE :: "u32 \<Rightarrow> u32" where
  "REC_PAGETABLE i = 0xFFC00000 + push_bit 12 i"

section \<open>The MMU\<close>

definition frame_of :: "u32 \<Rightarrow> nat" where
  "frame_of x = unat (drop_bit 12 x)"

definition pd_index :: "u32 \<Rightarrow> nat" where
  "pd_index va = unat (drop_bit 22 va)"

definition pt_index :: "u32 \<Rightarrow> nat" where
  "pt_index va = unat (drop_bit 12 va AND 0x3FF)"

definition word_index :: "u32 \<Rightarrow> nat" where
  "word_index va = unat (va AND 0xFFF) div 4"

definition present :: "u32 \<Rightarrow> bool" where
  "present e \<longleftrightarrow> e AND PAGE_FLAG_PRESENT \<noteq> 0"

definition owner :: "u32 \<Rightarrow> bool" where
  "owner e \<longleftrightarrow> e AND PAGE_FLAG_OWNER \<noteq> 0"

definition large :: "u32 \<Rightarrow> bool" where
  "large e \<longleftrightarrow> e AND PAGE_FLAG_4MB \<noteq> 0"

text \<open>The frame a virtual address translates to under the directory in frame \<open>d\<close>; \<open>None\<close>
  is a page fault.\<close>

definition mmu_walk :: "(nat \<Rightarrow> nat \<Rightarrow> u32) \<Rightarrow> nat \<Rightarrow> u32 \<Rightarrow> nat option" where
  "mmu_walk m d va =
     (let pde = m d (pd_index va) in
      if \<not> present pde then None
      else if large pde then Some (frame_of pde div 1024 * 1024 + pt_index va)
      else let pte = m (frame_of pde) (pt_index va) in
        if \<not> present pte then None else Some (frame_of pte))"

definition cur_dir :: "'a vm_state_scheme \<Rightarrow> nat" where
  "cur_dir s = frame_of (cr3 s)"

definition translate :: "'a vm_state_scheme \<Rightarrow> u32 \<Rightarrow> nat option" where
  "translate s va = mmu_walk (pmem s) (cur_dir s) va"

definition vload :: "u32 \<Rightarrow> 'a vm_state_scheme \<Rightarrow> u32 res" where
  "vload va s = (case translate s va of
     None \<Rightarrow> Inl Page_Fault | Some f \<Rightarrow> Inr (pmem s f (word_index va)))"

definition put_word :: "nat \<Rightarrow> nat \<Rightarrow> u32 \<Rightarrow> 'a vm_state_scheme \<Rightarrow> 'a vm_state_scheme" where
  "put_word f i v s = s\<lparr>pmem := (pmem s)(f := (pmem s f)(i := v))\<rparr>"

definition vstore :: "u32 \<Rightarrow> u32 \<Rightarrow> 'a vm_state_scheme \<Rightarrow> 'a vm_state_scheme res" where
  "vstore va v s = (case translate s va of
     None \<Rightarrow> Inl Page_Fault | Some f \<Rightarrow> Inr (put_word f (word_index va) v s))"

text \<open>Element \<open>i\<close> of the \<open>uint32_t\<close> array at \<open>p\<close>.\<close>

definition elem :: "u32 \<Rightarrow> nat \<Rightarrow> u32" where
  "elem p i = p + 4 * of_nat i"

text \<open>The frame behind a pointer into the kernel image.\<close>

definition kframe :: "u32 \<Rightarrow> nat" where
  "kframe p = frame_of (p - KERNEL_START)"

definition page_dir_ptr :: "nat \<Rightarrow> 'a vm_state_scheme \<Rightarrow> u32" where
  "page_dir_ptr i s = page_dirs s + of_nat (i * 4096)"

section \<open>Operations\<close>

definition mem_change_page_directory :: "u32 \<Rightarrow> 'a vm_state_scheme \<Rightarrow> 'a vm_state_scheme res" where
  "mem_change_page_directory pd s =
     kassert (pd > KERNEL_START) (Inr (s\<lparr>cr3 := pd - KERNEL_START\<rparr>))"

definition mem_get_current_page_directory :: "'a vm_state_scheme \<Rightarrow> u32" where
  "mem_get_current_page_directory s = cr3 s + KERNEL_START"

text \<open>Copy the kernel part of \<open>initial_page_dir\<close> into the directory at \<open>pd\<close>.\<close>

definition copy_kernel_part :: "u32 \<Rightarrow> 'a vm_state_scheme \<Rightarrow> 'a vm_state_scheme" where
  "copy_kernel_part pd s =
     fold (\<lambda>i t. put_word (kframe pd) i
       (pmem t (kframe (initial_page_dir t)) i AND NOT PAGE_FLAG_OWNER) t) [768..<1023] s"

definition sync_page_dirs :: "'a vm_state_scheme \<Rightarrow> 'a vm_state_scheme res" where
  "sync_page_dirs s =
     verify_interrupts_disabled s
       (Inr (fold (\<lambda>i t. if page_dir_used t ! i then copy_kernel_part (page_dir_ptr i t) t else t)
          [0..<NUM_PAGE_DIRS] s))"

definition init_memory :: "u32 \<Rightarrow> 'a vm_state_scheme \<Rightarrow> 'a vm_state_scheme" where
  "init_memory mem_high s =
     (let ipd = initial_page_dir s;
          s1 = put_word (kframe ipd) 0 0 (s\<lparr>mem_num_vpages := 0\<rparr>);
          s2 = put_word (kframe ipd) 1023
                 ((ipd - KERNEL_START) OR PAGE_FLAG_PRESENT OR PAGE_FLAG_WRITE) s1;
          s3 = pmm_init (0x100000 * 4) mem_high s2;
          s4 = fold (\<lambda>i t. fold (\<lambda>j. put_word (kframe (page_dir_ptr i t)) j 0) [0..<1024] t)
                 [0..<NUM_PAGE_DIRS] s3
      in s4\<lparr>page_dir_used := replicate NUM_PAGE_DIRS False\<rparr>)"

text \<open>The start and the end of an operation on a kernel address: switch to
  \<open>initial_page_dir\<close>, and afterwards sync the other directories and switch back. \<open>0\<close> is
  the null pointer of \<open>prev_page_dir\<close>.\<close>

definition enter_kernel_dir :: "u32 \<Rightarrow> 'a vm_state_scheme \<Rightarrow> (u32 \<times> 'a vm_state_scheme) res" where
  "enter_kernel_dir virt_addr s =
     (if virt_addr \<ge> KERNEL_START then
        let prev = mem_get_current_page_directory s in
        if prev \<noteq> initial_page_dir s
        then and_then (mem_change_page_directory (initial_page_dir s) s) (\<lambda>s1. Inr (prev, s1))
        else Inr (prev, s)
      else Inr (0, s))"

definition leave_kernel_dir :: "u32 \<Rightarrow> 'a vm_state_scheme \<Rightarrow> 'a vm_state_scheme res" where
  "leave_kernel_dir prev s =
     (if prev \<noteq> 0 then
        and_then (sync_page_dirs s) (\<lambda>s1.
          if prev \<noteq> initial_page_dir s1 then mem_change_page_directory prev s1 else Inr s1)
      else Inr s)"

text \<open>Allocate and clear a page table for directory entry \<open>pd\<close>.\<close>

definition create_page_table :: "u32 \<Rightarrow> u32 \<Rightarrow> 'a vm_state_scheme \<Rightarrow> 'a vm_state_scheme res" where
  "create_page_table pd flags s =
     and_then (pmm_alloc_pageframe s) (\<lambda>(pt_paddr, s1).
     and_then (vstore (elem REC_PAGEDIR (unat pd))
       (pt_paddr OR PAGE_FLAG_PRESENT OR PAGE_FLAG_WRITE OR PAGE_FLAG_OWNER OR flags) s1) (\<lambda>s2.
     for_res 0 1024 (\<lambda>i. vstore (elem (REC_PAGETABLE pd) i) 0) s2))"

text \<open>Lines 99--124 of \<open>memory.c\<close>: enter a page into the current directory.\<close>

definition map_body :: "u32 \<Rightarrow> u32 \<Rightarrow> u32 \<Rightarrow> 'a vm_state_scheme \<Rightarrow> 'a vm_state_scheme res" where
  "map_body virt_addr phys_addr flags s =
     (let pd = drop_bit 22 virt_addr;
          pt = drop_bit 12 virt_addr AND 0x3FF
      in
      and_then (vload (elem REC_PAGEDIR (unat pd)) s) (\<lambda>pde.
      and_then (if pde AND PAGE_FLAG_PRESENT = 0 then create_page_table pd flags s else Inr s) (\<lambda>s1.
      and_then (vstore (elem (REC_PAGETABLE pd) (unat pt)) (phys_addr OR PAGE_FLAG_PRESENT OR flags) s1) (\<lambda>s2.
      Inr (s2\<lparr>mem_num_vpages := mem_num_vpages s2 + 1\<rparr>)))))"

definition mem_map_page :: "u32 \<Rightarrow> u32 \<Rightarrow> u32 \<Rightarrow> 'a vm_state_scheme \<Rightarrow> 'a vm_state_scheme res" where
  "mem_map_page virt_addr phys_addr flags s =
     verify_interrupts_disabled s
       (and_then (enter_kernel_dir virt_addr s) (\<lambda>(prev, s1).
        and_then (map_body virt_addr phys_addr flags s1) (leave_kernel_dir prev)))"

text \<open>Give an empty page table back, if we own it.\<close>

definition release_page_table :: "u32 \<Rightarrow> 'a vm_state_scheme \<Rightarrow> 'a vm_state_scheme res" where
  "release_page_table pd s =
     and_then (vload (elem REC_PAGEDIR (unat pd)) s) (\<lambda>pde.
     if pde AND PAGE_FLAG_OWNER \<noteq> 0 then
       and_then (pmm_free_pageframe (P_PHYS_ADDR pde) s) (\<lambda>s1.
       vstore (elem REC_PAGEDIR (unat pd)) 0 s1)
     else Inr s)"

text \<open>Lines 156--198: remove a page from the current directory and return its entry.\<close>

definition unmap_body :: "u32 \<Rightarrow> 'a vm_state_scheme \<Rightarrow> (u32 \<times> 'a vm_state_scheme) res" where
  "unmap_body virt_addr s =
     (let pd = drop_bit 22 virt_addr;
          pt = drop_bit 12 virt_addr AND 0x3FF
      in
      and_then (vload (elem REC_PAGEDIR (unat pd)) s) (\<lambda>pd_entry.
      kassert (pd_entry AND PAGE_FLAG_PRESENT \<noteq> 0)
      (and_then (vload (elem (REC_PAGETABLE pd) (unat pt)) s) (\<lambda>pte.
      kassert (pte AND PAGE_FLAG_PRESENT \<noteq> 0)
      (and_then (vstore (elem (REC_PAGETABLE pd) (unat pt)) 0 s) (\<lambda>s1.
      let s2 = s1\<lparr>mem_num_vpages := mem_num_vpages s1 - 1\<rparr> in
      and_then (exists_res 0 1024 (\<lambda>i.
          and_then (vload (elem (REC_PAGETABLE pd) i) s2) (\<lambda>e. Inr (e AND PAGE_FLAG_PRESENT \<noteq> 0)))) (\<lambda>keep.
      and_then (if keep then Inr s2 else release_page_table pd s2) (\<lambda>s3.
      and_then (if pte AND PAGE_FLAG_OWNER \<noteq> 0 then pmm_free_pageframe (P_PHYS_ADDR pte) s3 else Inr s3) (\<lambda>s4.
      Inr (pte, s4))))))))))"

definition mem_unmap_page :: "u32 \<Rightarrow> 'a vm_state_scheme \<Rightarrow> (u32 \<times> 'a vm_state_scheme) res" where
  "mem_unmap_page virt_addr s =
     verify_interrupts_disabled s
       (and_then (enter_kernel_dir virt_addr s) (\<lambda>(prev, s1).
        and_then (unmap_body virt_addr s1) (\<lambda>(pte, s2).
        and_then (leave_kernel_dir prev s2) (\<lambda>s3. Inr (pte, s3)))))"

definition mem_alloc_page_dir :: "'a vm_state_scheme \<Rightarrow> (u32 \<times> 'a vm_state_scheme) res" where
  "mem_alloc_page_dir s =
     verify_interrupts_disabled s
       (case first_index (\<lambda>i. \<not> page_dir_used s ! i) NUM_PAGE_DIRS of
          None \<Rightarrow> Inl Assert_Failed
        | Some i \<Rightarrow>
            let page_dir = page_dir_ptr i s;
                s1 = s\<lparr>page_dir_used := (page_dir_used s)[i := True]\<rparr>;
                s2 = fold (\<lambda>j. put_word (kframe page_dir) j 0) [0..<1024] s1;
                s3 = fold (\<lambda>j. put_word (kframe page_dir) j 0) [0..<768] s2;
                s4 = copy_kernel_part page_dir s3
            in Inr (page_dir, put_word (kframe page_dir) 1023
                 ((page_dir - KERNEL_START) OR PAGE_FLAG_PRESENT OR PAGE_FLAG_WRITE) s4))"

text \<open>One iteration of the loop of \<open>mem_free_page_dir\<close>: give back the frames that entry
  \<open>i\<close> owns, clear its page table and give that back.\<close>

definition free_pde :: "nat \<Rightarrow> 'a vm_state_scheme \<Rightarrow> 'a vm_state_scheme res" where
  "free_pde i s =
     and_then (vload (elem REC_PAGEDIR i) s) (\<lambda>pde.
     if pde = 0 then Inr s
     else
       and_then (for_res 0 1024 (\<lambda>j t.
         and_then (vload (elem (REC_PAGETABLE (of_nat i)) j) t) (\<lambda>pte.
         if pte AND PAGE_FLAG_OWNER \<noteq> 0 then pmm_free_pageframe (P_PHYS_ADDR pte) t else Inr t)) s) (\<lambda>s1.
       and_then (for_res 0 1024 (\<lambda>j. vstore (elem (REC_PAGETABLE (of_nat i)) j) 0) s1) (\<lambda>s2.
       and_then (if pde AND PAGE_FLAG_OWNER \<noteq> 0 then pmm_free_pageframe (P_PHYS_ADDR pde) s2 else Inr s2) (\<lambda>s3.
       vstore (elem REC_PAGEDIR i) 0 s3))))"

definition mem_free_page_dir :: "u32 \<Rightarrow> 'a vm_state_scheme \<Rightarrow> 'a vm_state_scheme res" where
  "mem_free_page_dir page_dir s =
     verify_interrupts_disabled s
       (let prev = mem_get_current_page_directory s in
        and_then (mem_change_page_directory page_dir s) (\<lambda>s1.
        let pagedir_index = (page_dir - page_dirs s1) div 4096 in
        and_then (for_res 0 768 free_pde s1) (\<lambda>s2.
        in_bounds (unat pagedir_index) NUM_PAGE_DIRS
          (mem_change_page_directory prev
             (s2\<lparr>page_dir_used := (page_dir_used s2)[unat pagedir_index := False]\<rparr>)))))"

definition mem_get_phys_from_virt :: "u32 \<Rightarrow> 'a vm_state_scheme \<Rightarrow> u32 res" where
  "mem_get_phys_from_virt virt_addr s =
     verify_interrupts_disabled s
       (let pd = drop_bit 22 virt_addr in
        and_then (vload (elem REC_PAGEDIR (unat pd)) s) (\<lambda>pde.
        if pde AND PAGE_FLAG_PRESENT = 0 then Inr (- 1)
        else
          let pt = drop_bit 12 virt_addr AND 0x3FF in
          and_then (vload (elem (REC_PAGETABLE pd) (unat pt)) s) (\<lambda>pte.
          Inr (P_PHYS_ADDR pte))))"

definition mem_is_valid_vaddr :: "u32 \<Rightarrow> 'a vm_state_scheme \<Rightarrow> bool res" where
  "mem_is_valid_vaddr vaddr s =
     verify_interrupts_disabled s
       (let pd = drop_bit 22 vaddr;
            pt = drop_bit 12 vaddr AND 0x3FF
        in
        and_then (vload (elem REC_PAGEDIR (unat pd)) s) (\<lambda>pd_entry.
        if pd_entry AND PAGE_FLAG_PRESENT = 0 then Inr False
        else
          and_then (vload (elem (REC_PAGETABLE pd) (unat pt)) s) (\<lambda>pt_entry.
          Inr (pt_entry AND PAGE_FLAG_PRESENT \<noteq> 0))))"

end
