(* ===== verification/Paging_Facts.thy ===== *)
theory Paging_Facts
  imports Paging
begin

text \<open>
  Facts about the page-table code: where the recursive mapping lands, the closed form of each
  operation of \<open>Paging\<close>, the invariant \<open>vm_ok\<close> of the directories and its preservation.
\<close>

section \<open>Address arithmetic\<close>

lemma pd_index_div: "pd_index va = unat va div 4194304"
  by (simp add: pd_index_def unat_drop_bit)

lemma pt_index_div: "pt_index va = unat va div 4096 mod 1024"
  using unat_and_mask_mod [of "drop_bit 12 va" 10]
  by (simp add: pt_index_def unat_drop_bit mask_eq_exp_minus_1)

lemma word_index_div: "word_index va = unat va mod 4096 div 4"
  using unat_and_mask_mod [of va 12] by (simp add: word_index_def mask_eq_exp_minus_1)

lemma frame_of_div: "frame_of x = unat x div 4096"
  by (simp add: frame_of_def unat_drop_bit)

lemma index_bounds [simp]: "pd_index va < 1024" "pt_index va < 1024" "word_index va < 1024"
  using unsigned_less [of va, where 'a = nat]
  by (simp_all add: pd_index_div pt_index_div word_index_div)

lemma unat_elem_REC_PAGETABLE:
  assumes "unat pd < 1024" and "j < 1024"
  shows "unat (elem (REC_PAGETABLE pd) j) = 4290772992 + 4096 * unat pd + 4 * j"
proof -
  have p: "unat (push_bit 12 pd) = 4096 * unat pd"
    using assms(1) by (simp add: push_bit_eq_mult unat_word_ariths)
  then have r: "unat (REC_PAGETABLE pd) = 4290772992 + 4096 * unat pd"
    using assms(1) by (simp add: REC_PAGETABLE_def unat_add_small)
  have j: "unat (4 * of_nat j :: u32) = 4 * j"
    using assms(2) by (simp add: unat_mult_small unat_of_nat_small)
  show ?thesis
    using assms r j by (simp add: elem_def unat_add_small)
qed

lemma REC_indices:
  assumes "unat pd < 1024" and "j < 1024"
  shows "pd_index (elem (REC_PAGETABLE pd) j) = 1023"
    and "pt_index (elem (REC_PAGETABLE pd) j) = unat pd"
    and "word_index (elem (REC_PAGETABLE pd) j) = j"
proof -
  have "4290772992 + 4096 * unat pd + 4 * j = 4096 * (1047552 + unat pd) + 4 * j" by simp
  then have d: "(4290772992 + 4096 * unat pd + 4 * j) div 4096 = 1047552 + unat pd"
    and m: "(4290772992 + 4096 * unat pd + 4 * j) mod 4096 = 4 * j"
    using assms(2) by (simp_all only: div_mult_self4 mod_mult_self4) simp_all
  show "pd_index (elem (REC_PAGETABLE pd) j) = 1023"
    using assms by (simp add: pd_index_div unat_elem_REC_PAGETABLE)
  show "pt_index (elem (REC_PAGETABLE pd) j) = unat pd"
    using assms d mod_mult_self4 [of 1024 1023 "unat pd"]
    by (simp add: pt_index_div unat_elem_REC_PAGETABLE)
  show "word_index (elem (REC_PAGETABLE pd) j) = j"
    using assms m by (simp add: word_index_div unat_elem_REC_PAGETABLE)
qed

lemma REC_PAGEDIR_table: "REC_PAGEDIR = REC_PAGETABLE 1023"
  by (simp add: REC_PAGEDIR_def REC_PAGETABLE_def)

lemma small_drop: "unat (fl :: u32) < 4096 \<Longrightarrow> drop_bit 12 fl = 0"
  by (simp only: word_unat_eq_iff unat_drop_bit) simp

text \<open>The flag constants do not reach the frame number.\<close>

lemma flag_drops [simp]:
  "drop_bit 12 PAGE_FLAG_PRESENT = 0" "drop_bit 12 PAGE_FLAG_WRITE = 0"
  "drop_bit 12 PAGE_FLAG_USER = 0" "drop_bit 12 PAGE_FLAG_OWNER = 0"
  by (simp_all add: small_drop PAGE_FLAG_PRESENT_def PAGE_FLAG_WRITE_def PAGE_FLAG_USER_def
      PAGE_FLAG_OWNER_def)

section \<open>The recursive mapping\<close>

definition self_map :: "(nat \<Rightarrow> nat \<Rightarrow> u32) \<Rightarrow> nat \<Rightarrow> bool" where
  "self_map m d \<longleftrightarrow> present (m d 1023) \<and> \<not> large (m d 1023) \<and> frame_of (m d 1023) = d"

lemma translate_REC_PAGETABLE:
  assumes "self_map (pmem s) (cur_dir s)" and "unat pd < 1024" and "j < 1024"
  shows "translate s (elem (REC_PAGETABLE pd) j) =
    (if present (pmem s (cur_dir s) (unat pd)) then Some (frame_of (pmem s (cur_dir s) (unat pd)))
     else None)"
  using assms by (simp add: translate_def mmu_walk_def REC_indices self_map_def Let_def)

lemma translate_REC_PAGEDIR:
  assumes "self_map (pmem s) (cur_dir s)" and "j < 1024"
  shows "translate s (elem REC_PAGEDIR j) = Some (cur_dir s)"
  using translate_REC_PAGETABLE [OF assms(1), of 1023 j] assms
  by (simp add: REC_PAGEDIR_table self_map_def)

lemma vload_dir [simp]:
  "self_map (pmem s) (cur_dir s) \<Longrightarrow> j < 1024 \<Longrightarrow>
   vload (elem REC_PAGEDIR j) s = Inr (pmem s (cur_dir s) j)"
  using REC_indices(3) [of 1023 j] by (simp add: vload_def translate_REC_PAGEDIR REC_PAGEDIR_table [symmetric])

lemma vstore_dir [simp]:
  "self_map (pmem s) (cur_dir s) \<Longrightarrow> j < 1024 \<Longrightarrow>
   vstore (elem REC_PAGEDIR j) v s = Inr (put_word (cur_dir s) j v s)"
  using REC_indices(3) [of 1023 j] by (simp add: vstore_def translate_REC_PAGEDIR REC_PAGEDIR_table [symmetric])

lemma vload_table:
  "self_map (pmem s) (cur_dir s) \<Longrightarrow> unat pd < 1024 \<Longrightarrow> j < 1024 \<Longrightarrow>
   present (pmem s (cur_dir s) (unat pd)) \<Longrightarrow>
   vload (elem (REC_PAGETABLE pd) j) s = Inr (pmem s (frame_of (pmem s (cur_dir s) (unat pd))) j)"
  by (simp add: vload_def translate_REC_PAGETABLE REC_indices)

lemma vstore_table:
  "self_map (pmem s) (cur_dir s) \<Longrightarrow> unat pd < 1024 \<Longrightarrow> j < 1024 \<Longrightarrow>
   present (pmem s (cur_dir s) (unat pd)) \<Longrightarrow>
   vstore (elem (REC_PAGETABLE pd) j) v s =
     Inr (put_word (frame_of (pmem s (cur_dir s) (unat pd))) j v s)"
  by (simp add: vstore_def translate_REC_PAGETABLE REC_indices)

text \<open>Writes to memory change only the row they name.\<close>

definition put_row :: "nat \<Rightarrow> (nat \<Rightarrow> u32) \<Rightarrow> 'a vm_state_scheme \<Rightarrow> 'a vm_state_scheme" where
  "put_row f r s = s\<lparr>pmem := (pmem s)(f := r)\<rparr>"

lemma put_row_simps [simp]:
  "pmem (put_row f r s) = (pmem s)(f := r)"
  "cr3 (put_row f r s) = cr3 s"
  "initial_page_dir (put_row f r s) = initial_page_dir s"
  "page_dirs (put_row f r s) = page_dirs s"
  "page_dir_used (put_row f r s) = page_dir_used s"
  "mem_num_vpages (put_row f r s) = mem_num_vpages s"
  "vm_state.more (put_row f r s) = vm_state.more s"
  "physical_memory_bitmap (put_row f r s) = physical_memory_bitmap s"
  "page_frame_min (put_row f r s) = page_frame_min s"
  "page_frame_max (put_row f r s) = page_frame_max s"
  "total_allocated (put_row f r s) = total_allocated s"
  "eflags (put_row f r s) = eflags s"
  "cur_dir (put_row f r s) = cur_dir s"
  "put_row f r (put_row f r' s) = put_row f r s"
  by (simp_all add: put_row_def cur_dir_def)

lemma put_word_row: "put_word f i v s = put_row f ((pmem s f)(i := v)) s"
  by (simp add: put_word_def put_row_def)

lemma put_row_id: "r = pmem s f \<Longrightarrow> put_row f r s = s"
  by (simp add: put_row_def)

text \<open>A run of writes \<open>r i\<close> to the elements \<open>lo..<hi\<close> of one row.\<close>

lemma fold_put_word:
  "fold (\<lambda>i. put_word f i (v i)) [lo..<hi] s =
   put_row f (\<lambda>i. if lo \<le> i \<and> i < hi then v i else pmem s f i) s"
proof (induction hi)
  case 0
  then show ?case by (simp add: put_row_id)
next
  case (Suc hi)
  show ?case
  proof (cases "lo \<le> hi")
    case True
    with Suc show ?thesis by (auto simp: put_word_row fun_eq_iff intro!: arg_cong2 [where f = "put_row f"])
  next
    case False
    then have "(\<lambda>i. if lo \<le> i \<and> i < Suc hi then v i else pmem s f i) = pmem s f"
      by (auto simp: fun_eq_iff)
    with False show ?thesis by (simp add: put_row_id)
  qed
qed

definition zero_row :: "(nat \<Rightarrow> u32) \<Rightarrow> nat \<Rightarrow> u32" where
  "zero_row r = (\<lambda>i. if i < 1024 then 0 else r i)"

lemma zero_row_simps [simp]: "i < 1024 \<Longrightarrow> zero_row r i = 0"
  by (simp add: zero_row_def)

lemma clear_table:
  assumes "self_map (pmem s) (cur_dir s)" and "unat pd < 1024"
    and "present (pmem s (cur_dir s) (unat pd))"
    and f: "frame_of (pmem s (cur_dir s) (unat pd)) = f" and "f \<noteq> cur_dir s"
  shows "for_res 0 1024 (\<lambda>i. vstore (elem (REC_PAGETABLE pd) i) 0) s =
    Inr (put_row f (zero_row (pmem s f)) s)"
proof -
  let ?I = "\<lambda>n t. t = put_row f (\<lambda>i. if i < n then 0 else pmem s f i) s"
  have "\<exists>t. for_res 0 1024 (\<lambda>i. vstore (elem (REC_PAGETABLE pd) i) 0) s = Inr t \<and> ?I 1024 t"
  proof (rule for_res_rule)
    show "?I 0 s" by (simp add: put_row_id)
    fix i t assume i: "i < (1024 :: nat)" and t: "?I i t"
    have "self_map (pmem t) (cur_dir t)" "present (pmem t (cur_dir t) (unat pd))"
      "frame_of (pmem t (cur_dir t) (unat pd)) = f"
      using assms by (simp_all add: t self_map_def)
    with i assms(2) have "vstore (elem (REC_PAGETABLE pd) i) 0 t = Inr (put_word f i 0 t)"
      by (simp add: vstore_table)
    moreover have "put_word f i 0 t = put_row f (\<lambda>k. if k < Suc i then 0 else pmem s f k) s"
      by (auto simp: t put_word_row fun_eq_iff less_Suc_eq intro!: arg_cong2 [where f = "put_row f"])
    ultimately show "\<exists>t'. vstore (elem (REC_PAGETABLE pd) i) 0 t = Inr t' \<and> ?I (Suc i) t'" by simp
  qed simp
  then show ?thesis by (auto simp: zero_row_def)
qed

section \<open>Pointers and directories\<close>

text \<open>
  \<open>layout_ok\<close> is what the linker script gives: the static directories are page aligned, lie
  in the part of the address space that is mapped linearly, and do not overlap.
  \<open>dir_ptrs\<close> are the directories in use.
\<close>

definition layout_ok :: "'a vm_state_scheme \<Rightarrow> bool" where
  "layout_ok s \<longleftrightarrow>
     unat (initial_page_dir s) mod 4096 = 0 \<and> unat (page_dirs s) mod 4096 = 0 \<and>
     3221225472 < unat (initial_page_dir s) \<and> unat (initial_page_dir s) + 4096 \<le> 3238002688 \<and>
     3221225472 < unat (page_dirs s) \<and> unat (page_dirs s) + 1048576 \<le> 3238002688 \<and>
     (unat (initial_page_dir s) < unat (page_dirs s) \<or>
      unat (page_dirs s) + 1048576 \<le> unat (initial_page_dir s))"

definition dir_ptrs :: "'a vm_state_scheme \<Rightarrow> u32 set" where
  "dir_ptrs s = insert (initial_page_dir s)
     {page_dir_ptr i s | i. i < NUM_PAGE_DIRS \<and> page_dir_used s ! i}"

definition dir_frames :: "'a vm_state_scheme \<Rightarrow> nat set" where
  "dir_frames s = kframe ` dir_ptrs s"

definition ipd_frame :: "'a vm_state_scheme \<Rightarrow> nat" where
  "ipd_frame s = kframe (initial_page_dir s)"

lemma unat_page_dir_ptr:
  assumes "layout_ok s" and "i < NUM_PAGE_DIRS"
  shows "unat (page_dir_ptr i s) = unat (page_dirs s) + i * 4096"
proof -
  have "unat (of_nat (i * 4096) :: u32) = i * 4096"
    using assms(2) by (intro unat_of_nat_small) (simp add: NUM_PAGE_DIRS_def)
  with assms show ?thesis
    by (simp add: page_dir_ptr_def unat_add_small layout_ok_def NUM_PAGE_DIRS_def)
qed

lemma kframe_eq:
  assumes "3221225472 \<le> unat p"
  shows "kframe p = unat p div 4096 - 786432"
proof -
  have "unat (p - KERNEL_START) = unat p - 3221225472"
    using assms by (simp add: unat_sub word_le_nat_alt KERNEL_START_def)
  then show ?thesis
    using div_add_self2 [of 4096 "unat p - 3221225472"] assms
      by (simp add: kframe_def frame_of_div)
qed

lemma dir_ptrs_facts:
  assumes "layout_ok s" and "p \<in> dir_ptrs s"
  shows "3221225472 < unat p" and "unat p mod 4096 = 0" and "KERNEL_START < p"
    and "kframe p = unat p div 4096 - 786432"
proof -
  show *: "3221225472 < unat p"
    using assms by (auto simp: dir_ptrs_def layout_ok_def unat_page_dir_ptr)
  show "unat p mod 4096 = 0"
    using assms by (auto simp: dir_ptrs_def unat_page_dir_ptr) (auto simp: layout_ok_def)
  show "KERNEL_START < p" using * by (simp add: KERNEL_START_def word_less_nat_alt)
  show "kframe p = unat p div 4096 - 786432" using * by (simp add: kframe_eq)
qed

lemma kframe_inj:
  assumes "layout_ok s" and "p \<in> dir_ptrs s" and "q \<in> dir_ptrs s" and "kframe p = kframe q"
  shows "p = q"
proof -
  note f = dir_ptrs_facts [OF assms(1,2)] and g = dir_ptrs_facts [OF assms(1,3)]
  have "786432 \<le> unat p div 4096" "786432 \<le> unat q div 4096" using f(1) g(1) by simp_all
  then have "unat p div 4096 = unat q div 4096" using assms(4) f(4) g(4) eq_diff_iff by metis
  then have "unat p = unat q" using f(2) g(2) by (metis div_mult_mod_eq)
  then show ?thesis by (simp add: word_unat_eq_iff)
qed

lemma cur_dir_kframe: "cur_dir s = kframe (mem_get_current_page_directory s)"
  by (simp add: cur_dir_def kframe_def mem_get_current_page_directory_def)

lemma ipd_in_dirs [simp]: "initial_page_dir s \<in> dir_ptrs s" "ipd_frame s \<in> dir_frames s"
  by (simp_all add: dir_ptrs_def dir_frames_def ipd_frame_def)

lemma dir_ptrs_cong:
  "initial_page_dir t = initial_page_dir s \<Longrightarrow> page_dirs t = page_dirs s \<Longrightarrow>
   page_dir_used t = page_dir_used s \<Longrightarrow>
   dir_ptrs t = dir_ptrs s \<and> dir_frames t = dir_frames s \<and> ipd_frame t = ipd_frame s \<and>
   (layout_ok t \<longleftrightarrow> layout_ok s)"
  by (simp add: dir_ptrs_def dir_frames_def ipd_frame_def layout_ok_def page_dir_ptr_def)

lemma put_row_dirs [simp]:
  "dir_ptrs (put_row f r s) = dir_ptrs s" "dir_frames (put_row f r s) = dir_frames s"
  "ipd_frame (put_row f r s) = ipd_frame s" "layout_ok (put_row f r s) = layout_ok s"
  using dir_ptrs_cong [of "put_row f r s" s] by simp_all

lemma put_row_pmm [simp]:
  "pmm_ok (put_row f r s) = pmm_ok s" "used_frames (put_row f r s) = used_frames s"
  "managed_frames (put_row f r s) = managed_frames s"
  by (simp_all add: pmm_ok_def used_frames_def pf_used_def managed_frames_def alloc_start_def
      alloc_end_def)

lemma pmm_vm_frames [simp]:
  "pmem (take_frame f s) = pmem s" "cr3 (take_frame f s) = cr3 s" "cur_dir (take_frame f s) = cur_dir s"
  "initial_page_dir (take_frame f s) = initial_page_dir s" "page_dirs (take_frame f s) = page_dirs s"
  "page_dir_used (take_frame f s) = page_dir_used s" "mem_num_vpages (take_frame f s) = mem_num_vpages s"
  "vm_state.more (take_frame f s) = vm_state.more s"
  "pmem (drop_frame f s) = pmem s" "cr3 (drop_frame f s) = cr3 s" "cur_dir (drop_frame f s) = cur_dir s"
  "initial_page_dir (drop_frame f s) = initial_page_dir s" "page_dirs (drop_frame f s) = page_dirs s"
  "page_dir_used (drop_frame f s) = page_dir_used s" "mem_num_vpages (drop_frame f s) = mem_num_vpages s"
  "vm_state.more (drop_frame f s) = vm_state.more s"
  by (simp_all add: take_frame_def drop_frame_def Let_def cur_dir_def)

lemma pmm_vm_dirs [simp]:
  "dir_ptrs (take_frame f s) = dir_ptrs s" "dir_frames (take_frame f s) = dir_frames s"
  "ipd_frame (take_frame f s) = ipd_frame s" "layout_ok (take_frame f s) = layout_ok s"
  "dir_ptrs (drop_frame f s) = dir_ptrs s" "dir_frames (drop_frame f s) = dir_frames s"
  "ipd_frame (drop_frame f s) = ipd_frame s" "layout_ok (drop_frame f s) = layout_ok s"
  using dir_ptrs_cong [of "take_frame f s" s] dir_ptrs_cong [of "drop_frame f s" s] by simp_all

section \<open>The invariant\<close>

text \<open>
  \<open>own_slot s d i\<close>: entry \<open>i\<close> of directory \<open>d\<close> is one the kernel fills itself (the user
  part of any directory in use, the kernel part of \<open>initial_page_dir\<close>); the kernel part of
  every other directory is a copy. \<open>slots\<close> are the own entries that name a page table.
\<close>

definition own_slot :: "'a vm_state_scheme \<Rightarrow> nat \<Rightarrow> nat \<Rightarrow> bool" where
  "own_slot s d i \<longleftrightarrow> d \<in> dir_frames s \<and> (i < 768 \<or> d = ipd_frame s \<and> i < 1023)"

definition slots :: "'a vm_state_scheme \<Rightarrow> (nat \<times> nat) set" where
  "slots s = {(d, i). own_slot s d i \<and> present (pmem s d i) \<and> \<not> large (pmem s d i)}"

definition table_frame :: "'a vm_state_scheme \<Rightarrow> nat \<times> nat \<Rightarrow> nat" where
  "table_frame s = (\<lambda>(d, i). frame_of (pmem s d i))"

definition user_part_ok :: "'a vm_state_scheme \<Rightarrow> bool" where
  "user_part_ok s \<longleftrightarrow> (\<forall>d\<in>dir_frames s. \<forall>i<768.
     if present (pmem s d i) then \<not> large (pmem s d i) \<and> owner (pmem s d i) else pmem s d i = 0)"

definition vm_core :: "'a vm_state_scheme \<Rightarrow> bool" where
  "vm_core s \<longleftrightarrow>
     pmm_ok s \<and> layout_ok s \<and> length (page_dir_used s) = NUM_PAGE_DIRS \<and>
     mem_get_current_page_directory s \<in> dir_ptrs s \<and>
     dir_frames s \<inter> managed_frames s = {} \<and>
     (\<forall>d\<in>dir_frames s. self_map (pmem s) d) \<and>
     user_part_ok s \<and>
     inj_on (table_frame s) (slots s) \<and> table_frame s ` slots s \<subseteq> used_frames s"

text \<open>The kernel part of every directory in use is the one of \<open>initial_page_dir\<close>, without
  the ownership bit.\<close>

definition kernel_synced :: "'a vm_state_scheme \<Rightarrow> bool" where
  "kernel_synced s \<longleftrightarrow> (\<forall>d\<in>dir_frames s. d \<noteq> ipd_frame s \<longrightarrow> (\<forall>i. 768 \<le> i \<longrightarrow> i < 1023 \<longrightarrow>
     pmem s d i = pmem s (ipd_frame s) i AND NOT PAGE_FLAG_OWNER))"

definition vm_ok :: "'a vm_state_scheme \<Rightarrow> bool" where
  "vm_ok s \<longleftrightarrow> vm_core s \<and> kernel_synced s"

text \<open>The abstract view: the page-table entry that governs page \<open>j\<close> of directory entry
  \<open>i\<close>, \<open>0\<close> when the page is not present.\<close>

definition present_part :: "u32 \<Rightarrow> u32" where
  "present_part e = (if present e then e else 0)"

definition pte_at :: "'a vm_state_scheme \<Rightarrow> nat \<Rightarrow> nat \<Rightarrow> nat \<Rightarrow> u32" where
  "pte_at s d i j =
     (if present (pmem s d i) \<and> \<not> large (pmem s d i)
      then present_part (pmem s (frame_of (pmem s d i)) j) else 0)"

lemma present_part_simps [simp]:
  "present_part 0 = 0" "present e \<Longrightarrow> present_part e = e" "\<not> present e \<Longrightarrow> present_part e = 0"
  by (simp_all add: present_part_def)

lemma vm_coreD:
  assumes "vm_core s"
  shows "pmm_ok s" and "layout_ok s" and "length (page_dir_used s) = NUM_PAGE_DIRS"
    and "mem_get_current_page_directory s \<in> dir_ptrs s"
    and "dir_frames s \<inter> managed_frames s = {}"
    and "d \<in> dir_frames s \<Longrightarrow> self_map (pmem s) d"
    and "user_part_ok s" and "inj_on (table_frame s) (slots s)"
    and "table_frame s ` slots s \<subseteq> used_frames s"
  using assms by (simp_all add: vm_core_def)

lemma cur_dir_in:
  "vm_core s \<Longrightarrow> cur_dir s \<in> dir_frames s"
  by (simp add: vm_core_def cur_dir_kframe dir_frames_def)

lemma cur_self_map: "vm_core s \<Longrightarrow> self_map (pmem s) (cur_dir s)"
  by (simp add: vm_coreD(6) cur_dir_in)

lemma table_not_dir:
  assumes "vm_core s" and "(d, i) \<in> slots s"
  shows "frame_of (pmem s d i) \<in> used_frames s" and "frame_of (pmem s d i) \<notin> dir_frames s"
proof -
  show u: "frame_of (pmem s d i) \<in> used_frames s"
    using vm_coreD(9) [OF assms(1)] assms(2) by (force simp: table_frame_def)
  then have "frame_of (pmem s d i) \<in> managed_frames s"
    using vm_coreD(1) [OF assms(1)] by (auto simp: pmm_ok_def)
  then show "frame_of (pmem s d i) \<notin> dir_frames s"
    using vm_coreD(5) [OF assms(1)] by blast
qed

lemma table_unique:
  "vm_core s \<Longrightarrow> (d, i) \<in> slots s \<Longrightarrow> (d', i') \<in> slots s \<Longrightarrow>
   frame_of (pmem s d i) = frame_of (pmem s d' i') \<Longrightarrow> d = d' \<and> i = i'"
  using vm_coreD(8) [of s] by (fastforce simp: inj_on_def table_frame_def)

text \<open>The frames that hold data: handed out, but not as a page table.\<close>

definition data_frames :: "'a vm_state_scheme \<Rightarrow> nat set" where
  "data_frames s = used_frames s - table_frame s ` slots s"

definition data_kept :: "'a vm_state_scheme \<Rightarrow> 'b vm_state_scheme \<Rightarrow> bool" where
  "data_kept s t \<longleftrightarrow> data_frames s \<subseteq> data_frames t \<and> (\<forall>f\<in>data_frames s. pmem t f = pmem s f)"

lemma data_kept_trans: "data_kept s t \<Longrightarrow> data_kept t u \<Longrightarrow> data_kept s u"
  by (auto simp: data_kept_def)

lemma data_kept_refl [simp]: "data_kept s s"
  by (simp add: data_kept_def)

lemma data_not_dir:
  assumes "vm_core s" and "f \<in> data_frames s"
  shows "f \<notin> dir_frames s"
  using assms vm_coreD(1,5) [OF assms(1)] by (auto simp: data_frames_def pmm_ok_def)

text \<open>Writing to a frame that is no directory keeps the invariant.\<close>

lemma core_put_table:
  assumes "vm_core s" and "f \<notin> dir_frames s"
  shows "vm_core (put_row f r s)" and "slots (put_row f r s) = slots s"
    and "data_frames (put_row f r s) = data_frames s"
proof -
  have row: "pmem (put_row f r s) d = pmem s d" if "d \<in> dir_frames s" for d
    using assms(2) that by auto
  show slots: "slots (put_row f r s) = slots s"
    by (auto simp: slots_def own_slot_def row simp del: put_row_simps(1))
  have tf: "table_frame (put_row f r s) x = table_frame s x" if "x \<in> slots s" for x
    using that row by (auto simp: table_frame_def slots_def own_slot_def)
  have "inj_on (table_frame (put_row f r s)) (slots s)"
    using vm_coreD(8) [OF assms(1)] by (simp add: tf inj_on_def)
  moreover have "table_frame (put_row f r s) ` slots s = table_frame s ` slots s"
    using tf by (auto simp: image_def)
  moreover have "self_map (pmem (put_row f r s)) d" if "d \<in> dir_frames s" for d
    using vm_coreD(6) [OF assms(1) that] row [OF that] by (simp add: self_map_def del: put_row_simps(1))
  moreover have "user_part_ok (put_row f r s)"
    using vm_coreD(7) [OF assms(1)] by (simp add: user_part_ok_def row del: put_row_simps(1))
  moreover have "mem_get_current_page_directory (put_row f r s) = mem_get_current_page_directory s"
    by (simp add: mem_get_current_page_directory_def)
  ultimately show "vm_core (put_row f r s)"
    using assms(1) by (simp add: vm_core_def slots del: put_row_simps(1))
  show "data_frames (put_row f r s) = data_frames s"
    unfolding data_frames_def slots \<open>table_frame (put_row f r s) ` slots s = table_frame s ` slots s\<close> by simp
qed

lemma own_slot_frame [simp]:
  "own_slot (put_row f r s) = own_slot s" "own_slot (take_frame f s) = own_slot s"
  "own_slot (drop_frame f s) = own_slot s"
  by (simp_all add: own_slot_def fun_eq_iff)

lemma cur_ptr_frame [simp]:
  "mem_get_current_page_directory (put_row f r s) = mem_get_current_page_directory s"
  "mem_get_current_page_directory (take_frame f s) = mem_get_current_page_directory s"
  "mem_get_current_page_directory (drop_frame f s) = mem_get_current_page_directory s"
  by (simp_all add: mem_get_current_page_directory_def)

lemma own_slot_bounds: "own_slot s d i \<Longrightarrow> i < 1023"
  by (auto simp: own_slot_def)

text \<open>A new page table in a fresh frame.\<close>

lemma core_new_entry:
  assumes core: "vm_core s" and own: "own_slot s c i" and free: "\<not> present (pmem s c i)"
    and f: "f \<in> managed_frames s" "f \<notin> used_frames s"
    and e: "present e" "\<not> large e" "owner e" "frame_of e = f"
  defines "t \<equiv> put_row c ((pmem s c)(i := e)) (take_frame f s)"
  shows "vm_core t" and "slots t = insert (c, i) (slots s)"
    and "table_frame t ` slots t = insert f (table_frame s ` slots s)"
proof -
  have row: "pmem t d k = (if d = c \<and> k = i then e else pmem s d k)" for d k
    by (simp add: t_def)
  have same: "own_slot t = own_slot s" "dir_frames t = dir_frames s" "layout_ok t = layout_ok s"
    "page_dir_used t = page_dir_used s" "managed_frames t = managed_frames s"
    "mem_get_current_page_directory t = mem_get_current_page_directory s"
    "dir_ptrs t = dir_ptrs s"
    by (simp_all add: t_def)
  have used: "pmm_ok t" "used_frames t = insert f (used_frames s)"
    using pmm_ok_take_frame [OF vm_coreD(1) [OF core] f] by (simp_all add: t_def)
  show slots: "slots t = insert (c, i) (slots s)"
    using own free e by (auto simp: slots_def same row)
  have old: "table_frame t x = table_frame s x" if "x \<in> slots s" for x
    using that free by (auto simp: table_frame_def slots_def row)
  have new: "table_frame t (c, i) = f" using e(4) by (simp add: table_frame_def row)
  have img: "table_frame t ` slots s = table_frame s ` slots s" using old by (rule image_cong [OF refl])
  show "table_frame t ` slots t = insert f (table_frame s ` slots s)"
    unfolding slots image_insert new img ..
  have "f \<notin> table_frame s ` slots s" using vm_coreD(9) [OF core] f(2) by blast
  then have "table_frame t (c, i) \<notin> table_frame t ` (slots s - {(c, i)})"
    unfolding new img [symmetric] by blast
  moreover have "inj_on (table_frame t) (slots s)"
    using vm_coreD(8) [OF core] old by (simp cong: inj_on_cong)
  ultimately have inj: "inj_on (table_frame t) (slots t)"
    unfolding slots by (simp add: inj_on_insert)
  have sub: "table_frame t ` slots t \<subseteq> used_frames t"
    using vm_coreD(9) [OF core] old new unfolding slots used(2) by auto
  have "self_map (pmem t) d" if "d \<in> dir_frames s" for d
    using vm_coreD(6) [OF core that] own_slot_bounds [OF own] by (auto simp: self_map_def row)
  moreover have "user_part_ok t"
    using vm_coreD(7) [OF core] e by (auto simp: user_part_ok_def row same)
  ultimately show "vm_core t"
    using core used(1) inj sub by (simp add: vm_core_def same)
qed

text \<open>A page table given back.\<close>

lemma core_del_entry:
  assumes core: "vm_core s" and slot: "(c, i) \<in> slots s"
  defines "t \<equiv> put_row c ((pmem s c)(i := 0)) (drop_frame (frame_of (pmem s c i)) s)"
  shows "vm_core t" and "slots t = slots s - {(c, i)}"
proof -
  let ?f = "frame_of (pmem s c i)"
  have row: "pmem t d k = (if d = c \<and> k = i then 0 else pmem s d k)" for d k
    by (simp add: t_def)
  have same: "own_slot t = own_slot s" "dir_frames t = dir_frames s" "layout_ok t = layout_ok s"
    "page_dir_used t = page_dir_used s" "managed_frames t = managed_frames s"
    "mem_get_current_page_directory t = mem_get_current_page_directory s"
    "dir_ptrs t = dir_ptrs s"
    by (simp_all add: t_def)
  have used: "pmm_ok t" "used_frames t = used_frames s - {?f}"
    using pmm_ok_drop_frame [OF vm_coreD(1) [OF core] table_not_dir(1) [OF core slot]]
    by (simp_all add: t_def)
  have p0: "\<not> present 0" by (simp add: present_def)
  show slots: "slots t = slots s - {(c, i)}"
    by (auto simp: slots_def same row p0)
  have old: "table_frame t x = table_frame s x" if "x \<in> slots t" for x
    using that by (auto simp: table_frame_def slots row split: prod.splits)
  have inj: "inj_on (table_frame t) (slots t)"
    using vm_coreD(8) [OF core] old unfolding slots by (auto simp: inj_on_def)
  have "?f \<notin> table_frame s ` (slots s - {(c, i)})"
    using vm_coreD(8) [OF core] slot by (fastforce simp: inj_on_def table_frame_def)
  moreover have "table_frame t ` slots t = table_frame s ` slots t"
    using old by (auto simp: image_def)
  moreover have "table_frame s ` slots s \<subseteq> used_frames s" by (rule vm_coreD(9) [OF core])
  ultimately have "table_frame t ` slots t \<subseteq> used_frames s - {?f}" unfolding slots by blast
  then have sub: "table_frame t ` slots t \<subseteq> used_frames t" by (simp add: used(2))
  have "i < 1023" using slot own_slot_bounds by (auto simp: slots_def)
  then have "self_map (pmem t) d" if "d \<in> dir_frames s" for d
    using vm_coreD(6) [OF core that] by (auto simp: self_map_def row)
  moreover have "user_part_ok t"
    using vm_coreD(7) [OF core] p0 by (auto simp: user_part_ok_def row same)
  ultimately show "vm_core t"
    using core used(1) inj sub by (simp add: vm_core_def same)
qed

section \<open>Entering a page\<close>

lemma flag_bits: "present x \<longleftrightarrow> bit x 0" "owner x \<longleftrightarrow> bit x 9" "large x \<longleftrightarrow> bit x 7"
  using and_exp_zero [of x 0] and_exp_zero [of x 9] and_exp_zero [of x 7]
  by (simp_all add: present_def owner_def large_def PAGE_FLAG_PRESENT_def PAGE_FLAG_OWNER_def
      PAGE_FLAG_4MB_def)

definition new_pde :: "u32 \<Rightarrow> u32 \<Rightarrow> u32" where
  "new_pde a flags = a OR PAGE_FLAG_PRESENT OR PAGE_FLAG_WRITE OR PAGE_FLAG_OWNER OR flags"

lemma small_bits:
  assumes "unat (x :: u32) < 4096" and "bit x n"
  shows "n < 12"
proof -
  have "take_bit 12 x = x"
    using assms(1) unat_take_bit_mod [of 12 x] by (simp add: word_unat_eq_iff)
  then have "bit (take_bit 12 x) n" using assms(2) by simp
  then show ?thesis by (simp add: bit_take_bit_iff)
qed

definition flags_ok :: "u32 \<Rightarrow> bool" where
  "flags_ok flags \<longleftrightarrow> unat flags < 4096 \<and> \<not> large flags"

lemma frame_address:
  assumes "f < 1048576"
  shows "frame_of (of_nat f * 4096) = f" and "n < 12 \<Longrightarrow> \<not> bit (of_nat f * 4096 :: u32) n"
proof -
  have u: "unat (of_nat f * 4096 :: u32) = f * 4096"
    using assms by (simp add: unat_mult_small unat_of_nat_small)
  then show "frame_of (of_nat f * 4096) = f" by (simp add: frame_of_div)
  have "of_nat f * 4096 = push_bit 12 (of_nat f :: u32)" by (simp add: push_bit_eq_mult)
  then show "n < 12 \<Longrightarrow> \<not> bit (of_nat f * 4096 :: u32) n"
    by (simp only: bit_push_bit_iff) simp
qed

lemma new_pde_facts:
  assumes "f < 1048576" and "flags_ok flags"
  shows "present (new_pde (of_nat f * 4096) flags)" and "\<not> large (new_pde (of_nat f * 4096) flags)"
    and "owner (new_pde (of_nat f * 4096) flags)" and "frame_of (new_pde (of_nat f * 4096) flags) = f"
proof -
  have c: "bit PAGE_FLAG_PRESENT n \<longleftrightarrow> n = 0" "bit PAGE_FLAG_WRITE n \<longleftrightarrow> n = 1"
    "bit PAGE_FLAG_OWNER n \<longleftrightarrow> n = 9" for n
    using bit_push_bit_iff [of 0 "1 :: u32" n] bit_push_bit_iff [of 1 "1 :: u32" n]
      bit_push_bit_iff [of 9 "1 :: u32" n]
    by (auto simp: PAGE_FLAG_PRESENT_def PAGE_FLAG_WRITE_def PAGE_FLAG_OWNER_def bit_1_iff)
  show "present (new_pde (of_nat f * 4096) flags)" "owner (new_pde (of_nat f * 4096) flags)"
    by (simp_all add: new_pde_def flag_bits bit_or_iff c)
  show "\<not> large (new_pde (of_nat f * 4096) flags)"
    using assms frame_address(2) [OF assms(1), of 7] by (simp add: new_pde_def flag_bits bit_or_iff c flags_ok_def)
  show "frame_of (new_pde (of_nat f * 4096) flags) = f"
    using assms frame_address(1) [OF assms(1)]
    by (simp add: new_pde_def frame_of_def drop_bit_or small_drop flags_ok_def)
qed

definition pte_of :: "u32 \<Rightarrow> u32 \<Rightarrow> u32" where
  "pte_of phys_addr flags = phys_addr OR PAGE_FLAG_PRESENT OR flags"

lemma pte_of_facts: "present (pte_of phys_addr flags)"
  "unat flags < 4096 \<Longrightarrow> frame_of (pte_of phys_addr flags) = frame_of phys_addr"
  by (simp_all add: pte_of_def flag_bits bit_or_iff frame_of_def drop_bit_or small_drop
      PAGE_FLAG_PRESENT_def)

text \<open>The table for entry \<open>i\<close> of the current directory is there, or is created.\<close>

definition with_table :: "nat \<Rightarrow> u32 \<Rightarrow> u32 \<Rightarrow> 'a vm_state_scheme \<Rightarrow> 'a vm_state_scheme" where
  "with_table f pd flags s =
     put_row f (zero_row (pmem s f))
       (put_row (cur_dir s) ((pmem s (cur_dir s))(unat pd := new_pde (of_nat f * 4096) flags))
         (take_frame f s))"

lemma with_table_fields [simp]:
  "cr3 (with_table f pd flags s) = cr3 s" "cur_dir (with_table f pd flags s) = cur_dir s"
  "page_dirs (with_table f pd flags s) = page_dirs s"
  "initial_page_dir (with_table f pd flags s) = initial_page_dir s"
  "page_dir_used (with_table f pd flags s) = page_dir_used s"
  "eflags (with_table f pd flags s) = eflags s"
  "vm_state.more (with_table f pd flags s) = vm_state.more s"
  "managed_frames (with_table f pd flags s) = managed_frames s"
  "own_slot (with_table f pd flags s) = own_slot s"
  "dir_frames (with_table f pd flags s) = dir_frames s"
  by (simp_all add: with_table_def)

lemma create_page_table_spec:
  assumes core: "vm_core s" and own: "own_slot s (cur_dir s) (unat pd)"
    and free: "\<not> present (pmem s (cur_dir s) (unat pd))" and fl: "flags_ok flags"
    and room: "\<not> managed_frames s \<subseteq> used_frames s"
  shows "\<exists>f. create_page_table pd flags s = Inr (with_table f pd flags s) \<and>
    f \<in> managed_frames s \<and> f \<notin> used_frames s \<and> vm_core (with_table f pd flags s) \<and>
    slots (with_table f pd flags s) = insert (cur_dir s, unat pd) (slots s) \<and>
    data_kept s (with_table f pd flags s)"
proof -
  let ?c = "cur_dir s" and ?i = "unat pd"
  from room pmm_alloc_cases [OF vm_coreD(1) [OF core]] obtain f where
    f: "f \<in> managed_frames s" "f \<notin> used_frames s"
    and al: "pmm_alloc_pageframe s = Inr (of_nat f * 4096, take_frame f s)"
    by (auto simp: PAGE_FRAME_SIZE_def)
  have small: "f < 1048576" using managed_small [OF vm_coreD(1) [OF core] f(1)] by simp
  note e = new_pde_facts [OF small fl]
  let ?e = "new_pde (of_nat f * 4096) flags"
  let ?s2 = "put_row ?c ((pmem s ?c)(?i := ?e)) (take_frame f s)"
  note n = core_new_entry [OF core own free f e(1,2,3,4)]
  have i: "?i < 1024" using own_slot_bounds [OF own] by simp
  have ne: "f \<noteq> ?c" using f(1) cur_dir_in [OF core] vm_coreD(5) [OF core] by blast
  have "f \<notin> dir_frames ?s2" using f(1) vm_coreD(5) [OF core] by auto
  note p = core_put_table [OF n(1) this, of "zero_row (pmem s f)"]
  have st: "vstore (elem REC_PAGEDIR ?i) ?e (take_frame f s) = Inr ?s2"
    using vstore_dir [of "take_frame f s" ?i ?e] i cur_self_map [OF core]
    by (simp add: put_word_row)
  have sm: "self_map (pmem ?s2) (cur_dir ?s2)" using cur_self_map [OF n(1)] by simp
  have clr: "for_res 0 1024 (\<lambda>k. vstore (elem (REC_PAGETABLE pd) k) 0) ?s2 =
      Inr (put_row f (zero_row (pmem s f)) ?s2)"
    using clear_table [OF sm i, of f] ne e by simp
  have used: "used_frames ?s2 = insert f (used_frames s)"
    using pmm_ok_take_frame(2) [OF vm_coreD(1) [OF core] f] by simp
  have "data_frames ?s2 = data_frames s"
    using f(2) unfolding data_frames_def n(3) used by blast
  moreover have "f \<notin> data_frames s" "?c \<notin> data_frames s"
    using f(2) data_not_dir [OF core] cur_dir_in [OF core] by (auto simp: data_frames_def)
  ultimately have "data_kept s (put_row f (zero_row (pmem s f)) ?s2)"
    unfolding data_kept_def p(3) by auto
  then show ?thesis
    using al st clr p n(2) f unfolding create_page_table_def with_table_def
    by (intro exI [of _ f]) (simp add: new_pde_def)
qed

lemma vpages_irrelevant [simp]:
  "vm_core (s\<lparr>mem_num_vpages := n\<rparr>) = vm_core s" "slots (s\<lparr>mem_num_vpages := n\<rparr>) = slots s"
  "pte_at (s\<lparr>mem_num_vpages := n\<rparr>) = pte_at s" "own_slot (s\<lparr>mem_num_vpages := n\<rparr>) = own_slot s"
  "used_frames (s\<lparr>mem_num_vpages := n\<rparr>) = used_frames s"
  "managed_frames (s\<lparr>mem_num_vpages := n\<rparr>) = managed_frames s"
  "dir_ptrs (s\<lparr>mem_num_vpages := n\<rparr>) = dir_ptrs s" "dir_frames (s\<lparr>mem_num_vpages := n\<rparr>) = dir_frames s"
  "ipd_frame (s\<lparr>mem_num_vpages := n\<rparr>) = ipd_frame s" "cur_dir (s\<lparr>mem_num_vpages := n\<rparr>) = cur_dir s"
  "pmm_ok (s\<lparr>mem_num_vpages := n\<rparr>) = pmm_ok s"
  "layout_ok (s\<lparr>mem_num_vpages := n\<rparr>) = layout_ok s"
  "table_frame (s\<lparr>mem_num_vpages := n\<rparr>) = table_frame s"
  "mem_get_current_page_directory (s\<lparr>mem_num_vpages := n\<rparr>) = mem_get_current_page_directory s"
proof -
  let ?t = "s\<lparr>mem_num_vpages := n\<rparr>"
  show d: "dir_ptrs ?t = dir_ptrs s" "dir_frames ?t = dir_frames s" "ipd_frame ?t = ipd_frame s"
    "layout_ok ?t = layout_ok s"
    using dir_ptrs_cong [of ?t s] by simp_all
  show p: "used_frames ?t = used_frames s" "managed_frames ?t = managed_frames s"
    by (simp_all add: used_frames_def pf_used_def managed_frames_def alloc_start_def alloc_end_def)
  show q: "pmm_ok ?t = pmm_ok s" by (simp add: pmm_ok_def p alloc_end_def)
  show o: "own_slot ?t = own_slot s" by (simp add: own_slot_def d fun_eq_iff)
  show sl: "slots ?t = slots s" by (simp add: slots_def o)
  show c: "cur_dir ?t = cur_dir s" by (simp add: cur_dir_def)
  have m: "pmem ?t = pmem s" by simp
  show "pte_at ?t = pte_at s" unfolding pte_at_def m ..
  show t: "table_frame ?t = table_frame s" by (simp add: table_frame_def fun_eq_iff)
  show g: "mem_get_current_page_directory ?t = mem_get_current_page_directory s"
    by (simp add: mem_get_current_page_directory_def)
  show "vm_core ?t = vm_core s"
    by (simp add: vm_core_def d p q sl t user_part_ok_def g)
qed

lemma data_kept_vpages: "data_kept s (t\<lparr>mem_num_vpages := n\<rparr>) = data_kept s t"
  by (simp add: data_kept_def data_frames_def)

text \<open>What a write to one entry of one table does to the abstract view.\<close>

lemma own_slotsI: "own_slot s d k \<Longrightarrow> present (pmem s d k) \<Longrightarrow> \<not> large (pmem s d k) \<Longrightarrow> (d, k) \<in> slots s"
  by (simp add: slots_def)

lemma pte_at_put_table:
  assumes core: "vm_core s" and slot: "(c, i) \<in> slots s" and own: "own_slot s d k"
    and g: "g = frame_of (pmem s c i)"
  shows "pte_at (put_row g ((pmem s g)(j := v)) s) d k l =
    (if d = c \<and> k = i \<and> l = j then present_part v else pte_at s d k l)"
proof -
  have "g \<notin> dir_frames s" using table_not_dir(2) [OF core slot] g by simp
  then have "d \<noteq> g" using own by (auto simp: own_slot_def)
  then have row: "pmem (put_row g ((pmem s g)(j := v)) s) d k = pmem s d k" by simp
  show ?thesis
  proof (cases "present (pmem s d k) \<and> \<not> large (pmem s d k)")
    case True
    then have dk: "(d, k) \<in> slots s" using own by (simp add: own_slotsI)
    have "frame_of (pmem s d k) = g \<longleftrightarrow> d = c \<and> k = i"
      using table_unique [OF core slot dk] g by metis
    with True row show ?thesis by (auto simp: pte_at_def)
  next
    case False
    then have "\<not> (d = c \<and> k = i)" using slot by (auto simp: slots_def)
    with False row show ?thesis by (auto simp: pte_at_def)
  qed
qed

lemma pte_at_with_table:
  assumes core: "vm_core s" and own: "own_slot s d k" and l: "l < 1024"
    and c: "own_slot s (cur_dir s) (unat pd)"
    and free: "\<not> present (pmem s (cur_dir s) (unat pd))"
    and f: "f \<in> managed_frames s" "f \<notin> used_frames s" and fl: "flags_ok flags"
  shows "pte_at (with_table f pd flags s) d k l = pte_at s d k l"
proof -
  have "f < 1048576" using managed_small [OF vm_coreD(1) [OF core] f(1)] by simp
  note e = new_pde_facts [OF this fl]
  have nd: "f \<notin> dir_frames s" using f(1) vm_coreD(5) [OF core] by blast
  then have df: "d \<noteq> f" "cur_dir s \<noteq> f" using own c by (auto simp: own_slot_def)
  have row: "pmem (with_table f pd flags s) d k =
      (if d = cur_dir s \<and> k = unat pd then new_pde (of_nat f * 4096) flags else pmem s d k)"
    using df by (simp add: with_table_def)
  have tab: "frame_of (pmem s d k) \<noteq> f \<and> frame_of (pmem s d k) \<noteq> cur_dir s"
    if "present (pmem s d k)" "\<not> large (pmem s d k)"
    using table_not_dir [OF core own_slotsI [OF own that]] f(2) c by (auto simp: own_slot_def)
  show ?thesis
  proof (cases "d = cur_dir s \<and> k = unat pd")
    case True
    with row e free l show ?thesis by (simp add: pte_at_def) (simp add: with_table_def)
  next
    case False
    with row have eq: "pmem (with_table f pd flags s) d k = pmem s d k" by auto
    show ?thesis using tab unfolding pte_at_def eq by (auto simp: with_table_def)
  qed
qed

lemma map_body_spec:
  assumes core: "vm_core s" and own: "own_slot s (cur_dir s) (pd_index va)"
    and nl: "\<not> large (pmem s (cur_dir s) (pd_index va))" and fl: "flags_ok flags"
    and room: "present (pmem s (cur_dir s) (pd_index va)) \<or> \<not> managed_frames s \<subseteq> used_frames s"
  shows "\<exists>t. map_body va pa flags s = Inr t \<and> vm_core t \<and>
    (\<forall>d k l. own_slot s d k \<longrightarrow> l < 1024 \<longrightarrow> pte_at t d k l =
      (if d = cur_dir s \<and> k = pd_index va \<and> l = pt_index va then pte_of pa flags else pte_at s d k l)) \<and>
    (cur_dir s, pd_index va) \<in> slots t \<and>
    (\<forall>d\<in>dir_frames s. \<forall>k. d = cur_dir s \<and> k = pd_index va \<or> pmem t d k = pmem s d k) \<and>
    cr3 t = cr3 s \<and> page_dirs t = page_dirs s \<and> initial_page_dir t = initial_page_dir s \<and>
    page_dir_used t = page_dir_used s \<and> eflags t = eflags s \<and> vm_state.more t = vm_state.more s \<and>
    managed_frames t = managed_frames s \<and> used_frames s \<subseteq> used_frames t \<and>
    card (used_frames t) \<le> card (used_frames s) + 1 \<and> data_kept s t"
proof -
  let ?c = "cur_dir s" and ?pd = "drop_bit 22 va"
  have i: "pd_index va < 1024" by simp
  have pd: "unat ?pd = pd_index va" by (simp add: pd_index_def)
  obtain s1 where s1: "(if pmem s ?c (pd_index va) AND PAGE_FLAG_PRESENT = 0
      then create_page_table ?pd flags s else Inr s) = Inr s1"
    and c1: "vm_core s1" "(?c, pd_index va) \<in> slots s1"
    and p1: "\<And>d k l. own_slot s d k \<Longrightarrow> l < 1024 \<Longrightarrow> pte_at s1 d k l = pte_at s d k l"
    and f1: "cr3 s1 = cr3 s" "page_dirs s1 = page_dirs s" "initial_page_dir s1 = initial_page_dir s"
      "page_dir_used s1 = page_dir_used s" "eflags s1 = eflags s" "vm_state.more s1 = vm_state.more s"
      "managed_frames s1 = managed_frames s" "used_frames s \<subseteq> used_frames s1"
      "card (used_frames s1) \<le> card (used_frames s) + 1" "own_slot s1 = own_slot s" "cur_dir s1 = ?c"
      "dir_frames s1 = dir_frames s" and k1: "data_kept s s1"
    and r1: "\<And>d k. d \<in> dir_frames s \<Longrightarrow> d = ?c \<and> k = pd_index va \<or> pmem s1 d k = pmem s d k"
  proof (cases "present (pmem s ?c (pd_index va))")
    case True
    then have "(?c, pd_index va) \<in> slots s" using own nl by (simp add: own_slotsI)
    with True core show thesis by (intro that [of s]) (simp_all add: present_def)
  next
    case False
    with room have r: "\<not> managed_frames s \<subseteq> used_frames s" by simp
    from create_page_table_spec [OF core _ _ fl r, of ?pd] own False obtain f where
      f: "create_page_table ?pd flags s = Inr (with_table f ?pd flags s)" "f \<in> managed_frames s"
        "f \<notin> used_frames s" "vm_core (with_table f ?pd flags s)"
        "slots (with_table f ?pd flags s) = insert (?c, pd_index va) (slots s)"
        "data_kept s (with_table f ?pd flags s)"
      by (auto simp: pd)
    have u: "used_frames (with_table f ?pd flags s) = insert f (used_frames s)"
      using pmm_ok_take_frame(2) [OF vm_coreD(1) [OF core] f(2,3)] by (simp add: with_table_def)
    have pt: "pte_at (with_table f ?pd flags s) d k l = pte_at s d k l"
      if "own_slot s d k" "l < 1024" for d k l
      using pte_at_with_table [OF core that _ _ f(2,3) fl, of ?pd] own False by (simp add: pd)
    have "f \<notin> dir_frames s" using f(2) vm_coreD(5) [OF core] by blast
    then have row: "d = ?c \<and> k = pd_index va \<or> pmem (with_table f ?pd flags s) d k = pmem s d k"
      if "d \<in> dir_frames s" for d k
      using that by (auto simp: with_table_def pd)
    show thesis
      by (rule that [of "with_table f ?pd flags s", OF _ f(4) _ pt _ _ _ _ _ _ _ _ _ _ _ _ f(6) row])
        (use False f(1,5) u in \<open>simp_all add: present_def card_insert_if subset_insertI\<close>)
  qed
  let ?g = "frame_of (pmem s1 ?c (pd_index va))"
  let ?s2 = "put_row ?g ((pmem s1 ?g)(pt_index va := pte_of pa flags)) s1"
  let ?t = "?s2\<lparr>mem_num_vpages := mem_num_vpages ?s2 + 1\<rparr>"
  have st: "vstore (elem (REC_PAGETABLE ?pd) (pt_index va)) (pte_of pa flags) s1 = Inr ?s2"
    using vstore_table [of s1 ?pd "pt_index va"] cur_self_map [OF c1(1)] c1(2) i f1(11)
    by (simp add: pd slots_def put_word_row)
  have eq: "map_body va pa flags s = Inr ?t"
    by (simp only: map_body_def Let_def pd vload_dir [OF cur_self_map [OF core] i] and_then_simps s1
        pt_index_def [symmetric] pte_of_def [symmetric] st)
  have g: "?g \<notin> dir_frames s1" by (rule table_not_dir(2) [OF c1])
  note core2 = core_put_table [OF c1(1) this]
  have row: "d = ?c \<and> k = pd_index va \<or> pmem ?s2 d k = pmem s d k" if "d \<in> dir_frames s" for d k
  proof -
    have "d \<noteq> ?g" using g that unfolding f1(12) by blast
    then have "pmem ?s2 d = pmem s1 d" by simp
    then show ?thesis using r1 [OF that, of k] by simp
  qed
  have "pte_at ?s2 d k l =
      (if d = ?c \<and> k = pd_index va \<and> l = pt_index va then pte_of pa flags else pte_at s d k l)"
    if "own_slot s d k" "l < 1024" for d k l
    using pte_at_put_table [OF c1, of d k ?g] that f1(10) p1 pte_of_facts(1) by simp
  note view = this
  have "data_kept s1 ?s2"
    using c1(2) unfolding data_kept_def core2(3)
    by (auto simp: data_frames_def table_frame_def)
  then have "data_kept s ?t"
    using data_kept_trans [OF k1] by (simp only: data_kept_vpages)
  moreover obtain t where t: "t = ?t" by blast
  have "\<forall>d k l. own_slot s d k \<longrightarrow> l < 1024 \<longrightarrow> pte_at t d k l =
      (if d = ?c \<and> k = pd_index va \<and> l = pt_index va then pte_of pa flags else pte_at s d k l)"
    using view by (simp add: t)
  moreover have "vm_core t" "(?c, pd_index va) \<in> slots t" "cr3 t = cr3 s" "page_dirs t = page_dirs s"
    "initial_page_dir t = initial_page_dir s" "page_dir_used t = page_dir_used s" "eflags t = eflags s"
    "vm_state.more t = vm_state.more s" "managed_frames t = managed_frames s"
    "used_frames s \<subseteq> used_frames t" "card (used_frames t) \<le> card (used_frames s) + 1"
    using core2(1,2) c1(2) f1 by (simp_all add: t)
  moreover have "\<forall>d\<in>dir_frames s. \<forall>k. d = ?c \<and> k = pd_index va \<or> pmem t d k = pmem s d k"
    using row by (simp add: t)
  ultimately show ?thesis unfolding eq t [symmetric] by blast
qed

section \<open>Keeping the kernel part in sync\<close>

definition kernel_row :: "(nat \<Rightarrow> u32) \<Rightarrow> (nat \<Rightarrow> u32) \<Rightarrow> nat \<Rightarrow> u32" where
  "kernel_row k r = (\<lambda>i. if 768 \<le> i \<and> i < 1023 then k i AND NOT PAGE_FLAG_OWNER else r i)"

lemma copy_kernel_step:
  assumes "kframe pd \<noteq> ipd_frame s" and "t = put_row (kframe pd) r s"
  shows "put_word (kframe pd) i (pmem t (kframe (initial_page_dir t)) i AND NOT PAGE_FLAG_OWNER) t =
    put_row (kframe pd) (r(i := pmem s (ipd_frame s) i AND NOT PAGE_FLAG_OWNER)) s"
  using assms(1) unfolding assms(2) put_word_row ipd_frame_def by simp

lemma copy_kernel_part_eq:
  assumes "kframe pd \<noteq> ipd_frame s"
  shows "copy_kernel_part pd s =
    put_row (kframe pd) (kernel_row (pmem s (ipd_frame s)) (pmem s (kframe pd))) s"
proof -
  let ?step = "\<lambda>i t. put_word (kframe pd) i (pmem t (kframe (initial_page_dir t)) i AND NOT PAGE_FLAG_OWNER) t"
  let ?k = "pmem s (ipd_frame s)" and ?p = "kframe pd"
  have "fold ?step [768..<n] s =
      put_row ?p (\<lambda>i. if 768 \<le> i \<and> i < n then ?k i AND NOT PAGE_FLAG_OWNER else pmem s ?p i) s" for n
  proof (induction n)
    case 0
    then show ?case by (simp add: put_row_id)
  next
    case (Suc n)
    show ?case
    proof (cases "768 \<le> n")
      case True
      let ?r = "\<lambda>i. if 768 \<le> i \<and> i < n then ?k i AND NOT PAGE_FLAG_OWNER else pmem s ?p i"
      have "fold ?step [768..<Suc n] s = ?step n (fold ?step [768..<n] s)"
        using True by (simp only: upt_Suc_append fold_append fold.simps o_apply id_apply)
      also have "\<dots> = ?step n (put_row ?p ?r s)"
        by (simp only: Suc.IH)
      also have "\<dots> = put_row ?p (?r(n := ?k n AND NOT PAGE_FLAG_OWNER)) s"
        by (rule copy_kernel_step [OF assms refl])
      also have "?r(n := ?k n AND NOT PAGE_FLAG_OWNER) =
          (\<lambda>i. if 768 \<le> i \<and> i < Suc n then ?k i AND NOT PAGE_FLAG_OWNER else pmem s ?p i)"
        using True by (auto simp: fun_eq_iff)
      finally show ?thesis .
    next
      case False
      then have "(\<lambda>i. if 768 \<le> i \<and> i < Suc n then ?k i AND NOT PAGE_FLAG_OWNER else pmem s ?p i) = pmem s ?p"
        by (auto simp: fun_eq_iff)
      with False show ?thesis by (simp add: put_row_id)
    qed
  qed
  then show ?thesis unfolding copy_kernel_part_def kernel_row_def .
qed

lemma page_dir_ptr_not_ipd:
  assumes "layout_ok s" and "i < NUM_PAGE_DIRS"
  shows "kframe (page_dir_ptr i s) \<noteq> ipd_frame s"
proof -
  have u: "unat (page_dir_ptr i s) = unat (page_dirs s) + i * 4096"
    by (rule unat_page_dir_ptr [OF assms])
  have "3221225472 \<le> unat (page_dir_ptr i s)" "3221225472 \<le> unat (initial_page_dir s)"
    using assms(1) u by (simp_all add: layout_ok_def)
  note k = this [THEN kframe_eq]
  have m: "unat (page_dir_ptr i s) mod 4096 = 0" "unat (initial_page_dir s) mod 4096 = 0"
    using assms(1) u by (simp_all add: layout_ok_def)
  have ne: "unat (page_dir_ptr i s) \<noteq> unat (initial_page_dir s)"
    using assms u by (auto simp: layout_ok_def NUM_PAGE_DIRS_def)
  have "786432 \<le> unat (page_dir_ptr i s) div 4096" "786432 \<le> unat (initial_page_dir s) div 4096"
    using \<open>3221225472 \<le> unat (page_dir_ptr i s)\<close> \<open>3221225472 \<le> unat (initial_page_dir s)\<close> by simp_all
  with ne m k show ?thesis
    unfolding ipd_frame_def by (metis div_mult_mod_eq eq_diff_iff)
qed

definition sync_mem :: "'a vm_state_scheme \<Rightarrow> nat \<Rightarrow> nat \<Rightarrow> u32" where
  "sync_mem s = (\<lambda>d. if d \<in> dir_frames s \<and> d \<noteq> ipd_frame s
     then kernel_row (pmem s (ipd_frame s)) (pmem s d) else pmem s d)"

lemma kernel_row_idem: "kernel_row k (kernel_row k r) = kernel_row k r"
  by (auto simp: kernel_row_def)

lemma sync_page_dirs_eq:
  assumes "layout_ok s" and "\<not> are_interrupts_enabled s"
  shows "sync_page_dirs s = Inr (s\<lparr>pmem := sync_mem s\<rparr>)"
proof -
  let ?step = "\<lambda>i t. if page_dir_used t ! i then copy_kernel_part (page_dir_ptr i t) t else t"
  let ?D = "\<lambda>n. {kframe (page_dir_ptr i s) | i. i < n \<and> page_dir_used s ! i}"
  let ?m = "\<lambda>n d. if d \<in> ?D n then kernel_row (pmem s (ipd_frame s)) (pmem s d) else pmem s d"
  have notK: "ipd_frame s \<notin> ?D n" if "n \<le> NUM_PAGE_DIRS" for n
  proof
    assume "ipd_frame s \<in> ?D n"
    then obtain i where "ipd_frame s = kframe (page_dir_ptr i s)" "i < n" by auto
    with page_dir_ptr_not_ipd [OF assms(1), of i] that show False by simp
  qed
  have "fold ?step [0..<n] s = s\<lparr>pmem := ?m n\<rparr>" if "n \<le> NUM_PAGE_DIRS" for n
    using that
  proof (induction n)
    case 0
    then show ?case by simp
  next
    case (Suc n)
    let ?t = "s\<lparr>pmem := ?m n\<rparr>" and ?p = "kframe (page_dir_ptr n s)"
    have ih: "fold ?step [0..<n] s = ?t" using Suc by simp
    have pp: "page_dir_ptr n ?t = page_dir_ptr n s" "ipd_frame ?t = ipd_frame s"
      by (simp_all add: page_dir_ptr_def ipd_frame_def)
    have D: "?D (Suc n) = (if page_dir_used s ! n then insert ?p (?D n) else ?D n)"
      by (auto simp: less_Suc_eq)
    show ?case
    proof (cases "page_dir_used s ! n")
      case False
      then have "?m (Suc n) = ?m n" unfolding D by simp
      with False ih show ?thesis by simp
    next
      case True
      have ne: "kframe (page_dir_ptr n ?t) \<noteq> ipd_frame ?t"
        using page_dir_ptr_not_ipd [OF assms(1), of n] Suc.prems unfolding pp by simp
      have "copy_kernel_part (page_dir_ptr n ?t) ?t = put_row ?p (kernel_row (?m n (ipd_frame s)) (?m n ?p)) ?t"
        using copy_kernel_part_eq [OF ne] unfolding pp by simp
      also have "?m n (ipd_frame s) = pmem s (ipd_frame s)"
        by (rule if_not_P [OF notK]) (use Suc.prems in simp)
      also have "kernel_row (pmem s (ipd_frame s)) (?m n ?p) = kernel_row (pmem s (ipd_frame s)) (pmem s ?p)"
        by (simp add: kernel_row_idem)
      also have "put_row ?p (kernel_row (pmem s (ipd_frame s)) (pmem s ?p)) ?t =
          s\<lparr>pmem := (?m n)(?p := kernel_row (pmem s (ipd_frame s)) (pmem s ?p))\<rparr>"
        by (simp add: put_row_def)
      also have "(?m n)(?p := kernel_row (pmem s (ipd_frame s)) (pmem s ?p)) = ?m (Suc n)"
        unfolding D using True by (auto simp: fun_eq_iff)
      finally show ?thesis using True ih by simp
    qed
  qed
  from this [of NUM_PAGE_DIRS] have "fold ?step [0..<NUM_PAGE_DIRS] s = s\<lparr>pmem := ?m NUM_PAGE_DIRS\<rparr>"
    by simp
  moreover have "?m NUM_PAGE_DIRS = sync_mem s"
  proof -
    have "d \<in> ?D NUM_PAGE_DIRS \<longleftrightarrow> d \<in> dir_frames s \<and> d \<noteq> ipd_frame s" for d
      using notK [of NUM_PAGE_DIRS] by (auto simp: dir_frames_def dir_ptrs_def ipd_frame_def)
    then show ?thesis by (simp add: sync_mem_def)
  qed
  ultimately show ?thesis
    using assms(2) by (simp add: sync_page_dirs_def verify_interrupts_disabled_def)
qed

lemma cr3_irrelevant [simp]:
  "slots (s\<lparr>cr3 := x\<rparr>) = slots s" "pte_at (s\<lparr>cr3 := x\<rparr>) = pte_at s"
  "own_slot (s\<lparr>cr3 := x\<rparr>) = own_slot s" "used_frames (s\<lparr>cr3 := x\<rparr>) = used_frames s"
  "managed_frames (s\<lparr>cr3 := x\<rparr>) = managed_frames s" "dir_ptrs (s\<lparr>cr3 := x\<rparr>) = dir_ptrs s"
  "dir_frames (s\<lparr>cr3 := x\<rparr>) = dir_frames s" "ipd_frame (s\<lparr>cr3 := x\<rparr>) = ipd_frame s"
  "layout_ok (s\<lparr>cr3 := x\<rparr>) = layout_ok s" "pmm_ok (s\<lparr>cr3 := x\<rparr>) = pmm_ok s"
  "table_frame (s\<lparr>cr3 := x\<rparr>) = table_frame s" "kernel_synced (s\<lparr>cr3 := x\<rparr>) = kernel_synced s"
  "are_interrupts_enabled (s\<lparr>cr3 := x\<rparr>) = are_interrupts_enabled s"
proof -
  let ?t = "s\<lparr>cr3 := x\<rparr>"
  show d: "dir_ptrs ?t = dir_ptrs s" "dir_frames ?t = dir_frames s" "ipd_frame ?t = ipd_frame s"
    "layout_ok ?t = layout_ok s"
    using dir_ptrs_cong [of ?t s] by simp_all
  show p: "used_frames ?t = used_frames s" "managed_frames ?t = managed_frames s"
    by (simp_all add: used_frames_def pf_used_def managed_frames_def alloc_start_def alloc_end_def)
  show "pmm_ok ?t = pmm_ok s" by (simp add: pmm_ok_def p alloc_end_def)
  show o: "own_slot ?t = own_slot s" by (simp add: own_slot_def d fun_eq_iff)
  show "slots ?t = slots s" by (simp add: slots_def o)
  have m: "pmem ?t = pmem s" by simp
  show "pte_at ?t = pte_at s" unfolding pte_at_def m ..
  show "table_frame ?t = table_frame s" by (simp add: table_frame_def fun_eq_iff)
  show "kernel_synced ?t = kernel_synced s" unfolding kernel_synced_def d m ..
  show "are_interrupts_enabled ?t = are_interrupts_enabled s"
    by (simp add: are_interrupts_enabled_iff)
qed

lemma cur_after_switch [simp]:
  "mem_get_current_page_directory (s\<lparr>cr3 := p - KERNEL_START\<rparr>) = p"
  "cur_dir (s\<lparr>cr3 := p - KERNEL_START\<rparr>) = kframe p"
  by (simp_all add: mem_get_current_page_directory_def cur_dir_def kframe_def)

lemma core_switch:
  "vm_core s \<Longrightarrow> p \<in> dir_ptrs s \<Longrightarrow> vm_core (s\<lparr>cr3 := p - KERNEL_START\<rparr>)"
  by (simp add: vm_core_def user_part_ok_def)

lemma not_owner_bits [simp]:
  "present (e AND NOT PAGE_FLAG_OWNER) = present e" "large (e AND NOT PAGE_FLAG_OWNER) = large e"
  "frame_of (e AND NOT PAGE_FLAG_OWNER) = frame_of e"
proof -
  have c: "bit PAGE_FLAG_OWNER n \<longleftrightarrow> n = 9" for n
    using bit_push_bit_iff [of 9 "1 :: u32" n] by (auto simp: PAGE_FLAG_OWNER_def bit_1_iff)
  show "present (e AND NOT PAGE_FLAG_OWNER) = present e" "large (e AND NOT PAGE_FLAG_OWNER) = large e"
    by (simp_all add: flag_bits bit_and_iff bit_not_iff c)
  have "drop_bit 12 (e AND NOT PAGE_FLAG_OWNER) = drop_bit 12 e"
    by (rule bit_word_eqI) (auto simp: bit_simps c dest: bit_imp_le_length)
  then show "frame_of (e AND NOT PAGE_FLAG_OWNER) = frame_of e" by (simp add: frame_of_def)
qed

definition synced :: "'a vm_state_scheme \<Rightarrow> 'a vm_state_scheme" where
  "synced s = s\<lparr>pmem := sync_mem s\<rparr>"

lemma synced_fields [simp]:
  "pmem (synced s) = sync_mem s" "cr3 (synced s) = cr3 s" "page_dirs (synced s) = page_dirs s"
  "initial_page_dir (synced s) = initial_page_dir s" "page_dir_used (synced s) = page_dir_used s"
  "mem_num_vpages (synced s) = mem_num_vpages s" "vm_state.more (synced s) = vm_state.more s"
  "eflags (synced s) = eflags s" "used_frames (synced s) = used_frames s"
  "managed_frames (synced s) = managed_frames s" "pmm_ok (synced s) = pmm_ok s"
  "mem_get_current_page_directory (synced s) = mem_get_current_page_directory s"
  by (simp_all add: synced_def used_frames_def pf_used_def managed_frames_def alloc_start_def
      alloc_end_def pmm_ok_def mem_get_current_page_directory_def)

lemma synced_dirs [simp]:
  "dir_ptrs (synced s) = dir_ptrs s" "dir_frames (synced s) = dir_frames s"
  "ipd_frame (synced s) = ipd_frame s" "layout_ok (synced s) = layout_ok s"
  "own_slot (synced s) = own_slot s"
  using dir_ptrs_cong [of "synced s" s] by (simp_all add: own_slot_def fun_eq_iff)

lemma sync_mem_own: "own_slot s d i \<Longrightarrow> sync_mem s d i = pmem s d i"
  by (auto simp: sync_mem_def own_slot_def kernel_row_def)

lemma sync_mem_outside: "d \<notin> dir_frames s \<Longrightarrow> sync_mem s d = pmem s d"
  by (simp add: sync_mem_def)

lemma core_synced:
  assumes "vm_core s"
  shows "vm_ok (synced s)" and "slots (synced s) = slots s"
    and "own_slot s d i \<Longrightarrow> pte_at (synced s) d i l = pte_at s d i l"
proof -
  show slots: "slots (synced s) = slots s"
    by (auto simp: slots_def sync_mem_own)
  have tf: "table_frame (synced s) x = table_frame s x" if "x \<in> slots s" for x
    using that by (auto simp: table_frame_def slots_def sync_mem_own split: prod.splits)
  have "self_map (sync_mem s) d" if "d \<in> dir_frames s" for d
    using vm_coreD(6) [OF assms that] by (simp add: self_map_def sync_mem_def kernel_row_def)
  moreover have "user_part_ok (synced s)"
    using vm_coreD(7) [OF assms] by (simp add: user_part_ok_def sync_mem_own own_slot_def)
  moreover have "inj_on (table_frame (synced s)) (slots s)"
    using vm_coreD(8) [OF assms] tf by (simp cong: inj_on_cong)
  moreover have "table_frame (synced s) ` slots s = table_frame s ` slots s"
    using tf by (rule image_cong [OF refl])
  ultimately have "vm_core (synced s)" using assms by (simp add: vm_core_def slots)
  moreover have "kernel_synced (synced s)"
    by (auto simp: kernel_synced_def sync_mem_def kernel_row_def)
  ultimately show "vm_ok (synced s)" by (simp add: vm_ok_def)
  show "pte_at (synced s) d i l = pte_at s d i l" if "own_slot s d i"
    using table_not_dir(2) [OF assms own_slotsI [OF that]]
    by (auto simp: pte_at_def sync_mem_own [OF that] sync_mem_outside)
qed

text \<open>In a synced state every directory shows the kernel part of \<open>initial_page_dir\<close>.\<close>

lemma synced_view:
  assumes "kernel_synced s" and "d \<in> dir_frames s" and "768 \<le> i" and "i < 1023"
  shows "pte_at s d i l = pte_at s (ipd_frame s) i l"
proof (cases "d = ipd_frame s")
  case False
  with assms have "pmem s d i = pmem s (ipd_frame s) i AND NOT PAGE_FLAG_OWNER"
    by (simp add: kernel_synced_def)
  then show ?thesis by (simp add: pte_at_def)
qed simp

end
