(* ===== verification/Paging_Spec.thy ===== *)
theory Paging_Spec
  imports Paging_Facts
begin

text \<open>
  What the page-table operations promise: \<open>mem_map_page\<close> and \<open>mem_unmap_page\<close> change exactly
  one entry of the abstract view \<open>pte_at\<close> (in every directory for a kernel address) and keep
  \<open>vm_ok\<close>; a fresh directory has no user page and shows the kernel; freeing a directory gives
  back exactly the frames it owns.
\<close>

section \<open>Switching to the kernel's directory and back\<close>

lemma vm_okD: "vm_ok s \<Longrightarrow> vm_core s" "vm_ok s \<Longrightarrow> kernel_synced s"
  by (simp_all add: vm_ok_def)

lemma enter_kernel_dir_eq:
  assumes "vm_core s" and "KERNEL_START \<le> va"
  shows "enter_kernel_dir va s = Inr (mem_get_current_page_directory s,
    s\<lparr>cr3 := initial_page_dir s - KERNEL_START\<rparr>)"
proof (cases "mem_get_current_page_directory s = initial_page_dir s")
  case True
  then have "initial_page_dir s - KERNEL_START = cr3 s"
    by (simp add: mem_get_current_page_directory_def flip: True)
  then have "s\<lparr>cr3 := initial_page_dir s - KERNEL_START\<rparr> = s" by simp
  with True assms show ?thesis by (simp add: enter_kernel_dir_def Let_def)
next
  case False
  have "KERNEL_START < initial_page_dir s"
    using dir_ptrs_facts(3) [OF vm_coreD(2) [OF assms(1)]] by simp
  with False assms(2) show ?thesis
    by (simp add: enter_kernel_dir_def Let_def mem_change_page_directory_def)
qed

lemma leave_kernel_dir_eq:
  assumes core: "vm_core s" and p: "p \<in> dir_ptrs s" and off: "\<not> are_interrupts_enabled s"
    and cur: "cr3 s = initial_page_dir s - KERNEL_START"
  shows "leave_kernel_dir p s = Inr ((synced s)\<lparr>cr3 := p - KERNEL_START\<rparr>)"
proof -
  have k: "KERNEL_START < p" by (rule dir_ptrs_facts(3) [OF vm_coreD(2) [OF core] p])
  then have "p \<noteq> 0" by auto
  moreover have "sync_page_dirs s = Inr (synced s)"
    using sync_page_dirs_eq [OF vm_coreD(2) [OF core] off] by (simp add: synced_def)
  moreover have "(synced s)\<lparr>cr3 := p - KERNEL_START\<rparr> = synced s" if "p = initial_page_dir s"
    using that cur by (simp add: synced_def)
  ultimately show ?thesis
    using k by (simp add: leave_kernel_dir_def mem_change_page_directory_def)
qed

text \<open>The directory an operation on \<open>va\<close> works in.\<close>

definition target_dir :: "u32 \<Rightarrow> 'a vm_state_scheme \<Rightarrow> nat" where
  "target_dir va s = (if va \<ge> KERNEL_START then ipd_frame s else cur_dir s)"

lemma pd_index_kernel: "KERNEL_START \<le> va \<longleftrightarrow> 768 \<le> pd_index va"
proof -
  have "KERNEL_START \<le> va \<longleftrightarrow> 3221225472 \<le> unat va"
    by (simp add: KERNEL_START_def word_le_nat_alt)
  then show ?thesis by (auto simp: pd_index_div)
qed

lemma target_own_slot:
  assumes "vm_core s" and "pd_index va < 1023"
  shows "own_slot s (target_dir va s) (pd_index va)"
  using assms pd_index_kernel [of va] cur_dir_in [OF assms(1)]
  by (auto simp: target_dir_def own_slot_def)

section \<open>Mapping\<close>

text \<open>Facts every operation keeps about the directories and the rest of the kernel state.\<close>

definition same_dirs :: "'a vm_state_scheme \<Rightarrow> 'a vm_state_scheme \<Rightarrow> bool" where
  "same_dirs s t \<longleftrightarrow> cr3 t = cr3 s \<and> page_dirs t = page_dirs s \<and>
     initial_page_dir t = initial_page_dir s \<and> page_dir_used t = page_dir_used s \<and>
     eflags t = eflags s \<and> managed_frames t = managed_frames s \<and> vm_state.more t = vm_state.more s"

lemma same_dirs_dirs:
  assumes "same_dirs s t"
  shows "dir_ptrs t = dir_ptrs s" "dir_frames t = dir_frames s" "ipd_frame t = ipd_frame s"
    "cur_dir t = cur_dir s" "own_slot t = own_slot s"
    "are_interrupts_enabled t = are_interrupts_enabled s"
    "mem_get_current_page_directory t = mem_get_current_page_directory s"
  using dir_ptrs_cong [of t s] assms
  by (simp_all add: same_dirs_def cur_dir_def own_slot_def fun_eq_iff are_interrupts_enabled_iff
      mem_get_current_page_directory_def)

text \<open>Restoring the directory after an operation under \<open>initial_page_dir\<close>.\<close>

lemma restored_dir:
  assumes "same_dirs (s\<lparr>cr3 := x\<rparr>) t"
  shows "same_dirs s ((synced t)\<lparr>cr3 := mem_get_current_page_directory s - KERNEL_START\<rparr>)"
  using assms by (simp add: same_dirs_def mem_get_current_page_directory_def)

text \<open>The state in which the body of an operation on \<open>va\<close> runs, and what is left of its
  effect after \<open>leave_kernel_dir\<close>: one changed entry of the view, in every directory for a
  kernel address.\<close>

definition entered :: "u32 \<Rightarrow> 'a vm_state_scheme \<Rightarrow> 'a vm_state_scheme" where
  "entered va s = (if KERNEL_START \<le> va then s\<lparr>cr3 := initial_page_dir s - KERNEL_START\<rparr> else s)"

lemma entered_facts:
  assumes "vm_core s"
  shows "vm_core (entered va s)" "cur_dir (entered va s) = target_dir va s"
    "pmem (entered va s) = pmem s" "own_slot (entered va s) = own_slot s"
    "pte_at (entered va s) = pte_at s" "slots (entered va s) = slots s"
    "table_frame (entered va s) = table_frame s" "used_frames (entered va s) = used_frames s"
    "managed_frames (entered va s) = managed_frames s" "dir_frames (entered va s) = dir_frames s"
  using core_switch [OF assms] by (simp_all add: entered_def target_dir_def ipd_frame_def assms)

lemma synced_data:
  assumes "vm_core s"
  shows "data_frames (synced s) = data_frames s" and "data_kept s (synced s)"
proof -
  have "table_frame (synced s) ` slots s = table_frame s ` slots s"
    by (rule image_cong [OF refl]) (auto simp: table_frame_def slots_def sync_mem_own split: prod.splits)
  then show eq: "data_frames (synced s) = data_frames s"
    unfolding data_frames_def core_synced(2) [OF assms] by simp
  show "data_kept s (synced s)"
    using data_not_dir [OF assms] unfolding data_kept_def eq by (auto simp: sync_mem_outside)
qed

lemma data_kept_cr3 [simp]:
  "data_kept s (t\<lparr>cr3 := x\<rparr>) = data_kept s t" "data_kept (s\<lparr>cr3 := x\<rparr>) t = data_kept s t"
  "data_frames (s\<lparr>cr3 := x\<rparr>) = data_frames s"
  by (simp_all add: data_kept_def data_frames_def)

lemma data_kept_entered [simp]:
  "data_kept (entered va s) t = data_kept s t" "data_frames (entered va s) = data_frames s"
  by (simp_all add: entered_def)

text \<open>No operation makes an entry of \<open>initial_page_dir\<close> a large page.\<close>

definition large_kept :: "'a vm_state_scheme \<Rightarrow> 'b vm_state_scheme \<Rightarrow> bool" where
  "large_kept s t \<longleftrightarrow> (\<forall>i<1023. large (pmem t (ipd_frame s) i) \<longrightarrow> large (pmem s (ipd_frame s) i))"

lemma bracket_spec:
  assumes ok: "vm_ok s" and off: "\<not> are_interrupts_enabled s" and va: "pd_index va < 1023"
    and core_t: "vm_core t" and sd: "same_dirs (entered va s) t"
    and view: "\<forall>d k l. own_slot s d k \<longrightarrow> l < 1024 \<longrightarrow> pte_at t d k l =
      (if d = target_dir va s \<and> k = pd_index va \<and> l = pt_index va then x else pte_at s d k l)"
    and row: "\<forall>d\<in>dir_frames s. \<forall>k. d = target_dir va s \<and> k = pd_index va \<or> pmem t d k = pmem s d k"
    and lt: "large (pmem t (target_dir va s) (pd_index va)) \<longrightarrow> large (pmem s (target_dir va s) (pd_index va))"
  shows "\<exists>prev u. enter_kernel_dir va s = Inr (prev, entered va s) \<and> leave_kernel_dir prev t = Inr u \<and>
    vm_ok u \<and> same_dirs s u \<and> used_frames u = used_frames t \<and> data_kept t u \<and>
    data_frames u = data_frames t \<and> large_kept s u \<and>
    (\<forall>d\<in>dir_frames s. \<forall>i<1023. \<forall>j<1024. pte_at u d i j =
      (if (KERNEL_START \<le> va \<or> d = cur_dir s) \<and> i = pd_index va \<and> j = pt_index va
       then x else pte_at s d i j))"
proof -
  note view = view [rule_format] and row = row [rule_format]
  have lk: "large (pmem t (ipd_frame s) i) \<longrightarrow> large (pmem s (ipd_frame s) i)" for i
    using row [OF ipd_in_dirs(2), of i] lt by auto
  show ?thesis
proof (cases "KERNEL_START \<le> va")
  case False
  note core = vm_okD(1) [OF ok]
  have tgt: "target_dir va s = cur_dir s" "entered va s = s"
    using False by (simp_all add: target_dir_def entered_def)
  have user: "pd_index va < 768" using False pd_index_kernel by simp
  note sd = sd [unfolded tgt]
  note sdd = same_dirs_dirs [OF sd]
  have krow: "pmem t d k = pmem s d k" if "d \<in> dir_frames s" "768 \<le> k" for d k
    using row [OF that(1), of k] user that(2) by auto
  have sync: "kernel_synced t"
    using vm_okD(2) [OF ok] krow unfolding kernel_synced_def sdd by simp
  have "pte_at t d i j = (if d = cur_dir s \<and> i = pd_index va \<and> j = pt_index va
      then x else pte_at s d i j)"
    if "d \<in> dir_frames s" "i < 1023" "j < 1024" for d i j
  proof (cases "i < 768")
    case True
    then show ?thesis using view that by (simp add: own_slot_def tgt)
  next
    case False
    then have k: "768 \<le> i" by simp
    have "pte_at t d i j = pte_at t (ipd_frame s) i j"
      by (rule synced_view [OF sync, unfolded sdd, OF that(1) k that(2)])
    also have "\<dots> = pte_at s (ipd_frame s) i j"
      using view [of "ipd_frame s" i j] that k user by (auto simp: own_slot_def)
    also have "\<dots> = pte_at s d i j"
      by (rule synced_view [OF vm_okD(2) [OF ok] that(1) k that(2), symmetric])
    finally show ?thesis using k user by simp
  qed
  with core_t sync sd False tgt lk show ?thesis
    by (intro exI [of _ 0] exI [of _ t]) (simp add: vm_ok_def large_kept_def enter_kernel_dir_def leave_kernel_dir_def)
next
  case True
  note core = vm_okD(1) [OF ok]
  have tgt: "target_dir va s = ipd_frame s" using True by (simp add: target_dir_def)
  have ent: "entered va s = s\<lparr>cr3 := initial_page_dir s - KERNEL_START\<rparr>" using True by (simp add: entered_def)
  note sd = sd [unfolded ent] and view = view [unfolded tgt]
  note sdd = same_dirs_dirs [OF sd, simplified]
  let ?p = "mem_get_current_page_directory s"
  let ?t = "(synced t)\<lparr>cr3 := ?p - KERNEL_START\<rparr>"
  have p: "?p \<in> dir_ptrs s" by (rule vm_coreD(4) [OF core])
  have cur: "cr3 t = initial_page_dir t - KERNEL_START" using sd by (simp add: same_dirs_def)
  have eq: "enter_kernel_dir va s = Inr (?p, entered va s)" "leave_kernel_dir ?p t = Inr ?t"
    using off enter_kernel_dir_eq [OF core True] leave_kernel_dir_eq [OF core_t _ _ cur, of ?p] p sdd
    by (simp_all add: ent)
  note ok' = core_synced(1) [OF core_t]
  have okt: "vm_ok ?t"
    using ok' core_switch [of "synced t" ?p] p sdd by (simp add: vm_ok_def)
  have "pte_at ?t d i j = (if i = pd_index va \<and> j = pt_index va then x else pte_at s d i j)"
    if "d \<in> dir_frames s" "i < 1023" "j < 1024" for d i j
  proof (cases "i < 768")
    case True
    have "own_slot t d i" using True that by (simp add: sdd own_slot_def)
    then show ?thesis
      using view [of d i j] that True core_synced(3) [OF core_t] pd_index_kernel [of va]
        \<open>KERNEL_START \<le> va\<close> sdd by auto
  next
    case False
    then have k: "768 \<le> i" by simp
    have own: "own_slot t (ipd_frame s) i" using that by (simp add: sdd own_slot_def)
    have "pte_at ?t d i j = pte_at (synced t) (ipd_frame s) i j"
      using synced_view [OF vm_okD(2) [OF ok'], unfolded synced_dirs sdd, OF that(1) k that(2)]
      by simp
    also have "\<dots> = pte_at t (ipd_frame s) i j" by (rule core_synced(3) [OF core_t own])
    also have "\<dots> = (if i = pd_index va \<and> j = pt_index va then x else pte_at s (ipd_frame s) i j)"
      using view [of "ipd_frame s" i j] own that by (simp add: sdd)
    also have "pte_at s (ipd_frame s) i j = pte_at s d i j"
      by (rule synced_view [OF vm_okD(2) [OF ok] that(1) k that(2), symmetric])
    finally show ?thesis .
  qed
  moreover have "used_frames ?t = used_frames t" by simp
  moreover have "large_kept s ?t"
    using lk by (simp add: large_kept_def sync_mem_def sdd)
  moreover have "data_kept t ?t" "data_frames ?t = data_frames t" using synced_data [OF core_t] by simp_all
  ultimately show ?thesis using eq okt restored_dir [OF sd] True
    by (intro exI [of _ ?p] exI [of _ ?t]) simp
qed
qed

lemma mem_map_page_spec:
  assumes ok: "vm_ok s" and off: "\<not> are_interrupts_enabled s" and va: "pd_index va < 1023"
    and nl: "\<not> large (pmem s (target_dir va s) (pd_index va))" and fl: "flags_ok flags"
    and room: "present (pmem s (target_dir va s) (pd_index va)) \<or> \<not> managed_frames s \<subseteq> used_frames s"
  shows "\<exists>t. mem_map_page va pa flags s = Inr t \<and> vm_ok t \<and> same_dirs s t \<and>
    (\<forall>d\<in>dir_frames s. \<forall>i<1023. \<forall>j<1024. pte_at t d i j =
      (if (KERNEL_START \<le> va \<or> d = cur_dir s) \<and> i = pd_index va \<and> j = pt_index va
       then pte_of pa flags else pte_at s d i j)) \<and>
    used_frames s \<subseteq> used_frames t \<and> card (used_frames t) \<le> card (used_frames s) + 1 \<and>
    data_kept s t \<and> large_kept s t"
proof -
  note core = vm_okD(1) [OF ok]
  note e = entered_facts [OF core, of va]
  note own = target_own_slot [OF core va]
  from map_body_spec [OF e(1), of va flags pa] own nl fl room
  obtain t where t: "map_body va pa flags (entered va s) = Inr t" "vm_core t"
    and view: "\<forall>d k l. own_slot s d k \<longrightarrow> l < 1024 \<longrightarrow> pte_at t d k l =
        (if d = target_dir va s \<and> k = pd_index va \<and> l = pt_index va then pte_of pa flags else pte_at s d k l)"
    and row: "\<forall>d\<in>dir_frames s. \<forall>k. d = target_dir va s \<and> k = pd_index va \<or> pmem t d k = pmem s d k"
    and sd: "same_dirs (entered va s) t" and u: "used_frames s \<subseteq> used_frames t"
      "card (used_frames t) \<le> card (used_frames s) + 1"
    and k: "data_kept s t" and sl: "(target_dir va s, pd_index va) \<in> slots t"
    unfolding same_dirs_def e data_kept_entered by metis
  have lt: "large (pmem t (target_dir va s) (pd_index va)) \<longrightarrow> large (pmem s (target_dir va s) (pd_index va))"
    using sl by (simp add: slots_def)
  from bracket_spec [OF ok off va t(2) sd view row lt]
  obtain prev u where "enter_kernel_dir va s = Inr (prev, entered va s)" "leave_kernel_dir prev t = Inr u"
    and u': "vm_ok u" "same_dirs s u" "used_frames u = used_frames t" "data_kept t u" "large_kept s u"
      "\<forall>d\<in>dir_frames s. \<forall>i<1023. \<forall>j<1024. pte_at u d i j =
        (if (KERNEL_START \<le> va \<or> d = cur_dir s) \<and> i = pd_index va \<and> j = pt_index va
         then pte_of pa flags else pte_at s d i j)" by metis
  with t(1) off have "mem_map_page va pa flags s = Inr u"
    by (simp add: mem_map_page_def verify_interrupts_disabled_def)
  with u u' data_kept_trans [OF k u'(4)] show ?thesis by auto
qed

section \<open>Unmapping\<close>

lemma P_PHYS_ADDR_frame: "P_PHYS_ADDR x = of_nat (frame_of x) * 4096"
proof -
  have "P_PHYS_ADDR x = x AND NOT (mask 12)"
    by (simp add: P_PHYS_ADDR_def mask_eq_exp_minus_1)
  also have "\<dots> = push_bit 12 (drop_bit 12 x)"
    by (rule bit_word_eqI) (auto simp: bit_and_iff bit_not_iff bit_mask_iff bit_push_bit_iff bit_drop_bit_eq)
  also have "\<dots> = of_nat (unat (drop_bit 12 x)) * 4096"
    by (simp add: push_bit_eq_mult)
  finally show ?thesis by (simp add: frame_of_def)
qed

lemma free_frame_eq:
  assumes "pmm_ok s" and "frame_of e \<in> used_frames s"
  shows "pmm_free_pageframe (P_PHYS_ADDR e) s = Inr (drop_frame (frame_of e) s)"
proof -
  have f: "frame_of e < NUM_PAGE_FRAMES"
    using assms(2) by (simp add: used_frames_def pf_used_def)
  have "unat (P_PHYS_ADDR e div PAGE_FRAME_SIZE) = frame_of e"
    using frame_index(1) [OF f] by (simp add: P_PHYS_ADDR_frame PAGE_FRAME_SIZE_def)
  with assms f show ?thesis
    by (subst pmm_free_eq) (simp_all add: pmm_ok_def)
qed

lemma core_drop_data:
  assumes "vm_core s" and "f \<in> used_frames s" and "f \<notin> table_frame s ` slots s"
  shows "vm_core (drop_frame f s)" and "slots (drop_frame f s) = slots s"
    and "pte_at (drop_frame f s) = pte_at s"
proof -
  show sl: "slots (drop_frame f s) = slots s" by (simp add: slots_def)
  have tf: "table_frame (drop_frame f s) = table_frame s" by (simp add: table_frame_def fun_eq_iff)
  note p = pmm_ok_drop_frame [OF vm_coreD(1) [OF assms(1)] assms(2)]
  have "table_frame s ` slots s \<subseteq> used_frames s - {f}"
    using vm_coreD(9) [OF assms(1)] assms(3) by blast
  then show "vm_core (drop_frame f s)"
    using assms(1) p by (simp add: vm_core_def sl tf user_part_ok_def)
  show "pte_at (drop_frame f s) = pte_at s" unfolding pte_at_def pmm_vm_frames ..
qed

lemma vpages_fields [simp]:
  "are_interrupts_enabled (s\<lparr>mem_num_vpages := n\<rparr>) = are_interrupts_enabled s"
  by (simp add: are_interrupts_enabled_iff)

text \<open>The state after the entry is cleared, before frames are given back.\<close>

definition cleared :: "nat \<Rightarrow> nat \<Rightarrow> 'a vm_state_scheme \<Rightarrow> 'a vm_state_scheme" where
  "cleared g j s = (put_row g ((pmem s g)(j := 0)) s)\<lparr>mem_num_vpages := mem_num_vpages s - 1\<rparr>"

lemma cleared_fields [simp]:
  "pmem (cleared g j s) = (pmem s)(g := (pmem s g)(j := 0))"
  "cr3 (cleared g j s) = cr3 s" "cur_dir (cleared g j s) = cur_dir s"
  "page_dirs (cleared g j s) = page_dirs s" "initial_page_dir (cleared g j s) = initial_page_dir s"
  "page_dir_used (cleared g j s) = page_dir_used s" "eflags (cleared g j s) = eflags s"
  "vm_state.more (cleared g j s) = vm_state.more s" "own_slot (cleared g j s) = own_slot s"
  "managed_frames (cleared g j s) = managed_frames s" "used_frames (cleared g j s) = used_frames s"
  "dir_frames (cleared g j s) = dir_frames s" "ipd_frame (cleared g j s) = ipd_frame s"
  by (simp_all add: cleared_def)

lemma core_cleared:
  assumes core: "vm_core s" and slot: "(c, i) \<in> slots s" and g: "g = frame_of (pmem s c i)"
  shows "vm_core (cleared g j s)" and "slots (cleared g j s) = slots s"
    and "own_slot s d k \<Longrightarrow> pte_at (cleared g j s) d k l =
      (if d = c \<and> k = i \<and> l = j then 0 else pte_at s d k l)"
    and "table_frame (cleared g j s) ` slots s = table_frame s ` slots s"
    and "d \<in> dir_frames s \<Longrightarrow> pmem (cleared g j s) d = pmem s d"
    and "data_frames (cleared g j s) = data_frames s"
    and "f \<in> data_frames s \<Longrightarrow> pmem (cleared g j s) f = pmem s f"
proof -
  have nd: "g \<notin> dir_frames s" using table_not_dir(2) [OF core slot] g by simp
  note p = core_put_table [OF core nd, of "(pmem s g)(j := 0)"]
  show "vm_core (cleared g j s)" and sl: "slots (cleared g j s) = slots s"
    using p by (simp_all add: cleared_def)
  have "g \<in> table_frame s ` slots s"
    using slot g by (auto simp: table_frame_def intro!: image_eqI [OF _ slot])
  then show "f \<in> data_frames s \<Longrightarrow> pmem (cleared g j s) f = pmem s f"
    by (auto simp: data_frames_def)
  show row: "pmem (cleared g j s) d = pmem s d" if "d \<in> dir_frames s" for d
    using nd that by auto
  show "pte_at (cleared g j s) d k l = (if d = c \<and> k = i \<and> l = j then 0 else pte_at s d k l)"
    if "own_slot s d k"
    using pte_at_put_table [OF core slot that g, of j 0 l] by (simp add: cleared_def)
  have "table_frame (cleared g j s) x = table_frame s x" if "x \<in> slots s" for x
    using that row by (auto simp: table_frame_def slots_def own_slot_def simp del: cleared_fields(1))
  then show tf: "table_frame (cleared g j s) ` slots s = table_frame s ` slots s"
    by (rule image_cong [OF refl])
  show "data_frames (cleared g j s) = data_frames s"
    unfolding data_frames_def sl tf by simp
qed

text \<open>The empty page table \<open>g\<close> given back.\<close>

definition released :: "nat \<Rightarrow> nat \<Rightarrow> nat \<Rightarrow> 'a vm_state_scheme \<Rightarrow> 'a vm_state_scheme" where
  "released c i g s = put_row c ((pmem s c)(i := 0)) (drop_frame g s)"

lemma released_fields [simp]:
  "cr3 (released c i g s) = cr3 s" "cur_dir (released c i g s) = cur_dir s"
  "page_dirs (released c i g s) = page_dirs s" "initial_page_dir (released c i g s) = initial_page_dir s"
  "page_dir_used (released c i g s) = page_dir_used s" "eflags (released c i g s) = eflags s"
  "vm_state.more (released c i g s) = vm_state.more s" "own_slot (released c i g s) = own_slot s"
  "managed_frames (released c i g s) = managed_frames s"
  by (simp_all add: released_def)

lemma pmem_released: "pmem (released c i g s) d k = (if d = c \<and> k = i then 0 else pmem s d k)"
  by (simp add: released_def)

lemma core_released:
  assumes core: "vm_core s" and slot: "(c, i) \<in> slots s" and g: "g = frame_of (pmem s c i)"
  shows "vm_core (released c i g s)" "slots (released c i g s) \<subseteq> slots s"
    "table_frame (released c i g s) ` slots (released c i g s) \<subseteq> table_frame s ` slots s"
    "used_frames (released c i g s) = used_frames s - {g}"
    "data_frames (released c i g s) = data_frames s"
    "f \<in> data_frames s \<Longrightarrow> pmem (released c i g s) f = pmem s f"
proof -
  note d = core_del_entry [OF core slot, folded g]
  show "vm_core (released c i g s)" using d(1) by (simp add: released_def)
  show sl: "slots (released c i g s) \<subseteq> slots s" using d(2) by (auto simp: released_def)
  have tf: "table_frame (released c i g s) x = table_frame s x" if "x \<in> slots (released c i g s)" for x
    using that d(2) by (auto simp: released_def table_frame_def split: prod.splits)
  with sl show "table_frame (released c i g s) ` slots (released c i g s) \<subseteq> table_frame s ` slots s"
    by fastforce
  have "g \<in> used_frames s" using table_not_dir(1) [OF core slot] g by simp
  then show u: "used_frames (released c i g s) = used_frames s - {g}"
    using pmm_ok_drop_frame [OF vm_coreD(1) [OF core]] by (simp add: released_def)
  have gt: "table_frame s (c, i) = g" using g by (simp add: table_frame_def)
  have "table_frame (released c i g s) ` slots (released c i g s) = table_frame s ` slots (released c i g s)"
    using tf by (rule image_cong [OF refl])
  also have "\<dots> = table_frame s ` (slots s - {(c, i)})" using d(2) by (simp add: released_def)
  also have "table_frame s ` (slots s - {(c, i)}) = table_frame s ` slots s - {g}"
    using inj_on_image_set_diff [OF vm_coreD(8) [OF core], of "slots s" "{(c, i)}"] slot gt by simp
  finally have img: "table_frame (released c i g s) ` slots (released c i g s) = table_frame s ` slots s - {g}" .
  have "g \<in> table_frame s ` slots s" using slot gt by (metis imageI)
  then show "data_frames (released c i g s) = data_frames s"
    unfolding data_frames_def u img by blast
  have "c \<in> dir_frames s" using slot by (auto simp: slots_def own_slot_def)
  then show "pmem (released c i g s) f = pmem s f" if "f \<in> data_frames s"
    using data_not_dir [OF core that] by (auto simp: released_def)
qed

lemma pte_at_released:
  assumes core: "vm_core s" and slot: "(c, i) \<in> slots s" and g: "g = frame_of (pmem s c i)"
    and empty: "\<And>l. l < 1024 \<Longrightarrow> \<not> present (pmem s g l)" and own: "own_slot s d k" and l: "l < 1024"
  shows "pte_at (released c i g s) d k l = pte_at s d k l"
proof (cases "d = c \<and> k = i")
  case True
  have "pte_at s c i l = 0" using slot empty [OF l] g by (simp add: pte_at_def slots_def)
  with True show ?thesis by (simp add: pte_at_def released_def) (simp add: present_def)
next
  case False
  have c: "c \<in> dir_frames s" using slot by (auto simp: slots_def own_slot_def)
  have row: "pmem (released c i g s) d k = pmem s d k" using False by (auto simp: released_def)
  have "frame_of (pmem s d k) \<noteq> c" if "present (pmem s d k)" "\<not> large (pmem s d k)"
    using table_not_dir(2) [OF core own_slotsI [OF own that]] c by auto
  then show ?thesis unfolding pte_at_def row by (auto simp: released_def)
qed

text \<open>\<open>last_page s g j\<close>: page \<open>j\<close> is the only one that table \<open>g\<close> maps.\<close>

definition last_page :: "'a vm_state_scheme \<Rightarrow> nat \<Rightarrow> nat \<Rightarrow> bool" where
  "last_page s g j \<longleftrightarrow> (\<forall>l<1024. l \<noteq> j \<longrightarrow> \<not> present (pmem s g l))"

lemma release_page_table_eq:
  assumes core: "vm_core s" and slot: "(cur_dir s, unat pd) \<in> slots s"
    and g: "g = frame_of (pmem s (cur_dir s) (unat pd))"
  shows "release_page_table pd s =
    Inr (if owner (pmem s (cur_dir s) (unat pd)) then released (cur_dir s) (unat pd) g s else s)"
proof -
  let ?c = "cur_dir s"
  have i: "unat pd < 1024" using slot own_slot_bounds by (fastforce simp: slots_def)
  have "g \<in> used_frames s" using table_not_dir(1) [OF core slot] g by simp
  then have fr: "pmm_free_pageframe (P_PHYS_ADDR (pmem s ?c (unat pd))) s = Inr (drop_frame g s)"
    using free_frame_eq [OF vm_coreD(1) [OF core]] g by simp
  have "vstore (elem REC_PAGEDIR (unat pd)) 0 (drop_frame g s) = Inr (released ?c (unat pd) g s)"
    using vstore_dir [of "drop_frame g s" "unat pd" 0] cur_self_map [OF core] i
    by (simp add: released_def put_word_row)
  with fr show ?thesis
    using vload_dir [OF cur_self_map [OF core] i] by (simp add: release_page_table_def owner_def)
qed

lemma free_data_spec:
  assumes core: "vm_core s"
    and own: "owner pte \<Longrightarrow> frame_of pte \<in> data_frames s"
  shows "\<exists>t. (if pte AND PAGE_FLAG_OWNER \<noteq> 0 then pmm_free_pageframe (P_PHYS_ADDR pte) s else Inr s) = Inr t \<and>
    vm_core t \<and> pte_at t = pte_at s \<and> pmem t = pmem s \<and> same_dirs s t \<and>
    used_frames t = used_frames s - (if owner pte then {frame_of pte} else {}) \<and>
    data_frames t = data_frames s - (if owner pte then {frame_of pte} else {})"
proof (cases "owner pte")
  case True
  let ?f = "frame_of pte" and ?t = "drop_frame (frame_of pte) s"
  have o: "?f \<in> used_frames s" "?f \<notin> table_frame s ` slots s"
    using own [OF True] by (auto simp: data_frames_def)
  note d = core_drop_data [OF core o] and p = pmm_ok_drop_frame [OF vm_coreD(1) [OF core] o(1)]
  have tf: "table_frame ?t = table_frame s" by (simp add: table_frame_def fun_eq_iff)
  have "data_frames ?t = data_frames s - {?f}"
    unfolding data_frames_def p(2) d(2) tf by blast
  then show ?thesis
    using True free_frame_eq [OF vm_coreD(1) [OF core] o(1)] d p
    by (intro exI [of _ ?t]) (simp add: owner_def same_dirs_def)
next
  case False
  with core show ?thesis by (auto simp: owner_def same_dirs_def)
qed

lemma unmap_body_spec:
  assumes core: "vm_core s" and slot: "(cur_dir s, pd_index va) \<in> slots s"
    and g: "g = frame_of (pmem s (cur_dir s) (pd_index va))"
    and pte: "pte = pmem s g (pt_index va)" and pr: "present pte"
    and own: "owner pte \<Longrightarrow> frame_of pte \<in> data_frames s"
  shows "\<exists>t. unmap_body va s = Inr (pte, t) \<and> vm_core t \<and> same_dirs s t \<and>
    (\<forall>d k l. own_slot s d k \<longrightarrow> l < 1024 \<longrightarrow> pte_at t d k l =
      (if d = cur_dir s \<and> k = pd_index va \<and> l = pt_index va then 0 else pte_at s d k l)) \<and>
    (\<forall>d\<in>dir_frames s. \<forall>k. d = cur_dir s \<and> k = pd_index va \<or> pmem t d k = pmem s d k) \<and>
    used_frames t = used_frames s - (if owner pte then {frame_of pte} else {}) -
      (if last_page s g (pt_index va) \<and> owner (pmem s (cur_dir s) (pd_index va)) then {g} else {}) \<and>
    data_frames t = data_frames s - (if owner pte then {frame_of pte} else {}) \<and>
    (\<forall>f\<in>data_frames s. pmem t f = pmem s f) \<and>
    \<not> large (pmem t (cur_dir s) (pd_index va))"
proof -
  let ?c = "cur_dir s" and ?i = "pd_index va" and ?j = "pt_index va" and ?pd = "drop_bit 22 va"
  have i: "?i < 1024" by simp
  have pd: "unat ?pd = ?i" by (simp add: pd_index_def)
  have pde: "present (pmem s ?c ?i)" using slot by (simp add: slots_def)
  let ?s2 = "cleared g ?j s"
  note c2 = core_cleared [OF core slot g, where j = ?j]
  have cdir: "?c \<in> dir_frames s" by (rule cur_dir_in [OF core])
  note sm = cur_self_map [OF core]
  have ld: "vload (elem (REC_PAGETABLE ?pd) ?j) s = Inr pte"
    using vload_table [OF sm, of ?pd ?j] i pde by (simp add: pd pte g)
  have st: "vstore (elem (REC_PAGETABLE ?pd) ?j) 0 s = Inr (put_row g ((pmem s g)(?j := 0)) s)"
    using vstore_table [OF sm, of ?pd ?j 0] i pde by (simp add: pd g put_word_row)
  have cur2: "pmem ?s2 ?c = pmem s ?c" by (rule c2(5) [OF cdir])
  have sm2: "self_map (pmem ?s2) (cur_dir ?s2)" by (rule cur_self_map [OF c2(1)])
  have ex: "exists_res 0 1024 (\<lambda>l. and_then (vload (elem (REC_PAGETABLE ?pd) l) ?s2)
      (\<lambda>e. Inr (e AND PAGE_FLAG_PRESENT \<noteq> 0))) = Inr (\<not> last_page s g ?j)"
  proof -
    have e: "and_then (vload (elem (REC_PAGETABLE ?pd) l) ?s2) (\<lambda>e. Inr (e AND PAGE_FLAG_PRESENT \<noteq> 0))
        = Inr (l \<noteq> ?j \<and> present (pmem s g l))" if "l < 1024" for l
      using vload_table [OF sm2, of ?pd l] that i pde cur2
      by (simp add: pd g [symmetric] present_def del: cleared_fields(1)) (auto simp: present_def)
    show ?thesis
      by (subst exists_res_eq [where q = "\<lambda>l. l \<noteq> ?j \<and> present (pmem s g l)"])
        (auto simp: e last_page_def)
  qed
  let ?rel = "last_page s g ?j \<and> owner (pmem s ?c ?i)"
  let ?s3 = "if ?rel then released ?c ?i g ?s2 else ?s2"
  have slot2: "(cur_dir ?s2, unat ?pd) \<in> slots ?s2" using slot c2(2) by (simp add: pd)
  have rel: "(if \<not> last_page s g ?j then Inr ?s2 else release_page_table ?pd ?s2) = Inr ?s3"
    using release_page_table_eq [OF c2(1) slot2, of g] g cur2 by (simp add: pd del: cleared_fields(1))
  have gfree: "g = frame_of (pmem ?s2 ?c ?i)" using g cur2 by simp
  have slot2': "(?c, ?i) \<in> slots ?s2" using slot c2(2) by simp
  let ?own = "if owner pte then {frame_of pte} else {}"
  have r3: "vm_core ?s3" "slots ?s3 \<subseteq> slots s" "table_frame ?s3 ` slots ?s3 \<subseteq> table_frame s ` slots s"
    "used_frames ?s3 = used_frames s - (if ?rel then {g} else {})" "data_frames ?s3 = data_frames s"
    using c2 core_released [OF c2(1) slot2' gfree] by auto
  have l3: "\<not> large (pmem ?s3 ?c ?i)"
    using slot c2(5) [OF cdir] by (simp add: pmem_released slots_def) (simp add: large_def)
  have k3: "pmem ?s3 f = pmem s f" if "f \<in> data_frames s" for f
    using that c2(6,7) core_released(6) [OF c2(1) slot2' gfree] by auto
  have view3: "pte_at ?s3 d k l = (if d = ?c \<and> k = ?i \<and> l = ?j then 0 else pte_at s d k l)"
    if "own_slot s d k" "l < 1024" for d k l
  proof -
    have "pte_at ?s3 d k l = pte_at ?s2 d k l"
    proof (cases ?rel)
      case True
      then have "\<not> present (pmem ?s2 g m)" if "m < 1024" for m
        using that by (auto simp: last_page_def present_def)
      with True show ?thesis
        using pte_at_released [OF c2(1) slot2' gfree] that by simp
    qed (simp only: if_False)
    then show ?thesis using c2(3) [OF that(1)] by simp
  qed
  have row3: "d = ?c \<and> k = ?i \<or> pmem ?s3 d k = pmem s d k" if "d \<in> dir_frames s" for d k
    using c2(5) [OF that] by (simp add: pmem_released del: cleared_fields(1))
  have sd3: "same_dirs s ?s3" by (simp add: same_dirs_def)
  obtain s3 where s3: "s3 = ?s3" by blast
  note rel = rel [folded s3] and r3 = r3 [folded s3] and view3 = view3 [folded s3]
    and row3 = row3 [folded s3] and sd3 = sd3 [folded s3]
    and l3 = l3 [folded s3] and k3 = k3 [folded s3]
  have in3: "frame_of pte \<in> data_frames s3" if "owner pte"
    using own [OF that] r3(5) by simp
  obtain t where fr: "(if pte AND PAGE_FLAG_OWNER \<noteq> 0 then pmm_free_pageframe (P_PHYS_ADDR pte) s3 else Inr s3) = Inr t"
    and t: "vm_core t" "pte_at t = pte_at s3" "pmem t = pmem s3" "same_dirs s3 t"
      "used_frames t = used_frames s3 - (if owner pte then {frame_of pte} else {})"
      "data_frames t = data_frames s3 - (if owner pte then {frame_of pte} else {})"
    using free_data_spec [OF r3(1) in3] by auto
  have "pmem s ?c ?i AND PAGE_FLAG_PRESENT \<noteq> 0" "pte AND PAGE_FLAG_PRESENT \<noteq> 0"
    using pde pr by (simp_all add: present_def)
  moreover have cl: "(put_row g ((pmem s g)(?j := 0)) s)\<lparr>mem_num_vpages :=
      mem_num_vpages (put_row g ((pmem s g)(?j := 0)) s) - 1\<rparr> = ?s2"
    by (simp add: cleared_def put_row_def)
  ultimately have "unmap_body va s = and_then (if \<not> last_page s g ?j then Inr ?s2 else release_page_table ?pd ?s2)
      (\<lambda>s3. and_then (if pte AND PAGE_FLAG_OWNER \<noteq> 0 then pmm_free_pageframe (P_PHYS_ADDR pte) s3 else Inr s3)
        (\<lambda>s4. Inr (pte, s4)))"
    using ld st ex vload_dir [OF sm i]
    by (simp add: unmap_body_def Let_def pd del: not_not if_not_P split del: if_split flip: pt_index_def)
      (simp only: cl)
  then have run: "unmap_body va s = Inr (pte, t)"
    unfolding rel and_then_simps fr .
  have "same_dirs s t" using sd3 t(4) by (simp add: same_dirs_def)
  moreover have "used_frames t = used_frames s - (if owner pte then {frame_of pte} else {}) -
      (if ?rel then {g} else {})"
    unfolding t(5) r3(4) by blast
  ultimately show ?thesis
    using run t(1) view3 row3 l3 k3 t(6) unfolding t(2,3) [symmetric] r3(5) by blast
qed

lemma mem_unmap_page_spec:
  assumes ok: "vm_ok s" and off: "\<not> are_interrupts_enabled s" and va: "pd_index va < 1023"
    and slot: "(target_dir va s, pd_index va) \<in> slots s"
    and g: "g = frame_of (pmem s (target_dir va s) (pd_index va))"
    and pte: "pte = pmem s g (pt_index va)" and pr: "present pte"
    and own: "owner pte \<Longrightarrow> frame_of pte \<in> data_frames s"
  shows "\<exists>t. mem_unmap_page va s = Inr (pte, t) \<and> vm_ok t \<and> same_dirs s t \<and>
    (\<forall>d\<in>dir_frames s. \<forall>i<1023. \<forall>j<1024. pte_at t d i j =
      (if (KERNEL_START \<le> va \<or> d = cur_dir s) \<and> i = pd_index va \<and> j = pt_index va
       then 0 else pte_at s d i j)) \<and>
    used_frames t = used_frames s - (if owner pte then {frame_of pte} else {}) -
      (if last_page s g (pt_index va) \<and> owner (pmem s (target_dir va s) (pd_index va)) then {g} else {}) \<and>
    data_frames t = data_frames s - (if owner pte then {frame_of pte} else {}) \<and>
    (\<forall>f\<in>data_frames t. pmem t f = pmem s f) \<and> large_kept s t"
proof -
  note core = vm_okD(1) [OF ok]
  note e = entered_facts [OF core, of va]
  have lp: "last_page (entered va s) = last_page s" by (simp add: last_page_def fun_eq_iff e(3))
  obtain t where t: "unmap_body va (entered va s) = Inr (pte, t)" "vm_core t"
    and view: "\<forall>d k l. own_slot s d k \<longrightarrow> l < 1024 \<longrightarrow> pte_at t d k l =
        (if d = target_dir va s \<and> k = pd_index va \<and> l = pt_index va then 0 else pte_at s d k l)"
    and row: "\<forall>d\<in>dir_frames s. \<forall>k. d = target_dir va s \<and> k = pd_index va \<or> pmem t d k = pmem s d k"
    and sd: "same_dirs (entered va s) t"
    and u: "used_frames t = used_frames s - (if owner pte then {frame_of pte} else {}) -
      (if last_page s g (pt_index va) \<and> owner (pmem s (target_dir va s) (pd_index va)) then {g} else {})"
    and df: "data_frames t = data_frames s - (if owner pte then {frame_of pte} else {})"
      "\<And>f. f \<in> data_frames s \<Longrightarrow> pmem t f = pmem s f"
    and nl: "\<not> large (pmem t (target_dir va s) (pd_index va))"
    using unmap_body_spec [OF e(1), unfolded e lp data_kept_entered, OF slot g pte pr own] by metis
  have lt: "large (pmem t (target_dir va s) (pd_index va)) \<longrightarrow> large (pmem s (target_dir va s) (pd_index va))"
    using nl by simp
  from bracket_spec [OF ok off va t(2) sd view row lt]
  obtain prev u where "enter_kernel_dir va s = Inr (prev, entered va s)" "leave_kernel_dir prev t = Inr u"
    and u': "vm_ok u" "same_dirs s u" "used_frames u = used_frames t" "data_kept t u"
      "data_frames u = data_frames t" "large_kept s u"
      "\<forall>d\<in>dir_frames s. \<forall>i<1023. \<forall>j<1024. pte_at u d i j =
        (if (KERNEL_START \<le> va \<or> d = cur_dir s) \<and> i = pd_index va \<and> j = pt_index va
         then 0 else pte_at s d i j)" by metis
  with t(1) off have "mem_unmap_page va s = Inr (pte, u)"
    by (simp add: mem_unmap_page_def verify_interrupts_disabled_def)
  moreover have "\<forall>f\<in>data_frames u. pmem u f = pmem s f"
    using u'(4,5) df by (auto simp: data_kept_def)
  ultimately show ?thesis using u df(1) u' by (intro exI [of _ u]) simp
qed

end
