(* ===== verification/Kmalloc.thy ===== *)
theory Kmalloc
  imports Paging_Dirs
begin

text \<open>
  The kernel heap of \<open>kernel/kmalloc.c\<close>: a chain of chunks that starts at
  \<open>KERNEL_MALLOC\<close>. The headers are read and written through the MMU; the heap grows by
  frames of the physical allocator that \<open>mem_map_page\<close> enters into the page tables. A
  header is one word: the low 31 bits are the size, header included, the top bit tells
  whether the chunk is in use; the three words of padding are never accessed.
\<close>

section \<open>State\<close>

record kheap_state = vm_state +
  heap_start :: u32
  heap_size :: u32
  threshold :: u32
  kmalloc_initialized :: bool

definition KERNEL_MALLOC :: u32 where "KERNEL_MALLOC = 0xD0000000"

definition ALIGNMENT :: u32 where "ALIGNMENT = 16"

text \<open>\<open>sizeof(ChunkHeader)\<close>.\<close>

definition HEADER :: u32 where "HEADER = 16"

definition mk_hdr :: "u32 \<Rightarrow> bool \<Rightarrow> u32" where
  "mk_hdr n u = take_bit 31 n OR (if u then push_bit 31 1 else 0)"

definition hdr_size :: "u32 \<Rightarrow> u32" where
  "hdr_size w = take_bit 31 w"

definition hdr_used :: "u32 \<Rightarrow> bool" where
  "hdr_used w \<longleftrightarrow> bit w 31"

text \<open>\<open>chunk->size = n\<close> and \<open>chunk->used = u\<close> for the chunk at \<open>pos\<close>.\<close>

definition set_size :: "u32 \<Rightarrow> u32 \<Rightarrow> 'a vm_state_scheme \<Rightarrow> 'a vm_state_scheme res" where
  "set_size pos n s = and_then (vload pos s) (\<lambda>w. vstore pos (mk_hdr n (hdr_used w)) s)"

definition set_used :: "u32 \<Rightarrow> bool \<Rightarrow> 'a vm_state_scheme \<Rightarrow> 'a vm_state_scheme res" where
  "set_used pos u s = and_then (vload pos s) (\<lambda>w. vstore pos (mk_hdr (hdr_size w) u) s)"

section \<open>Operations\<close>

definition heap_page :: "int \<Rightarrow> nat \<Rightarrow> u32" where
  "heap_page old_page_top i = KERNEL_MALLOC + word_of_int (old_page_top * 0x1000) + of_nat i * 0x1000"

definition change_heap_size :: "u32 \<Rightarrow> 'a kheap_state_scheme \<Rightarrow> 'a kheap_state_scheme res" where
  "change_heap_size new_size s =
     (let old_page_top = sint (CEIL_DIV (heap_size s) 0x1000);
          new_page_top = (sint new_size + 0x1000 - 1) sdiv 0x1000
      in
      and_then
        (if new_page_top > old_page_top then
           for_res 0 (nat (new_page_top - old_page_top)) (\<lambda>i t.
             and_then (pmm_alloc_pageframe t) (\<lambda>(phys, t1).
             mem_map_page (heap_page old_page_top i) phys PAGE_FLAG_WRITE t1)) s
         else Inr s)
        (\<lambda>s1. Inr (s1\<lparr>heap_size := new_size\<rparr>)))"

definition kmalloc_init :: "u32 \<Rightarrow> 'a kheap_state_scheme \<Rightarrow> 'a kheap_state_scheme res" where
  "kmalloc_init initial_heap_size s =
     (let s1 = s\<lparr>heap_start := KERNEL_MALLOC, heap_size := 0, threshold := 0, kmalloc_initialized := True\<rparr>
      in and_then (change_heap_size initial_heap_size s1) (\<lambda>s2. vstore (heap_start s2) 0 s2))"

text \<open>The size of the chunk for a request.\<close>

definition real_size :: "u32 \<Rightarrow> u32" where
  "real_size bytes =
     (let n = bytes + HEADER in
      if n AND (ALIGNMENT - 1) \<noteq> 0 then n + (ALIGNMENT - (n AND (ALIGNMENT - 1))) else n)"

text \<open>Lines 61--89: take the chunk at \<open>pos\<close>, at the end of the chain or by splitting.\<close>

definition use_chunk :: "u32 \<Rightarrow> u32 \<Rightarrow> 'a kheap_state_scheme \<Rightarrow> (u32 \<times> 'a kheap_state_scheme) res" where
  "use_chunk pos n s =
     and_then (set_used pos True s) (\<lambda>s1.
     and_then (vload pos s1) (\<lambda>w.
     and_then
       (if hdr_size w = 0 then
          and_then (set_size pos n s1) (\<lambda>s2.
          and_then (set_size (pos + n) 0 s2) (\<lambda>s3.
          set_used (pos + n) False s3))
        else
          (let diff = hdr_size w - n in
           if 8 \<le>s diff then
             and_then (set_size (pos + n) diff s1) (\<lambda>s2.
             and_then (set_used (pos + n) False s2) (\<lambda>s3.
             set_size pos n s3))
           else Inr s1)) (\<lambda>s4.
     let addr = pos + HEADER in
     Inr (addr, if addr > threshold s4 then s4\<lparr>threshold := addr\<rparr> else s4))))"

text \<open>The loop of \<open>kmalloc\<close>.\<close>

partial_function (option) kmalloc_loop ::
    "u32 \<Rightarrow> u32 \<Rightarrow> 'a kheap_state_scheme \<Rightarrow> (u32 \<times> 'a kheap_state_scheme) run" where
  "kmalloc_loop n pos s =
     run_then
       (Some (if pos + n + HEADER > heap_start s + heap_size s
              then change_heap_size (pos + n + HEADER - heap_start s) s else Inr s)) (\<lambda>s1.
     run_then (Some (vload pos s1)) (\<lambda>w.
     if \<not> hdr_used w \<and> (hdr_size w \<ge> n \<or> hdr_size w = 0) then Some (use_chunk pos n s1)
     else kmalloc_loop n (pos + hdr_size w) s1))"

definition kmalloc :: "u32 \<Rightarrow> 'a kheap_state_scheme \<Rightarrow> (u32 \<times> 'a kheap_state_scheme) run" where
  "kmalloc bytes s =
     (if kmalloc_initialized s \<and> bytes \<noteq> 0
      then kmalloc_loop (real_size bytes) (heap_start s) s else Some (Inl Assert_Failed))"

text \<open>The inner loop of \<open>merge_free_chunks\<close>: the free chunk at \<open>pos\<close> swallows its free
  successors. \<open>True\<close> is the early return at the end of the chain.\<close>

partial_function (option) swallow ::
    "u32 \<Rightarrow> u32 \<Rightarrow> 'a kheap_state_scheme \<Rightarrow> (bool \<times> 'a kheap_state_scheme) run" where
  "swallow pos next_pos s =
     run_then (Some (vload next_pos s)) (\<lambda>w.
     if hdr_used w then Some (Inr (False, s))
     else if hdr_size w = 0 then
       run_then (Some (set_size pos 0 s)) (\<lambda>s1. Some (Inr (True, s1\<lparr>threshold := pos\<rparr>)))
     else
       run_then (Some (vload pos s)) (\<lambda>c.
       run_then (Some (set_size pos (hdr_size c + hdr_size w) s)) (\<lambda>s1.
       run_then (Some (vload next_pos s1)) (\<lambda>w1.
       swallow pos (next_pos + hdr_size w1) s1))))"

partial_function (option) merge_loop :: "u32 \<Rightarrow> 'a kheap_state_scheme \<Rightarrow> 'a kheap_state_scheme run" where
  "merge_loop pos s =
     run_then (Some (vload pos s)) (\<lambda>w.
     if hdr_size w = 0 then Some (Inr s)
     else
       run_then (if \<not> hdr_used w then swallow pos (pos + hdr_size w) s else Some (Inr (False, s))) (\<lambda>r.
       if fst r then Some (Inr (snd r))
       else
         run_then (Some (vload pos (snd r))) (\<lambda>w1.
         if pos + hdr_size w1 \<ge> heap_start (snd r) + heap_size (snd r) then Some (Inr (snd r))
         else merge_loop (pos + hdr_size w1) (snd r))))"

definition merge_free_chunks :: "'a kheap_state_scheme \<Rightarrow> 'a kheap_state_scheme run" where
  "merge_free_chunks s = merge_loop (heap_start s) s"

definition kfree :: "u32 \<Rightarrow> 'a kheap_state_scheme \<Rightarrow> 'a kheap_state_scheme run" where
  "kfree addr s =
     (if \<not> kmalloc_initialized s then Some (Inl Assert_Failed)
      else
        (let chunk = addr - HEADER in
         run_then (Some (vload chunk s)) (\<lambda>w.
         if \<not> hdr_used w then Some (Inr s)
         else run_then (Some (set_used chunk False s)) merge_free_chunks)))"

definition kmalloc_get_total_bytes :: "'a kheap_state_scheme \<Rightarrow> u32" where
  "kmalloc_get_total_bytes s = threshold s - heap_start s"

end
