(* ===== verification/Chunks.thy ===== *)
theory Chunks
  imports Kmalloc
begin

text \<open>
  Heaps as lists of chunks: sizes and use bits in the order of the chain. First fit with
  splitting, coalescing, and the blocks in use, as functions on these lists. Both allocators
  of the system, the kernel's and the one of the user library, are refined to them.
\<close>

section \<open>Headers\<close>

lemma hdr_simps [simp]:
  "hdr_size (mk_hdr n u) = take_bit 31 n" "hdr_used (mk_hdr n u) = u" "mk_hdr 0 False = 0"
  "hdr_size 0 = 0" "\<not> hdr_used 0"
proof -
  obtain h where h: "h = (if u then push_bit 31 1 else 0 :: u32)" by blast
  have b: "bit h i \<longleftrightarrow> u \<and> i = 31" for i
    unfolding h using bit_push_bit_iff [of 31 "1 :: u32" i] by (cases u) (simp_all only: if_True if_False bit_1_iff bit_0_eq, auto)
  show "hdr_size (mk_hdr n u) = take_bit 31 n" "hdr_used (mk_hdr n u) = u"
    unfolding mk_hdr_def h [symmetric] hdr_size_def hdr_used_def
    by (rule bit_word_eqI) (auto simp: bit_take_bit_iff bit_or_iff b)
qed (simp_all add: mk_hdr_def hdr_size_def hdr_used_def)

lemma take_bit_31: "unat (w :: u32) < 2147483648 \<Longrightarrow> take_bit 31 w = w"
  unfolding word_unat_eq_iff unat_take_bit_mod by simp

lemma of_nat_31: "n < 2147483648 \<Longrightarrow> unat (of_nat n :: u32) = n" "n < 2147483648 \<Longrightarrow> take_bit 31 (of_nat n :: u32) = of_nat n"
  by (simp_all add: unat_of_nat_small take_bit_31)

lemma of_nat_31_eq_0: "n < 2147483648 \<Longrightarrow> (of_nat n :: u32) = 0 \<longleftrightarrow> n = 0"
  using of_nat_31(1) [of n] by (auto simp: word_unat_eq_iff)

lemma dvd_div4: "16 dvd k \<Longrightarrow> 16 dvd (k' :: nat) \<Longrightarrow> k' div 4 = k div 4 \<longleftrightarrow> k' = k"
  by (auto elim!: dvdE)

lemma sint_small:
  assumes "unat (w :: u32) < 2147483648"
  shows "sint w = int (unat w)"
proof -
  have "signed_take_bit 31 (uint w) = uint w"
    using assms by (intro signed_take_bit_int_eq_self) (simp_all add: uint_nat del: of_nat_unat)
  then show ?thesis by (simp add: sint_uint uint_nat del: of_nat_unat)
qed

section \<open>Chains of chunks\<close>

type_synonym chunks = "(nat \<times> bool) list"

definition total :: "chunks \<Rightarrow> nat" where
  "total cs = sum_list (map fst cs)"

lemma total_simps [simp]:
  "total [] = 0" "total (c # cs) = fst c + total cs" "total (xs @ ys) = total xs + total ys"
  by (simp_all add: total_def)

fun hdrs :: "(nat \<Rightarrow> u32) \<Rightarrow> nat \<Rightarrow> chunks \<Rightarrow> bool" where
  "hdrs rd pos [] \<longleftrightarrow> True"
| "hdrs rd pos ((n, u) # cs) \<longleftrightarrow> rd pos = mk_hdr (of_nat n) u \<and> hdrs rd (pos + n) cs"

definition chunk_ok :: "nat \<times> bool \<Rightarrow> bool" where
  "chunk_ok c \<longleftrightarrow> 16 dvd fst c \<and> 0 < fst c"

lemma hdrs_append: "hdrs rd pos (xs @ ys) \<longleftrightarrow> hdrs rd pos xs \<and> hdrs rd (pos + total xs) ys"
  by (induction rd pos xs rule: hdrs.induct) (auto simp: algebra_simps)

lemma total_dvd: "\<forall>c\<in>set cs. chunk_ok c \<Longrightarrow> 16 dvd total cs"
  by (induction cs) (auto simp: chunk_ok_def)

text \<open>A chain is read at its header words only.\<close>

lemma hdrs_cong:
  assumes "\<And>k. pos \<le> k \<Longrightarrow> k < pos + total cs \<Longrightarrow> 16 dvd k \<Longrightarrow> rd' k = rd k"
    and "16 dvd pos" and "\<forall>c\<in>set cs. chunk_ok c"
  shows "hdrs rd' pos cs = hdrs rd pos cs"
  using assms
proof (induction cs arbitrary: pos)
  case (Cons c cs)
  obtain n u where c: "c = (n, u)" by (cases c)
  have n: "16 dvd n" "0 < n" using Cons.prems(3) c by (simp_all add: chunk_ok_def)
  have "rd' pos = rd pos" using Cons.prems(1) [of pos] Cons.prems(2) n c by simp
  moreover have "hdrs rd' (pos + n) cs = hdrs rd (pos + n) cs"
  proof (rule Cons.IH)
    show "16 dvd pos + n" using n Cons.prems(2) by simp
    show "\<forall>c\<in>set cs. chunk_ok c" using Cons.prems(3) by simp
    show "rd' k = rd k" if "pos + n \<le> k" "k < pos + n + total cs" "16 dvd k" for k
      by (rule Cons.prems(1)) (use that c in auto)
  qed
  ultimately show ?case by (simp add: c)
qed simp

section \<open>First fit\<close>

fun first_fit :: "nat \<Rightarrow> nat \<Rightarrow> chunks \<Rightarrow> nat \<times> chunks" where
  "first_fit n p [] = (p, [(n, True)])"
| "first_fit n p ((m, u) # cs) =
     (if \<not> u \<and> n \<le> m then (p, (n, True) # (if n < m then (m - n, False) # cs else cs))
      else let (q, ds) = first_fit n (p + m) cs in (q, (m, u) # ds))"

lemma first_fit_offset: "p \<le> fst (first_fit n p cs) \<and> fst (first_fit n p cs) \<le> p + total cs"
  by (induction n p cs rule: first_fit.induct) (auto simp: case_prod_unfold Let_def)

section \<open>Coalescing\<close>

fun swallowed :: "nat \<Rightarrow> chunks \<Rightarrow> (nat \<times> chunks) option" where
  "swallowed m [] = None"
| "swallowed m ((k, u) # cs) = (if u then Some (m, (k, u) # cs) else swallowed (m + k) cs)"

lemma swallowed_shorter: "swallowed m cs = Some (m', ds) \<Longrightarrow> length ds \<le> length cs"
  by (induction m cs rule: swallowed.induct) (auto split: if_splits)

lemma swallowed_used:
  "swallowed m cs = Some (m', ds) \<Longrightarrow> \<exists>k es. ds = (k, True) # es \<and> m + total cs = m' + total ds"
  by (induction m cs rule: swallowed.induct) (auto split: if_splits)

function coal :: "chunks \<Rightarrow> chunks" where
  "coal [] = []"
| "coal ((m, u) # cs) =
     (if u then (m, True) # coal cs
      else case swallowed m cs of None \<Rightarrow> [] | Some (m', ds) \<Rightarrow> (m', False) # coal ds)"
  by pat_completeness auto
termination
  by (relation "measure length") (auto dest: swallowed_shorter)

section \<open>Blocks in use\<close>

fun used_blocks :: "nat \<Rightarrow> chunks \<Rightarrow> (nat \<times> nat) set" where
  "used_blocks p [] = {}"
| "used_blocks p ((m, u) # cs) = (if u then insert (p, m) (used_blocks (p + m) cs) else used_blocks (p + m) cs)"

lemma used_blocks_append: "used_blocks p (xs @ ys) = used_blocks p xs \<union> used_blocks (p + total xs) ys"
  by (induction p xs rule: used_blocks.induct) (auto simp: add.assoc)

lemma used_blocks_bounds: "(q, m) \<in> used_blocks p cs \<Longrightarrow> p \<le> q \<and> q + m \<le> p + total cs"
  by (induction p cs rule: used_blocks.induct) (fastforce split: if_splits)+

lemma swallowed_blocks:
  "case swallowed m cs of None \<Rightarrow> used_blocks (p + m) cs = {}
   | Some (m', ds) \<Rightarrow> used_blocks (p + m) cs = used_blocks (p + m') ds"
  by (induction m cs rule: swallowed.induct) (auto split: option.splits simp: add.assoc)

lemma used_blocks_coal: "used_blocks p (coal cs) = used_blocks p cs"
proof (induction cs arbitrary: p rule: coal.induct)
  case (2 m u cs)
  then show ?case using swallowed_blocks [where m = m and cs = cs and p = p] by (auto split: option.splits)
qed simp

lemma first_fit_blocks:
  "first_fit n p cs = (q, ds) \<Longrightarrow>
   used_blocks p ds = insert (q, n) (used_blocks p cs) \<and>
   (\<forall>(o', m)\<in>used_blocks p cs. o' + m \<le> q \<or> q + n \<le> o')"
proof (induction n p cs arbitrary: q ds rule: first_fit.induct)
  case (2 n p m u cs)
  show ?case
  proof (cases "\<not> u \<and> n \<le> m")
    case True
    then show ?thesis using "2.prems" used_blocks_bounds [of _ _ "p + m" cs]
      by (fastforce split: if_splits)
  next
    case False
    obtain ds' where ds: "first_fit n (p + m) cs = (q, ds')" "ds = (m, u) # ds'"
      using "2.prems" False by (auto split: prod.splits)
    have "p + m \<le> q" using first_fit_offset [of "p + m" n cs] ds(1) by simp
    then show ?thesis using "2.IH" [OF False ds(1)] ds(2) by auto
  qed
qed simp

lemma used_block_split:
  "(q, m) \<in> used_blocks p cs \<Longrightarrow> \<exists>pre post. cs = pre @ (m, True) # post \<and> q = p + total pre"
proof (induction p cs rule: used_blocks.induct)
  case (2 p n u cs)
  show ?case
  proof (cases "u \<and> (q, m) = (p, n)")
    case True
    then show ?thesis by (intro exI [of _ "[]"] exI [of _ cs]) auto
  next
    case False
    then have "(q, m) \<in> used_blocks (p + n) cs" using "2.prems" by (auto split: if_splits)
    with "2.IH" False obtain pre post where "cs = pre @ (m, True) # post" "q = p + n + total pre"
      by (cases u) auto
    then have "(n, u) # cs = ((n, u) # pre) @ (m, True) # post \<and> q = p + total ((n, u) # pre)" by simp
    then show ?thesis by blast
  qed
qed simp

text \<open>No free chunk is followed by another one or by the end.\<close>

fun compact :: "chunks \<Rightarrow> bool" where
  "compact [] \<longleftrightarrow> True"
| "compact ((m, u) # cs) \<longleftrightarrow> (u \<or> (\<exists>k ds. cs = (k, True) # ds)) \<and> compact cs"

lemma compact_coal: "compact (coal cs)"
proof (induction cs rule: coal.induct)
  case (2 m u cs)
  then show ?case
    using swallowed_used [of m cs] by (auto split: option.splits)
qed simp

lemma coal_compact: "compact cs \<Longrightarrow> coal cs = cs"
  by (induction cs rule: compact.induct) auto

lemma first_fit_coal:
  "compact cs \<Longrightarrow> first_fit n p cs = (q, ds) \<Longrightarrow>
   \<exists>pre post. ds = pre @ (n, True) # post \<and> q = p + total pre \<and> coal (pre @ (n, False) # post) = cs"
proof (induction n p cs arbitrary: q ds rule: first_fit.induct)
  case (1 n p)
  then show ?case by (intro exI [of _ "[]"]) auto
next
  case (2 n p m u cs)
  show ?case
  proof (cases "\<not> u \<and> n \<le> m")
    case True
    with "2.prems"(1) obtain k es where cs: "cs = (k, True) # es" by auto
    have "coal cs = cs" using "2.prems"(1) by (intro coal_compact) simp
    with True "2.prems"(2) cs show ?thesis
      by (intro exI [of _ "[]"] exI [of _ "if n < m then (m - n, False) # cs else cs"]) (auto split: if_splits)
  next
    case False
    obtain ds' where ds: "first_fit n (p + m) cs = (q, ds')" "ds = (m, u) # ds'"
      using "2.prems"(2) False by (auto split: prod.splits)
    from "2.IH" [OF False _ ds(1)] "2.prems"(1) obtain pre post where
      ih: "ds' = pre @ (n, True) # post" "q = p + m + total pre" "coal (pre @ (n, False) # post) = cs" by auto
    have "coal (((m, u) # pre) @ (n, False) # post) = (m, u) # cs"
    proof (cases u)
      case True
      then show ?thesis using ih(3) by simp
    next
      case False
      with "2.prems"(1) obtain k es where cs: "cs = (k, True) # es" by auto
      obtain a pre' where pre: "pre = (a, True) # pre'"
      proof (cases pre)
        case Nil
        then show thesis using ih(3) cs by (auto split: option.splits)
      next
        case (Cons b pre')
        then show thesis using ih(3) cs that by (cases b) (auto split: option.splits if_splits)
      qed
      then show ?thesis using False ih(3) by simp
    qed
    moreover have "ds = ((m, u) # pre) @ (n, True) # post \<and> q = p + total ((m, u) # pre)"
      using ds(2) ih(1,2) by simp
    ultimately show ?thesis by blast
  qed
qed

section \<open>Sizes\<close>

definition chunk_size :: "nat \<Rightarrow> nat" where
  "chunk_size b = (b + 31) div 16 * 16"

lemma round_up_mod:
  fixes x :: nat
  shows "x mod 16 \<noteq> 0 \<Longrightarrow> x + (16 - x mod 16) = (x + 15) div 16 * 16"
    "x mod 16 = 0 \<Longrightarrow> x = (x + 15) div 16 * 16"
proof -
  obtain q r where x: "x = 16 * q + r" and r: "r < 16"
    using mod_less_divisor [of 16 x] by (metis mult_div_mod_eq zero_less_numeral)
  have m: "x mod 16 = r" using x r by simp
  have d: "(x + 15) div 16 = q + (r + 15) div 16" unfolding x by simp
  show "x + (16 - x mod 16) = (x + 15) div 16 * 16" if "x mod 16 \<noteq> 0"
  proof -
    have "(r + 15) div 16 = 1" using r that m by auto
    then show ?thesis using x m d r by simp
  qed
  show "x = (x + 15) div 16 * 16" if "x mod 16 = 0"
    using that x m d by simp
qed

lemma real_size_eq:
  assumes "unat bytes + 31 < 4294967296"
  shows "real_size bytes = of_nat (chunk_size (unat bytes))"
proof -
  let ?n = "bytes + HEADER"
  have n: "unat ?n = unat bytes + 16" using assms by (simp add: HEADER_def unat_add_small)
  have "?n AND (ALIGNMENT - 1) = ?n AND mask 4" by (simp add: ALIGNMENT_def mask_eq_exp_minus_1)
  then have r: "unat (?n AND (ALIGNMENT - 1)) = (unat bytes + 16) mod 16"
    by (simp only: unat_and_mask_mod n) simp
  let ?r = "?n AND (ALIGNMENT - 1)"
  have lt: "unat ?r < 16" using r by simp
  have a: "unat (ALIGNMENT - ?r) = 16 - unat ?r"
    using lt by (subst unat_sub) (simp_all add: ALIGNMENT_def word_le_nat_alt)
  have "unat (real_size bytes) = chunk_size (unat bytes)"
  proof (cases "?r = 0")
    case True
    then have z: "(unat bytes + 16) mod 16 = 0" using r by simp
    have "unat (real_size bytes) = unat bytes + 16" using True n by (simp add: real_size_def Let_def)
    also have "\<dots> = chunk_size (unat bytes)" using round_up_mod(2) [OF z] by (simp add: chunk_size_def)
    finally show ?thesis .
  next
    case False
    then have nz: "(unat bytes + 16) mod 16 \<noteq> 0" using r unat_eq_0 by metis
    have le15: "16 - (unat bytes + 16) mod 16 \<le> 15" using nz by simp
    have a': "unat (ALIGNMENT - ?r) = 16 - (unat bytes + 16) mod 16" unfolding a r ..
    have "unat ?n + unat (ALIGNMENT - ?r) < 2 ^ LENGTH(32)"
      using assms le15 unfolding n a' by simp
    then have "unat (?n + (ALIGNMENT - ?r)) = unat ?n + unat (ALIGNMENT - ?r)" by (rule unat_add_small)
    then have "unat (?n + (ALIGNMENT - ?r)) = unat bytes + 16 + (16 - (unat bytes + 16) mod 16)"
      unfolding n a' .
    moreover have "\<dots> = chunk_size (unat bytes)" using round_up_mod(1) [OF nz] by (simp add: chunk_size_def)
    ultimately show ?thesis using False by (simp add: real_size_def Let_def)
  qed
  moreover have "real_size bytes = of_nat (unat (real_size bytes))" by simp
  ultimately show ?thesis by metis
qed

lemma chunk_size_facts: "16 dvd chunk_size b" "b + 16 \<le> chunk_size b" "chunk_size b < b + 32" "0 < chunk_size b"
  unfolding chunk_size_def by (simp, presburger+)

end
