(* ===== verification/Heap_Memory.thy ===== *)
theory Heap_Memory
  imports Chunks
begin

text \<open>
  The memory behind the kernel heap. \<open>heap_mapped s n\<close>: the first \<open>n\<close> pages from
  \<open>KERNEL_MALLOC\<close> on are mapped to different data frames. Loads and stores through the MMU
  then read and write the word array \<open>hrd\<close>; \<open>change_heap_size\<close> extends it.
\<close>

section \<open>Writing data frames\<close>

lemma data_write:
  assumes ok: "vm_ok s" and f: "f \<in> data_frames s"
  shows "vm_ok (put_row f r s)" and "data_frames (put_row f r s) = data_frames s"
    and "d \<in> dir_frames s \<Longrightarrow> i < 1023 \<Longrightarrow> pte_at (put_row f r s) d i j = pte_at s d i j"
proof -
  note core = vm_okD(1) [OF ok]
  have nd: "f \<notin> dir_frames s" by (rule data_not_dir [OF core f])
  note p = core_put_table [OF core nd, of r]
  have row: "pmem (put_row f r s) d = pmem s d" if "d \<in> dir_frames s" for d
    using nd that by auto
  have sync: "kernel_synced (put_row f r s)"
    using vm_okD(2) [OF ok] row unfolding kernel_synced_def by (simp del: put_row_simps(1))
  with p(1) show "vm_ok (put_row f r s)" by (simp add: vm_ok_def)
  show "data_frames (put_row f r s) = data_frames s" by (rule p(3))
  have own: "pte_at (put_row f r s) d i j = pte_at s d i j" if o: "own_slot s d i" for d i
  proof -
    have d: "d \<in> dir_frames s" using o by (simp add: own_slot_def)
    have "frame_of (pmem s d i) \<noteq> f" if "present (pmem s d i)" "\<not> large (pmem s d i)"
      using f own_slotsI [OF o that] by (force simp: data_frames_def table_frame_def)
    then show ?thesis
      unfolding pte_at_def row [OF d] by auto
  qed
  show "pte_at (put_row f r s) d i j = pte_at s d i j" if d: "d \<in> dir_frames s" and i: "i < 1023"
  proof (cases "own_slot s d i")
    case False
    with d i have k: "768 \<le> i" by (auto simp: own_slot_def)
    have "pte_at (put_row f r s) d i j = pte_at (put_row f r s) (ipd_frame s) i j"
      using synced_view [OF sync, of d i j] d k i by simp
    also have "\<dots> = pte_at s (ipd_frame s) i j" using i by (intro own) (simp add: own_slot_def)
    also have "\<dots> = pte_at s d i j" using synced_view [OF vm_okD(2) [OF ok] d k i] by simp
    finally show ?thesis .
  qed (rule own)
qed

lemma core_take_data:
  assumes ok: "vm_ok s" and f: "f \<in> managed_frames s" "f \<notin> used_frames s"
  shows "vm_ok (take_frame f s)" and "data_frames (take_frame f s) = insert f (data_frames s)"
    and "pte_at (take_frame f s) = pte_at s"
proof -
  note core = vm_okD(1) [OF ok]
  have sl: "slots (take_frame f s) = slots s" by (simp add: slots_def)
  have tf: "table_frame (take_frame f s) = table_frame s" by (simp add: table_frame_def fun_eq_iff)
  note p = pmm_ok_take_frame [OF vm_coreD(1) [OF core] f]
  have "f \<notin> table_frame s ` slots s" using vm_coreD(9) [OF core] f(2) by blast
  then show "data_frames (take_frame f s) = insert f (data_frames s)"
    unfolding data_frames_def sl tf p(2) by blast
  have "vm_core (take_frame f s)"
    using core p by (auto simp: vm_core_def sl tf user_part_ok_def)
  then show "vm_ok (take_frame f s)"
    using vm_okD(2) [OF ok] by (simp add: vm_ok_def kernel_synced_def)
  show "pte_at (take_frame f s) = pte_at s" unfolding pte_at_def pmm_vm_frames ..
qed

section \<open>The words of the heap\<close>

definition heap_pte :: "'a vm_state_scheme \<Rightarrow> nat \<Rightarrow> u32" where
  "heap_pte s p = pte_at s (ipd_frame s) (832 + p div 1024) (p mod 1024)"

definition heap_frame :: "'a vm_state_scheme \<Rightarrow> nat \<Rightarrow> nat" where
  "heap_frame s p = frame_of (heap_pte s p)"

definition heap_mapped :: "'a vm_state_scheme \<Rightarrow> nat \<Rightarrow> bool" where
  "heap_mapped s n \<longleftrightarrow> n \<le> 131072 \<and> inj_on (heap_frame s) {..<n} \<and>
     (\<forall>p<n. present (heap_pte s p) \<and> heap_frame s p \<in> data_frames s)"

definition hrd :: "'a vm_state_scheme \<Rightarrow> nat \<Rightarrow> u32" where
  "hrd s k = pmem s (heap_frame s (k div 4096)) (k mod 4096 div 4)"

text \<open>The address of offset \<open>k\<close>.\<close>

definition haddr :: "nat \<Rightarrow> u32" where
  "haddr k = KERNEL_MALLOC + of_nat k"

lemma unat_haddr: "k < 536870912 \<Longrightarrow> unat (haddr k) = 3489660928 + k"
  by (simp add: haddr_def KERNEL_MALLOC_def unat_add_small unat_of_nat_small)

lemma haddr_index:
  assumes "k < 536870912"
  shows "pd_index (haddr k) = 832 + k div 4096 div 1024" "pt_index (haddr k) = k div 4096 mod 1024"
    "word_index (haddr k) = k mod 4096 div 4" "KERNEL_START \<le> haddr k"
proof -
  have u: "unat (haddr k) = k + 832 * 4194304" using unat_haddr [OF assms] by simp
  have "(k + 832 * 4194304) div 4194304 = 832 + k div 4194304" by (rule div_mult_self1) simp
  also have "k div 4194304 = k div 4096 div 1024" by (simp add: div_mult2_eq [symmetric])
  finally show "pd_index (haddr k) = 832 + k div 4096 div 1024" by (simp only: pd_index_div u)
  have u': "unat (haddr k) = k + 851968 * 4096" using unat_haddr [OF assms] by simp
  have d: "(k + 851968 * 4096) div 4096 = k div 4096 + 832 * 1024"
    using div_mult_self1 [of 4096 k 851968] by simp
  show "pt_index (haddr k) = k div 4096 mod 1024"
    unfolding pt_index_div u' d by (rule mod_mult_self1)
  show "word_index (haddr k) = k mod 4096 div 4"
    unfolding word_index_div u' mod_mult_self1 ..
  show "KERNEL_START \<le> haddr k"
    using unat_haddr [OF assms] by (simp add: KERNEL_START_def word_le_nat_alt)
qed

lemma haddr_add: "haddr k + of_nat n = haddr (k + n)"
  by (simp add: haddr_def)

lemma translate_pte:
  assumes "present (pte_at s (cur_dir s) (pd_index va) (pt_index va))"
  shows "translate s va = Some (frame_of (pte_at s (cur_dir s) (pd_index va) (pt_index va)))"
  using assms by (auto simp: pte_at_def translate_def mmu_walk_def Let_def present_part_def
      split: if_splits) (auto simp: present_def)

lemma translate_haddr:
  assumes ok: "vm_ok s" and map: "heap_mapped s n" and k: "k < 4096 * n"
  shows "translate s (haddr k) = Some (heap_frame s (k div 4096))"
proof -
  have k': "k < 536870912" and p: "k div 4096 < n" using map k by (auto simp: heap_mapped_def)
  note ix = haddr_index [OF k']
  have "832 + k div 4096 div 1024 < 1023" using k' by linarith
  then have "pte_at s (cur_dir s) (pd_index (haddr k)) (pt_index (haddr k)) = heap_pte s (k div 4096)"
    using synced_view [OF vm_okD(2) [OF ok] cur_dir_in [OF vm_okD(1) [OF ok]]]
    by (simp add: ix heap_pte_def)
  with translate_pte [of s "haddr k"] map p show ?thesis
    by (simp add: heap_mapped_def heap_frame_def)
qed

lemma vload_heap:
  "vm_ok s \<Longrightarrow> heap_mapped s n \<Longrightarrow> k < 4096 * n \<Longrightarrow> vload (haddr k) s = Inr (hrd s k)"
  using haddr_index(3) [of k] by (simp add: vload_def translate_haddr hrd_def heap_mapped_def)

text \<open>The state after a store to the word at offset \<open>k\<close>.\<close>

definition hput :: "nat \<Rightarrow> u32 \<Rightarrow> 'a vm_state_scheme \<Rightarrow> 'a vm_state_scheme" where
  "hput k v s = put_word (heap_frame s (k div 4096)) (k mod 4096 div 4) v s"

lemma vstore_heap:
  "vm_ok s \<Longrightarrow> heap_mapped s n \<Longrightarrow> k < 4096 * n \<Longrightarrow> vstore (haddr k) v s = Inr (hput k v s)"
  using haddr_index(3) [of k] by (simp add: vstore_def translate_haddr hput_def heap_mapped_def)

lemma word_offset_eq: "k' div 4 = k div 4 \<longleftrightarrow> k' div 4096 = k div 4096 \<and> k' mod 4096 div 4 = k mod 4096 div (4::nat)"
proof
  assume e: "k' div 4 = k div 4"
  have "k' div 4096 = k' div 4 div 1024" "k div 4096 = k div 4 div 1024" by (simp_all add: div_mult2_eq [symmetric])
  moreover have "x mod 4096 div 4 = x div 4 mod 1024" for x :: nat
    using mod_mult2_eq [of x 4 1024] by simp
  ultimately show "k' div 4096 = k div 4096 \<and> k' mod 4096 div 4 = k mod 4096 div 4" using e by simp
next
  assume e: "k' div 4096 = k div 4096 \<and> k' mod 4096 div 4 = k mod 4096 div 4"
  have "x div 4 = x div 4096 * 1024 + x mod 4096 div 4" for x :: nat
  proof -
    have "x = x div 4096 * 4096 + x mod 4096" by simp
    then have "x div 4 = (x mod 4096 + x div 4096 * 1024 * 4) div 4" by simp
    also have "\<dots> = x div 4096 * 1024 + x mod 4096 div 4" by (rule div_mult_self1) simp
    finally show ?thesis .
  qed
  with e show "k' div 4 = k div 4" by metis
qed

lemma heap_pte_index: "p < 131072 \<Longrightarrow> 832 + p div 1024 < (1023 :: nat)"
  by simp

lemma hput_row: "hput k v s = put_row (heap_frame s (k div 4096))
    ((pmem s (heap_frame s (k div 4096)))(k mod 4096 div 4 := v)) s"
  by (simp add: hput_def put_word_row)

lemma hput_facts:
  assumes ok: "vm_ok s" and map: "heap_mapped s n" and k: "k < 4096 * n"
  shows "vm_ok (hput k v s)" and "heap_mapped (hput k v s) n"
    and "same_dirs s (hput k v s)" and "used_frames (hput k v s) = used_frames s"
    and "data_frames (hput k v s) = data_frames s"
    and "k' < 4096 * n \<Longrightarrow> hrd (hput k v s) k' = (if k' div 4 = k div 4 then v else hrd s k')"
    and "d \<in> dir_frames s \<Longrightarrow> i < 1023 \<Longrightarrow> pte_at (hput k v s) d i j = pte_at s d i j"
    and "f \<notin> heap_frame s ` {..<n} \<Longrightarrow> pmem (hput k v s) f = pmem s f"
    and "f \<in> dir_frames s \<Longrightarrow> pmem (hput k v s) f = pmem s f"
proof -
  let ?f = "heap_frame s (k div 4096)" and ?t = "hput k v s"
  have p: "k div 4096 < n" using k by auto
  then have f: "?f \<in> data_frames s" using map by (simp add: heap_mapped_def)
  note w = data_write [OF ok f, folded hput_row]
  show "vm_ok ?t" and df: "data_frames ?t = data_frames s"
    and pt: "\<And>d i j. d \<in> dir_frames s \<Longrightarrow> i < 1023 \<Longrightarrow> pte_at ?t d i j = pte_at s d i j"
    using w by (simp_all add: hput_row)
  show "same_dirs s ?t" "used_frames ?t = used_frames s" by (simp_all add: hput_row same_dirs_def)
  show "f \<notin> heap_frame s ` {..<n} \<Longrightarrow> pmem ?t f = pmem s f" using p by (auto simp: hput_row)
  show "f \<in> dir_frames s \<Longrightarrow> pmem ?t f = pmem s f"
    using data_not_dir [OF vm_okD(1) [OF ok] f] by (auto simp: hput_row)
  have ipd: "ipd_frame ?t = ipd_frame s" by (simp add: hput_row)
  have hp: "heap_pte ?t q = heap_pte s q" if "q < n" for q
    unfolding heap_pte_def ipd using map that heap_pte_index [of q] by (simp add: heap_mapped_def pt)
  then have hf: "heap_frame ?t q = heap_frame s q" if "q < n" for q
    using that by (simp add: heap_frame_def)
  have "inj_on (heap_frame ?t) {..<n}" using map hf by (simp add: heap_mapped_def inj_on_def)
  then show "heap_mapped ?t n" using map hp hf df by (simp add: heap_mapped_def)
  show "hrd ?t k' = (if k' div 4 = k div 4 then v else hrd s k')" if k': "k' < 4096 * n"
  proof -
    have q: "k' div 4096 < n" using k' by auto
    then have "heap_frame s (k' div 4096) = ?f \<longleftrightarrow> k' div 4096 = k div 4096"
      using map p by (auto simp: heap_mapped_def inj_on_def)
    then show ?thesis unfolding hrd_def hf [OF q] using word_offset_eq [of k' k] by (auto simp: hput_row)
  qed
qed

lemma kheap_more:
  fixes s t :: "'a kheap_state_scheme"
  assumes "vm_state.more s = vm_state.more t"
  shows "heap_start s = heap_start t" "heap_size s = heap_size t" "threshold s = threshold t"
    "kmalloc_initialized s = kmalloc_initialized t" "kheap_state.more s = kheap_state.more t"
  using assms by (cases s; cases t; simp)+

section \<open>Growing the heap\<close>

definition free_count :: "'a pmm_state_scheme \<Rightarrow> nat" where
  "free_count s = card (managed_frames s - used_frames s)"

definition heap_small :: "'a vm_state_scheme \<Rightarrow> bool" where
  "heap_small s \<longleftrightarrow> (\<forall>i. 832 \<le> i \<longrightarrow> i < 1023 \<longrightarrow> \<not> large (pmem s (ipd_frame s) i))"

definition heap_pages :: "nat \<Rightarrow> nat" where
  "heap_pages x = (x + 4095) div 4096"

lemma free_count_eq: "pmm_ok s \<Longrightarrow> free_count s = card (managed_frames s) - card (used_frames s)"
  by (simp add: free_count_def card_Diff_subset pmm_ok_def)

lemma free_count_pos: "0 < free_count s \<Longrightarrow> \<not> managed_frames s \<subseteq> used_frames s"
proof
  assume "0 < free_count s" "managed_frames s \<subseteq> used_frames s"
  moreover from this have "managed_frames s - used_frames s = {}" by blast
  ultimately show False by (simp add: free_count_def)
qed

lemma hrd_kept:
  assumes "heap_mapped s n" and "data_kept s t" and "\<And>p. p < n \<Longrightarrow> heap_frame t p = heap_frame s p" and "k < 4096 * n"
  shows "hrd t k = hrd s k"
proof -
  have p: "k div 4096 < n" using assms(4) by auto
  then have "heap_frame s (k div 4096) \<in> data_frames s" using assms(1) by (simp add: heap_mapped_def)
  then show ?thesis using assms(2,3) p by (simp add: hrd_def data_kept_def)
qed

lemma heap_flags: "flags_ok PAGE_FLAG_WRITE" "unat PAGE_FLAG_WRITE < 4096"
  by (simp_all add: flags_ok_def large_def PAGE_FLAG_WRITE_def PAGE_FLAG_4MB_def)

lemma large_kept_small: "large_kept s t \<Longrightarrow> ipd_frame t = ipd_frame s \<Longrightarrow> heap_small s \<Longrightarrow> heap_small t"
  by (auto simp: large_kept_def heap_small_def)

lemma grow_page:
  assumes ok: "vm_ok s" and off: "\<not> are_interrupts_enabled s" and small: "heap_small s"
    and map: "heap_mapped s n" and n: "n < 131072" and room: "2 \<le> free_count s"
  shows "\<exists>u. and_then (pmm_alloc_pageframe s) (\<lambda>(phys, s1). mem_map_page (haddr (4096 * n)) phys PAGE_FLAG_WRITE s1) = Inr u \<and>
    vm_ok u \<and> same_dirs s u \<and> heap_small u \<and> heap_mapped u (Suc n) \<and> free_count s \<le> free_count u + 2 \<and>
    data_kept s u \<and> (\<forall>p<n. heap_frame u p = heap_frame s p)"
proof -
  note core = vm_okD(1) [OF ok]
  note pok = vm_coreD(1) [OF core]
  have "\<not> managed_frames s \<subseteq> used_frames s" using room by (intro free_count_pos) simp
  with pmm_alloc_cases [OF pok] obtain f where f: "f \<in> managed_frames s" "f \<notin> used_frames s"
    and al: "pmm_alloc_pageframe s = Inr (of_nat f * 4096, take_frame f s)"
    by (auto simp: PAGE_FRAME_SIZE_def)
  let ?s1 = "take_frame f s" and ?va = "haddr (4096 * n)" and ?pa = "of_nat f * 4096 :: u32"
  note t1 = core_take_data [OF ok f]
  note u1 = pmm_ok_take_frame [OF pok f]
  have f20: "f < 1048576" using managed_small [OF pok f(1)] by simp
  have k: "4096 * n < 536870912" using n by simp
  note ix = haddr_index [OF k]
  have pd: "pd_index ?va = 832 + n div 1024" "pt_index ?va = n mod 1024" using ix(1,2) by simp_all
  have i: "832 + n div 1024 < 960" using n by linarith
  have tgt: "target_dir ?va ?s1 = ipd_frame s" using ix(4) by (simp add: target_dir_def)
  have ipd: "ipd_frame s \<in> dir_frames s" by simp
  have free1: "free_count s = free_count ?s1 + 1" "free_count ?s1 \<ge> 1"
  proof -
    have eq: "managed_frames s - used_frames s = insert f (managed_frames s - used_frames ?s1)"
      using f u1(2) by auto
    have "card (insert f (managed_frames s - used_frames ?s1)) = Suc (card (managed_frames s - used_frames ?s1))"
      by (rule card_insert_disjoint) (simp_all add: managed_frames_def u1(2))
    then show "free_count s = free_count ?s1 + 1" unfolding free_count_def eq by simp
    with room show "free_count ?s1 \<ge> 1" by simp
  qed
  have hyps: "\<not> are_interrupts_enabled ?s1" "pd_index ?va < 1023"
    "\<not> large (pmem ?s1 (target_dir ?va ?s1) (pd_index ?va))"
    "present (pmem ?s1 (target_dir ?va ?s1) (pd_index ?va)) \<or> \<not> managed_frames ?s1 \<subseteq> used_frames ?s1"
    using off i small free_count_pos [of ?s1] free1(2) unfolding tgt pd
    by (simp_all add: are_interrupts_enabled_iff heap_small_def)
  obtain u where u: "mem_map_page ?va ?pa PAGE_FLAG_WRITE ?s1 = Inr u" "vm_ok u" "same_dirs ?s1 u"
    "\<forall>d\<in>dir_frames ?s1. \<forall>i<1023. \<forall>j<1024. pte_at u d i j =
      (if (KERNEL_START \<le> ?va \<or> d = cur_dir ?s1) \<and> i = pd_index ?va \<and> j = pt_index ?va
       then pte_of ?pa PAGE_FLAG_WRITE else pte_at ?s1 d i j)"
    "card (used_frames u) \<le> card (used_frames ?s1) + 1" "data_kept ?s1 u" "large_kept ?s1 u"
    using mem_map_page_spec [OF t1(1) hyps(1,2,3) heap_flags(1) hyps(4), of ?pa] by metis
  have sd: "same_dirs s u" using u(3) by (simp add: same_dirs_def)
  note d = same_dirs_dirs [OF sd]
  have pte: "heap_pte u p = (if p = n then pte_of ?pa PAGE_FLAG_WRITE else heap_pte s p)" if "p < 131072" for p
  proof -
    have "pte_at u (ipd_frame s) (832 + p div 1024) (p mod 1024) =
      (if 832 + p div 1024 = 832 + n div 1024 \<and> p mod 1024 = n mod 1024
       then pte_of ?pa PAGE_FLAG_WRITE else pte_at s (ipd_frame s) (832 + p div 1024) (p mod 1024))"
      using u(4) ix(4) that by (simp add: pd t1(3))
    moreover have "832 + p div 1024 = 832 + n div 1024 \<and> p mod 1024 = n mod 1024 \<longleftrightarrow> p = n"
      by (metis add_left_cancel div_mult_mod_eq)
    ultimately show ?thesis by (simp add: heap_pte_def d)
  qed
  have fn: "heap_frame u n = f"
    using n pte_of_facts(2) [OF heap_flags(2)] frame_address(1) [OF f20] by (simp add: heap_frame_def pte)
  have fo: "heap_frame u p = heap_frame s p" if "p < n" for p
    using that n by (simp add: heap_frame_def pte)
  have kept: "data_kept s u" "f \<in> data_frames u"
    using u(6) t1(2) by (auto simp: data_kept_def)
  have nf: "heap_frame s p \<noteq> f" if "p < n" for p
    using map that f(2) by (auto simp: heap_mapped_def data_frames_def)
  have "inj_on (heap_frame u) {..<n}" using map fo by (simp add: heap_mapped_def inj_on_def)
  moreover have "heap_frame u n \<notin> heap_frame u ` {..<n}"
  proof
    assume "heap_frame u n \<in> heap_frame u ` {..<n}"
    then obtain p where "p < n" "heap_frame u p = f" using fn by auto
    with fo nf show False by simp
  qed
  ultimately have "inj_on (heap_frame u) {..<Suc n}" by (simp add: lessThan_Suc inj_on_insert)
  moreover have "present (heap_pte u p) \<and> heap_frame u p \<in> data_frames u" if "p < Suc n" for p
  proof (cases "p = n")
    case True
    then show ?thesis using kept(2) fn n pte_of_facts(1) by (simp add: pte)
  next
    case False
    then have "p < n" using that by simp
    then show ?thesis using map kept(1) fo n by (auto simp: heap_mapped_def pte data_kept_def)
  qed
  ultimately have "heap_mapped u (Suc n)" using n by (simp add: heap_mapped_def)
  moreover have "free_count s \<le> free_count u + 2"
    using free1 u(5) free_count_eq [OF u1(1)] free_count_eq [OF vm_coreD(1) [OF vm_okD(1) [OF u(2)]]] sd
    by (simp add: same_dirs_def)
  moreover have "heap_small ?s1" using small by (simp add: heap_small_def)
  then have "heap_small u" using large_kept_small [OF u(7)] d by simp
  ultimately show ?thesis using al u(1,2) sd kept(1) fo by auto
qed

lemma heap_tops:
  assumes "unat (w :: u32) \<le> 536870912"
  shows "sint (CEIL_DIV w 0x1000) = int (heap_pages (unat w))"
    and "(sint w + 0x1000 - 1) sdiv 0x1000 = int (heap_pages (unat w))"
proof -
  have a: "unat (w + 0x1000) = unat w + 4096" using assms by (subst unat_add_small) simp_all
  have "w + 0x1000 - 1 = w + 4095" by simp
  moreover have "unat (w + 4095) = unat w + 4095" using assms by (subst unat_add_small) simp_all
  moreover have "unat (0x1000 :: u32) = 4096" by simp
  ultimately have c: "unat (CEIL_DIV w 0x1000) = heap_pages (unat w)"
    by (simp only: CEIL_DIV_def unat_div heap_pages_def)
  moreover have "heap_pages (unat w) < 2147483648" using assms by (simp add: heap_pages_def)
  ultimately show "sint (CEIL_DIV w 0x1000) = int (heap_pages (unat w))" by (simp add: sint_small)
  have "sint w = int (unat w)" using assms by (intro sint_small) simp
  moreover have "0 < int (unat w) + 4095" by linarith
  then have "(int (unat w) + 4095) sdiv 4096 = (int (unat w) + 4095) div 4096"
    by (simp only: signed_divide_int_def sgn_pos abs_of_pos)
  ultimately have "(sint w + 0x1000 - 1) sdiv 0x1000 = (int (unat w) + 4095) div 4096"
    by (simp add: algebra_simps)
  then show "(sint w + 0x1000 - 1) sdiv 0x1000 = int (heap_pages (unat w))"
    by (simp add: heap_pages_def zdiv_int)
qed

lemma heap_page_addr: "heap_page (int n) i = haddr (4096 * (n + i))"
  by (simp add: heap_page_def haddr_def algebra_simps)

lemma heap_mapped_mono: "heap_mapped s n \<Longrightarrow> m \<le> n \<Longrightarrow> heap_mapped s m"
  by (auto simp: heap_mapped_def intro: inj_on_subset)

text \<open>The part of the state that a kernel with a heap keeps.\<close>

definition heap_space :: "'a kheap_state_scheme \<Rightarrow> bool" where
  "heap_space s \<longleftrightarrow> vm_ok s \<and> \<not> are_interrupts_enabled s \<and> heap_small s \<and> heap_start s = KERNEL_MALLOC \<and>
     heap_mapped s (heap_pages (unat (heap_size s))) \<and> unat (heap_size s) \<le> 536870912"

text \<open>The paging layer depends on its own part of the state only.\<close>

definition same_vm :: "'a vm_state_scheme \<Rightarrow> 'b vm_state_scheme \<Rightarrow> bool" where
  "same_vm s t \<longleftrightarrow> vm_state.truncate s = vm_state.truncate t"

lemma same_vm_eqs:
  assumes "same_vm s t"
  shows "eflags s = eflags t" "physical_memory_bitmap s = physical_memory_bitmap t"
    "page_frame_min s = page_frame_min t" "page_frame_max s = page_frame_max t"
    "total_allocated s = total_allocated t" "pmem s = pmem t" "cr3 s = cr3 t"
    "initial_page_dir s = initial_page_dir t" "page_dirs s = page_dirs t"
    "page_dir_used s = page_dir_used t" "cli_level s = cli_level t" "cli_init_state s = cli_init_state t"
    "outb_log s = outb_log t" "mem_num_vpages s = mem_num_vpages t"
  using assms by (simp_all add: same_vm_def vm_state.truncate_def)

lemma same_vm_facts:
  assumes "same_vm s t"
  shows "vm_ok s = vm_ok t" "heap_small s = heap_small t" "heap_mapped s k = heap_mapped t k"
    "are_interrupts_enabled s = are_interrupts_enabled t" "free_count s = free_count t"
    "hrd s j = hrd t j" "data_kept u s = data_kept u t" "data_kept s u = data_kept t u"
    "data_frames s = data_frames t" "used_frames s = used_frames t" "managed_frames s = managed_frames t"
    "dir_frames s = dir_frames t" "pte_at s = pte_at t" "ipd_frame s = ipd_frame t"
    "heap_frame s p = heap_frame t p" "vload a s = vload a t"
proof -
  note e = same_vm_eqs [OF assms]
  show p: "used_frames s = used_frames t" "managed_frames s = managed_frames t"
    by (simp_all add: used_frames_def pf_used_def managed_frames_def alloc_start_def alloc_end_def e)
  have pok: "pmm_ok s = pmm_ok t" by (simp add: pmm_ok_def p e alloc_end_def)
  have dp: "dir_ptrs s = dir_ptrs t" by (simp add: dir_ptrs_def page_dir_ptr_def e)
  show d: "dir_frames s = dir_frames t" by (simp add: dir_frames_def dp)
  show i: "ipd_frame s = ipd_frame t" by (simp add: ipd_frame_def e)
  have l: "layout_ok s = layout_ok t" by (simp add: layout_ok_def e)
  have o: "own_slot s = own_slot t" by (simp add: own_slot_def d i fun_eq_iff)
  have sl: "slots s = slots t" by (simp add: slots_def o e)
  have tf: "table_frame s = table_frame t" by (simp add: table_frame_def fun_eq_iff e)
  show pt: "pte_at s = pte_at t" by (intro ext) (simp only: pte_at_def e)
  have c: "mem_get_current_page_directory s = mem_get_current_page_directory t"
    by (simp add: mem_get_current_page_directory_def e)
  have "vm_core s = vm_core t"
    by (simp add: vm_core_def pok l e c dp d p sl tf user_part_ok_def)
  moreover have "kernel_synced s = kernel_synced t" by (simp add: kernel_synced_def d i e)
  ultimately show "vm_ok s = vm_ok t" by (simp add: vm_ok_def)
  show "heap_small s = heap_small t" by (simp add: heap_small_def i e)
  show df: "data_frames s = data_frames t" by (simp add: data_frames_def p sl tf)
  show hf: "heap_frame s p = heap_frame t p" for p by (simp add: heap_frame_def heap_pte_def pt i)
  have "heap_frame s = heap_frame t" by (simp add: fun_eq_iff hf)
  then show "heap_mapped s k = heap_mapped t k"
    by (simp add: heap_mapped_def df heap_pte_def pt i)
  show "are_interrupts_enabled s = are_interrupts_enabled t" by (simp add: are_interrupts_enabled_iff e)
  show "free_count s = free_count t" by (simp add: free_count_def p)
  show "hrd s j = hrd t j" by (simp add: hrd_def hf e)
  show "data_kept u s = data_kept u t" "data_kept s u = data_kept t u"
    by (simp_all add: data_kept_def df e)
  show "vload a s = vload a t" by (simp only: vload_def translate_def cur_dir_def e)
qed

lemma same_vm_updates [simp]:
  "same_vm (s\<lparr>heap_size := n\<rparr>) s" "same_vm (s\<lparr>threshold := m\<rparr>) s"
  by (simp_all add: same_vm_def vm_state.truncate_def)

lemma change_heap_size_spec:
  assumes sp: "heap_space s" and new: "unat new \<le> 536870912"
    and room: "2 * (heap_pages (unat new) - heap_pages (unat (heap_size s))) \<le> free_count s"
  shows "\<exists>t. change_heap_size new s = Inr t \<and> heap_size t = new \<and> heap_space t \<and>
    threshold t = threshold s \<and> kmalloc_initialized t = kmalloc_initialized s \<and>
    kheap_state.more t = kheap_state.more s \<and> same_dirs s (t\<lparr>heap_size := heap_size s\<rparr>) \<and> data_kept s t \<and>
    free_count s \<le> free_count t + 2 * (heap_pages (unat new) - heap_pages (unat (heap_size s))) \<and>
    (\<forall>k<4096 * heap_pages (unat (heap_size s)). hrd t k = hrd s k)"
proof -
  let ?n = "heap_pages (unat (heap_size s))" and ?m = "heap_pages (unat new)"
  note sp' = sp [unfolded heap_space_def]
  let ?body = "\<lambda>i t. and_then (pmm_alloc_pageframe t) (\<lambda>(phys, t1). mem_map_page (heap_page (int ?n) i) phys PAGE_FLAG_WRITE t1)"
  let ?I = "\<lambda>i t. vm_ok t \<and> same_dirs s t \<and> heap_small t \<and> heap_mapped t (?n + i) \<and> free_count s \<le> free_count t + 2 * i \<and>
    data_kept s t \<and> (\<forall>p<?n. heap_frame t p = heap_frame s p)"
  have sz: "unat (heap_size s) \<le> 536870912" using sp' by simp
  have m: "?m \<le> 131072" using new by (simp add: heap_pages_def)
  have loop: "\<exists>t. for_res 0 (?m - ?n) ?body s = Inr t \<and> ?I (?m - ?n) t"
  proof (rule for_res_rule)
    show "?I 0 s" using sp' by (simp add: same_dirs_def)
    fix i t assume i: "i < ?m - ?n" and I: "?I i t"
    have "\<not> are_interrupts_enabled t" using same_dirs_dirs(6) I sp' by metis
    moreover have "?n + i < 131072" "2 \<le> free_count t" using i m I room by linarith+
    ultimately obtain u where
      u: "?body i t = Inr u" "vm_ok u" "same_dirs t u" "heap_small u" "heap_mapped u (Suc (?n + i))"
        "free_count t \<le> free_count u + 2" "data_kept t u" "\<forall>p<?n + i. heap_frame u p = heap_frame t p"
      using grow_page [of t "?n + i"] I unfolding heap_page_addr by metis
    then show "\<exists>u. ?body i t = Inr u \<and> ?I (Suc i) u"
      using I data_kept_trans by (intro exI [of _ u]) (auto simp: same_dirs_def)
  qed simp
  then obtain t where t: "for_res 0 (?m - ?n) ?body s = Inr t" "?I (?m - ?n) t" by blast
  have "change_heap_size new s = Inr (t\<lparr>heap_size := new\<rparr>)"
  proof (cases "?n < ?m")
    case True
    then have "nat (int ?m - int ?n) = ?m - ?n" by simp
    with True t(1) show ?thesis
      unfolding change_heap_size_def Let_def heap_tops(1) [OF sz] heap_tops(2) [OF new] by simp
  next
    case False
    with t(1) show ?thesis
      unfolding change_heap_size_def Let_def heap_tops(1) [OF sz] heap_tops(2) [OF new] by simp
  qed
  moreover
  let ?t = "t\<lparr>heap_size := new\<rparr>"
  note sv = same_vm_facts [OF same_vm_updates(1) [of new t]]
  have more: "vm_state.more t = vm_state.more s" using t(2) by (simp add: same_dirs_def)
  note km = kheap_more [OF more]
  have "heap_mapped t ?m" using t(2) by (auto intro: heap_mapped_mono)
  then have "heap_space ?t"
    using t(2) sp' new same_dirs_dirs(6) [of s t] km by (simp add: heap_space_def sv)
  moreover have "same_dirs s (?t\<lparr>heap_size := heap_size s\<rparr>)"
  proof -
    have "?t\<lparr>heap_size := heap_size s\<rparr> = t\<lparr>heap_size := heap_size t\<rparr>" using km(2) by simp
    also have "\<dots> = t" by simp
    finally show ?thesis using t(2) by simp
  qed
  moreover have "\<forall>k<4096 * ?n. hrd ?t k = hrd s k"
    using hrd_kept [of s ?n t] t(2) sp' by (simp add: sv)
  ultimately show ?thesis
    using t(2) km by (intro exI [of _ ?t]) (simp add: sv)
qed

end
