(* ===== verification/Chunk_Heap.thy ===== *)
theory Chunk_Heap
  imports Chunks
begin

text \<open>
  The contract between an allocator and the memory that holds its chunks, and what follows from it.
  \<open>chunk_heap\<close> is the memory: the words at the offsets of a heap, how headers are read and written, and
  what writing keeps. \<open>chunk_allocator\<close> adds the search loop of \<open>malloc\<close> with the call that makes the heap
  larger, \<open>chunk_collector\<close> the loops of \<open>free\<close>. The laws are the equations of the code'a routines and
  the promises of the memory; the results are that the search is first fit and that freeing
  coalesces, on the list of chunks that the words spell.
\<close>

section \<open>The memory of a heap\<close>

locale chunk_heap =
  fixes space :: "'a \<Rightarrow> bool" and hsize :: "'a \<Rightarrow> nat" and rd :: "'a \<Rightarrow> nat \<Rightarrow> u32"
    and put :: "nat \<Rightarrow> u32 \<Rightarrow> 'a \<Rightarrow> 'a" and like :: "'a \<Rightarrow> 'a \<Rightarrow> bool" and addr :: "nat \<Rightarrow> u32"
    and load :: "u32 \<Rightarrow> 'a \<Rightarrow> u32 res" and set_size :: "u32 \<Rightarrow> u32 \<Rightarrow> 'a \<Rightarrow> 'a res"
    and set_used :: "u32 \<Rightarrow> bool \<Rightarrow> 'a \<Rightarrow> 'a res" and mark :: "u32 \<Rightarrow> 'a \<Rightarrow> 'a"
  assumes size_limit: "space s \<Longrightarrow> hsize s \<le> 536870912"
    and addr_add: "addr k + of_nat j = addr (k + j)"
    and load: "space s \<Longrightarrow> k < hsize s \<Longrightarrow> load (addr k) s = Inr (rd s k)"
    and set_size: "space s \<Longrightarrow> k < hsize s \<Longrightarrow> set_size (addr k) n s = Inr (put k (mk_hdr n (hdr_used (rd s k))) s)"
    and set_used: "space s \<Longrightarrow> k < hsize s \<Longrightarrow> set_used (addr k) b s = Inr (put k (mk_hdr (hdr_size (rd s k)) b) s)"
    and put_like: "space s \<Longrightarrow> k < hsize s \<Longrightarrow> like s (put k v s)"
    and rd_put: "space s \<Longrightarrow> k < hsize s \<Longrightarrow> k' < hsize s \<Longrightarrow> rd (put k v s) k' = (if k' div 4 = k div 4 then v else rd s k')"
    and mark_like: "space s \<Longrightarrow> like s (mark a s)"
    and rd_mark: "rd (mark a s) k = rd s k"
    and like_space: "like s t \<Longrightarrow> space t" and like_size: "like s t \<Longrightarrow> hsize t = hsize s"
    and like_refl: "space s \<Longrightarrow> like s s" and like_trans: "like s t \<Longrightarrow> like t u \<Longrightarrow> like s u"
begin

definition chain :: "'a \<Rightarrow> chunks \<Rightarrow> bool" where
  "chain s cs \<longleftrightarrow> space s \<and> (\<forall>c\<in>set cs. chunk_ok c) \<and> hdrs (rd s) 0 cs \<and> rd s (total cs) = 0 \<and> total cs + 16 \<le> hsize s"

lemma put_facts [simp]:
  assumes "space s" and "k < hsize s"
  shows "space (put k v s)" "hsize (put k v s) = hsize s"
  using like_space [OF put_like [OF assms]] like_size [OF put_like [OF assms]] by simp_all

lemma access [simp]:
  assumes "space s" and "k < hsize s"
  shows "load (addr k) s = Inr (rd s k)" "set_size (addr k) n s = Inr (put k (mk_hdr n (hdr_used (rd s k))) s)"
    "set_used (addr k) u s = Inr (put k (mk_hdr (hdr_size (rd s k)) u) s)"
  using load [OF assms] set_size [OF assms] set_used [OF assms] by simp_all

lemma like_put: "like s t \<Longrightarrow> k < hsize s \<Longrightarrow> like s (put k v t)"
  using like_trans put_like like_space like_size by metis

lemma addr_simps: "addr p + of_nat n = addr (p + n)" "addr p + HEADER = addr (p + 16)"
  using addr_add [of p 16] by (simp_all add: addr_add HEADER_def)

lemma chainD:
  assumes "chain s cs"
  shows "space s" "\<forall>c\<in>set cs. chunk_ok c" "hdrs (rd s) 0 cs" "rd s (total cs) = 0" "total cs + 16 \<le> hsize s"
  using assms by (simp_all add: chain_def)

text \<open>The chunk at offset \<open>p\<close> of a chain.\<close>

lemma chain_at:
  assumes "chain s (pre @ (m, u) # cs)"
  shows "rd s (total pre) = mk_hdr (of_nat m) u" "16 dvd total pre" "16 dvd m" "0 < m"
    "m < 2147483648" "total pre + m + total cs + 16 \<le> hsize s"
proof -
  note c = chainD [OF assms]
  show "rd s (total pre) = mk_hdr (of_nat m) u" using c(3) by (simp add: hdrs_append)
  show "16 dvd total pre" "16 dvd m" "0 < m" using c(2) total_dvd by (auto simp: chunk_ok_def)
  show "m < 2147483648" "total pre + m + total cs + 16 \<le> hsize s"
    using c(5) size_limit [OF c(1)] by simp_all
qed

text \<open>A chain in a larger heap, and replacing the chunks from offset \<open>total pre\<close> on.\<close>

lemma chain_words:
  assumes ch: "chain s cs" and "space t" and "hsize s \<le> hsize t" and eq: "\<And>k. k < hsize s \<Longrightarrow> rd t k = rd s k"
  shows "chain t cs"
proof -
  note c = chainD [OF ch]
  have "hdrs (rd t) 0 cs = hdrs (rd s) 0 cs" by (rule hdrs_cong) (use eq c(2,5) in auto)
  with c assms show ?thesis by (simp add: chain_def)
qed

lemma chain_replace:
  assumes ch: "chain s (pre @ cs)" and like: "like s t"
    and ok: "\<forall>c\<in>set ds. chunk_ok c" and size: "total pre + total ds + 16 \<le> hsize s"
    and eq: "\<And>k. k < total pre \<Longrightarrow> 16 dvd k \<Longrightarrow> rd t k = rd s k"
    and new: "hdrs (rd t) (total pre) ds" and end0: "rd t (total pre + total ds) = 0"
  shows "chain t (pre @ ds)"
proof -
  note c = chainD [OF ch]
  have "hdrs (rd t) 0 pre = hdrs (rd s) 0 pre" by (rule hdrs_cong) (use eq c(2) in auto)
  with c new end0 ok size like_space [OF like] like_size [OF like] show ?thesis
    by (auto simp: chain_def hdrs_append)
qed

end

section \<open>Allocating\<close>

text \<open>\<open>ensure\<close> makes room up to offset \<open>p + n + 16\<close>; \<open>room T s\<close> says that the heap can be made as large as \<open>T\<close>.\<close>

locale chunk_allocator = chunk_heap +
  fixes use_chunk :: "u32 \<Rightarrow> u32 \<Rightarrow> 'a \<Rightarrow> (u32 \<times> 'a) res" and ensure :: "u32 \<Rightarrow> u32 \<Rightarrow> 'a \<Rightarrow> 'a res"
    and search :: "u32 \<Rightarrow> u32 \<Rightarrow> 'a \<Rightarrow> (u32 \<times> 'a) run" and highest :: "u32 \<Rightarrow> 'a \<Rightarrow> 'a" and room :: "nat \<Rightarrow> 'a \<Rightarrow> bool"
  assumes use_chunk: "use_chunk pos n s =
       and_then (set_used pos True s) (\<lambda>s1.
       and_then (load pos s1) (\<lambda>w.
       and_then
         (if hdr_size w = 0 then
            and_then (set_size pos n s1) (\<lambda>s2.
            and_then (set_size (pos + n) 0 s2) (\<lambda>s3.
            set_used (pos + n) False s3))
          else
            (let diff = hdr_size w - n in
             if 8 \<le>s diff then
               and_then (set_size (pos + n) diff s1) (\<lambda>s2.
               and_then (set_used (pos + n) False s2) (\<lambda>s3.
               set_size pos n s3))
             else Inr s1)) (\<lambda>s4.
       Inr (pos + HEADER, highest (pos + HEADER) s4))))"
    and search: "search n pos s =
       run_then (Some (ensure pos n s)) (\<lambda>s1.
       run_then (Some (load pos s1)) (\<lambda>w.
       if \<not> hdr_used w \<and> (hdr_size w \<ge> n \<or> hdr_size w = 0) then Some (use_chunk pos n s1)
       else search n (pos + hdr_size w) s1))"
    and highest_like: "space s \<Longrightarrow> like s (highest a s)"
    and rd_highest: "rd (highest a s) k = rd s k"
    and ensure: "space s \<Longrightarrow> p \<le> hsize s \<Longrightarrow> p + j + 16 \<le> lim \<Longrightarrow> lim \<le> 536870912 \<Longrightarrow> room lim s \<Longrightarrow>
       \<exists>t. ensure (addr p) (of_nat j) s = Inr t \<and> space t \<and> p + j + 16 \<le> hsize t \<and> hsize s \<le> hsize t \<and> room lim t \<and>
         (\<forall>k<hsize s. rd t k = rd s k)"
begin

lemma use_end:
  assumes sp: "space s" and w: "rd s p = 0" and b: "p + n + 16 \<le> hsize s"
    and n: "0 < n" and al: "16 dvd p" "16 dvd n"
  shows "\<exists>t. use_chunk (addr p) (of_nat n) s = Inr (addr (p + 16), t) \<and> like s t \<and>
    (\<forall>k<hsize s. rd t k = (if k div 4 = p div 4 then mk_hdr (of_nat n) True
       else if k div 4 = (p + n) div 4 then 0 else rd s k))"
proof -
  have "16 dvd p + n" using al by simp
  then have ne: "(p + n) div 4 \<noteq> p div 4" using dvd_div4 [OF al(1), of "p + n"] n by simp
  let ?s1 = "put p (mk_hdr 0 True) s" and ?h = "mk_hdr (of_nat n) True"
  let ?s2 = "put p ?h ?s1"
  let ?s3 = "put (p + n) (mk_hdr 0 (hdr_used (rd ?s2 (p + n)))) ?s2"
  let ?s4 = "put (p + n) 0 ?s3"
  have eq: "use_chunk (addr p) (of_nat n) s = Inr (addr (p + 16), highest (addr (p + 16)) ?s4)"
    using sp w b ne by (simp add: use_chunk addr_simps rd_put Let_def)
  have l: "like s ?s4" using sp b by (intro like_put like_refl) simp_all
  moreover have "\<forall>k<hsize s. rd ?s4 k = (if k div 4 = p div 4 then ?h
       else if k div 4 = (p + n) div 4 then 0 else rd s k)"
    using sp b ne by (simp add: rd_put)
  ultimately show ?thesis unfolding eq using like_trans [OF l highest_like [OF like_space [OF l]]] by (simp add: rd_highest)
qed

lemma use_split:
  assumes sp: "space s" and w: "rd s p = mk_hdr (of_nat m) False" and b: "p + m + 16 \<le> hsize s"
    and n: "0 < n" "n \<le> m" and al: "16 dvd p" "16 dvd n" "16 dvd m"
  shows "\<exists>t. use_chunk (addr p) (of_nat n) s = Inr (addr (p + 16), t) \<and> like s t \<and>
    (\<forall>k<hsize s. rd t k = (if k div 4 = p div 4 then mk_hdr (of_nat n) True
       else if n < m \<and> k div 4 = (p + n) div 4 then mk_hdr (of_nat (m - n)) False else rd s k))"
proof -
  have "16 dvd p + n" using al by simp
  then have ne: "(p + n) div 4 \<noteq> p div 4" using dvd_div4 [OF al(1), of "p + n"] n by simp
  have m31: "m < 2147483648" using b size_limit [OF sp] by simp
  have m0: "(of_nat m :: u32) \<noteq> 0" using n m31 of_nat_31_eq_0 [of m] by simp
  obtain d where d: "m = n + d" using n(2) le_Suc_ex by blast
  obtain M :: u32 where M: "M = of_nat m" by blast
  have tb: "take_bit 31 M = M" unfolding M by (rule of_nat_31(2) [OF m31])
  have df: "M - of_nat n = of_nat d" by (simp add: M d)
  have d31: "d < 2147483648" using m31 d by simp
  have "sint (of_nat d :: u32) = int d" using d31 by (simp add: sint_small of_nat_31)
  moreover have "16 dvd d" using al d by (metis dvd_add_right_iff)
  then have "0 < d \<longleftrightarrow> 8 \<le> d" by (auto elim!: dvdE)
  ultimately have sp8: "8 \<le>s (of_nat d :: u32) \<longleftrightarrow> 0 < d"
    unfolding word_sle_eq by simp
  let ?h = "mk_hdr (of_nat n) True" and ?e = "mk_hdr (of_nat (m - n)) False"
  let ?s1 = "put p (mk_hdr (of_nat m) True) s"
  let ?s2 = "put (p + n) (mk_hdr (of_nat (m - n)) (hdr_used (rd ?s1 (p + n)))) ?s1"
  let ?s3 = "put (p + n) ?e ?s2"
  let ?s4 = "if n < m then put p ?h ?s3 else ?s1"
  have "use_chunk (addr p) (of_nat n) s = and_then (if 8 \<le>s (of_nat d :: u32)
      then and_then (set_size (addr (p + n)) (of_nat d) ?s1) (\<lambda>s2.
        and_then (set_used (addr (p + n)) False s2) (\<lambda>s3. set_size (addr p) (of_nat n) s3))
      else Inr ?s1)
      (\<lambda>s4. Inr (addr (p + 16), highest (addr (p + 16)) s4))"
    using sp w b m0 unfolding M [symmetric]
    by (simp add: use_chunk addr_simps rd_put Let_def tb df)
  also have "(if 8 \<le>s (of_nat d :: u32)
      then and_then (set_size (addr (p + n)) (of_nat d) ?s1) (\<lambda>s2.
        and_then (set_used (addr (p + n)) False s2) (\<lambda>s3. set_size (addr p) (of_nat n) s3))
      else Inr ?s1) = Inr ?s4"
    using sp b ne d31 n unfolding M [symmetric] by (simp add: sp8 d rd_put of_nat_31)
  finally have eq: "use_chunk (addr p) (of_nat n) s = Inr (addr (p + 16), highest (addr (p + 16)) ?s4)" by simp
  have l: "like s ?s4" using sp b n by (auto intro!: like_put like_refl)
  moreover have "\<forall>k<hsize s. rd ?s4 k = (if k div 4 = p div 4 then ?h
       else if n < m \<and> k div 4 = (p + n) div 4 then ?e else rd s k)"
    using sp b n ne by (auto simp: rd_put)
  ultimately show ?thesis unfolding eq using like_trans [OF l highest_like [OF like_space [OF l]]] by (simp add: rd_highest)
qed

lemma search_step:
  assumes "ensure pos n s = Inr s1" and "load pos s1 = Inr w"
  shows "search n pos s =
    (if \<not> hdr_used w \<and> (hdr_size w \<ge> n \<or> hdr_size w = 0) then Some (use_chunk pos n s1)
     else search n (pos + hdr_size w) s1)"
  by (subst search) (simp only: assms run_then_simps)

lemma ensure_chain:
  assumes ch: "chain s cs" and p: "p \<le> total cs" and bnd: "lim \<le> 536870912" "p + n + 16 \<le> lim" and room: "room lim s"
  shows "\<exists>t. ensure (addr p) (of_nat n) s = Inr t \<and> chain t cs \<and> p + n + 16 \<le> hsize t \<and> hsize s \<le> hsize t \<and>
    room lim t \<and> (\<forall>k<hsize s. rd t k = rd s k)"
proof -
  have "p \<le> hsize s" using chainD(5) [OF ch] p by simp
  from ensure [OF chainD(1) [OF ch] this bnd(2,1) room] show ?thesis using chain_words [OF ch] by blast
qed

lemma search_refines:
  assumes "chain s (pre @ cs)" and "p = total pre" and n: "16 dvd n" "0 < n"
    and "total (pre @ cs) + n + 16 \<le> 536870912" and "room (total (pre @ cs) + n + 16) s"
    and "(q, ds) = first_fit n p cs"
  shows "\<exists>t. search (of_nat n) (addr p) s = Some (Inr (addr (q + 16), t)) \<and> chain t (pre @ ds) \<and>
    (\<forall>k<total (pre @ cs). k div 4 \<noteq> q div 4 \<longrightarrow> k div 4 \<noteq> (q + n) div 4 \<longrightarrow> rd t k = rd s k)"
  using assms
proof (induction cs arbitrary: pre p s q ds)
  case Nil
  have lim: "total pre + n + 16 \<le> 536870912" and p: "p = total pre" "q = p" "ds = [(n, True)]"
    using Nil.prems by simp_all
  from ensure_chain [of s pre p "total pre + n + 16" n] Nil.prems obtain s1 where g:
    "ensure (addr p) (of_nat n) s = Inr s1"
    "chain s1 pre" "p + n + 16 \<le> hsize s1" "hsize s \<le> hsize s1"
    "\<forall>k<hsize s. rd s1 k = rd s k" by auto
  note c1 = chainD [OF g(2)]
  have al: "16 dvd p" using total_dvd [OF c1(2)] p by simp
  from use_end [OF c1(1) _ g(3) n(2) al n(1)] c1(4) p obtain t where
    t: "use_chunk (addr p) (of_nat n) s1 = Inr (addr (p + 16), t)" "like s1 t"
    "\<forall>k<hsize s1. rd t k = (if k div 4 = p div 4 then mk_hdr (of_nat n) True
       else if k div 4 = (p + n) div 4 then 0 else rd s1 k)" by auto
  have pn: "16 dvd p + n" using al n by simp
  have "chain t (pre @ [(n, True)])"
  proof (rule chain_replace [where cs = "[]" and s = s1])
    show "rd t k = rd s1 k" if "k < total pre" "16 dvd k" for k
      using t(3) that p g(3) dvd_div4 [OF al that(2)] dvd_div4 [OF pn that(2)] by simp
    show "hdrs (rd t) (total pre) [(n, True)]" using t(3) g(3) p by simp
    show "rd t (total pre + total [(n, True)]) = 0"
      using t(3) g(3) p dvd_div4 [OF al pn] n by simp
  qed (use g t n p in \<open>auto simp: chunk_ok_def\<close>)
  moreover have "search (of_nat n) (addr p) s = Some (Inr (addr (p + 16), t))"
    using c1 p g(3) t(1) search_step [OF g(1)] by simp
  moreover have "rd t k = rd s k" if "k < total pre" "k div 4 \<noteq> q div 4" "k div 4 \<noteq> (q + n) div 4" for k
    using that t(3) g p chainD(5) [OF Nil.prems(1)] by simp
  ultimately show ?case using p by auto
next
  case (Cons c cs)
  obtain m u where c: "c = (m, u)" by (cases c)
  let ?cs = "(m, u) # cs"
  have p: "p = total pre" using Cons.prems by simp
  have lim: "p \<le> total (pre @ ?cs)" "total (pre @ ?cs) + n + 16 \<le> 536870912"
    "room (total (pre @ ?cs) + n + 16) s" "p + n + 16 \<le> total (pre @ ?cs) + n + 16"
    using Cons.prems(5,6) p unfolding c by simp_all
  obtain s1 where g:
    "ensure (addr p) (of_nat n) s = Inr s1"
    "chain s1 (pre @ ?cs)" "p + n + 16 \<le> hsize s1" "hsize s \<le> hsize s1"
    "room (total (pre @ ?cs) + n + 16) s1"
    "\<forall>k<hsize s. rd s1 k = rd s k"
    using ensure_chain [OF Cons.prems(1) [unfolded c] lim(1,2,4,3)] by blast
  note c1 = chainD [OF g(2)] and at = chain_at [OF g(2), folded p]
  have m31: "take_bit 31 (of_nat m :: u32) = of_nat m" "(of_nat m :: u32) \<noteq> 0" "unat (of_nat m :: u32) = m"
    using of_nat_31 [OF at(5)] of_nat_31_eq_0 [OF at(5)] at(4) by simp_all
  have n31: "unat (of_nat n :: u32) = n" using Cons.prems(5) by (intro of_nat_31(1)) simp
  have le: "(of_nat n :: u32) \<le> of_nat m \<longleftrightarrow> n \<le> m" by (simp add: word_le_nat_alt m31 n31)
  have ld: "load (addr p) s1 = Inr (mk_hdr (of_nat m) u)" using c1(1) at(1,6) by simp
  show ?case
  proof (cases "\<not> u \<and> n \<le> m")
    case True
    have q: "q = p" "ds = (n, True) # (if n < m then (m - n, False) # cs else cs)"
      using Cons.prems(7) True by (simp_all add: c)
    have nm: "n \<le> m" "\<not> u" using True by simp_all
    from use_split [OF c1(1) _ _ n(2) nm(1) at(2) n(1) at(3)] at(1,6) nm(2) obtain t where
      t: "use_chunk (addr p) (of_nat n) s1 = Inr (addr (p + 16), t)" "like s1 t"
      "\<forall>k<hsize s1. rd t k = (if k div 4 = p div 4 then mk_hdr (of_nat n) True
       else if n < m \<and> k div 4 = (p + n) div 4 then mk_hdr (of_nat (m - n)) False else rd s1 k)" by auto
    have pn: "16 dvd p + n" "16 dvd p + m" "16 dvd total cs"
      using at(2,3) n total_dvd [of cs] c1(2) by simp_all
    have w: "rd t k = (if k = p then mk_hdr (of_nat n) True
       else if n < m \<and> k = p + n then mk_hdr (of_nat (m - n)) False else rd s1 k)"
      if "k < hsize s1" "16 dvd k" for k
      using t(3) that dvd_div4 [OF at(2) that(2)] dvd_div4 [OF pn(1) that(2)] by simp
    have rest: "hdrs (rd t) (p + m) cs"
    proof -
      have "hdrs (rd t) (p + m) cs = hdrs (rd s1) (p + m) cs"
        by (rule hdrs_cong) (use w at nm n c1(2) pn in auto)
      moreover have "hdrs (rd s1) (p + m) cs" using c1(3) p by (simp add: hdrs_append)
      ultimately show ?thesis by simp
    qed
    have "chain t (pre @ ds)"
    proof (rule chain_replace [OF g(2) t(2)])
      show "\<forall>c\<in>set ds. chunk_ok c"
        using c1(2) n nm at(3) by (auto simp: q chunk_ok_def)
      show "total pre + total ds + 16 \<le> hsize s1" using at(6) nm p by (auto simp: q)
      show "rd t k = rd s1 k" if "k < total pre" "16 dvd k" for k
        using w [of k] that p at(6) by simp
      show "hdrs (rd t) (total pre) ds"
        using w [of p] w [of "p + n"] rest at nm n pn p by (auto simp: q)
      have td: "total pre + total ds = p + m + total cs" using nm p by (simp add: q)
      have ne: "p + m + total cs \<noteq> p" "\<not> (n < m \<and> p + m + total cs = p + n)" using at(4) by linarith+
      have z: "rd s1 (p + m + total cs) = 0" using c1(4) p by (simp add: add.assoc)
      have "rd t (p + m + total cs) = 0"
        using w [of "p + m + total cs"] at(2,6) pn(2,3) ne z by simp
      then show "rd t (total pre + total ds) = 0" unfolding td .
    qed
    moreover have "search (of_nat n) (addr p) s = Some (Inr (addr (p + 16), t))"
      using t(1) nm search_step [OF g(1) ld] by (simp add: m31(1) le)
    moreover have "rd t k = rd s k" if "k < total (pre @ c # cs)" "k div 4 \<noteq> q div 4" "k div 4 \<noteq> (q + n) div 4" for k
      using that t(3) g p q chainD(5) [OF Cons.prems(1)] by simp
    ultimately show ?thesis using q(1) by auto
  next
    case False
    obtain ds' where ds': "first_fit n (p + m) cs = (q, ds')" "ds = (m, u) # ds'"
      using Cons.prems(7) False by (auto simp: c split: prod.splits)
    have "search (of_nat n) (addr p) s = search (of_nat n) (addr (p + m)) s1"
      using False search_step [OF g(1) ld] by (auto simp: m31 le addr_simps)
    moreover have "\<exists>t. search (of_nat n) (addr (p + m)) s1 = Some (Inr (addr (q + 16), t)) \<and>
      chain t ((pre @ [(m, u)]) @ ds') \<and>
      (\<forall>k<total ((pre @ [(m, u)]) @ cs). k div 4 \<noteq> q div 4 \<longrightarrow> k div 4 \<noteq> (q + n) div 4 \<longrightarrow> rd t k = rd s1 k)"
      by (rule Cons.IH) (use g Cons.prems(5) n ds'(1) p in \<open>simp_all add: c add.assoc\<close>)
    ultimately obtain t where t: "search (of_nat n) (addr p) s = Some (Inr (addr (q + 16), t))"
      "chain t (pre @ ds)"
      "\<forall>k<total (pre @ c # cs). k div 4 \<noteq> q div 4 \<longrightarrow> k div 4 \<noteq> (q + n) div 4 \<longrightarrow> rd t k = rd s1 k"
      by (auto simp: ds' c)
    moreover have "rd s1 k = rd s k" if "k < total (pre @ c # cs)" for k
      using g(6) that chainD(5) [OF Cons.prems(1)] by simp
    ultimately show ?thesis by auto
  qed
qed

text \<open>In terms of blocks: the search returns, and its block is new, large enough and apart from the others.\<close>

lemma search_correct:
  assumes "chain s cs" and "n = chunk_size b" and "total cs + n + 16 \<le> 536870912" and "room (total cs + n + 16) s"
    and "(q, ds) = first_fit n 0 cs"
  shows "\<exists>t. search (of_nat n) (addr 0) s = Some (Inr (addr q + HEADER, t)) \<and> chain t ds \<and>
    used_blocks 0 ds = insert (q, n) (used_blocks 0 cs) \<and> b + 16 \<le> n \<and>
    (\<forall>(o', m)\<in>used_blocks 0 cs. (o' + m \<le> q \<or> q + n \<le> o') \<and> (\<forall>k. o' + 16 \<le> k \<longrightarrow> k < o' + m \<longrightarrow> rd t k = rd s k))"
proof -
  note n = chunk_size_facts [of b, folded assms(2)]
  obtain t where t: "search (of_nat n) (addr 0) s = Some (Inr (addr (q + 16), t))" "chain t ds"
    "\<forall>k<total cs. k div 4 \<noteq> q div 4 \<longrightarrow> k div 4 \<noteq> (q + n) div 4 \<longrightarrow> rd t k = rd s k"
    using search_refines [of s "[]" cs 0 n q ds] assms n by auto
  note ff = first_fit_blocks [OF assms(5) [symmetric]]
  have qn: "16 dvd q"
  proof -
    obtain pre post where "ds = pre @ (n, True) # post" "q = 0 + total pre"
      using used_block_split [of q n 0 ds] ff by auto
    then show ?thesis using chain_at(2) [of t pre n True post] t(2) by simp
  qed
  have "rd t k = rd s k" if B: "(o', m) \<in> used_blocks 0 cs" and k: "o' + 16 \<le> k" "k < o' + m" for o' m k
  proof (rule t(3) [rule_format])
    show "k < total cs" using used_blocks_bounds [OF B] k by simp
    have "o' + m \<le> q \<or> q + n \<le> o'" using ff B by auto
    then show "k div 4 \<noteq> q div 4" "k div 4 \<noteq> (q + n) div 4"
      using k qn n(1) by (auto elim!: dvdE)
  qed
  then show ?thesis using t(1,2) ff n(2) by (intro exI [of _ t]) (auto simp: addr_simps)
qed

end

section \<open>Freeing\<close>

text \<open>\<open>past\<close> is the test for the end of the heap.\<close>

locale chunk_collector = chunk_heap +
  fixes swallow :: "u32 \<Rightarrow> u32 \<Rightarrow> 'a \<Rightarrow> (bool \<times> 'a) run" and merge :: "u32 \<Rightarrow> 'a \<Rightarrow> 'a run" and past :: "u32 \<Rightarrow> 'a \<Rightarrow> bool"
  assumes swallow: "swallow pos next_pos s =
       run_then (Some (load next_pos s)) (\<lambda>w.
       if hdr_used w then Some (Inr (False, s))
       else if hdr_size w = 0 then
         run_then (Some (set_size pos 0 s)) (\<lambda>s1. Some (Inr (True, mark pos s1)))
       else
         run_then (Some (load pos s)) (\<lambda>c.
         run_then (Some (set_size pos (hdr_size c + hdr_size w) s)) (\<lambda>s1.
         run_then (Some (load next_pos s1)) (\<lambda>w1.
         swallow pos (next_pos + hdr_size w1) s1))))"
    and merge: "merge pos s =
       run_then (Some (load pos s)) (\<lambda>w.
       if hdr_size w = 0 then Some (Inr s)
       else
         run_then (if \<not> hdr_used w then swallow pos (pos + hdr_size w) s else Some (Inr (False, s))) (\<lambda>r.
         if fst r then Some (Inr (snd r))
         else
           run_then (Some (load pos (snd r))) (\<lambda>w1.
           if past (pos + hdr_size w1) (snd r) then Some (Inr (snd r))
           else merge (pos + hdr_size w1) (snd r))))"
    and not_past: "space s \<Longrightarrow> k < hsize s \<Longrightarrow> \<not> past (addr k) s"
begin

lemma chain_mark: "space s \<Longrightarrow> chain (mark a s) cs = chain s cs"
proof -
  assume sp: "space s"
  have "rd (mark a s) = rd s" by (simp add: fun_eq_iff rd_mark)
  then show ?thesis using like_space [OF mark_like [OF sp]] like_size [OF mark_like [OF sp]] sp by (simp add: chain_def)
qed

lemma chain_resize:
  assumes ch: "chain s (pre @ (m, False) # (k, False) # cs)"
  defines "p \<equiv> total pre"
  shows "chain (put p (mk_hdr (of_nat (m + k)) False) s) (pre @ (m + k, False) # cs)"
proof -
  let ?t = "put p (mk_hdr (of_nat (m + k)) False) s"
  note c = chainD [OF ch] and at = chain_at [OF ch, folded p_def]
  have b: "p < hsize s" using at(6) by simp
  have w: "rd ?t j = (if j = p then mk_hdr (of_nat (m + k)) False else rd s j)"
    if "j < hsize s" "16 dvd j" for j
    using rd_put [OF c(1) b that(1)] dvd_div4 [OF at(2) that(2)] by simp
  show ?thesis
  proof (rule chain_replace [OF ch])
    show "like s ?t" by (rule put_like [OF c(1) b])
    have kk: "16 dvd k" "0 < k" using c(2) by (auto simp: chunk_ok_def)
    then show "\<forall>c\<in>set ((m + k, False) # cs). chunk_ok c"
      using c(2) at(3,4) by (auto simp: chunk_ok_def)
    show "total pre + total ((m + k, False) # cs) + 16 \<le> hsize s" using at(6) by (simp add: p_def)
    show "rd ?t j = rd s j" if "j < total pre" "16 dvd j" for j
      using w that at(6) by (simp add: p_def)
    have "hdrs (rd ?t) (p + m + k) cs = hdrs (rd s) (p + m + k) cs"
    proof (rule hdrs_cong)
      show "rd ?t j = rd s j" if "p + m + k \<le> j" "j < p + m + k + total cs" "16 dvd j" for j
        using w [of j] that at(4,6) by simp
    qed (use at(2,3) kk c(2) in auto)
    moreover have "hdrs (rd s) (p + m + k) cs" using c(3) by (simp add: hdrs_append p_def)
    ultimately show "hdrs (rd ?t) (total pre) ((m + k, False) # cs)"
      using w [OF b at(2)] by (simp add: p_def add.assoc)
    have T: "16 dvd p + (m + k) + total cs" using at(2,3) kk total_dvd [of cs] c(2) by simp
    have "rd ?t (p + (m + k) + total cs) = rd s (p + (m + k) + total cs)"
      using w [OF _ T] at(4,6) by simp
    then show "rd ?t (total pre + total ((m + k, False) # cs)) = 0"
      using c(4) by (simp add: p_def add.assoc)
  qed
qed

lemma chain_cut:
  assumes ch: "chain s (pre @ [(m, False)])"
  defines "p \<equiv> total pre"
  shows "chain (put p 0 s) pre"
proof -
  note c = chainD [OF ch] and at = chain_at [OF ch, folded p_def]
  have b: "p < hsize s" using at(6) by simp
  have w: "rd (put p 0 s) j = (if j = p then 0 else rd s j)"
    if "j < hsize s" "16 dvd j" for j
    using rd_put [OF c(1) b that(1)] dvd_div4 [OF at(2) that(2)] by simp
  have "chain (put p 0 s) (pre @ [])"
  proof (rule chain_replace [OF ch])
    show "like s (put p 0 s)" by (rule put_like [OF c(1) b])
    show "rd (put p 0 s) j = rd s j" if "j < total pre" "16 dvd j" for j
      using w that at(6) by (simp add: p_def)
    show "rd (put p 0 s) (total pre + total []) = 0" using w [OF b at(2)] by (simp add: p_def)
  qed (use at(6) in \<open>simp_all add: p_def\<close>)
  then show ?thesis by simp
qed

definition words_kept :: "nat \<Rightarrow> 'a \<Rightarrow> 'a \<Rightarrow> bool" where
  "words_kept p s t \<longleftrightarrow> like s t \<and>
     (\<forall>k<hsize s. k div 4 \<noteq> p div 4 \<longrightarrow> rd t k = rd s k)"

lemma words_kept_put:
  "space s \<Longrightarrow> p < hsize s \<Longrightarrow> words_kept p s (put p v s)"
  by (simp add: words_kept_def put_like rd_put)

lemma words_kept_trans: "words_kept p s t \<Longrightarrow> words_kept p t u \<Longrightarrow> words_kept p s u"
  using like_trans [of s t u] like_size [of s t] by (simp add: words_kept_def)

lemma swallow_step:
  assumes "load next_pos s = Inr w"
  shows "swallow pos next_pos s =
    (if hdr_used w then Some (Inr (False, s))
     else if hdr_size w = 0 then
       run_then (Some (set_size pos 0 s)) (\<lambda>s1. Some (Inr (True, mark pos s1)))
     else
       run_then (Some (load pos s)) (\<lambda>c.
       run_then (Some (set_size pos (hdr_size c + hdr_size w) s)) (\<lambda>s1.
       run_then (Some (load next_pos s1)) (\<lambda>w1.
       swallow pos (next_pos + hdr_size w1) s1))))"
  by (subst swallow) (simp only: assms run_then_simps)

lemma swallow_refines:
  assumes "chain s (pre @ (m, False) # cs)" and "p = total pre" and "nx = p + m"
  shows "case swallowed m cs of
      None \<Rightarrow> \<exists>t. swallow (addr p) (addr nx) s = Some (Inr (True, t)) \<and> chain t pre \<and> words_kept p s t
    | Some (m', ds) \<Rightarrow> \<exists>t. swallow (addr p) (addr nx) s = Some (Inr (False, t)) \<and>
        chain t (pre @ (m', False) # ds) \<and> words_kept p s t"
  using assms
proof (induction m cs arbitrary: s nx rule: swallowed.induct)
  case (1 m)
  note c = chainD [OF "1.prems"(1)] and at = chain_at [OF "1.prems"(1), folded "1.prems"(2)]
  have ld: "load (addr nx) s = Inr 0" using c(1,4) at(6) "1.prems"(2,3) by simp
  have b: "p < hsize s" using at(6) by simp
  have w: "rd s p = mk_hdr (of_nat m) False" by (rule at(1))
  have "chain (put p 0 s) pre" using chain_cut [OF "1.prems"(1)] "1.prems"(2) by simp
  moreover have sp: "space (put p 0 s)" using c(1) b by simp
  moreover have "words_kept p s (put p 0 s)" by (rule words_kept_put [OF c(1) b])
  then have "words_kept p s (mark (addr p) (put p 0 s))"
    using like_trans [OF _ mark_like [OF sp]] by (simp add: words_kept_def rd_mark)
  ultimately show ?case using swallow_step [OF ld, of "addr p"] c(1) b w chain_mark [OF sp] by simp
next
  case (2 m k u cs)
  note ch = "2.prems"(1) and p = "2.prems"(2) and nx = "2.prems"(3)
  note c = chainD [OF ch] and at = chain_at [OF ch, folded p]
  note atk = chain_at [of s "pre @ [(m, False)]" k u cs, simplified, OF ch, folded p]
  have b: "p < hsize s" "nx < hsize s" using at(6) nx by simp_all
  have ld: "load (addr nx) s = Inr (mk_hdr (of_nat k) u)"
    using c(1) atk(1) b(2) nx by (simp add: add.commute)
  show ?case
  proof (cases u)
    case True
    then show ?thesis using swallow_step [OF ld, of "addr p"] ch by (simp add: words_kept_def like_refl c(1))
  next
    case False
    let ?v = "mk_hdr (of_nat (m + k)) False" and ?s1 = "put p (mk_hdr (of_nat (m + k)) False) s"
    have s1: "chain ?s1 (pre @ (m + k, False) # cs)"
      using chain_resize [of s pre m k cs] ch False p by simp
    have k31: "take_bit 31 (of_nat k :: u32) = of_nat k" "(of_nat k :: u32) \<noteq> 0"
      and m31: "take_bit 31 (of_nat m :: u32) = of_nat m"
      using of_nat_31(2) [OF atk(5)] of_nat_31_eq_0 [OF atk(5)] atk(4) of_nat_31(2) [OF at(5)] by simp_all
    have "16 dvd nx" using at(2,3) nx by simp
    then have "nx div 4 \<noteq> p div 4" using dvd_div4 [OF at(2), of nx] nx at(4) by simp
    then have ld1: "load (addr nx) ?s1 = Inr (mk_hdr (of_nat k) u)"
      using c(1) b rd_put [OF c(1) b] atk(1) nx by (simp add: add.commute)
    have "swallow (addr p) (addr nx) s = swallow (addr p) (addr (nx + k)) ?s1"
      using swallow_step [OF ld, of "addr p"] False c(1) b(1) ld1 at(1) k31 m31
      by (simp add: addr_simps)
    moreover have "words_kept p s ?s1" by (rule words_kept_put [OF c(1) b(1)])
    ultimately show ?thesis
      using "2.IH" [OF False s1 p, of "nx + k"] False nx words_kept_trans [of p s ?s1]
      by (auto split: option.splits)
  qed
qed

definition blocks_kept :: "nat \<Rightarrow> chunks \<Rightarrow> 'a \<Rightarrow> 'a \<Rightarrow> bool" where
  "blocks_kept p cs s t \<longleftrightarrow> like s t \<and> (\<forall>k<p. k < hsize s \<longrightarrow> rd t k = rd s k) \<and>
     (\<forall>(q, m)\<in>used_blocks p cs. \<forall>k. q \<le> k \<longrightarrow> k < q + m \<longrightarrow> k < hsize s \<longrightarrow> rd t k = rd s k)"

lemma merge_step:
  assumes "load pos s = Inr w"
  shows "merge pos s =
    (if hdr_size w = 0 then Some (Inr s)
     else
       run_then (if \<not> hdr_used w then swallow pos (pos + hdr_size w) s else Some (Inr (False, s))) (\<lambda>r.
       if fst r then Some (Inr (snd r))
       else
         run_then (Some (load pos (snd r))) (\<lambda>w1.
         if past (pos + hdr_size w1) (snd r) then Some (Inr (snd r))
         else merge (pos + hdr_size w1) (snd r))))"
  by (subst merge) (simp only: assms run_then_simps)

lemma merge_next:
  assumes "chain s (pre @ (m, u) # cs)" and "p = total pre"
  shows "load (addr p) s = Inr (mk_hdr (of_nat m) u)"
    and "addr p + hdr_size (mk_hdr (of_nat m) u) = addr (p + m)"
    and "\<not> past (addr p + hdr_size (mk_hdr (of_nat m) u)) s"
    and "hdr_size (mk_hdr (of_nat m) u) \<noteq> 0"
proof -
  note c = chainD [OF assms(1)] and at = chain_at [OF assms(1), folded assms(2)]
  show "load (addr p) s = Inr (mk_hdr (of_nat m) u)" using c(1) at(1,6) by simp
  have m31: "hdr_size (mk_hdr (of_nat m) u) = of_nat m" using of_nat_31(2) [OF at(5)] by simp
  show n: "addr p + hdr_size (mk_hdr (of_nat m) u) = addr (p + m)" unfolding m31 by (rule addr_simps)
  show "\<not> past (addr p + hdr_size (mk_hdr (of_nat m) u)) s" unfolding n using not_past [OF c(1)] at(6) by simp
  show "hdr_size (mk_hdr (of_nat m) u) \<noteq> 0" unfolding m31 using of_nat_31_eq_0 [OF at(5)] at(4) by simp
qed

lemma words_kept_blocks:
  assumes "words_kept p s t" and "\<forall>(q, m)\<in>B. p + 4 \<le> q" and "16 dvd p"
  shows "like s t" "k < p \<Longrightarrow> k < hsize s \<Longrightarrow> rd t k = rd s k"
    "(q, m) \<in> B \<Longrightarrow> q \<le> k \<Longrightarrow> k < hsize s \<Longrightarrow> rd t k = rd s k"
proof -
  show "like s t" using assms(1) by (simp add: words_kept_def)
  have "k div 4 \<noteq> p div 4" if "k < p \<or> p + 4 \<le> k" for k using that assms(3) by (auto elim!: dvdE)
  then show "k < p \<Longrightarrow> k < hsize s \<Longrightarrow> rd t k = rd s k"
    "(q, m) \<in> B \<Longrightarrow> q \<le> k \<Longrightarrow> k < hsize s \<Longrightarrow> rd t k = rd s k"
    using assms(1,2) by (fastforce simp: words_kept_def)+
qed

lemma merge_refines:
  assumes "chain s (pre @ cs)" and "p = total pre"
  shows "\<exists>t. merge (addr p) s = Some (Inr t) \<and> chain t (pre @ coal cs) \<and> blocks_kept p cs s t"
  using assms
proof (induction cs arbitrary: pre p s rule: coal.induct)
  case 1
  note c = chainD [OF "1.prems"(1)]
  have "load (addr p) s = Inr 0" using c(1,4,5) "1.prems"(2) by simp
  then show ?case using merge_step [of "addr p" s 0] "1.prems" c(1)
    by (simp add: blocks_kept_def like_refl)
next
  case (2 m u cs)
  note ch = "2.prems"(1) and p = "2.prems"(2)
  note c = chainD [OF ch] and at = chain_at [OF ch, folded p] and nx = merge_next [OF ch p]
  show ?case
  proof (cases u)
    case True
    have "merge (addr p) s = merge (addr (p + m)) s"
      using merge_step [OF nx(1)] nx(3,4) True nx(1) by (simp add: nx(2) [simplified])
    moreover obtain t where "merge (addr (p + m)) s = Some (Inr t)"
      "chain t ((pre @ [(m, u)]) @ coal cs)" "blocks_kept (p + m) cs s t"
      using "2.IH"(1) [OF True, of s "pre @ [(m, u)]" "p + m"] ch p by auto
    ultimately show ?thesis using True by (auto simp: blocks_kept_def)
  next
    case False
    note sw = swallow_refines [of s pre m cs p, OF _ p refl]
    show ?thesis
    proof (cases "swallowed m cs")
      case None
      with sw ch False obtain t where t: "swallow (addr p) (addr (p + m)) s = Some (Inr (True, t))"
        "chain t pre" "words_kept p s t" by auto
      have "merge (addr p) s = Some (Inr t)"
        using merge_step [OF nx(1)] nx(4) False t(1) by (simp add: nx(2) [simplified])
      moreover have "blocks_kept p ((m, u) # cs) s t"
        using words_kept_blocks [OF t(3) _ at(2), of "{}"] swallowed_blocks [where m = m and cs = cs and p = p] None False
        by (simp add: blocks_kept_def)
      ultimately show ?thesis using t(2) None False by auto
    next
      case (Some r)
      obtain m' ds where r: "r = (m', ds)" by (cases r)
      with sw ch False Some obtain t where t: "swallow (addr p) (addr (p + m)) s = Some (Inr (False, t))"
        "chain t (pre @ (m', False) # ds)" "words_kept p s t" by auto
      note nt = merge_next [OF t(2) p] and at' = chain_at [OF t(2), folded p]
      have "merge (addr p) s = merge (addr (p + m')) t"
        using merge_step [OF nx(1)] nx(4) False t(1) nt(1,3) by (simp add: nx(2) [simplified] nt(2) [simplified])
      moreover obtain t' where t': "merge (addr (p + m')) t = Some (Inr t')"
        "chain t' ((pre @ [(m', False)]) @ coal ds)" "blocks_kept (p + m') ds t t'"
        using "2.IH"(2) [OF False Some r [symmetric], of t "pre @ [(m', False)]" "p + m'"] t(2) p by auto
      have ub: "used_blocks p ((m, u) # cs) = used_blocks (p + m') ds"
        using swallowed_blocks [where m = m and cs = cs and p = p] Some r False by simp
      have "\<forall>(q, n)\<in>used_blocks (p + m') ds. p + 4 \<le> q"
        using used_blocks_bounds [of _ _ "p + m'" ds] at'(3,4) by (fastforce elim!: dvdE)
      note wk = words_kept_blocks [OF t(3) this at(2)]
      have "blocks_kept p ((m, u) # cs) s t'"
        using t'(3) wk like_trans [of s t t'] like_size [of s t] unfolding blocks_kept_def ub by fastforce
      ultimately show ?thesis using t' Some r False by auto
    qed
  qed
qed

lemma free_refines:
  assumes ch: "chain s (pre @ (m, True) # post)"
  defines "q \<equiv> total pre" and "ds \<equiv> coal (pre @ (m, False) # post)"
  shows "\<exists>t. run_then (Some (set_used (addr q) False s)) (merge (addr 0)) = Some (Inr t) \<and> chain t ds \<and> like s t \<and>
    (\<forall>(q', m')\<in>used_blocks 0 ds. \<forall>k. q' \<le> k \<longrightarrow> k < q' + m' \<longrightarrow> rd t k = rd s k)"
proof -
  note c = chainD [OF ch] and at = chain_at [OF ch, folded q_def]
  let ?s1 = "put q (mk_hdr (of_nat m) False) s"
  have b: "q < hsize s" using at(6) by simp
  have w: "rd ?s1 j = (if j = q then mk_hdr (of_nat m) False else rd s j)"
    if "j < hsize s" "16 dvd j" for j
    using rd_put [OF c(1) b that(1)] dvd_div4 [OF at(2) that(2)] by simp
  have like: "like s ?s1" by (rule put_like [OF c(1) b])
  have s1: "chain ?s1 (pre @ (m, False) # post)"
  proof (rule chain_replace [OF ch like])
    show "\<forall>c\<in>set ((m, False) # post). chunk_ok c" using c(2) by (auto simp: chunk_ok_def)
    show "total pre + total ((m, False) # post) + 16 \<le> hsize s" using at(6) by (simp add: q_def)
    show "rd ?s1 j = rd s j" if "j < total pre" "16 dvd j" for j using w that at(6) by (simp add: q_def)
    have "hdrs (rd ?s1) (q + m) post = hdrs (rd s) (q + m) post"
    proof (rule hdrs_cong)
      show "rd ?s1 j = rd s j" if "q + m \<le> j" "j < q + m + total post" "16 dvd j" for j
        using w [of j] that at(4,6) by simp
    qed (use at(2,3) c(2) in auto)
    moreover have "hdrs (rd s) (q + m) post" using c(3) by (simp add: hdrs_append q_def)
    ultimately show "hdrs (rd ?s1) (total pre) ((m, False) # post)" using w [OF b at(2)] by (simp add: q_def)
    have T: "16 dvd q + m + total post" using at(2,3) total_dvd [of post] c(2) by simp
    have "rd ?s1 (q + m + total post) = rd s (q + m + total post)" using w [OF _ T] at(4,6) by simp
    then show "rd ?s1 (total pre + total ((m, False) # post)) = 0" using c(4) by (simp add: q_def add.assoc)
  qed
  from merge_refines [of ?s1 "[]"] s1 obtain t where
    t: "merge (addr 0) ?s1 = Some (Inr t)" "chain t ds" "blocks_kept 0 (pre @ (m, False) # post) ?s1 t"
    by (auto simp: ds_def)
  have m31: "take_bit 31 (of_nat m :: u32) = of_nat m" by (rule of_nat_31(2) [OF at(5)])
  have "run_then (Some (set_used (addr q) False s)) (merge (addr 0)) = Some (Inr t)"
    using c(1) b at(1) t(1) by (simp add: m31)
  moreover have "like s t" using like_trans [OF like] t(3) by (simp add: blocks_kept_def)
  moreover have "rd t k = rd s k" if B: "(q', m') \<in> used_blocks 0 ds" and k: "q' \<le> k" "k < q' + m'" for q' m' k
  proof -
    have ub: "used_blocks 0 ds = used_blocks 0 pre \<union> used_blocks (q + m) post"
      by (simp add: ds_def used_blocks_coal used_blocks_append q_def)
    have "q' + m' \<le> q \<or> q + m \<le> q'"
      using B used_blocks_bounds [of q' m' 0 pre] used_blocks_bounds [of q' m' "q + m" post] unfolding ub q_def by auto
    moreover have ks: "k < hsize s"
      using used_blocks_bounds [OF B] k chainD(5) [OF t(2)] like_size [OF \<open>like s t\<close>] by simp
    ultimately have "k div 4 \<noteq> q div 4" using k at(2,3,4) by (auto elim!: dvdE)
    then have "rd ?s1 k = rd s k" using rd_put [OF c(1) b ks] by simp
    moreover have "(q', m') \<in> used_blocks 0 (pre @ (m, False) # post)" using B by (simp add: ds_def used_blocks_coal)
    then have "rd t k = rd ?s1 k" using t(3) k ks put_facts [OF c(1) b] by (auto simp: blocks_kept_def)
    ultimately show ?thesis by simp
  qed
  ultimately show ?thesis using t(2) by blast
qed

text \<open>In terms of blocks: freeing returns, takes exactly the block away and leaves no two free neighbours.\<close>

lemma free_correct:
  assumes "chain s cs" and "(q, m) \<in> used_blocks 0 cs"
  shows "\<exists>t ds. run_then (Some (set_used (addr q) False s)) (merge (addr 0)) = Some (Inr t) \<and> chain t ds \<and> compact ds \<and>
    like s t \<and> used_blocks 0 ds = used_blocks 0 cs - {(q, m)} \<and>
    (\<forall>(q', m')\<in>used_blocks 0 ds. \<forall>k. q' \<le> k \<longrightarrow> k < q' + m' \<longrightarrow> rd t k = rd s k)"
proof -
  obtain pre post where cs: "cs = pre @ (m, True) # post" and q: "q = total pre"
    using used_block_split [OF assms(2)] by auto
  let ?ds = "coal (pre @ (m, False) # post)"
  have m0: "0 < m" using chain_at(4) [of s pre m True post] assms(1) cs by simp
  have "used_blocks 0 ?ds = used_blocks 0 cs - {(q, m)}"
    using m0 used_blocks_bounds [of q m 0 pre] used_blocks_bounds [of q m "q + m" post]
    by (auto simp: used_blocks_coal cs used_blocks_append q)
  then show ?thesis
    using free_refines [of s pre m post] assms(1) compact_coal [of "pre @ (m, False) # post"]
    unfolding cs q by blast
qed

lemma block_load:
  assumes "chain s cs" and "(q, m) \<in> used_blocks 0 cs"
  shows "load (addr q) s = Inr (mk_hdr (of_nat m) True)"
proof -
  obtain pre post where cs: "cs = pre @ (m, True) # post" and q: "q = total pre"
    using used_block_split [OF assms(2)] by auto
  note at = chain_at [OF assms(1) [unfolded cs], folded q]
  show ?thesis using at(1,6) chainD(1) [OF assms(1)] by simp
qed

end

end
