(* ===== verification/Kmalloc_Spec.thy ===== *)
theory Kmalloc_Spec
  imports Heap_Memory Chunk_Heap
begin

text \<open>
  The kernel heap as a list of chunks. \<open>heap_chain s cs\<close>: the words behind the page tables
  spell the chain \<open>cs\<close> of chunk sizes and use bits. The memory behind the page tables keeps the laws
  of \<open>chunk_heap\<close>, and the loops of \<open>kernel/kmalloc.c\<close> are a \<open>chunk_allocator\<close> and a \<open>chunk_collector\<close> on it.
\<close>

section \<open>Headers and stores\<close>

lemma hput_fields [simp]:
  "heap_start (hput k v s) = heap_start s" "heap_size (hput k v s) = heap_size s"
  "threshold (hput k v s) = threshold s" "kmalloc_initialized (hput k v s) = kmalloc_initialized s"
  "kheap_state.more (hput k v s) = kheap_state.more s" "free_count (hput k v s) = free_count s"
  by (simp_all add: hput_def put_word_def free_count_def used_frames_def pf_used_def
      managed_frames_def alloc_start_def alloc_end_def)

lemma heap_bound: "k < x \<Longrightarrow> k < 4096 * heap_pages x"
  by (simp add: heap_pages_def)

lemma heap_spaceD:
  assumes "heap_space s"
  shows "vm_ok s" "\<not> are_interrupts_enabled s" "heap_mapped s (heap_pages (unat (heap_size s)))"
    "heap_start s = haddr 0" "unat (heap_size s) \<le> 536870912"
  using assms by (simp_all add: heap_space_def haddr_def)

lemma heap_access [simp]:
  assumes "heap_space s" and "k < unat (heap_size s)"
  shows "vload (haddr k) s = Inr (hrd s k)" "vstore (haddr k) v s = Inr (hput k v s)"
    "heap_space (hput k v s)"
proof -
  note sp = heap_spaceD [OF assms(1)] and k = heap_bound [OF assms(2)]
  show "vload (haddr k) s = Inr (hrd s k)" "vstore (haddr k) v s = Inr (hput k v s)"
    using vload_heap [OF sp(1,3) k] vstore_heap [OF sp(1,3) k] by simp_all
  note h = hput_facts [OF sp(1,3) k, where v = v]
  note d = same_dirs_dirs [OF h(3)]
  show "heap_space (hput k v s)"
    using assms(1) h(1,2,9) d by (simp add: heap_space_def heap_small_def)
qed

lemma hrd_hput:
  "heap_space s \<Longrightarrow> k < unat (heap_size s) \<Longrightarrow> k' < unat (heap_size s) \<Longrightarrow>
   hrd (hput k v s) k' = (if k' div 4 = k div 4 then v else hrd s k')"
  using hput_facts(6) [OF heap_spaceD(1,3) heap_bound] heap_bound by blast

lemma set_heap [simp]:
  assumes "heap_space s" and "k < unat (heap_size s)"
  shows "set_size (haddr k) n s = Inr (hput k (mk_hdr n (hdr_used (hrd s k))) s)"
    and "set_used (haddr k) u s = Inr (hput k (mk_hdr (hdr_size (hrd s k)) u) s)"
  using assms by (simp_all add: set_size_def set_used_def)

lemma threshold_facts [simp]:
  "heap_space (s\<lparr>threshold := a\<rparr>) = heap_space s" "hrd (s\<lparr>threshold := a\<rparr>) k = hrd s k"
  "free_count (s\<lparr>threshold := a\<rparr>) = free_count s"
  using same_vm_facts [OF same_vm_updates(2) [of a s]] by (simp_all add: heap_space_def)

section \<open>Chains of chunks\<close>

definition heap_chain :: "'a kheap_state_scheme \<Rightarrow> chunks \<Rightarrow> bool" where
  "heap_chain s cs \<longleftrightarrow> heap_space s \<and> kmalloc_initialized s \<and> (\<forall>c\<in>set cs. chunk_ok c) \<and>
     hdrs (hrd s) 0 cs \<and> hrd s (total cs) = 0 \<and> total cs + 16 \<le> unat (heap_size s)"

lemma heap_chainD:
  assumes "heap_chain s cs"
  shows "heap_space s" "kmalloc_initialized s" "\<forall>c\<in>set cs. chunk_ok c" "hdrs (hrd s) 0 cs"
    "hrd s (total cs) = 0" "total cs + 16 \<le> unat (heap_size s)"
  using assms by (simp_all add: heap_chain_def)

text \<open>What an operation on the heap keeps besides the words.\<close>

definition heap_like :: "'a kheap_state_scheme \<Rightarrow> 'a kheap_state_scheme \<Rightarrow> bool" where
  "heap_like s t \<longleftrightarrow> heap_space t \<and> heap_size t = heap_size s \<and>
     kmalloc_initialized t = kmalloc_initialized s \<and> free_count t = free_count s \<and>
     kheap_state.more t = kheap_state.more s"

section \<open>The contract\<close>

definition heap_live :: "'a kheap_state_scheme \<Rightarrow> bool" where
  "heap_live s \<longleftrightarrow> heap_space s \<and> kmalloc_initialized s"

definition heap_kept :: "'a kheap_state_scheme \<Rightarrow> 'a kheap_state_scheme \<Rightarrow> bool" where
  "heap_kept s t \<longleftrightarrow> heap_like s t \<and> kmalloc_initialized t"

definition heap_room :: "nat \<Rightarrow> 'a kheap_state_scheme \<Rightarrow> bool" where
  "heap_room n s \<longleftrightarrow> 2 * (heap_pages n - heap_pages (unat (heap_size s))) \<le> free_count s"

lemma haddr_simps: "haddr p + of_nat n = haddr (p + n)" "haddr p + HEADER = haddr (p + 16)"
  by (simp_all add: haddr_def HEADER_def)

lemma unat_haddr_le: "k \<le> 536870912 \<Longrightarrow> unat (haddr k) = 3489660928 + k"
  by (simp add: haddr_def KERNEL_MALLOC_def unat_add_small unat_of_nat_small)

lemma heap_end:
  assumes "heap_space s"
  shows "heap_start s + heap_size s = haddr (unat (heap_size s))"
  using haddr_simps(1) [of 0 "unat (heap_size s)"] heap_spaceD(4) [OF assms] by simp

lemma heap_pages_mono: "x \<le> y \<Longrightarrow> heap_pages x \<le> heap_pages y"
  by (simp add: heap_pages_def div_le_mono)

interpretation kheap: chunk_heap heap_live "\<lambda>s. unat (heap_size s)" hrd hput heap_kept haddr vload set_size set_used
  "\<lambda>a s. s\<lparr>threshold := a\<rparr>"
  by unfold_locales (auto simp: heap_live_def heap_spaceD heap_like_def heap_kept_def hrd_hput haddr_simps)

text \<open>The heap grows by whole pages, as far as there are frames for them and for their page tables.\<close>

lemma ensure_heap:
  assumes live: "heap_live s" and b: "p + n + 16 \<le> lim" "lim \<le> 536870912" and room: "heap_room lim s"
  shows "\<exists>t. (if haddr p + of_nat n + HEADER > heap_start s + heap_size s
      then change_heap_size (haddr p + of_nat n + HEADER - heap_start s) s else Inr s) = Inr t \<and>
    heap_live t \<and> p + n + 16 \<le> unat (heap_size t) \<and> unat (heap_size s) \<le> unat (heap_size t) \<and> heap_room lim t \<and>
    (\<forall>k<unat (heap_size s). hrd t k = hrd s k)"
proof -
  have live': "heap_space s" "kmalloc_initialized s" using live by (simp_all add: heap_live_def)
  note sp = heap_spaceD [OF live'(1)] and e = heap_end [OF live'(1)]
  have a: "haddr p + of_nat n + HEADER = haddr (p + n + 16)" by (simp only: haddr_simps)
  have bb: "p + n + 16 \<le> 536870912" using b by simp
  have cmp: "haddr p + of_nat n + HEADER > heap_start s + heap_size s \<longleftrightarrow> unat (heap_size s) < p + n + 16"
    unfolding a e word_less_nat_alt unat_haddr_le [OF bb] unat_haddr_le [OF sp(5)] by linarith
  have d: "haddr p + of_nat n + HEADER - heap_start s = of_nat (p + n + 16)"
    unfolding a sp(4) by (simp add: haddr_def)
  show ?thesis
  proof (cases "unat (heap_size s) < p + n + 16")
    case False
    with cmp live room show ?thesis by auto
  next
    case True
    have un: "unat (of_nat (p + n + 16) :: u32) = p + n + 16" using bb by (intro unat_of_nat_small) simp
    have pg: "heap_pages (unat (heap_size s)) \<le> heap_pages (p + n + 16)" "heap_pages (p + n + 16) \<le> heap_pages lim"
      using True b(1) by (auto intro: heap_pages_mono)
    have un': "unat (of_nat (p + n + 16) :: u32) \<le> 536870912" using bb by (simp only: un)
    have room': "2 * (heap_pages (p + n + 16) - heap_pages (unat (heap_size s))) \<le> free_count s"
      using room pg unfolding heap_room_def by linarith
    obtain t where t: "change_heap_size (of_nat (p + n + 16)) s = Inr t" "heap_size t = of_nat (p + n + 16)"
      "heap_space t" "kmalloc_initialized t = kmalloc_initialized s"
      "free_count s \<le> free_count t + 2 * (heap_pages (p + n + 16) - heap_pages (unat (heap_size s)))"
      "\<forall>k<4096 * heap_pages (unat (heap_size s)). hrd t k = hrd s k"
      using change_heap_size_spec [OF live'(1) un', unfolded un, OF room'] by blast
    have w: "hrd t k = hrd s k" if "k < unat (heap_size s)" for k
      using t(6) heap_bound [OF that] by simp
    have size: "unat (heap_size t) = p + n + 16" by (simp only: t(2) un)
    have "heap_room lim t" using t(5) room pg unfolding heap_room_def size by linarith
    moreover have "(if haddr p + of_nat n + HEADER > heap_start s + heap_size s
      then change_heap_size (haddr p + of_nat n + HEADER - heap_start s) s else Inr s) = Inr t"
      unfolding d using True cmp t(1) by (simp only: if_True)
    ultimately show ?thesis using True w size t(3,4) live'(2) by (intro exI [of _ t]) (simp add: heap_live_def)
  qed
qed

interpretation kalloc: chunk_allocator heap_live "\<lambda>s. unat (heap_size s)" hrd hput heap_kept haddr vload set_size set_used
  "\<lambda>a s. s\<lparr>threshold := a\<rparr>" use_chunk
  "\<lambda>pos n s. if pos + n + HEADER > heap_start s + heap_size s then change_heap_size (pos + n + HEADER - heap_start s) s else Inr s"
  kmalloc_loop "\<lambda>a s. if a > threshold s then s\<lparr>threshold := a\<rparr> else s" heap_room
proof
  show "use_chunk pos n s =
       and_then (set_used pos True s) (\<lambda>s1.
       and_then (vload pos s1) (\<lambda>w.
       and_then
         (if hdr_size w = 0 then
            and_then (set_size pos n s1) (\<lambda>s2.
            and_then (set_size (pos + n) 0 s2) (\<lambda>s3.
            set_used (pos + n) False s3))
          else
            (let diff = hdr_size w - n in
             if 8 \<le>s diff then
               and_then (set_size (pos + n) diff s1) (\<lambda>s2.
               and_then (set_used (pos + n) False s2) (\<lambda>s3.
               set_size pos n s3))
             else Inr s1)) (\<lambda>s4.
       Inr (pos + HEADER, if pos + HEADER > threshold s4 then s4\<lparr>threshold := pos + HEADER\<rparr> else s4))))"
    for pos n and s :: "'a kheap_state_scheme" by (simp only: use_chunk_def Let_def)
  show "heap_kept s (if a > threshold s then s\<lparr>threshold := a\<rparr> else s)" if "heap_live s" for s :: "'a kheap_state_scheme" and a
    using that by (simp add: heap_like_def heap_kept_def heap_live_def)
  show "hrd (if a > threshold s then s\<lparr>threshold := a\<rparr> else s) k = hrd s k" for s :: "'a kheap_state_scheme" and a k by simp
qed (rule kmalloc_loop.simps, rule ensure_heap)

interpretation kcoll: chunk_collector heap_live "\<lambda>s. unat (heap_size s)" hrd hput heap_kept haddr vload set_size set_used
  "\<lambda>a s. s\<lparr>threshold := a\<rparr>" swallow merge_loop "\<lambda>pos s. pos \<ge> heap_start s + heap_size s"
proof
  show "\<not> haddr k \<ge> heap_start s + heap_size s" if "heap_live s" and "k < unat (heap_size s)" for s :: "'a kheap_state_scheme" and k
  proof -
    have sp: "heap_space s" using that(1) by (simp add: heap_live_def)
    have "k \<le> 536870912" using that(2) heap_spaceD(5) [OF sp] by simp
    then show ?thesis
      unfolding heap_end [OF sp] word_le_nat_alt unat_haddr_le [OF heap_spaceD(5) [OF sp]]
      using that(2) by (simp add: unat_haddr_le)
  qed
qed (rule swallow.simps, rule merge_loop.simps)

lemma heap_chain_iff: "heap_chain s cs \<longleftrightarrow> kheap.chain s cs"
  by (auto simp: heap_chain_def kheap.chain_def heap_live_def)

end
