(* ===== verification/Heap_Props.thy ===== *)
theory Heap_Props
  imports Kmalloc_Spec
begin

text \<open>
  The properties of the kernel heap: the contract of \<open>kmalloc\<close> and \<open>kfree\<close> in terms of the
  blocks in use, with a machine whose heap has just been initialised as the example.
\<close>

section \<open>The two operations\<close>

lemma kmalloc_search:
  assumes "heap_chain s cs" and "bytes \<noteq> 0" and "unat bytes + 31 < 4294967296"
  shows "kmalloc bytes s = kmalloc_loop (of_nat (chunk_size (unat bytes))) (haddr 0) s"
  using real_size_eq [OF assms(3)] heap_chainD(2) [OF assms(1)] heap_spaceD(4) [OF heap_chainD(1) [OF assms(1)]] assms(2)
  by (simp add: kmalloc_def)

lemma kfree_merge:
  assumes "heap_chain s cs" and "(q, m) \<in> used_blocks 0 cs"
  shows "kfree (haddr q + HEADER) s = run_then (Some (set_used (haddr q) False s)) (merge_loop (haddr 0))"
proof -
  have ch: "kheap.chain s cs" using assms(1) by (simp add: heap_chain_iff)
  have hd: "haddr q + HEADER - HEADER = haddr q" by simp
  obtain t ds where "run_then (Some (set_used (haddr q) False s)) (merge_loop (haddr 0)) = Some (Inr t)"
    using kcoll.free_correct [OF ch assms(2)] by blast
  then obtain s1 where s1: "set_used (haddr q) False s = Inr s1" by (cases "set_used (haddr q) False s") simp_all
  have sp: "heap_space s" by (rule heap_chainD(1) [OF assms(1)])
  have "heap_start s1 = heap_start s"
  proof -
    obtain pre post where "cs = pre @ (m, True) # post" and q: "q = total pre" using used_block_split [OF assms(2)] by auto
    then have b: "q < unat (heap_size s)" using kheap.chain_at(6) [of s pre m True post] ch by simp
    with s1 sp show ?thesis by auto
  qed
  then show ?thesis using s1 kcoll.block_load [OF ch assms(2)] heap_spaceD(4) [OF sp] heap_chainD(2) [OF assms(1)]
    by (simp add: kfree_def merge_free_chunks_def hd)
qed

section \<open>Initialisation\<close>

lemma kmalloc_init_ok:
  assumes ok: "vm_ok s" and off: "\<not> are_interrupts_enabled s" and small: "heap_small s"
    and size: "16 \<le> unat n" "unat n \<le> 536870912" and room: "2 * heap_pages (unat n) \<le> free_count s"
  shows "\<exists>t. kmalloc_init n s = Inr t \<and> heap_chain t [] \<and> heap_size t = n \<and>
    free_count s \<le> free_count t + 2 * heap_pages (unat n) \<and>
    page_dirs t = page_dirs s \<and> page_dir_used t = page_dir_used s \<and> managed_frames t = managed_frames s"
proof -
  let ?s1 = "s\<lparr>heap_start := KERNEL_MALLOC, heap_size := 0, threshold := 0, kmalloc_initialized := True\<rparr>"
  have sv: "same_vm ?s1 s" by (simp add: same_vm_def vm_state.truncate_def)
  note sv = same_vm_facts [OF sv]
  have z: "heap_pages 0 = 0" by (simp add: heap_pages_def)
  have "heap_space ?s1" using ok off small by (simp add: heap_space_def sv z heap_mapped_def)
  with change_heap_size_spec [of ?s1 n] size(2) room obtain t where
    t: "change_heap_size n ?s1 = Inr t" "heap_size t = n" "heap_space t" "kmalloc_initialized t"
      "free_count s \<le> free_count t + 2 * heap_pages (unat n)"
      "page_dirs t = page_dirs s" "page_dir_used t = page_dir_used s" "managed_frames t = managed_frames s"
    by (auto simp: sv z same_dirs_def managed_frames_def alloc_start_def alloc_end_def)
  have b: "0 < unat (heap_size t)" using size(1) t(2) by simp
  have "heap_chain (hput 0 0 t) []"
    using t b size(1) hrd_hput [OF t(3) b b] by (simp add: heap_chain_def)
  moreover have "kmalloc_init n s = Inr (hput 0 0 t)"
    using t(1) t(3) b heap_spaceD(4) [OF t(3)] by (simp add: kmalloc_init_def Let_def)
  moreover have "page_dirs (hput 0 0 t) = page_dirs t" "page_dir_used (hput 0 0 t) = page_dir_used t"
    "managed_frames (hput 0 0 t) = managed_frames t"
    by (simp_all add: hput_row put_row_def managed_frames_def alloc_start_def alloc_end_def)
  ultimately show ?thesis using t(2,5-8) by (intro exI [of _ "hput 0 0 t"]) simp
qed

text \<open>A machine with a heap of one page.\<close>

definition example_kheap0 :: kheap_state where
  "example_kheap0 = vm_state.extend example_vm (kheap_state.fields 0 0 0 False)"

lemma example_kheap0_facts:
  "vm_ok example_kheap0" "\<not> are_interrupts_enabled example_kheap0" "heap_small example_kheap0"
  "free_count example_kheap0 = 7168" "dirs_reserved example_kheap0"
  "page_dir_used example_kheap0 = replicate NUM_PAGE_DIRS False"
proof -
  have "same_vm example_kheap0 example_vm"
    by (simp add: same_vm_def example_kheap0_def vm_state.truncate_def vm_state.extend_def)
  note sv = same_vm_facts [OF this] and eqs = same_vm_eqs [OF this]
  have "heap_small example_vm"
    unfolding heap_small_def by (simp add: example_vm_facts boot_dir_def large_def)
  then show "vm_ok example_kheap0" "\<not> are_interrupts_enabled example_kheap0" "heap_small example_kheap0"
    "free_count example_kheap0 = 7168"
    by (simp_all add: sv example_vm_facts free_count_def)
  show "dirs_reserved example_kheap0" "page_dir_used example_kheap0 = replicate NUM_PAGE_DIRS False"
    using example_vm_facts(7,9) by (simp_all add: dirs_reserved_def page_dir_ptr_def sv eqs)
qed

definition example_kheap :: kheap_state where
  "example_kheap = (case kmalloc_init 0x1000 example_kheap0 of Inr t \<Rightarrow> t | Inl _ \<Rightarrow> example_kheap0)"

lemma example_kheap_facts:
  "kmalloc_init 0x1000 example_kheap0 = Inr example_kheap" "heap_chain example_kheap []"
  "heap_size example_kheap = 0x1000" "7166 \<le> free_count example_kheap"
  "dirs_reserved example_kheap" "page_dir_used example_kheap = replicate NUM_PAGE_DIRS False"
proof -
  have "heap_pages 4096 = 1" by (simp add: heap_pages_def)
  with kmalloc_init_ok [OF example_kheap0_facts(1-3), of "0x1000"] example_kheap0_facts(4) obtain t where
    t: "kmalloc_init 0x1000 example_kheap0 = Inr t" "heap_chain t []" "heap_size t = 0x1000"
      "7168 \<le> free_count t + 2" "page_dirs t = page_dirs example_kheap0"
      "page_dir_used t = page_dir_used example_kheap0" "managed_frames t = managed_frames example_kheap0"
    by auto
  then have "example_kheap = t" by (simp add: example_kheap_def)
  with t show "kmalloc_init 0x1000 example_kheap0 = Inr example_kheap" "heap_chain example_kheap []"
    "heap_size example_kheap = 0x1000" "7166 \<le> free_count example_kheap"
    "dirs_reserved example_kheap" "page_dir_used example_kheap = replicate NUM_PAGE_DIRS False"
    using example_kheap0_facts(5,6) by (simp_all add: dirs_reserved_def page_dir_ptr_def)
qed

section \<open>Properties\<close>

lemma kmalloc_blocks:
  assumes "heap_chain s cs" and "bytes \<noteq> 0" and "n = chunk_size (unat bytes)"
    and "total cs + n + 16 \<le> 536870912"
    and "2 * (heap_pages (total cs + n + 16) - heap_pages (unat (heap_size s))) \<le> free_count s"
    and "(q, ds) = first_fit n 0 cs"
  shows "\<exists>t. kmalloc bytes s = Some (Inr (haddr q + HEADER, t)) \<and> heap_chain t ds \<and>
    used_blocks 0 ds = insert (q, n) (used_blocks 0 cs) \<and> unat bytes + 16 \<le> n \<and>
    (\<forall>(o', m)\<in>used_blocks 0 cs. (o' + m \<le> q \<or> q + n \<le> o') \<and>
       (\<forall>k. o' + 16 \<le> k \<longrightarrow> k < o' + m \<longrightarrow> hrd t k = hrd s k))"
proof -
  have ch: "kheap.chain s cs" and room: "heap_room (total cs + n + 16) s"
    using assms(1,5) by (simp_all add: heap_chain_iff heap_room_def)
  have "unat bytes + 31 < 4294967296" using assms(3,4) chunk_size_facts(2) [of "unat bytes"] by linarith
  note eq = kmalloc_search [OF assms(1,2) this]
  show ?thesis
    using kalloc.search_correct [OF ch assms(3,4) room assms(6)] unfolding eq assms(3) heap_chain_iff by blast
qed

text \<open>C1: \<open>kmalloc\<close> is correct. On a well-formed heap, for a request that fits below the 512 MiB
  of the heap region and with enough free frames for the pages the heap may grow by, it
  returns (the loop terminates), it is first fit with splitting on the chunk list, and the
  address it returns starts a new block: the blocks in use are those of before and the new
  one, which has room for the request, overlaps no other block; the contents of all blocks
  in use are kept, and so is the well-formedness of the heap and of the page tables under it.\<close>

theorem kmalloc_correct:
  assumes "heap_chain s cs" and "bytes \<noteq> 0" and "n = chunk_size (unat bytes)"
    and "total cs + n + 16 \<le> 536870912"
    and "2 * (heap_pages (total cs + n + 16) - heap_pages (unat (heap_size s))) \<le> free_count s"
    and "(q, ds) = first_fit n 0 cs"
  shows "\<exists>t. kmalloc bytes s = Some (Inr (haddr q + HEADER, t)) \<and> heap_chain t ds \<and>
    used_blocks 0 ds = insert (q, n) (used_blocks 0 cs) \<and> unat bytes + 16 \<le> n \<and>
    (\<forall>(o', m)\<in>used_blocks 0 cs. (o' + m \<le> q \<or> q + n \<le> o') \<and>
       (\<forall>k. o' + 16 \<le> k \<longrightarrow> k < o' + m \<longrightarrow> hrd t k = hrd s k))"
  by (rule kmalloc_blocks [OF assms])

theorem kmalloc_correct_witness:
  "\<exists>t. kmalloc 100 example_kheap = Some (Inr (haddr 0 + HEADER, t)) \<and> used_blocks 0 [(128, True)] = {(0, 128)} \<and>
     heap_chain t [(128, True)]"
proof -
  have "chunk_size (unat (100 :: u32)) = 128" by (simp add: chunk_size_def)
  with kmalloc_correct [OF example_kheap_facts(2), of 100 128 0 "[(128, True)]"] example_kheap_facts(3)
  show ?thesis by (auto simp: heap_pages_def)
qed

text \<open>C2: \<open>kfree\<close> is correct. Given the address of a block in use it returns (the loops
  terminate); afterwards the blocks in use are those of before but this one, their contents
  are kept, no free chunk is followed by another free chunk or by the end of the chain, and
  the heap is well formed.\<close>

theorem kfree_correct:
  assumes "heap_chain s cs" and "(q, m) \<in> used_blocks 0 cs"
  shows "\<exists>t ds. kfree (haddr q + HEADER) s = Some (Inr t) \<and> heap_chain t ds \<and> compact ds \<and>
    used_blocks 0 ds = used_blocks 0 cs - {(q, m)} \<and>
    (\<forall>(q', m')\<in>used_blocks 0 ds. \<forall>k. q' \<le> k \<longrightarrow> k < q' + m' \<longrightarrow> hrd t k = hrd s k)"
proof -
  have "kheap.chain s cs" using assms(1) by (simp add: heap_chain_iff)
  from kcoll.free_correct [OF this assms(2)] show ?thesis
    unfolding kfree_merge [OF assms] heap_chain_iff by blast
qed

theorem kfree_correct_witness:
  "\<exists>s t. kmalloc 100 example_kheap = Some (Inr (haddr 0 + HEADER, s)) \<and> kfree (haddr 0 + HEADER) s = Some (Inr t)"
proof -
  have n: "chunk_size (unat (100 :: u32)) = 128" by (simp add: chunk_size_def)
  have "heap_room (total [] + 128 + 16) example_kheap" "kheap.chain example_kheap []"
    using example_kheap_facts by (simp_all add: heap_room_def heap_pages_def heap_chain_iff)
  then obtain s where s: "kmalloc_loop (of_nat 128) (haddr 0) example_kheap = Some (Inr (haddr 0 + HEADER, s))"
    "kheap.chain s [(128, True)]"
    using kalloc.search_correct [of example_kheap "[]" 128 100 0 "[(128, True)]"] by (auto simp: chunk_size_def)
  have "kmalloc 100 example_kheap = Some (Inr (haddr 0 + HEADER, s))"
    using kmalloc_search [OF example_kheap_facts(2), of 100] s(1) n by simp
  then show ?thesis using kfree_correct [of s "[(128, True)]" 0 128] s(2) by (auto simp: heap_chain_iff)
qed

text \<open>C3: Freeing undoes allocating. On a heap whose free chunks are coalesced, giving back the
  block that \<open>kmalloc\<close> has just returned restores the chunk list.\<close>

theorem kfree_undoes_kmalloc:
  assumes "heap_chain s cs" and "compact cs" and "bytes \<noteq> 0"
    and "total cs + chunk_size (unat bytes) + 16 \<le> 536870912"
    and "2 * (heap_pages (total cs + chunk_size (unat bytes) + 16) - heap_pages (unat (heap_size s))) \<le> free_count s"
  shows "\<exists>a t u. kmalloc bytes s = Some (Inr (a, t)) \<and> kfree a t = Some (Inr u) \<and> heap_chain u cs"
proof -
  let ?n = "chunk_size (unat bytes)"
  obtain q ds where ff: "(q, ds) = first_fit ?n 0 cs" by (metis surj_pair)
  have ch: "kheap.chain s cs" and room: "heap_room (total cs + ?n + 16) s"
    using assms(1,5) by (simp_all add: heap_chain_iff heap_room_def)
  obtain t where t: "kmalloc bytes s = Some (Inr (haddr q + HEADER, t))" "heap_chain t ds"
    "used_blocks 0 ds = insert (q, ?n) (used_blocks 0 cs)"
    using kmalloc_blocks [OF assms(1,3) refl assms(4,5) ff] by blast
  obtain pre post where ds: "ds = pre @ (?n, True) # post" "q = total pre" "coal (pre @ (?n, False) # post) = cs"
    using first_fit_coal [OF assms(2) ff [symmetric]] by auto
  have "kheap.chain t (pre @ (?n, True) # post)" using t(2) ds(1) by (simp add: heap_chain_iff)
  from kcoll.free_refines [OF this] obtain u where
    "run_then (Some (set_used (haddr q) False t)) (merge_loop (haddr 0)) = Some (Inr u)" "heap_chain u cs"
    unfolding ds(2,3) heap_chain_iff by blast
  moreover have "(q, ?n) \<in> used_blocks 0 ds" using t(3) by simp
  ultimately show ?thesis using t(1) kfree_merge [OF t(2)] by auto
qed

theorem kfree_undoes_kmalloc_witness:
  "\<exists>a t u. kmalloc 100 example_kheap = Some (Inr (a, t)) \<and> kfree a t = Some (Inr u) \<and> heap_chain u []"
  using kfree_undoes_kmalloc [OF example_kheap_facts(2), of 100] example_kheap_facts(3)
  by (auto simp: chunk_size_def heap_pages_def)

end
