(* ===== verification/Kern_State.thy ===== *)
theory Kern_State
  imports Heap_Props
begin

text \<open>
  The kernel's own tables, as one record that extends the memory state: shared-memory objects
  and mapping pools (\<open>sharedmem.c\<close>), tasks (\<open>tasks.c\<close>), the programmable timer
  (\<open>pit.c\<close>) and the event buffers that the kernel shares with its tasks (\<open>events.c\<close>).
  Static tables are lists of their declared length; a pointer into a table is an index.
\<close>

section \<open>Limits\<close>

definition MAX_TASKS :: nat where "MAX_TASKS = 64"

definition MAX_TIMERS :: nat where "MAX_TIMERS = 4"

definition MAX_SHARED_MEMORY_OBJS :: nat where "MAX_SHARED_MEMORY_OBJS = 256"

definition MAX_SHARED_MEMORY_MAPPINGS :: nat where "MAX_SHARED_MEMORY_MAPPINGS = 128"

definition MAX_OPEN_FILES :: nat where "MAX_OPEN_FILES = 16"

definition MAX_SHARED_LIBS_PER_TASK :: nat where "MAX_SHARED_LIBS_PER_TASK = 16"

definition EVENT_BUFFER_SIZE :: nat where "EVENT_BUFFER_SIZE = 256"

section \<open>Shared memory\<close>

record shmem_obj =
  size_in_pages :: u32
  physical_pages :: u32
  owner_task_id :: u32

record shmem_mapping =
  vaddr :: u32
  mapped_obj :: u32

text \<open>\<open>num\<close> is an \<open>int\<close> that the code keeps between 0 and the length of \<open>mappings\<close>.\<close>

record mapping_pool =
  mappings :: "shmem_mapping list"
  num :: nat
  vaddr_start :: u32

definition no_shmem :: shmem_obj where
  "no_shmem = \<lparr>size_in_pages = 0, physical_pages = 0, owner_task_id = 0\<rparr>"

definition no_mapping :: shmem_mapping where
  "no_mapping = \<lparr>vaddr = 0, mapped_obj = 0\<rparr>"

definition no_pool :: mapping_pool where
  "no_pool = \<lparr>mappings = replicate MAX_SHARED_MEMORY_MAPPINGS no_mapping, num = 0, vaddr_start = 0\<rparr>"

section \<open>Events and timers\<close>

definition EVENT_NONE :: u32 where "EVENT_NONE = 0"

definition EVENT_KEYBOARD :: u32 where "EVENT_KEYBOARD = 1"

definition EVENT_MOUSE_CLICK :: u32 where "EVENT_MOUSE_CLICK = 2"

definition EVENT_MOUSE_MOVE :: u32 where "EVENT_MOUSE_MOVE = 3"

definition EVENT_TIMER :: u32 where "EVENT_TIMER = 4"

record event =
  ev_type :: u32
  data0 :: u32
  data1 :: u32
  data2 :: u32

record event_buf =
  num_events :: u32
  ev_buffer :: "event list"

record timer =
  interval :: u32
  next_fire :: u64
  active :: bool

definition no_timer :: timer where
  "no_timer = \<lparr>interval = 0, next_fire = 0, active = False\<rparr>"

section \<open>Tasks\<close>

definition TASK_STATE_DEAD :: u32 where "TASK_STATE_DEAD = 0"

definition TASK_STATE_READY :: u32 where "TASK_STATE_READY = 1"

definition TASK_STATE_IDLE :: u32 where "TASK_STATE_IDLE = 2"

definition TASK_STATE_WAIT_FOR_EVENT :: u32 where "TASK_STATE_WAIT_FOR_EVENT = 3"

definition TASK_STATE_WAIT_FOR_REDRAW :: u32 where "TASK_STATE_WAIT_FOR_REDRAW = 4"

lemmas task_states = TASK_STATE_DEAD_def TASK_STATE_READY_def TASK_STATE_IDLE_def
  TASK_STATE_WAIT_FOR_EVENT_def TASK_STATE_WAIT_FOR_REDRAW_def

text \<open>The file system's structures \<open>FIL\<close> and \<open>DIR\<close> are opaque words to the kernel, except for the
  pointer \<open>obj.fs\<close> of a file, which is null while the structure is not in use.\<close>

record fil =
  obj_fs :: u32
  fil_words :: "nat \<Rightarrow> u32"

type_synonym dir = "nat \<Rightarrow> u32"

definition no_fil :: fil where
  "no_fil = \<lparr>obj_fs = 0, fil_words = (\<lambda>_. 0)\<rparr>"

text \<open>A shared library in use by a task (\<open>slib.h\<close>): its index in \<open>loaded_shared_libs\<close>, with \<open>None\<close>
  for a null pointer, and the address at which it is loaded.\<close>

record open_slib =
  slib :: "nat option"
  slib_offset :: u32

definition no_slib :: open_slib where
  "no_slib = \<lparr>slib = None, slib_offset = 0\<rparr>"

record task =
  task_id :: u32
  kesp :: u32
  kesp0 :: u32
  pagedir :: u32
  is_kernel_task :: bool
  task_state :: u32
  open_files :: "fil list"
  event_buffer :: u32
  event_shmem_id :: u32
  task_shmem :: mapping_pool
  task_heap_start :: u32
  task_heap_end :: u32
  open_dir :: dir
  timers :: "timer list"
  slibs :: "open_slib list"
  task_name :: string

text \<open>A task after \<open>memset(task, 0, sizeof(Task))\<close>.\<close>

definition no_task :: task where
  "no_task = \<lparr>task_id = 0, kesp = 0, kesp0 = 0, pagedir = 0, is_kernel_task = False,
     task_state = TASK_STATE_DEAD, open_files = replicate MAX_OPEN_FILES no_fil, event_buffer = 0, event_shmem_id = 0, task_shmem = no_pool,
     task_heap_start = 0, task_heap_end = 0, open_dir = (\<lambda>_. 0), timers = replicate MAX_TIMERS no_timer,
     slibs = replicate MAX_SHARED_LIBS_PER_TASK no_slib, task_name = []\<rparr>"

section \<open>The state\<close>

text \<open>\<open>event_bufs a\<close> is the \<open>EventBuffer\<close> object in the shared memory whose kernel address is
  \<open>a\<close>; the task that it belongs to reads the same object through its own mapping.\<close>

record kern_state = kheap_state +
  shmem :: "shmem_obj list"
  kernel_shmem_mappings :: mapping_pool
  tasks :: "task list"
  num_tasks :: int
  current_task :: nat
  current_task_index :: nat
  tss_esp0 :: u32
  event_bufs :: "u32 \<Rightarrow> event_buf"
  pit_ticks :: u64
  pit_freq :: u32
  pit_enabled :: bool

text \<open>The current task's record and updates of a task.\<close>

definition cur :: "'a kern_state_scheme \<Rightarrow> task" where
  "cur s = tasks s ! current_task s"

definition upd_task :: "nat \<Rightarrow> (task \<Rightarrow> task) \<Rightarrow> 'a kern_state_scheme \<Rightarrow> 'a kern_state_scheme" where
  "upd_task i f s = s\<lparr>tasks := (tasks s)[i := f (tasks s ! i)]\<rparr>"

text \<open>\<open>get_task_index\<close> and \<open>get_task\<close>; a task id outside the table is an access outside it.\<close>

definition get_task_index :: "u32 \<Rightarrow> nat res" where
  "get_task_index tid = kassert (1000 \<le>s tid) (Inr (unat (tid - 1000)))"

definition get_task :: "u32 \<Rightarrow> 'a kern_state_scheme \<Rightarrow> nat res" where
  "get_task tid s = and_then (get_task_index tid) (\<lambda>i. in_bounds i (length (tasks s)) (Inr i))"

lemma upd_task_simps [simp]:
  "tasks (upd_task i f s) = (tasks s)[i := f (tasks s ! i)]"
  "current_task (upd_task i f s) = current_task s" "num_tasks (upd_task i f s) = num_tasks s"
  "shmem (upd_task i f s) = shmem s" "event_bufs (upd_task i f s) = event_bufs s"
  "current_task_index (upd_task i f s) = current_task_index s"
  "kernel_shmem_mappings (upd_task i f s) = kernel_shmem_mappings s"
  by (simp_all add: upd_task_def)

end
