(* ===== verification/Sharedmem.thy ===== *)
theory Sharedmem
  imports Kern_State
begin

text \<open>
  Shared memory (\<open>kernel/sharedmem.c\<close>): objects made of physical frames, and the pools of
  mappings of the kernel and of each task, in which an object is placed behind the last
  mapping. The list of an object's frames is an array in the kernel heap.
\<close>

section \<open>Pools\<close>

definition KERNEL_SHARED_MEMORY :: u32 where "KERNEL_SHARED_MEMORY = 0xF0000000"

definition USER_SHARED_MEMORY :: u32 where "USER_SHARED_MEMORY = 0xB0000000"

definition sharedmem_init :: "'a kern_state_scheme \<Rightarrow> 'a kern_state_scheme" where
  "sharedmem_init s =
     s\<lparr>shmem := replicate MAX_SHARED_MEMORY_OBJS no_shmem,
       kernel_shmem_mappings := no_pool\<lparr>vaddr_start := KERNEL_SHARED_MEMORY\<rparr>\<rparr>"

definition sharedmem_exists :: "u32 \<Rightarrow> shmem_obj list \<Rightarrow> bool" where
  "sharedmem_exists oid objs \<longleftrightarrow>
     \<not> (oid <s 0 \<or> of_nat MAX_SHARED_MEMORY_OBJS \<le>s oid) \<and> size_in_pages (objs ! unat oid) \<noteq> 0"

definition find_available_shmem_slot :: "shmem_obj list \<Rightarrow> nat res" where
  "find_available_shmem_slot objs =
     (case first_index (\<lambda>i. \<not> sharedmem_exists (of_nat i) objs) MAX_SHARED_MEMORY_OBJS of
        Some i \<Rightarrow> Inr i | None \<Rightarrow> Inl Assert_Failed)"

text \<open>The address behind the last mapping.\<close>

definition next_vaddr :: "shmem_obj list \<Rightarrow> mapping_pool \<Rightarrow> u32 res" where
  "next_vaddr objs pool =
     (if num pool > 0 then
        let prev = mappings pool ! (num pool - 1) in
        in_bounds (unat (mapped_obj prev)) (length objs)
          (Inr (vaddr prev + size_in_pages (objs ! unat (mapped_obj prev)) * 0x1000))
      else Inr (vaddr_start pool))"

definition insert_into_pool :: "u32 \<Rightarrow> shmem_obj list \<Rightarrow> mapping_pool \<Rightarrow> (shmem_mapping \<times> mapping_pool) res" where
  "insert_into_pool shmem_id objs pool =
     kassert (num pool < MAX_SHARED_MEMORY_MAPPINGS)
       (and_then (next_vaddr objs pool) (\<lambda>va.
        let mapping = \<lparr>vaddr = va, mapped_obj = shmem_id\<rparr> in
        Inr (mapping, pool\<lparr>mappings := (mappings pool)[num pool := mapping], num := num pool + 1\<rparr>)))"

definition remove_from_pool :: "nat \<Rightarrow> mapping_pool \<Rightarrow> mapping_pool res" where
  "remove_from_pool index pool =
     kassert (index < num pool)
       (Inr (pool\<lparr>mappings := shift_left index (num pool - 1) (mappings pool),
                  num := num pool - 1\<rparr>))"

text \<open>\<open>&kernel_shmem_mappings\<close> or \<open>&task->shmem\<close>.\<close>

datatype pool_ref = Kernel_Pool | Task_Pool nat

definition pool_of :: "u32 \<Rightarrow> 'a kern_state_scheme \<Rightarrow> pool_ref res" where
  "pool_of tid s =
     (if tid = 0 then Inr Kernel_Pool else and_then (get_task tid s) (\<lambda>i. Inr (Task_Pool i)))"

fun pool_at :: "pool_ref \<Rightarrow> 'a kern_state_scheme \<Rightarrow> mapping_pool" where
  "pool_at Kernel_Pool s = kernel_shmem_mappings s"
| "pool_at (Task_Pool i) s = task_shmem (tasks s ! i)"

fun set_pool :: "pool_ref \<Rightarrow> mapping_pool \<Rightarrow> 'a kern_state_scheme \<Rightarrow> 'a kern_state_scheme" where
  "set_pool Kernel_Pool p s = s\<lparr>kernel_shmem_mappings := p\<rparr>"
| "set_pool (Task_Pool i) p s = upd_task i (\<lambda>t. t\<lparr>task_shmem := p\<rparr>) s"

section \<open>Objects\<close>

definition sharedmem_create :: "u32 \<Rightarrow> u32 \<Rightarrow> 'a kern_state_scheme \<Rightarrow> (nat \<times> 'a kern_state_scheme) run" where
  "sharedmem_create sz task s =
     run_then (Some (verify_interrupts_disabled s (kassert (sz \<noteq> 0) (find_available_shmem_slot (shmem s))))) (\<lambda>oid.
     let num_pages = CEIL_DIV sz 0x1000;
         s1 = s\<lparr>shmem := (shmem s)[oid := (shmem s ! oid)\<lparr>size_in_pages := num_pages\<rparr>]\<rparr> in
     run_then (kmalloc (num_pages * 4) s1) (\<lambda>(pages, s2).
     let s3 = s2\<lparr>shmem := (shmem s2)[oid := (shmem s2 ! oid)\<lparr>physical_pages := pages, owner_task_id := task\<rparr>]\<rparr> in
     run_then
       (Some (for_res 0 (unat num_pages) (\<lambda>i t.
          and_then (pmm_alloc_pageframe t) (\<lambda>(phys, t1). vstore (elem pages i) phys t1)) s3)) (\<lambda>s4.
     Some (Inr (oid, s4)))))"

text \<open>The switch to the task's directory around the page-table updates.\<close>

definition in_task_dir :: "u32 \<Rightarrow> ('a kern_state_scheme \<Rightarrow> 'a kern_state_scheme res) \<Rightarrow>
    'a kern_state_scheme \<Rightarrow> 'a kern_state_scheme res" where
  "in_task_dir tid body s =
     (if tid \<noteq> 0 then
        let prev_pd = mem_get_current_page_directory s in
        and_then (get_task tid s) (\<lambda>i.
        and_then (mem_change_page_directory (pagedir (tasks s ! i)) s) (\<lambda>s1.
        and_then (body s1) (mem_change_page_directory prev_pd)))
      else body s)"

definition sharedmem_map :: "u32 \<Rightarrow> u32 \<Rightarrow> 'a kern_state_scheme \<Rightarrow> (u32 \<times> 'a kern_state_scheme) res" where
  "sharedmem_map oid tid s =
     verify_interrupts_disabled s (kassert (sharedmem_exists oid (shmem s))
       (and_then (pool_of tid s) (\<lambda>r.
        and_then (insert_into_pool oid (shmem s) (pool_at r s)) (\<lambda>(mapping, p).
        let obj = shmem s ! unat oid;
            flags = (if tid = 0 then PAGE_FLAG_WRITE else PAGE_FLAG_WRITE OR PAGE_FLAG_USER) in
        and_then
          (in_task_dir tid
            (for_res 0 (unat (size_in_pages obj)) (\<lambda>i t.
               and_then (vload (elem (physical_pages obj) i) t) (\<lambda>phys.
               mem_map_page (vaddr mapping + of_nat i * 0x1000) phys flags t)))
            (set_pool r p s)) (\<lambda>s2.
        kassert (vaddr mapping \<noteq> 0) (Inr (vaddr mapping, s2)))))))"

text \<open>The first mapping of an object in a pool.\<close>

definition find_mapping :: "u32 \<Rightarrow> mapping_pool \<Rightarrow> nat option" where
  "find_mapping oid p = first_index (\<lambda>i. mapped_obj (mappings p ! i) = oid) (num p)"

definition sharedmem_unmap :: "u32 \<Rightarrow> u32 \<Rightarrow> 'a kern_state_scheme \<Rightarrow> 'a kern_state_scheme res" where
  "sharedmem_unmap oid tid s =
     verify_interrupts_disabled s (kassert (sharedmem_exists oid (shmem s))
       (and_then (pool_of tid s) (\<lambda>r.
        case find_mapping oid (pool_at r s) of
          None \<Rightarrow> Inl Assert_Failed
        | Some index \<Rightarrow>
            let obj = shmem s ! unat oid; mapping = mappings (pool_at r s) ! index in
            and_then
              (in_task_dir tid
                (for_res 0 (unat (size_in_pages obj)) (\<lambda>i t.
                   and_then (mem_unmap_page (vaddr mapping + 0x1000 * of_nat i) t) (\<lambda>(pte, t1). Inr t1))) s) (\<lambda>s1.
            and_then (remove_from_pool index (pool_at r s1)) (\<lambda>p. Inr (set_pool r p s1))))))"

text \<open>The loops of \<open>sharedmem_destroy\<close> over one pool: \<open>pool->num\<close> is read again in every
  iteration, and \<open>sharedmem_unmap\<close> lowers it.\<close>

function unmap_pool :: "u32 \<Rightarrow> u32 \<Rightarrow> pool_ref \<Rightarrow> nat \<Rightarrow> 'a kern_state_scheme \<Rightarrow> 'a kern_state_scheme res" where
  "unmap_pool oid tid r i s =
     (if i < num (pool_at r s) then
        if i < MAX_SHARED_MEMORY_MAPPINGS then
          if mapped_obj (mappings (pool_at r s) ! i) = oid
          then and_then (sharedmem_unmap oid tid s) (unmap_pool oid tid r (Suc i))
          else unmap_pool oid tid r (Suc i) s
        else Inl Out_Of_Bounds
      else Inr s)"
  by pat_completeness auto
termination
  by (relation "measure (\<lambda>(oid, tid, r, i, s). MAX_SHARED_MEMORY_MAPPINGS - i)") auto

declare unmap_pool.simps [simp del]

definition sharedmem_destroy :: "u32 \<Rightarrow> 'a kern_state_scheme \<Rightarrow> 'a kern_state_scheme run" where
  "sharedmem_destroy oid s =
     run_then (Some (verify_interrupts_disabled s (kassert (sharedmem_exists oid (shmem s)) (Inr s)))) (\<lambda>s0.
     run_then
       (Some (for_res 0 MAX_TASKS (\<lambda>t u.
          if task_state (tasks u ! t) = TASK_STATE_DEAD then Inr u
          else unmap_pool oid (task_id (tasks u ! t)) (Task_Pool t) 0 u) s0)) (\<lambda>s1.
     run_then (Some (unmap_pool oid 0 Kernel_Pool 0 s1)) (\<lambda>s2.
     let obj = shmem s2 ! unat oid in
     run_then
       (Some (for_res 0 (unat (size_in_pages obj)) (\<lambda>i u.
          and_then (vload (elem (physical_pages obj) i) u) (\<lambda>phys. pmm_free_pageframe phys u)) s2)) (\<lambda>s3.
     run_then (kfree (physical_pages (shmem s3 ! unat oid)) s3) (\<lambda>s4.
     Some (Inr (s4\<lparr>shmem := (shmem s4)[unat oid := no_shmem]\<rparr>)))))))"

end
