(* ===== verification/Sharedmem_Pools.thy ===== *)
theory Sharedmem_Pools
  imports Sharedmem
begin

text \<open>
  The mapping pools of \<open>kernel/sharedmem.c\<close> as lists of regions of the address space: the
  regions in use are ordered and disjoint, insertion puts a region behind the last one, and
  removal takes out one region and keeps the order of the others.
\<close>

section \<open>Regions\<close>

definition active_mappings :: "mapping_pool \<Rightarrow> shmem_mapping list" where
  "active_mappings p = take (num p) (mappings p)"

definition region_size :: "shmem_obj list \<Rightarrow> shmem_mapping \<Rightarrow> nat" where
  "region_size objs m = unat (size_in_pages (objs ! unat (mapped_obj m))) * 4096"

definition region_end :: "shmem_obj list \<Rightarrow> shmem_mapping \<Rightarrow> nat" where
  "region_end objs m = unat (vaddr m) + region_size objs m"

definition region :: "shmem_obj list \<Rightarrow> shmem_mapping \<Rightarrow> nat set" where
  "region objs m = {unat (vaddr m)..<region_end objs m}"

definition mapping_ok :: "shmem_obj list \<Rightarrow> u32 \<Rightarrow> shmem_mapping \<Rightarrow> bool" where
  "mapping_ok objs start m \<longleftrightarrow> unat (mapped_obj m) < length objs \<and>
     4096 dvd unat (vaddr m) \<and> unat start \<le> unat (vaddr m) \<and> region_end objs m < 2 ^ 32"

definition pool_ok :: "shmem_obj list \<Rightarrow> mapping_pool \<Rightarrow> bool" where
  "pool_ok objs p \<longleftrightarrow> length (mappings p) = MAX_SHARED_MEMORY_MAPPINGS \<and> num p \<le> MAX_SHARED_MEMORY_MAPPINGS \<and>
     4096 dvd unat (vaddr_start p) \<and> (\<forall>m\<in>set (active_mappings p). mapping_ok objs (vaddr_start p) m) \<and>
     sorted_wrt (\<lambda>m m'. region_end objs m \<le> unat (vaddr m')) (active_mappings p)"

definition pool_top :: "shmem_obj list \<Rightarrow> mapping_pool \<Rightarrow> nat" where
  "pool_top objs p =
     (if active_mappings p = [] then unat (vaddr_start p) else region_end objs (last (active_mappings p)))"

lemma active_length: "pool_ok objs p \<Longrightarrow> length (active_mappings p) = num p"
  by (simp add: pool_ok_def active_mappings_def)

lemma pool_okI:
  assumes "length (mappings p) = MAX_SHARED_MEMORY_MAPPINGS" and "num p \<le> MAX_SHARED_MEMORY_MAPPINGS"
    and "4096 dvd unat (vaddr_start p)"
    and "\<And>m. m \<in> set (active_mappings p) \<Longrightarrow> mapping_ok objs (vaddr_start p) m"
    and "sorted_wrt (\<lambda>m m'. region_end objs m \<le> unat (vaddr m')) (active_mappings p)"
  shows "pool_ok objs p"
  using assms by (simp add: pool_ok_def)

lemma pool_init_ok: "4096 dvd unat start \<Longrightarrow> pool_ok objs (no_pool\<lparr>vaddr_start := start\<rparr>)"
  by (rule pool_okI) (simp_all add: no_pool_def active_mappings_def)

text \<open>Every region ends at or below the top.\<close>

lemma region_below_top:
  assumes "pool_ok objs p" and "m \<in> set (active_mappings p)"
  shows "region_end objs m \<le> pool_top objs p"
proof -
  let ?xs = "active_mappings p"
  obtain ys y where xs: "?xs = ys @ [y]" using assms(2) by (cases ?xs rule: rev_cases) auto
  then have top: "pool_top objs p = region_end objs y" by (simp add: pool_top_def)
  have y: "unat (vaddr y) \<le> region_end objs y" by (simp add: region_end_def)
  from assms(1) have "\<forall>z\<in>set ys. region_end objs z \<le> unat (vaddr y)"
    unfolding pool_ok_def xs by (simp add: sorted_wrt_append)
  with assms(2) y show ?thesis unfolding top xs by (auto intro: order_trans)
qed

lemma pool_top_bounds:
  assumes "pool_ok objs p"
  shows "unat (vaddr_start p) \<le> pool_top objs p" and "4096 dvd pool_top objs p"
proof -
  have "unat (vaddr_start p) \<le> pool_top objs p \<and> 4096 dvd pool_top objs p"
  proof (cases "active_mappings p = []")
    case True
    then show ?thesis using assms by (simp add: pool_top_def pool_ok_def)
  next
    case False
    then have "mapping_ok objs (vaddr_start p) (last (active_mappings p))" using assms by (simp add: pool_ok_def)
    then show ?thesis using False by (simp add: pool_top_def mapping_ok_def region_end_def region_size_def)
  qed
  then show "unat (vaddr_start p) \<le> pool_top objs p" "4096 dvd pool_top objs p" by simp_all
qed

lemma next_vaddr_top:
  assumes "pool_ok objs p"
  shows "next_vaddr objs p = Inr (of_nat (pool_top objs p))"
proof (cases "num p = 0")
  case True
  then show ?thesis by (simp add: next_vaddr_def pool_top_def active_mappings_def)
next
  case False
  let ?m = "mappings p ! (num p - 1)"
  have len: "num p \<le> length (mappings p)" using assms by (simp add: pool_ok_def)
  have ne: "active_mappings p \<noteq> []" using False len by (auto simp: active_mappings_def)
  have last: "last (active_mappings p) = ?m" "active_mappings p \<noteq> []"
    using ne False len last_conv_nth [OF ne] by (simp_all add: active_mappings_def min_absorb2)
  then have "mapping_ok objs (vaddr_start p) ?m"
    using assms last_in_set [of "active_mappings p"] by (simp add: pool_ok_def)
  then have "unat (mapped_obj ?m) < length objs" by (simp add: mapping_ok_def)
  then show ?thesis
    using False last by (simp add: next_vaddr_def pool_top_def region_end_def region_size_def Let_def)
qed

section \<open>Insertion and removal\<close>

lemma insert_into_pool_spec:
  assumes ok: "pool_ok objs p" and room: "num p < MAX_SHARED_MEMORY_MAPPINGS"
    and obj: "unat oid < length objs"
    and fits: "pool_top objs p + unat (size_in_pages (objs ! unat oid)) * 4096 < 2 ^ 32"
  shows "\<exists>m p'. insert_into_pool oid objs p = Inr (m, p') \<and> mapped_obj m = oid \<and>
    unat (vaddr m) = pool_top objs p \<and> active_mappings p' = active_mappings p @ [m] \<and>
    vaddr_start p' = vaddr_start p \<and> num p' = num p + 1 \<and> pool_ok objs p' \<and>
    (\<forall>m'\<in>set (active_mappings p). region objs m' \<inter> region objs m = {})"
proof -
  let ?m = "\<lparr>vaddr = of_nat (pool_top objs p), mapped_obj = oid\<rparr>"
  obtain q where q: "q = p\<lparr>mappings := (mappings p)[num p := ?m], num := num p + 1\<rparr>" by blast
  have ins: "insert_into_pool oid objs p = Inr (?m, q)"
    using room by (simp add: insert_into_pool_def next_vaddr_top [OF ok] Let_def q)
  have fields: "vaddr_start q = vaddr_start p" "num q = num p + 1" "length (mappings q) = length (mappings p)"
    by (simp_all add: q)
  have va: "unat (vaddr ?m) = pool_top objs p" using fits by (simp add: unat_of_nat_small)
  have len: "num p < length (mappings p)" using ok room by (simp add: pool_ok_def)
  have act: "active_mappings q = active_mappings p @ [?m]"
    using len by (simp add: q active_mappings_def take_Suc_conv_app_nth)
  have "mapping_ok objs (vaddr_start p) ?m"
    using obj fits pool_top_bounds [OF ok] va by (simp add: mapping_ok_def region_end_def region_size_def)
  then have "pool_ok objs q"
    using ok room va region_below_top [OF ok] by (simp add: pool_ok_def act sorted_wrt_append fields)
  moreover have "region objs m' \<inter> region objs ?m = {}" if "m' \<in> set (active_mappings p)" for m'
    using region_below_top [OF ok that] va by (auto simp: region_def)
  ultimately show ?thesis using ins va act fields by fastforce
qed

lemma remove_from_pool_spec:
  assumes ok: "pool_ok objs p" and i: "i < num p"
  shows "\<exists>p'. remove_from_pool i p = Inr p' \<and>
    active_mappings p' = take i (active_mappings p) @ drop (Suc i) (active_mappings p) \<and>
    vaddr_start p' = vaddr_start p \<and> num p' = num p - 1 \<and> pool_ok objs p'"
proof -
  let ?p = "p\<lparr>mappings := shift_left i (num p - 1) (mappings p), num := num p - 1\<rparr>"
  let ?xs = "active_mappings p"
  have r: "remove_from_pool i p = Inr ?p" using i by (simp add: remove_from_pool_def)
  have len: "num p \<le> length (mappings p)" using ok by (simp add: pool_ok_def)
  have act: "active_mappings ?p = take i ?xs @ drop (Suc i) ?xs"
    using take_shift_left [OF i len] i by (simp add: active_mappings_def min_absorb1)
  have split: "?xs = take i ?xs @ ?xs ! i # drop (Suc i) ?xs"
    using i active_length [OF ok] by (simp add: id_take_nth_drop)
  have "sorted_wrt (\<lambda>m m'. region_end objs m \<le> unat (vaddr m')) (take i ?xs @ ?xs ! i # drop (Suc i) ?xs)"
    using ok unfolding pool_ok_def split [symmetric] by blast
  then have "sorted_wrt (\<lambda>m m'. region_end objs m \<le> unat (vaddr m')) (active_mappings ?p)"
    unfolding act by (simp add: sorted_wrt_append)
  moreover have "set (active_mappings ?p) \<subseteq> set ?xs"
    unfolding act using set_take_subset set_drop_subset by fastforce
  ultimately have "pool_ok objs ?p" using ok i by (auto simp: pool_ok_def)
  with r act show ?thesis by simp
qed

text \<open>The first slot without an object.\<close>

interpretation shmem_slots: slot_search "\<lambda>objs i. \<not> sharedmem_exists (of_nat i) objs" MAX_SHARED_MEMORY_OBJS
    find_available_shmem_slot
  by unfold_locales (simp add: find_available_shmem_slot_def)

lemma sharedmem_exists_nth:
  "i < MAX_SHARED_MEMORY_OBJS \<Longrightarrow> sharedmem_exists (of_nat i) objs \<longleftrightarrow> size_in_pages (objs ! i) \<noteq> 0"
proof -
  assume i: "i < MAX_SHARED_MEMORY_OBJS"
  then have u: "unat (of_nat i :: u32) = i" by (simp add: unat_of_nat_small MAX_SHARED_MEMORY_OBJS_def)
  have s: "sint (of_nat i :: u32) = int i"
    using i by (simp add: MAX_SHARED_MEMORY_OBJS_def sint_uint signed_take_bit_int_eq_self u uint_nat)
  show ?thesis using i by (simp add: sharedmem_exists_def word_sless_alt word_sle_eq s u MAX_SHARED_MEMORY_OBJS_def)
qed

end
