(* ===== verification/Sharedmem_Props.thy ===== *)
theory Sharedmem_Props
  imports Sharedmem_Pools
begin

text \<open>
  Mapping a shared-memory object: the loop of \<open>sharedmem_map\<close> over the object's frames, and
  the composition of the pool, the list of frames in the kernel heap and the page tables, for a
  mapping into the kernel's part of the address space and for one into the directory of a task.
\<close>

section \<open>Page addresses\<close>

definition page_addr :: "nat \<Rightarrow> u32" where
  "page_addr p = of_nat (4096 * p)"

lemma unat_page_addr: "p < 1048576 \<Longrightarrow> unat (page_addr p) = 4096 * p"
  unfolding page_addr_def by (rule unat_of_nat_small) simp

lemma page_addr_index:
  assumes "p < 1048576"
  shows "pd_index (page_addr p) = p div 1024" "pt_index (page_addr p) = p mod 1024"
proof -
  have "pd_index (page_addr p) = 4096 * p div (4096 * 1024)"
    using unat_page_addr [OF assms] by (simp add: pd_index_div)
  also have "\<dots> = p div 1024" by (simp only: div_mult2_eq)
  finally show "pd_index (page_addr p) = p div 1024" .
  show "pt_index (page_addr p) = p mod 1024" using unat_page_addr [OF assms] by (simp add: pt_index_div)
qed

lemma page_addr_add: "page_addr p + of_nat i * 0x1000 = page_addr (p + i)"
  by (simp add: page_addr_def algebra_simps)

lemma page_addr_kernel: "786432 \<le> p \<Longrightarrow> p < 1048576 \<Longrightarrow> KERNEL_START \<le> page_addr p"
  using unat_page_addr [of p] by (simp add: KERNEL_START_def word_le_nat_alt)

lemma page_split: "b < 1024 \<Longrightarrow> a = p div 1024 \<and> b = p mod 1024 \<longleftrightarrow> a * 1024 + b = (p :: nat)"
  by auto

section \<open>The loop over the frames\<close>

definition map_frames :: "u32 \<Rightarrow> u32 \<Rightarrow> u32 \<Rightarrow> nat \<Rightarrow> 'a vm_state_scheme \<Rightarrow> 'a vm_state_scheme res" where
  "map_frames pp va flags i t =
     and_then (vload (elem pp i) t) (\<lambda>phys. mem_map_page (va + of_nat i * 0x1000) phys flags t)"

text \<open>The pages may lie in the kernel's part of the address space, behind the heap, or in the part of
  the current directory that belongs to programs.\<close>

definition placed :: "bool \<Rightarrow> nat \<Rightarrow> nat \<Rightarrow> bool" where
  "placed krn v n \<longleftrightarrow> (if krn then 983040 \<le> v \<and> v + n \<le> 1047552 else v + n \<le> 786432)"

text \<open>The view after the first \<open>i\<close> frames of the list at heap offset \<open>k\<close> have been mapped from
  page \<open>v\<close> on, in all directories of the set \<open>D\<close>.\<close>

definition frames_mapped :: "nat set \<Rightarrow> nat \<Rightarrow> nat \<Rightarrow> u32 \<Rightarrow> nat \<Rightarrow> 'a vm_state_scheme \<Rightarrow> 'b vm_state_scheme \<Rightarrow> bool" where
  "frames_mapped D k v flags i s u \<longleftrightarrow>
     (\<forall>d\<in>dir_frames s. \<forall>a<1023. \<forall>b<1024. pte_at u d a b =
       (if d \<in> D \<and> v \<le> a * 1024 + b \<and> a * 1024 + b < v + i
        then pte_of (hrd s (k + 4 * (a * 1024 + b - v))) flags else pte_at s d a b))"

lemma frames_mappedD:
  "frames_mapped D k v flags i s u \<Longrightarrow> d \<in> dir_frames s \<Longrightarrow> a < 1023 \<Longrightarrow> b < 1024 \<Longrightarrow>
   pte_at u d a b = (if d \<in> D \<and> v \<le> a * 1024 + b \<and> a * 1024 + b < v + i
     then pte_of (hrd s (k + 4 * (a * 1024 + b - v))) flags else pte_at s d a b)"
  by (simp add: frames_mapped_def)

definition changed_dirs :: "bool \<Rightarrow> 'a vm_state_scheme \<Rightarrow> nat set" where
  "changed_dirs krn s = (if krn then dir_frames s else {cur_dir s})"

definition mapping_inv :: "bool \<Rightarrow> nat \<Rightarrow> nat \<Rightarrow> u32 \<Rightarrow> nat \<Rightarrow> nat \<Rightarrow> 'a vm_state_scheme \<Rightarrow> 'a vm_state_scheme \<Rightarrow> bool" where
  "mapping_inv krn k v flags hn i s u \<longleftrightarrow> vm_ok u \<and> same_dirs s u \<and> data_kept s u \<and> large_kept s u \<and>
     free_count s \<le> free_count u + i \<and> heap_mapped u hn \<and> (\<forall>j<4096 * hn. hrd u j = hrd s j) \<and>
     frames_mapped (changed_dirs krn s) k v flags i s u"

lemma free_count_drop:
  assumes "vm_ok s" and "vm_ok u" and "managed_frames u = managed_frames s"
    and "card (used_frames u) \<le> card (used_frames s) + 1"
  shows "free_count s \<le> free_count u + 1"
  using assms free_count_eq [OF vm_coreD(1) [OF vm_okD(1) [OF assms(1)]]]
    free_count_eq [OF vm_coreD(1) [OF vm_okD(1) [OF assms(2)]]] by simp

lemma heap_mapped_view:
  assumes "heap_mapped s n" and "data_frames s \<subseteq> data_frames t"
    and "\<And>p. p < n \<Longrightarrow> heap_pte t p = heap_pte s p"
  shows "heap_mapped t n"
  using assms by (auto simp: heap_mapped_def heap_frame_def inj_on_def)

lemma large_kept_trans:
  "large_kept s t \<Longrightarrow> large_kept t u \<Longrightarrow> ipd_frame t = ipd_frame s \<Longrightarrow> large_kept s u"
  by (auto simp: large_kept_def)

text \<open>The entry of the directory in which the next page goes is not a large page.\<close>

lemma target_small:
  assumes u: "vm_ok u" "same_dirs s u" "large_kept s u" and p: "placed krn v n" "v \<le> q" "q < v + n" and small: "krn \<longrightarrow> heap_small s"
  shows "\<not> large (pmem u (target_dir (page_addr q) u) (pd_index (page_addr q)))"
proof -
  note d = same_dirs_dirs [OF u(2)]
  have q: "q < 1048576" using p by (simp add: placed_def split: if_splits)
  note ix = page_addr_index [OF q] and ua = unat_page_addr [OF q]
  show ?thesis
  proof (cases krn)
    case True
    then have pd: "960 \<le> q div 1024" "q div 1024 < 1023" and ker: "KERNEL_START \<le> page_addr q"
      using p page_addr_kernel [OF _ q] by (auto simp: placed_def)
    have "\<not> large (pmem s (ipd_frame s) (q div 1024))" using small True pd by (simp add: heap_small_def)
    then show ?thesis using u(3) pd ker by (auto simp: target_dir_def d ix large_kept_def)
  next
    case False
    then have pd: "q div 1024 < 768" and user: "\<not> KERNEL_START \<le> page_addr q"
      using p ua by (auto simp: placed_def KERNEL_START_def word_le_nat_alt)
    note core = vm_okD(1) [OF u(1)]
    have "present (pmem u (cur_dir u) (q div 1024)) \<longrightarrow> \<not> large (pmem u (cur_dir u) (q div 1024))"
      "\<not> present (pmem u (cur_dir u) (q div 1024)) \<longrightarrow> pmem u (cur_dir u) (q div 1024) = 0"
      using vm_coreD(7) [OF core] cur_dir_in [OF core] pd by (auto simp: user_part_ok_def)
    moreover have "\<not> large 0" by (simp add: large_def)
    ultimately show ?thesis using user by (auto simp: target_dir_def ix)
  qed
qed

text \<open>The pages of the heap are neither in the kernel's part behind the heap nor in the programs' part.\<close>

lemma heap_page_elsewhere:
  assumes "placed krn v n" and "v \<le> q" and "q < v + n" and "h < 131072"
  shows "(832 + h div 1024) * 1024 + h mod 1024 \<noteq> q"
proof -
  have "(832 + h div 1024) * 1024 + h mod 1024 = 851968 + h"
    using div_mult_mod_eq [of h 1024] by (simp add: add_mult_distrib)
  then show ?thesis using assms by (auto simp: placed_def split: if_splits)
qed

lemma map_frames_step:
  assumes inv: "mapping_inv krn k v flags hn i s u" and off: "\<not> are_interrupts_enabled s"
    and v: "placed krn v n" "i < n" and k: "k + 4 * i < 4096 * hn" and fl: "flags_ok flags"
    and small: "krn \<longrightarrow> heap_small s" and room: "i < free_count s"
  shows "\<exists>t. map_frames (haddr k) (page_addr v) flags i u = Inr t \<and> mapping_inv krn k v flags hn (Suc i) s t"
proof -
  let ?D = "changed_dirs krn s"
  from inv have ok: "vm_ok u" and sd: "same_dirs s u" and dk: "data_kept s u" and lk: "large_kept s u"
    and fc: "free_count s \<le> free_count u + i" and hm: "heap_mapped u hn"
    and hr: "\<forall>j<4096 * hn. hrd u j = hrd s j" and fm: "frames_mapped ?D k v flags i s u"
    by (simp_all add: mapping_inv_def)
  note d = same_dirs_dirs [OF sd]
  let ?p = "v + i"
  have pv: "v \<le> ?p" "?p < v + n" using v(2) by simp_all
  have p: "?p < 1048576" using v by (simp add: placed_def split: if_splits)
  have ix: "pd_index (page_addr ?p) = ?p div 1024" "pt_index (page_addr ?p) = ?p mod 1024"
    by (rule page_addr_index [OF p])+
  have idx: "pd_index (page_addr ?p) < 1023" using v by (auto simp: ix placed_def split: if_splits)
  have e: "elem (haddr k) i = haddr (k + 4 * i)" by (simp add: elem_def haddr_def)
  have ld: "vload (elem (haddr k) i) u = Inr (hrd s (k + 4 * i))"
    unfolding e using vload_heap [OF ok hm k] hr k by simp
  have off': "\<not> are_interrupts_enabled u" using off sd by (simp add: same_dirs_def are_interrupts_enabled_iff)
  note nl = target_small [OF ok sd lk v(1) pv small]
  have rm: "\<not> managed_frames u \<subseteq> used_frames u" using free_count_pos [of u] fc room by simp
  have dirs: "KERNEL_START \<le> page_addr ?p \<or> x = cur_dir u \<longleftrightarrow> x \<in> ?D" if "x \<in> dir_frames s" for x
  proof (cases krn)
    case True
    then show ?thesis using v that page_addr_kernel [OF _ p] by (simp add: placed_def changed_dirs_def)
  next
    case False
    then show ?thesis using v unat_page_addr [OF p]
      by (auto simp: placed_def changed_dirs_def d KERNEL_START_def word_le_nat_alt)
  qed
  obtain t where t: "mem_map_page (page_addr ?p) (hrd s (k + 4 * i)) flags u = Inr t" "vm_ok t" "same_dirs u t"
    and view: "\<forall>d\<in>dir_frames u. \<forall>a<1023. \<forall>b<1024. pte_at t d a b =
      (if (KERNEL_START \<le> page_addr ?p \<or> d = cur_dir u) \<and> a = pd_index (page_addr ?p) \<and> b = pt_index (page_addr ?p)
       then pte_of (hrd s (k + 4 * i)) flags else pte_at u d a b)"
    and card: "card (used_frames t) \<le> card (used_frames u) + 1" and dk': "data_kept u t" and lk': "large_kept u t"
    using mem_map_page_spec [OF ok off' idx nl fl, of "hrd s (k + 4 * i)"] rm by metis
  have sd': "same_dirs s t" using sd t(3) by (simp add: same_dirs_def)
  have view': "pte_at t x a b = (if x \<in> ?D \<and> a * 1024 + b = ?p then pte_of (hrd s (k + 4 * i)) flags else pte_at u x a b)"
    if "x \<in> dir_frames s" "a < 1023" "b < 1024" for x a b
    unfolding page_split [OF that(3), symmetric] using view that dirs [OF that(1)] by (simp add: d ix)
  have hp: "heap_pte t q = heap_pte u q" if q: "q < hn" for q
  proof -
    have q': "q < 131072" using q hm by (simp add: heap_mapped_def)
    then have "832 + q div 1024 < 1023" "q mod 1024 < 1024" by linarith+
    then show ?thesis using heap_page_elsewhere [OF v(1) pv q'] view' [of "ipd_frame s"]
      by (simp add: heap_pte_def d same_dirs_dirs [OF sd'])
  qed
  have hm': "heap_mapped t hn"
    by (rule heap_mapped_view [OF hm _ hp]) (use dk' in \<open>auto simp: data_kept_def\<close>)
  have hr': "hrd t j = hrd s j" if j: "j < 4096 * hn" for j
    using hrd_kept [OF hm dk' _ j] hp hr j by (simp add: heap_frame_def)
  have fm': "frames_mapped ?D k v flags (Suc i) s t"
    unfolding frames_mapped_def
  proof (intro ballI allI impI)
    fix x a b assume h: "x \<in> dir_frames s" "a < (1023 :: nat)" "b < (1024 :: nat)"
    show "pte_at t x a b = (if x \<in> ?D \<and> v \<le> a * 1024 + b \<and> a * 1024 + b < v + Suc i
        then pte_of (hrd s (k + 4 * (a * 1024 + b - v))) flags else pte_at s x a b)"
    proof (cases "a * 1024 + b = ?p")
      case True
      then show ?thesis using view' [OF h] frames_mappedD [OF fm h] by simp
    next
      case False
      then have "a * 1024 + b < v + Suc i \<longleftrightarrow> a * 1024 + b < v + i" by linarith
      then show ?thesis using False view' [OF h] frames_mappedD [OF fm h] by simp
    qed
  qed
  have "free_count s \<le> free_count t + Suc i"
    using fc free_count_drop [OF ok t(2) _ card] t(3) by (simp add: same_dirs_def)
  then have "mapping_inv krn k v flags hn (Suc i) s t"
    using t(2) sd' data_kept_trans [OF dk dk'] large_kept_trans [OF lk lk' d(3)] hm' hr' fm'
    by (simp add: mapping_inv_def)
  then show ?thesis using ld t(1) by (simp add: map_frames_def page_addr_add)
qed

section \<open>Mapping into the kernel and into a task\<close>

lemma same_vm_kern_updates [simp]:
  "same_vm (s\<lparr>kernel_shmem_mappings := p\<rparr>) s" "same_vm (s\<lparr>shmem := os\<rparr>) s"
  by (simp_all add: same_vm_def vm_state.truncate_def)

lemma map_frames_loop:
  assumes ok: "vm_ok s" and off: "\<not> are_interrupts_enabled s" and hm: "heap_mapped s hn"
    and v: "placed krn v n" and k: "k + 4 * n \<le> 4096 * hn" and fl: "flags_ok flags"
    and small: "krn \<longrightarrow> heap_small s" and room: "n \<le> free_count s"
  shows "\<exists>t. for_res 0 n (map_frames (haddr k) (page_addr v) flags) s = Inr t \<and> mapping_inv krn k v flags hn n s t"
proof (rule for_res_rule)
  show "mapping_inv krn k v flags hn 0 s s"
    using ok hm by (auto simp: mapping_inv_def same_dirs_def large_kept_def frames_mapped_def)
  fix i u assume i: "i < n" and inv: "mapping_inv krn k v flags hn i s u"
  show "\<exists>t. map_frames (haddr k) (page_addr v) flags i u = Inr t \<and> mapping_inv krn k v flags hn (Suc i) s t"
    by (rule map_frames_step [OF inv off v i _ fl small]) (use i k room in linarith)+
qed simp

lemma kern_more:
  fixes s t :: "'a kern_state_scheme"
  assumes "vm_state.more s = vm_state.more t"
  shows "kernel_shmem_mappings s = kernel_shmem_mappings t" "shmem s = shmem t" "tasks s = tasks t"
    "current_task s = current_task t" "num_tasks s = num_tasks t" "event_bufs s = event_bufs t"
  using assms by (cases s; cases t; simp)+

text \<open>The directories that change, and the flags of the new entries.\<close>

fun pool_dirs :: "pool_ref \<Rightarrow> 'a kern_state_scheme \<Rightarrow> nat set" where
  "pool_dirs Kernel_Pool s = dir_frames s"
| "pool_dirs (Task_Pool i) s = {kframe (pagedir (tasks s ! i))}"

fun pool_flags :: "pool_ref \<Rightarrow> u32" where
  "pool_flags Kernel_Pool = PAGE_FLAG_WRITE"
| "pool_flags (Task_Pool i) = PAGE_FLAG_WRITE OR PAGE_FLAG_USER"

text \<open>The new region of \<open>n\<close> pages from page \<open>v\<close> on stays below the recursive mapping, or below the kernel;
  the directory of the task is one of those in use.\<close>

fun pool_fits :: "pool_ref \<Rightarrow> nat \<Rightarrow> nat \<Rightarrow> 'a kern_state_scheme \<Rightarrow> bool" where
  "pool_fits Kernel_Pool v n s \<longleftrightarrow> v + n \<le> 1047552"
| "pool_fits (Task_Pool i) v n s \<longleftrightarrow> v + n \<le> 786432 \<and> pagedir (tasks s ! i) \<in> dir_ptrs s"

fun pool_base :: "pool_ref \<Rightarrow> u32" where
  "pool_base Kernel_Pool = KERNEL_SHARED_MEMORY"
| "pool_base (Task_Pool i) = USER_SHARED_MEMORY"

lemma set_pool_facts:
  "same_vm (set_pool r p s) s" "shmem (set_pool r p s) = shmem s"
  "pool_at r (set_pool r p s) = (case r of Kernel_Pool \<Rightarrow> p | Task_Pool i \<Rightarrow> if i < length (tasks s) then p else pool_at r s)"
  "r' \<noteq> r \<Longrightarrow> pool_at r' (set_pool r p s) = pool_at r' s"
  by (cases r; cases r'; auto simp: upd_task_def same_vm_def vm_state.truncate_def nth_list_update list_update_beyond)+

lemma pool_at_more: "vm_state.more t = vm_state.more s \<Longrightarrow> pool_at r t = pool_at r (s :: 'a kern_state_scheme)"
  using kern_more [of t s] by (cases r) simp_all

text \<open>The loop in the directory of the task or of the kernel; afterwards the current directory is what it
  was before.\<close>

lemma mapped_in_pool_dir:
  fixes s :: "'a kern_state_scheme"
  assumes ok: "vm_ok s" and off: "\<not> are_interrupts_enabled s" and hm: "heap_mapped s hn" and small: "heap_small s"
    and r: "pool_of tid s = Inr r" and fits: "pool_fits r v n s" and v: "r = Kernel_Pool \<longrightarrow> 983040 \<le> v"
    and k: "k + 4 * n \<le> 4096 * hn" and room: "n \<le> free_count s"
  shows "\<exists>t. in_task_dir tid (for_res 0 n (map_frames (haddr k) (page_addr v) (pool_flags r))) s = Inr t \<and> vm_ok t \<and>
    data_kept s t \<and> cr3 t = cr3 s \<and> vm_state.more t = vm_state.more s \<and> frames_mapped (pool_dirs r s) k v (pool_flags r) n s t"
proof (cases "tid = 0")
  case True
  then have r0: "r = Kernel_Pool" using r by (simp add: pool_of_def)
  then have pl: "placed True v n" using fits v by (simp add: placed_def)
  obtain t where t: "for_res 0 n (map_frames (haddr k) (page_addr v) (pool_flags r)) s = Inr t"
    and inv: "mapping_inv True k v (pool_flags r) hn n s t"
    using map_frames_loop [OF ok off hm pl k _ _ room, of "pool_flags r"] heap_flags(1) small r0 by auto
  show ?thesis using t inv True r0 by (auto simp: in_task_dir_def mapping_inv_def same_dirs_def changed_dirs_def)
next
  case False
  then obtain i where i: "get_task tid s = Inr i" "r = Task_Pool i" using r by (auto simp: pool_of_def res_eq_Inr)
  let ?pd = "pagedir (tasks s ! i)" and ?prev = "mem_get_current_page_directory s"
  let ?s1 = "s\<lparr>cr3 := ?pd - KERNEL_START\<rparr>"
  note core = vm_okD(1) [OF ok]
  have pd: "?pd \<in> dir_ptrs s" and pl: "placed False v n" using fits i(2) by (simp_all add: placed_def)
  have prev: "?prev \<in> dir_ptrs s" by (rule vm_coreD(4) [OF core])
  have gt: "KERNEL_START < ?pd" "KERNEL_START < ?prev"
    using dir_ptrs_facts(3) [OF vm_coreD(2) [OF core]] pd prev by blast+
  have ok1: "vm_ok ?s1" using core_switch [OF core pd] vm_okD(2) [OF ok] by (simp add: vm_ok_def kernel_synced_def)
  have off1: "\<not> are_interrupts_enabled ?s1" using off by (simp add: are_interrupts_enabled_iff)
  have eqs: "heap_pte ?s1 = heap_pte s" "free_count ?s1 = free_count s" "dir_frames ?s1 = dir_frames s" "pte_at ?s1 = pte_at s"
    by (simp_all add: heap_pte_def fun_eq_iff free_count_def ipd_frame_def)
  have hf: "heap_frame ?s1 = heap_frame s" by (simp add: heap_frame_def eqs fun_eq_iff)
  have hm1: "heap_mapped ?s1 hn" and hr1: "hrd ?s1 = hrd s"
    using hm by (simp_all add: heap_mapped_def hrd_def hf eqs fun_eq_iff)
  obtain t where t: "for_res 0 n (map_frames (haddr k) (page_addr v) (pool_flags r)) ?s1 = Inr t"
    and inv: "mapping_inv False k v (pool_flags r) hn n ?s1 t"
    using map_frames_loop [OF ok1 off1 hm1 pl k _ _, of "pool_flags r"] room example_flags i(2) by (auto simp: eqs)
  from inv have sd: "same_dirs ?s1 t" and okt: "vm_ok t" and dk: "data_kept s t"
    and fm: "frames_mapped {cur_dir ?s1} k v (pool_flags r) n ?s1 t"
    by (simp_all add: mapping_inv_def changed_dirs_def)
  let ?t = "t\<lparr>cr3 := ?prev - KERNEL_START\<rparr>"
  have "dir_ptrs t = dir_ptrs ?s1" by (rule same_dirs_dirs(1) [OF sd])
  then have "?prev \<in> dir_ptrs t" using prev by simp
  then have "vm_ok ?t" using core_switch [OF vm_okD(1) [OF okt]] vm_okD(2) [OF okt] by (simp add: vm_ok_def kernel_synced_def)
  moreover have "cur_dir ?s1 = kframe ?pd" by (simp add: cur_dir_def kframe_def)
  then have "frames_mapped (pool_dirs r s) k v (pool_flags r) n s ?t"
    using fm by (simp add: frames_mapped_def i(2) eqs hr1)
  moreover have "in_task_dir tid (for_res 0 n (map_frames (haddr k) (page_addr v) (pool_flags r))) s = Inr ?t"
    using False i(1) gt t by (simp add: in_task_dir_def Let_def mem_change_page_directory_def)
  moreover have "cr3 ?t = cr3 s" "vm_state.more ?t = vm_state.more s"
    using sd by (simp_all add: same_dirs_def mem_get_current_page_directory_def)
  ultimately show ?thesis using dk by (intro exI [of _ ?t]) simp
qed

lemma sharedmem_map_spec:
  fixes s :: "'a kern_state_scheme"
  assumes ok: "vm_ok s" and off: "\<not> are_interrupts_enabled s" and hm: "heap_mapped s hn" and small: "heap_small s"
    and ex: "sharedmem_exists oid (shmem s)" and obj: "unat oid < length (shmem s)"
    and np: "np = unat (size_in_pages (shmem s ! unat oid))"
    and list: "physical_pages (shmem s ! unat oid) = haddr k" "k + 4 * np \<le> 4096 * hn"
    and r: "pool_of tid s = Inr r" and pool: "pool_ok (shmem s) (pool_at r s)"
    and slot: "num (pool_at r s) < MAX_SHARED_MEMORY_MAPPINGS"
    and base: "vaddr_start (pool_at r s) = pool_base r"
    and top: "pool_top (shmem s) (pool_at r s) = 4096 * v" and fits: "pool_fits r v np s"
    and room: "np \<le> free_count s"
  shows "\<exists>t m. sharedmem_map oid tid s = Inr (page_addr v, t) \<and> vm_ok t \<and> cr3 t = cr3 s \<and>
    frames_mapped (pool_dirs r s) k v (pool_flags r) np s t \<and> data_kept s t \<and> shmem t = shmem s \<and>
    pool_ok (shmem t) (pool_at r t) \<and> vaddr m = page_addr v \<and> mapped_obj m = oid \<and>
    active_mappings (pool_at r t) = active_mappings (pool_at r s) @ [m] \<and>
    (\<forall>m'\<in>set (active_mappings (pool_at r s)). region (shmem s) m' \<inter> region (shmem s) m = {}) \<and>
    (\<forall>r'. r' \<noteq> r \<longrightarrow> pool_at r' t = pool_at r' s)"
proof -
  have v0: "r = Kernel_Pool \<longrightarrow> 983040 \<le> v" "0 < v"
    using pool_top_bounds(1) [OF pool] unfolding top base
    by (cases r; simp add: KERNEL_SHARED_MEMORY_def USER_SHARED_MEMORY_def)+
  have v1: "v < 1048576" "v + np < 1048576" using fits by (cases r; simp)+
  have bound: "pool_top (shmem s) (pool_at r s) + unat (size_in_pages (shmem s ! unat oid)) * 4096 < 2 ^ 32"
    using v1(2) by (simp add: np [symmetric] top)
  obtain m p where ins: "insert_into_pool oid (shmem s) (pool_at r s) = Inr (m, p)"
    and m: "mapped_obj m = oid" "unat (vaddr m) = 4096 * v"
    and p: "active_mappings p = active_mappings (pool_at r s) @ [m]" "pool_ok (shmem s) p"
    and dis: "\<forall>m'\<in>set (active_mappings (pool_at r s)). region (shmem s) m' \<inter> region (shmem s) m = {}"
    using insert_into_pool_spec [OF pool slot obj bound] top by auto
  have va: "vaddr m = page_addr v" using m(2) unat_page_addr [OF v1(1)] by (simp add: word_unat_eq_iff)
  define s' where "s' = set_pool r p s"
  have same: "same_vm s' s" by (simp add: s'_def set_pool_facts)
  note f = same_vm_facts [OF same] and eqs = same_vm_eqs [OF same]
  have len: "r = Task_Pool i \<Longrightarrow> i < length (tasks s)" for i
    using r by (auto simp: pool_of_def get_task_def res_eq_Inr in_bounds_eq_Inr split: if_splits)
  have new: "pool_at r s' = p" using len by (cases r) (auto simp: s'_def set_pool_facts)
  have gt: "get_task tid s' = get_task tid s" by (cases r) (simp_all add: s'_def get_task_def)
  have pd: "pagedir (tasks s' ! j) = pagedir (tasks s ! j)" for j
    using len by (cases r; cases "r = Task_Pool j") (simp_all add: s'_def)
  note ids = gt pd
  have r': "pool_of tid s' = Inr r" using r by (cases "tid = 0") (simp_all add: pool_of_def ids)
  have dirs: "pool_dirs r s' = pool_dirs r s" by (cases r) (simp_all add: f ids)
  have "dir_ptrs s' = dir_ptrs s" by (simp add: dir_ptrs_def page_dir_ptr_def eqs)
  then have fits': "pool_fits r v np s'" using fits by (cases r) (simp_all add: ids)
  obtain t where t: "in_task_dir tid (for_res 0 np (map_frames (haddr k) (page_addr v) (pool_flags r))) s' = Inr t"
    and t': "vm_ok t" "data_kept s' t" "cr3 t = cr3 s'" "vm_state.more t = vm_state.more s'"
      "frames_mapped (pool_dirs r s') k v (pool_flags r) np s' t"
    using mapped_in_pool_dir [OF _ _ _ _ r' fits' v0(1) list(2)] ok off hm small room
    by (auto simp: f)
  have body: "(\<lambda>i t. and_then (vload (elem (haddr k) i) t) (\<lambda>phys. mem_map_page (page_addr v + of_nat i * 0x1000) phys flags t)) =
      map_frames (haddr k) (page_addr v) flags" for flags
    by (simp add: map_frames_def fun_eq_iff)
  have fl: "(if tid = 0 then PAGE_FLAG_WRITE else PAGE_FLAG_WRITE OR PAGE_FLAG_USER) = pool_flags r"
    using r by (auto simp: pool_of_def res_eq_Inr)
  have nz: "page_addr v \<noteq> 0" using unat_page_addr [OF v1(1)] v0(2) by auto
  have "sharedmem_map oid tid s = Inr (page_addr v, t)"
    using ex off ins t nz r
    by (simp add: sharedmem_map_def verify_interrupts_disabled_def Let_def list(1) va fl
        np [symmetric] body s'_def del: of_nat_mult)
  moreover have "pool_at r t = p" "shmem t = shmem s" "\<And>r'. r' \<noteq> r \<Longrightarrow> pool_at r' t = pool_at r' s"
    using pool_at_more [OF t'(4)] new kern_more(2) [OF t'(4)] by (simp_all add: s'_def set_pool_facts)
  ultimately show ?thesis using p dis va m(1) t'
    by (intro exI [of _ t] exI [of _ m]) (simp add: f eqs dirs frames_mapped_def)
qed

text \<open>A kernel with one object of two pages, whose list of frames is at offset 64 of the heap.\<close>

definition example_kern :: kern_state where
  "example_kern = kheap_state.extend (hput 68 0x3000 (hput 64 0x5000 example_kheap))
     (kern_state.fields
       ((replicate MAX_SHARED_MEMORY_OBJS no_shmem)[0 := \<lparr>size_in_pages = 2, physical_pages = haddr 64, owner_task_id = 0\<rparr>])
       (no_pool\<lparr>vaddr_start := KERNEL_SHARED_MEMORY\<rparr>) (replicate MAX_TASKS no_task) 1 0 0 0
       (\<lambda>_. \<lparr>num_events = 0, ev_buffer = []\<rparr>) 0 0 False)"

lemma example_kern_facts:
  "vm_ok example_kern" "\<not> are_interrupts_enabled example_kern" "heap_mapped example_kern 1"
  "heap_small example_kern" "2 \<le> free_count example_kern"
  "hrd example_kern 64 = 0x5000" "hrd example_kern 68 = 0x3000"
  "dirs_reserved example_kern" "page_dir_used example_kern = replicate NUM_PAGE_DIRS False"
proof -
  let ?h = "hput 68 0x3000 (hput 64 0x5000 example_kheap)"
  have "same_vm example_kern ?h"
    by (simp add: same_vm_def example_kern_def vm_state.truncate_def kheap_state.extend_def)
  note sv = same_vm_facts [OF this] and eqs = same_vm_eqs [OF this]
  note sp = heap_chainD(1) [OF example_kheap_facts(2)]
  have hp: "heap_pages (unat (heap_size example_kheap)) = 1"
    by (simp add: example_kheap_facts(3) heap_pages_def)
  have sp': "vm_ok example_kheap" "\<not> are_interrupts_enabled example_kheap" "heap_small example_kheap"
    "heap_mapped example_kheap 1"
    using sp unfolding heap_space_def hp by simp_all
  have k: "64 < 4096 * (1 :: nat)" "68 < 4096 * (1 :: nat)" by simp_all
  note h1 = hput_facts [OF sp'(1,4) k(1), where v = "0x5000"]
  note h2 = hput_facts [OF h1(1,2) k(2), where v = "0x3000"]
  show "vm_ok example_kern" "heap_mapped example_kern 1" using h2(1,2) by (simp_all add: sv)
  show "hrd example_kern 64 = 0x5000" "hrd example_kern 68 = 0x3000"
    unfolding sv(6) using h1(6) [of 64] h2(6) [of 64] h2(6) [of 68] by simp_all
  have sd: "same_dirs example_kheap ?h" using h1(3) h2(3) by (simp add: same_dirs_def)
  then show "\<not> are_interrupts_enabled example_kern"
    using sp'(2) unfolding sv(4) by (simp add: same_dirs_def are_interrupts_enabled_iff)
  show "dirs_reserved example_kern" "page_dir_used example_kern = replicate NUM_PAGE_DIRS False"
    using sd example_kheap_facts(5,6) by (simp_all add: same_dirs_def dirs_reserved_def page_dir_ptr_def sv eqs)
  have "free_count ?h = free_count example_kheap" using sd h1(4) h2(4) by (simp add: free_count_def same_dirs_def)
  then show "2 \<le> free_count example_kern" using example_kheap_facts(4) by (simp add: sv)
  have "pmem ?h (ipd_frame example_kheap) = pmem example_kheap (ipd_frame example_kheap)"
    using h1(9) [of "ipd_frame example_kheap"] h2(9) [of "ipd_frame example_kheap"] same_dirs_dirs [OF h1(3)] by simp
  then show "heap_small example_kern"
    using sp'(3) same_dirs_dirs(3) [OF sd] unfolding sv(2) by (simp add: heap_small_def)
qed

text \<open>A directory allocated for a program leaves the kernel heap and its contents as they were.\<close>

lemma with_dir_heap:
  assumes ok: "vm_ok s" and res: "dirs_reserved s" and i: "i < NUM_PAGE_DIRS" "\<not> page_dir_used s ! i"
    and map: "heap_mapped s n"
  shows "heap_mapped (with_dir i s) n" and "heap_small s \<Longrightarrow> heap_small (with_dir i s)"
    and "k < 4096 * n \<Longrightarrow> hrd (with_dir i s) k = hrd s k"
proof -
  let ?t = "with_dir i s"
  note core = vm_okD(1) [OF ok]
  note w = with_dir_facts [OF core i] and o = with_dir_ok [OF ok res i]
  have hp: "heap_pte ?t p = heap_pte s p" if "p < 131072" for p
    unfolding heap_pte_def w(4) using o(3) [OF ipd_in_dirs(2) heap_pte_index [OF that]] .
  have old: "pmem ?t f = pmem s f" if "f \<in> dir_frames s" for f using w(3,5) that by metis
  have "table_frame ?t x = table_frame s x" if "x \<in> slots s" for x
    using that old by (auto simp: table_frame_def slots_def own_slot_def)
  then have df: "data_frames ?t = data_frames s"
    by (simp add: data_frames_def o(2) cong: image_cong)
  have n: "p < n \<Longrightarrow> p < 131072" for p using map by (simp add: heap_mapped_def)
  show "heap_mapped ?t n" using heap_mapped_view [OF map] df hp n by auto
  show "heap_small s \<Longrightarrow> heap_small ?t" by (simp add: heap_small_def w(4) old ipd_in_dirs(2))
  have "kframe (page_dir_ptr i s) \<notin> managed_frames s" using res i(1) by (simp add: dirs_reserved_def)
  then have nd: "f \<noteq> kframe (page_dir_ptr i s)" if "f \<in> data_frames s" for f
    using that vm_coreD(1) [OF core] by (auto simp: data_frames_def pmm_ok_def)
  show "hrd ?t k = hrd s k" if k: "k < 4096 * n"
  proof -
    have p: "k div 4096 < n" using k by auto
    have "heap_frame ?t (k div 4096) = heap_frame s (k div 4096)" using hp n p by (simp add: heap_frame_def)
    moreover have "heap_frame s (k div 4096) \<in> data_frames s" using map p by (simp add: heap_mapped_def)
    ultimately show ?thesis using w(5) nd by (simp add: hrd_def)
  qed
qed

text \<open>The same kernel with a task 1001 whose directory is the first of \<open>page_dirs\<close>; the current directory
  is still the kernel's.\<close>

definition example_shared :: kern_state where
  "example_shared = (with_dir 0 example_kern)\<lparr>tasks := (replicate MAX_TASKS no_task)
     [1 := no_task\<lparr>task_id := 1001, pagedir := page_dir_ptr 0 example_kern,
             task_shmem := no_pool\<lparr>vaddr_start := USER_SHARED_MEMORY\<rparr>\<rparr>]\<rparr>"

lemma example_shared_facts:
  "vm_ok example_shared" "\<not> are_interrupts_enabled example_shared" "heap_mapped example_shared 1"
  "heap_small example_shared" "2 \<le> free_count example_shared" "hrd example_shared 68 = 0x3000"
  "page_dir_ptr 0 example_kern \<in> dir_ptrs example_shared" "ipd_frame example_shared \<in> dir_frames example_shared"
  "kframe (page_dir_ptr 0 example_kern) \<in> dir_frames example_shared"
  "kframe (page_dir_ptr 0 example_kern) \<noteq> ipd_frame example_shared"
proof -
  let ?t = "with_dir 0 example_kern"
  have "same_vm example_shared ?t"
    by (simp add: same_vm_def example_shared_def vm_state.truncate_def)
  note sv = same_vm_facts [OF this] and eqs = same_vm_eqs [OF this]
  note k = example_kern_facts
  have i: "0 < NUM_PAGE_DIRS" "\<not> page_dir_used example_kern ! 0"
    using k(9) by (simp_all add: NUM_PAGE_DIRS_def)
  note w = with_dir_facts [OF vm_okD(1) [OF k(1)] i] and o = with_dir_ok [OF k(1,8) i]
    and h = with_dir_heap [OF k(1,8) i k(3)]
  show "vm_ok example_shared" "heap_mapped example_shared 1" "heap_small example_shared"
    "hrd example_shared 68 = 0x3000"
    using o(1) h(1,2) h(3) [of 68] k(4,7) by (simp_all add: sv)
  show "\<not> are_interrupts_enabled example_shared" "2 \<le> free_count example_shared"
    using k(2,5) by (simp_all add: sv eqs are_interrupts_enabled_iff free_count_def)
  have "dir_ptrs example_shared = dir_ptrs ?t" by (simp add: dir_ptrs_def page_dir_ptr_def eqs)
  then show "page_dir_ptr 0 example_kern \<in> dir_ptrs example_shared" by (simp add: w(1))
  show "ipd_frame example_shared \<in> dir_frames example_shared" by (rule ipd_in_dirs(2))
  show "kframe (page_dir_ptr 0 example_kern) \<in> dir_frames example_shared" by (simp add: sv w(2))
  show "kframe (page_dir_ptr 0 example_kern) \<noteq> ipd_frame example_shared"
    using w(3,4) ipd_in_dirs(2) [of example_kern] by (auto simp: sv)
qed

section \<open>Properties\<close>

text \<open>C13: \<open>sharedmem_map\<close> is correct, for the kernel (task id 0) and for a task. For an existing object
  whose list of frames is in the mapped part of the kernel heap, with a slot left in the pool of the kernel
  or of the task, as many free frames as the object has pages, and room behind the last region (below the
  recursive mapping for the kernel, below the kernel for a task whose directory is in use), it returns the
  address behind the last region. Afterwards exactly the pages of the new region have changed, and page
  \<open>i\<close> of it shows the \<open>i\<close>-th frame of the object (so two mappings share the memory): in every directory and
  writable for the kernel, in the directory of the task alone and open to programs for a task, whichever
  directory was current. The current directory is what it was before; the pool is the old one with the new
  region at its end, disjoint from all others, and no other pool changes; the paging invariant holds and
  data frames keep their contents.\<close>

theorem sharedmem_map_correct:
  fixes s :: "'a kern_state_scheme"
  assumes "vm_ok s" and "\<not> are_interrupts_enabled s" and "heap_mapped s hn" and "heap_small s"
    and "sharedmem_exists oid (shmem s)" and "unat oid < length (shmem s)"
    and "np = unat (size_in_pages (shmem s ! unat oid))"
    and "physical_pages (shmem s ! unat oid) = haddr k" and "k + 4 * np \<le> 4096 * hn"
    and "pool_of tid s = Inr r" and "pool_ok (shmem s) (pool_at r s)"
    and "num (pool_at r s) < MAX_SHARED_MEMORY_MAPPINGS"
    and "vaddr_start (pool_at r s) = (if tid = 0 then KERNEL_SHARED_MEMORY else USER_SHARED_MEMORY)"
    and "pool_top (shmem s) (pool_at r s) = 4096 * v"
    and "case r of Kernel_Pool \<Rightarrow> v + np \<le> 1047552
         | Task_Pool i \<Rightarrow> v + np \<le> 786432 \<and> pagedir (tasks s ! i) \<in> dir_ptrs s"
    and "np \<le> free_count s"
  shows "\<exists>t m. sharedmem_map oid tid s = Inr (page_addr v, t) \<and> vm_ok t \<and> cr3 t = cr3 s \<and>
    (\<forall>d\<in>dir_frames s. \<forall>a<1023. \<forall>b<1024. pte_at t d a b =
      (if (case r of Kernel_Pool \<Rightarrow> True | Task_Pool i \<Rightarrow> d = kframe (pagedir (tasks s ! i))) \<and>
          v \<le> a * 1024 + b \<and> a * 1024 + b < v + np
       then pte_of (hrd s (k + 4 * (a * 1024 + b - v)))
         (if tid = 0 then PAGE_FLAG_WRITE else PAGE_FLAG_WRITE OR PAGE_FLAG_USER)
       else pte_at s d a b)) \<and>
    data_kept s t \<and> shmem t = shmem s \<and>
    pool_ok (shmem t) (pool_at r t) \<and> vaddr m = page_addr v \<and> mapped_obj m = oid \<and>
    active_mappings (pool_at r t) = active_mappings (pool_at r s) @ [m] \<and>
    (\<forall>m'\<in>set (active_mappings (pool_at r s)). region (shmem s) m' \<inter> region (shmem s) m = {}) \<and>
    (\<forall>r'. r' \<noteq> r \<longrightarrow> pool_at r' t = pool_at r' s)"
proof -
  have t0: "r = Kernel_Pool \<longleftrightarrow> tid = 0" using assms(10) by (auto simp: pool_of_def res_eq_Inr split: if_splits)
  have base: "vaddr_start (pool_at r s) = pool_base r" and fits: "pool_fits r v np s"
    using assms(13,15) t0 by (cases r; simp)+
  have flags: "pool_flags r = (if tid = 0 then PAGE_FLAG_WRITE else PAGE_FLAG_WRITE OR PAGE_FLAG_USER)"
    and dirs: "\<And>d. d \<in> dir_frames s \<Longrightarrow> d \<in> pool_dirs r s \<longleftrightarrow>
      (case r of Kernel_Pool \<Rightarrow> True | Task_Pool i \<Rightarrow> d = kframe (pagedir (tasks s ! i)))"
    using t0 by (cases r; simp)+
  obtain t m where t: "sharedmem_map oid tid s = Inr (page_addr v, t)"
    "frames_mapped (pool_dirs r s) k v (pool_flags r) np s t"
    and rest: "vm_ok t" "cr3 t = cr3 s" "data_kept s t" "shmem t = shmem s" "pool_ok (shmem t) (pool_at r t)"
      "vaddr m = page_addr v" "mapped_obj m = oid"
      "active_mappings (pool_at r t) = active_mappings (pool_at r s) @ [m]"
      "\<forall>m'\<in>set (active_mappings (pool_at r s)). region (shmem s) m' \<inter> region (shmem s) m = {}"
      "\<forall>r'. r' \<noteq> r \<longrightarrow> pool_at r' t = pool_at r' s"
    using sharedmem_map_spec [OF assms(1-12) base assms(14) fits assms(16)] by blast
  show ?thesis
    using t(1) rest by (intro exI [of _ t] exI [of _ m] conjI ballI allI impI)
      (simp_all add: frames_mappedD [OF t(2)] dirs flags)
qed

theorem sharedmem_map_correct_witness:
  "(\<exists>t. sharedmem_map 0 0 example_shared = Inr (page_addr 983040, t) \<and> vm_ok t \<and>
     (\<forall>d\<in>dir_frames example_shared. pte_at t d 960 1 = pte_of 0x3000 PAGE_FLAG_WRITE)) \<and>
   (\<exists>t. sharedmem_map 0 1001 example_shared = Inr (page_addr 720896, t) \<and> vm_ok t \<and>
     pte_at t (kframe (page_dir_ptr 0 example_kern)) 704 1 = pte_of 0x3000 (PAGE_FLAG_WRITE OR PAGE_FLAG_USER) \<and>
     pte_at t (ipd_frame example_shared) 704 1 = pte_at example_shared (ipd_frame example_shared) 704 1)"
    (is "?kern \<and> ?task")
proof -
  note e = example_shared_facts
  have sh: "length (shmem example_shared) = 256"
    "shmem example_shared ! 0 = \<lparr>size_in_pages = 2, physical_pages = haddr 64, owner_task_id = 0\<rparr>"
    "kernel_shmem_mappings example_shared = no_pool\<lparr>vaddr_start := KERNEL_SHARED_MEMORY\<rparr>"
    and tk: "tasks example_shared = (replicate MAX_TASKS no_task)
     [1 := no_task\<lparr>task_id := 1001, pagedir := page_dir_ptr 0 example_kern,
             task_shmem := no_pool\<lparr>vaddr_start := USER_SHARED_MEMORY\<rparr>\<rparr>]"
    by (simp_all add: example_shared_def with_dir_def put_row_def example_kern_def kern_state.fields_def
        kheap_state.extend_def MAX_SHARED_MEMORY_OBJS_def)
  have ex: "sharedmem_exists 0 (shmem example_shared)"
    using sharedmem_exists_nth [of 0 "shmem example_shared"] by (simp add: sh MAX_SHARED_MEMORY_OBJS_def)
  have pools: "pool_of 0 example_shared = Inr Kernel_Pool" "pool_of 1001 example_shared = Inr (Task_Pool 1)"
    by (simp_all add: pool_of_def get_task_def get_task_index_def tk MAX_TASKS_def in_bounds_def kassert_def and_then_def)
  have empty: "active_mappings (no_pool\<lparr>vaddr_start := a\<rparr>) = []" "num no_pool < MAX_SHARED_MEMORY_MAPPINGS"
    "pool_top objs (no_pool\<lparr>vaddr_start := a\<rparr>) = unat a" for a objs
    by (simp_all add: active_mappings_def no_pool_def pool_top_def MAX_SHARED_MEMORY_MAPPINGS_def)
  have "pool_ok (shmem example_shared) (pool_at Kernel_Pool example_shared)"
    unfolding pool_at.simps sh by (rule pool_init_ok) (simp add: KERNEL_SHARED_MEMORY_def)
  with sharedmem_map_correct [OF e(1-4) ex, of 2 64 0 Kernel_Pool 983040] e(5)
  obtain t where t: "sharedmem_map 0 0 example_shared = Inr (page_addr 983040, t)" "vm_ok t"
    "\<forall>d\<in>dir_frames example_shared. \<forall>a<1023. \<forall>b<1024. pte_at t d a b =
      (if 983040 \<le> a * 1024 + b \<and> a * 1024 + b < 983040 + 2
       then pte_of (hrd example_shared (64 + 4 * (a * 1024 + b - 983040))) PAGE_FLAG_WRITE else pte_at example_shared d a b)"
    by (auto simp: sh pools empty KERNEL_SHARED_MEMORY_def)
  have k: ?kern using t(1,2) t(3) [rule_format, of _ 960 1] e(6) by auto
  have "pool_at (Task_Pool 1) example_shared = no_pool\<lparr>vaddr_start := USER_SHARED_MEMORY\<rparr>"
    by (simp add: tk MAX_TASKS_def)
  moreover have "pool_ok (shmem example_shared) (no_pool\<lparr>vaddr_start := USER_SHARED_MEMORY\<rparr>)"
    by (rule pool_init_ok) (simp add: USER_SHARED_MEMORY_def)
  moreover have pd: "pagedir (tasks example_shared ! 1) = page_dir_ptr 0 example_kern" by (simp add: tk MAX_TASKS_def)
  ultimately obtain u where u: "sharedmem_map 0 1001 example_shared = Inr (page_addr 720896, u)" "vm_ok u"
    "\<forall>d\<in>dir_frames example_shared. \<forall>a<1023. \<forall>b<1024. pte_at u d a b =
      (if d = kframe (page_dir_ptr 0 example_kern) \<and> 720896 \<le> a * 1024 + b \<and> a * 1024 + b < 720896 + 2
       then pte_of (hrd example_shared (64 + 4 * (a * 1024 + b - 720896))) (PAGE_FLAG_WRITE OR PAGE_FLAG_USER)
       else pte_at example_shared d a b)"
    using sharedmem_map_correct [OF e(1-4) ex, of 2 64 1001 "Task_Pool 1" 720896] e(5,7)
    by (auto simp: sh pools empty USER_SHARED_MEMORY_def)
  have ?task using u(1,2) u(3) [rule_format, OF e(9), of 704 1] u(3) [rule_format, OF e(8), of 704 1] e(6,10) by auto
  with k show ?thesis ..
qed

text \<open>C14: The regions of a pool never overlap. Inserting an object whose region fits puts it at the
  end of the pool, behind all regions in use; removing a mapping takes out exactly that one; both
  keep the order and the disjointness of the regions, and removing what was just inserted
  restores the pool.\<close>

theorem shmem_pool_regions:
  assumes "pool_ok objs p" and "num p < MAX_SHARED_MEMORY_MAPPINGS" and "unat oid < length objs"
    and "pool_top objs p + unat (size_in_pages (objs ! unat oid)) * 4096 < 2 ^ 32" and "i < num p"
  shows "\<exists>m q. insert_into_pool oid objs p = Inr (m, q) \<and> pool_ok objs q \<and> mapped_obj m = oid \<and>
    active_mappings q = active_mappings p @ [m] \<and>
    (\<forall>m'\<in>set (active_mappings p). region objs m' \<inter> region objs m = {}) \<and>
    (\<exists>r. remove_from_pool (num p) q = Inr r \<and> active_mappings r = active_mappings p) \<and>
    (\<exists>r. remove_from_pool i q = Inr r \<and> pool_ok objs r \<and>
       active_mappings r = take i (active_mappings p) @ drop (Suc i) (active_mappings p) @ [m])"
proof -
  obtain m q where q: "insert_into_pool oid objs p = Inr (m, q)" "pool_ok objs q" "mapped_obj m = oid"
    "active_mappings q = active_mappings p @ [m]" "num q = num p + 1"
    "\<forall>m'\<in>set (active_mappings p). region objs m' \<inter> region objs m = {}"
    using insert_into_pool_spec [OF assms(1-4)] by metis
  note len = active_length [OF assms(1)]
  from remove_from_pool_spec [OF q(2), of "num p"] remove_from_pool_spec [OF q(2), of i] show ?thesis
    using q assms(5) len by auto
qed

theorem shmem_pool_regions_witness:
  "\<exists>p m q r. insert_into_pool 1 (replicate 256 (no_shmem\<lparr>size_in_pages := 2\<rparr>)) p = Inr (m, q) \<and>
     num p = 1 \<and> remove_from_pool 0 q = Inr r \<and> active_mappings r = [m]"
proof -
  let ?objs = "replicate 256 (no_shmem\<lparr>size_in_pages := 2\<rparr>)"
  let ?p0 = "no_pool\<lparr>vaddr_start := KERNEL_SHARED_MEMORY\<rparr>"
  have top: "active_mappings ?p0 = []" "pool_top ?objs ?p0 = 4026531840"
    by (simp_all add: active_mappings_def no_pool_def pool_top_def KERNEL_SHARED_MEMORY_def)
  have ok: "pool_ok ?objs ?p0" by (rule pool_init_ok) (simp add: KERNEL_SHARED_MEMORY_def)
  have "num ?p0 < MAX_SHARED_MEMORY_MAPPINGS" by (simp add: no_pool_def MAX_SHARED_MEMORY_MAPPINGS_def)
  with insert_into_pool_spec [OF ok, of 0] top obtain m p where
    p: "pool_ok ?objs p" "unat (vaddr m) = 4026531840" "mapped_obj m = 0" "active_mappings p = [m]" "num p = 1"
    by (auto simp: no_pool_def)
  have "pool_top ?objs p = 4026540032" using p by (simp add: pool_top_def region_end_def region_size_def)
  with shmem_pool_regions [OF p(1), of 1 0] p show ?thesis
    by (auto simp: MAX_SHARED_MEMORY_MAPPINGS_def)
qed

end
