(* ===== verification/Tasks.thy ===== *)
theory Tasks
  imports Sharedmem_Props
begin

text \<open>
  Tasks (\<open>kernel/tasks.c\<close>, \<open>tasks_asm.asm\<close>): the table of tasks, the initial kernel stack of a
  new task, the round-robin scheduler, and the end of a task. The addresses of \<open>isr_exit\<close> and
  of a task's entry point come from the linker and are arguments. \<open>create_user_task\<close>, which
  reads an executable from the file system, is not part of this theory.
\<close>

section \<open>Descriptors and selectors\<close>

definition GDT_KERNEL_CODE :: u32 where "GDT_KERNEL_CODE = 0x08"
definition GDT_KERNEL_DATA :: u32 where "GDT_KERNEL_DATA = 0x10"
definition GDT_USER_CODE :: u32 where "GDT_USER_CODE = 0x18"
definition GDT_USER_DATA :: u32 where "GDT_USER_DATA = 0x20"
definition DPL_USER :: u32 where "DPL_USER = 3"
definition USER_STACK_BOTTOM :: u32 where "USER_STACK_BOTTOM = 0xB0000000"
definition KERNEL_STACK_SIZE :: u32 where "KERNEL_STACK_SIZE = 0x1000 - 16"

text \<open>\<open>TrapFrame\<close> and \<open>TaskReturnContext\<close>, in the order of their fields.\<close>

record trap_frame =
  tf_gs :: u32
  tf_fs :: u32
  tf_es :: u32
  tf_ds :: u32
  tf_edi :: u32
  tf_esi :: u32
  tf_ebp :: u32
  tf_esp :: u32
  tf_ebx :: u32
  tf_edx :: u32
  tf_ecx :: u32
  tf_eax :: u32
  tf_interrupt :: u32
  tf_error :: u32
  tf_eip :: u32
  tf_cs :: u32
  tf_eflags :: u32
  tf_usermode_esp :: u32
  tf_usermode_ss :: u32

record return_context =
  rc_edi :: u32
  rc_esi :: u32
  rc_ebx :: u32
  rc_ebp :: u32
  rc_eip :: u32

definition frame_words :: "trap_frame \<Rightarrow> u32 list" where
  "frame_words f = [tf_gs f, tf_fs f, tf_es f, tf_ds f, tf_edi f, tf_esi f, tf_ebp f, tf_esp f, tf_ebx f,
     tf_edx f, tf_ecx f, tf_eax f, tf_interrupt f, tf_error f, tf_eip f, tf_cs f, tf_eflags f,
     tf_usermode_esp f, tf_usermode_ss f]"

definition context_words :: "return_context \<Rightarrow> u32 list" where
  "context_words c = [rc_edi c, rc_esi c, rc_ebx c, rc_ebp c, rc_eip c]"

text \<open>Stores of consecutive words.\<close>

definition vstores :: "u32 \<Rightarrow> u32 list \<Rightarrow> 'a vm_state_scheme \<Rightarrow> 'a vm_state_scheme res" where
  "vstores p ws s = for_res 0 (length ws) (\<lambda>i t. vstore (elem p i) (ws ! i) t) s"

section \<open>The table\<close>

definition setup_tasks :: "'a kern_state_scheme \<Rightarrow> 'a kern_state_scheme" where
  "setup_tasks s =
     s\<lparr>tasks := (replicate MAX_TASKS no_task)
         [0 := no_task\<lparr>task_id := 1000, task_state := TASK_STATE_IDLE,
            pagedir := mem_get_current_page_directory s, task_name := ''root''\<rparr>],
       num_tasks := 1, current_task := 0, current_task_index := 0\<rparr>"

definition find_available_task_slot :: "task list \<Rightarrow> nat res" where
  "find_available_task_slot ts =
     (case first_index (\<lambda>i. task_state (ts ! i) = TASK_STATE_DEAD) MAX_TASKS of
        Some i \<Rightarrow> Inr i | None \<Rightarrow> Inl Assert_Failed)"

interpretation task_slots: slot_search "\<lambda>ts i. task_state (ts ! i) = TASK_STATE_DEAD" MAX_TASKS find_available_task_slot
  by unfold_locales (simp add: find_available_task_slot_def)

section \<open>New tasks\<close>

definition initial_frame :: "u32 \<Rightarrow> bool \<Rightarrow> trap_frame" where
  "initial_frame eip kernel_task =
     (let code_selector = if kernel_task then GDT_KERNEL_CODE else GDT_USER_CODE OR DPL_USER;
          data_selector = if kernel_task then GDT_KERNEL_DATA else GDT_USER_DATA OR DPL_USER
      in \<lparr>tf_gs = data_selector, tf_fs = data_selector, tf_es = data_selector, tf_ds = data_selector,
          tf_edi = 0, tf_esi = 0, tf_ebp = 0, tf_esp = 0, tf_ebx = 0, tf_edx = 0, tf_ecx = 0, tf_eax = 0,
          tf_interrupt = 0, tf_error = 0, tf_eip = eip, tf_cs = code_selector, tf_eflags = 0x200,
          tf_usermode_esp = USER_STACK_BOTTOM, tf_usermode_ss = data_selector\<rparr>)"

definition initial_context :: "u32 \<Rightarrow> return_context" where
  "initial_context isr_exit = \<lparr>rc_edi = 0, rc_esi = 0, rc_ebx = 0, rc_ebp = 0, rc_eip = isr_exit\<rparr>"

text \<open>The kernel stack is a heap block; \<open>sizeof(TrapFrame)\<close> is 76, \<open>sizeof(TaskReturnContext)\<close> 20.\<close>

definition create_task :: "u32 \<Rightarrow> nat \<Rightarrow> u32 \<Rightarrow> bool \<Rightarrow> u32 \<Rightarrow> 'a kern_state_scheme \<Rightarrow> 'a kern_state_scheme run" where
  "create_task isr_exit index eip kernel_task pd s =
     run_then (Some (kassert (task_id (tasks s ! index) = 0) (Inr (upd_task index (\<lambda>_. no_task) s)))) (\<lambda>s1.
     run_then (kmalloc KERNEL_STACK_SIZE s1) (\<lambda>(block, s2).
     let kernel_stack = block + KERNEL_STACK_SIZE;
         trap = kernel_stack - 76;
         context = trap - 20
     in
     run_then (Some (vstores trap (frame_words (initial_frame eip kernel_task)) s2)) (\<lambda>s3.
     run_then (Some (vstores context (context_words (initial_context isr_exit)) s3)) (\<lambda>s4.
     Some (Inr (upd_task index (\<lambda>t. t\<lparr>kesp0 := kernel_stack, kesp := context, task_id := of_nat index + 1000,
         task_state := TASK_STATE_READY, pagedir := pd, is_kernel_task := kernel_task,
         task_shmem := (task_shmem t)\<lparr>vaddr_start := USER_SHARED_MEMORY\<rparr>\<rparr>) s4))))))"

definition create_kernel_task :: "u32 \<Rightarrow> u32 \<Rightarrow> 'a kern_state_scheme \<Rightarrow> (u32 \<times> 'a kern_state_scheme) run" where
  "create_kernel_task isr_exit func s =
     run_then (Some (find_available_task_slot (tasks s))) (\<lambda>index.
     let s1 = s\<lparr>num_tasks := num_tasks s + 1\<rparr> in
     run_then (create_task isr_exit index func True (initial_page_dir s1) s1) (\<lambda>s2.
     Some (Inr (task_id (tasks s2 ! index), s2))))"

text \<open>\<open>strcpy\<close> of \<open>util.c\<close> does not copy the terminating zero: the rest of a longer old name stays.
  The name field has 256 bytes.\<close>

definition name_copy :: "string \<Rightarrow> string \<Rightarrow> string res" where
  "name_copy new old = in_bounds (length new) 257 (Inr (new @ drop (length new) old))"

definition create_named_kernel_task :: "u32 \<Rightarrow> u32 \<Rightarrow> string \<Rightarrow> 'a kern_state_scheme \<Rightarrow> 'a kern_state_scheme run" where
  "create_named_kernel_task isr_exit func name s =
     run_then (Some (find_available_task_slot (tasks s))) (\<lambda>index.
     let s1 = s\<lparr>num_tasks := num_tasks s + 1\<rparr> in
     run_then (create_task isr_exit index func True (initial_page_dir s1) s1) (\<lambda>s2.
     run_then (Some (name_copy name (task_name (tasks s2 ! index)))) (\<lambda>n.
     Some (Inr (upd_task index (\<lambda>t. t\<lparr>task_name := n\<rparr>) s2)))))"

section \<open>The end of a task\<close>

definition destroy_events_for_task :: "nat \<Rightarrow> 'a kern_state_scheme \<Rightarrow> 'a kern_state_scheme run" where
  "destroy_events_for_task i s =
     run_then (Some (kassert (0 \<le>s event_shmem_id (tasks s ! i)) (Inr s))) (\<lambda>s0.
     run_then (sharedmem_destroy (event_shmem_id (tasks s0 ! i)) s0) (\<lambda>s1.
     Some (Inr (upd_task i (\<lambda>t. t\<lparr>event_shmem_id := - 1\<rparr>) s1))))"

text \<open>Both early returns leave the critical section open.\<close>

definition kill_task :: "u32 \<Rightarrow> 'a kern_state_scheme \<Rightarrow> 'a kern_state_scheme run" where
  "kill_task tid s =
     (let s0 = push_cli s in
      if tid \<le> 1000 then Some (Inr s0)
      else
        run_then (Some (get_task tid s0)) (\<lambda>index.
        if task_state (tasks s0 ! index) = TASK_STATE_DEAD then Some (Inr s0)
        else
          run_then (if \<not> is_kernel_task (tasks s0 ! index) then destroy_events_for_task index s0
                    else Some (Inr s0)) (\<lambda>s1.
          run_then
            (for_run 0 MAX_SHARED_MEMORY_OBJS (\<lambda>i t.
               if owner_task_id (shmem t ! i) = tid then sharedmem_destroy (of_nat i) t else Some (Inr t)) s1) (\<lambda>s2.
          run_then (Some (mem_free_page_dir (pagedir (tasks s2 ! index)) s2)) (\<lambda>s3.
          run_then (kfree (kesp0 (tasks s3 ! index) - KERNEL_STACK_SIZE) s3) (\<lambda>s4.
          Some (pop_cli ((upd_task index (\<lambda>_. no_task) s4)\<lparr>num_tasks := num_tasks s4 - 1\<rparr>))))))))"

section \<open>Scheduling\<close>

partial_function (option) next_ready :: "task list \<Rightarrow> nat \<Rightarrow> nat option" where
  "next_ready ts index =
     (let i = (index + 1) mod MAX_TASKS in
      if task_state (ts ! i) = TASK_STATE_READY then Some i else next_ready ts i)"

definition choose_next_task :: "'a kern_state_scheme \<Rightarrow> nat option" where
  "choose_next_task s = (if num_tasks s = 1 then Some 0 else next_ready (tasks s) (current_task_index s))"

definition update_tss_esp0 :: "u32 \<Rightarrow> 'a kern_state_scheme \<Rightarrow> 'a kern_state_scheme" where
  "update_tss_esp0 esp0 s = s\<lparr>tss_esp0 := esp0\<rparr>"

text \<open>\<open>switch_context\<close>, called with the stack pointer \<open>esp\<close> after its four pushes: it saves the
  stack pointer of the old task and continues on the stack and in the address space of the
  new one.\<close>

definition switch_context :: "nat \<Rightarrow> nat \<Rightarrow> u32 \<Rightarrow> 'a kern_state_scheme \<Rightarrow> u32 \<times> 'a kern_state_scheme" where
  "switch_context old new esp s =
     (let s1 = upd_task old (\<lambda>t. t\<lparr>kesp := esp\<rparr>) s in
      (kesp (tasks s1 ! new), s1\<lparr>cr3 := pagedir (tasks s1 ! new) - KERNEL_START\<rparr>))"

definition task_schedule :: "u32 \<Rightarrow> 'a kern_state_scheme \<Rightarrow> (u32 \<times> 'a kern_state_scheme) option" where
  "task_schedule esp s =
     map_option (\<lambda>index.
       let old = current_task s;
           s1 = s\<lparr>current_task := index, current_task_index := index\<rparr>
       in switch_context old index esp (update_tss_esp0 (kesp0 (tasks s1 ! index)) s1))
     (choose_next_task s)"

end
