(* ===== verification/Console.thy ===== *)
theory Console
  imports Cpu
begin

text \<open>
  The text console (\<open>kernel/console.c\<close>): a character buffer of 16-bit cells with a cursor, and
  the line editor of the prompt. The buffer is the byte array behind \<open>console.buffer\<close>; its
  length is that of the memory it points into, so that a write outside it is a fault. The
  console is a component of its own; \<open>shell_execute\<close>, which it calls for a finished line, is
  supplied by its user.
\<close>

section \<open>State\<close>

record console =
  con_width :: u16
  con_height :: u16
  con_buffer :: "u8 list"
  cursor_x :: u16
  cursor_y :: u16
  clear_color :: u8
  prompt_pos :: nat
  prompt_buffer :: "u8 list"

definition PROMPT_SIZE :: nat where "PROMPT_SIZE = 256"

definition NEWLINE :: u8 where "NEWLINE = 10"
definition BACKSPACE :: u8 where "BACKSPACE = 8"
definition SPACE :: u8 where "SPACE = 32"

definition put_byte :: "nat \<Rightarrow> u8 \<Rightarrow> console \<Rightarrow> console res" where
  "put_byte i v c = in_bounds i (length (con_buffer c)) (Inr (c\<lparr>con_buffer := (con_buffer c)[i := v]\<rparr>))"

definition get_byte :: "nat \<Rightarrow> console \<Rightarrow> u8 res" where
  "get_byte i c = in_bounds i (length (con_buffer c)) (Inr (con_buffer c ! i))"

text \<open>The index of the cell under the cursor: the 16-bit operands are promoted to \<open>int\<close>.\<close>

definition cell :: "console \<Rightarrow> nat" where
  "cell c = unat (cursor_x c) + unat (cursor_y c) * unat (con_width c)"

section \<open>Output\<close>

definition clear_prompt :: "console \<Rightarrow> console" where
  "clear_prompt c = c\<lparr>prompt_pos := 0, prompt_buffer := replicate PROMPT_SIZE 0\<rparr>"

definition vga_clear :: "console \<Rightarrow> console res" where
  "vga_clear c = for_res 0 (unat (con_width c) * unat (con_height c)) (\<lambda>i d.
     and_then (put_byte (2 * i) 0 d) (put_byte (2 * i + 1) (clear_color c))) c"

text \<open>\<open>vga_scroll_up\<close>: every line but the last takes the line below it; the last is cleared.\<close>

definition scroll_cell :: "nat \<Rightarrow> nat \<Rightarrow> nat \<Rightarrow> console \<Rightarrow> console res" where
  "scroll_cell w y x d =
     (let current = 2 * (x + y * w); next = 2 * (x + (y + 1) * w) in
      and_then (get_byte next d) (\<lambda>a.
      and_then (put_byte current a d) (\<lambda>d1.
      and_then (get_byte (next + 1) d1) (\<lambda>b.
      put_byte (current + 1) b d1))))"

definition vga_scroll_up :: "console \<Rightarrow> console res" where
  "vga_scroll_up c =
     (let w = unat (con_width c); h = unat (con_height c) in
      and_then (for_res 0 (h - 1) (\<lambda>y. for_res 0 w (scroll_cell w y)) (c\<lparr>cursor_y := cursor_y c - 1\<rparr>)) (\<lambda>d.
      for_res 0 w (\<lambda>x e.
        and_then (put_byte (2 * (x + (h - 1) * w)) 0 e) (put_byte (2 * (x + (h - 1) * w) + 1) (clear_color e))) d))"

definition vga_newline :: "console \<Rightarrow> console res" where
  "vga_newline c =
     (let d = c\<lparr>cursor_x := 0, cursor_y := cursor_y c + 1\<rparr> in
      if cursor_y d \<ge> con_height d then vga_scroll_up d else Inr d)"

definition vga_write_char :: "u8 \<Rightarrow> console \<Rightarrow> console res" where
  "vga_write_char ch c =
     (if ch = NEWLINE then vga_newline c
      else if ch = BACKSPACE then
        (let d = c\<lparr>cursor_x := cursor_x c - 1\<rparr> in put_byte (2 * cell d) SPACE d)
      else
        and_then (put_byte (2 * cell c) ch c) (\<lambda>d.
        let e = d\<lparr>cursor_x := cursor_x d + 1\<rparr> in
        if cursor_x e = con_width e then vga_newline e else Inr e))"

text \<open>\<open>update_cursor_pos\<close> writes the cursor position to the VGA registers.\<close>

definition cursor_ports :: "console \<Rightarrow> (u16 \<times> u8) list" where
  "cursor_ports c =
     (let pos = cursor_y c * con_width c + cursor_x c in
      [(0x3D4, 0x0F), (0x3D5, ucast (pos AND 0xFF)), (0x3D4, 0x0E), (0x3D5, ucast (drop_bit 8 pos AND 0xFF))])"

fun write_chars :: "u8 list \<Rightarrow> console \<Rightarrow> console res" where
  "write_chars [] c = Inr c"
| "write_chars (ch # s) c = and_then (vga_write_char ch c) (write_chars s)"

text \<open>\<open>console_print\<close>: the characters before the terminating zero, and then the cursor.\<close>

definition console_print :: "u8 list \<Rightarrow> console \<Rightarrow> (console \<times> (u16 \<times> u8) list) res" where
  "console_print str c =
     and_then (write_chars (takeWhile (\<lambda>ch. ch \<noteq> 0) str) c) (\<lambda>d. Inr (d, cursor_ports d))"

definition console_set_prompt_enabled :: "bool \<Rightarrow> console \<Rightarrow> (console \<times> (u16 \<times> u8) list) res" where
  "console_set_prompt_enabled enabled c = (if enabled then console_print [62, SPACE] c else Inr (c, []))"

definition init_console :: "bool \<Rightarrow> u8 list \<Rightarrow> (console \<times> (u16 \<times> u8) list) res" where
  "init_console graphics_enabled memory =
     (let c = \<lparr>con_width = 80, con_height = (if graphics_enabled then 50 else 25), con_buffer = memory,
               cursor_x = 0, cursor_y = 0, clear_color = 0xA, prompt_pos = 0, prompt_buffer = replicate PROMPT_SIZE 0\<rparr> in
      and_then (vga_clear (clear_prompt c)) (\<lambda>d. Inr (d, cursor_ports d)))"

section \<open>The prompt\<close>

text \<open>The editing part of \<open>console_key_typed\<close>: \<open>None\<close> is an early return.\<close>

definition edit_prompt :: "u8 \<Rightarrow> console \<Rightarrow> console option" where
  "edit_prompt ch c =
     (if ch = BACKSPACE then
        (if prompt_pos c = 0 then None
         else Some (c\<lparr>prompt_buffer := (prompt_buffer c)[prompt_pos c := 0], prompt_pos := prompt_pos c - 1\<rparr>))
      else if prompt_pos c = PROMPT_SIZE - 1 then None
      else Some (c\<lparr>prompt_buffer := (prompt_buffer c)[prompt_pos c := ch], prompt_pos := prompt_pos c + 1\<rparr>))"

text \<open>\<open>console_key_typed\<close>, with the state \<open>'s\<close> that \<open>shell\<close> works on; the last component is the
  list of port writes, empty exactly for the early returns (which ask for no redraw).\<close>

definition console_key_typed ::
    "(u8 list \<Rightarrow> console \<Rightarrow> 's \<Rightarrow> (console \<times> 's) run) \<Rightarrow> u8 \<Rightarrow> console \<Rightarrow> 's \<Rightarrow>
     (console \<times> 's \<times> (u16 \<times> u8) list) run" where
  "console_key_typed shell ch c s =
     (case edit_prompt ch c of
        None \<Rightarrow> Some (Inr (c, s, []))
      | Some d \<Rightarrow>
          run_then (Some (vga_write_char ch d)) (\<lambda>e.
          if ch = NEWLINE then
            run_then (shell (prompt_buffer e) e s) (\<lambda>(f, t).
            run_then (Some (console_print [62, SPACE] (clear_prompt f))) (\<lambda>(g, ports).
            Some (Inr (g, t, ports @ cursor_ports g))))
          else Some (Inr (e, s, cursor_ports e))))"

end
