(* ===== verification/Console_Props.thy ===== *)
theory Console_Props
  imports Console
begin

text \<open>
  The console stays inside its buffer for every output without a backspace, scrolling moves
  the lines up by one, the prompt is a line editor, and a backspace in the first column
  writes outside the buffer.
\<close>

section \<open>Invariant\<close>

definition con_ok :: "console \<Rightarrow> bool" where
  "con_ok c \<longleftrightarrow> length (con_buffer c) = 2 * (unat (con_width c) * unat (con_height c)) \<and>
     cursor_x c < con_width c \<and> cursor_y c < con_height c"

lemma cell_bound: "x < w \<Longrightarrow> y < h \<Longrightarrow> x + y * w < w * (h :: nat)"
proof -
  assume x: "x < w" and y: "y < h"
  have "x + y * w < Suc y * w" using x by simp
  also have "\<dots> \<le> h * w" using y by (intro mult_le_mono1) simp
  finally show ?thesis by (simp add: mult.commute)
qed

lemma u16_bound: "unat (x :: 16 word) < 65536"
  using unsigned_less [of x] by simp

lemma unat_minus_1_16: "unat (- 1 :: 16 word) = 65535"
  by (simp add: unsigned_minus_1_eq_mask mask_eq_exp_minus_1)

lemma put_byte_ok: "i < length (con_buffer c) \<Longrightarrow> put_byte i v c = Inr (c\<lparr>con_buffer := (con_buffer c)[i := v]\<rparr>)"
  by (simp add: put_byte_def)

lemma get_byte_ok: "i < length (con_buffer c) \<Longrightarrow> get_byte i c = Inr (con_buffer c ! i)"
  by (simp add: get_byte_def)

section \<open>Scrolling\<close>

text \<open>The buffer after the first \<open>k\<close> cells have been moved, and after the first \<open>j\<close> cells of the
  last line have been cleared.\<close>

definition moved :: "nat \<Rightarrow> nat \<Rightarrow> u8 list \<Rightarrow> u8 list" where
  "moved w k b = map (\<lambda>i. if i < 2 * k then b ! (i + 2 * w) else b ! i) [0..<length b]"

definition cleared_line :: "nat \<Rightarrow> nat \<Rightarrow> u8 \<Rightarrow> u8 list \<Rightarrow> u8 list" where
  "cleared_line lo j v b = map (\<lambda>i. if 2 * lo \<le> i \<and> i < 2 * (lo + j) then (if even i then 0 else v) else b ! i) [0..<length b]"

lemma moved_0: "moved w 0 b = b"
  by (simp add: moved_def map_nth)

lemma cleared_line_0: "cleared_line lo 0 v b = b"
  by (rule nth_equalityI) (auto simp: cleared_line_def)

lemma length_moved [simp]: "length (moved w k b) = length b" "length (cleared_line lo j v b) = length b"
  by (simp_all add: moved_def cleared_line_def)

lemma scroll_cell_eq:
  assumes "2 * (x + (y + 1) * w) + 1 < length (con_buffer c)"
  shows "scroll_cell w y x (c\<lparr>con_buffer := moved w (x + y * w) (con_buffer c)\<rparr>) =
    Inr (c\<lparr>con_buffer := moved w (Suc (x + y * w)) (con_buffer c)\<rparr>)"
proof -
  let ?k = "x + y * w" and ?b = "con_buffer c"
  have n: "x + (y + 1) * w = ?k + w" by simp
  have b: "2 * (?k + w) + 1 < length ?b" using assms unfolding n .
  have "(moved w ?k ?b)[2 * ?k := ?b ! (2 * (?k + w)), 2 * ?k + 1 := ?b ! (2 * (?k + w) + 1)] = moved w (Suc ?k) ?b"
  proof (rule nth_equalityI)
    fix i assume "i < length ((moved w ?k ?b)[2 * ?k := ?b ! (2 * (?k + w)), 2 * ?k + 1 := ?b ! (2 * (?k + w) + 1)])"
    then have i: "i < length ?b" by simp
    consider "i = 2 * ?k" | "i = 2 * ?k + 1" | "i < 2 * ?k" | "2 * ?k + 1 < i" by linarith
    then show "(moved w ?k ?b)[2 * ?k := ?b ! (2 * (?k + w)), 2 * ?k + 1 := ?b ! (2 * (?k + w) + 1)] ! i = moved w (Suc ?k) ?b ! i"
      using i b by cases (simp_all add: moved_def nth_list_update algebra_simps)
  qed simp
  moreover have "moved w ?k ?b ! (2 * (?k + w)) = ?b ! (2 * (?k + w))"
    "(moved w ?k ?b)[2 * ?k := a] ! (2 * (?k + w) + 1) = ?b ! (2 * (?k + w) + 1)" for a
    using b by (simp_all add: moved_def nth_list_update)
  ultimately show ?thesis unfolding scroll_cell_def Let_def n using b by (simp add: get_byte_def put_byte_def)
qed

lemma scroll_rows:
  assumes len: "length (con_buffer c) = 2 * (w * h)" and h: "0 < h"
  shows "for_res 0 (h - 1) (\<lambda>y. for_res 0 w (scroll_cell w y)) c = Inr (c\<lparr>con_buffer := moved w ((h - 1) * w) (con_buffer c)\<rparr>)"
proof -
  let ?st = "\<lambda>k. c\<lparr>con_buffer := moved w k (con_buffer c)\<rparr>"
  have row: "for_res 0 w (scroll_cell w y) (?st (y * w)) = Inr (?st (Suc y * w))" if y: "y < h - 1" for y
  proof -
    have "\<exists>d. for_res 0 w (scroll_cell w y) (?st (y * w)) = Inr d \<and> d = ?st (w + y * w)"
    proof (rule for_res_rule [where I = "\<lambda>x d. d = ?st (x + y * w)"])
      fix x d assume x: "x < w" and d: "d = ?st (x + y * w)"
      have "x + (y + 1) * w < w * h" by (rule cell_bound) (use x y in auto)
      then show "\<exists>d'. scroll_cell w y x d = Inr d' \<and> d' = ?st (Suc x + y * w)"
        unfolding d using scroll_cell_eq [of x y w c] len by simp
    qed simp_all
    then show ?thesis by simp
  qed
  have "\<exists>d. for_res 0 (h - 1) (\<lambda>y. for_res 0 w (scroll_cell w y)) c = Inr d \<and> d = ?st ((h - 1) * w)"
    by (rule for_res_rule [where I = "\<lambda>y d. d = ?st (y * w)"]) (use row in \<open>auto simp: moved_0\<close>)
  then show ?thesis by simp
qed

lemma clear_line_eq:
  assumes "2 * (lo + w) \<le> length (con_buffer c)"
  shows "for_res 0 w (\<lambda>x e. and_then (put_byte (2 * (x + lo)) 0 e) (put_byte (2 * (x + lo) + 1) (clear_color e))) c =
    Inr (c\<lparr>con_buffer := cleared_line lo w (clear_color c) (con_buffer c)\<rparr>)"
proof -
  let ?st = "\<lambda>j. c\<lparr>con_buffer := cleared_line lo j (clear_color c) (con_buffer c)\<rparr>"
  let ?body = "\<lambda>x e. and_then (put_byte (2 * (x + lo)) 0 e) (put_byte (2 * (x + lo) + 1) (clear_color e))"
  have "\<exists>d. for_res 0 w ?body c = Inr d \<and> d = ?st w"
  proof (rule for_res_rule [where I = "\<lambda>j d. d = ?st j"])
    show "c = ?st 0" by (simp add: cleared_line_0)
    fix x d assume x: "x < w" and d: "d = ?st x"
    let ?b = "con_buffer c"
    have b: "2 * (x + lo) + 1 < length ?b" using x assms by simp
    have "(cleared_line lo x (clear_color c) ?b)[2 * (x + lo) := 0, 2 * (x + lo) + 1 := clear_color c] =
        cleared_line lo (Suc x) (clear_color c) ?b"
    proof (rule nth_equalityI)
      fix i assume "i < length ((cleared_line lo x (clear_color c) ?b)[2 * (x + lo) := 0, 2 * (x + lo) + 1 := clear_color c])"
      then have i: "i < length ?b" by simp
      consider "i = 2 * (x + lo)" | "i = 2 * (x + lo) + 1" | "i < 2 * (x + lo)" | "2 * (x + lo) + 1 < i" by linarith
      then show "(cleared_line lo x (clear_color c) ?b)[2 * (x + lo) := 0, 2 * (x + lo) + 1 := clear_color c] ! i =
          cleared_line lo (Suc x) (clear_color c) ?b ! i"
        using i b by cases (simp_all add: cleared_line_def nth_list_update algebra_simps)
    qed simp
    then show "\<exists>d'. ?body x d = Inr d' \<and> d' = ?st (Suc x)" unfolding d using b by (simp add: put_byte_def)
  qed simp
  then show ?thesis by simp
qed

text \<open>The buffer after scrolling.\<close>

definition scrolled :: "nat \<Rightarrow> nat \<Rightarrow> u8 \<Rightarrow> u8 list \<Rightarrow> u8 list" where
  "scrolled w h v b = cleared_line ((h - 1) * w) w v (moved w ((h - 1) * w) b)"

lemma vga_scroll_up_eq:
  assumes len: "length (con_buffer c) = 2 * (unat (con_width c) * unat (con_height c))" and h: "con_height c \<noteq> 0"
  shows "vga_scroll_up c = Inr (c\<lparr>cursor_y := cursor_y c - 1,
    con_buffer := scrolled (unat (con_width c)) (unat (con_height c)) (clear_color c) (con_buffer c)\<rparr>)"
proof -
  let ?w = "unat (con_width c)" and ?h = "unat (con_height c)" and ?c = "c\<lparr>cursor_y := cursor_y c - 1\<rparr>"
  have h0: "0 < ?h" using h unat_gt_0 by blast
  have "(?h - 1) * ?w + ?w = ?w * ?h" using h0 by (cases ?h) (simp_all add: algebra_simps)
  then have "2 * ((?h - 1) * ?w + ?w) \<le> length (con_buffer c)" using len by simp
  with scroll_rows [of ?c ?w ?h] clear_line_eq [of "(?h - 1) * ?w" ?w "?c\<lparr>con_buffer := moved ?w ((?h - 1) * ?w) (con_buffer c)\<rparr>"]
  show ?thesis using len h0 by (simp add: vga_scroll_up_def Let_def scrolled_def)
qed

lemma scrolled_nth:
  assumes "length b = 2 * (w * h)" and "x < w" and "k < 2"
  shows "y < h - 1 \<Longrightarrow> scrolled w h v b ! (2 * (x + y * w) + k) = b ! (2 * (x + (y + 1) * w) + k)"
    and "0 < h \<Longrightarrow> scrolled w h v b ! (2 * (x + (h - 1) * w) + k) = (if k = 0 then 0 else v)"
proof -
  assume y: "y < h - 1"
  have lt: "x + y * w < w * (h - 1)" by (rule cell_bound) (use assms y in auto)
  then have lt': "2 * (x + y * w) + k < 2 * ((h - 1) * w)" using assms(3) by (simp add: mult.commute)
  have "x + y * w < w * h" by (rule cell_bound) (use assms y in auto)
  then have "2 * (x + y * w) + k < length b" using assms(1,3) by simp
  with lt' show "scrolled w h v b ! (2 * (x + y * w) + k) = b ! (2 * (x + (y + 1) * w) + k)"
    by (simp add: scrolled_def cleared_line_def moved_def algebra_simps)
next
  assume h: "0 < h"
  have "x + (h - 1) * w < w * h" by (rule cell_bound) (use assms h in auto)
  then have i: "2 * (x + (h - 1) * w) + k < length b" using assms by simp
  have k: "k = 0 \<or> k = 1" using assms(3) by auto
  have r: "2 * ((h - 1) * w) \<le> 2 * (x + (h - 1) * w) + k" "2 * (x + (h - 1) * w) + k < 2 * ((h - 1) * w + w)"
    using assms(2,3) by simp_all
  show "scrolled w h v b ! (2 * (x + (h - 1) * w) + k) = (if k = 0 then 0 else v)"
    using i r k unfolding scrolled_def cleared_line_def by auto
qed

section \<open>Output without backspaces\<close>

lemma length_scrolled [simp]: "length (scrolled w h v b) = length b"
  by (simp add: scrolled_def)

lemma vga_newline_ok:
  assumes "length (con_buffer c) = 2 * (unat (con_width c) * unat (con_height c))" and "con_width c \<noteq> 0"
    and "cursor_y c < con_height c"
  shows "\<exists>d. vga_newline c = Inr d \<and> con_ok d \<and> cursor_x d = 0 \<and> con_width d = con_width c \<and>
    con_height d = con_height c \<and> clear_color d = clear_color c \<and>
    prompt_pos d = prompt_pos c \<and> prompt_buffer d = prompt_buffer c"
proof -
  let ?d = "c\<lparr>cursor_x := 0, cursor_y := cursor_y c + 1\<rparr>"
  have w: "0 < con_width c" using assms(2) by (simp add: word_neq_0_conv)
  have h: "con_height c \<noteq> 0" using assms(3) by auto
  show ?thesis
  proof (cases "cursor_y c + 1 \<ge> con_height c")
    case True
    then have "vga_newline c = vga_scroll_up ?d" by (simp add: vga_newline_def Let_def)
    moreover note vga_scroll_up_eq [of ?d]
    ultimately show ?thesis using assms w h by (simp add: con_ok_def)
  next
    case False
    then show ?thesis using assms w by (simp add: vga_newline_def Let_def con_ok_def)
  qed
qed

lemma vga_write_char_ok:
  assumes ok: "con_ok c" and ch: "ch \<noteq> BACKSPACE"
  shows "\<exists>d. vga_write_char ch c = Inr d \<and> con_ok d \<and> con_width d = con_width c \<and> con_height d = con_height c \<and>
    clear_color d = clear_color c \<and> prompt_pos d = prompt_pos c \<and> prompt_buffer d = prompt_buffer c"
proof -
  have len: "length (con_buffer c) = 2 * (unat (con_width c) * unat (con_height c))"
    and x: "cursor_x c < con_width c" and y: "cursor_y c < con_height c" using ok by (simp_all add: con_ok_def)
  have w0: "con_width c \<noteq> 0" using x by auto
  have cell: "cell c < unat (con_width c) * unat (con_height c)"
    unfolding cell_def using x y by (intro cell_bound) (simp_all add: word_less_nat_alt)
  let ?d = "c\<lparr>con_buffer := (con_buffer c)[2 * cell c := ch], cursor_x := cursor_x c + 1\<rparr>"
  show ?thesis
  proof (cases "ch = NEWLINE")
    case True
    then show ?thesis using vga_newline_ok [OF len w0 y] by (auto simp: vga_write_char_def)
  next
    case False
    then have eq: "vga_write_char ch c = (if cursor_x c + 1 = con_width c then vga_newline ?d else Inr ?d)"
      using ch cell len by (simp add: vga_write_char_def put_byte_def Let_def)
    show ?thesis
    proof (cases "cursor_x c + 1 = con_width c")
      case True
      then show ?thesis using eq vga_newline_ok [of ?d] len w0 y by auto
    next
      case False
      have "cursor_x c + 1 < con_width c" using False x inc_le [OF x] by simp
      then show ?thesis using eq False len y by (simp add: con_ok_def)
    qed
  qed
qed

lemma write_chars_ok:
  assumes "con_ok c" and "BACKSPACE \<notin> set str"
  shows "\<exists>d. write_chars str c = Inr d \<and> con_ok d \<and> con_width d = con_width c \<and> con_height d = con_height c \<and>
    prompt_pos d = prompt_pos c \<and> prompt_buffer d = prompt_buffer c"
  using assms
proof (induction str arbitrary: c)
  case (Cons ch str)
  then obtain d where d: "vga_write_char ch c = Inr d" "con_ok d" "con_width d = con_width c" "con_height d = con_height c"
    "prompt_pos d = prompt_pos c" "prompt_buffer d = prompt_buffer c"
    using vga_write_char_ok [of c ch] by auto
  then show ?case using Cons.IH [of d] Cons.prems by simp
qed simp

section \<open>The line editor\<close>

definition edit_line :: "u8 \<Rightarrow> u8 list \<Rightarrow> u8 list" where
  "edit_line ch line =
     (if ch = BACKSPACE then butlast line else if length line = PROMPT_SIZE - 1 then line else line @ [ch])"

text \<open>Above the position there are only zeros; the byte at the position may be that of a deleted
  character.\<close>

definition prompt_ok :: "console \<Rightarrow> u8 list \<Rightarrow> bool" where
  "prompt_ok c line \<longleftrightarrow> length (prompt_buffer c) = PROMPT_SIZE \<and> prompt_pos c = length line \<and>
     length line < PROMPT_SIZE \<and> take (length line) (prompt_buffer c) = line \<and>
     (\<forall>i. length line < i \<longrightarrow> i < PROMPT_SIZE \<longrightarrow> prompt_buffer c ! i = 0)"

definition edited :: "u8 \<Rightarrow> console \<Rightarrow> console" where
  "edited ch c = (case edit_prompt ch c of None \<Rightarrow> c | Some d \<Rightarrow> d)"

lemma prompt_ok_clear: "prompt_ok (clear_prompt c) []"
  by (simp add: prompt_ok_def clear_prompt_def PROMPT_SIZE_def)

lemma prompt_ok_edited:
  assumes "prompt_ok c line"
  shows "prompt_ok (edited ch c) (edit_line ch line)"
proof -
  have len: "length (prompt_buffer c) = PROMPT_SIZE" and pos: "prompt_pos c = length line"
    and lt: "length line < PROMPT_SIZE" and tk: "take (length line) (prompt_buffer c) = line"
    and z: "\<And>i. length line < i \<Longrightarrow> i < PROMPT_SIZE \<Longrightarrow> prompt_buffer c ! i = 0"
    using assms by (simp_all add: prompt_ok_def)
  consider "ch = BACKSPACE" "line = []" | "ch = BACKSPACE" "line \<noteq> []" | "ch \<noteq> BACKSPACE" "length line = PROMPT_SIZE - 1"
    | "ch \<noteq> BACKSPACE" "length line < PROMPT_SIZE - 1" using lt by linarith
  then show ?thesis
  proof cases
    case 2
    let ?b = "(prompt_buffer c)[length line := 0]"
    have "take (length line - 1) ?b = butlast line"
      using tk by (metis butlast_take diff_le_self lt len less_imp_le_nat take_update_cancel)
    moreover have "?b ! i = 0" if "length line - 1 < i" "i < PROMPT_SIZE" for i
      using that z [of i] len lt by (cases "i = length line") auto
    ultimately show ?thesis using 2 len lt pos
      by (auto simp: prompt_ok_def edited_def edit_prompt_def edit_line_def)
  next
    case 4
    have "take (Suc (length line)) ((prompt_buffer c)[length line := ch]) = line @ [ch]"
      using tk len lt by (simp add: take_Suc_conv_app_nth)
    then show ?thesis using 4 len lt pos z by (auto simp: prompt_ok_def edited_def edit_prompt_def edit_line_def nth_list_update)
  qed (use assms pos in \<open>auto simp: edited_def edit_prompt_def edit_line_def PROMPT_SIZE_def\<close>)
qed

lemma prompt_ok_keys:
  "prompt_ok c line \<Longrightarrow> prompt_ok (fold edited keys c) (fold edit_line keys line)"
  by (induction keys arbitrary: c line) (auto dest: prompt_ok_edited)

text \<open>What a reader of the buffer up to the first zero sees.\<close>

lemma prompt_string:
  assumes "prompt_ok c line" and "0 \<notin> set line" and "prompt_buffer c ! length line = 0"
  shows "takeWhile (\<lambda>ch. ch \<noteq> 0) (prompt_buffer c) = line"
proof -
  have lt: "length line < length (prompt_buffer c)" and tk: "take (length line) (prompt_buffer c) = line"
    using assms(1) by (simp_all add: prompt_ok_def)
  have "prompt_buffer c = line @ 0 # drop (Suc (length line)) (prompt_buffer c)"
    using id_take_nth_drop [OF lt] tk assms(3) by simp
  then have "takeWhile (\<lambda>ch. ch \<noteq> 0) (prompt_buffer c) =
      takeWhile (\<lambda>ch. ch \<noteq> 0) (line @ 0 # drop (Suc (length line)) (prompt_buffer c))" by simp
  also have "\<dots> = line" using assms(2) by (subst takeWhile_append2) auto
  finally show ?thesis .
qed

section \<open>Typing\<close>

fun type_keys :: "(u8 list \<Rightarrow> console \<Rightarrow> 's \<Rightarrow> (console \<times> 's) run) \<Rightarrow> u8 list \<Rightarrow> console \<Rightarrow> 's \<Rightarrow> (console \<times> 's) run" where
  "type_keys shell [] c s = Some (Inr (c, s))"
| "type_keys shell (ch # keys) c s =
     run_then (console_key_typed shell ch c s) (\<lambda>(d, t, ports). type_keys shell keys d t)"

lemma type_keys_append:
  "type_keys shell (xs @ ys) c s = run_then (type_keys shell xs c s) (\<lambda>(d, t). type_keys shell ys d t)"
proof (induction xs arbitrary: c s)
  case (Cons ch xs)
  then show ?case by (simp add: run_then_assoc split_def)
qed simp

text \<open>A line that fits behind the cursor: the cursor follows the length of the line.\<close>

definition typing :: "nat \<Rightarrow> u8 list \<Rightarrow> console \<Rightarrow> console \<Rightarrow> bool" where
  "typing x0 line c d \<longleftrightarrow> con_ok d \<and> con_width d = con_width c \<and> con_height d = con_height c \<and>
     prompt_ok d line \<and> unat (cursor_x d) = x0 + length line"

lemma con_ok_edited [simp]:
  "con_ok (edited ch d) = con_ok d" "con_width (edited ch d) = con_width d" "con_height (edited ch d) = con_height d"
  "cursor_x (edited ch d) = cursor_x d" "cursor_y (edited ch d) = cursor_y d" "con_buffer (edited ch d) = con_buffer d"
  by (auto simp: edited_def edit_prompt_def con_ok_def)

lemma key_typed_eq:
  "ch \<noteq> NEWLINE \<Longrightarrow> edit_prompt ch c \<noteq> None \<Longrightarrow> vga_write_char ch (edited ch c) = Inr e \<Longrightarrow>
   console_key_typed shell ch c s = Some (Inr (e, s, cursor_ports e))"
  by (auto simp: console_key_typed_def edited_def)

lemma typing_step:
  assumes t: "typing x0 line c d" and ch: "ch \<noteq> NEWLINE" and fit: "x0 + length line + 1 < unat (con_width c)"
    and short: "length line < PROMPT_SIZE - 1"
  shows "\<exists>e ports. console_key_typed shell ch d s = Some (Inr (e, s, ports)) \<and> typing x0 (edit_line ch line) c e"
proof -
  have ok: "con_ok d" and w: "con_width d = con_width c" and pr: "prompt_ok d line"
    and x: "unat (cursor_x d) = x0 + length line" using t by (simp_all add: typing_def)
  have len: "length (con_buffer d) = 2 * (unat (con_width d) * unat (con_height d))"
    and xy: "cursor_x d < con_width d" "cursor_y d < con_height d" using ok by (simp_all add: con_ok_def)
  have pr': "prompt_ok (edited ch d) (edit_line ch line)" by (rule prompt_ok_edited [OF pr])
  have pos: "prompt_pos d = length line" using pr by (simp add: prompt_ok_def)
  show ?thesis
  proof (cases "edit_prompt ch d")
    case None
    then have "ch = BACKSPACE" "line = []" using pos short by (auto simp: edit_prompt_def PROMPT_SIZE_def split: if_splits)
    then show ?thesis using t None by (auto simp: console_key_typed_def edit_line_def)
  next
    case (Some f)
    show ?thesis
    proof (cases "ch = BACKSPACE")
      case True
      then have ne: "0 < length line" using Some pos by (auto simp: edit_prompt_def split: if_splits)
      let ?g = "edited ch d\<lparr>cursor_x := cursor_x d - 1\<rparr>"
      have x1: "unat (cursor_x d - 1) = x0 + (length line - 1)"
        using unat_sub [of 1 "cursor_x d"] x ne by (cases line) (simp_all add: word_le_nat_alt)
      then have x2: "cursor_x d - 1 < con_width d" using xy(1) x by (simp add: word_less_nat_alt)
      have "cell ?g < unat (con_width d) * unat (con_height d)"
        unfolding cell_def using x2 xy(2) by (simp add: cell_bound word_less_nat_alt)
      then have "vga_write_char ch (edited ch d) = Inr (?g\<lparr>con_buffer := (con_buffer d)[2 * cell ?g := SPACE]\<rparr>)"
        using True len by (simp add: vga_write_char_def Let_def put_byte_def NEWLINE_def BACKSPACE_def)
      moreover have "typing x0 (edit_line ch line) c (?g\<lparr>con_buffer := (con_buffer d)[2 * cell ?g := SPACE]\<rparr>)"
        using t True ne pr' x1 x2 by (auto simp: typing_def con_ok_def prompt_ok_def edit_line_def)
      ultimately show ?thesis using key_typed_eq [OF ch] Some by (metis option.distinct(1))
    next
      case False
      let ?g = "edited ch d\<lparr>con_buffer := (con_buffer d)[2 * cell d := ch], cursor_x := cursor_x d + 1\<rparr>"
      have x1: "unat (cursor_x d + 1) = x0 + length line + 1"
        using x fit u16_bound [of "con_width c"] by (simp add: unat_add_small)
      then have x2: "cursor_x d + 1 < con_width d" using fit w by (simp add: word_less_nat_alt)
      have "cell d < unat (con_width d) * unat (con_height d)"
        unfolding cell_def using xy by (intro cell_bound) (simp_all add: word_less_nat_alt)
      then have "vga_write_char ch (edited ch d) = Inr ?g"
        using False ch len x2 by (auto simp: vga_write_char_def Let_def put_byte_def cell_def)
      moreover have "typing x0 (edit_line ch line) c ?g"
        using t False pr' x1 x2 short by (auto simp: typing_def con_ok_def prompt_ok_def edit_line_def PROMPT_SIZE_def)
      ultimately show ?thesis using key_typed_eq [OF ch] Some by (metis option.distinct(1))
    qed
  qed
qed

lemma length_edit_line: "length (edit_line ch line) \<le> Suc (length line)"
  by (auto simp: edit_line_def)

lemma typing_keys:
  assumes "typing x0 line c d" and "NEWLINE \<notin> set keys" and "x0 + length line + length keys < unat (con_width c)"
    and "length line + length keys < PROMPT_SIZE"
  shows "\<exists>e. type_keys shell keys d s = Some (Inr (e, s)) \<and> typing x0 (fold edit_line keys line) c e"
  using assms
proof (induction keys arbitrary: d line)
  case (Cons ch keys)
  obtain e ports where e: "console_key_typed shell ch d s = Some (Inr (e, s, ports))" "typing x0 (edit_line ch line) c e"
    using typing_step [OF Cons.prems(1), of ch shell s] Cons.prems by (auto simp: PROMPT_SIZE_def)
  have "\<exists>f. type_keys shell keys e s = Some (Inr (f, s)) \<and> typing x0 (fold edit_line keys (edit_line ch line)) c f"
    by (rule Cons.IH [OF e(2)]) (use Cons.prems length_edit_line [of ch line] in auto)
  then show ?case using e(1) by simp
qed simp

text \<open>Lines only hold keys that were typed.\<close>

lemma set_edit_line: "set (edit_line ch line) \<subseteq> insert ch (set line)"
  by (auto simp: edit_line_def dest: in_set_butlastD)

lemma set_edit_lines: "set (fold edit_line keys line) \<subseteq> set keys \<union> set line"
proof (induction keys arbitrary: line)
  case (Cons ch keys)
  then show ?case using set_edit_line [of ch line] by fastforce
qed simp

lemma length_edit_lines: "length (fold edit_line keys line) \<le> length keys + length line"
proof (induction keys arbitrary: line)
  case (Cons ch keys)
  have "length (fold edit_line keys (edit_line ch line)) \<le> length keys + length (edit_line ch line)" by (rule Cons.IH)
  also have "\<dots> \<le> length keys + Suc (length line)" using length_edit_line by simp
  finally show ?case by simp
qed simp

text \<open>A shell that records the buffer it is called with.\<close>

definition recording_shell :: "u8 list \<Rightarrow> console \<Rightarrow> u8 list \<Rightarrow> (console \<times> u8 list) run" where
  "recording_shell buf c s = Some (Inr (c, buf))"

lemma newline_typed:
  assumes ok: "con_ok d" and pr: "prompt_ok d line" and short: "length line < PROMPT_SIZE - 1" and z: "0 \<notin> set line"
  shows "\<exists>e ports buf. console_key_typed recording_shell NEWLINE d s = Some (Inr (e, buf, ports)) \<and>
    con_ok e \<and> prompt_ok e [] \<and> takeWhile (\<lambda>ch. ch \<noteq> 0) buf = line @ [NEWLINE]"
proof -
  have pos: "prompt_pos d = length line" using pr by (simp add: prompt_ok_def)
  have nb: "NEWLINE \<noteq> BACKSPACE" by (simp add: NEWLINE_def BACKSPACE_def)
  have ep: "edit_prompt NEWLINE d = Some (edited NEWLINE d)"
    using pos short nb by (simp add: edited_def edit_prompt_def PROMPT_SIZE_def)
  have pe: "prompt_ok (edited NEWLINE d) (line @ [NEWLINE])"
    using prompt_ok_edited [OF pr, of NEWLINE] nb short by (simp add: edit_line_def PROMPT_SIZE_def)
  obtain e where e: "vga_write_char NEWLINE (edited NEWLINE d) = Inr e" "con_ok e"
    "prompt_buffer e = prompt_buffer (edited NEWLINE d)"
    using vga_write_char_ok [of "edited NEWLINE d" NEWLINE] ok nb by auto
  have len: "length (prompt_buffer d) = PROMPT_SIZE" using pr by (simp add: prompt_ok_def)
  have "prompt_buffer (edited NEWLINE d) ! length (line @ [NEWLINE]) = 0"
    using pr pos short nb by (simp add: edited_def edit_prompt_def prompt_ok_def PROMPT_SIZE_def)
  then have str: "takeWhile (\<lambda>ch. ch \<noteq> 0) (prompt_buffer e) = line @ [NEWLINE]"
    unfolding e(3) by (intro prompt_string [OF pe]) (use z in \<open>auto simp: NEWLINE_def\<close>)
  have c: "con_ok (clear_prompt e)" using e(2) by (simp add: con_ok_def clear_prompt_def)
  have "BACKSPACE \<notin> set [62, SPACE]" by (simp add: BACKSPACE_def SPACE_def)
  from write_chars_ok [OF c this] obtain g where g: "write_chars [62, SPACE] (clear_prompt e) = Inr g" "con_ok g"
    "prompt_pos g = 0" "prompt_buffer g = replicate PROMPT_SIZE 0" by (auto simp: clear_prompt_def)
  have "takeWhile (\<lambda>ch. ch \<noteq> 0) [62, SPACE] = [62, SPACE]" by (simp add: SPACE_def)
  then have "console_print [62, SPACE] (clear_prompt e) = Inr (g, cursor_ports g)"
    using g(1) by (simp add: console_print_def)
  moreover have "prompt_ok g []" using g(3,4) by (simp add: prompt_ok_def PROMPT_SIZE_def)
  ultimately show ?thesis using ep e(1) str g(2)
    by (simp add: console_key_typed_def recording_shell_def NEWLINE_def [symmetric])
qed

section \<open>Properties\<close>

text \<open>C19: Output never leaves the screen. On a console whose cursor is inside its buffer, printing a
  string without backspaces writes only inside the buffer, whatever its length and however
  often it scrolls, and leaves the cursor inside again.\<close>

theorem console_output_safe:
  assumes "con_ok c" and "BACKSPACE \<notin> set str"
  shows "\<exists>d ports. console_print str c = Inr (d, ports) \<and> con_ok d \<and>
    con_width d = con_width c \<and> con_height d = con_height c \<and>
    length (con_buffer d) = length (con_buffer c)"
proof -
  have "BACKSPACE \<notin> set (takeWhile (\<lambda>ch. ch \<noteq> 0) str)" using assms(2) set_takeWhileD by metis
  with write_chars_ok [OF assms(1)] show ?thesis using assms(1) by (fastforce simp: console_print_def con_ok_def)
qed

definition example_console :: console where
  "example_console = \<lparr>con_width = 4, con_height = 2, con_buffer = [65, 1, 66, 1, 67, 1, 68, 1, 69, 2, 70, 2, 71, 2, 72, 2],
     cursor_x = 1, cursor_y = 1, clear_color = 10, prompt_pos = 0, prompt_buffer = replicate PROMPT_SIZE 0\<rparr>"

lemma example_console_ok: "con_ok example_console"
  by (simp add: con_ok_def example_console_def)

theorem console_output_safe_witness:
  "\<exists>d ports. console_print [72, 101, 108, 108, 111, 10, 33, 0] example_console = Inr (d, ports) \<and> con_ok d"
  using console_output_safe [OF example_console_ok, of "[72, 101, 108, 108, 111, 10, 33, 0]"]
  by (auto simp: BACKSPACE_def)

text \<open>Scrolling. \<open>vga_scroll_up\<close> moves every line up by one, characters and colours, blanks the
  last line in the clear colour, and moves the cursor up with its text.\<close>

theorem console_scroll:
  assumes "con_ok c" and "w = unat (con_width c)" and "h = unat (con_height c)"
  shows "\<exists>d. vga_scroll_up c = Inr d \<and> cursor_y d = cursor_y c - 1 \<and> cursor_x d = cursor_x c \<and>
    length (con_buffer d) = length (con_buffer c) \<and>
    (\<forall>x<w. \<forall>k<2. (\<forall>y<h - 1. con_buffer d ! (2 * (x + y * w) + k) = con_buffer c ! (2 * (x + (y + 1) * w) + k)) \<and>
       con_buffer d ! (2 * (x + (h - 1) * w) + k) = (if k = 0 then 0 else clear_color c))"
proof -
  have len: "length (con_buffer c) = 2 * (w * h)" and h: "con_height c \<noteq> 0" using assms by (auto simp: con_ok_def)
  have "0 < h" using h assms(3) unat_gt_0 by blast
  with vga_scroll_up_eq [of c] scrolled_nth [OF len] len h show ?thesis by (simp add: assms(2,3))
qed

theorem console_scroll_witness:
  "\<exists>d. vga_scroll_up example_console = Inr d \<and> con_buffer d ! 2 = 70 \<and> con_buffer d ! 10 = 0"
proof -
  have wh: "unat (con_width example_console) = 4" "unat (con_height example_console) = 2"
    by (simp_all add: example_console_def)
  from console_scroll [OF example_console_ok refl refl] obtain d where
    d: "vga_scroll_up example_console = Inr d"
    "\<forall>x<4. \<forall>k<2. (\<forall>y<2 - 1. con_buffer d ! (2 * (x + y * 4) + k) = con_buffer example_console ! (2 * (x + (y + 1) * 4) + k)) \<and>
       con_buffer d ! (2 * (x + (2 - 1) * 4) + k) = (if k = 0 then 0 else clear_color example_console)"
    unfolding wh by blast
  have "con_buffer d ! 2 = 70" "con_buffer d ! 10 = 0"
    using d(2) [rule_format, of 1 0] by (simp_all add: example_console_def)
  with d(1) show ?thesis by blast
qed

text \<open>C18: The prompt is a line editor. For keys that fit on the line behind the cursor, typing them
  and then a newline returns without a fault, and the shell is called with exactly the line
  that results from appending characters and removing the last one for each backspace,
  followed by the newline; afterwards the prompt is empty.\<close>

theorem console_prompt_line:
  assumes "con_ok c" and "prompt_ok c []" and "NEWLINE \<notin> set keys" and "0 \<notin> set keys"
    and "unat (cursor_x c) + length keys < unat (con_width c)" and "length keys < PROMPT_SIZE - 1"
  shows "\<exists>d buf. type_keys recording_shell (keys @ [NEWLINE]) c s = Some (Inr (d, buf)) \<and> con_ok d \<and> prompt_ok d [] \<and>
    takeWhile (\<lambda>ch. ch \<noteq> 0) buf = fold edit_line keys [] @ [NEWLINE]"
proof -
  have "typing (unat (cursor_x c)) [] c c" using assms(1,2) by (simp add: typing_def)
  from typing_keys [OF this assms(3), of recording_shell s] assms(5,6) obtain d where
    d: "type_keys recording_shell keys c s = Some (Inr (d, s))" "typing (unat (cursor_x c)) (fold edit_line keys []) c d"
    by (auto simp: PROMPT_SIZE_def)
  let ?line = "fold edit_line keys []"
  have "length ?line < PROMPT_SIZE - 1" "0 \<notin> set ?line"
    using length_edit_lines [of keys "[]"] set_edit_lines [of keys "[]"] assms(4,6) by auto
  with newline_typed [of d ?line s] d(2) show ?thesis
    using d(1) by (fastforce simp: typing_def type_keys_append)
qed

theorem console_prompt_line_witness:
  "\<exists>d buf. type_keys recording_shell ([107, 50, BACKSPACE] @ [NEWLINE]) (example_console\<lparr>con_width := 8, con_height := 1, cursor_y := 0\<rparr>) []
     = Some (Inr (d, buf)) \<and> takeWhile (\<lambda>ch. ch \<noteq> 0) buf = [107, NEWLINE]"
proof -
  let ?c = "example_console\<lparr>con_width := 8, con_height := 1, cursor_y := 0\<rparr>"
  have "con_ok ?c" "prompt_ok ?c []" by (simp_all add: con_ok_def prompt_ok_def example_console_def PROMPT_SIZE_def)
  from console_prompt_line [OF this, of "[107, 50, BACKSPACE]" "[]"] show ?thesis
    by (auto simp: example_console_def BACKSPACE_def NEWLINE_def PROMPT_SIZE_def edit_line_def)
qed

lemma write_line:
  assumes "con_ok c" and "ch \<noteq> BACKSPACE" and "ch \<noteq> NEWLINE" and "prompt_ok c line"
    and "unat (cursor_x c) + n = unat (con_width c)" and "0 < n" and "length line + n < PROMPT_SIZE"
  shows "\<exists>d. type_keys shell (replicate n ch) c s = Some (Inr (d, s)) \<and> con_ok d \<and> cursor_x d = 0 \<and>
    con_width d = con_width c \<and> con_height d = con_height c \<and> prompt_ok d (line @ replicate n ch)"
  using assms
proof (induction n arbitrary: c line)
  case (Suc n)
  have len: "length (con_buffer c) = 2 * (unat (con_width c) * unat (con_height c))"
    and xy: "cursor_x c < con_width c" "cursor_y c < con_height c" using Suc.prems(1) by (simp_all add: con_ok_def)
  have w0: "con_width c \<noteq> 0" using xy(1) by auto
  have pos: "prompt_pos c = length line" "length line < PROMPT_SIZE - 1"
    using Suc.prems(4,7) by (simp_all add: prompt_ok_def)
  have ep: "edit_prompt ch c \<noteq> None" using Suc.prems(2) pos by (simp add: edit_prompt_def)
  have pr: "prompt_ok (edited ch c) (line @ [ch])"
    using prompt_ok_edited [OF Suc.prems(4), of ch] Suc.prems(2) pos(2) by (simp add: edit_line_def)
  let ?g = "edited ch c\<lparr>con_buffer := (con_buffer c)[2 * cell c := ch], cursor_x := cursor_x c + 1\<rparr>"
  have cell: "cell c < unat (con_width c) * unat (con_height c)"
    unfolding cell_def using xy by (intro cell_bound) (simp_all add: word_less_nat_alt)
  have eq: "vga_write_char ch (edited ch c) = (if cursor_x c + 1 = con_width c then vga_newline ?g else Inr ?g)"
    using Suc.prems(2,3) cell len by (auto simp: vga_write_char_def Let_def put_byte_def cell_def)
  show ?case
  proof (cases "n = 0")
    case True
    then have "cursor_x c + 1 = con_width c" using Suc.prems(5) u16_bound [of "con_width c"]
      by (simp add: word_unat_eq_iff unat_add_small)
    with eq vga_newline_ok [of ?g] obtain d where d: "vga_write_char ch (edited ch c) = Inr d" "con_ok d" "cursor_x d = 0"
      "con_width d = con_width c" "con_height d = con_height c" "prompt_pos d = prompt_pos (edited ch c)"
      "prompt_buffer d = prompt_buffer (edited ch c)"
      using len w0 xy by auto
    have "prompt_ok d (line @ [ch])" using pr d(6,7) by (simp add: prompt_ok_def)
    then show ?thesis using True d(2-5) key_typed_eq [OF Suc.prems(3) ep d(1), of shell s] by simp
  next
    case False
    have u: "unat (cursor_x c + 1) = unat (cursor_x c) + 1"
      using Suc.prems(5) u16_bound [of "con_width c"] by (simp add: unat_add_small)
    then have ne: "cursor_x c + 1 \<noteq> con_width c" "cursor_x c + 1 < con_width c"
      using False Suc.prems(5) by (auto simp: word_less_nat_alt)
    have "\<exists>d. type_keys shell (replicate n ch) ?g s = Some (Inr (d, s)) \<and> con_ok d \<and> cursor_x d = 0 \<and>
        con_width d = con_width ?g \<and> con_height d = con_height ?g \<and> prompt_ok d ((line @ [ch]) @ replicate n ch)"
      by (rule Suc.IH) (use Suc.prems False pr ne u len in \<open>auto simp: con_ok_def prompt_ok_def\<close>)
    moreover have "console_key_typed shell ch c s = Some (Inr (?g, s, cursor_ports ?g))"
      by (rule key_typed_eq [OF Suc.prems(3) ep]) (use eq ne in simp)
    ultimately show ?thesis by simp
  qed
qed simp

text \<open>C20: Backspace after a wrapped line. When the typed characters fill the line exactly, the cursor
  wraps to the first column of the next line; a backspace then decrements the unsigned column
  0 to 65535 and writes its blank outside the buffer (which has 8000 bytes).\<close>

theorem console_backspace_overrun:
  assumes "con_ok c" and "prompt_ok c []" and "ch \<noteq> BACKSPACE" and "ch \<noteq> NEWLINE"
    and "unat (cursor_x c) + n = unat (con_width c)" and "n < PROMPT_SIZE" and "length (con_buffer c) \<le> 131070"
  shows "type_keys shell (replicate n ch @ [BACKSPACE]) c s = Some (Inl Out_Of_Bounds)"
proof -
  have "0 < n" using assms(1,5) by (auto simp: con_ok_def word_less_nat_alt)
  then obtain d where d: "type_keys shell (replicate n ch) c s = Some (Inr (d, s))" "con_ok d" "cursor_x d = 0"
    "con_width d = con_width c" "con_height d = con_height c" "prompt_ok d (replicate n ch)"
    using write_line [OF assms(1,3,4,2,5), of shell s] assms(6) by auto
  have len: "length (con_buffer d) = length (con_buffer c)" using d(2,4,5) assms(1) by (simp add: con_ok_def)
  have "prompt_pos d = n" using d(6) by (simp add: prompt_ok_def)
  then have "edit_prompt BACKSPACE d = Some (edited BACKSPACE d)" using \<open>0 < n\<close> by (simp add: edited_def edit_prompt_def)
  moreover have "vga_write_char BACKSPACE (edited BACKSPACE d) = Inl Out_Of_Bounds"
    using d(3) len assms(7)
    by (simp add: vga_write_char_def Let_def put_byte_def cell_def NEWLINE_def BACKSPACE_def unat_minus_1_16)
  ultimately show ?thesis using d(1) by (simp add: type_keys_append console_key_typed_def)
qed

theorem console_backspace_overrun_witness:
  "type_keys recording_shell (replicate 3 97 @ [BACKSPACE]) example_console [] = Some (Inl Out_Of_Bounds)"
  by (rule console_backspace_overrun [OF example_console_ok])
    (simp_all add: prompt_ok_def example_console_def PROMPT_SIZE_def BACKSPACE_def NEWLINE_def)

end
