(* ===== verification/Sgfx.thy ===== *)
theory Sgfx
  imports Cpu
begin

text \<open>
  The software graphics library (\<open>sgfx/sgfx.c\<close>, which \<open>kernel/graphics.c\<close> wraps and which is
  linked into the user programs as well). A graphics context is its frame buffer, a list of
  pixels, with the size in pixels; a write outside the list is a fault. \<open>int32_t\<close> coordinates
  are integers; the font bitmap (\<open>sgfx_font.inc\<close>) and the source image are arguments.
\<close>

section \<open>Contexts\<close>

record graphics_context =
  framebuffer :: "u32 list"
  ctx_width :: u32
  ctx_height :: u32
  bytesize :: u32

definition sgfx_init :: "u32 list \<Rightarrow> u32 \<Rightarrow> u32 \<Rightarrow> graphics_context" where
  "sgfx_init fb width height =
     \<lparr>framebuffer = fb, ctx_width = width, ctx_height = height, bytesize = width * height * 4\<rparr>"

text \<open>\<open>ctx->framebuffer[i] = color\<close> with the unsigned index \<open>x + y * ctx->width\<close>.\<close>

definition put_index :: "u32 \<Rightarrow> u32 \<Rightarrow> graphics_context \<Rightarrow> graphics_context res" where
  "put_index i color c =
     in_bounds (unat i) (length (framebuffer c)) (Inr (c\<lparr>framebuffer := (framebuffer c)[unat i := color]\<rparr>))"

definition put_pixel :: "int \<Rightarrow> int \<Rightarrow> u32 \<Rightarrow> graphics_context \<Rightarrow> graphics_context res" where
  "put_pixel x y color c = put_index (of_int x + of_int y * ctx_width c) color c"

text \<open>\<open>x_memset\<close> stores \<open>len\<close> words, although its name and its remainder speak of bytes; a
  remainder of \<open>len\<close> modulo 4 is then copied, from wherever the source register points, behind
  the last word.\<close>

definition sgfx_fill :: "u32 \<Rightarrow> graphics_context \<Rightarrow> graphics_context res" where
  "sgfx_fill color c =
     (let size = drop_bit 2 (bytesize c) in
      and_then (for_res 0 (unat size) (\<lambda>i. put_index (of_nat i) color) c) (\<lambda>d.
      if size mod 4 = 0 then Inr d else Inl Out_Of_Bounds))"

section \<open>Rectangles\<close>

text \<open>The nested loops that \<open>sgfx_fill_rect\<close>, \<open>sgfx_copy_rect\<close> and \<open>sgfx_draw_char\<close> share:
  pixels outside the context are skipped; \<open>f xi yi\<close> is the colour of a pixel of the
  rectangle, \<open>None\<close> for a pixel that is left alone.\<close>

definition blit_pixel :: "int \<Rightarrow> int \<Rightarrow> (nat \<Rightarrow> nat \<Rightarrow> u32 option res) \<Rightarrow> nat \<Rightarrow> nat \<Rightarrow> graphics_context \<Rightarrow>
    graphics_context res" where
  "blit_pixel x y f yi xi c =
     (let x' = int xi + x in
      if x' < 0 \<or> x' \<ge> sint (ctx_width c) then Inr c
      else and_then (f xi yi) (\<lambda>v. case v of None \<Rightarrow> Inr c | Some color \<Rightarrow> put_pixel x' (int yi + y) color c))"

definition blit :: "int \<Rightarrow> int \<Rightarrow> int \<Rightarrow> int \<Rightarrow> (nat \<Rightarrow> nat \<Rightarrow> u32 option res) \<Rightarrow> graphics_context \<Rightarrow>
    graphics_context res" where
  "blit x y width height f c =
     for_res 0 (nat height) (\<lambda>yi d.
       let y' = int yi + y in
       if y' < 0 \<or> y' \<ge> sint (ctx_height d) then Inr d
       else for_res 0 (nat width) (blit_pixel x y f yi) d) c"

definition sgfx_fill_rect :: "int \<Rightarrow> int \<Rightarrow> int \<Rightarrow> int \<Rightarrow> u32 \<Rightarrow> graphics_context \<Rightarrow> graphics_context res" where
  "sgfx_fill_rect x y width height color c = blit x y width height (\<lambda>xi yi. Inr (Some color)) c"

text \<open>A pixel whose top byte is zero is transparent. \<open>source i\<close> reads the pixel at index \<open>i\<close> of the
  source; \<open>image xs\<close> is a source that is an array of its own.\<close>

definition image :: "u32 list \<Rightarrow> int \<Rightarrow> u32 res" where
  "image xs i = (if i < 0 then Inl Out_Of_Bounds else in_bounds (nat i) (length xs) (Inr (xs ! nat i)))"

definition source_pixel :: "(int \<Rightarrow> u32 res) \<Rightarrow> int \<Rightarrow> int \<Rightarrow> int \<Rightarrow> nat \<Rightarrow> nat \<Rightarrow> u32 option res" where
  "source_pixel source xsrc ysrc width xi yi =
     and_then (source ((xsrc + int xi) + (ysrc + int yi) * width)) (\<lambda>v. Inr (if drop_bit 24 v = 0 then None else Some v))"

definition sgfx_copy_rect :: "int \<Rightarrow> int \<Rightarrow> int \<Rightarrow> int \<Rightarrow> int \<Rightarrow> int \<Rightarrow> (int \<Rightarrow> u32 res) \<Rightarrow> graphics_context \<Rightarrow>
    graphics_context res" where
  "sgfx_copy_rect xdest ydest width height xsrc ysrc source c =
     blit xdest ydest width height (source_pixel source xsrc ysrc width) c"

section \<open>Text\<close>

text \<open>\<open>READ_BIT\<close>; glyphs are 10 by 10 pixels, 16 of them to a row of the bitmap.\<close>

definition read_bit :: "u8 list \<Rightarrow> nat \<Rightarrow> bool res" where
  "read_bit bitmap i =
     in_bounds (i div 8) (length bitmap) (Inr (bitmap ! (i div 8) AND drop_bit (i mod 8) 0x80 \<noteq> 0))"

definition glyph_pixel :: "u8 list \<Rightarrow> u8 \<Rightarrow> u32 \<Rightarrow> nat \<Rightarrow> nat \<Rightarrow> u32 option res" where
  "glyph_pixel font ch color x y =
     (let char_x = unat (ch AND 0xF) * 10; char_y = unat (drop_bit 4 ch) * 10 in
      and_then (read_bit font ((x + char_x) + (y + char_y) * 160)) (\<lambda>b. Inr (if b then Some color else None)))"

definition sgfx_draw_char :: "u8 list \<Rightarrow> u8 \<Rightarrow> int \<Rightarrow> int \<Rightarrow> u32 \<Rightarrow> graphics_context \<Rightarrow> graphics_context res" where
  "sgfx_draw_char font ch x0 y0 color c = blit x0 y0 10 10 (glyph_pixel font ch color) c"

fun sgfx_draw_string :: "u8 list \<Rightarrow> u8 list \<Rightarrow> int \<Rightarrow> int \<Rightarrow> u32 \<Rightarrow> graphics_context \<Rightarrow> graphics_context res" where
  "sgfx_draw_string font [] x y color c = Inr c"
| "sgfx_draw_string font (ch # str) x y color c =
     and_then (if ch \<noteq> 32 then sgfx_draw_char font ch x y color c else Inr c)
       (sgfx_draw_string font str (x + 10) y color)"

section \<open>Lines\<close>

definition clamp :: "int \<Rightarrow> int \<Rightarrow> int \<Rightarrow> int" where
  "clamp x a b = (if x < a then a else if x > b then b else x)"

text \<open>\<open>while (i < d) { ctx->framebuffer[i] = color; i += step; }\<close>; a step of zero does not end.\<close>

partial_function (option) fill_from :: "int \<Rightarrow> int \<Rightarrow> int \<Rightarrow> u32 \<Rightarrow> graphics_context \<Rightarrow> graphics_context run" where
  "fill_from step i d color c =
     (if i < d then
        run_then (Some (if i < 0 then Inl Out_Of_Bounds else put_index (of_int i) color c)) (fill_from step (i + step) d color)
      else Some (Inr c))"

definition sgfx_draw_hline :: "int \<Rightarrow> int \<Rightarrow> int \<Rightarrow> u32 \<Rightarrow> graphics_context \<Rightarrow> graphics_context run" where
  "sgfx_draw_hline x y w color c =
     (if w \<le> 0 then Some (Inr c)
      else if y < 0 \<or> y \<ge> uint (ctx_height c) then Some (Inr c)
      else
        (let x0 = clamp x 0 (uint (ctx_width c));
             x1 = clamp (x + w) 0 (uint (ctx_width c)) in
         if x1 - x0 \<le> 0 then Some (Inr c)
         else
           (let i = x0 + y * uint (ctx_width c) in fill_from 1 i (i + x1 - x0) color c)))"

definition sgfx_draw_vline :: "int \<Rightarrow> int \<Rightarrow> int \<Rightarrow> u32 \<Rightarrow> graphics_context \<Rightarrow> graphics_context run" where
  "sgfx_draw_vline x y h color c =
     (if h \<le> 0 then Some (Inr c)
      else if x < 0 \<or> x \<ge> uint (ctx_width c) then Some (Inr c)
      else
        (let y0 = clamp y 0 (uint (ctx_height c));
             y1 = clamp (y + h) 0 (uint (ctx_height c)) in
         if y1 - y0 \<le> 0 then Some (Inr c)
         else
           (let i = x + y0 * uint (ctx_width c) in
            fill_from (uint (ctx_width c)) i (i + (y1 - y0) * uint (ctx_width c)) color c)))"

definition sgfx_pixel :: "int \<Rightarrow> int \<Rightarrow> u32 \<Rightarrow> graphics_context \<Rightarrow> graphics_context res" where
  "sgfx_pixel x y color c =
     (if x < 0 \<or> y < 0 \<or> x \<ge> uint (ctx_width c) \<or> y \<ge> uint (ctx_height c) then Inr c
      else put_pixel x y color c)"

text \<open>Bresenham's algorithm, for at most 1000 pixels.\<close>

fun line_steps :: "nat \<Rightarrow> int \<Rightarrow> int \<Rightarrow> int \<Rightarrow> int \<Rightarrow> int \<Rightarrow> int \<Rightarrow> int \<Rightarrow> int \<Rightarrow> int \<Rightarrow> u32 \<Rightarrow> graphics_context \<Rightarrow>
    graphics_context res" where
  "line_steps 0 x0 y0 x1 y1 dx dy sx sy err color c = Inr c"
| "line_steps (Suc n) x0 y0 x1 y1 dx dy sx sy err color c =
     and_then (sgfx_pixel x0 y0 color c) (\<lambda>d.
     if x0 = x1 \<and> y0 = y1 then Inr d
     else
       (let e2 = 2 * err;
            (err1, x0') = (if e2 \<ge> dy then (err + dy, x0 + sx) else (err, x0));
            (err2, y0') = (if e2 \<le> dx then (err1 + dx, y0 + sy) else (err1, y0))
        in line_steps n x0' y0' x1 y1 dx dy sx sy err2 color d))"

definition sgfx_draw_line :: "int \<Rightarrow> int \<Rightarrow> int \<Rightarrow> int \<Rightarrow> u32 \<Rightarrow> graphics_context \<Rightarrow> graphics_context res" where
  "sgfx_draw_line x0 y0 x1 y1 color c =
     (let dx = abs (x1 - x0); sx = (if x0 < x1 then 1 else - 1);
          dy = - abs (y1 - y0); sy = (if y0 < y1 then 1 else - 1)
      in line_steps 1000 x0 y0 x1 y1 dx dy sx sy (dx + dy) color c)"

end
