(* ===== verification/Sgfx_Props.thy ===== *)
theory Sgfx_Props
  imports Sgfx
begin

text \<open>
  The drawing routines as functions on the picture: clipping keeps every write inside the frame
  buffer, a rectangle changes exactly its visible pixels, and the line routines draw
  rectangles of height and width one.
\<close>

section \<open>The picture\<close>

definition ctx_ok :: "graphics_context \<Rightarrow> bool" where
  "ctx_ok c \<longleftrightarrow> length (framebuffer c) = unat (ctx_width c) * unat (ctx_height c) \<and>
     unat (ctx_width c) * unat (ctx_height c) < 2 ^ 32 \<and> unat (ctx_width c) < 2 ^ 31 \<and> unat (ctx_height c) < 2 ^ 31"

definition on_screen :: "graphics_context \<Rightarrow> int \<Rightarrow> int \<Rightarrow> bool" where
  "on_screen c px py \<longleftrightarrow> 0 \<le> px \<and> px < uint (ctx_width c) \<and> 0 \<le> py \<and> py < uint (ctx_height c)"

definition pix :: "graphics_context \<Rightarrow> int \<Rightarrow> int \<Rightarrow> u32" where
  "pix c px py = framebuffer c ! nat (px + py * uint (ctx_width c))"

definition same_ctx :: "graphics_context \<Rightarrow> graphics_context \<Rightarrow> bool" where
  "same_ctx c d \<longleftrightarrow> ctx_ok d \<and> ctx_width d = ctx_width c \<and> ctx_height d = ctx_height c \<and> bytesize d = bytesize c"

lemma int_less_power: "m < 2 ^ k \<Longrightarrow> int m < 2 ^ k"
  by (metis of_nat_less_iff of_nat_numeral of_nat_power)

lemma index_bound:
  assumes "ctx_ok c" and "on_screen c px py"
  shows "0 \<le> px + py * uint (ctx_width c)" "nat (px + py * uint (ctx_width c)) < length (framebuffer c)"
    "px + py * uint (ctx_width c) < 2 ^ 32"
proof -
  let ?w = "uint (ctx_width c)" and ?h = "uint (ctx_height c)"
  have b: "0 \<le> px" "px < ?w" "0 \<le> py" "py < ?h" using assms(2) by (simp_all add: on_screen_def)
  then have "py * ?w \<le> (?h - 1) * ?w" by (intro mult_right_mono) simp_all
  then have lt: "px + py * ?w < ?w * ?h" using b by (simp add: algebra_simps)
  show nn: "0 \<le> px + py * ?w" using b by simp
  have eq: "int (unat (ctx_width c) * unat (ctx_height c)) = ?w * ?h" by (simp only: uint_nat of_nat_mult)
  have "int (length (framebuffer c)) = ?w * ?h" using assms(1) unfolding eq [symmetric] ctx_ok_def by (simp only:)
  with lt show "nat (px + py * ?w) < length (framebuffer c)" unfolding nat_less_iff [OF nn] by (simp only:)
  have "unat (ctx_width c) * unat (ctx_height c) < 2 ^ 32" using assms(1) by (simp only: ctx_ok_def)
  then have "?w * ?h < 2 ^ 32" unfolding eq [symmetric] by (rule int_less_power)
  with lt show "px + py * ?w < 2 ^ 32" by simp
qed

lemma index_inj:
  assumes "on_screen c px py" and "on_screen c qx qy" and "px + py * uint (ctx_width c) = qx + qy * uint (ctx_width c)"
  shows "px = qx \<and> py = qy"
proof -
  let ?w = "uint (ctx_width c)"
  have "px = (px + py * ?w) mod ?w" "qx = (qx + qy * ?w) mod ?w"
    "py = (px + py * ?w) div ?w" "qy = (qx + qy * ?w) div ?w"
    using assms(1,2) by (simp_all add: on_screen_def)
  with assms(3) show ?thesis by metis
qed

lemma unat_of_int_small: "0 \<le> z \<Longrightarrow> z < 2 ^ 32 \<Longrightarrow> unat (of_int z :: u32) = nat z"
  by (simp add: unsigned_of_int take_bit_int_eq_self)

lemma put_pixel_ok:
  assumes ok: "ctx_ok c" and on: "on_screen c x y"
  shows "\<exists>d. put_pixel x y color c = Inr d \<and> same_ctx c d \<and>
    (\<forall>px py. on_screen c px py \<longrightarrow> pix d px py = (if px = x \<and> py = y then color else pix c px py))"
proof -
  let ?w = "uint (ctx_width c)"
  note b = index_bound [OF ok on]
  have "(of_int x + of_int y * ctx_width c :: u32) = of_int (x + y * ?w)" by simp
  then have u: "unat (of_int x + of_int y * ctx_width c :: u32) = nat (x + y * ?w)"
    using unat_of_int_small [OF b(1,3)] by (simp only:)
  let ?d = "c\<lparr>framebuffer := (framebuffer c)[nat (x + y * ?w) := color]\<rparr>"
  have "put_pixel x y color c = Inr ?d"
    unfolding put_pixel_def put_index_def u using b(2) by simp
  moreover have "same_ctx c ?d" using ok by (simp add: same_ctx_def ctx_ok_def)
  moreover have "pix ?d px py = (if px = x \<and> py = y then color else pix c px py)" if "on_screen c px py" for px py
  proof -
    have "nat (px + py * ?w) = nat (x + y * ?w) \<longleftrightarrow> px = x \<and> py = y"
      using index_inj [OF that on] index_bound(1) [OF ok that] b(1) by (auto simp: eq_nat_nat_iff)
    then show ?thesis using b(2) by (auto simp: pix_def nth_list_update)
  qed
  ultimately show ?thesis by blast
qed

lemma same_ctx_on_screen: "same_ctx c d \<Longrightarrow> on_screen d px py = on_screen c px py"
  by (simp add: same_ctx_def on_screen_def)

lemma same_ctx_trans: "same_ctx c d \<Longrightarrow> same_ctx d e \<Longrightarrow> same_ctx c e"
  by (simp add: same_ctx_def)

lemma sint_dim: "unat (x :: u32) < 2 ^ 31 \<Longrightarrow> sint x = uint x"
proof -
  assume "unat x < 2 ^ 31"
  then have "uint x < 2 ^ 31" unfolding uint_nat by (rule int_less_power)
  moreover have "- (2 ^ 31) \<le> uint x" by (rule order_trans [of _ 0]) simp_all
  ultimately have "signed_take_bit 31 (uint x) = uint x" by (intro signed_take_bit_int_eq_self)
  then show ?thesis by (simp add: sint_uint)
qed

lemma rect_index_bound: "x < w \<Longrightarrow> y < h \<Longrightarrow> x + y * w < w * (h :: nat)"
proof -
  assume x: "x < w" and y: "y < h"
  have "x + y * w < Suc y * w" using x by simp
  also have "\<dots> \<le> h * w" using y by (intro mult_le_mono1) simp
  finally show ?thesis by (simp add: mult.commute)
qed

section \<open>Rectangles\<close>

text \<open>The picture after the rows below \<open>r\<close> and the first \<open>k\<close> pixels of row \<open>r\<close> of a rectangle
  at \<open>x\<close>, \<open>y\<close> have been drawn from \<open>g\<close>.\<close>

definition drawn :: "int \<Rightarrow> int \<Rightarrow> nat \<Rightarrow> (nat \<Rightarrow> nat \<Rightarrow> u32 option) \<Rightarrow> graphics_context \<Rightarrow> nat \<Rightarrow> nat \<Rightarrow> graphics_context \<Rightarrow> bool" where
  "drawn x y W g c r k d \<longleftrightarrow> same_ctx c d \<and> (\<forall>px py. on_screen c px py \<longrightarrow> pix d px py =
     (if x \<le> px \<and> px < x + int W \<and> y \<le> py \<and> (py < y + int r \<or> py = y + int r \<and> px < x + int k)
      then (case g (nat (px - x)) (nat (py - y)) of Some color \<Rightarrow> color | None \<Rightarrow> pix c px py) else pix c px py))"

lemma drawn_row: "drawn x y W g c r W d \<longleftrightarrow> drawn x y W g c (Suc r) 0 d"
proof -
  have "(x \<le> px \<and> px < x + int W \<and> y \<le> py \<and> (py < y + int r \<or> py = y + int r \<and> px < x + int W)) =
    (x \<le> px \<and> px < x + int W \<and> y \<le> py \<and> (py < y + int (Suc r) \<or> py = y + int (Suc r) \<and> px < x + int 0))" for px py
    by auto
  then show ?thesis unfolding drawn_def by presburger
qed

lemma drawn_skip_row:
  assumes "drawn x y W g c r 0 d" and "int r + y < 0 \<or> int r + y \<ge> uint (ctx_height c)"
  shows "drawn x y W g c (Suc r) 0 d"
proof -
  have "(x \<le> px \<and> px < x + int W \<and> y \<le> py \<and> (py < y + int (Suc r) \<or> py = y + int (Suc r) \<and> px < x + int 0)) =
    (x \<le> px \<and> px < x + int W \<and> y \<le> py \<and> (py < y + int r \<or> py = y + int r \<and> px < x + int 0))"
    if "on_screen c px py" for px py
    using that assms(2) by (auto simp: on_screen_def)
  then show ?thesis using assms(1) unfolding drawn_def by simp
qed

lemma blit_pixel_step:
  assumes ok: "ctx_ok c" and dr: "drawn x y W g c r k d" and k: "k < W"
    and row: "0 \<le> int r + y" "int r + y < uint (ctx_height c)"
    and f: "0 \<le> int k + x \<Longrightarrow> int k + x < uint (ctx_width c) \<Longrightarrow> f k r = Inr (g k r)"
  shows "\<exists>e. blit_pixel x y f r k d = Inr e \<and> drawn x y W g c r (Suc k) e"
proof -
  have same: "same_ctx c d" using dr by (simp add: drawn_def)
  have w: "sint (ctx_width d) = uint (ctx_width c)"
    using same ok sint_dim [of "ctx_width c"] by (simp add: same_ctx_def ctx_ok_def)
  have cond: "(x \<le> px \<and> px < x + int W \<and> y \<le> py \<and> (py < y + int r \<or> py = y + int r \<and> px < x + int (Suc k))) \<longleftrightarrow>
      (x \<le> px \<and> px < x + int W \<and> y \<le> py \<and> (py < y + int r \<or> py = y + int r \<and> px < x + int k)) \<or>
      px = int k + x \<and> py = int r + y" for px py
    using k by auto
  have next_g: "nat (int k + x - x) = k" "nat (int r + y - y) = r" by simp_all
  show ?thesis
  proof (cases "int k + x < 0 \<or> int k + x \<ge> uint (ctx_width c)")
    case True
    then have "\<not> on_screen c (int k + x) (int r + y)" by (auto simp: on_screen_def)
    then have "drawn x y W g c r (Suc k) d" using dr unfolding drawn_def cond by auto
    then show ?thesis using True w by (simp add: blit_pixel_def Let_def)
  next
    case False
    then have on: "on_screen c (int k + x) (int r + y)" using row by (simp add: on_screen_def)
    have fk: "f k r = Inr (g k r)" using f False by simp
    show ?thesis
    proof (cases "g k r")
      case None
      have "pix d (int k + x) (int r + y) = pix c (int k + x) (int r + y)"
        using dr on unfolding drawn_def by auto
      then have "drawn x y W g c r (Suc k) d" using dr None unfolding drawn_def cond by (auto simp: next_g)
      then show ?thesis using False w fk None by (simp add: blit_pixel_def Let_def)
    next
      case (Some color)
      have okd: "ctx_ok d" using same by (simp add: same_ctx_def)
      have "on_screen d (int k + x) (int r + y)" using on same_ctx_on_screen [OF same] by simp
      from put_pixel_ok [OF okd this, of color] obtain e where
        e: "put_pixel (int k + x) (int r + y) color d = Inr e" "same_ctx d e"
        "\<forall>px py. on_screen c px py \<longrightarrow> pix e px py = (if px = int k + x \<and> py = int r + y then color else pix d px py)"
        using same_ctx_on_screen [OF same] by auto
      have "drawn x y W g c r (Suc k) e"
        using dr e(3) Some same_ctx_trans [OF same e(2)] unfolding drawn_def cond by (auto simp: next_g)
      then show ?thesis using False w fk Some e(1) by (simp add: blit_pixel_def Let_def)
    qed
  qed
qed

lemma blit_spec:
  assumes ok: "ctx_ok c"
    and f: "\<And>xi yi. int xi < width \<Longrightarrow> int yi < height \<Longrightarrow> on_screen c (int xi + x) (int yi + y) \<Longrightarrow> f xi yi = Inr (g xi yi)"
  shows "\<exists>d. blit x y width height f c = Inr d \<and> same_ctx c d \<and> (\<forall>px py. on_screen c px py \<longrightarrow> pix d px py =
    (if x \<le> px \<and> px < x + width \<and> y \<le> py \<and> py < y + height
     then (case g (nat (px - x)) (nat (py - y)) of Some color \<Rightarrow> color | None \<Rightarrow> pix c px py) else pix c px py))"
proof -
  let ?W = "nat width" and ?H = "nat height"
  have "\<exists>d. blit x y width height f c = Inr d \<and> drawn x y ?W g c ?H 0 d"
    unfolding blit_def
  proof (rule for_res_rule [where I = "\<lambda>r d. drawn x y ?W g c r 0 d"])
    show "drawn x y ?W g c 0 0 c" using ok by (auto simp: drawn_def same_ctx_def)
    fix r d assume r: "r < ?H" and d: "drawn x y ?W g c r 0 d"
    have same: "same_ctx c d" using d by (simp add: drawn_def)
    have h: "sint (ctx_height d) = uint (ctx_height c)"
      using same ok sint_dim [of "ctx_height c"] by (simp add: same_ctx_def ctx_ok_def)
    show "\<exists>e. (let y' = int r + y in if y' < 0 \<or> sint (ctx_height d) \<le> y' then Inr d
        else for_res 0 ?W (blit_pixel x y f r) d) = Inr e \<and> drawn x y ?W g c (Suc r) 0 e"
    proof (cases "int r + y < 0 \<or> int r + y \<ge> uint (ctx_height c)")
      case True
      then show ?thesis using drawn_skip_row [OF d True] h by simp
    next
      case False
      have "\<exists>e. for_res 0 ?W (blit_pixel x y f r) d = Inr e \<and> drawn x y ?W g c r ?W e"
      proof (rule for_res_rule [where I = "\<lambda>k e. drawn x y ?W g c r k e"])
        fix k e assume k: "k < ?W" and e: "drawn x y ?W g c r k e"
        show "\<exists>e'. blit_pixel x y f r k e = Inr e' \<and> drawn x y ?W g c r (Suc k) e'"
          by (rule blit_pixel_step [OF ok e k])
            (use False r k f in \<open>auto simp: on_screen_def zless_nat_eq_int_zless\<close>)
      qed (use d in simp_all)
      then show ?thesis using False h by (simp add: drawn_row)
    qed
  qed simp
  then obtain d where d: "blit x y width height f c = Inr d" "drawn x y ?W g c ?H 0 d" by blast
  have "(x \<le> px \<and> px < x + int ?W \<and> y \<le> py \<and> (py < y + int ?H \<or> py = y + int ?H \<and> px < x + int 0)) =
    (x \<le> px \<and> px < x + width \<and> y \<le> py \<and> py < y + height)" for px py
    by auto
  with d show ?thesis unfolding drawn_def by auto
qed

section \<open>Lines\<close>

lemma put_index_pixel: "put_index (of_int (x + y * uint (ctx_width c))) color c = put_pixel x y color c"
  by (simp add: put_pixel_def)

lemma fill_from_spec:
  assumes "ctx_ok c" and "0 < step"
    and "\<And>k. k < n \<Longrightarrow> on_screen c (X k) (Y k) \<and> X k + Y k * uint (ctx_width c) = i + int k * step"
  shows "\<exists>d. fill_from step i (i + int n * step) color c = Some (Inr d) \<and> same_ctx c d \<and>
    (\<forall>px py. on_screen c px py \<longrightarrow> pix d px py = (if \<exists>k<n. px = X k \<and> py = Y k then color else pix c px py))"
  using assms
proof (induction n arbitrary: c i X Y)
  case 0
  then show ?case by (subst fill_from.simps) (simp add: same_ctx_def)
next
  case (Suc n)
  have on: "on_screen c (X 0) (Y 0)" and i: "X 0 + Y 0 * uint (ctx_width c) = i" using Suc.prems(3) [of 0] by simp_all
  obtain d where d: "put_pixel (X 0) (Y 0) color c = Inr d" "same_ctx c d"
    "\<forall>px py. on_screen c px py \<longrightarrow> pix d px py = (if px = X 0 \<and> py = Y 0 then color else pix c px py)"
    using put_pixel_ok [OF Suc.prems(1) on] by blast
  have i0: "0 \<le> i" using index_bound(1) [OF Suc.prems(1) on] i by simp
  have lt: "i < i + int (Suc n) * step" using Suc.prems(2) by simp
  have w: "ctx_width d = ctx_width c" "ctx_ok d" using d(2) by (simp_all add: same_ctx_def)
  have "on_screen d (X (Suc k)) (Y (Suc k)) \<and> X (Suc k) + Y (Suc k) * uint (ctx_width d) = (i + step) + int k * step"
    if "k < n" for k
    using Suc.prems(3) [of "Suc k"] that same_ctx_on_screen [OF d(2)] by (simp add: w algebra_simps)
  from Suc.IH [OF w(2) Suc.prems(2) this] obtain e where
    e: "fill_from step (i + step) ((i + step) + int n * step) color d = Some (Inr e)" "same_ctx d e"
    "\<forall>px py. on_screen d px py \<longrightarrow> pix e px py = (if \<exists>k<n. px = X (Suc k) \<and> py = Y (Suc k) then color else pix d px py)"
    by blast
  have "put_index (of_int i) color c = Inr d" using d(1) put_index_pixel [of "X 0" "Y 0" c color] i by simp
  moreover have "(i + step) + int n * step = i + int (Suc n) * step" by (simp add: algebra_simps)
  note e(1) [unfolded this]
  ultimately have "fill_from step i (i + int (Suc n) * step) color c = Some (Inr e)"
    using i0 lt by (subst fill_from.simps) (simp del: of_nat_Suc)
  moreover have "pix e px py = (if \<exists>k<Suc n. px = X k \<and> py = Y k then color else pix c px py)" if "on_screen c px py" for px py
  proof -
    have "(\<exists>k<Suc n. px = X k \<and> py = Y k) \<longleftrightarrow> px = X 0 \<and> py = Y 0 \<or> (\<exists>k<n. px = X (Suc k) \<and> py = Y (Suc k))"
      by (auto simp: less_Suc_eq_0_disj)
    then show ?thesis using e(3) d(3) that same_ctx_on_screen [OF d(2)] by auto
  qed
  ultimately show ?case using same_ctx_trans [OF d(2) e(2)] by blast
qed

text \<open>Contexts with the same picture are equal.\<close>

lemma same_picture:
  assumes d: "same_ctx c d" and e: "same_ctx c e" and p: "\<And>px py. on_screen c px py \<Longrightarrow> pix d px py = pix e px py"
  shows "d = e"
proof -
  let ?w = "uint (ctx_width c)" and ?h = "uint (ctx_height c)"
  have dims: "ctx_width d = ctx_width c" "ctx_width e = ctx_width c" "ctx_height d = ctx_height e" "bytesize d = bytesize e"
    and len: "length (framebuffer d) = unat (ctx_width c) * unat (ctx_height c)" "length (framebuffer e) = length (framebuffer d)"
    using d e by (simp_all add: same_ctx_def ctx_ok_def)
  have "framebuffer d ! i = framebuffer e ! i" if i: "i < length (framebuffer d)" for i
  proof -
    have "int i < int (unat (ctx_width c) * unat (ctx_height c))" using i len by (simp only: of_nat_less_iff)
    then have lt: "int i < ?w * ?h" by (simp only: uint_nat of_nat_mult)
    then have w: "0 < ?w" by (metis int_nat_eq mult_zero_left not_le of_nat_0_le_iff order_le_less uint_ge_0 linorder_not_less)
    have "int i div ?w < ?h"
    proof (rule ccontr)
      assume "\<not> int i div ?w < ?h"
      then have "?h * ?w \<le> (int i div ?w) * ?w" using w by (intro mult_right_mono) simp_all
      also have "\<dots> \<le> int i" using w by (simp add: minus_mod_eq_div_mult [symmetric])
      finally show False using lt by (simp add: mult.commute)
    qed
    then have "on_screen c (int i mod ?w) (int i div ?w)"
      using w by (simp add: on_screen_def pos_imp_zdiv_nonneg_iff)
    from p [OF this] show ?thesis by (simp add: pix_def dims)
  qed
  then have "framebuffer d = framebuffer e" using len(2) by (intro nth_equalityI) simp_all
  with dims show ?thesis by (cases d; cases e) simp
qed

lemma draw_hline_spec:
  assumes ok: "ctx_ok c"
  shows "\<exists>d. sgfx_draw_hline x y w color c = Some (Inr d) \<and> same_ctx c d \<and>
    (\<forall>px py. on_screen c px py \<longrightarrow> pix d px py = (if py = y \<and> x \<le> px \<and> px < x + w then color else pix c px py))"
proof -
  let ?W = "uint (ctx_width c)" and ?x0 = "clamp x 0 (uint (ctx_width c))" and ?x1 = "clamp (x + w) 0 (uint (ctx_width c))"
  have W: "0 \<le> ?W" by simp
  show ?thesis
  proof (cases "w \<le> 0 \<or> y < 0 \<or> y \<ge> uint (ctx_height c) \<or> ?x1 - ?x0 \<le> 0")
    case True
    then have "sgfx_draw_hline x y w color c = Some (Inr c)" by (auto simp: sgfx_draw_hline_def Let_def)
    moreover have "\<not> (py = y \<and> x \<le> px \<and> px < x + w)" if "on_screen c px py" for px py
      using True that by (auto simp: on_screen_def clamp_def split: if_splits)
    ultimately show ?thesis using ok by (auto simp: same_ctx_def)
  next
    case False
    let ?n = "nat (?x1 - ?x0)"
    have b: "0 \<le> ?x0" "?x1 \<le> ?W" using W by (auto simp: clamp_def)
    have line: "sgfx_draw_hline x y w color c = fill_from 1 (?x0 + y * ?W) ((?x0 + y * ?W) + int ?n * 1) color c"
      using False by (simp add: sgfx_draw_hline_def Let_def algebra_simps)
    have on: "on_screen c (?x0 + int k) y \<and> ?x0 + int k + y * ?W = (?x0 + y * ?W) + int k * 1" if "k < ?n" for k
      using that b False by (auto simp: on_screen_def)
    obtain d where d: "fill_from 1 (?x0 + y * ?W) ((?x0 + y * ?W) + int ?n * 1) color c = Some (Inr d)" "same_ctx c d"
      "\<forall>px py. on_screen c px py \<longrightarrow> pix d px py = (if \<exists>k<?n. px = ?x0 + int k \<and> py = y then color else pix c px py)"
      using fill_from_spec [of c 1 ?n "\<lambda>k. ?x0 + int k" "\<lambda>_. y" "?x0 + y * ?W" color] ok on by auto
    have "(\<exists>k<?n. px = ?x0 + int k \<and> py = y) \<longleftrightarrow> py = y \<and> x \<le> px \<and> px < x + w" if "on_screen c px py" for px py
    proof -
      have "(\<exists>k<?n. px = ?x0 + int k) \<longleftrightarrow> ?x0 \<le> px \<and> px < ?x1"
        by (auto intro!: exI [of _ "nat (px - ?x0)"])
      moreover have "?x0 \<le> px \<and> px < ?x1 \<longleftrightarrow> x \<le> px \<and> px < x + w"
        using that False by (auto simp: on_screen_def clamp_def)
      ultimately show ?thesis by auto
    qed
    then show ?thesis using d by (intro exI [of _ d]) (simp add: line)
  qed
qed

lemma draw_vline_spec:
  assumes ok: "ctx_ok c"
  shows "\<exists>d. sgfx_draw_vline x y h color c = Some (Inr d) \<and> same_ctx c d \<and>
    (\<forall>px py. on_screen c px py \<longrightarrow> pix d px py = (if px = x \<and> y \<le> py \<and> py < y + h then color else pix c px py))"
proof -
  let ?W = "uint (ctx_width c)" and ?y0 = "clamp y 0 (uint (ctx_height c))" and ?y1 = "clamp (y + h) 0 (uint (ctx_height c))"
  have H: "0 \<le> uint (ctx_height c)" by simp
  show ?thesis
  proof (cases "h \<le> 0 \<or> x < 0 \<or> x \<ge> ?W \<or> ?y1 - ?y0 \<le> 0")
    case True
    then have "sgfx_draw_vline x y h color c = Some (Inr c)" by (auto simp: sgfx_draw_vline_def Let_def)
    moreover have "\<not> (px = x \<and> y \<le> py \<and> py < y + h)" if "on_screen c px py" for px py
      using True that by (auto simp: on_screen_def clamp_def split: if_splits)
    ultimately show ?thesis using ok by (auto simp: same_ctx_def)
  next
    case False
    let ?n = "nat (?y1 - ?y0)"
    have b: "0 \<le> ?y0" "?y1 \<le> uint (ctx_height c)" using H by (auto simp: clamp_def)
    have W: "0 < ?W" using False by linarith
    have line: "sgfx_draw_vline x y h color c = fill_from ?W (x + ?y0 * ?W) ((x + ?y0 * ?W) + int ?n * ?W) color c"
      using False by (simp add: sgfx_draw_vline_def Let_def)
    have on: "on_screen c x (?y0 + int k) \<and> x + (?y0 + int k) * ?W = (x + ?y0 * ?W) + int k * ?W" if "k < ?n" for k
      using that b False by (auto simp: on_screen_def algebra_simps)
    obtain d where d: "fill_from ?W (x + ?y0 * ?W) ((x + ?y0 * ?W) + int ?n * ?W) color c = Some (Inr d)" "same_ctx c d"
      "\<forall>px py. on_screen c px py \<longrightarrow> pix d px py = (if \<exists>k<?n. px = x \<and> py = ?y0 + int k then color else pix c px py)"
      using fill_from_spec [of c ?W ?n "\<lambda>_. x" "\<lambda>k. ?y0 + int k" "x + ?y0 * ?W" color] ok W on by auto
    have "(\<exists>k<?n. px = x \<and> py = ?y0 + int k) \<longleftrightarrow> px = x \<and> y \<le> py \<and> py < y + h" if "on_screen c px py" for px py
    proof -
      have "(\<exists>k<?n. py = ?y0 + int k) \<longleftrightarrow> ?y0 \<le> py \<and> py < ?y1"
        by (auto intro!: exI [of _ "nat (py - ?y0)"])
      moreover have "?y0 \<le> py \<and> py < ?y1 \<longleftrightarrow> y \<le> py \<and> py < y + h"
        using that False by (auto simp: on_screen_def clamp_def)
      ultimately show ?thesis by auto
    qed
    then show ?thesis using d by (intro exI [of _ d]) (simp add: line)
  qed
qed

section \<open>Text and slanted lines\<close>

lemma pixel_same:
  assumes "ctx_ok c"
  shows "\<exists>d. sgfx_pixel x y color c = Inr d \<and> same_ctx c d"
  using assms put_pixel_ok [of c x y color] by (auto simp: sgfx_pixel_def on_screen_def same_ctx_def)

lemma line_steps_same:
  "ctx_ok c \<Longrightarrow> \<exists>d. line_steps n x0 y0 x1 y1 dx dy sx sy err color c = Inr d \<and> same_ctx c d"
proof (induction n arbitrary: x0 y0 err c)
  case 0
  then show ?case by (simp add: same_ctx_def)
next
  case (Suc n)
  obtain d where d: "sgfx_pixel x0 y0 color c = Inr d" "same_ctx c d" using pixel_same [OF Suc.prems] by blast
  have "ctx_ok d" using d(2) by (simp add: same_ctx_def)
  have step: "\<exists>e. line_steps n x' y' x1 y1 dx dy sx sy err' color d = Inr e \<and> same_ctx c e" for x' y' err'
    using Suc.IH [OF \<open>ctx_ok d\<close>, of x' y' err'] same_ctx_trans [OF d(2)] by blast
  show ?case
  proof (cases "x0 = x1 \<and> y0 = y1")
    case True
    with d show ?thesis by simp
  next
    case False
    define q where "q = (if 2 * err \<ge> dy then (err + dy, x0 + sx) else (err, x0))"
    define r where "r = (if 2 * err \<le> dx then (fst q + dx, y0 + sy) else (fst q, y0))"
    have "line_steps (Suc n) x0 y0 x1 y1 dx dy sx sy err color c =
        line_steps n (snd q) (snd r) x1 y1 dx dy sx sy (fst r) color d"
      using False d(1) unfolding q_def r_def by (auto simp: Let_def)
    then show ?thesis using step by simp
  qed
qed

lemma read_bit_ok: "i < 8 * length bitmap \<Longrightarrow> \<exists>b. read_bit bitmap i = Inr b"
  by (simp add: read_bit_def less_mult_imp_div_less mult.commute)

lemma draw_char_same:
  assumes ok: "ctx_ok c" and font: "length font = 3200"
  shows "\<exists>d. sgfx_draw_char font ch x0 y0 color c = Inr d \<and> same_ctx c d"
proof -
  have "\<exists>v. glyph_pixel font ch color x y = Inr v" if xy: "x < 10" "y < 10" for x y
  proof -
    have "unat (ch AND 0xF) < 16"
      using unat_and_mask_mod [of ch 4] by (simp add: mask_eq_exp_minus_1)
    moreover have "unat (drop_bit 4 ch) < 16"
    proof -
      have "unat ch < 2 ^ LENGTH(8)" by (rule unsigned_less)
      then show ?thesis unfolding unat_drop_bit_eq by (simp add: drop_bit_eq_div)
    qed
    ultimately have "(x + unat (ch AND 0xF) * 10) + (y + unat (drop_bit 4 ch) * 10) * 160 < 8 * length font"
      using xy font by simp
    from read_bit_ok [OF this] show ?thesis by (auto simp: glyph_pixel_def)
  qed
  then obtain g where g: "\<And>x y. x < 10 \<Longrightarrow> y < 10 \<Longrightarrow> glyph_pixel font ch color x y = Inr (g x y)" by metis
  show ?thesis
    using blit_spec [OF ok, of 10 10 x0 y0 "glyph_pixel font ch color" g] g unfolding sgfx_draw_char_def by auto
qed

lemma draw_string_same:
  "ctx_ok c \<Longrightarrow> length font = 3200 \<Longrightarrow> \<exists>d. sgfx_draw_string font str x y color c = Inr d \<and> same_ctx c d"
proof (induction str arbitrary: x c)
  case Nil
  then show ?case by (simp add: same_ctx_def)
next
  case (Cons ch str)
  have "\<exists>d. (if ch \<noteq> 32 then sgfx_draw_char font ch x y color c else Inr c) = Inr d \<and> same_ctx c d"
    using draw_char_same [OF Cons.prems] Cons.prems(1) by (auto simp: same_ctx_def)
  then obtain d where d: "(if ch \<noteq> 32 then sgfx_draw_char font ch x y color c else Inr c) = Inr d" "same_ctx c d" by blast
  have "ctx_ok d" using d(2) by (simp add: same_ctx_def)
  from Cons.IH [OF this Cons.prems(2), of "x + 10"] d show ?case using same_ctx_trans [OF d(2)] by (simp del: if_split) blast
qed

lemma fill_rect_spec:
  assumes "ctx_ok c"
  shows "\<exists>d. sgfx_fill_rect x y width height color c = Inr d \<and> same_ctx c d \<and>
    (\<forall>px py. on_screen c px py \<longrightarrow> pix d px py =
      (if x \<le> px \<and> px < x + width \<and> y \<le> py \<and> py < y + height then color else pix c px py))"
  using blit_spec [OF assms, of width height x y "\<lambda>_ _. Inr (Some color)" "\<lambda>_ _. Some color"]
  unfolding sgfx_fill_rect_def by (simp only: option.case simp_thms)

lemma copy_rect_spec:
  assumes ok: "ctx_ok c" and dims: "0 \<le> width" "0 \<le> height" "nat width * nat height \<le> length source"
  shows "\<exists>d. sgfx_copy_rect x y width height 0 0 (image source) c = Inr d \<and> same_ctx c d \<and>
    (\<forall>px py. on_screen c px py \<longrightarrow> pix d px py =
      (let v = source ! (nat (px - x) + nat (py - y) * nat width) in
       if x \<le> px \<and> px < x + width \<and> y \<le> py \<and> py < y + height \<and> drop_bit 24 v \<noteq> 0 then v else pix c px py))"
proof -
  let ?g = "\<lambda>xi yi. let v = source ! (xi + yi * nat width) in if drop_bit 24 v = 0 then None else Some v"
  have "source_pixel (image source) 0 0 width xi yi = Inr (?g xi yi)" if "int xi < width" "int yi < height" for xi yi
  proof -
    have "xi + yi * nat width < nat width * nat height"
      using that dims(1,2) by (intro rect_index_bound) (simp_all add: zless_nat_eq_int_zless)
    moreover have "nat (int xi + int yi * width) = xi + yi * nat width"
      using dims(1) by (simp add: nat_add_distrib nat_mult_distrib)
    moreover have "\<not> int xi + int yi * width < 0" using dims(1) by (simp add: not_less)
    ultimately show ?thesis using dims by (simp add: source_pixel_def image_def)
  qed
  then obtain d where d: "blit x y width height (source_pixel (image source) 0 0 width) c = Inr d" "same_ctx c d"
    "\<forall>px py. on_screen c px py \<longrightarrow> pix d px py =
      (if x \<le> px \<and> px < x + width \<and> y \<le> py \<and> py < y + height
       then (case ?g (nat (px - x)) (nat (py - y)) of Some color \<Rightarrow> color | None \<Rightarrow> pix c px py) else pix c px py)"
    using blit_spec [OF ok, of width height x y "source_pixel (image source) 0 0 width" ?g] by blast
  then show ?thesis unfolding sgfx_copy_rect_def by (auto simp: Let_def)
qed

section \<open>Properties\<close>

text \<open>C21: Rectangles are exact. On a consistent context \<open>sgfx_fill_rect\<close> never writes outside the
  frame buffer, for any position and size, and afterwards exactly the pixels of the rectangle
  that are on the screen have the colour; \<open>sgfx_copy_rect\<close> of a whole image likewise puts
  exactly the opaque pixels of the image that are on the screen, and leaves all others.\<close>

theorem sgfx_rects_exact:
  assumes "ctx_ok c" and "0 \<le> width" and "0 \<le> height" and "nat width * nat height \<le> length source"
  shows "(\<exists>d. sgfx_fill_rect x y width height color c = Inr d \<and> same_ctx c d \<and>
      (\<forall>px py. on_screen c px py \<longrightarrow> pix d px py =
        (if x \<le> px \<and> px < x + width \<and> y \<le> py \<and> py < y + height then color else pix c px py))) \<and>
    (\<exists>d. sgfx_copy_rect x y width height 0 0 (image source) c = Inr d \<and> same_ctx c d \<and>
      (\<forall>px py. on_screen c px py \<longrightarrow> pix d px py =
        (let v = source ! (nat (px - x) + nat (py - y) * nat width) in
         if x \<le> px \<and> px < x + width \<and> y \<le> py \<and> py < y + height \<and> drop_bit 24 v \<noteq> 0 then v else pix c px py)))"
  using fill_rect_spec [OF assms(1)] copy_rect_spec [OF assms] by blast

definition example_ctx :: graphics_context where
  "example_ctx = sgfx_init (replicate 12 0) 4 3"

lemma example_ctx_ok: "ctx_ok example_ctx"
  by (simp add: ctx_ok_def example_ctx_def sgfx_init_def)

theorem sgfx_rects_exact_witness:
  "\<exists>d. sgfx_fill_rect (- 1) 1 3 9 7 example_ctx = Inr d \<and> pix d 1 2 = 7 \<and> pix d 2 2 = 0"
  using sgfx_rects_exact [OF example_ctx_ok, of 3 9 "replicate 27 0" "- 1" 1 7]
  by (auto simp: on_screen_def example_ctx_def sgfx_init_def pix_def)

text \<open>The line routines agree with the rectangle routine. The clipped and unrolled
  \<open>sgfx_draw_hline\<close> and \<open>sgfx_draw_vline\<close> return, without a fault, the same context as
  \<open>sgfx_fill_rect\<close> for a rectangle of height or width one, for any position and length.\<close>

theorem sgfx_lines_are_rects:
  assumes "ctx_ok c"
  shows "(\<exists>d. sgfx_draw_hline x y n color c = Some (Inr d) \<and> sgfx_fill_rect x y n 1 color c = Inr d) \<and>
    (\<exists>d. sgfx_draw_vline x y n color c = Some (Inr d) \<and> sgfx_fill_rect x y 1 n color c = Inr d)"
proof -
  have rect: "\<exists>d. sgfx_fill_rect x y w h color c = Inr d \<and> same_ctx c d \<and> (\<forall>px py. on_screen c px py \<longrightarrow> pix d px py =
        (if x \<le> px \<and> px < x + w \<and> y \<le> py \<and> py < y + h then color else pix c px py))" for w h
    by (rule fill_rect_spec [OF assms])
  obtain d e where d: "sgfx_draw_hline x y n color c = Some (Inr d)" "same_ctx c d"
      "\<forall>px py. on_screen c px py \<longrightarrow> pix d px py = (if py = y \<and> x \<le> px \<and> px < x + n then color else pix c px py)"
    and e: "sgfx_fill_rect x y n 1 color c = Inr e" "same_ctx c e" "\<forall>px py. on_screen c px py \<longrightarrow> pix e px py =
        (if x \<le> px \<and> px < x + n \<and> y \<le> py \<and> py < y + 1 then color else pix c px py)"
    using draw_hline_spec [OF assms, of x y n color] rect [of n 1] by blast
  have "d = e" by (rule same_picture [OF d(2) e(2)]) (use d(3) e(3) in auto)
  moreover obtain d' e' where d': "sgfx_draw_vline x y n color c = Some (Inr d')" "same_ctx c d'"
      "\<forall>px py. on_screen c px py \<longrightarrow> pix d' px py = (if px = x \<and> y \<le> py \<and> py < y + n then color else pix c px py)"
    and e': "sgfx_fill_rect x y 1 n color c = Inr e'" "same_ctx c e'" "\<forall>px py. on_screen c px py \<longrightarrow> pix e' px py =
        (if x \<le> px \<and> px < x + 1 \<and> y \<le> py \<and> py < y + n then color else pix c px py)"
    using draw_vline_spec [OF assms, of x y n color] rect [of 1 n] by blast
  have "d' = e'" by (rule same_picture [OF d'(2) e'(2)]) (use d'(3) e'(3) in auto)
  ultimately show ?thesis using d(1) e(1) d'(1) e'(1) by blast
qed

theorem sgfx_lines_are_rects_witness:
  "\<exists>d. sgfx_draw_vline 2 (- 5) 7 9 example_ctx = Some (Inr d) \<and> sgfx_fill_rect 2 (- 5) 1 7 9 example_ctx = Inr d"
  using sgfx_lines_are_rects [OF example_ctx_ok] by blast

text \<open>Nothing is drawn outside the frame buffer. Text in the font of the library and straight
  lines between any two points, on or off the screen, return without a fault and leave the
  context consistent.\<close>

theorem sgfx_text_and_lines_clipped:
  assumes "ctx_ok c" and "length font = 3200"
  shows "(\<exists>d. sgfx_draw_string font str x y color c = Inr d \<and> same_ctx c d) \<and>
    (\<exists>d. sgfx_draw_line x0 y0 x1 y1 color c = Inr d \<and> same_ctx c d)"
  using draw_string_same [OF assms] line_steps_same [OF assms(1)] unfolding sgfx_draw_line_def Let_def by blast

theorem sgfx_text_and_lines_clipped_witness:
  "\<exists>d. sgfx_draw_line (- 3) (- 9) 20 5 1 example_ctx = Inr d \<and> ctx_ok d"
  using sgfx_text_and_lines_clipped [OF example_ctx_ok length_replicate] unfolding same_ctx_def by blast

end
