(* ===== verification/Strings.thy ===== *)
theory Strings
  imports Prelude
begin

text \<open>
  The kernel's own string and memory routines (\<open>kernel/util.c\<close>). A pointer argument is the list
  of bytes from the pointer to the end of the object it points into; reading or writing behind
  that is a fault. The destination routines return the changed destination.
\<close>

section \<open>Strings in memory\<close>

text \<open>A string literal, with its terminating zero.\<close>

definition cstr :: "string \<Rightarrow> u8 list" where
  "cstr s = map of_char s @ [0]"

text \<open>The bytes of a string before its terminating zero.\<close>

fun c_string :: "u8 list \<Rightarrow> u8 list res" where
  "c_string [] = Inl Out_Of_Bounds"
| "c_string (c # m) = (if c = 0 then Inr [] else and_then (c_string m) (\<lambda>s. Inr (c # s)))"

lemma c_string_eq: "c_string m = (if 0 \<in> set m then Inr (takeWhile (\<lambda>c. c \<noteq> 0) m) else Inl Out_Of_Bounds)"
  by (induction m) auto

section \<open>Memory blocks\<close>

fun memset :: "u8 list \<Rightarrow> u8 \<Rightarrow> nat \<Rightarrow> u8 list res" where
  "memset dest val 0 = Inr dest"
| "memset [] val (Suc len) = Inl Out_Of_Bounds"
| "memset (d # dest) val (Suc len) = and_then (memset dest val len) (\<lambda>m. Inr (val # m))"

text \<open>\<open>memcpy\<close>: words first, and then the remaining bytes from where the first copy stopped.\<close>

fun copy_bytes :: "u8 list \<Rightarrow> u8 list \<Rightarrow> nat \<Rightarrow> u8 list res" where
  "copy_bytes dest src 0 = Inr dest"
| "copy_bytes (d # dest) (s # src) (Suc n) = and_then (copy_bytes dest src n) (\<lambda>m. Inr (s # m))"
| "copy_bytes dest src (Suc n) = Inl Out_Of_Bounds"

definition kernel_memcpy :: "u8 list \<Rightarrow> u8 list \<Rightarrow> nat \<Rightarrow> u8 list res" where
  "kernel_memcpy dest src bytes =
     (let done = 4 * (bytes div 4) in
      and_then (copy_bytes dest src done) (\<lambda>m.
      and_then (copy_bytes (drop done m) (drop done src) (bytes mod 4)) (\<lambda>r. Inr (take done m @ r))))"

section \<open>Comparison\<close>

text \<open>The difference of two \<open>char\<close> values, which are signed, as an unsigned result.\<close>

fun kernel_strcmp :: "u8 list \<Rightarrow> u8 list \<Rightarrow> u32 res" where
  "kernel_strcmp (a # s1) (b # s2) =
     (if a \<noteq> 0 \<and> b \<noteq> 0 \<and> a = b then kernel_strcmp s1 s2 else Inr (scast a - scast b))"
| "kernel_strcmp s1 s2 = Inl Out_Of_Bounds"

fun kernel_strncmp :: "u8 list \<Rightarrow> u8 list \<Rightarrow> nat \<Rightarrow> u32 res" where
  "kernel_strncmp s1 s2 0 = Inr 0"
| "kernel_strncmp (a # s1) (b # s2) (Suc n) =
     (if a \<noteq> b then Inr (ucast a - ucast b) else if a = 0 then Inr 0 else kernel_strncmp s1 s2 n)"
| "kernel_strncmp s1 s2 (Suc n) = Inl Out_Of_Bounds"

section \<open>Length and copies\<close>

fun kernel_strlen :: "u8 list \<Rightarrow> nat res" where
  "kernel_strlen [] = Inl Out_Of_Bounds"
| "kernel_strlen (c # s) = (if c = 0 then Inr 0 else and_then (kernel_strlen s) (\<lambda>n. Inr (Suc n)))"

text \<open>\<open>strcpy\<close> leaves the terminating zero out.\<close>

fun kernel_strcpy :: "u8 list \<Rightarrow> u8 list \<Rightarrow> u8 list res" where
  "kernel_strcpy dest [] = Inl Out_Of_Bounds"
| "kernel_strcpy dest (c # src) =
     (if c = 0 then Inr dest
      else case dest of [] \<Rightarrow> Inl Out_Of_Bounds | d # dest' \<Rightarrow> and_then (kernel_strcpy dest' src) (\<lambda>m. Inr (c # m)))"

fun kernel_strncpy :: "u8 list \<Rightarrow> u8 list \<Rightarrow> nat \<Rightarrow> u8 list res" where
  "kernel_strncpy dst src 0 = Inr dst"
| "kernel_strncpy (d # dst) (c # src) (Suc n) =
     (if c = 0 then and_then (memset dst 0 n) (\<lambda>m. Inr (0 # m))
      else and_then (kernel_strncpy dst src n) (\<lambda>m. Inr (c # m)))"
| "kernel_strncpy dst src (Suc n) = Inl Out_Of_Bounds"

section \<open>What they do\<close>

lemma memset_eq: "n \<le> length m \<Longrightarrow> memset m v n = Inr (replicate n v @ drop n m)"
  by (induction m v n rule: memset.induct) auto

lemma copy_bytes_eq: "n \<le> length d \<Longrightarrow> n \<le> length s \<Longrightarrow> copy_bytes d s n = Inr (take n s @ drop n d)"
  by (induction d s n rule: copy_bytes.induct) auto

lemma kernel_memcpy_eq:
  assumes "n \<le> length d" and "n \<le> length s"
  shows "kernel_memcpy d s n = Inr (take n s @ drop n d)"
proof -
  have le: "4 * (n div 4) \<le> n" by simp
  have sum: "4 * (n div 4) + n mod 4 = n" by simp
  have rest: "n mod 4 \<le> length m - 4 * (n div 4)" if "n \<le> length m" for m :: "u8 list"
    using that sum by (metis add_diff_cancel_left' diff_le_mono)
  have "take n s = take (4 * (n div 4)) s @ take (n mod 4) (drop (4 * (n div 4)) s)"
    using take_add [of "4 * (n div 4)" "n mod 4" s] by (simp add: sum)
  then show ?thesis using assms le sum rest [OF assms(1)] rest [OF assms(2)]
    by (simp add: kernel_memcpy_def copy_bytes_eq add.commute Let_def)
qed

lemma kernel_strlen_eq: "kernel_strlen m = and_then (c_string m) (\<lambda>s. Inr (length s))"
proof (induction m)
  case (Cons c m)
  then show ?case by (cases "c_string m") auto
qed simp

text \<open>The zero is missing: behind the copy the destination is unchanged.\<close>

lemma kernel_strcpy_eq:
  "c_string src = Inr s \<Longrightarrow> length s \<le> length dest \<Longrightarrow> kernel_strcpy dest src = Inr (s @ drop (length s) dest)"
proof (induction dest src arbitrary: s rule: kernel_strcpy.induct)
  case (2 dest c src)
  then show ?case by (cases dest) (auto simp: res_eq_Inr split: if_splits)
qed simp

lemma kernel_strncpy_eq:
  "c_string src = Inr s \<Longrightarrow> n \<le> length dst \<Longrightarrow>
   kernel_strncpy dst src n = Inr (take n (s @ replicate n 0) @ drop n dst)"
proof (induction dst src n arbitrary: s rule: kernel_strncpy.induct)
  case (2 d dst c src n)
  have "take n (s @ replicate (Suc n) 0) = take n (s @ replicate n (0 :: u8))" for s
    by (simp only: take_append take_replicate) simp
  with 2 show ?case by (auto simp: res_eq_Inr memset_eq split: if_splits)
qed auto

end
