(* ===== verification/Events.thy ===== *)
theory Events
  imports Tasks
begin

text \<open>
  User-space events (\<open>kernel/events.c\<close>, with the reader in \<open>userspace/api/src/events.c\<close>), the
  programmable timer (\<open>kernel/pit.c\<close>, \<open>kernel/time.c\<close>) that drives event timers and the
  scheduler, and the bookkeeping of a task's heap (\<open>kernel/userheap.c\<close>). The dispatch of input
  events to windows is in the theory of the desktop.
\<close>

section \<open>Event buffers\<close>

definition no_event :: event where
  "no_event = \<lparr>ev_type = EVENT_NONE, data0 = 0, data1 = 0, data2 = 0\<rparr>"

definition empty_event_buf :: event_buf where
  "empty_event_buf = \<lparr>num_events = 0, ev_buffer = replicate EVENT_BUFFER_SIZE no_event\<rparr>"

text \<open>\<open>sizeof(EventBuffer)\<close> is 4100.\<close>

definition init_events_for_task :: "nat \<Rightarrow> 'a kern_state_scheme \<Rightarrow> 'a kern_state_scheme run" where
  "init_events_for_task i s =
     run_then (sharedmem_create 4100 0 s) (\<lambda>(oid, s1).
     let s2 = upd_task i (\<lambda>t. t\<lparr>event_shmem_id := of_nat oid\<rparr>) s1 in
     run_then (Some (sharedmem_map (event_shmem_id (tasks s2 ! i)) 0 s2)) (\<lambda>(buffer, s3).
     Some (Inr (upd_task i (\<lambda>t. t\<lparr>event_buffer := buffer\<rparr>)
       (s3\<lparr>event_bufs := (event_bufs s3)(buffer := empty_event_buf)\<rparr>)))))"

definition put_event :: "event \<Rightarrow> event_buf \<Rightarrow> event_buf" where
  "put_event e b =
     b\<lparr>ev_buffer := (ev_buffer b)[unat (num_events b mod of_nat EVENT_BUFFER_SIZE) := e], num_events := num_events b + 1\<rparr>"

definition send_event_to_task :: "u32 \<Rightarrow> event \<Rightarrow> 'a kern_state_scheme \<Rightarrow> 'a kern_state_scheme res" where
  "send_event_to_task tid e s =
     kassert (1000 <s tid)
       (and_then (get_task tid s) (\<lambda>i.
        kassert (task_state (tasks s ! i) \<noteq> TASK_STATE_DEAD)
          (kassert (event_buffer (tasks s ! i) \<noteq> 0)
            (let a = event_buffer (tasks s ! i);
                 s1 = s\<lparr>event_bufs := (event_bufs s)(a := put_event e (event_bufs s a))\<rparr>
             in Inr (if task_state (tasks s1 ! i) = TASK_STATE_WAIT_FOR_EVENT
                     then upd_task i (\<lambda>t. t\<lparr>task_state := TASK_STATE_READY\<rparr>) s1 else s1)))))"

definition get_event_buffer_shmem_id :: "'a kern_state_scheme \<Rightarrow> u32" where
  "get_event_buffer_shmem_id s = event_shmem_id (cur s)"

text \<open>\<open>task_wait_for_event\<close> up to the switch to another task, and its check after the task has
  been resumed.\<close>

definition task_wait_for_event :: "u32 \<Rightarrow> 'a kern_state_scheme \<Rightarrow> (u32 \<times> 'a kern_state_scheme) option" where
  "task_wait_for_event esp s =
     task_schedule esp (upd_task (current_task s) (\<lambda>t. t\<lparr>task_state := TASK_STATE_WAIT_FOR_EVENT\<rparr>) s)"

definition after_wait_for_event :: "'a kern_state_scheme \<Rightarrow> 'a kern_state_scheme res" where
  "after_wait_for_event s = kassert (task_state (cur s) \<noteq> TASK_STATE_WAIT_FOR_EVENT) (Inr s)"

section \<open>The reader of the buffer\<close>

text \<open>\<open>os_poll_event\<close> of the user library: \<open>handled\<close> is its static counter \<open>last_handled_event\<close>, a
  signed integer, so that its remainder is negative once it is.\<close>

definition os_poll_event :: "event_buf \<Rightarrow> u32 \<Rightarrow> (event option \<times> u32) res" where
  "os_poll_event b handled =
     (if handled = num_events b then Inr (None, handled)
      else
        (let i = sint handled smod int EVENT_BUFFER_SIZE in
         if i < 0 then Inl Out_Of_Bounds else Inr (Some (ev_buffer b ! nat i), handled + 1)))"

section \<open>The timer\<close>

definition get_system_time_millis :: "'a kern_state_scheme \<Rightarrow> u64" where
  "get_system_time_millis s = pit_ticks s"

definition timer_event :: "nat \<Rightarrow> timer \<Rightarrow> event" where
  "timer_event t tm = \<lparr>ev_type = EVENT_TIMER, data0 = of_nat t, data1 = ucast (next_fire tm), data2 = 0\<rparr>"

definition check_timer :: "u64 \<Rightarrow> nat \<Rightarrow> nat \<Rightarrow> 'a kern_state_scheme \<Rightarrow> 'a kern_state_scheme res" where
  "check_timer time i t s =
     (let tm = timers (tasks s ! i) ! t in
      if \<not> active tm then Inr s
      else if time \<ge> next_fire tm then
        and_then (send_event_to_task (task_id (tasks s ! i)) (timer_event t tm) s) (\<lambda>s1.
        Inr (upd_task i (\<lambda>x. x\<lparr>timers := (timers x)[t := (timers x ! t)\<lparr>next_fire := next_fire (timers x ! t) + ucast (interval (timers x ! t))\<rparr>]\<rparr>) s1))
      else Inr s)"

definition check_event_timers :: "'a kern_state_scheme \<Rightarrow> 'a kern_state_scheme res" where
  "check_event_timers s =
     (let time = get_system_time_millis s in
      for_res 0 MAX_TASKS (\<lambda>i u.
        if task_state (tasks u ! i) = TASK_STATE_DEAD then Inr u
        else for_res 0 MAX_TIMERS (check_timer time i) u) s)"

definition init_timer :: "u32 \<Rightarrow> 'a kern_state_scheme \<Rightarrow> 'a kern_state_scheme res" where
  "init_timer frequency s =
     (let s1 = s\<lparr>pit_freq := frequency\<rparr> in
      if frequency = 0 then Inl Div_By_Zero
      else
        (let divisor = 1193180 div frequency;
             l = ucast (divisor AND 0xFF);
             h = ucast (drop_bit 8 divisor AND 0xFF)
         in Inr (outb 0x40 h (outb 0x40 l (outb 0x43 0x36 s1)))))"

definition set_timer_enabled :: "bool \<Rightarrow> 'a kern_state_scheme \<Rightarrow> 'a kern_state_scheme" where
  "set_timer_enabled enabled s = s\<lparr>pit_enabled := enabled\<rparr>"

text \<open>\<open>handle_timer_int\<close>, with the stack pointer at the call of the scheduler; the first
  component of the result is the stack pointer with which execution continues.\<close>

definition handle_timer_int :: "u32 \<Rightarrow> 'a kern_state_scheme \<Rightarrow> (u32 \<times> 'a kern_state_scheme) run" where
  "handle_timer_int esp s =
     (let s1 = s\<lparr>pit_ticks := pit_ticks s + 1\<rparr> in
      if pit_enabled s1 then
        run_then (Some (check_event_timers s1)) (\<lambda>s2. map_option Inr (task_schedule esp s2))
      else Some (Inr (esp, s1)))"

section \<open>The heap of a task\<close>

definition USER_HEAP_START :: u32 where "USER_HEAP_START = 0x20000000"

definition init_user_heap :: "nat \<Rightarrow> 'a kern_state_scheme \<Rightarrow> 'a kern_state_scheme" where
  "init_user_heap i s = upd_task i (\<lambda>t. t\<lparr>task_heap_start := USER_HEAP_START, task_heap_end := USER_HEAP_START\<rparr>) s"

definition user_heap_page :: "u32 \<Rightarrow> nat \<Rightarrow> 'a vm_state_scheme \<Rightarrow> 'a vm_state_scheme res" where
  "user_heap_page old_page_top i s =
     and_then (pmm_alloc_pageframe s) (\<lambda>(phys, s1).
     let virt = old_page_top * 0x1000 + of_nat i * 0x1000 in
     and_then (mem_map_page virt phys (PAGE_FLAG_WRITE OR PAGE_FLAG_USER OR PAGE_FLAG_OWNER) s1) (\<lambda>s2.
     for_res 0 1024 (\<lambda>k t. vstore (elem virt k) 0 t) s2))"

definition set_user_heap_end :: "nat \<Rightarrow> u32 \<Rightarrow> 'a kern_state_scheme \<Rightarrow> 'a kern_state_scheme res" where
  "set_user_heap_end i new_heap_end s =
     kassert (new_heap_end > task_heap_start (tasks s ! i))
       (let old_page_top = CEIL_DIV (task_heap_end (tasks s ! i)) 0x1000;
            new_page_top = CEIL_DIV new_heap_end 0x1000 in
        and_then
          (if old_page_top <s new_page_top then
             for_res 0 (unat (new_page_top - old_page_top)) (user_heap_page old_page_top) s
           else kassert (\<not> new_page_top <s old_page_top) (Inr s)) (\<lambda>s1.
        Inr (upd_task i (\<lambda>t. t\<lparr>task_heap_end := new_heap_end\<rparr>) s1)))"

end
