(* ===== verification/Events_Props.thy ===== *)
theory Events_Props
  imports Events Sharedmem_Props
begin

text \<open>
  Properties of the event channel between the kernel and a task: with at most 256 events that
  have not been read it is a queue, and every active timer that is due fires once.
\<close>

section \<open>Bounded queues\<close>

datatype 'e fifo_op = Put 'e | Poll

fun run_fifo :: "('e \<Rightarrow> 's \<Rightarrow> 's res) \<Rightarrow> ('s \<Rightarrow> ('e option \<times> 's) res) \<Rightarrow> 'e fifo_op list \<Rightarrow> 's \<Rightarrow> ('e list \<times> 's) res" where
  "run_fifo put poll [] s = Inr ([], s)"
| "run_fifo put poll (Put e # ops) s = and_then (put e s) (run_fifo put poll ops)"
| "run_fifo put poll (Poll # ops) s =
     and_then (poll s) (\<lambda>(r, t). and_then (run_fifo put poll ops t) (\<lambda>(es, u).
     Inr (case r of None \<Rightarrow> es | Some e \<Rightarrow> e # es, u)))"

text \<open>What is sent, and whether the number of unread events stays within \<open>cap\<close>.\<close>

fun sent :: "'e fifo_op list \<Rightarrow> 'e list" where
  "sent [] = []"
| "sent (Put e # ops) = e # sent ops"
| "sent (Poll # ops) = sent ops"

fun within :: "nat \<Rightarrow> 'e fifo_op list \<Rightarrow> nat \<Rightarrow> bool" where
  "within cap [] n \<longleftrightarrow> True"
| "within cap (Put e # ops) n \<longleftrightarrow> n < cap \<and> within cap ops (Suc n)"
| "within cap (Poll # ops) n \<longleftrightarrow> within cap ops (n - 1)"

text \<open>The contract of a queue with a capacity and a bound on the number of elements ever put;
  \<open>rep n s q\<close> says that the state \<open>s\<close> holds the queue \<open>q\<close> after \<open>n\<close> elements.\<close>

locale bounded_fifo =
  fixes put :: "'e \<Rightarrow> 's \<Rightarrow> 's res" and poll :: "'s \<Rightarrow> ('e option \<times> 's) res"
    and rep :: "nat \<Rightarrow> 's \<Rightarrow> 'e list \<Rightarrow> bool" and cap :: nat and total :: nat
  assumes put_rep: "rep n s q \<Longrightarrow> length q < cap \<Longrightarrow> n < total \<Longrightarrow> \<exists>t. put e s = Inr t \<and> rep (Suc n) t (q @ [e])"
    and poll_empty: "rep n s [] \<Longrightarrow> poll s = Inr (None, s)"
    and poll_rep: "rep n s (e # q) \<Longrightarrow> \<exists>t. poll s = Inr (Some e, t) \<and> rep n t q"
begin

lemma in_order:
  "rep n s q \<Longrightarrow> within cap ops (length q) \<Longrightarrow> n + length (sent ops) \<le> total \<Longrightarrow>
   \<exists>es t rest. run_fifo put poll ops s = Inr (es, t) \<and> rep (n + length (sent ops)) t rest \<and> q @ sent ops = es @ rest"
proof (induction ops arbitrary: n s q)
  case Nil
  then show ?case by auto
next
  case (Cons x ops)
  show ?case
  proof (cases x)
    case (Put e)
    with Cons.prems put_rep [of n s q e] obtain t where t: "put e s = Inr t" "rep (Suc n) t (q @ [e])" by auto
    from Cons.IH [OF t(2)] Cons.prems Put t(1) show ?thesis by auto
  next
    case Poll
    show ?thesis
    proof (cases q)
      case Nil
      with Cons.IH [OF Cons.prems(1)] Cons.prems Poll poll_empty [of n s] show ?thesis by auto
    next
      case (Cons e q')
      obtain t where t: "poll s = Inr (Some e, t)" "rep n t q'" using poll_rep Cons.prems(1) Cons by metis
      from Cons.IH [OF t(2)] Cons.prems Poll Cons t(1) show ?thesis by auto
    qed
  qed
qed

end

section \<open>The channel of a task\<close>

text \<open>The state of the channel is the kernel's state and the counter of the reader.\<close>

definition channel_put :: "u32 \<Rightarrow> event \<Rightarrow> 'a kern_state_scheme \<times> u32 \<Rightarrow> ('a kern_state_scheme \<times> u32) res" where
  "channel_put tid e c = and_then (send_event_to_task tid e (fst c)) (\<lambda>t. Inr (t, snd c))"

definition channel_poll :: "nat \<Rightarrow> 'a kern_state_scheme \<times> u32 \<Rightarrow> (event option \<times> 'a kern_state_scheme \<times> u32) res" where
  "channel_poll i c =
     and_then (os_poll_event (event_bufs (fst c) (event_buffer (tasks (fst c) ! i))) (snd c)) (\<lambda>(r, h).
     Inr (r, fst c, h))"

definition buf_holds :: "nat \<Rightarrow> event_buf \<Rightarrow> u32 \<Rightarrow> event list \<Rightarrow> bool" where
  "buf_holds n b handled q \<longleftrightarrow>
     length (ev_buffer b) = EVENT_BUFFER_SIZE \<and> n \<le> 2 ^ 31 \<and> length q \<le> EVENT_BUFFER_SIZE \<and>
     num_events b = of_nat n \<and> unat handled + length q = n \<and>
     (\<forall>k<length q. ev_buffer b ! ((unat handled + k) mod EVENT_BUFFER_SIZE) = q ! k)"

definition channel_holds :: "nat \<Rightarrow> nat \<Rightarrow> 'a kern_state_scheme \<times> u32 \<Rightarrow> event list \<Rightarrow> bool" where
  "channel_holds i n c q \<longleftrightarrow>
     i < length (tasks (fst c)) \<and> 0 < i \<and> i < 1000 \<and> task_state (tasks (fst c) ! i) \<noteq> TASK_STATE_DEAD \<and>
     event_buffer (tasks (fst c) ! i) \<noteq> 0 \<and>
     buf_holds n (event_bufs (fst c) (event_buffer (tasks (fst c) ! i))) (snd c) q"

lemma buf_put:
  assumes "buf_holds n b handled q" and "length q < EVENT_BUFFER_SIZE" and "n < 2 ^ 31"
  shows "buf_holds (Suc n) (put_event e b) handled (q @ [e])"
proof -
  have n: "unat handled + length q = n" using assms(1) by (simp add: buf_holds_def)
  have "unat (num_events b mod of_nat EVENT_BUFFER_SIZE) = n mod EVENT_BUFFER_SIZE"
    using assms(1,3) by (simp add: buf_holds_def EVENT_BUFFER_SIZE_def unat_mod unat_of_nat_small)
  moreover have "ev_buffer b ! ((unat handled + k) mod EVENT_BUFFER_SIZE) = q ! k \<and>
      n mod EVENT_BUFFER_SIZE \<noteq> (unat handled + k) mod EVENT_BUFFER_SIZE" if "k < length q" for k
  proof -
    have "(n - (unat handled + k)) mod EVENT_BUFFER_SIZE \<noteq> 0"
      using that n assms(2) by simp
    then have "n mod EVENT_BUFFER_SIZE \<noteq> (unat handled + k) mod EVENT_BUFFER_SIZE"
      using that n by (metis add_le_cancel_left less_imp_le mod_eq_dvd_iff_nat mod_eq_0_iff_dvd)
    then show ?thesis using assms(1) that by (simp add: buf_holds_def)
  qed
  ultimately show ?thesis using assms n
    by (auto simp: buf_holds_def put_event_def nth_append nth_list_update EVENT_BUFFER_SIZE_def less_Suc_eq)
qed

lemma smod_nat: "int k smod int m = int (k mod m)"
  by (cases k) (simp_all add: smod_int_alt_def zmod_int sgn_if)

lemma buf_poll:
  assumes "buf_holds n b handled (e # q)"
  shows "os_poll_event b handled = Inr (Some e, handled + 1) \<and> buf_holds n b (handled + 1) q"
proof -
  have n: "unat handled + length q + 1 = n" "n \<le> 2 ^ 31" "num_events b = of_nat n"
    and elems: "\<And>k. k < Suc (length q) \<Longrightarrow> ev_buffer b ! ((unat handled + k) mod EVENT_BUFFER_SIZE) = (e # q) ! k"
    using assms by (auto simp: buf_holds_def)
  have small: "unat handled < 2 ^ 31" using n by simp
  then have s: "sint handled = int (unat handled)" by (rule sint_eq_unat)
  have "unat (num_events b) = n" using n(2,3) by (simp add: unat_of_nat_small)
  then have ne: "handled \<noteq> num_events b" using n(1) by auto
  have "int (unat handled) smod int EVENT_BUFFER_SIZE = int (unat handled mod EVENT_BUFFER_SIZE)"
    by (rule smod_nat)
  then have "os_poll_event b handled = Inr (Some (ev_buffer b ! (unat handled mod EVENT_BUFFER_SIZE)), handled + 1)"
    using ne by (simp add: os_poll_event_def s)
  moreover have "unat (handled + 1) = unat handled + 1" using small by (simp add: unat_add_small)
  ultimately show ?thesis using assms elems [of 0] elems [of "Suc k" for k]
    by (auto simp: buf_holds_def)
qed

lemma buf_poll_empty: "buf_holds n b handled [] \<Longrightarrow> os_poll_event b handled = Inr (None, handled)"
  by (auto simp: buf_holds_def os_poll_event_def)

lemma get_task_slot: "i < length (tasks s) \<Longrightarrow> i < 1000 \<Longrightarrow> get_task (of_nat i + 1000) s = Inr i"
proof -
  assume i: "i < length (tasks s)" "i < 1000"
  have "unat (of_nat i + 1000 :: u32) = i + 1000" using i(2) by (simp add: unat_add_small unat_of_nat_small)
  then have "1000 \<le>s (of_nat i + 1000 :: u32)" using i(2) by (simp add: word_sle_eq sint_eq_unat)
  then show ?thesis using i by (simp add: get_task_def get_task_index_def unat_of_nat_small)
qed

lemma channel_put_holds:
  assumes "channel_holds i n c q" and "length q < EVENT_BUFFER_SIZE" and "n < 2 ^ 31"
  shows "\<exists>d. channel_put (of_nat i + 1000) e c = Inr d \<and> channel_holds i (Suc n) d (q @ [e])"
proof -
  obtain s h where c: "c = (s, h)" by (cases c)
  have i: "0 < i" "i < 1000" "i < length (tasks s)" using assms(1) by (simp_all add: c channel_holds_def)
  have "unat (of_nat i + 1000 :: u32) = i + 1000" using i(2) by (simp add: unat_add_small unat_of_nat_small)
  then have "1000 <s (of_nat i + 1000 :: u32)" using i(1,2) by (simp add: word_sless_alt sint_eq_unat)
  then show ?thesis using assms buf_put get_task_slot [OF i(3,2)]
    by (auto simp: c channel_put_def channel_holds_def send_event_to_task_def Let_def task_states)
qed

interpretation channel: bounded_fifo "channel_put (of_nat i + 1000)" "channel_poll i" "channel_holds i" EVENT_BUFFER_SIZE "2 ^ 31" for i
proof unfold_locales
  fix n and s :: "'a kern_state_scheme \<times> u32" and q e
  assume "channel_holds i n s q" "length q < EVENT_BUFFER_SIZE" "n < 2 ^ 31"
  then show "\<exists>t. channel_put (of_nat i + 1000) e s = Inr t \<and> channel_holds i (Suc n) t (q @ [e])"
    by (rule channel_put_holds)
next
  fix n and s :: "'a kern_state_scheme \<times> u32"
  assume "channel_holds i n s []"
  then show "channel_poll i s = Inr (None, s)"
    by (cases s) (auto simp: channel_holds_def channel_poll_def dest: buf_poll_empty)
next
  fix n and s :: "'a kern_state_scheme \<times> u32" and e q
  assume "channel_holds i n s (e # q)"
  then show "\<exists>t. channel_poll i s = Inr (Some e, t) \<and> channel_holds i n t q"
    by (cases s) (auto simp: channel_holds_def channel_poll_def dest: buf_poll)
qed

section \<open>Timers\<close>

definition is_due :: "u64 \<Rightarrow> timer \<Rightarrow> bool" where
  "is_due time tm \<longleftrightarrow> active tm \<and> next_fire tm \<le> time"

definition fire :: "u64 \<Rightarrow> timer \<Rightarrow> timer" where
  "fire time tm = (if is_due time tm then tm\<lparr>next_fire := next_fire tm + ucast (interval tm)\<rparr> else tm)"

text \<open>The events of the first \<open>n\<close> timers, in their order, and the task after them.\<close>

definition due_events :: "u64 \<Rightarrow> nat \<Rightarrow> timer list \<Rightarrow> event list" where
  "due_events time n tms = map (\<lambda>t. timer_event t (tms ! t)) (List.filter (\<lambda>t. is_due time (tms ! t)) [0..<n])"

definition ticked :: "u64 \<Rightarrow> nat \<Rightarrow> task \<Rightarrow> task" where
  "ticked time n t =
     t\<lparr>timers := map (fire time) (take n (timers t)) @ drop n (timers t),
       task_state := (if task_state t = TASK_STATE_WAIT_FOR_EVENT \<and> due_events time n (timers t) \<noteq> []
                      then TASK_STATE_READY else task_state t)\<rparr>"

definition sendable :: "'a kern_state_scheme \<Rightarrow> nat \<Rightarrow> bool" where
  "sendable s i \<longleftrightarrow> 0 < i \<and> task_id (tasks s ! i) = of_nat i + 1000 \<and> event_buffer (tasks s ! i) \<noteq> 0"

lemma due_events_Suc:
  "due_events time (Suc n) tms = due_events time n tms @ (if is_due time (tms ! n) then [timer_event n (tms ! n)] else [])"
  by (simp add: due_events_def)

lemma ticked_0: "ticked time 0 t = t"
  by (simp add: ticked_def due_events_def)

lemma send_to_live:
  assumes "i < length (tasks s)" "i < 1000" "sendable s i" "task_state (tasks s ! i) \<noteq> TASK_STATE_DEAD"
  shows "send_event_to_task (task_id (tasks s ! i)) e s =
    Inr (s\<lparr>event_bufs := (event_bufs s)(event_buffer (tasks s ! i) := put_event e (event_bufs s (event_buffer (tasks s ! i)))),
           tasks := (tasks s)[i := (tasks s ! i)\<lparr>task_state := if task_state (tasks s ! i) = TASK_STATE_WAIT_FOR_EVENT
             then TASK_STATE_READY else task_state (tasks s ! i)\<rparr>]\<rparr>)"
proof -
  have "unat (of_nat i + 1000 :: u32) = i + 1000" using assms(2) by (simp add: unat_add_small unat_of_nat_small)
  then have "1000 <s (of_nat i + 1000 :: u32)" using assms(2,3) by (simp add: word_sless_alt sint_eq_unat sendable_def)
  then show ?thesis using assms get_task_slot [OF assms(1,2)]
    by (auto simp: send_event_to_task_def sendable_def Let_def upd_task_def)
qed

text \<open>One timer of one task.\<close>

lemma check_timer_step:
  assumes i: "i < length (tasks s)" "i < 1000" and live: "task_state (tasks s ! i) \<noteq> TASK_STATE_DEAD"
    and k: "k < length (timers (tasks s ! i))" and snd: "is_due time (timers (tasks s ! i) ! k) \<longrightarrow> sendable s i"
  defines "a \<equiv> event_buffer (tasks s ! i)" and "T n \<equiv> ticked time n (tasks s ! i)"
    and "B n \<equiv> fold put_event (due_events time n (timers (tasks s ! i))) (event_bufs s (event_buffer (tasks s ! i)))"
  shows "check_timer time i k (s\<lparr>tasks := (tasks s)[i := T k], event_bufs := (event_bufs s)(a := B k)\<rparr>) =
    Inr (s\<lparr>tasks := (tasks s)[i := T (Suc k)], event_bufs := (event_bufs s)(a := B (Suc k))\<rparr>)"
proof -
  let ?u = "s\<lparr>tasks := (tasks s)[i := T k], event_bufs := (event_bufs s)(a := B k)\<rparr>"
  have tm: "timers (T k) ! k = timers (tasks s ! i) ! k" using k by (simp add: T_def ticked_def nth_append)
  have upd: "map (fire time) (take (Suc k) (timers (tasks s ! i))) @ drop (Suc k) (timers (tasks s ! i)) =
      (map (fire time) (take k (timers (tasks s ! i))) @ drop k (timers (tasks s ! i)))[k := fire time (timers (tasks s ! i) ! k)]"
    using k by (intro nth_equalityI) (auto simp: nth_append nth_list_update not_less less_Suc_eq min_def)
  show ?thesis
  proof (cases "is_due time (timers (tasks s ! i) ! k)")
    case False
    then have "T (Suc k) = T k" using k upd
      by (simp add: T_def ticked_def due_events_Suc fire_def list_update_append nth_append list_update_same_conv)
    with False show ?thesis using i(1) tm by (auto simp: check_timer_def Let_def is_due_def B_def due_events_Suc)
  next
    case True
    have snd': "sendable ?u i" using snd True i(1) by (simp add: sendable_def T_def ticked_def)
    have live': "task_state (tasks ?u ! i) \<noteq> TASK_STATE_DEAD"
      using live i(1) by (simp add: T_def ticked_def task_states)
    have sent: "send_event_to_task (task_id (tasks ?u ! i)) e ?u =
       Inr (?u\<lparr>event_bufs := (event_bufs ?u)(a := put_event e (event_bufs ?u a)),
         tasks := (tasks ?u)[i := (tasks ?u ! i)\<lparr>task_state := if task_state (tasks ?u ! i) = TASK_STATE_WAIT_FOR_EVENT
             then TASK_STATE_READY else task_state (tasks ?u ! i)\<rparr>]\<rparr>)" for e
      using send_to_live [OF _ i(2) snd' live', of e] i(1) by (simp add: a_def T_def ticked_def)
    have "T (Suc k) = (T k)\<lparr>task_state := if task_state (T k) = TASK_STATE_WAIT_FOR_EVENT then TASK_STATE_READY else task_state (T k),
        timers := (timers (T k))[k := fire time (timers (T k) ! k)]\<rparr>"
      using True tm upd by (simp add: T_def ticked_def due_events_Suc)
    moreover have "B (Suc k) = put_event (timer_event k (timers (tasks s ! i) ! k)) (B k)"
      using True by (simp add: B_def due_events_Suc)
    ultimately show ?thesis using True i(1) tm sent [of "timer_event k (timers (T k) ! k)"]
      by (simp add: check_timer_def Let_def is_due_def fire_def upd_task_def)
  qed
qed

text \<open>All timers of one task.\<close>

lemma task_timers:
  assumes i: "i < length (tasks s)" "i < 1000" and live: "task_state (tasks s ! i) \<noteq> TASK_STATE_DEAD"
    and len: "length (timers (tasks s ! i)) = MAX_TIMERS"
    and snd: "\<And>k. k < MAX_TIMERS \<Longrightarrow> is_due time (timers (tasks s ! i) ! k) \<Longrightarrow> sendable s i"
  shows "for_res 0 MAX_TIMERS (check_timer time i) s =
    Inr (s\<lparr>tasks := (tasks s)[i := ticked time MAX_TIMERS (tasks s ! i)],
           event_bufs := (event_bufs s)(event_buffer (tasks s ! i) :=
             fold put_event (due_events time MAX_TIMERS (timers (tasks s ! i))) (event_bufs s (event_buffer (tasks s ! i))))\<rparr>)"
proof -
  let ?u = "\<lambda>k. s\<lparr>tasks := (tasks s)[i := ticked time k (tasks s ! i)],
      event_bufs := (event_bufs s)(event_buffer (tasks s ! i) :=
        fold put_event (due_events time k (timers (tasks s ! i))) (event_bufs s (event_buffer (tasks s ! i))))\<rparr>"
  have "\<exists>t. for_res 0 MAX_TIMERS (check_timer time i) s = Inr t \<and> t = ?u MAX_TIMERS"
  proof (rule for_res_rule [where I = "\<lambda>k t. t = ?u k"])
    show "s = ?u 0" by (simp add: ticked_0 due_events_def)
    fix k t assume k: "k < MAX_TIMERS" "t = ?u k"
    have "check_timer time i k (?u k) = Inr (?u (Suc k))"
      by (rule check_timer_step [OF i live]) (use k(1) len snd in auto)
    then show "\<exists>t'. check_timer time i k t = Inr t' \<and> t' = ?u (Suc k)" by (simp add: k(2))
  qed simp
  then show ?thesis by simp
qed

definition tick :: "u64 \<Rightarrow> task \<Rightarrow> task" where
  "tick time t = (if task_state t = TASK_STATE_DEAD then t else ticked time MAX_TIMERS t)"

definition timers_ok :: "u64 \<Rightarrow> 'a kern_state_scheme \<Rightarrow> bool" where
  "timers_ok time s \<longleftrightarrow> length (tasks s) = MAX_TASKS \<and>
     (\<forall>i<MAX_TASKS. task_state (tasks s ! i) \<noteq> TASK_STATE_DEAD \<longrightarrow> length (timers (tasks s ! i)) = MAX_TIMERS \<and>
       ((\<exists>k<MAX_TIMERS. is_due time (timers (tasks s ! i) ! k)) \<longrightarrow> sendable s i)) \<and>
     (\<forall>i<MAX_TASKS. \<forall>j<MAX_TASKS. task_state (tasks s ! i) \<noteq> TASK_STATE_DEAD \<and> task_state (tasks s ! j) \<noteq> TASK_STATE_DEAD \<and>
       event_buffer (tasks s ! i) = event_buffer (tasks s ! j) \<and> event_buffer (tasks s ! i) \<noteq> 0 \<longrightarrow> i = j)"

definition delivered :: "u64 \<Rightarrow> task \<Rightarrow> event_buf \<Rightarrow> event_buf" where
  "delivered time t b = fold put_event (due_events time MAX_TIMERS (timers t)) b"

lemma check_event_timers_eq:
  assumes ok: "timers_ok (pit_ticks s) s"
  shows "\<exists>bufs. check_event_timers s = Inr (s\<lparr>tasks := map (tick (pit_ticks s)) (tasks s), event_bufs := bufs\<rparr>) \<and>
    (\<forall>i<MAX_TASKS. task_state (tasks s ! i) \<noteq> TASK_STATE_DEAD \<longrightarrow>
       bufs (event_buffer (tasks s ! i)) = delivered (pit_ticks s) (tasks s ! i) (event_bufs s (event_buffer (tasks s ! i))))"
proof -
  let ?time = "pit_ticks s" and ?live = "\<lambda>i. task_state (tasks s ! i) \<noteq> TASK_STATE_DEAD"
  let ?ts = "\<lambda>n. map (tick ?time) (take n (tasks s)) @ drop n (tasks s)"
  let ?I = "\<lambda>n t. \<exists>bufs. t = s\<lparr>tasks := ?ts n, event_bufs := bufs\<rparr> \<and> (\<forall>i<MAX_TASKS. ?live i \<longrightarrow>
      bufs (event_buffer (tasks s ! i)) = (if i < n then delivered ?time (tasks s ! i) else (\<lambda>b. b)) (event_bufs s (event_buffer (tasks s ! i))))"
  have len: "length (tasks s) = MAX_TASKS" using ok by (simp add: timers_ok_def)
  have "\<exists>t. for_res 0 MAX_TASKS (\<lambda>i u. if task_state (tasks u ! i) = TASK_STATE_DEAD then Inr u
        else for_res 0 MAX_TIMERS (check_timer ?time i) u) s = Inr t \<and> ?I MAX_TASKS t"
  proof (rule for_res_rule [where I = ?I])
    show "?I 0 s" by (rule exI [of _ "event_bufs s"]) simp
    fix n t assume n: "n < MAX_TASKS" and "?I n t"
    then obtain bufs where t: "t = s\<lparr>tasks := ?ts n, event_bufs := bufs\<rparr>"
      and b: "\<And>i. i < MAX_TASKS \<Longrightarrow> ?live i \<Longrightarrow> bufs (event_buffer (tasks s ! i)) =
        (if i < n then delivered ?time (tasks s ! i) else (\<lambda>b. b)) (event_bufs s (event_buffer (tasks s ! i)))" by blast
    have nth: "tasks t ! n = tasks s ! n" "n < length (tasks t)" using n len by (simp_all add: t nth_append)
    have upd: "(?ts n)[n := tick ?time (tasks s ! n)] = ?ts (Suc n)"
      using n len by (intro nth_equalityI) (auto simp: nth_append nth_list_update not_less less_Suc_eq min_def)
    show "\<exists>t'. (if task_state (tasks t ! n) = TASK_STATE_DEAD then Inr t
        else for_res 0 MAX_TIMERS (check_timer ?time n) t) = Inr t' \<and> ?I (Suc n) t'"
    proof (cases "?live n")
      case False
      then have dead: "task_state (tasks s ! n) = TASK_STATE_DEAD" by simp
      have tn: "?ts n ! n = tasks s ! n" using nth(1) by (simp only: t) simp
      have "?ts (Suc n) = (?ts n)[n := tasks s ! n]" using upd dead by (simp only: tick_def simp_thms if_True)
      also have "\<dots> = ?ts n" unfolding tn [symmetric] by (rule list_update_id)
      finally have "?ts (Suc n) = ?ts n" .
      then have "?I (Suc n) t" using t b False by (intro exI [of _ bufs]) (auto simp: less_Suc_eq)
      then show ?thesis using False nth by simp
    next
      case True
      let ?a = "event_buffer (tasks s ! n)"
      let ?t' = "t\<lparr>tasks := (tasks t)[n := ticked ?time MAX_TIMERS (tasks s ! n)],
           event_bufs := bufs(?a := delivered ?time (tasks s ! n) (bufs ?a))\<rparr>"
      have "for_res 0 MAX_TIMERS (check_timer ?time n) t = Inr ?t'"
        using task_timers [of n t ?time] nth True ok n
        by (auto simp: timers_ok_def t delivered_def sendable_def MAX_TASKS_def)
      moreover have "?I (Suc n) ?t'"
      proof (intro exI conjI allI impI)
        show "?t' = s\<lparr>tasks := ?ts (Suc n), event_bufs := bufs(?a := delivered ?time (tasks s ! n) (bufs ?a))\<rparr>"
          using upd True by (simp add: t tick_def)
        fix i assume i: "i < MAX_TASKS" "?live i"
        have "delivered ?time (tasks s ! k) = (\<lambda>b. b)" if "k < MAX_TASKS" "?live k" "event_buffer (tasks s ! k) = 0" for k
        proof -
          have "due_events ?time MAX_TIMERS (timers (tasks s ! k)) = []"
            using ok that by (auto simp: timers_ok_def sendable_def due_events_def filter_empty_conv)
          then show ?thesis by (intro ext) (simp add: delivered_def)
        qed
        moreover have "i = n" if "event_buffer (tasks s ! i) = ?a" "?a \<noteq> 0" using ok i n True that unfolding timers_ok_def by metis
        ultimately show "(bufs(?a := delivered ?time (tasks s ! n) (bufs ?a))) (event_buffer (tasks s ! i)) =
           (if i < Suc n then delivered ?time (tasks s ! i) else (\<lambda>b. b)) (event_bufs s (event_buffer (tasks s ! i)))"
          using b [OF i] b [OF n True] n True i by (cases "?a = 0") (auto simp: less_Suc_eq)
      qed
      ultimately show ?thesis using True nth by simp
    qed
  qed simp
  then show ?thesis using len by (auto simp: check_event_timers_def get_system_time_millis_def Let_def)
qed

section \<open>Properties\<close>

text \<open>C23: The event channel is a queue. Events that the kernel sends to a live task and that the
  task reads with \<open>os_poll_event\<close>, in any interleaving in which never more than 256 are unread,
  are sent without a failed assertion and read in order, each once, with none lost: what was
  read and what is still unread together are what was unread at first and what was sent.\<close>

theorem events_fifo:
  assumes "channel_holds i n c q" and "within EVENT_BUFFER_SIZE ops (length q)" and "n + length (sent ops) \<le> 2 ^ 31"
  shows "\<exists>es d rest. run_fifo (channel_put (of_nat i + 1000)) (channel_poll i) ops c = Inr (es, d) \<and>
    channel_holds i (n + length (sent ops)) d rest \<and> q @ sent ops = es @ rest"
  using assms by (rule channel.in_order)

definition example_events :: kern_state where
  "example_events = example_kern\<lparr>tasks := (replicate MAX_TASKS no_task)
       [1 := no_task\<lparr>task_id := 1001, task_state := TASK_STATE_WAIT_FOR_EVENT, event_buffer := KERNEL_SHARED_MEMORY,
               timers := [\<lparr>interval = 20, next_fire = 7, active = True\<rparr>, no_timer, no_timer, no_timer]\<rparr>],
     event_bufs := (\<lambda>_. empty_event_buf), pit_ticks := 9\<rparr>"

theorem events_fifo_witness:
  "\<exists>es d rest. run_fifo (channel_put 1001) (channel_poll 1) [Put no_event, Poll, Poll, Put no_event] (example_events, 0) = Inr (es, d) \<and>
    es @ rest = [no_event, no_event]"
proof -
  have "channel_holds 1 0 (example_events, 0) []"
    by (simp add: channel_holds_def buf_holds_def example_events_def MAX_TASKS_def task_states KERNEL_SHARED_MEMORY_def
        empty_event_buf_def)
  from events_fifo [OF this, of "[Put no_event, Poll, Poll, Put no_event]"] show ?thesis
    by (auto simp: EVENT_BUFFER_SIZE_def)
qed

text \<open>C24: Every due timer fires once. On each tick \<open>check_event_timers\<close> advances exactly the active
  timers whose time has come by their interval, appends one event for each to the buffer of
  its task, in the order of the timers, makes a task that waits for events ready exactly when
  it got one, and changes nothing else.\<close>

theorem timers_fire:
  assumes "timers_ok (pit_ticks s) s"
  shows "\<exists>bufs. check_event_timers s = Inr (s\<lparr>tasks := map (tick (pit_ticks s)) (tasks s), event_bufs := bufs\<rparr>) \<and>
    (\<forall>i<MAX_TASKS. task_state (tasks s ! i) \<noteq> TASK_STATE_DEAD \<longrightarrow>
       bufs (event_buffer (tasks s ! i)) = delivered (pit_ticks s) (tasks s ! i) (event_bufs s (event_buffer (tasks s ! i))))"
  by (rule check_event_timers_eq [OF assms])

theorem timers_fire_witness:
  "\<exists>t. check_event_timers example_events = Inr t \<and> task_state (tasks t ! 1) = TASK_STATE_READY \<and>
    next_fire (timers (tasks t ! 1) ! 0) = 27 \<and> num_events (event_bufs t KERNEL_SHARED_MEMORY) = 1"
proof -
  have task: "tasks example_events ! i = no_task" if "i < MAX_TASKS" "i \<noteq> 1" for i
    using that by (simp add: example_events_def)
  have only: "i = 1" if "i < MAX_TASKS" "task_state (tasks example_events ! i) \<noteq> TASK_STATE_DEAD" for i
    by (rule ccontr) (use task [OF that(1)] that(2) in \<open>simp add: no_task_def\<close>)
  have ok: "timers_ok (pit_ticks example_events) example_events"
    unfolding timers_ok_def
  proof (intro conjI allI impI)
    fix i assume i: "i < MAX_TASKS" "task_state (tasks example_events ! i) \<noteq> TASK_STATE_DEAD"
    then have "i = 1" using only by blast
    then show "length (timers (tasks example_events ! i)) = MAX_TIMERS" "sendable example_events i"
      by (simp_all add: example_events_def sendable_def MAX_TASKS_def MAX_TIMERS_def KERNEL_SHARED_MEMORY_def)
  next
    fix i j
    assume "i < MAX_TASKS" "j < MAX_TASKS" "task_state (tasks example_events ! i) \<noteq> TASK_STATE_DEAD \<and>
      task_state (tasks example_events ! j) \<noteq> TASK_STATE_DEAD \<and>
      event_buffer (tasks example_events ! i) = event_buffer (tasks example_events ! j) \<and> event_buffer (tasks example_events ! i) \<noteq> 0"
    then have "i = 1" "j = 1" using only by blast+
    then show "i = j" by simp
  qed (simp add: example_events_def)
  have t1: "tasks example_events ! 1 = no_task\<lparr>task_id := 1001, task_state := TASK_STATE_WAIT_FOR_EVENT,
      event_buffer := KERNEL_SHARED_MEMORY, timers := [\<lparr>interval = 20, next_fire = 7, active = True\<rparr>, no_timer, no_timer, no_timer]\<rparr>"
    by (simp add: example_events_def MAX_TASKS_def)
  have due: "due_events 9 4 (timers (tasks example_events ! 1)) =
      [timer_event 0 \<lparr>interval = 20, next_fire = 7, active = True\<rparr>]"
    unfolding t1 by (simp add: due_events_def is_due_def no_timer_def upt_rec)
  have facts: "pit_ticks example_events = 9" "length (tasks example_events) = MAX_TASKS" "event_bufs example_events = (\<lambda>_. empty_event_buf)"
    by (simp_all add: example_events_def)
  have one: "1 < MAX_TASKS" "task_state (tasks example_events ! 1) \<noteq> TASK_STATE_DEAD"
    "event_buffer (tasks example_events ! 1) = KERNEL_SHARED_MEMORY" unfolding t1 by (simp_all add: MAX_TASKS_def task_states)
  obtain bufs where b: "check_event_timers example_events =
      Inr (example_events\<lparr>tasks := map (tick 9) (tasks example_events), event_bufs := bufs\<rparr>)"
    "bufs KERNEL_SHARED_MEMORY = delivered 9 (tasks example_events ! 1) empty_event_buf"
    using timers_fire [OF ok] one unfolding facts by metis
  have "map (tick 9) (tasks example_events) ! 1 = ticked 9 4 (tasks example_events ! 1)"
    using one facts(2) by (simp add: tick_def MAX_TIMERS_def)
  moreover have "delivered 9 (tasks example_events ! 1) empty_event_buf = put_event (timer_event 0 \<lparr>interval = 20, next_fire = 7, active = True\<rparr>) empty_event_buf"
    using due by (simp add: delivered_def MAX_TIMERS_def)
  moreover have "task_state (ticked 9 4 (tasks example_events ! 1)) = TASK_STATE_READY"
    using due by (simp add: ticked_def) (simp add: t1 [unfolded One_nat_def] task_states)
  moreover have "next_fire (timers (ticked 9 4 (tasks example_events ! 1)) ! 0) = 27"
    unfolding t1 by (simp add: ticked_def fire_def is_due_def)
  ultimately show ?thesis using b
    by (intro exI [of _ "example_events\<lparr>tasks := map (tick 9) (tasks example_events), event_bufs := bufs\<rparr>"])
      (simp add: put_event_def empty_event_buf_def)
qed

end
