(* ===== verification/Frames.thy ===== *)
theory Frames
  imports Tasks
begin

text \<open>
  What the memory components leave alone: an operation on the physical allocator, the page
  tables or the heap that returns changes only its own part of the kernel state. The lemmas
  hold for every state that extends the component's record, so they carry over to the tables
  of the kernel and to the desktop.
\<close>

named_theorems frame_dests "operations keep the extension of their record"

lemma for_res_frame:
  assumes "for_res lo hi body s = Inr t" and "\<And>i u v. body i u = Inr v \<Longrightarrow> g v = g u"
  shows "g t = g s"
proof (cases "lo \<le> hi")
  case True
  show ?thesis by (rule for_res_inv [where I = "\<lambda>i u. g u = g s", OF assms(1) True refl]) (use assms(2) in auto)
qed (use assms(1) in simp)

lemma for_run_frame:
  assumes "for_run lo hi body s = Some (Inr t)" and step: "\<And>i u v. body i u = Some (Inr v) \<Longrightarrow> g v = g u"
  shows "g t = g s"
  using assms(1)
proof (induction "hi - lo" arbitrary: lo s)
  case (Suc n)
  then obtain u where "body lo s = Some (Inr u)" "for_run (Suc lo) hi body u = Some (Inr t)"
    by (auto simp: for_run_step run_then_eq_Some_Inr)
  with Suc.hyps(1) [of "Suc lo" u] Suc.hyps(2) step show ?case by auto
qed simp

section \<open>Physical pages\<close>

lemma pmm_scan_frame: "pmm_scan b e s = Inr (p, t) \<Longrightarrow> pmm_state.more t = pmm_state.more s"
proof (induction b e s rule: pmm_scan.induct)
  case (1 b e s)
  then show ?case
    by (subst (asm) (3) pmm_scan.simps)
      (auto simp: in_bounds_eq_Inr Let_def split: if_splits option.splits)
qed

lemma pmm_alloc_frame: "pmm_alloc_pageframe s = Inr (p, t) \<Longrightarrow> pmm_state.more t = pmm_state.more s"
  unfolding pmm_alloc_pageframe_def by (rule pmm_scan_frame)

lemma pmm_free_frame: "pmm_free_pageframe a s = Inr t \<Longrightarrow> pmm_state.more t = pmm_state.more s"
  by (auto simp: pmm_free_pageframe_def set_pf_used_def res_eq_Inr Let_def split: if_splits)

text \<open>Equal extensions of a record give equal fields and extensions of the records above.\<close>

lemma pmm_more: "pmm_state.more t = pmm_state.more s \<Longrightarrow> vm_state.more t = vm_state.more (s :: 'a vm_state_scheme)"
  by (cases t; cases s) simp

lemma heap_more: "vm_state.more t = vm_state.more s \<Longrightarrow> kheap_state.more t = kheap_state.more (s :: 'a kheap_state_scheme)"
  by (cases t; cases s) simp

lemmas pmm_alloc_vm [frame_dests] = pmm_more [OF pmm_alloc_frame]
lemmas pmm_free_vm [frame_dests] = pmm_more [OF pmm_free_frame]

section \<open>Page tables\<close>

lemma vstore_frame [frame_dests]: "vstore a v s = Inr t \<Longrightarrow> vm_state.more t = vm_state.more s"
  by (auto simp: vstore_def put_word_def split: option.splits)

lemma change_dir_frame [frame_dests]: "mem_change_page_directory pd s = Inr t \<Longrightarrow> vm_state.more t = vm_state.more s"
  by (auto simp: mem_change_page_directory_def res_eq_Inr)

lemma copy_kernel_part_frame [simp]: "vm_state.more (copy_kernel_part pd s) = vm_state.more s"
proof -
  have "vm_state.more (fold (\<lambda>i t. put_word (kframe pd) i (pmem t (kframe (initial_page_dir t)) i AND NOT PAGE_FLAG_OWNER) t) is s) =
    vm_state.more s" for "is"
    by (induction "is" arbitrary: s) (simp_all add: put_word_def)
  then show ?thesis unfolding copy_kernel_part_def .
qed

lemma sync_frame [frame_dests]: "sync_page_dirs s = Inr t \<Longrightarrow> vm_state.more t = vm_state.more s"
proof -
  have "vm_state.more (fold (\<lambda>i t. if page_dir_used t ! i then copy_kernel_part (page_dir_ptr i t) t else t) is s) = vm_state.more s"
    for "is" by (induction "is" arbitrary: s) auto
  then show "sync_page_dirs s = Inr t \<Longrightarrow> vm_state.more t = vm_state.more s"
    by (auto simp: sync_page_dirs_def verify_interrupts_disabled_def res_eq_Inr)
qed

lemma enter_frame [frame_dests]: "enter_kernel_dir va s = Inr (p, t) \<Longrightarrow> vm_state.more t = vm_state.more s"
  by (auto simp: enter_kernel_dir_def Let_def res_eq_Inr split: if_splits dest!: frame_dests)

lemma leave_frame [frame_dests]: "leave_kernel_dir p s = Inr t \<Longrightarrow> vm_state.more t = vm_state.more s"
  by (auto simp: leave_kernel_dir_def res_eq_Inr split: if_splits dest!: frame_dests)

lemma vstores_frame [frame_dests]: "for_res lo hi (\<lambda>i. vstore (a i) (v i)) s = Inr t \<Longrightarrow> vm_state.more t = vm_state.more s"
  by (erule for_res_frame) (rule vstore_frame)

lemma create_page_table_frame [frame_dests]: "create_page_table pd flags s = Inr t \<Longrightarrow> vm_state.more t = vm_state.more s"
  by (auto simp: create_page_table_def res_eq_Inr dest!: frame_dests)

lemma map_body_frame [frame_dests]: "map_body va pa flags s = Inr t \<Longrightarrow> vm_state.more t = vm_state.more s"
  by (auto simp: map_body_def Let_def res_eq_Inr split: if_splits dest!: frame_dests)

lemma map_page_frame [frame_dests]: "mem_map_page va pa flags s = Inr t \<Longrightarrow> vm_state.more t = vm_state.more s"
  by (auto simp: mem_map_page_def verify_interrupts_disabled_def res_eq_Inr dest!: frame_dests)

lemma release_frame [frame_dests]: "release_page_table pd s = Inr t \<Longrightarrow> vm_state.more t = vm_state.more s"
  by (auto simp: release_page_table_def res_eq_Inr split: if_splits dest!: frame_dests)

lemma unmap_body_frame [frame_dests]: "unmap_body va s = Inr (pte, t) \<Longrightarrow> vm_state.more t = vm_state.more s"
  by (auto simp: unmap_body_def Let_def res_eq_Inr split: if_splits dest!: frame_dests)

lemma unmap_page_frame [frame_dests]: "mem_unmap_page va s = Inr (pte, t) \<Longrightarrow> vm_state.more t = vm_state.more s"
  by (auto simp: mem_unmap_page_def verify_interrupts_disabled_def res_eq_Inr dest!: frame_dests)

lemma free_pde_frame [frame_dests]: "free_pde i s = Inr t \<Longrightarrow> vm_state.more t = vm_state.more s"
proof -
  have "vm_state.more u = vm_state.more s"
    if "for_res 0 1024 (\<lambda>j t. and_then (vload (elem (REC_PAGETABLE (of_nat i)) j) t) (\<lambda>pte.
         if pte AND PAGE_FLAG_OWNER \<noteq> 0 then pmm_free_pageframe (P_PHYS_ADDR pte) t else Inr t)) s = Inr u" for s u :: "'a vm_state_scheme"
    using that by (rule for_res_frame) (auto simp: res_eq_Inr split: if_splits dest!: frame_dests)
  then show "free_pde i s = Inr t \<Longrightarrow> vm_state.more t = vm_state.more s"
    by (auto simp: free_pde_def res_eq_Inr split: if_splits dest!: frame_dests)
qed

lemma free_page_dir_frame [frame_dests]: "mem_free_page_dir pd s = Inr t \<Longrightarrow> vm_state.more t = vm_state.more s"
proof -
  have "vm_state.more u = vm_state.more s" if "for_res 0 768 free_pde s = Inr u" for s u :: "'a vm_state_scheme"
    using that by (rule for_res_frame) (rule free_pde_frame)
  then show "mem_free_page_dir pd s = Inr t \<Longrightarrow> vm_state.more t = vm_state.more s"
    by (auto simp: mem_free_page_dir_def verify_interrupts_disabled_def Let_def res_eq_Inr dest!: frame_dests)
qed

section \<open>The heap\<close>

lemmas map_page_heap = map_page_frame [THEN heap_more]
lemmas unmap_page_heap = unmap_page_frame [THEN heap_more]
lemmas vstore_heap = vstore_frame [THEN heap_more]
lemmas pmm_alloc_heap = pmm_alloc_vm [THEN heap_more]

lemma set_size_heap: "set_size p n s = Inr t \<Longrightarrow> kheap_state.more t = kheap_state.more s"
  by (auto simp: set_size_def res_eq_Inr dest: vstore_heap)

lemma set_used_heap: "set_used p u s = Inr t \<Longrightarrow> kheap_state.more t = kheap_state.more s"
  by (auto simp: set_used_def res_eq_Inr dest: vstore_heap)

lemma change_heap_size_heap: "change_heap_size n s = Inr t \<Longrightarrow> kheap_state.more t = kheap_state.more s"
proof -
  have "kheap_state.more u = kheap_state.more s" if "for_res 0 k (\<lambda>i t. and_then (pmm_alloc_pageframe t) (\<lambda>(phys, t1).
        mem_map_page (heap_page p i) phys PAGE_FLAG_WRITE t1)) s = Inr u" for k p and s u :: "'a kheap_state_scheme"
    using that by (rule for_res_frame) (auto simp: res_eq_Inr dest!: map_page_heap pmm_alloc_heap)
  then show "change_heap_size n s = Inr t \<Longrightarrow> kheap_state.more t = kheap_state.more s"
    by (auto simp: change_heap_size_def Let_def res_eq_Inr split: if_splits)
qed

lemma use_chunk_heap:
  assumes "use_chunk p n s = Inr (a, t)"
  shows "kheap_state.more t = kheap_state.more s"
proof -
  obtain s1 w s4 where s1: "set_used p True s = Inr s1"
    and s4: "(if hdr_size w = 0 then
        and_then (set_size p n s1) (\<lambda>s2. and_then (set_size (p + n) 0 s2) (\<lambda>s3. set_used (p + n) False s3))
      else if 8 \<le>s hdr_size w - n then
        and_then (set_size (p + n) (hdr_size w - n) s1) (\<lambda>s2. and_then (set_used (p + n) False s2) (\<lambda>s3. set_size p n s3))
      else Inr s1) = Inr s4"
    and t: "t = (if p + HEADER > threshold s4 then s4\<lparr>threshold := p + HEADER\<rparr> else s4)"
    using assms unfolding use_chunk_def Let_def res_eq_Inr by blast
  have "kheap_state.more t = kheap_state.more s4" by (simp add: t)
  also have "\<dots> = kheap_state.more s1"
    using s4 by (auto simp: res_eq_Inr simp del: word_sle_eq split: if_splits dest!: set_size_heap set_used_heap)
  also have "\<dots> = kheap_state.more s" using s1 by (rule set_used_heap)
  finally show ?thesis .
qed

lemma kmalloc_loop_result:
  assumes "kmalloc_loop n p s = Some r"
  shows "\<forall>a t. r = Inr (a, t) \<longrightarrow> kheap_state.more t = kheap_state.more s"
  using assms
proof (induction rule: kmalloc_loop.raw_induct [rotated, consumes 1, case_names step])
  case (step loop n p s r)
  note 1 = step
  show ?case
  proof (intro allI impI)
    fix a t assume "r = Inr (a, t)"
    with 1(2) obtain s1 w where s1: "(if p + n + HEADER > heap_start s + heap_size s
            then change_heap_size (p + n + HEADER - heap_start s) s else Inr s) = Inr s1"
      and rest: "(if \<not> hdr_used w \<and> (n \<le> hdr_size w \<or> hdr_size w = 0) then Some (use_chunk p n s1)
        else loop n (p + hdr_size w) s1) = Some (Inr (a, t))"
      by (auto simp: run_then_eq_Some_Inr)
    have "kheap_state.more t = kheap_state.more s1"
      using rest 1(1) by (auto split: if_splits dest: use_chunk_heap)
    with s1 show "kheap_state.more t = kheap_state.more s" by (auto split: if_splits dest: change_heap_size_heap)
  qed
qed

lemma kmalloc_heap: "kmalloc n s = Some (Inr (a, t)) \<Longrightarrow> kheap_state.more t = kheap_state.more s"
  by (auto simp: kmalloc_def split: if_splits dest!: kmalloc_loop_result)

lemma swallow_result:
  assumes "swallow p q s = Some r"
  shows "\<forall>b t. r = Inr (b, t) \<longrightarrow> kheap_state.more t = kheap_state.more s"
  using assms
proof (induction rule: swallow.raw_induct [rotated, consumes 1, case_names step])
  case (step loop p q s r)
  then show ?case
    by (auto simp: run_then_eq_Some_Inr split: if_splits dest!: set_size_heap)
qed

lemma merge_loop_result:
  assumes "merge_loop p s = Some r"
  shows "\<forall>t. r = Inr t \<longrightarrow> kheap_state.more t = kheap_state.more s"
  using assms
proof (induction rule: merge_loop.raw_induct [rotated, consumes 1, case_names step])
  case (step loop p s r)
  note 1 = step
  show ?case
  proof (intro allI impI)
    fix t assume r: "r = Inr t"
    obtain w where w: "vload p s = Inr w" using 1(2) r by (auto simp: run_then_eq_Some_Inr)
    show "kheap_state.more t = kheap_state.more s"
    proof (cases "hdr_size w = 0")
      case True
      with 1(2) r w show ?thesis by simp
    next
      case False
      with 1(2) r w obtain q where u: "(if \<not> hdr_used w then swallow p (p + hdr_size w) s else Some (Inr (False, s))) = Some (Inr q)"
        and rest: "(if fst q then Some (Inr (snd q)) else run_then (Some (vload p (snd q))) (\<lambda>w1.
          if heap_start (snd q) + heap_size (snd q) \<le> p + hdr_size w1 then Some (Inr (snd q))
          else loop (p + hdr_size w1) (snd q))) = Some (Inr t)"
        by (simp only: run_then_eq_Some_Inr run_then_simps if_False) blast
      have "kheap_state.more (snd q) = kheap_state.more s"
        using u by (cases q) (auto split: if_splits dest!: swallow_result)
      moreover have "kheap_state.more t = kheap_state.more (snd q)"
        using rest 1(1) by (auto simp: run_then_eq_Some_Inr split: if_splits)
      ultimately show ?thesis by simp
    qed
  qed
qed

lemma kfree_heap: "kfree a s = Some (Inr t) \<Longrightarrow> kheap_state.more t = kheap_state.more s"
  by (auto simp: kfree_def Let_def merge_free_chunks_def run_then_eq_Some_Inr split: if_splits
      dest!: merge_loop_result set_used_heap)

section \<open>The kernel's tables\<close>

lemma kern_ext:
  fixes s t :: "'a kern_state_scheme"
  assumes "kheap_state.more t = kheap_state.more s"
  shows "shmem t = shmem s" "kernel_shmem_mappings t = kernel_shmem_mappings s" "tasks t = tasks s"
    "num_tasks t = num_tasks s" "current_task t = current_task s" "current_task_index t = current_task_index s"
    "event_bufs t = event_bufs s" "pit_ticks t = pit_ticks s" "kern_state.more t = kern_state.more s"
  using assms by (cases t; cases s; simp)+

lemmas kmalloc_kern = kmalloc_heap [THEN kern_ext(9)]
lemmas kfree_kern = kfree_heap [THEN kern_ext(9)]
lemmas vstore_kern = vstore_heap [THEN kern_ext(9)]
lemmas pmm_alloc_kern = pmm_alloc_heap [THEN kern_ext(9)]
lemmas pmm_free_kern = pmm_free_vm [THEN heap_more, THEN kern_ext(9)]
lemmas map_page_kern = map_page_heap [THEN kern_ext(9)]
lemmas unmap_page_kern = unmap_page_heap [THEN kern_ext(9)]
lemmas change_dir_kern = change_dir_frame [THEN heap_more, THEN kern_ext(9)]
lemmas free_page_dir_kern = free_page_dir_frame [THEN heap_more, THEN kern_ext(9)]

lemma set_pool_kern [simp]: "kern_state.more (set_pool r p s) = kern_state.more s"
  by (cases r) (simp_all add: upd_task_def)

lemma upd_task_kern [simp]: "kern_state.more (upd_task i f s) = kern_state.more s"
  by (simp add: upd_task_def)

lemma sharedmem_create_kern:
  assumes "sharedmem_create n tid s = Some (Inr (i, t))"
  shows "kern_state.more t = kern_state.more s"
proof -
  have loop: "kern_state.more v = kern_state.more u"
    if "for_res 0 k (\<lambda>i t. and_then (pmm_alloc_pageframe t) (\<lambda>(phys, t1). vstore (elem p i) phys t1)) u = Inr v" for k p u v
    using that by (rule for_res_frame) (auto simp: res_eq_Inr dest!: vstore_kern pmm_alloc_kern)
  show ?thesis using assms
    by (auto simp: sharedmem_create_def Let_def run_then_eq_Some_Inr dest!: loop kmalloc_kern)
qed

lemma in_task_dir_kern:
  assumes "in_task_dir tid body s = Inr t" and "\<And>u v. body u = Inr v \<Longrightarrow> kern_state.more v = kern_state.more u"
  shows "kern_state.more t = kern_state.more s"
  using assms(1) by (auto simp: in_task_dir_def Let_def res_eq_Inr split: if_splits dest!: assms(2) change_dir_kern)

lemma sharedmem_map_kern:
  assumes "sharedmem_map i tid s = Inr (va, t)"
  shows "kern_state.more t = kern_state.more s"
proof -
  have loop: "kern_state.more v = kern_state.more u"
    if "for_res 0 k (\<lambda>i t. and_then (vload (elem p i) t) (\<lambda>phys. mem_map_page (w + of_nat i * 0x1000) phys flags t)) u = Inr v"
    for k p w flags u v
    using that by (rule for_res_frame) (auto simp: res_eq_Inr dest!: map_page_kern)
  show ?thesis using assms unfolding sharedmem_map_def verify_interrupts_disabled_def Let_def
    by (auto simp: res_eq_Inr simp del: of_nat_mult dest!: in_task_dir_kern [OF _ loop])
qed

lemma sharedmem_unmap_kern:
  assumes "sharedmem_unmap i tid s = Inr t"
  shows "kern_state.more t = kern_state.more s"
proof -
  have loop: "kern_state.more v = kern_state.more u"
    if "for_res 0 k (\<lambda>i t. and_then (mem_unmap_page (w + 0x1000 * of_nat i) t) (\<lambda>(pte, t1). Inr t1)) u = Inr v" for k w u v
    using that by (rule for_res_frame) (auto simp: res_eq_Inr dest!: unmap_page_kern)
  from assms obtain r p s1 w k where
    "in_task_dir tid (for_res 0 k (\<lambda>i t. and_then (mem_unmap_page (w + 0x1000 * of_nat i) t) (\<lambda>(pte, t1). Inr t1))) s = Inr s1"
    and t: "t = set_pool r p s1"
    unfolding sharedmem_unmap_def verify_interrupts_disabled_def res_eq_Inr Let_def
    by (auto simp: res_eq_Inr split: option.splits)
  from in_task_dir_kern [OF this(1) loop] show ?thesis by (simp add: t)
qed

lemma unmap_pool_kern: "unmap_pool oid tid r i s = Inr t \<Longrightarrow> kern_state.more t = kern_state.more s"
proof (induction oid tid r i s rule: unmap_pool.induct)
  case (1 oid tid r i s)
  show ?case
  proof (cases "i < num (pool_at r s) \<and> i < MAX_SHARED_MEMORY_MAPPINGS")
    case True
    note i = this
    show ?thesis
    proof (cases "mapped_obj (mappings (pool_at r s) ! i) = oid")
      case True
      with 1(3) i obtain u where u: "sharedmem_unmap oid tid s = Inr u" "unmap_pool oid tid r (Suc i) u = Inr t"
        by (subst (asm) unmap_pool.simps) (auto simp: res_eq_Inr)
      show ?thesis using 1(1) [OF _ _ True u(2)] i sharedmem_unmap_kern [OF u(1)] by simp
    next
      case False
      with 1(3) i have "unmap_pool oid tid r (Suc i) s = Inr t" by (subst (asm) unmap_pool.simps) simp
      then show ?thesis using 1(2) i False by blast
    qed
  next
    case False
    with 1(3) show ?thesis by (subst (asm) unmap_pool.simps) (auto split: if_splits)
  qed
qed

lemma sharedmem_destroy_kern:
  assumes "sharedmem_destroy oid s = Some (Inr t)"
  shows "kern_state.more t = kern_state.more s"
proof -
  have pools: "kern_state.more v = kern_state.more u"
    if "for_res 0 MAX_TASKS (\<lambda>t u. if task_state (tasks u ! t) = TASK_STATE_DEAD then Inr u
          else unmap_pool oid (task_id (tasks u ! t)) (Task_Pool t) 0 u) u = Inr v" for u v :: "'a kern_state_scheme"
    using that by (rule for_res_frame) (auto split: if_splits dest: unmap_pool_kern)
  have frames: "kern_state.more v = kern_state.more u"
    if "for_res 0 k (\<lambda>i u. and_then (vload (elem p i) u) (\<lambda>phys. pmm_free_pageframe phys u)) u = Inr v"
    for k p and u v :: "'a kern_state_scheme"
    using that by (rule for_res_frame) (auto simp: res_eq_Inr dest: pmm_free_kern)
  show ?thesis using assms unfolding sharedmem_destroy_def Let_def run_then_eq_Some_Inr
    by (auto simp: verify_interrupts_disabled_def res_eq_Inr dest!: pools frames unmap_pool_kern kfree_kern)
qed

end
