(* ===== verification/Gui_State.thy ===== *)
theory Gui_State
  imports Events Console Sgfx Strings
begin

text \<open>
  The state of the desktop, on top of the kernel's tables: the windows (\<open>kernel/windows.h\<close>), the
  cursor (\<open>kernel/gui.h\<close>), the mouse, the screen and the text console. A window is named by its
  index; \<open>int32_t\<close> variables and coordinates are integers, the 16-bit fields of a window words.
\<close>

section \<open>Windows\<close>

definition MAX_WINDOWS :: nat where "MAX_WINDOWS = 64"

definition WINDOW_CONTENT_XOFFSET :: int where "WINDOW_CONTENT_XOFFSET = 1"
definition WINDOW_CONTENT_YOFFSET :: int where "WINDOW_CONTENT_YOFFSET = 20"
definition WINDOW_TITLE_BAR_HEIGHT :: int where "WINDOW_TITLE_BAR_HEIGHT = 20"
definition WINDOW_STATUS_BAR_HEIGHT :: int where "WINDOW_STATUS_BAR_HEIGHT = 20"
definition CLOSE_BUTTON_WIDTH :: int where "CLOSE_BUTTON_WIDTH = 18"
definition CLOSE_BUTTON_HEIGHT :: int where "CLOSE_BUTTON_HEIGHT = 18"
definition GRIP_SIZE :: int where "GRIP_SIZE = WINDOW_STATUS_BAR_HEIGHT"
definition WINDOW_TITLE_MAX_LENGTH :: nat where "WINDOW_TITLE_MAX_LENGTH = 64"
definition WINDOW_FLAG_DOUBLE_BUFFERED :: u32 where "WINDOW_FLAG_DOUBLE_BUFFERED = 2"
definition WINDOW_FLAG_RESIZABLE :: u32 where "WINDOW_FLAG_RESIZABLE = 4"

record window =
  win_state :: u16
  win_x :: u16
  win_y :: u16
  win_width :: u16
  win_height :: u16
  win_flags :: u32
  actual_width :: u16
  actual_height :: u16
  win_framebuffer :: u32
  framebuffer_size_bytes :: u32
  fb_shmem_id :: u16
  shown_buffer :: u8
  title :: "u8 list"
  owner_task :: u32

text \<open>A window after \<open>memset(w, 0, sizeof(Window))\<close>.\<close>

definition no_window :: window where
  "no_window = \<lparr>win_state = 0, win_x = 0, win_y = 0, win_width = 0, win_height = 0, win_flags = 0,
     actual_width = 0, actual_height = 0, win_framebuffer = 0, framebuffer_size_bytes = 0, fb_shmem_id = 0,
     shown_buffer = 0, title = replicate WINDOW_TITLE_MAX_LENGTH 0, owner_task = 0\<rparr>"

section \<open>Cursor and mouse\<close>

record gui =
  gui_width :: int
  gui_height :: int
  gui_cursor_x :: int
  gui_cursor_y :: int
  prev_cursor_x :: int
  prev_cursor_y :: int
  needs_redraw :: bool
  left_click :: bool
  right_click :: bool

record mouse =
  x_acc :: int
  y_acc :: int
  left_button :: bool
  right_button :: bool
  packet :: "u8 list"
  packet_index :: nat

section \<open>The state\<close>

record gui_state = kern_state +
  windows :: "window list"
  currently_dragging_window :: int
  focused_window :: int
  window_under_cursor :: int
  inside_content :: bool
  window_z_order :: "int list"
  z_order_length :: int
  the_gui :: gui
  the_mouse :: mouse
  prev_mouse_left :: bool
  prev_mouse_right :: bool
  testbutton_x :: int
  testbutton_y :: int
  testbutton_w :: int
  testbutton_h :: int
  redraw_indicator :: bool
  graphics :: graphics_context
  frontbuffer :: "u32 list"
  the_console :: console
  holding_shift :: bool

definition ask_redraw :: "'a gui_state_scheme \<Rightarrow> 'a gui_state_scheme" where
  "ask_redraw s = s\<lparr>the_gui := (the_gui s)\<lparr>needs_redraw := True\<rparr>\<rparr>"

definition upd_window :: "nat \<Rightarrow> (window \<Rightarrow> window) \<Rightarrow> 'a gui_state_scheme \<Rightarrow> 'a gui_state_scheme" where
  "upd_window i f s = s\<lparr>windows := (windows s)[i := f (windows s ! i)]\<rparr>"

text \<open>\<open>windows[id]\<close>, and \<open>get_window\<close> with \<open>None\<close> for \<open>NULL\<close>.\<close>

definition window_index :: "int \<Rightarrow> nat res" where
  "window_index wid = (if 0 \<le> wid \<and> wid < int MAX_WINDOWS then Inr (nat wid) else Inl Out_Of_Bounds)"

definition get_window :: "int \<Rightarrow> nat option" where
  "get_window wid = (if wid < 0 \<or> wid \<ge> int MAX_WINDOWS then None else Some (nat wid))"

text \<open>A dereferenced result of \<open>get_window\<close>.\<close>

definition the_window :: "int \<Rightarrow> nat res" where
  "the_window wid = (case get_window wid of None \<Rightarrow> Inl Page_Fault | Some i \<Rightarrow> Inr i)"

text \<open>A kernel routine entered by a system call either returns a value or gives the CPU to
  another task, whose stack pointer is the first component.\<close>

datatype 's outcome = Returned u32 's | Switched u32 's

end
