(* ===== verification/Windows.thy ===== *)
theory Windows
  imports Gui_State
begin

text \<open>
  The windows of the desktop (\<open>kernel/windows.c\<close>) and the drawing of them through the wrappers of
  \<open>kernel/graphics.c\<close>. \<open>window_z_order\<close> lists the open windows from the front to the back in its
  first \<open>z_order_length\<close> entries.
\<close>

section \<open>The screen\<close>

text \<open>The routines of \<open>graphics.c\<close> apply those of the graphics library to the global context.\<close>

definition on_graphics :: "(graphics_context \<Rightarrow> graphics_context run) \<Rightarrow> 'a gui_state_scheme \<Rightarrow> 'a gui_state_scheme run" where
  "on_graphics f s = run_then (f (graphics s)) (\<lambda>c. Some (Inr (s\<lparr>graphics := c\<rparr>)))"

definition graphics_fill :: "u32 \<Rightarrow> 'a gui_state_scheme \<Rightarrow> 'a gui_state_scheme run" where
  "graphics_fill color = on_graphics (\<lambda>c. Some (sgfx_fill color c))"

definition graphics_fill_rect :: "int \<Rightarrow> int \<Rightarrow> int \<Rightarrow> int \<Rightarrow> u32 \<Rightarrow> 'a gui_state_scheme \<Rightarrow> 'a gui_state_scheme run" where
  "graphics_fill_rect x y width height color = on_graphics (\<lambda>c. Some (sgfx_fill_rect x y width height color c))"

definition graphics_copy_rect :: "int \<Rightarrow> int \<Rightarrow> int \<Rightarrow> int \<Rightarrow> int \<Rightarrow> int \<Rightarrow> (int \<Rightarrow> u32 res) \<Rightarrow> 'a gui_state_scheme \<Rightarrow>
    'a gui_state_scheme run" where
  "graphics_copy_rect xdest ydest width height xsrc ysrc source =
     on_graphics (\<lambda>c. Some (sgfx_copy_rect xdest ydest width height xsrc ysrc source c))"

definition graphics_copy_backbuffer :: "'a gui_state_scheme \<Rightarrow> 'a gui_state_scheme run" where
  "graphics_copy_backbuffer s =
     (let total = unat (ctx_width (graphics s) * ctx_height (graphics s)) in
      Some (if total \<le> length (framebuffer (graphics s)) \<and> total \<le> length (frontbuffer s)
        then Inr (s\<lparr>frontbuffer := take total (framebuffer (graphics s)) @ drop total (frontbuffer s)\<rparr>)
        else Inl Out_Of_Bounds))"

definition graphics_draw_char :: "u8 list \<Rightarrow> u8 \<Rightarrow> int \<Rightarrow> int \<Rightarrow> u32 \<Rightarrow> 'a gui_state_scheme \<Rightarrow> 'a gui_state_scheme run" where
  "graphics_draw_char font ch x0 y0 color = on_graphics (\<lambda>c. Some (sgfx_draw_char font ch x0 y0 color c))"

definition graphics_draw_string :: "u8 list \<Rightarrow> u8 list \<Rightarrow> int \<Rightarrow> int \<Rightarrow> u32 \<Rightarrow> 'a gui_state_scheme \<Rightarrow> 'a gui_state_scheme run" where
  "graphics_draw_string font str x0 y0 color =
     on_graphics (\<lambda>c. Some (and_then (c_string str) (\<lambda>cs. sgfx_draw_string font cs x0 y0 color c)))"

definition graphics_draw_hline :: "int \<Rightarrow> int \<Rightarrow> int \<Rightarrow> u32 \<Rightarrow> 'a gui_state_scheme \<Rightarrow> 'a gui_state_scheme run" where
  "graphics_draw_hline x y w color = on_graphics (sgfx_draw_hline x y w color)"

definition graphics_draw_vline :: "int \<Rightarrow> int \<Rightarrow> int \<Rightarrow> u32 \<Rightarrow> 'a gui_state_scheme \<Rightarrow> 'a gui_state_scheme run" where
  "graphics_draw_vline x y h color = on_graphics (sgfx_draw_vline x y h color)"

text \<open>\<open>init_graphics\<close>; \<open>pixels\<close> is what the new back buffer contains.\<close>

definition KERNEL_GFX :: u32 where "KERNEL_GFX = 0xC8000000"

definition init_graphics :: "u32 list \<Rightarrow> u32 \<Rightarrow> u32 \<Rightarrow> u32 \<Rightarrow> u32 \<Rightarrow> 'a gui_state_scheme \<Rightarrow> 'a gui_state_scheme run" where
  "init_graphics pixels framebuffer_paddr width height bpp s =
     run_then (kmalloc (width * height * bpp) s) (\<lambda>(backbuffer, s1).
     let s2 = s1\<lparr>graphics := sgfx_init pixels width height\<rparr>;
         needed_page_count = width * height * bpp div 0x1000 + 1 in
     Some (for_res 0 (unat needed_page_count) (\<lambda>i.
       mem_map_page (KERNEL_GFX + of_nat i * 0x1000) (framebuffer_paddr + of_nat i * 0x1000) 0) s2))"

section \<open>The z-order\<close>

definition z_order_find_index :: "int \<Rightarrow> 'a gui_state_scheme \<Rightarrow> nat option" where
  "z_order_find_index window s = first_index (\<lambda>i. window_z_order s ! i = window) MAX_WINDOWS"

definition z_order_remove_at :: "nat \<Rightarrow> 'a gui_state_scheme \<Rightarrow> 'a gui_state_scheme res" where
  "z_order_remove_at z_index s =
     and_then
       (for_res z_index (nat (z_order_length s)) (\<lambda>i zs.
          in_bounds (i + 1) MAX_WINDOWS (Inr (zs[i := zs ! (i + 1)]))) (window_z_order s)) (\<lambda>zs.
     Inr (s\<lparr>window_z_order := zs, z_order_length := z_order_length s - 1\<rparr>))"

text \<open>\<open>for (i = index - 1; i >= 0; i--) xs[i + 1] = xs[i];\<close>\<close>

definition shift_right :: "nat \<Rightarrow> 'b list \<Rightarrow> 'b list" where
  "shift_right index xs = fold (\<lambda>i ys. ys[i + 1 := ys ! i]) (rev [0..<index]) xs"

definition move_window_to_front :: "int \<Rightarrow> 'a gui_state_scheme \<Rightarrow> 'a gui_state_scheme res" where
  "move_window_to_front window s =
     (if window_z_order s ! 0 = window then Inr s
      else
        kassert (window \<ge> 0 \<and> window < int MAX_WINDOWS)
          (case z_order_find_index window s of
             None \<Rightarrow> Inl Assert_Failed
           | Some index \<Rightarrow> Inr (s\<lparr>window_z_order := (shift_right index (window_z_order s))[0 := window]\<rparr>)))"

section \<open>Opening, resizing and closing\<close>

definition find_window_slot :: "window list \<Rightarrow> nat res" where
  "find_window_slot ws =
     (case first_index (\<lambda>i. win_state (ws ! i) = 0) MAX_WINDOWS of Some i \<Rightarrow> Inr i | None \<Rightarrow> Inl Assert_Failed)"

interpretation window_slots: slot_search "\<lambda>ws i. win_state (ws ! i) = 0" MAX_WINDOWS find_window_slot
  by unfold_locales (simp add: find_window_slot_def)

definition buffer_count :: "u32 \<Rightarrow> u32" where
  "buffer_count flags = (if flags AND WINDOW_FLAG_DOUBLE_BUFFERED \<noteq> 0 then 2 else 1)"

definition new_window :: "nat \<Rightarrow> int \<Rightarrow> int \<Rightarrow> u32 \<Rightarrow> window" where
  "new_window index width height flags =
     no_window\<lparr>win_state := 1, win_x := of_int (30 + int index * 40), win_y := of_int (50 + int index * 35),
       win_width := of_int width, win_height := of_int height, win_flags := flags,
       actual_width := of_int (width + 2), actual_height := of_int (height + WINDOW_TITLE_BAR_HEIGHT + 1),
       framebuffer_size_bytes := of_int (width * height * 4)\<rparr>"

text \<open>The shared memory of a window's frame buffer, mapped into the kernel.\<close>

definition window_buffer :: "nat \<Rightarrow> u32 \<Rightarrow> 'a gui_state_scheme \<Rightarrow> 'a gui_state_scheme run" where
  "window_buffer i bytes s =
     run_then (sharedmem_create bytes 0 s) (\<lambda>(oid, s1).
     let s2 = upd_window i (\<lambda>w. w\<lparr>fb_shmem_id := of_nat oid\<rparr>) s1 in
     run_then (Some (sharedmem_map (scast (fb_shmem_id (windows s2 ! i))) 0 s2)) (\<lambda>(fb, s3).
     Some (Inr (upd_window i (\<lambda>w. w\<lparr>win_framebuffer := fb\<rparr>) s3))))"

definition create_window :: "int \<Rightarrow> int \<Rightarrow> u32 \<Rightarrow> 'a gui_state_scheme \<Rightarrow> (nat \<times> 'a gui_state_scheme) run" where
  "create_window width height flags s =
     run_then (Some (find_window_slot (windows s))) (\<lambda>index.
     let s1 = upd_window index (\<lambda>_. new_window index width height flags) s in
     run_then (window_buffer index (of_int (width * height * 4) * buffer_count flags) s1) (\<lambda>s2.
     run_then (Some (kernel_strncpy (title (windows s2 ! index)) (cstr ''Cool Titles!'') WINDOW_TITLE_MAX_LENGTH)) (\<lambda>t.
     let s3 = upd_window index (\<lambda>w. w\<lparr>shown_buffer := 0, owner_task := task_id (cur s2), title := t\<rparr>) s2 in
     run_then (Some (if 0 \<le> z_order_length s3 \<and> z_order_length s3 < int MAX_WINDOWS
       then Inr (s3\<lparr>window_z_order := (window_z_order s3)[nat (z_order_length s3) := int index],
                    z_order_length := z_order_length s3 + 1\<rparr>)
       else Inl Out_Of_Bounds)) (\<lambda>s4.
     run_then (Some (move_window_to_front (int index) s4)) (\<lambda>s5.
     Some (Inr (index, ask_redraw (s5\<lparr>focused_window := int index\<rparr>))))))))"

definition resize_window :: "int \<Rightarrow> int \<Rightarrow> int \<Rightarrow> 'a gui_state_scheme \<Rightarrow> 'a gui_state_scheme run" where
  "resize_window wid width height s =
     run_then (Some (window_index wid)) (\<lambda>i.
     let s1 = upd_window i (\<lambda>w. w\<lparr>win_width := of_int width, win_height := of_int height,
           actual_width := of_int (width + 2), actual_height := of_int (height + WINDOW_TITLE_BAR_HEIGHT + 1)\<rparr>) s in
     run_then (sharedmem_destroy (scast (fb_shmem_id (windows s1 ! i))) s1) (\<lambda>s2.
     run_then (window_buffer i (of_int (width * height * 4) * buffer_count (win_flags (windows s2 ! i))) s2) (\<lambda>s3.
     run_then (Some (sharedmem_map (scast (fb_shmem_id (windows s3 ! i))) (task_id (cur s3)) s3)) (\<lambda>(va, s4).
     Some (Inr (ask_redraw s4))))))"

definition destroy_window :: "int \<Rightarrow> 'a gui_state_scheme \<Rightarrow> 'a gui_state_scheme run" where
  "destroy_window window_id s =
     run_then (Some (window_index window_id)) (\<lambda>i.
     run_then (sharedmem_destroy (scast (fb_shmem_id (windows s ! i))) s) (\<lambda>s1.
     let s2 = upd_window i (\<lambda>_. no_window) s1 in
     run_then (Some (case z_order_find_index window_id s2 of None \<Rightarrow> Inr s2 | Some index \<Rightarrow> z_order_remove_at index s2)) (\<lambda>s3.
     Some (Inr (ask_redraw s3)))))"

definition init_windows :: "'a gui_state_scheme \<Rightarrow> 'a gui_state_scheme" where
  "init_windows s = s\<lparr>windows := replicate MAX_WINDOWS no_window, window_z_order := replicate MAX_WINDOWS (- 1)\<rparr>"

definition get_framebuffer_shmem_id :: "int \<Rightarrow> 'a gui_state_scheme \<Rightarrow> u32 res" where
  "get_framebuffer_shmem_id window_id s =
     and_then (window_index window_id) (\<lambda>i. Inr (scast (fb_shmem_id (windows s ! i))))"

text \<open>\<open>swap_buffers\<close> up to the switch to another task; a task that is resumed returns
  \<open>after_swap_buffers\<close>.\<close>

definition swap_buffers :: "int \<Rightarrow> u32 \<Rightarrow> 'a gui_state_scheme \<Rightarrow> 'a gui_state_scheme outcome run" where
  "swap_buffers window_id esp s =
     (let s1 = ask_redraw s in
      run_then (Some (window_index window_id)) (\<lambda>i.
      if win_flags (windows s1 ! i) AND WINDOW_FLAG_DOUBLE_BUFFERED \<noteq> 0 then
        (let s2 = upd_window i (\<lambda>w. w\<lparr>shown_buffer := shown_buffer w XOR 1\<rparr>) s1 in
         run_then (Some (kassert (task_state (cur s2) = TASK_STATE_READY) (Inr ()))) (\<lambda>_.
         map_option (\<lambda>(esp', t). Inr (Switched esp' t))
           (task_schedule esp (upd_task (current_task s2) (\<lambda>t. t\<lparr>task_state := TASK_STATE_WAIT_FOR_REDRAW\<rparr>) s2))))
      else Some (Inr (Returned (ucast (shown_buffer (windows s1 ! i))) s1))))"

definition after_swap_buffers :: "int \<Rightarrow> 'a gui_state_scheme \<Rightarrow> u32 res" where
  "after_swap_buffers window_id s =
     kassert (task_state (cur s) \<noteq> TASK_STATE_WAIT_FOR_REDRAW)
       (and_then (window_index window_id) (\<lambda>i. Inr (ucast (shown_buffer (windows s ! i)))))"

definition set_title :: "int \<Rightarrow> u8 list \<Rightarrow> 'a gui_state_scheme \<Rightarrow> 'a gui_state_scheme res" where
  "set_title window_id text s =
     (case get_window window_id of
        None \<Rightarrow> Inl Assert_Failed
      | Some i \<Rightarrow>
          and_then (memset (title (windows s ! i)) 0 WINDOW_TITLE_MAX_LENGTH) (\<lambda>t.
          and_then (kernel_strncpy t text (WINDOW_TITLE_MAX_LENGTH - 1)) (\<lambda>t'.
          Inr (upd_window i (\<lambda>w. w\<lparr>title := t'\<rparr>) s))))"

section \<open>Hit tests\<close>

definition in_square :: "int \<Rightarrow> int \<Rightarrow> int \<Rightarrow> int \<Rightarrow> int \<Rightarrow> int \<Rightarrow> bool" where
  "in_square x0 y0 w h x y \<longleftrightarrow> \<not> x < x0 \<and> \<not> y < y0 \<and> \<not> x \<ge> x0 + w \<and> \<not> y \<ge> y0 + h"

definition close_button_x :: "window \<Rightarrow> int" where
  "close_button_x w = sint (win_x w) + sint (win_width w) + 2 - CLOSE_BUTTON_WIDTH - 1"

definition close_button_y :: "window \<Rightarrow> int" where
  "close_button_y w = sint (win_y w) + 1"

definition check_window_close :: "int \<Rightarrow> int \<Rightarrow> int \<Rightarrow> 'a gui_state_scheme \<Rightarrow> bool res" where
  "check_window_close window x y s =
     and_then (the_window window) (\<lambda>i. let w = windows s ! i in
     Inr (in_square (close_button_x w) (close_button_y w) CLOSE_BUTTON_WIDTH CLOSE_BUTTON_HEIGHT x y))"

definition check_window_resize :: "int \<Rightarrow> int \<Rightarrow> int \<Rightarrow> 'a gui_state_scheme \<Rightarrow> bool res" where
  "check_window_resize window x y s =
     and_then (the_window window) (\<lambda>i. let w = windows s ! i in
     Inr (in_square (sint (win_x w) + sint (win_width w) - GRIP_SIZE)
       (sint (win_y w) + sint (win_height w) + WINDOW_TITLE_BAR_HEIGHT - GRIP_SIZE) GRIP_SIZE GRIP_SIZE x y))"

text \<open>The test of one window in \<open>find_window_from_pos\<close>.\<close>

definition window_hit :: "int \<Rightarrow> int \<Rightarrow> window \<Rightarrow> bool" where
  "window_hit x y w \<longleftrightarrow> win_state w \<noteq> 0 \<and> \<not> sint (win_x w) > x \<and> \<not> sint (win_y w) > y \<and>
     \<not> sint (win_x w) + sint (actual_width w) < x \<and> \<not> sint (win_y w) + sint (actual_height w) < y"

fun find_hit :: "int \<Rightarrow> int \<Rightarrow> window list \<Rightarrow> int list \<Rightarrow> (int \<times> bool) option res" where
  "find_hit x y ws [] = Inr None"
| "find_hit x y ws (wid # zs) =
     and_then (the_window wid) (\<lambda>i.
     if window_hit x y (ws ! i) then Inr (Some (wid, y - sint (win_y (ws ! i)) > WINDOW_CONTENT_YOFFSET))
     else find_hit x y ws zs)"

definition find_window_from_pos :: "int \<Rightarrow> int \<Rightarrow> 'a gui_state_scheme \<Rightarrow> (int \<times> bool) res" where
  "find_window_from_pos x y s =
     and_then (find_hit x y (windows s) (take (nat (z_order_length s)) (window_z_order s))) (\<lambda>r.
     case r of
       Some hit \<Rightarrow> Inr hit
     | None \<Rightarrow> if nat (z_order_length s) \<le> MAX_WINDOWS then Inr (- 1, False) else Inl Out_Of_Bounds)"

definition get_focused_window :: "'a gui_state_scheme \<Rightarrow> nat option res" where
  "get_focused_window s =
     (if focused_window s = - 1 then Inr None else and_then (window_index (focused_window s)) (\<lambda>i. Inr (Some i)))"

section \<open>Drawing\<close>

definition COLOR_WINDOW :: u32 where "COLOR_WINDOW = 0xFF404040"
definition COLOR_ACTIVE_WINDOW :: u32 where "COLOR_ACTIVE_WINDOW = 0xFFC0C0C0"
definition COLOR_FRAME_BACKGROUND :: u32 where "COLOR_FRAME_BACKGROUND = 0xFFC0C0C0"
definition COLOR_TITLE_BAR_ACTIVE :: u32 where "COLOR_TITLE_BAR_ACTIVE = 0xFF0000C0"
definition COLOR_TITLE_BAR_INACTIVE :: u32 where "COLOR_TITLE_BAR_INACTIVE = 0xFF000040"
definition COLOR_STATUS_BAR_ACTIVE :: u32 where "COLOR_STATUS_BAR_ACTIVE = 0xFF00C000"
definition COLOR_STATUS_BAR_INACTIVE :: u32 where "COLOR_STATUS_BAR_INACTIVE = 0xFF004000"

definition draw_window_bars :: "nat \<Rightarrow> 'a gui_state_scheme \<Rightarrow> 'a gui_state_scheme run" where
  "draw_window_bars i s =
     (let w = windows s ! i; x = sint (win_x w); y = sint (win_y w);
          tb_color = (if focused_window s = int i then COLOR_TITLE_BAR_ACTIVE else COLOR_TITLE_BAR_INACTIVE);
          sb_color = (if focused_window s = int i then COLOR_STATUS_BAR_ACTIVE else COLOR_STATUS_BAR_INACTIVE) in
      run_then (graphics_fill_rect (x + 1) (y + 1) (sint (win_width w)) (WINDOW_TITLE_BAR_HEIGHT - 1) tb_color s)
        (graphics_fill_rect (x + 1) (y + sint (win_height w)) (sint (win_width w)) WINDOW_STATUS_BAR_HEIGHT sb_color))"

definition draw_window_buttons :: "u8 list \<Rightarrow> nat \<Rightarrow> 'a gui_state_scheme \<Rightarrow> 'a gui_state_scheme run" where
  "draw_window_buttons font i s =
     (let w = windows s ! i in
      run_then (graphics_fill_rect (close_button_x w) (close_button_y w) CLOSE_BUTTON_WIDTH CLOSE_BUTTON_HEIGHT 0xFFFFFF s)
        (graphics_draw_string font (cstr ''x'') (close_button_x w + 5) (close_button_y w + 3) 0))"

text \<open>The outline of a window, and its grip.\<close>

definition draw_outline :: "window \<Rightarrow> u32 \<Rightarrow> 'a gui_state_scheme \<Rightarrow> 'a gui_state_scheme run" where
  "draw_outline w color s =
     (let x = sint (win_x w); y = sint (win_y w); width = sint (win_width w); height = sint (win_height w) in
      run_then (graphics_draw_hline x y (width + WINDOW_CONTENT_XOFFSET * 2) color s) (\<lambda>s1.
      run_then (graphics_draw_hline x (y + WINDOW_TITLE_BAR_HEIGHT + height) (width + WINDOW_CONTENT_XOFFSET * 2) color s1) (\<lambda>s2.
      run_then (graphics_draw_vline x y (height + WINDOW_TITLE_BAR_HEIGHT) color s2)
        (graphics_draw_vline (x + width + 1) y (height + WINDOW_TITLE_BAR_HEIGHT) color))))"

definition draw_grip :: "window \<Rightarrow> 'a gui_state_scheme \<Rightarrow> 'a gui_state_scheme run" where
  "draw_grip w s =
     (let grip_x = sint (win_x w) + sint (win_width w) - GRIP_SIZE;
          grip_y = sint (win_y w) + sint (win_height w) + WINDOW_TITLE_BAR_HEIGHT - GRIP_SIZE in
      run_then (graphics_draw_vline grip_x grip_y GRIP_SIZE 0xFFFFFF s)
        (graphics_draw_hline grip_x grip_y (GRIP_SIZE + WINDOW_CONTENT_XOFFSET) 0xFFFFFF))"

text \<open>A task that waits for its window to be drawn becomes ready.\<close>

definition signal_redraw :: "u32 \<Rightarrow> 'a gui_state_scheme \<Rightarrow> 'a gui_state_scheme res" where
  "signal_redraw tid s =
     (let s1 = push_cli s in
      and_then (get_task tid s1) (\<lambda>i.
      pop_cli (if task_state (tasks s1 ! i) = TASK_STATE_WAIT_FOR_REDRAW
               then upd_task i (\<lambda>t. t\<lparr>task_state := TASK_STATE_READY\<rparr>) s1 else s1)))"

definition draw_window :: "u8 list \<Rightarrow> nat \<Rightarrow> 'a gui_state_scheme \<Rightarrow> 'a gui_state_scheme run" where
  "draw_window font i s =
     (let w = windows s ! i;
          border_color = (if focused_window s = int i then COLOR_ACTIVE_WINDOW else COLOR_WINDOW);
          source = win_framebuffer w + (if shown_buffer w = 0 then 0 else framebuffer_size_bytes w) in
      run_then (graphics_copy_rect (sint (win_x w) + WINDOW_CONTENT_XOFFSET) (sint (win_y w) + WINDOW_TITLE_BAR_HEIGHT)
        (sint (win_width w)) (sint (win_height w)) 0 0 (\<lambda>k. vload (source + 4 * of_int k) s) s) (\<lambda>s1.
      run_then (draw_window_bars i s1) (\<lambda>s2.
      run_then (draw_outline w border_color s2) (\<lambda>s3.
      run_then (graphics_draw_string font (title w) (sint (win_x w) + 5) (sint (win_y w) + 5) 0xFFFFFF s3) (\<lambda>s4.
      run_then (draw_window_buttons font i s4) (\<lambda>s5.
      run_then (if win_flags w AND WINDOW_FLAG_RESIZABLE \<noteq> 0 then draw_grip w s5 else Some (Inr s5)) (\<lambda>s6.
      Some (signal_redraw (owner_task w) s6))))))))"

text \<open>\<open>draw_windows\<close> draws from the back to the front.\<close>

fun draw_all :: "u8 list \<Rightarrow> int list \<Rightarrow> 'a gui_state_scheme \<Rightarrow> 'a gui_state_scheme run" where
  "draw_all font [] s = Some (Inr s)"
| "draw_all font (wid # zs) s =
     run_then (Some (window_index wid)) (\<lambda>i.
     run_then (if win_state (windows s ! i) = 0 then Some (Inr s) else draw_window font i s) (draw_all font zs))"

definition draw_windows :: "u8 list \<Rightarrow> 'a gui_state_scheme \<Rightarrow> 'a gui_state_scheme run" where
  "draw_windows font s =
     (if nat (z_order_length s) \<le> MAX_WINDOWS
      then draw_all font (rev (take (nat (z_order_length s)) (window_z_order s))) s
      else Some (Inl Out_Of_Bounds))"

end
