(* ===== verification/Windows_Props.thy ===== *)
theory Windows_Props
  imports Windows Frames Sharedmem_Props Sgfx_Props
begin

text \<open>
  Properties of the window list: the z-order is a list without repetitions of exactly the open
  windows, and opening, raising and closing are the list operations one expects; the window
  found under the cursor is the last one, in the order of drawing, whose frame (with a margin of one pixel to the
  right and below, where nothing is drawn) contains the point.
\<close>

section \<open>The invariant\<close>

definition z_list :: "'a gui_state_scheme \<Rightarrow> int list" where
  "z_list s = take (nat (z_order_length s)) (window_z_order s)"

definition open_windows :: "'a gui_state_scheme \<Rightarrow> int set" where
  "open_windows s = int ` {i. i < MAX_WINDOWS \<and> win_state (windows s ! i) \<noteq> 0}"

definition z_ok :: "'a gui_state_scheme \<Rightarrow> bool" where
  "z_ok s \<longleftrightarrow> length (windows s) = MAX_WINDOWS \<and> length (window_z_order s) = MAX_WINDOWS \<and>
     0 \<le> z_order_length s \<and> z_order_length s \<le> int MAX_WINDOWS \<and>
     distinct (z_list s) \<and> set (z_list s) = open_windows s \<and>
     (\<forall>k<MAX_WINDOWS. z_order_length s \<le> int k \<longrightarrow> window_z_order s ! k = - 1)"

lemma gui_more:
  fixes s t :: "'a gui_state_scheme"
  assumes "kern_state.more t = kern_state.more s"
  shows "windows t = windows s" "window_z_order t = window_z_order s" "z_order_length t = z_order_length s"
    "focused_window t = focused_window s" "currently_dragging_window t = currently_dragging_window s"
    "window_under_cursor t = window_under_cursor s" "inside_content t = inside_content s" "the_gui t = the_gui s"
    "graphics t = graphics s" "the_console t = the_console s" "the_mouse t = the_mouse s"
  using assms by (cases t; cases s; simp)+

lemma z_ok_bound: "z_ok s \<Longrightarrow> nat (z_order_length s) \<le> MAX_WINDOWS \<and> length (window_z_order s) = MAX_WINDOWS"
  by (simp add: z_ok_def nat_le_iff)

lemma z_ok_length: "z_ok s \<Longrightarrow> length (z_list s) = nat (z_order_length s)"
  using z_ok_bound [of s] by (simp add: z_list_def)

lemma z_list_nth: "k < nat (z_order_length s) \<Longrightarrow> z_list s ! k = window_z_order s ! k"
  by (simp add: z_list_def)

lemma open_window: "w \<in> open_windows s \<Longrightarrow> 0 \<le> w \<and> w < int MAX_WINDOWS"
  by (auto simp: open_windows_def)

text \<open>A search finds the place of an open window in the list.\<close>

lemma find_index_open:
  assumes "z_ok s" and "w \<in> open_windows s"
  shows "\<exists>k. z_order_find_index w s = Some k \<and> k < nat (z_order_length s) \<and> z_list s ! k = w"
proof -
  obtain k where k: "k < length (z_list s)" "z_list s ! k = w"
    using assms by (metis in_set_conv_nth z_ok_def)
  have len: "nat (z_order_length s) \<le> MAX_WINDOWS" using z_ok_bound [OF assms(1)] by simp
  have kl: "k < nat (z_order_length s)" using k(1) z_ok_length [OF assms(1)] by simp
  have "window_z_order s ! j \<noteq> w" if "j < k" for j
  proof -
    have "j < length (z_list s)" "j \<noteq> k" using that k(1) by simp_all
    then have "z_list s ! j \<noteq> w" using k assms(1) by (metis nth_eq_iff_index_eq z_ok_def)
    then show ?thesis using that kl by (simp add: z_list_nth)
  qed
  then have "z_order_find_index w s = Some k" unfolding z_order_find_index_def first_index_Some
    using k(2) kl len by (simp add: z_list_nth)
  then show ?thesis using k kl by blast
qed

section \<open>Raising\<close>

lemma length_shift_right [simp]: "length (shift_right k xs) = length xs"
  unfolding shift_right_def by (induction k arbitrary: xs) simp_all

lemma nth_shift_right:
  "k < length xs \<Longrightarrow> j < length xs \<Longrightarrow>
   shift_right k xs ! j = (if 0 < j \<and> j \<le> k then xs ! (j - 1) else xs ! j)"
proof (induction k arbitrary: xs)
  case (Suc k)
  have "shift_right (Suc k) xs = shift_right k (xs[k + 1 := xs ! k])" by (simp add: shift_right_def)
  then show ?case using Suc.IH [of "xs[k + 1 := xs ! k]"] Suc.prems by (cases "j = Suc k") (auto simp: nth_list_update)
qed (simp add: shift_right_def)

lemma remove1_nth: "distinct xs \<Longrightarrow> k < length xs \<Longrightarrow> remove1 (xs ! k) xs = take k xs @ drop (Suc k) xs"
proof (induction xs arbitrary: k)
  case (Cons x xs)
  then show ?case by (cases k) auto
qed simp

text \<open>Moving entry \<open>k\<close> to the front.\<close>

lemma to_front:
  assumes "k < n" and "n \<le> length xs"
  shows "take n ((shift_right k xs)[0 := w]) = w # take k (take n xs) @ drop (Suc k) (take n xs)"
proof (rule nth_equalityI)
  fix j assume "j < length (take n ((shift_right k xs)[0 := w]))"
  then have j: "j < n" by simp
  show "take n ((shift_right k xs)[0 := w]) ! j = (w # take k (take n xs) @ drop (Suc k) (take n xs)) ! j"
  proof (cases j)
    case 0
    have "0 < length xs" using assms by linarith
    then show ?thesis using 0 assms by (simp add: nth_list_update)
  next
    case (Suc i)
    then show ?thesis using assms j by (auto simp: nth_shift_right nth_append min_def)
  qed
qed (use assms in simp)

lemma move_to_front:
  assumes ok: "z_ok s" and w: "w \<in> open_windows s"
  shows "\<exists>zs. move_window_to_front w s = Inr (s\<lparr>window_z_order := zs\<rparr>) \<and> z_ok (s\<lparr>window_z_order := zs\<rparr>) \<and>
    z_list (s\<lparr>window_z_order := zs\<rparr>) = w # remove1 w (z_list s)"
proof -
  let ?zs = "window_z_order s" and ?n = "nat (z_order_length s)"
  obtain k where k: "z_order_find_index w s = Some k" "k < ?n" "z_list s ! k = w"
    using find_index_open [OF ok w] by blast
  have n: "?n \<le> length ?zs" using z_ok_bound [OF ok] by simp
  have dist: "distinct (z_list s)" using ok by (simp add: z_ok_def)
  show ?thesis
  proof (cases "?zs ! 0 = w")
    case True
    have 0: "z_list s ! 0 = w" "0 < length (z_list s)" using True k(2) by (simp_all add: z_list_nth z_ok_length [OF ok])
    then have "z_list s = w # tl (z_list s)" by (cases "z_list s") simp_all
    then have "z_list s = w # remove1 w (z_list s)" by (metis remove1.simps(2))
    then show ?thesis using True ok by (intro exI [of _ ?zs]) (simp add: move_window_to_front_def)
  next
    case False
    let ?t = "s\<lparr>window_z_order := (shift_right k ?zs)[0 := w]\<rparr>"
    have "move_window_to_front w s = Inr ?t"
      using False k(1) open_window [OF w] by (simp add: move_window_to_front_def)
    moreover have zl: "z_list ?t = w # remove1 w (z_list s)"
      using to_front [OF k(2) n, of w] remove1_nth [OF dist, of k] k
      unfolding z_ok_length [OF ok] k(3) by (simp add: z_list_def)
    moreover have "z_ok ?t"
    proof -
      have "((shift_right k ?zs)[0 := w]) ! j = ?zs ! j" if "j < MAX_WINDOWS" "z_order_length s \<le> int j" for j
      proof -
        have "nat (z_order_length s) \<le> j" using that(2) by (simp add: nat_le_iff)
        then show ?thesis using that(1) k(2) n z_ok_bound [OF ok] by (simp add: nth_shift_right)
      qed
      moreover have "set (z_list ?t) = open_windows ?t" "distinct (z_list ?t)"
        unfolding zl using ok w dist by (auto simp: z_ok_def open_windows_def)
      ultimately show ?thesis using ok unfolding z_ok_def by simp
    qed
    ultimately show ?thesis by blast
  qed
qed


section \<open>Closing\<close>

text \<open>The loop of \<open>z_order_remove_at\<close> shifts to the left, as long as the array has an entry behind
  the last window.\<close>

lemma remove_loop:
  "n < MAX_WINDOWS \<Longrightarrow> for_res k n (\<lambda>i zs. in_bounds (i + 1) MAX_WINDOWS (Inr (zs[i := zs ! (i + 1)]))) zs = Inr (shift_left k n zs)"
proof (induction "n - k" arbitrary: k zs)
  case (Suc m)
  then have "k < n" by simp
  then show ?case using Suc.hyps(1) [of "Suc k" "zs[k := zs ! (k + 1)]"] Suc.hyps(2) Suc.prems
    by (simp add: for_res_step shift_left_def upt_rec [of k n])
qed (simp add: shift_left_def)

lemma remove_loop_full:
  "k < MAX_WINDOWS \<Longrightarrow> for_res k MAX_WINDOWS (\<lambda>i zs. in_bounds (i + 1) MAX_WINDOWS (Inr (zs[i := zs ! (i + 1)]))) zs = Inl Out_Of_Bounds"
proof (induction "MAX_WINDOWS - k" arbitrary: k zs)
  case (Suc m)
  show ?case
  proof (cases "k + 1 < MAX_WINDOWS")
    case True
    then show ?thesis using Suc.hyps(1) [of "Suc k" "zs[k := zs ! (k + 1)]"] Suc.hyps(2) by (simp add: for_res_step)
  next
    case False
    then show ?thesis using Suc.prems by (simp add: for_res_step)
  qed
qed simp

lemma remove_open:
  assumes ok: "z_ok s" and w: "w \<in> open_windows s" and room: "z_order_length s < int MAX_WINDOWS"
    and ws: "ws = (windows s)[nat w := no_window]"
  shows "\<exists>k zs. z_order_find_index w s = Some k \<and> z_order_remove_at k s = Inr (s\<lparr>window_z_order := zs, z_order_length := z_order_length s - 1\<rparr>) \<and>
    z_ok (s\<lparr>windows := ws, window_z_order := zs, z_order_length := z_order_length s - 1\<rparr>) \<and>
    z_list (s\<lparr>windows := ws, window_z_order := zs, z_order_length := z_order_length s - 1\<rparr>) = remove1 w (z_list s)"
proof -
  let ?zs = "window_z_order s" and ?n = "nat (z_order_length s)"
  obtain k where k: "z_order_find_index w s = Some k" "k < ?n" "z_list s ! k = w"
    using find_index_open [OF ok w] by blast
  have n: "?n < MAX_WINDOWS" "length ?zs = MAX_WINDOWS" using room ok by (simp_all add: z_ok_def nat_less_iff)
  have len: "0 < z_order_length s" using k(2) by simp
  have dist: "distinct (z_list s)" using ok by (simp add: z_ok_def)
  let ?zs' = "shift_left k ?n ?zs" and ?t = "s\<lparr>windows := ws, window_z_order := shift_left k ?n ?zs, z_order_length := z_order_length s - 1\<rparr>"
  have n1: "nat (z_order_length s - 1) = ?n - 1" by simp
  have zl: "z_list ?t = remove1 w (z_list s)"
  proof -
    have "take (?n - 1) ?zs' = take k (z_list s) @ drop (Suc k) (z_list s)"
      using k(2) n by (intro nth_equalityI) (auto simp: nth_shift_left nth_append z_list_def)
    then show ?thesis using remove1_nth [OF dist, of k] k z_ok_length [OF ok] by (simp add: z_list_def n1)
  qed
  have "set (z_list ?t) = open_windows ?t"
  proof -
    have "set (z_list ?t) = open_windows s - {w}" unfolding zl using dist ok by (simp add: z_ok_def)
    also have "\<dots> = open_windows ?t"
      using open_window [OF w] ok by (auto simp: open_windows_def ws nth_list_update no_window_def z_ok_def split: if_splits)
    finally show ?thesis .
  qed
  moreover have "?zs' ! j = - 1" if "j < MAX_WINDOWS" "z_order_length s - 1 \<le> int j" for j
  proof -
    have j: "?n - 1 \<le> j" using that(2) by (simp add: nat_le_iff)
    have neg: "?zs ! i = - 1" if "i < MAX_WINDOWS" "?n \<le> i" for i using ok that by (simp add: z_ok_def nat_le_iff)
    show ?thesis
    proof (cases "j < ?n")
      case True
      then have "j + 1 = ?n" "k \<le> j" using j k(2) by linarith+
      then show ?thesis using neg [of ?n] n that(1) True by (simp add: nth_shift_left)
    next
      case False
      then show ?thesis using neg [of j] n that(1) by (simp add: nth_shift_left)
    qed
  qed
  moreover have "distinct (z_list ?t)" unfolding zl using dist by simp
  ultimately have "z_ok ?t" using ok len by (simp add: z_ok_def ws)
  moreover have "z_order_remove_at k s = Inr (s\<lparr>window_z_order := ?zs', z_order_length := z_order_length s - 1\<rparr>)"
    unfolding z_order_remove_at_def remove_loop [OF n(1)] by simp
  ultimately show ?thesis using k(1) zl by blast
qed

section \<open>Opening\<close>

text \<open>The size fields of a window fit together, as \<open>create_window\<close> and \<open>resize_window\<close> set them.\<close>

definition sized :: "window \<Rightarrow> bool" where
  "sized w \<longleftrightarrow> 0 \<le> sint (win_width w) \<and> 0 \<le> sint (win_height w) \<and>
     sint (actual_width w) = sint (win_width w) + 2 \<and> sint (actual_height w) = sint (win_height w) + 21"

definition windows_sized :: "'a gui_state_scheme \<Rightarrow> bool" where
  "windows_sized s \<longleftrightarrow> (\<forall>v\<in>open_windows s. sized (windows s ! nat v))"

lemma sint16: "- (2 ^ 15) \<le> n \<Longrightarrow> n < 2 ^ 15 \<Longrightarrow> sint (of_int n :: u16) = n"
  by (simp add: sint_sbintrunc' signed_take_bit_int_eq_self_iff)

lemma sized_updates [simp]:
  "sized (w\<lparr>fb_shmem_id := a\<rparr>) = sized w" "sized (w\<lparr>win_framebuffer := b\<rparr>) = sized w"
  "sized (w\<lparr>shown_buffer := c, owner_task := d, title := e\<rparr>) = sized w"
  by (simp_all add: sized_def)

lemma new_window_sized:
  assumes "0 \<le> width" "width < 32766" "0 \<le> height" "height < 32747"
  shows "sized (new_window i width height flags)"
  using assms sint16 [of width] sint16 [of "width + 2"] sint16 [of height] sint16 [of "height + 21"]
  by (simp add: sized_def new_window_def no_window_def WINDOW_TITLE_BAR_HEIGHT_def add.commute [of 21])

lemma windows_sized_upd:
  assumes "windows_sized s" and "windows t = (windows s)[i := w]" and "sized w \<or> win_state w = 0"
  shows "windows_sized t"
  using assms by (auto simp: windows_sized_def open_windows_def nth_list_update) (metis linorder_not_less list_update_beyond nth_list_update)+

lemma window_buffer_frame:
  assumes "window_buffer i n s = Some (Inr t)"
  shows "\<exists>f. windows t = (windows s)[i := f (windows s ! i)] \<and> (i < length (windows s) \<longrightarrow> win_state (f (windows s ! i)) = win_state (windows s ! i)) \<and>
    window_z_order t = window_z_order s \<and> z_order_length t = z_order_length s \<and> (\<forall>w. sized (f w) = sized w)"
proof -
  obtain oid s1 fb s3 where s1: "sharedmem_create n 0 s = Some (Inr (oid, s1))"
    and s3: "sharedmem_map (scast (fb_shmem_id (windows (upd_window i (\<lambda>w. w\<lparr>fb_shmem_id := of_nat oid\<rparr>) s1) ! i))) 0
        (upd_window i (\<lambda>w. w\<lparr>fb_shmem_id := of_nat oid\<rparr>) s1) = Inr (fb, s3)"
    and t: "t = upd_window i (\<lambda>w. w\<lparr>win_framebuffer := fb\<rparr>) s3"
    using assms by (auto simp: window_buffer_def Let_def run_then_eq_Some_Inr)
  note g = gui_more [OF sharedmem_create_kern [OF s1]] gui_more [OF sharedmem_map_kern [OF s3]]
  show ?thesis
    by (rule exI [of _ "\<lambda>w. w\<lparr>fb_shmem_id := of_nat oid, win_framebuffer := fb\<rparr>"])
      (cases "i < length (windows s)"; simp add: t upd_window_def g list_update_beyond)
qed

lemma open_index_fresh:
  assumes "find_window_slot (windows s) = Inr i" and "z_ok s"
  shows "i < MAX_WINDOWS \<and> int i \<notin> open_windows s \<and> z_order_length s < int MAX_WINDOWS"
proof -
  have i: "i < MAX_WINDOWS" "win_state (windows s ! i) = 0" using assms(1) by (simp_all add: window_slots.search_found)
  then have out: "int i \<notin> open_windows s" by (auto simp: open_windows_def)
  have sub: "open_windows s \<subseteq> int ` ({..<MAX_WINDOWS} - {i})" using out by (auto simp: open_windows_def)
  have "card (open_windows s) \<le> card ({..<MAX_WINDOWS} - {i})"
    using card_mono [OF _ sub] card_image_le [of "{..<MAX_WINDOWS} - {i}" int] by fastforce
  also have "\<dots> < MAX_WINDOWS" using i(1) by simp
  finally have "length (z_list s) < MAX_WINDOWS" using assms(2) by (metis z_ok_def distinct_card)
  then show ?thesis using i(1) out z_ok_length [OF assms(2)] by (simp add: nat_less_iff zless_nat_conj)
qed

text \<open>Entering a new window at the end of the list.\<close>

lemma z_append:
  assumes ok: "z_ok s" and i: "i < MAX_WINDOWS" "int i \<notin> open_windows s" and n: "z_order_length s < int MAX_WINDOWS"
    and w: "win_state w \<noteq> 0"
  defines "t \<equiv> s\<lparr>windows := (windows s)[i := w], window_z_order := (window_z_order s)[nat (z_order_length s) := int i],
      z_order_length := z_order_length s + 1\<rparr>"
  shows "z_ok t" and "z_list t = z_list s @ [int i]"
proof -
  have 0: "0 \<le> z_order_length s" "length (window_z_order s) = MAX_WINDOWS" "length (windows s) = MAX_WINDOWS"
    using ok by (simp_all add: z_ok_def)
  then have lt: "nat (z_order_length s) < length (window_z_order s)" using n by (simp add: nat_less_iff)
  have "nat (z_order_length s + 1) = Suc (nat (z_order_length s))" using 0(1) by (simp add: nat_add_distrib)
  then show zl: "z_list t = z_list s @ [int i]"
    using lt by (simp add: z_list_def t_def take_Suc_conv_app_nth)
  have "open_windows t = insert (int i) (open_windows s)"
    using i w 0(3) by (auto simp: open_windows_def t_def nth_list_update)
  then show "z_ok t" using ok i n zl 0
    by (auto simp: z_ok_def t_def nth_list_update)
qed

lemma create_window_spec:
  assumes ok: "z_ok s" and res: "create_window width height flags s = Some (Inr (i, t))"
  shows "z_ok t \<and> int i \<notin> open_windows s \<and> z_list t = int i # z_list s \<and> focused_window t = int i"
proof -
  obtain s2 tl s4 s5 where slot: "find_window_slot (windows s) = Inr i"
    and s2: "window_buffer i (of_int (width * height * 4) * buffer_count flags)
        (upd_window i (\<lambda>_. new_window i width height flags) s) = Some (Inr s2)"
    and s4: "s4 = (upd_window i (\<lambda>w. w\<lparr>shown_buffer := 0, owner_task := task_id (cur s2), title := tl\<rparr>) s2)
        \<lparr>window_z_order := (window_z_order s2)[nat (z_order_length s2) := int i], z_order_length := z_order_length s2 + 1\<rparr>"
    and s5: "move_window_to_front (int i) s4 = Inr s5"
    and t: "t = ask_redraw (s5\<lparr>focused_window := int i\<rparr>)"
    using res by (auto simp: create_window_def Let_def run_then_eq_Some_Inr upd_window_def split: if_splits)
  note fresh = open_index_fresh [OF slot ok]
  have len: "length (windows s) = MAX_WINDOWS" using ok by (simp add: z_ok_def)
  obtain f where f: "windows s2 = (windows s)[i := f (new_window i width height flags)]"
    "win_state (f (new_window i width height flags)) = 1"
    "window_z_order s2 = window_z_order s" "z_order_length s2 = z_order_length s"
    using window_buffer_frame [OF s2] fresh len by (auto simp: upd_window_def new_window_def)
  let ?w = "(f (new_window i width height flags))\<lparr>shown_buffer := 0, owner_task := task_id (cur s2), title := tl\<rparr>"
  let ?t0 = "s\<lparr>windows := (windows s)[i := ?w], window_z_order := (window_z_order s)[nat (z_order_length s) := int i],
      z_order_length := z_order_length s + 1\<rparr>"
  have same: "windows s4 = windows ?t0" "window_z_order s4 = window_z_order ?t0" "z_order_length s4 = z_order_length ?t0"
    using fresh len by (simp_all add: s4 upd_window_def f)
  have z4: "z_ok s4" "z_list s4 = z_list s @ [int i]"
    using z_append [of s i ?w] ok fresh f(2) unfolding z_ok_def z_list_def open_windows_def same by simp_all
  have "int i \<in> open_windows s4" using z4(1) unfolding z_ok_def z4(2) by auto
  from move_to_front [OF z4(1) this] s5 have s5': "z_ok s5" "z_list s5 = int i # remove1 (int i) (z_list s4)" by auto
  have "int i \<notin> set (z_list s)" using fresh ok by (simp add: z_ok_def)
  then have "z_list s5 = int i # z_list s" by (simp add: s5'(2) z4(2) remove1_append)
  then show ?thesis using s5'(1) fresh
    by (simp add: t ask_redraw_def z_ok_def z_list_def open_windows_def)
qed

lemma destroy_window_spec:
  assumes ok: "z_ok s" and w: "w \<in> open_windows s" and room: "z_order_length s < int MAX_WINDOWS"
    and res: "destroy_window w s = Some (Inr t)"
  shows "z_ok t \<and> z_list t = remove1 w (z_list s)"
proof -
  obtain s1 s3 where s1: "sharedmem_destroy (scast (fb_shmem_id (windows s ! nat w))) s = Some (Inr s1)"
    and s3: "(case z_order_find_index w (upd_window (nat w) (\<lambda>_. no_window) s1) of
        None \<Rightarrow> Inr (upd_window (nat w) (\<lambda>_. no_window) s1)
      | Some index \<Rightarrow> z_order_remove_at index (upd_window (nat w) (\<lambda>_. no_window) s1)) = Inr s3"
    and t: "t = ask_redraw s3"
    using res open_window [OF w] by (auto simp: destroy_window_def window_index_def Let_def run_then_eq_Some_Inr)
  let ?u = "upd_window (nat w) (\<lambda>_. no_window) s1"
  note g = gui_more [OF sharedmem_destroy_kern [OF s1]]
  obtain k zs where k: "z_order_find_index w s = Some k"
    and rem: "z_order_remove_at k s = Inr (s\<lparr>window_z_order := zs, z_order_length := z_order_length s - 1\<rparr>)"
    and z: "z_ok (s\<lparr>windows := (windows s)[nat w := no_window], window_z_order := zs, z_order_length := z_order_length s - 1\<rparr>)"
    "z_list (s\<lparr>windows := (windows s)[nat w := no_window], window_z_order := zs, z_order_length := z_order_length s - 1\<rparr>) = remove1 w (z_list s)"
    using remove_open [OF ok w room refl] by blast
  obtain zs' where loop: "for_res k (nat (z_order_length s)) (\<lambda>i zs. in_bounds (i + 1) MAX_WINDOWS (Inr (zs[i := zs ! (i + 1)]))) (window_z_order s) = Inr zs'"
    and eq: "s\<lparr>window_z_order := zs', z_order_length := z_order_length s - 1\<rparr> = s\<lparr>window_z_order := zs, z_order_length := z_order_length s - 1\<rparr>"
    using rem by (auto simp: z_order_remove_at_def res_eq_Inr)
  have "zs' = zs" using arg_cong [OF eq, of window_z_order] by simp
  moreover have "z_order_find_index w ?u = Some k" using k by (simp add: z_order_find_index_def upd_window_def g)
  ultimately have "s3 = ?u\<lparr>window_z_order := zs, z_order_length := z_order_length s - 1\<rparr>"
    using s3 loop by (simp add: z_order_remove_at_def upd_window_def g)
  then show ?thesis using z by (simp add: t ask_redraw_def upd_window_def g z_ok_def z_list_def open_windows_def)
qed

text \<open>Opening a window of a size that fits into 16 bits, raising and closing keep the sizes.\<close>

lemma create_window_sized:
  assumes "windows_sized s" and "create_window width height flags s = Some (Inr (i, t))"
    and "0 \<le> width" "width < 32766" "0 \<le> height" "height < 32747"
  shows "windows_sized t"
proof -
  obtain s2 tl s4 s5 where s2: "window_buffer i (of_int (width * height * 4) * buffer_count flags)
        (upd_window i (\<lambda>_. new_window i width height flags) s) = Some (Inr s2)"
    and s4: "s4 = (upd_window i (\<lambda>w. w\<lparr>shown_buffer := 0, owner_task := task_id (cur s2), title := tl\<rparr>) s2)
        \<lparr>window_z_order := (window_z_order s2)[nat (z_order_length s2) := int i], z_order_length := z_order_length s2 + 1\<rparr>"
    and s5: "move_window_to_front (int i) s4 = Inr s5"
    and t: "t = ask_redraw (s5\<lparr>focused_window := int i\<rparr>)"
    using assms(2) by (auto simp: create_window_def Let_def run_then_eq_Some_Inr upd_window_def split: if_splits)
  have new: "sized (new_window i width height flags)" using assms(3-6) by (rule new_window_sized)
  have "windows t = windows s4" using s5 by (auto simp: t ask_redraw_def move_window_to_front_def res_eq_Inr split: if_splits option.splits)
  moreover obtain f where "windows s2 = (windows s)[i := f (windows (upd_window i (\<lambda>_. new_window i width height flags) s) ! i)]"
    "\<forall>w. sized (f w) = sized w"
    using window_buffer_frame [OF s2] by (auto simp: upd_window_def)
  ultimately show ?thesis using new
    by (intro windows_sized_upd [OF assms(1), where i = i]) (cases "i < length (windows s)"; simp add: s4 upd_window_def list_update_beyond)+
qed

section \<open>The window under the cursor\<close>

lemma find_hit_first:
  assumes "\<And>w. w \<in> set zs \<Longrightarrow> 0 \<le> w \<and> w < int MAX_WINDOWS"
  shows "find_hit x y ws zs = Inr (map_option (\<lambda>w. (w, y - sint (win_y (ws ! nat w)) > WINDOW_CONTENT_YOFFSET))
    (List.find (\<lambda>w. window_hit x y (ws ! nat w)) zs))"
  using assms
proof (induction zs)
  case (Cons a zs)
  have "\<not> a < 0" "\<not> int MAX_WINDOWS \<le> a" using Cons.prems [of a] by simp_all
  then show ?case using Cons by (simp add: the_window_def get_window_def)
qed simp

lemma find_Some_last_drawn:
  "List.find P zs = Some w \<Longrightarrow> \<exists>behind front. rev zs = behind @ w # front \<and> P w \<and> (\<forall>v\<in>set front. \<not> P v)"
proof (induction zs)
  case (Cons z zs)
  show ?case
  proof (cases "P z")
    case True
    with Cons.prems show ?thesis by (intro exI [of _ "rev zs"] exI [of _ "[]"]) simp
  next
    case False
    with Cons obtain behind front where "rev zs = behind @ w # front" "P w" "\<forall>v\<in>set front. \<not> P v" by auto
    with False show ?thesis by (intro exI [of _ behind] exI [of _ "front @ [z]"]) auto
  qed
qed simp

lemma find_window_eq:
  assumes "z_ok s"
  shows "find_window_from_pos x y s =
    Inr (case List.find (\<lambda>w. window_hit x y (windows s ! nat w)) (z_list s) of
           None \<Rightarrow> (- 1, False)
         | Some w \<Rightarrow> (w, y - sint (win_y (windows s ! nat w)) > WINDOW_CONTENT_YOFFSET))"
proof -
  have "find_hit x y (windows s) (z_list s) = Inr (map_option (\<lambda>w. (w, y - sint (win_y (windows s ! nat w)) > WINDOW_CONTENT_YOFFSET))
    (List.find (\<lambda>w. window_hit x y (windows s ! nat w)) (z_list s)))"
    by (rule find_hit_first) (use assms open_window in \<open>auto simp: z_ok_def\<close>)
  then show ?thesis using z_ok_bound [OF assms]
    by (simp add: find_window_from_pos_def z_list_def split: option.split)
qed

section \<open>Where a window is seen\<close>

text \<open>The rectangle whose border \<open>draw_window\<close> draws, the border included, and the border.\<close>

definition in_frame :: "int \<Rightarrow> int \<Rightarrow> window \<Rightarrow> bool" where
  "in_frame px py w \<longleftrightarrow> sint (win_x w) \<le> px \<and> px \<le> sint (win_x w) + sint (win_width w) + 1 \<and>
     sint (win_y w) \<le> py \<and> py \<le> sint (win_y w) + sint (win_height w) + 20"

definition on_border :: "int \<Rightarrow> int \<Rightarrow> window \<Rightarrow> bool" where
  "on_border px py w \<longleftrightarrow> in_frame px py w \<and> (px = sint (win_x w) \<or> px = sint (win_x w) + sint (win_width w) + 1 \<or>
     py = sint (win_y w) \<or> py = sint (win_y w) + sint (win_height w) + 20)"

text \<open>The column to the right of the border and the row below it.\<close>

definition on_margin :: "int \<Rightarrow> int \<Rightarrow> window \<Rightarrow> bool" where
  "on_margin px py w \<longleftrightarrow>
     px = sint (win_x w) + sint (win_width w) + 2 \<and> sint (win_y w) \<le> py \<and> py \<le> sint (win_y w) + sint (win_height w) + 21 \<or>
     py = sint (win_y w) + sint (win_height w) + 21 \<and> sint (win_x w) \<le> px \<and> px \<le> sint (win_x w) + sint (win_width w) + 2"

text \<open>A position that the window takes: inside its frame or on its margin.\<close>

definition takes :: "int \<Rightarrow> int \<Rightarrow> window \<Rightarrow> bool" where
  "takes px py w \<longleftrightarrow> in_frame px py w \<or> on_margin px py w"

lemma hit_sized: "win_state w \<noteq> 0 \<Longrightarrow> sized w \<Longrightarrow> window_hit px py w \<longleftrightarrow> takes px py w"
  by (auto simp: window_hit_def sized_def takes_def in_frame_def on_margin_def)

lemma find_window_taken:
  assumes ok: "z_ok s" and sizes: "windows_sized s"
  shows "\<exists>w inside. find_window_from_pos x y s = Inr (w, inside) \<and>
    (if w = - 1 then \<not> inside \<and> (\<forall>v\<in>open_windows s. \<not> takes x y (windows s ! nat v))
     else \<exists>behind front. rev (z_list s) = behind @ w # front \<and> takes x y (windows s ! nat w) \<and>
       (\<forall>v\<in>set front. \<not> takes x y (windows s ! nat v)) \<and> inside = (sint (win_y (windows s ! nat w)) + 20 < y))"
proof -
  have hit: "window_hit x y (windows s ! nat v) \<longleftrightarrow> takes x y (windows s ! nat v)" if "v \<in> open_windows s" for v
    using that sizes by (intro hit_sized) (auto simp: open_windows_def windows_sized_def)
  have zs: "set (z_list s) = open_windows s" using ok by (simp add: z_ok_def)
  show ?thesis
  proof (cases "List.find (\<lambda>w. window_hit x y (windows s ! nat w)) (z_list s)")
    case None
    then have "\<forall>v\<in>open_windows s. \<not> takes x y (windows s ! nat v)" using zs hit by (auto simp: find_None_iff)
    with None show ?thesis using find_window_eq [OF ok, of x y] by auto
  next
    case (Some w)
    then have w: "w \<in> open_windows s" using zs by (auto simp: find_Some_iff)
    then have "w \<noteq> - 1" using open_window by fastforce
    moreover obtain behind front where order: "rev (z_list s) = behind @ w # front" "window_hit x y (windows s ! nat w)"
      "\<forall>v\<in>set front. \<not> window_hit x y (windows s ! nat v)"
      using find_Some_last_drawn [OF Some] by blast
    moreover have "set front \<subseteq> open_windows s" using arg_cong [OF order(1), of set] zs by auto
    moreover have "(y - sint (win_y (windows s ! nat w)) > WINDOW_CONTENT_YOFFSET) = (sint (win_y (windows s ! nat w)) + 20 < y)"
      by (auto simp: WINDOW_CONTENT_YOFFSET_def)
    moreover from calculation have "\<forall>v\<in>set front. \<not> takes x y (windows s ! nat v)" using hit by auto
    ultimately show ?thesis using Some find_window_eq [OF ok, of x y] hit [OF w] by simp blast
  qed
qed

text \<open>The border on the screen.\<close>

lemma outline_drawn:
  assumes ok: "ctx_ok (graphics s)" and size: "0 \<le> sint (win_width w)" "0 \<le> sint (win_height w)"
  shows "\<exists>c. draw_outline w color s = Some (Inr (s\<lparr>graphics := c\<rparr>)) \<and> same_ctx (graphics s) c \<and>
    (\<forall>px py. on_screen (graphics s) px py \<longrightarrow> pix c px py = (if on_border px py w then color else pix (graphics s) px py))"
proof -
  let ?x = "sint (win_x w)" and ?y = "sint (win_y w)" and ?w = "sint (win_width w)" and ?h = "sint (win_height w)"
  obtain c1 where 1: "sgfx_draw_hline ?x ?y (?w + 2) color (graphics s) = Some (Inr c1)" "same_ctx (graphics s) c1"
    "\<forall>px py. on_screen (graphics s) px py \<longrightarrow> pix c1 px py = (if py = ?y \<and> ?x \<le> px \<and> px < ?x + (?w + 2) then color else pix (graphics s) px py)"
    using draw_hline_spec [OF ok] by blast
  have ok1: "ctx_ok c1" using 1(2) by (simp add: same_ctx_def)
  obtain c2 where 2: "sgfx_draw_hline ?x (?y + 20 + ?h) (?w + 2) color c1 = Some (Inr c2)" "same_ctx c1 c2"
    "\<forall>px py. on_screen c1 px py \<longrightarrow> pix c2 px py = (if py = ?y + 20 + ?h \<and> ?x \<le> px \<and> px < ?x + (?w + 2) then color else pix c1 px py)"
    using draw_hline_spec [OF ok1] by blast
  have ok2: "ctx_ok c2" using 2(2) by (simp add: same_ctx_def)
  obtain c3 where 3: "sgfx_draw_vline ?x ?y (?h + 20) color c2 = Some (Inr c3)" "same_ctx c2 c3"
    "\<forall>px py. on_screen c2 px py \<longrightarrow> pix c3 px py = (if px = ?x \<and> ?y \<le> py \<and> py < ?y + (?h + 20) then color else pix c2 px py)"
    using draw_vline_spec [OF ok2] by blast
  have ok3: "ctx_ok c3" using 3(2) by (simp add: same_ctx_def)
  obtain c4 where 4: "sgfx_draw_vline (?x + ?w + 1) ?y (?h + 20) color c3 = Some (Inr c4)" "same_ctx c3 c4"
    "\<forall>px py. on_screen c3 px py \<longrightarrow> pix c4 px py = (if px = ?x + ?w + 1 \<and> ?y \<le> py \<and> py < ?y + (?h + 20) then color else pix c3 px py)"
    using draw_vline_spec [OF ok3] by blast
  note same = same_ctx_trans [OF same_ctx_trans [OF same_ctx_trans [OF 1(2) 2(2)] 3(2)] 4(2)]
  have screens: "on_screen c1 = on_screen (graphics s)" "on_screen c2 = on_screen (graphics s)" "on_screen c3 = on_screen (graphics s)"
    using same_ctx_on_screen [OF 1(2)] same_ctx_on_screen [OF 2(2)] same_ctx_on_screen [OF 3(2)] by (simp_all add: fun_eq_iff)
  have "draw_outline w color s = Some (Inr (s\<lparr>graphics := c4\<rparr>))"
    using 1(1) 2(1) 3(1) 4(1) by (simp add: draw_outline_def graphics_draw_hline_def graphics_draw_vline_def on_graphics_def Let_def
        WINDOW_CONTENT_XOFFSET_def WINDOW_TITLE_BAR_HEIGHT_def)
  moreover have "pix c4 px py = (if on_border px py w then color else pix (graphics s) px py)" if "on_screen (graphics s) px py" for px py
    using that 1(3) 2(3) 3(3) 4(3) size unfolding screens by (auto simp: on_border_def in_frame_def)
  ultimately show ?thesis using same by blast
qed

section \<open>Properties\<close>

text \<open>C25: The z-order is a list of the open windows. Raising an open window moves it to the front of
  the list and keeps the order of the others; a window that \<open>create_window\<close> returns was not
  open before and is now in front and focused; when fewer than 64 windows are open,
  \<open>destroy_window\<close> takes exactly its window out. Each keeps the invariant that the list has
  no repetitions, holds exactly the open windows and is followed by \<open>-1\<close>.\<close>

theorem windows_z_order:
  assumes "z_ok s"
  shows "(\<forall>w\<in>open_windows s. \<exists>t. move_window_to_front w s = Inr t \<and> z_ok t \<and> z_list t = w # remove1 w (z_list s)) \<and>
    (\<forall>width height flags i t. create_window width height flags s = Some (Inr (i, t)) \<longrightarrow>
       z_ok t \<and> int i \<notin> open_windows s \<and> z_list t = int i # z_list s \<and> focused_window t = int i) \<and>
    (\<forall>w\<in>open_windows s. \<forall>t. z_order_length s < int MAX_WINDOWS \<and> destroy_window w s = Some (Inr t) \<longrightarrow>
       z_ok t \<and> z_list t = remove1 w (z_list s))"
  using move_to_front [OF assms] create_window_spec [OF assms] destroy_window_spec [OF assms] by blast

text \<open>C26: Clicks go to what is seen, up to one column and one row. When the size fields of the open
  windows fit together, \<open>find_window_from_pos\<close> returns, without a fault, the last window in the
  order in which \<open>draw_windows\<close> draws that takes the position (its frame or its margin contains it), and \<open>-1\<close>
  exactly when there is none. The frame is the rectangle whose border \<open>draw_window\<close> puts on the
  screen (the third part: exactly the border gets the colour); the margin is the column to the right
  of the frame and the row below it, where nothing is drawn. So away from all margins the result is
  the topmost window that is drawn at the position. The flag says that the position is below the
  first 21 rows of the window.\<close>

theorem window_hit_is_topmost:
  assumes "z_ok s" and "windows_sized s"
  shows "(\<exists>w inside. find_window_from_pos x y s = Inr (w, inside) \<and>
      (if w = - 1 then \<not> inside \<and> (\<forall>v\<in>open_windows s. \<not> takes x y (windows s ! nat v))
       else \<exists>behind front. rev (z_list s) = behind @ w # front \<and> takes x y (windows s ! nat w) \<and>
         (\<forall>v\<in>set front. \<not> takes x y (windows s ! nat v)) \<and> inside = (sint (win_y (windows s ! nat w)) + 20 < y))) \<and>
    (\<forall>font. draw_windows font s = draw_all font (rev (z_list s)) s) \<and>
    (\<forall>v\<in>open_windows s. ctx_ok (graphics s) \<longrightarrow> (\<forall>color. \<exists>c. draw_outline (windows s ! nat v) color s = Some (Inr (s\<lparr>graphics := c\<rparr>)) \<and>
      (\<forall>px py. on_screen (graphics s) px py \<longrightarrow>
        pix c px py = (if on_border px py (windows s ! nat v) then color else pix (graphics s) px py))))"
proof -
  have "draw_windows font s = draw_all font (rev (z_list s)) s" for font
    using z_ok_bound [OF assms(1)] by (simp add: draw_windows_def z_list_def)
  then show ?thesis using find_window_taken [OF assms] outline_drawn [of s] assms(2) unfolding windows_sized_def sized_def by blast
qed

text \<open>A full desktop cannot be closed. With all 64 windows open, taking any of them out of the
  z-order reads the entry behind the end of the array.\<close>

theorem full_desktop_overrun:
  assumes "z_ok s" and "z_order_length s = int MAX_WINDOWS" and "w \<in> open_windows s"
  shows "\<exists>k. z_order_find_index w s = Some k \<and> z_order_remove_at k s = Inl Out_Of_Bounds"
proof -
  obtain k where "z_order_find_index w s = Some k" "k < MAX_WINDOWS"
    using find_index_open [OF assms(1,3)] assms(2) by auto
  moreover from this have "z_order_remove_at k s = Inl Out_Of_Bounds"
    by (simp only: z_order_remove_at_def assms(2) nat_int remove_loop_full and_then_simps)
  ultimately show ?thesis by blast
qed

definition example_window :: "int \<Rightarrow> window" where
  "example_window x = no_window\<lparr>win_state := 1, win_x := of_int x, win_y := 10, win_width := 60, win_height := 40,
     actual_width := 62, actual_height := 61\<rparr>"

definition example_gui :: gui_state where
  "example_gui = kern_state.extend example_kern
     (gui_state.fields ((replicate MAX_WINDOWS no_window)[0 := example_window 10, 1 := example_window 40])
       (- 1) 0 (- 1) False ((replicate MAX_WINDOWS (- 1))[0 := 1, 1 := 0]) 2
       \<lparr>gui_width = 4, gui_height = 3, gui_cursor_x = 2, gui_cursor_y = 1, prev_cursor_x = 2, prev_cursor_y = 1,
         needs_redraw = False, left_click = False, right_click = False\<rparr>
       \<lparr>x_acc = 0, y_acc = 0, left_button = False, right_button = False, packet = [0, 0, 0], packet_index = 0\<rparr>
       False False 0 0 0 0 False (sgfx_init (replicate 12 0) 4 3) (replicate 12 0)
       \<lparr>con_width = 4, con_height = 2, con_buffer = replicate 16 0, cursor_x = 0, cursor_y = 0, clear_color = 10,
         prompt_pos = 0, prompt_buffer = replicate 256 0\<rparr> False)"

lemma example_windows:
  "i < MAX_WINDOWS \<Longrightarrow> windows example_gui ! i = (if i = 0 then example_window 10 else if i = 1 then example_window 40 else no_window)"
  "length (windows example_gui) = MAX_WINDOWS" "z_order_length example_gui = 2"
  "window_z_order example_gui = (replicate MAX_WINDOWS (- 1))[0 := 1, 1 := 0]"
  by (simp_all add: example_gui_def kern_state.extend_def gui_state.fields_def nth_list_update)

lemma example_z_list: "z_list example_gui = [1, 0]"
proof -
  have "replicate MAX_WINDOWS (- 1 :: int) = - 1 # - 1 # replicate 62 (- 1)"
    using replicate_add [of 2 62 "- 1 :: int"] by (simp add: MAX_WINDOWS_def numeral_2_eq_2)
  then show ?thesis by (simp add: z_list_def example_windows numeral_2_eq_2)
qed

lemma example_open: "open_windows example_gui = {0, 1}"
proof -
  have "{i. i < MAX_WINDOWS \<and> win_state (windows example_gui ! i) \<noteq> 0} = {0, 1}"
    by (auto simp: example_windows example_window_def no_window_def MAX_WINDOWS_def split: if_splits)
  then show ?thesis by (simp add: open_windows_def)
qed

lemma example_z_ok: "z_ok example_gui"
  unfolding z_ok_def example_z_list example_open
  by (auto simp: example_windows nth_list_update MAX_WINDOWS_def)

theorem windows_z_order_witness:
  "\<exists>t. move_window_to_front 0 example_gui = Inr t \<and> z_list t = [0, 1]"
  using windows_z_order [OF example_z_ok] unfolding example_open example_z_list by auto

theorem window_hit_is_topmost_witness:
  "\<exists>inside. find_window_from_pos 45 20 example_gui = Inr (1, inside)"
proof -
  have wins: "windows example_gui ! nat v = example_window (if v = 0 then 10 else 40)" if "v \<in> {0, 1}" for v
    using that by (auto simp: example_windows MAX_WINDOWS_def)
  have sizes: "windows_sized example_gui"
    unfolding windows_sized_def example_open by (auto simp: wins sized_def example_window_def no_window_def)
  have frames: "takes 45 20 (windows example_gui ! nat v)" if "v \<in> {0, 1}" for v
    using that by (auto simp: wins takes_def in_frame_def example_window_def no_window_def)
  obtain w inside where w: "find_window_from_pos 45 20 example_gui = Inr (w, inside)"
    "if w = - 1 then \<not> inside \<and> (\<forall>v\<in>open_windows example_gui. \<not> takes 45 20 (windows example_gui ! nat v))
     else \<exists>behind front. rev (z_list example_gui) = behind @ w # front \<and> takes 45 20 (windows example_gui ! nat w) \<and>
       (\<forall>v\<in>set front. \<not> takes 45 20 (windows example_gui ! nat v)) \<and>
       inside = (sint (win_y (windows example_gui ! nat w)) + 20 < 20)"
    using window_hit_is_topmost [OF example_z_ok sizes, of 45 20] by blast
  then obtain behind front where "[0, 1] = behind @ w # front" "\<forall>v\<in>set front. \<not> takes 45 20 (windows example_gui ! nat v)"
    using frames unfolding example_open example_z_list by (auto split: if_splits)
  then have "w = 1" using frames [of 1] by (cases behind) (auto simp: Cons_eq_append_conv)
  with w(1) show ?thesis by blast
qed

text \<open>A desktop with all 64 windows open.\<close>

definition full_gui :: gui_state where
  "full_gui = example_gui\<lparr>windows := replicate MAX_WINDOWS (example_window 5),
     window_z_order := map int [0..<MAX_WINDOWS], z_order_length := int MAX_WINDOWS\<rparr>"

theorem full_desktop_overrun_witness:
  "\<exists>k. z_order_find_index 7 full_gui = Some k \<and> z_order_remove_at k full_gui = Inl Out_Of_Bounds"
proof -
  have op: "open_windows full_gui = int ` {..<MAX_WINDOWS}"
    by (auto simp: open_windows_def full_gui_def example_window_def no_window_def)
  have zl: "z_list full_gui = map int [0..<MAX_WINDOWS]" by (simp add: z_list_def full_gui_def)
  have "z_ok full_gui"
    unfolding z_ok_def op zl by (auto simp: full_gui_def distinct_map atLeast0LessThan)
  moreover have "7 \<in> open_windows full_gui" unfolding op by (auto simp: MAX_WINDOWS_def image_iff intro!: bexI [of _ 7])
  ultimately show ?thesis using full_desktop_overrun [of full_gui 7] by (simp add: full_gui_def)
qed

end
