(* ===== verification/Input.thy ===== *)
theory Input
  imports Gui_State
begin

text \<open>
  The PS/2 keyboard and mouse drivers (\<open>kernel/driver/keyboard.c\<close>, \<open>kernel/driver/mouse.c\<close>) up to
  the events they report: the translation of scan codes and the assembly of mouse packets from
  the bytes that the controller delivers.
\<close>

section \<open>Scan codes\<close>

text \<open>Each table is completed with zeros to its 128 entries.\<close>

definition scancode_map :: "u8 list" where
  "scancode_map =
    [0, 27, 49, 50, 51, 52, 53, 54, 55, 56, 57, 48, 45, 61, 8, 9, 113, 119, 101, 114, 116, 121, 117, 105,
     111, 112, 91, 93, 10, 0, 97, 115, 100, 102, 103, 104, 106, 107, 108, 59, 39, 96, 0, 92, 122, 120, 99, 118,
     98, 110, 109, 44, 46, 47, 0, 42, 0, 32, 0, 0, 0, 0, 0, 0, 0, 0, 0, 0, 0, 0, 0, 0,
     0, 0, 45, 0, 0, 0, 43, 0, 0, 0, 0, 0, 0, 0, 0, 0, 0, 0] @ replicate 38 0"

definition scancode_map_shift :: "u8 list" where
  "scancode_map_shift =
    [0, 27, 33, 34, 35, 0, 37, 38, 47, 40, 41, 61, 63, 96, 8, 9, 81, 87, 69, 82, 84, 89, 85, 73,
     79, 80, 65, 65, 10, 0, 65, 83, 68, 70, 71, 72, 74, 75, 76, 79, 39, 62, 0, 42, 90, 88, 67, 86,
     66, 78, 77, 59, 58, 95, 0, 42, 0, 32, 0, 0, 0, 0, 0, 0, 0, 0, 0, 0, 0, 0, 0, 0,
     0, 0, 45, 0, 0, 0, 43, 0, 0, 0, 0, 0, 0, 0, 62, 0, 0, 0] @ replicate 38 0"

definition scancode_map_alt :: "u8 list" where
  "scancode_map_alt =
    [0, 27, 0, 64, 0, 36, 0, 0, 123, 91, 93, 125, 92, 61, 8, 9, 113, 119, 101, 114, 116, 121, 117, 105,
     111, 112, 91, 93, 10, 0, 97, 115, 100, 102, 103, 104, 106, 107, 108, 59, 39, 96, 0, 92, 122, 120, 99, 118,
     98, 110, 109, 44, 46, 47, 0, 42, 0, 32, 0, 0, 0, 0, 0, 0, 0, 0, 0, 0, 0, 0, 0, 0,
     0, 0, 45, 0, 0, 0, 43, 0, 0, 0, 0, 0, 0, 0, 124, 0, 0, 0] @ replicate 38 0"

definition translate_to_ascii :: "u8 \<Rightarrow> bool \<Rightarrow> bool \<Rightarrow> u8" where
  "translate_to_ascii scancode shift alt =
     (if shift \<and> alt then 0
      else
        (let code = unat (scancode AND 127) in
         if shift then scancode_map_shift ! code
         else if alt then scancode_map_alt ! code
         else scancode_map ! code))"

text \<open>What \<open>handle_key_event\<close> makes of a scan code: the shift key is only remembered (\<open>Inl\<close>), any
  other key gives an event. The \<open>char\<close> is sign-extended.\<close>

definition key_event :: "u8 \<Rightarrow> bool \<Rightarrow> bool + event" where
  "key_event scancode shift =
     (if scancode AND 0x7F = 42 then Inl (drop_bit 7 scancode = 0)
      else
        (let key = translate_to_ascii scancode shift False in
         Inr \<lparr>ev_type = EVENT_KEYBOARD, data0 = ucast scancode, data1 = scast key,
              data2 = (if drop_bit 7 scancode = 0 then 1 else 0)\<rparr>))"

section \<open>Mouse packets\<close>

definition PACKET_BYTES :: nat where "PACKET_BYTES = 3"

text \<open>The variables that \<open>init_mouse\<close> sets.\<close>

definition init_mouse :: mouse where
  "init_mouse = \<lparr>x_acc = 0, y_acc = 0, left_button = False, right_button = False,
     packet = replicate PACKET_BYTES 0, packet_index = 0\<rparr>"

text \<open>The counters of the mouse and the position of the cursor are \<open>int32_t\<close>: a sum wraps around.\<close>

definition wrap32 :: "int \<Rightarrow> int" where
  "wrap32 n = sint (of_int n :: u32)"

text \<open>\<open>handle_mouse_interrupt\<close> for the byte \<open>data\<close>.\<close>

definition mouse_byte :: "u8 \<Rightarrow> mouse \<Rightarrow> gui \<Rightarrow> (mouse \<times> gui) res" where
  "mouse_byte data m g =
     in_bounds (packet_index m) (length (packet m))
       (let m1 = m\<lparr>packet := (packet m)[packet_index m := data], packet_index := packet_index m + 1\<rparr> in
        if packet_index m1 \<ge> PACKET_BYTES then
          (let m2 = m1\<lparr>packet_index := 0, x_acc := wrap32 (x_acc m1 + sint (packet m1 ! 2)),
                y_acc := wrap32 (y_acc m1 - sint (packet m1 ! 0)),
                left_button := (packet m1 ! 1 AND 1 \<noteq> 0), right_button := (packet m1 ! 1 AND 2 \<noteq> 0)\<rparr>
           in Inr (m2, g\<lparr>left_click := left_click g \<or> left_button m2, right_click := right_click g \<or> right_button m2\<rparr>))
        else Inr (m1, g))"

text \<open>\<open>handle_mouse_interrupt\<close> on the state.\<close>

definition handle_mouse_interrupt :: "u8 \<Rightarrow> 'a gui_state_scheme \<Rightarrow> 'a gui_state_scheme res" where
  "handle_mouse_interrupt data s =
     and_then (mouse_byte data (the_mouse s) (the_gui s)) (\<lambda>(m, g). Inr (s\<lparr>the_mouse := m, the_gui := g\<rparr>))"

end
