(* ===== verification/Desktop.thy ===== *)
theory Desktop
  imports Windows Input
begin

text \<open>
  Everything that reacts to input: the shell (\<open>kernel/shell.c\<close>), the dispatch of events to windows
  and to the console (\<open>handle_event\<close> of \<open>kernel/events.c\<close>), the keyboard interrupt and the
  desktop itself (\<open>kernel/gui.c\<close>).

  The operations that need the file system or formatted output get them as arguments:
  \<open>start_task\<close> is \<open>create_user_task\<close>, \<open>list_root\<close> the directory listing, and \<open>log\<close> writes a
  formatted message to the console.
\<close>

section \<open>The shell\<close>

definition has_prefix :: "u8 list \<Rightarrow> string \<Rightarrow> bool res" where
  "has_prefix code word = and_then (kernel_strncmp code (cstr word) (length word)) (\<lambda>d. Inr (d = 0))"

text \<open>The two commands that change more than the console, and those that only print; \<open>None\<close> is a
  line that is echoed.\<close>

datatype command = List_Files | Run "u8 list" | Print_Shmem | Print_Frames | Print_Pages | Print_Heap |
  Test_Kmalloc | Kill u32 | Print_Tasks | Echo

definition parse_command :: "u8 list \<Rightarrow> command res" where
  "parse_command code =
     and_then (has_prefix code ''ls'') (\<lambda>ls.
     if ls then Inr List_Files
     else and_then (has_prefix code ''run'') (\<lambda>run.
     if run then Inr (Run (drop 4 code))
     else and_then (has_prefix code ''shmem'') (\<lambda>sh.
     if sh then Inr Print_Shmem
     else if code ! 0 = 112 then Inr Print_Frames
     else if code ! 0 = 118 then Inr Print_Pages
     else if code ! 0 = 104 then Inr Print_Heap
     else if code ! 0 = 97 then Inr Test_Kmalloc
     else if code ! 0 = 107 then in_bounds 1 (length code) (Inr (Kill (1000 + (scast (code ! 1) - 48))))
     else if code ! 0 = 116 then Inr Print_Tasks
     else Inr Echo)))"

record 's environment =
  start_task :: "u8 list \<Rightarrow> 's \<Rightarrow> 's run"
  list_root :: "'s \<Rightarrow> 's run"
  write_log :: "string \<Rightarrow> u32 list \<Rightarrow> console \<Rightarrow> console res"
  with_graphics :: bool

definition log_console :: "'a gui_state_scheme environment \<Rightarrow> string \<Rightarrow> u32 list \<Rightarrow> 'a gui_state_scheme \<Rightarrow> 'a gui_state_scheme run" where
  "log_console env text args s =
     run_then (Some (write_log env text args (the_console s))) (\<lambda>c. Some (Inr (s\<lparr>the_console := c\<rparr>)))"

definition print_console :: "u8 list \<Rightarrow> 'a gui_state_scheme \<Rightarrow> 'a gui_state_scheme run" where
  "print_console str s =
     run_then (Some (console_print str (the_console s))) (\<lambda>(c, ports).
     Some (Inr (fold (\<lambda>(p, v). outb p v) ports (s\<lparr>the_console := c\<rparr>))))"

definition shell_execute :: "'a gui_state_scheme environment \<Rightarrow> u8 list \<Rightarrow> 'a gui_state_scheme \<Rightarrow> 'a gui_state_scheme run" where
  "shell_execute env code s =
     run_then (Some (parse_command code)) (\<lambda>cmd.
     case cmd of
       List_Files \<Rightarrow> list_root env s
     | Run path \<Rightarrow> start_task env path s
     | Print_Shmem \<Rightarrow> log_console env ''[kernel shmem]'' [] s
     | Print_Frames \<Rightarrow> log_console env ''physical pageframes used: %u'' [pmm_get_total_allocated_pages s] s
     | Print_Pages \<Rightarrow> log_console env ''mapped virtual pages: %u'' [mem_num_vpages s] s
     | Print_Heap \<Rightarrow> log_console env ''kernel heap use: %u bytes'' [kmalloc_get_total_bytes s] s
     | Test_Kmalloc \<Rightarrow> run_then (kmalloc 666 s) (\<lambda>(p, t). log_console env ''%p'' [p] t)
     | Kill tid \<Rightarrow> kill_task tid s
     | Print_Tasks \<Rightarrow> log_console env ''num tasks: %u'' [of_int (num_tasks s)] s
     | Echo \<Rightarrow> print_console code s)"

text \<open>A key at the prompt: the console's editor with this shell.\<close>

definition shell_on_console :: "'a gui_state_scheme environment \<Rightarrow> u8 list \<Rightarrow> console \<Rightarrow> 'a gui_state_scheme \<Rightarrow>
    (console \<times> 'a gui_state_scheme) run" where
  "shell_on_console env code c s =
     run_then (shell_execute env code (s\<lparr>the_console := c\<rparr>)) (\<lambda>t. Some (Inr (the_console t, t)))"

definition type_key :: "'a gui_state_scheme environment \<Rightarrow> u8 \<Rightarrow> 'a gui_state_scheme \<Rightarrow> 'a gui_state_scheme run" where
  "type_key env ch s =
     run_then (console_key_typed (shell_on_console env) ch (the_console s) s) (\<lambda>(c, t, ports).
     let u = fold (\<lambda>(p, v). outb p v) ports (t\<lparr>the_console := c\<rparr>) in
     Some (Inr (if with_graphics env \<and> ports \<noteq> [] then ask_redraw u else u)))"

section \<open>Dispatch of events\<close>

definition handle_event :: "'a gui_state_scheme environment \<Rightarrow> event \<Rightarrow> 'a gui_state_scheme \<Rightarrow> 'a gui_state_scheme run" where
  "handle_event env e s =
     (let s0 = push_cli s in
      run_then
        (Some (if ev_type e = EVENT_MOUSE_MOVE then
           (case get_window (window_under_cursor s0) of
              None \<Rightarrow> Inr s0 | Some i \<Rightarrow> send_event_to_task (owner_task (windows s0 ! i)) e s0)
         else Inr s0)) (\<lambda>s1.
      run_then
        (if ev_type e = EVENT_MOUSE_CLICK \<or> ev_type e = EVENT_KEYBOARD then
           (case get_window (focused_window s1) of
              Some i \<Rightarrow> Some (send_event_to_task (owner_task (windows s1 ! i)) e s1)
            | None \<Rightarrow>
                if ev_type e = EVENT_KEYBOARD \<and> drop_bit 7 (data0 e) = 0 \<and> data1 e \<noteq> 0
                then type_key env (ucast (data1 e)) s1 else Some (Inr s1))
         else Some (Inr s1)) (\<lambda>s2.
      Some (pop_cli s2))))"

text \<open>\<open>handle_key_event\<close>, for the scan code that the controller delivers.\<close>

definition handle_key_event :: "'a gui_state_scheme environment \<Rightarrow> u8 \<Rightarrow> 'a gui_state_scheme \<Rightarrow> 'a gui_state_scheme run" where
  "handle_key_event env scancode s =
     (case key_event scancode (holding_shift s) of
        Inl shift \<Rightarrow> Some (Inr (s\<lparr>holding_shift := shift\<rparr>))
      | Inr e \<Rightarrow> handle_event env e s)"

section \<open>The desktop\<close>

definition init_gui :: "int \<Rightarrow> int \<Rightarrow> 'a gui_state_scheme \<Rightarrow> 'a gui_state_scheme" where
  "init_gui width height s =
     (let g = (the_gui s)\<lparr>gui_width := width, gui_height := height, gui_cursor_x := width sdiv 2, gui_cursor_y := height sdiv 2,
            prev_cursor_x := width sdiv 2, prev_cursor_y := height sdiv 2, needs_redraw := True\<rparr>;
          s1 = init_windows (s\<lparr>the_gui := g\<rparr>)
      in s1\<lparr>testbutton_x := sint (ctx_width (graphics s1) - 100), testbutton_y := sint (ctx_height (graphics s1) - 100),
            testbutton_w := 50, testbutton_h := 50\<rparr>)"

text \<open>\<open>draw_debug_console\<close> draws the low byte of each cell of the console.\<close>

definition draw_debug_console :: "u8 list \<Rightarrow> u32 \<Rightarrow> 'a gui_state_scheme \<Rightarrow> 'a gui_state_scheme run" where
  "draw_debug_console font color s =
     for_run 0 50 (\<lambda>y. for_run 0 80 (\<lambda>x t.
       run_then (Some (get_byte (2 * (80 * y + x)) (the_console t))) (\<lambda>ch.
       graphics_draw_char font ch (int x * 10) (int y * 10) color t))) s"

text \<open>One frame; \<open>status\<close> is the line that \<open>sprintf\<close> makes of the used memory in KiB and the time,
  \<open>cursor\<close> the image of the mouse pointer.\<close>

definition gui_draw_frame :: "u8 list \<Rightarrow> u32 list \<Rightarrow> (u32 \<Rightarrow> u64 \<Rightarrow> u8 list) \<Rightarrow> 'a gui_state_scheme \<Rightarrow> 'a gui_state_scheme run" where
  "gui_draw_frame font cursor status s =
     run_then (graphics_fill COLOR_FRAME_BACKGROUND s) (\<lambda>s1.
     run_then (draw_debug_console font 0 s1) (\<lambda>s2.
     run_then (draw_windows font s2) (\<lambda>s3.
     run_then (graphics_fill_rect (testbutton_x s3) (testbutton_y s3) (testbutton_w s3) (testbutton_h s3) 0xFFFF00FF s3) (\<lambda>s4.
     run_then (graphics_fill_rect (sint (ctx_width (graphics s4) - 10)) 2 8 8 (if redraw_indicator s4 then 0xFF00FF else 0) s4) (\<lambda>s5.
     let s6 = s5\<lparr>redraw_indicator := \<not> redraw_indicator s5\<rparr>;
         line = status (pmm_get_total_allocated_pages s6 * 4) (get_system_time_millis s6) in
     run_then (graphics_draw_string font line 3 (sint (ctx_height (graphics s6) - 15)) 0 s6) (\<lambda>s7.
     run_then (graphics_copy_rect (gui_cursor_x (the_gui s7)) (gui_cursor_y (the_gui s7)) 12 19 0 0 (image cursor) s7)
       graphics_copy_backbuffer))))))"

text \<open>The coordinates of the cursor inside the content of window \<open>i\<close>.\<close>

definition content_event :: "u32 \<Rightarrow> nat \<Rightarrow> u32 \<Rightarrow> 'a gui_state_scheme \<Rightarrow> event" where
  "content_event kind i d2 s =
     \<lparr>ev_type = kind,
      data0 = of_int (gui_cursor_x (the_gui s) - sint (win_x (windows s ! i)) - WINDOW_CONTENT_XOFFSET),
      data1 = of_int (gui_cursor_y (the_gui s) - sint (win_y (windows s ! i)) - WINDOW_CONTENT_YOFFSET),
      data2 = d2\<rparr>"

definition on_testbutton :: "'a gui_state_scheme \<Rightarrow> bool" where
  "on_testbutton s \<longleftrightarrow>
     (let x = gui_cursor_x (the_gui s); y = gui_cursor_y (the_gui s) in
      x \<ge> testbutton_x s \<and> x < testbutton_x s + testbutton_w s \<and> y \<ge> testbutton_y s \<and> y < testbutton_y s + testbutton_h s)"

text \<open>The close button: the window and its task go.\<close>

definition click_frame :: "'a gui_state_scheme \<Rightarrow> 'a gui_state_scheme run" where
  "click_frame s =
     run_then (Some (check_window_close (window_under_cursor s) (gui_cursor_x (the_gui s)) (gui_cursor_y (the_gui s)) s)) (\<lambda>hit.
     if hit then
       run_then (Some (the_window (window_under_cursor s))) (\<lambda>i.
       let tid = owner_task (windows s ! i) in
       run_then (destroy_window (window_under_cursor s) s) (\<lambda>s1.
       run_then (kill_task tid s1) (\<lambda>s2.
       Some (Inr (s2\<lparr>window_under_cursor := - 1, focused_window := - 1\<rparr>)))))
     else Some (Inr s))"

definition handle_left_click :: "'a gui_state_scheme environment \<Rightarrow> 'a gui_state_scheme \<Rightarrow> 'a gui_state_scheme run" where
  "handle_left_click env s =
     run_then (if on_testbutton s then start_task env (cstr ''files.exe'') s else Some (Inr s)) (\<lambda>s1.
     let s2 = s1\<lparr>focused_window := window_under_cursor s1\<rparr> in
     run_then
       (if window_under_cursor s2 \<noteq> - 1 then
          run_then (Some (move_window_to_front (window_under_cursor s2) s2)) (\<lambda>s3.
          run_then
            (if inside_content s3 then
               run_then (Some (window_index (window_under_cursor s3))) (\<lambda>i.
               handle_event env (content_event EVENT_MOUSE_CLICK i 1 s3) s3)
             else click_frame s3) (\<lambda>s4.
          Some (Inr (s4\<lparr>currently_dragging_window := window_under_cursor s4\<rparr>))))
        else Some (Inr s2)) (\<lambda>s5.
     Some (Inr (ask_redraw s5))))"

text \<open>The first part of \<open>gui_handle_events\<close>: the cursor takes the movement of the mouse and is
  kept on the screen; \<open>graphics.width\<close> is unsigned.\<close>

definition keep_below :: "int \<Rightarrow> u32 \<Rightarrow> int" where
  "keep_below v n = (if (of_int v :: u32) \<ge> n then sint (n - 1) else v)"

definition move_cursor :: "'a gui_state_scheme \<Rightarrow> 'a gui_state_scheme" where
  "move_cursor s =
     (let x = wrap32 (gui_cursor_x (the_gui s) + x_acc (the_mouse s));
          y = wrap32 (gui_cursor_y (the_gui s) + y_acc (the_mouse s));
          x1 = (if x < 0 then 0 else x);
          y1 = (if y < 0 then 0 else y)
      in s\<lparr>the_mouse := (the_mouse s)\<lparr>x_acc := 0, y_acc := 0\<rparr>,
           the_gui := (the_gui s)\<lparr>gui_cursor_x := keep_below x1 (ctx_width (graphics s)),
             gui_cursor_y := keep_below y1 (ctx_height (graphics s))\<rparr>\<rparr>)"

definition look_under_cursor :: "'a gui_state_scheme \<Rightarrow> 'a gui_state_scheme res" where
  "look_under_cursor s =
     (let g = the_gui s in
      if gui_cursor_x g \<noteq> prev_cursor_x g \<and> gui_cursor_y g \<noteq> prev_cursor_y g then
        and_then (find_window_from_pos (gui_cursor_x g) (gui_cursor_y g) s) (\<lambda>(w, inside).
        Inr (s\<lparr>window_under_cursor := w, inside_content := inside\<rparr>))
      else Inr s)"

definition handle_buttons :: "'a gui_state_scheme environment \<Rightarrow> 'a gui_state_scheme \<Rightarrow> 'a gui_state_scheme run" where
  "handle_buttons env s =
     (if prev_mouse_left s \<noteq> left_click (the_gui s) \<or> prev_mouse_right s \<noteq> right_click (the_gui s) then
        run_then
          (if left_click (the_gui s) then handle_left_click env s
           else if right_click (the_gui s) then Some (Inr s)
           else Some (Inr (s\<lparr>currently_dragging_window := - 1\<rparr>))) (\<lambda>t.
        Some (Inr (t\<lparr>prev_mouse_left := left_click (the_gui t), prev_mouse_right := right_click (the_gui t)\<rparr>)))
      else Some (Inr s))"

definition drag_window :: "nat \<Rightarrow> int \<Rightarrow> int \<Rightarrow> 'a gui_state_scheme \<Rightarrow> 'a gui_state_scheme" where
  "drag_window i dx dy s = upd_window i (\<lambda>w. w\<lparr>win_x := of_int (sint (win_x w) + dx), win_y := of_int (sint (win_y w) + dy)\<rparr>) s"

definition report_motion :: "'a gui_state_scheme environment \<Rightarrow> 'a gui_state_scheme \<Rightarrow> 'a gui_state_scheme run" where
  "report_motion env s =
     (let dx = gui_cursor_x (the_gui s) - prev_cursor_x (the_gui s);
          dy = gui_cursor_y (the_gui s) - prev_cursor_y (the_gui s) in
      if dx \<noteq> 0 \<or> dy \<noteq> 0 then
        run_then
          (let s1 = ask_redraw s in
           if currently_dragging_window s1 \<noteq> - 1 then
             run_then (Some (window_index (currently_dragging_window s1))) (\<lambda>i. Some (Inr (drag_window i dx dy s1)))
           else if inside_content s1 then
             run_then (Some (window_index (window_under_cursor s1))) (\<lambda>i.
             handle_event env (content_event EVENT_MOUSE_MOVE i 0 s1) s1)
           else Some (Inr s1)) (\<lambda>t.
        Some (Inr (t\<lparr>the_gui := (the_gui t)\<lparr>prev_cursor_x := gui_cursor_x (the_gui t), prev_cursor_y := gui_cursor_y (the_gui t)\<rparr>\<rparr>)))
      else Some (Inr s))"

definition gui_handle_events :: "'a gui_state_scheme environment \<Rightarrow> 'a gui_state_scheme \<Rightarrow> 'a gui_state_scheme run" where
  "gui_handle_events env s =
     run_then (Some (look_under_cursor (move_cursor s))) (\<lambda>s1.
     run_then (handle_buttons env s1) (\<lambda>s2.
     report_motion env (s2\<lparr>the_gui := (the_gui s2)\<lparr>left_click := left_button (the_mouse s2),
       right_click := right_button (the_mouse s2)\<rparr>\<rparr>)))"

text \<open>One round of \<open>gui_task\<close>.\<close>

definition gui_round :: "'a gui_state_scheme environment \<Rightarrow> u8 list \<Rightarrow> u32 list \<Rightarrow> (u32 \<Rightarrow> u64 \<Rightarrow> u8 list) \<Rightarrow>
    'a gui_state_scheme \<Rightarrow> 'a gui_state_scheme run" where
  "gui_round env font cursor status s =
     run_then
       (if needs_redraw (the_gui s)
        then gui_draw_frame font cursor status (s\<lparr>the_gui := (the_gui s)\<lparr>needs_redraw := False\<rparr>\<rparr>)
        else Some (Inr s)) (\<lambda>s1.
     run_then (gui_handle_events env (disable_interrupts s1)) (\<lambda>s2. Some (Inr (enable_interrupts s2))))"

end
