(* ===== verification/Desktop_Props.thy ===== *)
theory Desktop_Props
  imports Desktop Windows_Props
begin

text \<open>
  Properties of the input path: what the mouse driver makes of the stream of a mouse, where the
  cursor can be, and when the desktop looks for the window under it.
\<close>

section \<open>The mouse stream\<close>

fun feed :: "u8 list \<Rightarrow> mouse \<Rightarrow> gui \<Rightarrow> (mouse \<times> gui) res" where
  "feed [] m g = Inr (m, g)"
| "feed (b # bs) m g = and_then (mouse_byte b m g) (\<lambda>(m', g'). feed bs m' g')"

lemma feed_append: "feed (as @ bs) m g = and_then (feed as m g) (\<lambda>(m', g'). feed bs m' g')"
  by (induction as arbitrary: m g) (simp_all add: and_then_assoc case_prod_beta')

text \<open>A packet of the mouse: buttons, horizontal and vertical movement.\<close>

definition packet_bytes :: "u8 \<times> u8 \<times> u8 \<Rightarrow> u8 list" where
  "packet_bytes p = [fst p, fst (snd p), snd (snd p)]"

definition dx :: "u8 \<times> u8 \<times> u8 \<Rightarrow> int" where "dx p = sint (fst (snd p))"

definition dy :: "u8 \<times> u8 \<times> u8 \<Rightarrow> int" where "dy p = sint (snd (snd p))"

lemma three: "xs[0 := a, 1 := b, 2 := c] = [a, b, c]" if "length xs = 3"
  using that by (auto simp: length_Suc_conv numeral_3_eq_3 numeral_2_eq_2)

text \<open>Between packets the driver has already stored one byte.\<close>

definition shifted :: "mouse \<Rightarrow> u8 \<Rightarrow> bool" where
  "shifted m b \<longleftrightarrow> (\<exists>c d. packet m = [b, c, d]) \<and> packet_index m = 1"

text \<open>Wrapping around at every packet is wrapping around once at the end.\<close>

lemma wrap32_wrap32 [simp]: "wrap32 (wrap32 n) = wrap32 n" "wrap32 (wrap32 m + n) = wrap32 (m + n)" "wrap32 (wrap32 m - n) = wrap32 (m - n)"
  by (simp_all add: wrap32_def)

lemma wrap32_small: "- (2 ^ 31) \<le> n \<Longrightarrow> n < 2 ^ 31 \<Longrightarrow> wrap32 n = n"
  by (simp add: wrap32_def sint_sbintrunc' signed_take_bit_int_eq_self_iff)

lemma wrap32_bounds: "- (2 ^ 31) \<le> wrap32 n" "wrap32 n < 2 ^ 31"
  using sint_ge [of "of_int n :: u32"] sint_lt [of "of_int n :: u32"] by (simp_all add: wrap32_def)

lemma feed_packet:
  assumes "shifted m b"
  shows "\<exists>m' g'. feed (packet_bytes p) m g = Inr (m', g') \<and> shifted m' (snd (snd p)) \<and>
    x_acc m' = wrap32 (x_acc m + dx p) \<and> y_acc m' = wrap32 (y_acc m - sint b) \<and>
    left_button m' = (fst p AND 1 \<noteq> 0) \<and> right_button m' = (fst p AND 2 \<noteq> 0)"
proof -
  obtain c d where m: "packet m = [b, c, d]" "packet_index m = 1" using assms by (auto simp: shifted_def)
  then show ?thesis by (simp add: packet_bytes_def mouse_byte_def Let_def PACKET_BYTES_def shifted_def dx_def)
qed

lemma feed_packets:
  "shifted m b \<Longrightarrow> \<exists>m' g'. feed (concat (map packet_bytes ps)) m g = Inr (m', g') \<and>
     shifted m' (if ps = [] then b else snd (snd (last ps))) \<and>
     wrap32 (x_acc m') = wrap32 (x_acc m + sum_list (map dx ps)) \<and>
     wrap32 (y_acc m') = wrap32 (y_acc m - (if ps = [] then 0 else sint b + sum_list (map dy (butlast ps)))) \<and>
     (ps \<noteq> [] \<longrightarrow> wrap32 (x_acc m') = x_acc m' \<and> wrap32 (y_acc m') = y_acc m' \<and> left_button m' = (fst (last ps) AND 1 \<noteq> 0) \<and> right_button m' = (fst (last ps) AND 2 \<noteq> 0))"
proof (induction ps arbitrary: m g b)
  case (Cons p ps)
  obtain m1 g1 where 1: "feed (packet_bytes p) m g = Inr (m1, g1)" "shifted m1 (snd (snd p))"
    "x_acc m1 = wrap32 (x_acc m + dx p)" "y_acc m1 = wrap32 (y_acc m - sint b)"
    "left_button m1 = (fst p AND 1 \<noteq> 0)" "right_button m1 = (fst p AND 2 \<noteq> 0)"
    using feed_packet [OF Cons.prems] by blast
  from Cons.IH [OF 1(2), of g1] 1 show ?case
    by (cases "ps = []") (auto simp: feed_append dy_def add.assoc diff_diff_eq)
qed simp

section \<open>The cursor\<close>

definition cursor_on_screen :: "'a gui_state_scheme \<Rightarrow> bool" where
  "cursor_on_screen s \<longleftrightarrow>
     0 \<le> gui_cursor_x (the_gui s) \<and> gui_cursor_x (the_gui s) < uint (ctx_width (graphics s)) \<and>
     0 \<le> gui_cursor_y (the_gui s) \<and> gui_cursor_y (the_gui s) < uint (ctx_height (graphics s))"

definition screen_ok :: "'a gui_state_scheme \<Rightarrow> bool" where
  "screen_ok s \<longleftrightarrow> 0 < uint (ctx_width (graphics s)) \<and> uint (ctx_width (graphics s)) < 2 ^ 31 \<and>
     0 < uint (ctx_height (graphics s)) \<and> uint (ctx_height (graphics s)) < 2 ^ 31"

text \<open>The pointer and the screen are the same.\<close>

definition same_pointer :: "'a gui_state_scheme \<Rightarrow> 'a gui_state_scheme \<Rightarrow> bool" where
  "same_pointer s t \<longleftrightarrow> gui_cursor_x (the_gui t) = gui_cursor_x (the_gui s) \<and>
     gui_cursor_y (the_gui t) = gui_cursor_y (the_gui s) \<and> graphics t = graphics s"

lemma keep_below_bounds:
  assumes "0 \<le> v" "v < 2 ^ 32" "0 < uint n" "uint n < 2 ^ 31"
  shows "0 \<le> keep_below v n \<and> keep_below v n < uint n"
proof -
  have v: "uint (of_int v :: u32) = v" using assms(1,2) by (simp add: uint_word_of_int)
  show ?thesis
  proof (cases "n \<le> (of_int v :: u32)")
    case True
    have "uint (n - 1) = uint n - 1" using assms(3) uint_sub_lem [of 1 n] by simp
    then have "sint (n - 1) = uint n - 1" using assms(3,4) by (simp add: sint_uint signed_take_bit_int_eq_self_iff)
    with True show ?thesis using assms(3) by (simp add: keep_below_def)
  next
    case False
    then have "v < uint n" using v by (simp add: word_le_def)
    with False show ?thesis using assms(1) by (simp add: keep_below_def)
  qed
qed

lemma same_pointer_refl [simp]: "same_pointer s s"
  by (simp add: same_pointer_def)

lemma same_pointer_trans: "same_pointer s t \<Longrightarrow> same_pointer t u \<Longrightarrow> same_pointer s u"
  by (simp add: same_pointer_def)

lemma same_pointer_kern: "kern_state.more t = kern_state.more s \<Longrightarrow> same_pointer s t"
  by (simp add: same_pointer_def gui_more [of t s])

lemma cpu_more_kern: "cpu_state.more t = cpu_state.more s \<Longrightarrow> kern_state.more t = kern_state.more (s :: 'a kern_state_scheme)"
  by (cases t; cases s) simp

lemma push_cli_kern: "kern_state.more (push_cli s) = kern_state.more (s :: 'a kern_state_scheme)"
  by (rule cpu_more_kern) simp

lemma pop_cli_kern: "pop_cli s = Inr t \<Longrightarrow> kern_state.more t = kern_state.more (s :: 'a kern_state_scheme)"
  by (rule cpu_more_kern) (auto simp: pop_cli_def Let_def res_eq_Inr split: if_splits)

lemma send_event_kern: "send_event_to_task tid e s = Inr t \<Longrightarrow> kern_state.more t = kern_state.more s"
  by (auto simp: send_event_to_task_def Let_def res_eq_Inr split: if_splits)

lemma destroy_events_kern: "destroy_events_for_task i s = Some (Inr t) \<Longrightarrow> kern_state.more t = kern_state.more s"
  by (auto simp: destroy_events_for_task_def run_then_eq_Some_Inr res_eq_Inr dest!: sharedmem_destroy_kern)

lemma kill_task_kern:
  assumes "kill_task tid s = Some (Inr t)"
  shows "kern_state.more t = kern_state.more s"
proof -
  have loop: "kern_state.more v = kern_state.more u"
    if "for_run 0 MAX_SHARED_MEMORY_OBJS (\<lambda>i t. if owner_task_id (shmem t ! i) = tid then sharedmem_destroy (of_nat i) t else Some (Inr t)) u = Some (Inr v)"
    for u v :: "'a kern_state_scheme"
    using that by (rule for_run_frame) (auto split: if_splits dest: sharedmem_destroy_kern)
  show ?thesis using assms unfolding kill_task_def Let_def
    by (auto simp: run_then_eq_Some_Inr push_cli_kern split: if_splits
        dest!: loop destroy_events_kern free_page_dir_kern kfree_kern pop_cli_kern)
qed

text \<open>What the reaction to input keeps, as a contract: a relation between the states before and
  after that the operations below respect is respected by the shell, the dispatch of events and
  the desktop. \<open>env_respects\<close> is what is needed of the operations that are arguments.\<close>

definition env_respects :: "('a gui_state_scheme \<Rightarrow> 'a gui_state_scheme \<Rightarrow> bool) \<Rightarrow> 'a gui_state_scheme environment \<Rightarrow> bool" where
  "env_respects R env \<longleftrightarrow> (\<forall>p s t. start_task env p s = Some (Inr t) \<longrightarrow> R s t) \<and>
     (\<forall>s t. list_root env s = Some (Inr t) \<longrightarrow> R s t)"

locale desktop_relation =
  fixes R :: "'a gui_state_scheme \<Rightarrow> 'a gui_state_scheme \<Rightarrow> bool"
  assumes refl: "R s s" and trans: "R s t \<Longrightarrow> R t u \<Longrightarrow> R s u"
    and kmalloc: "kmalloc n s = Some (Inr (p, t)) \<Longrightarrow> R s t" and kill: "kill_task tid s = Some (Inr t) \<Longrightarrow> R s t"
    and send: "send_event_to_task tid e s = Inr t \<Longrightarrow> R s t"
    and push: "R s (push_cli s)" and pop: "pop_cli s = Inr t \<Longrightarrow> R s t" and out: "R s (outb port v s)"
    and console: "R s (s\<lparr>the_console := c\<rparr>)" and redraw: "R s (ask_redraw s)"
    and focus: "R s (s\<lparr>focused_window := w\<rparr>)" and dragging: "R s (s\<lparr>currently_dragging_window := w\<rparr>)"
    and closed: "R s (s\<lparr>window_under_cursor := w, focused_window := w'\<rparr>)"
    and under: "R s (s\<lparr>window_under_cursor := w, inside_content := b\<rparr>)"
    and buttons: "R s (s\<lparr>prev_mouse_left := b, prev_mouse_right := b'\<rparr>)"
    and previous: "R s (s\<lparr>the_gui := (the_gui s)\<lparr>prev_cursor_x := x, prev_cursor_y := y\<rparr>\<rparr>)"
    and window: "R s (upd_window i f s)" and front: "move_window_to_front w s = Inr t \<Longrightarrow> R s t"
    and destroy: "destroy_window w s = Some (Inr t) \<Longrightarrow> R s t"
begin

lemma outs: "R s (fold (\<lambda>(p, v). outb p v) ports s)"
proof (induction ports arbitrary: s)
  case (Cons a ports)
  show ?case using trans [OF out Cons.IH] by (simp add: case_prod_beta)
qed (simp add: refl)

lemma log: "log_console env m args s = Some (Inr t) \<Longrightarrow> R s t"
  by (auto simp: log_console_def run_then_eq_Some_Inr console)

lemma print: "print_console code s = Some (Inr t) \<Longrightarrow> R s t"
  by (auto simp: print_console_def run_then_eq_Some_Inr intro: trans [OF console outs])

lemma shell:
  assumes "env_respects R env" and "shell_execute env code s = Some (Inr t)"
  shows "R s t"
proof -
  obtain cmd where "parse_command code = Inr cmd" using assms(2) by (auto simp: shell_execute_def run_then_eq_Some_Inr)
  then show ?thesis using assms
    by (cases cmd) (auto simp: shell_execute_def run_then_eq_Some_Inr env_respects_def
        dest: kill log print intro: trans [OF kmalloc log])
qed

lemma typed:
  assumes env: "env_respects R env" and res: "type_key env ch s = Some (Inr t)"
  shows "R s t"
proof -
  obtain c u ports where u: "console_key_typed (shell_on_console env) ch (the_console s) s = Some (Inr (c, u, ports))"
    and t: "t = (if with_graphics env \<and> ports \<noteq> [] then ask_redraw (fold (\<lambda>(p, v). outb p v) ports (u\<lparr>the_console := c\<rparr>))
      else fold (\<lambda>(p, v). outb p v) ports (u\<lparr>the_console := c\<rparr>))"
    using res by (auto simp: type_key_def Let_def run_then_eq_Some_Inr)
  have "R s v" if r: "shell_on_console env code d s = Some (Inr (f, v))" for code d f v
    using r by (auto simp: shell_on_console_def run_then_eq_Some_Inr intro: trans [OF console shell [OF env]])
  then have "R s u" using u
    by (auto simp: console_key_typed_def run_then_eq_Some_Inr refl split: option.splits if_splits)
  moreover have "R u (fold (\<lambda>(p, v). outb p v) ports (u\<lparr>the_console := c\<rparr>))" by (rule trans [OF console outs])
  ultimately have "R s (fold (\<lambda>(p, v). outb p v) ports (u\<lparr>the_console := c\<rparr>))" by (rule trans)
  then show ?thesis by (auto simp: t intro: trans [OF _ redraw])
qed

lemma dispatched:
  assumes env: "env_respects R env" and res: "handle_event env e s = Some (Inr t)"
  shows "R s t"
proof -
  obtain s1 s2 where 1: "(if ev_type e = EVENT_MOUSE_MOVE then
           (case get_window (window_under_cursor (push_cli s)) of
              None \<Rightarrow> Inr (push_cli s) | Some i \<Rightarrow> send_event_to_task (owner_task (windows (push_cli s) ! i)) e (push_cli s))
         else Inr (push_cli s)) = Inr s1"
    and 2: "(if ev_type e = EVENT_MOUSE_CLICK \<or> ev_type e = EVENT_KEYBOARD then
           (case get_window (focused_window s1) of
              Some i \<Rightarrow> Some (send_event_to_task (owner_task (windows s1 ! i)) e s1)
            | None \<Rightarrow>
                if ev_type e = EVENT_KEYBOARD \<and> drop_bit 7 (data0 e) = 0 \<and> data1 e \<noteq> 0
                then type_key env (ucast (data1 e)) s1 else Some (Inr s1))
         else Some (Inr s1)) = Some (Inr s2)"
    and 3: "pop_cli s2 = Inr t"
    using res unfolding handle_event_def Let_def run_then_eq_Some_Inr by blast
  have "R (push_cli s) s1" using 1 by (auto simp: refl split: if_splits option.splits dest: send)
  moreover have "R s1 s2" using 2 by (auto simp: refl split: if_splits option.splits dest: send typed [OF env])
  ultimately show ?thesis using trans [OF push trans [OF _ trans [OF _ pop [OF 3]]]] by blast
qed

lemma frame_clicked:
  assumes "click_frame s = Some (Inr t)"
  shows "R s t"
  using assms
  by (auto simp: click_frame_def Let_def run_then_eq_Some_Inr refl split: if_splits
      intro: trans [OF trans [OF destroy kill] closed])

lemma clicked:
  assumes env: "env_respects R env" and res: "handle_left_click env s = Some (Inr t)"
  shows "R s t"
proof -
  obtain s1 s5 where 1: "(if on_testbutton s then start_task env (cstr ''files.exe'') s else Some (Inr s)) = Some (Inr s1)"
    and 2: "(if window_under_cursor s1 \<noteq> - 1 then
          run_then (Some (move_window_to_front (window_under_cursor (s1\<lparr>focused_window := window_under_cursor s1\<rparr>)) (s1\<lparr>focused_window := window_under_cursor s1\<rparr>))) (\<lambda>s3.
          run_then
            (if inside_content s3 then
               run_then (Some (window_index (window_under_cursor s3))) (\<lambda>i.
               handle_event env (content_event EVENT_MOUSE_CLICK i 1 s3) s3)
             else click_frame s3) (\<lambda>s4.
          Some (Inr (s4\<lparr>currently_dragging_window := window_under_cursor s4\<rparr>))))
        else Some (Inr (s1\<lparr>focused_window := window_under_cursor s1\<rparr>))) = Some (Inr s5)"
    and t: "t = ask_redraw s5"
    using res by (auto simp: handle_left_click_def Let_def run_then_eq_Some_Inr)
  have "R s s1" using 1 env by (auto simp: env_respects_def refl split: if_splits)
  moreover have "R s1 s5"
  proof (cases "window_under_cursor s1 \<noteq> - 1")
    case False
    with 2 show ?thesis by (auto simp: focus)
  next
    case True
    with 2 obtain s3 s4 where 3: "move_window_to_front (window_under_cursor s1) (s1\<lparr>focused_window := window_under_cursor s1\<rparr>) = Inr s3"
      and 4: "(if inside_content s3 then run_then (Some (window_index (window_under_cursor s3))) (\<lambda>i.
               handle_event env (content_event EVENT_MOUSE_CLICK i 1 s3) s3) else click_frame s3) = Some (Inr s4)"
      and 5: "s5 = s4\<lparr>currently_dragging_window := window_under_cursor s4\<rparr>"
      by (auto simp: run_then_eq_Some_Inr)
    have "R s3 s4" using 4
      by (auto simp: run_then_eq_Some_Inr split: if_splits dest: dispatched [OF env] frame_clicked)
    then show ?thesis unfolding 5 by (rule trans [OF trans [OF focus front [OF 3]] trans [OF _ dragging]])
  qed
  ultimately show ?thesis unfolding t using trans [OF trans redraw] by blast
qed

lemma buttons_handled:
  assumes env: "env_respects R env" and res: "handle_buttons env s = Some (Inr t)"
  shows "R s t"
  using res by (auto simp: handle_buttons_def run_then_eq_Some_Inr refl buttons split: if_splits
      intro: trans [OF clicked [OF env] buttons] trans [OF dragging buttons])

lemma looked: "look_under_cursor s = Inr t \<Longrightarrow> R s t"
  by (auto simp: look_under_cursor_def Let_def res_eq_Inr refl under split: if_splits)

lemma reported:
  assumes env: "env_respects R env" and res: "report_motion env s = Some (Inr t)"
  shows "R s t"
proof (cases "gui_cursor_x (the_gui s) - prev_cursor_x (the_gui s) \<noteq> 0 \<or> gui_cursor_y (the_gui s) - prev_cursor_y (the_gui s) \<noteq> 0")
  case False
  with res show ?thesis by (auto simp: report_motion_def Let_def refl)
next
  case True
  from True res obtain u where u: "(if currently_dragging_window (ask_redraw s) \<noteq> - 1 then
             run_then (Some (window_index (currently_dragging_window (ask_redraw s)))) (\<lambda>i. Some (Inr (drag_window i
               (gui_cursor_x (the_gui s) - prev_cursor_x (the_gui s)) (gui_cursor_y (the_gui s) - prev_cursor_y (the_gui s)) (ask_redraw s))))
           else if inside_content (ask_redraw s) then
             run_then (Some (window_index (window_under_cursor (ask_redraw s)))) (\<lambda>i.
             handle_event env (content_event EVENT_MOUSE_MOVE i 0 (ask_redraw s)) (ask_redraw s))
           else Some (Inr (ask_redraw s))) = Some (Inr u)"
    and t: "t = u\<lparr>the_gui := (the_gui u)\<lparr>prev_cursor_x := gui_cursor_x (the_gui u), prev_cursor_y := gui_cursor_y (the_gui u)\<rparr>\<rparr>"
    unfolding report_motion_def Let_def by (auto simp: run_then_eq_Some_Inr)
  have "R (ask_redraw s) u" using u
    by (auto simp: run_then_eq_Some_Inr drag_window_def refl window split: if_splits dest: dispatched [OF env])
  then show ?thesis unfolding t by (rule trans [OF trans [OF redraw] previous])
qed

end

lemma move_to_front_pointer: "move_window_to_front w s = Inr t \<Longrightarrow> same_pointer s t"
  by (auto simp: move_window_to_front_def same_pointer_def res_eq_Inr split: if_splits option.splits)

lemma destroy_window_pointer:
  assumes "destroy_window w s = Some (Inr t)"
  shows "same_pointer s t"
proof -
  obtain i s1 s3 where 1: "sharedmem_destroy (scast (fb_shmem_id (windows s ! i))) s = Some (Inr s1)"
    and 3: "(case z_order_find_index w (upd_window i (\<lambda>_. no_window) s1) of None \<Rightarrow> Inr (upd_window i (\<lambda>_. no_window) s1)
      | Some k \<Rightarrow> z_order_remove_at k (upd_window i (\<lambda>_. no_window) s1)) = Inr s3"
    and t: "t = ask_redraw s3"
    using assms by (auto simp: destroy_window_def Let_def run_then_eq_Some_Inr)
  have "same_pointer s s1" using 1 by (intro same_pointer_kern sharedmem_destroy_kern)
  then show ?thesis using 3
    by (auto simp: t same_pointer_def ask_redraw_def upd_window_def z_order_remove_at_def res_eq_Inr split: option.splits)
qed

interpretation pointer: desktop_relation same_pointer
  by unfold_locales
    (auto intro: same_pointer_trans same_pointer_kern [OF kmalloc_kern] same_pointer_kern [OF kill_task_kern] same_pointer_kern [OF send_event_kern]
      same_pointer_kern [OF push_cli_kern] same_pointer_kern [OF pop_cli_kern] move_to_front_pointer destroy_window_pointer,
     simp_all add: same_pointer_def outb_def ask_redraw_def upd_window_def)

text \<open>Starting a task and listing the root directory leave the pointer and the screen alone.\<close>

definition env_ok :: "'a gui_state_scheme environment \<Rightarrow> bool" where
  "env_ok = env_respects same_pointer"

lemma report_motion_previous:
  assumes "report_motion env s = Some (Inr t)"
  shows "prev_cursor_x (the_gui t) = gui_cursor_x (the_gui t) \<and> prev_cursor_y (the_gui t) = gui_cursor_y (the_gui t)"
  using assms unfolding report_motion_def Let_def by (auto simp: run_then_eq_Some_Inr split: if_splits)

lemma report_idle:
  assumes "currently_dragging_window v = - 1" and "\<not> inside_content v"
  shows "\<exists>t. report_motion env v = Some (Inr t) \<and> same_pointer v t \<and> window_under_cursor t = window_under_cursor v \<and>
    windows t = windows v \<and> window_z_order t = window_z_order v \<and> z_order_length t = z_order_length v"
  using assms unfolding report_motion_def Let_def
  by (cases "gui_cursor_x (the_gui v) - prev_cursor_x (the_gui v) \<noteq> 0 \<or> gui_cursor_y (the_gui v) - prev_cursor_y (the_gui v) \<noteq> 0")
    (simp_all add: ask_redraw_def same_pointer_def)

text \<open>A round in which no button changes, nothing is dragged and the cursor moves straight.\<close>

lemma straight_round:
  assumes y: "gui_cursor_y (the_gui (move_cursor s)) = prev_cursor_y (the_gui s)"
    and idle: "prev_mouse_left s = left_click (the_gui s)" "prev_mouse_right s = right_click (the_gui s)"
      "currently_dragging_window s = - 1" "\<not> inside_content s"
  shows "\<exists>t. gui_handle_events env s = Some (Inr t) \<and> same_pointer (move_cursor s) t \<and>
    window_under_cursor t = window_under_cursor s \<and> windows t = windows s \<and>
    window_z_order t = window_z_order s \<and> z_order_length t = z_order_length s"
proof -
  let ?u = "move_cursor s"
  have keep: "prev_cursor_y (the_gui ?u) = prev_cursor_y (the_gui s)" "prev_mouse_left ?u = left_click (the_gui ?u)"
    "prev_mouse_right ?u = right_click (the_gui ?u)" "currently_dragging_window ?u = - 1" "\<not> inside_content ?u"
    "window_under_cursor ?u = window_under_cursor s" "windows ?u = windows s" "window_z_order ?u = window_z_order s"
    "z_order_length ?u = z_order_length s"
    using idle by (simp_all add: move_cursor_def Let_def)
  have "look_under_cursor ?u = Inr ?u" using y keep(1) by (simp add: look_under_cursor_def Let_def)
  moreover have "handle_buttons env ?u = Some (Inr ?u)" using keep by (simp add: handle_buttons_def)
  moreover obtain t where "report_motion env (?u\<lparr>the_gui := (the_gui ?u)\<lparr>left_click := left_button (the_mouse ?u),
       right_click := right_button (the_mouse ?u)\<rparr>\<rparr>) = Some (Inr t)" "same_pointer ?u t" "window_under_cursor t = window_under_cursor ?u"
    "windows t = windows ?u" "window_z_order t = window_z_order ?u" "z_order_length t = z_order_length ?u"
    using report_idle [of "?u\<lparr>the_gui := (the_gui ?u)\<lparr>left_click := left_button (the_mouse ?u),
       right_click := right_button (the_mouse ?u)\<rparr>\<rparr>" env] keep(4,5) by (auto simp: same_pointer_def)
  ultimately show ?thesis using keep by (auto simp: gui_handle_events_def)
qed

section \<open>Properties\<close>

text \<open>C27: The mouse driver follows the stream of a mouse. The first byte that arrives after \<open>init_mouse\<close>
  is the acknowledgement of its command, and the driver reads buttons and movement from the
  second byte on: after any number of packets the horizontal counter is the sum of all
  horizontal movements, the buttons are those of the last packet, and the vertical counter
  lags behind by exactly one packet (and holds the acknowledgement as a movement). The counters
  are \<open>int32_t\<close>: the sums are exact while they fit and wrap around (\<open>wrap32\<close>) when they do not.\<close>

theorem mouse_stream:
  assumes "ps \<noteq> []"
  shows "\<exists>m g'. feed (ack # concat (map packet_bytes ps)) init_mouse g = Inr (m, g') \<and>
    x_acc m = wrap32 (sum_list (map dx ps)) \<and> y_acc m = wrap32 (- (sint ack + sum_list (map dy (butlast ps)))) \<and>
    (\<bar>sum_list (map dx ps)\<bar> < 2 ^ 31 \<longrightarrow> x_acc m = sum_list (map dx ps)) \<and>
    (\<bar>sint ack + sum_list (map dy (butlast ps))\<bar> < 2 ^ 31 \<longrightarrow> y_acc m = - (sint ack + sum_list (map dy (butlast ps)))) \<and>
    left_button m = (fst (last ps) AND 1 \<noteq> 0) \<and> right_button m = (fst (last ps) AND 2 \<noteq> 0)"
proof -
  have 1: "mouse_byte ack init_mouse g = Inr (init_mouse\<lparr>packet := [ack, 0, 0], packet_index := 1\<rparr>, g)"
    by (simp add: mouse_byte_def init_mouse_def PACKET_BYTES_def numeral_3_eq_3)
  have "shifted (init_mouse\<lparr>packet := [ack, 0, 0], packet_index := 1\<rparr>) ack" by (simp add: shifted_def)
  from feed_packets [OF this, of ps g] show ?thesis using assms 1 by (auto simp: init_mouse_def abs_less_iff intro!: wrap32_small)
qed

theorem mouse_stream_witness:
  "\<exists>m g'. feed [0xFA, 9, 5, 7, 8, 2, 1] init_mouse (the_gui example_gui) = Inr (m, g') \<and> x_acc m = 7 \<and> y_acc m = - 1"
  using mouse_stream [of "[(9, 5, 7), (8, 2, 1)]" "0xFA" "the_gui example_gui"]
  by (auto simp: packet_bytes_def dx_def dy_def wrap32_def)

text \<open>C28: The cursor stays on the screen. Whatever the mouse counters hold (a sum that does not fit wraps around), after a round of
  \<open>gui_handle_events\<close> (clicks, dragging, closing windows and the shell included) the cursor is
  inside the screen, and the previous position is the current one. What the desktop starts (\<open>env_ok\<close>) does not move
  the pointer: for \<open>create_user_task\<close> and the listing of the root directory the theory \<open>System\<close> shows this
  (\<open>starts_programs_env_ok\<close>).\<close>

theorem cursor_stays_on_screen:
  assumes "screen_ok s" and "env_ok env"
    and "gui_handle_events env s = Some (Inr t)"
  shows "cursor_on_screen t \<and> prev_cursor_x (the_gui t) = gui_cursor_x (the_gui t) \<and> prev_cursor_y (the_gui t) = gui_cursor_y (the_gui t)"
proof -
  obtain s1 s2 where 1: "look_under_cursor (move_cursor s) = Inr s1" and 2: "handle_buttons env s1 = Some (Inr s2)"
    and 3: "report_motion env (s2\<lparr>the_gui := (the_gui s2)\<lparr>left_click := left_button (the_mouse s2),
       right_click := right_button (the_mouse s2)\<rparr>\<rparr>) = Some (Inr t)"
    using assms(3) unfolding gui_handle_events_def run_then_eq_Some_Inr by auto
  have "cursor_on_screen (move_cursor s)"
  proof -
    have "wrap32 v < 2 ^ 32" for v by (rule less_trans [OF wrap32_bounds(2)]) simp
    then show ?thesis using assms(1) keep_below_bounds unfolding screen_ok_def
      by (auto simp: cursor_on_screen_def move_cursor_def Let_def)
  qed
  moreover note pointer.looked [OF 1] pointer.buttons_handled [OF _ 2] pointer.reported [OF _ 3] assms(2)
    report_motion_previous [OF 3]
  ultimately show ?thesis by (auto simp: cursor_on_screen_def same_pointer_def env_ok_def)
qed

definition example_env :: "gui_state environment" where
  "example_env = \<lparr>start_task = (\<lambda>_ s. Some (Inr s)), list_root = (\<lambda>s. Some (Inr s)), write_log = (\<lambda>_ _ c. Inr c),
     with_graphics = True\<rparr>"

text \<open>The desktop with two windows, after the mouse has moved to the right.\<close>

definition moved_gui :: "int \<Rightarrow> gui_state" where
  "moved_gui d = example_gui\<lparr>the_mouse := (the_mouse example_gui)\<lparr>x_acc := d\<rparr>\<rparr>"

lemma moved_gui_simps:
  "the_gui (moved_gui d) = \<lparr>gui_width = 4, gui_height = 3, gui_cursor_x = 2, gui_cursor_y = 1, prev_cursor_x = 2,
     prev_cursor_y = 1, needs_redraw = False, left_click = False, right_click = False\<rparr>"
  "the_mouse (moved_gui d) = \<lparr>x_acc = d, y_acc = 0, left_button = False, right_button = False, packet = [0, 0, 0], packet_index = 0\<rparr>"
  "ctx_width (graphics (moved_gui d)) = 4" "ctx_height (graphics (moved_gui d)) = 3"
  "currently_dragging_window (moved_gui d) = - 1" "inside_content (moved_gui d) = False"
  "prev_mouse_left (moved_gui d) = False" "prev_mouse_right (moved_gui d) = False"
  by (simp_all add: moved_gui_def example_gui_def kern_state.extend_def gui_state.fields_def sgfx_init_def)

theorem cursor_stays_on_screen_witness:
  "\<exists>t. gui_handle_events example_env (moved_gui 500) = Some (Inr t) \<and> cursor_on_screen t"
proof -
  have env: "env_ok example_env" by (simp add: env_ok_def env_respects_def example_env_def)
  have "gui_cursor_y (the_gui (move_cursor (moved_gui 500))) = 1"
    by (simp add: moved_gui_simps move_cursor_def keep_below_def Let_def word_le_nat_alt wrap32_def)
  then obtain t where t: "gui_handle_events example_env (moved_gui 500) = Some (Inr t)"
    using straight_round [of "moved_gui 500" example_env] by (auto simp: moved_gui_simps)
  show ?thesis using cursor_stays_on_screen [OF _ env t] t
    by (simp add: screen_ok_def moved_gui_simps)
qed

text \<open>A straight motion goes unnoticed. When the cursor moves along one axis only, the desktop does
  not look for the window under it: on this desktop with a window from 10 to 72 and one in
  front of it from 40 to 102, the cursor moves from the first to the right, where only the second
  is, and the first is still taken for the window under the cursor.\<close>

theorem straight_motion_unnoticed:
  "\<exists>s t. z_ok s \<and> gui_cursor_x (the_gui s) = 20 \<and> gui_cursor_y (the_gui s) = 20 \<and> x_acc (the_mouse s) = 70 \<and>
     find_window_from_pos 20 20 s = Inr (0, False) \<and> window_under_cursor s = 0 \<and>
     gui_handle_events example_env s = Some (Inr t) \<and> gui_cursor_x (the_gui t) = 90 \<and> gui_cursor_y (the_gui t) = 20 \<and>
     find_window_from_pos 90 20 t = Inr (1, False) \<and> window_under_cursor t = 0"
proof -
  define s where "s = example_gui\<lparr>window_under_cursor := 0, graphics := sgfx_init [] 200 100,
      the_gui := (the_gui example_gui)\<lparr>gui_cursor_x := 20, gui_cursor_y := 20, prev_cursor_x := 20, prev_cursor_y := 20\<rparr>,
      the_mouse := (the_mouse example_gui)\<lparr>x_acc := 70\<rparr>\<rparr>"
  have ok: "z_ok s" using example_z_ok by (simp add: s_def z_ok_def z_list_def open_windows_def)
  have facts: "gui_cursor_x (the_gui s) = 20" "gui_cursor_y (the_gui s) = 20" "prev_cursor_x (the_gui s) = 20"
    "prev_cursor_y (the_gui s) = 20" "left_click (the_gui s) = False" "right_click (the_gui s) = False"
    "x_acc (the_mouse s) = 70" "y_acc (the_mouse s) = 0"
    "ctx_width (graphics s) = 200" "ctx_height (graphics s) = 100" "currently_dragging_window s = - 1" "inside_content s = False"
    "prev_mouse_left s = False" "prev_mouse_right s = False" "window_under_cursor s = 0"
    by (simp_all add: s_def example_gui_def kern_state.extend_def gui_state.fields_def sgfx_init_def)
  have win: "windows s = windows example_gui" and zl: "z_list s = [1, 0]"
    using example_z_list by (simp_all add: s_def z_list_def)
  have find: "find_window_from_pos x 20 u = Inr (if x = 20 then 0 else 1, False)"
    if "z_ok u" "z_list u = [1, 0]" "windows u = windows example_gui" "x = 20 \<or> x = 90" for x and u :: gui_state
    using that unfolding find_window_eq [OF that(1)]
    by (auto simp: example_windows MAX_WINDOWS_def window_hit_def example_window_def no_window_def WINDOW_CONTENT_YOFFSET_def)
  have moved: "gui_cursor_x (the_gui (move_cursor s)) = 90" "gui_cursor_y (the_gui (move_cursor s)) = 20"
    by (simp_all add: move_cursor_def Let_def keep_below_def facts word_le_nat_alt wrap32_def)
  obtain t where t: "gui_handle_events example_env s = Some (Inr t)" "same_pointer (move_cursor s) t"
    "window_under_cursor t = window_under_cursor s" "windows t = windows s" "window_z_order t = window_z_order s" "z_order_length t = z_order_length s"
    using straight_round [of s example_env] moved facts by auto
  have "z_ok t" "z_list t = [1, 0]" "windows t = windows example_gui"
    using ok zl win t(4-6) by (simp_all add: z_ok_def z_list_def open_windows_def)
  note find' = find [OF this]
  have "gui_cursor_x (the_gui t) = 90" "gui_cursor_y (the_gui t) = 20" using t(2) moved by (simp_all add: same_pointer_def)
  then show ?thesis using ok t(1,3) facts find [OF ok zl win, of 20] find' [of 90] by (intro exI [of _ s] exI [of _ t]) simp
qed

end
