(* ===== verification/Descriptors.thy ===== *)
theory Descriptors
  imports Cpu
begin

text \<open>
  The protection tables: segment descriptors (\<open>kernel/gdt.c\<close>), interrupt gates and the remapping
  of the interrupt controllers (\<open>kernel/interrupts.c\<close>). The tables are lists of the packed
  structures; how the CPU reads an entry is defined here as well. The addresses of the
  assembler entry points and of the task state segment come from the linker and are arguments.
\<close>

section \<open>Segment descriptors\<close>

record gdt_entry =
  limit_low :: u16
  base_low :: u16
  base_mid :: u8
  access :: u8
  granularity :: u8
  base_high :: u8

definition NUM_GDT_ENTRIES :: nat where "NUM_GDT_ENTRIES = 6"

definition no_gdt_entry :: gdt_entry where
  "no_gdt_entry = \<lparr>limit_low = 0, base_low = 0, base_mid = 0, access = 0, granularity = 0, base_high = 0\<rparr>"

definition set_gdt_entry :: "nat \<Rightarrow> u32 \<Rightarrow> u32 \<Rightarrow> u8 \<Rightarrow> u8 \<Rightarrow> gdt_entry list \<Rightarrow> gdt_entry list res" where
  "set_gdt_entry i base limit acc flags es =
     in_bounds i (length es)
       (Inr (es[i := \<lparr>limit_low = ucast (limit AND 0xFFFF), base_low = ucast (base AND 0xFFFF),
          base_mid = ucast (drop_bit 16 base AND 0xFF), access = acc,
          granularity = ucast (drop_bit 16 limit AND 0x0F) OR (flags AND 0xF0),
          base_high = ucast (drop_bit 24 base AND 0xFF)\<rparr>]))"

text \<open>\<open>sizeof(tss)\<close> is 104.\<close>

definition setup_gdt :: "u32 \<Rightarrow> gdt_entry list res" where
  "setup_gdt tss =
     and_then (set_gdt_entry 0 0 0 0 0 (replicate NUM_GDT_ENTRIES no_gdt_entry)) (\<lambda>e0.
     and_then (set_gdt_entry 1 0 0xFFFFFFFF 0x9A 0xC0 e0) (\<lambda>e1.
     and_then (set_gdt_entry 2 0 0xFFFFFFFF 0x92 0xC0 e1) (\<lambda>e2.
     and_then (set_gdt_entry 3 0 0xFFFFFFFF 0xFA 0xC0 e2) (\<lambda>e3.
     and_then (set_gdt_entry 4 0 0xFFFFFFFF 0xF2 0xC0 e3) (\<lambda>e4.
     set_gdt_entry 5 tss 104 0x89 0x40 e4)))))"

text \<open>How the CPU reads a descriptor: base and limit are put together from their parts, the
  privilege level is in bits 5 and 6 of the access byte, and bit 7 says that it is present.\<close>

definition segment_base :: "gdt_entry \<Rightarrow> u32" where
  "segment_base e = ucast (base_low e) OR push_bit 16 (ucast (base_mid e)) OR push_bit 24 (ucast (base_high e))"

definition segment_limit :: "gdt_entry \<Rightarrow> u32" where
  "segment_limit e = ucast (limit_low e) OR push_bit 16 (ucast (granularity e AND 0x0F))"

definition segment_flags :: "gdt_entry \<Rightarrow> u8" where
  "segment_flags e = granularity e AND 0xF0"

definition access_dpl :: "u8 \<Rightarrow> u8" where
  "access_dpl a = drop_bit 5 a AND 3"

definition access_present :: "u8 \<Rightarrow> bool" where
  "access_present a \<longleftrightarrow> bit a 7"

text \<open>The type: bit 4 tells code and data segments from system segments, bit 3 code from data. A code
  segment may be conforming (entered without a change of privilege) and readable, a data segment
  may grow downwards and be writable. Bit 7 of the granularity byte counts the limit in pages, bit 6
  makes the segment a 32 bit one, bit 5 belongs to 64 bit mode.\<close>

datatype segment_kind =
    Code_Segment (conforming: bool) (readable: bool)
  | Data_Segment (expand_down: bool) (writable: bool)
  | System_Segment u8

definition kind_of :: "u8 \<Rightarrow> segment_kind" where
  "kind_of a = (if bit a 4 then (if bit a 3 then Code_Segment (bit a 2) (bit a 1) else Data_Segment (bit a 2) (bit a 1))
     else System_Segment (a AND 0x0F))"

text \<open>The last offset inside the segment.\<close>

definition segment_last :: "gdt_entry \<Rightarrow> u32" where
  "segment_last e = (if bit (granularity e) 7 then push_bit 12 (segment_limit e) OR 0xFFF else segment_limit e)"

text \<open>A present 32 bit segment over the whole of the 4 GiB, of a type and a privilege level.\<close>

definition flat_segment :: "segment_kind \<Rightarrow> u8 \<Rightarrow> gdt_entry \<Rightarrow> bool" where
  "flat_segment k ring e \<longleftrightarrow> access_present (access e) \<and> kind_of (access e) = k \<and> access_dpl (access e) = ring \<and>
     segment_base e = 0 \<and> segment_last e = 0xFFFFFFFF \<and> bit (granularity e) 6 \<and> \<not> bit (granularity e) 5"

text \<open>The descriptor that a selector names.\<close>

definition selected :: "u16 \<Rightarrow> gdt_entry list \<Rightarrow> gdt_entry" where
  "selected sel es = es ! unat (drop_bit 3 sel)"

section \<open>Interrupt gates\<close>

record idt_entry =
  isr_low :: u16
  kernel_cs :: u16
  reserved :: u8
  attributes :: u8
  isr_high :: u16

definition no_idt_entry :: idt_entry where
  "no_idt_entry = \<lparr>isr_low = 0, kernel_cs = 0, reserved = 0, attributes = 0, isr_high = 0\<rparr>"

definition set_idt_entry :: "u8 \<Rightarrow> u32 \<Rightarrow> u8 \<Rightarrow> idt_entry list \<Rightarrow> idt_entry list" where
  "set_idt_entry vector isr attrs idt =
     idt[unat vector := \<lparr>isr_low = ucast (isr AND 0xFFFF), kernel_cs = 0x08, reserved = 0, attributes = attrs,
       isr_high = ucast (drop_bit 16 isr)\<rparr>]"

definition remap_pic :: "'a cpu_state_scheme \<Rightarrow> 'a cpu_state_scheme" where
  "remap_pic s =
     fold (\<lambda>(port, v). outb port v)
       [(0x20, 0x11), (0xA0, 0x11), (0x21, 0x20), (0xA1, 0x28), (0x21, 0x04), (0xA1, 0x02),
        (0x21, 0x01), (0xA1, 0x01), (0x21, 0x00), (0xA1, 0x00)] s"

text \<open>The table that \<open>setup_interrupts\<close> loads, from the 48 redirect entries and \<open>isr128\<close>.\<close>

definition setup_idt :: "(nat \<Rightarrow> u32) \<Rightarrow> u32 \<Rightarrow> idt_entry list" where
  "setup_idt isr_redirect_table isr128 =
     set_idt_entry 0x80 isr128 0xEE
       (fold (\<lambda>i. set_idt_entry (of_nat i) (isr_redirect_table i) 0x8E) [0..<48] (replicate 256 no_idt_entry))"

definition gate_offset :: "idt_entry \<Rightarrow> u32" where
  "gate_offset e = ucast (isr_low e) OR push_bit 16 (ucast (isr_high e))"

text \<open>The kind of a gate: \<open>0x0E\<close> is a 32 bit interrupt gate (one that switches interrupts off), bit 4 is
  clear in every gate.\<close>

definition gate_type :: "u8 \<Rightarrow> u8" where
  "gate_type a = a AND 0x1F"

section \<open>What the CPU reads back\<close>

lemma high_half: "push_bit 16 (ucast (ucast (drop_bit 16 x :: u32) :: u16)) OR ucast (ucast (x AND 0xFFFF) :: u16) = x"
proof -
  have m: "(0xFFFF :: u32) = mask 16" by (simp add: mask_eq_exp_minus_1)
  show ?thesis unfolding m by (rule bit_word_eqI) (auto simp: bit_simps)
qed

lemma three_parts:
  "ucast (ucast (x AND 0xFFFF) :: u16) OR push_bit 16 (ucast (ucast (drop_bit 16 x AND 0xFF) :: u8)) OR
     push_bit 24 (ucast (ucast (drop_bit 24 x AND 0xFF) :: u8)) = (x :: u32)"
proof -
  have m: "(0xFFFF :: u32) = mask 16" "(0xFF :: u32) = mask 8" by (simp_all add: mask_eq_exp_minus_1)
  show ?thesis unfolding m
  proof (rule bit_word_eqI)
    fix n assume "n < LENGTH(32)"
    then show "bit (ucast (ucast (x AND mask 16) :: u16) OR push_bit 16 (ucast (ucast (drop_bit 16 x AND mask 8) :: u8)) OR
        push_bit 24 (ucast (ucast (drop_bit 24 x AND mask 8) :: u8)) :: u32) n = bit x n"
      by (cases "n < 24") (auto simp: bit_simps)
  qed
qed

lemma limit_parts:
  "ucast (ucast (x AND 0xFFFF) :: u16) OR
     push_bit 16 (ucast ((ucast (drop_bit 16 x AND 0x0F) OR (f AND 0xF0)) AND 0x0F :: u8)) = (x :: u32) AND 0xFFFFF"
proof -
  have m: "(0xFFFF :: u32) = mask 16" "(0x0F :: u32) = mask 4" "(0x0F :: u8) = mask 4" "(0xFFFFF :: u32) = mask 20"
    "(0xF0 :: u8) = push_bit 4 (mask 4)"
    by (simp_all add: mask_eq_exp_minus_1 push_bit_eq_mult)
  show ?thesis unfolding m by (rule bit_word_eqI) (auto simp: bit_simps)
qed

lemma flag_part: "(ucast (y AND 0x0F :: u32) OR (f AND 0xF0)) AND 0xF0 = (f :: u8) AND 0xF0"
proof -
  have m: "(0x0F :: u32) = mask 4" "(0xF0 :: u8) = push_bit 4 (mask 4)"
    by (simp_all add: mask_eq_exp_minus_1 push_bit_eq_mult)
  show ?thesis unfolding m by (rule bit_word_eqI) (auto simp: bit_simps)
qed

lemma set_gdt_entry_decodes:
  assumes "i < length es"
  obtains e where "set_gdt_entry i base limit acc flags es = Inr (es[i := e])" "segment_base e = base"
    "segment_limit e = limit AND 0xFFFFF" "access e = acc" "segment_flags e = flags AND 0xF0"
  using assms
  by (simp add: set_gdt_entry_def segment_base_def segment_limit_def segment_flags_def three_parts limit_parts flag_part)

lemma gate_offset_set:
  "unat v < length idt \<Longrightarrow> gate_offset (set_idt_entry v isr a idt ! unat v) = isr"
  by (simp add: set_idt_entry_def gate_offset_def high_half or.commute)

section \<open>The tables after the start\<close>

lemma flags_bits:
  assumes "segment_flags e = f AND 0xF0" and "4 \<le> n" and "n < 8"
  shows "bit (granularity e) n = bit f n"
proof -
  have m: "(0xF0 :: u8) = push_bit 4 (mask 4)" by (simp add: mask_eq_exp_minus_1 push_bit_eq_mult)
  from assms(1) have "bit (granularity e AND 0xF0) n = bit (f AND 0xF0) n" by (simp add: segment_flags_def)
  moreover have "n - 4 < 4" using assms(2,3) by simp
  ultimately show ?thesis using assms(2,3) unfolding m by (auto simp: bit_simps)
qed

lemma setup_gdt_table:
  "\<exists>es. setup_gdt tss = Inr es \<and> length es = 6 \<and> es ! 0 = no_gdt_entry \<and>
     segment_base (es ! 1) = 0 \<and> segment_limit (es ! 1) = 0xFFFFF \<and> access (es ! 1) = 0x9A \<and> segment_flags (es ! 1) = 0xC0 \<and>
     segment_base (es ! 2) = 0 \<and> segment_limit (es ! 2) = 0xFFFFF \<and> access (es ! 2) = 0x92 \<and> segment_flags (es ! 2) = 0xC0 \<and>
     segment_base (es ! 3) = 0 \<and> segment_limit (es ! 3) = 0xFFFFF \<and> access (es ! 3) = 0xFA \<and> segment_flags (es ! 3) = 0xC0 \<and>
     segment_base (es ! 4) = 0 \<and> segment_limit (es ! 4) = 0xFFFFF \<and> access (es ! 4) = 0xF2 \<and> segment_flags (es ! 4) = 0xC0 \<and>
     segment_base (es ! 5) = tss \<and> segment_limit (es ! 5) = 104 \<and> access (es ! 5) = 0x89 \<and> segment_flags (es ! 5) = 0x40"
  by (simp add: setup_gdt_def set_gdt_entry_def NUM_GDT_ENTRIES_def no_gdt_entry_def segment_base_def segment_limit_def
      segment_flags_def three_parts)

lemma gates_fold:
  fixes idt isr a and n :: nat
  defines "t \<equiv> fold (\<lambda>i. set_idt_entry (of_nat i) (isr i) a) [0..<n] idt"
  assumes "n \<le> 256" and "length idt = 256"
  shows "length t = 256 \<and> (\<forall>i<256. t ! i = (if i < n then set_idt_entry (of_nat i) (isr i) a idt ! i else idt ! i))"
  using assms(2) unfolding t_def
proof (induction n)
  case (Suc n)
  have u: "unat (of_nat n :: u8) = n" using Suc.prems by (simp add: unat_of_nat_small)
  have v: "unat (of_nat i :: u8) = i" if "i < 256" for i using that by (simp add: unat_of_nat_small)
  from Suc show ?case by (auto simp: set_idt_entry_def u v nth_list_update assms(3) less_Suc_eq)
qed (simp add: assms(3))

lemma setup_idt_nth:
  assumes "v < 256"
  shows "setup_idt isr sys ! v =
    (if v = 128 then set_idt_entry 0x80 sys 0xEE (replicate 256 no_idt_entry) ! 128
     else if v < 48 then set_idt_entry (of_nat v) (isr v) 0x8E (replicate 256 no_idt_entry) ! v else no_idt_entry)"
  using assms gates_fold [of 48 "replicate 256 no_idt_entry" isr "0x8E"]
  by (auto simp: setup_idt_def set_idt_entry_def nth_list_update)

lemma flat_segmentI:
  assumes "segment_base e = 0" "segment_limit e = 0xFFFFF" "access e = a" "segment_flags e = 0xC0"
    and "access_present a" "kind_of a = k" "access_dpl a = ring"
  shows "flat_segment k ring e"
  using assms flags_bits [of e "0xC0" 7] flags_bits [of e "0xC0" 6] flags_bits [of e "0xC0" 5]
  by (simp add: flat_segment_def segment_last_def)

text \<open>The descriptors as the CPU sees them.\<close>

definition gdt_ok :: "u32 \<Rightarrow> gdt_entry list \<Rightarrow> bool" where
  "gdt_ok tss gdt \<longleftrightarrow> length gdt = 6 \<and>
     \<not> access_present (access (selected 0x00 gdt)) \<and>
     flat_segment (Code_Segment False True) 0 (selected 0x08 gdt) \<and>
     flat_segment (Data_Segment False True) 0 (selected 0x10 gdt) \<and>
     flat_segment (Code_Segment False True) 3 (selected 0x18 gdt) \<and>
     flat_segment (Data_Segment False True) 3 (selected 0x20 gdt) \<and>
     access_present (access (selected 0x28 gdt)) \<and> kind_of (access (selected 0x28 gdt)) = System_Segment 9 \<and>
     access_dpl (access (selected 0x28 gdt)) = 0 \<and> segment_base (selected 0x28 gdt) = tss \<and> segment_last (selected 0x28 gdt) = 104"

text \<open>What the CPU does when the vector \<open>v\<close> is raised.\<close>

definition gate_ok :: "(nat \<Rightarrow> u32) \<Rightarrow> u32 \<Rightarrow> nat \<Rightarrow> idt_entry \<Rightarrow> bool" where
  "gate_ok isr_redirect_table isr128 v e \<longleftrightarrow>
     (if v < 48 \<or> v = 128
      then access_present (attributes e) \<and> gate_type (attributes e) = 0x0E \<and> reserved e = 0 \<and> kernel_cs e = 0x08 \<and>
        gate_offset e = (if v = 128 then isr128 else isr_redirect_table v) \<and>
        access_dpl (attributes e) = (if v = 128 then 3 else 0)
      else \<not> access_present (attributes e))"

lemma gdt_after_setup: "\<exists>gdt. setup_gdt tss = Inr gdt \<and> gdt_ok tss gdt"
proof -
  obtain gdt where g: "setup_gdt tss = Inr gdt" "length gdt = 6" "gdt ! 0 = no_gdt_entry"
    "segment_base (gdt ! 1) = 0" "segment_limit (gdt ! 1) = 0xFFFFF" "access (gdt ! 1) = 0x9A" "segment_flags (gdt ! 1) = 0xC0"
    "segment_base (gdt ! 2) = 0" "segment_limit (gdt ! 2) = 0xFFFFF" "access (gdt ! 2) = 0x92" "segment_flags (gdt ! 2) = 0xC0"
    "segment_base (gdt ! 3) = 0" "segment_limit (gdt ! 3) = 0xFFFFF" "access (gdt ! 3) = 0xFA" "segment_flags (gdt ! 3) = 0xC0"
    "segment_base (gdt ! 4) = 0" "segment_limit (gdt ! 4) = 0xFFFFF" "access (gdt ! 4) = 0xF2" "segment_flags (gdt ! 4) = 0xC0"
    "segment_base (gdt ! 5) = tss" "segment_limit (gdt ! 5) = 104" "access (gdt ! 5) = 0x89" "segment_flags (gdt ! 5) = 0x40"
    using setup_gdt_table [of tss] by blast
  have sel: "selected 0 gdt = gdt ! 0" "selected 8 gdt = gdt ! 1" "selected 0x10 gdt = gdt ! 2" "selected 0x18 gdt = gdt ! 3"
    "selected 0x20 gdt = gdt ! 4" "selected 0x28 gdt = gdt ! 5"
    by (simp_all add: selected_def unat_drop_bit)
  have "flat_segment (Code_Segment False True) 0 (gdt ! 1)" "flat_segment (Data_Segment False True) 0 (gdt ! 2)"
    "flat_segment (Code_Segment False True) 3 (gdt ! 3)" "flat_segment (Data_Segment False True) 3 (gdt ! 4)"
    by (rule flat_segmentI [OF g(4-7)] flat_segmentI [OF g(8-11)] flat_segmentI [OF g(12-15)] flat_segmentI [OF g(16-19)];
        simp add: access_present_def access_dpl_def kind_of_def)+
  moreover have "segment_last (gdt ! 5) = 104" using flags_bits [of "gdt ! 5" "0x40" 7] g(21,23) by (simp add: segment_last_def)
  ultimately show ?thesis using g(1-3,20,22)
    by (simp add: gdt_ok_def sel access_present_def access_dpl_def kind_of_def no_gdt_entry_def)
qed

lemma gates_after_setup:
  assumes "v < 256"
  shows "gate_ok isr_redirect_table isr128 v (setup_idt isr_redirect_table isr128 ! v)"
proof -
  have "unat (of_nat v :: u8) = v" using assms by (simp add: unat_of_nat_small)
  with assms show ?thesis
    by (auto simp: gate_ok_def setup_idt_nth set_idt_entry_def access_present_def access_dpl_def gate_type_def gate_offset_def
        high_half or.commute no_idt_entry_def)
qed

text \<open>C29: The protection tables. After \<open>setup_gdt\<close> the null descriptor is not present; selector
  \<open>0x08\<close> is a present, readable, non-conforming 32 bit code segment over the whole 4 GiB for
  privilege 0 and \<open>0x10\<close> a writable data segment of the same kind; \<open>0x18\<close> and \<open>0x20\<close>, the
  segments of user tasks, are the same for privilege 3; \<open>0x28\<close> is the available task state segment
  at the address of \<open>tss\<close>. After \<open>setup_interrupts\<close> a vector has a present gate exactly when it is one
  of the 48 exceptions and hardware interrupts or the system call vector 0x80; the gate is a 32 bit
  interrupt gate into the kernel code segment at the entry point of that vector. Code at
  privilege 3 may call the system call gate and no other.\<close>

theorem user_enters_by_syscall_only:
  "\<exists>gdt. setup_gdt tss = Inr gdt \<and> gdt_ok tss gdt \<and>
    (\<forall>v<256. gate_ok isr_redirect_table isr128 v (setup_idt isr_redirect_table isr128 ! v)) \<and>
    {v. v < 256 \<and> access_present (attributes (setup_idt isr_redirect_table isr128 ! v)) \<and>
      3 \<le> access_dpl (attributes (setup_idt isr_redirect_table isr128 ! v))} = {128}"
proof -
  have gates: "\<forall>v<256. gate_ok isr_redirect_table isr128 v (setup_idt isr_redirect_table isr128 ! v)"
    using gates_after_setup by blast
  then have "{v. v < 256 \<and> access_present (attributes (setup_idt isr_redirect_table isr128 ! v)) \<and>
      3 \<le> access_dpl (attributes (setup_idt isr_redirect_table isr128 ! v))} = {128}"
    by (fastforce simp: gate_ok_def split: if_splits)
  with gates gdt_after_setup show ?thesis by blast
qed

theorem user_enters_by_syscall_only_witness:
  "(128 :: nat) < 256 \<and> (\<exists>gdt. setup_gdt 0xC0001000 = Inr gdt \<and> segment_base (selected 0x28 gdt) = 0xC0001000 \<and>
     gate_offset (setup_idt (\<lambda>v. 0xC0100000 + 16 * of_nat v) 0xC0200000 ! 128) = 0xC0200000 \<and>
     kind_of (access (selected (kernel_cs (setup_idt (\<lambda>v. 0xC0100000 + 16 * of_nat v) 0xC0200000 ! 128)) gdt)) = Code_Segment False True)"
proof -
  obtain gdt where g: "setup_gdt 0xC0001000 = Inr gdt" "gdt_ok 0xC0001000 gdt"
    and all: "\<forall>v<256. gate_ok (\<lambda>v. 0xC0100000 + 16 * of_nat v) 0xC0200000 v (setup_idt (\<lambda>v. 0xC0100000 + 16 * of_nat v) 0xC0200000 ! v)"
    using user_enters_by_syscall_only [of "0xC0001000" "\<lambda>v. 0xC0100000 + 16 * of_nat v" "0xC0200000"] by blast
  have "(128 :: nat) < 256" by simp
  with all [rule_format, of 128] show ?thesis using g by (auto simp: gdt_ok_def gate_ok_def flat_segment_def)
qed

end
