(* ===== verification/Bytes.thy ===== *)
theory Bytes
  imports Paging_Dirs
begin

text \<open>
  Bytes, half words and words at any address, through the page tables: the view of memory of
  the code that works on byte pointers (the ELF loader, the file system's buffers, the routines
  of \<open>kernel/util.c\<close> on addresses). Memory is little-endian.
\<close>

section \<open>Loads and stores\<close>

definition byte_shift :: "u32 \<Rightarrow> nat" where
  "byte_shift a = 8 * unat (a AND 3)"

definition load8 :: "u32 \<Rightarrow> 'a vm_state_scheme \<Rightarrow> u8 res" where
  "load8 a s = and_then (vload a s) (\<lambda>w. Inr (ucast (drop_bit (byte_shift a) w)))"

definition put_byte_in :: "nat \<Rightarrow> u8 \<Rightarrow> u32 \<Rightarrow> u32" where
  "put_byte_in k v w = (w AND NOT (push_bit k 0xFF)) OR push_bit k (ucast v)"

definition store8 :: "u32 \<Rightarrow> u8 \<Rightarrow> 'a vm_state_scheme \<Rightarrow> 'a vm_state_scheme res" where
  "store8 a v s = and_then (vload a s) (\<lambda>w. vstore a (put_byte_in (byte_shift a) v w) s)"

definition load16 :: "u32 \<Rightarrow> 'a vm_state_scheme \<Rightarrow> u16 res" where
  "load16 a s =
     and_then (load8 a s) (\<lambda>b0.
     and_then (load8 (a + 1) s) (\<lambda>b1.
     Inr (ucast b0 OR push_bit 8 (ucast b1))))"

definition load32 :: "u32 \<Rightarrow> 'a vm_state_scheme \<Rightarrow> u32 res" where
  "load32 a s =
     and_then (load16 a s) (\<lambda>h0.
     and_then (load16 (a + 2) s) (\<lambda>h1.
     Inr (ucast h0 OR push_bit 16 (ucast h1))))"

definition store32 :: "u32 \<Rightarrow> u32 \<Rightarrow> 'a vm_state_scheme \<Rightarrow> 'a vm_state_scheme res" where
  "store32 a v s = for_res 0 4 (\<lambda>i. store8 (a + of_nat i) (ucast (drop_bit (8 * i) v))) s"

section \<open>Blocks\<close>

definition store_bytes :: "u32 \<Rightarrow> u8 list \<Rightarrow> 'a vm_state_scheme \<Rightarrow> 'a vm_state_scheme res" where
  "store_bytes a bs s = for_res 0 (length bs) (\<lambda>i. store8 (a + of_nat i) (bs ! i)) s"

text \<open>\<open>memset\<close> and \<open>memcpy\<close> on addresses; \<open>memcpy\<close> moves words first and then the rest.\<close>

definition mem_set :: "u32 \<Rightarrow> u8 \<Rightarrow> u32 \<Rightarrow> 'a vm_state_scheme \<Rightarrow> 'a vm_state_scheme res" where
  "mem_set dest val len s = for_res 0 (unat len) (\<lambda>i. store8 (dest + of_nat i) val) s"

definition mem_copy :: "u32 \<Rightarrow> u32 \<Rightarrow> u32 \<Rightarrow> 'a vm_state_scheme \<Rightarrow> 'a vm_state_scheme res" where
  "mem_copy dest src bytes s =
     (let dwords = unat (bytes div 4); k = 4 * of_nat dwords in
      and_then (for_res 0 dwords (\<lambda>i t.
        and_then (load32 (elem src i) t) (\<lambda>w. store32 (elem dest i) w t)) s)
      (for_res 0 (unat (bytes mod 4)) (\<lambda>i t.
        and_then (load8 (src + k + of_nat i) t) (\<lambda>b. store8 (dest + k + of_nat i) b t))))"

section \<open>Strings\<close>

text \<open>The bytes of the string at an address, without the terminating zero.\<close>

partial_function (option) mem_string :: "u32 \<Rightarrow> 'a vm_state_scheme \<Rightarrow> u8 list run" where
  "mem_string a s =
     run_then (Some (load8 a s)) (\<lambda>c.
     if c = 0 then Some (Inr [])
     else run_then (mem_string (a + 1) s) (\<lambda>cs. Some (Inr (c # cs))))"

text \<open>\<open>strcmp\<close> of two strings in memory, and of a string in memory with a literal.\<close>

partial_function (option) mem_strcmp :: "u32 \<Rightarrow> u32 \<Rightarrow> 'a vm_state_scheme \<Rightarrow> u32 run" where
  "mem_strcmp s1 s2 s =
     run_then (Some (load8 s1 s)) (\<lambda>a.
     run_then (Some (load8 s2 s)) (\<lambda>b.
     if a \<noteq> 0 \<and> b \<noteq> 0 \<and> a = b then mem_strcmp (s1 + 1) (s2 + 1) s
     else Some (Inr (scast a - scast b))))"

fun mem_equals :: "u32 \<Rightarrow> u8 list \<Rightarrow> 'a vm_state_scheme \<Rightarrow> bool res" where
  "mem_equals a [] s = Inl Out_Of_Bounds"
| "mem_equals a (b # bs) s =
     and_then (load8 a s) (\<lambda>c.
     if c \<noteq> 0 \<and> b \<noteq> 0 \<and> c = b then mem_equals (a + 1) bs s else Inr (c = b))"

section \<open>What they read back\<close>

lemma byte_shift_cases: "byte_shift a = 0 \<or> byte_shift a = 8 \<or> byte_shift a = 16 \<or> byte_shift a = 24"
proof -
  have "unat (a AND 3) < 4"
    using unat_and_mask_mod [of a 2] by (simp add: mask_eq_exp_minus_1)
  then have "unat (a AND 3) = 0 \<or> unat (a AND 3) = 1 \<or> unat (a AND 3) = 2 \<or> unat (a AND 3) = 3" by linarith
  then show ?thesis unfolding byte_shift_def by auto
qed

lemma get_put_byte:
  assumes "k = 0 \<or> k = 8 \<or> k = 16 \<or> k = 24" and "j = 0 \<or> j = 8 \<or> j = 16 \<or> j = 24"
  shows "ucast (drop_bit j (put_byte_in k v w)) = (if j = k then v else (ucast (drop_bit j w) :: u8))"
proof -
  have m: "(0xFF :: u32) = mask 8" by (simp add: mask_eq_exp_minus_1)
  show ?thesis unfolding put_byte_in_def m
    by (rule bit_word_eqI) (use assms in \<open>auto simp: bit_simps dest: bit_imp_le_length\<close>)
qed

lemma store_load8:
  assumes "store8 a v s = Inr t" and "\<And>x. translate t x = translate s x"
  shows "load8 a t = Inr v"
  using assms(1) get_put_byte [OF byte_shift_cases [of a] byte_shift_cases [of a]]
  by (auto simp: store8_def load8_def vload_def vstore_def res_eq_Inr put_word_def assms(2) split: option.splits)

end
