(* ===== verification/Elf.thy ===== *)
theory Elf
  imports Bytes Kern_State
begin

text \<open>
  Executables and shared libraries (\<open>kernel/elf.c\<close>, \<open>kernel/include/elf.h\<close>). A file has been read
  into memory at \<open>elf_raw\<close>; pointers into it are addresses, and every field of a header is read
  from memory when the code reads it, at its offset in the packed structure. Nothing in the file
  is checked beyond what the code checks: an offset outside the image reads whatever is mapped
  there, or faults.
\<close>

section \<open>The object\<close>

record elf_object =
  elf_mem :: u32
  elf_raw :: u32
  elf_size :: u32
  elf_entry :: u32
  elf_header :: u32
  dynamic_section :: u32
  dynamic_symbol_table :: u32
  dynamic_symbol_string_table :: u32
  got_section :: u32
  relocation_section :: u32
  dynamic_dependencies :: "u32 list"

definition no_elf :: elf_object where
  "no_elf = \<lparr>elf_mem = 0, elf_raw = 0, elf_size = 0, elf_entry = 0, elf_header = 0, dynamic_section = 0,
     dynamic_symbol_table = 0, dynamic_symbol_string_table = 0, got_section = 0, relocation_section = 0,
     dynamic_dependencies = replicate MAX_SHARED_LIBS_PER_TASK 0\<rparr>"

section \<open>Fields\<close>

text \<open>\<open>Elf32_Ehdr\<close>.\<close>

definition e_type :: "u32 \<Rightarrow> 'a vm_state_scheme \<Rightarrow> u16 res" where "e_type h = load16 (h + 16)"
definition e_entry :: "u32 \<Rightarrow> 'a vm_state_scheme \<Rightarrow> u32 res" where "e_entry h = load32 (h + 24)"
definition e_phoff :: "u32 \<Rightarrow> 'a vm_state_scheme \<Rightarrow> u32 res" where "e_phoff h = load32 (h + 28)"
definition e_shoff :: "u32 \<Rightarrow> 'a vm_state_scheme \<Rightarrow> u32 res" where "e_shoff h = load32 (h + 32)"
definition e_phentsize :: "u32 \<Rightarrow> 'a vm_state_scheme \<Rightarrow> u16 res" where "e_phentsize h = load16 (h + 42)"
definition e_phnum :: "u32 \<Rightarrow> 'a vm_state_scheme \<Rightarrow> u16 res" where "e_phnum h = load16 (h + 44)"
definition e_shentsize :: "u32 \<Rightarrow> 'a vm_state_scheme \<Rightarrow> u16 res" where "e_shentsize h = load16 (h + 46)"
definition e_shnum :: "u32 \<Rightarrow> 'a vm_state_scheme \<Rightarrow> u16 res" where "e_shnum h = load16 (h + 48)"
definition e_shstrndx :: "u32 \<Rightarrow> 'a vm_state_scheme \<Rightarrow> u16 res" where "e_shstrndx h = load16 (h + 50)"

text \<open>\<open>Elf32_Phdr\<close>.\<close>

definition p_type :: "u32 \<Rightarrow> 'a vm_state_scheme \<Rightarrow> u32 res" where "p_type p = load32 p"
definition p_offset :: "u32 \<Rightarrow> 'a vm_state_scheme \<Rightarrow> u32 res" where "p_offset p = load32 (p + 4)"
definition p_vaddr :: "u32 \<Rightarrow> 'a vm_state_scheme \<Rightarrow> u32 res" where "p_vaddr p = load32 (p + 8)"
definition p_filesz :: "u32 \<Rightarrow> 'a vm_state_scheme \<Rightarrow> u32 res" where "p_filesz p = load32 (p + 16)"
definition p_memsz :: "u32 \<Rightarrow> 'a vm_state_scheme \<Rightarrow> u32 res" where "p_memsz p = load32 (p + 20)"
definition p_flags :: "u32 \<Rightarrow> 'a vm_state_scheme \<Rightarrow> u32 res" where "p_flags p = load32 (p + 24)"

definition PT_LOAD :: u32 where "PT_LOAD = 1"
definition PF_W :: u32 where "PF_W = 2"

text \<open>\<open>Elf32_Shdr\<close>.\<close>

definition sh_name :: "u32 \<Rightarrow> 'a vm_state_scheme \<Rightarrow> u32 res" where "sh_name p = load32 p"
definition sh_addr :: "u32 \<Rightarrow> 'a vm_state_scheme \<Rightarrow> u32 res" where "sh_addr p = load32 (p + 12)"
definition sh_offset :: "u32 \<Rightarrow> 'a vm_state_scheme \<Rightarrow> u32 res" where "sh_offset p = load32 (p + 16)"
definition sh_size :: "u32 \<Rightarrow> 'a vm_state_scheme \<Rightarrow> u32 res" where "sh_size p = load32 (p + 20)"
definition sh_entsize :: "u32 \<Rightarrow> 'a vm_state_scheme \<Rightarrow> u32 res" where "sh_entsize p = load32 (p + 36)"

text \<open>\<open>sh_size / sh_entsize\<close>.\<close>

definition num_entries :: "u32 \<Rightarrow> 'a vm_state_scheme \<Rightarrow> u32 res" where
  "num_entries p s =
     and_then (sh_size p s) (\<lambda>n.
     and_then (sh_entsize p s) (\<lambda>k.
     if k = 0 then Inl Div_By_Zero else Inr (n div k)))"

text \<open>Entry \<open>i\<close> of a table of \<open>Elf32_Dyn\<close> (8 bytes), \<open>Elf32_Sym\<close> (16 bytes) or \<open>Elf32_Rel\<close> (8 bytes).\<close>

definition dyn_at :: "u32 \<Rightarrow> nat \<Rightarrow> u32" where "dyn_at t i = t + 8 * of_nat i"
definition d_tag :: "u32 \<Rightarrow> 'a vm_state_scheme \<Rightarrow> u32 res" where "d_tag p = load32 p"
definition d_un :: "u32 \<Rightarrow> 'a vm_state_scheme \<Rightarrow> u32 res" where "d_un p = load32 (p + 4)"
definition DT_NEEDED :: u32 where "DT_NEEDED = 1"
definition DT_STRTAB :: u32 where "DT_STRTAB = 5"

definition sym_at :: "u32 \<Rightarrow> u32 \<Rightarrow> u32" where "sym_at t i = t + 16 * i"
definition st_name :: "u32 \<Rightarrow> 'a vm_state_scheme \<Rightarrow> u32 res" where "st_name p = load32 p"
definition st_value :: "u32 \<Rightarrow> 'a vm_state_scheme \<Rightarrow> u32 res" where "st_value p = load32 (p + 4)"

definition r_info :: "u32 \<Rightarrow> 'a vm_state_scheme \<Rightarrow> u32 res" where "r_info p = load32 (p + 4)"
definition ELF32_R_SYM :: "u32 \<Rightarrow> u32" where "ELF32_R_SYM i = drop_bit 8 i"
definition ELF32_R_TYPE :: "u32 \<Rightarrow> u32" where "ELF32_R_TYPE i = i AND 0xFF"
definition R_386_JUMP_SLOT :: u32 where "R_386_JUMP_SLOT = 7"

section \<open>Sections, strings and symbols\<close>

text \<open>The comparison with the four magic bytes stops at the first one that differs.\<close>

definition elf_is_valid :: "u32 \<Rightarrow> 'a vm_state_scheme \<Rightarrow> bool res" where
  "elf_is_valid hdr s =
     and_then (load8 hdr s) (\<lambda>b0. if b0 \<noteq> 0x7F then Inr False else
     and_then (load8 (hdr + 1) s) (\<lambda>b1. if b1 \<noteq> 69 then Inr False else
     and_then (load8 (hdr + 2) s) (\<lambda>b2. if b2 \<noteq> 76 then Inr False else
     and_then (load8 (hdr + 3) s) (\<lambda>b3. Inr (b3 = 70)))))"

definition get_section :: "elf_object \<Rightarrow> u32 \<Rightarrow> 'a vm_state_scheme \<Rightarrow> u32 res" where
  "get_section elf index s =
     and_then (e_shoff (elf_header elf) s) (\<lambda>off.
     and_then (e_shentsize (elf_header elf) s) (\<lambda>n.
     Inr (elf_raw elf + off + index * ucast n)))"

definition get_string :: "elf_object \<Rightarrow> u32 \<Rightarrow> u32 \<Rightarrow> 'a vm_state_scheme \<Rightarrow> u32 res" where
  "get_string elf str_offset strtab s =
     and_then (sh_offset strtab s) (\<lambda>off. Inr (elf_raw elf + off + str_offset))"

definition get_section_name :: "elf_object \<Rightarrow> u32 \<Rightarrow> 'a vm_state_scheme \<Rightarrow> u32 res" where
  "get_section_name elf sec s =
     and_then (e_shstrndx (elf_header elf) s) (\<lambda>n.
     and_then (get_section elf (ucast n) s) (\<lambda>strtab.
     and_then (sh_name sec s) (\<lambda>name. get_string elf name strtab s)))"

definition get_elf_symbol :: "elf_object \<Rightarrow> u32 \<Rightarrow> u32 \<Rightarrow> u32 \<Rightarrow> 'a vm_state_scheme \<Rightarrow> u32 res" where
  "get_elf_symbol elf symtab strtab index s =
     and_then (sh_offset symtab s) (\<lambda>off.
     and_then (st_name (sym_at (elf_raw elf + off) index) s) (\<lambda>name. get_string elf name strtab s))"

text \<open>The first number of a list for which a condition holds, where testing it may not end.\<close>

fun search_run :: "(nat \<Rightarrow> bool run) \<Rightarrow> nat list \<Rightarrow> nat option run" where
  "search_run p [] = Some (Inr None)"
| "search_run p (i # is) = run_then (p i) (\<lambda>b. if b then Some (Inr (Some i)) else search_run p is)"

text \<open>\<open>find_symbol\<close> gives the address of the entry, or \<open>0\<close>.\<close>

definition symbol_matches :: "elf_object \<Rightarrow> u32 \<Rightarrow> u32 \<Rightarrow> u32 \<Rightarrow> 'a vm_state_scheme \<Rightarrow> nat \<Rightarrow> bool run" where
  "symbol_matches elf table strtab symbol s i =
     run_then (Some (st_name (sym_at table (of_nat i)) s)) (\<lambda>n.
     run_then (Some (get_string elf n strtab s)) (\<lambda>name.
     run_then (mem_strcmp name symbol s) (\<lambda>d. Some (Inr (d = 0)))))"

definition find_symbol :: "elf_object \<Rightarrow> u32 \<Rightarrow> u32 \<Rightarrow> u32 \<Rightarrow> 'a vm_state_scheme \<Rightarrow> u32 run" where
  "find_symbol elf symtab strtab symbol s =
     run_then (Some (sh_offset symtab s)) (\<lambda>off.
     let table = elf_raw elf + off in
     run_then (Some (num_entries symtab s)) (\<lambda>n.
     run_then (search_run (symbol_matches elf table strtab symbol s) [0..<unat n]) (\<lambda>found.
     Some (Inr (case found of None \<Rightarrow> 0 | Some i \<Rightarrow> sym_at table (of_nat i))))))"

section \<open>Parsing\<close>

text \<open>The first \<open>DT_STRTAB\<close> entry of \<open>n\<close> entries; \<open>int\<close> counters, so no entry when \<open>n\<close> is negative.\<close>

fun find_tag :: "u32 \<Rightarrow> u32 \<Rightarrow> nat list \<Rightarrow> 'a vm_state_scheme \<Rightarrow> nat option res" where
  "find_tag tag t [] s = Inr None"
| "find_tag tag t (i # is) s = and_then (d_tag (dyn_at t i) s) (\<lambda>d. if d = tag then Inr (Some i) else find_tag tag t is s)"

definition add_dependency :: "u32 \<Rightarrow> u32 \<Rightarrow> 'a vm_state_scheme \<Rightarrow> nat \<Rightarrow> nat \<times> elf_object \<Rightarrow> (nat \<times> elf_object) res" where
  "add_dependency table string_table s i = (\<lambda>(num, elf).
     and_then (d_tag (dyn_at table i) s) (\<lambda>tag.
     if tag = DT_NEEDED then
       and_then (d_un (dyn_at table i) s) (\<lambda>val.
       in_bounds num MAX_SHARED_LIBS_PER_TASK
         (Inr (num + 1, elf\<lparr>dynamic_dependencies := (dynamic_dependencies elf)[num := string_table + val]\<rparr>)))
     else Inr (num, elf)))"

definition parse_dynamic_section :: "elf_object \<Rightarrow> u32 \<Rightarrow> 'a vm_state_scheme \<Rightarrow> elf_object res" where
  "parse_dynamic_section elf sec s =
     and_then (sh_offset sec s) (\<lambda>off.
     let table = elf_raw elf + off in
     and_then (num_entries sec s) (\<lambda>k.
     let n = nat (sint k) in
     and_then (find_tag DT_STRTAB table [0..<n] s) (\<lambda>strtab.
     case strtab of
       None \<Rightarrow> Inl Assert_Failed
     | Some i \<Rightarrow>
         and_then (d_un (dyn_at table i) s) (\<lambda>string_table.
         and_then (for_res 0 n (add_dependency table string_table s) (0, elf)) (\<lambda>(num, elf'). Inr elf')))))"

text \<open>One round of the loop over the sections: the name decides which one is remembered.\<close>

definition bytes_of :: "string \<Rightarrow> u8 list" where
  "bytes_of str = map of_char str @ [0]"

definition note_section :: "'a vm_state_scheme \<Rightarrow> nat \<Rightarrow> elf_object \<Rightarrow> elf_object res" where
  "note_section s i elf =
     and_then (get_section elf (of_nat i) s) (\<lambda>sec.
     and_then (get_section_name elf sec s) (\<lambda>name.
     and_then (mem_equals name (bytes_of ''.dynamic'') s) (\<lambda>b1. if b1 then Inr (elf\<lparr>dynamic_section := sec\<rparr>) else
     and_then (mem_equals name (bytes_of ''.dynsym'') s) (\<lambda>b2. if b2 then Inr (elf\<lparr>dynamic_symbol_table := sec\<rparr>) else
     and_then (mem_equals name (bytes_of ''.dynstr'') s) (\<lambda>b3. if b3 then Inr (elf\<lparr>dynamic_symbol_string_table := sec\<rparr>) else
     and_then (mem_equals name (bytes_of ''.got.plt'') s) (\<lambda>b4. if b4 then Inr (elf\<lparr>got_section := sec\<rparr>) else
     and_then (mem_equals name (bytes_of ''.rel.plt'') s) (\<lambda>b5. if b5 then Inr (elf\<lparr>relocation_section := sec\<rparr>) else
     Inr elf)))))))"

definition parse_elf :: "elf_object \<Rightarrow> 'a vm_state_scheme \<Rightarrow> (bool \<times> elf_object) res" where
  "parse_elf elf s =
     (let elf0 = elf\<lparr>elf_header := elf_raw elf\<rparr> in
      and_then (elf_is_valid (elf_header elf0) s) (\<lambda>valid.
      if \<not> valid then Inr (False, elf0)
      else
        and_then (e_shnum (elf_header elf0) s) (\<lambda>n.
        and_then (for_res 0 (unat n) (note_section s) elf0) (\<lambda>elf1.
        and_then (if dynamic_section elf1 \<noteq> 0 then parse_dynamic_section elf1 (dynamic_section elf1) s else Inr elf1) (\<lambda>elf2.
        Inr (True, elf2))))))"

section \<open>Loading\<close>

text \<open>\<open>n\<close> fresh pages from the page of an address on; the address is read again in every round.\<close>

definition map_fresh :: "('a vm_state_scheme \<Rightarrow> u32 res) \<Rightarrow> u32 \<Rightarrow> nat \<Rightarrow> 'a vm_state_scheme \<Rightarrow> 'a vm_state_scheme res" where
  "map_fresh addr flags n s =
     for_res 0 n (\<lambda>j t.
       and_then (pmm_alloc_pageframe t) (\<lambda>(phys, t1).
       and_then (addr t1) (\<lambda>a.
       mem_map_page ((a AND NOT 0xFFF) + of_nat j * 0x1000) phys (flags OR PAGE_FLAG_OWNER) t1))) s"

definition segment_flags :: "u32 \<Rightarrow> u32" where
  "segment_flags pf = (if pf AND PF_W \<noteq> 0 then PAGE_FLAG_USER OR PAGE_FLAG_WRITE else PAGE_FLAG_USER)"

definition segment_pages :: "u32 \<Rightarrow> u32 \<Rightarrow> u32" where
  "segment_pages addr memsz = (if addr AND 0xFFF \<noteq> 0 then CEIL_DIV memsz 0x1000 + 1 else CEIL_DIV memsz 0x1000)"

text \<open>Fresh zeroed pages for a segment, and the copy of its contents from the file.\<close>

definition place_segment :: "elf_object \<Rightarrow> u32 \<Rightarrow> u32 \<Rightarrow> u32 \<Rightarrow> 'a vm_state_scheme \<Rightarrow> 'a vm_state_scheme res" where
  "place_segment elf segment flags pages s =
     and_then (map_fresh (p_vaddr segment) flags (unat pages) s) (\<lambda>s1.
     and_then (p_vaddr segment s1) (\<lambda>va.
     and_then (mem_set (va AND NOT 0xFFF) 0 (pages * 0x1000) s1) (\<lambda>s2.
     and_then (p_vaddr segment s2) (\<lambda>dest.
     and_then (p_offset segment s2) (\<lambda>foff.
     and_then (p_filesz segment s2) (\<lambda>filesz.
     mem_copy dest (elf_raw elf + foff) filesz s2))))))"

definition load_segment :: "elf_object \<Rightarrow> nat \<Rightarrow> 'a vm_state_scheme \<Rightarrow> 'a vm_state_scheme res" where
  "load_segment elf i s =
     and_then (e_phoff (elf_header elf) s) (\<lambda>off.
     and_then (e_phentsize (elf_header elf) s) (\<lambda>size.
     let segment = elf_raw elf + off + of_nat i * ucast size in
     and_then (p_type segment s) (\<lambda>type. if type \<noteq> PT_LOAD then Inr s else
     and_then (p_memsz segment s) (\<lambda>memsz. if memsz = 0 then Inr s else
     and_then (p_flags segment s) (\<lambda>pf.
     and_then (p_vaddr segment s) (\<lambda>va.
     place_segment elf segment (segment_flags pf) (segment_pages va memsz) s))))))"

definition load_elf_executable :: "elf_object \<Rightarrow> 'a vm_state_scheme \<Rightarrow> (bool \<times> elf_object \<times> 'a vm_state_scheme) res" where
  "load_elf_executable elf s =
     kassert (elf_header elf \<noteq> 0)
       (and_then (e_type (elf_header elf) s) (\<lambda>type.
        if type \<noteq> 2 then Inr (False, elf, s)
        else
          and_then (e_entry (elf_header elf) s) (\<lambda>entry.
          let elf1 = elf\<lparr>elf_entry := entry\<rparr> in
          and_then (e_phnum (elf_header elf1) s) (\<lambda>n.
          and_then (for_res 0 (unat n) (load_segment elf1) s) (\<lambda>s1.
          Inr (True, elf1, s1))))))"

end
