(* ===== verification/Clock.thy ===== *)
theory Clock
  imports Prelude
begin

text \<open>
  The devices behind I/O ports that are read: the serial port (\<open>kernel/serial.c\<close>) and the real-time
  clock (\<open>kernel/driver/rtc.c\<close>). A device is a function of the writes so far, the number of
  reads so far and the port that is read.
\<close>

section \<open>Ports\<close>

record ports =
  reads :: nat
  writes :: "(u16 \<times> u8) list"

type_synonym device = "(u16 \<times> u8) list \<Rightarrow> nat \<Rightarrow> u16 \<Rightarrow> u8"

definition port_in :: "device \<Rightarrow> u16 \<Rightarrow> 'a ports_scheme \<Rightarrow> u8 \<times> 'a ports_scheme" where
  "port_in dev p s = (dev (writes s) (reads s) p, s\<lparr>reads := reads s + 1\<rparr>)"

definition port_out :: "u16 \<Rightarrow> u8 \<Rightarrow> 'a ports_scheme \<Rightarrow> 'a ports_scheme" where
  "port_out p v s = s\<lparr>writes := writes s @ [(p, v)]\<rparr>"

section \<open>The serial port\<close>

definition PORT :: u16 where "PORT = 0x3F8"

definition serial_init :: "'a ports_scheme \<Rightarrow> 'a ports_scheme" where
  "serial_init s =
     fold (\<lambda>(p, v). port_out p v)
       [(PORT + 1, 0x00), (PORT + 3, 0x80), (PORT + 0, 0x03), (PORT + 1, 0x00), (PORT + 3, 0x03), (PORT + 2, 0xC7),
        (PORT + 4, 0x0B)] s"

partial_function (option) port_write :: "device \<Rightarrow> u8 \<Rightarrow> 'a ports_scheme \<Rightarrow> 'a ports_scheme option" where
  "port_write dev a s =
     (let (status, s1) = port_in dev (PORT + 5) s in
      if status AND 0x20 = 0 then port_write dev a s1 else Some (port_out PORT a s1))"

definition serial_write :: "device \<Rightarrow> bool \<Rightarrow> u8 \<Rightarrow> 'a ports_scheme \<Rightarrow> 'a ports_scheme option" where
  "serial_write dev serial_initialized c s = (if \<not> serial_initialized then Some s else port_write dev c s)"

section \<open>The clock\<close>

definition CURRENT_YEAR :: u32 where "CURRENT_YEAR = 2023"
definition cmos_address :: u16 where "cmos_address = 0x70"
definition cmos_data :: u16 where "cmos_data = 0x71"

definition get_RTC_register :: "device \<Rightarrow> u8 \<Rightarrow> 'a ports_scheme \<Rightarrow> u8 \<times> 'a ports_scheme" where
  "get_RTC_register dev r s = port_in dev cmos_data (port_out cmos_address r s)"

definition get_update_in_progress_flag :: "device \<Rightarrow> 'a ports_scheme \<Rightarrow> bool \<times> 'a ports_scheme" where
  "get_update_in_progress_flag dev s = (let (v, s1) = get_RTC_register dev 0x0A s in (v AND 0x80 \<noteq> 0, s1))"

text \<open>\<open>while (get_update_in_progress_flag());\<close>\<close>

partial_function (option) wait_for_update :: "device \<Rightarrow> 'a ports_scheme \<Rightarrow> 'a ports_scheme option" where
  "wait_for_update dev s =
     (let (busy, s1) = get_update_in_progress_flag dev s in if busy then wait_for_update dev s1 else Some s1)"

text \<open>The variables of the driver; \<open>century\<close> is uninitialised unless there is a register for it.\<close>

record rtc_time =
  second :: u8
  minute :: u8
  hour :: u8
  day :: u8
  month :: u8
  year :: u32
  century :: u8

definition read_registers :: "device \<Rightarrow> u8 \<Rightarrow> u8 \<Rightarrow> 'a ports_scheme \<Rightarrow> rtc_time \<times> 'a ports_scheme" where
  "read_registers dev century_register old_century s =
     (let (sec, s1) = get_RTC_register dev 0x00 s;
          (mi, s2) = get_RTC_register dev 0x02 s1;
          (ho, s3) = get_RTC_register dev 0x04 s2;
          (da, s4) = get_RTC_register dev 0x07 s3;
          (mo, s5) = get_RTC_register dev 0x08 s4;
          (ye, s6) = get_RTC_register dev 0x09 s5;
          (ce, s7) = (if century_register \<noteq> 0 then get_RTC_register dev century_register s6 else (old_century, s6))
      in (\<lparr>second = sec, minute = mi, hour = ho, day = da, month = mo, year = ucast ye, century = ce\<rparr>, s7))"

text \<open>The registers are read until two readings in a row agree.\<close>

partial_function (option) read_until_stable :: "device \<Rightarrow> u8 \<Rightarrow> rtc_time \<Rightarrow> 'a ports_scheme \<Rightarrow>
    (rtc_time \<times> 'a ports_scheme) option" where
  "read_until_stable dev century_register prev s =
     Option.bind (wait_for_update dev s) (\<lambda>s1.
     let (t, s2) = read_registers dev century_register (century prev) s1 in
     if t \<noteq> prev then read_until_stable dev century_register t s2 else Some (t, s2))"

definition from_bcd :: "u8 \<Rightarrow> u8" where
  "from_bcd x = (x AND 0x0F) + (x div 16) * 10"

definition hour_from_bcd :: "u8 \<Rightarrow> u8" where
  "hour_from_bcd x = ((x AND 0x0F) + ((x AND 0x70) div 16) * 10) OR (x AND 0x80)"

definition from_bcd_time :: "u8 \<Rightarrow> rtc_time \<Rightarrow> rtc_time" where
  "from_bcd_time century_register t =
     t\<lparr>second := from_bcd (second t), minute := from_bcd (minute t), hour := hour_from_bcd (hour t), day := from_bcd (day t),
       month := from_bcd (month t), year := (year t AND 0x0F) + (year t div 16) * 10,
       century := (if century_register \<noteq> 0 then from_bcd (century t) else century t)\<rparr>"

definition to_24_hours :: "u8 \<Rightarrow> u8" where
  "to_24_hours h = ((h AND 0x7F) + 12) mod 24"

definition full_year :: "u8 \<Rightarrow> rtc_time \<Rightarrow> u32" where
  "full_year century_register t =
     (if century_register \<noteq> 0 then year t + ucast (century t) * 100
      else let y = year t + CURRENT_YEAR div 100 * 100 in if y < CURRENT_YEAR then y + 100 else y)"

text \<open>\<open>struct tm\<close>, the fields that are set.\<close>

record tm =
  tm_sec :: u32
  tm_min :: u32
  tm_hour :: u32
  tm_mday :: u32
  tm_mon :: u32
  tm_year :: u32

definition convert_time :: "u8 \<Rightarrow> u8 \<Rightarrow> rtc_time \<Rightarrow> tm" where
  "convert_time century_register registerB t =
     (let t1 = (if registerB AND 0x04 = 0 then from_bcd_time century_register t else t);
          t2 = (if registerB AND 0x02 = 0 \<and> hour t1 AND 0x80 \<noteq> 0 then t1\<lparr>hour := to_24_hours (hour t1)\<rparr> else t1)
      in \<lparr>tm_sec = ucast (second t2), tm_min = ucast (minute t2), tm_hour = ucast (hour t2), tm_mday = ucast (day t2),
          tm_mon = ucast (month t2) - 1, tm_year = full_year century_register t2 - 1900\<rparr>)"

definition read_rtc :: "device \<Rightarrow> u8 \<Rightarrow> u8 \<Rightarrow> 'a ports_scheme \<Rightarrow> (tm \<times> 'a ports_scheme) option" where
  "read_rtc dev century_register junk s =
     Option.bind (wait_for_update dev s) (\<lambda>s1.
     let (t, s2) = read_registers dev century_register junk s1 in
     Option.bind (read_until_stable dev century_register t s2) (\<lambda>(t', s3).
     let (registerB, s4) = get_RTC_register dev 0x0B s3 in
     Some (convert_time century_register registerB t', s4)))"

section \<open>Reading a clock\<close>

text \<open>The clock's memory: a read of the data port gives the register that was selected last. It
  stands still while it is read.\<close>

definition cmos :: "(u8 \<Rightarrow> u8) \<Rightarrow> device" where
  "cmos regs ws n p = (if p = cmos_data then regs (snd (last ws)) else 0)"

definition bcd :: "nat \<Rightarrow> u8" where
  "bcd n = of_nat (n div 10 * 16 + n mod 10)"

lemma get_register_cmos:
  "get_RTC_register (cmos regs) r s = (regs r, s\<lparr>writes := writes s @ [(0x70, r)], reads := reads s + 1\<rparr>)"
  by (simp add: get_RTC_register_def port_in_def port_out_def cmos_def cmos_address_def)

lemma wait_cmos:
  fixes regs :: "u8 \<Rightarrow> u8"
  assumes "regs 0x0A AND 0x80 = 0"
  shows "\<exists>s'. wait_for_update (cmos regs) s = Some s'"
  using assms by (subst wait_for_update.simps) (simp add: get_update_in_progress_flag_def get_register_cmos)

lemma read_registers_cmos:
  "\<exists>s'. read_registers (cmos regs) 0 c s =
     (\<lparr>second = regs 0, minute = regs 2, hour = regs 4, day = regs 7, month = regs 8, year = ucast (regs 9), century = c\<rparr>, s')"
  by (simp add: read_registers_def Let_def get_register_cmos)

lemma stable_cmos:
  fixes regs :: "u8 \<Rightarrow> u8"
  assumes "regs 0x0A AND 0x80 = 0"
    and "t = \<lparr>second = regs 0, minute = regs 2, hour = regs 4, day = regs 7, month = regs 8, year = ucast (regs 9), century = c\<rparr>"
  shows "\<exists>s'. read_until_stable (cmos regs) 0 t s = Some (t, s')"
proof -
  obtain s1 where s1: "wait_for_update (cmos regs) s = Some s1" using wait_cmos [where regs = regs] assms(1) by blast
  obtain s2 where "read_registers (cmos regs) 0 c s1 = (t, s2)" using read_registers_cmos assms(2) by metis
  with s1 show ?thesis by (subst read_until_stable.simps) (simp add: assms(2))
qed

lemma unat_bcd: "n < 100 \<Longrightarrow> unat (bcd n) = n div 10 * 16 + n mod 10"
  unfolding bcd_def by (rule unat_of_nat_small) simp

lemma digits:
  fixes n :: nat
  assumes "n < 100"
  shows "(n div 10 * 16 + n mod 10) mod 16 = n mod 10" "(n div 10 * 16 + n mod 10) div 16 = n div 10"
    "n mod 10 + n div 10 * 10 = n"
proof -
  have m: "n mod 10 < 16" using mod_less_divisor [of 10 n] by linarith
  show "(n div 10 * 16 + n mod 10) mod 16 = n mod 10" using m by (simp add: mod_add_eq)
  show "(n div 10 * 16 + n mod 10) div 16 = n div 10" using m by simp
  show "n mod 10 + n div 10 * 10 = n" by simp
qed

lemma low_digit: "n < 100 \<Longrightarrow> unat (bcd n AND 0x0F) = n mod 10"
  using unat_and_mask_mod [of "bcd n" 4] digits(1) [of n] by (simp add: mask_eq_exp_minus_1 unat_bcd)

lemma high_digit: "n < 100 \<Longrightarrow> unat (bcd n div 16) = n div 10"
  using digits(2) [of n] by (simp add: unat_div_distrib unat_bcd)

lemma from_bcd_bcd:
  assumes "n < 100"
  shows "from_bcd (bcd n) = of_nat n"
proof -
  have "bcd n AND 0x0F = of_nat (unat (bcd n AND 0x0F))" "bcd n div 16 = of_nat (unat (bcd n div 16))" by simp_all
  then have "from_bcd (bcd n) = of_nat (n mod 10) + of_nat (n div 10) * of_nat 10"
    unfolding from_bcd_def low_digit [OF assms] high_digit [OF assms] by (metis of_nat_numeral)
  then show ?thesis using digits(3) [OF assms] by (metis of_nat_add of_nat_mult)
qed

lemma hour_from_bcd_bcd: "n < 24 \<Longrightarrow> hour_from_bcd (bcd n) = of_nat n"
proof -
  have "\<forall>n\<in>set [0..<24]. hour_from_bcd (bcd n) = of_nat n"
    by (simp add: hour_from_bcd_def bcd_def upt_rec)
  then show "n < 24 \<Longrightarrow> hour_from_bcd (bcd n) = of_nat n" by simp
qed

lemma year_from_bcd: "n < 100 \<Longrightarrow> (ucast (bcd n) AND 0x0F) + (ucast (bcd n) div 16) * 10 = (of_nat n :: u32)"
proof -
  have "\<forall>n\<in>set [0..<100]. (ucast (bcd n) AND 0x0F) + (ucast (bcd n) div 16) * 10 = (of_nat n :: u32)"
    by (simp add: bcd_def upt_rec)
  then show "n < 100 \<Longrightarrow> (ucast (bcd n) AND 0x0F) + (ucast (bcd n) div 16) * 10 = (of_nat n :: u32)" by simp
qed

text \<open>C32: The real-time clock. For a clock that stands still while it is read, is not being updated,
  counts 24 hours and gives its registers in binary coded decimal, \<open>read_rtc\<close> returns and gives
  exactly the time of the clock, in the ranges of \<open>struct tm\<close>, for the years 2023 to 2099.\<close>

theorem rtc_reads_clock:
  fixes regs :: "u8 \<Rightarrow> u8" and h n d :: nat
  assumes "regs 0x0A AND 0x80 = 0" and "regs 0x0B AND 0x04 = 0" and "regs 0x0B AND 0x02 \<noteq> 0"
    and "regs 0 = bcd sec" "regs 2 = bcd n" "regs 4 = bcd h" "regs 7 = bcd d" "regs 8 = bcd mo" "regs 9 = bcd y"
    and "sec < 60" "n < 60" "h < 24" "d < 32" "mo < 13" "23 \<le> y" "y < 100"
  shows "\<exists>s'. read_rtc (cmos regs) 0 junk s =
    Some (\<lparr>tm_sec = of_nat sec, tm_min = of_nat n, tm_hour = of_nat h, tm_mday = of_nat d, tm_mon = of_nat mo - 1,
      tm_year = of_nat (100 + y)\<rparr>, s')"
proof -
  let ?t = "\<lparr>second = regs 0, minute = regs 2, hour = regs 4, day = regs 7, month = regs 8, year = ucast (regs 9), century = junk\<rparr>"
  obtain s1 where s1: "wait_for_update (cmos regs) s = Some s1" using wait_cmos [where regs = regs] assms(1) by blast
  obtain s2 where s2: "read_registers (cmos regs) 0 junk s1 = (?t, s2)" using read_registers_cmos by metis
  obtain s3 where s3: "read_until_stable (cmos regs) 0 ?t s2 = Some (?t, s3)" using stable_cmos [where regs = regs, OF assms(1) refl] by blast
  have u: "ucast (of_nat k :: u8) = (of_nat k :: u32)" if "k < 256" for k
    using that by (simp add: unsigned_of_nat take_bit_nat_eq_self)
  have y: "full_year 0 (?t\<lparr>year := of_nat y\<rparr>) = of_nat (2000 + y)"
  proof -
    have "unat (of_nat y + 2000 :: u32) = y + 2000" using assms(16) by (simp add: unat_word_ariths unat_of_nat_small)
    then have "\<not> of_nat y + 2000 < (2023 :: u32)" using assms(15) by (simp add: word_less_nat_alt)
    then show ?thesis by (simp add: full_year_def CURRENT_YEAR_def)
  qed
  have b: "from_bcd_time 0 ?t = ?t\<lparr>second := of_nat sec, minute := of_nat n, hour := of_nat h, day := of_nat d,
      month := of_nat mo, year := of_nat y\<rparr>"
    using assms by (simp add: from_bcd_time_def from_bcd_bcd hour_from_bcd_bcd year_from_bcd)
  have yy: "full_year 0 (from_bcd_time 0 ?t) - 1900 = of_nat (100 + y)"
    using y unfolding b by (simp add: full_year_def)
  have "convert_time 0 (regs 0x0B) ?t = \<lparr>tm_sec = of_nat sec, tm_min = of_nat n, tm_hour = of_nat h, tm_mday = of_nat d,
      tm_mon = of_nat mo - 1, tm_year = of_nat (100 + y)\<rparr>"
    using assms(2,3,10-14) yy b by (simp add: convert_time_def u)
  then show ?thesis
    using s1 s2 s3 by (simp add: read_rtc_def get_register_cmos)
qed

definition example_clock :: "u8 \<Rightarrow> u8" where
  "example_clock r = (if r = 0 then 0x59 else if r = 2 then 0x30 else if r = 4 then 0x21 else if r = 7 then 0x31
     else if r = 8 then 0x12 else if r = 9 then 0x24 else if r = 0x0B then 2 else 0)"

theorem rtc_reads_clock_witness:
  "\<exists>s'. read_rtc (cmos example_clock) 0 0 \<lparr>reads = 0, writes = []\<rparr> =
    Some (\<lparr>tm_sec = 59, tm_min = 30, tm_hour = 21, tm_mday = 31, tm_mon = 11, tm_year = 124\<rparr>, s')"
  using rtc_reads_clock [of example_clock 59 30 21 31 12 24 0 "\<lparr>reads = 0, writes = []\<rparr>"]
  by (simp add: example_clock_def bcd_def)

text \<open>On a clock that counts 12 hours, noon (12 with the afternoon bit) is read as midnight.\<close>

lemma noon_is_midnight: "to_24_hours (hour_from_bcd 0x92) = 0"
  by (simp add: to_24_hours_def hour_from_bcd_def)

end
