(* ===== verification/Digits.thy ===== *)
theory Digits
  imports Prelude
begin

text \<open>
  What the routines for formatted output share: a store into a buffer of bytes, and the text of a
  number in a base, as a specification.
\<close>

definition store_at :: "nat \<Rightarrow> u8 \<Rightarrow> u8 list \<Rightarrow> u8 list res" where
  "store_at i v b = in_bounds i (length b) (Inr (b[i := v]))"

lemma store_at_ok: "i < length b \<Longrightarrow> store_at i v b = Inr (b[i := v])"
  by (simp add: store_at_def)

section \<open>Numbers\<close>

definition digit_in :: "bool \<Rightarrow> nat \<Rightarrow> u8" where
  "digit_in up k = of_nat k + (if k < 10 then 48 else (if up then 65 else 97) - 10)"

fun number_in :: "nat \<Rightarrow> bool \<Rightarrow> nat \<Rightarrow> u8 list" where
  "number_in b up n = (if b < 2 \<or> n < b then [digit_in up n] else number_in b up (n div b) @ [digit_in up (n mod b)])"

declare number_in.simps [simp del]

fun fixed_in :: "nat \<Rightarrow> bool \<Rightarrow> nat \<Rightarrow> nat \<Rightarrow> u8 list" where
  "fixed_in b up 0 n = []"
| "fixed_in b up (Suc j) n = digit_in up (n div b ^ j) # fixed_in b up j (n mod b ^ j)"

lemma length_fixed_in [simp]: "length (fixed_in b up j n) = j"
  by (induction j arbitrary: n) auto

lemma fixed_in_snoc: "0 < b \<Longrightarrow> fixed_in b up (Suc j) n = fixed_in b up j (n div b) @ [digit_in up (n mod b)]" if "n < b ^ Suc j" for n
  using that
proof (induction j arbitrary: n)
  case (Suc j)
  have "fixed_in b up (Suc j) (n mod b ^ Suc j) = fixed_in b up j (n mod b ^ Suc j div b) @ [digit_in up (n mod b ^ Suc j mod b)]"
    using Suc by simp
  moreover have "n mod b ^ Suc j div b = n div b mod b ^ j" "n mod b ^ Suc j mod b = n mod b"
    using Suc.prems(1) by (simp_all add: mod_mult2_eq)
  moreover have "n div b ^ Suc j = n div b div b ^ j" by (simp add: div_mult2_eq)
  ultimately show ?case by simp
qed simp

lemma number_in_fixed:
  assumes "2 \<le> b" "n < b ^ Suc j" "j = 0 \<or> b ^ j \<le> n"
  shows "number_in b up n = fixed_in b up (Suc j) n"
  using assms(2,3)
proof (induction j arbitrary: n)
  case 0
  then show ?case by (simp add: number_in.simps)
next
  case (Suc j)
  have le: "b ^ Suc j \<le> n" using Suc.prems(2) by simp
  have "1 \<le> b ^ j" using assms(1) by simp
  then have "b * 1 \<le> b * b ^ j" by (rule mult_le_mono2)
  then have "b \<le> n" using le unfolding power_Suc by linarith
  moreover have "n div b < b ^ Suc j" using Suc.prems(1) by (simp add: less_mult_imp_div_less mult.commute)
  moreover have "b ^ j \<le> n div b" using le assms(1) by (simp add: less_eq_div_iff_mult_less_eq mult.commute)
  ultimately show ?case using Suc.IH [of "n div b"] fixed_in_snoc [OF Suc.prems(1), of up] assms(1) by (subst number_in.simps) simp
qed

lemma number_in_nonzero: "2 \<le> b \<Longrightarrow> b \<le> 16 \<Longrightarrow> 0 \<notin> set (number_in b up n)"
proof (induction b up n rule: number_in.induct)
  case (1 b up n)
  have "digit_in up k \<noteq> 0" if "k < 16" for k
  proof -
    have "\<forall>k\<in>set [0..<16]. digit_in up k \<noteq> 0" by (cases up) (simp_all add: upt_rec digit_in_def)
    then show ?thesis using that by auto
  qed
  moreover have "n mod b < 16" using 1(2,3) mod_less_divisor [of b n] by linarith
  ultimately show ?case using 1 by (subst number_in.simps) auto
qed

lemma unat_negative:
  assumes "d <s 0"
  shows "unat (- d) = nat (- sint (d :: u32))"
proof -
  have "sint d < 0" using assms by (simp add: word_sless_alt)
  moreover have "- d = (of_int (- sint d) :: u32)" by simp
  moreover have "- sint d \<le> 2 ^ 31" using sint_ge [of d] by simp
  ultimately show ?thesis by (simp only: unsigned_of_int) (simp add: take_bit_int_eq_self)
qed

lemma number_in_length: "2 \<le> b \<Longrightarrow> n < b ^ Suc j \<Longrightarrow> length (number_in b up n) \<le> Suc j"
proof (induction j arbitrary: n)
  case 0
  then show ?case by (simp add: number_in.simps)
next
  case (Suc j)
  have "n div b < b ^ Suc j" using Suc.prems by (simp add: less_mult_imp_div_less mult.commute)
  then show ?case using Suc.IH [of "n div b"] Suc.prems(1) by (subst number_in.simps) simp
qed

end
