(* ===== verification/Kernel_Printf.thy ===== *)
theory Kernel_Printf
  imports Digits Strings
begin

text \<open>
  Formatted output of the kernel (\<open>kernel/printf.c\<close>). Characters go to an output function, which
  gets the index of the character and the state of the sink. The format is the list of bytes from the
  pointer on to the end of its object, terminator included; \<open>str\<close> gives the bytes from an address on in
  the same way. The variable arguments are the words on the stack. The conversions of floating
  point numbers are the argument \<open>real\<close>: the characters for a specifier, the bits of the number,
  precision, width and flags.
\<close>

section \<open>Output functions\<close>

text \<open>A character, its index, and the sink.\<close>

type_synonym 's out = "u8 \<Rightarrow> u32 \<Rightarrow> 's \<Rightarrow> 's res"

definition out_buffer :: "u32 \<Rightarrow> u8 list out" where
  "out_buffer maxlen c idx buffer = (if idx < maxlen then store_at (unat idx) c buffer else Inr buffer)"

definition out_null :: "'s out" where
  "out_null c idx s = Inr s"

text \<open>\<open>_out_char\<close> and \<open>_out_fct\<close>; \<open>fct\<close> is \<open>_putchar\<close> or the function of the wrapper.\<close>

definition out_fct :: "(u8 \<Rightarrow> 's \<Rightarrow> 's res) \<Rightarrow> 's out" where
  "out_fct fct c idx s = (if c \<noteq> 0 then fct c s else Inr s)"

text \<open>\<open>out(c, buffer, idx++, maxlen)\<close>.\<close>

definition put :: "'s out \<Rightarrow> u8 \<Rightarrow> u32 \<times> 's \<Rightarrow> (u32 \<times> 's) res" where
  "put out c = (\<lambda>(idx, s). and_then (out c idx s) (\<lambda>s1. Inr (idx + 1, s1)))"

fun out_times :: "'s out \<Rightarrow> nat \<Rightarrow> u8 \<Rightarrow> u32 \<times> 's \<Rightarrow> (u32 \<times> 's) res" where
  "out_times out 0 c k = Inr k"
| "out_times out (Suc n) c k = and_then (put out c k) (out_times out n c)"

text \<open>\<open>while (len) out(buf[--len], ...)\<close>.\<close>

fun out_reversed :: "'s out \<Rightarrow> u8 list \<Rightarrow> nat \<Rightarrow> u32 \<times> 's \<Rightarrow> (u32 \<times> 's) res" where
  "out_reversed out buf 0 k = Inr k"
| "out_reversed out buf (Suc len) k = in_bounds len (length buf) (and_then (put out (buf ! len) k) (out_reversed out buf len))"

fun strnlen_s :: "u8 list \<Rightarrow> u32 \<Rightarrow> u32 res" where
  "strnlen_s [] maxsize = Inl Out_Of_Bounds"
| "strnlen_s (c # s) maxsize = (if c \<noteq> 0 \<and> maxsize \<noteq> 0 then and_then (strnlen_s s (maxsize - 1)) (\<lambda>n. Inr (n + 1)) else Inr 0)"

definition is_digit :: "u8 \<Rightarrow> bool" where
  "is_digit ch \<longleftrightarrow> 48 \<le> ch \<and> ch \<le> 57"

fun parse_unsigned :: "u8 list \<Rightarrow> u32 \<Rightarrow> (u32 \<times> u8 list) res" where
  "parse_unsigned [] i = Inl Out_Of_Bounds"
| "parse_unsigned (c # fmt) i = (if is_digit c then parse_unsigned fmt (i * 10 + ucast (c - 48)) else Inr (i, c # fmt))"

section \<open>Numbers\<close>

definition FLAGS_ZEROPAD :: u32 where "FLAGS_ZEROPAD = push_bit 0 1"
definition FLAGS_LEFT :: u32 where "FLAGS_LEFT = push_bit 1 1"
definition FLAGS_PLUS :: u32 where "FLAGS_PLUS = push_bit 2 1"
definition FLAGS_SPACE :: u32 where "FLAGS_SPACE = push_bit 3 1"
definition FLAGS_HASH :: u32 where "FLAGS_HASH = push_bit 4 1"
definition FLAGS_UPPERCASE :: u32 where "FLAGS_UPPERCASE = push_bit 5 1"
definition FLAGS_CHAR :: u32 where "FLAGS_CHAR = push_bit 6 1"
definition FLAGS_SHORT :: u32 where "FLAGS_SHORT = push_bit 7 1"
definition FLAGS_LONG :: u32 where "FLAGS_LONG = push_bit 8 1"
definition FLAGS_LONG_LONG :: u32 where "FLAGS_LONG_LONG = push_bit 9 1"
definition FLAGS_PRECISION :: u32 where "FLAGS_PRECISION = push_bit 10 1"
definition FLAGS_ADAPT_EXP :: u32 where "FLAGS_ADAPT_EXP = push_bit 11 1"

definition has :: "u32 \<Rightarrow> u32 \<Rightarrow> bool" where
  "has flags f \<longleftrightarrow> flags AND f \<noteq> 0"

definition PRINTF_NTOA_BUFFER_SIZE :: nat where "PRINTF_NTOA_BUFFER_SIZE = 32"

text \<open>\<open>_out_rev\<close> on the first \<open>len\<close> characters of \<open>buf\<close>.\<close>

definition out_rev :: "'s out \<Rightarrow> u8 list \<Rightarrow> nat \<Rightarrow> u32 \<Rightarrow> u32 \<Rightarrow> u32 \<times> 's \<Rightarrow> (u32 \<times> 's) res" where
  "out_rev out buf len width flags k =
     and_then (if \<not> has flags FLAGS_LEFT \<and> \<not> has flags FLAGS_ZEROPAD then out_times out (unat width - len) 32 k else Inr k) (\<lambda>k1.
     and_then (out_reversed out buf len k1) (\<lambda>k2.
     if has flags FLAGS_LEFT then out_times out (unat width - unat (fst k2 - fst k)) 32 k2 else Inr k2))"

text \<open>In what follows the conversion buffer is the list of its first \<open>len\<close> characters. \<open>buf[len++] = c\<close> under the
  guard \<open>len < PRINTF_NTOA_BUFFER_SIZE\<close>:\<close>

definition add_char :: "u8 \<Rightarrow> u8 list \<Rightarrow> u8 list" where
  "add_char c buf = (if length buf < PRINTF_NTOA_BUFFER_SIZE then buf @ [c] else buf)"

function zero_fill :: "nat \<Rightarrow> u8 list \<Rightarrow> u8 list" where
  "zero_fill n buf = (if length buf < n \<and> length buf < PRINTF_NTOA_BUFFER_SIZE then zero_fill n (buf @ [48]) else buf)"
  by pat_completeness auto

termination zero_fill
  by (relation "measure (\<lambda>(n, buf). n - length buf)") auto

declare zero_fill.simps [simp del]

text \<open>The parts of \<open>_ntoa_format\<close>: the width left for the zeros, the zeros, the prefix of \<open>#\<close>, and the sign.\<close>

definition format_width :: "bool \<Rightarrow> u32 \<Rightarrow> u32 \<Rightarrow> u32" where
  "format_width negative width flags =
     (if \<not> has flags FLAGS_LEFT \<and> width \<noteq> 0 \<and> has flags FLAGS_ZEROPAD \<and> (negative \<or> has flags (FLAGS_PLUS OR FLAGS_SPACE))
      then width - 1 else width)"

definition leading_zeros :: "u32 \<Rightarrow> u32 \<Rightarrow> u32 \<Rightarrow> u8 list \<Rightarrow> u8 list" where
  "leading_zeros prec width flags buf =
     (if has flags FLAGS_LEFT then buf
      else let buf1 = zero_fill (unat prec) buf in
        if has flags FLAGS_ZEROPAD then zero_fill (unat width) buf1 else buf1)"

definition hash_prefix :: "u32 \<Rightarrow> u32 \<Rightarrow> u32 \<Rightarrow> u32 \<Rightarrow> u8 list \<Rightarrow> u8 list" where
  "hash_prefix radix prec width flags buf =
     (if \<not> has flags FLAGS_HASH then buf
      else
        let buf1 =
              (if \<not> has flags FLAGS_PRECISION \<and> buf \<noteq> [] \<and> (length buf = unat prec \<or> length buf = unat width)
               then let b = butlast buf in if b \<noteq> [] \<and> radix = 16 then butlast b else b
               else buf);
            buf2 =
              (if radix = 16 then add_char (if has flags FLAGS_UPPERCASE then 88 else 120) buf1
               else if radix = 2 then add_char 98 buf1
               else buf1)
        in add_char 48 buf2)"

definition sign_char :: "bool \<Rightarrow> u32 \<Rightarrow> u8 list \<Rightarrow> u8 list" where
  "sign_char negative flags buf =
     (if negative then add_char 45 buf
      else if has flags FLAGS_PLUS then add_char 43 buf
      else if has flags FLAGS_SPACE then add_char 32 buf
      else buf)"

definition ntoa_buffer :: "u8 list \<Rightarrow> bool \<Rightarrow> u32 \<Rightarrow> u32 \<Rightarrow> u32 \<Rightarrow> u32 \<Rightarrow> u8 list" where
  "ntoa_buffer buf negative radix prec width flags =
     sign_char negative flags (hash_prefix radix prec width flags (leading_zeros prec width flags buf))"

definition ntoa_format :: "'s out \<Rightarrow> u8 list \<Rightarrow> bool \<Rightarrow> u32 \<Rightarrow> u32 \<Rightarrow> u32 \<Rightarrow> u32 \<Rightarrow> u32 \<times> 's \<Rightarrow> (u32 \<times> 's) res" where
  "ntoa_format out buf negative radix prec width flags =
     (let width1 = format_width negative width flags;
          buf1 = ntoa_buffer buf negative radix prec width1 flags
      in out_rev out buf1 (length buf1) width1 flags)"

definition ntoa_digit :: "bool \<Rightarrow> u8 \<Rightarrow> u8" where
  "ntoa_digit upper digit = (if digit < 10 then 48 + digit else (if upper then 65 else 97) + digit - 10)"

text \<open>The loop over the digits, for \<open>long\<close> and \<open>long long\<close>. The base is never zero.\<close>

function ntoa_digits :: "bool \<Rightarrow> 'w::len word \<Rightarrow> 'w word \<Rightarrow> u8 list \<Rightarrow> u8 list" where
  "ntoa_digits upper radix v buf =
     (let buf1 = buf @ [ntoa_digit upper (ucast (v mod radix))]; v1 = v div radix in
      if v1 \<noteq> 0 \<and> length buf1 < PRINTF_NTOA_BUFFER_SIZE then ntoa_digits upper radix v1 buf1 else buf1)"
  by pat_completeness auto

termination ntoa_digits
  by (relation "measure (\<lambda>(upper, radix, v, buf). PRINTF_NTOA_BUFFER_SIZE - length buf)") auto

declare ntoa_digits.simps [simp del]

definition ntoa :: "'s out \<Rightarrow> 'w::len word \<Rightarrow> bool \<Rightarrow> u32 \<Rightarrow> u32 \<Rightarrow> u32 \<Rightarrow> u32 \<Rightarrow> u32 \<times> 's \<Rightarrow> (u32 \<times> 's) res" where
  "ntoa out v negative radix prec width flags =
     (let flags1 = (if v = 0 then flags AND NOT FLAGS_HASH else flags);
          buf = (if \<not> has flags1 FLAGS_PRECISION \<or> v \<noteq> 0 then ntoa_digits (has flags1 FLAGS_UPPERCASE) (ucast radix) v [] else [])
      in ntoa_format out buf negative radix prec width flags1)"

definition ntoa_long :: "'s out \<Rightarrow> u32 \<Rightarrow> bool \<Rightarrow> u32 \<Rightarrow> u32 \<Rightarrow> u32 \<Rightarrow> u32 \<Rightarrow> u32 \<times> 's \<Rightarrow> (u32 \<times> 's) res" where
  "ntoa_long = ntoa"

definition ntoa_long_long :: "'s out \<Rightarrow> u64 \<Rightarrow> bool \<Rightarrow> u32 \<Rightarrow> u32 \<Rightarrow> u32 \<Rightarrow> u32 \<Rightarrow> u32 \<times> 's \<Rightarrow> (u32 \<times> 's) res" where
  "ntoa_long_long = ntoa"

section \<open>Conversion specifications\<close>

text \<open>Reading the character that the format pointer points to.\<close>

fun with_char :: "u8 list \<Rightarrow> (u8 \<Rightarrow> u8 list \<Rightarrow> 'a res) \<Rightarrow> 'a res" where
  "with_char [] f = Inl Out_Of_Bounds"
| "with_char (c # fmt) f = f c fmt"

text \<open>\<open>va_arg\<close> for types of four and of eight bytes.\<close>

fun next_arg :: "u32 list \<Rightarrow> (u32 \<times> u32 list) res" where
  "next_arg [] = Inl Out_Of_Bounds"
| "next_arg (a # args) = Inr (a, args)"

definition next_arg_long_long :: "u32 list \<Rightarrow> (u64 \<times> u32 list) res" where
  "next_arg_long_long args =
     and_then (next_arg args) (\<lambda>(low, args1). and_then (next_arg args1) (\<lambda>(high, args2). Inr (word_cat high low, args2)))"

fun flag_chars :: "u8 list \<Rightarrow> u32 \<Rightarrow> (u32 \<times> u8 list) res" where
  "flag_chars [] flags = Inl Out_Of_Bounds"
| "flag_chars (c # fmt) flags =
     (if c = 48 then flag_chars fmt (flags OR FLAGS_ZEROPAD)
      else if c = 45 then flag_chars fmt (flags OR FLAGS_LEFT)
      else if c = 43 then flag_chars fmt (flags OR FLAGS_PLUS)
      else if c = 32 then flag_chars fmt (flags OR FLAGS_SPACE)
      else if c = 35 then flag_chars fmt (flags OR FLAGS_HASH)
      else Inr (flags, c # fmt))"

definition width_field :: "u32 \<Rightarrow> u8 list \<Rightarrow> u32 list \<Rightarrow> (u32 \<times> u32 \<times> u8 list \<times> u32 list) res" where
  "width_field flags fmt args =
     with_char fmt (\<lambda>c rest.
       if is_digit c then and_then (parse_unsigned fmt 0) (\<lambda>(width, fmt1). Inr (flags, width, fmt1, args))
       else if c = 42 then
         and_then (next_arg args) (\<lambda>(w, args1).
         if w <s 0 then Inr (flags OR FLAGS_LEFT, - w, rest, args1) else Inr (flags, w, rest, args1))
       else Inr (flags, 0, fmt, args))"

definition precision_field :: "u32 \<Rightarrow> u8 list \<Rightarrow> u32 list \<Rightarrow> (u32 \<times> u32 \<times> u8 list \<times> u32 list) res" where
  "precision_field flags fmt args =
     with_char fmt (\<lambda>c fmt1.
       if c = 46 then
         with_char fmt1 (\<lambda>c1 fmt2.
           if is_digit c1 then and_then (parse_unsigned fmt1 0) (\<lambda>(prec, fmt3). Inr (flags OR FLAGS_PRECISION, prec, fmt3, args))
           else if c1 = 42 then
             and_then (next_arg args) (\<lambda>(prec, args1). Inr (flags OR FLAGS_PRECISION, if 0 <s prec then prec else 0, fmt2, args1))
           else Inr (flags OR FLAGS_PRECISION, 0, fmt1, args))
       else Inr (flags, 0, fmt, args))"

text \<open>The length modifiers; \<open>ptrdiff_t\<close> and \<open>size_t\<close> are as long as \<open>long\<close>, \<open>intmax_t\<close> is longer.\<close>

definition length_field :: "u32 \<Rightarrow> u8 list \<Rightarrow> (u32 \<times> u8 list) res" where
  "length_field flags fmt =
     with_char fmt (\<lambda>c fmt1.
       if c = 108 then
         with_char fmt1 (\<lambda>c1 fmt2.
           if c1 = 108 then Inr (flags OR FLAGS_LONG OR FLAGS_LONG_LONG, fmt2) else Inr (flags OR FLAGS_LONG, fmt1))
       else if c = 104 then
         with_char fmt1 (\<lambda>c1 fmt2.
           if c1 = 104 then Inr (flags OR FLAGS_SHORT OR FLAGS_CHAR, fmt2) else Inr (flags OR FLAGS_SHORT, fmt1))
       else if c = 116 \<or> c = 122 then Inr (flags OR FLAGS_LONG, fmt1)
       else if c = 106 then Inr (flags OR FLAGS_LONG_LONG, fmt1)
       else Inr (flags, fmt))"

record conversion =
  cv_flags :: u32
  cv_width :: u32
  cv_precision :: u32
  cv_specifier :: u8

text \<open>Everything between \<open>%\<close> and the specifier, which is read as well; the rest of the format and of the arguments.\<close>

definition conversion_spec :: "u8 list \<Rightarrow> u32 list \<Rightarrow> (conversion \<times> u8 list \<times> u32 list) res" where
  "conversion_spec fmt args =
     and_then (flag_chars fmt 0) (\<lambda>(f1, fmt1).
     and_then (width_field f1 fmt1 args) (\<lambda>(f2, width, fmt2, args1).
     and_then (precision_field f2 fmt2 args1) (\<lambda>(f3, prec, fmt3, args2).
     and_then (length_field f3 fmt3) (\<lambda>(f4, fmt4).
     with_char fmt4 (\<lambda>c fmt5.
       Inr (\<lparr>cv_flags = f4, cv_width = width, cv_precision = prec, cv_specifier = c\<rparr>, fmt5, args2))))))"

section \<open>Conversions\<close>

definition int_radix :: "u8 \<Rightarrow> u32" where
  "int_radix c = (if c = 120 \<or> c = 88 then 16 else if c = 111 then 8 else if c = 98 then 2 else 10)"

definition is_signed :: "u8 \<Rightarrow> bool" where
  "is_signed c \<longleftrightarrow> c = 105 \<or> c = 100"

definition int_flags :: "u8 \<Rightarrow> u32 \<Rightarrow> u32" where
  "int_flags c flags =
     (let f1 = (if int_radix c = 10 then flags AND NOT FLAGS_HASH else flags);
          f2 = (if c = 88 then f1 OR FLAGS_UPPERCASE else f1);
          f3 = (if \<not> is_signed c then f2 AND NOT (FLAGS_PLUS OR FLAGS_SPACE) else f2)
      in if has f3 FLAGS_PRECISION then f3 AND NOT FLAGS_ZEROPAD else f3)"

text \<open>\<open>value > 0 ? value : 0 - value\<close>, with wrap-around for the smallest number.\<close>

definition magnitude :: "'w::len word \<Rightarrow> 'w word" where
  "magnitude v = (if 0 <s v then v else 0 - v)"

text \<open>The conversions to \<open>char\<close> and \<open>short\<close> of the modifiers \<open>hh\<close> and \<open>h\<close>.\<close>

definition narrow_int :: "bool \<Rightarrow> u32 \<Rightarrow> u32 \<Rightarrow> u32" where
  "narrow_int signed_conv flags a =
     (if has flags FLAGS_LONG then a
      else if has flags FLAGS_CHAR then (if signed_conv then scast (ucast a :: u8) else ucast (ucast a :: u8))
      else if has flags FLAGS_SHORT then (if signed_conv then scast (ucast a :: u16) else ucast (ucast a :: u16))
      else a)"

definition convert_int :: "'s out \<Rightarrow> conversion \<Rightarrow> u32 list \<Rightarrow> u32 \<times> 's \<Rightarrow> (u32 list \<times> u32 \<times> 's) res" where
  "convert_int out cv args k =
     (let c = cv_specifier cv; flags = int_flags c (cv_flags cv); signed_conv = is_signed c in
      if has flags FLAGS_LONG_LONG then
        and_then (next_arg_long_long args) (\<lambda>(v, rest).
        and_then (ntoa_long_long out (if signed_conv then magnitude v else v) (signed_conv \<and> v <s 0) (int_radix c) (cv_precision cv) (cv_width cv) flags k) (\<lambda>k1.
        Inr (rest, k1)))
      else
        and_then (next_arg args) (\<lambda>(a, rest).
        let v = narrow_int signed_conv flags a in
        and_then (ntoa_long out (if signed_conv then magnitude v else v) (signed_conv \<and> v <s 0) (int_radix c) (cv_precision cv) (cv_width cv) flags k) (\<lambda>k1.
        Inr (rest, k1))))"

definition convert_char :: "'s out \<Rightarrow> conversion \<Rightarrow> u32 list \<Rightarrow> u32 \<times> 's \<Rightarrow> (u32 list \<times> u32 \<times> 's) res" where
  "convert_char out cv args k =
     (let left = has (cv_flags cv) FLAGS_LEFT; pad = unat (cv_width cv) - 1 in
      and_then (if \<not> left then out_times out pad 32 k else Inr k) (\<lambda>k1.
      and_then (next_arg args) (\<lambda>(a, rest).
      and_then (put out (ucast a) k1) (\<lambda>k2.
      and_then (if left then out_times out pad 32 k2 else Inr k2) (\<lambda>k3. Inr (rest, k3))))))"

text \<open>\<open>while ((*p != 0) && (!(flags & FLAGS_PRECISION) || precision--))\<close>.\<close>

fun out_string :: "'s out \<Rightarrow> bool \<Rightarrow> u8 list \<Rightarrow> u32 \<Rightarrow> u32 \<times> 's \<Rightarrow> (u32 \<times> 's) res" where
  "out_string out limited [] prec k = Inl Out_Of_Bounds"
| "out_string out limited (c # p) prec k =
     (if c \<noteq> 0 \<and> (\<not> limited \<or> prec \<noteq> 0)
      then and_then (put out c k) (out_string out limited p (if limited then prec - 1 else prec))
      else Inr k)"

definition convert_string :: "(u32 \<Rightarrow> u8 list) \<Rightarrow> 's out \<Rightarrow> conversion \<Rightarrow> u32 list \<Rightarrow> u32 \<times> 's \<Rightarrow> (u32 list \<times> u32 \<times> 's) res" where
  "convert_string str out cv args k =
     (let left = has (cv_flags cv) FLAGS_LEFT; limited = has (cv_flags cv) FLAGS_PRECISION; prec = cv_precision cv in
      and_then (next_arg args) (\<lambda>(a, rest).
      and_then (strnlen_s (str a) (if prec \<noteq> 0 then prec else - 1)) (\<lambda>n.
      let l = (if limited then (if n < prec then n else prec) else n); pad = unat (cv_width cv) - unat l in
      and_then (if \<not> left then out_times out pad 32 k else Inr k) (\<lambda>k1.
      and_then (out_string out limited (str a) prec k1) (\<lambda>k2.
      and_then (if left then out_times out pad 32 k2 else Inr k2) (\<lambda>k3. Inr (rest, k3)))))))"

definition convert_pointer :: "'s out \<Rightarrow> conversion \<Rightarrow> u32 list \<Rightarrow> u32 \<times> 's \<Rightarrow> (u32 list \<times> u32 \<times> 's) res" where
  "convert_pointer out cv args k =
     and_then (next_arg args) (\<lambda>(a, rest).
     and_then (ntoa_long out a False 16 (cv_precision cv) 8 (cv_flags cv OR (FLAGS_ZEROPAD OR FLAGS_UPPERCASE)) k) (\<lambda>k1. Inr (rest, k1)))"

type_synonym reals = "u8 \<Rightarrow> u64 \<Rightarrow> u32 \<Rightarrow> u32 \<Rightarrow> u32 \<Rightarrow> u8 list"

fun out_chars :: "'s out \<Rightarrow> u8 list \<Rightarrow> u32 \<times> 's \<Rightarrow> (u32 \<times> 's) res" where
  "out_chars out [] k = Inr k"
| "out_chars out (c # cs) k = and_then (put out c k) (out_chars out cs)"

text \<open>The cases \<open>f\<close>, \<open>F\<close>, \<open>e\<close>, \<open>E\<close>, \<open>g\<close> and \<open>G\<close> with the flags that they set.\<close>

definition real_flags :: "u8 \<Rightarrow> u32 \<Rightarrow> u32" where
  "real_flags c flags =
     (let f1 = (if c = 103 \<or> c = 71 then flags OR FLAGS_ADAPT_EXP else flags) in
      if c = 70 \<or> c = 69 \<or> c = 71 then f1 OR FLAGS_UPPERCASE else f1)"

definition convert_real :: "reals \<Rightarrow> 's out \<Rightarrow> conversion \<Rightarrow> u32 list \<Rightarrow> u32 \<times> 's \<Rightarrow> (u32 list \<times> u32 \<times> 's) res" where
  "convert_real real out cv args k =
     and_then (next_arg_long_long args) (\<lambda>(v, rest).
     and_then (out_chars out (real (cv_specifier cv) v (cv_precision cv) (cv_width cv) (real_flags (cv_specifier cv) (cv_flags cv))) k) (\<lambda>k1.
     Inr (rest, k1)))"

definition convert_any :: "(u32 \<Rightarrow> u8 list) \<Rightarrow> reals \<Rightarrow> 's out \<Rightarrow> conversion \<Rightarrow> u32 list \<Rightarrow> u32 \<times> 's \<Rightarrow> (u32 list \<times> u32 \<times> 's) res" where
  "convert_any str real out cv args k =
     (let c = cv_specifier cv in
      if c \<in> {100, 105, 117, 120, 88, 111, 98} then convert_int out cv args k
      else if c \<in> {102, 70, 101, 69, 103, 71} then convert_real real out cv args k
      else if c = 99 then convert_char out cv args k
      else if c = 115 then convert_string str out cv args k
      else if c = 112 then convert_pointer out cv args k
      else and_then (put out c k) (\<lambda>k1. Inr (args, k1)))"

section \<open>The loop over the format\<close>

lemma flag_chars_length: "flag_chars fmt f = Inr (f', r) \<Longrightarrow> length r \<le> length fmt"
  by (induction fmt f rule: flag_chars.induct) (auto split: if_splits)

lemma parse_unsigned_length: "parse_unsigned fmt i = Inr (n, r) \<Longrightarrow> length r \<le> length fmt"
  by (induction fmt i rule: parse_unsigned.induct) (auto split: if_splits)

lemma with_char_eq_Inr: "with_char fmt f = Inr x \<longleftrightarrow> (\<exists>c r. fmt = c # r \<and> f c r = Inr x)"
  by (cases fmt) auto

lemma width_field_length: "width_field f fmt args = Inr (f', w, r, args') \<Longrightarrow> length r \<le> length fmt"
  by (auto simp: width_field_def with_char_eq_Inr and_then_eq_Inr split: if_splits dest!: parse_unsigned_length)

lemma precision_field_length: "precision_field f fmt args = Inr (f', p, r, args') \<Longrightarrow> length r \<le> length fmt"
  by (auto simp: precision_field_def with_char_eq_Inr and_then_eq_Inr split: if_splits dest!: parse_unsigned_length)

lemma length_field_length: "length_field f fmt = Inr (f', r) \<Longrightarrow> length r \<le> length fmt"
  by (auto simp: length_field_def with_char_eq_Inr split: if_splits)

lemma conversion_spec_length:
  assumes "conversion_spec fmt args = Inr (cv, r, args')" shows "length r < length fmt"
proof -
  obtain f1 fmt1 f2 w fmt2 args1 f3 p fmt3 args2 f4 fmt4 c where s:
    "flag_chars fmt 0 = Inr (f1, fmt1)" "width_field f1 fmt1 args = Inr (f2, w, fmt2, args1)"
    "precision_field f2 fmt2 args1 = Inr (f3, p, fmt3, args2)" "length_field f3 fmt3 = Inr (f4, fmt4)" "fmt4 = c # r"
    using assms by (auto simp: conversion_spec_def and_then_eq_Inr with_char_eq_Inr)
  show ?thesis
    using flag_chars_length [OF s(1)] width_field_length [OF s(2)] precision_field_length [OF s(3)] length_field_length [OF s(4)] s(5) by simp
qed

lemma and_then_cong [fundef_cong]: "m = m' \<Longrightarrow> (\<And>x. m' = Inr x \<Longrightarrow> f x = g x) \<Longrightarrow> and_then m f = and_then m' g"
  by (cases m') auto

function format_out :: "(u32 \<Rightarrow> u8 list) \<Rightarrow> reals \<Rightarrow> 's out \<Rightarrow> u8 list \<Rightarrow> u32 list \<Rightarrow> u32 \<times> 's \<Rightarrow> (u32 \<times> 's) res" where
  "format_out str real out [] args k = Inl Out_Of_Bounds"
| "format_out str real out (c # fmt) args k =
     (if c = 0 then Inr k
      else if c \<noteq> 37 then and_then (put out c k) (\<lambda>k1. format_out str real out fmt args k1)
      else
        and_then (conversion_spec fmt args) (\<lambda>(cv, fmt1, args1).
        and_then (convert_any str real out cv args1 k) (\<lambda>(args2, k1).
        format_out str real out fmt1 args2 k1)))"
  by pat_completeness auto

termination format_out
  by (relation "measure (\<lambda>(str, real, out, fmt, args, k). length fmt)") (auto dest: conversion_spec_length)

text \<open>\<open>_vsnprintf\<close>: the result is the number of characters, without the terminator, and the sink.\<close>

definition internal_vsnprintf :: "(u32 \<Rightarrow> u8 list) \<Rightarrow> reals \<Rightarrow> 's out \<Rightarrow> u32 \<Rightarrow> u8 list \<Rightarrow> u32 list \<Rightarrow> 's \<Rightarrow> (u32 \<times> 's) res" where
  "internal_vsnprintf str real out maxlen fmt args s =
     and_then (format_out str real out fmt args (0, s)) (\<lambda>(idx, s1).
     and_then (out 0 (if idx < maxlen then idx else maxlen - 1) s1) (\<lambda>s2. Inr (idx, s2)))"

section \<open>The functions that are called\<close>

text \<open>The buffer is never a null pointer in the kernel; with one, the output function is \<open>out_null\<close>.\<close>

definition kernel_vsnprintf :: "(u32 \<Rightarrow> u8 list) \<Rightarrow> reals \<Rightarrow> u8 list \<Rightarrow> u32 \<Rightarrow> u8 list \<Rightarrow> u32 list \<Rightarrow> (u32 \<times> u8 list) res" where
  "kernel_vsnprintf str real buffer count fmt args = internal_vsnprintf str real (out_buffer count) count fmt args buffer"

definition kernel_snprintf :: "(u32 \<Rightarrow> u8 list) \<Rightarrow> reals \<Rightarrow> u8 list \<Rightarrow> u32 \<Rightarrow> u8 list \<Rightarrow> u32 list \<Rightarrow> (u32 \<times> u8 list) res" where
  "kernel_snprintf str real buffer count fmt args = internal_vsnprintf str real (out_buffer count) count fmt args buffer"

definition kernel_sprintf :: "(u32 \<Rightarrow> u8 list) \<Rightarrow> reals \<Rightarrow> u8 list \<Rightarrow> u8 list \<Rightarrow> u32 list \<Rightarrow> (u32 \<times> u8 list) res" where
  "kernel_sprintf str real buffer fmt args = internal_vsnprintf str real (out_buffer (- 1)) (- 1) fmt args buffer"

text \<open>\<open>printf_\<close> and \<open>vprintf_\<close> with \<open>_putchar\<close>, and \<open>fctprintf\<close> with the given function.\<close>

definition fctprintf :: "(u32 \<Rightarrow> u8 list) \<Rightarrow> reals \<Rightarrow> (u8 \<Rightarrow> 's \<Rightarrow> 's res) \<Rightarrow> u8 list \<Rightarrow> u32 list \<Rightarrow> 's \<Rightarrow> (u32 \<times> 's) res" where
  "fctprintf str real fct fmt args = internal_vsnprintf str real (out_fct fct) (- 1) fmt args"

end
