(* ===== verification/Log_Buffer.thy ===== *)
theory Log_Buffer
  imports Kernel_Printf Console
begin

text \<open>
  The buffer of a log message (\<open>kernel/log.c\<close>): the message is formatted into 256 bytes on the stack, a line
  feed and a terminator are stored behind as many characters as the whole message has. What a handler that
  logs sees of it is whether these two stores stay in the buffer.
\<close>

definition LOG_SIZE :: nat where "LOG_SIZE = 256"

definition finish_line :: "nat \<Rightarrow> u8 list \<Rightarrow> u8 list res" where
  "finish_line n buffer =
     in_bounds n (length buffer) (in_bounds (n + 1) (length buffer) (Inr (buffer[n := NEWLINE, n + 1 := 0])))"

text \<open>A message with one string argument. No format that is used here prints a real number, and what the
  buffer contains before does not matter for the stores.\<close>

definition log_message :: "u8 list \<Rightarrow> u8 list \<Rightarrow> u32 list \<Rightarrow> unit res" where
  "log_message fmt str args =
     and_then (kernel_vsnprintf (\<lambda>a. str) (\<lambda>c v p w f. []) (replicate LOG_SIZE 0) (of_nat (LOG_SIZE - 2)) fmt args) (\<lambda>(num, buffer1).
     and_then (finish_line (unat num) buffer1) (\<lambda>buffer. Inr ()))"

end
