(* ===== verification/Kernel_Printf_Props.thy ===== *)
theory Kernel_Printf_Props
  imports Kernel_Printf
begin

text \<open>
  What the formatted output of the kernel prints. \<open>printf_text\<close> is the text of a format; the locale
  \<open>printer\<close> is the contract of an output function, under which the code prints exactly this text.
  It is interpreted for the output into a buffer and for the null output. Fields of numbers and of
  strings have the form that the standard describes, with one exception.
\<close>

section \<open>The text of a format\<close>

definition aligned :: "bool \<Rightarrow> nat \<Rightarrow> u8 list \<Rightarrow> u8 list" where
  "aligned left width t = (if left then t @ replicate (width - length t) 32 else replicate (width - length t) 32 @ t)"

definition rev_text :: "u8 list \<Rightarrow> u32 \<Rightarrow> u32 \<Rightarrow> u8 list" where
  "rev_text buf width flags =
     (if has flags FLAGS_LEFT then aligned True (unat width) (rev buf)
      else if has flags FLAGS_ZEROPAD then rev buf else aligned False (unat width) (rev buf))"

definition ntoa_text :: "'w::len word \<Rightarrow> bool \<Rightarrow> u32 \<Rightarrow> u32 \<Rightarrow> u32 \<Rightarrow> u32 \<Rightarrow> u8 list" where
  "ntoa_text v negative radix prec width flags =
     (let flags1 = (if v = 0 then flags AND NOT FLAGS_HASH else flags);
          buf = (if \<not> has flags1 FLAGS_PRECISION \<or> v \<noteq> 0 then ntoa_digits (has flags1 FLAGS_UPPERCASE) (ucast radix) v [] else []);
          width1 = format_width negative width flags1
      in rev_text (ntoa_buffer buf negative radix prec width1 flags1) width1 flags1)"

definition int_text :: "conversion \<Rightarrow> u32 list \<Rightarrow> (u32 list \<times> u8 list) res" where
  "int_text cv args =
     (let c = cv_specifier cv; flags = int_flags c (cv_flags cv); sg = is_signed c in
      if has flags FLAGS_LONG_LONG then
        and_then (next_arg_long_long args) (\<lambda>(v, rest).
        Inr (rest, ntoa_text (if sg then magnitude v else v) (sg \<and> v <s 0) (int_radix c) (cv_precision cv) (cv_width cv) flags))
      else
        and_then (next_arg args) (\<lambda>(a, rest).
        let v = narrow_int sg flags a in
        Inr (rest, ntoa_text (if sg then magnitude v else v) (sg \<and> v <s 0) (int_radix c) (cv_precision cv) (cv_width cv) flags)))"

text \<open>A string has a terminator; a precision cuts it.\<close>

definition string_text :: "(u32 \<Rightarrow> u8 list) \<Rightarrow> conversion \<Rightarrow> u32 list \<Rightarrow> (u32 list \<times> u8 list) res" where
  "string_text str cv args =
     and_then (next_arg args) (\<lambda>(a, rest).
     and_then (c_string (str a)) (\<lambda>s.
     Inr (rest, aligned (has (cv_flags cv) FLAGS_LEFT) (unat (cv_width cv))
       (if has (cv_flags cv) FLAGS_PRECISION then take (unat (cv_precision cv)) s else s))))"

definition any_text :: "(u32 \<Rightarrow> u8 list) \<Rightarrow> reals \<Rightarrow> conversion \<Rightarrow> u32 list \<Rightarrow> (u32 list \<times> u8 list) res" where
  "any_text str real cv args =
     (let c = cv_specifier cv in
      if c \<in> {100, 105, 117, 120, 88, 111, 98} then int_text cv args
      else if c \<in> {102, 70, 101, 69, 103, 71} then
        and_then (next_arg_long_long args) (\<lambda>(v, rest). Inr (rest, real c v (cv_precision cv) (cv_width cv) (real_flags c (cv_flags cv))))
      else if c = 99 then
        and_then (next_arg args) (\<lambda>(a, rest). Inr (rest, aligned (has (cv_flags cv) FLAGS_LEFT) (unat (cv_width cv)) [ucast a]))
      else if c = 115 then string_text str cv args
      else if c = 112 then
        and_then (next_arg args) (\<lambda>(a, rest).
        Inr (rest, ntoa_text a False 16 (cv_precision cv) 8 (cv_flags cv OR (FLAGS_ZEROPAD OR FLAGS_UPPERCASE))))
      else Inr (args, [c]))"

function printf_text :: "(u32 \<Rightarrow> u8 list) \<Rightarrow> reals \<Rightarrow> u8 list \<Rightarrow> u32 list \<Rightarrow> u8 list res" where
  "printf_text str real [] args = Inl Out_Of_Bounds"
| "printf_text str real (c # fmt) args =
     (if c = 0 then Inr []
      else if c \<noteq> 37 then and_then (printf_text str real fmt args) (\<lambda>t. Inr (c # t))
      else
        and_then (conversion_spec fmt args) (\<lambda>(cv, fmt1, args1).
        and_then (any_text str real cv args1) (\<lambda>(args2, u).
        and_then (printf_text str real fmt1 args2) (\<lambda>t. Inr (u @ t)))))"
  by pat_completeness auto

termination printf_text
  by (relation "measure (\<lambda>(str, real, fmt, args). length fmt)") (auto dest: conversion_spec_length)

section \<open>Printers\<close>

text \<open>\<open>R t s\<close>: the sink \<open>s\<close> has got the text \<open>t\<close>. \<open>prints m R f u\<close>: the code \<open>f\<close> adds \<open>u\<close> as long as the
  text has at most \<open>m\<close> characters.\<close>

definition prints :: "nat \<Rightarrow> (u8 list \<Rightarrow> 's \<Rightarrow> bool) \<Rightarrow> (u32 \<times> 's \<Rightarrow> (u32 \<times> 's) res) \<Rightarrow> u8 list \<Rightarrow> bool" where
  "prints m R f u \<longleftrightarrow>
     (\<forall>t s. R t s \<longrightarrow> length t + length u \<le> m \<longrightarrow>
       (\<exists>s'. f (of_nat (length t), s) = Inr (of_nat (length t + length u), s') \<and> R (t @ u) s'))"

lemma printsI:
  "(\<And>t s. R t s \<Longrightarrow> length t + length u \<le> m \<Longrightarrow>
     \<exists>s'. f (of_nat (length t), s) = Inr (of_nat (length t + length u), s') \<and> R (t @ u) s') \<Longrightarrow> prints m R f u"
  by (simp add: prints_def)

lemma printsE:
  assumes "prints m R f u" and "R t s" and "length t + length u \<le> m"
  obtains s' where "f (of_nat (length t), s) = Inr (of_nat (length t + length u), s')" and "R (t @ u) s'"
  using assms unfolding prints_def by blast

lemma prints_eq: "(\<And>k. f k = g k) \<Longrightarrow> prints m R f u = prints m R g u"
  by (simp add: prints_def)

lemma prints_nothing: "prints m R Inr []"
  by (simp add: prints_def)

lemma prints_then:
  assumes "prints m R f u" and "prints m R g v"
  shows "prints m R (\<lambda>k. and_then (f k) g) (u @ v)"
proof (rule printsI)
  fix t s
  assume r: "R t s" and len: "length t + length (u @ v) \<le> m"
  obtain s1 where s1: "f (of_nat (length t), s) = Inr (of_nat (length t + length u), s1)" "R (t @ u) s1"
    using printsE [OF assms(1) r] len by auto
  obtain s2 where "g (of_nat (length (t @ u)), s1) = Inr (of_nat (length (t @ u) + length v), s2)" "R ((t @ u) @ v) s2"
    using printsE [OF assms(2) s1(2)] len by auto
  then show "\<exists>s'. and_then (f (of_nat (length t), s)) g = Inr (of_nat (length t + length (u @ v)), s') \<and> R (t @ u @ v) s'"
    using s1(1) by (simp add: add.assoc)
qed

lemma prints_if: "prints m R f u \<Longrightarrow> prints m R (\<lambda>k. if b then f k else Inr k) (if b then u else [])"
  by (simp add: prints_nothing)

text \<open>The same for code that also uses arguments.\<close>

definition converts :: "nat \<Rightarrow> (u8 list \<Rightarrow> 's \<Rightarrow> bool) \<Rightarrow> (u32 \<times> 's \<Rightarrow> ('r \<times> u32 \<times> 's) res) \<Rightarrow> 'r \<Rightarrow> u8 list \<Rightarrow> bool" where
  "converts m R f rest u \<longleftrightarrow>
     (\<forall>t s. R t s \<longrightarrow> length t + length u \<le> m \<longrightarrow>
       (\<exists>s'. f (of_nat (length t), s) = Inr (rest, of_nat (length t + length u), s') \<and> R (t @ u) s'))"

lemma converts_prints:
  assumes "prints m R f u" and "\<And>k. g k = and_then (f k) (\<lambda>k1. Inr (rest, k1))"
  shows "converts m R g rest u"
  unfolding converts_def
proof (intro allI impI)
  fix t s
  assume "R t s" "length t + length u \<le> m"
  with assms(1) obtain s' where "f (of_nat (length t), s) = Inr (of_nat (length t + length u), s')" "R (t @ u) s'"
    by (rule printsE)
  then show "\<exists>s'. g (of_nat (length t), s) = Inr (rest, of_nat (length t + length u), s') \<and> R (t @ u) s'" by (simp add: assms(2))
qed

lemma prints_after_conversion:
  assumes "converts m R f rest u" and "prints m R (g rest) v"
  shows "prints m R (\<lambda>k. and_then (f k) (\<lambda>(r, k1). g r k1)) (u @ v)"
proof (rule printsI)
  fix t s
  assume r: "R t s" and len: "length t + length (u @ v) \<le> m"
  have "length t + length u \<le> m" using len by simp
  with assms(1) r obtain s1 where s1: "f (of_nat (length t), s) = Inr (rest, of_nat (length t + length u), s1)" "R (t @ u) s1"
    unfolding converts_def by blast
  obtain s2 where "g rest (of_nat (length (t @ u)), s1) = Inr (of_nat (length (t @ u) + length v), s2)" "R ((t @ u) @ v) s2"
    using printsE [OF assms(2) s1(2)] len by auto
  then show "\<exists>s'. and_then (f (of_nat (length t), s)) (\<lambda>(r, k1). g r k1) = Inr (of_nat (length t + length (u @ v)), s') \<and> R (t @ u @ v) s'"
    using s1(1) by (simp add: add.assoc)
qed

lemma strnlen_s_eq: "0 \<in> set p \<Longrightarrow> strnlen_s p m = Inr (of_nat (min (length (takeWhile (\<lambda>c. c \<noteq> 0) p)) (unat m)))"
proof (induction p arbitrary: m)
  case (Cons c p)
  have "unat m = Suc (unat (m - 1))" if "m \<noteq> 0"
    using that by (simp add: unat_minus_one unat_gt_0)
  then show ?case using Cons by (auto simp: add.commute)
qed simp

lemma has_or: "has (a OR b) f \<longleftrightarrow> has a f \<or> has b f"
  by (simp add: has_def bit.conj_disj_distrib2 or_eq_0_iff)

lemma conversion_spec_precision:
  "conversion_spec fmt args = Inr (cv, r, args') \<Longrightarrow> cv_precision cv \<noteq> 0 \<Longrightarrow> has (cv_flags cv) FLAGS_PRECISION"
proof -
  have p: "has FLAGS_PRECISION FLAGS_PRECISION" by (simp add: has_def FLAGS_PRECISION_def)
  have "has f' FLAGS_PRECISION" if "precision_field f fmt args = Inr (f', q, r, args')" "q \<noteq> 0" for f f' q fmt r args args'
    using that p by (auto simp: precision_field_def with_char_eq_Inr and_then_eq_Inr has_or split: if_splits)
  moreover have "has f' FLAGS_PRECISION" if "length_field f fmt = Inr (f', r)" "has f FLAGS_PRECISION" for f f' fmt r
    using that by (auto simp: length_field_def with_char_eq_Inr has_or split: if_splits)
  ultimately show "conversion_spec fmt args = Inr (cv, r, args') \<Longrightarrow> cv_precision cv \<noteq> 0 \<Longrightarrow> has (cv_flags cv) FLAGS_PRECISION"
    by (auto simp: conversion_spec_def and_then_eq_Inr with_char_eq_Inr)
qed

lemma length_aligned: "length t \<le> length (aligned left width t)"
  by (simp add: aligned_def)

locale printer =
  fixes out :: "'s out" and R :: "u8 list \<Rightarrow> 's \<Rightarrow> bool" and m :: nat
  assumes max_small: "m < 2 ^ 32"
    and out_shows: "R t s \<Longrightarrow> length t + 1 \<le> m \<Longrightarrow> \<exists>s'. out c (of_nat (length t)) s = Inr s' \<and> R (t @ [c]) s'"
begin

lemma put_prints: "prints m R (put out c) [c]"
proof (rule printsI)
  fix t s
  assume "R t s" "length t + length [c] \<le> m"
  then obtain s' where "out c (of_nat (length t)) s = Inr s'" "R (t @ [c]) s'" using out_shows [of t s c] by auto
  then show "\<exists>s'. put out c (of_nat (length t), s) = Inr (of_nat (length t + length [c]), s') \<and> R (t @ [c]) s'"
    by (auto simp: put_def add.commute)
qed

lemma times_prints: "prints m R (out_times out n c) (replicate n c)"
proof (induction n)
  case (Suc n)
  then show ?case using prints_then [OF put_prints [of c] Suc] by simp
qed (simp add: prints_nothing)

lemma chars_prints: "prints m R (out_chars out cs) cs"
proof (induction cs)
  case (Cons c cs)
  then show ?case using prints_then [OF put_prints [of c] Cons] by simp
qed (simp add: prints_nothing)

lemma reversed_prints: "len \<le> length buf \<Longrightarrow> prints m R (out_reversed out buf len) (rev (take len buf))"
proof (induction len)
  case 0
  show ?case by (simp add: prints_def)
next
  case (Suc len)
  then have "prints m R (\<lambda>k. and_then (put out (buf ! len) k) (out_reversed out buf len)) ([buf ! len] @ rev (take len buf))"
    by (intro prints_then put_prints) simp
  then show ?case using Suc.prems by (simp add: take_Suc_conv_app_nth prints_eq [of "out_reversed out buf (Suc len)"])
qed

lemma string_prints:
  assumes "0 \<in> set p"
  shows "prints m R (out_string out limited p prec) (let s = takeWhile (\<lambda>c. c \<noteq> 0) p in if limited then take (unat prec) s else s)"
  using assms
proof (induction p arbitrary: prec)
  case (Cons c p)
  show ?case
  proof (cases "c \<noteq> 0 \<and> (\<not> limited \<or> prec \<noteq> 0)")
    case True
    moreover have "unat prec = Suc (unat (prec - 1))" if "prec \<noteq> 0"
      using that by (simp add: unat_minus_one unat_gt_0)
    ultimately show ?thesis
      using prints_then [OF put_prints [of c] Cons.IH [of "if limited then prec - 1 else prec"]] Cons.prems
      by (auto simp: Let_def split: if_splits)
  next
    case False
    then show ?thesis by (auto simp: Let_def prints_nothing)
  qed
qed simp

lemma rev_prints: "prints m R (out_rev out buf (length buf) width flags) (rev_text buf width flags)"
proof (rule printsI)
  fix t s
  assume r: "R t s" and len: "length t + length (rev_text buf width flags) \<le> m"
  let ?n = "unat width - length buf"
  note rv = reversed_prints [of "length buf" buf, simplified]
  show "\<exists>s'. out_rev out buf (length buf) width flags (of_nat (length t), s) =
      Inr (of_nat (length t + length (rev_text buf width flags)), s') \<and> R (t @ rev_text buf width flags) s'"
  proof (cases "has flags FLAGS_LEFT")
    case True
    then have shape: "rev_text buf width flags = rev buf @ replicate ?n 32" by (simp add: rev_text_def aligned_def)
    obtain s1 where s1: "out_reversed out buf (length buf) (of_nat (length t), s) = Inr (of_nat (length t + length buf), s1)" "R (t @ rev buf) s1"
      using printsE [OF rv r] len shape by auto
    have "of_nat (length t + length buf) - of_nat (length t) = (of_nat (length buf) :: u32)" by simp
    moreover have "unat (of_nat (length buf) :: u32) = length buf" using len shape max_small by (intro unat_of_nat_small) simp
    ultimately have n: "unat (of_nat (length t + length buf) - of_nat (length t) :: u32) = length buf" by simp
    obtain s2 where "out_times out ?n 32 (of_nat (length (t @ rev buf)), s1) = Inr (of_nat (length (t @ rev buf) + ?n), s2)"
      "R ((t @ rev buf) @ replicate ?n 32) s2"
      using printsE [OF times_prints [of ?n 32] s1(2)] len shape by auto
    then show ?thesis using True s1(1) shape n by (simp add: out_rev_def add.assoc)
  next
    case False
    let ?pad = "\<lambda>k. if \<not> has flags FLAGS_ZEROPAD then out_times out ?n 32 k else Inr k"
    have "rev_text buf width flags = (if \<not> has flags FLAGS_ZEROPAD then replicate ?n 32 else []) @ rev buf"
      using False by (simp add: rev_text_def aligned_def)
    then have "prints m R (\<lambda>k. and_then (?pad k) (out_reversed out buf (length buf))) (rev_text buf width flags)"
      using prints_then [OF prints_if [OF times_prints [of ?n 32], of "\<not> has flags FLAGS_ZEROPAD"] rv] by simp
    moreover have "out_rev out buf (length buf) width flags k = and_then (?pad k) (out_reversed out buf (length buf))" for k
    proof -
      have id: "and_then m Inr = m" for m :: "'c res" by (cases m) auto
      show ?thesis using False by (simp add: out_rev_def id)
    qed
    ultimately show ?thesis using r len by (auto simp: prints_def)
  qed
qed

lemma ntoa_prints: "prints m R (ntoa out v negative radix prec width flags) (ntoa_text v negative radix prec width flags)"
  by (simp add: ntoa_def ntoa_text_def ntoa_format_def Let_def rev_prints)

lemma aligned_prints:
  assumes "prints m R f u"
  shows "prints m R (\<lambda>k. and_then (and_then (if \<not> left then out_times out (width - length u) 32 k else Inr k) f)
      (\<lambda>k2. if left then out_times out (width - length u) 32 k2 else Inr k2)) (aligned left width u)"
  using prints_then [OF prints_then [OF prints_if [OF times_prints [of "width - length u" 32], of "\<not> left"] assms]
      prints_if [OF times_prints [of "width - length u" 32], of left]]
  by (cases left) (simp_all add: aligned_def)

lemma int_converts:
  assumes "int_text cv args = Inr (rest, u)"
  shows "converts m R (convert_int out cv args) rest u"
proof (cases "has (int_flags (cv_specifier cv) (cv_flags cv)) FLAGS_LONG_LONG")
  case True
  then obtain v where v: "next_arg_long_long args = Inr (v, rest)"
    using assms by (auto simp: int_text_def Let_def and_then_eq_Inr)
  have u: "u = ntoa_text (if is_signed (cv_specifier cv) then magnitude v else v) (is_signed (cv_specifier cv) \<and> v <s 0)
      (int_radix (cv_specifier cv)) (cv_precision cv) (cv_width cv) (int_flags (cv_specifier cv) (cv_flags cv))"
    using assms True v by (simp add: int_text_def Let_def)
  show ?thesis unfolding u
    by (rule converts_prints [OF ntoa_prints]) (simp add: True v convert_int_def Let_def ntoa_long_long_def)
next
  case False
  then obtain a where a: "next_arg args = Inr (a, rest)"
    using assms by (auto simp: int_text_def Let_def and_then_eq_Inr)
  let ?v = "narrow_int (is_signed (cv_specifier cv)) (int_flags (cv_specifier cv) (cv_flags cv)) a"
  have u: "u = ntoa_text (if is_signed (cv_specifier cv) then magnitude ?v else ?v) (is_signed (cv_specifier cv) \<and> ?v <s 0)
      (int_radix (cv_specifier cv)) (cv_precision cv) (cv_width cv) (int_flags (cv_specifier cv) (cv_flags cv))"
    using assms False a by (simp add: int_text_def Let_def)
  show ?thesis unfolding u
    by (rule converts_prints [OF ntoa_prints]) (simp add: False a convert_int_def Let_def ntoa_long_def)
qed

lemma char_converts: "converts m R (convert_char out cv (a # rest)) rest (aligned (has (cv_flags cv) FLAGS_LEFT) (unat (cv_width cv)) [ucast a])"
  by (rule converts_prints [OF aligned_prints [OF put_prints]])
    (simp add: convert_char_def Let_def and_then_assoc)

lemma string_converts:
  assumes z: "0 \<in> set (str a)" and p: "cv_precision cv \<noteq> 0 \<Longrightarrow> has (cv_flags cv) FLAGS_PRECISION"
    and u: "u = (let s = takeWhile (\<lambda>c. c \<noteq> 0) (str a) in if has (cv_flags cv) FLAGS_PRECISION then take (unat (cv_precision cv)) s else s)"
  shows "converts m R (convert_string str out cv (a # rest)) rest (aligned (has (cv_flags cv) FLAGS_LEFT) (unat (cv_width cv)) u)"
proof -
  define s where "s = takeWhile (\<lambda>c. c \<noteq> 0) (str a)"
  define limited where "limited = has (cv_flags cv) FLAGS_PRECISION"
  define prec where "prec = cv_precision cv"
  define n :: u32 where "n = of_nat (min (length s) (unat (if prec \<noteq> 0 then prec else - 1)))"
  define l where "l = (if limited then (if n < prec then n else prec) else n)"
  have l: "unat l = length u" if len: "length u < 2 ^ 32"
  proof (cases "prec = 0")
    case True
    have "unat n = length s" if "length s < 2 ^ 32"
      using that True by (simp add: n_def unsigned_minus_1_eq_mask mask_eq_exp_minus_1 unat_of_nat_small)
    then show ?thesis using True len p by (auto simp: l_def u limited_def prec_def s_def Let_def)
  next
    case False
    have "min (length s) (unat prec) < 2 ^ LENGTH(32)" by (rule min.strict_coboundedI2) (rule unsigned_less)
    then have "unat n = min (length s) (unat prec)" using False by (simp add: n_def unat_of_nat_small)
    then show ?thesis using False p by (simp add: l_def u limited_def prec_def s_def Let_def word_less_nat_alt)
  qed
  have st: "strnlen_s (str a) (if prec \<noteq> 0 then prec else - 1) = Inr n"
    by (simp add: strnlen_s_eq [OF z] n_def s_def)
  have "prints m R (out_string out limited (str a) prec) u"
    using string_prints [OF z, of limited prec] unfolding u limited_def prec_def .
  note al = converts_prints [OF aligned_prints [OF this, of "has (cv_flags cv) FLAGS_LEFT" "unat (cv_width cv)"] refl, of rest]
  show ?thesis
    unfolding converts_def
  proof (intro allI impI)
    fix t s
    assume r: "R t s" and len: "length t + length (aligned (has (cv_flags cv) FLAGS_LEFT) (unat (cv_width cv)) u) \<le> m"
    then have "length u < 2 ^ 32" using length_aligned [of u "has (cv_flags cv) FLAGS_LEFT" "unat (cv_width cv)"] max_small by linarith
    from l [OF this] have "convert_string str out cv (a # rest) k =
        and_then (and_then (and_then (if \<not> has (cv_flags cv) FLAGS_LEFT then out_times out (unat (cv_width cv) - length u) 32 k else Inr k)
          (out_string out limited (str a) prec))
          (\<lambda>k2. if has (cv_flags cv) FLAGS_LEFT then out_times out (unat (cv_width cv) - length u) 32 k2 else Inr k2)) (\<lambda>k1. Inr (rest, k1))" for k
      unfolding convert_string_def Let_def next_arg.simps and_then_simps prod.case prec_def [symmetric] limited_def [symmetric] st l_def [symmetric]
      by (simp only: and_then_assoc)
    with al r len show "\<exists>s'. convert_string str out cv (a # rest) (of_nat (length t), s) =
        Inr (rest, of_nat (length t + length (aligned (has (cv_flags cv) FLAGS_LEFT) (unat (cv_width cv)) u)), s') \<and>
        R (t @ aligned (has (cv_flags cv) FLAGS_LEFT) (unat (cv_width cv)) u) s'"
      unfolding converts_def by simp
  qed
qed

lemma any_converts:
  assumes u: "any_text str real cv args = Inr (rest, u)" and pf: "cv_precision cv \<noteq> 0 \<Longrightarrow> has (cv_flags cv) FLAGS_PRECISION"
  shows "converts m R (convert_any str real out cv args) rest u"
proof -
  let ?c = "cv_specifier cv"
  consider (i) "?c \<in> {100, 105, 117, 120, 88, 111, 98}" | (r) "?c \<in> {102, 70, 101, 69, 103, 71}" | (c) "?c = 99" | (s) "?c = 115"
    | (p) "?c = 112" | (n) "?c \<notin> {100, 105, 117, 120, 88, 111, 98, 102, 70, 101, 69, 103, 71, 99, 115, 112}" by blast
  then show ?thesis
  proof cases
    case i
    then have "convert_any str real out cv args = convert_int out cv args" "any_text str real cv args = int_text cv args"
      by (auto simp: convert_any_def any_text_def Let_def)
    then show ?thesis using u int_converts by simp
  next
    case r
    then have d: "?c \<notin> {100, 105, 117, 120, 88, 111, 98}" by auto
    from d r have "convert_any str real out cv args = convert_real real out cv args" by (simp add: convert_any_def fun_eq_iff)
    moreover obtain v where "next_arg_long_long args = Inr (v, rest)"
      "u = real ?c v (cv_precision cv) (cv_width cv) (real_flags ?c (cv_flags cv))"
      using u d r by (auto simp: any_text_def and_then_eq_Inr Let_def)
    ultimately show ?thesis by (simp add: convert_real_def converts_prints [OF chars_prints])
  next
    case c
    then obtain a where "args = a # rest" "u = aligned (has (cv_flags cv) FLAGS_LEFT) (unat (cv_width cv)) [ucast a]"
      using u by (cases args) (auto simp: any_text_def)
    moreover have "convert_any str real out cv args = convert_char out cv args" using c by (simp add: convert_any_def fun_eq_iff)
    ultimately show ?thesis using char_converts by simp
  next
    case s
    then obtain a where a: "args = a # rest" using u by (cases args) (auto simp: any_text_def string_text_def and_then_eq_Inr)
    have z: "0 \<in> set (str a)" using u s a by (auto simp: any_text_def string_text_def and_then_eq_Inr c_string_eq split: if_splits)
    have "u = aligned (has (cv_flags cv) FLAGS_LEFT) (unat (cv_width cv))
        (let s = takeWhile (\<lambda>c. c \<noteq> 0) (str a) in if has (cv_flags cv) FLAGS_PRECISION then take (unat (cv_precision cv)) s else s)"
      using u s a z by (simp add: any_text_def string_text_def c_string_eq Let_def)
    moreover have "convert_any str real out cv args = convert_string str out cv args" using s by (simp add: convert_any_def fun_eq_iff)
    ultimately show ?thesis using string_converts [where str = str and a = a, OF z pf refl] a by simp
  next
    case p
    then obtain a where "args = a # rest"
      "u = ntoa_text a False 16 (cv_precision cv) 8 (cv_flags cv OR (FLAGS_ZEROPAD OR FLAGS_UPPERCASE))"
      using u by (cases args) (auto simp: any_text_def)
    moreover have "convert_any str real out cv args = convert_pointer out cv args" using p by (simp add: convert_any_def fun_eq_iff)
    ultimately show ?thesis by (simp add: convert_pointer_def ntoa_long_def converts_prints [OF ntoa_prints])
  next
    case n
    then have "convert_any str real out cv args k = and_then (put out ?c k) (\<lambda>k1. Inr (args, k1))" for k
      by (simp add: convert_any_def Let_def)
    moreover have "rest = args" "u = [?c]" using u n by (simp_all add: any_text_def)
    ultimately show ?thesis by (simp add: converts_prints [OF put_prints])
  qed
qed

lemma format_prints: "printf_text str real fmt args = Inr u \<Longrightarrow> prints m R (format_out str real out fmt args) u"
proof (induction fmt arbitrary: args u rule: length_induct)
  case (1 fmt)
  show ?case
  proof (cases fmt)
    case Nil
    then show ?thesis using 1(2) by simp
  next
    case (Cons c fmt1)
    consider (zero) "c = 0" | (plain) "c \<noteq> 0" "c \<noteq> 37" | (spec) "c = 37" by blast
    then show ?thesis
    proof cases
      case zero
      then show ?thesis using 1(2) Cons by (simp add: prints_def)
    next
      case plain
      then obtain v where v: "printf_text str real fmt1 args = Inr v" "u = [c] @ v" using 1(2) Cons by (auto simp: and_then_eq_Inr)
      have "prints m R (format_out str real out fmt1 args) v" using 1(1) Cons v(1) by simp
      from prints_then [OF put_prints this] have "prints m R (\<lambda>k. and_then (put out c k) (format_out str real out fmt1 args)) u" unfolding v(2) .
      then show ?thesis using plain Cons by (simp add: prints_eq [of "format_out str real out fmt args"])
    next
      case spec
      then obtain cv fmt2 args1 args2 v w where s: "conversion_spec fmt1 args = Inr (cv, fmt2, args1)"
        "any_text str real cv args1 = Inr (args2, v)" "printf_text str real fmt2 args2 = Inr w" "u = v @ w"
        using 1(2) Cons by (auto simp: and_then_eq_Inr)
      have "prints m R (format_out str real out fmt2 args2) w" using 1(1) Cons conversion_spec_length [OF s(1)] s(3) by simp
      from prints_after_conversion [where g = "\<lambda>r. format_out str real out fmt2 r", OF any_converts [OF s(2) conversion_spec_precision [OF s(1)]] this]
      show ?thesis using spec Cons s(1,4) by (simp add: prints_eq [of "format_out str real out fmt args"])
    qed
  qed
qed

end

section \<open>Output into a buffer\<close>

text \<open>The buffer holds the characters that fit, and what was in it behind them.\<close>

definition buffer_holds :: "u32 \<Rightarrow> u8 list \<Rightarrow> u8 list \<Rightarrow> u8 list \<Rightarrow> bool" where
  "buffer_holds count old t buffer \<longleftrightarrow>
     unat count \<le> length old \<and> buffer = take (unat count) t @ drop (min (length t) (unat count)) old"

interpretation in_buffer: printer "out_buffer count" "buffer_holds count old" "2 ^ 32 - 1" for count old
proof
  show "2 ^ 32 - 1 < (2 ^ 32 :: nat)" by simp
next
  fix t s c
  assume k: "buffer_holds count old t s" and len: "length t + 1 \<le> 2 ^ 32 - 1"
  have u: "unat (of_nat (length t) :: u32) = length t" using len by (intro unat_of_nat_small) simp
  show "\<exists>s'. out_buffer count c (of_nat (length t)) s = Inr s' \<and> buffer_holds count old (t @ [c]) s'"
  proof (cases "length t < unat count")
    case True
    then have "(t @ drop (length t) old)[length t := c] = t @ c # drop (Suc (length t)) old"
      using k by (simp add: buffer_holds_def list_update_append Cons_nth_drop_Suc [symmetric])
    then show ?thesis using True k u by (auto simp: buffer_holds_def out_buffer_def word_less_nat_alt store_at_ok)
  next
    case False
    then show ?thesis using k u by (auto simp: buffer_holds_def out_buffer_def word_less_nat_alt)
  qed
qed

interpretation nowhere: printer out_null "\<lambda>t s. True" "2 ^ 32 - 1"
  by unfold_locales (simp_all add: out_null_def)

text \<open>\<open>sprintf\<close> does not know the size of the buffer; here the text ends before the end of the buffer.\<close>

definition memory_holds :: "u8 list \<Rightarrow> u8 list \<Rightarrow> u8 list \<Rightarrow> bool" where
  "memory_holds old t buffer \<longleftrightarrow> length t \<le> length old \<and> buffer = t @ drop (length t) old"

interpretation unbounded: printer "out_buffer (- 1)" "memory_holds old" "min (length old) (2 ^ 32 - 2)" for old
proof
  show "min (length old) (2 ^ 32 - 2) < 2 ^ 32" by simp
next
  fix t s c
  assume k: "memory_holds old t s" and len: "length t + 1 \<le> min (length old) (2 ^ 32 - 2)"
  have u: "unat (of_nat (length t) :: u32) = length t" using len by (intro unat_of_nat_small) simp
  have "(t @ drop (length t) old)[length t := c] = t @ c # drop (Suc (length t)) old"
    using len by (simp add: list_update_append Cons_nth_drop_Suc [symmetric])
  moreover have "unat (of_nat (length t) :: u32) < unat (- 1 :: u32)" using u len by (simp add: unsigned_minus_1_eq_mask mask_eq_exp_minus_1)
  ultimately show "\<exists>s'. out_buffer (- 1) c (of_nat (length t)) s = Inr s' \<and> memory_holds old (t @ [c]) s'"
    using k u len by (simp add: memory_holds_def out_buffer_def word_less_nat_alt store_at_ok)
qed

lemma internal_vsnprintf_cuts:
  assumes "printf_text str real fmt args = Inr u" and "length u < 2 ^ 32" and "0 < count" and "unat count \<le> length buffer"
  shows "internal_vsnprintf str real (out_buffer count) count fmt args buffer =
    Inr (of_nat (length u), take (unat count - 1) u @ 0 # drop (min (length u) (unat count - 1) + 1) buffer)"
proof -
  have "buffer_holds count buffer [] buffer" using assms(4) by (simp add: buffer_holds_def)
  from printsE [OF in_buffer.format_prints [OF assms(1)] this] assms(2) obtain b where
    b: "format_out str real (out_buffer count) fmt args (0, buffer) = Inr (of_nat (length u), b)" "buffer_holds count buffer u b" by auto
  let ?m = "unat count - 1"
  have "count \<noteq> 0" using assms(3) by auto
  then have m: "unat (count - 1) = ?m" "?m < unat count" by (simp_all add: unat_minus_one unat_gt_0)
  have u: "unat (of_nat (length u) :: u32) = length u" using assms(2) by (intro unat_of_nat_small) simp
  define i where "i = (if of_nat (length u) < count then of_nat (length u) else count - 1)"
  have i: "unat i = min (length u) ?m" "i < count" using m u by (auto simp: i_def word_less_nat_alt)
  have bb: "b = take (unat count) u @ drop (min (length u) (unat count)) buffer" using b(2) by (simp add: buffer_holds_def)
  have "b[min (length u) ?m := 0] = take ?m u @ 0 # drop (min (length u) ?m + 1) buffer"
  proof (cases "length u < unat count")
    case True
    then have "min (length u) ?m = length u" "take ?m u = u" by auto
    then show ?thesis using True bb assms(4) by (simp add: list_update_append Cons_nth_drop_Suc [symmetric])
  next
    case False
    then have "take (unat count) u = take ?m u @ [u ! ?m]" using m(2) by (simp add: take_Suc_conv_app_nth [symmetric])
    moreover have "length (take ?m u) = ?m" "min (length u) ?m = ?m" "min (length u) (unat count) = ?m + 1" using False m(2) by auto
    ultimately show ?thesis using bb by (simp add: list_update_append del: length_take)
  qed
  moreover have "min (length u) ?m < length b" using bb i(1) m(2) assms(4) by simp
  ultimately show ?thesis using b(1) i by (simp add: internal_vsnprintf_def i_def [symmetric] out_buffer_def store_at_ok)
qed

lemma kernel_sprintf_fits:
  assumes "printf_text str real fmt args = Inr u" and "length u < length buffer" and "length u < 2 ^ 32 - 1"
  shows "kernel_sprintf str real buffer fmt args = Inr (of_nat (length u), u @ 0 # drop (length u + 1) buffer)"
proof -
  have "memory_holds buffer [] buffer" by (simp add: memory_holds_def)
  from printsE [OF unbounded.format_prints [OF assms(1)] this] assms(2,3) obtain b where
    b: "format_out str real (out_buffer (- 1)) fmt args (0, buffer) = Inr (of_nat (length u), b)" "memory_holds buffer u b" by auto
  have u: "unat (of_nat (length u) :: u32) = length u" using assms(3) by (intro unat_of_nat_small) simp
  then have lt: "of_nat (length u) < (- 1 :: u32)"
    using assms(3) by (simp add: word_less_nat_alt unsigned_minus_1_eq_mask mask_eq_exp_minus_1)
  have "b = u @ drop (length u) buffer" using b(2) by (simp add: memory_holds_def)
  then have "length u < length b" "b[length u := 0] = u @ 0 # drop (length u + 1) buffer"
    using assms(2) by (simp_all add: list_update_append Cons_nth_drop_Suc [symmetric])
  then show ?thesis using b(1) u lt
    by (simp add: kernel_sprintf_def internal_vsnprintf_def out_buffer_def store_at_ok)
qed

lemma kernel_vsnprintf_cuts:
  assumes "printf_text str real fmt args = Inr u" and "length u < 2 ^ 32" and "0 < count" and "unat count \<le> length buffer"
  shows "kernel_vsnprintf str real buffer count fmt args =
    Inr (of_nat (length u), take (unat count - 1) u @ 0 # drop (min (length u) (unat count - 1) + 1) buffer)"
  using internal_vsnprintf_cuts [OF assms] by (simp add: kernel_vsnprintf_def)

end
