(* ===== verification/Kernel_Fields.thy ===== *)
theory Kernel_Fields
  imports Kernel_Printf_Props
begin

text \<open>
  The fields that the conversions of the kernel's formatted output make: numbers in their base
  with sign and padding, and what the code does not do as the standard says.
\<close>

section \<open>Digits\<close>

lemma ntoa_digit_in:
  assumes "unat (d :: u8) = k"
  shows "ntoa_digit up d = digit_in up k"
proof -
  have "d = of_nat k" using assms by auto
  moreover have "d < 10 \<longleftrightarrow> k < 10" using assms by (simp add: word_less_nat_alt)
  ultimately show ?thesis by (simp only: ntoa_digit_def digit_in_def) (simp add: add.commute)
qed

lemma ntoa_digits_number:
  assumes "2 \<le> unat radix" "unat radix \<le> 16" and "length buf + length (number_in (unat radix) up (unat v)) \<le> 32"
  shows "ntoa_digits up radix (v :: 'w::len word) buf = buf @ rev (number_in (unat radix) up (unat v))"
  using assms(3)
proof (induction "unat v" arbitrary: v buf rule: less_induct)
  case less
  let ?b = "unat radix" and ?d = "ntoa_digit up (ucast (v mod radix))"
  have "unat (ucast (v mod radix) :: u8) = unat v mod ?b"
  proof -
    have "unat v mod ?b < ?b" by (rule mod_less_divisor) (use assms(1) in simp)
    then have "unat v mod ?b < 2 ^ 8" using assms(2) by simp
    then show ?thesis by (simp add: unsigned_ucast_eq unsigned_take_bit_eq unat_mod take_bit_nat_eq_self)
  qed
  then have d: "?d = digit_in up (unat v mod ?b)" by (rule ntoa_digit_in)
  have q: "unat (v div radix) = unat v div ?b" by (simp add: unat_div)
  show ?case
  proof (cases "unat v < ?b")
    case True
    then have "v div radix = 0" by (simp add: word_unat_eq_iff q)
    then show ?thesis using True d by (subst ntoa_digits.simps) (simp add: number_in.simps [of ?b])
  next
    case False
    then have num: "number_in ?b up (unat v) = number_in ?b up (unat v div ?b) @ [digit_in up (unat v mod ?b)]"
      using assms(1) by (subst number_in.simps) simp
    have nz: "v div radix \<noteq> 0" using False q assms(1) by (auto simp: word_unat_eq_iff div_eq_0_iff)
    have ne: "0 < length (number_in ?b up n)" for n by (subst number_in.simps) simp
    have "length buf + 1 < 32" using less.prems num ne [of "unat v div ?b"] unfolding num by (simp del: length_greater_0_conv)
    moreover have "ntoa_digits up radix (v div radix) (buf @ [?d]) = (buf @ [?d]) @ rev (number_in ?b up (unat (v div radix)))"
      using less.prems num False assms(1) by (intro less.hyps) (simp_all add: q)
    ultimately show ?thesis using nz num d q
      by (subst ntoa_digits.simps) (simp add: PRINTF_NTOA_BUFFER_SIZE_def Let_def)
  qed
qed

lemma word_digits_length:
  assumes "8 \<le> b"
  shows "length (number_in b up (unat (v :: u32))) \<le> 11"
proof -
  have "unat v < 2 ^ 32" using unsigned_less [of v, where ?'a = nat] by simp
  also have "\<dots> \<le> 8 ^ Suc 10" by simp
  also have "\<dots> \<le> b ^ Suc 10" by (rule power_mono) (use assms in auto)
  finally show ?thesis using number_in_length [of b "unat v" 10 up] assms by simp
qed

section \<open>Padding\<close>

lemma zero_fill_eq: "zero_fill n buf = buf @ replicate (min n 32 - length buf) 48"
proof (induction n buf rule: zero_fill.induct)
  case (1 n buf)
  show ?case
  proof (cases "length buf < n \<and> length buf < PRINTF_NTOA_BUFFER_SIZE")
    case True
    then have "min n 32 - length buf = Suc (min n 32 - length (buf @ [48 :: u8]))" by (auto simp: PRINTF_NTOA_BUFFER_SIZE_def)
    then show ?thesis using 1 True by (subst zero_fill.simps) simp
  next
    case False
    then show ?thesis by (subst zero_fill.simps) (auto simp: PRINTF_NTOA_BUFFER_SIZE_def)
  qed
qed

text \<open>The conversion buffer is never left.\<close>

lemma zero_fill_bound: "length buf \<le> 32 \<Longrightarrow> length (zero_fill n buf) \<le> 32"
  by (simp add: zero_fill_eq)

lemma ntoa_digits_bound: "length buf < 32 \<Longrightarrow> length (ntoa_digits up radix v buf) \<le> 32"
proof (induction up radix v buf rule: ntoa_digits.induct)
  case (1 up radix v buf)
  then show ?case by (subst ntoa_digits.simps) (auto simp: Let_def PRINTF_NTOA_BUFFER_SIZE_def)
qed

lemma add_char_bound: "length buf \<le> 32 \<Longrightarrow> length (add_char c buf) \<le> 32"
  by (simp add: add_char_def PRINTF_NTOA_BUFFER_SIZE_def)

lemma ntoa_buffer_bound:
  assumes "length buf \<le> 32"
  shows "length (ntoa_buffer buf negative radix prec width flags) \<le> 32"
proof -
  have z: "length (leading_zeros prec width flags buf) \<le> 32" using assms by (simp add: leading_zeros_def zero_fill_bound Let_def)
  have "length (hash_prefix radix prec width flags b) \<le> 32" if "length b \<le> 32" for b
    using that by (simp add: hash_prefix_def Let_def add_char_bound)
  with z show ?thesis by (simp add: ntoa_buffer_def sign_char_def add_char_bound)
qed

section \<open>Number fields\<close>

text \<open>Sign, zeros or spaces up to the width, and the digits.\<close>

definition number_sign :: "bool \<Rightarrow> u32 \<Rightarrow> u8 list" where
  "number_sign negative flags =
     (if negative then [45] else if has flags FLAGS_PLUS then [43] else if has flags FLAGS_SPACE then [32] else [])"

definition number_text_field :: "bool \<Rightarrow> u32 \<Rightarrow> nat \<Rightarrow> u8 list \<Rightarrow> u8 list" where
  "number_text_field negative flags width ds =
     (let sg = number_sign negative flags in
      if has flags FLAGS_LEFT then aligned True width (sg @ ds)
      else if has flags FLAGS_ZEROPAD then sg @ replicate (width - length sg - length ds) 48 @ ds
      else aligned False width (sg @ ds))"

lemma has_and_not: "has (flags AND NOT f) g \<longleftrightarrow> has flags g" if "f AND g = 0"
proof -
  have "NOT f AND g = g"
  proof (rule bit_eqI)
    fix n
    have "\<not> bit (f AND g) n" using that by simp
    then show "bit (NOT f AND g) n = bit g n" by (auto simp: bit_simps dest: bit_imp_le_length)
  qed
  then show ?thesis by (simp add: has_def and.assoc)
qed

lemma has_either: "has flags (f OR g) \<longleftrightarrow> has flags f \<or> has flags g"
  by (simp add: has_def bit.conj_disj_distrib or_eq_0_iff)

lemmas flag_defs = FLAGS_ZEROPAD_def FLAGS_LEFT_def FLAGS_PLUS_def FLAGS_SPACE_def FLAGS_HASH_def FLAGS_UPPERCASE_def
  FLAGS_CHAR_def FLAGS_SHORT_def FLAGS_LONG_def FLAGS_LONG_LONG_def FLAGS_PRECISION_def FLAGS_ADAPT_EXP_def

lemma not_hash:
  assumes "\<not> has flags FLAGS_HASH" shows "flags AND NOT FLAGS_HASH = flags"
proof (rule bit_eqI)
  fix n
  have "\<not> bit (flags AND FLAGS_HASH) n" using assms by (simp add: has_def)
  then show "bit (flags AND NOT FLAGS_HASH) n = bit flags n" by (auto simp: bit_simps dest: bit_imp_le_length)
qed

lemma sign_char_eq: "length buf < 32 \<Longrightarrow> sign_char negative flags buf = buf @ number_sign negative flags"
  by (simp add: sign_char_def number_sign_def add_char_def PRINTF_NTOA_BUFFER_SIZE_def)

text \<open>Without precision and \<open>#\<close>, and with a width up to 32 when it is filled with zeros, the field is as
  the standard says.\<close>

lemma ntoa_text_field:
  assumes "2 \<le> unat radix" "unat radix \<le> 16" and "unat (ucast radix :: 'w word) = unat radix"
    and d: "ds = number_in (unat radix) (has flags FLAGS_UPPERCASE) (unat v)" "length ds < 32"
    and "\<not> has flags FLAGS_HASH" "\<not> has flags FLAGS_PRECISION" and w: "has flags FLAGS_ZEROPAD \<Longrightarrow> unat width \<le> 32"
  shows "ntoa_text (v :: 'w::len word) negative radix 0 width flags = number_text_field negative flags (unat width) ds"
proof -
  let ?sg = "number_sign negative flags"
  let ?w = "format_width negative width flags"
  have buf: "ntoa_digits (has flags FLAGS_UPPERCASE) (ucast radix) v [] = rev ds"
    using ntoa_digits_number [of "ucast radix :: 'w word" "[]" "has flags FLAGS_UPPERCASE" v] assms(1-3) d by simp
  have fl: "(if v = 0 then flags AND NOT FLAGS_HASH else flags) = flags" by (simp add: not_hash [OF assms(6)])
  have t: "ntoa_text v negative radix 0 width flags = rev_text (ntoa_buffer (rev ds) negative radix 0 ?w flags) ?w flags"
    using assms(7) buf unfolding ntoa_text_def Let_def fl by simp
  show ?thesis
  proof (cases "\<not> has flags FLAGS_LEFT \<and> has flags FLAGS_ZEROPAD")
    case True
    have wd: "unat ?w = unat width - length ?sg"
      using True by (auto simp: format_width_def number_sign_def has_either unat_minus_one unat_gt_0)
    define zs :: "u8 list" where "zs = replicate (unat ?w - length ds) 48"
    have zl: "length (ds @ zs) < 32 \<or> ?sg = []"
      using True d(2) w wd by (cases "?sg = []") (auto simp: zs_def number_sign_def split: if_splits)
    have z: "leading_zeros 0 ?w flags (rev ds) = rev ds @ zs"
      using True w wd d(2) by (simp add: leading_zeros_def zero_fill_eq zs_def min_def)
    have "ntoa_buffer (rev ds) negative radix 0 ?w flags = rev ds @ zs @ ?sg"
    proof (cases "?sg = []")
      case True
      then have "sign_char negative flags b = b" for b by (auto simp: sign_char_def number_sign_def split: if_splits)
      then show ?thesis using True z assms(6) by (simp add: ntoa_buffer_def hash_prefix_def)
    next
      case False
      then show ?thesis using zl z assms(6) by (simp add: ntoa_buffer_def hash_prefix_def sign_char_eq)
    qed
    moreover have "rev ?sg = ?sg" by (simp add: number_sign_def)
    ultimately show ?thesis using True t wd
      by (simp add: rev_text_def number_text_field_def zs_def Let_def)
  next
    case False
    then have "?w = width" by (auto simp: format_width_def)
    moreover have "leading_zeros 0 width flags (rev ds) = rev ds"
      using False by (auto simp: leading_zeros_def zero_fill_eq)
    moreover have "rev ?sg = ?sg" by (simp add: number_sign_def)
    ultimately show ?thesis using False t d(2) assms(6)
      by (auto simp: ntoa_buffer_def hash_prefix_def sign_char_eq rev_text_def number_text_field_def)
  qed
qed

lemma ntoa_long_field:
  fixes v :: u32
  assumes "radix = 8 \<or> radix = 10 \<or> radix = 16"
    and "\<not> has flags FLAGS_HASH" "\<not> has flags FLAGS_PRECISION" and "has flags FLAGS_ZEROPAD \<Longrightarrow> unat width \<le> 32"
  shows "ntoa_text v negative radix 0 width flags =
    number_text_field negative flags (unat width) (number_in (unat radix) (has flags FLAGS_UPPERCASE) (unat v))"
proof (rule ntoa_text_field [OF _ _ _ refl _ assms(2,3,4)])
  show "length (number_in (unat radix) (has flags FLAGS_UPPERCASE) (unat v)) < 32"
    using word_digits_length [of "unat radix" "has flags FLAGS_UPPERCASE" v] assms(1) by auto
qed (use assms(1) in auto)

text \<open>With \<open>-\<close>, the zeros of a precision are missing: \<open>%-5.3d\<close> prints \<open>7\<close> and four spaces for the number seven.\<close>

lemma left_ignores_precision:
  assumes "has flags FLAGS_LEFT" "\<not> has flags FLAGS_HASH" "v \<noteq> 0"
  shows "ntoa_text v negative radix prec width flags = ntoa_text v negative radix prec' width flags"
  using assms by (simp add: ntoa_text_def ntoa_buffer_def hash_prefix_def leading_zeros_def Let_def)

text \<open>A format that ends with \<open>%\<close> is read behind its terminator.\<close>

lemma trailing_percent:
  assumes "0 < count" "unat count \<le> length buffer"
  shows "kernel_vsnprintf str real buffer count [37, 0] args = Inl Out_Of_Bounds"
proof -
  have "conversion_spec [0] args = Inr (\<lparr>cv_flags = 0, cv_width = 0, cv_precision = 0, cv_specifier = 0\<rparr>, [], args)"
    by (simp add: conversion_spec_def width_field_def precision_field_def length_field_def is_digit_def)
  moreover have "put (out_buffer count) 0 (0, buffer) = Inr (1, buffer[0 := 0])"
  proof -
    have "0 < unat count" using assms(1) by (simp add: word_less_nat_alt)
    then have "0 < length buffer" using assms(2) by linarith
    then show ?thesis using assms by (simp add: put_def out_buffer_def store_at_ok)
  qed
  ultimately show ?thesis by (simp add: kernel_vsnprintf_def internal_vsnprintf_def convert_any_def)
qed

section \<open>Formats without flags\<close>

text \<open>The conversions that the messages of the kernel use.\<close>

definition decimal :: "nat \<Rightarrow> u8 list" where
  "decimal n = number_in 10 False n"

definition signed_decimal :: "u32 \<Rightarrow> u8 list" where
  "signed_decimal a = (if a <s 0 then 45 # decimal (nat (- sint a)) else decimal (unat a))"

lemma printf_text_plain:
  "0 \<notin> set xs \<Longrightarrow> 37 \<notin> set xs \<Longrightarrow> printf_text str real (xs @ fmt) args = and_then (printf_text str real fmt args) (\<lambda>t. Inr (xs @ t))"
proof (induction xs)
  case Nil
  show ?case by (cases "printf_text str real fmt args") simp_all
next
  case (Cons x xs)
  then show ?case by (simp add: and_then_assoc)
qed

lemma has_zero [simp]: "\<not> has 0 f"
  by (simp add: has_def)

definition bare :: "u8 \<Rightarrow> conversion" where
  "bare c = \<lparr>cv_flags = 0, cv_width = 0, cv_precision = 0, cv_specifier = c\<rparr>"

lemma bare_spec: "c \<in> {100, 117, 120, 115} \<Longrightarrow> conversion_spec (c # fmt) args = Inr (bare c, fmt, args)"
  by (auto simp: conversion_spec_def width_field_def precision_field_def length_field_def is_digit_def bare_def)

lemma unat_magnitude: "unat (magnitude a) = (if a <s 0 then nat (- sint a) else unat (a :: u32))"
  by (auto simp: magnitude_def unat_negative word_sless_alt) (simp add: signed_eq_0_iff)

lemma int_flags_zero: "c \<in> {100, 117, 120} \<Longrightarrow> int_flags c 0 = 0"
  by (auto simp: int_flags_def int_radix_def is_signed_def)

lemma number_field_bare: "number_text_field negative 0 0 ds = (if negative then 45 # ds else ds)"
  by (simp add: number_text_field_def number_sign_def aligned_def)

lemma int_text_bare:
  "int_text (bare 100) (a # rest) = Inr (rest, signed_decimal a)"
  "int_text (bare 117) (a # rest) = Inr (rest, decimal (unat a))"
  "int_text (bare 120) (a # rest) = Inr (rest, number_in 16 False (unat a))"
  by (simp_all add: int_text_def bare_def int_flags_zero int_radix_def is_signed_def narrow_int_def ntoa_long_field
      number_field_bare unat_magnitude signed_decimal_def decimal_def)

lemma string_text_bare:
  "c_string (str a) = Inr s \<Longrightarrow> string_text str (bare 115) (a # rest) = Inr (rest, s)"
  by (simp add: string_text_def bare_def aligned_def)

lemma printf_text_conversions:
  "printf_text str real (37 # 100 # fmt) (a # args) = and_then (printf_text str real fmt args) (\<lambda>t. Inr (signed_decimal a @ t))"
  "printf_text str real (37 # 117 # fmt) (a # args) = and_then (printf_text str real fmt args) (\<lambda>t. Inr (decimal (unat a) @ t))"
  "printf_text str real (37 # 120 # fmt) (a # args) = and_then (printf_text str real fmt args) (\<lambda>t. Inr (number_in 16 False (unat a) @ t))"
  "c_string (str a) = Inr s \<Longrightarrow>
    printf_text str real (37 # 115 # fmt) (a # args) = and_then (printf_text str real fmt args) (\<lambda>t. Inr (s @ t))"
proof -
  have c: "cv_specifier (bare c) = c" for c by (simp add: bare_def)
  show "printf_text str real (37 # 100 # fmt) (a # args) = and_then (printf_text str real fmt args) (\<lambda>t. Inr (signed_decimal a @ t))"
    by (simp add: bare_spec any_text_def c int_text_bare)
  show "printf_text str real (37 # 117 # fmt) (a # args) = and_then (printf_text str real fmt args) (\<lambda>t. Inr (decimal (unat a) @ t))"
    by (simp add: bare_spec any_text_def c int_text_bare)
  show "printf_text str real (37 # 120 # fmt) (a # args) = and_then (printf_text str real fmt args) (\<lambda>t. Inr (number_in 16 False (unat a) @ t))"
    by (simp add: bare_spec any_text_def c int_text_bare)
  show "c_string (str a) = Inr s \<Longrightarrow>
    printf_text str real (37 # 115 # fmt) (a # args) = and_then (printf_text str real fmt args) (\<lambda>t. Inr (s @ t))"
    by (simp add: bare_spec any_text_def c string_text_bare)
qed

lemma decimal_length: "length (decimal (unat (v :: u32))) \<le> 11"
  by (simp add: decimal_def word_digits_length)

lemma signed_decimal_length: "length (signed_decimal a) \<le> 12"
proof -
  have "length (decimal (unat (magnitude a))) \<le> 11" by (rule decimal_length)
  then show ?thesis by (auto simp: signed_decimal_def unat_magnitude)
qed

end
