(* ===== verification/Logging.thy ===== *)
theory Logging
  imports Console_Props Clock Kernel_Fields Log_Buffer
begin

text \<open>
  The kernel log (\<open>kernel/log.c\<close>): a message is formatted into a buffer on the stack and goes to the
  console and to the serial port. \<open>junk\<close> is what the buffer contains before.
\<close>

section \<open>Writing a message\<close>

fun serial_writes :: "device \<Rightarrow> bool \<Rightarrow> u8 list \<Rightarrow> ports \<Rightarrow> ports option" where
  "serial_writes dev on [] s = Some s"
| "serial_writes dev on (c # cs) s = Option.bind (serial_write dev on c s) (serial_writes dev on cs)"

definition kernel_log ::
  "device \<Rightarrow> bool \<Rightarrow> (u32 \<Rightarrow> u8 list) \<Rightarrow> reals \<Rightarrow> u8 list \<Rightarrow> u8 list \<Rightarrow> u32 list \<Rightarrow> console \<Rightarrow> ports \<Rightarrow> (console \<times> ports) run" where
  "kernel_log dev on str real junk fmt args c s =
     run_then (Some (kernel_vsnprintf str real junk (of_nat (LOG_SIZE - 2)) fmt args)) (\<lambda>(num, buffer1).
     run_then (Some (finish_line (unat num) buffer1)) (\<lambda>buffer.
     run_then (Some (console_print buffer c)) (\<lambda>(d, cursor).
     let s1 = fold (\<lambda>(p, v). port_out p v) cursor s in
     map_option (\<lambda>s2. Inr (d, s2)) (serial_writes dev on (take (unat num) buffer @ [NEWLINE]) s1))))"

definition init_logging :: "bool \<Rightarrow> bool \<Rightarrow> u8 list \<Rightarrow> ports \<Rightarrow> (console \<times> ports) res" where
  "init_logging serial graphics_enabled memory s =
     (let s1 = (if serial then serial_init s else s) in
      and_then (init_console graphics_enabled memory) (\<lambda>(c, cursor). Inr (c, fold (\<lambda>(p, v). port_out p v) cursor s1)))"

section \<open>What arrives\<close>

text \<open>A device that is ready to transmit whenever it is asked.\<close>

definition ready :: "device \<Rightarrow> bool" where
  "ready dev \<longleftrightarrow> (\<forall>ws n. dev ws n (PORT + 5) AND 0x20 \<noteq> 0)"

definition sent :: "ports \<Rightarrow> u8 list" where
  "sent s = map snd (filter (\<lambda>(p, v). p = PORT) (writes s))"

lemma port_write_ready:
  assumes "ready dev"
  shows "\<exists>s'. port_write dev a s = Some s' \<and> sent s' = sent s @ [a]"
  using assms by (subst port_write.simps) (simp add: ready_def port_in_def port_out_def sent_def)

lemma serial_writes_ready:
  "ready dev \<Longrightarrow> \<exists>s'. serial_writes dev True cs s = Some s' \<and> sent s' = sent s @ cs"
proof (induction cs arbitrary: s)
  case (Cons c cs)
  obtain s1 where s1: "port_write dev c s = Some s1" "sent s1 = sent s @ [c]" using port_write_ready [OF Cons.prems] by blast
  from Cons.IH [OF Cons.prems, of s1] s1 show ?case by (auto simp: serial_write_def)
qed simp

text \<open>The buffer that is printed, for messages of each length.\<close>

lemma logged_buffer:
  assumes "printf_text str real fmt args = Inr message" and "length message < 2 ^ 31" and "length junk = 256"
  shows "run_then (Some (kernel_vsnprintf str real junk (of_nat (LOG_SIZE - 2)) fmt args)) (\<lambda>(num, b). run_then (Some (finish_line (unat num) b)) (f num)) =
    (if length message < 254 then f (of_nat (length message)) (message @ [NEWLINE, 0] @ drop (length message + 2) junk)
     else if length message = 254 then f 254 (take 253 message @ [0, NEWLINE, 0])
     else Some (Inl Out_Of_Bounds))"
proof -
  have size: "of_nat (LOG_SIZE - 2) = (254 :: u32)" "unat (254 :: u32) = 254" by (simp_all add: LOG_SIZE_def)
  let ?b = "take 253 message @ 0 # drop (min (length message) 253 + 1) junk"
  have v: "kernel_vsnprintf str real junk 254 fmt args = Inr (of_nat (length message), ?b)"
    using kernel_vsnprintf_cuts [OF assms(1), of 254 junk] assms(2,3) by simp
  have n: "unat (of_nat (length message) :: u32) = length message" using assms(2) by (intro unat_of_nat_small) simp
  consider (short) "length message < 254" | (cut) "length message = 254" | (long) "254 < length message" by linarith
  then show ?thesis
  proof cases
    case short
    then have "?b = message @ 0 # drop (length message + 1) junk" by (simp add: min_def)
    moreover have "drop (length message + 1) junk = junk ! (length message + 1) # drop (length message + 2) junk"
      using short assms(3) Cons_nth_drop_Suc [of "length message + 1" junk] by simp
    ultimately have "finish_line (length message) ?b = Inr (message @ [NEWLINE, 0] @ drop (length message + 2) junk)"
      using short assms(3) by (simp add: finish_line_def list_update_append)
    then show ?thesis using short v n size by simp
  next
    case cut
    have "drop 254 junk = [junk ! 254, junk ! 255]"
      using assms(3) Cons_nth_drop_Suc [of 254 junk] Cons_nth_drop_Suc [of 255 junk] by simp
    then have "finish_line 254 ?b = Inr (take 253 message @ [0, NEWLINE, 0])"
      using cut by (simp add: finish_line_def list_update_append)
    then show ?thesis using cut v n size by simp
  next
    case long
    then have "finish_line (length message) ?b = Inl Out_Of_Bounds" using assms(3) by (simp add: finish_line_def in_bounds_def)
    then show ?thesis using long v n size by simp
  qed
qed

text \<open>So a handler that logs a message of more than 254 characters writes outside the buffer.\<close>

lemma log_message_spec:
  assumes "printf_text (\<lambda>a. str) (\<lambda>c v p w f. []) fmt args = Inr message" and "length message < 2 ^ 31"
  shows "log_message fmt str args = (if length message \<le> 254 then Inr () else Inl Out_Of_Bounds)"
proof -
  let ?v = "kernel_vsnprintf (\<lambda>a. str) (\<lambda>c v p w f. []) (replicate 256 0) (of_nat (LOG_SIZE - 2)) fmt args"
  have "Some (log_message fmt str args) = run_then (Some ?v) (\<lambda>(num, b). run_then (Some (finish_line (unat num) b)) (\<lambda>b. Some (Inr ())))"
    by (cases ?v) (simp_all add: log_message_def LOG_SIZE_def run_then_def and_then_def case_prod_unfold split: sum.split)
  then show ?thesis using logged_buffer [OF assms, of "replicate 256 0" "\<lambda>n b. Some (Inr ())"] by (simp split: if_splits)
qed

lemma cursor_not_sent: "sent (fold (\<lambda>(p, v). port_out p v) (cursor_ports c) s) = sent s"
  by (simp add: cursor_ports_def Let_def port_out_def sent_def PORT_def)

lemma console_message:
  assumes "con_ok c" "BACKSPACE \<notin> set text" "0 \<notin> set text" "0 \<notin> set line" "BACKSPACE \<notin> set line"
  shows "\<exists>d. console_print (text @ line @ 0 # rest) c = Inr (d, cursor_ports d) \<and> write_chars (text @ line) c = Inr d \<and> con_ok d"
proof -
  obtain d where d: "write_chars (text @ line) c = Inr d" "con_ok d" using write_chars_ok [OF assms(1), of "text @ line"] assms(2,5) by auto
  have "takeWhile (\<lambda>ch. ch \<noteq> 0) (text @ line @ 0 # rest) = text @ line"
    using assms(3,4) by (subst append_assoc [symmetric], subst takeWhile_append2) auto
  then show ?thesis using d by (auto simp: console_print_def)
qed

text \<open>C31: The kernel log. Let \<open>text\<close> be the text of the format and its arguments, without zeros and backspaces.
  If it has less than 254 characters, it is written to the console with a line feed behind it, and
  the same bytes go to the serial port, in order and nothing else. If it has 254 characters, its last
  one is lost and so is the line feed on the console. If it has more, the line feed and the
  terminator are written outside the buffer on the stack, because the code takes the length of the
  whole message for the number of stored characters.\<close>

theorem kernel_log_messages:
  assumes "ready dev" and "con_ok c" and "length junk = 256" and "printf_text str real fmt args = Inr text"
    and "BACKSPACE \<notin> set text" and "0 \<notin> set text" and "length text < 2 ^ 31"
  shows "if length text < 254 then
      \<exists>d s'. kernel_log dev True str real junk fmt args c s = Some (Inr (d, s')) \<and> write_chars (text @ [NEWLINE]) c = Inr d \<and>
        con_ok d \<and> sent s' = sent s @ text @ [NEWLINE]
    else if length text = 254 then
      \<exists>d s'. kernel_log dev True str real junk fmt args c s = Some (Inr (d, s')) \<and> write_chars (take 253 text) c = Inr d \<and>
        con_ok d \<and> sent s' = sent s @ take 253 text @ [0, NEWLINE]
    else kernel_log dev True str real junk fmt args c s = Some (Inl Out_Of_Bounds)"
proof -
  let ?s1 = "\<lambda>d. fold (\<lambda>(p, v). port_out p v) (cursor_ports d) s"
  have ser: "\<exists>s'. serial_writes dev True cs (?s1 d) = Some s' \<and> sent s' = sent s @ cs" for d cs
    using serial_writes_ready [OF assms(1), of cs "?s1 d"] cursor_not_sent by metis
  note log = logged_buffer [OF assms(4,7,3)]
  consider (short) "length text < 254" | (cut) "length text = 254" | (long) "254 < length text" by linarith
  then show ?thesis
  proof cases
    case short
    have n: "unat (of_nat (length text) :: u32) = length text" using short by (intro unat_of_nat_small) simp
    obtain d where d: "console_print (text @ [NEWLINE] @ 0 # drop (length text + 2) junk) c = Inr (d, cursor_ports d)"
      "write_chars (text @ [NEWLINE]) c = Inr d" "con_ok d"
      using console_message [OF assms(2,5,6), of "[NEWLINE]" "drop (length text + 2) junk"] by (auto simp: NEWLINE_def BACKSPACE_def)
    obtain s' where "serial_writes dev True (text @ [NEWLINE]) (?s1 d) = Some s'" "sent s' = sent s @ text @ [NEWLINE]"
      using ser by blast
    then show ?thesis using short d n by (simp add: kernel_log_def log)
  next
    case cut
    have "set (take 253 text) \<subseteq> set text" by (rule set_take_subset)
    then have sub: "BACKSPACE \<notin> set (take 253 text)" "0 \<notin> set (take 253 text)" using assms(5,6) by auto
    obtain d where d: "console_print (take 253 text @ [] @ 0 # [NEWLINE, 0]) c = Inr (d, cursor_ports d)"
      "write_chars (take 253 text) c = Inr d" "con_ok d"
      using console_message [OF assms(2) sub, of "[]" "[NEWLINE, 0]"] by auto
    obtain s' where "serial_writes dev True (take 253 text @ [0, NEWLINE]) (?s1 d) = Some s'" "sent s' = sent s @ take 253 text @ [0, NEWLINE]"
      using ser by blast
    then show ?thesis using cut d by (simp add: kernel_log_def log)
  next
    case long
    then show ?thesis by (simp add: kernel_log_def log)
  qed
qed

theorem kernel_log_messages_witness:
  "(\<exists>d s'. kernel_log (\<lambda>ws n p. 0x20) True (\<lambda>a. [72, 105, 0]) (\<lambda>c v p w f. []) (replicate 256 0) (cstr ''%s'') [400] example_console
      \<lparr>reads = 0, writes = []\<rparr> = Some (Inr (d, s')) \<and> sent s' = [72, 105, 10]) \<and>
   kernel_log (\<lambda>ws n p. 0x20) True (\<lambda>a. replicate 300 65 @ [0]) (\<lambda>c v p w f. []) (replicate 256 0) (cstr ''%s'') [400] example_console
      \<lparr>reads = 0, writes = []\<rparr> = Some (Inl Out_Of_Bounds)"
proof -
  have r: "ready (\<lambda>ws n p. 0x20)" by (simp add: ready_def)
  have f: "cstr ''%s'' = [37, 115, 0]" by (simp add: cstr_def)
  have long: "c_string (replicate 300 65 @ [0]) = Inr (replicate 300 65)" unfolding c_string_eq by (subst takeWhile_append2) auto
  have p: "printf_text str real [37, 115, 0] [400] = Inr t" if "c_string (str 400) = Inr t" for str real t
    by (subst printf_text_conversions(4) [where str = str and a = 400, OF that]) simp
  have p1: "printf_text (\<lambda>a. [72, 105, 0]) (\<lambda>c v p w f. []) [37, 115, 0] [400] = Inr [72, 105]" by (rule p) simp
  have p2: "printf_text (\<lambda>a. replicate 300 65 @ [0]) (\<lambda>c v p w f. []) [37, 115, 0] [400] = Inr (replicate 300 65)"
    by (rule p) (rule long)
  note k = kernel_log_messages [OF r example_console_ok, where junk = "replicate 256 0" and s = "\<lparr>reads = 0, writes = []\<rparr>"]
  show ?thesis
    using k [OF _ p1] k [OF _ p2] unfolding f by (auto simp: BACKSPACE_def NEWLINE_def sent_def)
qed

end
