(* ===== verification/Floppy.thy ===== *)
theory Floppy
  imports Clock
begin

text \<open>
  The floppy drive (\<open>kernel/driver/floppy.c\<close>): commands and results go through one data port, the
  drive answers with an interrupt, and every operation retries a bounded number of times. \<open>irq n\<close>
  says whether an interrupt arrives when the driver waits after \<open>n\<close> reads of ports; busy loops
  have no effect.
\<close>

section \<open>Registers and state\<close>

definition floppy_base :: u16 where "floppy_base = 0x03F0"
definition FLOPPY_DOR :: u16 where "FLOPPY_DOR = 2"
definition FLOPPY_MSR :: u16 where "FLOPPY_MSR = 4"
definition FLOPPY_FIFO :: u16 where "FLOPPY_FIFO = 5"
definition FLOPPY_CCR :: u16 where "FLOPPY_CCR = 7"

definition CMD_SPECIFY :: u8 where "CMD_SPECIFY = 3"
definition CMD_WRITE_DATA :: u8 where "CMD_WRITE_DATA = 5"
definition CMD_READ_DATA :: u8 where "CMD_READ_DATA = 6"
definition CMD_RECALIBRATE :: u8 where "CMD_RECALIBRATE = 7"
definition CMD_SENSE_INTERRUPT :: u8 where "CMD_SENSE_INTERRUPT = 8"
definition CMD_SEEK :: u8 where "CMD_SEEK = 15"

datatype motor = Motor_Off | Motor_On | Motor_Wait

record floppy = ports +
  FLOPPDISKYIRQ :: u8
  floppy_motor_state :: motor
  floppy_motor_ticks :: int

text \<open>\<open>floppy_detect_drives\<close> reads the drive types from the clock's memory and drops them.\<close>

definition floppy_detect_drives :: "device \<Rightarrow> floppy \<Rightarrow> floppy" where
  "floppy_detect_drives dev s = snd (port_in dev 0x71 (port_out 0x70 0x10 s))"

section \<open>Commands and results\<close>

definition floppydisk_wait_irq :: "(nat \<Rightarrow> bool) \<Rightarrow> floppy \<Rightarrow> floppy option" where
  "floppydisk_wait_irq irq s =
     (if FLOPPDISKYIRQ s \<noteq> 0 \<or> irq (reads s) then Some (s\<lparr>FLOPPDISKYIRQ := 0\<rparr>) else None)"

definition handle_floppy_interrupt :: "floppy \<Rightarrow> floppy" where
  "handle_floppy_interrupt s = s\<lparr>FLOPPDISKYIRQ := 1\<rparr>"

definition init_floppy :: "floppy \<Rightarrow> floppy" where
  "init_floppy s = s\<lparr>FLOPPDISKYIRQ := 0\<rparr>"

text \<open>The status register is polled at most \<open>n\<close> times; \<open>False\<close> is a timeout.\<close>

fun poll_msr :: "device \<Rightarrow> u16 \<Rightarrow> nat \<Rightarrow> floppy \<Rightarrow> bool \<times> floppy" where
  "poll_msr dev base 0 s = (False, s)"
| "poll_msr dev base (Suc n) s =
     (let (msr, s1) = port_in dev (base + FLOPPY_MSR) s in
      if 0x80 AND msr \<noteq> 0 then (True, s1) else poll_msr dev base n s1)"

definition floppy_write_cmd :: "device \<Rightarrow> u16 \<Rightarrow> u8 \<Rightarrow> floppy \<Rightarrow> floppy" where
  "floppy_write_cmd dev base cmd s =
     (case poll_msr dev base 600 s of (ok, s1) \<Rightarrow> if ok then port_out (base + FLOPPY_FIFO) cmd s1 else s1)"

definition floppy_read_data :: "device \<Rightarrow> u16 \<Rightarrow> floppy \<Rightarrow> u8 \<times> floppy" where
  "floppy_read_data dev base s =
     (case poll_msr dev base 600 s of (ok, s1) \<Rightarrow> if ok then port_in dev (base + FLOPPY_FIFO) s1 else (0, s1))"

definition floppy_check_interrupt :: "device \<Rightarrow> u16 \<Rightarrow> floppy \<Rightarrow> (u8 \<times> u8) \<times> floppy" where
  "floppy_check_interrupt dev base s =
     (let (st0, s1) = floppy_read_data dev base (floppy_write_cmd dev base CMD_SENSE_INTERRUPT s);
          (cyl, s2) = floppy_read_data dev base s1
      in ((st0, cyl), s2))"

definition write_cmds :: "device \<Rightarrow> u16 \<Rightarrow> u8 list \<Rightarrow> floppy \<Rightarrow> floppy" where
  "write_cmds dev base cmds s = fold (floppy_write_cmd dev base) cmds s"

section \<open>The motor\<close>

definition floppy_motor :: "u16 \<Rightarrow> bool \<Rightarrow> floppy \<Rightarrow> floppy" where
  "floppy_motor base on s =
     (if on then
        (if floppy_motor_state s = Motor_Off then port_out (base + FLOPPY_DOR) 0x1C s else s)\<lparr>floppy_motor_state := Motor_On\<rparr>
      else s\<lparr>floppy_motor_ticks := 300, floppy_motor_state := Motor_Wait\<rparr>)"

definition floppy_motor_kill :: "u16 \<Rightarrow> floppy \<Rightarrow> floppy" where
  "floppy_motor_kill base s = (port_out (base + FLOPPY_DOR) 0x0C s)\<lparr>floppy_motor_state := Motor_Off\<rparr>"

text \<open>One round of \<open>floppy_timer\<close>.\<close>

definition floppy_timer :: "floppy \<Rightarrow> floppy" where
  "floppy_timer s =
     (if floppy_motor_state s = Motor_Wait then
        (let s1 = s\<lparr>floppy_motor_ticks := floppy_motor_ticks s - 50\<rparr> in
         if floppy_motor_ticks s1 \<le> 0 then floppy_motor_kill floppy_base s1 else s1)
      else s)"

section \<open>Positioning\<close>

text \<open>\<open>n\<close> attempts to recalibrate or to seek; a cylinder number is an \<open>unsigned\<close>, the drive's answer a
  byte. The result is \<open>0\<close> or \<open>- 1\<close>.\<close>

fun calibrate_tries :: "device \<Rightarrow> (nat \<Rightarrow> bool) \<Rightarrow> u16 \<Rightarrow> nat \<Rightarrow> floppy \<Rightarrow> (int \<times> floppy) option" where
  "calibrate_tries dev irq base 0 s = Some (- 1, floppy_motor base False s)"
| "calibrate_tries dev irq base (Suc n) s =
     Option.bind (floppydisk_wait_irq irq (write_cmds dev base [CMD_RECALIBRATE, 0] s)) (\<lambda>s1.
     let ((st0, cyl), s2) = floppy_check_interrupt dev base s1 in
     if st0 AND 0xC0 \<noteq> 0 then calibrate_tries dev irq base n s2
     else if cyl = 0 then Some (0, floppy_motor base False s2)
     else calibrate_tries dev irq base n s2)"

definition floppy_calibrate :: "device \<Rightarrow> (nat \<Rightarrow> bool) \<Rightarrow> u16 \<Rightarrow> floppy \<Rightarrow> (int \<times> floppy) option" where
  "floppy_calibrate dev irq base s = calibrate_tries dev irq base 10 (floppy_motor base True s)"

text \<open>\<open>floppy_reset\<close>; without a \<open>return\<close> its result is \<open>garbage\<close> when it succeeds.\<close>

definition floppy_reset :: "device \<Rightarrow> (nat \<Rightarrow> bool) \<Rightarrow> int \<Rightarrow> u16 \<Rightarrow> floppy \<Rightarrow> (int \<times> floppy) option" where
  "floppy_reset dev irq garbage base s =
     Option.bind (floppydisk_wait_irq irq (port_out (base + FLOPPY_DOR) 0x0C (port_out (base + FLOPPY_DOR) 0x00 s))) (\<lambda>s1.
     let (res, s2) = floppy_check_interrupt dev base s1;
         s3 = write_cmds dev base [CMD_SPECIFY, 0xDF, 0x02] (port_out (base + FLOPPY_CCR) 0x00 s2)
     in map_option (\<lambda>(r, s4). (if r \<noteq> 0 then - 1 else garbage, s4)) (floppy_calibrate dev irq base s3))"

fun seek_tries :: "device \<Rightarrow> (nat \<Rightarrow> bool) \<Rightarrow> u16 \<Rightarrow> u32 \<Rightarrow> u8 \<Rightarrow> nat \<Rightarrow> floppy \<Rightarrow> (int \<times> floppy) option" where
  "seek_tries dev irq base cyli head 0 s = Some (- 1, floppy_motor base False s)"
| "seek_tries dev irq base cyli head (Suc n) s =
     Option.bind (floppydisk_wait_irq irq (write_cmds dev base [CMD_SEEK, push_bit 2 head, ucast cyli] s)) (\<lambda>s1.
     let ((st0, cyl), s2) = floppy_check_interrupt dev base s1 in
     if st0 AND 0xC0 \<noteq> 0 then seek_tries dev irq base cyli head n s2
     else if ucast cyl = cyli then Some (0, floppy_motor base False s2)
     else seek_tries dev irq base cyli head n s2)"

definition floppy_seek :: "device \<Rightarrow> (nat \<Rightarrow> bool) \<Rightarrow> u16 \<Rightarrow> u32 \<Rightarrow> u8 \<Rightarrow> floppy \<Rightarrow> (int \<times> floppy) option" where
  "floppy_seek dev irq base cyli head s = seek_tries dev irq base cyli head 10 (floppy_motor base True s)"

section \<open>Transfers\<close>

datatype floppy_dir = Floppy_Read | Floppy_Write

definition floppy_dmalen :: u32 where "floppy_dmalen = 0x4800"

text \<open>\<open>buf\<close> is the address of the transfer buffer.\<close>

definition floppy_dma_init :: "u32 \<Rightarrow> floppy_dir \<Rightarrow> floppy \<Rightarrow> floppy" where
  "floppy_dma_init buf dir s =
     (let c = floppy_dmalen - 1;
          mode = (case dir of Floppy_Read \<Rightarrow> 0x46 | Floppy_Write \<Rightarrow> 0x4A)
      in fold (\<lambda>(p, v). port_out p v)
           [(0x0A, 0x06), (0x0C, 0xFF), (0x04, ucast buf), (0x04, ucast (drop_bit 8 buf)), (0x81, ucast (drop_bit 16 buf)),
            (0x0C, 0xFF), (0x05, ucast c), (0x05, ucast (drop_bit 8 c)), (0x0B, mode), (0x0A, 0x02)] s)"

text \<open>The variable \<open>error\<close> after the checks of the three status bytes and the sector size.\<close>

definition transfer_error :: "u8 \<Rightarrow> u8 \<Rightarrow> u8 \<Rightarrow> u8 \<Rightarrow> nat" where
  "transfer_error st0 st1 st2 bps =
     (if st1 AND 0x02 \<noteq> 0 then 2
      else if st0 AND 0xC0 \<noteq> 0 \<or> st1 AND 0x80 \<noteq> 0 \<or> st0 AND 0x08 \<noteq> 0 \<or> st1 AND 0x20 \<noteq> 0 \<or> st1 AND 0x10 \<noteq> 0 \<or>
        st1 AND 0x04 \<noteq> 0 \<or> (st1 OR st2) AND 0x01 \<noteq> 0 \<or> st2 AND 0x40 \<noteq> 0 \<or> st2 AND 0x20 \<noteq> 0 \<or> st2 AND 0x10 \<noteq> 0 \<or>
        st2 AND 0x04 \<noteq> 0 \<or> st2 AND 0x02 \<noteq> 0 \<or> bps \<noteq> 0x2
      then 1 else 0)"

definition transfer_cmd :: "floppy_dir \<Rightarrow> u8" where
  "transfer_cmd dir = (case dir of Floppy_Read \<Rightarrow> CMD_READ_DATA | Floppy_Write \<Rightarrow> CMD_WRITE_DATA) OR 0xC0"

text \<open>The seven result bytes of a transfer, and the error they make.\<close>

definition read_result :: "device \<Rightarrow> u16 \<Rightarrow> floppy \<Rightarrow> nat \<times> floppy" where
  "read_result dev base s =
     (let (st0, s1) = floppy_read_data dev base s;
          (st1, s2) = floppy_read_data dev base s1;
          (st2, s3) = floppy_read_data dev base s2;
          (rcy, s4) = floppy_read_data dev base s3;
          (rhe, s5) = floppy_read_data dev base s4;
          (rse, s6) = floppy_read_data dev base s5;
          (bps, s7) = floppy_read_data dev base s6
      in (transfer_error st0 st1 st2 bps, s7))"

fun transfer_tries :: "device \<Rightarrow> (nat \<Rightarrow> bool) \<Rightarrow> u32 \<Rightarrow> u16 \<Rightarrow> u32 \<Rightarrow> floppy_dir \<Rightarrow> nat \<Rightarrow> floppy \<Rightarrow> (int \<times> floppy) option" where
  "transfer_tries dev irq buf base cyl dir 0 s = Some (- 1, floppy_motor base False s)"
| "transfer_tries dev irq buf base cyl dir (Suc n) s =
     Option.bind (floppydisk_wait_irq irq
       (write_cmds dev base [transfer_cmd dir, 0, ucast cyl, 0, 1, 2, 18, 0x1B, 0xFF] (floppy_dma_init buf dir (floppy_motor base True s)))) (\<lambda>s1.
     let (error, s2) = read_result dev base s1 in
     if error = 0 then Some (0, floppy_motor base False s2)
     else if error > 1 then Some (- 2, floppy_motor base False s2)
     else transfer_tries dev irq buf base cyl dir n s2)"

definition floppy_do_track :: "device \<Rightarrow> (nat \<Rightarrow> bool) \<Rightarrow> u32 \<Rightarrow> u16 \<Rightarrow> u32 \<Rightarrow> floppy_dir \<Rightarrow> floppy \<Rightarrow> (int \<times> floppy) option" where
  "floppy_do_track dev irq buf base cyl dir s =
     Option.bind (floppy_seek dev irq base cyl 0 s) (\<lambda>(r0, s1).
     if r0 \<noteq> 0 then Some (- 1, s1)
     else
       Option.bind (floppy_seek dev irq base cyl 1 s1) (\<lambda>(r1, s2).
       if r1 \<noteq> 0 then Some (- 1, s2) else transfer_tries dev irq buf base cyl dir 20 s2))"

definition floppy_read_track :: "device \<Rightarrow> (nat \<Rightarrow> bool) \<Rightarrow> u32 \<Rightarrow> u16 \<Rightarrow> u32 \<Rightarrow> floppy \<Rightarrow> (int \<times> floppy) option" where
  "floppy_read_track dev irq buf base cyl s = floppy_do_track dev irq buf base cyl Floppy_Read s"

definition floppy_write_track :: "device \<Rightarrow> (nat \<Rightarrow> bool) \<Rightarrow> u32 \<Rightarrow> u16 \<Rightarrow> u32 \<Rightarrow> floppy \<Rightarrow> (int \<times> floppy) option" where
  "floppy_write_track dev irq buf base cyl s = floppy_do_track dev irq buf base cyl Floppy_Write s"

section \<open>A drive that answers\<close>

text \<open>A drive whose data port is always ready, whose \<open>n\<close>-th answer to a read of a port is \<open>answer n\<close> on
  the data port, and that sends an interrupt when the driver waits for one.\<close>

definition answers :: "device \<Rightarrow> (nat \<Rightarrow> u8) \<Rightarrow> bool" where
  "answers dev answer \<longleftrightarrow> (\<forall>ws n. dev ws n (floppy_base + FLOPPY_MSR) AND 0x80 \<noteq> 0 \<and> dev ws n (floppy_base + FLOPPY_FIFO) = answer n)"

text \<open>The bytes that the driver has sent to the data port.\<close>

definition bytes_sent :: "floppy \<Rightarrow> u8 list" where
  "bytes_sent s = map snd (filter (\<lambda>(p, v). p = floppy_base + FLOPPY_FIFO) (writes s))"

lemma bytes_sent_updates [simp]:
  "bytes_sent (s\<lparr>FLOPPDISKYIRQ := i\<rparr>) = bytes_sent s" "bytes_sent (s\<lparr>reads := r\<rparr>) = bytes_sent s"
  "bytes_sent (s\<lparr>floppy_motor_state := m\<rparr>) = bytes_sent s" "bytes_sent (s\<lparr>floppy_motor_ticks := k\<rparr>) = bytes_sent s"
  by (simp_all add: bytes_sent_def)

lemma bytes_sent_out [simp]: "bytes_sent (port_out p v s) = bytes_sent s @ (if p = floppy_base + FLOPPY_FIFO then [v] else [])"
  by (simp add: bytes_sent_def port_out_def)

lemma port_out_simps [simp]:
  "reads (port_out p v s) = reads s"
  "floppy_motor_state (port_out p v u) = floppy_motor_state u" "FLOPPDISKYIRQ (port_out p v u) = FLOPPDISKYIRQ u"
  by (simp_all add: port_out_def)

lemma motor_simps [simp]:
  "reads (floppy_motor base on s) = reads s" "FLOPPDISKYIRQ (floppy_motor base on s) = FLOPPDISKYIRQ s"
  "bytes_sent (floppy_motor floppy_base on s) = bytes_sent s"
  "floppy_motor_state (floppy_motor base False s) = Motor_Wait" "floppy_motor_ticks (floppy_motor base False s) = 300"
  by (simp_all add: floppy_motor_def FLOPPY_DOR_def FLOPPY_FIFO_def floppy_base_def)

lemma dma_simps [simp]: "reads (floppy_dma_init buf dir s) = reads s" "bytes_sent (floppy_dma_init buf dir s) = bytes_sent s"
  by (simp_all add: floppy_dma_init_def Let_def floppy_base_def FLOPPY_FIFO_def)

lemma wait_irq_always: "(\<And>n. irq n) \<Longrightarrow> floppydisk_wait_irq irq s = Some (s\<lparr>FLOPPDISKYIRQ := 0\<rparr>)"
  by (simp add: floppydisk_wait_irq_def)

lemma poll_ready: "answers dev answer \<Longrightarrow> 0 < n \<Longrightarrow> poll_msr dev floppy_base n s = (True, s\<lparr>reads := reads s + 1\<rparr>)"
  by (cases n) (simp_all add: answers_def port_in_def and.commute)

lemma write_cmd_ready:
  "answers dev answer \<Longrightarrow> reads (floppy_write_cmd dev floppy_base cmd s) = reads s + 1 \<and>
     bytes_sent (floppy_write_cmd dev floppy_base cmd s) = bytes_sent s @ [cmd]"
  by (simp add: floppy_write_cmd_def poll_ready del: poll_msr.simps)

lemma read_data_ready:
  "answers dev answer \<Longrightarrow> floppy_read_data dev floppy_base s = (answer (reads s + 1), s\<lparr>reads := reads s + 2\<rparr>)"
  by (simp add: floppy_read_data_def poll_ready port_in_def del: poll_msr.simps) (simp add: answers_def)

lemma write_cmds_ready:
  "answers dev answer \<Longrightarrow> reads (write_cmds dev floppy_base cmds s) = reads s + length cmds \<and>
     bytes_sent (write_cmds dev floppy_base cmds s) = bytes_sent s @ cmds"
  unfolding write_cmds_def by (induction cmds arbitrary: s) (simp_all add: write_cmd_ready)

lemma check_ready:
  assumes "answers dev answer"
  shows "\<exists>t. floppy_check_interrupt dev floppy_base s = ((answer (reads s + 2), answer (reads s + 4)), t) \<and>
     reads t = reads s + 5 \<and> bytes_sent t = bytes_sent s @ [CMD_SENSE_INTERRUPT]"
  by (simp add: floppy_check_interrupt_def read_data_ready [OF assms] write_cmd_ready [OF assms] eval_nat_numeral)

lemma result_ready:
  assumes "answers dev answer"
  shows "\<exists>t. read_result dev floppy_base s =
      (transfer_error (answer (reads s + 1)) (answer (reads s + 3)) (answer (reads s + 5)) (answer (reads s + 13)), t) \<and>
     reads t = reads s + 14 \<and> bytes_sent t = bytes_sent s"
  by (simp add: read_result_def read_data_ready [OF assms] eval_nat_numeral)

section \<open>The retries, from the answers of the drive\<close>

text \<open>The answers to the \<open>i\<close>-th seek and to the \<open>i\<close>-th transfer when the first of them starts at read
  \<open>r\<close>: a command byte takes one read (of the status port), a result byte two. A seek has four
  command bytes (one of them asks for the result) and two result bytes, a transfer nine and seven.\<close>

definition seek_reply :: "(nat \<Rightarrow> u8) \<Rightarrow> nat \<Rightarrow> nat \<Rightarrow> u8 \<times> u8" where
  "seek_reply answer r i = (answer (r + 8 * i + 5), answer (r + 8 * i + 7))"

definition transfer_reply :: "(nat \<Rightarrow> u8) \<Rightarrow> nat \<Rightarrow> nat \<Rightarrow> u8 \<times> u8 \<times> u8 \<times> u8" where
  "transfer_reply answer r i = (answer (r + 23 * i + 10), answer (r + 23 * i + 12), answer (r + 23 * i + 14), answer (r + 23 * i + 22))"

text \<open>A seek has succeeded when the drive reports no error (bits 6 and 7) and the cylinder that was
  asked for. A transfer was clean when no error bit is set in the three status bytes and the sector
  size is the one that was asked for; bit 1 of the second status byte says that the disk is
  write-protected.\<close>

definition seek_done :: "u32 \<Rightarrow> u8 \<times> u8 \<Rightarrow> bool" where
  "seek_done cyl a \<longleftrightarrow> fst a AND 0xC0 = 0 \<and> uint (snd a) = uint cyl"

fun clean :: "u8 \<times> u8 \<times> u8 \<times> u8 \<Rightarrow> bool" where
  "clean (st0, st1, st2, bps) \<longleftrightarrow> st0 AND 0xC8 = 0 \<and> st1 AND 0xB7 = 0 \<and> st2 AND 0x77 = 0 \<and> bps = 2"

fun protected :: "u8 \<times> u8 \<times> u8 \<times> u8 \<Rightarrow> bool" where
  "protected (st0, st1, st2, bps) \<longleftrightarrow> bit st1 1"

text \<open>The first of \<open>n\<close> attempts with a property.\<close>

definition first_of :: "nat \<Rightarrow> (nat \<Rightarrow> bool) \<Rightarrow> nat option" where
  "first_of n P = find P [0..<n]"

lemma first_of_0: "first_of 0 P = None"
  by (simp add: first_of_def)

lemma first_of_Suc: "first_of (Suc n) P = (if P 0 then Some 0 else map_option Suc (first_of n (\<lambda>i. P (Suc i))))"
proof -
  have f: "find P (map Suc xs) = map_option Suc (find (\<lambda>i. P (Suc i)) xs)" for xs by (induction xs) simp_all
  have "[0..<Suc n] = 0 # map Suc [0..<n]" by (simp only: map_Suc_upt upt_conv_Cons zero_less_Suc)
  then show ?thesis by (simp only: first_of_def f find.simps)
qed

lemma and_or_zero: "(x :: u8) AND (a OR b) = 0 \<longleftrightarrow> x AND a = 0 \<and> x AND b = 0" "(a OR b) AND x = 0 \<longleftrightarrow> a AND x = 0 \<and> b AND x = 0"
  by (simp_all add: bit.conj_disj_distrib bit.conj_disj_distrib2 or_eq_0_iff)

lemma clean_iff: "transfer_error st0 st1 st2 bps = 0 \<longleftrightarrow> clean (st0, st1, st2, bps)"
proof -
  have m: "(0xC8 :: u8) = 0xC0 OR 0x08" "(0xB7 :: u8) = 0x80 OR (0x20 OR (0x10 OR (0x04 OR (0x02 OR 0x01))))"
    "(0x77 :: u8) = 0x40 OR (0x20 OR (0x10 OR (0x04 OR (0x02 OR 0x01))))"
    by simp_all
  show ?thesis unfolding transfer_error_def clean.simps unfolding m and_or_zero by auto
qed

lemma protected_iff: "transfer_error st0 st1 st2 bps > 1 \<longleftrightarrow> protected (st0, st1, st2, bps)"
proof -
  have "st1 AND 2 \<noteq> 0 \<longleftrightarrow> bit st1 1" using and_exp_eq_0_iff_not_bit [of st1 1] by simp
  then show ?thesis by (simp add: transfer_error_def)
qed

lemma seek_step:
  assumes "answers dev answer" and "\<And>n. irq n"
  shows "\<exists>s1 s2. floppydisk_wait_irq irq (write_cmds dev floppy_base [CMD_SEEK, push_bit 2 head, ucast cyl] s) = Some s1 \<and>
    floppy_check_interrupt dev floppy_base s1 = (seek_reply answer (reads s) 0, s2) \<and> reads s2 = reads s + 8 \<and>
    bytes_sent s2 = bytes_sent s @ [CMD_SEEK, push_bit 2 head, ucast cyl, CMD_SENSE_INTERRUPT]"
proof -
  let ?s1 = "(write_cmds dev floppy_base [CMD_SEEK, push_bit 2 head, ucast cyl] s)\<lparr>FLOPPDISKYIRQ := 0\<rparr>"
  have "reads ?s1 = reads s + 3" "bytes_sent ?s1 = bytes_sent s @ [CMD_SEEK, push_bit 2 head, ucast cyl]"
    using write_cmds_ready [OF assms(1)] by simp_all
  with check_ready [OF assms(1), of ?s1] show ?thesis
    by (auto simp: wait_irq_always [OF assms(2)] seek_reply_def add.commute)
qed

lemma same_cylinder: "ucast (c :: u8) = (cyl :: u32) \<longleftrightarrow> uint c = uint cyl"
  by (simp add: word_uint_eq_iff uint_up_ucast is_up)

lemma seek_tries_answers:
  assumes "answers dev answer" and "\<And>n. irq n"
  shows "\<exists>t. seek_tries dev irq floppy_base cyl head n s =
      Some (case first_of n (\<lambda>i. seek_done cyl (seek_reply answer (reads s) i)) of None \<Rightarrow> - 1 | Some a \<Rightarrow> 0, t) \<and>
    floppy_motor_state t = Motor_Wait \<and>
    (let k = (case first_of n (\<lambda>i. seek_done cyl (seek_reply answer (reads s) i)) of None \<Rightarrow> n | Some a \<Rightarrow> Suc a) in
     reads t = reads s + 8 * k \<and>
     bytes_sent t = bytes_sent s @ concat (replicate k [CMD_SEEK, push_bit 2 head, ucast cyl, CMD_SENSE_INTERRUPT]))"
proof (induction n arbitrary: s)
  case (Suc n)
  obtain s1 s2 where 1: "floppydisk_wait_irq irq (write_cmds dev floppy_base [CMD_SEEK, push_bit 2 head, ucast cyl] s) = Some s1"
    and 2: "floppy_check_interrupt dev floppy_base s1 = (seek_reply answer (reads s) 0, s2)" and s2: "reads s2 = reads s + 8"
      "bytes_sent s2 = bytes_sent s @ [CMD_SEEK, push_bit 2 head, ucast cyl, CMD_SENSE_INTERRUPT]"
    using seek_step [of dev answer irq head cyl s, OF assms] by blast
  have shift: "seek_reply answer (reads s) (Suc i) = seek_reply answer (reads s2) i" for i
    by (simp add: seek_reply_def s2 add.assoc add.commute [of 8])
  have "seek_tries dev irq floppy_base cyl head (Suc n) s =
      (if seek_done cyl (seek_reply answer (reads s) 0) then Some (0, floppy_motor floppy_base False s2)
       else seek_tries dev irq floppy_base cyl head n s2)"
    by (simp add: 1 2 seek_done_def seek_reply_def same_cylinder)
  with Suc [of s2] s2 show ?case
    by (cases "first_of n (\<lambda>i. seek_done cyl (seek_reply answer (reads s2) i))")
      (auto simp: first_of_Suc shift Let_def simp del: seek_tries.simps)
qed (simp add: first_of_0)

text \<open>The bytes of a transfer command: multitrack, double density, both heads from sector 1, 512
  bytes a sector, 18 sectors.\<close>

definition transfer_bytes :: "floppy_dir \<Rightarrow> u32 \<Rightarrow> u8 list" where
  "transfer_bytes dir cyl = [case dir of Floppy_Read \<Rightarrow> 0xC6 | Floppy_Write \<Rightarrow> 0xC5, 0, ucast cyl, 0, 1, 2, 18, 0x1B, 0xFF]"

lemma transfer_step:
  assumes "answers dev answer" and "\<And>n. irq n"
  shows "\<exists>s1 s2. floppydisk_wait_irq irq (write_cmds dev floppy_base [transfer_cmd dir, 0, ucast cyl, 0, 1, 2, 18, 0x1B, 0xFF]
      (floppy_dma_init buf dir (floppy_motor floppy_base True s))) = Some s1 \<and>
    read_result dev floppy_base s1 = (case transfer_reply answer (reads s) 0 of (st0, st1, st2, bps) \<Rightarrow> transfer_error st0 st1 st2 bps, s2) \<and>
    reads s2 = reads s + 23 \<and> bytes_sent s2 = bytes_sent s @ transfer_bytes dir cyl"
proof -
  let ?s0 = "floppy_dma_init buf dir (floppy_motor floppy_base True s)"
  let ?s1 = "(write_cmds dev floppy_base [transfer_cmd dir, 0, ucast cyl, 0, 1, 2, 18, 0x1B, 0xFF] ?s0)\<lparr>FLOPPDISKYIRQ := 0\<rparr>"
  have "transfer_cmd dir = (case dir of Floppy_Read \<Rightarrow> 0xC6 | Floppy_Write \<Rightarrow> 0xC5)"
    by (cases dir) (simp_all add: transfer_cmd_def CMD_READ_DATA_def CMD_WRITE_DATA_def)
  then have "reads ?s1 = reads s + 9" "bytes_sent ?s1 = bytes_sent s @ transfer_bytes dir cyl"
    using write_cmds_ready [OF assms(1)] by (simp_all add: transfer_bytes_def)
  with result_ready [OF assms(1), of ?s1] show ?thesis
    by (auto simp: wait_irq_always [OF assms(2)] transfer_reply_def add.commute)
qed

lemma transfer_tries_answers:
  assumes "answers dev answer" and "\<And>n. irq n"
  shows "\<exists>t. transfer_tries dev irq buf floppy_base cyl dir n s =
      Some (case first_of n (\<lambda>i. clean (transfer_reply answer (reads s) i) \<or> protected (transfer_reply answer (reads s) i)) of
          None \<Rightarrow> - 1 | Some c \<Rightarrow> if protected (transfer_reply answer (reads s) c) then - 2 else 0, t) \<and>
    floppy_motor_state t = Motor_Wait \<and>
    (let k = (case first_of n (\<lambda>i. clean (transfer_reply answer (reads s) i) \<or> protected (transfer_reply answer (reads s) i)) of
          None \<Rightarrow> n | Some c \<Rightarrow> Suc c) in
     bytes_sent t = bytes_sent s @ concat (replicate k (transfer_bytes dir cyl)))"
proof (induction n arbitrary: s)
  case (Suc n)
  obtain s1 s2 where 1: "floppydisk_wait_irq irq (write_cmds dev floppy_base [transfer_cmd dir, 0, ucast cyl, 0, 1, 2, 18, 0x1B, 0xFF]
      (floppy_dma_init buf dir (floppy_motor floppy_base True s))) = Some s1"
    and 2: "read_result dev floppy_base s1 = (case transfer_reply answer (reads s) 0 of (st0, st1, st2, bps) \<Rightarrow> transfer_error st0 st1 st2 bps, s2)"
    and s2: "reads s2 = reads s + 23" "bytes_sent s2 = bytes_sent s @ transfer_bytes dir cyl"
    using transfer_step [of dev answer irq dir cyl buf s, OF assms] by blast
  have shift: "transfer_reply answer (reads s) (Suc i) = transfer_reply answer (reads s2) i" for i
    by (simp add: transfer_reply_def s2 add.assoc add.commute [of 23])
  obtain st0 st1 st2 bps where reply: "transfer_reply answer (reads s) 0 = (st0, st1, st2, bps)" by (cases "transfer_reply answer (reads s) 0")
  have "transfer_tries dev irq buf floppy_base cyl dir (Suc n) s =
      (if clean (st0, st1, st2, bps) then Some (0, floppy_motor floppy_base False s2)
       else if protected (st0, st1, st2, bps) then Some (- 2, floppy_motor floppy_base False s2)
       else transfer_tries dev irq buf floppy_base cyl dir n s2)"
    using protected_iff [of st0 st1 st2 bps] by (simp add: 1 2 reply Let_def clean_iff del: clean.simps protected.simps)
  moreover have "\<not> (clean (st0, st1, st2, bps) \<and> protected (st0, st1, st2, bps))"
    using clean_iff [of st0 st1 st2 bps] protected_iff [of st0 st1 st2 bps] by auto
  ultimately show ?case using Suc [of s2] s2
    by (cases "first_of n (\<lambda>i. clean (transfer_reply answer (reads s2) i) \<or> protected (transfer_reply answer (reads s2) i))")
      (auto simp: first_of_Suc shift reply Let_def simp del: transfer_tries.simps clean.simps protected.simps)
qed (simp add: first_of_0)

section \<open>Reading and writing a track\<close>

text \<open>What the driver makes of a drive: the result and the bytes sent, when the first seek starts at
  read \<open>r\<close>. At most ten seeks with head 0, ten with head 1 and twenty transfers.\<close>

definition seek_bytes :: "u8 \<Rightarrow> u32 \<Rightarrow> u8 list" where
  "seek_bytes head cyl = [0x0F, 4 * head, ucast cyl, 0x08]"

definition track_outcome :: "(nat \<Rightarrow> u8) \<Rightarrow> u32 \<Rightarrow> floppy_dir \<Rightarrow> nat \<Rightarrow> int \<times> u8 list" where
  "track_outcome answer cyl dir r =
     (case first_of 10 (\<lambda>i. seek_done cyl (seek_reply answer r i)) of
        None \<Rightarrow> (- 1, concat (replicate 10 (seek_bytes 0 cyl)))
      | Some a \<Rightarrow>
          let sent0 = concat (replicate (a + 1) (seek_bytes 0 cyl)); r1 = r + 8 * (a + 1) in
          (case first_of 10 (\<lambda>i. seek_done cyl (seek_reply answer r1 i)) of
             None \<Rightarrow> (- 1, sent0 @ concat (replicate 10 (seek_bytes 1 cyl)))
           | Some b \<Rightarrow>
               let sent1 = sent0 @ concat (replicate (b + 1) (seek_bytes 1 cyl)); r2 = r1 + 8 * (b + 1) in
               (case first_of 20 (\<lambda>i. clean (transfer_reply answer r2 i) \<or> protected (transfer_reply answer r2 i)) of
                  None \<Rightarrow> (- 1, sent1 @ concat (replicate 20 (transfer_bytes dir cyl)))
                | Some c \<Rightarrow> (if protected (transfer_reply answer r2 c) then - 2 else 0,
                    sent1 @ concat (replicate (c + 1) (transfer_bytes dir cyl))))))"

lemma seek_answers:
  assumes "answers dev answer" and "\<And>n. irq n"
  shows "\<exists>t. floppy_seek dev irq floppy_base cyl head s =
      Some (case first_of 10 (\<lambda>i. seek_done cyl (seek_reply answer (reads s) i)) of None \<Rightarrow> - 1 | Some a \<Rightarrow> 0, t) \<and>
    floppy_motor_state t = Motor_Wait \<and>
    (let k = (case first_of 10 (\<lambda>i. seek_done cyl (seek_reply answer (reads s) i)) of None \<Rightarrow> 10 | Some a \<Rightarrow> Suc a) in
     reads t = reads s + 8 * k \<and> bytes_sent t = bytes_sent s @ concat (replicate k (seek_bytes head cyl)))"
proof -
  have bytes: "[CMD_SEEK, push_bit 2 head, ucast cyl, CMD_SENSE_INTERRUPT] = seek_bytes head cyl"
    by (simp add: seek_bytes_def CMD_SEEK_def CMD_SENSE_INTERRUPT_def push_bit_eq_mult mult.commute)
  show ?thesis using seek_tries_answers [of dev answer irq cyl head 10 "floppy_motor floppy_base True s", OF assms]
    unfolding floppy_seek_def bytes motor_simps .
qed

lemma track_answers:
  assumes "answers dev answer" and irq: "\<And>n. irq n"
  shows "\<exists>t. floppy_do_track dev irq buf floppy_base cyl dir s = Some (fst (track_outcome answer cyl dir (reads s)), t) \<and>
    bytes_sent t = bytes_sent s @ snd (track_outcome answer cyl dir (reads s)) \<and> floppy_motor_state t = Motor_Wait"
proof -
  note seek = seek_answers [of dev answer irq, OF assms]
  show ?thesis
  proof (cases "first_of 10 (\<lambda>i. seek_done cyl (seek_reply answer (reads s) i))")
    case None
    with seek [of cyl 0 s] show ?thesis by (auto simp: floppy_do_track_def track_outcome_def)
  next
    case (Some a)
    then obtain s1 where 1: "floppy_seek dev irq floppy_base cyl 0 s = Some (0, s1)" "reads s1 = reads s + 8 * Suc a"
      "bytes_sent s1 = bytes_sent s @ concat (replicate (Suc a) (seek_bytes 0 cyl))"
      using seek [of cyl 0 s] by (auto simp: Let_def)
    note s1 = this Some
    show ?thesis
    proof (cases "first_of 10 (\<lambda>i. seek_done cyl (seek_reply answer (reads s1) i))")
      case None
      with seek [of cyl 1 s1] s1 show ?thesis by (auto simp: floppy_do_track_def track_outcome_def Let_def add.assoc)
    next
      case (Some b)
      then obtain s2 where s2: "floppy_seek dev irq floppy_base cyl 1 s1 = Some (0, s2)" "reads s2 = reads s1 + 8 * Suc b"
        "bytes_sent s2 = bytes_sent s1 @ concat (replicate (Suc b) (seek_bytes 1 cyl))"
        using seek [of cyl 1 s1] by (auto simp: Let_def)
      have "floppy_do_track dev irq buf floppy_base cyl dir s = transfer_tries dev irq buf floppy_base cyl dir 20 s2"
        by (simp add: floppy_do_track_def s1(1) s2(1) del: transfer_tries.simps)
      then show ?thesis using transfer_tries_answers [of dev answer irq buf cyl dir 20 s2, OF assms] s1 s2 Some
        by (cases "first_of 20 (\<lambda>i. clean (transfer_reply answer (reads s2) i) \<or> protected (transfer_reply answer (reads s2) i))")
          (auto simp: track_outcome_def Let_def add.assoc simp del: transfer_tries.simps clean.simps protected.simps)
    qed
  qed
qed

lemma track_without_irq:
  assumes "\<forall>n. \<not> irq n" and "FLOPPDISKYIRQ s = 0"
  shows "floppy_do_track dev irq buf floppy_base cyl dir s = None"
proof -
  have f: "FLOPPDISKYIRQ (port_out p v u) = FLOPPDISKYIRQ u" for p v and u :: floppy by (simp add: port_out_def)
  have p: "FLOPPDISKYIRQ (snd (poll_msr dev base n u)) = FLOPPDISKYIRQ u" for base n u
    by (induction n arbitrary: u) (auto simp: port_in_def Let_def)
  have c: "FLOPPDISKYIRQ (floppy_write_cmd dev base cmd u) = FLOPPDISKYIRQ u" for base cmd u
    using p [of base 600 u] by (auto simp: floppy_write_cmd_def f simp del: poll_msr.simps split: prod.split)
  have "FLOPPDISKYIRQ (write_cmds dev base cmds u) = FLOPPDISKYIRQ u" for base cmds u
    unfolding write_cmds_def by (induction cmds arbitrary: u) (simp_all add: c)
  moreover have "FLOPPDISKYIRQ (floppy_motor base on u) = FLOPPDISKYIRQ u" for base on u
    by (simp add: floppy_motor_def f)
  moreover have "seek_tries dev irq base cy h 10 u = Option.bind (floppydisk_wait_irq irq (write_cmds dev base
      [CMD_SEEK, push_bit 2 h, ucast cy] u)) (\<lambda>s1. let ((st0, cyl), s2) = floppy_check_interrupt dev base s1 in
        if st0 AND 0xC0 \<noteq> 0 then seek_tries dev irq base cy h 9 s2
        else if ucast cyl = cy then Some (0, floppy_motor base False s2) else seek_tries dev irq base cy h 9 s2)"
    for base cy h u using seek_tries.simps(2) [of dev irq base cy h 9 u] by simp
  ultimately show ?thesis using assms by (simp add: floppy_do_track_def floppy_seek_def floppydisk_wait_irq_def)
qed

text \<open>C33: The floppy drive. On a drive that is ready and answers with an interrupt, what reading or
  writing a track does is decided by the drive's answers. The driver seeks with head 0 until one of at
  most ten seeks reports no error and the right cylinder, then with head 1 in the same way, and
  returns \<open>-1\<close> when ten were not enough. It then starts transfers until one of at most twenty is
  clean (the result is \<open>0\<close>) or reports a write-protected disk (\<open>-2\<close>), and returns \<open>-1\<close> when there is
  none. The bytes sent to the drive are exactly those seek, sense and transfer commands, and the motor
  is left waiting to be turned off. Without an interrupt the function does not return.\<close>

theorem floppy_track_returns:
  assumes "answers dev answer"
  shows "((\<forall>n. irq n) \<longrightarrow>
      (\<exists>t. floppy_do_track dev irq buf floppy_base cyl dir s = Some (fst (track_outcome answer cyl dir (reads s)), t) \<and>
        bytes_sent t = bytes_sent s @ snd (track_outcome answer cyl dir (reads s)) \<and> floppy_motor_state t = Motor_Wait)) \<and>
    ((\<forall>n. \<not> irq n) \<and> FLOPPDISKYIRQ s = 0 \<longrightarrow> floppy_do_track dev irq buf floppy_base cyl dir s = None)"
  using track_answers [of dev answer irq, OF assms] track_without_irq by blast

text \<open>A drive whose first seek with head 0 goes to the wrong cylinder, whose second transfer is clean;
  and one that is write-protected.\<close>

definition example_drive :: "u8 \<Rightarrow> nat \<Rightarrow> u8" where
  "example_drive st1 n = (if n = 7 then 1 else if n = 34 then 0x40 else if n = 46 \<or> n = 69 then 2 else if n = 59 then st1 else if n = 15 \<or> n = 23 then 5 else 0)"

definition example_floppy :: floppy where
  "example_floppy = \<lparr>reads = 0, writes = [], FLOPPDISKYIRQ = 0, floppy_motor_state = Motor_Off, floppy_motor_ticks = 0\<rparr>"

definition example_device :: "u8 \<Rightarrow> device" where
  "example_device st1 = (\<lambda>ws n p. if p = floppy_base + FLOPPY_MSR then 0x80 else example_drive st1 n)"

theorem floppy_track_returns_witness:
  "(\<exists>t. floppy_do_track (example_device 0) (\<lambda>_. True) 0 floppy_base 5 Floppy_Read example_floppy = Some (0, t) \<and>
     bytes_sent t = [15, 0, 5, 8, 15, 0, 5, 8, 15, 4, 5, 8, 0xC6, 0, 5, 0, 1, 2, 18, 27, 255, 0xC6, 0, 5, 0, 1, 2, 18, 27, 255]) \<and>
   (\<exists>t. floppy_do_track (example_device 2) (\<lambda>_. True) 0 floppy_base 5 Floppy_Write example_floppy = Some (- 2, t)) \<and>
   floppy_do_track (example_device 2) (\<lambda>_. False) 0 floppy_base 5 Floppy_Write example_floppy = None"
proof -
  have drive: "answers (example_device st1) (example_drive st1)" for st1
    by (simp add: answers_def example_device_def floppy_base_def FLOPPY_MSR_def FLOPPY_FIFO_def)
  have "reads example_floppy = 0" "bytes_sent example_floppy = []" "FLOPPDISKYIRQ example_floppy = 0"
    by (simp_all add: example_floppy_def bytes_sent_def)
  moreover have "track_outcome (example_drive 0) 5 Floppy_Read 0 =
      (0, [15, 0, 5, 8, 15, 0, 5, 8, 15, 4, 5, 8, 0xC6, 0, 5, 0, 1, 2, 18, 27, 255, 0xC6, 0, 5, 0, 1, 2, 18, 27, 255])"
    by code_simp
  moreover have "fst (track_outcome (example_drive 2) 5 Floppy_Write 0) = - 2" by code_simp
  ultimately have facts: "\<exists>t. floppy_do_track (example_device 0) (\<lambda>_. True) 0 floppy_base 5 Floppy_Read example_floppy = Some (0, t) \<and>
     bytes_sent t = [15, 0, 5, 8, 15, 0, 5, 8, 15, 4, 5, 8, 0xC6, 0, 5, 0, 1, 2, 18, 27, 255, 0xC6, 0, 5, 0, 1, 2, 18, 27, 255] \<and>
     floppy_motor_state t = Motor_Wait"
    "\<exists>t. floppy_do_track (example_device 2) (\<lambda>_. True) 0 floppy_base 5 Floppy_Write example_floppy = Some (- 2, t) \<and>
       bytes_sent t = snd (track_outcome (example_drive 2) 5 Floppy_Write 0) \<and> floppy_motor_state t = Motor_Wait"
    "floppy_do_track (example_device 2) (\<lambda>_. False) 0 floppy_base 5 Floppy_Write example_floppy = None"
    using floppy_track_returns [OF drive [of 0], of "\<lambda>_. True" 0 5 Floppy_Read example_floppy]
      floppy_track_returns [OF drive [of 2], of "\<lambda>_. True" 0 5 Floppy_Write example_floppy]
      floppy_track_returns [OF drive [of 2], of "\<lambda>_. False" 0 5 Floppy_Write example_floppy] by simp_all
  then show ?thesis by blast
qed

end
