(* ===== verification/Ramdisk.thy ===== *)
theory Ramdisk
  imports Bytes Clock
begin

text \<open>
  The RAM disk below the file system (\<open>kernel/driver/ramdisk.c\<close>): sectors of 512 bytes of the
  boot module in memory, copied with \<open>memcpy\<close>.
\<close>

section \<open>The driver\<close>

definition RAMDISK_BLOCKSIZE :: u32 where "RAMDISK_BLOCKSIZE = 512"

record ramdisk =
  location :: u32
  rd_size :: u32

text \<open>\<open>mount\<close> is the result of \<open>f_mount\<close>.\<close>

definition init_ramdisk :: "u32 \<Rightarrow> u32 \<Rightarrow> u32 \<Rightarrow> ramdisk res" where
  "init_ramdisk mount loc n = kassert (mount = 0) (Inr \<lparr>location = loc, rd_size = n\<rparr>)"

definition disk_initialize :: "u8 \<Rightarrow> u8" where "disk_initialize pdrv = 0"

definition disk_status :: "u8 \<Rightarrow> u8" where "disk_status pdrv = 0"

definition disk_read :: "ramdisk \<Rightarrow> u32 \<Rightarrow> u32 \<Rightarrow> u32 \<Rightarrow> 'a vm_state_scheme \<Rightarrow> 'a vm_state_scheme res" where
  "disk_read rd buffer sector count s =
     (let offset = sector * RAMDISK_BLOCKSIZE; bytes = count * RAMDISK_BLOCKSIZE in
      mem_copy buffer (location rd + offset) bytes s)"

definition disk_write :: "ramdisk \<Rightarrow> u32 \<Rightarrow> u32 \<Rightarrow> u32 \<Rightarrow> 'a vm_state_scheme \<Rightarrow> 'a vm_state_scheme res" where
  "disk_write rd buffer sector count s =
     (let offset = sector * RAMDISK_BLOCKSIZE; bytes = count * RAMDISK_BLOCKSIZE in
      mem_copy (location rd + offset) buffer bytes s)"

text \<open>The result code and the word stored at \<open>buff\<close>, if one is.\<close>

definition disk_ioctl :: "ramdisk \<Rightarrow> u8 \<Rightarrow> u32 \<Rightarrow> 'a vm_state_scheme \<Rightarrow> (u32 \<times> 'a vm_state_scheme) res" where
  "disk_ioctl rd cmd buff s =
     (if cmd = 0 then Inr (0, s)
      else if cmd = 1 then and_then (store32 buff (rd_size rd div RAMDISK_BLOCKSIZE) s) (\<lambda>t. Inr (0, t))
      else if cmd = 3 then and_then (store32 buff RAMDISK_BLOCKSIZE s) (\<lambda>t. Inr (0, t))
      else Inr (1, s))"

text \<open>The time stamp of FatFs; the code takes the fields of an uninitialised structure.\<close>

definition get_fattime :: "tm \<Rightarrow> u32" where
  "get_fattime junk =
     push_bit 25 (tm_year junk - 80) OR push_bit 21 (tm_mon junk + 1) OR push_bit 16 (tm_mday junk) OR
     push_bit 11 (tm_hour junk) OR push_bit 5 (tm_min junk) OR drop_bit 1 (tm_sec junk)"

end
