(* ===== verification/Machine.thy ===== *)
theory Machine
  imports Desktop Elf Descriptors Ramdisk Log_Buffer
begin

text \<open>
  The complete state: the desktop and the kernel's tables, extended by the interrupt and system
  call tables, the loaded shared libraries and the file system. The functions in the two tables
  are named by constructors. The FatFs library is third-party code: its calls are the fields of
  \<open>fat_ops\<close>, functions of its own variables and the disk (\<open>volume\<close>) only.
\<close>

section \<open>Shared libraries and files\<close>

definition MAX_SHARED_LIBRARIES :: nat where "MAX_SHARED_LIBRARIES = 32"
definition MAX_PATH_LENGTH :: nat where "MAX_PATH_LENGTH = 256"

record shared_library =
  lib_state :: u8
  lib_path :: "u8 list"
  lib_elf :: elf_object
  num_users :: u32

definition no_library :: shared_library where
  "no_library = \<lparr>lib_state = 0, lib_path = replicate MAX_PATH_LENGTH 0, lib_elf = no_elf, num_users = 0\<rparr>"

type_synonym volume = "nat \<Rightarrow> u8"

text \<open>Results are \<open>FRESULT\<close> codes, with \<open>FR_OK\<close> for success.\<close>

definition FR_OK :: u32 where "FR_OK = 0"

record fat_ops =
  f_open :: "u8 list \<Rightarrow> volume \<Rightarrow> u32 \<times> fil \<times> volume"
  f_read :: "fil \<Rightarrow> u32 \<Rightarrow> volume \<Rightarrow> u32 \<times> u8 list \<times> fil \<times> volume"
  f_close :: "fil \<Rightarrow> volume \<Rightarrow> u32 \<times> fil \<times> volume"
  f_size :: "fil \<Rightarrow> u32"
  f_opendir :: "u8 list \<Rightarrow> volume \<Rightarrow> u32 \<times> dir \<times> volume"
  f_closedir :: "dir \<Rightarrow> volume \<Rightarrow> u32 \<times> dir \<times> volume"
  f_readdir :: "dir \<Rightarrow> volume \<Rightarrow> (u8 \<times> u8 list) \<times> dir \<times> volume"

section \<open>Handlers\<close>

datatype isr = Div_By_Zero_Handler | Protection_Fault_Handler | Page_Fault_Handler | Timer_Handler |
  Key_Handler | Mouse_Handler | Floppy_Handler | Syscall_Handler

datatype sys = Sys_Get_Task_Id | Sys_Exit | Sys_Print | Sys_Exec | Sys_Open_File | Sys_Close_File | Sys_Read_File |
  Sys_Get_File_Size | Sys_Shmem_Create | Sys_Shmem_Destroy | Sys_Shmem_Exists | Sys_Shmem_Map | Sys_Shmem_Unmap |
  Sys_Get_Event_Buffer | Sys_Create_Window | Sys_Destroy_Window | Sys_Get_Window_Buffer | Sys_Swap_Buffers |
  Sys_Wait_For_Event | Sys_Set_Title | Sys_Get_Heap_Start | Sys_Get_Heap_End | Sys_Set_Heap_End | Sys_Open_Dir |
  Sys_Close_Dir | Sys_Next_File | Sys_Set_Timer | Sys_Debug | Sys_Get_Task_Info | Sys_Resize_Window

section \<open>The state\<close>

record machine = gui_state +
  loaded_shared_libs :: "shared_library list"
  volume :: volume
  isr_functions :: "isr option list"
  syscall_handlers :: "sys option list"
  floppy_irq_flag :: u8
  gdt_entries :: "gdt_entry list"
  idt :: "idt_entry list"
  ram_disk :: ramdisk

text \<open>A call of the file system: it changes the volume only.\<close>

definition on_volume :: "(volume \<Rightarrow> 'r \<times> volume) \<Rightarrow> 'a machine_scheme \<Rightarrow> 'r \<times> 'a machine_scheme" where
  "on_volume f s = (case f (volume s) of (r, v) \<Rightarrow> (r, s\<lparr>volume := v\<rparr>))"

text \<open>The same for calls with two results besides the volume.\<close>

definition on_volume2 :: "(volume \<Rightarrow> 'q \<times> 'r \<times> volume) \<Rightarrow> 'a machine_scheme \<Rightarrow> 'q \<times> 'r \<times> 'a machine_scheme" where
  "on_volume2 f s = (case f (volume s) of (q, r, v) \<Rightarrow> (q, r, s\<lparr>volume := v\<rparr>))"

end
