(* ===== verification/Slib.thy ===== *)
theory Slib
  imports Machine
begin

text \<open>
  Shared libraries (\<open>kernel/slib.c\<close>) and user tasks (\<open>create_user_task\<close> of \<open>kernel/tasks.c\<close>): a
  library is read and parsed once, and mapped into every task that needs it; a task starts with
  its own page directory, stack, segments, heap and event buffer.
\<close>

section \<open>Finding and loading a library\<close>

definition init_shared_libs :: "'a machine_scheme \<Rightarrow> 'a machine_scheme" where
  "init_shared_libs s = s\<lparr>loaded_shared_libs := replicate MAX_SHARED_LIBRARIES no_library\<rparr>"

definition upd_lib :: "nat \<Rightarrow> (shared_library \<Rightarrow> shared_library) \<Rightarrow> 'a machine_scheme \<Rightarrow> 'a machine_scheme" where
  "upd_lib i f s = s\<lparr>loaded_shared_libs := (loaded_shared_libs s)[i := f (loaded_shared_libs s ! i)]\<rparr>"

definition find_slot :: "shared_library list \<Rightarrow> nat res" where
  "find_slot libs =
     (case first_index (\<lambda>i. lib_state (libs ! i) = 0) MAX_SHARED_LIBRARIES of Some i \<Rightarrow> Inr i | None \<Rightarrow> Inl Assert_Failed)"

interpretation library_slots: slot_search "\<lambda>libs i. lib_state (libs ! i) = 0" MAX_SHARED_LIBRARIES find_slot
  by unfold_locales (simp add: find_slot_def)

text \<open>\<open>snprintf(path, MAX_PATH_LENGTH, "/%s", name)\<close>.\<close>

definition library_path :: "u8 list \<Rightarrow> u8 list" where
  "library_path name = take (MAX_PATH_LENGTH - 1) (47 # name) @ [0]"

fun match_path :: "u8 list \<Rightarrow> shared_library list \<Rightarrow> nat list \<Rightarrow> nat option res" where
  "match_path path libs [] = Inr None"
| "match_path path libs (i # is) =
     (if lib_state (libs ! i) = 1 then
        and_then (kernel_strncmp path (lib_path (libs ! i)) MAX_PATH_LENGTH) (\<lambda>d.
        if d = 0 then Inr (Some i) else match_path path libs is)
      else match_path path libs is)"

definition page_up :: "u32 \<Rightarrow> u32" where
  "page_up a = (if a AND 0xFFF \<noteq> 0 then (a AND NOT 0xFFF) + 0x1000 else a)"

text \<open>The second half of \<open>find_or_load_shared_lib\<close>, for a library that is not loaded; \<open>None\<close> is a
  null pointer. \<open>junk\<close> is the uninitialised \<open>ELFObject\<close> on the stack.\<close>

definition load_shared_lib :: "fat_ops \<Rightarrow> elf_object \<Rightarrow> u8 list \<Rightarrow> 'a machine_scheme \<Rightarrow> (nat option \<times> 'a machine_scheme) run" where
  "load_shared_lib fs junk path s =
     run_then (Some (log_message (cstr ''loading %s'') path [0])) (\<lambda>_.
     run_then (Some (find_slot (loaded_shared_libs s))) (\<lambda>index.
     run_then (Some (kernel_strncpy (lib_path (loaded_shared_libs s ! index)) path MAX_PATH_LENGTH)) (\<lambda>p.
     let s1 = upd_lib index (\<lambda>l. l\<lparr>lib_state := 1, num_users := 0, lib_path := p\<rparr>) s;
         (res, file, s2) = on_volume2 (f_open fs path) s1
     in
     if res \<noteq> FR_OK then
       run_then (Some (log_message (cstr ''find_and_load_shared_lib: failed to open executable file %s. error=%u'') path [0, res]))
         (\<lambda>_. Some (Inr (None, s2)))
     else
       (let size = f_size fs file in
        if size < 52 then Some (Inr (None, snd (snd (on_volume2 (f_close fs file) s2))))
        else
          run_then (kmalloc (size + 0x1000) s2) (\<lambda>(block, s3).
          let elf = junk\<lparr>elf_size := size, elf_mem := block, elf_raw := page_up block\<rparr>;
              ((res', data, file'), s4) = on_volume (\<lambda>v. case f_read fs file size v of (r, d, f, v') \<Rightarrow> ((r, d, f), v')) s3
          in
          run_then (Some (store_bytes (elf_raw elf) data s4)) (\<lambda>s5.
          let s6 = snd (snd (on_volume2 (f_close fs file') s5)) in
          if res' \<noteq> FR_OK then
            run_then (kfree block s6) (\<lambda>s7.
            run_then (Some (log_message (cstr ''find_and_load_shared_lib: failed to read from executable file %s. error=%u'') path [0, res']))
              (\<lambda>_. Some (Inr (None, s7))))
          else
            run_then (Some (parse_elf elf s6)) (\<lambda>(ok, elf').
            if \<not> ok then run_then (kfree block s6) (\<lambda>s7. Some (Inr (None, s7)))
            else Some (Inr (Some index, upd_lib index (\<lambda>l. l\<lparr>lib_elf := elf'\<rparr>) s6)))))))))"

definition find_or_load_shared_lib :: "fat_ops \<Rightarrow> elf_object \<Rightarrow> u32 \<Rightarrow> 'a machine_scheme \<Rightarrow>
    (nat option \<times> 'a machine_scheme) run" where
  "find_or_load_shared_lib fs junk name s =
     run_then (mem_string name s) (\<lambda>str.
     let path = library_path str in
     run_then (Some (match_path path (loaded_shared_libs s) [0..<MAX_SHARED_LIBRARIES])) (\<lambda>found.
     case found of
       Some i \<Rightarrow> Some (Inr (Some i, s))
     | None \<Rightarrow> load_shared_lib fs junk path s))"

section \<open>Mapping a library into a task\<close>

definition set_slib :: "nat \<Rightarrow> nat \<Rightarrow> open_slib \<Rightarrow> 'a kern_state_scheme \<Rightarrow> 'a kern_state_scheme" where
  "set_slib i k lib s = upd_task i (\<lambda>t. t\<lparr>slibs := (slibs t)[k := lib]\<rparr>) s"

definition USER_SHARED_LIBS :: u32 where "USER_SHARED_LIBS = 0xB8000000"

text \<open>The address of a new library in slot \<open>k\<close> of the task. A null pointer in the slot before it
  cannot be: slots are filled in order.\<close>

definition slib_address :: "nat \<Rightarrow> open_slib list \<Rightarrow> shared_library list \<Rightarrow> u32" where
  "slib_address k opened libs =
     (if k > 0 then
        page_up (USER_SHARED_LIBS + slib_offset (opened ! (k - 1)) + elf_size (lib_elf (libs ! the (slib (opened ! (k - 1))))))
      else USER_SHARED_LIBS)"

text \<open>A read-only segment shares the frames of the image.\<close>

definition share_pages :: "u32 \<Rightarrow> ('a vm_state_scheme \<Rightarrow> u32 res) \<Rightarrow> u32 \<Rightarrow> nat \<Rightarrow> 'a vm_state_scheme \<Rightarrow> 'a vm_state_scheme res" where
  "share_pages addr src flags n s =
     for_res 0 n (\<lambda>j t.
       and_then (src t) (\<lambda>a.
       and_then (mem_get_phys_from_virt (a + of_nat j * 0x1000) t) (\<lambda>phys.
       mem_map_page ((addr AND NOT 0xFFF) + of_nat j * 0x1000) phys flags t))) s"

definition map_segment :: "elf_object \<Rightarrow> u32 \<Rightarrow> nat \<Rightarrow> 'a vm_state_scheme \<Rightarrow> 'a vm_state_scheme res" where
  "map_segment elf offset i s =
     and_then (e_phoff (elf_header elf) s) (\<lambda>off.
     and_then (e_phentsize (elf_header elf) s) (\<lambda>size.
     let segment = elf_raw elf + off + of_nat i * ucast size in
     and_then (p_type segment s) (\<lambda>type. if type \<noteq> PT_LOAD then Inr s else
     and_then (p_memsz segment s) (\<lambda>memsz. if memsz = 0 then Inr s else
     and_then (p_flags segment s) (\<lambda>pf.
     and_then (p_vaddr segment s) (\<lambda>va.
     let addr = va + offset; pages = segment_pages addr memsz in
     if pf AND PF_W \<noteq> 0 then
       and_then (map_fresh (\<lambda>_. Inr addr) (Elf.segment_flags pf) (unat pages) s) (\<lambda>s1.
       and_then (mem_set (addr AND NOT 0xFFF) 0 (pages * 0x1000) s1) (\<lambda>s2.
       and_then (p_offset segment s2) (\<lambda>foff.
       and_then (p_filesz segment s2) (\<lambda>filesz.
       mem_copy addr (elf_raw elf + foff) filesz s2))))
     else
       share_pages addr (\<lambda>t. and_then (p_offset segment t) (\<lambda>foff. Inr (elf_raw elf + foff))) (Elf.segment_flags pf)
         (unat pages) s))))))"

definition map_shared_lib_into_task :: "nat option \<Rightarrow> nat \<Rightarrow> 'a machine_scheme \<Rightarrow> 'a machine_scheme res" where
  "map_shared_lib_into_task lib i s =
     (case first_index (\<lambda>k. slib (slibs (tasks s ! i) ! k) = None) MAX_SHARED_LIBS_PER_TASK of
        None \<Rightarrow> Inl Assert_Failed
      | Some k \<Rightarrow>
          (case lib of
             None \<Rightarrow> Inl Page_Fault
           | Some l \<Rightarrow>
               (let offset = slib_address k (slibs (tasks s ! i)) (loaded_shared_libs s);
                    s1 = set_slib i k \<lparr>slib = Some l, slib_offset = offset\<rparr> s;
                    elf = lib_elf (loaded_shared_libs s1 ! l)
                in
                and_then (e_phnum (elf_header elf) s1) (\<lambda>n.
                and_then (for_res 0 (unat n) (map_segment elf offset) s1) (\<lambda>s2.
                Inr (upd_lib l (\<lambda>x. x\<lparr>num_users := num_users x + 1\<rparr>) s2))))))"

section \<open>Dynamic references\<close>

text \<open>Does library slot \<open>k\<close> of task \<open>i\<close> define the symbol; the address is \<open>0\<close> if it does not.\<close>

definition symbol_in_slot :: "nat \<Rightarrow> u32 \<Rightarrow> 'a machine_scheme \<Rightarrow> nat \<Rightarrow> u32 run" where
  "symbol_in_slot i sym_name s k =
     (case slib (slibs (tasks s ! i) ! k) of
        None \<Rightarrow> Some (Inr 0)
      | Some l \<Rightarrow>
          (let elf = lib_elf (loaded_shared_libs s ! l) in
           find_symbol elf (dynamic_symbol_table elf) (dynamic_symbol_string_table elf) sym_name s))"

definition resolve_entry :: "elf_object \<Rightarrow> nat \<Rightarrow> u32 \<Rightarrow> u32 \<Rightarrow> nat \<Rightarrow> 'a machine_scheme \<Rightarrow> 'a machine_scheme run" where
  "resolve_entry elf i relocs got e s =
     run_then (Some (r_info (dyn_at relocs (e - 3)) s)) (\<lambda>info.
     if ELF32_R_TYPE info \<noteq> R_386_JUMP_SLOT then Some (Inl Assert_Failed)
     else
       run_then (Some (get_elf_symbol elf (dynamic_symbol_table elf) (dynamic_symbol_string_table elf) (ELF32_R_SYM info) s)) (\<lambda>name.
       run_then (search_run (\<lambda>k. run_then (symbol_in_slot i name s k) (\<lambda>a. Some (Inr (a \<noteq> 0)))) [0..<MAX_SHARED_LIBS_PER_TASK]) (\<lambda>found.
       case found of
         None \<Rightarrow> Some (Inl Assert_Failed)
       | Some k \<Rightarrow>
           run_then (symbol_in_slot i name s k) (\<lambda>sym.
           run_then (Some (st_value sym s)) (\<lambda>v.
           Some (store32 (elem got e) (v + slib_offset (slibs (tasks s ! i) ! k)) s))))))"

definition resolve_dynamic_references :: "elf_object \<Rightarrow> nat \<Rightarrow> 'a machine_scheme \<Rightarrow> 'a machine_scheme run" where
  "resolve_dynamic_references elf i s =
     run_then (Some (sh_offset (relocation_section elf) s)) (\<lambda>off.
     let relocs = elf_raw elf + off in
     run_then (Some (sh_addr (got_section elf) s)) (\<lambda>got.
     run_then (Some (num_entries (got_section elf) s)) (\<lambda>n.
     for_run 3 (unat n) (resolve_entry elf i relocs got) s)))"

definition init_shared_libs_for_task :: "fat_ops \<Rightarrow> elf_object \<Rightarrow> u32 \<Rightarrow> elf_object \<Rightarrow> 'a machine_scheme \<Rightarrow> 'a machine_scheme run" where
  "init_shared_libs_for_task fs junk tid elf s =
     run_then (Some (get_task tid s)) (\<lambda>i.
     run_then (for_run 0 MAX_SHARED_LIBS_PER_TASK (\<lambda>k t.
       let name = dynamic_dependencies elf ! k in
       if name = 0 then Some (Inr t)
       else
         run_then (find_or_load_shared_lib fs junk name t) (\<lambda>(lib, t1).
         Some (map_shared_lib_into_task lib i t1))) s) (\<lambda>s1.
     resolve_dynamic_references elf i s1))"

section \<open>User tasks\<close>

definition USER_STACK_PAGES :: nat where "USER_STACK_PAGES = 16"

definition map_user_stack :: "'a vm_state_scheme \<Rightarrow> 'a vm_state_scheme res" where
  "map_user_stack s =
     for_res 0 USER_STACK_PAGES (\<lambda>i t.
       and_then (pmm_alloc_pageframe t) (\<lambda>(phys, t1).
       mem_map_page (USER_STACK_BOTTOM - of_nat USER_STACK_PAGES * 0x1000 + of_nat i * 0x1000) phys
         (PAGE_FLAG_OWNER OR PAGE_FLAG_USER OR PAGE_FLAG_WRITE) t1)) s"

text \<open>The error returns: after the file was read, and after the address space was set up.\<close>

definition give_up :: "'a machine_scheme \<Rightarrow> (u32 \<times> 'a machine_scheme) run" where
  "give_up s = Some (and_then (pop_cli s) (\<lambda>t. Inr (- 1, t)))"

definition drop_address_space :: "u32 \<Rightarrow> u32 \<Rightarrow> u32 \<Rightarrow> 'a machine_scheme \<Rightarrow> (u32 \<times> 'a machine_scheme) run" where
  "drop_address_space prev_pd pd raw s =
     run_then (Some (mem_change_page_directory prev_pd s)) (\<lambda>s1.
     run_then (Some (mem_free_page_dir pd s1)) (\<lambda>s2.
     run_then (kfree raw s2) give_up))"

text \<open>The file is read into a heap block.\<close>

definition read_program :: "fat_ops \<Rightarrow> u8 list \<Rightarrow> 'a machine_scheme \<Rightarrow> (elf_object option \<times> 'a machine_scheme) run" where
  "read_program fs path s =
     (let (res, file, s1) = on_volume2 (f_open fs path) s in
      if res \<noteq> FR_OK then
        run_then (Some (log_message (cstr ''create_user_task: failed to open executable file %s. error=%u'') path [0, res]))
          (\<lambda>_. Some (Inr (None, s1)))
      else if f_size fs file < 52 then Some (Inr (None, snd (snd (on_volume2 (f_close fs file) s1))))
      else
        run_then (kmalloc (f_size fs file) s1) (\<lambda>(raw, s2).
        let ((res', data, file'), s3) =
              on_volume (\<lambda>v. case f_read fs file (f_size fs file) v of (r, d, f, v') \<Rightarrow> ((r, d, f), v')) s2 in
        run_then (Some (store_bytes raw data s3)) (\<lambda>s4.
        let s5 = snd (snd (on_volume2 (f_close fs file') s4)) in
        if res' \<noteq> FR_OK then
          run_then (kfree raw s5) (\<lambda>s6.
          run_then (Some (log_message (cstr ''create_user_task: failed to read from executable file %s. error=%u'') path [0, res']))
            (\<lambda>_. Some (Inr (None, s6))))
        else Some (Inr (Some (no_elf\<lparr>elf_size := f_size fs file, elf_raw := raw\<rparr>), s5)))))"

text \<open>The segments of the program in the current address space; \<open>None\<close> if it is not accepted.\<close>

definition load_program :: "elf_object \<Rightarrow> 'a vm_state_scheme \<Rightarrow> (elf_object option \<times> 'a vm_state_scheme) res" where
  "load_program elf s =
     and_then (parse_elf elf s) (\<lambda>(parsed, elf1).
     if \<not> parsed then Inr (None, s)
     else
       and_then (load_elf_executable elf1 s) (\<lambda>(loaded, elf2, s1).
       Inr (if loaded \<and> elf_entry elf2 \<noteq> 0 then Some elf2 else None, s1)))"

text \<open>The new task: its table entry, event buffer, heap and libraries.\<close>

definition close_files :: "fat_ops \<Rightarrow> nat \<Rightarrow> 'a machine_scheme \<Rightarrow> 'a machine_scheme" where
  "close_files fs i s =
     fold (\<lambda>k t. case on_volume2 (f_close fs (open_files (tasks t ! i) ! k)) t of
       (res, file, t1) \<Rightarrow> upd_task i (\<lambda>x. x\<lparr>open_files := (open_files x)[k := file]\<rparr>) t1) [0..<MAX_OPEN_FILES] s"

definition start_program :: "fat_ops \<Rightarrow> elf_object \<Rightarrow> u32 \<Rightarrow> nat \<Rightarrow> u32 \<Rightarrow> elf_object \<Rightarrow> 'a machine_scheme \<Rightarrow> 'a machine_scheme run" where
  "start_program fs junk isr_exit index pd elf s =
     run_then (create_task isr_exit index (elf_entry elf) False pd s) (\<lambda>s1.
     run_then (init_events_for_task index s1) (\<lambda>s2.
     let s3 = init_user_heap index s2 in
     run_then (init_shared_libs_for_task fs junk (task_id (tasks s3 ! index)) elf s3) (\<lambda>s4.
     run_then (kfree (elf_raw elf) s4) (\<lambda>s5. Some (Inr (close_files fs index s5))))))"

definition create_user_task :: "fat_ops \<Rightarrow> elf_object \<Rightarrow> u32 \<Rightarrow> u8 list \<Rightarrow> 'a machine_scheme \<Rightarrow> (u32 \<times> 'a machine_scheme) run" where
  "create_user_task fs junk isr_exit path s =
     run_then (Some (log_message (cstr ''starting task: %s'') path [0])) (\<lambda>_.
     run_then (read_program fs path (push_cli s)) (\<lambda>(program, s1).
     case program of
       None \<Rightarrow> give_up s1
     | Some elf \<Rightarrow>
         run_then (Some (find_available_task_slot (tasks s1))) (\<lambda>index.
         let prev_pd = mem_get_current_page_directory s1 in
         run_then (Some (mem_alloc_page_dir s1)) (\<lambda>(pd, s2).
         run_then (Some (mem_change_page_directory pd s2)) (\<lambda>s3.
         run_then (Some (map_user_stack s3)) (\<lambda>s4.
         run_then (Some (load_program elf s4)) (\<lambda>(loaded, s5).
         case loaded of
           None \<Rightarrow> drop_address_space prev_pd pd (elf_raw elf) s5
         | Some elf' \<Rightarrow>
             run_then (start_program fs junk isr_exit index pd elf' s5) (\<lambda>s6.
             run_then (Some (mem_change_page_directory prev_pd s6)) (\<lambda>s7.
             run_then (Some (pop_cli (s7\<lparr>num_tasks := num_tasks s7 + 1\<rparr>))) (\<lambda>s8.
             run_then (Some (c_string path)) (\<lambda>str.
             run_then (Some (name_copy (map (\<lambda>c. char_of (unat c)) str) (task_name (tasks s8 ! index)))) (\<lambda>n.
             let s9 = upd_task index (\<lambda>t. t\<lparr>task_name := n\<rparr>) s8 in
             Some (Inr (task_id (tasks s9 ! index), s9))))))))))))))"

end
