(* ===== verification/Syscalls.thy ===== *)
theory Syscalls
  imports Slib
begin

text \<open>
  System calls (\<open>kernel/syscall.c\<close>): the table of handlers, the handlers and the dispatch from a
  trap frame. A handler takes the registers \<open>ebx\<close>, \<open>ecx\<close>, \<open>edx\<close>, \<open>esi\<close> and \<open>edi\<close> as its arguments.
  What a handler of type \<open>void\<close> leaves in \<open>eax\<close> is not determined and is the argument \<open>garbage\<close>.
  Messages to the log have no effect here except that their string arguments are read and that a message that is
  too long for its buffer is an error (theory \<open>Log_Buffer\<close>).
\<close>

section \<open>The table\<close>

definition NUM_SYSCALLS :: nat where "NUM_SYSCALLS = 256"

definition register_syscall :: "nat \<Rightarrow> sys \<Rightarrow> 'a machine_scheme \<Rightarrow> 'a machine_scheme res" where
  "register_syscall vector func s =
     in_bounds vector (length (syscall_handlers s))
       (kassert (syscall_handlers s ! vector = None)
         (Inr (s\<lparr>syscall_handlers := (syscall_handlers s)[vector := Some func]\<rparr>)))"

definition register_isr :: "nat \<Rightarrow> isr \<Rightarrow> 'a machine_scheme \<Rightarrow> 'a machine_scheme" where
  "register_isr vector func s = s\<lparr>isr_functions := (isr_functions s)[vector := Some func]\<rparr>"

fun register_all :: "(nat \<times> sys) list \<Rightarrow> 'a machine_scheme \<Rightarrow> 'a machine_scheme res" where
  "register_all [] s = Inr s"
| "register_all ((v, f) # rs) s = and_then (register_syscall v f s) (register_all rs)"

text \<open>The numbers are those of \<open>syscall_list.h\<close>.\<close>

definition kernel_syscalls :: "(nat \<times> sys) list" where
  "kernel_syscalls = [(1, Sys_Get_Task_Id), (2, Sys_Exit), (3, Sys_Print), (4, Sys_Exec), (5, Sys_Open_File),
     (6, Sys_Close_File), (7, Sys_Read_File), (8, Sys_Get_File_Size), (21, Sys_Get_Heap_Start), (22, Sys_Get_Heap_End),
     (23, Sys_Set_Heap_End), (24, Sys_Open_Dir), (25, Sys_Close_Dir), (26, Sys_Next_File), (27, Sys_Set_Timer),
     (9, Sys_Shmem_Create), (10, Sys_Shmem_Destroy), (11, Sys_Shmem_Exists), (12, Sys_Shmem_Map), (13, Sys_Shmem_Unmap),
     (28, Sys_Debug), (29, Sys_Get_Task_Info)]"

definition event_syscalls :: "(nat \<times> sys) list" where
  "event_syscalls = [(14, Sys_Get_Event_Buffer), (19, Sys_Wait_For_Event)]"

definition window_syscalls :: "(nat \<times> sys) list" where
  "window_syscalls = [(15, Sys_Create_Window), (16, Sys_Destroy_Window), (17, Sys_Get_Window_Buffer),
     (18, Sys_Swap_Buffers), (20, Sys_Set_Title), (30, Sys_Resize_Window)]"

definition init_syscalls :: "'a machine_scheme \<Rightarrow> 'a machine_scheme res" where
  "init_syscalls s =
     and_then (register_all kernel_syscalls (s\<lparr>syscall_handlers := replicate NUM_SYSCALLS None\<rparr>)) (\<lambda>s1.
     Inr (register_isr 0x80 Syscall_Handler s1))"

definition init_events :: "'a machine_scheme \<Rightarrow> 'a machine_scheme res" where
  "init_events = register_all event_syscalls"

definition register_window_syscalls :: "'a machine_scheme \<Rightarrow> 'a machine_scheme res" where
  "register_window_syscalls = register_all window_syscalls"

section \<open>Files\<close>

text \<open>A string argument as the callee sees it: its bytes with the terminating zero.\<close>

definition path_at :: "u32 \<Rightarrow> 'a vm_state_scheme \<Rightarrow> u8 list run" where
  "path_at a s = run_then (mem_string a s) (\<lambda>str. Some (Inr (str @ [0])))"

definition syscall_print :: "u32 \<Rightarrow> 'a machine_scheme \<Rightarrow> 'a machine_scheme run" where
  "syscall_print a s =
     run_then (path_at a s) (\<lambda>str.
     run_then (Some (log_message (cstr ''task %u: %s'') str [task_id (cur s), a])) (\<lambda>_. Some (Inr s)))"

definition set_file :: "nat \<Rightarrow> fil \<Rightarrow> 'a kern_state_scheme \<Rightarrow> 'a kern_state_scheme" where
  "set_file fd file s = upd_task (current_task s) (\<lambda>t. t\<lparr>open_files := (open_files t)[fd := file]\<rparr>) s"

definition syscall_open_file :: "fat_ops \<Rightarrow> u32 \<Rightarrow> 'a machine_scheme \<Rightarrow> (u32 \<times> 'a machine_scheme) run" where
  "syscall_open_file fs path s =
     (case first_index (\<lambda>i. obj_fs (open_files (cur s) ! i) = 0) MAX_OPEN_FILES of
        None \<Rightarrow> Some (Inl Assert_Failed)
      | Some fd \<Rightarrow>
          run_then (path_at path s) (\<lambda>p.
          let (res, file, s1) = on_volume2 (f_open fs p) s in
          if res \<noteq> FR_OK then Some (Inl Assert_Failed)
          else
            run_then (Some (log_message (cstr ''opened file %s with fd=%d'') p [path, of_nat fd]))
              (\<lambda>_. Some (Inr (of_nat fd, set_file fd file s1)))))"

definition syscall_read_file :: "fat_ops \<Rightarrow> u32 \<Rightarrow> u32 \<Rightarrow> u32 \<Rightarrow> 'a machine_scheme \<Rightarrow> (u32 \<times> 'a machine_scheme) res" where
  "syscall_read_file fs fd buf num_bytes s =
     kassert (unat fd < MAX_OPEN_FILES)
       (let file = open_files (cur s) ! unat fd in
        kassert (obj_fs file \<noteq> 0)
          (let ((res, data, file'), s1) =
                 on_volume (\<lambda>v. case f_read fs file num_bytes v of (r, d, f, v') \<Rightarrow> ((r, d, f), v')) s
           in and_then (store_bytes buf data (set_file (unat fd) file' s1)) (\<lambda>s2.
              kassert (res = FR_OK) (Inr (of_nat (length data), s2)))))"

definition syscall_close_file :: "fat_ops \<Rightarrow> u32 \<Rightarrow> 'a machine_scheme \<Rightarrow> 'a machine_scheme res" where
  "syscall_close_file fs fd s =
     kassert (unat fd < MAX_OPEN_FILES)
       (let (res, file, s1) = on_volume2 (f_close fs (open_files (cur s) ! unat fd)) s
        in kassert (res = FR_OK) (Inr (set_file (unat fd) file s1)))"

definition syscall_get_file_size :: "fat_ops \<Rightarrow> u32 \<Rightarrow> 'a machine_scheme \<Rightarrow> u32 res" where
  "syscall_get_file_size fs fd s =
     kassert (unat fd < MAX_OPEN_FILES) (Inr (f_size fs (open_files (cur s) ! unat fd)))"

definition set_dir :: "dir \<Rightarrow> 'a kern_state_scheme \<Rightarrow> 'a kern_state_scheme" where
  "set_dir d s = upd_task (current_task s) (\<lambda>t. t\<lparr>open_dir := d\<rparr>) s"

definition syscall_open_dir :: "fat_ops \<Rightarrow> u32 \<Rightarrow> 'a machine_scheme \<Rightarrow> (u32 \<times> 'a machine_scheme) run" where
  "syscall_open_dir fs path s =
     run_then (path_at path s) (\<lambda>p.
     let (res, d, s1) = on_volume2 (f_opendir fs p) s in
     Some (Inr (if res = FR_OK then 1 else 0, set_dir d s1)))"

definition syscall_close_dir :: "fat_ops \<Rightarrow> 'a machine_scheme \<Rightarrow> u32 \<times> 'a machine_scheme" where
  "syscall_close_dir fs s =
     (let (res, d, s1) = on_volume2 (f_closedir fs (open_dir (cur s))) s
      in (if res = FR_OK then 1 else 0, set_dir d s1))"

text \<open>\<open>f_readdir\<close> gives the attributes and the name of the next entry, with a terminating zero.
  \<open>OSFileInfo\<close> has the attributes at offset 0 and a name of 256 bytes at offset 4; \<open>strncpy\<close> pads it.\<close>

definition AM_DIR :: u8 where "AM_DIR = 0x10"
definition OS_FILE_INFO_IS_DIR :: u32 where "OS_FILE_INFO_IS_DIR = 16"

definition syscall_next_file_in_dir :: "fat_ops \<Rightarrow> u32 \<Rightarrow> 'a machine_scheme \<Rightarrow> (u32 \<times> 'a machine_scheme) res" where
  "syscall_next_file_in_dir fs info_out s =
     (let ((fattrib, fname), d, s0) = on_volume2 (f_readdir fs (open_dir (cur s))) s; s1 = set_dir d s0 in
      and_then (c_string fname) (\<lambda>name.
      if name = [] then Inr (0, s1)
      else
        and_then (store32 info_out (if fattrib AND AM_DIR \<noteq> 0 then OS_FILE_INFO_IS_DIR else 0) s1) (\<lambda>s2.
        and_then (kernel_strncpy (replicate 256 0) fname 256) (\<lambda>bytes.
        and_then (store_bytes (info_out + 4) bytes s2) (\<lambda>s3. Inr (1, s3))))))"

section \<open>Timers and shared memory\<close>

definition syscall_set_timer_interval :: "u32 \<Rightarrow> u32 \<Rightarrow> 'a kern_state_scheme \<Rightarrow> 'a kern_state_scheme res" where
  "syscall_set_timer_interval timer_id interval_ms s =
     kassert (sint timer_id < int MAX_TIMERS)
       (if sint timer_id < 0 then Inl Out_Of_Bounds
        else Inr (upd_task (current_task s) (\<lambda>t. t\<lparr>timers := (timers t)[nat (sint timer_id) :=
          \<lparr>interval = interval_ms, next_fire = get_system_time_millis s + scast interval_ms, active = (interval_ms \<noteq> 0)\<rparr>]\<rparr>) s))"

definition syscall_shmem_destroy :: "u32 \<Rightarrow> 'a kern_state_scheme \<Rightarrow> 'a kern_state_scheme run" where
  "syscall_shmem_destroy oid s =
     (if sint oid < 0 \<or> sint oid \<ge> int MAX_SHARED_MEMORY_OBJS then Some (Inl Assert_Failed)
      else if owner_task_id (shmem s ! unat oid) \<noteq> task_id (cur s) then Some (Inl Assert_Failed)
      else sharedmem_destroy oid s)"

section \<open>Debugging and information\<close>

text \<open>\<open>syscall_debug\<close> takes a page frame and forgets it.\<close>

definition syscall_debug :: "'a vm_state_scheme \<Rightarrow> 'a vm_state_scheme res" where
  "syscall_debug s =
     and_then (pmm_alloc_pageframe s) (\<lambda>(phys, s1).
     for_res 0 (1024 * 1024) (\<lambda>i t. and_then (mem_is_valid_vaddr (of_nat i * 0x1000) t) (\<lambda>valid. Inr t)) s1)"

text \<open>\<open>OSTaskInfo\<close> has 264 bytes: the id, the state and a name of 256 bytes. \<open>strcpy\<close> leaves out the
  terminating zero.\<close>

definition string_bytes :: "string \<Rightarrow> u8 list" where
  "string_bytes str = map (\<lambda>c. of_nat (of_char c)) str"

definition put_task_info :: "u32 \<Rightarrow> task \<Rightarrow> 'a vm_state_scheme \<Rightarrow> 'a vm_state_scheme res" where
  "put_task_info info t s =
     and_then (store32 info (task_id t) s) (\<lambda>s1.
     and_then (store32 (info + 4) (task_state t) s1) (\<lambda>s2.
     store_bytes (info + 8) (string_bytes (if task_name t \<noteq> [] then task_name t else ''no name'')) s2))"

fun put_task_infos :: "u32 \<Rightarrow> u32 \<Rightarrow> nat list \<Rightarrow> u32 \<Rightarrow> 'a kern_state_scheme \<Rightarrow> (u32 \<times> 'a kern_state_scheme) res" where
  "put_task_infos info_list max_size [] index s = Inr (index, s)"
| "put_task_infos info_list max_size (i # is) index s =
     (if task_state (tasks s ! i) = TASK_STATE_DEAD then put_task_infos info_list max_size is index s
      else
        and_then (put_task_info (info_list + index * 264) (tasks s ! i) s) (\<lambda>s1.
        if index + 1 \<ge> max_size then Inr (index + 1, s1)
        else put_task_infos info_list max_size is (index + 1) s1))"

definition syscall_get_task_info :: "u32 \<Rightarrow> u32 \<Rightarrow> u32 \<Rightarrow> 'a kern_state_scheme \<Rightarrow> (u32 \<times> 'a kern_state_scheme) res" where
  "syscall_get_task_info info_list list_max_size num_tasks_out s =
     (if info_list > KERNEL_START then Inr (1, s)
      else
        and_then (put_task_infos info_list list_max_size [0..<MAX_TASKS] 0 s) (\<lambda>(index, s1).
        and_then (store32 num_tasks_out index s1) (\<lambda>s2. Inr (0, s2))))"

section \<open>Dispatch\<close>

text \<open>The title of a window, as far as \<open>strncpy\<close> reads it.\<close>

fun mem_prefix :: "u32 \<Rightarrow> nat \<Rightarrow> 'a vm_state_scheme \<Rightarrow> u8 list res" where
  "mem_prefix a 0 s = Inr []"
| "mem_prefix a (Suc n) s =
     and_then (load8 a s) (\<lambda>c. if c = 0 then Inr [0] else and_then (mem_prefix (a + 1) n s) (\<lambda>cs. Inr (c # cs)))"

definition returned :: "(u32 \<times> 's) res \<Rightarrow> 's outcome run" where
  "returned r = Some (and_then r (\<lambda>(v, s). Inr (Returned v s)))"

definition returned_run :: "(u32 \<times> 's) run \<Rightarrow> 's outcome run" where
  "returned_run r = run_then r (\<lambda>(v, s). Some (Inr (Returned v s)))"

text \<open>A handler without a result.\<close>

definition returned_void :: "u32 \<Rightarrow> 's run \<Rightarrow> 's outcome run" where
  "returned_void garbage r = run_then r (\<lambda>s. Some (Inr (Returned garbage s)))"

definition file_syscall :: "fat_ops \<Rightarrow> u32 \<Rightarrow> sys \<Rightarrow> u32 \<Rightarrow> u32 \<Rightarrow> u32 \<Rightarrow> 'a machine_scheme \<Rightarrow> 'a machine_scheme outcome run option" where
  "file_syscall fs garbage f a b c s =
     (case f of
        Sys_Open_File \<Rightarrow> Some (returned_run (syscall_open_file fs a s))
      | Sys_Close_File \<Rightarrow> Some (returned_void garbage (Some (syscall_close_file fs a s)))
      | Sys_Read_File \<Rightarrow> Some (returned (syscall_read_file fs a b c s))
      | Sys_Get_File_Size \<Rightarrow> Some (returned (and_then (syscall_get_file_size fs a s) (\<lambda>v. Inr (v, s))))
      | Sys_Open_Dir \<Rightarrow> Some (returned_run (syscall_open_dir fs a s))
      | Sys_Close_Dir \<Rightarrow> Some (returned (Inr (syscall_close_dir fs s)))
      | Sys_Next_File \<Rightarrow> Some (returned (syscall_next_file_in_dir fs a s))
      | _ \<Rightarrow> None)"

definition window_syscall :: "u32 \<Rightarrow> u32 \<Rightarrow> sys \<Rightarrow> u32 \<Rightarrow> u32 \<Rightarrow> u32 \<Rightarrow> 'a machine_scheme \<Rightarrow> 'a machine_scheme outcome run option" where
  "window_syscall garbage esp f a b c s =
     (case f of
        Sys_Create_Window \<Rightarrow> Some (returned_run (run_then (create_window (sint a) (sint b) c s) (\<lambda>(i, t). Some (Inr (of_nat i, t)))))
      | Sys_Destroy_Window \<Rightarrow> Some (returned_void garbage (destroy_window (sint a) s))
      | Sys_Get_Window_Buffer \<Rightarrow> Some (returned (and_then (get_framebuffer_shmem_id (sint a) s) (\<lambda>v. Inr (v, s))))
      | Sys_Swap_Buffers \<Rightarrow> Some (swap_buffers (sint a) esp s)
      | Sys_Set_Title \<Rightarrow> Some (returned_void garbage (Some (
          case get_window (sint a) of
            None \<Rightarrow> Inl Assert_Failed
          | Some i \<Rightarrow> and_then (mem_prefix b (WINDOW_TITLE_MAX_LENGTH - 1) s) (\<lambda>text. set_title (sint a) text s))))
      | Sys_Resize_Window \<Rightarrow> Some (returned_void garbage (resize_window (sint a) (sint b) (sint c) s))
      | _ \<Rightarrow> None)"

definition kernel_syscall :: "fat_ops \<Rightarrow> elf_object \<Rightarrow> u32 \<Rightarrow> u32 \<Rightarrow> u32 \<Rightarrow> sys \<Rightarrow> u32 \<Rightarrow> u32 \<Rightarrow> u32 \<Rightarrow> 'a machine_scheme \<Rightarrow>
    'a machine_scheme outcome run" where
  "kernel_syscall fs junk isr_exit garbage esp f a b c s =
     (case f of
        Sys_Get_Task_Id \<Rightarrow> returned (Inr (task_id (cur s), s))
      | Sys_Exit \<Rightarrow> returned_void garbage (kill_task (task_id (cur s)) s)
      | Sys_Print \<Rightarrow> returned_void garbage (syscall_print a s)
      | Sys_Exec \<Rightarrow> returned_run (run_then (path_at a s) (\<lambda>p. create_user_task fs junk isr_exit p s))
      | Sys_Get_Heap_Start \<Rightarrow> returned (Inr (task_heap_start (cur s), s))
      | Sys_Get_Heap_End \<Rightarrow> returned (Inr (task_heap_end (cur s), s))
      | Sys_Set_Heap_End \<Rightarrow> returned_void garbage (Some (set_user_heap_end (current_task s) a s))
      | Sys_Set_Timer \<Rightarrow> returned_void garbage (Some (syscall_set_timer_interval a b s))
      | Sys_Shmem_Create \<Rightarrow> returned_run (run_then (sharedmem_create a (task_id (cur s)) s) (\<lambda>(i, t). Some (Inr (of_nat i, t))))
      | Sys_Shmem_Destroy \<Rightarrow> returned_run (run_then (syscall_shmem_destroy a s) (\<lambda>t. Some (Inr (0, t))))
      | Sys_Shmem_Exists \<Rightarrow> returned (Inr (if sharedmem_exists a (shmem s) then 1 else 0, s))
      | Sys_Shmem_Map \<Rightarrow> returned (sharedmem_map a (task_id (cur s)) s)
      | Sys_Shmem_Unmap \<Rightarrow> returned_void garbage (Some (sharedmem_unmap a (task_id (cur s)) s))
      | Sys_Debug \<Rightarrow> returned_void garbage (Some (syscall_debug s))
      | Sys_Get_Task_Info \<Rightarrow> returned (syscall_get_task_info a b c s)
      | Sys_Get_Event_Buffer \<Rightarrow> returned (Inr (get_event_buffer_shmem_id s, s))
      | Sys_Wait_For_Event \<Rightarrow> map_option (\<lambda>(esp', t). Inr (Switched esp' t)) (task_wait_for_event esp s)
      | _ \<Rightarrow>
          (case file_syscall fs garbage f a b c s of
             Some r \<Rightarrow> r
           | None \<Rightarrow> (case window_syscall garbage esp f a b c s of Some r \<Rightarrow> r | None \<Rightarrow> Some (Inl Assert_Failed))))"

definition handle_syscall_interrupt :: "fat_ops \<Rightarrow> elf_object \<Rightarrow> u32 \<Rightarrow> u32 \<Rightarrow> u32 \<Rightarrow> trap_frame \<Rightarrow> 'a machine_scheme \<Rightarrow>
    'a machine_scheme outcome run" where
  "handle_syscall_interrupt fs junk isr_exit garbage esp frame s =
     run_then (Some (in_bounds (unat (tf_eax frame)) (length (syscall_handlers s)) (Inr (syscall_handlers s ! unat (tf_eax frame)))))
       (\<lambda>handler.
       case handler of
         None \<Rightarrow> Some (Inl Assert_Failed)
       | Some f \<Rightarrow> kernel_syscall fs junk isr_exit garbage esp f (tf_ebx frame) (tf_ecx frame) (tf_edx frame) s)"

end
