(* ===== verification/Interrupts.thy ===== *)
theory Interrupts
  imports Syscalls
begin

text \<open>
  Interrupts (\<open>kernel/interrupts.c\<close>) and exceptions (\<open>kernel/exceptions.c\<close>): the common handler
  acknowledges the interrupt controllers, looks up the handler of the vector and runs it. The
  byte that a device delivers with its interrupt is an argument, as is the stack pointer with
  which a handler would leave the current task.
\<close>

section \<open>Setting up\<close>

definition IRQ_OFFSET :: nat where "IRQ_OFFSET = 32"

definition setup_interrupts :: "'a machine_scheme \<Rightarrow> 'a machine_scheme" where
  "setup_interrupts s = remap_pic (s\<lparr>isr_functions := replicate 256 None\<rparr>)"

definition init_exceptions :: "'a machine_scheme \<Rightarrow> 'a machine_scheme" where
  "init_exceptions s =
     register_isr 14 Page_Fault_Handler (register_isr 13 Protection_Fault_Handler (register_isr 0 Div_By_Zero_Handler s))"

text \<open>The registrations of \<open>init_timer\<close>, \<open>init_keyboard\<close>, \<open>init_mouse\<close> and \<open>init_floppy\<close>.\<close>

definition register_devices :: "'a machine_scheme \<Rightarrow> 'a machine_scheme" where
  "register_devices s =
     register_isr (IRQ_OFFSET + 6) Floppy_Handler
       ((register_isr (IRQ_OFFSET + 12) Mouse_Handler (register_isr (IRQ_OFFSET + 1) Key_Handler
          (register_isr 32 Timer_Handler s)))\<lparr>floppy_irq_flag := 0\<rparr>)"

section \<open>Exceptions\<close>

text \<open>The return addresses on the stack, for at most \<open>n\<close> frames; each frame is read from memory.\<close>

fun stack_trace :: "nat \<Rightarrow> u32 \<Rightarrow> 'a vm_state_scheme \<Rightarrow> u32 list res" where
  "stack_trace 0 frame s = Inr []"
| "stack_trace (Suc n) frame s =
     (if frame = 0 then Inr []
      else
        and_then (load32 (frame + 4) s) (\<lambda>eip.
        and_then (load32 frame s) (\<lambda>ebp.
        and_then (stack_trace n ebp s) (\<lambda>es. Inr (eip # es)))))"

text \<open>\<open>crash\<close>: an exception in the kernel stops it; one in a task ends the task.\<close>

definition crash :: "u32 \<Rightarrow> trap_frame \<Rightarrow> 'a kern_state_scheme \<Rightarrow> (u32 \<times> 'a kern_state_scheme) run" where
  "crash esp frame s =
     run_then (Some (stack_trace 8 (tf_ebp frame) s)) (\<lambda>trace.
     if tf_eip frame \<ge> KERNEL_START then Some (Inl Assert_Failed)
     else
       run_then (kill_task (task_id (cur s)) s) (\<lambda>s1. map_option Inr (task_schedule esp s1)))"

section \<open>The common handler\<close>

text \<open>What the CPU does after an interrupt: it continues with a frame, in another task, or it
  waits for the next interrupt because the current task is dead.\<close>

datatype 's irq_exit = Resume trap_frame 's | Other_Task u32 's | Halted 's

definition resume :: "trap_frame \<Rightarrow> 's run \<Rightarrow> 's irq_exit run" where
  "resume frame r = run_then r (\<lambda>s. Some (Inr (Resume frame s)))"

definition other_task :: "(u32 \<times> 's) run \<Rightarrow> 's irq_exit run" where
  "other_task r = run_then r (\<lambda>(esp, s). Some (Inr (Other_Task esp s)))"

definition acknowledge :: "nat \<Rightarrow> 'a cpu_state_scheme \<Rightarrow> 'a cpu_state_scheme" where
  "acknowledge vector s =
     (if 32 \<le> vector \<and> vector \<le> 47 then outb 0x20 0x20 (if vector \<ge> 40 then outb 0xA0 0x20 s else s) else s)"

definition run_isr :: "fat_ops \<Rightarrow> elf_object \<Rightarrow> u32 \<Rightarrow> u32 \<Rightarrow> 'a machine_scheme environment \<Rightarrow> u8 \<Rightarrow> u32 \<Rightarrow> isr \<Rightarrow> trap_frame \<Rightarrow>
    'a machine_scheme \<Rightarrow> 'a machine_scheme irq_exit run" where
  "run_isr fs junk isr_exit garbage env data esp h frame s =
     (case h of
        Div_By_Zero_Handler \<Rightarrow> other_task (crash esp frame s)
      | Protection_Fault_Handler \<Rightarrow> other_task (crash esp frame s)
      | Page_Fault_Handler \<Rightarrow> other_task (crash esp frame s)
      | Timer_Handler \<Rightarrow>
          (if pit_enabled s then other_task (handle_timer_int esp s)
           else resume frame (run_then (handle_timer_int esp s) (\<lambda>(esp', t). Some (Inr t))))
      | Key_Handler \<Rightarrow> resume frame (handle_key_event env data s)
      | Mouse_Handler \<Rightarrow> resume frame (Some (handle_mouse_interrupt data s))
      | Floppy_Handler \<Rightarrow> resume frame (Some (Inr (s\<lparr>floppy_irq_flag := 1\<rparr>)))
      | Syscall_Handler \<Rightarrow>
          run_then (handle_syscall_interrupt fs junk isr_exit garbage esp frame s) (\<lambda>r. Some (Inr (
            case r of Returned v t \<Rightarrow> Resume (frame\<lparr>tf_eax := v\<rparr>) t | Switched esp' t \<Rightarrow> Other_Task esp' t))))"

text \<open>A task that has ended is not resumed.\<close>

definition stop_dead :: "'a kern_state_scheme irq_exit \<Rightarrow> 'a kern_state_scheme irq_exit" where
  "stop_dead r =
     (case r of
        Resume frame s \<Rightarrow> if task_state (cur s) = TASK_STATE_DEAD then Halted (enable_interrupts s) else Resume frame s
      | _ \<Rightarrow> r)"

definition handle_interrupt :: "fat_ops \<Rightarrow> elf_object \<Rightarrow> u32 \<Rightarrow> u32 \<Rightarrow> 'a machine_scheme environment \<Rightarrow> u8 \<Rightarrow> u32 \<Rightarrow> trap_frame \<Rightarrow>
    'a machine_scheme \<Rightarrow> 'a machine_scheme irq_exit run" where
  "handle_interrupt fs junk isr_exit garbage env data esp frame s =
     (let vector = unat (tf_interrupt frame); s1 = acknowledge vector s in
      if vector = IRQ_OFFSET + 7 \<or> vector = IRQ_OFFSET + 8 then Some (Inr (Resume frame s1))
      else
        run_then (Some (in_bounds vector (length (isr_functions s1)) (Inr (isr_functions s1 ! vector)))) (\<lambda>handler.
        case handler of
          None \<Rightarrow> Some (Inl Assert_Failed)
        | Some h \<Rightarrow>
            run_then (run_isr fs junk isr_exit garbage env data esp h frame s1) (\<lambda>r. Some (Inr (stop_dead r)))))"

end
