(* ===== verification/User_Calls.thy ===== *)
theory User_Calls
  imports Interrupts Windows_Props
begin

text \<open>
  The user side of the system calls (\<open>userspace/api/src/syscalls.c\<close>): each stub loads \<open>eax\<close> with the
  number of the call and its arguments into \<open>ebx\<close>, \<open>ecx\<close> and \<open>edx\<close>, and executes \<open>int 0x80\<close>.
\<close>

section \<open>The stubs\<close>

text \<open>The registers a stub sets; the others keep what they hold.\<close>

record regs =
  reg_eax :: u32
  reg_ebx :: u32
  reg_ecx :: u32
  reg_edx :: u32

definition call0 :: "u32 \<Rightarrow> regs \<Rightarrow> regs" where "call0 n r = r\<lparr>reg_eax := n\<rparr>"
definition call1 :: "u32 \<Rightarrow> u32 \<Rightarrow> regs \<Rightarrow> regs" where "call1 n a r = r\<lparr>reg_eax := n, reg_ebx := a\<rparr>"
definition call2 :: "u32 \<Rightarrow> u32 \<Rightarrow> u32 \<Rightarrow> regs \<Rightarrow> regs" where
  "call2 n a b r = r\<lparr>reg_eax := n, reg_ebx := a, reg_ecx := b\<rparr>"
definition call3 :: "u32 \<Rightarrow> u32 \<Rightarrow> u32 \<Rightarrow> u32 \<Rightarrow> regs \<Rightarrow> regs" where
  "call3 n a b c r = r\<lparr>reg_eax := n, reg_ebx := a, reg_ecx := b, reg_edx := c\<rparr>"

definition user_get_task_id :: "regs \<Rightarrow> regs" where "user_get_task_id = call0 1"
definition user_exit :: "regs \<Rightarrow> regs" where "user_exit = call0 2"
definition user_print :: "u32 \<Rightarrow> regs \<Rightarrow> regs" where "user_print str = call1 3 str"
definition user_exec :: "u32 \<Rightarrow> regs \<Rightarrow> regs" where "user_exec path = call1 4 path"
definition user_get_event_buffer :: "regs \<Rightarrow> regs" where "user_get_event_buffer = call0 14"
definition user_wait_for_events :: "regs \<Rightarrow> regs" where "user_wait_for_events = call0 19"
definition user_set_timer_interval :: "u32 \<Rightarrow> u32 \<Rightarrow> regs \<Rightarrow> regs" where
  "user_set_timer_interval timer_id interval_ms = call2 27 timer_id interval_ms"
definition user_create_window :: "u32 \<Rightarrow> u32 \<Rightarrow> u32 \<Rightarrow> regs \<Rightarrow> regs" where
  "user_create_window width height flags = call3 15 width height flags"
definition user_resize_window :: "u32 \<Rightarrow> u32 \<Rightarrow> u32 \<Rightarrow> regs \<Rightarrow> regs" where
  "user_resize_window wid width height = call3 30 wid width height"

text \<open>The stub for closing a window has the number for opening one.\<close>

definition user_destroy_window :: "u32 \<Rightarrow> regs \<Rightarrow> regs" where "user_destroy_window wid = call1 15 wid"
definition user_get_window_buffer :: "u32 \<Rightarrow> regs \<Rightarrow> regs" where "user_get_window_buffer wid = call1 17 wid"
definition user_swap_window_buffers :: "u32 \<Rightarrow> regs \<Rightarrow> regs" where "user_swap_window_buffers wid = call1 18 wid"
definition user_set_window_title :: "u32 \<Rightarrow> u32 \<Rightarrow> regs \<Rightarrow> regs" where "user_set_window_title wid text_addr = call2 20 wid text_addr"
definition user_get_heap_start :: "regs \<Rightarrow> regs" where "user_get_heap_start = call0 21"
definition user_get_heap_end :: "regs \<Rightarrow> regs" where "user_get_heap_end = call0 22"
definition user_set_heap_end :: "u32 \<Rightarrow> regs \<Rightarrow> regs" where "user_set_heap_end heap_end = call1 23 heap_end"
definition user_open_file :: "u32 \<Rightarrow> regs \<Rightarrow> regs" where "user_open_file path = call1 5 path"
definition user_close_file :: "u32 \<Rightarrow> regs \<Rightarrow> regs" where "user_close_file fd = call1 6 fd"
definition user_read_file :: "u32 \<Rightarrow> u32 \<Rightarrow> u32 \<Rightarrow> regs \<Rightarrow> regs" where
  "user_read_file fd buffer num_bytes = call3 7 fd buffer num_bytes"

text \<open>The stub for the size of a file does not pass the file.\<close>

definition user_get_file_size :: "u32 \<Rightarrow> regs \<Rightarrow> regs" where "user_get_file_size fd = call0 8"
definition user_open_dir :: "u32 \<Rightarrow> regs \<Rightarrow> regs" where "user_open_dir path = call1 24 path"
definition user_close_dir :: "regs \<Rightarrow> regs" where "user_close_dir = call0 25"
definition user_next_file_in_dir :: "u32 \<Rightarrow> regs \<Rightarrow> regs" where "user_next_file_in_dir info = call1 26 info"
definition user_create_shared_mem :: "u32 \<Rightarrow> regs \<Rightarrow> regs" where "user_create_shared_mem bytes = call1 9 bytes"
definition user_destroy_shared_mem :: "u32 \<Rightarrow> regs \<Rightarrow> regs" where "user_destroy_shared_mem oid = call1 10 oid"
definition user_shared_mem_exists :: "u32 \<Rightarrow> regs \<Rightarrow> regs" where "user_shared_mem_exists oid = call1 11 oid"
definition user_unmap_shared_mem :: "u32 \<Rightarrow> regs \<Rightarrow> regs" where "user_unmap_shared_mem oid = call1 13 oid"
definition user_map_shared_mem :: "u32 \<Rightarrow> regs \<Rightarrow> regs" where "user_map_shared_mem oid = call1 12 oid"
definition user_get_task_info :: "u32 \<Rightarrow> u32 \<Rightarrow> u32 \<Rightarrow> regs \<Rightarrow> regs" where
  "user_get_task_info info_list list_max_size num_out = call3 29 info_list list_max_size num_out"

text \<open>\<open>int 0x80\<close>: the registers as they are in the trap frame.\<close>

definition int_0x80 :: "regs \<Rightarrow> trap_frame \<Rightarrow> trap_frame" where
  "int_0x80 r frame = frame\<lparr>tf_interrupt := 0x80, tf_eax := reg_eax r, tf_ebx := reg_ebx r, tf_ecx := reg_ecx r, tf_edx := reg_edx r\<rparr>"

section \<open>The tables after the start\<close>

text \<open>The calls of \<open>kernel_main\<close> that fill the two tables, with graphics enabled.\<close>

definition start_tables :: "'a machine_scheme \<Rightarrow> 'a machine_scheme res" where
  "start_tables s =
     and_then (init_syscalls (init_exceptions (setup_interrupts s))) (\<lambda>s1.
     and_then (init_events s1) (\<lambda>s2.
     and_then (register_window_syscalls s2) (\<lambda>s3. Inr (register_devices s3))))"

definition all_syscalls :: "(nat \<times> sys) list" where
  "all_syscalls = kernel_syscalls @ event_syscalls @ window_syscalls"

definition tables_ready :: "'a machine_scheme \<Rightarrow> bool" where
  "tables_ready s \<longleftrightarrow>
     syscall_handlers s = map (map_of all_syscalls) [0..<NUM_SYSCALLS] \<and>
     isr_functions s = map (map_of [(0, Div_By_Zero_Handler), (13, Protection_Fault_Handler), (14, Page_Fault_Handler),
       (32, Timer_Handler), (33, Key_Handler), (38, Floppy_Handler), (44, Mouse_Handler), (128, Syscall_Handler)]) [0..<256]"

text \<open>Registering functions under numbers that are different and free fills exactly these entries.\<close>

lemma register_all_eq:
  assumes "distinct (map fst rs)" and "\<forall>v\<in>fst ` set rs. v < length (syscall_handlers s) \<and> syscall_handlers s ! v = None"
  shows "register_all rs s = Inr (s\<lparr>syscall_handlers := fold (\<lambda>(v, f) hs. hs[v := Some f]) rs (syscall_handlers s)\<rparr>)"
  using assms
proof (induction rs arbitrary: s)
  case (Cons r rs)
  obtain v f where r: "r = (v, f)" by force
  let ?s = "s\<lparr>syscall_handlers := (syscall_handlers s)[v := Some f]\<rparr>"
  have "\<forall>w\<in>fst ` set rs. w < length (syscall_handlers ?s) \<and> syscall_handlers ?s ! w = None"
    using Cons.prems r by (auto simp: image_iff nth_list_update)
  with Cons.IH [of ?s] Cons.prems r show ?case by (simp add: register_syscall_def)
qed simp

lemma fold_update_nth:
  assumes "distinct (map fst rs)" and "i < length hs"
  shows "fold (\<lambda>(v, f) hs. hs[v := Some f]) rs hs ! i = (case map_of rs i of None \<Rightarrow> hs ! i | Some f \<Rightarrow> Some f)"
  using assms
proof (induction rs arbitrary: hs)
  case (Cons r rs)
  then have "map_of rs (fst r) = None" by (simp add: map_of_eq_None_iff)
  with Cons show ?case by (cases r) (auto split: option.split)
qed simp

lemma length_fold_update [simp]: "length (fold (\<lambda>(v, f) hs. hs[v := Some f]) rs hs) = length hs"
  by (induction rs arbitrary: hs) auto

lemma start_handlers:
  "fold (\<lambda>(v, f) hs. hs[v := Some f]) window_syscalls (fold (\<lambda>(v, f) hs. hs[v := Some f]) event_syscalls
     (fold (\<lambda>(v, f) hs. hs[v := Some f]) kernel_syscalls (replicate NUM_SYSCALLS None))) =
   map (map_of all_syscalls) [0..<NUM_SYSCALLS]" (is "?l = ?r")
proof (rule nth_equalityI)
  show "length ?l = length ?r" by simp
  fix i assume i: "i < length ?l"
  have d: "distinct (map fst kernel_syscalls)" "distinct (map fst event_syscalls)" "distinct (map fst window_syscalls)"
    "distinct (map fst all_syscalls)"
    by (simp_all add: kernel_syscalls_def event_syscalls_def window_syscalls_def all_syscalls_def)
  have all: "?l = fold (\<lambda>(v, f) hs. hs[v := Some f]) all_syscalls (replicate NUM_SYSCALLS None)"
    by (simp add: all_syscalls_def)
  show "?l ! i = ?r ! i" unfolding all using i d(4) by (simp add: fold_update_nth split: option.split)
qed

lemma start_tables_ready:
  "\<exists>t. start_tables s = Inr t \<and> tables_ready t"
proof -
  let ?u = "init_exceptions (setup_interrupts s)"
  have d: "distinct (map fst kernel_syscalls)" "distinct (map fst event_syscalls)" "distinct (map fst window_syscalls)"
    by (simp_all add: kernel_syscalls_def event_syscalls_def window_syscalls_def)
  let ?k = "fold (\<lambda>(v, f) hs. hs[v := Some f]) kernel_syscalls (replicate NUM_SYSCALLS None)"
  let ?e = "fold (\<lambda>(v, f) hs. hs[v := Some f]) event_syscalls ?k"
  have k: "\<forall>v\<in>fst ` set kernel_syscalls. v < NUM_SYSCALLS \<and> replicate NUM_SYSCALLS (None :: sys option) ! v = None"
    by (simp add: kernel_syscalls_def NUM_SYSCALLS_def)
  have kn: "?k ! i = map_of kernel_syscalls i" if "i < NUM_SYSCALLS" for i
    using that d(1) by (simp add: fold_update_nth split: option.split)
  have en: "?e ! i = map_of (kernel_syscalls @ event_syscalls) i" if "i < NUM_SYSCALLS" for i
    using that kn [OF that] d(2) by (simp add: fold_update_nth map_add_def split: option.split)
      (simp add: event_syscalls_def kernel_syscalls_def split: if_splits)
  have e: "\<forall>v\<in>fst ` set event_syscalls. v < NUM_SYSCALLS \<and> ?k ! v = None"
    using kn by (simp add: event_syscalls_def kernel_syscalls_def NUM_SYSCALLS_def)
  have w: "\<forall>v\<in>fst ` set window_syscalls. v < NUM_SYSCALLS \<and> ?e ! v = None"
    using en by (simp add: window_syscalls_def event_syscalls_def kernel_syscalls_def NUM_SYSCALLS_def)
  have s1: "init_syscalls ?u = Inr (register_isr 0x80 Syscall_Handler (?u\<lparr>syscall_handlers := ?k\<rparr>))"
    using register_all_eq [OF d(1), of "?u\<lparr>syscall_handlers := replicate NUM_SYSCALLS None\<rparr>"] k by (simp add: init_syscalls_def del: ball_simps)
  let ?v = "register_isr 0x80 Syscall_Handler (?u\<lparr>syscall_handlers := ?k\<rparr>)"
  have s2: "init_events ?v = Inr (?v\<lparr>syscall_handlers := ?e\<rparr>)"
    using register_all_eq [OF d(2), of ?v] e by (simp add: init_events_def register_isr_def)
  have s3: "register_window_syscalls (?v\<lparr>syscall_handlers := ?e\<rparr>) =
      Inr (?v\<lparr>syscall_handlers := fold (\<lambda>(v, f) hs. hs[v := Some f]) window_syscalls ?e\<rparr>)"
    using register_all_eq [OF d(3), of "?v\<lparr>syscall_handlers := ?e\<rparr>"] w by (simp add: register_window_syscalls_def)
  let ?t = "register_devices (?v\<lparr>syscall_handlers := fold (\<lambda>(v, f) hs. hs[v := Some f]) window_syscalls ?e\<rparr>)"
  have "start_tables s = Inr ?t" by (simp add: start_tables_def s1 s2 s3)
  moreover have "tables_ready ?t"
    unfolding tables_ready_def start_handlers [symmetric]
    by (auto simp: register_devices_def register_isr_def init_exceptions_def setup_interrupts_def remap_pic_def outb_def
        IRQ_OFFSET_def nth_list_update intro!: nth_equalityI)
  ultimately show ?thesis by blast
qed

text \<open>The handler tables. From any state, the start of the kernel fills both tables without
  failing: all 30 system calls get different numbers, every number leads to the handler that
  \<open>syscall.c\<close>, \<open>events.c\<close> and \<open>windows.c\<close> registered for it and every other number to none, and
  the interrupt vectors lead to the handlers of the exceptions, the timer, the keyboard, the
  mouse, the floppy drive and the system calls.\<close>

theorem start_fills_tables:
  "\<exists>t. start_tables s = Inr t \<and> tables_ready t"
  by (rule start_tables_ready)

lemma ready_handler: "tables_ready s \<Longrightarrow> i < NUM_SYSCALLS \<Longrightarrow> syscall_handlers s ! i = map_of all_syscalls i"
  by (simp add: tables_ready_def)

lemmas user_stubs = user_get_task_id_def user_exit_def user_print_def user_exec_def user_get_event_buffer_def
  user_wait_for_events_def user_set_timer_interval_def user_create_window_def user_resize_window_def user_destroy_window_def
  user_get_window_buffer_def user_swap_window_buffers_def user_set_window_title_def user_get_heap_start_def
  user_get_heap_end_def user_set_heap_end_def user_open_file_def user_close_file_def user_read_file_def
  user_get_file_size_def user_open_dir_def user_close_dir_def user_next_file_in_dir_def user_create_shared_mem_def
  user_destroy_shared_mem_def user_shared_mem_exists_def user_unmap_shared_mem_def user_map_shared_mem_def
  user_get_task_info_def call0_def call1_def call2_def call3_def

text \<open>C30: The two sides agree. With the handler tables in place a stub of the user library, executed as
  an interrupt 0x80, runs the kernel's handler of the same name with the stub's arguments. There
  are two exceptions: the stub that should close a window runs the handler that creates one, and
  the stub for the size of a file passes whatever is in \<open>ebx\<close> as the file.\<close>

theorem user_stubs_reach_handlers:
  fixes fs junk isr_exit g esp frame
  assumes "tables_ready s"
  defines "enter \<equiv> \<lambda>r. handle_syscall_interrupt fs junk isr_exit g esp (int_0x80 r frame) s"
    and "handler \<equiv> \<lambda>f a b c. kernel_syscall fs junk isr_exit g esp f a b c s"
  shows "enter (user_get_task_id r) = handler Sys_Get_Task_Id (reg_ebx r) (reg_ecx r) (reg_edx r) \<and>
    enter (user_exit r) = handler Sys_Exit (reg_ebx r) (reg_ecx r) (reg_edx r) \<and>
    enter (user_print x r) = handler Sys_Print x (reg_ecx r) (reg_edx r) \<and>
    enter (user_exec x r) = handler Sys_Exec x (reg_ecx r) (reg_edx r) \<and>
    enter (user_get_event_buffer r) = handler Sys_Get_Event_Buffer (reg_ebx r) (reg_ecx r) (reg_edx r) \<and>
    enter (user_wait_for_events r) = handler Sys_Wait_For_Event (reg_ebx r) (reg_ecx r) (reg_edx r) \<and>
    enter (user_set_timer_interval x y r) = handler Sys_Set_Timer x y (reg_edx r) \<and>
    enter (user_create_window x y z r) = handler Sys_Create_Window x y z \<and>
    enter (user_resize_window x y z r) = handler Sys_Resize_Window x y z \<and>
    enter (user_destroy_window x r) = handler Sys_Create_Window x (reg_ecx r) (reg_edx r) \<and>
    enter (user_get_window_buffer x r) = handler Sys_Get_Window_Buffer x (reg_ecx r) (reg_edx r) \<and>
    enter (user_swap_window_buffers x r) = handler Sys_Swap_Buffers x (reg_ecx r) (reg_edx r) \<and>
    enter (user_set_window_title x y r) = handler Sys_Set_Title x y (reg_edx r) \<and>
    enter (user_get_heap_start r) = handler Sys_Get_Heap_Start (reg_ebx r) (reg_ecx r) (reg_edx r) \<and>
    enter (user_get_heap_end r) = handler Sys_Get_Heap_End (reg_ebx r) (reg_ecx r) (reg_edx r) \<and>
    enter (user_set_heap_end x r) = handler Sys_Set_Heap_End x (reg_ecx r) (reg_edx r) \<and>
    enter (user_open_file x r) = handler Sys_Open_File x (reg_ecx r) (reg_edx r) \<and>
    enter (user_close_file x r) = handler Sys_Close_File x (reg_ecx r) (reg_edx r) \<and>
    enter (user_read_file x y z r) = handler Sys_Read_File x y z \<and>
    enter (user_get_file_size x r) = handler Sys_Get_File_Size (reg_ebx r) (reg_ecx r) (reg_edx r) \<and>
    enter (user_open_dir x r) = handler Sys_Open_Dir x (reg_ecx r) (reg_edx r) \<and>
    enter (user_close_dir r) = handler Sys_Close_Dir (reg_ebx r) (reg_ecx r) (reg_edx r) \<and>
    enter (user_next_file_in_dir x r) = handler Sys_Next_File x (reg_ecx r) (reg_edx r) \<and>
    enter (user_create_shared_mem x r) = handler Sys_Shmem_Create x (reg_ecx r) (reg_edx r) \<and>
    enter (user_destroy_shared_mem x r) = handler Sys_Shmem_Destroy x (reg_ecx r) (reg_edx r) \<and>
    enter (user_shared_mem_exists x r) = handler Sys_Shmem_Exists x (reg_ecx r) (reg_edx r) \<and>
    enter (user_map_shared_mem x r) = handler Sys_Shmem_Map x (reg_ecx r) (reg_edx r) \<and>
    enter (user_unmap_shared_mem x r) = handler Sys_Shmem_Unmap x (reg_ecx r) (reg_edx r) \<and>
    enter (user_get_task_info x y z r) = handler Sys_Get_Task_Info x y z"
proof -
  have len: "length (syscall_handlers s) = NUM_SYSCALLS" using assms(1) by (simp add: tables_ready_def)
  have k: "enter q = handler f (reg_ebx q) (reg_ecx q) (reg_edx q)"
    if "map_of all_syscalls (unat (reg_eax q)) = Some f" "unat (reg_eax q) < 256" for q f
    using that ready_handler [OF assms(1), of "unat (reg_eax q)"] len
    by (simp add: enter_def handler_def handle_syscall_interrupt_def int_0x80_def NUM_SYSCALLS_def)
  show ?thesis
    by (intro conjI; subst k)
      (simp_all add: user_stubs all_syscalls_def kernel_syscalls_def event_syscalls_def window_syscalls_def)
qed

text \<open>Closing a window opens one. When a program calls the library's stub to close a window, the
  kernel's interrupt handler runs \<open>create_window\<close> with the number of the window as the width and
  whatever the program has in \<open>ecx\<close> and \<open>edx\<close> as the height and the flags.\<close>

theorem closing_a_window_opens_one:
  assumes "tables_ready s"
  shows "handle_interrupt fs junk isr_exit g env data esp (int_0x80 (user_destroy_window wid r) frame) s =
    run_then (create_window (sint wid) (sint (reg_ecx r)) (reg_edx r) s) (\<lambda>(i, t).
      Some (Inr (stop_dead (Resume ((int_0x80 (user_destroy_window wid r) frame)\<lparr>tf_eax := of_nat i\<rparr>) t))))"
proof -
  have h: "isr_functions s ! 128 = Some Syscall_Handler" "length (isr_functions s) = 256"
    using assms by (simp_all add: tables_ready_def)
  have k: "syscall_handlers s ! 15 = Some Sys_Create_Window" "length (syscall_handlers s) = 256"
    using ready_handler [OF assms, of 15] assms
    by (simp_all add: tables_ready_def all_syscalls_def kernel_syscalls_def event_syscalls_def window_syscalls_def NUM_SYSCALLS_def)
  show ?thesis
    by (simp add: handle_interrupt_def int_0x80_def acknowledge_def IRQ_OFFSET_def h run_isr_def handle_syscall_interrupt_def
        user_stubs k kernel_syscall_def file_syscall_def window_syscall_def returned_run_def run_then_assoc case_prod_unfold)
qed

section \<open>Example\<close>

definition example_machine :: machine where
  "example_machine = gui_state.extend full_gui
     (machine.fields (replicate MAX_SHARED_LIBRARIES no_library) (\<lambda>_. 0)
       (map (map_of [(0, Div_By_Zero_Handler), (13, Protection_Fault_Handler), (14, Page_Fault_Handler), (32, Timer_Handler),
          (33, Key_Handler), (38, Floppy_Handler), (44, Mouse_Handler), (128, Syscall_Handler)]) [0..<256])
       (map (map_of all_syscalls) [0..<NUM_SYSCALLS]) 0
       (replicate NUM_GDT_ENTRIES no_gdt_entry) (replicate 256 no_idt_entry) \<lparr>location = 0, rd_size = 0\<rparr>)"

lemma example_machine_ready: "tables_ready example_machine"
  by (simp add: tables_ready_def example_machine_def gui_state.extend_def machine.fields_def)

definition example_fat :: fat_ops where
  "example_fat = \<lparr>f_open = (\<lambda>p v. (4, no_fil, v)), f_read = (\<lambda>f n v. (0, [], f, v)), f_close = (\<lambda>f v. (0, f, v)),
     f_size = (\<lambda>f. 0), f_opendir = (\<lambda>p v. (4, \<lambda>_. 0, v)), f_closedir = (\<lambda>d v. (0, d, v)), f_readdir = (\<lambda>d v. ((0, [0]), d, v))\<rparr>"

definition example_frame :: trap_frame where
  "example_frame = initial_frame 0x400000 False"

theorem start_fills_tables_witness:
  "\<exists>t. start_tables example_machine = Inr t \<and> syscall_handlers t ! 9 = Some Sys_Shmem_Create"
  using start_fills_tables [of example_machine]
  by (auto simp: tables_ready_def all_syscalls_def kernel_syscalls_def NUM_SYSCALLS_def)

theorem user_stubs_reach_handlers_witness:
  "handle_syscall_interrupt example_fat no_elf 0 0 0
     (int_0x80 (user_shared_mem_exists 300 \<lparr>reg_eax = 0, reg_ebx = 0, reg_ecx = 0, reg_edx = 0\<rparr>) example_frame) example_machine =
   Some (Inr (Returned 0 example_machine))"
  using user_stubs_reach_handlers [OF example_machine_ready, where fs = example_fat and junk = no_elf and isr_exit = 0 and g = 0
      and esp = 0 and frame = example_frame and r = "\<lparr>reg_eax = 0, reg_ebx = 0, reg_ecx = 0, reg_edx = 0\<rparr>" and x = 300]
  by (simp add: kernel_syscall_def returned_def sharedmem_exists_def MAX_SHARED_MEMORY_OBJS_def)

text \<open>With 64 windows open a program that closes one stops the kernel.\<close>

theorem closing_a_window_opens_one_witness:
  "handle_interrupt example_fat no_elf 0 0 \<lparr>start_task = (\<lambda>p s. Some (Inr s)), list_root = (\<lambda>s. Some (Inr s)),
       write_log = (\<lambda>f xs c. Inr c), with_graphics = True\<rparr> 0 0
     (int_0x80 (user_destroy_window 7 \<lparr>reg_eax = 0, reg_ebx = 0, reg_ecx = 0, reg_edx = 0\<rparr>) example_frame) example_machine =
   Some (Inl Assert_Failed)"
proof -
  have "windows example_machine = replicate MAX_WINDOWS (example_window 5)"
    by (simp add: example_machine_def gui_state.extend_def machine.fields_def full_gui_def)
  then have "find_window_slot (windows example_machine) = Inl Assert_Failed"
    by (subst window_slots.search_full) (simp add: example_window_def)
  then show ?thesis by (subst closing_a_window_opens_one [OF example_machine_ready]) (simp add: create_window_def)
qed

end
