(* ===== verification/Start.thy ===== *)
theory Start
  imports Interrupts
begin

text \<open>
  The start of the kernel (\<open>kernel/kernel.c\<close>), up to the idle loop. Addresses that the linker chooses,
  the boot loader's information and the initial contents of the screen are arguments; commands
  to the keyboard, mouse and floppy controllers have no effect on the state.
\<close>

text \<open>The fields of \<open>struct multiboot_info\<close> that are used.\<close>

record boot_info =
  framebuffer_type :: u8
  mods_count :: u32
  mods_addr :: u32
  boot_framebuffer :: u32
  framebuffer_width :: u32
  framebuffer_height :: u32
  framebuffer_bpp :: u32
  mem_upper :: u32

record linker =
  tss_address :: u32
  isr_redirect_table :: "nat \<Rightarrow> u32"
  isr128_address :: u32
  isr_exit_address :: u32
  gui_task_address :: u32
  floppy_task_address :: u32

definition MULTIBOOT_FRAMEBUFFER_TYPE_RGB :: u8 where "MULTIBOOT_FRAMEBUFFER_TYPE_RGB = 1"

text \<open>\<open>setup_gdt\<close> and \<open>setup_interrupts\<close> with the tables they load.\<close>

definition load_gdt :: "linker \<Rightarrow> 'a machine_scheme \<Rightarrow> 'a machine_scheme res" where
  "load_gdt ld s = and_then (setup_gdt (tss_address ld)) (\<lambda>es. Inr (s\<lparr>gdt_entries := es\<rparr>))"

definition load_idt :: "linker \<Rightarrow> 'a machine_scheme \<Rightarrow> 'a machine_scheme" where
  "load_idt ld s = (setup_interrupts s)\<lparr>idt := setup_idt (isr_redirect_table ld) (isr128_address ld)\<rparr>"

definition start_console :: "bool \<Rightarrow> u8 list \<Rightarrow> 'a machine_scheme \<Rightarrow> 'a machine_scheme res" where
  "start_console graphics_enabled memory s =
     and_then (init_console graphics_enabled memory) (\<lambda>(c, ports).
     Inr (fold (\<lambda>(p, v). outb p v) ports (s\<lparr>the_console := c\<rparr>)))"

text \<open>The components of the kernel, in the order of \<open>kernel_main\<close>.\<close>

definition start_components :: "linker \<Rightarrow> boot_info \<Rightarrow> 'a machine_scheme \<Rightarrow> 'a machine_scheme res" where
  "start_components ld mb s =
     and_then (init_syscalls (init_exceptions (load_idt ld s))) (\<lambda>s1.
     and_then (init_timer 1000 s1) (\<lambda>s2.
     let s3 = init_memory (mem_upper mb * 1024) (register_isr 32 Timer_Handler s2) in
     and_then (kmalloc_init 0x1000 s3) (\<lambda>s4.
     init_events (init_shared_libs (sharedmem_init (setup_tasks s4))))))"

definition start_graphics :: "fat_ops \<Rightarrow> elf_object \<Rightarrow> linker \<Rightarrow> boot_info \<Rightarrow> u32 list \<Rightarrow> 'a machine_scheme \<Rightarrow> 'a machine_scheme run" where
  "start_graphics fs junk ld mb pixels s =
     run_then (init_graphics pixels (boot_framebuffer mb) (framebuffer_width mb) (framebuffer_height mb) (framebuffer_bpp mb div 8) s) (\<lambda>s1.
     run_then (Some (register_window_syscalls (init_gui (sint (framebuffer_width mb)) (sint (framebuffer_height mb)) s1))) (\<lambda>s2.
     run_then (create_named_kernel_task (isr_exit_address ld) (gui_task_address ld) ''GUI'' s2) (\<lambda>s3.
     run_then (create_user_task fs junk (isr_exit_address ld) (cstr ''files.exe'') s3) (\<lambda>(tid, s4). Some (Inr s4)))))"

definition start_drivers :: "'a machine_scheme \<Rightarrow> 'a machine_scheme" where
  "start_drivers s =
     (let s1 = register_isr (IRQ_OFFSET + 1) Key_Handler s;
          s2 = register_isr (IRQ_OFFSET + 12) Mouse_Handler (s1\<lparr>the_mouse := init_mouse\<rparr>);
          s3 = register_isr (IRQ_OFFSET + 6) Floppy_Handler (s2\<lparr>floppy_irq_flag := 0\<rparr>)
      in set_timer_enabled True s3)"

definition enable_prompt :: "'a machine_scheme \<Rightarrow> 'a machine_scheme res" where
  "enable_prompt s =
     and_then (console_set_prompt_enabled True (the_console s)) (\<lambda>(c, ports).
     Inr (fold (\<lambda>(p, v). outb p v) ports (s\<lparr>the_console := c\<rparr>)))"

text \<open>\<open>kernel_main\<close>, with the state in which the idle loop begins.\<close>

definition kernel_main :: "fat_ops \<Rightarrow> elf_object \<Rightarrow> linker \<Rightarrow> boot_info \<Rightarrow> u32 \<Rightarrow> u8 list \<Rightarrow> u32 list \<Rightarrow> 'a machine_scheme \<Rightarrow>
    'a machine_scheme run" where
  "kernel_main fs junk ld mb mount memory pixels s =
     (let graphics_enabled = (framebuffer_type mb = MULTIBOOT_FRAMEBUFFER_TYPE_RGB) in
      run_then (Some (load_gdt ld (disable_interrupts s))) (\<lambda>s1.
      run_then (Some (start_console graphics_enabled memory s1)) (\<lambda>s2.
      run_then (Some (kassert (mods_count mb \<noteq> 0) (vload (mods_addr mb) s2))) (\<lambda>mod0.
      run_then (Some (vload (mods_addr mb + 4) s2)) (\<lambda>mod1.
      run_then (Some (start_components ld mb s2)) (\<lambda>s3.
      run_then (Some (init_ramdisk mount (mod0 + 0xC0000000) (mod1 - mod0))) (\<lambda>rd.
      let s4 = outb 0x70 0x10 (s3\<lparr>ram_disk := rd\<rparr>) in
      run_then (if graphics_enabled then start_graphics fs junk ld mb pixels s4 else Some (Inr s4)) (\<lambda>s5.
      run_then (Some (enable_prompt (start_drivers s5))) (\<lambda>s6.
      run_then (create_named_kernel_task (isr_exit_address ld) (floppy_task_address ld) ''Floppy Driver'' s6) (\<lambda>s7.
      Some (Inr (enable_interrupts s7))))))))))))"

end
