(* ===== verification/User_Memory.thy ===== *)
theory User_Memory
  imports Bytes Sharedmem_Props
begin

text \<open>
  Memory as bytes, for the routines that copy between the kernel heap and pages of the current
  directory below the kernel: what a byte-wise load gives, what \<open>memset\<close> and \<open>memcpy\<close> leave, and
  what a loop that maps fresh pages does.
\<close>

section \<open>Bytes of the heap\<close>

definition hbyte :: "'a vm_state_scheme \<Rightarrow> nat \<Rightarrow> u8" where
  "hbyte s k = ucast (drop_bit (8 * (k mod 4)) (hrd s k))"

definition hhalf :: "'a vm_state_scheme \<Rightarrow> nat \<Rightarrow> u16" where
  "hhalf s k = ucast (hbyte s k) OR push_bit 8 (ucast (hbyte s (k + 1)))"

definition hword :: "'a vm_state_scheme \<Rightarrow> nat \<Rightarrow> u32" where
  "hword s k = ucast (hhalf s k) OR push_bit 16 (ucast (hhalf s (k + 2)))"

lemma byte_shift_mod: "byte_shift a = 8 * (unat a mod 4)"
  using unat_and_mask_mod [of a 2] by (simp add: byte_shift_def mask_eq_exp_minus_1)

lemma heap_offset: "heap_mapped s n \<Longrightarrow> k < 4096 * n \<Longrightarrow> k < 536870912"
  by (simp add: heap_mapped_def)

lemma load8_heap:
  assumes "vm_ok s" and "heap_mapped s n" and "k < 4096 * n"
  shows "load8 (haddr k) s = Inr (hbyte s k)"
proof -
  have "unat (haddr k) = 3489660928 + k" using unat_haddr [OF heap_offset [OF assms(2,3)]] .
  moreover have "(3489660928 + k) mod 4 = k mod 4" by presburger
  ultimately have "byte_shift (haddr k) = 8 * (k mod 4)" by (simp only: byte_shift_mod)
  then show ?thesis by (simp add: load8_def vload_heap [OF assms] hbyte_def)
qed

lemma haddr_plus: "haddr k + 1 = haddr (k + 1)" "haddr k + 2 = haddr (k + 2)" "haddr k + numeral w = haddr (k + numeral w)"
  using haddr_add [of k 1] haddr_add [of k 2] haddr_add [of k "numeral w"] by simp_all

lemma load16_heap:
  "vm_ok s \<Longrightarrow> heap_mapped s n \<Longrightarrow> k + 2 \<le> 4096 * n \<Longrightarrow> load16 (haddr k) s = Inr (hhalf s k)"
  by (simp add: load16_def haddr_plus(1) load8_heap [of s n] hhalf_def)

lemma load32_heap:
  "vm_ok s \<Longrightarrow> heap_mapped s n \<Longrightarrow> k + 4 \<le> 4096 * n \<Longrightarrow> load32 (haddr k) s = Inr (hword s k)"
  by (simp add: load32_def haddr_plus(2) load16_heap [of s n] hword_def)

text \<open>The bytes of a word are the bytes it was made of.\<close>

lemma word_bytes:
  fixes a b c d :: u8
  defines "w \<equiv> (ucast (ucast a OR push_bit 8 (ucast b) :: u16) OR push_bit 16 (ucast (ucast c OR push_bit 8 (ucast d) :: u16)) :: u32)"
  shows "ucast w = a" "ucast (drop_bit 8 w) = b" "ucast (drop_bit 16 w) = c" "ucast (drop_bit 24 w) = d"
  unfolding w_def by (rule bit_word_eqI; auto simp: bit_simps dest: bit_imp_le_length)+

lemma hword_byte:
  assumes "i < 4"
  shows "ucast (drop_bit (8 * i) (hword s k)) = hbyte s (k + i)"
proof -
  note w = word_bytes [of "hbyte s k" "hbyte s (k + 1)" "hbyte s (k + 2)" "hbyte s (k + 2 + 1)", folded hhalf_def, folded hword_def]
  from assms consider "i = 0" | "i = 1" | "i = 2" | "i = 3" by linarith
  then show ?thesis by cases (use w in \<open>simp_all add: numeral_3_eq_3\<close>)
qed

section \<open>Pages below the kernel\<close>

text \<open>The entry and the frame of page \<open>p\<close> in the current directory; addresses are natural numbers.\<close>

definition upte :: "'a vm_state_scheme \<Rightarrow> nat \<Rightarrow> u32" where
  "upte s p = pte_at s (cur_dir s) (p div 1024) (p mod 1024)"

definition uframe :: "'a vm_state_scheme \<Rightarrow> nat \<Rightarrow> nat" where
  "uframe s p = frame_of (upte s p)"

definition umapped :: "'a vm_state_scheme \<Rightarrow> nat \<Rightarrow> nat \<Rightarrow> bool" where
  "umapped s P n \<longleftrightarrow> P + n \<le> 786432 \<and> inj_on (uframe s) {P..<P + n} \<and>
     (\<forall>p\<in>{P..<P + n}. present (upte s p) \<and> uframe s p \<in> data_frames s)"

definition in_pages :: "nat \<Rightarrow> nat \<Rightarrow> nat \<Rightarrow> bool" where
  "in_pages P n a \<longleftrightarrow> 4096 * P \<le> a \<and> a < 4096 * (P + n)"

definition ubyte :: "'a vm_state_scheme \<Rightarrow> nat \<Rightarrow> u8" where
  "ubyte s a = ucast (drop_bit (8 * (a mod 4)) (pmem s (uframe s (a div 4096)) (a mod 4096 div 4)))"

lemma in_pagesD: "in_pages P n a \<Longrightarrow> a div 4096 \<in> {P..<P + n}"
  by (simp add: in_pages_def less_eq_div_iff_mult_less_eq div_less_iff_less_mult mult.commute)

lemma unat_uaddr: "umapped s P n \<Longrightarrow> in_pages P n a \<Longrightarrow> unat (of_nat a :: u32) = a"
  by (rule unat_of_nat_small) (simp add: umapped_def in_pages_def)

lemma translate_user:
  assumes "umapped s P n" and "in_pages P n a"
  shows "translate s (of_nat a) = Some (uframe s (a div 4096))"
proof -
  have ix: "pd_index (of_nat a) = a div 4096 div 1024" "pt_index (of_nat a) = a div 4096 mod 1024"
    using unat_uaddr [OF assms] by (simp_all add: pd_index_div pt_index_div div_mult2_eq [symmetric])
  have "present (upte s (a div 4096))" using assms in_pagesD [OF assms(2)] by (simp add: umapped_def)
  then show ?thesis
    using translate_pte [of s "of_nat a"] unfolding ix upte_def uframe_def by simp
qed

lemma user_indices:
  assumes "umapped s P n" and "in_pages P n a"
  shows "word_index (of_nat a) = a mod 4096 div 4" "byte_shift (of_nat a) = 8 * (a mod 4)"
  using unat_uaddr [OF assms] by (simp_all add: word_index_div byte_shift_mod)

lemma load8_user: "umapped s P n \<Longrightarrow> in_pages P n a \<Longrightarrow> load8 (of_nat a) s = Inr (ubyte s a)"
  by (simp add: load8_def vload_def translate_user user_indices ubyte_def)

definition uput :: "nat \<Rightarrow> u8 \<Rightarrow> 'a vm_state_scheme \<Rightarrow> 'a vm_state_scheme" where
  "uput a v s = (let f = uframe s (a div 4096); i = a mod 4096 div 4 in
     put_word f i (put_byte_in (8 * (a mod 4)) v (pmem s f i)) s)"

lemma store8_user: "umapped s P n \<Longrightarrow> in_pages P n a \<Longrightarrow> store8 (of_nat a) v s = Inr (uput a v s)"
  by (simp add: store8_def vload_def vstore_def translate_user user_indices uput_def Let_def)

text \<open>What writes to the pages leave alone.\<close>

definition ukept :: "nat \<Rightarrow> nat \<Rightarrow> 'a vm_state_scheme \<Rightarrow> 'a vm_state_scheme \<Rightarrow> bool" where
  "ukept P n s t \<longleftrightarrow> vm_ok t \<and> same_dirs s t \<and> used_frames t = used_frames s \<and> data_frames t = data_frames s \<and>
     (\<forall>d\<in>dir_frames s. \<forall>i<1023. \<forall>j. pte_at t d i j = pte_at s d i j) \<and>
     (\<forall>f. f \<notin> uframe s ` {P..<P + n} \<longrightarrow> pmem t f = pmem s f)"

lemma ukept_pages:
  assumes "vm_ok s" and "ukept P n s t" and "p < 1047552"
  shows "upte t p = upte s p" "uframe t p = uframe s p"
proof -
  have "p div 1024 < 1023" using assms(3) by simp
  then show "upte t p = upte s p"
    using assms(2) same_dirs_dirs(4) [of s t] cur_dir_in [OF vm_okD(1) [OF assms(1)]] by (simp add: ukept_def upte_def)
  then show "uframe t p = uframe s p" by (simp add: uframe_def)
qed

lemma ukept_umapped:
  assumes "vm_ok s" and "ukept P n s t" and "umapped s Q m"
  shows "umapped t Q m"
proof -
  have u: "p < 1047552" if "p \<in> {Q..<Q + m}" for p using that assms(3) by (simp add: umapped_def)
  have "inj_on (uframe t) {Q..<Q + m} \<longleftrightarrow> inj_on (uframe s) {Q..<Q + m}"
    by (rule inj_on_cong) (simp add: ukept_pages [OF assms(1,2) u])
  moreover have "data_frames t = data_frames s" using assms(2) by (simp add: ukept_def)
  ultimately show ?thesis using assms(3) ukept_pages [OF assms(1,2) u] by (simp add: umapped_def)
qed

lemma ukept_trans:
  assumes "vm_ok s" and "P + n \<le> 786432" and "ukept P n s t" and "ukept P n t u"
  shows "ukept P n s u"
proof -
  have "uframe t ` {P..<P + n} = uframe s ` {P..<P + n}"
    by (rule image_cong [OF refl]) (use assms(2) ukept_pages [OF assms(1,3)] in auto)
  then show ?thesis using assms(3,4) same_dirs_dirs(2) [of s t] by (auto simp: ukept_def same_dirs_def)
qed

lemma uput_ukept:
  assumes ok: "vm_ok s" and map: "umapped s P n" and a: "in_pages P n a"
  shows "ukept P n s (uput a v s)"
proof -
  let ?f = "uframe s (a div 4096)"
  have f: "?f \<in> data_frames s" "?f \<in> uframe s ` {P..<P + n}"
    using map in_pagesD [OF a] by (auto simp: umapped_def)
  have r: "uput a v s = put_row ?f ((pmem s ?f)(a mod 4096 div 4 := put_byte_in (8 * (a mod 4)) v (pmem s ?f (a mod 4096 div 4)))) s"
    by (simp add: uput_def Let_def put_word_row)
  note w = data_write [OF ok f(1)]
  show ?thesis unfolding r using w f by (auto simp: ukept_def same_dirs_def)
qed

lemma uput_ubyte:
  assumes ok: "vm_ok s" and map: "umapped s P n" and a: "in_pages P n a" and b: "in_pages P n b"
  shows "ubyte (uput a v s) b = (if b = a then v else ubyte s b)"
proof -
  let ?f = "uframe s (a div 4096)" and ?g = "uframe s (b div 4096)"
  have p: "b div 4096 < 1047552" "P + n \<le> 786432" using map in_pagesD [OF b] by (auto simp: umapped_def)
  have g: "uframe (uput a v s) (b div 4096) = ?g"
    by (rule ukept_pages(2) [OF ok uput_ukept [OF ok map a] p(1)])
  have inj: "?g = ?f \<longleftrightarrow> b div 4096 = a div 4096"
    using map in_pagesD [OF a] in_pagesD [OF b] by (auto simp: umapped_def inj_on_def)
  have m: "pmem (uput a v s) ?g (b mod 4096 div 4) =
      (if b div 4 = a div 4 then put_byte_in (8 * (a mod 4)) v (pmem s ?f (a mod 4096 div 4)) else pmem s ?g (b mod 4096 div 4))"
    using word_offset_eq [of b a] by (auto simp: uput_def Let_def put_word_def inj)
  have four: "k mod 4 = 0 \<or> k mod 4 = 1 \<or> k mod 4 = 2 \<or> k mod 4 = 3" for k :: nat by auto
  have sh: "8 * (k mod 4) = 0 \<or> 8 * (k mod 4) = 8 \<or> 8 * (k mod 4) = 16 \<or> 8 * (k mod 4) = 24" for k :: nat
    using four [of k] by auto
  have ub: "ubyte (uput a v s) b = ucast (drop_bit (8 * (b mod 4)) (pmem (uput a v s) ?g (b mod 4096 div 4)))"
    by (simp only: ubyte_def g)
  show ?thesis
  proof (cases "b div 4 = a div 4")
    case True
    then have "b = a \<longleftrightarrow> b mod 4 = a mod 4" by (metis div_mult_mod_eq)
    then have e: "b = a \<longleftrightarrow> 8 * (b mod 4) = 8 * (a mod 4)" by simp
    have w: "?g = ?f" "b mod 4096 div 4 = a mod 4096 div 4" using True word_offset_eq [of b a] by auto
    have us: "ubyte s b = ucast (drop_bit (8 * (b mod 4)) (pmem s ?f (a mod 4096 div 4)))" by (simp only: ubyte_def w)
    have m': "pmem (uput a v s) ?g (b mod 4096 div 4) = put_byte_in (8 * (a mod 4)) v (pmem s ?f (a mod 4096 div 4))"
      unfolding m using True by (rule if_P)
    show ?thesis by (simp only: ub m' get_put_byte [OF sh [of a] sh [of b]] us e)
  next
    case False
    then have "b \<noteq> a" by auto
    with False show ?thesis unfolding ub m by (simp only: ubyte_def if_False)
  qed
qed

section \<open>Filling and copying\<close>

text \<open>\<open>t\<close> is \<open>s\<close> with the bytes \<open>g 0\<close> to \<open>g (m - 1)\<close> written from address \<open>a\<close> on.\<close>

definition ufilled :: "nat \<Rightarrow> nat \<Rightarrow> nat \<Rightarrow> nat \<Rightarrow> (nat \<Rightarrow> u8) \<Rightarrow> 'a vm_state_scheme \<Rightarrow> 'a vm_state_scheme \<Rightarrow> bool" where
  "ufilled P n a m g s t \<longleftrightarrow> ukept P n s t \<and>
     (\<forall>b. in_pages P n b \<longrightarrow> ubyte t b = (if a \<le> b \<and> b < a + m then g (b - a) else ubyte s b))"

lemma ufilled_0: "vm_ok s \<Longrightarrow> ufilled P n a 0 g s s"
  by (auto simp: ufilled_def ukept_def same_dirs_def)

lemma ufilled_step:
  assumes ok: "vm_ok s" and map: "umapped s P n" and fill: "ufilled P n a m g s t" and a: "in_pages P n (a + m)"
  shows "\<exists>t'. store8 (of_nat (a + m)) (g m) t = Inr t' \<and> ufilled P n a (Suc m) g s t'"
proof -
  have k: "ukept P n s t" and okt: "vm_ok t" using fill by (simp_all add: ufilled_def ukept_def)
  have mt: "umapped t P n" by (rule ukept_umapped [OF ok k map])
  have b: "P + n \<le> 786432" using map by (simp add: umapped_def)
  have kept: "ukept P n s (uput (a + m) (g m) t)"
    by (rule ukept_trans [OF ok b k uput_ukept [OF okt mt a]])
  have "ubyte (uput (a + m) (g m) t) x = (if a \<le> x \<and> x < a + Suc m then g (x - a) else ubyte s x)"
    if x: "in_pages P n x" for x
    using fill x uput_ubyte [OF okt mt a x, of "g m"] by (auto simp: ufilled_def)
  then have "ufilled P n a (Suc m) g s (uput (a + m) (g m) t)" using kept by (simp add: ufilled_def)
  then show ?thesis using store8_user [OF mt a] by blast
qed

lemma mem_set_user:
  assumes ok: "vm_ok s" and map: "umapped s P n" and a: "4096 * P \<le> a" "a + unat len \<le> 4096 * (P + n)"
  shows "\<exists>t. mem_set (of_nat a) v len s = Inr t \<and> ufilled P n a (unat len) (\<lambda>_. v) s t"
  unfolding mem_set_def
proof (rule for_res_rule)
  show "ufilled P n a 0 (\<lambda>_. v) s s" by (rule ufilled_0 [OF ok])
  fix i t assume i: "i < unat len" and I: "ufilled P n a i (\<lambda>_. v) s t"
  have "in_pages P n (a + i)" using a i by (simp add: in_pages_def)
  from ufilled_step [OF ok map I this]
  show "\<exists>t'. store8 (of_nat a + of_nat i) v t = Inr t' \<and> ufilled P n a (Suc i) (\<lambda>_. v) s t'" by simp
qed simp

text \<open>A heap that shares no frame with the pages.\<close>

definition heap_apart :: "'a vm_state_scheme \<Rightarrow> nat \<Rightarrow> nat \<Rightarrow> nat \<Rightarrow> bool" where
  "heap_apart s hn P n \<longleftrightarrow> heap_mapped s hn \<and> (\<forall>q<hn. heap_frame s q \<notin> uframe s ` {P..<P + n})"

lemma ukept_heap:
  assumes "heap_apart s hn P n" and "ukept P n s t"
  shows "heap_mapped t hn" and "k < 4096 * hn \<Longrightarrow> hrd t k = hrd s k"
proof -
  have hp: "heap_pte t q = heap_pte s q" if "q < hn" for q
  proof -
    have "q < 131072" using that assms(1) by (simp add: heap_apart_def heap_mapped_def)
    then have "832 + q div 1024 < 1023" by (rule heap_pte_index)
    then show ?thesis using assms(2) same_dirs_dirs(3) [of s t] by (simp add: heap_pte_def ukept_def)
  qed
  show "heap_mapped t hn"
    by (rule heap_mapped_view [OF _ _ hp]) (use assms in \<open>simp_all add: heap_apart_def ukept_def\<close>)
  assume "k < 4096 * hn"
  then have q: "k div 4096 < hn" by auto
  then show "hrd t k = hrd s k"
    using hp assms by (simp add: hrd_def heap_frame_def heap_apart_def ukept_def)
qed

lemma hbyte_kept:
  "heap_apart s hn P n \<Longrightarrow> ukept P n s t \<Longrightarrow> k < 4096 * hn \<Longrightarrow> hbyte t k = hbyte s k"
  using ukept_heap(2) [of s hn P n t k] by (simp add: hbyte_def)

text \<open>\<open>memcpy\<close> of \<open>len\<close> bytes from the heap.\<close>

lemma store32_user:
  assumes ok: "vm_ok s" and map: "umapped s P n" and fill: "ufilled P n a m g s t"
    and a: "4096 * P \<le> a" "a + m + 4 \<le> 4096 * (P + n)"
    and g: "\<And>i. i < 4 \<Longrightarrow> g (m + i) = ucast (drop_bit (8 * i) w)"
  shows "\<exists>t'. store32 (of_nat (a + m)) w t = Inr t' \<and> ufilled P n a (m + 4) g s t'"
  unfolding store32_def
proof (rule for_res_rule)
  show "ufilled P n a (m + 0) g s t" using fill by simp
  fix i u assume i: "i < (4 :: nat)" and I: "ufilled P n a (m + i) g s u"
  have "in_pages P n (a + (m + i))" using a i by (simp add: in_pages_def)
  from ufilled_step [OF ok map I this]
  show "\<exists>u'. store8 (of_nat (a + m) + of_nat i) (ucast (drop_bit (8 * i) w)) u = Inr u' \<and> ufilled P n a (m + Suc i) g s u'"
    using g [OF i] by (simp add: add.assoc)
qed simp

lemma mem_copy_user:
  assumes ok: "vm_ok s" and map: "umapped s P n" and apart: "heap_apart s hn P n"
    and a: "4096 * P \<le> a" "a + unat len \<le> 4096 * (P + n)" and k: "k + unat len \<le> 4096 * hn"
  shows "\<exists>t. mem_copy (of_nat a) (haddr k) len s = Inr t \<and> ufilled P n a (unat len) (\<lambda>i. hbyte s (k + i)) s t"
proof -
  let ?g = "\<lambda>i. hbyte s (k + i)" and ?d = "unat (len div 4)"
  have len: "4 * ?d + unat (len mod 4) = unat len" by (simp add: unat_div unat_mod)
  have src: "vm_ok t" "heap_mapped t hn" "j < 4096 * hn \<Longrightarrow> hbyte t j = hbyte s j" if "ufilled P n a m ?g s t" for m t j
    using that ukept_heap(1) [OF apart] hbyte_kept [OF apart] by (simp_all add: ufilled_def ukept_def)
  have "\<exists>t. for_res 0 ?d (\<lambda>i t. and_then (load32 (elem (haddr k) i) t) (\<lambda>w. store32 (elem (of_nat a) i) w t)) s = Inr t \<and>
    ufilled P n a (4 * ?d) ?g s t"
  proof (rule for_res_rule)
    show "ufilled P n a (4 * 0) ?g s s" using ufilled_0 [OF ok] by simp
    fix i t assume i: "i < ?d" and I: "ufilled P n a (4 * i) ?g s t"
    have b: "4 * i + 4 \<le> unat len" using i len by linarith
    have w: "hword t (k + 4 * i) = hword s (k + 4 * i)"
      using src(3) [OF I] b k by (simp add: hword_def hhalf_def)
    have e: "elem (haddr k) i = haddr (k + 4 * i)" by (simp add: elem_def haddr_def algebra_simps)
    have "load32 (elem (haddr k) i) t = Inr (hword s (k + 4 * i))"
      using load32_heap [OF src(1) [OF I] src(2) [OF I], of "k + 4 * i"] b k w by (simp add: e)
    moreover have "elem (of_nat a) i = of_nat (a + 4 * i)" by (simp add: elem_def)
    moreover have "\<exists>t'. store32 (of_nat (a + 4 * i)) (hword s (k + 4 * i)) t = Inr t' \<and> ufilled P n a (4 * i + 4) ?g s t'"
      by (rule store32_user [OF ok map I a(1)]) (use a b in \<open>simp_all add: hword_byte add.assoc\<close>)
    ultimately show "\<exists>t'. and_then (load32 (elem (haddr k) i) t) (\<lambda>w. store32 (elem (of_nat a) i) w t) = Inr t' \<and>
      ufilled P n a (4 * Suc i) ?g s t'"
      by (simp add: add.commute)
  qed simp
  then obtain t where t: "for_res 0 ?d (\<lambda>i t. and_then (load32 (elem (haddr k) i) t) (\<lambda>w. store32 (elem (of_nat a) i) w t)) s = Inr t"
    "ufilled P n a (4 * ?d) ?g s t" by blast
  let ?body = "\<lambda>i t. and_then (load8 (haddr k + 4 * of_nat ?d + of_nat i) t) (\<lambda>b. store8 (of_nat a + 4 * of_nat ?d + of_nat i) b t)"
  have "\<exists>u. for_res 0 (unat (len mod 4)) ?body t = Inr u \<and> ufilled P n a (4 * ?d + unat (len mod 4)) ?g s u"
  proof (rule for_res_rule)
    show "ufilled P n a (4 * ?d + 0) ?g s t" using t(2) by simp
    fix i u assume i: "i < unat (len mod 4)" and I: "ufilled P n a (4 * ?d + i) ?g s u"
    let ?m = "4 * ?d + i"
    have b: "?m < unat len" using i len by linarith
    have src': "haddr k + 4 * of_nat ?d + of_nat i = haddr (k + ?m)" by (simp only: haddr_def) simp
    have "load8 (haddr (k + ?m)) u = Inr (hbyte s (k + ?m))"
      using load8_heap [OF src(1) [OF I] src(2) [OF I], of "k + ?m"] src(3) [OF I, of "k + ?m"] b k by simp
    moreover have "in_pages P n (a + ?m)" using a b by (simp add: in_pages_def)
    from ufilled_step [OF ok map I this]
    have "\<exists>u'. store8 (of_nat a + 4 * of_nat ?d + of_nat i) (hbyte s (k + ?m)) u = Inr u' \<and> ufilled P n a (Suc ?m) ?g s u'"
      by (simp add: add.assoc)
    ultimately show "\<exists>u'. ?body i u = Inr u' \<and> ufilled P n a (4 * ?d + Suc i) ?g s u'" unfolding src' by simp
  qed simp
  with t(1) show ?thesis unfolding mem_copy_def Let_def len by simp
qed

section \<open>Fresh pages\<close>

text \<open>\<open>u\<close> is \<open>s\<close> with the pages \<open>P..<P + i\<close> mapped to new frames.\<close>

definition fresh_pages :: "nat \<Rightarrow> u32 \<Rightarrow> nat \<Rightarrow> nat \<Rightarrow> 'a vm_state_scheme \<Rightarrow> 'a vm_state_scheme \<Rightarrow> bool" where
  "fresh_pages P flags hn i s u \<longleftrightarrow> vm_ok u \<and> same_dirs s u \<and> data_kept s u \<and> free_count s \<le> free_count u + 2 * i \<and>
     heap_mapped u hn \<and> (\<forall>q<hn. heap_frame u q = heap_frame s q) \<and> inj_on (uframe u) {P..<P + i} \<and>
     (\<forall>p\<in>{P..<P + i}. uframe u p \<in> data_frames u - data_frames s \<and> upte u p = pte_of (of_nat (uframe u p) * 4096) flags) \<and>
     (\<forall>d\<in>dir_frames s. \<forall>a<1023. \<forall>b<1024. \<not> (d = cur_dir s \<and> P \<le> a * 1024 + b \<and> a * 1024 + b < P + i) \<longrightarrow>
        pte_at u d a b = pte_at s d a b)"

lemma user_dir_small:
  assumes "vm_core s" and "a < 768"
  shows "\<not> large (pmem s (cur_dir s) a)"
proof -
  have "if present (pmem s (cur_dir s) a) then \<not> large (pmem s (cur_dir s) a) \<and> owner (pmem s (cur_dir s) a) else pmem s (cur_dir s) a = 0"
    using vm_coreD(7) [OF assms(1)] cur_dir_in [OF assms(1)] assms(2) unfolding user_part_ok_def by blast
  then show ?thesis by (auto simp: large_def split: if_splits)
qed

lemma take_frame_count:
  assumes "pmm_ok s" and "f \<in> managed_frames s" "f \<notin> used_frames s"
  shows "free_count s = free_count (take_frame f s) + 1"
proof -
  note u = pmm_ok_take_frame [OF assms]
  have eq: "managed_frames s - used_frames s = insert f (managed_frames s - used_frames (take_frame f s))"
    using assms(2,3) u(2) by auto
  have "card (insert f (managed_frames s - used_frames (take_frame f s))) = Suc (card (managed_frames s - used_frames (take_frame f s)))"
    by (rule card_insert_disjoint) (simp_all add: managed_frames_def u(2))
  then show ?thesis unfolding free_count_def eq by simp
qed

lemma page_addr_user: "p < 786432 \<Longrightarrow> \<not> KERNEL_START \<le> page_addr p"
  using unat_page_addr [of p] by (simp add: KERNEL_START_def word_le_nat_alt)

lemma fresh_page_step:
  assumes inv: "fresh_pages P flags hn i s u" and off: "\<not> are_interrupts_enabled s" and P: "P + i < 786432"
    and fl: "flags_ok flags" and room: "2 * i + 2 \<le> free_count s"
  shows "\<exists>f t. pmm_alloc_pageframe u = Inr (of_nat f * 4096, take_frame f u) \<and> f \<in> managed_frames u \<and> f \<notin> used_frames u \<and>
    mem_map_page (page_addr (P + i)) (of_nat f * 4096) flags (take_frame f u) = Inr t \<and> fresh_pages P flags hn (Suc i) s t"
proof -
  from inv have ok: "vm_ok u" and sd: "same_dirs s u" and dk: "data_kept s u" and fc: "free_count s \<le> free_count u + 2 * i"
    and hm: "heap_mapped u hn" and hf: "\<forall>q<hn. heap_frame u q = heap_frame s q" and inj: "inj_on (uframe u) {P..<P + i}"
    and new: "\<forall>p\<in>{P..<P + i}. uframe u p \<in> data_frames u - data_frames s \<and> upte u p = pte_of (of_nat (uframe u p) * 4096) flags"
    and old: "\<forall>d\<in>dir_frames s. \<forall>a<1023. \<forall>b<1024. \<not> (d = cur_dir s \<and> P \<le> a * 1024 + b \<and> a * 1024 + b < P + i) \<longrightarrow>
        pte_at u d a b = pte_at s d a b"
    unfolding fresh_pages_def by blast+
  note d = same_dirs_dirs [OF sd] and core = vm_okD(1) [OF ok]
  note pok = vm_coreD(1) [OF core]
  let ?p = "P + i"
  have free: "2 \<le> free_count u" using fc room by simp
  then have "\<not> managed_frames u \<subseteq> used_frames u" by (intro free_count_pos) simp
  with pmm_alloc_cases [OF pok] obtain f where f: "f \<in> managed_frames u" "f \<notin> used_frames u"
    and al: "pmm_alloc_pageframe u = Inr (of_nat f * 4096, take_frame f u)"
    by (auto simp: PAGE_FRAME_SIZE_def)
  let ?u = "take_frame f u" and ?pa = "of_nat f * 4096 :: u32"
  note t1 = core_take_data [OF ok f]
  have f20: "f < 1048576" using managed_small [OF pok f(1)] by simp
  have sd1: "same_dirs s ?u" using sd by (simp add: same_dirs_def)
  note d1 = same_dirs_dirs [OF sd1]
  have ix: "pd_index (page_addr ?p) = ?p div 1024" "pt_index (page_addr ?p) = ?p mod 1024"
    using P by (simp_all add: page_addr_index)
  have pd: "?p div 1024 < 768" using P by simp
  have nk: "\<not> KERNEL_START \<le> page_addr ?p" by (rule page_addr_user [OF P])
  have tgt: "target_dir (page_addr ?p) ?u = cur_dir ?u" using nk by (simp add: target_dir_def)
  have fc1: "free_count u = free_count ?u + 1" by (rule take_frame_count [OF pok f])
  have off1: "\<not> are_interrupts_enabled ?u" using off d1(6) by simp
  have nl: "\<not> large (pmem ?u (target_dir (page_addr ?p) ?u) (pd_index (page_addr ?p)))"
    unfolding tgt ix by (rule user_dir_small [OF vm_okD(1) [OF t1(1)] pd])
  have rm: "\<not> managed_frames ?u \<subseteq> used_frames ?u" using fc1 free by (intro free_count_pos) simp
  obtain t where t: "mem_map_page (page_addr ?p) ?pa flags ?u = Inr t" "vm_ok t" "same_dirs ?u t"
    and view: "\<forall>d\<in>dir_frames ?u. \<forall>a<1023. \<forall>b<1024. pte_at t d a b =
      (if (KERNEL_START \<le> page_addr ?p \<or> d = cur_dir ?u) \<and> a = pd_index (page_addr ?p) \<and> b = pt_index (page_addr ?p)
       then pte_of ?pa flags else pte_at ?u d a b)"
    and card: "card (used_frames t) \<le> card (used_frames ?u) + 1" and dk': "data_kept ?u t"
    using mem_map_page_spec [OF t1(1) off1 _ nl fl, of ?pa] rm pd unfolding ix by auto
  have sd': "same_dirs s t" using sd1 t(3) by (simp add: same_dirs_def)
  note d' = same_dirs_dirs [OF sd']
  have view': "pte_at t c a b = (if c = cur_dir s \<and> a * 1024 + b = ?p then pte_of ?pa flags else pte_at u c a b)"
    if "c \<in> dir_frames s" "a < 1023" "b < 1024" for c a b
    unfolding page_split [OF that(3), symmetric] using view that nk by (simp add: d ix t1(3))
  have cur: "cur_dir s \<in> dir_frames s" using cur_dir_in [OF core] d by simp
  have up: "upte t q = (if q = ?p then pte_of ?pa flags else upte u q)" if "q < 1047552" for q
    using view' [OF cur, of "q div 1024" "q mod 1024"] that by (simp add: upte_def d d')
  have fl12: "unat flags < 4096" using fl by (simp add: flags_ok_def)
  have uf: "uframe t q = (if q = ?p then f else uframe u q)" if "q < 1047552" for q
    using up [OF that] pte_of_facts(2) [OF fl12] frame_address(1) [OF f20] by (simp add: uframe_def)
  have small: "q < 1047552" if "q \<in> {P..<P + Suc i}" for q using that P by simp
  have fd: "f \<in> data_frames t" "f \<notin> data_frames u" "data_frames u \<subseteq> data_frames t"
    using dk' t1(2) f(2) by (auto simp: data_kept_def data_frames_def)
  have dk2: "data_kept u t" using dk' t1(2) by (auto simp: data_kept_def)
  have dks: "data_frames s \<subseteq> data_frames u" using dk by (simp add: data_kept_def)
  have hp: "heap_pte t q = heap_pte u q" if "q < hn" for q
  proof -
    have q: "q < 131072" using that hm by (simp add: heap_mapped_def)
    have "(832 + q div 1024) * 1024 + q mod 1024 = 851968 + q"
      using div_mult_mod_eq [of q 1024] by (simp add: add_mult_distrib)
    then have "(832 + q div 1024) * 1024 + q mod 1024 \<noteq> ?p" using P by simp
    then show ?thesis
      using view' [of "ipd_frame s" "832 + q div 1024" "q mod 1024"] heap_pte_index [OF q] by (simp add: heap_pte_def d d')
  qed
  have "fresh_pages P flags hn (Suc i) s t"
    unfolding fresh_pages_def
  proof (intro conjI)
    show "vm_ok t" "same_dirs s t" by (rule t(2), rule sd')
    show "data_kept s t" by (rule data_kept_trans [OF dk dk2])
    have "free_count ?u \<le> free_count t + 1"
      using free_count_drop [OF t1(1) t(2) _ card] t(3) by (simp add: same_dirs_def)
    with fc fc1 show "free_count s \<le> free_count t + 2 * Suc i" by simp
    show "heap_mapped t hn" by (rule heap_mapped_view [OF hm fd(3) hp])
    show "\<forall>q<hn. heap_frame t q = heap_frame s q" using hf hp by (simp add: heap_frame_def)
    have "uframe t q \<noteq> f" if "q \<in> {P..<P + i}" for q using new that fd(2) uf [of q] small [of q] by auto
    then have "f \<notin> uframe t ` {P..<P + i}" by blast
    moreover have "inj_on (uframe t) {P..<P + i}"
      using inj by (rule inj_on_cong [THEN iffD1, rotated]) (use uf small in auto)
    ultimately show "inj_on (uframe t) {P..<P + Suc i}"
      using uf [of ?p] P by (simp add: atLeastLessThanSuc inj_on_insert)
    show "\<forall>p\<in>{P..<P + Suc i}. uframe t p \<in> data_frames t - data_frames s \<and> upte t p = pte_of (of_nat (uframe t p) * 4096) flags"
      using uf up small new fd dks by (auto simp: atLeastLessThanSuc)
    show "\<forall>d\<in>dir_frames s. \<forall>a<1023. \<forall>b<1024. \<not> (d = cur_dir s \<and> P \<le> a * 1024 + b \<and> a * 1024 + b < P + Suc i) \<longrightarrow>
        pte_at t d a b = pte_at s d a b"
      using view' old by auto
  qed
  with al f t(1) show ?thesis by blast
qed

end
