(* ===== verification/Elf_Props.thy ===== *)
theory Elf_Props
  imports Elf User_Memory
begin

text \<open>
  The ELF loader is correct: an executable whose image lies in the kernel heap is in memory after
  \<open>load_elf_executable\<close>, every loadable segment in fresh pages of its own, with the bytes of the
  file followed by zeros.
\<close>

section \<open>Mapping the pages of a segment\<close>

lemma heap_take_frame:
  assumes "vm_ok u" and "f \<in> managed_frames u" "f \<notin> used_frames u" and "heap_mapped u hn"
  shows "heap_mapped (take_frame f u) hn" "heap_frame (take_frame f u) q = heap_frame u q" "hrd (take_frame f u) k = hrd u k"
proof -
  note t = core_take_data [OF assms(1-3)]
  have hp: "heap_pte (take_frame f u) p = heap_pte u p" for p by (simp add: heap_pte_def t(3))
  show "heap_mapped (take_frame f u) hn" by (rule heap_mapped_view [OF assms(4) _ hp]) (simp add: t(2) subset_insertI)
  show "heap_frame (take_frame f u) q = heap_frame u q" for q by (simp add: heap_frame_def hp)
  then show "hrd (take_frame f u) k = hrd u k" by (simp add: hrd_def)
qed

lemma hbyte_cong: "(\<And>k. k < 4096 * n \<Longrightarrow> hrd t k = hrd s k) \<Longrightarrow> k < 4096 * n \<Longrightarrow> hbyte t k = hbyte s k"
  by (simp add: hbyte_def)

lemma hword_cong: "(\<And>k. k < 4096 * n \<Longrightarrow> hrd t k = hrd s k) \<Longrightarrow> k + 4 \<le> 4096 * n \<Longrightarrow> hword t k = hword s k"
  by (simp add: hword_def hhalf_def hbyte_def)

lemma page_base: "a AND NOT 0xFFF = page_addr (unat a div 4096)"
  using P_PHYS_ADDR_frame [of a] by (simp add: P_PHYS_ADDR_def frame_of_div page_addr_def)

lemma fresh_pages_hrd:
  assumes "heap_mapped s hn" and "fresh_pages P flags hn i s u" and "k < 4096 * hn"
  shows "hrd u k = hrd s k"
  by (rule hrd_kept [OF assms(1) _ _ assms(3)]) (use assms(2) in \<open>simp_all add: fresh_pages_def\<close>)

lemma map_fresh_spec:
  assumes ok: "vm_ok s" and off: "\<not> are_interrupts_enabled s" and hm: "heap_mapped s hn" and fl: "flags_ok (flags OR PAGE_FLAG_OWNER)"
    and h: "h + 12 \<le> 4096 * hn" and P: "P = unat (hword s (h + 8)) div 4096" "P + n \<le> 786432" and room: "2 * n \<le> free_count s"
  shows "\<exists>t. map_fresh (p_vaddr (haddr h)) flags n s = Inr t \<and> fresh_pages P (flags OR PAGE_FLAG_OWNER) hn n s t"
  unfolding map_fresh_def
proof (rule for_res_rule)
  let ?fl = "flags OR PAGE_FLAG_OWNER"
  show "fresh_pages P ?fl hn 0 s s" using ok hm by (simp add: fresh_pages_def same_dirs_def)
  fix i u assume i: "i < n" and I: "fresh_pages P ?fl hn i s u"
  have "P + i < 786432" "2 * i + 2 \<le> free_count s" using i P(2) room by simp_all
  from fresh_page_step [OF I off this(1) fl this(2)] obtain f t where
    f: "pmm_alloc_pageframe u = Inr (of_nat f * 4096, take_frame f u)" "f \<in> managed_frames u" "f \<notin> used_frames u"
    and t: "mem_map_page (page_addr (P + i)) (of_nat f * 4096) ?fl (take_frame f u) = Inr t" "fresh_pages P ?fl hn (Suc i) s t"
    by blast
  have u: "vm_ok u" "heap_mapped u hn" using I by (simp_all add: fresh_pages_def)
  note tf = heap_take_frame [OF u(1) f(2,3) u(2)]
  have "hrd (take_frame f u) k = hrd s k" if "k < 4096 * hn" for k
    using tf(3) fresh_pages_hrd [OF hm I that] by simp
  from hword_cong [OF this, where k = "h + 8"] have w: "hword (take_frame f u) (h + 8) = hword s (h + 8)" using h by simp
  have "p_vaddr (haddr h) (take_frame f u) = Inr (hword s (h + 8))"
    using load32_heap [OF core_take_data(1) [OF u(1) f(2,3)] tf(1), of "h + 8"] h w by (simp add: p_vaddr_def haddr_plus)
  then show "\<exists>t. and_then (pmm_alloc_pageframe u) (\<lambda>(phys, t1). and_then (p_vaddr (haddr h) t1)
      (\<lambda>a. mem_map_page ((a AND NOT 0xFFF) + of_nat i * 0x1000) phys ?fl t1)) = Inr t \<and> fresh_pages P ?fl hn (Suc i) s t"
    using f(1) t unfolding page_base by (simp add: page_addr_add flip: P(1))
qed simp

section \<open>One segment\<close>

text \<open>A program header at heap offset \<open>h\<close>; \<open>k\<close> is the offset of the image.\<close>

definition loads :: "'a vm_state_scheme \<Rightarrow> nat \<Rightarrow> bool" where
  "loads s h \<longleftrightarrow> hword s h = PT_LOAD \<and> hword s (h + 20) \<noteq> 0"

definition seg_start :: "'a vm_state_scheme \<Rightarrow> nat \<Rightarrow> nat" where
  "seg_start s h = unat (hword s (h + 8))"

definition seg_length :: "'a vm_state_scheme \<Rightarrow> nat \<Rightarrow> nat" where
  "seg_length s h = unat (hword s (h + 16))"

definition seg_byte :: "'a vm_state_scheme \<Rightarrow> nat \<Rightarrow> nat \<Rightarrow> nat \<Rightarrow> u8" where
  "seg_byte s k h a =
     (if seg_start s h \<le> a \<and> a < seg_start s h + seg_length s h
      then hbyte s (k + unat (hword s (h + 4)) + (a - seg_start s h)) else 0)"

definition seg_page :: "'a vm_state_scheme \<Rightarrow> nat \<Rightarrow> nat" where
  "seg_page s h = seg_start s h div 4096"

definition seg_pages :: "'a vm_state_scheme \<Rightarrow> nat \<Rightarrow> nat" where
  "seg_pages s h = unat (segment_pages (hword s (h + 8)) (hword s (h + 20)))"

definition seg_flags :: "'a vm_state_scheme \<Rightarrow> nat \<Rightarrow> u32" where
  "seg_flags s h = segment_flags (hword s (h + 24)) OR PAGE_FLAG_OWNER"

text \<open>The header describes bytes of the image, and its pages lie below the kernel.\<close>

definition seg_ok :: "'a vm_state_scheme \<Rightarrow> nat \<Rightarrow> nat \<Rightarrow> nat \<Rightarrow> bool" where
  "seg_ok s hn k h \<longleftrightarrow> h + 32 \<le> 4096 * hn \<and>
     (loads s h \<longrightarrow> k + unat (hword s (h + 4)) + seg_length s h \<le> 4096 * hn \<and>
        seg_length s h \<le> unat (hword s (h + 20)) \<and> seg_start s h + unat (hword s (h + 20)) \<le> 3221217280)"

text \<open>\<open>t\<close> holds the segment that \<open>s\<close> describes.\<close>

definition seg_loaded :: "'a vm_state_scheme \<Rightarrow> nat \<Rightarrow> nat \<Rightarrow> 'a vm_state_scheme \<Rightarrow> bool" where
  "seg_loaded s k h t \<longleftrightarrow> umapped t (seg_page s h) (seg_pages s h) \<and>
     (\<forall>p\<in>{seg_page s h..<seg_page s h + seg_pages s h}. upte t p = pte_of (of_nat (uframe t p) * 4096) (seg_flags s h)) \<and>
     (\<forall>a. in_pages (seg_page s h) (seg_pages s h) a \<longrightarrow> ubyte t a = seg_byte s k h a)"

lemma seg_flags_ok: "flags_ok (seg_flags s h)"
  by (simp add: seg_flags_def segment_flags_def flags_ok_def large_def PAGE_FLAG_USER_def PAGE_FLAG_WRITE_def
      PAGE_FLAG_OWNER_def PAGE_FLAG_4MB_def)

lemma CEIL_DIV_pages:
  assumes "unat m \<le> 4294963200"
  shows "unat (CEIL_DIV m 0x1000) = (unat m + 4095) div 4096"
proof -
  have e: "m + 0x1000 - 1 = m + 4095" by simp
  have "unat (m + 4095) = unat m + 4095" using assms by (subst unat_add_small) simp_all
  then show ?thesis by (simp add: CEIL_DIV_def unat_div e)
qed

lemma pages_cover:
  fixes v m :: nat
  defines "n \<equiv> (m + 4095) div 4096 + (if v mod 4096 = 0 then 0 else 1)"
  shows "v + m \<le> 4096 * (v div 4096 + n)" and "v + m \<le> 3221217280 \<Longrightarrow> v div 4096 + n \<le> 786432"
proof -
  define e where "e = (if v mod 4096 = 0 then 0 else 1 :: nat)"
  have cover: "4096 * q + r + m \<le> 4096 * (q + (c + e))" "4096 * q + r + m \<le> 3221217280 \<Longrightarrow> q + (c + e) \<le> 786432"
    if "r \<le> 4096 * e" "e \<le> 1" "m \<le> 4096 * c" "4096 * c \<le> m + 4095" for q r c
    using that by (simp_all add: algebra_simps)
  have n: "n = (m + 4095) div 4096 + e" by (simp add: n_def e_def)
  have h: "v mod 4096 \<le> 4096 * e" "e \<le> 1" "m \<le> 4096 * ((m + 4095) div 4096)" "4096 * ((m + 4095) div 4096) \<le> m + 4095"
    by (simp_all add: e_def)
  have v: "4096 * (v div 4096) + v mod 4096 = v" by simp
  note w = cover [OF h, of "v div 4096", unfolded v, folded n]
  show "v + m \<le> 4096 * (v div 4096 + n)" by (rule w(1))
  show "v + m \<le> 3221217280 \<Longrightarrow> v div 4096 + n \<le> 786432" by (rule w(2))
qed

lemma seg_pages_bounds:
  assumes ok: "seg_ok s hn k h" and l: "loads s h"
  shows "seg_start s h + seg_length s h \<le> 4096 * (seg_page s h + seg_pages s h)"
    and "seg_page s h + seg_pages s h \<le> 786432"
proof -
  let ?v = "hword s (h + 8)" and ?m = "hword s (h + 20)"
  have b: "seg_length s h \<le> unat ?m" "unat ?v + unat ?m \<le> 3221217280" using ok l by (simp_all add: seg_ok_def seg_start_def)
  have m: "?v AND 0xFFF = 0 \<longleftrightarrow> unat ?v mod 4096 = 0"
    using unat_and_mask_mod [of ?v 12] by (simp add: mask_eq_exp_minus_1 unat_eq_zero [symmetric] del: unat_eq_zero)
  have c: "unat (CEIL_DIV ?m 0x1000) = (unat ?m + 4095) div 4096" using b by (intro CEIL_DIV_pages) simp
  have c1: "unat (CEIL_DIV ?m 0x1000 + 1) = (unat ?m + 4095) div 4096 + 1" using b c by (subst unat_add_small) simp_all
  have n: "seg_pages s h = (unat ?m + 4095) div 4096 + (if unat ?v mod 4096 = 0 then 0 else 1)"
    using c c1 by (simp add: seg_pages_def segment_pages_def m)
  note c = pages_cover [of "unat ?v" "unat ?m", folded n]
  show "seg_start s h + seg_length s h \<le> 4096 * (seg_page s h + seg_pages s h)"
    using b(1) c(1) unfolding seg_start_def seg_page_def by linarith
  show "seg_page s h + seg_pages s h \<le> 786432"
    using b(2) c(2) unfolding seg_start_def seg_page_def by simp
qed

text \<open>What the step leaves alone; the pages \<open>S\<close> of the current directory may change.\<close>

definition rest_kept :: "nat set \<Rightarrow> nat \<Rightarrow> 'a vm_state_scheme \<Rightarrow> 'a vm_state_scheme \<Rightarrow> bool" where
  "rest_kept S hn s t \<longleftrightarrow> vm_ok t \<and> same_dirs s t \<and> data_kept s t \<and> heap_mapped t hn \<and>
     (\<forall>q<hn. heap_frame t q = heap_frame s q) \<and>
     (\<forall>d\<in>dir_frames s. \<forall>a<1023. \<forall>b<1024. \<not> (d = cur_dir s \<and> a * 1024 + b \<in> S) \<longrightarrow> pte_at t d a b = pte_at s d a b)"

lemma rest_kept_hrd: "heap_mapped s hn \<Longrightarrow> rest_kept S hn s t \<Longrightarrow> k < 4096 * hn \<Longrightarrow> hrd t k = hrd s k"
  by (rule hrd_kept) (simp_all add: rest_kept_def)

lemma fresh_rest: "fresh_pages P flags hn n s u \<Longrightarrow> rest_kept {P..<P + n} hn s u"
  by (simp add: fresh_pages_def rest_kept_def)

lemma ukept_rest:
  assumes ok: "vm_ok s" and hm: "heap_mapped s hn" and fresh: "fresh_pages P flags hn n s u" and P: "P + n \<le> 786432" and k: "ukept P n u t"
  shows "rest_kept {P..<P + n} hn s t" "umapped u P n" "heap_apart u hn P n"
proof -
  from fresh have oku: "vm_ok u" and sd: "same_dirs s u" and dk: "data_kept s u" and hu: "heap_mapped u hn"
    and new: "\<forall>p\<in>{P..<P + n}. uframe u p \<in> data_frames u - data_frames s \<and> upte u p = pte_of (of_nat (uframe u p) * 4096) flags"
    and hf: "\<forall>q<hn. heap_frame u q = heap_frame s q" and inj: "inj_on (uframe u) {P..<P + n}"
    by (simp_all add: fresh_pages_def)
  show "umapped u P n" using P inj new pte_of_facts(1) by (auto simp: umapped_def)
  have "heap_frame u q \<in> data_frames s" if "q < hn" for q using that hm hf by (simp add: heap_mapped_def)
  then show apart: "heap_apart u hn P n" using hu new by (force simp: heap_apart_def)
  have hp: "heap_frame t q = heap_frame u q" if "q < hn" for q
  proof -
    have "832 + q div 1024 < 1023" using that hu by (intro heap_pte_index) (simp add: heap_mapped_def)
    then show ?thesis using k same_dirs_dirs(3) [of u t] by (simp add: heap_frame_def heap_pte_def ukept_def)
  qed
  have "f \<notin> uframe u ` {P..<P + n}" if "f \<in> data_frames s" for f using new that by auto
  then have "data_kept s t" using dk k by (simp add: data_kept_def ukept_def)
  then show "rest_kept {P..<P + n} hn s t"
    using fresh_rest [OF fresh] k hp hf ukept_heap(1) [OF apart k] same_dirs_dirs(2) [OF sd]
    by (auto simp: rest_kept_def ukept_def same_dirs_def)
qed

lemma heap_apart_kept:
  assumes "heap_apart u hn P n" and "vm_ok u" and "ukept P n u t" and "P + n \<le> 786432"
  shows "heap_apart t hn P n"
proof -
  have hf: "heap_frame t q = heap_frame u q" if "q < hn" for q
  proof -
    have "832 + q div 1024 < 1023" using that assms(1) by (intro heap_pte_index) (simp add: heap_apart_def heap_mapped_def)
    then show ?thesis using assms(3) same_dirs_dirs(3) [of u t] by (simp add: heap_frame_def heap_pte_def ukept_def)
  qed
  have "uframe t ` {P..<P + n} = uframe u ` {P..<P + n}"
    by (rule image_cong [OF refl]) (use assms(4) ukept_pages [OF assms(2,3)] in auto)
  then show ?thesis using assms(1) hf ukept_heap(1) [OF assms(1,3)] by (simp add: heap_apart_def)
qed

lemma fresh_count: "fresh_pages P flags hn n s u \<Longrightarrow> free_count s \<le> free_count u + 2 * n"
  by (simp add: fresh_pages_def)

lemma ukept_count: "ukept P n s t \<Longrightarrow> free_count t = free_count s"
  by (simp add: ukept_def free_count_def same_dirs_def)

lemma place_segment_spec:
  assumes ok: "vm_ok s" and off: "\<not> are_interrupts_enabled s" and hm: "heap_mapped s hn"
    and seg: "seg_ok s hn k h" and l: "loads s h" and raw: "elf_raw elf = haddr k" and room: "2 * seg_pages s h \<le> free_count s"
  shows "\<exists>t. place_segment elf (haddr h) (segment_flags (hword s (h + 24))) (segment_pages (hword s (h + 8)) (hword s (h + 20))) s = Inr t \<and>
    seg_loaded s k h t \<and> rest_kept {seg_page s h..<seg_page s h + seg_pages s h} hn s t \<and>
    free_count s \<le> free_count t + 2 * seg_pages s h"
proof -
  let ?P = "seg_page s h" and ?n = "seg_pages s h" and ?fl = "segment_flags (hword s (h + 24))"
    and ?pages = "segment_pages (hword s (h + 8)) (hword s (h + 20))"
  note b = seg_pages_bounds [OF seg l]
  have h: "h + 32 \<le> 4096 * hn" and fits: "k + unat (hword s (h + 4)) + seg_length s h \<le> 4096 * hn"
    using seg l by (simp_all add: seg_ok_def)
  have v: "seg_start s h div 4096 = ?P" "4096 * ?P \<le> seg_start s h" by (simp_all add: seg_page_def)
  obtain u where u: "map_fresh (p_vaddr (haddr h)) ?fl ?n s = Inr u" "fresh_pages ?P (seg_flags s h) hn ?n s u"
    using map_fresh_spec [OF ok off hm, of ?fl h ?P ?n] seg_flags_ok [of s h] h b(2) room
    by (auto simp: seg_flags_def seg_page_def seg_start_def)
  have oku: "vm_ok u" using u(2) by (simp add: fresh_pages_def)
  have k0: "ukept ?P ?n u u" using ufilled_0 [OF oku] by (auto simp: ufilled_def)
  note ku = ukept_rest [OF ok hm u(2) b(2)]
  note mu = ku(2) [OF k0] and au = ku(3) [OF k0]
  have rd: "load32 (haddr (h + j)) t = Inr (hword s (h + j))" if kt: "ukept ?P ?n u t" and j: "h + j + 4 \<le> 4096 * hn" for t j
  proof -
    note r = ku(1) [OF kt]
    have "hword t (h + j) = hword s (h + j)" by (rule hword_cong [OF rest_kept_hrd [OF hm r]]) (use j in simp_all)
    with r j show ?thesis by (simp add: load32_heap [of t hn] rest_kept_def)
  qed
  have fld: "p_vaddr (haddr h) t = Inr (hword s (h + 8))" "p_offset (haddr h) t = Inr (hword s (h + 4))" "p_filesz (haddr h) t = Inr (hword s (h + 16))"
    if "ukept ?P ?n u t" for t
    using rd [OF that] h by (simp_all add: p_vaddr_def p_offset_def p_filesz_def haddr_plus)
  have lenp: "unat (?pages * 0x1000) = 4096 * ?n"
    using b(2) by (subst unat_mult_small) (simp_all add: seg_pages_def)
  have base: "hword s (h + 8) AND NOT 0xFFF = of_nat (4096 * ?P)"
    by (simp only: page_base page_addr_def seg_page_def seg_start_def)
  obtain w where w: "mem_set (of_nat (4096 * ?P)) 0 (?pages * 0x1000) u = Inr w" "ufilled ?P ?n (4096 * ?P) (4096 * ?n) (\<lambda>_. 0) u w"
    using mem_set_user [OF oku mu, of "4096 * ?P" "?pages * 0x1000" 0] unfolding lenp by auto
  have kw: "ukept ?P ?n u w" using w(2) by (simp add: ufilled_def)
  have okw: "vm_ok w" using kw by (simp add: ukept_def)
  have mw: "umapped w ?P ?n" by (rule ukept_umapped [OF oku kw mu])
  have aw: "heap_apart w hn ?P ?n" by (rule ku(3) [OF k0, THEN heap_apart_kept, OF oku kw b(2)])
  have src: "elf_raw elf + hword s (h + 4) = haddr (k + unat (hword s (h + 4)))" unfolding raw by (simp flip: haddr_add)
  have dst: "hword s (h + 8) = of_nat (seg_start s h)" by (simp add: seg_start_def)
  obtain t where t: "mem_copy (of_nat (seg_start s h)) (haddr (k + unat (hword s (h + 4)))) (hword s (h + 16)) w = Inr t"
      "ufilled ?P ?n (seg_start s h) (seg_length s h) (\<lambda>i. hbyte w (k + unat (hword s (h + 4)) + i)) w t"
    using mem_copy_user [OF okw mw aw v(2), of "hword s (h + 16)" "k + unat (hword s (h + 4))"] b(1) fits
    by (auto simp: seg_length_def)
  have kt: "ukept ?P ?n u t" using ukept_trans [OF oku b(2) kw] t(2) by (simp add: ufilled_def)
  note rt = ku(1) [OF kt]
  have run: "place_segment elf (haddr h) ?fl ?pages s = Inr t"
    using u(1) [unfolded seg_pages_def] w(1) [folded base] t(1) [folded dst src] fld(1) [OF k0] fld [OF kw]
    by (simp add: place_segment_def)
  have pg: "upte t p = upte u p" "uframe t p = uframe u p" if "p \<in> {?P..<?P + ?n}" for p
    using ukept_pages [OF oku kt, of p] that b(2) by simp_all
  have hb: "hbyte w j = hbyte s j" if "j < 4096 * hn" for j
    by (rule hbyte_cong [OF rest_kept_hrd [OF hm ku(1) [OF kw]] that])
  have "ubyte t a = seg_byte s k h a" if a: "in_pages ?P ?n a" for a
  proof -
    have "ubyte w a = 0" using w(2) a by (auto simp: ufilled_def in_pages_def algebra_simps)
    moreover have "hbyte w (k + unat (hword s (h + 4)) + (a - seg_start s h)) = hbyte s (k + unat (hword s (h + 4)) + (a - seg_start s h))"
      if "seg_start s h \<le> a" "a < seg_start s h + seg_length s h" using that fits by (intro hb) linarith
    ultimately show ?thesis using t(2) a by (simp add: ufilled_def seg_byte_def)
  qed
  moreover have "umapped t ?P ?n" by (rule ukept_umapped [OF oku kt mu])
  moreover have "\<forall>p\<in>{?P..<?P + ?n}. upte t p = pte_of (of_nat (uframe t p) * 4096) (seg_flags s h)"
    using u(2) pg by (simp add: fresh_pages_def)
  ultimately have "seg_loaded s k h t" by (simp add: seg_loaded_def)
  with run rt show ?thesis using fresh_count [OF u(2)] ukept_count [OF kt] by auto
qed

section \<open>The executable\<close>

definition phdr_at :: "'a vm_state_scheme \<Rightarrow> nat \<Rightarrow> nat \<Rightarrow> nat" where
  "phdr_at s k i = k + unat (hword s (k + 28)) + i * unat (hhalf s (k + 42))"

definition num_phdrs :: "'a vm_state_scheme \<Rightarrow> nat \<Rightarrow> nat" where
  "num_phdrs s k = unat (hhalf s (k + 44))"

text \<open>The pages that segment \<open>i\<close> takes.\<close>

definition load_pages :: "'a vm_state_scheme \<Rightarrow> nat \<Rightarrow> nat \<Rightarrow> nat set" where
  "load_pages s k i = (let h = phdr_at s k i in if loads s h then {seg_page s h..<seg_page s h + seg_pages s h} else {})"

definition image_ok :: "'a vm_state_scheme \<Rightarrow> nat \<Rightarrow> nat \<Rightarrow> bool" where
  "image_ok s hn k \<longleftrightarrow> k + 52 \<le> 4096 * hn \<and> hhalf s (k + 16) = 2 \<and>
     (\<forall>i<num_phdrs s k. seg_ok s hn k (phdr_at s k i)) \<and>
     (\<forall>i<num_phdrs s k. \<forall>j<i. load_pages s k i \<inter> load_pages s k j = {})"

lemma rest_kept_trans:
  assumes "rest_kept S hn s u" and "rest_kept S' hn u t"
  shows "rest_kept (S \<union> S') hn s t"
proof -
  note d = same_dirs_dirs [of s u]
  have "data_kept s t" using assms data_kept_trans by (auto simp: rest_kept_def)
  then show ?thesis using assms d by (auto simp: rest_kept_def same_dirs_def)
qed

lemma hhalf_cong: "(\<And>k. k < 4096 * n \<Longrightarrow> hrd t k = hrd s k) \<Longrightarrow> k + 2 \<le> 4096 * n \<Longrightarrow> hhalf t k = hhalf s k"
  by (simp add: hhalf_def hbyte_def)

lemma header_cong:
  assumes "heap_mapped s hn" and "rest_kept S hn s u" and "h + 32 \<le> 4096 * hn"
  shows "loads u h = loads s h" "seg_start u h = seg_start s h" "seg_length u h = seg_length s h" "seg_page u h = seg_page s h"
    "seg_pages u h = seg_pages s h" "seg_flags u h = seg_flags s h" "seg_ok u hn k h = seg_ok s hn k h"
    "seg_ok s hn k h \<Longrightarrow> loads s h \<Longrightarrow> seg_byte u k h a = seg_byte s k h a"
proof -
  note r = rest_kept_hrd [OF assms(1,2)]
  have w: "hword u (h + j) = hword s (h + j)" if "j \<le> 28" for j
    by (rule hword_cong [OF r], assumption) (use that assms(3) in linarith)
  have w0: "hword u h = hword s h" using w [of 0] by simp
  show l: "loads u h = loads s h" using w w0 by (simp add: loads_def)
  show st: "seg_start u h = seg_start s h" and len: "seg_length u h = seg_length s h"
    using w by (simp_all add: seg_start_def seg_length_def)
  then show "seg_page u h = seg_page s h" "seg_pages u h = seg_pages s h" "seg_flags u h = seg_flags s h"
    using w by (simp_all add: seg_page_def seg_pages_def seg_flags_def)
  show "seg_ok u hn k h = seg_ok s hn k h" using w l st len by (simp add: seg_ok_def)
  assume "seg_ok s hn k h" "loads s h"
  then have fits: "k + unat (hword s (h + 4)) + seg_length s h \<le> 4096 * hn" by (simp add: seg_ok_def)
  have "hbyte u (k + unat (hword s (h + 4)) + (a - seg_start s h)) = hbyte s (k + unat (hword s (h + 4)) + (a - seg_start s h))"
    if "seg_start s h \<le> a" "a < seg_start s h + seg_length s h"
    by (rule hbyte_cong [OF r], assumption) (use that fits in linarith)
  then show "seg_byte u k h a = seg_byte s k h a" using w st len by (simp add: seg_byte_def)
qed

lemma seg_loaded_cong:
  assumes "heap_mapped s hn" and "rest_kept S hn s u" and "h + 32 \<le> 4096 * hn" and "seg_ok s hn k h" and "loads s h"
  shows "seg_loaded u k h t = seg_loaded s k h t"
  using header_cong [OF assms(1-3)] assms(4,5) by (simp add: seg_loaded_def)

lemma seg_loaded_kept:
  assumes ok: "vm_ok u" and l: "seg_loaded s k h u" and r: "rest_kept S hn u t"
    and dis: "S \<inter> {seg_page s h..<seg_page s h + seg_pages s h} = {}"
  shows "seg_loaded s k h t"
proof -
  let ?P = "seg_page s h" and ?n = "seg_pages s h"
  have m: "umapped u ?P ?n" using l unfolding seg_loaded_def by (rule conjunct1)
  then have b: "?P + ?n \<le> 786432" by (simp add: umapped_def)
  have pg: "upte t p = upte u p" "uframe t p = uframe u p" if p: "p \<in> {?P..<?P + ?n}" for p
  proof -
    have "p div 1024 * 1024 + p mod 1024 \<notin> S" "p div 1024 < 1023" using dis p b by auto
    then show "upte t p = upte u p"
      using r same_dirs_dirs(4) [of u t] cur_dir_in [OF vm_okD(1) [OF ok]] by (simp add: rest_kept_def upte_def)
    then show "uframe t p = uframe u p" by (simp add: uframe_def)
  qed
  have dk: "data_kept u t" using r by (simp add: rest_kept_def)
  have "inj_on (uframe t) {?P..<?P + ?n} = inj_on (uframe u) {?P..<?P + ?n}" by (rule inj_on_cong) (rule pg(2))
  moreover have "present (upte t p) \<and> uframe t p \<in> data_frames t" if "p \<in> {?P..<?P + ?n}" for p
    using m dk that unfolding umapped_def data_kept_def pg [OF that] by blast
  ultimately have mt: "umapped t ?P ?n" using m unfolding umapped_def by blast
  have "ubyte t a = ubyte u a" if "in_pages ?P ?n a" for a
  proof -
    note p = in_pagesD [OF that]
    have "uframe u (a div 4096) \<in> data_frames u" using m p by (simp add: umapped_def)
    then show ?thesis using dk by (simp add: ubyte_def pg(2) [OF p] data_kept_def)
  qed
  moreover have "\<forall>p\<in>{?P..<?P + ?n}. upte t p = pte_of (of_nat (uframe t p) * 4096) (seg_flags s h)"
    using l pg by (simp add: seg_loaded_def)
  ultimately show ?thesis using l mt unfolding seg_loaded_def by simp
qed

lemma rest_kept_refl: "vm_ok s \<Longrightarrow> heap_mapped s hn \<Longrightarrow> rest_kept S hn s s"
  by (simp add: rest_kept_def same_dirs_def)

lemma phdr_address: "haddr k + hword s (k + 28) + of_nat i * ucast (hhalf s (k + 42)) = haddr (phdr_at s k i)"
  by (simp add: phdr_at_def haddr_def)

lemma load_segment_spec:
  assumes ok: "vm_ok s" and off: "\<not> are_interrupts_enabled s" and hm: "heap_mapped s hn"
    and elf: "elf_header elf = haddr k" "elf_raw elf = haddr k" and k: "k + 52 \<le> 4096 * hn"
    and h: "h = phdr_at s k i" and seg: "seg_ok s hn k h" and room: "loads s h \<Longrightarrow> 2 * seg_pages s h \<le> free_count s"
  shows "\<exists>t. load_segment elf i s = Inr t \<and> rest_kept (load_pages s k i) hn s t \<and> (loads s h \<longrightarrow> seg_loaded s k h t) \<and>
    free_count s \<le> free_count t + 2 * card (load_pages s k i)"
proof -
  have hh: "h + 32 \<le> 4096 * hn" using seg by (simp add: seg_ok_def)
  have f: "e_phoff (elf_header elf) s = Inr (hword s (k + 28))" "e_phentsize (elf_header elf) s = Inr (hhalf s (k + 42))"
    using k by (simp_all add: e_phoff_def e_phentsize_def elf haddr_plus load32_heap [OF ok hm] load16_heap [OF ok hm])
  have g: "p_type (haddr h) s = Inr (hword s h)" "p_memsz (haddr h) s = Inr (hword s (h + 20))"
    "p_flags (haddr h) s = Inr (hword s (h + 24))" "p_vaddr (haddr h) s = Inr (hword s (h + 8))"
    using hh by (simp_all add: p_type_def p_memsz_def p_flags_def p_vaddr_def haddr_plus load32_heap [OF ok hm])
  have ld: "load_segment elf i s = (if loads s h
      then place_segment elf (haddr h) (segment_flags (hword s (h + 24))) (segment_pages (hword s (h + 8)) (hword s (h + 20))) s else Inr s)"
    by (simp add: load_segment_def Let_def f phdr_address g loads_def elf(2) flip: h)
  show ?thesis
  proof (cases "loads s h")
    case True
    from place_segment_spec [OF ok off hm seg True elf(2) room [OF True]] obtain t where
      t: "place_segment elf (haddr h) (segment_flags (hword s (h + 24))) (segment_pages (hword s (h + 8)) (hword s (h + 20))) s = Inr t"
        "seg_loaded s k h t" "rest_kept {seg_page s h..<seg_page s h + seg_pages s h} hn s t" "free_count s \<le> free_count t + 2 * seg_pages s h"
      by blast
    then show ?thesis unfolding ld using True by (simp add: load_pages_def Let_def flip: h)
  next
    case False
    then show ?thesis unfolding ld using rest_kept_refl [OF ok hm] by (simp add: load_pages_def Let_def flip: h)
  qed
qed

text \<open>After the first \<open>i\<close> segments.\<close>

definition loaded_upto :: "nat \<Rightarrow> nat \<Rightarrow> nat \<Rightarrow> 'a vm_state_scheme \<Rightarrow> 'a vm_state_scheme \<Rightarrow> bool" where
  "loaded_upto k hn i s u \<longleftrightarrow> rest_kept (\<Union>j<i. load_pages s k j) hn s u \<and>
     free_count s \<le> free_count u + 2 * (\<Sum>j<i. card (load_pages s k j)) \<and>
     (\<forall>j<i. loads s (phdr_at s k j) \<longrightarrow> seg_loaded s k (phdr_at s k j) u)"

lemma load_loop:
  assumes ok: "vm_ok s" and off: "\<not> are_interrupts_enabled s" and hm: "heap_mapped s hn"
    and elf: "elf_header elf = haddr k" "elf_raw elf = haddr k" and img: "image_ok s hn k"
    and room: "2 * (\<Sum>j<num_phdrs s k. card (load_pages s k j)) \<le> free_count s"
  shows "\<exists>t. for_res 0 (num_phdrs s k) (load_segment elf) s = Inr t \<and> loaded_upto k hn (num_phdrs s k) s t"
proof (rule for_res_rule)
  let ?N = "num_phdrs s k"
  show "loaded_upto k hn 0 s s" using rest_kept_refl [OF ok hm] by (simp add: loaded_upto_def)
  fix i u assume i: "i < ?N" and I: "loaded_upto k hn i s u"
  let ?h = "phdr_at s k i"
  have r: "rest_kept (\<Union>j<i. load_pages s k j) hn s u" using I by (simp add: loaded_upto_def)
  then have u: "vm_ok u" "same_dirs s u" "heap_mapped u hn" by (simp_all add: rest_kept_def)
  have off': "\<not> are_interrupts_enabled u" using off same_dirs_dirs(6) [OF u(2)] by simp
  have k: "k + 52 \<le> 4096 * hn" and seg: "j < ?N \<Longrightarrow> seg_ok s hn k (phdr_at s k j)" for j
    using img by (simp_all add: image_ok_def)
  have hh: "j < ?N \<Longrightarrow> phdr_at s k j + 32 \<le> 4096 * hn" for j using seg by (simp add: seg_ok_def)
  note hc = header_cong [OF hm r hh]
  have w: "hword u (k + 28) = hword s (k + 28)" "hhalf u (k + 42) = hhalf s (k + 42)"
    by (rule hword_cong [OF rest_kept_hrd [OF hm r]] hhalf_cong [OF rest_kept_hrd [OF hm r]], assumption, use k in linarith)+
  have ph: "phdr_at u k j = phdr_at s k j" for j by (simp add: phdr_at_def w)
  have lp: "load_pages u k i = load_pages s k i" using hc [OF i] by (simp add: load_pages_def ph Let_def)
  have cp: "loads s ?h \<Longrightarrow> card (load_pages s k i) = seg_pages s ?h" by (simp add: load_pages_def Let_def)
  have "2 * seg_pages u ?h \<le> free_count u" if "loads u ?h"
  proof -
    have "loads s ?h" using that hc(1) [OF i] by simp
    moreover have "(\<Sum>j<Suc i. card (load_pages s k j)) \<le> (\<Sum>j<?N. card (load_pages s k j))"
      by (rule sum_mono2) (use i in auto)
    ultimately show ?thesis using I room cp hc(5) [OF i] by (simp add: loaded_upto_def)
  qed
  from load_segment_spec [OF u(1) off' u(3) elf k ph [of i, symmetric] _ this] obtain t where
    t: "load_segment elf i u = Inr t" "rest_kept (load_pages s k i) hn u t" "loads u ?h \<longrightarrow> seg_loaded u k ?h t"
      "free_count u \<le> free_count t + 2 * card (load_pages s k i)"
    using hc(7) [OF i] seg [OF i] unfolding lp by blast
  have "rest_kept (\<Union>j<Suc i. load_pages s k j) hn s t"
    using rest_kept_trans [OF r t(2)] by (simp add: lessThan_Suc Un_commute)
  moreover have "seg_loaded s k (phdr_at s k j) t" if j: "j < Suc i" and l: "loads s (phdr_at s k j)" for j
  proof (cases "j = i")
    case True
    then show ?thesis using t(3) hc(1) [OF i] seg_loaded_cong [OF hm r hh [OF i] seg [OF i]] l by simp
  next
    case False
    then have j: "j < i" using j by simp
    have "load_pages s k i \<inter> load_pages s k j = {}" using img i j by (simp add: image_ok_def)
    then show ?thesis
      using seg_loaded_kept [OF u(1) _ t(2)] I j l by (simp add: loaded_upto_def load_pages_def Let_def)
  qed
  ultimately show "\<exists>t. load_segment elf i u = Inr t \<and> loaded_upto k hn (Suc i) s t"
    using I t(1,4) by (auto simp: loaded_upto_def)
qed simp

lemma seg_loaded_bytes:
  "seg_loaded s k h t \<Longrightarrow> in_pages (seg_page s h) (seg_pages s h) a \<Longrightarrow> load8 (of_nat a) t = Inr (seg_byte s k h a)"
  using load8_user [of t "seg_page s h" "seg_pages s h" a] by (simp add: seg_loaded_def)

lemma haddr_nonzero: "k < 536870912 \<Longrightarrow> haddr k \<noteq> 0"
  using unat_haddr [of k] by auto

lemma load_elf_executable_spec:
  assumes ok: "vm_ok s" and off: "\<not> are_interrupts_enabled s" and hm: "heap_mapped s hn"
    and elf: "elf_header elf = haddr k" "elf_raw elf = haddr k" and img: "image_ok s hn k"
    and room: "2 * (\<Sum>j<num_phdrs s k. card (load_pages s k j)) \<le> free_count s"
  shows "\<exists>t. load_elf_executable elf s = Inr (True, elf\<lparr>elf_entry := hword s (k + 24)\<rparr>, t) \<and> loaded_upto k hn (num_phdrs s k) s t"
proof -
  let ?elf = "elf\<lparr>elf_entry := hword s (k + 24)\<rparr>"
  have k: "k + 52 \<le> 4096 * hn" "hhalf s (k + 16) = 2" using img by (simp_all add: image_ok_def)
  have f: "e_type (haddr k) s = Inr 2" "e_entry (haddr k) s = Inr (hword s (k + 24))" "e_phnum (haddr k) s = Inr (hhalf s (k + 44))"
    using k by (simp_all add: e_type_def e_entry_def e_phnum_def haddr_plus load32_heap [OF ok hm] load16_heap [OF ok hm])
  have nz: "haddr k \<noteq> 0" using k(1) hm by (intro haddr_nonzero) (simp add: heap_mapped_def)
  obtain t where t: "for_res 0 (num_phdrs s k) (load_segment ?elf) s = Inr t" "loaded_upto k hn (num_phdrs s k) s t"
    using load_loop [OF ok off hm _ _ img room, of ?elf] elf by auto
  have "load_elf_executable elf s = Inr (True, ?elf, t)"
    using t(1) nz by (simp add: load_elf_executable_def elf f num_phdrs_def)
  with t(2) show ?thesis by blast
qed

section \<open>An image\<close>

definition hputs :: "(nat \<times> u32) list \<Rightarrow> 'a vm_state_scheme \<Rightarrow> 'a vm_state_scheme" where
  "hputs ws s = fold (\<lambda>(k, v). hput k v) ws s"

lemma hputs_facts:
  assumes "vm_ok s" and "heap_mapped s n" and "\<forall>(k, v)\<in>set ws. k < 4096 * n \<and> k mod 4 = 0" and "distinct (map fst ws)"
  shows "vm_ok (hputs ws s) \<and> heap_mapped (hputs ws s) n \<and> same_dirs s (hputs ws s) \<and> free_count (hputs ws s) = free_count s \<and>
    (\<forall>k. k < 4096 * n \<longrightarrow> k mod 4 = 0 \<longrightarrow> hrd (hputs ws s) k = (case map_of ws k of Some v \<Rightarrow> v | None \<Rightarrow> hrd s k))"
  using assms
proof (induction ws arbitrary: s)
  case Nil
  then show ?case by (simp add: hputs_def same_dirs_def)
next
  case (Cons w ws)
  obtain k v where w: "w = (k, v)" by (cases w)
  have k: "k < 4096 * n" "k mod 4 = 0" using Cons.prems(3) by (simp_all add: w)
  note h = hput_facts [OF Cons.prems(1,2) k(1), where v = v]
  have fc: "free_count (hput k v s) = free_count s" using h(3,4) by (simp add: free_count_def same_dirs_def)
  have IH: "vm_ok (hputs ws (hput k v s)) \<and> heap_mapped (hputs ws (hput k v s)) n \<and> same_dirs (hput k v s) (hputs ws (hput k v s)) \<and>
    free_count (hputs ws (hput k v s)) = free_count (hput k v s) \<and>
    (\<forall>j. j < 4096 * n \<longrightarrow> j mod 4 = 0 \<longrightarrow> hrd (hputs ws (hput k v s)) j = (case map_of ws j of Some v \<Rightarrow> v | None \<Rightarrow> hrd (hput k v s) j))"
    by (rule Cons.IH [OF h(1,2)]) (use Cons.prems(3,4) in auto)
  have e: "hputs (w # ws) s = hputs ws (hput k v s)" by (simp add: hputs_def w)
  have nk: "map_of ws k = None" using Cons.prems(4) by (auto simp: w map_of_eq_None_iff)
  have "hrd (hputs ws (hput k v s)) j = (case map_of (w # ws) j of Some v \<Rightarrow> v | None \<Rightarrow> hrd s j)"
    if "j < 4096 * n" "j mod 4 = 0" for j
  proof -
    have "j div 4 = k div 4 \<longleftrightarrow> j = k" using that(2) k(2) by (metis mult_div_mod_eq add_0_right)
    then show ?thesis using IH that h(6) [OF that(1)] nk by (auto simp: w split: option.split)
  qed
  with IH h(3) fc show ?case unfolding e by (auto simp: same_dirs_def)
qed

lemma hbyte_aligned:
  assumes "k mod 4 = 0" and "j < 4"
  shows "hbyte s (k + j) = ucast (drop_bit (8 * j) (hrd s k))"
proof -
  have m: "(k + j) mod 4 = j" "(k + j) div 4 = k div 4" using assms by presburger+
  have "hrd s (k + j) = hrd s k" using m(2) word_offset_eq [of "k + j" k] by (simp add: hrd_def)
  then show ?thesis by (simp only: hbyte_def m(1))
qed

lemma hword_aligned: "k mod 4 = 0 \<Longrightarrow> hword s k = hrd s k"
proof -
  assume k: "k mod 4 = 0"
  have b: "hbyte s k = ucast (hrd s k)" "hbyte s (k + 1) = ucast (drop_bit 8 (hrd s k))"
    "hbyte s (k + 2) = ucast (drop_bit 16 (hrd s k))" "hbyte s (k + 2 + 1) = ucast (drop_bit 24 (hrd s k))"
    using hbyte_aligned [OF k, of 0] hbyte_aligned [OF k, of 1] hbyte_aligned [OF k, of 2] hbyte_aligned [OF k, of 3]
    by (simp_all add: numeral_3_eq_3)
  show ?thesis
    unfolding hword_def hhalf_def b
  proof (rule bit_word_eqI)
    fix n :: nat
    assume "n < LENGTH(32)"
    consider "n < 8" | "8 \<le> n" "n < 16" | "16 \<le> n" "n < 24" | "24 \<le> n" by linarith
    then show "bit (ucast (ucast (ucast (hrd s k) :: u8) OR push_bit 8 (ucast (ucast (drop_bit 8 (hrd s k)) :: u8)) :: u16) OR
        push_bit 16 (ucast (ucast (ucast (drop_bit 16 (hrd s k)) :: u8) OR push_bit 8 (ucast (ucast (drop_bit 24 (hrd s k)) :: u8)) :: u16)) :: u32) n =
      bit (hrd s k) n"
      by cases (auto simp: bit_simps dest: bit_imp_le_length)
  qed
qed

lemma hhalf_aligned:
  assumes "k mod 4 = 0"
  shows "hhalf s k = ucast (hrd s k)" "hhalf s (k + 2) = ucast (drop_bit 16 (hrd s k))"
proof -
  have b: "hbyte s k = ucast (hrd s k)" "hbyte s (k + 1) = ucast (drop_bit 8 (hrd s k))"
    "hbyte s (k + 2) = ucast (drop_bit 16 (hrd s k))" "hbyte s (k + 2 + 1) = ucast (drop_bit 24 (hrd s k))"
    using hbyte_aligned [OF assms, of 0] hbyte_aligned [OF assms, of 1] hbyte_aligned [OF assms, of 2] hbyte_aligned [OF assms, of 3]
    by (simp_all add: numeral_3_eq_3)
  show "hhalf s k = ucast (hrd s k)" "hhalf s (k + 2) = ucast (drop_bit 16 (hrd s k))"
    unfolding hhalf_def b by (rule bit_word_eqI; auto simp: bit_simps dest: bit_imp_le_length)+
qed

definition example_words :: "(nat \<times> u32) list" where
  "example_words = [(64 + 16, 2), (64 + 24, 0x1004), (64 + 28, 52), (64 + 40, 0x200000), (64 + 44, 1),
     (116, 1), (116 + 4, 84), (116 + 8, 0x1004), (116 + 16, 4), (116 + 20, 8), (116 + 24, 5), (64 + 84, 0x11223344)]"

definition example_image :: kheap_state where
  "example_image = hputs example_words example_kheap"

definition example_elf :: elf_object where
  "example_elf = no_elf\<lparr>elf_header := haddr 64, elf_raw := haddr 64\<rparr>"

lemma example_image_facts:
  "vm_ok example_image" "\<not> are_interrupts_enabled example_image" "heap_mapped example_image 1" "7166 \<le> free_count example_image"
  "k < 4096 \<Longrightarrow> k mod 4 = 0 \<Longrightarrow> map_of example_words k = Some v \<Longrightarrow> hrd example_image k = v"
proof -
  have sp: "vm_ok example_kheap" "\<not> are_interrupts_enabled example_kheap" "heap_mapped example_kheap 1"
    using heap_chainD(1) [OF example_kheap_facts(2)] by (simp_all add: heap_space_def example_kheap_facts(3) heap_pages_def)
  have "\<forall>(k, v)\<in>set example_words. k < 4096 * 1 \<and> k mod 4 = 0" "distinct (map fst example_words)"
    by (simp_all add: example_words_def)
  note f = hputs_facts [OF sp(1,3) this, folded example_image_def]
  show "vm_ok example_image" "heap_mapped example_image 1" "7166 \<le> free_count example_image"
    using f example_kheap_facts(4) by simp_all
  show "\<not> are_interrupts_enabled example_image" using f sp(2) same_dirs_dirs(6) by blast
  show "k < 4096 \<Longrightarrow> k mod 4 = 0 \<Longrightarrow> map_of example_words k = Some v \<Longrightarrow> hrd example_image k = v"
    using f by auto
qed

lemma example_fields:
  "hword example_image 92 = 52" "hhalf example_image 106 = 32" "hhalf example_image 108 = 1" "hhalf example_image 80 = 2"
  "hword example_image 116 = 1" "hword example_image 120 = 84" "hword example_image 124 = 0x1004" "hword example_image 132 = 4"
  "hword example_image 136 = 8" "hword example_image 140 = 5" "hword example_image 88 = 0x1004"
  "hbyte example_image 148 = 0x44"
proof -
  note w = example_image_facts(5)
  show "hword example_image 92 = 52" "hword example_image 116 = 1" "hword example_image 120 = 84" "hword example_image 124 = 0x1004"
    "hword example_image 132 = 4" "hword example_image 136 = 8" "hword example_image 140 = 5" "hword example_image 88 = 0x1004"
    by (simp_all add: hword_aligned w example_words_def)
  show "hhalf example_image 108 = 1" "hhalf example_image 80 = 2"
    by (simp_all add: hhalf_aligned(1) w example_words_def)
  show "hhalf example_image 106 = 32" using hhalf_aligned(2) [of 104 example_image] w [of 104] by (simp add: example_words_def)
  show "hbyte example_image 148 = 0x44" using hbyte_aligned [of 148 0 example_image] w [of 148] by (simp add: example_words_def)
qed

lemma example_header:
  "num_phdrs example_image 64 = 1" "phdr_at example_image 64 0 = 116" "loads example_image 116" "seg_start example_image 116 = 4100"
  "seg_length example_image 116 = 4" "seg_page example_image 116 = 1" "seg_pages example_image 116 = 2"
  "load_pages example_image 64 0 = {1..<3}" "image_ok example_image 1 64"
proof -
  note f = example_fields
  show n: "num_phdrs example_image 64 = 1" and h: "phdr_at example_image 64 0 = 116" and l: "loads example_image 116"
    and st: "seg_start example_image 116 = 4100" and len: "seg_length example_image 116 = 4"
    by (simp_all add: num_phdrs_def phdr_at_def loads_def seg_start_def seg_length_def f PT_LOAD_def)
  show p: "seg_page example_image 116 = 1" by (simp add: seg_page_def st)
  show q: "seg_pages example_image 116 = 2" by (simp add: seg_pages_def f segment_pages_def CEIL_DIV_def)
  show "load_pages example_image 64 0 = {1..<3}" by (simp add: load_pages_def h l p q numeral_3_eq_3)
  show "image_ok example_image 1 64"
    using h by (simp add: image_ok_def n f seg_ok_def st len)
qed

section \<open>Property\<close>

text \<open>C6: Executables are loaded correctly. For an executable (type 2) whose image lies in the kernel
  heap at offset \<open>k\<close>, whose loadable segments describe bytes of the heap and lie below the kernel on
  different pages, and with twice as many free frames as pages, \<open>load_elf_executable\<close> succeeds and
  gives the entry point of the header. Every loadable segment is then in memory: its pages are
  mapped with the segment's permissions, and each byte of them is the byte of the file where the
  segment has one and zero elsewhere. Nothing else changes: no other page of any directory, and
  no frame that was in use.\<close>

theorem executable_loaded:
  assumes "vm_ok s" and "\<not> are_interrupts_enabled s" and "heap_mapped s hn"
    and "elf_header elf = haddr k" and "elf_raw elf = haddr k" and "image_ok s hn k"
    and "2 * (\<Sum>i<num_phdrs s k. card (load_pages s k i)) \<le> free_count s"
  shows "\<exists>t. load_elf_executable elf s = Inr (True, elf\<lparr>elf_entry := hword s (k + 24)\<rparr>, t) \<and> vm_ok t \<and> data_kept s t \<and>
    (\<forall>i<num_phdrs s k. let h = phdr_at s k i in loads s h \<longrightarrow>
       (\<forall>p\<in>load_pages s k i. upte t p = pte_of (of_nat (uframe t p) * 4096) (seg_flags s h)) \<and>
       (\<forall>a. in_pages (seg_page s h) (seg_pages s h) a \<longrightarrow> load8 (of_nat a) t = Inr (seg_byte s k h a))) \<and>
    (\<forall>d\<in>dir_frames s. \<forall>a<1023. \<forall>b<1024. \<not> (d = cur_dir s \<and> a * 1024 + b \<in> (\<Union>i<num_phdrs s k. load_pages s k i)) \<longrightarrow>
       pte_at t d a b = pte_at s d a b)"
proof -
  obtain t where t: "load_elf_executable elf s = Inr (True, elf\<lparr>elf_entry := hword s (k + 24)\<rparr>, t)"
      "loaded_upto k hn (num_phdrs s k) s t"
    using load_elf_executable_spec [OF assms] by blast
  have r: "rest_kept (\<Union>i<num_phdrs s k. load_pages s k i) hn s t"
    and l: "\<And>i. i < num_phdrs s k \<Longrightarrow> loads s (phdr_at s k i) \<Longrightarrow> seg_loaded s k (phdr_at s k i) t"
    using t(2) by (simp_all add: loaded_upto_def)
  have "\<forall>p\<in>load_pages s k i. upte t p = pte_of (of_nat (uframe t p) * 4096) (seg_flags s (phdr_at s k i))"
    if "i < num_phdrs s k" "loads s (phdr_at s k i)" for i
    using l [OF that] that(2) by (simp add: seg_loaded_def load_pages_def Let_def)
  then show ?thesis
    using t(1) r l seg_loaded_bytes unfolding rest_kept_def Let_def by (intro exI [of _ t]) blast
qed

theorem executable_loaded_witness:
  "\<exists>t. load_elf_executable example_elf example_image = Inr (True, example_elf\<lparr>elf_entry := 0x1004\<rparr>, t) \<and>
     load8 0x1004 t = Inr 0x44 \<and> load8 0x1003 t = Inr 0 \<and> load8 0x1008 t = Inr 0"
proof -
  note h = example_header
  have e: "elf_header example_elf = haddr 64" "elf_raw example_elf = haddr 64" by (simp_all add: example_elf_def)
  have room: "2 * (\<Sum>i<num_phdrs example_image 64. card (load_pages example_image 64 i)) \<le> free_count example_image"
    using example_image_facts(4) by (simp add: h)
  from executable_loaded [OF example_image_facts(1-3) e h(9) room] obtain t where
    t: "load_elf_executable example_elf example_image = Inr (True, example_elf\<lparr>elf_entry := hword example_image 88\<rparr>, t)"
    and b: "in_pages 1 2 a \<Longrightarrow> load8 (of_nat a) t = Inr (seg_byte example_image 64 116 a)" for a
    by (auto simp: h(1-7) Let_def)
  have "load8 0x1004 t = Inr 0x44" "load8 0x1003 t = Inr 0" "load8 0x1008 t = Inr 0"
    using b [of 4100] b [of 4099] b [of 4104] by (simp_all add: in_pages_def seg_byte_def h(4,5) example_fields)
  with t show ?thesis by (auto simp: example_fields)
qed

end
