(* ===== verification/Tables.thy ===== *)
theory Tables
  imports Start Desktop_Props Tasks_Props
begin

text \<open>
  The shape of the kernel's tables, and that every operation keeps it: each table has its declared
  length, a task in use carries the number of its slot, the slots not in use are cleared, the task
  counter counts the tasks in use, the idle task stays in slot 0, and the scheduler's position is a
  slot of the table. The operations of the kernel and of the desktop are taken in the order of the
  components; programs, system calls and interrupts follow in the theory of the running system.
\<close>

section \<open>The shape of the tables\<close>

definition pool_shape :: "mapping_pool \<Rightarrow> bool" where
  "pool_shape p \<longleftrightarrow> length (mappings p) = MAX_SHARED_MEMORY_MAPPINGS \<and> num p \<le> MAX_SHARED_MEMORY_MAPPINGS"

definition task_shape :: "nat \<Rightarrow> task \<Rightarrow> bool" where
  "task_shape i t \<longleftrightarrow> length (open_files t) = MAX_OPEN_FILES \<and> length (timers t) = MAX_TIMERS \<and>
     length (slibs t) = MAX_SHARED_LIBS_PER_TASK \<and> pool_shape (task_shmem t) \<and>
     task_id t = (if task_state t = TASK_STATE_DEAD then 0 else of_nat i + 1000)"

definition live :: "task list \<Rightarrow> nat set" where
  "live ts = {i. i < MAX_TASKS \<and> task_state (ts ! i) \<noteq> TASK_STATE_DEAD}"

text \<open>The counter may differ by \<open>d\<close> from the number of tasks in use while a task is created.\<close>

definition kern_tables :: "int \<Rightarrow> 'a kern_state_scheme \<Rightarrow> bool" where
  "kern_tables d s \<longleftrightarrow> length (tasks s) = MAX_TASKS \<and> (\<forall>i<MAX_TASKS. task_shape i (tasks s ! i)) \<and>
     task_state (tasks s ! 0) = TASK_STATE_IDLE \<and> num_tasks s = int (card (live (tasks s))) + d \<and>
     current_task s < MAX_TASKS \<and> current_task_index s = current_task s \<and>
     length (shmem s) = MAX_SHARED_MEMORY_OBJS \<and> pool_shape (kernel_shmem_mappings s)"

text \<open>An operation of the kernel keeps the shape, the set of tasks in use and the current task, and does
  not touch what the desktop adds.\<close>

definition kept :: "'a kern_state_scheme \<Rightarrow> 'a kern_state_scheme \<Rightarrow> bool" where
  "kept s t \<longleftrightarrow> (\<forall>d. kern_tables d s \<longrightarrow> kern_tables d t) \<and> live (tasks t) = live (tasks s) \<and>
     current_task t = current_task s \<and> kern_state.more t = kern_state.more s"

named_theorems keep "operations keep the shape of the tables"

lemma kept_refl [simp, intro]: "kept s s"
  by (simp add: kept_def)

lemma kept_trans: "kept s t \<Longrightarrow> kept t u \<Longrightarrow> kept s u"
  by (simp add: kept_def)

lemma no_pool_shape [simp]: "pool_shape (no_pool\<lparr>vaddr_start := a\<rparr>)" "pool_shape no_pool"
  by (simp_all add: pool_shape_def no_pool_def)

lemma no_task_shape [simp]: "task_shape i no_task" "task_state no_task = TASK_STATE_DEAD"
  by (simp_all add: task_shape_def no_task_def)

lemma pool_shape_vaddr_start [simp]: "pool_shape (p\<lparr>vaddr_start := a\<rparr>) = pool_shape p"
  by (simp add: pool_shape_def)

lemma root_not_dead [simp]: "TASK_STATE_IDLE \<noteq> TASK_STATE_DEAD" "TASK_STATE_READY \<noteq> TASK_STATE_DEAD" "TASK_STATE_DEAD \<noteq> TASK_STATE_READY"
  "TASK_STATE_WAIT_FOR_EVENT \<noteq> TASK_STATE_DEAD" "TASK_STATE_WAIT_FOR_REDRAW \<noteq> TASK_STATE_DEAD" "TASK_STATE_IDLE \<noteq> TASK_STATE_READY"
  by (simp_all add: task_states)

text \<open>Memory operations keep the tables as they are.\<close>

lemma kern_tables_heap:
  assumes "kheap_state.more t = kheap_state.more s"
  shows "kern_tables d t = kern_tables d s"
  by (simp add: kern_tables_def kern_ext [OF assms])

lemma kept_heap: "kheap_state.more t = kheap_state.more s \<Longrightarrow> kept s t"
  by (simp add: kept_def kern_tables_heap [of t s] kern_ext(3,5,9) [of t s])

lemma kept_cpu: "cpu_state.more t = cpu_state.more s \<Longrightarrow> kept s (t :: 'a kern_state_scheme)"
  by (rule kept_heap) (cases t; cases s; simp)

lemmas kmalloc_kept [keep] = kmalloc_heap [THEN kept_heap]
lemmas kfree_kept [keep] = kfree_heap [THEN kept_heap]
lemmas vstore_kept [keep] = vstore_heap [THEN kept_heap]
lemmas pmm_alloc_kept [keep] = pmm_alloc_heap [THEN kept_heap]
lemmas pmm_free_kept [keep] = pmm_free_vm [THEN heap_more, THEN kept_heap]
lemmas map_page_kept [keep] = map_page_heap [THEN kept_heap]
lemmas unmap_page_kept [keep] = unmap_page_heap [THEN kept_heap]
lemmas change_dir_kept [keep] = change_dir_frame [THEN heap_more, THEN kept_heap]
lemmas free_page_dir_kept [keep] = free_page_dir_frame [THEN heap_more, THEN kept_heap]

lemma push_cli_kept [simp]: "kept s (push_cli s)"
  by (rule kept_cpu) simp

lemma pop_cli_kept [keep]: "pop_cli s = Inr t \<Longrightarrow> kept s t"
  by (rule kept_cpu) (auto simp: pop_cli_def Let_def res_eq_Inr split: if_splits)

lemma outb_kept [simp]: "kept s (outb p v s)"
  by (rule kept_cpu) (simp add: outb_def)

lemma interrupts_kept [simp]: "kept s (disable_interrupts s)" "kept s (enable_interrupts s)"
  by (rule kept_cpu, simp add: disable_interrupts_def enable_interrupts_def)+

lemma outbs_kept [simp]: "kept s (fold (\<lambda>(p, v). outb p v) ports s)"
proof (induction ports arbitrary: s)
  case (Cons a ports)
  show ?case using kept_trans [OF outb_kept Cons.IH] by (simp add: case_prod_beta)
qed simp

lemma field_kept [simp]:
  "kept s (s\<lparr>event_bufs := b\<rparr>)" "kept s (s\<lparr>pit_ticks := n\<rparr>)" "kept s (s\<lparr>pit_enabled := e\<rparr>)" "kept s (s\<lparr>pit_freq := f\<rparr>)"
  "kept s (s\<lparr>tss_esp0 := p\<rparr>)" "kept s (s\<lparr>cr3 := c\<rparr>)"
  by (simp_all add: kept_def kern_tables_def)

lemma shmem_kept [simp]: "kept s (s\<lparr>shmem := (shmem s)[i := x]\<rparr>)"
  by (simp add: kept_def kern_tables_def)

text \<open>Loops.\<close>

lemma for_res_kept:
  assumes "for_res lo hi body s = Inr t" and step: "\<And>i u v. body i u = Inr v \<Longrightarrow> kept u v"
  shows "kept s t"
proof (cases "lo \<le> hi")
  case True
  show ?thesis
    by (rule for_res_inv [where I = "\<lambda>i. kept s", OF assms(1) True kept_refl]) (use step kept_trans in blast)
qed (use assms(1) in simp)

lemma for_run_kept:
  assumes "for_run lo hi body s = Some (Inr t)" and step: "\<And>i u v. body i u = Some (Inr v) \<Longrightarrow> kept u v"
  shows "kept s t"
  using assms(1)
proof (induction "hi - lo" arbitrary: lo s)
  case (Suc n)
  then obtain u where u: "body lo s = Some (Inr u)" "for_run (Suc lo) hi body u = Some (Inr t)"
    by (auto simp: for_run_step run_then_eq_Some_Inr)
  have "kept u t" using Suc.hyps(1) [of "Suc lo" u] Suc.hyps(2) u(2) by simp
  with step [OF u(1)] show ?case by (rule kept_trans)
qed simp

text \<open>Updates of a task.\<close>

lemma upd_task_kept:
  assumes shape: "task_shape i (tasks s ! i) \<Longrightarrow> task_shape i (f (tasks s ! i))"
    and alive: "(task_state (f (tasks s ! i)) = TASK_STATE_DEAD) = (task_state (tasks s ! i) = TASK_STATE_DEAD)"
    and idle: "i = 0 \<Longrightarrow> task_state (tasks s ! i) = TASK_STATE_IDLE \<Longrightarrow> task_state (f (tasks s ! i)) = TASK_STATE_IDLE"
  shows "kept s (upd_task i f s)"
proof -
  have "live ((tasks s)[i := f (tasks s ! i)]) = live (tasks s)"
    using alive by (cases "i < length (tasks s)") (auto simp: live_def nth_list_update list_update_beyond)
  moreover have "task_shape j ((tasks s)[i := f (tasks s ! i)] ! j)" if "task_shape j (tasks s ! j)" for j
    using that shape by (cases "i < length (tasks s)") (auto simp: nth_list_update list_update_beyond)
  ultimately show ?thesis using idle
    by (cases "i < length (tasks s)")
      (auto simp: kept_def kern_tables_def nth_list_update list_update_beyond kern_state.defs)
qed

text \<open>Changes of other fields than those of the shape.\<close>

lemma upd_field_kept [simp]:
  "kept s (upd_task i (\<lambda>t. t\<lparr>kesp := v\<rparr>) s)" "kept s (upd_task i (\<lambda>t. t\<lparr>event_shmem_id := v\<rparr>) s)"
  "kept s (upd_task i (\<lambda>t. t\<lparr>event_buffer := v\<rparr>) s)" "kept s (upd_task i (\<lambda>t. t\<lparr>task_name := n\<rparr>) s)"
  "kept s (upd_task i (\<lambda>t. t\<lparr>open_dir := e\<rparr>) s)" "kept s (upd_task i (\<lambda>t. t\<lparr>open_files := (open_files t)[k := x]\<rparr>) s)"
  "kept s (upd_task i (\<lambda>t. t\<lparr>slibs := (slibs t)[k := y]\<rparr>) s)" "kept s (upd_task i (\<lambda>t. t\<lparr>timers := (timers t)[k := g t]\<rparr>) s)"
  "kept s (upd_task i (\<lambda>t. t\<lparr>task_heap_start := v, task_heap_end := w\<rparr>) s)" "kept s (upd_task i (\<lambda>t. t\<lparr>task_heap_end := w\<rparr>) s)"
  by (rule upd_task_kept; simp add: task_shape_def)+

section \<open>Shared memory\<close>

lemma set_pool_kept:
  assumes "pool_shape (pool_at r s) \<Longrightarrow> pool_shape p"
  shows "kept s (set_pool r p s)"
proof (cases r)
  case Kernel_Pool
  with assms show ?thesis by (simp add: kept_def kern_tables_def)
next
  case (Task_Pool i)
  have "kept s (upd_task i (\<lambda>t. t\<lparr>task_shmem := p\<rparr>) s)"
    by (rule upd_task_kept) (use assms Task_Pool in \<open>simp_all add: task_shape_def\<close>)
  with Task_Pool show ?thesis by simp
qed

lemma insert_shape: "insert_into_pool oid objs p = Inr (m, q) \<Longrightarrow> pool_shape p \<Longrightarrow> pool_shape q"
  by (auto simp: insert_into_pool_def pool_shape_def Let_def res_eq_Inr)

lemma remove_shape: "remove_from_pool i p = Inr q \<Longrightarrow> pool_shape p \<Longrightarrow> pool_shape q"
  by (auto simp: remove_from_pool_def pool_shape_def res_eq_Inr)

lemma sharedmem_create_kept [keep]:
  assumes "sharedmem_create n tid s = Some (Inr (i, t))"
  shows "kept s t"
proof -
  have loop: "kept u v"
    if "for_res 0 k (\<lambda>i t. and_then (pmm_alloc_pageframe t) (\<lambda>(phys, t1). vstore (elem p i) phys t1)) u = Inr v" for k p u v
    using that by (rule for_res_kept) (auto simp: res_eq_Inr dest!: keep intro: kept_trans)
  from assms obtain p x y s2 where
      "kmalloc (CEIL_DIV n 0x1000 * 4) (s\<lparr>shmem := (shmem s)[i := x]\<rparr>) = Some (Inr (p, s2))"
      "kept (s2\<lparr>shmem := (shmem s2)[i := y]\<rparr>) t"
    by (auto simp: sharedmem_create_def Let_def run_then_eq_Some_Inr dest!: loop)
  then show ?thesis by (blast intro: kept_trans shmem_kept kmalloc_kept)
qed

lemma in_task_dir_kept:
  assumes "in_task_dir tid body s = Inr t" and "\<And>u v. body u = Inr v \<Longrightarrow> kept u v"
  shows "kept s t"
  using assms(1) by (auto simp: in_task_dir_def Let_def res_eq_Inr split: if_splits dest!: assms(2) keep intro: kept_trans)

lemma sharedmem_map_kept [keep]:
  assumes "sharedmem_map i tid s = Inr (va, t)"
  shows "kept s t"
proof -
  have loop: "kept u v"
    if "for_res 0 k (\<lambda>i t. and_then (vload (elem p i) t) (\<lambda>phys. mem_map_page (w + of_nat i * 0x1000) phys flags t)) u = Inr v"
    for k p w flags u v
    using that by (rule for_res_kept) (auto simp: res_eq_Inr dest!: keep)
  from assms obtain r m p where
      "insert_into_pool i (shmem s) (pool_at r s) = Inr (m, p)" "kept (set_pool r p s) t"
    unfolding sharedmem_map_def verify_interrupts_disabled_def Let_def
    by (auto simp: res_eq_Inr simp del: of_nat_mult dest!: in_task_dir_kept [OF _ loop])
  then show ?thesis by (blast intro: kept_trans set_pool_kept insert_shape)
qed

lemma sharedmem_unmap_kept [keep]:
  assumes "sharedmem_unmap i tid s = Inr t"
  shows "kept s t"
proof -
  have loop: "kept u v"
    if "for_res 0 k (\<lambda>i t. and_then (mem_unmap_page (w + 0x1000 * of_nat i) t) (\<lambda>(pte, t1). Inr t1)) u = Inr v" for k w u v
    using that by (rule for_res_kept) (auto simp: res_eq_Inr dest!: keep)
  from assms obtain r p s1 w k j where
    "in_task_dir tid (for_res 0 k (\<lambda>i t. and_then (mem_unmap_page (w + 0x1000 * of_nat i) t) (\<lambda>(pte, t1). Inr t1))) s = Inr s1"
    and p: "remove_from_pool j (pool_at r s1) = Inr p" and t: "t = set_pool r p s1"
    unfolding sharedmem_unmap_def verify_interrupts_disabled_def res_eq_Inr Let_def
    by (auto simp: res_eq_Inr split: option.splits)
  from in_task_dir_kept [OF this(1) loop] have "kept s s1" .
  moreover have "kept s1 t" unfolding t by (rule set_pool_kept) (rule remove_shape [OF p])
  ultimately show ?thesis by (rule kept_trans)
qed

lemma unmap_pool_kept [keep]: "unmap_pool oid tid r i s = Inr t \<Longrightarrow> kept s t"
proof (induction oid tid r i s rule: unmap_pool.induct)
  case (1 oid tid r i s)
  show ?case
  proof (cases "i < num (pool_at r s) \<and> i < MAX_SHARED_MEMORY_MAPPINGS")
    case True
    note i = this
    show ?thesis
    proof (cases "mapped_obj (mappings (pool_at r s) ! i) = oid")
      case True
      with 1(3) i obtain u where u: "sharedmem_unmap oid tid s = Inr u" "unmap_pool oid tid r (Suc i) u = Inr t"
        by (subst (asm) unmap_pool.simps) (auto simp: res_eq_Inr)
      show ?thesis using 1(1) [OF _ _ True u(2)] i sharedmem_unmap_kept [OF u(1)] by (blast intro: kept_trans)
    next
      case False
      with 1(3) i have "unmap_pool oid tid r (Suc i) s = Inr t" by (subst (asm) unmap_pool.simps) simp
      then show ?thesis using 1(2) i False by blast
    qed
  next
    case False
    with 1(3) show ?thesis by (subst (asm) unmap_pool.simps) (auto split: if_splits)
  qed
qed

lemma sharedmem_destroy_kept [keep]:
  assumes "sharedmem_destroy oid s = Some (Inr t)"
  shows "kept s t"
proof -
  have pools: "kept u v"
    if "for_res 0 MAX_TASKS (\<lambda>t u. if task_state (tasks u ! t) = TASK_STATE_DEAD then Inr u
          else unmap_pool oid (task_id (tasks u ! t)) (Task_Pool t) 0 u) u = Inr v" for u v :: "'a kern_state_scheme"
    using that by (rule for_res_kept) (auto split: if_splits dest: keep)
  have frames: "kept u v"
    if "for_res 0 k (\<lambda>i u. and_then (vload (elem p i) u) (\<lambda>phys. pmm_free_pageframe phys u)) u = Inr v"
    for k p and u v :: "'a kern_state_scheme"
    using that by (rule for_res_kept) (auto simp: res_eq_Inr dest: keep)
  from assms obtain s1 s2 s3 s4 where "kept s s1" "kept s1 s2" "kept s2 s3" "kept s3 s4"
      "t = s4\<lparr>shmem := (shmem s4)[unat oid := no_shmem]\<rparr>"
    unfolding sharedmem_destroy_def Let_def run_then_eq_Some_Inr
    by (auto simp: verify_interrupts_disabled_def res_eq_Inr dest!: pools frames keep)
  then show ?thesis by (blast intro: kept_trans shmem_kept)
qed

section \<open>Tasks\<close>

lemma live_update:
  assumes "length ts = MAX_TASKS" and "i < MAX_TASKS"
  shows "live (ts[i := x]) = (if task_state x = TASK_STATE_DEAD then live ts - {i} else insert i (live ts))"
  using assms by (auto simp: live_def nth_list_update)

lemma finite_live [simp]: "finite (live ts)"
  by (simp add: live_def)

text \<open>A slot is taken, or cleared.\<close>

lemma take_slot:
  assumes "kern_tables d s" and "i < MAX_TASKS" and "i \<notin> live (tasks s)" and "task_shape i x" and "task_state x \<noteq> TASK_STATE_DEAD"
  shows "kern_tables (d - 1) (upd_task i (\<lambda>_. x) s)"
proof -
  have "i \<noteq> 0" using assms(1-3) by (cases "i = 0") (simp_all add: kern_tables_def live_def)
  moreover have "card (insert i (live (tasks s))) = card (live (tasks s)) + 1" using assms(3) by simp
  moreover have "live ((tasks s)[i := x]) = insert i (live (tasks s))"
    using assms(1,2,5) by (simp add: live_update kern_tables_def)
  ultimately show ?thesis using assms(1,2,4)
    by (auto simp: kern_tables_def nth_list_update upd_task_def)
qed

lemma clear_slot:
  assumes "kern_tables d s" and "i < MAX_TASKS" and "i \<in> live (tasks s)" and "i \<noteq> 0"
  shows "kern_tables (d + 1) (upd_task i (\<lambda>_. no_task) s)"
proof -
  have "card (live (tasks s)) = Suc (card (live (tasks s) - {i}))"
    using card_Suc_Diff1 [OF finite_live assms(3)] by simp
  moreover have "live ((tasks s)[i := no_task]) = live (tasks s) - {i}"
    using assms(1,2) by (simp add: live_update kern_tables_def)
  ultimately show ?thesis using assms(1,2,4)
    by (auto simp: kern_tables_def nth_list_update upd_task_def)
qed

lemma kern_tables_num [simp]: "kern_tables d (s\<lparr>num_tasks := n\<rparr>) \<longleftrightarrow> kern_tables (num_tasks s - n + d) s"
  by (auto simp: kern_tables_def)

lemma vstores_kept [keep]: "vstores p ws s = Inr t \<Longrightarrow> kept s (t :: 'a kern_state_scheme)"
  unfolding vstores_def by (erule for_res_kept) (rule vstore_kept)

lemma create_task_tables:
  assumes run: "create_task isr_exit i eip k pd s = Some (Inr t)"
    and i: "i < MAX_TASKS" "i \<notin> live (tasks s)"
  shows "kern_tables d s \<Longrightarrow> kern_tables (d - 1) t" and "kern_state.more t = kern_state.more s" and "current_task t = current_task s"
proof -
  let ?s1 = "upd_task i (\<lambda>_. no_task) s"
  have s1: "kept s ?s1"
    by (rule upd_task_kept) (use i in \<open>auto simp: live_def\<close>)
  define f where "f block = (\<lambda>x :: task. x\<lparr>kesp0 := block + KERNEL_STACK_SIZE, kesp := block + KERNEL_STACK_SIZE - 76 - 20,
      task_id := of_nat i + 1000, task_state := TASK_STATE_READY, pagedir := pd, is_kernel_task := k,
      task_shmem := (task_shmem x)\<lparr>vaddr_start := USER_SHARED_MEMORY\<rparr>\<rparr>)" for block
  obtain block s2 s3 s4 where s2: "kmalloc KERNEL_STACK_SIZE ?s1 = Some (Inr (block, s2))"
    and s3: "vstores (block + KERNEL_STACK_SIZE - 76) (frame_words (initial_frame eip k)) s2 = Inr s3"
    and s4: "vstores (block + KERNEL_STACK_SIZE - 76 - 20) (context_words (initial_context isr_exit)) s3 = Inr s4"
    and t: "t = upd_task i (f block) s4"
    using run unfolding create_task_def Let_def f_def by (auto simp: run_then_eq_Some_Inr res_eq_Inr)
  have f: "task_shape i (f block no_task)" "task_state (f block no_task) \<noteq> TASK_STATE_DEAD"
    by (simp_all add: task_shape_def no_task_def f_def)
  have heap: "kheap_state.more v = kheap_state.more u" if "vstores p ws u = Inr v" for p ws and u v :: "'a kern_state_scheme"
    using that unfolding vstores_def by (rule for_res_frame) (rule vstore_heap)
  have same: "tasks s4 = tasks ?s1"
    using kern_ext(3) [OF kmalloc_heap [OF s2]] kern_ext(3) [OF heap [OF s3]] kern_ext(3) [OF heap [OF s4]] by simp
  have kept: "kept s s4"
    by (rule kept_trans [OF kept_trans [OF s1 kmalloc_kept [OF s2]] kept_trans [OF vstores_kept [OF s3] vstores_kept [OF s4]]])
  show "kern_tables (d - 1) t" if ok: "kern_tables d s"
  proof -
    have "upd_task i (f block) s4 = upd_task i (\<lambda>_. f block no_task) s4"
      using i ok by (simp add: upd_task_def same kern_tables_def)
    moreover have "kern_tables (d - 1) (upd_task i (\<lambda>_. f block no_task) s4)"
      by (rule take_slot) (use kept ok i f in \<open>auto simp: kept_def\<close>)
    ultimately show ?thesis by (simp add: t)
  qed
  show "kern_state.more t = kern_state.more s" "current_task t = current_task s" using kept by (simp_all add: t kept_def)
qed

text \<open>Operations that start or end a task keep the shape, but not the set of tasks in use.\<close>

definition safe :: "'a kern_state_scheme \<Rightarrow> 'a kern_state_scheme \<Rightarrow> bool" where
  "safe s t \<longleftrightarrow> (\<forall>d. kern_tables d s \<longrightarrow> kern_tables d t) \<and> current_task t = current_task s \<and> kern_state.more t = kern_state.more s"

lemma safe_trans: "safe s t \<Longrightarrow> safe t u \<Longrightarrow> safe s u"
  by (simp add: safe_def)

lemma kept_safe: "kept s t \<Longrightarrow> safe s t"
  by (simp add: kept_def safe_def)

lemma free_slot: "find_available_task_slot (tasks s) = Inr i \<Longrightarrow> i < MAX_TASKS \<and> i \<notin> live (tasks s)"
  by (simp add: task_slots.search_found live_def)

lemma kernel_task_tables:
  assumes "find_available_task_slot (tasks s) = Inr i"
    and "create_task isr_exit i func True pd (s\<lparr>num_tasks := num_tasks s + 1\<rparr>) = Some (Inr t)"
  shows "safe s t"
proof -
  have i: "i < MAX_TASKS" "i \<notin> live (tasks s)" using free_slot [OF assms(1)] by simp_all
  then show ?thesis
    using create_task_tables(1) [OF assms(2), of "d + 1" for d] create_task_tables(2,3) [OF assms(2)] by (simp add: safe_def)
qed

lemma create_kernel_task_safe: "create_kernel_task isr_exit func s = Some (Inr (tid, t)) \<Longrightarrow> safe s t"
  by (auto simp: create_kernel_task_def Let_def run_then_eq_Some_Inr intro: kernel_task_tables)

lemma create_named_kernel_task_safe: "create_named_kernel_task isr_exit func name s = Some (Inr t) \<Longrightarrow> safe s t"
  by (auto simp: create_named_kernel_task_def Let_def run_then_eq_Some_Inr
      intro: safe_trans [OF kernel_task_tables kept_safe [OF upd_field_kept(4)]])

lemma destroy_events_kept [keep]: "destroy_events_for_task i s = Some (Inr t) \<Longrightarrow> kept s t"
  by (auto simp: destroy_events_for_task_def run_then_eq_Some_Inr res_eq_Inr intro: kept_trans upd_field_kept(2) dest!: keep)

lemma kill_task_safe:
  assumes "kill_task tid s = Some (Inr t)"
  shows "safe s t"
proof (cases "tid \<le> 1000")
  case True
  with assms show ?thesis by (auto simp: kill_task_def Let_def intro: kept_safe)
next
  case big: False
  then obtain i where i: "get_task tid (push_cli s) = Inr i"
    using assms by (auto simp: kill_task_def Let_def run_then_eq_Some_Inr)
  have "i \<noteq> 0"
  proof
    assume "i = 0"
    then have "tid - 1000 = 0" using i by (simp add: get_task_def get_task_index_def res_eq_Inr unat_eq_0 [symmetric])
    then show False using big by simp
  qed
  have loop: "kept u v"
    if "for_run 0 MAX_SHARED_MEMORY_OBJS (\<lambda>i t. if owner_task_id (shmem t ! i) = tid then sharedmem_destroy (of_nat i) t else Some (Inr t)) u = Some (Inr v)"
    for u v :: "'a kern_state_scheme"
    using that by (rule for_run_kept) (auto split: if_splits dest: keep)
  show ?thesis
  proof (cases "task_state (tasks (push_cli s) ! i) = TASK_STATE_DEAD")
    case True
    with assms big i show ?thesis by (auto simp: kill_task_def Let_def intro: kept_safe)
  next
    case False
    with assms big i obtain s1 where s1: "(if \<not> is_kernel_task (tasks (push_cli s) ! i) then destroy_events_for_task i (push_cli s)
        else Some (Inr (push_cli s))) = Some (Inr s1)"
      and rest: "\<exists>s2 s3 s4. kept s1 s2 \<and> kept s2 s3 \<and> kept s3 s4 \<and>
        kept ((upd_task i (\<lambda>_. no_task) s4)\<lparr>num_tasks := num_tasks s4 - 1\<rparr>) t"
      unfolding kill_task_def Let_def by (auto simp: run_then_eq_Some_Inr simp del: if_split dest!: keep loop)
    have "kept (push_cli s) s1" using s1 by (auto split: if_splits dest: keep)
    moreover obtain s2 s3 s4 where k: "kept s1 s2" "kept s2 s3" "kept s3 s4"
      and t: "kept ((upd_task i (\<lambda>_. no_task) s4)\<lparr>num_tasks := num_tasks s4 - 1\<rparr>) t"
      using rest by blast
    ultimately have s4: "kept (push_cli s) s4" by (blast intro: kept_trans [OF kept_trans [OF _ k(1)] kept_trans [OF k(2,3)]])
    have "kern_tables d ((upd_task i (\<lambda>_. no_task) s4)\<lparr>num_tasks := num_tasks s4 - 1\<rparr>)" if "kern_tables d (push_cli s)" for d
    proof -
      have "kern_tables d s4" using that s4 by (simp add: kept_def)
      moreover have "i < MAX_TASKS" using i that by (auto simp: get_task_def res_eq_Inr kern_tables_def)
      moreover have "i \<in> live (tasks s4)" using s4 False \<open>i < MAX_TASKS\<close> by (simp add: kept_def live_def)
      ultimately have "kern_tables (d + 1) (upd_task i (\<lambda>_. no_task) s4)" using \<open>i \<noteq> 0\<close> by (intro clear_slot)
      then show ?thesis by (simp add: add.commute)
    qed
    then have "safe (push_cli s) ((upd_task i (\<lambda>_. no_task) s4)\<lparr>num_tasks := num_tasks s4 - 1\<rparr>)"
      using s4 by (simp add: safe_def kept_def)
    then show ?thesis by (rule safe_trans [OF kept_safe [OF push_cli_kept] safe_trans [OF _ kept_safe [OF t]]])
  qed
qed

section \<open>Scheduling, events and timers\<close>

lemma choose_next_slot:
  assumes "choose_next_task s = Some i" and "kern_tables d s"
  shows "i < MAX_TASKS" and "i \<in> live (tasks s)"
proof -
  have "i = 0 \<or> i < MAX_TASKS \<and> task_state (tasks s ! i) = TASK_STATE_READY"
    using assms(1) next_ready_sound by (auto simp: choose_next_task_def split: if_splits)
  then show "i < MAX_TASKS" "i \<in> live (tasks s)" using assms(2) by (auto simp: kern_tables_def live_def MAX_TASKS_def task_states)
qed

text \<open>Only the scheduler changes the current task. It keeps the shape as well.\<close>

lemma task_schedule_tables:
  assumes "task_schedule esp s = Some (e, t)" and "kern_tables d s"
  shows "kern_tables d t" and "current_task t \<in> live (tasks t)"
proof -
  obtain i where i: "choose_next_task s = Some i"
    and t: "t = snd (switch_context (current_task s) i esp (update_tss_esp0 (kesp0 (tasks s ! i)) (s\<lparr>current_task := i, current_task_index := i\<rparr>)))"
    using assms(1) by (auto simp: task_schedule_def Let_def)
  define u where "u = (update_tss_esp0 (kesp0 (tasks s ! i)) (s\<lparr>current_task := i, current_task_index := i\<rparr>))"
  have u: "kern_tables d u"
    using assms(2) choose_next_slot(1) [OF i assms(2)] by (simp add: u_def kern_tables_def update_tss_esp0_def)
  have k: "kept (upd_task (current_task s) (\<lambda>x. x\<lparr>kesp := esp\<rparr>) u) t" by (simp add: t switch_context_def Let_def u_def)
  with u show "kern_tables d t" using kept_trans [OF upd_field_kept(1) k] by (simp add: kept_def)
  have "live (tasks t) = live (tasks u)" using kept_trans [OF upd_field_kept(1) k] by (simp add: kept_def)
  moreover have "current_task t = i" by (simp add: t switch_context_def Let_def update_tss_esp0_def)
  ultimately show "current_task t \<in> live (tasks t)"
    using choose_next_slot(2) [OF i assms(2)] by (simp add: u_def update_tss_esp0_def)
qed

lemma task_schedule_more: "task_schedule esp s = Some (e, t) \<Longrightarrow> kern_state.more t = kern_state.more s"
  by (auto simp: task_schedule_def switch_context_def Let_def update_tss_esp0_def upd_task_def)

lemma wake_kept: "task_state (tasks s ! i) \<in> {TASK_STATE_WAIT_FOR_EVENT, TASK_STATE_WAIT_FOR_REDRAW} \<Longrightarrow>
    kept s (upd_task i (\<lambda>t. t\<lparr>task_state := TASK_STATE_READY\<rparr>) s)"
  by (rule upd_task_kept) (auto simp: task_shape_def task_states)

lemma send_event_kept [keep]:
  assumes "send_event_to_task tid e s = Inr t"
  shows "kept s t"
proof -
  from assms obtain i b where t: "t = (let s1 = s\<lparr>event_bufs := b\<rparr> in if task_state (tasks s1 ! i) = TASK_STATE_WAIT_FOR_EVENT
      then upd_task i (\<lambda>t. t\<lparr>task_state := TASK_STATE_READY\<rparr>) s1 else s1)"
    by (auto simp: send_event_to_task_def Let_def res_eq_Inr)
  show ?thesis
    unfolding t Let_def by (auto intro: kept_trans [OF field_kept(1) wake_kept])
qed

lemma check_timer_kept: "check_timer time i k s = Inr t \<Longrightarrow> kept s t"
  by (auto simp: check_timer_def Let_def res_eq_Inr split: if_splits dest!: keep intro: kept_trans upd_field_kept)

lemma check_event_timers_kept [keep]:
  assumes "check_event_timers s = Inr t"
  shows "kept s t"
proof -
  have row: "kept u v" if "for_res 0 MAX_TIMERS (check_timer time i) u = Inr v" for time i u and v :: "'a kern_state_scheme"
    using that by (rule for_res_kept) (rule check_timer_kept)
  show ?thesis
    using assms unfolding check_event_timers_def Let_def
    by (rule for_res_kept) (auto split: if_splits dest: row)
qed

lemma init_timer_kept [keep]: "init_timer f s = Inr t \<Longrightarrow> kept s t"
  by (auto simp: init_timer_def Let_def split: if_splits intro!: kept_trans [OF _ outb_kept] field_kept)

lemma handle_timer_kept:
  assumes "handle_timer_int esp s = Some (Inr (e, t))"
  shows "if pit_enabled s then \<exists>u. kept s u \<and> task_schedule esp u = Some (e, t) else kept s t"
proof (cases "pit_enabled s")
  case True
  with assms obtain s2 where s2: "check_event_timers (s\<lparr>pit_ticks := pit_ticks s + 1\<rparr>) = Inr s2" and t: "task_schedule esp s2 = Some (e, t)"
    by (auto simp: handle_timer_int_def Let_def run_then_eq_Some_Inr)
  have "kept s s2" using field_kept(2) check_event_timers_kept [OF s2] by (rule kept_trans)
  with True t show ?thesis by auto
next
  case False
  with assms show ?thesis by (auto simp: handle_timer_int_def)
qed

text \<open>A task that waits is in use and is not the idle task.\<close>

lemma wait_kept:
  assumes "current_task s \<noteq> 0" and "task_state (cur s) \<noteq> TASK_STATE_DEAD" and "st \<noteq> TASK_STATE_DEAD"
  shows "kept s (upd_task (current_task s) (\<lambda>t. t\<lparr>task_state := st\<rparr>) s)"
  by (rule upd_task_kept) (use assms in \<open>simp_all add: task_shape_def cur_def\<close>)

lemma task_wait_kept:
  assumes "task_wait_for_event esp s = Some (e, t)" and "current_task s \<noteq> 0" and "task_state (cur s) \<noteq> TASK_STATE_DEAD"
  shows "\<exists>u. kept s u \<and> task_schedule esp u = Some (e, t)"
  using wait_kept [OF assms(2,3), of TASK_STATE_WAIT_FOR_EVENT] assms(1) by (auto simp: task_wait_for_event_def)

lemma init_events_for_task_kept [keep]:
  assumes "init_events_for_task i s = Some (Inr t)"
  shows "kept s t"
proof -
  obtain oid s1 buffer s3 b where s1: "sharedmem_create 4100 0 s = Some (Inr (oid, s1))"
    and s3: "sharedmem_map (event_shmem_id (tasks (upd_task i (\<lambda>t. t\<lparr>event_shmem_id := of_nat oid\<rparr>) s1) ! i)) 0
        (upd_task i (\<lambda>t. t\<lparr>event_shmem_id := of_nat oid\<rparr>) s1) = Inr (buffer, s3)"
    and t: "t = upd_task i (\<lambda>t. t\<lparr>event_buffer := buffer\<rparr>) (s3\<lparr>event_bufs := b\<rparr>)"
    using assms unfolding init_events_for_task_def Let_def by (auto simp: run_then_eq_Some_Inr)
  show ?thesis unfolding t
    by (rule kept_trans [OF kept_trans [OF kept_trans [OF sharedmem_create_kept [OF s1] upd_field_kept(2)] sharedmem_map_kept [OF s3]]
          kept_trans [OF field_kept(1) upd_field_kept(3)]])
qed

lemma user_heap_page_kept:
  assumes "user_heap_page old i s = Inr t"
  shows "kept s (t :: 'a kern_state_scheme)"
proof -
  have zero: "kept u v" if "for_res lo hi (\<lambda>k t. vstore (elem w k) 0 t) u = Inr v" for lo hi w and u v :: "'a kern_state_scheme"
    using that by (rule for_res_kept) (rule vstore_kept)
  show ?thesis
    using assms by (auto simp: user_heap_page_def Let_def res_eq_Inr dest!: zero keep intro: kept_trans)
qed

lemma set_user_heap_end_kept [keep]:
  assumes "set_user_heap_end i e s = Inr t"
  shows "kept s t"
proof -
  have loop: "kept u v" if "for_res lo hi (user_heap_page w) u = Inr v" for lo hi w and u v :: "'a kern_state_scheme"
    using that by (rule for_res_kept) (rule user_heap_page_kept)
  show ?thesis using assms unfolding set_user_heap_end_def Let_def
    by (auto simp: res_eq_Inr split: if_splits dest!: loop intro: kept_trans [OF _ upd_field_kept(10)])
qed

section \<open>The tables of the desktop\<close>

definition tables_ok :: "int \<Rightarrow> 'a gui_state_scheme \<Rightarrow> bool" where
  "tables_ok d s \<longleftrightarrow> kern_tables d s \<and> length (windows s) = MAX_WINDOWS \<and> length (window_z_order s) = MAX_WINDOWS"

definition sound :: "'a gui_state_scheme \<Rightarrow> 'a gui_state_scheme \<Rightarrow> bool" where
  "sound s t \<longleftrightarrow> (\<forall>d. tables_ok d s \<longrightarrow> tables_ok d t) \<and> current_task t = current_task s"

text \<open>The scheduler has switched to another task after operations that keep the tables.\<close>

definition switched :: "'a gui_state_scheme \<Rightarrow> 'a gui_state_scheme \<Rightarrow> bool" where
  "switched s t \<longleftrightarrow> (\<exists>u esp e. sound s u \<and> task_schedule esp u = Some (e, t))"

named_theorems sounds "operations keep the tables of the desktop"

lemma sound_refl [simp, intro]: "sound s s"
  by (simp add: sound_def)

lemma sound_trans: "sound s t \<Longrightarrow> sound t u \<Longrightarrow> sound s u"
  by (simp add: sound_def)

lemma safe_sound: "safe s t \<Longrightarrow> sound s t"
  using gui_more [of t s] by (auto simp: safe_def sound_def tables_ok_def)

lemma sound_switched: "sound s t \<Longrightarrow> switched t u \<Longrightarrow> switched s u"
  unfolding switched_def by (blast intro: sound_trans)

lemma switched_tables:
  assumes "switched s t" and "tables_ok d s"
  shows "tables_ok d t" and "current_task t \<in> live (tasks t)"
proof -
  obtain u esp e where u: "tables_ok d u" and t: "task_schedule esp u = Some (e, t)"
    using assms by (auto simp: switched_def sound_def)
  note g = gui_more [OF task_schedule_more [OF t]] and k = task_schedule_tables [OF t, of d]
  show "tables_ok d t" "current_task t \<in> live (tasks t)" using u g k by (simp_all add: tables_ok_def)
qed

lemma kept_sound: "kept s t \<Longrightarrow> sound s t"
  by (rule safe_sound [OF kept_safe])

lemma gui_field_sound [simp]:
  "sound s (s\<lparr>graphics := c\<rparr>)" "sound s (s\<lparr>frontbuffer := p\<rparr>)" "sound s (s\<lparr>the_console := k\<rparr>)" "sound s (s\<lparr>holding_shift := b\<rparr>)"
  "sound s (s\<lparr>focused_window := w\<rparr>)" "sound s (s\<lparr>window_under_cursor := w, focused_window := w'\<rparr>)"
  "sound s (s\<lparr>window_under_cursor := w, inside_content := b\<rparr>)"
  "sound s (s\<lparr>currently_dragging_window := w\<rparr>)" "sound s (s\<lparr>the_gui := g\<rparr>)" "sound s (s\<lparr>the_mouse := m\<rparr>)"
  "sound s (s\<lparr>the_mouse := m, the_gui := g\<rparr>)" "sound s (s\<lparr>prev_mouse_left := b, prev_mouse_right := b'\<rparr>)"
  "sound s (s\<lparr>redraw_indicator := b\<rparr>)" "sound s (ask_redraw s)" "sound s (upd_window i f s)"
  "sound s (s\<lparr>window_z_order := (window_z_order s)[n := w], z_order_length := l\<rparr>)"
  by (simp_all add: sound_def tables_ok_def kern_tables_def ask_redraw_def upd_window_def)

lemmas kept_sounds [sounds] = keep [THEN kept_sound]

lemma on_graphics_sound [sounds]: "on_graphics f s = Some (Inr t) \<Longrightarrow> sound s t"
  by (auto simp: on_graphics_def run_then_eq_Some_Inr)

lemmas graphics_ops = graphics_fill_def graphics_fill_rect_def graphics_copy_rect_def graphics_draw_char_def
  graphics_draw_string_def graphics_draw_hline_def graphics_draw_vline_def

lemma copy_backbuffer_sound [sounds]: "graphics_copy_backbuffer s = Some (Inr t) \<Longrightarrow> sound s t"
  by (auto simp: graphics_copy_backbuffer_def Let_def split: if_splits)

lemma move_to_front_sound [sounds]: "move_window_to_front w s = Inr t \<Longrightarrow> sound s t"
  by (auto simp: move_window_to_front_def sound_def tables_ok_def kern_tables_def res_eq_Inr split: if_splits option.splits)

lemma remove_at_sound [sounds]:
  assumes "z_order_remove_at k s = Inr t"
  shows "sound s t"
proof -
  from assms obtain zs where zs: "for_res k (nat (z_order_length s)) (\<lambda>i zs. in_bounds (i + 1) MAX_WINDOWS (Inr (zs[i := zs ! (i + 1)])))
      (window_z_order s) = Inr zs"
    and t: "t = s\<lparr>window_z_order := zs, z_order_length := z_order_length s - 1\<rparr>"
    by (auto simp: z_order_remove_at_def res_eq_Inr)
  have "length zs = length (window_z_order s)" using zs by (rule for_res_frame) (auto simp: res_eq_Inr)
  then show ?thesis by (simp add: t sound_def tables_ok_def kern_tables_def)
qed

lemma window_buffer_sound [sounds]:
  assumes "window_buffer i n s = Some (Inr t)"
  shows "sound s t"
proof -
  obtain oid s1 fb s3 where s1: "sharedmem_create n 0 s = Some (Inr (oid, s1))"
    and s3: "sharedmem_map (scast (fb_shmem_id (windows (upd_window i (\<lambda>w. w\<lparr>fb_shmem_id := of_nat oid\<rparr>) s1) ! i))) 0
        (upd_window i (\<lambda>w. w\<lparr>fb_shmem_id := of_nat oid\<rparr>) s1) = Inr (fb, s3)"
    and t: "t = upd_window i (\<lambda>w. w\<lparr>win_framebuffer := fb\<rparr>) s3"
    using assms by (auto simp: window_buffer_def Let_def run_then_eq_Some_Inr)
  note step = sound_trans [OF kept_sound [OF sharedmem_create_kept [OF s1]] gui_field_sound(15)]
  show ?thesis unfolding t
    by (rule sound_trans [OF sound_trans [OF step kept_sound [OF sharedmem_map_kept [OF s3]]] gui_field_sound(15)])
qed

text \<open>A chain of operations and field updates.\<close>

lemma sound_upd:
  "sound s t \<Longrightarrow> sound s (upd_window i f t)" "sound s t \<Longrightarrow> sound s (ask_redraw t)"
  "sound s t \<Longrightarrow> sound s (t\<lparr>focused_window := w\<rparr>)" "sound s t \<Longrightarrow> sound s (t\<lparr>the_gui := g\<rparr>)"
  "sound s t \<Longrightarrow> sound s (t\<lparr>the_console := c\<rparr>)" "sound s t \<Longrightarrow> sound s (t\<lparr>redraw_indicator := b\<rparr>)"
  "sound s t \<Longrightarrow> sound s (t\<lparr>currently_dragging_window := w\<rparr>)"
  "sound s t \<Longrightarrow> sound s (t\<lparr>prev_mouse_left := b, prev_mouse_right := b'\<rparr>)"
  "sound s t \<Longrightarrow> sound s (fold (\<lambda>(p, v). outb p v) ports t)" "sound s t \<Longrightarrow> sound s (push_cli t)"
  by (blast intro: sound_trans gui_field_sound kept_sound outbs_kept push_cli_kept)+

lemma sound_after: "sound t u \<Longrightarrow> sound s t \<Longrightarrow> sound s u"
  by (rule sound_trans)

lemma create_window_sound [sounds]:
  assumes "create_window width height flags s = Some (Inr (i, t))"
  shows "sound s t"
proof -
  from assms obtain f s2 g s5 where s2: "window_buffer i (of_int (width * height * 4) * buffer_count flags) (upd_window i f s) = Some (Inr s2)"
    and s5: "sound ((upd_window i g s2)\<lparr>window_z_order := (window_z_order (upd_window i g s2))[nat (z_order_length (upd_window i g s2)) := int i],
        z_order_length := z_order_length (upd_window i g s2) + 1\<rparr>) s5"
    and t: "t = ask_redraw (s5\<lparr>focused_window := int i\<rparr>)"
    unfolding create_window_def Let_def by (auto simp: run_then_eq_Some_Inr split: if_splits dest!: move_to_front_sound)
  have "sound s (upd_window i g s2)"
    using sound_after [OF window_buffer_sound [OF s2] gui_field_sound(15)] by (rule sound_upd)
  from sound_trans [OF sound_trans [OF this gui_field_sound(16)] s5] show ?thesis unfolding t by (intro sound_upd)
qed

lemma resize_window_sound [sounds]:
  assumes "resize_window wid width height s = Some (Inr t)"
  shows "sound s t"
proof -
  from assms obtain i f s2 s3 s4 where s2: "sound (upd_window i f s) s2" and s3: "sound s2 s3" and s4: "sound s3 s4"
    and t: "t = ask_redraw s4"
    unfolding resize_window_def Let_def by (auto simp: run_then_eq_Some_Inr dest!: sounds)
  show ?thesis unfolding t
    by (intro sound_upd) (rule sound_trans [OF sound_trans [OF gui_field_sound(15) s2] sound_trans [OF s3 s4]])
qed

lemma destroy_window_sound [sounds]:
  assumes "destroy_window wid s = Some (Inr t)"
  shows "sound s t"
proof -
  from assms obtain i s1 s3 where s1: "sound s s1" and t: "t = ask_redraw s3"
    and rest: "(case z_order_find_index wid (upd_window i (\<lambda>_. no_window) s1) of None \<Rightarrow> Inr (upd_window i (\<lambda>_. no_window) s1)
      | Some index \<Rightarrow> z_order_remove_at index (upd_window i (\<lambda>_. no_window) s1)) = Inr s3"
    unfolding destroy_window_def Let_def by (auto simp: run_then_eq_Some_Inr simp del: option.case_eq_if dest!: sounds)
  have s3: "sound (upd_window i (\<lambda>_. no_window) s1) s3" using rest by (auto split: option.splits dest: sounds)
  show ?thesis unfolding t by (intro sound_upd) (rule sound_trans [OF sound_upd(1) [OF s1] s3])
qed

lemma set_title_sound [sounds]: "set_title wid text s = Inr t \<Longrightarrow> sound s t"
  by (auto simp: set_title_def res_eq_Inr split: option.splits)

lemma signal_redraw_sound [sounds]:
  assumes "signal_redraw tid s = Inr t"
  shows "sound s t"
proof -
  from assms obtain i where "pop_cli (if task_state (tasks (push_cli s) ! i) = TASK_STATE_WAIT_FOR_REDRAW
      then upd_task i (\<lambda>t. t\<lparr>task_state := TASK_STATE_READY\<rparr>) (push_cli s) else push_cli s) = Inr t"
    by (auto simp: signal_redraw_def Let_def res_eq_Inr)
  then have "kept (push_cli s) t"
    by (auto split: if_splits dest!: keep intro: kept_trans [OF wake_kept])
  then show ?thesis by (rule kept_sound [OF kept_trans [OF push_cli_kept]])
qed

section \<open>Drawing\<close>

lemma swap_buffers_sound:
  assumes "swap_buffers wid esp s = Some (Inr r)"
  shows "(\<exists>v t. r = Returned v t \<and> t = ask_redraw s) \<or> (\<exists>e t. r = Switched e t \<and> switched s t)"
proof -
  from assms obtain i where
      "(r = Returned (ucast (shown_buffer (windows (ask_redraw s) ! i))) (ask_redraw s)) \<or>
       (let s2 = upd_window i (\<lambda>w. w\<lparr>shown_buffer := shown_buffer w XOR 1\<rparr>) (ask_redraw s) in
        task_state (cur s2) = TASK_STATE_READY \<and>
        (\<exists>e t. r = Switched e t \<and> task_schedule esp (upd_task (current_task s2) (\<lambda>t. t\<lparr>task_state := TASK_STATE_WAIT_FOR_REDRAW\<rparr>) s2) = Some (e, t)))"
    by (auto simp: swap_buffers_def Let_def run_then_eq_Some_Inr res_eq_Inr split: if_splits)
  moreover have "switched s t"
    if "task_state (cur s2) = TASK_STATE_READY" and s2: "s2 = upd_window i f (ask_redraw s)"
      and t: "task_schedule esp (upd_task (current_task s2) (\<lambda>t. t\<lparr>task_state := TASK_STATE_WAIT_FOR_REDRAW\<rparr>) s2) = Some (e, t)"
    for s2 f e t
  proof -
    let ?s3 = "upd_task (current_task s2) (\<lambda>t. t\<lparr>task_state := TASK_STATE_WAIT_FOR_REDRAW\<rparr>) s2"
    have s3: "kept s2 ?s3"
      by (rule upd_task_kept) (use that(1) in \<open>simp_all add: task_shape_def cur_def\<close>)
    have "sound s s2" unfolding s2 by (intro sound_upd) simp
    then have "sound s ?s3" using kept_sound [OF s3] by (rule sound_trans)
    then show ?thesis using t unfolding switched_def by blast
  qed
  ultimately show ?thesis unfolding Let_def by blast
qed

lemma draw_window_sound [sounds]: "draw_window font i s = Some (Inr t) \<Longrightarrow> sound s t"
  by (auto simp: draw_window_def draw_window_bars_def draw_outline_def draw_window_buttons_def draw_grip_def graphics_ops
      Let_def run_then_eq_Some_Inr split: if_splits dest!: sounds; simp add: sound_def)

lemma draw_all_sound [sounds]: "draw_all font zs s = Some (Inr t) \<Longrightarrow> sound s t"
  by (induction zs arbitrary: s)
    (auto simp: run_then_eq_Some_Inr split: if_splits dest!: sounds, auto simp: sound_def)

lemma draw_windows_sound [sounds]: "draw_windows font s = Some (Inr t) \<Longrightarrow> sound s t"
  by (auto simp: draw_windows_def split: if_splits dest: sounds)

lemma for_run_rel:
  assumes "for_run lo hi body s = Some (Inr t)" and step: "\<And>i u v. body i u = Some (Inr v) \<Longrightarrow> R u v"
    and "\<And>u. R u u" and "\<And>u v w. R u v \<Longrightarrow> R v w \<Longrightarrow> R u w"
  shows "R s t"
  using assms(1)
proof (induction "hi - lo" arbitrary: lo s)
  case 0
  then show ?case using assms(3) by simp
next
  case (Suc n)
  then obtain u where u: "body lo s = Some (Inr u)" "for_run (Suc lo) hi body u = Some (Inr t)"
    by (auto simp: for_run_step run_then_eq_Some_Inr)
  have "R u t" using Suc.hyps(1) [of "Suc lo" u] Suc.hyps(2) u(2) by simp
  with step [OF u(1)] show ?case by (rule assms(4))
qed

lemma for_run_sound:
  assumes "for_run lo hi body s = Some (Inr t)" and "\<And>i u v. body i u = Some (Inr v) \<Longrightarrow> sound u v"
  shows "sound s t"
  using assms by (rule for_run_rel) (blast intro: sound_trans)+

lemma draw_console_sound [sounds]:
  assumes "draw_debug_console font color s = Some (Inr t)"
  shows "sound s t"
proof -
  have row: "sound u v" if "for_run 0 80 (\<lambda>x t. run_then (Some (get_byte (2 * (80 * y + x)) (the_console t))) (\<lambda>ch.
      graphics_draw_char font ch (int x * 10) (int y * 10) color t)) u = Some (Inr v)" for y and u v :: "'a gui_state_scheme"
    using that by (rule for_run_sound) (auto simp: run_then_eq_Some_Inr graphics_ops dest: sounds)
  show ?thesis using assms unfolding draw_debug_console_def by (rule for_run_sound) (rule row)
qed

text \<open>One step of a sequence.\<close>

lemma sound_run:
  assumes "run_then m f = Some (Inr t)" and "\<And>x. m = Some (Inr x) \<Longrightarrow> sound s x" and "\<And>x. f x = Some (Inr t) \<Longrightarrow> sound x t"
  shows "sound s t"
  using assms unfolding run_then_eq_Some_Inr by (blast intro: sound_trans)

lemma draw_frame_sound [sounds]:
  assumes "gui_draw_frame font cursor status s = Some (Inr t)"
  shows "sound s t"
proof -
  have last: "sound u t" if "run_then (graphics_draw_string font line 3 y 0 u) (\<lambda>s7.
     run_then (graphics_copy_rect (gui_cursor_x (the_gui s7)) (gui_cursor_y (the_gui s7)) 12 19 0 0 (image cursor) s7)
       graphics_copy_backbuffer) = Some (Inr t)" for u line y
    using that unfolding graphics_ops
    by (rule sound_run) (erule on_graphics_sound, erule sound_run, erule on_graphics_sound, erule copy_backbuffer_sound)
  show ?thesis
    using assms unfolding gui_draw_frame_def Let_def
    apply (rule sound_run)
     apply (simp add: graphics_ops on_graphics_sound)
    apply (erule sound_run, erule draw_console_sound)
    apply (erule sound_run, erule draw_windows_sound)
    apply (erule sound_run, simp add: graphics_ops on_graphics_sound)
    apply (erule sound_run, simp add: graphics_ops on_graphics_sound)
    apply (rule sound_trans [OF gui_field_sound(13)], erule last)
    done
qed

section \<open>Input\<close>

interpretation tables: desktop_relation sound
  by unfold_locales
    (auto intro: sound_trans kept_sound [OF kmalloc_kept] safe_sound [OF kill_task_safe] kept_sound [OF send_event_kept] kept_sound
      kept_sound [OF pop_cli_kept] move_to_front_sound destroy_window_sound)

lemma key_event_sound: "env_respects sound env \<Longrightarrow> handle_key_event env code s = Some (Inr t) \<Longrightarrow> sound s t"
  by (auto simp: handle_key_event_def split: sum.splits dest: tables.dispatched)

lemma mouse_sound: "handle_mouse_interrupt b s = Inr t \<Longrightarrow> sound s t"
  by (auto simp: handle_mouse_interrupt_def res_eq_Inr)

lemma move_cursor_sound: "sound s (move_cursor s)"
  by (simp add: move_cursor_def Let_def)

lemma gui_events_sound:
  assumes env: "env_respects sound env" and run: "gui_handle_events env s = Some (Inr t)"
  shows "sound s t"
proof -
  obtain s1 s2 where 1: "look_under_cursor (move_cursor s) = Inr s1" and 2: "handle_buttons env s1 = Some (Inr s2)"
    and 3: "report_motion env (s2\<lparr>the_gui := (the_gui s2)\<lparr>left_click := left_button (the_mouse s2),
       right_click := right_button (the_mouse s2)\<rparr>\<rparr>) = Some (Inr t)"
    using run unfolding gui_handle_events_def run_then_eq_Some_Inr by auto
  have "sound s s2"
    by (rule sound_trans [OF move_cursor_sound sound_trans [OF tables.looked [OF 1] tables.buttons_handled [OF env 2]]])
  then show ?thesis by (rule sound_trans [OF sound_upd(4) tables.reported [OF env 3]])
qed

lemma gui_round_sound:
  assumes env: "env_respects sound env" and run: "gui_round env font cursor status s = Some (Inr t)"
  shows "sound s t"
proof -
  from run obtain s1 s2 where s1: "(if needs_redraw (the_gui s)
        then gui_draw_frame font cursor status (s\<lparr>the_gui := (the_gui s)\<lparr>needs_redraw := False\<rparr>\<rparr>) else Some (Inr s)) = Some (Inr s1)"
    and s2: "gui_handle_events env (disable_interrupts s1) = Some (Inr s2)" and t: "t = enable_interrupts s2"
    unfolding gui_round_def run_then_eq_Some_Inr by auto
  have "sound s s1" using s1 by (auto split: if_splits intro: sound_trans [OF gui_field_sound(9) draw_frame_sound])
  then show ?thesis unfolding t
    by (rule sound_trans [OF _ sound_trans [OF kept_sound [OF interrupts_kept(1)] sound_trans [OF gui_events_sound [OF env s2] kept_sound [OF interrupts_kept(2)]]]])
qed

end
