(* ===== verification/System.thy ===== *)
theory System
  imports Tables User_Calls
begin

text \<open>
  The running system. Programs, libraries, system calls and interrupts keep the shape of the
  kernel's tables, and so does every execution: the steps of the system are interrupts, with
  the registers of the interrupted program, and rounds of the desktop.
\<close>

section \<open>Memory\<close>

lemma store8_frame [frame_dests]: "store8 a v s = Inr t \<Longrightarrow> vm_state.more t = vm_state.more s"
  by (auto simp: store8_def res_eq_Inr dest: frame_dests)

lemma store32_frame [frame_dests]: "store32 a v s = Inr t \<Longrightarrow> vm_state.more t = vm_state.more s"
  unfolding store32_def by (erule for_res_frame) (rule store8_frame)

lemma store_bytes_frame [frame_dests]: "store_bytes a bs s = Inr t \<Longrightarrow> vm_state.more t = vm_state.more s"
  unfolding store_bytes_def by (erule for_res_frame) (rule store8_frame)

lemma mem_set_frame [frame_dests]: "mem_set a v n s = Inr t \<Longrightarrow> vm_state.more t = vm_state.more s"
  unfolding mem_set_def by (erule for_res_frame) (rule store8_frame)

lemma mem_copy_frame [frame_dests]:
  assumes "mem_copy dest src n s = Inr t"
  shows "vm_state.more t = vm_state.more s"
proof -
  obtain u where u: "for_res 0 (unat (n div 4)) (\<lambda>i t. and_then (load32 (elem src i) t) (\<lambda>w. store32 (elem dest i) w t)) s = Inr u"
      "for_res 0 (unat (n mod 4)) (\<lambda>i t. and_then (load8 (src + 4 * of_nat (unat (n div 4)) + of_nat i) t)
        (\<lambda>b. store8 (dest + 4 * of_nat (unat (n div 4)) + of_nat i) b t)) u = Inr t"
    using assms unfolding mem_copy_def Let_def and_then_eq_Inr by blast
  show ?thesis
    by (rule trans [OF for_res_frame [OF u(2)] for_res_frame [OF u(1)]]) (auto simp: res_eq_Inr dest: frame_dests)
qed

lemma map_fresh_frame [frame_dests]: "map_fresh addr flags n s = Inr t \<Longrightarrow> vm_state.more t = vm_state.more s"
  unfolding map_fresh_def by (erule for_res_frame) (auto simp: res_eq_Inr dest!: frame_dests)

lemma share_pages_frame [frame_dests]: "share_pages a src flags n s = Inr t \<Longrightarrow> vm_state.more t = vm_state.more s"
  unfolding share_pages_def by (erule for_res_frame) (auto simp: res_eq_Inr dest!: frame_dests)

lemma place_segment_frame [frame_dests]: "place_segment elf seg flags pages s = Inr t \<Longrightarrow> vm_state.more t = vm_state.more s"
  by (auto simp: place_segment_def res_eq_Inr dest!: frame_dests)

lemma load_segment_frame [frame_dests]: "load_segment elf i s = Inr t \<Longrightarrow> vm_state.more t = vm_state.more s"
  by (auto simp: load_segment_def Let_def res_eq_Inr split: if_splits dest!: frame_dests)

lemma load_elf_frame [frame_dests]:
  assumes "load_elf_executable elf s = Inr (b, elf', t)"
  shows "vm_state.more t = vm_state.more s"
proof -
  have loop: "vm_state.more v = vm_state.more u" if "for_res 0 n (load_segment e) u = Inr v" for n e and u v :: "'a vm_state_scheme"
    using that by (rule for_res_frame) (rule load_segment_frame)
  show ?thesis using assms by (auto simp: load_elf_executable_def Let_def res_eq_Inr split: if_splits dest: loop)
qed

lemma load_program_frame [frame_dests]: "load_program elf s = Inr (r, t) \<Longrightarrow> vm_state.more t = vm_state.more s"
  by (auto simp: load_program_def res_eq_Inr split: if_splits dest!: frame_dests)

lemma map_user_stack_frame [frame_dests]: "map_user_stack s = Inr t \<Longrightarrow> vm_state.more t = vm_state.more s"
  unfolding map_user_stack_def by (erule for_res_frame) (auto simp: res_eq_Inr dest!: frame_dests)

lemma put_words_frame [simp]: "vm_state.more (fold (\<lambda>j. put_word f j v) js s) = vm_state.more s"
  by (induction js arbitrary: s) (simp_all add: put_word_def)

lemma alloc_page_dir_frame [frame_dests]: "mem_alloc_page_dir s = Inr (pd, t) \<Longrightarrow> vm_state.more t = vm_state.more s"
  by (auto simp: mem_alloc_page_dir_def verify_interrupts_disabled_def Let_def res_eq_Inr put_word_def split: option.splits)

lemma map_segment_frame [frame_dests]: "map_segment elf off i s = Inr t \<Longrightarrow> vm_state.more t = vm_state.more s"
  by (auto simp: map_segment_def Let_def res_eq_Inr split: if_splits dest!: frame_dests)

lemma kept_frame: "vm_state.more t = vm_state.more s \<Longrightarrow> kept s (t :: 'a kern_state_scheme)"
  by (rule kept_heap [OF heap_more])

text \<open>Operations of the kernel and of the volume keep the pointer of the desktop too.\<close>

definition quiet :: "'a gui_state_scheme \<Rightarrow> 'a gui_state_scheme \<Rightarrow> bool" where
  "quiet s t \<longleftrightarrow> sound s t \<and> same_pointer s t"

named_theorems quiets "operations keep the tables and the pointer"

lemma quiet_sound: "quiet s t \<Longrightarrow> sound s t"
  by (simp add: quiet_def)

lemma quiet_refl [simp, intro]: "quiet s s"
  by (simp add: quiet_def)

lemma quiet_trans: "quiet s t \<Longrightarrow> quiet t u \<Longrightarrow> quiet s u"
  unfolding quiet_def by (blast intro: sound_trans same_pointer_trans)

lemma kept_quiet: "kept s t \<Longrightarrow> quiet s t"
  by (simp add: quiet_def kept_sound same_pointer_kern kept_def)

lemma for_run_quiet:
  assumes "for_run lo hi body s = Some (Inr t)" and step: "\<And>i u v. body i u = Some (Inr v) \<Longrightarrow> quiet u v"
  shows "quiet s t"
  using assms by (rule for_run_rel) (blast intro: quiet_trans)+

lemmas kept_quiets [quiets] = keep [THEN kept_quiet]

lemmas memory_quiet [quiets] = frame_dests [THEN kept_frame, THEN kept_quiet]

section \<open>Libraries and programs\<close>

lemma machine_field_quiet [simp]:
  "quiet s (s\<lparr>volume := v\<rparr>)" "quiet s (s\<lparr>loaded_shared_libs := l\<rparr>)" "quiet s (upd_lib i f s)" "quiet s (s\<lparr>floppy_irq_flag := b\<rparr>)"
  by (simp_all add: quiet_def sound_def same_pointer_def tables_ok_def kern_tables_def upd_lib_def)

lemma on_volume_quiet [quiets]: "on_volume f s = (r, t) \<Longrightarrow> quiet s t"
  by (auto simp: on_volume_def split: prod.splits)

lemma on_volume2_quiet [quiets]: "on_volume2 f s = (q, r, t) \<Longrightarrow> quiet s t"
  by (auto simp: on_volume2_def split: prod.splits)

lemma closed_quiet [simp]: "quiet s (snd (snd (on_volume2 f s)))"
  by (auto simp: on_volume2_def split: prod.splits)

text \<open>One step of a sequence of operations that may fail.\<close>

lemma quiet_then:
  assumes "and_then m f = Inr t" and "\<And>x. m = Inr x \<Longrightarrow> quiet s (g x)" and "\<And>x. f x = Inr t \<Longrightarrow> quiet (g x) t"
  shows "quiet s t"
  using assms unfolding and_then_eq_Inr by (blast intro: quiet_trans)

lemma load_shared_lib_quiet [quiets]:
  assumes "load_shared_lib fs junk path s = Some (Inr (l, t))"
  shows "quiet s t"
proof -
  obtain index p q where p: "find_slot (loaded_shared_libs s) = Inr index"
      "kernel_strncpy (lib_path (loaded_shared_libs s ! index)) path MAX_PATH_LENGTH = Inr p"
    using assms by (auto simp: load_shared_lib_def run_then_eq_Some_Inr)
  define s1 where "s1 = upd_lib index (\<lambda>l. l\<lparr>lib_state := 1, num_users := 0, lib_path := p\<rparr>) s"
  obtain res fil s2 where s2: "on_volume2 (f_open fs path) s1 = (res, fil, s2)" by (cases "on_volume2 (f_open fs path) s1") auto
  have 2: "quiet s s2" by (rule quiet_trans [OF _ on_volume2_quiet [OF s2]]) (simp add: s1_def)
  have "quiet s2 t"
  proof (cases "res \<noteq> FR_OK \<or> f_size fs fil < 52")
    case True
    with assms p s2 show ?thesis by (auto simp: load_shared_lib_def Let_def run_then_eq_Some_Inr s1_def split: if_splits)
  next
    case False
    with assms p s2 obtain block s3 where s3: "kmalloc (f_size fs fil + 0x1000) s2 = Some (Inr (block, s3))"
      by (auto simp: load_shared_lib_def run_then_eq_Some_Inr s1_def Let_def split: if_splits)
    obtain res' data fil' s4 where s4: "on_volume (\<lambda>v. case f_read fs fil (f_size fs fil) v of (r, d, f, v') \<Rightarrow> ((r, d, f), v')) s3 =
        ((res', data, fil'), s4)" by (metis prod.exhaust)
    from False assms p s2 s3 s4 obtain e s5 where s5: "store_bytes e data s4 = Inr s5"
      and t: "kfree block (snd (snd (on_volume2 (f_close fs fil') s5))) = Some (Inr t) \<or>
          (\<exists>g. t = upd_lib index g (snd (snd (on_volume2 (f_close fs fil') s5))))"
      by (auto simp: load_shared_lib_def run_then_eq_Some_Inr s1_def Let_def split: if_splits)
    note s4 = on_volume_quiet [OF s4] and s5 = kept_quiet [OF kept_frame [OF store_bytes_frame [OF s5]]]
    have "quiet s5 t" using t closed_quiet machine_field_quiet(3) kept_quiet [OF kfree_kept] quiet_trans by blast
    with s4 s5 kept_quiet [OF kmalloc_kept [OF s3]] show ?thesis by (blast intro: quiet_trans)
  qed
  with 2 show ?thesis by (rule quiet_trans)
qed

lemma find_lib_quiet [quiets]: "find_or_load_shared_lib fs junk name s = Some (Inr (l, t)) \<Longrightarrow> quiet s t"
  by (auto simp: find_or_load_shared_lib_def Let_def run_then_eq_Some_Inr split: option.splits dest: quiets)

lemma for_res_quiet:
  assumes "for_res lo hi body s = Inr t" and step: "\<And>i u v. body i u = Inr v \<Longrightarrow> quiet u v"
  shows "quiet s t"
proof (cases "lo \<le> hi")
  case True
  show ?thesis
    by (rule for_res_inv [where I = "\<lambda>i. quiet s", OF assms(1) True quiet_refl]) (use step quiet_trans in blast)
qed (use assms(1) in simp)

lemma map_lib_quiet [quiets]:
  assumes "map_shared_lib_into_task lib i s = Inr t"
  shows "quiet s t"
proof -
  have segs: "quiet u v" if "for_res 0 n (map_segment elf off) u = Inr v" for n elf off and u v :: "'a machine_scheme"
    using that by (rule for_res_quiet) (drule map_segment_frame, erule kept_quiet [OF kept_frame])
  obtain k x l s2 where s2: "quiet (set_slib i k x s) s2" and t: "t = upd_lib l (\<lambda>x. x\<lparr>num_users := num_users x + 1\<rparr>) s2"
    using assms by (auto simp: map_shared_lib_into_task_def Let_def res_eq_Inr split: option.splits dest!: segs)
  have "quiet s (set_slib i k x s)" unfolding set_slib_def by (rule kept_quiet) simp
  from quiet_trans [OF this s2] show ?thesis unfolding t by (rule quiet_trans) simp
qed

lemma resolve_quiet [quiets]:
  assumes "resolve_dynamic_references elf i s = Some (Inr t)"
  shows "quiet s t"
proof -
  have entry: "quiet u v" if "resolve_entry elf i r g e u = Some (Inr v)" for r g e and u v :: "'a machine_scheme"
    using that by (auto simp: resolve_entry_def run_then_eq_Some_Inr split: if_splits option.splits dest: memory_quiet)
  show ?thesis using assms
    by (auto simp: resolve_dynamic_references_def Let_def run_then_eq_Some_Inr intro: for_run_quiet entry)
qed

lemma init_libs_quiet [quiets]:
  assumes "init_shared_libs_for_task fs junk tid elf s = Some (Inr t)"
  shows "quiet s t"
proof -
  from assms obtain i s1 where s1: "for_run 0 MAX_SHARED_LIBS_PER_TASK (\<lambda>k t.
       let name = dynamic_dependencies elf ! k in
       if name = 0 then Some (Inr t)
       else
         run_then (find_or_load_shared_lib fs junk name t) (\<lambda>(lib, t1).
         Some (map_shared_lib_into_task lib i t1))) s = Some (Inr s1)" and t: "quiet s1 t"
    by (auto simp: init_shared_libs_for_task_def run_then_eq_Some_Inr dest!: resolve_quiet)
  have "quiet s s1" using s1
    by (rule for_run_quiet)
      (auto simp: Let_def run_then_eq_Some_Inr split: if_splits intro: quiet_trans [OF find_lib_quiet map_lib_quiet])
  then show ?thesis using t by (rule quiet_trans)
qed

lemma read_program_quiet [quiets]:
  assumes "read_program fs path s = Some (Inr (p, t))"
  shows "quiet s t"
proof -
  obtain res fil s1 where s1: "on_volume2 (f_open fs path) s = (res, fil, s1)" by (cases "on_volume2 (f_open fs path) s") auto
  have "quiet s1 t"
  proof (cases "res \<noteq> FR_OK \<or> f_size fs fil < 52")
    case True
    with assms s1 show ?thesis by (auto simp: read_program_def Let_def run_then_eq_Some_Inr split: if_splits)
  next
    case False
    with assms s1 obtain raw s2 where s2: "kmalloc (f_size fs fil) s1 = Some (Inr (raw, s2))"
      by (auto simp: read_program_def run_then_eq_Some_Inr Let_def split: if_splits)
    obtain res' data fil' s3 where s3: "on_volume (\<lambda>v. case f_read fs fil (f_size fs fil) v of (r, d, f, v') \<Rightarrow> ((r, d, f), v')) s2 =
        ((res', data, fil'), s3)" by (metis prod.exhaust)
    from False assms s1 s2 s3 obtain s4 where s4: "store_bytes raw data s3 = Inr s4"
      and t: "t = snd (snd (on_volume2 (f_close fs fil') s4)) \<or> kfree raw (snd (snd (on_volume2 (f_close fs fil') s4))) = Some (Inr t)"
      by (auto simp: read_program_def run_then_eq_Some_Inr Let_def split: if_splits)
    note s3 = on_volume_quiet [OF s3] and s4 = kept_quiet [OF kept_frame [OF store_bytes_frame [OF s4]]]
    have "quiet s4 t" using t closed_quiet kept_quiet [OF kfree_kept] quiet_trans by blast
    with s3 s4 kept_quiet [OF kmalloc_kept [OF s2]] show ?thesis by (blast intro: quiet_trans)
  qed
  then show ?thesis by (rule quiet_trans [OF on_volume2_quiet [OF s1]])
qed

lemma close_files_quiet [simp]: "quiet s (close_files fs i s)"
proof -
  have "quiet u (fold (\<lambda>k t. case on_volume2 (f_close fs (open_files (tasks t ! i) ! k)) t of
       (res, file, t1) \<Rightarrow> upd_task i (\<lambda>x. x\<lparr>open_files := (open_files x)[k := file]\<rparr>) t1) ks u)" for ks and u :: "'a machine_scheme"
  proof (induction ks arbitrary: u)
    case (Cons k ks)
    obtain res fil t1 where t1: "on_volume2 (f_close fs (open_files (tasks u ! i) ! k)) u = (res, fil, t1)"
      by (cases "on_volume2 (f_close fs (open_files (tasks u ! i) ! k)) u") auto
    have "quiet u (upd_task i (\<lambda>x. x\<lparr>open_files := (open_files x)[k := fil]\<rparr>) t1)"
      by (rule quiet_trans [OF on_volume2_quiet [OF t1] kept_quiet]) simp
    from quiet_trans [OF this Cons.IH] show ?case by (simp add: t1)
  qed simp
  then show ?thesis unfolding close_files_def .
qed

section \<open>User tasks\<close>

lemma create_task_gui:
  assumes "create_task isr_exit i eip k pd s = Some (Inr t)" and "i < MAX_TASKS" and "i \<notin> live (tasks s)" and "tables_ok d s"
  shows "tables_ok (d - 1) t \<and> current_task t = current_task s"
  using create_task_tables [OF assms(1-3)] assms(4) gui_more [of t s] by (simp add: tables_ok_def)

lemma start_program_tables:
  assumes run: "start_program fs junk isr_exit i pd elf s = Some (Inr t)"
    and i: "i < MAX_TASKS" "i \<notin> live (tasks s)"
  shows "tables_ok d s \<Longrightarrow> tables_ok (d - 1) t" and "current_task t = current_task s" and "same_pointer s t"
proof -
  obtain s1 s2 s4 s5 where s1: "create_task isr_exit i (elf_entry elf) False pd s = Some (Inr s1)"
    and s2: "init_events_for_task i s1 = Some (Inr s2)" and s4: "quiet (init_user_heap i s2) s4"
    and s5: "kfree (elf_raw elf) s4 = Some (Inr s5)" and t: "t = close_files fs i s5"
    using run by (auto simp: start_program_def Let_def run_then_eq_Some_Inr dest: init_libs_quiet)
  have "quiet s1 (init_user_heap i s2)"
    unfolding init_user_heap_def by (rule kept_quiet [OF kept_trans [OF init_events_for_task_kept [OF s2] upd_field_kept(9)]])
  moreover have "quiet s4 t" unfolding t by (rule quiet_trans [OF kept_quiet [OF kfree_kept [OF s5]]]) simp
  moreover have "same_pointer s s1" using create_task_tables(2) [OF s1 i] by (simp add: same_pointer_kern)
  ultimately show "tables_ok d s \<Longrightarrow> tables_ok (d - 1) t" "current_task t = current_task s" "same_pointer s t"
    using create_task_gui [OF s1 i] create_task_tables(3) [OF s1 i] s4
    by (auto simp: quiet_def sound_def intro: same_pointer_trans)
qed

lemma tables_ok_num [simp]: "tables_ok d (s\<lparr>num_tasks := n\<rparr>) \<longleftrightarrow> tables_ok (num_tasks s - n + d) s"
  by (simp add: tables_ok_def)

lemma drop_address_space_quiet:
  assumes "drop_address_space prev pd raw s = Some (Inr (v, t))"
  shows "quiet s t"
proof -
  from assms obtain s1 s2 s3 where "kept s s1" "kept s1 s2" "kept s2 s3" "kept s3 t"
    by (auto simp: drop_address_space_def give_up_def run_then_eq_Some_Inr res_eq_Inr dest!: keep)
  then show ?thesis by (blast intro: kept_quiet kept_trans)
qed

lemma create_user_task_quiet [quiets]:
  assumes run: "create_user_task fs junk isr_exit path s = Some (Inr (v, t))"
  shows "quiet s t"
proof -
  from run obtain program s1 where s1: "read_program fs path (push_cli s) = Some (Inr (program, s1))"
    and rest: "(case program of
       None \<Rightarrow> give_up s1
     | Some elf \<Rightarrow>
         run_then (Some (find_available_task_slot (tasks s1))) (\<lambda>index.
         let prev_pd = mem_get_current_page_directory s1 in
         run_then (Some (mem_alloc_page_dir s1)) (\<lambda>(pd, s2).
         run_then (Some (mem_change_page_directory pd s2)) (\<lambda>s3.
         run_then (Some (map_user_stack s3)) (\<lambda>s4.
         run_then (Some (load_program elf s4)) (\<lambda>(loaded, s5).
         case loaded of
           None \<Rightarrow> drop_address_space prev_pd pd (elf_raw elf) s5
         | Some elf' \<Rightarrow>
             run_then (start_program fs junk isr_exit index pd elf' s5) (\<lambda>s6.
             run_then (Some (mem_change_page_directory prev_pd s6)) (\<lambda>s7.
             run_then (Some (pop_cli (s7\<lparr>num_tasks := num_tasks s7 + 1\<rparr>))) (\<lambda>s8.
             run_then (Some (c_string path)) (\<lambda>str.
             run_then (Some (name_copy (map (\<lambda>c. char_of (unat c)) str) (task_name (tasks s8 ! index)))) (\<lambda>n.
             let s9 = upd_task index (\<lambda>t. t\<lparr>task_name := n\<rparr>) s8 in
             Some (Inr (task_id (tasks s9 ! index), s9))))))))))))) = Some (Inr (v, t))"
    unfolding create_user_task_def run_then_eq_Some_Inr by auto
  have "quiet s s1" by (rule quiet_trans [OF kept_quiet [OF push_cli_kept] read_program_quiet [OF s1]])
  moreover have "quiet s1 t"
  proof (cases program)
    case None
    with rest show ?thesis by (auto simp: give_up_def res_eq_Inr dest: kept_quiets)
  next
    case (Some elf)
    with rest obtain i pd s2 s3 s4 loaded s5 where i: "find_available_task_slot (tasks s1) = Inr i"
      and s2: "mem_alloc_page_dir s1 = Inr (pd, s2)" and s3: "mem_change_page_directory pd s2 = Inr s3"
      and s4: "map_user_stack s3 = Inr s4" and s5: "load_program elf s4 = Inr (loaded, s5)"
      by (auto simp: run_then_eq_Some_Inr Let_def)
    note f = alloc_page_dir_frame [OF s2] change_dir_frame [OF s3] map_user_stack_frame [OF s4] load_program_frame [OF s5]
    have vm: "vm_state.more s5 = vm_state.more s1" using f by simp
    have s15: "quiet s1 s5" by (rule kept_quiet [OF kept_frame [OF vm]])
    show ?thesis
    proof (cases loaded)
      case None
      with rest Some i s2 s3 s4 s5 have "drop_address_space (mem_get_current_page_directory s1) pd (elf_raw elf) s5 = Some (Inr (v, t))"
        by (simp add: Let_def)
      from quiet_trans [OF s15 drop_address_space_quiet [OF this]] show ?thesis .
    next
      case (Some elf')
      with rest \<open>program = Some elf\<close> i s2 s3 s4 s5 obtain s6 s7 s8 n where
          s6: "start_program fs junk isr_exit i pd elf' s5 = Some (Inr s6)" and s7: "kept s6 s7"
        and s8: "kept (s7\<lparr>num_tasks := num_tasks s7 + 1\<rparr>) s8" and t: "t = upd_task i (\<lambda>t. t\<lparr>task_name := n\<rparr>) s8"
        by (auto simp: run_then_eq_Some_Inr Let_def dest!: change_dir_kept pop_cli_kept)
      have free: "i < MAX_TASKS" "i \<notin> live (tasks s5)" using free_slot [OF i] kern_ext(3) [OF heap_more [OF vm]] by simp_all
      have "quiet (s7\<lparr>num_tasks := num_tasks s7 + 1\<rparr>) t"
        unfolding t by (rule kept_quiet [OF kept_trans [OF s8 upd_field_kept(4)]])
      moreover have "tables_ok (d - 1) s7" if "tables_ok d s5" for d
        using start_program_tables(1) [OF s6 free that] kept_sound [OF s7] by (simp add: sound_def)
      moreover have "current_task s7 = current_task s5" "same_pointer s5 s7"
        using start_program_tables(2,3) [OF s6 free] s7 kept_quiet [OF s7]
        by (auto simp: kept_def quiet_def intro: same_pointer_trans)
      moreover have "same_pointer s7 (s7\<lparr>num_tasks := num_tasks s7 + 1\<rparr>)" by (simp add: same_pointer_def)
      ultimately have "quiet s5 t" by (auto simp: quiet_def sound_def intro: same_pointer_trans)
      with s15 show ?thesis by (rule quiet_trans)
    qed
  qed
  ultimately show ?thesis by (rule quiet_trans)
qed

lemmas quiet_sounds [sounds] = quiets [THEN quiet_sound]

lemmas quiet_sound_simps [simp] = machine_field_quiet [THEN quiet_sound] closed_quiet [THEN quiet_sound]

section \<open>System calls\<close>

text \<open>A program that runs: the current task is in use, and it is not the idle task.\<close>

definition program_running :: "'a kern_state_scheme \<Rightarrow> bool" where
  "program_running s \<longleftrightarrow> current_task s \<noteq> 0 \<and> task_state (cur s) \<noteq> TASK_STATE_DEAD"

definition outcome_ok :: "'a gui_state_scheme \<Rightarrow> 'a gui_state_scheme outcome \<Rightarrow> bool" where
  "outcome_ok s r \<longleftrightarrow>
     (case r of
        Returned v t \<Rightarrow> sound s t
      | Switched e t \<Rightarrow> switched s t)"

lemma outcome_ok_simps [simp]:
  "outcome_ok s (Returned v t) = sound s t"
  "outcome_ok s (Switched e t) = switched s t"
  by (simp_all add: outcome_ok_def)

lemma returned_ok:
  "returned m = Some (Inr r) \<Longrightarrow> (\<And>v t. m = Inr (v, t) \<Longrightarrow> sound s t) \<Longrightarrow> outcome_ok s r"
  "returned_run n = Some (Inr r) \<Longrightarrow> (\<And>v t. n = Some (Inr (v, t)) \<Longrightarrow> sound s t) \<Longrightarrow> outcome_ok s r"
  "returned_void g k = Some (Inr r) \<Longrightarrow> (\<And>t. k = Some (Inr t) \<Longrightarrow> sound s t) \<Longrightarrow> outcome_ok s r"
  by (auto simp: returned_def returned_run_def returned_void_def res_eq_Inr run_then_eq_Some_Inr)

lemma set_file_kept [simp]: "kept s (set_file fd f s)"
  by (simp add: set_file_def)

lemma set_dir_kept [simp]: "kept s (set_dir d s)"
  by (simp add: set_dir_def)

lemma open_file_sound [sounds]: "syscall_open_file fs path s = Some (Inr (v, t)) \<Longrightarrow> sound s t"
  by (auto simp: syscall_open_file_def Let_def run_then_eq_Some_Inr case_prod_unfold split: option.splits if_splits
      intro: sound_trans [OF quiet_sound [OF closed_quiet] kept_sound [OF set_file_kept]])

lemma read_file_sound [sounds]:
  assumes "syscall_read_file fs fd buf n s = Inr (v, t)"
  shows "sound s t"
proof -
  define x where "x = open_files (cur s) ! unat fd"
  obtain res data x' s1 where s1: "on_volume (\<lambda>v. case f_read fs x n v of (r, d, f, v') \<Rightarrow> ((r, d, f), v')) s = ((res, data, x'), s1)"
    by (metis prod.exhaust)
  with assms have t: "store_bytes buf data (set_file (unat fd) x' s1) = Inr t"
    by (auto simp: syscall_read_file_def Let_def res_eq_Inr x_def)
  show ?thesis
    by (rule sound_trans [OF quiet_sound [OF on_volume_quiet [OF s1]] sound_trans [OF kept_sound [OF set_file_kept] kept_sound [OF kept_frame [OF store_bytes_frame [OF t]]]]])
qed

lemma close_file_sound [sounds]: "syscall_close_file fs fd s = Inr t \<Longrightarrow> sound s t"
  by (auto simp: syscall_close_file_def Let_def res_eq_Inr case_prod_unfold intro: sound_trans [OF quiet_sound [OF closed_quiet] kept_sound [OF set_file_kept]])

lemma open_dir_sound [sounds]: "syscall_open_dir fs path s = Some (Inr (v, t)) \<Longrightarrow> sound s t"
  by (auto simp: syscall_open_dir_def Let_def run_then_eq_Some_Inr case_prod_unfold
      intro: sound_trans [OF quiet_sound [OF closed_quiet] kept_sound [OF set_dir_kept]])

lemma close_dir_sound [simp]: "sound s (snd (syscall_close_dir fs s))"
proof -
  obtain res x s1 where s1: "on_volume2 (f_closedir fs (open_dir (cur s))) s = (res, x, s1)" by (metis prod.exhaust)
  show ?thesis
    by (simp add: syscall_close_dir_def s1) (rule sound_trans [OF quiet_sound [OF on_volume2_quiet [OF s1]] kept_sound [OF set_dir_kept]])
qed

lemma next_file_sound [sounds]:
  assumes "syscall_next_file_in_dir fs info s = Inr (v, t)"
  shows "sound s t"
proof -
  obtain a n x s1 where s1: "on_volume2 (f_readdir fs (open_dir (cur s))) s = ((a, n), x, s1)" by (metis prod.exhaust)
  have 1: "sound s (set_dir x s1)" by (rule sound_trans [OF quiet_sound [OF on_volume2_quiet [OF s1]] kept_sound [OF set_dir_kept]])
  have "sound (set_dir x s1) t" using assms
    by (auto simp: syscall_next_file_in_dir_def s1 Let_def res_eq_Inr split: if_splits dest!: memory_quiet [THEN quiet_sound] intro: sound_trans)
  with 1 show ?thesis by (rule sound_trans)
qed

lemma set_timer_kept [keep]:
  assumes "syscall_set_timer_interval i ms s = Inr t"
  shows "kept s t"
  using assms by (auto simp: syscall_set_timer_interval_def res_eq_Inr split: if_splits)

lemma shmem_destroy_kept [keep]: "syscall_shmem_destroy oid s = Some (Inr t) \<Longrightarrow> kept s t"
  by (auto simp: syscall_shmem_destroy_def split: if_splits dest: keep)

lemma debug_frame: "syscall_debug s = Inr t \<Longrightarrow> vm_state.more t = vm_state.more s"
proof -
  have loop: "vm_state.more v = vm_state.more u" if "for_res lo hi (\<lambda>i t. and_then (mem_is_valid_vaddr (of_nat i * 0x1000) t) (\<lambda>valid. Inr t)) u = Inr v"
    for lo hi and u v :: "'a vm_state_scheme"
    using that by (rule for_res_frame) (auto simp: res_eq_Inr)
  show "syscall_debug s = Inr t \<Longrightarrow> vm_state.more t = vm_state.more s"
    unfolding syscall_debug_def by (auto simp: res_eq_Inr dest!: loop pmm_alloc_vm)
qed

lemma put_task_info_frame: "put_task_info a x s = Inr t \<Longrightarrow> vm_state.more t = vm_state.more s"
  by (auto simp: put_task_info_def res_eq_Inr simp del: if_split dest!: frame_dests)

lemma put_task_infos_kept: "put_task_infos l n is i s = Inr (v, t) \<Longrightarrow> kept s t"
proof (induction l n "is" i s rule: put_task_infos.induct)
  case (2 l n i "is" index s)
  have info: "kept s t" if "put_task_info a x s = Inr u" "kept u t" for a x u
    using kept_frame [OF put_task_info_frame [OF that(1)]] that(2) by (rule kept_trans)
  from 2 show ?case by (auto simp: res_eq_Inr split: if_splits intro: info)
qed simp

lemma get_task_info_kept: "syscall_get_task_info l n out s = Inr (v, t) \<Longrightarrow> kept s t"
  by (auto simp: syscall_get_task_info_def res_eq_Inr split: if_splits dest!: put_task_infos_kept store32_frame [THEN kept_frame] intro: kept_trans)

lemma window_syscall_ok:
  assumes "window_syscall garbage esp f a b c s = Some (Some (Inr r))"
  shows "outcome_ok s r"
proof -
  have title: "sound s t" if "(case get_window w of None \<Rightarrow> Inl Assert_Failed
      | Some i \<Rightarrow> and_then (mem_prefix b n s) (\<lambda>text. set_title w text s)) = Inr t" for w n t
    using that by (auto simp: res_eq_Inr split: option.splits dest: set_title_sound)
  have create: "sound s t" if "run_then (create_window x y c s) (\<lambda>(i, t). Some (Inr (of_nat i, t))) = Some (Inr (v, t))" for x y and v :: u32 and t
    using that by (auto simp: run_then_eq_Some_Inr dest: create_window_sound)
  show ?thesis
  proof (cases f)
    case Sys_Swap_Buffers
    with assms have "swap_buffers (sint a) esp s = Some (Inr r)" by (simp add: window_syscall_def)
    from swap_buffers_sound [OF this] show ?thesis by auto
  qed (use assms in \<open>auto simp: window_syscall_def res_eq_Inr intro: title create
        elim!: returned_ok dest: destroy_window_sound resize_window_sound\<close>)
qed

lemma file_syscall_ok:
  assumes "file_syscall fs garbage f a b c s = Some (Some (Inr r))"
  shows "outcome_ok s r"
proof -
  have dir: "sound s t" if "syscall_close_dir fs s = (v, t)" for v t
    using close_dir_sound [of s fs] that by simp
  show ?thesis
    using assms by (cases f) (auto simp: file_syscall_def res_eq_Inr intro: dir elim!: returned_ok
        dest: open_file_sound close_file_sound read_file_sound open_dir_sound next_file_sound)
qed

lemma kernel_syscall_ok:
  assumes run: "kernel_syscall fs junk isr_exit garbage esp f a b c s = Some (Inr r)" and prog: "program_running s"
  shows "outcome_ok s r"
proof -
  have exec: "sound s t" if "run_then (path_at a s) (\<lambda>p. create_user_task fs junk isr_exit p s) = Some (Inr (v, t))" for v t
    using that by (auto simp: run_then_eq_Some_Inr dest: create_user_task_quiet [THEN quiet_sound])
  have create: "sound s t" if "run_then (sharedmem_create a tid s) (\<lambda>(i, t). Some (Inr (of_nat i, t))) = Some (Inr (v, t))" for tid and v :: u32 and t
    using that by (auto simp: run_then_eq_Some_Inr dest: kept_sounds)
  have destroy: "sound s t" if "run_then (syscall_shmem_destroy a s) (\<lambda>t. Some (Inr (0, t))) = Some (Inr (v, t))" for v :: u32 and t
    using that by (auto simp: run_then_eq_Some_Inr dest: shmem_destroy_kept kept_sound)
  have print: "sound s t" if "syscall_print a s = Some (Inr t)" for t
    using that by (auto simp: syscall_print_def run_then_eq_Some_Inr)
  have rest: "outcome_ok s r" if "(case file_syscall fs garbage f a b c s of
             Some r \<Rightarrow> r
           | None \<Rightarrow> (case window_syscall garbage esp f a b c s of Some r \<Rightarrow> r | None \<Rightarrow> Some (Inl Assert_Failed))) = Some (Inr r)"
    using that by (auto split: option.splits dest: file_syscall_ok window_syscall_ok)
  show ?thesis
  proof (cases f)
    case Sys_Wait_For_Event
    with run obtain e t where r: "r = Switched e t" and t: "task_wait_for_event esp s = Some (e, t)" by (auto simp: kernel_syscall_def)
    show ?thesis using task_wait_kept [OF t] prog kept_sound by (fastforce simp: r program_running_def switched_def)
  qed (use run in \<open>auto simp: kernel_syscall_def intro: rest exec create destroy print elim!: returned_ok
        dest: kill_task_safe [THEN safe_sound] keep [THEN kept_sound] debug_frame [THEN kept_frame, THEN kept_sound]
        get_task_info_kept [THEN kept_sound]\<close>)
qed

section \<open>Interrupts\<close>

definition exit_state :: "'s irq_exit \<Rightarrow> 's" where
  "exit_state r = (case r of Resume frame t \<Rightarrow> t | Other_Task esp t \<Rightarrow> t | Halted t \<Rightarrow> t)"

text \<open>The interrupted program continues, or another task to which the scheduler has switched.\<close>

definition exit_ok :: "'a gui_state_scheme \<Rightarrow> 'a gui_state_scheme irq_exit \<Rightarrow> bool" where
  "exit_ok s r \<longleftrightarrow> (case r of Other_Task esp t \<Rightarrow> switched s t | _ \<Rightarrow> sound s (exit_state r))"

lemma exit_ok_simps [simp]:
  "exit_ok s (Resume frame t) = sound s t" "exit_ok s (Halted t) = sound s t" "exit_ok s (Other_Task e t) = switched s t"
  by (simp_all add: exit_ok_def exit_state_def)

lemma crash_ok:
  assumes "other_task (crash esp frame s) = Some (Inr r)"
  shows "exit_ok s r"
proof -
  from assms obtain s1 e t where s1: "kill_task (task_id (cur s)) s = Some (Inr s1)" and t: "task_schedule esp s1 = Some (e, t)"
    and r: "r = Other_Task e t"
    by (auto simp: other_task_def crash_def run_then_eq_Some_Inr split: if_splits)
  show ?thesis using safe_sound [OF kill_task_safe [OF s1]] t unfolding r exit_ok_simps switched_def by blast
qed

lemma timer_ok:
  assumes "(if pit_enabled s then other_task (handle_timer_int esp s)
      else resume frame (run_then (handle_timer_int esp s) (\<lambda>(esp', t). Some (Inr t)))) = Some (Inr r)"
  shows "exit_ok s r"
proof -
  obtain e t where t: "handle_timer_int esp s = Some (Inr (e, t))" and r: "r = (if pit_enabled s then Other_Task e t else Resume frame t)"
    using assms by (auto simp: other_task_def resume_def run_then_eq_Some_Inr split: if_splits)
  show ?thesis using handle_timer_kept [OF t] kept_sound by (fastforce simp: r switched_def)
qed

lemma run_isr_ok:
  assumes run: "run_isr fs junk isr_exit garbage env data esp h frame s = Some (Inr r)"
    and env: "env_respects sound env" and prog: "h = Syscall_Handler \<longrightarrow> program_running s"
  shows "exit_ok s r"
proof (cases h)
  case Syscall_Handler
  with run obtain q where q: "handle_syscall_interrupt fs junk isr_exit garbage esp frame s = Some (Inr q)"
    and r: "r = (case q of Returned v t \<Rightarrow> Resume (frame\<lparr>tf_eax := v\<rparr>) t | Switched esp' t \<Rightarrow> Other_Task esp' t)"
    by (auto simp: run_isr_def run_then_eq_Some_Inr)
  from q obtain f where "kernel_syscall fs junk isr_exit garbage esp f (tf_ebx frame) (tf_ecx frame) (tf_edx frame) s = Some (Inr q)"
    by (auto simp: handle_syscall_interrupt_def run_then_eq_Some_Inr split: option.splits)
  from kernel_syscall_ok [OF this] prog Syscall_Handler show ?thesis by (cases q) (simp_all add: r)
next
  case Timer_Handler
  with run show ?thesis by (intro timer_ok) (simp add: run_isr_def)
qed (use run env in \<open>auto simp: run_isr_def resume_def run_then_eq_Some_Inr
      dest: crash_ok key_event_sound mouse_sound\<close>)

lemma stop_dead_ok: "exit_ok s r \<Longrightarrow> exit_ok s (stop_dead r)"
  by (cases r) (auto simp: stop_dead_def intro: sound_trans [OF _ kept_sound [OF interrupts_kept(2)]])

lemma acknowledge_kept: "kept s (acknowledge v s)"
  by (simp add: acknowledge_def) (blast intro: kept_trans outb_kept)

lemma acknowledge_fields [simp]:
  "isr_functions (acknowledge v s) = isr_functions s" "program_running (acknowledge v t) = program_running t"
  by (simp_all add: acknowledge_def outb_def program_running_def cur_def)

lemma handle_interrupt_ok:
  assumes run: "handle_interrupt fs junk isr_exit garbage env data esp frame s = Some (Inr r)"
    and env: "env_respects sound env"
    and prog: "isr_functions s ! unat (tf_interrupt frame) = Some Syscall_Handler \<longrightarrow> program_running s"
  shows "exit_ok s r"
proof -
  let ?v = "unat (tf_interrupt frame)"
  have ack: "sound s (acknowledge ?v s)" by (rule kept_sound [OF acknowledge_kept])
  show ?thesis
  proof (cases "?v = IRQ_OFFSET + 7 \<or> ?v = IRQ_OFFSET + 8")
    case True
    with run ack show ?thesis by (auto simp: handle_interrupt_def Let_def)
  next
    case False
    with run obtain h q where h: "isr_functions s ! ?v = Some h" and q: "run_isr fs junk isr_exit garbage env data esp h frame (acknowledge ?v s) = Some (Inr q)"
      and r: "r = stop_dead q"
      by (auto simp: handle_interrupt_def Let_def run_then_eq_Some_Inr res_eq_Inr split: option.splits)
    have "exit_ok (acknowledge ?v s) q" using q env by (rule run_isr_ok) (use prog h in simp)
    from stop_dead_ok [OF this] show ?thesis
      using ack unfolding r by (cases "stop_dead q") (auto intro: sound_trans sound_switched)
  qed
qed

section \<open>The start\<close>

lemma setup_tasks_tables: "length (shmem s) = MAX_SHARED_MEMORY_OBJS \<Longrightarrow> pool_shape (kernel_shmem_mappings s) \<Longrightarrow> kern_tables 0 (setup_tasks s)"
proof -
  have "live (tasks (setup_tasks s)) = {0}" by (auto simp: live_def setup_tasks_def nth_list_update MAX_TASKS_def)
  moreover have "task_shape i (tasks (setup_tasks s) ! i)" if "i < MAX_TASKS" for i
    using that by (auto simp: setup_tasks_def nth_list_update task_shape_def no_task_def)
  ultimately show "length (shmem s) = MAX_SHARED_MEMORY_OBJS \<Longrightarrow> pool_shape (kernel_shmem_mappings s) \<Longrightarrow> kern_tables 0 (setup_tasks s)"
    by (simp add: kern_tables_def) (simp add: setup_tasks_def MAX_TASKS_def)
qed

lemma sharedmem_init_tables: "kern_tables 0 (sharedmem_init (setup_tasks s))"
proof -
  have "kern_tables 0 (setup_tasks (sharedmem_init s))"
    by (rule setup_tasks_tables) (simp_all add: sharedmem_init_def)
  moreover have "setup_tasks (sharedmem_init s) = sharedmem_init (setup_tasks s)"
    by (simp add: setup_tasks_def sharedmem_init_def mem_get_current_page_directory_def)
  ultimately show ?thesis by simp
qed

lemma kern_tables_fields [simp]:
  "kern_tables d (s\<lparr>syscall_handlers := h\<rparr>) = kern_tables d s" "kern_tables d (s\<lparr>isr_functions := i\<rparr>) = kern_tables d s"
  "kern_tables d (s\<lparr>loaded_shared_libs := l\<rparr>) = kern_tables d s" "kern_tables d (s\<lparr>ram_disk := r\<rparr>) = kern_tables d s"
  "kern_tables d (outb p v t) = kern_tables d t"
  by (simp_all add: kern_tables_def outb_def)

lemma register_all_changes: "register_all rs s = Inr t \<Longrightarrow> \<exists>h. t = s\<lparr>syscall_handlers := h\<rparr>"
proof (induction rs s rule: register_all.induct)
  case (1 s)
  then have "t = s\<lparr>syscall_handlers := syscall_handlers s\<rparr>" by simp
  then show ?case by blast
next
  case (2 v f rs s)
  from 2(2) obtain u where u: "register_syscall v f s = Inr u" "register_all rs u = Inr t" by (auto simp: res_eq_Inr)
  from 2(1) [OF u] u(1) show ?case by (auto simp: register_syscall_def res_eq_Inr)
qed

lemma register_all_kern: "register_all rs s = Inr t \<Longrightarrow> kern_tables d t = kern_tables d s"
  by (auto dest: register_all_changes)

lemma start_components_tables:
  assumes "start_components ld mb s = Inr t"
  shows "kern_tables 0 t"
proof -
  from assms obtain s4 where "register_all event_syscalls (init_shared_libs (sharedmem_init (setup_tasks s4))) = Inr t"
    by (auto simp: start_components_def Let_def res_eq_Inr init_events_def)
  then have "kern_tables 0 t = kern_tables 0 (init_shared_libs (sharedmem_init (setup_tasks s4)))" by (rule register_all_kern)
  then show ?thesis by (simp add: init_shared_libs_def sharedmem_init_tables)
qed

lemma start_graphics_tables:
  assumes run: "start_graphics fs junk ld mb pixels s = Some (Inr t)" and ok: "kern_tables 0 s"
  shows "tables_ok 0 t"
proof -
  from run obtain s1 s2 s3 v where s1: "init_graphics pixels (boot_framebuffer mb) (framebuffer_width mb) (framebuffer_height mb)
        (framebuffer_bpp mb div 8) s = Some (Inr s1)"
    and s2: "register_all window_syscalls (init_gui (sint (framebuffer_width mb)) (sint (framebuffer_height mb)) s1) = Inr s2"
    and s3: "safe s2 s3" and t: "create_user_task fs junk (isr_exit_address ld) (cstr ''files.exe'') s3 = Some (Inr (v, t))"
    by (auto simp: start_graphics_def run_then_eq_Some_Inr register_window_syscalls_def dest!: create_named_kernel_task_safe)
  have pages: "kept u v" if "for_res lo hi (\<lambda>i. mem_map_page (w + of_nat i * 0x1000) (p + of_nat i * 0x1000) 0) u = Inr v"
    for lo hi w p and u v :: "'a machine_scheme"
    using that by (rule for_res_kept) (rule map_page_kept)
  have "kern_tables 0 s1"
    using s1 ok unfolding init_graphics_def Let_def run_then_eq_Some_Inr
    by (auto dest!: pages kmalloc_kept simp: kept_def) (auto simp: kern_tables_def)
  then have "tables_ok 0 (init_gui (sint (framebuffer_width mb)) (sint (framebuffer_height mb)) s1)"
    by (simp add: tables_ok_def init_gui_def init_windows_def Let_def) (simp add: kern_tables_def)
  then have "tables_ok 0 s2" using register_all_changes [OF s2] by (auto simp: tables_ok_def)
  then show ?thesis using safe_sound [OF s3] quiet_sound [OF create_user_task_quiet [OF t]] by (simp add: sound_def)
qed

text \<open>The kernel starts with tables of this shape.\<close>

lemma kernel_main_tables:
  assumes run: "kernel_main fs junk ld mb mount memory pixels s = Some (Inr t)"
    and graphics: "framebuffer_type mb = MULTIBOOT_FRAMEBUFFER_TYPE_RGB"
  shows "tables_ok 0 t"
proof -
  from run graphics obtain s2 s3 rd s5 s6 s7 where s3: "start_components ld mb s2 = Inr s3"
    and s5: "start_graphics fs junk ld mb pixels (outb 0x70 0x10 (s3\<lparr>ram_disk := rd\<rparr>)) = Some (Inr s5)"
    and s6: "enable_prompt (start_drivers s5) = Inr s6" and s7: "safe s6 s7" and t: "t = enable_interrupts s7"
    unfolding kernel_main_def Let_def by (auto simp: run_then_eq_Some_Inr dest!: create_named_kernel_task_safe)
  have "tables_ok 0 s5" by (rule start_graphics_tables [OF s5]) (simp add: start_components_tables [OF s3])
  then have "tables_ok 0 (start_drivers s5)"
    by (simp add: start_drivers_def Let_def register_isr_def set_timer_enabled_def tables_ok_def) (simp add: kern_tables_def)
  moreover have "sound (start_drivers s5) s6"
    using s6 by (auto simp: enable_prompt_def res_eq_Inr intro: sound_upd)
  moreover have "sound s7 t" unfolding t by (rule kept_sound) simp
  ultimately show ?thesis using safe_sound [OF s7] by (simp add: sound_def)
qed

section \<open>The steps of the system\<close>

text \<open>An interrupt, or a round of the desktop. Only a program that runs makes system calls; the byte
  that a device delivers and the frame of the interrupted code are arbitrary.\<close>

inductive system_step :: "fat_ops \<Rightarrow> elf_object \<Rightarrow> u32 \<Rightarrow> machine environment \<Rightarrow> u8 list \<Rightarrow> machine \<Rightarrow> machine \<Rightarrow> bool"
  for fs junk isr_exit env font
where
  interrupt: "(isr_functions s ! unat (tf_interrupt frame) = Some Syscall_Handler \<Longrightarrow> program_running s) \<Longrightarrow>
     handle_interrupt fs junk isr_exit garbage env data esp frame s = Some (Inr r) \<Longrightarrow>
     system_step fs junk isr_exit env font s (exit_state r)"
| desktop: "gui_round env font cursor status s = Some (Inr t) \<Longrightarrow> system_step fs junk isr_exit env font s t"

inductive_cases system_stepE: "system_step fs junk isr_exit env font s t"

text \<open>The shell and the desktop start programs with \<open>create_user_task\<close>; listing the root directory
  writes to the console and reads the volume.\<close>

definition starts_programs :: "fat_ops \<Rightarrow> elf_object \<Rightarrow> u32 \<Rightarrow> machine environment \<Rightarrow> bool" where
  "starts_programs fs junk isr_exit env \<longleftrightarrow>
     (\<forall>p. start_task env p = (\<lambda>s. run_then (create_user_task fs junk isr_exit p s) (\<lambda>(tid, t). Some (Inr t)))) \<and>
     (\<forall>s t. list_root env s = Some (Inr t) \<longrightarrow> (\<exists>c v ports. t = s\<lparr>the_console := c, volume := v, outb_log := ports\<rparr>))"

lemma starts_programs_respects: "starts_programs fs junk isr_exit env \<Longrightarrow> env_respects sound env"
proof -
  have "sound s (s\<lparr>the_console := c, volume := v, outb_log := ports\<rparr>)" for s :: machine and c v ports
    by (simp add: sound_def tables_ok_def kern_tables_def)
  then show "starts_programs fs junk isr_exit env \<Longrightarrow> env_respects sound env"
    unfolding starts_programs_def env_respects_def by (fastforce simp: run_then_eq_Some_Inr dest: create_user_task_quiet [THEN quiet_sound])
qed

text \<open>So it also meets what the desktop assumes of it for the pointer (theory \<open>Desktop_Props\<close>).\<close>

lemma starts_programs_env_ok: "starts_programs fs junk isr_exit env \<Longrightarrow> env_ok env"
  unfolding starts_programs_def env_ok_def env_respects_def
  by (fastforce simp: run_then_eq_Some_Inr quiet_def same_pointer_def dest: create_user_task_quiet)

text \<open>A step leaves the current task as it is, or the scheduler runs once, at its end.\<close>

lemma exit_ok_cases: "exit_ok s r \<Longrightarrow> sound s (exit_state r) \<or> switched s (exit_state r)"
  by (cases r) (simp_all add: exit_state_def)

lemma system_step_cases: "system_step fs junk isr_exit env font s t \<Longrightarrow> env_respects sound env \<Longrightarrow> sound s t \<or> switched s t"
  by (erule system_stepE) (blast dest: handle_interrupt_ok exit_ok_cases gui_round_sound)+

lemma system_step_tables: "system_step fs junk isr_exit env font s t \<Longrightarrow> env_respects sound env \<Longrightarrow> tables_ok d s \<Longrightarrow> tables_ok d t"
  by (drule (1) system_step_cases) (auto simp: sound_def dest: switched_tables(1))

text \<open>C10: The tables of the kernel keep their shape. From a state in which every table has its declared
  length, every task in use carries the number of its slot plus 1000 and the unused slots are cleared,
  the task counter is the number of tasks in use, the idle task is in slot 0 and the current task is a
  slot of the table, every sequence of interrupts (devices, timer, exceptions, system calls) and rounds
  of the desktop leads to such a state; programs may be started, killed and loaded with libraries in
  between. (By \<open>kernel_main_tables\<close> the kernel starts in such a state.)\<close>

theorem tables_keep_shape:
  assumes "tables_ok 0 s" and "starts_programs fs junk isr_exit env" and "(system_step fs junk isr_exit env font)\<^sup>*\<^sup>* s t"
  shows "tables_ok 0 t"
  using assms(3,1)
proof (induction rule: rtranclp_induct)
  case (step t u)
  then show ?case using system_step_tables [OF step(2) starts_programs_respects [OF assms(2)]] by blast
qed

section \<open>Ready tasks\<close>

text \<open>The number of the first \<open>n\<close> steps of a run in which another task becomes the current one.\<close>

primrec switches :: "(nat \<Rightarrow> 'a kern_state_scheme) \<Rightarrow> nat \<Rightarrow> nat" where
  "switches run 0 = 0"
| "switches run (Suc n) = switches run n + (if current_task (run (Suc n)) \<noteq> current_task (run n) then 1 else 0)"

text \<open>When the scheduler runs and passes over a ready task, the new current task is a different one and
  nearer to the task that is ready.\<close>

lemma switch_nearer:
  fixes s t :: machine
  assumes sw: "switched s t" and ok: "tables_ok 0 s" and j: "j < MAX_TASKS" "task_state (tasks t ! j) = TASK_STATE_READY"
    and pass: "current_task t \<noteq> j"
  shows "current_task t \<noteq> current_task s" and "distance (current_task t) j < distance (current_task s) j"
proof -
  let ?i = "current_task s"
  obtain u esp e where u: "tables_ok 0 u" "current_task u = ?i" and t: "task_schedule esp u = Some (e, t)"
    using sw ok by (auto simp: switched_def sound_def)
  have k: "kern_tables 0 u" using u(1) by (simp add: tables_ok_def)
  have rd: "task_state (tasks u ! j) = TASK_STATE_READY" using task_schedule_ready(1) [OF t, of j] j(2) by simp
  have i: "?i < MAX_TASKS" "current_task_index u = ?i" using k u(2) by (simp_all add: kern_tables_def)
  have "j \<noteq> 0" by (rule notI) (use rd k in \<open>simp add: kern_tables_def task_states\<close>)
  moreover have "j \<in> live (tasks u)" "0 \<in> live (tasks u)" using rd j(1) k by (simp_all add: live_def kern_tables_def MAX_TASKS_def)
  ultimately have "card {0, j} \<le> card (live (tasks u))" by (intro card_mono) auto
  then have "num_tasks u \<noteq> 1" using \<open>j \<noteq> 0\<close> k by (simp add: kern_tables_def)
  then have c: "choose_next_task u = next_ready (tasks u) ?i" using i(2) by (simp add: choose_next_task_def)
  obtain k where k: "0 < k" "k \<le> distance ?i j" "next_ready (tasks u) ?i = Some ((?i + k) mod MAX_TASKS)"
    using next_ready_near [OF i(1) j(1) rd] by blast
  have ct: "current_task t = (?i + k) mod MAX_TASKS"
    using task_schedule_eq [of u "(?i + k) mod MAX_TASKS" esp] t k(3) c by auto
  have "k \<noteq> distance ?i j" using ct pass distance_reach [OF i(1) j(1)] by auto
  then have "distance (current_task t) j = distance ?i j - k"
    unfolding ct using k(1,2) by (intro distance_step [OF i(1) j(1)]) simp_all
  then show "distance (current_task t) j < distance (current_task s) j" using k(1,2) by simp
  then show "current_task t \<noteq> current_task s" by auto
qed

lemma run_nearer:
  assumes "tables_ok 0 (run 0)" and "starts_programs fs junk isr_exit env"
    and "\<And>k. k < n \<Longrightarrow> system_step fs junk isr_exit env font (run k) (run (Suc k))"
    and "j < MAX_TASKS" and "\<And>k. k \<le> n \<Longrightarrow> task_state (tasks (run k) ! j) = TASK_STATE_READY"
    and "\<And>k. 0 < k \<Longrightarrow> k \<le> n \<Longrightarrow> current_task (run k) \<noteq> j"
  shows "tables_ok 0 (run n) \<and> switches run n + distance (current_task (run n)) j \<le> distance (current_task (run 0)) j"
  using assms(3,5,6)
proof (induction n)
  case (Suc n)
  note env = starts_programs_respects [OF assms(2)]
  have step: "system_step fs junk isr_exit env font (run n) (run (Suc n))" using Suc.prems(1) by simp
  have IH: "tables_ok 0 (run n)" "switches run n + distance (current_task (run n)) j \<le> distance (current_task (run 0)) j"
    using Suc by simp_all
  have "tables_ok 0 (run (Suc n))" using system_step_tables [OF step env] IH(1) .
  moreover have "distance (current_task (run (Suc n))) j + (if current_task (run (Suc n)) \<noteq> current_task (run n) then 1 else 0)
      \<le> distance (current_task (run n)) j"
    using system_step_cases [OF step env]
  proof
    assume "switched (run n) (run (Suc n))"
    from switch_nearer [OF this IH(1) assms(4)] Suc.prems(2,3) show ?thesis by (simp add: Suc_leI)
  qed (simp add: sound_def)
  ultimately show ?case using IH(2) by simp
qed (use assms(1) in simp)

text \<open>C16: No ready task starves. Consider any run of the system, from tables of the right shape: a sequence
  of interrupts (timer, devices, exceptions, system calls) and rounds of the desktop, in which other tasks
  may wake, block, start and die. While a task stays ready and is not the current one, each run of the
  scheduler makes another task the current one, and there are fewer switches than the task is entries
  away from the current one in the task table (64 at most): it runs within one round.\<close>

theorem scheduler_round_robin:
  assumes "tables_ok 0 (run 0)" and "starts_programs fs junk isr_exit env"
    and "\<forall>k<n. system_step fs junk isr_exit env font (run k) (run (Suc k))"
    and "j < MAX_TASKS" and "\<forall>k\<le>n. task_state (tasks (run k) ! j) = TASK_STATE_READY"
    and "\<forall>k. 0 < k \<and> k \<le> n \<longrightarrow> current_task (run k) \<noteq> j"
  shows "switches run n < distance (current_task (run 0)) j \<and> distance (current_task (run 0)) j \<le> MAX_TASKS \<and>
    (\<forall>k<n. switched (run k) (run (Suc k)) \<longrightarrow> current_task (run (Suc k)) \<noteq> current_task (run k))"
proof -
  have near: "tables_ok 0 (run k) \<and> switches run k + distance (current_task (run k)) j \<le> distance (current_task (run 0)) j"
    if "k \<le> n" for k
    by (rule run_nearer [where run = run and font = font, OF assms(1,2)]) (use assms(3-6) that in auto)
  have slot: "current_task (run k) < MAX_TASKS" if "k \<le> n" for k
    using near [OF that] by (simp add: tables_ok_def kern_tables_def)
  have "0 < distance (current_task (run n)) j" "distance (current_task (run 0)) j \<le> MAX_TASKS"
    using distance_bounds [OF slot assms(4)] by simp_all
  moreover have "current_task (run (Suc k)) \<noteq> current_task (run k)" if "k < n" "switched (run k) (run (Suc k))" for k
    by (rule switch_nearer(1) [OF that(2) _ assms(4)]) (use near [of k] assms(5,6) that(1) in auto)
  ultimately show ?thesis using near [of n] by simp
qed

section \<open>Example\<close>

definition example_system :: "machine environment" where
  "example_system = \<lparr>start_task = (\<lambda>p s. run_then (create_user_task example_fat no_elf 0 p s) (\<lambda>(tid, t). Some (Inr t))),
     list_root = (\<lambda>s. Some (Inr s)), write_log = (\<lambda>f xs c. Inr c), with_graphics = True\<rparr>"

lemma example_starts: "starts_programs example_fat no_elf 0 example_system"
proof -
  have "s = s\<lparr>the_console := the_console s, volume := volume s, outb_log := outb_log s\<rparr>" for s :: machine by simp
  then have "\<exists>c v ports. s = s\<lparr>the_console := c, volume := v, outb_log := ports\<rparr>" for s :: machine by blast
  then show ?thesis by (simp add: starts_programs_def example_system_def)
qed

text \<open>The machine with the idle task only takes a timer interrupt.\<close>

theorem tables_keep_shape_witness:
  "\<exists>t. (system_step example_fat no_elf 0 example_system [])\<^sup>*\<^sup>* (setup_tasks example_machine) t \<and>
     pit_ticks t = pit_ticks example_machine + 1 \<and> tables_ok 0 t"
proof -
  let ?s = "setup_tasks example_machine" and ?f = "example_frame\<lparr>tf_interrupt := 32\<rparr>"
  have m: "isr_functions ?s ! 32 = Some Timer_Handler" "length (isr_functions ?s) = 256" "pit_enabled ?s = False"
    "current_task ?s = 0" "task_state (tasks ?s ! 0) = TASK_STATE_IDLE" "pit_ticks ?s = pit_ticks example_machine"
    "length (shmem example_machine) = MAX_SHARED_MEMORY_OBJS" "pool_shape (kernel_shmem_mappings example_machine)"
    "length (windows ?s) = MAX_WINDOWS" "length (window_z_order ?s) = MAX_WINDOWS"
    by (simp_all add: setup_tasks_def example_machine_def gui_state.extend_def machine.fields_def MAX_TASKS_def
        full_gui_def example_gui_def kern_state.extend_def gui_state.fields_def example_kern_def kheap_state.extend_def kern_state.fields_def)
  let ?t = "(acknowledge 32 ?s)\<lparr>pit_ticks := pit_ticks ?s + 1\<rparr>"
  have ack: "pit_enabled (acknowledge 32 ?s) = False" "pit_ticks (acknowledge 32 ?s) = pit_ticks ?s"
    "tasks (acknowledge 32 ?s) = tasks ?s" "current_task (acknowledge 32 ?s) = 0"
    using m by (simp_all add: acknowledge_def outb_def)
  have "handle_interrupt example_fat no_elf 0 0 example_system 0 0 ?f ?s = Some (Inr (Resume ?f ?t))"
    using m ack by (simp add: handle_interrupt_def IRQ_OFFSET_def run_isr_def resume_def handle_timer_int_def stop_dead_def cur_def Let_def)
  from system_step.interrupt [OF _ this, where font = "[]"] have step: "system_step example_fat no_elf 0 example_system [] ?s ?t"
    using m by (simp add: exit_state_def)
  note example_starts
  moreover have "tables_ok 0 ?s"
    unfolding tables_ok_def using m by (intro conjI setup_tasks_tables)
  ultimately have "tables_ok 0 ?t" using tables_keep_shape r_into_rtranclp [of "system_step example_fat no_elf 0 example_system []", OF step] by blast
  then show ?thesis using r_into_rtranclp [of "system_step example_fat no_elf 0 example_system []", OF step] m by (intro exI [of _ ?t]) simp
qed

text \<open>Three programs are ready; the first one waits for an event, and the second one runs. The third has to
  wait for fewer than two switches.\<close>

definition program :: "nat \<Rightarrow> task" where
  "program i = no_task\<lparr>task_id := of_nat i + 1000, task_state := TASK_STATE_READY\<rparr>"

definition busy_machine :: machine where
  "busy_machine = (setup_tasks example_machine)\<lparr>
     tasks := (replicate MAX_TASKS no_task)[0 := no_task\<lparr>task_id := 1000, task_state := TASK_STATE_IDLE\<rparr>, 1 := program 1, 2 := program 2, 3 := program 3],
     num_tasks := 4, current_task := 1, current_task_index := 1\<rparr>"

lemma busy_tasks:
  "length (tasks busy_machine) = MAX_TASKS" "i < MAX_TASKS \<Longrightarrow> tasks busy_machine ! i =
     (if i = 0 then no_task\<lparr>task_id := 1000, task_state := TASK_STATE_IDLE\<rparr> else if i \<le> 3 then program i else no_task)"
  by (auto simp: busy_machine_def nth_list_update) (auto simp: MAX_TASKS_def numeral_eq_Suc le_Suc_eq)

lemma busy_ok: "tables_ok 0 busy_machine"
proof -
  have "live (tasks busy_machine) = {0, 1, 2, 3}"
    by (auto simp: live_def busy_tasks program_def MAX_TASKS_def split: if_splits)
  moreover have "task_shape i (tasks busy_machine ! i)" if "i < MAX_TASKS" for i
    using that by (auto simp: busy_tasks program_def task_shape_def no_task_def)
  moreover have "length (shmem busy_machine) = MAX_SHARED_MEMORY_OBJS" "pool_shape (kernel_shmem_mappings busy_machine)"
    "length (windows busy_machine) = MAX_WINDOWS" "length (window_z_order busy_machine) = MAX_WINDOWS"
    "num_tasks busy_machine = 4" "current_task busy_machine = 1" "current_task_index busy_machine = 1"
    by (simp_all add: busy_machine_def setup_tasks_def example_machine_def gui_state.extend_def machine.fields_def
        full_gui_def example_gui_def kern_state.extend_def gui_state.fields_def example_kern_def kheap_state.extend_def kern_state.fields_def)
  ultimately show ?thesis
    by (simp add: tables_ok_def kern_tables_def busy_tasks(1)) (simp add: busy_tasks MAX_TASKS_def)
qed

theorem scheduler_round_robin_witness:
  "\<exists>run. run 0 = busy_machine \<and> system_step example_fat no_elf 0 example_system [] (run 0) (run 1) \<and>
     current_task (run 1) = 2 \<and> switches run 1 < distance 1 3"
proof -
  let ?s = busy_machine and ?f = "example_frame\<lparr>tf_interrupt := 128, tf_eax := 19\<rparr>"
  let ?u = "upd_task 1 (\<lambda>t. t\<lparr>task_state := TASK_STATE_WAIT_FOR_EVENT\<rparr>) ?s"
  have m: "isr_functions ?s ! 128 = Some Syscall_Handler" "length (isr_functions ?s) = 256" "length (syscall_handlers ?s) = NUM_SYSCALLS"
    "syscall_handlers ?s ! 19 = Some Sys_Wait_For_Event" "current_task ?s = 1" "current_task_index ?s = 1" "num_tasks ?s = 4"
    by (simp_all add: busy_machine_def setup_tasks_def example_machine_def gui_state.extend_def machine.fields_def
        NUM_SYSCALLS_def all_syscalls_def kernel_syscalls_def event_syscalls_def window_syscalls_def)
  have two: "(2 :: nat) < MAX_TASKS" "(1 :: nat) < MAX_TASKS" "(3 :: nat) < MAX_TASKS" by (simp_all add: MAX_TASKS_def)
  have "next_ready (tasks ?u) 1 = Some 2"
    by (subst next_ready_step) (simp add: upd_task_def busy_tasks two program_def MAX_TASKS_def)
  then have "choose_next_task ?u = Some 2" by (simp add: choose_next_task_def upd_task_def m)
  from task_schedule_eq [OF this, of 0] obtain e t where t: "task_schedule 0 ?u = Some (e, t)" "current_task t = 2"
    "tasks t = (tasks ?u)[1 := (tasks ?u ! 1)\<lparr>kesp := 0\<rparr>]"
    by (auto simp: m upd_task_def)
  have "handle_interrupt example_fat no_elf 0 0 example_system 0 0 ?f ?s = Some (Inr (Other_Task e t))"
    using m t(1) by (simp add: handle_interrupt_def IRQ_OFFSET_def run_isr_def acknowledge_def handle_syscall_interrupt_def
        kernel_syscall_def task_wait_for_event_def stop_dead_def NUM_SYSCALLS_def Let_def)
  from system_step.interrupt [OF _ this, where font = "[]"] have step: "system_step example_fat no_elf 0 example_system [] ?s t"
    using two by (simp add: exit_state_def program_running_def cur_def m busy_tasks program_def)
  define run where "run k = (if k = 0 then ?s else t)" for k :: nat
  have "task_state (tasks t ! 3) = TASK_STATE_READY" using two by (simp add: t(3) upd_task_def busy_tasks program_def)
  moreover have "task_state (tasks ?s ! 3) = TASK_STATE_READY" using two by (simp add: busy_tasks program_def)
  ultimately have "switches run 1 < distance (current_task (run 0)) 3"
    using scheduler_round_robin [of run example_fat no_elf 0 example_system 1 "[]" 3] busy_ok example_starts step t(2) two
    by (auto simp: run_def)
  then show ?thesis using step t(2) m by (intro exI [of _ run]) (simp add: run_def)
qed

end
