(* ===== verification/Sgfx_Line.thy ===== *)
theory Sgfx_Line
  imports Sgfx_Props
begin

text \<open>
  Slanted lines (\<open>sgfx_draw_line\<close>): the pixels that Bresenham's algorithm visits. With \<open>a\<close> and \<open>b\<close>
  the distances of the end points in the two directions, the state after some steps is how far
  it has come in each: \<open>k\<close> and \<open>l\<close>. The error term of the code is \<open>(l + 1) * a - (k + 1) * b\<close>.
\<close>

section \<open>The walk\<close>

definition walk_step :: "int \<Rightarrow> int \<Rightarrow> int \<times> int \<Rightarrow> int \<times> int" where
  "walk_step a b = (\<lambda>(k, l). let e2 = 2 * ((l + 1) * a - (k + 1) * b) in
     (if e2 \<ge> - b then k + 1 else k, if e2 \<le> a then l + 1 else l))"

lemma twice_abs: "2 * \<bar>x\<bar> \<le> m \<longleftrightarrow> - m \<le> 2 * x \<and> 2 * x \<le> (m :: int)"
  by auto

text \<open>After \<open>i\<close> steps: the longer direction has advanced by \<open>i\<close>, and the other is at most half a pixel
  away from the straight line.\<close>

definition near_line :: "int \<Rightarrow> int \<Rightarrow> int \<Rightarrow> int \<times> int \<Rightarrow> bool" where
  "near_line a b i = (\<lambda>(k, l). (if b \<le> a then k = i else l = i) \<and> 0 \<le> k \<and> k \<le> a \<and> 0 \<le> l \<and> l \<le> b \<and>
     2 * \<bar>l * a - k * b\<bar> \<le> max a b)"

lemma near_line_swap: "near_line b a i (l, k) \<longleftrightarrow> near_line a b i (k, l)" if "a \<noteq> b"
  using that by (auto simp: near_line_def abs_minus_commute mult.commute max.commute)

text \<open>The minor direction cannot go past its end.\<close>

lemma minor_bound:
  fixes a b k l :: int
  assumes "0 < a" and "0 \<le> b" and "b \<le> a" and "0 \<le> k" and "k \<le> a" and "2 * \<bar>l * a - k * b\<bar> \<le> a"
  shows "0 \<le> l \<and> l \<le> b"
proof
  have "2 * (l * a) \<ge> 2 * (k * b) - a" using assms(6) unfolding twice_abs by (simp add: algebra_simps)
  moreover have "0 \<le> k * b" using assms by simp
  ultimately have "2 * (l * a) \<ge> - a" by simp
  then have "(2 * l + 1) * a \<ge> 0" by (simp add: algebra_simps)
  then show "0 \<le> l" using assms(1) by (simp add: zero_le_mult_iff)
  have "2 * (l * a) \<le> 2 * (k * b) + a" using assms(6) unfolding twice_abs by (simp add: algebra_simps)
  moreover have "k * b \<le> a * b" using assms by (simp add: mult_right_mono)
  ultimately have "(2 * l - 2 * b - 1) * a \<le> 0" by (simp add: algebra_simps)
  then show "l \<le> b" using assms(1) by (simp add: mult_le_0_iff)
qed

lemma walk_major:
  assumes ab: "0 < a" "0 \<le> b" "b \<le> a" and p: "near_line a b i (k, l)" and i: "i < a"
  shows "near_line a b (i + 1) (walk_step a b (k, l))"
proof -
  have k: "k = i" "0 \<le> k" and d: "2 * \<bar>l * a - k * b\<bar> \<le> a" using p ab by (auto simp: near_line_def)
  define m where "m = 2 * (l * a) - 2 * (k * b)"
  have m: "- a \<le> m" "m \<le> a" using d unfolding twice_abs m_def by (simp_all add: algebra_simps)
  have e2: "2 * ((l + 1) * a - (k + 1) * b) = m + 2 * a - 2 * b" by (simp add: m_def algebra_simps)
  define l' where "l' = (if m + 2 * a - 2 * b \<le> a then l + 1 else l)"
  have step: "walk_step a b (k, l) = (k + 1, l')"
    using ab m unfolding walk_step_def prod.case e2 Let_def l'_def by simp
  have m': "2 * (l' * a) - 2 * ((k + 1) * b) = (if m + 2 * a - 2 * b \<le> a then m + 2 * a - 2 * b else m - 2 * b)"
    by (simp add: l'_def m_def algebra_simps)
  have "- a \<le> 2 * (l' * a) - 2 * ((k + 1) * b)" "2 * (l' * a) - 2 * ((k + 1) * b) \<le> a"
    unfolding m' using ab m by auto
  then have d': "2 * \<bar>l' * a - (k + 1) * b\<bar> \<le> a" unfolding twice_abs by (simp add: algebra_simps)
  have "0 \<le> l' \<and> l' \<le> b"
    by (rule minor_bound [OF ab _ _ d']) (use k i in simp_all)
  with d' ab k i show ?thesis unfolding step by (simp add: near_line_def)
qed

lemma walk_step_swap: "walk_step b a (l, k) = prod.swap (walk_step a b (k, l))"
  by (auto simp: walk_step_def Let_def algebra_simps)

lemma walk_near:
  assumes "0 \<le> a" "0 \<le> b" "near_line a b i p" "i < max a b"
  shows "near_line a b (i + 1) (walk_step a b p)"
proof (cases p)
  case (Pair k l)
  show ?thesis
  proof (cases "b \<le> a")
    case True
    then have "0 < a" using assms by (auto simp: near_line_def Pair)
    with True assms Pair show ?thesis using walk_major [of a b i k l] by simp
  next
    case False
    have "near_line b a (i + 1) (walk_step b a (l, k))"
      by (rule walk_major) (use assms False Pair near_line_swap [of a b i l k] in auto)
    then show ?thesis using False Pair near_line_swap [of a b "i + 1" "fst (walk_step b a (l, k))" "snd (walk_step b a (l, k))"]
      by (simp add: walk_step_swap [of b a]) (metis prod.collapse prod.swap_def)
  qed
qed

text \<open>The point after \<open>n\<close> steps.\<close>

definition walk :: "int \<Rightarrow> int \<Rightarrow> nat \<Rightarrow> int \<times> int" where
  "walk a b n = (walk_step a b ^^ n) (0, 0)"

lemma walk_simps [simp]: "walk a b 0 = (0, 0)" "walk a b (Suc n) = walk_step a b (walk a b n)"
  by (simp_all add: walk_def)

lemma walk_on_line: "0 \<le> a \<Longrightarrow> 0 \<le> b \<Longrightarrow> int n \<le> max a b \<Longrightarrow> near_line a b (int n) (walk a b n)"
proof (induction n)
  case 0
  then show ?case by (simp add: near_line_def)
next
  case (Suc n)
  then show ?case using walk_near [of a b "int n" "walk a b n"] by (simp add: add.commute)
qed

lemma near_line_end:
  assumes "0 \<le> a" "0 \<le> b" "near_line a b i (k, l)"
  shows "k = a \<and> l = b \<longleftrightarrow> i = max a b"
proof (cases "b \<le> a")
  case True
  show ?thesis
  proof (cases "a = 0")
    case False
    have "l = b" if "k = a"
    proof -
      have "l * a - k * b = (l - b) * a" by (simp add: that algebra_simps)
      moreover have "2 * \<bar>l * a - k * b\<bar> \<le> a" using assms(3) True by (auto simp: near_line_def)
      ultimately have "2 * \<bar>l - b\<bar> * a \<le> 1 * a" using assms(1) by (simp only: abs_mult abs_of_nonneg mult_1 mult.assoc)
      then have "2 * \<bar>l - b\<bar> \<le> 1" using False assms(1) by (simp add: mult_le_cancel_right)
      then show ?thesis by arith
    qed
    with assms True show ?thesis by (auto simp: near_line_def)
  qed (use assms True in \<open>auto simp: near_line_def\<close>)
next
  case False
  have "k = a" if "l = b"
  proof -
    have "l * a - k * b = (a - k) * b" by (simp add: that algebra_simps)
    moreover have "2 * \<bar>l * a - k * b\<bar> \<le> b" using assms(3) False by (auto simp: near_line_def)
    ultimately have "2 * \<bar>a - k\<bar> * b \<le> 1 * b" using assms(2) by (simp only: abs_mult abs_of_nonneg mult_1 mult.assoc)
    then have "2 * \<bar>a - k\<bar> \<le> 1" using False assms(1) by (simp add: mult_le_cancel_right)
    then show ?thesis by arith
  qed
  with assms False show ?thesis by (auto simp: near_line_def)
qed

section \<open>The drawing\<close>

fun draw_points :: "u32 \<Rightarrow> (int \<times> int) list \<Rightarrow> graphics_context \<Rightarrow> graphics_context res" where
  "draw_points color [] c = Inr c"
| "draw_points color ((x, y) # ps) c = and_then (sgfx_pixel x y color c) (draw_points color ps)"

lemma pixel_spec:
  assumes "ctx_ok c"
  shows "\<exists>d. sgfx_pixel x y color c = Inr d \<and> same_ctx c d \<and>
    (\<forall>px py. on_screen c px py \<longrightarrow> pix d px py = (if (px, py) = (x, y) then color else pix c px py))"
proof (cases "on_screen c x y")
  case True
  then show ?thesis using put_pixel_ok [OF assms True, of color] by (auto simp: sgfx_pixel_def on_screen_def)
next
  case False
  then have "sgfx_pixel x y color c = Inr c" by (auto simp: sgfx_pixel_def on_screen_def)
  then show ?thesis using assms False by (auto simp: same_ctx_def)
qed

lemma on_screen_same: "same_ctx c d \<Longrightarrow> on_screen d px py = on_screen c px py"
  by (simp add: same_ctx_def on_screen_def)

lemma draw_points_spec:
  "ctx_ok c \<Longrightarrow> \<exists>d. draw_points color ps c = Inr d \<and> same_ctx c d \<and>
    (\<forall>px py. on_screen c px py \<longrightarrow> pix d px py = (if (px, py) \<in> set ps then color else pix c px py))"
proof (induction ps arbitrary: c)
  case Nil
  then show ?case by (simp add: same_ctx_def)
next
  case (Cons p ps)
  obtain x y where p: "p = (x, y)" by (cases p)
  obtain d where d: "sgfx_pixel x y color c = Inr d" "same_ctx c d"
      "\<forall>px py. on_screen c px py \<longrightarrow> pix d px py = (if (px, py) = (x, y) then color else pix c px py)"
    using pixel_spec [OF Cons.prems] by blast
  have "ctx_ok d" using d(2) by (simp add: same_ctx_def)
  then obtain e where e: "draw_points color ps d = Inr e" "same_ctx d e"
      "\<forall>px py. on_screen d px py \<longrightarrow> pix e px py = (if (px, py) \<in> set ps then color else pix d px py)"
    using Cons.IH by blast
  show ?case using p d e same_ctx_trans [OF d(2) e(2)] on_screen_same [OF d(2)] by auto
qed

definition direction :: "int \<Rightarrow> int \<Rightarrow> int" where
  "direction p q = (if p < q then 1 else - 1)"

text \<open>The points of the line, in the order in which they are drawn.\<close>

definition line_point :: "int \<Rightarrow> int \<Rightarrow> int \<Rightarrow> int \<Rightarrow> nat \<Rightarrow> int \<times> int" where
  "line_point x0 y0 x1 y1 i = (case walk \<bar>x1 - x0\<bar> \<bar>y1 - y0\<bar> i of (k, l) \<Rightarrow> (x0 + direction x0 x1 * k, y0 + direction y0 y1 * l))"

definition line_length :: "int \<Rightarrow> int \<Rightarrow> int \<Rightarrow> int \<Rightarrow> nat" where
  "line_length x0 y0 x1 y1 = nat (max \<bar>x1 - x0\<bar> \<bar>y1 - y0\<bar>)"

lemma end_reached: "x0 + direction x0 x1 * k = x1 \<longleftrightarrow> k = \<bar>x1 - x0\<bar>"
  by (auto simp: direction_def)

lemma line_point_end:
  assumes "i \<le> line_length x0 y0 x1 y1"
  shows "line_point x0 y0 x1 y1 i = (x1, y1) \<longleftrightarrow> i = line_length x0 y0 x1 y1"
proof -
  obtain k l where w: "walk \<bar>x1 - x0\<bar> \<bar>y1 - y0\<bar> i = (k, l)" by fastforce
  have "near_line \<bar>x1 - x0\<bar> \<bar>y1 - y0\<bar> (int i) (k, l)"
    unfolding w [symmetric] by (rule walk_on_line) (use assms in \<open>auto simp: line_length_def\<close>)
  from near_line_end [OF _ _ this] have "k = \<bar>x1 - x0\<bar> \<and> l = \<bar>y1 - y0\<bar> \<longleftrightarrow> int i = max \<bar>x1 - x0\<bar> \<bar>y1 - y0\<bar>" by simp
  moreover have "int i = max \<bar>x1 - x0\<bar> \<bar>y1 - y0\<bar> \<longleftrightarrow> i = line_length x0 y0 x1 y1"
    unfolding line_length_def by (subst eq_nat_nat_iff [symmetric]) (simp_all add: le_max_iff_disj)
  ultimately show ?thesis by (simp add: line_point_def w end_reached)
qed

lemma line_steps_Suc:
  "line_steps (Suc n) x y x1 y1 dx dy sx sy err color c =
     and_then (sgfx_pixel x y color c) (\<lambda>d. if x = x1 \<and> y = y1 then Inr d
       else line_steps n (if 2 * err \<ge> dy then x + sx else x) (if 2 * err \<le> dx then y + sy else y) x1 y1 dx dy sx sy
         (err + (if 2 * err \<ge> dy then dy else 0) + (if 2 * err \<le> dx then dx else 0)) color d)"
  by (cases "dy \<le> 2 * err"; cases "2 * err \<le> dx"; simp add: Let_def cong: if_cong)

lemma line_steps_points:
  assumes "i \<le> line_length x0 y0 x1 y1" and "line_length x0 y0 x1 y1 - i < n" and "walk \<bar>x1 - x0\<bar> \<bar>y1 - y0\<bar> i = (k, l)"
  shows "line_steps n (x0 + direction x0 x1 * k) (y0 + direction y0 y1 * l) x1 y1 \<bar>x1 - x0\<bar> (- \<bar>y1 - y0\<bar>)
      (direction x0 x1) (direction y0 y1) ((l + 1) * \<bar>x1 - x0\<bar> - (k + 1) * \<bar>y1 - y0\<bar>) color c =
    draw_points color (map (line_point x0 y0 x1 y1) [i..<Suc (line_length x0 y0 x1 y1)]) c"
  using assms
proof (induction n arbitrary: i k l c)
  case (Suc n)
  let ?a = "\<bar>x1 - x0\<bar>" and ?b = "\<bar>y1 - y0\<bar>" and ?m = "line_length x0 y0 x1 y1"
  let ?x = "x0 + direction x0 x1 * k" and ?y = "y0 + direction y0 y1 * l"
  have p: "line_point x0 y0 x1 y1 i = (?x, ?y)" using Suc.prems(3) by (simp add: line_point_def)
  show ?case
  proof (cases "i = ?m")
    case True
    then have "?x = x1 \<and> ?y = y1" using line_point_end [OF Suc.prems(1)] p by simp
    with True p show ?thesis by (simp add: and_then_def split: sum.splits)
  next
    case False
    then have ne: "\<not> (?x = x1 \<and> ?y = y1)" using line_point_end [OF Suc.prems(1)] p by simp
    have lt: "Suc i \<le> ?m" using False Suc.prems(1) by simp
    obtain k' l' where w: "walk_step ?a ?b (k, l) = (k', l')" by fastforce
    have w': "walk ?a ?b (Suc i) = (k', l')" using Suc.prems(3) w by simp
    let ?e2 = "2 * ((l + 1) * ?a - (k + 1) * ?b)"
    have kl: "k' = (if ?e2 \<ge> - ?b then k + 1 else k)" "l' = (if ?e2 \<le> ?a then l + 1 else l)"
      using w by (auto simp: walk_step_def Let_def)
    let ?err = "(l + 1) * ?a - (k + 1) * ?b"
    have "(if 2 * ?err \<ge> - ?b then ?x + direction x0 x1 else ?x) = x0 + direction x0 x1 * k'"
      "(if 2 * ?err \<le> ?a then ?y + direction y0 y1 else ?y) = y0 + direction y0 y1 * l'"
      "?err + (if 2 * ?err \<ge> - ?b then - ?b else 0) + (if 2 * ?err \<le> ?a then ?a else 0) = (l' + 1) * ?a - (k' + 1) * ?b"
      unfolding kl by (simp_all only: algebra_simps split: if_split) simp_all
    then have step: "line_steps (Suc n) ?x ?y x1 y1 ?a (- ?b) (direction x0 x1) (direction y0 y1) ?err color c =
        and_then (sgfx_pixel ?x ?y color c) (line_steps n (x0 + direction x0 x1 * k') (y0 + direction y0 y1 * l') x1 y1 ?a (- ?b)
          (direction x0 x1) (direction y0 y1) ((l' + 1) * ?a - (k' + 1) * ?b) color)"
      using ne unfolding line_steps_Suc by (simp only: if_False)
    have "[i..<Suc ?m] = i # [Suc i..<Suc ?m]" using lt by (simp add: upt_rec)
    then have "draw_points color (map (line_point x0 y0 x1 y1) [i..<Suc ?m]) c =
        and_then (sgfx_pixel ?x ?y color c) (draw_points color (map (line_point x0 y0 x1 y1) [Suc i..<Suc ?m]))"
      by (simp add: p del: upt_Suc)
    then show ?thesis unfolding step using Suc.IH [OF lt _ w'] Suc.prems(2) lt by (simp add: and_then_def split: sum.splits)
  qed
qed simp

text \<open>C22: Lines are drawn right. A line whose longer side is less than 1000 pixels reaches its end: it
  consists of one pixel for each step in the longer direction, the first is the start and the last
  is the end point, and in the other direction each pixel is at most half a pixel away from the
  straight line. The visible ones of these pixels get the colour and nothing else changes.\<close>

theorem line_is_straight:
  assumes "ctx_ok c" and "line_length x0 y0 x1 y1 < 1000"
  shows "\<exists>d. sgfx_draw_line x0 y0 x1 y1 color c = Inr d \<and> same_ctx c d \<and>
    line_point x0 y0 x1 y1 0 = (x0, y0) \<and> line_point x0 y0 x1 y1 (line_length x0 y0 x1 y1) = (x1, y1) \<and>
    (\<forall>i\<le>line_length x0 y0 x1 y1. let (x, y) = line_point x0 y0 x1 y1 i in
       near_line \<bar>x1 - x0\<bar> \<bar>y1 - y0\<bar> (int i) (\<bar>x - x0\<bar>, \<bar>y - y0\<bar>)) \<and>
    (\<forall>px py. on_screen c px py \<longrightarrow> pix d px py =
       (if \<exists>i\<le>line_length x0 y0 x1 y1. line_point x0 y0 x1 y1 i = (px, py) then color else pix c px py))"
proof -
  let ?m = "line_length x0 y0 x1 y1" and ?ps = "map (line_point x0 y0 x1 y1) [0..<Suc (line_length x0 y0 x1 y1)]"
  have draw: "sgfx_draw_line x0 y0 x1 y1 color c = draw_points color ?ps c"
    using line_steps_points [of 0 x0 y0 x1 y1 1000 0 0 color c] assms(2)
    by (simp add: sgfx_draw_line_def direction_def Let_def del: upt_Suc)
  have near: "let (x, y) = line_point x0 y0 x1 y1 i in near_line \<bar>x1 - x0\<bar> \<bar>y1 - y0\<bar> (int i) (\<bar>x - x0\<bar>, \<bar>y - y0\<bar>)" if "i \<le> ?m" for i
  proof -
    obtain k l where w: "walk \<bar>x1 - x0\<bar> \<bar>y1 - y0\<bar> i = (k, l)" by fastforce
    have n: "near_line \<bar>x1 - x0\<bar> \<bar>y1 - y0\<bar> (int i) (k, l)"
      unfolding w [symmetric] by (rule walk_on_line) (use that in \<open>auto simp: line_length_def\<close>)
    then have "\<bar>direction x0 x1 * k\<bar> = k" "\<bar>direction y0 y1 * l\<bar> = l" by (auto simp: near_line_def direction_def)
    with n show ?thesis by (simp add: line_point_def w)
  qed
  obtain d where "draw_points color ?ps c = Inr d" "same_ctx c d"
      "\<forall>px py. on_screen c px py \<longrightarrow> pix d px py = (if (px, py) \<in> set ?ps then color else pix c px py)"
    using draw_points_spec [OF assms(1)] by blast
  moreover have "(px, py) \<in> set ?ps \<longleftrightarrow> (\<exists>i\<le>?m. line_point x0 y0 x1 y1 i = (px, py))" for px py
    unfolding set_map set_upt image_iff Bex_def atLeastLessThan_iff less_Suc_eq_le by (metis le0)
  moreover have "line_point x0 y0 x1 y1 0 = (x0, y0)" by (simp add: line_point_def)
  moreover have "line_point x0 y0 x1 y1 ?m = (x1, y1)" by (simp add: line_point_end)
  ultimately show ?thesis using draw near by auto
qed

theorem line_is_straight_witness:
  "\<exists>d. sgfx_draw_line 0 0 3 2 7 example_ctx = Inr d \<and> pix d 0 0 = 7 \<and> pix d 3 2 = 7"
proof -
  have "line_length 0 0 3 2 = 3" by (simp add: line_length_def)
  moreover have "on_screen example_ctx 0 0" "on_screen example_ctx 3 2"
    by (simp_all add: on_screen_def example_ctx_def sgfx_init_def)
  ultimately obtain d where "sgfx_draw_line 0 0 3 2 7 example_ctx = Inr d"
      "line_point 0 0 3 2 0 = (0, 0)" "line_point 0 0 3 2 3 = (3, 2)" and
      px: "\<And>px py. on_screen example_ctx px py \<Longrightarrow> pix d px py =
        (if \<exists>i\<le>3. line_point 0 0 3 2 i = (px, py) then 7 else pix example_ctx px py)"
    using line_is_straight [OF example_ctx_ok, of 0 0 3 2 7] by auto
  then have "\<exists>i\<le>3. line_point 0 0 3 2 i = (0, 0)" "\<exists>i\<le>3. line_point 0 0 3 2 i = (3, 2)" by blast+
  then show ?thesis using px [OF \<open>on_screen example_ctx 0 0\<close>] px [OF \<open>on_screen example_ctx 3 2\<close>]
      \<open>sgfx_draw_line 0 0 3 2 7 example_ctx = Inr d\<close> by simp
qed

end
