(* ===== verification/User_Stdio.thy ===== *)
theory User_Stdio
  imports Strings Digits
begin

text \<open>
  Formatted output of the user library (\<open>userspace/api/src/os_stdio.c\<close>): \<open>itoa\<close>, \<open>sprintf_va\<close> and
  \<open>os_printf\<close>. A buffer is a list of bytes and a pointer into it an index; the variable arguments
  are the words on the stack, and \<open>str\<close> reads the string that a pointer argument points to.
\<close>

section \<open>Numbers\<close>

definition digit_char :: "u32 \<Rightarrow> u8" where
  "digit_char r = (if r < 10 then ucast r + 48 else ucast r + 55)"

text \<open>The loop that writes the digits from the last one on: the position behind the last digit that
  is written, and the buffer. The divisor is 10 or 16.\<close>

function put_digits :: "bool \<Rightarrow> u32 \<Rightarrow> nat \<Rightarrow> u8 list \<Rightarrow> (nat \<times> u8 list) res" where
  "put_digits hex ud p b =
     (let divisor = (if hex then 16 else 10) in
      and_then (store_at p (digit_char (ud mod divisor)) b) (\<lambda>b1.
      if ud div divisor = 0 then Inr (p + 1, b1) else put_digits hex (ud div divisor) (p + 1) b1))"
  by pat_completeness auto

lemma div_smaller: "ud div (if hex then 16 else 10) \<noteq> 0 \<Longrightarrow> unat (ud div (if hex then 16 else 10)) < unat (ud :: u32)"
proof -
  assume ne: "ud div (if hex then 16 else 10) \<noteq> 0"
  then have "ud \<noteq> 0" by (cases hex) auto
  then have "0 < unat ud" by (simp add: unat_gt_0)
  then show ?thesis by (cases hex) (simp_all add: unat_div)
qed

termination put_digits
  by (relation "measure (\<lambda>(hex, ud, p, b). unat ud)") (auto dest: div_smaller)

declare put_digits.simps [simp del]

text \<open>The exchange of the digits from both ends.\<close>

function reverse_between :: "nat \<Rightarrow> nat \<Rightarrow> u8 list \<Rightarrow> u8 list" where
  "reverse_between p1 p2 b =
     (if p1 < p2 then reverse_between (p1 + 1) (p2 - 1) (b[p1 := b ! p2, p2 := b ! p1]) else b)"
  by pat_completeness auto

termination reverse_between
  by (relation "measure (\<lambda>(p1, p2, b). p2 - p1)") auto

declare reverse_between.simps [simp del]

text \<open>\<open>itoa\<close> at position \<open>p\<close> of a buffer; the base is the conversion character.\<close>

definition itoa :: "nat \<Rightarrow> u8 \<Rightarrow> u32 \<Rightarrow> u8 list \<Rightarrow> u8 list res" where
  "itoa p base d b =
     (let negative = (base = 100 \<and> d <s 0);
          ud = (if negative then - d else d);
          hex = (\<not> negative \<and> base = 120);
          start = (if negative then p + 1 else p)
      in
      and_then (if negative then store_at p 45 b else Inr b) (\<lambda>b1.
      and_then (put_digits hex ud start b1) (\<lambda>(end, b2).
      and_then (store_at end 0 b2) (\<lambda>b3.
      Inr (reverse_between start (end - 1) b3)))))"

section \<open>Formatting\<close>

text \<open>The bytes of a string one after the other, and the string in the local buffer at its start.\<close>

fun emit :: "u8 list \<Rightarrow> nat \<times> u8 list \<Rightarrow> (nat \<times> u8 list) res" where
  "emit [] (i, b) = Inr (i, b)"
| "emit (c # cs) (i, b) = and_then (store_at i c b) (\<lambda>b1. emit cs (i + 1, b1))"

definition emit_buf :: "u8 list \<Rightarrow> nat \<times> u8 list \<Rightarrow> (nat \<times> u8 list) res" where
  "emit_buf buf ib = and_then (c_string buf) (\<lambda>s. emit s ib)"

text \<open>A conversion after \<open>%\<close>: \<open>junk\<close> is the uninitialised local buffer of 20 bytes. The next argument
  is read; without one the access is outside the arguments. Afterwards the rest of the arguments.\<close>

definition convert :: "(u32 \<Rightarrow> u8 list res) \<Rightarrow> u8 list \<Rightarrow> u8 \<Rightarrow> u32 list \<Rightarrow> nat \<times> u8 list \<Rightarrow> (u32 list \<times> nat \<times> u8 list) res" where
  "convert str junk c args ib =
     (case args of
        [] \<Rightarrow> Inl Out_Of_Bounds
      | a # rest \<Rightarrow>
          and_then
            (if c = 112 \<or> c = 120 then
               and_then (itoa 2 c a (junk[0 := 48, 1 := 120])) (\<lambda>buf. emit_buf buf ib)
             else if c = 100 \<or> c = 117 then and_then (itoa 0 c a junk) (\<lambda>buf. emit_buf buf ib)
             else if c = 115 then
               and_then (if a = 0 then Inr (map of_char ''(null)'') else str a) (\<lambda>s. emit s ib)
             else emit [ucast a] ib) (\<lambda>ib'.
          Inr (rest, ib')))"

text \<open>The loop over the format, which is given without its terminating zero. A \<open>%\<close> at the end takes
  the terminating zero as its conversion, and the loop goes on behind the format.\<close>

definition full :: "u32 \<Rightarrow> nat \<times> u8 list \<Rightarrow> bool" where
  "full sz ib \<longleftrightarrow> unat (sz - 1) \<le> fst ib"

definition finish :: "nat \<times> u8 list \<Rightarrow> (nat \<times> u8 list) res" where
  "finish = (\<lambda>(i, b). and_then (store_at i 0 b) (\<lambda>b1. Inr (i, b1)))"

fun format_loop :: "(u32 \<Rightarrow> u8 list res) \<Rightarrow> u8 list \<Rightarrow> u32 \<Rightarrow> bool \<Rightarrow> u8 list \<Rightarrow> u32 list \<Rightarrow> nat \<times> u8 list \<Rightarrow> (nat \<times> u8 list) res" where
  "format_loop str junk sz nl [] args ib = finish ib"
| "format_loop str junk sz nl (c # fmt) args ib =
     (if c = 37 then
        (case fmt of
           [] \<Rightarrow> and_then (convert str junk 0 args ib) (\<lambda>(args', ib'). if full sz ib' then finish ib' else Inl Out_Of_Bounds)
         | k # fmt' \<Rightarrow>
             and_then (convert str junk k args ib) (\<lambda>(args', ib').
             if full sz ib' then finish ib' else format_loop str junk sz nl fmt' args' ib'))
      else
        and_then (if c = 10 then emit (if nl then [13, 10] else [10]) ib else emit [c] ib) (\<lambda>ib'.
        if full sz ib' then finish ib' else format_loop str junk sz nl fmt args ib'))"

definition sprintf_va :: "(u32 \<Rightarrow> u8 list res) \<Rightarrow> u8 list \<Rightarrow> u8 list \<Rightarrow> u32 \<Rightarrow> bool \<Rightarrow> u8 list \<Rightarrow> u32 list \<Rightarrow> (nat \<times> u8 list) res" where
  "sprintf_va str junk buffer sz nl fmt args = format_loop str junk sz nl fmt args (0, buffer)"

text \<open>\<open>os_printf\<close>, up to the system call that prints the string; \<open>debug_printf\<close> is the same function.\<close>

definition os_printf :: "(u32 \<Rightarrow> u8 list res) \<Rightarrow> u8 list \<Rightarrow> u8 list \<Rightarrow> u8 list \<Rightarrow> u32 list \<Rightarrow> u8 list res" where
  "os_printf str junk buffer fmt args =
     and_then (sprintf_va str junk buffer 1024 False fmt args) (\<lambda>(n, b). c_string b)"

section \<open>What \<open>itoa\<close> writes\<close>

fun digits :: "nat \<Rightarrow> nat \<Rightarrow> u8 list" where
  "digits base n = (if base < 2 \<or> n < base then [digit_char (of_nat n)] else digits base (n div base) @ [digit_char (of_nat (n mod base))])"

declare digits.simps [simp del]

text \<open>The digits are written backwards.\<close>

lemma put_digits_spec:
  assumes "p + length (digits (if hex then 16 else 10) (unat ud)) \<le> length b"
  shows "put_digits hex ud p b = Inr (p + length (digits (if hex then 16 else 10) (unat ud)),
    take p b @ rev (digits (if hex then 16 else 10) (unat ud)) @ drop (p + length (digits (if hex then 16 else 10) (unat ud))) b)"
  using assms
proof (induction hex ud p b rule: put_digits.induct)
  case (1 hex ud p b)
  define B where "B = (if hex then 16 else 10 :: nat)"
  let ?w = "(if hex then 16 else 10 :: u32)"
  have B: "2 \<le> B" by (simp add: B_def)
  have un: "unat (ud div ?w) = unat ud div B" "unat (ud mod ?w) = unat ud mod B"
    by (simp_all add: B_def unat_div unat_mod)
  have z: "ud div ?w = 0 \<longleftrightarrow> unat ud < B" using un(1) B by (simp add: unat_eq_0 [symmetric] div_eq_0_iff)
  have d: "digit_char (ud mod ?w) = digit_char (of_nat (unat ud mod B))" by (simp add: un(2) [symmetric])
  show ?case
  proof (cases "unat ud < B")
    case True
    then have "digits B (unat ud) = [digit_char (ud mod ?w)]" using B d by (simp add: digits.simps [of B])
    with True 1(2) z show ?thesis
      by (simp add: put_digits.simps [of hex ud] B_def [symmetric] store_at_ok Let_def upd_conv_take_nth_drop)
  next
    case False
    let ?n = "digits B (unat ud div B)"
    have dig: "digits B (unat ud) = ?n @ [digit_char (ud mod ?w)]" using False B d by (simp add: digits.simps [of B "unat ud"])
    have len: "p + 1 + length ?n \<le> length b" using 1(2) dig by (simp add: B_def [symmetric])
    let ?b1 = "b[p := digit_char (ud mod ?w)]"
    have "put_digits hex (ud div ?w) (p + 1) ?b1 = Inr (p + 1 + length ?n, take (p + 1) ?b1 @ rev ?n @ drop (p + 1 + length ?n) ?b1)"
      using 1(1) [of ?w ?b1] False z len un(1) by (simp add: B_def [symmetric] store_at_ok)
    moreover have "take (p + 1) ?b1 = take p b @ [digit_char (ud mod ?w)]" using len by (simp add: take_Suc_conv_app_nth)
    ultimately show ?thesis using False z len unfolding B_def [symmetric] dig
      by (simp add: put_digits.simps [of hex ud] B_def [symmetric] store_at_ok Let_def)
  qed
qed

text \<open>The exchange turns the segment around.\<close>

lemma length_reverse_between [simp]: "length (reverse_between p1 p2 b) = length b"
proof (induction p1 p2 b rule: reverse_between.induct)
  case (1 p1 p2 b)
  then show ?case by (subst reverse_between.simps) simp
qed

lemma nth_reverse_between:
  "p2 < length b \<Longrightarrow> i < length b \<Longrightarrow> reverse_between p1 p2 b ! i = (if p1 \<le> i \<and> i \<le> p2 then b ! (p1 + p2 - i) else b ! i)"
proof (induction p1 p2 b rule: reverse_between.induct)
  case (1 p1 p2 b)
  show ?case
  proof (cases "p1 < p2")
    case True
    let ?b = "b[p1 := b ! p2, p2 := b ! p1]"
    have "reverse_between p1 p2 b ! i = (if p1 + 1 \<le> i \<and> i \<le> p2 - 1 then ?b ! (p1 + 1 + (p2 - 1) - i) else ?b ! i)"
      using 1(1) [OF True] 1(2,3) True by (subst reverse_between.simps) simp
    moreover have "p1 + 1 + (p2 - 1) - i = p1 + p2 - i" using True by simp
    ultimately show ?thesis using True 1(2,3) by (auto simp: nth_list_update)
  next
    case False
    then have "p1 + p2 - i = i" if "p1 \<le> i \<and> i \<le> p2" using that by linarith
    with False show ?thesis by (subst reverse_between.simps) auto
  qed
qed

lemma reverse_segment:
  assumes "xs \<noteq> []" and "c = a @ xs @ d"
  shows "reverse_between (length a) (length a + length xs - 1) c = a @ rev xs @ d"
proof (rule nth_equalityI)
  show "length (reverse_between (length a) (length a + length xs - 1) c) = length (a @ rev xs @ d)" by (simp add: assms(2))
next
  fix i assume "i < length (reverse_between (length a) (length a + length xs - 1) c)"
  then have i: "i < length a + length xs + length d" by (simp add: assms(2))
  have n: "0 < length xs" using assms(1) by simp
  have "reverse_between (length a) (length a + length xs - 1) c ! i =
      (if length a \<le> i \<and> i \<le> length a + length xs - 1 then c ! (length a + (length a + length xs - 1) - i) else c ! i)"
    by (rule nth_reverse_between) (use i n in \<open>simp_all add: assms(2)\<close>)
  also have "\<dots> = (a @ rev xs @ d) ! i"
  proof (cases "length a \<le> i \<and> i < length a + length xs")
    case True
    then obtain j where j: "i = length a + j" "j < length xs" by (metis le_Suc_ex nat_add_left_cancel_less)
    then have "length a + (length a + length xs - 1) - i = length a + (length xs - Suc j)" by simp
    moreover have "length xs - Suc j < length xs" using n by simp
    moreover have "c ! (length a + k) = xs ! k" if "k < length xs" for k using that by (simp add: assms(2) nth_append)
    moreover have "(a @ rev xs @ d) ! i = xs ! (length xs - Suc j)" using j by (simp add: nth_append rev_nth)
    moreover have "i \<le> length a + length xs - 1" using j by simp
    ultimately show ?thesis using True by presburger
  next
    case False
    then have "\<not> (length a \<le> i \<and> i \<le> length a + length xs - 1)" using n by linarith
    moreover have "c ! i = (a @ rev xs @ d) ! i" using False by (auto simp: assms(2) nth_append)
    ultimately show ?thesis by (simp only: if_False)
  qed
  finally show "reverse_between (length a) (length a + length xs - 1) c ! i = (a @ rev xs @ d) ! i" .
qed

text \<open>The text of a number.\<close>

definition number_text :: "u8 \<Rightarrow> u32 \<Rightarrow> u8 list" where
  "number_text base d =
     (if base = 100 \<and> d <s 0 then 45 # digits 10 (nat (- sint d))
      else if base = 120 then digits 16 (unat d) else digits 10 (unat d))"

lemma digits_nonempty [simp]: "digits base n \<noteq> []"
  by (subst digits.simps) simp

lemma itoa_at:
  assumes fits: "p + length (digits (if hex then 16 else 10) (unat ud)) < length b"
  shows "and_then (put_digits hex ud p b) (\<lambda>(end, b2). and_then (store_at end 0 b2) (\<lambda>b3. Inr (reverse_between p (end - 1) b3))) =
    Inr (take p b @ digits (if hex then 16 else 10) (unat ud) @ 0 # drop (p + length (digits (if hex then 16 else 10) (unat ud)) + 1) b)"
proof -
  define ds where "ds = digits (if hex then 16 else 10) (unat ud)"
  have len: "p + length ds < length b" using fits by (simp add: ds_def)
  let ?b2 = "take p b @ rev ds @ drop (p + length ds) b"
  let ?b3 = "take p b @ rev ds @ 0 # drop (p + length ds + 1) b"
  have put: "put_digits hex ud p b = Inr (p + length ds, ?b2)"
    using put_digits_spec [of p hex ud b] len by (simp add: ds_def)
  have "drop (p + length ds) b = b ! (p + length ds) # drop (p + length ds + 1) b"
    using len by (simp add: Cons_nth_drop_Suc)
  then have "?b2[p + length ds := 0] = ?b3" using len by (simp add: list_update_append)
  then have store: "store_at (p + length ds) 0 ?b2 = Inr ?b3" using len by (simp add: store_at_ok)
  have "reverse_between (length (take p b)) (length (take p b) + length (rev ds) - 1) ?b3 = take p b @ rev (rev ds) @ 0 # drop (p + length ds + 1) b"
    by (rule reverse_segment) (simp_all add: ds_def)
  then show ?thesis unfolding put and_then_simps prod.case store ds_def [symmetric] using len by (simp add: min_absorb2)
qed

lemma itoa_spec:
  assumes "p + length (number_text base d) < length b"
  shows "itoa p base d b = Inr (take p b @ number_text base d @ 0 # drop (p + length (number_text base d) + 1) b)"
proof (cases "base = 100 \<and> d <s 0")
  case True
  then have m: "unat (- d) = nat (- sint d)" using unat_negative by simp
  let ?ds = "digits 10 (nat (- sint d))"
  have len: "p + 1 + length ?ds < length b" using assms True by (simp add: number_text_def)
  then have "take (Suc p) (b[p := 45]) = take p b @ [45]" by (simp add: take_Suc_conv_app_nth)
  then show ?thesis
    using itoa_at [of "p + 1" False "- d" "b[p := 45]"] len True m
    by (simp add: itoa_def number_text_def store_at_ok case_prod_unfold)
next
  case False
  show ?thesis using itoa_at [of p "base = 120" d b] False assms
    by (auto simp: itoa_def number_text_def case_prod_unfold)
qed

section \<open>Reading numbers back\<close>

definition digit_value :: "u8 \<Rightarrow> nat" where
  "digit_value c = (if c < 58 then unat c - 48 else unat c - 55)"

definition text_value :: "nat \<Rightarrow> u8 list \<Rightarrow> nat" where
  "text_value base ds = foldl (\<lambda>v c. v * base + digit_value c) 0 ds"

lemma digit_char_value:
  assumes "k < 16"
  shows "digit_value (digit_char (of_nat k)) = k \<and> digit_char (of_nat k) \<noteq> 0 \<and> digit_char (of_nat k) \<noteq> 45"
proof -
  have "\<forall>k\<in>set [0..<16]. digit_value (digit_char (of_nat k)) = k \<and> digit_char (of_nat k) \<noteq> 0 \<and> digit_char (of_nat k) \<noteq> 45"
    by (simp add: upt_rec digit_char_def digit_value_def)
  with assms show ?thesis by simp
qed

lemma digits_value: "2 \<le> base \<Longrightarrow> base \<le> 16 \<Longrightarrow> text_value base (digits base n) = n"
proof (induction base n rule: digits.induct)
  case (1 base n)
  show ?case
  proof (cases "n < base")
    case True
    with 1(2,3) show ?thesis by (subst digits.simps) (simp add: text_value_def digit_char_value)
  next
    case False
    moreover have "n mod base < 16" using 1(2,3) less_le_trans [OF mod_less_divisor, of base 16 n] by simp
    ultimately show ?thesis using 1 by (subst digits.simps) (simp add: text_value_def digit_char_value)
  qed
qed

lemma digits_length: "2 \<le> base \<Longrightarrow> n < base ^ Suc k \<Longrightarrow> length (digits base n) \<le> Suc k"
proof (induction k arbitrary: n)
  case 0
  then show ?case by (subst digits.simps) simp
next
  case (Suc k)
  have "n div base < base ^ Suc k" using Suc.prems by (simp add: less_mult_imp_div_less mult.commute)
  with Suc show ?case by (subst digits.simps) simp
qed

lemma digits_chars: "2 \<le> base \<Longrightarrow> base \<le> 16 \<Longrightarrow> 0 \<notin> set (digits base n) \<and> 45 \<notin> set (digits base n)"
proof (induction base n rule: digits.induct)
  case (1 base n)
  have d: "k < base \<Longrightarrow> digit_char (of_nat k) \<noteq> 0 \<and> digit_char (of_nat k) \<noteq> 45" for k
    using digit_char_value [of k] 1(3) by simp
  show ?case
  proof (cases "n < base")
    case True
    with 1(2) d [of n] show ?thesis by (subst (1 2) digits.simps) auto
  next
    case False
    with 1 d [of "n mod base"] show ?thesis by (subst (1 2) digits.simps) auto
  qed
qed

lemma digits_10_length: "n \<le> 2 ^ 32 \<Longrightarrow> length (digits 10 n) \<le> 10"
  using digits_length [of 10 n 9] by simp

lemma digits_16_length: "n < 2 ^ 32 \<Longrightarrow> length (digits 16 n) \<le> 8"
  using digits_length [of 16 n 7] by simp

lemma unat_small: "unat (d :: u32) < 2 ^ 32"
  using unsigned_less [of d] by simp

lemma number_text_length: "length (number_text base d) \<le> 11"
proof -
  have "nat (- sint d) \<le> 2 ^ 32" using sint_ge [of d] by simp
  then show ?thesis
    using digits_10_length [of "nat (- sint d)"] digits_10_length [of "unat d"] digits_16_length [of "unat d"] unat_small [of d]
    by (auto simp: number_text_def)
qed

lemma number_text_no_zero: "0 \<notin> set (number_text base d)"
  using digits_chars [of 10] digits_chars [of 16] by (auto simp: number_text_def)

text \<open>Numbers survive printing. For a buffer of 20 bytes, as \<open>sprintf_va\<close> uses it, \<open>itoa\<close> writes a
  zero-terminated text without going past the end of the buffer, and reading the text gives the
  number back: as a signed decimal number for \<open>%d\<close> (the smallest integer included), as an
  unsigned decimal one for \<open>%u\<close>, as a hexadecimal one for \<open>%x\<close>.\<close>

theorem itoa_reads_back:
  assumes "length b = 20"
  shows "\<exists>text rest. itoa 0 base d b = Inr (text @ 0 # rest) \<and> 0 \<notin> set text \<and> length text \<le> 11 \<and>
    (if base = 120 then text_value 16 text = unat d
     else if base = 100 then (if hd text = 45 then - int (text_value 10 (tl text)) else int (text_value 10 text)) = sint d
     else text_value 10 text = unat d)"
proof -
  let ?t = "number_text base d"
  have len: "0 + length ?t < length b" using number_text_length [of base d] assms by simp
  have it: "itoa 0 base d b = Inr (?t @ 0 # drop (length ?t + 1) b)" using itoa_spec [OF len] by simp
  have hd: "hd (digits 10 n) \<noteq> 45" for n
  proof -
    have "45 \<notin> set (digits 10 n)" using digits_chars [of 10 n] by simp
    then show ?thesis by (metis hd_in_set digits_nonempty)
  qed
  have pos: "int (unat d) = sint d" if "\<not> d <s 0"
  proof -
    have "0 \<le> sint d" using that by (simp add: word_sless_alt)
    moreover have "sint d < 2 ^ 31" using sint_lt [of d] by simp
    ultimately have "uint d = sint d" by (simp add: uint_sint take_bit_int_eq_self)
    then show ?thesis by simp
  qed
  have "(if base = 120 then text_value 16 ?t = unat d
     else if base = 100 then (if hd ?t = 45 then - int (text_value 10 (tl ?t)) else int (text_value 10 ?t)) = sint d
     else text_value 10 ?t = unat d)"
    using hd pos by (auto simp: number_text_def digits_value word_sless_alt)
  with it number_text_no_zero number_text_length show ?thesis by blast
qed

theorem itoa_reads_back_witness:
  "\<exists>text rest. itoa 0 100 (- 305) (replicate 20 7) = Inr (text @ 0 # rest) \<and> - int (text_value 10 (tl text)) = - 305"
  using itoa_reads_back [of "replicate 20 7" 100 "- 305"] by (auto split: if_splits)

section \<open>What \<open>sprintf_va\<close> writes\<close>

text \<open>The text of a conversion, and of a format: \<open>None\<close> if an argument is missing or a string argument
  is not a string, or the format ends in \<open>%\<close>. (\<open>%p\<close> is \<open>0x\<close> with a decimal number.)\<close>

definition conversion_text :: "(u32 \<Rightarrow> u8 list res) \<Rightarrow> u8 \<Rightarrow> u32 \<Rightarrow> u8 list option" where
  "conversion_text str c a =
     (if c = 112 \<or> c = 120 then Some (48 # 120 # number_text c a)
      else if c = 100 \<or> c = 117 then Some (number_text c a)
      else if c = 115 then
        (if a = 0 then Some (map of_char ''(null)'') else case str a of Inr s \<Rightarrow> Some s | Inl _ \<Rightarrow> None)
      else Some [ucast a])"

fun render :: "(u32 \<Rightarrow> u8 list res) \<Rightarrow> bool \<Rightarrow> u8 list \<Rightarrow> u32 list \<Rightarrow> u8 list option" where
  "render str nl [] args = Some []"
| "render str nl (c # fmt) args =
     (if c = 37 then
        (case (fmt, args) of
           (k # fmt', a # args') \<Rightarrow>
             (case (conversion_text str k a, render str nl fmt' args') of (Some t, Some u) \<Rightarrow> Some (t @ u) | _ \<Rightarrow> None)
         | _ \<Rightarrow> None)
      else map_option (\<lambda>u. (if c = 10 then if nl then [13, 10] else [10] else [c]) @ u) (render str nl fmt args))"

lemma emit_spec: "i + length s \<le> length b \<Longrightarrow> emit s (i, b) = Inr (i + length s, take i b @ s @ drop (i + length s) b)"
proof (induction s arbitrary: i b)
  case (Cons c s)
  then have "emit s (i + 1, b[i := c]) = Inr (i + 1 + length s, take (i + 1) (b[i := c]) @ s @ drop (i + 1 + length s) (b[i := c]))"
    by simp
  moreover have "take (i + 1) (b[i := c]) = take i b @ [c]" using Cons.prems by (simp add: take_Suc_conv_app_nth)
  ultimately show ?case using Cons.prems by (simp add: store_at_ok)
qed simp

text \<open>The buffer while the text \<open>done\<close> has been written.\<close>

definition written :: "u8 list \<Rightarrow> u8 list \<Rightarrow> nat \<times> u8 list" where
  "written buffer pre = (length pre, pre @ drop (length pre) buffer)"

lemma emit_written:
  assumes "length pre + length s \<le> length buffer"
  shows "emit s (written buffer pre) = Inr (written buffer (pre @ s))"
  using assms unfolding written_def by (subst emit_spec) (simp_all add: add.commute)

lemma c_string_text: "0 \<notin> set t \<Longrightarrow> c_string (t @ 0 # rest) = Inr t"
  by (induction t) auto

lemma convert_written:
  assumes tx: "conversion_text str c a = Some t" and len: "length pre + length t \<le> length buffer" and junk: "length junk = 20"
  shows "convert str junk c (a # args) (written buffer pre) = Inr (args, written buffer (pre @ t))"
proof -
  let ?n = "number_text c a"
  have n: "length ?n \<le> 11" "0 \<notin> set ?n" by (rule number_text_length, rule number_text_no_zero)
  have two: "take 2 (junk[0 := 48, Suc 0 := 120]) = [48, 120 :: u8]"
    using junk by (cases junk; cases "tl junk") (auto simp: numeral_2_eq_2)
  have "itoa 2 c a (junk[0 := 48, 1 := 120]) = Inr ((48 # 120 # ?n) @ 0 # drop (2 + length ?n + 1) (junk[0 := 48, 1 := 120]))"
    using itoa_spec [of 2 c a "junk[0 := 48, 1 := 120]"] n junk two by simp
  moreover have "c_string ((48 # 120 # ?n) @ 0 # r) = Inr (48 # 120 # ?n)" for r
    by (rule c_string_text) (use n in simp)
  moreover have "itoa 0 c a junk = Inr (?n @ 0 # drop (0 + length ?n + 1) junk)"
    using itoa_spec [of 0 c a junk] n junk by simp
  moreover have "c_string (?n @ 0 # r) = Inr ?n" for r by (rule c_string_text) (use n in simp)
  ultimately show ?thesis using tx len
    by (auto simp: convert_def conversion_text_def emit_buf_def emit_written split: if_splits sum.splits simp del: append_Cons)
qed

lemma finish_written: "length pre < length buffer \<Longrightarrow> finish (written buffer pre) = Inr (length pre, pre @ 0 # drop (length pre + 1) buffer)"
  by (simp add: finish_def written_def store_at_ok list_update_append Cons_nth_drop_Suc [symmetric])

lemma full_written:
  assumes "sz \<noteq> 0"
  shows "full sz (written buffer pre) \<longleftrightarrow> unat sz \<le> length pre + 1"
proof -
  have "unat (sz - 1) = unat sz - 1" using assms by (simp add: unat_minus_one)
  moreover have "0 < unat sz" using assms by (simp add: unat_gt_0)
  ultimately show ?thesis by (auto simp: full_def written_def)
qed

lemma format_loop_written:
  assumes "render str nl fmt args = Some t0" and "length pre + length t0 < unat sz" and "unat sz \<le> length buffer" and "length junk = 20"
  shows "format_loop str junk sz nl fmt args (written buffer pre) =
    Inr (length (pre @ t0), (pre @ t0) @ 0 # drop (length (pre @ t0) + 1) buffer)"
  using assms(1,2)
proof (induction fmt arbitrary: args t0 pre rule: length_induct)
  case (1 fmt)
  have sz: "sz \<noteq> 0" using 1(3) by auto
  have stop: "(if full sz (written buffer (pre @ t)) then finish (written buffer (pre @ t)) else format_loop str junk sz nl fmt' args' (written buffer (pre @ t))) =
      Inr (length (pre @ t @ u), (pre @ t @ u) @ 0 # drop (length (pre @ t @ u) + 1) buffer)"
    if r: "render str nl fmt' args' = Some u" and l: "length fmt' < length fmt" and tx: "t0 = t @ u" for fmt' args' t u
  proof (cases "full sz (written buffer (pre @ t))")
    case True
    then have "unat sz \<le> length (pre @ t) + 1" using full_written [OF sz] by simp
    then have "length u < 1" using 1(3) unfolding tx length_append by linarith
    then have "u = []" by simp
    then show ?thesis using True finish_written [of "pre @ t" buffer] 1(3) tx assms(3) by simp
  next
    case False
    with 1(1) [rule_format, OF l r, of "pre @ t"] 1(3) tx show ?thesis by simp
  qed
  show ?case
  proof (cases fmt)
    case Nil
    with 1(2,3) assms(3) show ?thesis using finish_written [of pre buffer] by simp
  next
    case (Cons c fs)
    show ?thesis
    proof (cases "c = 37")
      case True
      with 1(2) Cons obtain k fmt' a args' t u where f: "fs = k # fmt'" "args = a # args'"
        and t: "conversion_text str k a = Some t" "render str nl fmt' args' = Some u" "t0 = t @ u"
        by (auto split: list.splits option.splits)
      have "convert str junk k (a # args') (written buffer pre) = Inr (args', written buffer (pre @ t))"
        by (rule convert_written [OF t(1) _ assms(4)]) (use 1(3) t(3) assms(3) in simp)
      then show ?thesis using stop [OF t(2) _ t(3)] Cons True f t(3) by simp
    next
      case False
      define t where "t = (if c = 10 then if nl then [13, 10] else [10] else [c])"
      from 1(2) Cons False obtain u where u: "render str nl fs args = Some u" "t0 = t @ u" by (auto simp: t_def)
      have "emit t (written buffer pre) = Inr (written buffer (pre @ t))"
        by (rule emit_written) (use 1(3) u(2) assms(3) in simp)
      then have "(if c = 10 then emit (if nl then [13, 10] else [10]) (written buffer pre) else emit [c] (written buffer pre)) =
          Inr (written buffer (pre @ t))" by (auto simp: t_def)
      then show ?thesis using stop [OF u(1) _ u(2)] Cons False u(2) by simp
    qed
  qed
qed

text \<open>C34: Formatted output. When the arguments fit the conversions and the text of the format is shorter
  than the buffer, \<open>sprintf_va\<close> writes exactly this text with a terminating zero, leaves the rest of
  the buffer alone, and returns the length.\<close>

theorem sprintf_renders:
  assumes "render str nl fmt args = Some text" and "length text < unat sz" and "unat sz \<le> length buffer" and "length junk = 20"
  shows "sprintf_va str junk buffer sz nl fmt args = Inr (length text, text @ 0 # drop (length text + 1) buffer)"
proof -
  have "written buffer [] = (0, buffer)" by (simp add: written_def)
  then show ?thesis using format_loop_written [OF assms(1) _ assms(3,4), of "[]"] assms(2) by (simp add: sprintf_va_def)
qed

theorem sprintf_renders_witness:
  "sprintf_va (\<lambda>p. Inr [65, 66]) (replicate 20 1) (replicate 8 2) 8 False [37, 115, 45, 37, 117] [400, 7] = Inr (4, [65, 66, 45, 55, 0] @ replicate 3 2)"
proof -
  have "render (\<lambda>p. Inr [65, 66]) False [37, 115, 45, 37, 117] [400, 7] = Some [65, 66, 45, 55]"
    by (simp add: conversion_text_def number_text_def digits.simps digit_char_def)
  from sprintf_renders [OF this, of 8 "replicate 8 2" "replicate 20 1"] show ?thesis by simp
qed

text \<open>A string argument is copied without a check: one that does not fit is written behind the buffer.\<close>

lemma emit_overrun: "i \<le> length b \<Longrightarrow> length b < i + length s \<Longrightarrow> emit s (i, b) = Inl Out_Of_Bounds"
proof (induction s arbitrary: i b)
  case (Cons c s)
  show ?case
  proof (cases "i < length b")
    case True
    with Cons show ?thesis by (simp add: store_at_ok)
  qed (simp add: store_at_def in_bounds_def)
qed simp

lemma printf_overrun:
  assumes "str a = Inr s" and "a \<noteq> 0" and "length buffer = 1024" and "1024 < length s"
  shows "os_printf str junk buffer [37, 115] [a] = Inl Out_Of_Bounds"
  using assms emit_overrun [of 0 buffer s] by (simp add: os_printf_def sprintf_va_def convert_def)

end
