(* ===== verification/Breakout.thy ===== *)
theory Breakout
  imports Sgfx_Props
begin

text \<open>
  The game \<open>userspace/breakout/breakout.c\<close>: the ball, the paddle and the bricks, one frame, and the
  main loop as rounds. Coordinates are integers; the coordinate of a mouse event is read as a signed
  word. The frame buffer of the double-buffered window is the list of its two halves one behind
  the other.
\<close>

section \<open>State\<close>

record ball =
  ball_x :: int
  ball_y :: int
  ball_dx :: int
  ball_dy :: int
  ball_size :: int

record paddle =
  pad_x :: int
  pad_y :: int
  pad_w :: int
  pad_h :: int

record breakout =
  board :: "u8 list"
  ball :: ball
  paddle :: paddle
  wait :: int
  fb :: "u32 list"

definition board_w :: nat where "board_w = 12"
definition board_h :: nat where "board_h = 5"
definition window_w :: int where "window_w = 300"
definition window_h :: int where "window_h = 240"

text \<open>\<open>cell_w\<close> and \<open>cell_h\<close>: the window's width and 50 pixels shared out.\<close>

definition cell_w :: int where "cell_w = window_w sdiv int board_w"
definition cell_h :: int where "cell_h = 50 sdiv int board_h"

section \<open>Operations\<close>

definition reset :: "breakout \<Rightarrow> breakout" where
  "reset s = s\<lparr>board := replicate (board_w * board_h) 1,
     ball := \<lparr>ball_x = window_w sdiv 2, ball_y = window_h sdiv 2, ball_dx = 4, ball_dy = 4, ball_size = 10\<rparr>,
     paddle := (paddle s)\<lparr>pad_y := window_h - 25, pad_w := 40, pad_h := 10\<rparr>, wait := 50\<rparr>"

definition ball_intersects :: "ball \<Rightarrow> int \<Rightarrow> int \<Rightarrow> int \<Rightarrow> int \<Rightarrow> bool" where
  "ball_intersects b x y w h \<longleftrightarrow>
     \<not> ball_x b > x + w \<and> \<not> ball_y b > y + h \<and> \<not> ball_x b + ball_size b \<le> x \<and> \<not> ball_y b + ball_size b \<le> y"

text \<open>The walls at the left, right and top.\<close>

definition bounce_walls :: "ball \<Rightarrow> ball" where
  "bounce_walls b =
     (let b1 = (if ball_x b < 0 then b\<lparr>ball_x := 0, ball_dx := - ball_dx b\<rparr> else b);
          b2 = (if ball_x b1 > window_w - ball_size b1
                then b1\<lparr>ball_x := window_w - ball_size b1, ball_dx := - ball_dx b1\<rparr> else b1)
      in if ball_y b2 < 0 then b2\<lparr>ball_y := 0, ball_dy := - ball_dy b2\<rparr> else b2)"

text \<open>The ball takes its step back and turns round: along the x axis if the step was one along it.\<close>

definition turn_back :: "int \<Rightarrow> int \<Rightarrow> ball \<Rightarrow> ball" where
  "turn_back dx dy b =
     (if dx \<noteq> 0 then b\<lparr>ball_x := ball_x b - dx, ball_dx := - ball_dx b\<rparr>
      else b\<lparr>ball_y := ball_y b - dy, ball_dy := - ball_dy b\<rparr>)"

definition hit_paddle :: "int \<Rightarrow> int \<Rightarrow> breakout \<Rightarrow> breakout" where
  "hit_paddle dx dy s =
     (let p = paddle s in
      if ball_intersects (ball s) (pad_x p - pad_w p sdiv 2) (pad_y p - pad_h p sdiv 2) (pad_w p) (pad_h p) then
        (let b = turn_back dx dy (ball s) in
         if dx \<noteq> 0 then s\<lparr>ball := b\<rparr>
         else
           (let delta_x = \<bar>ball_x b + ball_size b sdiv 2 - pad_x p\<bar>;
                speed = (if delta_x > pad_w p sdiv 3 then 7 else 4)
            in s\<lparr>ball := b\<lparr>ball_dx := (if ball_dx b > 0 then speed else - speed)\<rparr>\<rparr>))
      else s)"

text \<open>\<open>cell_of x y\<close> is the index of a brick; the access is checked against the 60 bricks of the board.\<close>

definition cell_of :: "nat \<Rightarrow> nat \<Rightarrow> nat" where
  "cell_of x y = x + y * board_w"

definition hit_brick :: "int \<Rightarrow> int \<Rightarrow> nat \<Rightarrow> nat \<Rightarrow> breakout \<Rightarrow> breakout res" where
  "hit_brick dx dy y x s =
     in_bounds (cell_of x y) (length (board s))
       (Inr (if board s ! cell_of x y = 0 then s
             else if ball_intersects (ball s) (int x * cell_w) (int y * cell_h) (cell_w - 1) (cell_h - 1) then
               s\<lparr>board := (board s)[cell_of x y := 0], ball := turn_back dx dy (ball s)\<rparr>
             else s))"

definition move_ball :: "int \<Rightarrow> int \<Rightarrow> breakout \<Rightarrow> breakout res" where
  "move_ball dx dy s =
     (let b = ball s;
          b1 = bounce_walls (b\<lparr>ball_x := ball_x b + dx, ball_y := ball_y b + dy\<rparr>);
          s1 = (if ball_y b1 > window_h then reset (s\<lparr>ball := b1\<rparr>) else s\<lparr>ball := b1\<rparr>)
      in for_res 0 board_h (\<lambda>y. for_res 0 board_w (hit_brick dx dy y)) (hit_paddle dx dy s1))"

text \<open>The picture of a frame, drawn into a context.\<close>

definition draw_brick :: "u8 list \<Rightarrow> nat \<Rightarrow> nat \<Rightarrow> graphics_context \<Rightarrow> graphics_context res" where
  "draw_brick bd y x c =
     in_bounds (cell_of x y) (length bd)
       (if bd ! cell_of x y \<noteq> 0
        then sgfx_fill_rect (int x * cell_w) (int y * cell_h) (cell_w - 1) (cell_h - 1) 0xFF00FF00 c else Inr c)"

definition draw_game :: "breakout \<Rightarrow> graphics_context \<Rightarrow> graphics_context res" where
  "draw_game s c =
     and_then (sgfx_fill 0xFF222034 c) (\<lambda>c1.
     and_then (for_res 0 board_h (\<lambda>y. for_res 0 board_w (draw_brick (board s) y)) c1) (\<lambda>c2.
     let b = ball s; p = paddle s in
     and_then (sgfx_fill_rect (ball_x b) (ball_y b) (ball_size b) (ball_size b) 0xFFFFFFFF c2) (\<lambda>c3.
     sgfx_fill_rect (pad_x p - pad_w p sdiv 2) (pad_y p - pad_h p sdiv 2) (pad_w p) (pad_h p) 0xFFFFFFFF c3)))"

text \<open>\<open>frame\<close>: the ball moves along the y axis first; the second call reads the speed after the first.\<close>

definition step_game :: "breakout \<Rightarrow> breakout res" where
  "step_game s =
     (if wait s \<noteq> 0 then Inr (s\<lparr>wait := wait s - 1\<rparr>)
      else and_then (move_ball 0 (ball_dy (ball s)) s) (\<lambda>s1. move_ball (ball_dx (ball s1)) 0 s1))"

definition frame :: "graphics_context \<Rightarrow> breakout \<Rightarrow> (graphics_context \<times> breakout) res" where
  "frame c s = and_then (step_game s) (\<lambda>s1. and_then (draw_game s1 c) (\<lambda>d. Inr (d, s1)))"

section \<open>The main loop\<close>

definition pixels :: nat where "pixels = nat (window_w * window_h)"

text \<open>The half of the frame buffer that is not shown, as a context.\<close>

definition hidden_ctx :: "bool \<Rightarrow> u32 list \<Rightarrow> graphics_context" where
  "hidden_ctx second_shown f = sgfx_init (if second_shown then take pixels f else drop pixels f) 300 240"

definition show_ctx :: "bool \<Rightarrow> graphics_context \<Rightarrow> u32 list \<Rightarrow> u32 list" where
  "show_ctx second_shown c f = (if second_shown then framebuffer c @ drop pixels f else take pixels f @ framebuffer c)"

text \<open>Before the loop, with the mapped frame buffer.\<close>

definition start_game :: "u32 list \<Rightarrow> breakout" where
  "start_game f = reset \<lparr>board = replicate (board_w * board_h) 0,
     ball = \<lparr>ball_x = 0, ball_y = 0, ball_dx = 0, ball_dy = 0, ball_size = 0\<rparr>,
     paddle = \<lparr>pad_x = window_w sdiv 2, pad_y = 0, pad_w = 0, pad_h = 0\<rparr>, wait = 0, fb = f\<rparr>"

text \<open>One round: the buffer that \<open>os_swap_window_buffers\<close> showed last, and the x coordinates of the mouse
  movements that are polled after the frame.\<close>

definition game_round :: "bool \<times> u32 list \<Rightarrow> breakout \<Rightarrow> breakout res" where
  "game_round = (\<lambda>(second_shown, moves) s.
     and_then (frame (hidden_ctx second_shown (fb s)) s) (\<lambda>(c, s1).
     Inr (fold (\<lambda>x t. t\<lparr>paddle := (paddle t)\<lparr>pad_x := sint x\<rparr>\<rparr>) moves (s1\<lparr>fb := show_ctx second_shown c (fb s1)\<rparr>))))"

fun play :: "(bool \<times> u32 list) list \<Rightarrow> breakout \<Rightarrow> breakout res" where
  "play [] s = Inr s"
| "play (r # rs) s = and_then (game_round r s) (play rs)"

section \<open>The ball stays in the game\<close>

lemma game_consts: "board_w = 12" "board_h = 5" "window_w = 300" "window_h = 240" "cell_w = 25" "cell_h = 10"
  "cell_w - 1 = 24" "cell_h - 1 = 9"
  by (simp_all add: board_w_def board_h_def window_w_def window_h_def cell_w_def cell_h_def signed_divide_int_def)

text \<open>The speeds the game uses and the sizes that never change; where the ball is after a movement,
  and right after it bounced off the walls.\<close>

definition game_ok :: "breakout \<Rightarrow> bool" where
  "game_ok s \<longleftrightarrow> length (board s) = 60 \<and> set (board s) \<subseteq> {0, 1} \<and> ball_size (ball s) = 10 \<and>
     \<bar>ball_dx (ball s)\<bar> \<in> {4, 7} \<and> \<bar>ball_dy (ball s)\<bar> = 4 \<and>
     pad_y (paddle s) = 215 \<and> pad_w (paddle s) = 40 \<and> pad_h (paddle s) = 10 \<and> 0 \<le> wait s \<and> wait s \<le> 50"

definition ball_near :: "ball \<Rightarrow> bool" where
  "ball_near b \<longleftrightarrow> - 16 \<le> ball_x b \<and> ball_x b \<le> 306 \<and> - 16 \<le> ball_y b \<and> ball_y b \<le> 240"

definition ball_inside :: "ball \<Rightarrow> bool" where
  "ball_inside b \<longleftrightarrow> 0 \<le> ball_x b \<and> ball_x b \<le> 290 \<and> 0 \<le> ball_y b \<and> ball_y b \<le> 240"

text \<open>The bricks that are left are among those before.\<close>

definition fewer_bricks :: "breakout \<Rightarrow> breakout \<Rightarrow> bool" where
  "fewer_bricks s t \<longleftrightarrow> (\<forall>i<60. board t ! i \<noteq> 0 \<longrightarrow> board s ! i \<noteq> 0)"

definition small_step :: "int \<Rightarrow> int \<Rightarrow> bool" where
  "small_step dx dy \<longleftrightarrow> \<bar>dx\<bar> \<le> 7 \<and> \<bar>dy\<bar> \<le> 7"

lemma fewer_bricks_trans: "fewer_bricks s t \<Longrightarrow> fewer_bricks t u \<Longrightarrow> fewer_bricks s u"
  by (simp add: fewer_bricks_def)

lemma game_ok_reset: "game_ok (reset s)" "ball_inside (ball (reset s))" "fb (reset s) = fb s"
  by (auto simp: game_ok_def ball_inside_def reset_def game_consts signed_divide_int_def split: if_splits)

lemma inside_near: "ball_inside b \<Longrightarrow> ball_near b"
  by (simp add: ball_inside_def ball_near_def)

lemma bounce_walls_ok:
  assumes "ball_size b = 10"
  shows "ball_size (bounce_walls b) = 10" "\<bar>ball_dx (bounce_walls b)\<bar> = \<bar>ball_dx b\<bar>" "\<bar>ball_dy (bounce_walls b)\<bar> = \<bar>ball_dy b\<bar>"
    "ball_y (bounce_walls b) \<le> 240 \<longrightarrow> ball_inside (bounce_walls b)"
    "ball_y (bounce_walls b) = max 0 (ball_y b)"
  using assms by (auto simp: bounce_walls_def ball_inside_def Let_def game_consts)

lemma hit_paddle_ok:
  assumes "game_ok s" and "small_step dx dy" and "ball_inside (ball s)"
  shows "game_ok (hit_paddle dx dy s)" "ball_near (ball (hit_paddle dx dy s))" "board (hit_paddle dx dy s) = board s"
    "fb (hit_paddle dx dy s) = fb s"
  using assms
  by (auto simp: game_ok_def ball_near_def ball_inside_def small_step_def hit_paddle_def turn_back_def ball_intersects_def
      signed_divide_int_def Let_def)

lemma turn_back_near:
  assumes "ball_near b" and "small_step dx dy" and "ball_size b = 10" and "x < 12" and "y < 5"
    and "ball_intersects b (int x * cell_w) (int y * cell_h) (cell_w - 1) (cell_h - 1)"
  shows "ball_near (turn_back dx dy b)"
proof -
  have "int x * 25 \<ge> 0" "int x * 25 \<le> 275" "int y * 10 \<ge> 0" "int y * 10 \<le> 40" using assms(4,5) by auto
  with assms show ?thesis
    unfolding ball_intersects_def game_consts ball_near_def turn_back_def small_step_def by auto
qed

lemma hit_brick_ok:
  assumes "game_ok s" and "small_step dx dy" and "ball_near (ball s)" and "x < 12" "y < 5"
  shows "\<exists>t. hit_brick dx dy y x s = Inr t \<and> game_ok t \<and> ball_near (ball t) \<and> fewer_bricks s t \<and> fb t = fb s"
proof -
  have i: "cell_of x y < 60" using assms(4,5) by (simp add: cell_of_def game_consts)
  define t where "t = (if board s ! cell_of x y = 0 then s
      else if ball_intersects (ball s) (int x * cell_w) (int y * cell_h) (cell_w - 1) (cell_h - 1) then
        s\<lparr>board := (board s)[cell_of x y := 0], ball := turn_back dx dy (ball s)\<rparr>
      else s)"
  have "hit_brick dx dy y x s = Inr t" using assms(1) i by (simp add: hit_brick_def t_def game_ok_def)
  moreover have "game_ok t"
    using assms(1) set_update_subset_insert [of "board s" "cell_of x y" 0] by (auto simp: t_def game_ok_def turn_back_def)
  moreover have "ball_near (ball t)"
    using turn_back_near [OF assms(3,2) _ assms(4,5)] assms(1,3) by (simp add: t_def game_ok_def)
  moreover have "fewer_bricks s t"
    using assms(1) i by (auto simp: t_def fewer_bricks_def game_ok_def nth_list_update split: if_splits)
  moreover have "fb t = fb s" by (simp add: t_def)
  ultimately show ?thesis by blast
qed

text \<open>A loop over the cells of the board keeps what each cell keeps.\<close>

lemma for_cells:
  assumes "I s" and "\<And>x y t. x < 12 \<Longrightarrow> y < 5 \<Longrightarrow> I t \<Longrightarrow> \<exists>u. body y x t = Inr u \<and> I u"
  shows "\<exists>t. for_res 0 board_h (\<lambda>y. for_res 0 board_w (body y)) s = Inr t \<and> I t"
proof -
  have row: "\<exists>u. for_res 0 12 (body y) t = Inr u \<and> I u" if y: "y < 5" and "I t" for y t
    using for_res_rule [of 0 12 "\<lambda>_. I" t "body y"] assms(2) y \<open>I t\<close> by auto
  show ?thesis
    using for_res_rule [of 0 5 "\<lambda>_. I" s "\<lambda>y. for_res 0 12 (body y)"] row assms(1) by (auto simp: game_consts)
qed

lemma hit_bricks_ok:
  assumes "game_ok s" and "small_step dx dy" and "ball_near (ball s)"
  shows "\<exists>t. for_res 0 board_h (\<lambda>y. for_res 0 board_w (hit_brick dx dy y)) s = Inr t \<and>
    game_ok t \<and> ball_near (ball t) \<and> fewer_bricks s t \<and> fb t = fb s"
  by (rule for_cells [where I = "\<lambda>t. game_ok t \<and> ball_near (ball t) \<and> fewer_bricks s t \<and> fb t = fb s"])
    (use assms hit_brick_ok fewer_bricks_trans in \<open>auto simp: fewer_bricks_def\<close>, metis)

lemma move_ball_ok:
  assumes ok: "game_ok s" and st: "small_step dx dy"
  shows "\<exists>t. move_ball dx dy s = Inr t \<and> game_ok t \<and> ball_near (ball t) \<and> fb t = fb s \<and>
    (ball_y (ball s) + dy \<le> 240 \<longrightarrow> fewer_bricks s t)"
proof -
  define b1 where "b1 = bounce_walls ((ball s)\<lparr>ball_x := ball_x (ball s) + dx, ball_y := ball_y (ball s) + dy\<rparr>)"
  define s1 where "s1 = (if ball_y b1 > window_h then reset (s\<lparr>ball := b1\<rparr>) else s\<lparr>ball := b1\<rparr>)"
  note bw = bounce_walls_ok [of "(ball s)\<lparr>ball_x := ball_x (ball s) + dx, ball_y := ball_y (ball s) + dy\<rparr>", folded b1_def]
  have size: "ball_size (ball s) = 10" using ok by (simp add: game_ok_def)
  have s1: "game_ok s1" "ball_inside (ball s1)" "fb s1 = fb s" "ball_y (ball s) + dy \<le> 240 \<longrightarrow> board s1 = board s"
    using ok bw size game_ok_reset by (auto simp: s1_def game_consts game_ok_def)
  note hp = hit_paddle_ok [OF s1(1) st s1(2)]
  obtain t where "for_res 0 board_h (\<lambda>y. for_res 0 board_w (hit_brick dx dy y)) (hit_paddle dx dy s1) = Inr t"
    "game_ok t" "ball_near (ball t)" "fewer_bricks (hit_paddle dx dy s1) t" "fb t = fb s"
    using hit_bricks_ok [OF hp(1) st hp(2)] hp(4) s1(3) by auto
  moreover from this(4) hp(3) s1(4) have "ball_y (ball s) + dy \<le> 240 \<longrightarrow> fewer_bricks s t" by (auto simp: fewer_bricks_def)
  ultimately show ?thesis unfolding move_ball_def Let_def b1_def [symmetric] s1_def [symmetric] by blast
qed

text \<open>A step of the game refills the board only if the ball falls below the window.\<close>

lemma step_game_ok:
  assumes ok: "game_ok s" and near: "ball_near (ball s)"
  shows "\<exists>t. step_game s = Inr t \<and> game_ok t \<and> ball_near (ball t) \<and> fb t = fb s \<and>
    (ball_y (ball s) + ball_dy (ball s) \<le> 240 \<or> wait s \<noteq> 0 \<longrightarrow> fewer_bricks s t)"
proof (cases "wait s = 0")
  case True
  have "small_step 0 (ball_dy (ball s))" using ok by (auto simp: game_ok_def small_step_def)
  from move_ball_ok [OF ok this] obtain s1 where s1: "move_ball 0 (ball_dy (ball s)) s = Inr s1" "game_ok s1"
    "ball_near (ball s1)" "fb s1 = fb s" "ball_y (ball s) + ball_dy (ball s) \<le> 240 \<longrightarrow> fewer_bricks s s1" by blast
  have "small_step (ball_dx (ball s1)) 0" using s1(2) by (auto simp: game_ok_def small_step_def)
  from move_ball_ok [OF s1(2) this] obtain t where "move_ball (ball_dx (ball s1)) 0 s1 = Inr t" "game_ok t"
    "ball_near (ball t)" "fb t = fb s1" "ball_y (ball s1) \<le> 240 \<longrightarrow> fewer_bricks s1 t" by auto
  then show ?thesis using s1 True fewer_bricks_trans by (auto simp: step_game_def ball_near_def)
next
  case False
  then show ?thesis using ok near by (auto simp: step_game_def game_ok_def fewer_bricks_def)
qed

section \<open>The picture\<close>

lemma fill_ctx:
  assumes "ctx_ok c" and "unat (drop_bit 2 (bytesize c)) \<le> length (framebuffer c)" and "drop_bit 2 (bytesize c) mod 4 = 0"
  shows "\<exists>d. sgfx_fill color c = Inr d \<and> same_ctx c d"
proof -
  let ?n = "unat (drop_bit 2 (bytesize c))"
  have "\<exists>d. for_res 0 ?n (\<lambda>i. put_index (of_nat i) color) c = Inr d \<and> same_ctx c d"
  proof (rule for_res_rule)
    show "same_ctx c c" using assms(1) by (simp add: same_ctx_def)
    show "\<exists>d'. put_index (of_nat i) color d = Inr d' \<and> same_ctx c d'" if i: "i < ?n" and d: "same_ctx c d" for i d
    proof -
      have "unat (of_nat i :: u32) = i" using i unsigned_less [of "drop_bit 2 (bytesize c)", where ?'a = nat] by (intro unat_of_nat_small) simp
      moreover have "length (framebuffer d) = length (framebuffer c)" using d assms(1) by (simp add: same_ctx_def ctx_ok_def)
      ultimately show ?thesis using i assms(2) d by (auto simp: put_index_def same_ctx_def ctx_ok_def)
    qed
  qed simp
  then show ?thesis using assms(3) by (auto simp: sgfx_fill_def Let_def)
qed

lemma draw_game_ok:
  assumes ok: "game_ok s" and f: "length f = 72000"
  shows "\<exists>d. draw_game s (sgfx_init f 300 240) = Inr d \<and> length (framebuffer d) = 72000"
proof -
  let ?c = "sgfx_init f 300 240"
  have c: "ctx_ok ?c" using f by (simp add: ctx_ok_def sgfx_init_def)
  have keep: "\<exists>e. sgfx_fill_rect x y w h col d = Inr e \<and> same_ctx ?c e" if "same_ctx ?c d" for x y w h col d
  proof -
    have "ctx_ok d" using that by (simp add: same_ctx_def)
    from fill_rect_spec [OF this] show ?thesis using same_ctx_trans [OF that] by blast
  qed
  have size: "drop_bit 2 (bytesize ?c) = 72000" by (simp add: sgfx_init_def drop_bit_eq_div)
  have "length (framebuffer ?c) = 72000" using f by (simp add: sgfx_init_def)
  then obtain c1 where c1: "sgfx_fill 0xFF222034 ?c = Inr c1" "same_ctx ?c c1"
    using fill_ctx [OF c, unfolded size, of "0xFF222034"] by auto
  have brick: "\<exists>e. draw_brick (board s) y x d = Inr e \<and> same_ctx ?c e" if "x < 12" "y < 5" "same_ctx ?c d" for x y d
  proof -
    have "cell_of x y < length (board s)" using that(1,2) ok by (simp add: cell_of_def game_consts game_ok_def)
    then show ?thesis using keep [OF that(3)] that(3) by (simp add: draw_brick_def)
  qed
  obtain c2 where c2: "for_res 0 board_h (\<lambda>y. for_res 0 board_w (draw_brick (board s) y)) c1 = Inr c2" "same_ctx ?c c2"
    using for_cells [of "same_ctx ?c" c1 "draw_brick (board s)"] c1(2) brick by blast
  obtain c3 where c3: "sgfx_fill_rect (ball_x (ball s)) (ball_y (ball s)) (ball_size (ball s)) (ball_size (ball s)) 0xFFFFFFFF c2 = Inr c3"
    "same_ctx ?c c3" using keep [OF c2(2)] by blast
  obtain d where "sgfx_fill_rect (pad_x (paddle s) - pad_w (paddle s) sdiv 2) (pad_y (paddle s) - pad_h (paddle s) sdiv 2)
      (pad_w (paddle s)) (pad_h (paddle s)) 0xFFFFFFFF c3 = Inr d" "same_ctx ?c d"
    using keep [OF c3(2)] by blast
  moreover from this(2) have "length (framebuffer d) = 72000" by (simp add: same_ctx_def ctx_ok_def sgfx_init_def)
  ultimately show ?thesis using c1 c2 c3 by (simp add: draw_game_def Let_def)
qed

section \<open>Rounds\<close>

lemma moves_keep:
  defines "move \<equiv> \<lambda>x t :: breakout. t\<lparr>paddle := (paddle t)\<lparr>pad_x := sint (x :: u32)\<rparr>\<rparr>"
  shows "game_ok (fold move moves s) = game_ok s" "ball (fold move moves s) = ball s"
    "board (fold move moves s) = board s" "fb (fold move moves s) = fb s"
proof -
  have "game_ok (move x t) = game_ok t" "ball (move x t) = ball t" "board (move x t) = board t" "fb (move x t) = fb t" for x t
    by (simp_all add: move_def game_ok_def)
  then show "game_ok (fold move moves s) = game_ok s" "ball (fold move moves s) = ball s"
    "board (fold move moves s) = board s" "fb (fold move moves s) = fb s"
    by (induction moves arbitrary: s) simp_all
qed

lemma game_round_ok:
  assumes ok: "game_ok s" "ball_near (ball s)" and f: "length (fb s) = 2 * pixels"
  shows "\<exists>t. game_round r s = Inr t \<and> game_ok t \<and> ball_near (ball t) \<and> length (fb t) = 2 * pixels \<and>
    (ball_y (ball s) + ball_dy (ball s) \<le> 240 \<or> wait s \<noteq> 0 \<longrightarrow> fewer_bricks s t)"
proof -
  obtain second moves where r: "r = (second, moves)" by (cases r)
  have px: "pixels = 72000" by (simp add: pixels_def game_consts)
  obtain s1 where s1: "step_game s = Inr s1" "game_ok s1" "ball_near (ball s1)" "fb s1 = fb s"
    "ball_y (ball s) + ball_dy (ball s) \<le> 240 \<or> wait s \<noteq> 0 \<longrightarrow> fewer_bricks s s1" using step_game_ok [OF ok] by blast
  have half: "length (if second then take pixels (fb s) else drop pixels (fb s)) = 72000" using f px by simp
  obtain d where d: "draw_game s1 (hidden_ctx second (fb s)) = Inr d" "length (framebuffer d) = 72000"
    unfolding hidden_ctx_def using draw_game_ok [OF s1(2) half] by blast
  have "game_ok (s1\<lparr>fb := show_ctx second d (fb s)\<rparr>)" using s1(2) by (simp add: game_ok_def)
  then show ?thesis using s1 d f px
    by (auto simp: game_round_def r frame_def moves_keep show_ctx_def fewer_bricks_def)
qed

text \<open>C35: The game never goes wrong. Started on a frame buffer of two pictures, every sequence of
  rounds, whatever mouse movements they read, runs without a fault (all brick accesses are inside
  the board and all drawing inside the hidden half of the frame buffer). At any time the ball moves
  by 4 or 7 pixels along the x axis and by 4 along the y axis, is less than a cell away from the window,
  and the next round brings no brick back unless the ball falls out at the bottom.\<close>

theorem breakout_plays:
  assumes "length f = 2 * pixels"
  shows "\<exists>s. play rounds (start_game f) = Inr s \<and> game_ok s \<and> ball_near (ball s) \<and> length (fb s) = 2 * pixels \<and>
    (\<exists>t. game_round r s = Inr t \<and> (ball_y (ball s) + ball_dy (ball s) \<le> 240 \<or> wait s \<noteq> 0 \<longrightarrow> fewer_bricks s t))"
proof -
  have run: "\<exists>t. play rounds s = Inr t \<and> game_ok t \<and> ball_near (ball t) \<and> length (fb t) = 2 * pixels"
    if "game_ok s" "ball_near (ball s)" "length (fb s) = 2 * pixels" for s
    using that
  proof (induction rounds arbitrary: s)
    case (Cons q rounds)
    with game_round_ok [OF Cons.prems, of q] show ?case by auto
  qed simp
  have start: "game_ok (start_game f)" "ball_near (ball (start_game f))" "length (fb (start_game f)) = 2 * pixels"
    using game_ok_reset(1,3) inside_near [OF game_ok_reset(2)] assms by (simp_all add: start_game_def)
  from run [OF start] obtain s where s: "play rounds (start_game f) = Inr s" "game_ok s" "ball_near (ball s)"
    "length (fb s) = 2 * pixels" by blast
  with game_round_ok [OF s(2-4), of r] show ?thesis by blast
qed

theorem breakout_plays_witness:
  "\<exists>s t. play [(False, [7]), (True, [])] (start_game (replicate 144000 0)) = Inr s \<and> game_ok s \<and>
     game_round (False, [0xFFFFFFFF]) s = Inr t"
  using breakout_plays [of "replicate 144000 0" "[(False, [7]), (True, [])]" "(False, [0xFFFFFFFF])"]
  by (auto simp: pixels_def game_consts)

end
