(* ===== verification/Libc_Strings.thy ===== *)
theory Libc_Strings
  imports Strings
begin

text \<open>
  The memory and string routines of the C library of the programs (\<open>userspace/libc/src/mem*.c\<close>,
  \<open>str*.c\<close>). A routine that reads a string reads the bytes behind its pointer as a list; one that
  changes memory works on the list of bytes that its pointers, as indices, point into. Reading or writing
  behind the end of the list is \<open>Out_Of_Bounds\<close>.
\<close>

section \<open>Memory\<close>

text \<open>\<open>rep movsb\<close> upwards and, with the direction flag set, downwards from the last byte.\<close>

fun copy_up :: "nat \<Rightarrow> nat \<Rightarrow> nat \<Rightarrow> u8 list \<Rightarrow> u8 list res" where
  "copy_up p q 0 m = Inr m"
| "copy_up p q (Suc n) m =
     in_bounds p (length m) (in_bounds q (length m) (copy_up (p + 1) (q + 1) n (m[q := m ! p])))"

fun copy_down :: "nat \<Rightarrow> nat \<Rightarrow> nat \<Rightarrow> u8 list \<Rightarrow> u8 list res" where
  "copy_down p q 0 m = Inr m"
| "copy_down p q (Suc n) m =
     in_bounds (p + n) (length m) (in_bounds (q + n) (length m) (copy_down p q n (m[q + n := m ! (p + n)])))"

text \<open>\<open>rep movsl\<close>: four bytes are read before they are written.\<close>

fun copy_longs :: "nat \<Rightarrow> nat \<Rightarrow> nat \<Rightarrow> u8 list \<Rightarrow> u8 list res" where
  "copy_longs p q 0 m = Inr m"
| "copy_longs p q (Suc n) m =
     in_bounds (p + 3) (length m) (in_bounds (q + 3) (length m)
       (copy_longs (p + 4) (q + 4) n (m[q := m ! p, q + 1 := m ! (p + 1), q + 2 := m ! (p + 2), q + 3 := m ! (p + 3)])))"

definition libc_memcpy :: "nat \<Rightarrow> nat \<Rightarrow> nat \<Rightarrow> u8 list \<Rightarrow> u8 list res" where
  "libc_memcpy dst src n m =
     (let nl = n div 4 in
      and_then (copy_longs src dst nl m) (copy_up (src + 4 * nl) (dst + 4 * nl) (n mod 4)))"

definition libc_memmove :: "nat \<Rightarrow> nat \<Rightarrow> nat \<Rightarrow> u8 list \<Rightarrow> u8 list res" where
  "libc_memmove dst src n m = (if dst < src then copy_up src dst n m else copy_down src dst n m)"

fun fill_bytes :: "nat \<Rightarrow> u8 \<Rightarrow> nat \<Rightarrow> u8 list \<Rightarrow> u8 list res" where
  "fill_bytes q c 0 m = Inr m"
| "fill_bytes q c (Suc n) m = in_bounds q (length m) (fill_bytes (q + 1) c n (m[q := c]))"

text \<open>\<open>memset\<close> stores \<open>n >> 2\<close> words of four equal bytes and then \<open>n & 3\<close> bytes.\<close>

definition libc_memset :: "nat \<Rightarrow> u8 \<Rightarrow> nat \<Rightarrow> u8 list \<Rightarrow> u8 list res" where
  "libc_memset dst c n m =
     and_then (fill_bytes dst c (4 * (n div 4)) m) (fill_bytes (dst + 4 * (n div 4)) c (n mod 4))"

definition libc_bzero :: "nat \<Rightarrow> nat \<Rightarrow> u8 list \<Rightarrow> u8 list res" where
  "libc_bzero dst n m = libc_memset dst 0 n m"

text \<open>\<open>memccpy\<close>: the result is the pointer behind the byte \<open>c\<close>, if it was copied.\<close>

fun libc_memccpy :: "nat \<Rightarrow> nat \<Rightarrow> u8 \<Rightarrow> nat \<Rightarrow> u8 list \<Rightarrow> (nat option \<times> u8 list) res" where
  "libc_memccpy q p c 0 m = Inr (None, m)"
| "libc_memccpy q p c (Suc n) m =
     in_bounds p (length m) (in_bounds q (length m)
       (let m1 = m[q := m ! p] in if m ! p = c then Inr (Some (q + 1), m1) else libc_memccpy (q + 1) (p + 1) c n m1))"

fun libc_memchr :: "u8 list \<Rightarrow> u8 \<Rightarrow> nat \<Rightarrow> nat option res" where
  "libc_memchr s c 0 = Inr None"
| "libc_memchr [] c (Suc n) = Inl Out_Of_Bounds"
| "libc_memchr (a # s) c (Suc n) = (if a = c then Inr (Some 0) else and_then (libc_memchr s c n) (\<lambda>p. Inr (map_option Suc p)))"

fun libc_memrchr :: "u8 list \<Rightarrow> u8 \<Rightarrow> nat \<Rightarrow> nat option res" where
  "libc_memrchr s c 0 = Inr None"
| "libc_memrchr s c (Suc n) = in_bounds n (length s) (if s ! n = c then Inr (Some n) else libc_memrchr s c n)"

fun libc_memcmp :: "u8 list \<Rightarrow> u8 list \<Rightarrow> nat \<Rightarrow> int res" where
  "libc_memcmp s1 s2 0 = Inr 0"
| "libc_memcmp (a # s1) (b # s2) (Suc n) = (let d = uint a - uint b in if d \<noteq> 0 then Inr d else libc_memcmp s1 s2 n)"
| "libc_memcmp s1 s2 (Suc n) = Inl Out_Of_Bounds"

text \<open>The search of \<open>memmem\<close> at position \<open>j\<close>, for a needle \<open>x\<close> of \<open>m \<ge> 2\<close> bytes in a haystack \<open>y\<close> of \<open>n\<close> bytes.
  The position cannot wrap around: it is at most \<open>n - m + 2\<close>.\<close>

function memmem_from :: "nat \<Rightarrow> u8 list \<Rightarrow> nat \<Rightarrow> u8 list \<Rightarrow> nat \<Rightarrow> nat option res" where
  "memmem_from j y n x m =
     (let k = (if x ! 0 = x ! 1 then 2 else 1); l = (if x ! 0 = x ! 1 then 1 else 2) in
      if \<not> (2 \<le> m \<and> j \<le> n - m) then Inr None
      else in_bounds (j + 1) (length y) (in_bounds 1 (length x)
        (if x ! 1 \<noteq> y ! (j + 1) then memmem_from (j + k) y n x m
         else and_then (libc_memcmp (drop 2 x) (drop (j + 2) y) (m - 2)) (\<lambda>d.
           if d = 0 \<and> x ! 0 = y ! j then Inr (Some j) else memmem_from (j + l) y n x m))))"
  by pat_completeness auto
termination by (relation "measure (\<lambda>(j, y, n, x, m). n - m + 1 - j)") (auto split: if_splits)

declare memmem_from.simps [simp del]

text \<open>A needle of one byte is searched byte by byte.\<close>

definition libc_memmem :: "u8 list \<Rightarrow> nat \<Rightarrow> u8 list \<Rightarrow> nat \<Rightarrow> nat option res" where
  "libc_memmem haystack n needle m =
     (if m > n \<or> m = 0 \<or> n = 0 then Inr None
      else if m \<noteq> 1 then memmem_from 0 haystack n needle m
      else in_bounds 0 (length needle) (libc_memchr haystack (needle ! 0) n))"

section \<open>Strings\<close>

fun libc_strlen :: "u8 list \<Rightarrow> nat res" where
  "libc_strlen [] = Inl Out_Of_Bounds"
| "libc_strlen (c # s) = (if c \<noteq> 0 then and_then (libc_strlen s) (\<lambda>n. Inr (n + 1)) else Inr 0)"

text \<open>\<open>strcpy\<close> to the pointer where \<open>dst\<close> begins.\<close>

fun libc_strcpy :: "u8 list \<Rightarrow> u8 list \<Rightarrow> u8 list res" where
  "libc_strcpy [] src = Inl Out_Of_Bounds"
| "libc_strcpy dst [] = Inl Out_Of_Bounds"
| "libc_strcpy (d # dst) (c # src) =
     (if c \<noteq> 0 then and_then (libc_strcpy dst src) (\<lambda>m. Inr (c # m)) else Inr (c # dst))"

fun libc_strchr :: "u8 list \<Rightarrow> u8 \<Rightarrow> nat option res" where
  "libc_strchr [] c = Inl Out_Of_Bounds"
| "libc_strchr (a # s) c =
     (if a = c then Inr (Some 0) else if a = 0 then Inr None
      else and_then (libc_strchr s c) (\<lambda>p. Inr (map_option Suc p)))"

text \<open>\<open>strcat\<close>; a null pointer from \<open>strchr\<close> would be written to.\<close>

definition libc_strcat :: "u8 list \<Rightarrow> u8 list \<Rightarrow> u8 list res" where
  "libc_strcat dst src =
     and_then (libc_strchr dst 0) (\<lambda>p.
     case p of None \<Rightarrow> Inl Page_Fault | Some i \<Rightarrow> and_then (libc_strcpy (drop i dst) src) (\<lambda>m. Inr (take i dst @ m)))"

fun libc_strcmp :: "u8 list \<Rightarrow> u8 list \<Rightarrow> int res" where
  "libc_strcmp (a # s1) (b # s2) =
     (let d = uint a - uint b in if d \<noteq> 0 \<or> a = 0 then Inr d else libc_strcmp s1 s2)"
| "libc_strcmp s1 s2 = Inl Out_Of_Bounds"

text \<open>The loop of \<open>strrchr\<close> at index \<open>i\<close>, with the last position found so far.\<close>

fun libc_strrchr_loop :: "u8 list \<Rightarrow> u8 \<Rightarrow> nat \<Rightarrow> nat option \<Rightarrow> nat option res" where
  "libc_strrchr_loop [] c i found = Inl Out_Of_Bounds"
| "libc_strrchr_loop (a # s) c i found =
     (if a \<noteq> 0 then libc_strrchr_loop s c (i + 1) (if a = c then Some i else found) else Inr found)"

definition libc_strrchr :: "u8 list \<Rightarrow> u8 \<Rightarrow> nat option res" where
  "libc_strrchr s c = libc_strrchr_loop s c 0 None"

fun libc_strnlen :: "u8 list \<Rightarrow> nat \<Rightarrow> nat res" where
  "libc_strnlen s 0 = Inr 0"
| "libc_strnlen [] (Suc n) = Inl Out_Of_Bounds"
| "libc_strnlen (c # s) (Suc n) = (if c \<noteq> 0 then and_then (libc_strnlen s n) (\<lambda>k. Inr (k + 1)) else Inr 0)"

fun libc_strncmp :: "u8 list \<Rightarrow> u8 list \<Rightarrow> nat \<Rightarrow> int res" where
  "libc_strncmp s1 s2 0 = Inr 0"
| "libc_strncmp (a # s1) (b # s2) (Suc n) =
     (let d = uint a - uint b in if d \<noteq> 0 \<or> a = 0 then Inr d else libc_strncmp s1 s2 n)"
| "libc_strncmp s1 s2 (Suc n) = Inl Out_Of_Bounds"

text \<open>\<open>ctype.h\<close>\<close>

definition islower :: "u8 \<Rightarrow> bool" where "islower c \<longleftrightarrow> c \<ge> 97 \<and> c \<le> 122"
definition toupper :: "u8 \<Rightarrow> u8" where "toupper c = (if islower c then c AND NOT 32 else c)"

fun libc_strcasecmp :: "u8 list \<Rightarrow> u8 list \<Rightarrow> int res" where
  "libc_strcasecmp (a # s1) (b # s2) =
     (let d = uint (toupper a) - uint (toupper b) in if d \<noteq> 0 \<or> a = 0 then Inr d else libc_strcasecmp s1 s2)"
| "libc_strcasecmp s1 s2 = Inl Out_Of_Bounds"

fun libc_strncasecmp :: "u8 list \<Rightarrow> u8 list \<Rightarrow> nat \<Rightarrow> int res" where
  "libc_strncasecmp s1 s2 0 = Inr 0"
| "libc_strncasecmp (a # s1) (b # s2) (Suc n) =
     (let d = uint (toupper a) - uint (toupper b) in if d \<noteq> 0 \<or> a = 0 then Inr d else libc_strncasecmp s1 s2 n)"
| "libc_strncasecmp s1 s2 (Suc n) = Inl Out_Of_Bounds"

text \<open>\<open>strncpy\<close> and the loop of \<open>strncat\<close>, to the pointer where \<open>dst\<close> begins.\<close>

fun libc_strncpy :: "u8 list \<Rightarrow> u8 list \<Rightarrow> nat \<Rightarrow> u8 list res" where
  "libc_strncpy dst src 0 = Inr dst"
| "libc_strncpy (d # dst) (c # src) (Suc n) =
     and_then (if c = 0 then libc_memset 0 0 n dst else libc_strncpy dst src n) (\<lambda>m. Inr (c # m))"
| "libc_strncpy dst src (Suc n) = Inl Out_Of_Bounds"

fun strncat_loop :: "u8 list \<Rightarrow> u8 list \<Rightarrow> nat \<Rightarrow> u8 list res" where
  "strncat_loop (d # dst) src 0 = Inr (0 # dst)"
| "strncat_loop (d # dst) (c # src) (Suc n) =
     (if c = 0 then Inr (c # dst) else and_then (strncat_loop dst src n) (\<lambda>m. Inr (c # m)))"
| "strncat_loop dst src n = Inl Out_Of_Bounds"

definition libc_strncat :: "u8 list \<Rightarrow> u8 list \<Rightarrow> nat \<Rightarrow> u8 list res" where
  "libc_strncat dst src n =
     and_then (libc_strchr dst 0) (\<lambda>p.
     case p of None \<Rightarrow> Inl Page_Fault | Some i \<Rightarrow> and_then (strncat_loop (drop i dst) src n) (\<lambda>m. Inr (take i dst @ m)))"

text \<open>The copying loop of \<open>strlcpy\<close> and \<open>strlcat\<close>: the write pointer, the count and the buffer.\<close>

fun strl_copy :: "u8 list \<Rightarrow> nat \<Rightarrow> nat \<Rightarrow> nat \<Rightarrow> u8 list \<Rightarrow> (nat \<times> nat \<times> u8 list) res" where
  "strl_copy [] q bytes bufsize dst = Inl Out_Of_Bounds"
| "strl_copy (c # src) q bytes bufsize dst =
     (if c = 0 then Inr (q, bytes, dst)
      else if bytes + 1 < bufsize then in_bounds q (length dst) (strl_copy src (q + 1) (bytes + 1) bufsize (dst[q := c]))
      else strl_copy src q (bytes + 1) bufsize dst)"

definition libc_strlcpy :: "u8 list \<Rightarrow> u8 list \<Rightarrow> nat \<Rightarrow> (nat \<times> u8 list) res" where
  "libc_strlcpy dst src bufsize =
     and_then (strl_copy src 0 0 bufsize dst) (\<lambda>(q, bytes, dst1).
     if bufsize \<noteq> 0 then in_bounds q (length dst1) (Inr (bytes, dst1[q := 0])) else Inr (bytes, dst1))"

definition libc_strlcat :: "u8 list \<Rightarrow> u8 list \<Rightarrow> nat \<Rightarrow> (nat \<times> u8 list) res" where
  "libc_strlcat dst src bufsize =
     and_then (libc_strnlen dst bufsize) (\<lambda>k.
     if k = bufsize then and_then (libc_strlen src) (\<lambda>n. Inr (k + n, dst))
     else
       and_then (strl_copy src k k bufsize dst) (\<lambda>(q, bytes, dst1).
       in_bounds q (length dst1) (Inr (bytes, dst1[q := 0]))))"

text \<open>\<open>for (c = s2; *c; c++) if (*s1 == *c) break;\<close>: whether the loop ends before the terminator.\<close>

fun in_charset :: "u8 \<Rightarrow> u8 list \<Rightarrow> bool res" where
  "in_charset a [] = Inl Out_Of_Bounds"
| "in_charset a (c # s2) = (if c = 0 then Inr False else if a = c then Inr True else in_charset a s2)"

fun libc_strspn :: "u8 list \<Rightarrow> u8 list \<Rightarrow> nat res" where
  "libc_strspn [] s2 = Inl Out_Of_Bounds"
| "libc_strspn (a # s1) s2 =
     (if a = 0 then Inr 0
      else and_then (in_charset a s2) (\<lambda>b. if \<not> b then Inr 0 else and_then (libc_strspn s1 s2) (\<lambda>k. Inr (k + 1))))"

fun libc_strcspn :: "u8 list \<Rightarrow> u8 list \<Rightarrow> nat res" where
  "libc_strcspn [] s2 = Inl Out_Of_Bounds"
| "libc_strcspn (a # s1) s2 =
     (if a = 0 then Inr 0
      else and_then (in_charset a s2) (\<lambda>b. if b then Inr 0 else and_then (libc_strcspn s1 s2) (\<lambda>k. Inr (k + 1))))"

fun libc_strpbrk :: "u8 list \<Rightarrow> u8 list \<Rightarrow> nat option res" where
  "libc_strpbrk [] s2 = Inl Out_Of_Bounds"
| "libc_strpbrk (a # s1) s2 =
     (if a = 0 then Inr None
      else and_then (in_charset a s2) (\<lambda>b.
        if b then Inr (Some 0) else and_then (libc_strpbrk s1 s2) (\<lambda>p. Inr (map_option Suc p))))"

text \<open>\<open>strsep\<close>: the token, the pointer that remains and the memory.\<close>

definition libc_strsep :: "nat option \<Rightarrow> u8 list \<Rightarrow> u8 list \<Rightarrow> (nat option \<times> nat option \<times> u8 list) res" where
  "libc_strsep stringp delim m =
     (case stringp of
        None \<Rightarrow> Inr (None, None, m)
      | Some s \<Rightarrow>
          and_then (libc_strpbrk (drop s m) delim) (\<lambda>e.
          Inr (case e of None \<Rightarrow> (Some s, None, m) | Some k \<Rightarrow> (Some s, Some (s + k + 1), m[s + k := 0]))))"

text \<open>\<open>do s = strsep(holder, delim); while (s && !*s);\<close>\<close>

partial_function (option) strtok_loop :: "nat option \<Rightarrow> u8 list \<Rightarrow> u8 list \<Rightarrow> (nat option \<times> nat option \<times> u8 list) run" where
  "strtok_loop holder delim m =
     run_then (Some (libc_strsep holder delim m)) (\<lambda>(s, holder1, m1).
     case s of None \<Rightarrow> Some (Inr (None, holder1, m1))
     | Some i \<Rightarrow> if i < length m1 then (if m1 ! i = 0 then strtok_loop holder1 delim m1 else Some (Inr (s, holder1, m1)))
                 else Some (Inl Out_Of_Bounds))"

definition libc_strtok_r :: "nat option \<Rightarrow> u8 list \<Rightarrow> nat option \<Rightarrow> u8 list \<Rightarrow> (nat option \<times> nat option \<times> u8 list) run" where
  "libc_strtok_r s delim holder m = strtok_loop (if s \<noteq> None then s else holder) delim m"

definition libc_strstr :: "u8 list \<Rightarrow> u8 list \<Rightarrow> nat option res" where
  "libc_strstr haystack needle =
     and_then (libc_strlen haystack) (\<lambda>n. and_then (libc_strlen needle) (\<lambda>m. libc_memmem haystack n needle m))"

text \<open>\<open>strndup\<close> on the block of \<open>l\<close> bytes that \<open>malloc\<close> returns, as the list of its bytes.\<close>

definition libc_strndup :: "u8 list \<Rightarrow> nat \<Rightarrow> (nat \<Rightarrow> u8 list) \<Rightarrow> u8 list res" where
  "libc_strndup s n malloc_block =
     and_then (libc_strlen s) (\<lambda>len.
     let l = (if n > len then len + 1 else n + 1); d = malloc_block l in
     if l \<le> length s then in_bounds n (length d) (Inr ((take l s @ drop l d)[n := 0])) else Inl Out_Of_Bounds)"

definition libc_strdup :: "u8 list \<Rightarrow> (nat \<Rightarrow> u8 list) \<Rightarrow> u8 list res" where
  "libc_strdup s malloc_block = and_then (libc_strlen s) (\<lambda>len. Inr (take (len + 1) s @ drop (len + 1) (malloc_block (len + 1))))"

end
