(* ===== verification/Libc_Strings_Props.thy ===== *)
theory Libc_Strings_Props
  imports Libc_Strings
begin

text \<open>
  What the memory and string routines do: copying between overlapping areas, the search for a
  string in another, and cutting a string into fields.
\<close>

section \<open>Copying\<close>

lemma copy_up_spec:
  assumes "p + n \<le> length m" "q + n \<le> length m" "q \<le> p \<or> p + n \<le> q"
  shows "\<exists>m'. copy_up p q n m = Inr m' \<and> length m' = length m \<and>
    (\<forall>t < length m. m' ! t = (if q \<le> t \<and> t < q + n then m ! (p + (t - q)) else m ! t))"
  using assms
proof (induction n arbitrary: p q m)
  case (Suc n)
  let ?m = "m[q := m ! p]"
  have "p + 1 + n \<le> length ?m" "q + 1 + n \<le> length ?m" "q + 1 \<le> p + 1 \<or> p + 1 + n \<le> q + 1" using Suc.prems by auto
  from Suc.IH [OF this] obtain m' where m': "copy_up (p + 1) (q + 1) n ?m = Inr m'" "length m' = length m"
    "\<And>t. t < length m \<Longrightarrow> m' ! t = (if q + 1 \<le> t \<and> t < q + 1 + n then ?m ! (p + 1 + (t - (q + 1))) else ?m ! t)" by auto
  have "m' ! t = (if q \<le> t \<and> t < q + Suc n then m ! (p + (t - q)) else m ! t)" if "t < length m" for t
    using m'(3) [OF that] Suc.prems that by (auto simp: nth_list_update Suc_diff_Suc split: if_splits)
  then show ?case using m'(1,2) Suc.prems by simp
qed auto

lemma copy_down_spec:
  assumes "p + n \<le> length m" "q + n \<le> length m" "p \<le> q \<or> q + n \<le> p"
  shows "\<exists>m'. copy_down p q n m = Inr m' \<and> length m' = length m \<and>
    (\<forall>t < length m. m' ! t = (if q \<le> t \<and> t < q + n then m ! (p + (t - q)) else m ! t))"
  using assms
proof (induction n arbitrary: m)
  case (Suc n)
  let ?m = "m[q + n := m ! (p + n)]"
  have "p + n \<le> length ?m" "q + n \<le> length ?m" "p \<le> q \<or> q + n \<le> p" using Suc.prems by auto
  from Suc.IH [OF this] obtain m' where m': "copy_down p q n ?m = Inr m'" "length m' = length m"
    "\<And>t. t < length m \<Longrightarrow> m' ! t = (if q \<le> t \<and> t < q + n then ?m ! (p + (t - q)) else ?m ! t)" by auto
  have "m' ! t = (if q \<le> t \<and> t < q + Suc n then m ! (p + (t - q)) else m ! t)" if "t < length m" for t
    using m'(3) [OF that] Suc.prems that by (auto simp: nth_list_update less_Suc_eq split: if_splits)
  then show ?case using m'(1,2) Suc.prems by simp
qed auto

theorem memmove_moves:
  assumes "src + n \<le> length m" "dst + n \<le> length m"
  shows "libc_memmove dst src n m = Inr (take dst m @ take n (drop src m) @ drop (dst + n) m)"
proof -
  have "\<exists>m'. libc_memmove dst src n m = Inr m' \<and> length m' = length m \<and>
    (\<forall>t < length m. m' ! t = (if dst \<le> t \<and> t < dst + n then m ! (src + (t - dst)) else m ! t))"
    using copy_up_spec [OF assms] copy_down_spec [OF assms] by (simp add: libc_memmove_def)
  then obtain m' where m': "libc_memmove dst src n m = Inr m'" "length m' = length m"
    "\<And>t. t < length m \<Longrightarrow> m' ! t = (if dst \<le> t \<and> t < dst + n then m ! (src + (t - dst)) else m ! t)" by blast
  have "m' = take dst m @ take n (drop src m) @ drop (dst + n) m"
    by (rule nth_equalityI) (use m'(2,3) assms in \<open>auto simp: nth_append\<close>)
  then show ?thesis using m'(1) by simp
qed

section \<open>Searching\<close>

lemma memcmp_zero:
  "n \<le> length a \<Longrightarrow> n \<le> length b \<Longrightarrow> \<exists>d. libc_memcmp a b n = Inr d \<and> (d = 0 \<longleftrightarrow> take n a = take n b)"
proof (induction n arbitrary: a b)
  case (Suc n)
  then obtain x a' y b' where "a = x # a'" "b = y # b'" by (cases a; cases b) auto
  with Suc show ?case by (auto simp: Let_def word_uint_eq_iff)
qed simp

lemma find_map: "List.find P (map f xs) = map_option f (List.find (\<lambda>x. P (f x)) xs)"
  by (induction xs) auto

lemma memchr_finds:
  "n \<le> length s \<Longrightarrow> libc_memchr s c n = Inr (first_index (\<lambda>i. s ! i = c) n)"
proof (induction s c n rule: libc_memchr.induct)
  case (3 a s c n)
  have "first_index (\<lambda>i. (a # s) ! i = c) (Suc n) = (if a = c then Some 0 else map_option Suc (first_index (\<lambda>i. s ! i = c) n))"
    unfolding first_index_def upt_conv_Cons [OF zero_less_Suc] map_Suc_upt [symmetric] by (simp add: find_map)
  then show ?case using 3 by simp
qed (simp_all add: first_index_def)

lemma occurs_iff:
  assumes "m \<le> length x" "2 \<le> m" "j + m \<le> length y"
  shows "take m (drop j y) = take m x \<longleftrightarrow> x ! 0 = y ! j \<and> x ! 1 = y ! (j + 1) \<and> take (m - 2) (drop 2 x) = take (m - 2) (drop (j + 2) y)"
proof -
  obtain a b xs where x: "x = a # b # xs" using assms(1,2) by (cases x rule: list.exhaust [case_product list.exhaust]; cases "tl x") auto
  have "drop j y = y ! j # y ! (j + 1) # drop (j + 2) y"
    using assms(2,3) Cons_nth_drop_Suc [of j y] Cons_nth_drop_Suc [of "j + 1" y] by simp
  moreover obtain k where "m = Suc (Suc k)" using assms(2) by (metis add_2_eq_Suc le_Suc_ex)
  ultimately show ?thesis using x by auto
qed

lemma memmem_from_finds:
  assumes "m \<le> length x" "2 \<le> m" "m \<le> n" "n \<le> length y"
  shows "memmem_from j y n x m = Inr (List.find (\<lambda>i. take m (drop i y) = take m x) [j..<Suc (n - m)])"
proof (induction "Suc (n - m) - j" arbitrary: j rule: less_induct)
  case less
  let ?occ = "\<lambda>i. take m (drop i y) = take m x"
  note step = memmem_from.simps [of j y n x m]
  show ?case
  proof (cases "j \<le> n - m")
    case False
    then show ?thesis by (simp add: step)
  next
    case True
    then have jm: "j + m \<le> length y" using assms by simp
    have b: "j + 1 < length y" "1 < length x" using jm assms by auto
    note occ = occurs_iff [OF assms(1,2)]
    have one: "List.find ?occ [j..<Suc (n - m)] = (if ?occ j then Some j else List.find ?occ [j + 1..<Suc (n - m)])"
      using True by (simp add: upt_conv_Cons del: upt_Suc)
    have two: "List.find ?occ [j + 1..<Suc (n - m)] = List.find ?occ [j + 2..<Suc (n - m)]" if "x ! 0 \<noteq> y ! (j + 1)"
    proof (cases "j + 1 \<le> n - m")
      case True
      then have "\<not> ?occ (j + 1)" using occ [of "j + 1" y] assms that by auto
      then show ?thesis using True by (simp add: upt_conv_Cons del: upt_Suc)
    qed simp
    have ih: "memmem_from (j + k) y n x m = Inr (List.find ?occ [j + k..<Suc (n - m)])" if "0 < k" for k
      by (rule less.hyps) (use True that in auto)
    show ?thesis
    proof (cases "x ! 1 = y ! (j + 1)")
      case False
      then have "\<not> ?occ j" using occ [OF jm] by simp
      moreover have "x ! 0 \<noteq> y ! (j + 1)" if "x ! 0 = x ! 1" using that False by simp
      ultimately show ?thesis using False one two ih b True assms(2) by (simp add: step Let_def del: upt_Suc)
    next
      case eq: True
      have "m - 2 \<le> length (drop 2 x)" "m - 2 \<le> length (drop (j + 2) y)" using jm assms(1) by auto
      then obtain d where d: "libc_memcmp (drop 2 x) (drop (j + 2) y) (m - 2) = Inr d"
        "d = 0 \<longleftrightarrow> take (m - 2) (drop 2 x) = take (m - 2) (drop (j + 2) y)"
        using memcmp_zero [of "m - 2" "drop 2 x" "drop (j + 2) y"] by blast
      have o: "?occ j \<longleftrightarrow> d = 0 \<and> x ! 0 = y ! j" using occ [OF jm] eq d(2) by auto
      have "x ! 0 \<noteq> y ! (j + 1)" if "x ! 0 \<noteq> x ! 1" using that eq by simp
      then show ?thesis using eq one two ih b True assms(2) d(1) o by (simp add: step Let_def del: upt_Suc)
    qed
  qed
qed

definition first_occurrence :: "u8 list \<Rightarrow> u8 list \<Rightarrow> nat option" where
  "first_occurrence x s = first_index (\<lambda>j. j + length x \<le> length s \<and> take (length x) (drop j s) = x) (length s)"

lemma first_occurrence_find:
  assumes "x \<noteq> []" "length x \<le> length s"
  shows "first_occurrence x s = List.find (\<lambda>j. take (length x) (drop j s) = x) [0..<Suc (length s - length x)]"
proof -
  have split: "[0..<length s] = [0..<Suc (length s - length x)] @ [Suc (length s - length x)..<length s]"
  proof -
    have "Suc (length s - length x) \<le> length s" using assms by (cases x) auto
    then show ?thesis using upt_add_eq_append [of 0 "Suc (length s - length x)" "length s - Suc (length s - length x)"]
      by (simp only: le_add_diff_inverse zero_le)
  qed
  have none: "List.find (\<lambda>j. j + length x \<le> length s \<and> take (length x) (drop j s) = x) [Suc (length s - length x)..<length s] = None"
    by (auto simp: find_None_iff)
  have same: "List.find (\<lambda>j. j + length x \<le> length s \<and> take (length x) (drop j s) = x) [0..<Suc (length s - length x)] =
      List.find (\<lambda>j. take (length x) (drop j s) = x) [0..<Suc (length s - length x)]"
    by (rule find_cong) (use assms in auto)
  have app: "List.find P (xs @ ys) = (case List.find P xs of None \<Rightarrow> List.find P ys | Some z \<Rightarrow> Some z)" for P and xs ys :: "nat list"
    by (induction xs) auto
  show ?thesis unfolding first_occurrence_def first_index_def split app none same by (simp split: option.split)
qed

lemma memmem_finds:
  assumes "length y = n" "length x = m"
  shows "libc_memmem (y @ r) n (x @ r') m = Inr (if x = [] then None else first_occurrence x y)"
proof (cases "m > n \<or> m = 0")
  case True
  moreover have "first_index (\<lambda>j. False) k = None" for k by (simp add: first_index_None)
  ultimately show ?thesis using assms by (auto simp: libc_memmem_def first_occurrence_def)
next
  case False
  show ?thesis
  proof (cases "m = 1")
    case True
    then obtain a where x: "x = [a]" using assms(2) by (auto simp: length_Suc_conv)
    have "first_occurrence x y = first_index (\<lambda>i. (y @ r) ! i = a) n"
      unfolding first_occurrence_def first_index_def assms(1)
      by (rule find_cong) (auto simp: x assms(1) nth_append take_Suc hd_drop_conv_nth)
    then show ?thesis using True False x assms memchr_finds [of n "y @ r" a] by (simp add: libc_memmem_def)
  next
    case 1: False
    have "List.find (\<lambda>i. take m (drop i (y @ r)) = take m (x @ r')) [0..<Suc (n - m)] = first_occurrence x y"
    proof -
      have "List.find (\<lambda>i. take m (drop i (y @ r)) = take m (x @ r')) [0..<Suc (n - m)] =
          List.find (\<lambda>j. take (length x) (drop j y) = x) [0..<Suc (length y - length x)]"
      proof (rule find_cong)
        fix i assume "i \<in> set [0..<Suc (length y - length x)]"
        then have "m \<le> length (drop i y)" using False assms by auto
        then show "(take m (drop i (y @ r)) = take m (x @ r')) = (take (length x) (drop i y) = x)" using assms(2) by simp
      qed (use assms in simp)
      then show ?thesis using first_occurrence_find [of x y] assms False by auto
    qed
    then show ?thesis using 1 False assms memmem_from_finds [of m "x @ r'" n "y @ r" 0] by (auto simp: libc_memmem_def)
  qed
qed

lemma strlen_text: "0 \<notin> set s \<Longrightarrow> libc_strlen (s @ 0 # r) = Inr (length s)"
  by (induction s) auto

text \<open>\<open>strstr\<close>, with the algorithm of \<open>memmem\<close> that skips positions, finds the first occurrence of a string
  in another, and \<open>NULL\<close> exactly if there is none; for the empty string it is \<open>NULL\<close>.\<close>

theorem strstr_finds_first:
  assumes "0 \<notin> set s" "0 \<notin> set x"
  shows "libc_strstr (s @ 0 # r) (x @ 0 # r') = Inr (if x = [] then None else first_occurrence x s)"
  using strlen_text [OF assms(1)] strlen_text [OF assms(2)] memmem_finds [of s "length s" x "length x"] by (simp add: libc_strstr_def)

theorem strstr_finds_first_witness: "libc_strstr [97, 97, 97, 98, 0] [97, 97, 98, 0] = Inr (Some 1)"
  using strstr_finds_first [of "[97, 97, 97, 98]" "[97, 97, 98]" "[]" "[]"] by (simp add: first_occurrence_def first_index_def upt_rec)

section \<open>Fields\<close>

lemma in_charset_text: "a \<noteq> 0 \<Longrightarrow> 0 \<notin> set ds \<Longrightarrow> in_charset a (ds @ 0 # r) = Inr (a \<in> set ds)"
  by (induction ds) auto

lemma strpbrk_text:
  assumes "0 \<notin> set w" "0 \<notin> set ds"
  shows "libc_strpbrk (w @ 0 # r) (ds @ 0 # r') =
    Inr (if \<exists>a \<in> set w. a \<in> set ds then Some (length (takeWhile (\<lambda>a. a \<notin> set ds) w)) else None)"
  using assms(1) by (induction w) (auto simp: in_charset_text assms(2))

text \<open>The next field of a text \<open>w\<close> at \<open>h\<close>: the first maximal run of characters that are no delimiters; its end is
  marked in memory, and the pointer that remains is behind the delimiter, if there is one.\<close>

definition next_field :: "u8 list \<Rightarrow> nat \<Rightarrow> u8 list \<Rightarrow> u8 list \<Rightarrow> nat option \<times> nat option \<times> u8 list \<Rightarrow> bool" where
  "next_field ds h w r = (\<lambda>(s, holder, m).
     let rest = dropWhile (\<lambda>a. a \<in> set ds) w; tok = takeWhile (\<lambda>a. a \<notin> set ds) rest; i = h + (length w - length rest) in
     if rest = [] then s = None \<and> holder = None
     else s = Some i \<and> holder = (if tok = rest then None else Some (i + length tok + 1)) \<and>
       drop i m = tok @ 0 # drop (length tok + 1) (rest @ 0 # r))"

lemma next_field_skip:
  assumes "a \<in> set ds"
  shows "next_field ds h (a # w) r x \<longleftrightarrow> next_field ds (Suc h) w r x"
proof -
  let ?R = "dropWhile (\<lambda>a. a \<in> set ds) w"
  have eq: "h + (length w + Suc 0 - length ?R) = Suc h + (length w - length ?R)"
    using length_dropWhile_le [of "\<lambda>a. a \<in> set ds" w] by simp
  show ?thesis by (cases x) (simp only: next_field_def Let_def prod.case dropWhile.simps assms if_True list.size eq)
qed

lemma next_field_here:
  assumes "a \<notin> set ds" "\<exists>b \<in> set (a # w). b \<in> set ds" "drop h m = (a # w) @ 0 # r" "k = length (takeWhile (\<lambda>a. a \<notin> set ds) (a # w))"
  shows "next_field ds h (a # w) r (Some h, Some (h + k + 1), m[h + k := 0])"
proof -
  let ?t = "takeWhile (\<lambda>a. a \<notin> set ds) (a # w)"
  have ne: "?t \<noteq> a # w" using assms(1,2) by (metis takeWhile_eq_all_conv)
  then have lt: "k < length (a # w)" using assms(4) by (metis length_takeWhile_le le_neq_implies_less takeWhile_eq_take take_all_iff)
  have "drop h (m[h + k := 0]) = ((a # w) @ 0 # r)[k := 0]" using assms(3) by (simp add: drop_update_swap)
  also have "\<dots> = take k ((a # w) @ 0 # r) @ 0 # drop (k + 1) ((a # w) @ 0 # r)" using upd_conv_take_nth_drop [of k "(a # w) @ 0 # r" 0] lt by simp
  also have "take k ((a # w) @ 0 # r) = take k (a # w)" using lt by (simp del: append_Cons add: take_append)
  also have "take k (a # w) = ?t" unfolding assms(4) by (rule takeWhile_eq_take [symmetric])
  finally show ?thesis using assms(1,4) ne by (simp add: next_field_def)
qed

lemma strtok_next:
  assumes "drop h m = w @ 0 # r" "0 \<notin> set w" "0 \<notin> set ds"
  shows "\<exists>s holder m'. strtok_loop (Some h) (ds @ 0 # r') m = Some (Inr (s, holder, m')) \<and>
    length m' = length m \<and> take h m' = take h m \<and> next_field ds h w r (s, holder, m')"
  using assms(1,2)
proof (induction w arbitrary: h m)
  case Nil
  have h: "h < length m" "m ! h = 0" using Nil.prems(1) nth_via_drop [of h m] by (auto intro: ccontr)
  have "libc_strsep (Some h) (ds @ 0 # r') m = Inr (Some h, None, m)" using Nil.prems(1) by (simp add: libc_strsep_def)
  then have "strtok_loop (Some h) (ds @ 0 # r') m = strtok_loop None (ds @ 0 # r') m" using h by (subst strtok_loop.simps) simp
  also have "\<dots> = Some (Inr (None, None, m))" by (subst strtok_loop.simps) (simp add: libc_strsep_def)
  finally show ?case by (auto simp: next_field_def)
next
  case (Cons a w)
  have h: "h < length m" "m ! h = a" using Cons.prems(1) nth_via_drop [of h m] by (auto intro: ccontr)
  have a0: "a \<noteq> 0" using Cons.prems(2) by auto
  note pbrk = strpbrk_text [OF Cons.prems(2) assms(3), of r r']
  consider "a \<in> set ds" | "a \<notin> set ds" "\<exists>b \<in> set w. b \<in> set ds" | "a \<notin> set ds" "\<forall>b \<in> set w. b \<notin> set ds" by blast
  then show ?case
  proof cases
    case 1
    let ?m = "m[h := 0]"
    have "libc_strsep (Some h) (ds @ 0 # r') m = Inr (Some h, Some (h + 1), ?m)"
      using Cons.prems(1) pbrk 1 by (simp add: libc_strsep_def)
    then have st: "strtok_loop (Some h) (ds @ 0 # r') m = strtok_loop (Some (Suc h)) (ds @ 0 # r') ?m" using h by (subst strtok_loop.simps) simp
    have "drop (Suc h) m = tl (drop h m)" by (simp add: drop_Suc tl_drop)
    then have "drop (Suc h) ?m = w @ 0 # r" using Cons.prems(1) by simp
    from Cons.IH [OF this] Cons.prems(2) obtain s holder m' where m': "length m' = length m" "take (Suc h) m' = take (Suc h) ?m"
      "strtok_loop (Some (Suc h)) (ds @ 0 # r') ?m = Some (Inr (s, holder, m'))" "next_field ds (Suc h) w r (s, holder, m')" by auto
    have "take h m' = take h m" using arg_cong [OF m'(2), of "take h"] by (simp add: min_def)
    then show ?thesis using st m' 1 by (auto simp: next_field_skip)
  next
    case 2
    let ?k = "length (takeWhile (\<lambda>a. a \<notin> set ds) (a # w))"
    have "libc_strsep (Some h) (ds @ 0 # r') m = Inr (Some h, Some (h + ?k + 1), m[h + ?k := 0])"
      using Cons.prems(1) pbrk 2 by (simp add: libc_strsep_def)
    moreover have "m[h + ?k := 0] ! h = a" using h 2 by simp
    ultimately have "strtok_loop (Some h) (ds @ 0 # r') m = Some (Inr (Some h, Some (h + ?k + 1), m[h + ?k := 0]))"
      using h a0 by (subst strtok_loop.simps) simp
    moreover have "next_field ds h (a # w) r (Some h, Some (h + ?k + 1), m[h + ?k := 0])"
      by (rule next_field_here) (use 2 Cons.prems(1) in auto)
    ultimately show ?thesis by (intro exI conjI) auto
  next
    case 3
    have "libc_strsep (Some h) (ds @ 0 # r') m = Inr (Some h, None, m)"
      using Cons.prems(1) pbrk 3 by (simp add: libc_strsep_def)
    then have "strtok_loop (Some h) (ds @ 0 # r') m = Some (Inr (Some h, None, m))" using h a0 by (subst strtok_loop.simps) simp
    moreover have t: "takeWhile (\<lambda>a. a \<notin> set ds) w = w" using 3 by simp
    ultimately show ?thesis using 3(1) Cons.prems(1) by (simp add: next_field_def t)
  qed
qed

section \<open>Bounded copies\<close>

lemma strl_copy_text:
  "0 \<notin> set s \<Longrightarrow> q \<le> bytes \<Longrightarrow> q + min (length s) (bufsize - 1 - bytes) \<le> length dst \<Longrightarrow>
   strl_copy (s @ 0 # r) q bytes bufsize dst =
     (let k = min (length s) (bufsize - 1 - bytes) in Inr (q + k, bytes + length s, take q dst @ take k s @ drop (q + k) dst))"
proof (induction s arbitrary: q bytes dst)
  case (Cons c s)
  show ?case
  proof (cases "bytes + 1 < bufsize")
    case True
    then have k: "min (length (c # s)) (bufsize - 1 - bytes) = Suc (min (length s) (bufsize - 1 - (bytes + 1)))" by simp
    have q: "q < length dst" using Cons.prems(3) unfolding k by simp
    have "take (q + 1) (dst[q := c]) = take q dst @ [c]" using q by (simp add: take_Suc_conv_app_nth)
    then show ?thesis using Cons.IH [of "q + 1" "bytes + 1" "dst[q := c]"] Cons.prems True q
      unfolding k by (simp add: Let_def)
  next
    case False
    then show ?thesis using Cons.IH [of q "bytes + 1" dst] Cons.prems by (simp add: Let_def)
  qed
qed (simp add: Let_def)

text \<open>\<open>strlcpy\<close> keeps the buffer: the text is cut to fit with its terminator, and the result is its full length.\<close>

lemma strlcpy_cuts:
  assumes "0 \<notin> set s" "0 < bufsize" "bufsize \<le> length dst"
  shows "libc_strlcpy dst (s @ 0 # r) bufsize =
    (let k = min (length s) (bufsize - 1) in Inr (length s, take k s @ 0 # drop (k + 1) dst))"
proof -
  let ?k = "min (length s) (bufsize - 1)"
  have k: "?k < length dst" using assms by linarith
  then have "(take ?k s @ drop ?k dst)[?k := 0] = take ?k s @ 0 # drop (?k + 1) dst"
    by (simp add: list_update_append Cons_nth_drop_Suc [symmetric])
  then show ?thesis using strl_copy_text [OF assms(1), of 0 0 bufsize dst r] k assms(2) by (simp add: libc_strlcpy_def Let_def)
qed

text \<open>\<open>strndup\<close> of a string shorter than \<open>n\<close> writes its last terminator behind the block it allocated.\<close>

lemma strndup_overrun:
  assumes "0 \<notin> set s" "length s < n" "\<And>l. length (malloc_block l) = l"
  shows "libc_strndup (s @ 0 # r) n malloc_block = Inl Out_Of_Bounds"
  using assms by (simp add: libc_strndup_def strlen_text Let_def)

end
