(* ===== verification/Libc_Sort.thy ===== *)
theory Libc_Sort
  imports Prelude "HOL-Library.Multiset"
begin

text \<open>
  Sorting and searching in the C library of the programs: \<open>qsort.c\<close>, \<open>bsearch.c\<close> and \<open>memswap.c\<close> of
  \<open>userspace/libc/src\<close>. An array is the bytes from its base on, an element a block of \<open>width\<close> bytes; the
  comparison is a function on the blocks that its pointers show.
\<close>

section \<open>Model\<close>

fun memswap :: "nat \<Rightarrow> nat \<Rightarrow> nat \<Rightarrow> u8 list \<Rightarrow> u8 list res" where
  "memswap p q 0 m = Inr m"
| "memswap p q (Suc n) m =
     in_bounds p (length m) (in_bounds q (length m) (memswap (p + 1) (q + 1) n (m[p := m ! q, q := m ! p])))"

definition block_at :: "nat \<Rightarrow> nat \<Rightarrow> u8 list \<Rightarrow> u8 list" where
  "block_at width p m = take width (drop p m)"

definition newgap :: "u32 \<Rightarrow> u32" where
  "newgap gap =
     (let g = (gap * 10) div 13;
          g = (if g = 9 \<or> g = 10 then 11 else g)
      in if g < 1 then 1 else g)"

definition compare_swap :: "(u8 list \<Rightarrow> u8 list \<Rightarrow> int) \<Rightarrow> u32 \<Rightarrow> u32 \<Rightarrow> nat \<Rightarrow> bool \<times> u8 list \<Rightarrow> (bool \<times> u8 list) res" where
  "compare_swap compar width gap i s =
     (let p1 = i * unat width; j = of_nat i + gap; p2 = unat (j * width) in
      if compar (block_at (unat width) p1 (snd s)) (block_at (unat width) p2 (snd s)) > 0
      then and_then (memswap p1 p2 (unat width) (snd s)) (\<lambda>m. Inr (True, m))
      else Inr s)"

partial_function (option) comb_passes ::
    "(u8 list \<Rightarrow> u8 list \<Rightarrow> int) \<Rightarrow> u32 \<Rightarrow> u32 \<Rightarrow> u32 \<Rightarrow> u8 list \<Rightarrow> u8 list run" where
  "comb_passes compar nmemb width gap m =
     run_then (Some (for_res 0 (unat (nmemb - newgap gap)) (compare_swap compar width (newgap gap)) (False, m))) (\<lambda>r.
     if newgap gap > 1 \<or> fst r then comb_passes compar nmemb width (newgap gap) (snd r) else Some (Inr (snd r)))"

definition qsort :: "u32 \<Rightarrow> u32 \<Rightarrow> (u8 list \<Rightarrow> u8 list \<Rightarrow> int) \<Rightarrow> u8 list \<Rightarrow> u8 list run" where
  "qsort nmemb width compar m = (if nmemb = 0 then Some (Inr m) else comb_passes compar nmemb width nmemb m)"

lemma half_word: "nmemb \<noteq> 0 \<Longrightarrow> unat (nmemb div 2 :: u32) = unat nmemb div 2 \<and>
    unat (nmemb - (nmemb div 2 + 1)) = unat nmemb - (unat nmemb div 2 + 1)"
proof -
  assume z: "nmemb \<noteq> 0"
  have h: "unat (nmemb div 2) = unat nmemb div 2" by (simp add: unat_div)
  have p: "0 < unat nmemb" using z by (simp add: unat_gt_0)
  have "unat nmemb < 2 ^ 32" using unsigned_less [of nmemb, where ?'a = nat] by simp
  then have "unat (nmemb div 2) + unat (1 :: u32) < 2 ^ LENGTH(32)" using h by simp
  then have s: "unat (nmemb div 2 + 1) = unat nmemb div 2 + 1" using unat_add_lem [of "nmemb div 2" 1] h by simp
  then have "nmemb div 2 + 1 \<le> nmemb" using p by (simp add: word_le_nat_alt)
  then show ?thesis using h s by (simp add: unat_sub)
qed

text \<open>The comparison of \<open>bsearch\<close> with the key that is searched; the result is the offset of an element.\<close>

function bsearch :: "(u8 list \<Rightarrow> int) \<Rightarrow> nat \<Rightarrow> u32 \<Rightarrow> u32 \<Rightarrow> u8 list \<Rightarrow> nat option" where
  "bsearch cmp base nmemb width m =
     (if nmemb = 0 then None
      else
        let mididx = nmemb div 2;
            midobj = base + unat (mididx * width);
            diff = cmp (block_at (unat width) midobj m)
        in if diff = 0 then Some midobj
           else if diff > 0 then bsearch cmp (midobj + unat width) (nmemb - (mididx + 1)) width m
           else bsearch cmp base mididx width m)"
  by pat_completeness auto

termination
  by (relation "measure (\<lambda>(cmp, base, nmemb, width, m). unat nmemb)") (auto simp: half_word unat_gt_0)

declare bsearch.simps [simp del]

section \<open>Blocks\<close>

definition blocks :: "nat \<Rightarrow> nat \<Rightarrow> u8 list \<Rightarrow> u8 list list" where
  "blocks width n m = map (\<lambda>i. block_at width (i * width) m) [0..<n]"

lemma length_blocks [simp]: "length (blocks w n m) = n"
  by (simp add: blocks_def)

lemma nth_blocks: "i < n \<Longrightarrow> blocks w n m ! i = block_at w (i * w) m"
  by (simp add: blocks_def)

lemma block_inside: "i < n \<Longrightarrow> i * w + w \<le> n * (w :: nat)"
  using mult_le_mono1 [of "Suc i" n w] by simp

lemma memswap_spec:
  "p + k \<le> q \<Longrightarrow> q + k \<le> length m \<Longrightarrow>
   \<exists>m'. memswap p q k m = Inr m' \<and> length m' = length m \<and>
     (\<forall>t < length m. m' ! t = (if p \<le> t \<and> t < p + k then m ! (q + (t - p)) else if q \<le> t \<and> t < q + k then m ! (p + (t - q)) else m ! t))"
proof (induction k arbitrary: p q m)
  case (Suc k)
  let ?m = "m[p := m ! q, q := m ! p]"
  have "p + 1 + k \<le> q + 1" "q + 1 + k \<le> length ?m" using Suc.prems by simp_all
  from Suc.IH [OF this] obtain m' where m': "memswap (p + 1) (q + 1) k ?m = Inr m'" "length m' = length m"
    "\<And>t. t < length m \<Longrightarrow> m' ! t = (if p + 1 \<le> t \<and> t < p + 1 + k then ?m ! (q + 1 + (t - (p + 1)))
       else if q + 1 \<le> t \<and> t < q + 1 + k then ?m ! (p + 1 + (t - (q + 1))) else ?m ! t)" by auto
  have "m' ! t = (if p \<le> t \<and> t < p + Suc k then m ! (q + (t - p)) else if q \<le> t \<and> t < q + Suc k then m ! (p + (t - q)) else m ! t)"
    if "t < length m" for t
    using m'(3) [OF that] Suc.prems that by (auto simp: nth_list_update Suc_diff_Suc split: if_splits)
  then show ?case using m'(1,2) Suc.prems by simp
qed auto

lemma block_eqI:
  assumes "p + w \<le> length m" "q + w \<le> length m'" and "\<And>t. t < w \<Longrightarrow> m ! (p + t) = m' ! (q + t)"
  shows "block_at w p m = block_at w q m'"
  by (rule nth_equalityI) (use assms in \<open>auto simp: block_at_def\<close>)

lemma memswap_blocks:
  assumes "i < j" "j < n" "length m = n * w"
  shows "\<exists>m'. memswap (i * w) (j * w) w m = Inr m' \<and> length m' = length m \<and>
    blocks w n m' = (blocks w n m)[i := blocks w n m ! j, j := blocks w n m ! i]"
proof -
  have le: "i * w + w \<le> j * w" "j * w + w \<le> length m" using assms block_inside [of i j w] block_inside [of j n w] by simp_all
  obtain m' where m': "memswap (i * w) (j * w) w m = Inr m'" "length m' = length m"
    "\<And>t. t < length m \<Longrightarrow> m' ! t = (if i * w \<le> t \<and> t < i * w + w then m ! (j * w + (t - i * w))
      else if j * w \<le> t \<and> t < j * w + w then m ! (i * w + (t - j * w)) else m ! t)"
    using memswap_spec [OF le] by auto
  have "block_at w (k * w) m' = block_at w ((if k = i then j else if k = j then i else k) * w) m" if "k < n" for k
  proof -
    have kn: "k * w + w \<le> n * w" "(if k = i then j else if k = j then i else k) * w + w \<le> n * w"
      using that assms block_inside [of _ n w] by auto
    have apart: "k * w + w \<le> l * w \<or> l * w + w \<le> k * w" if "k \<noteq> l" for l
      using that block_inside [of k l w] block_inside [of l k w] by linarith
    show ?thesis
    proof (rule block_eqI)
      fix t assume t: "t < w"
      have inn: "k * w + t < length m" using kn(1) t assms(3) by simp
      consider "k = i" | "k = j" | "k \<noteq> i" "k \<noteq> j" by blast
      then show "m' ! (k * w + t) = m ! ((if k = i then j else if k = j then i else k) * w + t)"
      proof cases
        case 1 then show ?thesis using m'(3) [OF inn] t by simp
      next
        case 2 then show ?thesis using m'(3) [OF inn] t le assms(1) by simp
      next
        case 3
        have out: "\<not> (i * w \<le> k * w + t \<and> k * w + t < i * w + w)" "\<not> (j * w \<le> k * w + t \<and> k * w + t < j * w + w)"
          using apart [OF 3(1)] apart [OF 3(2)] t by linarith+
        show ?thesis using 3 by (simp only: m'(3) [OF inn] out if_False)
      qed
    qed (use kn m'(2) assms(3) in auto)
  qed
  then have "blocks w n m' = (blocks w n m)[i := blocks w n m ! j, j := blocks w n m ! i]"
    using assms(1,2) by (auto intro!: nth_equalityI simp: nth_list_update nth_blocks)
  then show ?thesis using m'(1,2) by blast
qed

section \<open>Passes on the list of elements\<close>

lemma newgap_cases:
  assumes "gap \<noteq> 0"
  shows "1 \<le> unat (newgap gap) \<and> unat (newgap gap) \<le> unat gap \<and> (newgap gap > 1 \<longrightarrow> unat (newgap gap) < unat gap) \<and>
    (1 < unat gap \<longrightarrow> unat (newgap gap) < unat gap)"
proof -
  let ?n = "unat gap"
  have n: "0 < ?n" "?n < 4294967296" using assms unsigned_less [of gap, where ?'a = nat] by (simp_all add: unat_gt_0)
  have g: "unat ((gap * 10) div 13) = (?n * 10) mod 4294967296 div 13" by (simp add: unat_div unat_word_ariths)
  have less: "(?n * 10) mod 4294967296 div 13 < ?n" "13 * 9 \<le> (?n * 10) mod 4294967296 \<Longrightarrow> 11 < ?n"
  proof -
    have "(?n * 10) mod 4294967296 \<le> ?n * 10" by simp
    then show "(?n * 10) mod 4294967296 div 13 < ?n" using n(1) by linarith
    show "13 * 9 \<le> (?n * 10) mod 4294967296 \<Longrightarrow> 11 < ?n" using \<open>(?n * 10) mod 4294967296 \<le> ?n * 10\<close> by linarith
  qed
  define g where "g = (gap * 10) div 13"
  have ug: "unat g < ?n" "9 \<le> unat g \<Longrightarrow> 11 < ?n"
  proof -
    have "unat g = (?n * 10) mod 4294967296 div 13" using \<open>unat ((gap * 10) div 13) = _\<close> by (simp add: g_def)
    then show "unat g < ?n" "9 \<le> unat g \<Longrightarrow> 11 < ?n" using less by simp_all
  qed
  have w: "g = 9 \<longleftrightarrow> unat g = 9" "g = 10 \<longleftrightarrow> unat g = 10" "g = 0 \<longleftrightarrow> unat g = 0"
    by (simp_all add: word_unat_eq_iff)
  have "newgap gap = (if unat g = 9 \<or> unat g = 10 then 11 else if unat g = 0 then 1 else g)"
    by (simp add: newgap_def g_def [symmetric] w Let_def)
  then show ?thesis using ug n by (auto simp: word_less_nat_alt split: if_splits)
qed

lemma compare_swap_spec:
  assumes "length m = n * unat w" "i + unat gap < n" "n * unat w < 2 ^ 32" "n < 2 ^ 32" and "gap \<noteq> 0"
    and "xs = blocks (unat w) n m"
  shows "\<exists>m'. compare_swap compar w gap i (b, m) = Inr (b \<or> compar (xs ! i) (xs ! (i + unat gap)) > 0, m') \<and> length m' = length m \<and>
    blocks (unat w) n m' =
      (if compar (xs ! i) (xs ! (i + unat gap)) > 0 then xs[i := xs ! (i + unat gap), i + unat gap := xs ! i] else xs)"
proof -
  let ?j = "i + unat gap"
  have "unat (of_nat i :: u32) = i" using assms(2,4) by (simp add: unat_of_nat_small)
  then have j: "unat (of_nat i + gap) = ?j" using assms(2,4) by (simp add: unat_add_small)
  have "?j * unat w \<le> n * unat w" by (rule mult_le_mono1) (use assms(2) in simp)
  then have "unat (of_nat i + gap) * unat w < 2 ^ LENGTH(32)" unfolding j using order.strict_trans1 [OF _ assms(3)] by simp
  then have p2: "unat ((of_nat i + gap) * w) = ?j * unat w" unfolding j [symmetric] by (rule unat_mult_small)
  have lt: "i < ?j" using assms(5) by (simp add: unat_gt_0)
  obtain m' where "memswap (i * unat w) (?j * unat w) (unat w) m = Inr m'" "length m' = length m"
    "blocks (unat w) n m' = (blocks (unat w) n m)[i := blocks (unat w) n m ! ?j, ?j := blocks (unat w) n m ! i]"
    using memswap_blocks [OF lt assms(2,1)] by auto
  then show ?thesis using assms(2,6) p2 by (auto simp: compare_swap_def Let_def nth_blocks)
qed

text \<open>What a pass does to the elements: a permutation that is smaller in the lexicographic order of the
  keys if anything was swapped, and the same list with ordered pairs if nothing was.\<close>

definition lower :: "('k :: linorder) list \<Rightarrow> 'k list \<Rightarrow> bool" where
  "lower ks ls \<longleftrightarrow> (ks, ls) \<in> lexord {(a, b). a < b}"

lemma lower_trans: "lower ks ls \<Longrightarrow> lower ls ms \<Longrightarrow> lower ks ms"
  unfolding lower_def by (rule lexord_trans) (auto simp: trans_def)

lemma lower_irrefl: "\<not> lower ks ks"
  unfolding lower_def by (rule lexord_irreflexive) auto

lemma lower_swap:
  assumes "i < j" "j < length ks" "ks ! j < ks ! i"
  shows "lower (ks[i := ks ! j, j := ks ! i]) ks"
proof -
  have "take i (ks[i := ks ! j, j := ks ! i]) = take i ks" using assms by simp
  then show ?thesis unfolding lower_def lexord_take_index_conv using assms by (auto simp: nth_list_update intro: exI [of _ i])
qed

lemma finite_same_mset: "finite {ks. mset ks = M}"
proof (rule finite_subset)
  show "{ks. mset ks = M} \<subseteq> {ks. set ks \<subseteq> set_mset M \<and> length ks = size M}" by (auto simp: set_mset_mset [symmetric] simp del: set_mset_mset)
qed (simp add: finite_lists_length_eq)

definition rank :: "('k :: linorder) list \<Rightarrow> nat" where
  "rank ks = card {ls. mset ls = mset ks \<and> lower ls ks}"

lemma rank_less:
  assumes "mset ls = mset ks" "lower ls ks"
  shows "rank ls < rank ks"
  unfolding rank_def
proof (rule psubset_card_mono)
  show "finite {l. mset l = mset ks \<and> lower l ks}" by (rule finite_subset [OF _ finite_same_mset]) auto
  have "ls \<in> {l. mset l = mset ks \<and> lower l ks}" "ls \<notin> {l. mset l = mset ls \<and> lower l ls}" using assms lower_irrefl by auto
  then show "{l. mset l = mset ls \<and> lower l ls} \<subset> {l. mset l = mset ks \<and> lower l ks}" using assms lower_trans by auto
qed

text \<open>The contract of the comparison: elements are ordered by a key.\<close>

definition orders :: "(u8 list \<Rightarrow> u8 list \<Rightarrow> int) \<Rightarrow> (u8 list \<Rightarrow> 'k :: linorder) \<Rightarrow> bool" where
  "orders compar key \<longleftrightarrow> (\<forall>x y. compar x y > 0 \<longleftrightarrow> key y < key x)"

lemma pass_spec:
  assumes "orders compar key" and "length m = n * unat w" "n * unat w < 2 ^ 32" "n < 2 ^ 32" "gap \<noteq> 0" "unat gap \<le> n"
  shows "\<exists>sw m'. for_res 0 (n - unat gap) (compare_swap compar w gap) (False, m) = Inr (sw, m') \<and> length m' = length m \<and>
    mset (blocks (unat w) n m') = mset (blocks (unat w) n m) \<and>
    (sw \<longrightarrow> lower (map key (blocks (unat w) n m')) (map key (blocks (unat w) n m))) \<and>
    (\<not> sw \<longrightarrow> (\<forall>i < n - unat gap. key (blocks (unat w) n m' ! i) \<le> key (blocks (unat w) n m' ! (i + unat gap))))"
proof -
  let ?xs = "blocks (unat w) n m"
  let ?I = "\<lambda>i (sw, m'). length m' = length m \<and> mset (blocks (unat w) n m') = mset ?xs \<and>
    (sw \<longrightarrow> lower (map key (blocks (unat w) n m')) (map key ?xs)) \<and>
    (\<not> sw \<longrightarrow> blocks (unat w) n m' = ?xs \<and> (\<forall>k < i. key (?xs ! k) \<le> key (?xs ! (k + unat gap))))"
  have "\<exists>s'. for_res 0 (n - unat gap) (compare_swap compar w gap) (False, m) = Inr s' \<and> ?I (n - unat gap) s'"
  proof (rule for_res_rule [where I = ?I])
    fix i s assume i: "i < n - unat gap" and I: "?I i s"
    obtain b m1 where s: "s = (b, m1)" by (cases s)
    let ?ys = "blocks (unat w) n m1"
    let ?j = "i + unat gap"
    have ord: "compar x y > 0 \<longleftrightarrow> key y < key x" for x y using assms(1) by (simp add: orders_def)
    have ij: "?j < n" "i < ?j" using i assms(5) by (auto simp: unat_gt_0)
    obtain m2 where m2: "compare_swap compar w gap i (b, m1) = Inr (b \<or> key (?ys ! ?j) < key (?ys ! i), m2)" "length m2 = length m"
      "blocks (unat w) n m2 = (if key (?ys ! ?j) < key (?ys ! i) then ?ys[i := ?ys ! ?j, ?j := ?ys ! i] else ?ys)"
      using compare_swap_spec [OF _ ij(1) assms(3-5) refl, of m1 compar b] I s assms(2) ord by auto
    have ms: "mset (blocks (unat w) n m2) = mset ?xs" using m2(3) ij I s by (simp add: mset_swap)
    have "?I (Suc i) (b \<or> key (?ys ! ?j) < key (?ys ! i), m2)"
    proof (cases "key (?ys ! ?j) < key (?ys ! i)")
      case True
      then have "lower (map key (blocks (unat w) n m2)) (map key ?ys)"
        using m2(3) lower_swap [of i ?j "map key ?ys"] ij by (simp add: map_update)
      then have "lower (map key (blocks (unat w) n m2)) (map key ?xs)" using I s lower_trans by (cases b) auto
      then show ?thesis using True ms m2(2) by simp
    next
      case False
      then show ?thesis using I s ms m2(2,3) by (auto simp: less_Suc_eq)
    qed
    then show "\<exists>s'. compare_swap compar w gap i s = Inr s' \<and> ?I (Suc i) s'" using m2(1) s by blast
  qed simp_all
  then show ?thesis by auto
qed

text \<open>The passes end: while the gap is above 1 it shrinks, and at gap 1 the keys become smaller.\<close>

lemma comb_passes_sort:
  assumes ord: "orders compar key" and "length m = unat nmemb * unat w" "unat nmemb * unat w < 2 ^ 32" "gap \<noteq> 0" "unat gap \<le> unat nmemb"
  shows "\<exists>m'. comb_passes compar nmemb w gap m = Some (Inr m') \<and> length m' = length m \<and>
    mset (blocks (unat w) (unat nmemb) m') = mset (blocks (unat w) (unat nmemb) m) \<and> sorted (map key (blocks (unat w) (unat nmemb) m'))"
  using assms(2-5)
proof (induction "(unat gap, rank (map key (blocks (unat w) (unat nmemb) m)))" arbitrary: gap m rule: wf_induct_rule [OF wf_lex_prod [OF wf_less_than wf_less_than]])
  case less: 1
  let ?n = "unat nmemb" and ?g = "newgap gap" and ?b = "blocks (unat w) (unat nmemb)"
  note g = newgap_cases [OF less.prems(3)]
  have g0: "?g \<noteq> 0" and gn: "unat ?g \<le> ?n" using g less.prems(4) by (auto simp: unat_gt_0 [symmetric] simp del: unat_gt_0)
  have n32: "?n < 2 ^ 32" using unsigned_less [of nmemb, where ?'a = nat] by simp
  have hi: "unat (nmemb - ?g) = ?n - unat ?g" using gn by (simp add: unat_sub word_le_nat_alt)
  obtain sw m1 where m1: "for_res 0 (?n - unat ?g) (compare_swap compar w ?g) (False, m) = Inr (sw, m1)" "length m1 = length m"
    "mset (?b m1) = mset (?b m)" "sw \<Longrightarrow> lower (map key (?b m1)) (map key (?b m))"
    "\<not> sw \<Longrightarrow> \<forall>i < ?n - unat ?g. key (?b m1 ! i) \<le> key (?b m1 ! (i + unat ?g))"
    using pass_spec [OF ord less.prems(1,2) n32 g0 gn] by auto
  show ?case
  proof (cases "?g > 1 \<or> sw")
    case True
    have "unat ?g < unat gap \<or> unat ?g = unat gap \<and> sw" using True g by auto
    moreover have "sw \<Longrightarrow> rank (map key (?b m1)) < rank (map key (?b m))"
      using m1(3,4) by (intro rank_less) (metis mset_map)+
    ultimately have "((unat ?g, rank (map key (?b m1))), (unat gap, rank (map key (?b m)))) \<in> less_than <*lex*> less_than" by auto
    from less.hyps [OF this] m1(2,3) less.prems(1,2) g0 gn True m1(1) show ?thesis
      by (subst comb_passes.simps) (simp add: hi)
  next
    case False
    then have "unat ?g = 1" using g by (simp add: word_less_nat_alt)
    then have "sorted (map key (?b m1))" using m1(5) False by (auto simp: sorted_iff_nth_Suc)
    then show ?thesis using False m1(1-3) by (subst comb_passes.simps) (simp add: hi)
  qed
qed

lemma qsort_sorted:
  assumes "orders compar key" and "length m = unat nmemb * unat width" and "unat nmemb * unat width < 2 ^ 32"
  shows "\<exists>m'. qsort nmemb width compar m = Some (Inr m') \<and> length m' = length m \<and>
    mset (blocks (unat width) (unat nmemb) m') = mset (blocks (unat width) (unat nmemb) m) \<and>
    sorted (map key (blocks (unat width) (unat nmemb) m'))"
proof (cases "nmemb = 0")
  case True
  then show ?thesis by (simp add: qsort_def blocks_def)
next
  case False
  then show ?thesis using comb_passes_sort [OF assms False] by (simp add: qsort_def)
qed

definition found_in :: "(nat \<Rightarrow> 'k) \<Rightarrow> 'k \<Rightarrow> nat \<Rightarrow> nat \<Rightarrow> nat \<Rightarrow> nat option \<Rightarrow> bool" where
  "found_in K k w lo hi r \<longleftrightarrow>
     (case r of Some p \<Rightarrow> \<exists>i. lo \<le> i \<and> i < hi \<and> p = i * w \<and> K i = k | None \<Rightarrow> \<forall>i. lo \<le> i \<longrightarrow> i < hi \<longrightarrow> K i \<noteq> k)"

lemma found_in_widen:
  assumes "found_in K k w lo' hi' r" "lo \<le> lo'" "hi' \<le> hi" "\<And>i. lo \<le> i \<Longrightarrow> i < hi \<Longrightarrow> i < lo' \<or> hi' \<le> i \<Longrightarrow> K i \<noteq> k"
  shows "found_in K k w lo hi r"
proof (cases r)
  case None
  have "K i \<noteq> k" if "lo \<le> i" "i < hi" for i using assms(1) assms(4) [OF that] None by (cases "i < lo' \<or> hi' \<le> i") (auto simp: found_in_def)
  then show ?thesis using None by (simp add: found_in_def)
next
  case (Some p)
  then obtain i where "lo' \<le> i" "i < hi'" "p = i * w" "K i = k" using assms(1) by (auto simp: found_in_def)
  then show ?thesis using Some assms(2,3) by (auto simp: found_in_def intro!: exI [of _ i])
qed

lemma bsearch_range:
  fixes K :: "nat \<Rightarrow> 'k :: linorder"
  assumes mono: "\<And>i j. i \<le> j \<Longrightarrow> j < n \<Longrightarrow> K i \<le> K j"
    and cmp: "\<And>i. (cmp (block_at (unat w) (i * unat w) m) = 0 \<longleftrightarrow> K i = k) \<and> (cmp (block_at (unat w) (i * unat w) m) > 0 \<longleftrightarrow> K i < k)"
    and "lo + unat cnt \<le> n" "n * unat w < 2 ^ 32"
  shows "found_in K k (unat w) lo (lo + unat cnt) (bsearch cmp (lo * unat w) cnt w m)"
  using assms(3)
proof (induction "unat cnt" arbitrary: lo cnt rule: less_induct)
  case less
  show ?case
  proof (cases "cnt = 0")
    case True
    then show ?thesis by (subst bsearch.simps) (simp add: found_in_def)
  next
    case False
    let ?h = "unat cnt div 2" and ?up = "cnt - (cnt div 2 + 1)"
    note h = half_word [OF False, THEN conjunct1] half_word [OF False, THEN conjunct2]
    have pos: "?h < unat cnt" using False by (simp add: unat_gt_0)
    have "?h * unat w \<le> n * unat w" by (rule mult_le_mono1) (use pos less.prems in linarith)
    then have "unat (cnt div 2) * unat w < 2 ^ LENGTH(32)" unfolding h using order.strict_trans1 [OF _ assms(4)] by simp
    from unat_mult_small [OF this] have mid: "lo * unat w + unat (cnt div 2 * w) = (lo + ?h) * unat w" by (simp add: h algebra_simps)
    have inn: "lo + ?h < n" using pos less.prems by linarith
    note c = cmp [of "lo + ?h"]
    note step = bsearch.simps [of cmp "lo * unat w" cnt w m]
    consider "K (lo + ?h) = k" | "K (lo + ?h) < k" | "k < K (lo + ?h)" by (rule linorder_cases)
    then show ?thesis
    proof cases
      case 1
      then have "bsearch cmp (lo * unat w) cnt w m = Some ((lo + ?h) * unat w)" using False c by (simp add: step mid Let_def)
      then show ?thesis using 1 pos by (auto simp: found_in_def intro!: exI [of _ "lo + ?h"])
    next
      case 2
      then have "cmp (block_at (unat w) ((lo + ?h) * unat w) m) \<noteq> 0" "0 < cmp (block_at (unat w) ((lo + ?h) * unat w) m)" using c by auto
      then have eq: "bsearch cmp (lo * unat w) cnt w m = bsearch cmp ((lo + ?h + 1) * unat w) ?up w m"
        using False by (simp add: step mid Let_def add.commute)
      have u: "lo + ?h + 1 + unat ?up = lo + unat cnt" "unat ?up < unat cnt" using pos h(2) by simp_all
      have f: "found_in K k (unat w) (lo + ?h + 1) (lo + ?h + 1 + unat ?up) (bsearch cmp ((lo + ?h + 1) * unat w) ?up w m)"
        by (rule less.hyps) (use u less.prems in simp_all)
      have out: "K i \<noteq> k" if "i < lo + ?h + 1" for i using mono [of i, OF _ inn] that 2 by force
      show ?thesis unfolding eq by (rule found_in_widen [OF f]) (use out u(1) in linarith | use out in auto)+
    next
      case 3
      then have "cmp (block_at (unat w) ((lo + ?h) * unat w) m) \<noteq> 0" "\<not> 0 < cmp (block_at (unat w) ((lo + ?h) * unat w) m)" using c by auto
      then have eq: "bsearch cmp (lo * unat w) cnt w m = bsearch cmp (lo * unat w) (cnt div 2) w m"
        using False by (simp add: step mid Let_def)
      have f: "found_in K k (unat w) lo (lo + unat (cnt div 2)) (bsearch cmp (lo * unat w) (cnt div 2) w m)"
        by (rule less.hyps) (use h pos less.prems in simp_all)
      have out: "K i \<noteq> k" if "lo + ?h \<le> i" "i < lo + unat cnt" for i using mono [OF that(1)] that(2) less.prems 3 by auto
      show ?thesis unfolding eq by (rule found_in_widen [OF f]) (use h(1) pos in linarith | use out h(1) in auto)+
    qed
  qed
qed

lemma bsearch_sorted:
  assumes "sorted (map key (blocks (unat width) (unat nmemb) m))" and "unat nmemb * unat width < 2 ^ 32"
    and "\<And>x. (cmp x = 0 \<longleftrightarrow> key x = k) \<and> (cmp x > 0 \<longleftrightarrow> key x < (k :: 'k :: linorder))"
  shows "case bsearch cmp 0 nmemb width m of
      Some p \<Rightarrow> \<exists>i < unat nmemb. p = i * unat width \<and> key (block_at (unat width) p m) = k
    | None \<Rightarrow> k \<notin> key ` set (blocks (unat width) (unat nmemb) m)"
proof -
  let ?K = "\<lambda>i. key (block_at (unat width) (i * unat width) m)"
  have mono: "?K i \<le> ?K j" if "i \<le> j" "j < unat nmemb" for i j
    using sorted_nth_mono [OF assms(1) that(1)] that by (simp add: nth_blocks)
  have "found_in ?K k (unat width) 0 (0 + unat nmemb) (bsearch cmp (0 * unat width) nmemb width m)"
    by (rule bsearch_range [OF _ _ _ assms(2)]) (use mono assms(3) in auto)
  then show ?thesis by (auto simp: found_in_def blocks_def split: option.splits)
qed

text \<open>C38: Sorting and searching. For a comparison that orders the elements by a key, \<open>qsort\<close> returns: the array is a
  permutation of the old one, element by element, with its keys in ascending order; this holds
  for any number and width of elements, also when the product with 10 in \<open>newgap\<close> wraps around. In
  the sorted array \<open>bsearch\<close> returns the address of an element with the key that is searched, and
  \<open>NULL\<close> exactly if no element of the array has this key.\<close>

theorem qsort_bsearch:
  assumes "orders compar key" and "length m = unat nmemb * unat width" and "unat nmemb * unat width < 2 ^ 32"
    and "\<And>x. (cmp x = 0 \<longleftrightarrow> key x = k) \<and> (cmp x > 0 \<longleftrightarrow> key x < (k :: 'k :: linorder))"
  shows "\<exists>m'. qsort nmemb width compar m = Some (Inr m') \<and> length m' = length m \<and>
    mset (blocks (unat width) (unat nmemb) m') = mset (blocks (unat width) (unat nmemb) m) \<and>
    sorted (map key (blocks (unat width) (unat nmemb) m')) \<and>
    (case bsearch cmp 0 nmemb width m' of
       Some p \<Rightarrow> \<exists>i < unat nmemb. p = i * unat width \<and> key (block_at (unat width) p m') = k
     | None \<Rightarrow> k \<notin> key ` set (blocks (unat width) (unat nmemb) m))"
proof -
  obtain m' where m': "qsort nmemb width compar m = Some (Inr m')" "length m' = length m"
    "mset (blocks (unat width) (unat nmemb) m') = mset (blocks (unat width) (unat nmemb) m)"
    "sorted (map key (blocks (unat width) (unat nmemb) m'))"
    using qsort_sorted [OF assms(1-3)] by blast
  then show ?thesis using bsearch_sorted [OF m'(4) assms(3,4)] mset_eq_setD [OF m'(3)] by (auto split: option.splits)
qed

text \<open>Four bytes, compared as numbers: sorted, and 4 is found in the result.\<close>

theorem qsort_bsearch_witness:
  "\<exists>m' p. qsort 4 1 (\<lambda>x y. uint (hd x) - uint (hd y)) [3, 1, 4, 1] = Some (Inr m') \<and> mset (blocks 1 4 m') = {#[1], [1], [3], [4]#} \<and>
     bsearch (\<lambda>x. 4 - uint (hd x)) 0 4 1 m' = Some p \<and> uint (hd (block_at 1 p m')) = 4"
proof -
  have o: "orders (\<lambda>x y. uint (hd x) - uint (hd y)) (\<lambda>x. uint (hd x :: u8))" by (simp add: orders_def)
  have b: "blocks 1 4 [3 :: u8, 1, 4, 1] = [[3], [1], [4], [1]]" by (simp add: blocks_def block_at_def upt_rec)
  from qsort_bsearch [OF o, of "[3, 1, 4, 1]" 4 1 "\<lambda>x. 4 - uint (hd x)" 4] b
  show ?thesis by (auto split: option.splits)
qed

end
