(* ===== verification/Libc_Numbers.thy ===== *)
theory Libc_Numbers
  imports Libc_Strings User_Stdio
begin

text \<open>
  Numbers in the C library of the programs (\<open>userspace/libc/src\<close>): parsing (\<open>strntoumax.c\<close> and the
  functions that the templates \<open>atox.c\<close> and \<open>strtox.c\<close> make of it), the pseudo-random numbers of the
  \<open>rand48\<close> family, and reading back what \<open>itoa\<close> prints.
\<close>

section \<open>Parsing\<close>

definition digitval :: "u8 \<Rightarrow> int" where
  "digitval ch =
     (if 48 \<le> ch \<and> ch \<le> 57 then uint ch - 48
      else if 65 \<le> ch \<and> ch \<le> 90 then uint ch - 65 + 10
      else if 97 \<le> ch \<and> ch \<le> 122 then uint ch - 97 + 10
      else - 1)"

definition isspace :: "u8 \<Rightarrow> bool" where
  "isspace c \<longleftrightarrow> c = 32 \<or> c = 10 \<or> c = 9 \<or> c = 13"

text \<open>The loops work on the bytes from the pointer on, the pointer as an offset, and the number \<open>n\<close> of bytes
  that may be read.\<close>

fun skip_spaces :: "u8 list \<Rightarrow> nat \<Rightarrow> nat \<Rightarrow> (u8 list \<times> nat \<times> nat) res" where
  "skip_spaces s i 0 = Inr (s, i, 0)"
| "skip_spaces [] i (Suc n) = Inl Out_Of_Bounds"
| "skip_spaces (c # s) i (Suc n) = (if isspace c then skip_spaces s (i + 1) n else Inr (c # s, i, Suc n))"

fun scan_digits :: "int \<Rightarrow> u64 \<Rightarrow> u8 list \<Rightarrow> nat \<Rightarrow> nat \<Rightarrow> (u64 \<times> nat) res" where
  "scan_digits base v s i 0 = Inr (v, i)"
| "scan_digits base v [] i (Suc n) = Inl Out_Of_Bounds"
| "scan_digits base v (c # s) i (Suc n) =
     (let d = digitval c in
      if d \<ge> 0 \<and> d < base then scan_digits base (v * of_int base + of_int d) s (i + 1) n else Inr (v, i))"

text \<open>The optional sign: whether it is a minus.\<close>

definition read_sign :: "u8 list \<times> nat \<times> nat \<Rightarrow> (bool \<times> u8 list \<times> nat \<times> nat) res" where
  "read_sign = (\<lambda>(s, i, n).
     if n = 0 then Inr (False, s, i, n)
     else case s of [] \<Rightarrow> Inl Out_Of_Bounds
       | c # s' \<Rightarrow> Inr (if c = 45 \<or> c = 43 then (c = 45, s', i + 1, n - 1) else (False, s, i, n)))"

text \<open>The prefixes \<open>0x\<close> and \<open>0\<close>; a byte is only read if \<open>n\<close> allows it.\<close>

definition hex_prefix :: "u8 list \<Rightarrow> nat \<Rightarrow> bool res" where
  "hex_prefix s n =
     (if n < 2 then Inr False
      else in_bounds 0 (length s) (if s ! 0 \<noteq> 48 then Inr False else in_bounds 1 (length s) (Inr (s ! 1 = 120 \<or> s ! 1 = 88))))"

definition read_prefix :: "int \<Rightarrow> u8 list \<times> nat \<times> nat \<Rightarrow> (int \<times> u8 list \<times> nat \<times> nat) res" where
  "read_prefix base = (\<lambda>(s, i, n).
     if base = 0 then
       and_then (hex_prefix s n) (\<lambda>hex.
       if hex then Inr (16, drop 2 s, i + 2, n - 2)
       else if n < 1 then Inr (10, s, i, n)
       else in_bounds 0 (length s) (Inr (if s ! 0 = 48 then (8, drop 1 s, i + 1, n - 1) else (10, s, i, n))))
     else if base = 16 then
       and_then (hex_prefix s n) (\<lambda>hex. Inr (if hex then (16, drop 2 s, i + 2, n - 2) else (16, s, i, n)))
     else Inr (base, s, i, n))"

text \<open>The value and the offset that is stored at \<open>endptr\<close>.\<close>

definition strntoumax :: "u8 list \<Rightarrow> int \<Rightarrow> nat \<Rightarrow> (u64 \<times> nat) res" where
  "strntoumax nptr base n =
     and_then (skip_spaces nptr 0 n) (\<lambda>p.
     and_then (read_sign p) (\<lambda>(minus, p1).
     and_then (read_prefix base p1) (\<lambda>(base1, s, i, n1).
     and_then (scan_digits base1 0 s i n1) (\<lambda>(v, i1).
     Inr (if minus then - v else v, i1)))))"

text \<open>\<open>~(size_t) 0\<close>, and the instances of the templates; the conversion to the result type keeps its low bits.\<close>

definition SIZE_MAX :: nat where "SIZE_MAX = unat (NOT 0 :: u32)"

definition libc_atoi :: "u8 list \<Rightarrow> u32 res" where
  "libc_atoi nptr = and_then (strntoumax nptr 10 SIZE_MAX) (\<lambda>(v, i). Inr (ucast v))"

definition libc_atoll :: "u8 list \<Rightarrow> u64 res" where
  "libc_atoll nptr = and_then (strntoumax nptr 10 SIZE_MAX) (\<lambda>(v, i). Inr v)"

definition libc_strtol :: "u8 list \<Rightarrow> int \<Rightarrow> (u32 \<times> nat) res" where
  "libc_strtol nptr base = and_then (strntoumax nptr base SIZE_MAX) (\<lambda>(v, i). Inr (ucast v, i))"

definition libc_strtoll :: "u8 list \<Rightarrow> int \<Rightarrow> (u64 \<times> nat) res" where
  "libc_strtoll nptr base = strntoumax nptr base SIZE_MAX"

definition strntoimax :: "u8 list \<Rightarrow> int \<Rightarrow> nat \<Rightarrow> (u64 \<times> nat) res" where
  "strntoimax nptr base n = strntoumax nptr base n"

section \<open>Pseudo-random numbers\<close>

definition rand48_state :: "u16 list \<Rightarrow> u64" where
  "rand48_state xsubi = ucast (xsubi ! 0) + push_bit 16 (ucast (xsubi ! 1)) + push_bit 32 (ucast (xsubi ! 2))"

text \<open>\<open>jrand48\<close> on the array of three half words, and the functions that use it; \<open>srand48\<close> sets the common seed.\<close>

definition jrand48 :: "u16 list \<Rightarrow> u32 \<times> u16 list" where
  "jrand48 xsubi =
     (let x = 0x5deece66d * rand48_state xsubi + 0xb
      in (ucast (drop_bit 16 x), [ucast x, ucast (drop_bit 16 x), ucast (drop_bit 32 x)]))"

definition nrand48 :: "u16 list \<Rightarrow> u32 \<times> u16 list" where
  "nrand48 xsubi = (let (r, xs) = jrand48 xsubi in (drop_bit 1 r, xs))"

definition lrand48 :: "u16 list \<Rightarrow> u32 \<times> u16 list" where
  "lrand48 seed = (let (r, xs) = jrand48 seed in (drop_bit 1 r, xs))"

definition mrand48 :: "u16 list \<Rightarrow> u32 \<times> u16 list" where
  "mrand48 seed = jrand48 seed"

definition srand48 :: "u32 \<Rightarrow> u16 list" where
  "srand48 seedval = [0x330e, ucast seedval, ucast (drop_bit 16 seedval)]"

section \<open>Reading back what \<open>itoa\<close> prints\<close>

lemma digitval_char:
  assumes "k < 16"
  shows "digitval (digit_char (of_nat k)) = int k \<and> \<not> isspace (digit_char (of_nat k)) \<and> digit_char (of_nat k) \<noteq> 120 \<and>
    digit_char (of_nat k) \<noteq> 88 \<and> digit_char (of_nat k) \<noteq> 43 \<and> digit_char (of_nat k) \<noteq> 45"
proof -
  have "\<forall>k\<in>set [0..<16]. digitval (digit_char (of_nat k)) = int k \<and> \<not> isspace (digit_char (of_nat k)) \<and> digit_char (of_nat k) \<noteq> 120 \<and>
    digit_char (of_nat k) \<noteq> 88 \<and> digit_char (of_nat k) \<noteq> 43 \<and> digit_char (of_nat k) \<noteq> 45"
    by (simp add: upt_rec digit_char_def digitval_def isspace_def)
  then show ?thesis using assms by auto
qed

definition numeral_text :: "nat \<Rightarrow> u8 list \<Rightarrow> bool" where
  "numeral_text base ds \<longleftrightarrow> (\<forall>c \<in> set ds. \<exists>k < base. c = digit_char (of_nat k))"

definition word_value :: "nat \<Rightarrow> u64 \<Rightarrow> u8 list \<Rightarrow> u64" where
  "word_value base v ds = foldl (\<lambda>v c. v * of_nat base + of_int (digitval c)) v ds"

lemma numeral_digits: "2 \<le> base \<Longrightarrow> numeral_text base (digits base n)"
proof (induction base n rule: digits.induct)
  case (1 base n)
  have "n < base \<or> numeral_text base (digits base (n div base))" using 1 by auto
  moreover have "n mod base < base" using 1(2) by simp
  ultimately show ?case using 1(2) by (subst digits.simps) (auto simp: numeral_text_def intro: exI [of _ n] exI [of _ "n mod base"])
qed

lemma word_value_digits: "2 \<le> base \<Longrightarrow> base \<le> 16 \<Longrightarrow> word_value base 0 (digits base n) = of_nat n"
proof (induction base n rule: digits.induct)
  case (1 base n)
  show ?case
  proof (cases "n < base")
    case True
    then show ?thesis using 1(2,3) digitval_char [of n] by (subst digits.simps) (simp add: word_value_def)
  next
    case False
    then have ih: "word_value base 0 (digits base (n div base)) = of_nat (n div base)" using 1 by simp
    have "n mod base < 16" using 1(2,3) mod_less_divisor [of base n] by linarith
    then have "word_value base 0 (digits base n) = of_nat (n div base) * of_nat base + of_nat (n mod base)"
      using False 1(2) ih digitval_char [of "n mod base"] by (subst digits.simps) (simp add: word_value_def)
    also have "\<dots> = of_nat (n div base * base + n mod base)" by (simp only: of_nat_add of_nat_mult)
    finally show ?thesis by simp
  qed
qed

lemma scan_numeral:
  assumes "numeral_text base ds" "base \<le> 16" "length ds < n"
  shows "scan_digits (int base) v (ds @ 0 # r) i n = Inr (word_value base v ds, i + length ds)"
  using assms(1,3)
proof (induction ds arbitrary: v i n)
  case Nil
  then show ?case by (cases n) (simp_all add: digitval_def word_value_def)
next
  case (Cons c ds)
  then obtain k n' where k: "k < base" "c = digit_char (of_nat k)" and n: "n = Suc n'" by (cases n) (auto simp: numeral_text_def)
  have "digitval c = int k" using digitval_char [of k] k assms(2) by simp
  moreover have "numeral_text base ds" "length ds < n'" using Cons.prems n by (auto simp: numeral_text_def)
  ultimately show ?case using Cons.IH [of n' "v * of_nat base + of_int (int k)" "i + 1"] k n by (simp add: word_value_def)
qed

text \<open>A numeral after an optional minus sign; it has no prefix, since its second character is not an \<open>x\<close>.\<close>

lemma read_numeral:
  assumes "numeral_text base ds" "ds \<noteq> []" "base = 10 \<or> base = 16" "length ds + 2 \<le> n"
  shows "strntoumax ((if neg then [45] else []) @ ds @ 0 # r) (int base) n =
    Inr (if neg then - word_value base 0 ds else word_value base 0 ds, (if neg then 1 else 0) + length ds)"
proof -
  obtain c ds' n' where c: "ds = c # ds'" and n: "n = Suc (Suc n')" using assms(2,4) by (cases ds; cases n; cases "n - 1") auto
  obtain k where k: "k < base" "c = digit_char (of_nat k)" using assms(1) c by (auto simp: numeral_text_def)
  have c1: "\<not> isspace c" "c \<noteq> 43" "c \<noteq> 45" using digitval_char [of k] k assms(3) by auto
  let ?n = "if neg then Suc n' else n" and ?i = "if neg then 1 else 0 :: nat"
  have sp: "skip_spaces ((if neg then [45] else []) @ ds @ 0 # r) 0 n = Inr ((if neg then [45] else []) @ ds @ 0 # r, 0, n)"
    using c1(1) by (simp add: c n isspace_def)
  have sg: "read_sign ((if neg then [45] else []) @ ds @ 0 # r, 0, n) = Inr (neg, ds @ 0 # r, ?i, ?n)"
    using c1(2,3) by (simp add: read_sign_def c n)
  have "(ds @ 0 # r) ! 1 \<noteq> 120 \<and> (ds @ 0 # r) ! 1 \<noteq> 88"
  proof (cases ds')
    case (Cons e es)
    then obtain j where "j < base" "e = digit_char (of_nat j)" using assms(1) c by (auto simp: numeral_text_def)
    then show ?thesis using digitval_char [of j] assms(3) c Cons by auto
  qed (simp add: c)
  then have pf: "read_prefix (int base) (ds @ 0 # r, ?i, ?n) = Inr (int base, ds @ 0 # r, ?i, ?n)"
    using assms(3) by (auto simp: read_prefix_def hex_prefix_def c)
  have sc: "scan_digits (int base) 0 (ds @ 0 # r) ?i ?n = Inr (word_value base 0 ds, ?i + length ds)"
    by (rule scan_numeral) (use assms n in auto)
  show ?thesis unfolding strntoumax_def sp and_then_simps sg prod.case pf sc by simp
qed

lemma low_word_unat: "ucast (of_nat (unat d) :: u64) = (d :: u32)"
  by (rule bit_word_eqI) (simp add: bit_simps)

lemma low_word_neg: "sint d < 0 \<Longrightarrow> ucast (- of_nat (nat (- sint d)) :: u64) = (d :: u32)"
proof -
  assume "sint d < 0"
  then have "- of_nat (nat (- sint d)) = (of_int (sint d) :: u64)" by (simp add: of_nat_nat)
  moreover have "ucast (of_int (sint d) :: u64) = (of_int (sint d) :: u32)"
    by (rule bit_word_eqI) (simp add: bit_simps)
  ultimately show ?thesis by simp
qed

text \<open>C39: Numbers survive printing and parsing by the program's own routines. For a buffer of 20 bytes, \<open>itoa\<close>
  writes a zero-terminated text of at most 11 characters inside the buffer, and \<open>strtol\<close>
  (for hexadecimal numbers with base 16, else with base 10) reads exactly this text and gives the
  number back: signed with \<open>%d\<close>, the smallest integer included, unsigned, or hexadecimal; \<open>atoi\<close>
  gives a number back that was not printed in hexadecimal.\<close>

theorem itoa_parses_back:
  assumes "length b = 20"
  shows "\<exists>text rest. itoa 0 base d b = Inr (text @ 0 # rest) \<and> 0 \<notin> set text \<and> length text \<le> 11 \<and> length (text @ 0 # rest) = 20 \<and>
    libc_strtol (text @ 0 # rest) (if base = 120 then 16 else 10) = Inr (d, length text) \<and>
    (base \<noteq> 120 \<longrightarrow> libc_atoi (text @ 0 # rest) = Inr d)"
proof -
  let ?t = "number_text base d"
  define r where "r = drop (length ?t + 1) b"
  define bb where "bb = (if base = 120 then 16 else 10 :: nat)"
  define neg where "neg \<longleftrightarrow> base = 100 \<and> d <s 0"
  define n where "n = (if neg then nat (- sint d) else unat d)"
  note len = number_text_length [of base d]
  have bb: "bb = 10 \<or> bb = 16" "(if base = 120 then 16 else 10) = int bb" by (simp_all add: bb_def)
  have it: "itoa 0 base d b = Inr (?t @ 0 # r)" using itoa_spec [of 0 base d b] assms len by (simp add: r_def)
  have t: "?t = (if neg then [45] else []) @ digits bb n" by (simp add: number_text_def neg_def n_def bb_def)
  have lt: "length ?t = (if neg then 1 else 0) + length (digits bb n)" unfolding t by simp
  have "length ?t + 2 \<le> SIZE_MAX" using len by (simp add: SIZE_MAX_def unsigned_minus_1_eq_mask mask_eq_exp_minus_1)
  then have fits: "length (digits bb n) + 2 \<le> SIZE_MAX" unfolding lt by simp
  have bounds: "2 \<le> bb" "bb \<le> 16" using bb(1) by auto
  have parse: "strntoumax (?t @ 0 # r) (int bb) SIZE_MAX = Inr (if neg then - of_nat n else of_nat n, length ?t)"
    using read_numeral [OF numeral_digits [OF bounds(1)] digits_nonempty bb(1) fits, of neg r] word_value_digits [OF bounds]
    unfolding lt by (simp add: t)
  have val: "ucast (if neg then - of_nat n else of_nat n :: u64) = d"
    using low_word_neg [of d] by (auto simp: low_word_unat [simplified] word_sless_alt n_def neg_def)
  have "libc_strtol (?t @ 0 # r) (if base = 120 then 16 else 10) = Inr (d, length ?t)"
    unfolding bb(2) by (simp add: libc_strtol_def parse val)
  moreover have "base \<noteq> 120 \<longrightarrow> libc_atoi (?t @ 0 # r) = Inr d"
    using parse val by (auto simp: libc_atoi_def bb_def)
  ultimately show ?thesis
    using it len number_text_no_zero [of base d] assms r_def by (intro exI [of _ ?t] exI [of _ r]) auto
qed

theorem itoa_parses_back_witness:
  "\<exists>text rest. itoa 0 100 (- 305) (replicate 20 7) = Inr (text @ 0 # rest) \<and> libc_atoi (text @ 0 # rest) = Inr (- 305)"
  using itoa_parses_back [of "replicate 20 7" 100 "- 305"] by auto

end
