(* ===== verification/Libc_Printf.thy ===== *)
theory Libc_Printf
  imports User_Stdio Libc_Numbers
begin

text \<open>
  Formatted output of the C library of the programs (\<open>userspace/libc/src/tinyprintf.c\<close>) into memory
  (\<open>memfile.c\<close>), built without \<open>PRINTF_LONG_SUPPORT\<close>. A format is the list of its characters
  before the terminator; the variable arguments are a list of words, and \<open>str\<close> gives the text at the address
  that a word is for \<open>%s\<close>.
\<close>

section \<open>The stream\<close>

record memfile =
  mf_memory :: "u8 list"
  mf_buffer :: nat
  mf_bytes_written :: u32
  mf_size :: u32

definition fmemopen_w :: "u8 list \<Rightarrow> u32 \<Rightarrow> memfile" where
  "fmemopen_w buffer sz = \<lparr>mf_memory = buffer, mf_buffer = 0, mf_bytes_written = 0, mf_size = sz\<rparr>"

fun memfile_write :: "u8 list \<Rightarrow> nat \<Rightarrow> nat \<Rightarrow> memfile \<Rightarrow> (nat \<times> memfile) res" where
  "memfile_write bp 0 i f = Inr (i, f)"
| "memfile_write bp (Suc n) i f =
     (let f1 = f\<lparr>mf_bytes_written := mf_bytes_written f + 1\<rparr> in
      if mf_bytes_written f1 \<le> mf_size f1 then
        (case bp of
           [] \<Rightarrow> Inl Out_Of_Bounds
         | c # bp1 \<Rightarrow>
             in_bounds (mf_buffer f1) (length (mf_memory f1))
               (memfile_write bp1 n (i + 1) (f1\<lparr>mf_memory := (mf_memory f1)[mf_buffer f1 := c], mf_buffer := mf_buffer f1 + 1\<rparr>)))
      else memfile_write bp n i f1)"

text \<open>\<open>putf\<close>, with \<open>fputc\<close> and \<open>fwrite\<close>: the state is the number of characters written and the stream.\<close>

type_synonym sink = "u32 \<times> memfile"

definition putf :: "u8 \<Rightarrow> sink \<Rightarrow> sink res" where
  "putf c = (\<lambda>(written, f). and_then (memfile_write [c] 1 0 f) (\<lambda>(k, f1). Inr (if k = 1 then written + 1 else written, f1)))"

section \<open>Conversions\<close>

record param =
  p_width :: int
  p_lz :: bool
  p_sign :: u8
  p_alt :: bool
  p_base :: u8
  p_uc :: bool

partial_function (option) first_divisor :: "u32 \<Rightarrow> u32 \<Rightarrow> u32 \<Rightarrow> u32 option" where
  "first_divisor num b d = (if num div d \<ge> b then first_divisor num b (d * b) else Some d)"

text \<open>The digits of \<open>num\<close> from the divisor \<open>d\<close> on; \<open>n\<close> of them are in the buffer, which \<open>bf\<close> points to.\<close>

partial_function (option) divide_digits :: "u32 \<Rightarrow> bool \<Rightarrow> u32 \<Rightarrow> u32 \<Rightarrow> nat \<Rightarrow> u8 list \<Rightarrow> (nat \<times> u8 list) run" where
  "divide_digits b up num d n bf =
     (if d = 0 then Some (Inr (n, bf))
      else
        let dgt = num div d; num1 = num mod d; d1 = d div b in
        if n \<noteq> 0 \<or> dgt > 0 \<or> d1 = 0 then
          run_then (Some (store_at n (ucast dgt + (if dgt < 10 then 48 else (if up then 65 else 97) - 10)) bf)) (divide_digits b up num1 d1 (n + 1))
        else divide_digits b up num1 d1 n bf)"

definition ui2a :: "u32 \<Rightarrow> param \<Rightarrow> u8 list \<Rightarrow> u8 list run" where
  "ui2a num p bf =
     (case first_divisor num (ucast (p_base p)) 1 of
        None \<Rightarrow> None
      | Some d \<Rightarrow> run_then (divide_digits (ucast (p_base p)) (p_uc p) num d 0 bf) (\<lambda>(n, bf1). Some (store_at n 0 bf1)))"

definition i2a :: "u32 \<Rightarrow> param \<Rightarrow> u8 list \<Rightarrow> (param \<times> u8 list) run" where
  "i2a num p bf =
     (let (num1, p1) = (if num <s 0 then (- num, p\<lparr>p_sign := 45\<rparr>) else (num, p))
      in run_then (ui2a num1 p1 bf) (\<lambda>bf1. Some (Inr (p1, bf1))))"

definition a2d :: "u8 \<Rightarrow> int" where
  "a2d ch =
     (if 48 \<le> ch \<and> ch \<le> 57 then uint ch - 48
      else if 97 \<le> ch \<and> ch \<le> 102 then uint ch - 97 + 10
      else if 65 \<le> ch \<and> ch \<le> 70 then uint ch - 65 + 10
      else - 1)"

text \<open>The character behind the number, the rest of the source and the number; the end of the source is its terminator.\<close>

fun a2i :: "u8 \<Rightarrow> u8 list \<Rightarrow> int \<Rightarrow> u32 \<Rightarrow> u8 \<times> u8 list \<times> u32" where
  "a2i ch src b num =
     (if a2d ch < 0 \<or> a2d ch > b then (ch, src, num)
      else case src of
        [] \<Rightarrow> (0, [], num * of_int b + of_int (a2d ch))
      | c # src1 \<Rightarrow> a2i c src1 b (num * of_int b + of_int (a2d ch)))"

section \<open>Fields\<close>

text \<open>\<open>while (*bf++ && n > 0) n--;\<close>\<close>

fun pad_width :: "u8 list \<Rightarrow> int \<Rightarrow> int res" where
  "pad_width [] n = Inl Out_Of_Bounds"
| "pad_width (c # bf) n = (if c \<noteq> 0 \<and> n > 0 then pad_width bf (n - 1) else Inr n)"

text \<open>\<open>while (n-- > 0) written += putf(putp, c);\<close>\<close>

fun put_times :: "nat \<Rightarrow> u8 \<Rightarrow> sink \<Rightarrow> sink res" where
  "put_times 0 c s = Inr s"
| "put_times (Suc n) c s = and_then (putf c s) (put_times n c)"

fun put_text :: "u8 list \<Rightarrow> sink \<Rightarrow> sink res" where
  "put_text [] s = Inl Out_Of_Bounds"
| "put_text (c # bf) s = (if c \<noteq> 0 then and_then (putf c s) (put_text bf) else Inr s)"

definition putchw :: "param \<Rightarrow> u8 list \<Rightarrow> sink \<Rightarrow> sink res" where
  "putchw p bf s =
     and_then (pad_width bf (p_width p)) (\<lambda>n.
     let n = (if p_sign p \<noteq> 0 then n - 1 else n);
         n = (if p_alt p \<and> p_base p = 16 then n - 2 else if p_alt p \<and> p_base p = 8 then n - 1 else n) in
     and_then (if \<not> p_lz p then put_times (nat n) 32 s else Inr s) (\<lambda>s1.
     and_then (if p_sign p \<noteq> 0 then putf (p_sign p) s1 else Inr s1) (\<lambda>s2.
     and_then (if p_alt p \<and> p_base p = 16 then and_then (putf 48 s2) (putf (if p_uc p then 88 else 120))
               else if p_alt p \<and> p_base p = 8 then putf 48 s2 else Inr s2) (\<lambda>s3.
     and_then (if p_lz p then put_times (nat n) 48 s3 else Inr s3) (\<lambda>s4.
     put_text bf s4)))))"

text \<open>The flags: the first character that is none, and the rest of the format.\<close>

fun read_flags :: "u8 list \<Rightarrow> param \<Rightarrow> u8 \<times> u8 list \<times> param" where
  "read_flags [] p = (0, [], p)"
| "read_flags (c # fmt) p =
     (if c = 48 then read_flags fmt (p\<lparr>p_lz := True\<rparr>)
      else if c = 35 then read_flags fmt (p\<lparr>p_alt := True\<rparr>)
      else (c, fmt, p))"

text \<open>Flags, width and the ignored \<open>l\<close> of a conversion; \<open>width\<close> is a signed integer.\<close>

definition read_spec :: "u8 list \<Rightarrow> param \<Rightarrow> u8 \<times> u8 list \<times> param" where
  "read_spec fmt p =
     (let (ch, fmt1, p1) = read_flags fmt (p\<lparr>p_lz := False, p_alt := False, p_width := 0, p_sign := 0\<rparr>);
          (ch, fmt2, p2) = (if 48 \<le> ch \<and> ch \<le> 57 then (let (ch, r, n) = a2i ch fmt1 10 0 in (ch, r, p1\<lparr>p_width := sint n\<rparr>)) else (ch, fmt1, p1))
      in if ch = 108 then (case fmt2 of [] \<Rightarrow> (0, [], p2) | c # r \<Rightarrow> (c, r, p2)) else (ch, fmt2, p2))"

text \<open>The assignments to \<open>p.base\<close> and \<open>p.uc\<close> for the conversion \<open>ch\<close>.\<close>

definition set_base :: "u8 \<Rightarrow> param \<Rightarrow> param" where
  "set_base ch p =
     (if ch = 120 \<or> ch = 88 then p\<lparr>p_base := 16, p_uc := ch = 88\<rparr> else if ch = 111 then p\<lparr>p_base := 8\<rparr> else p\<lparr>p_base := 10\<rparr>)"

text \<open>The conversion \<open>ch\<close>; \<open>bf\<close> is the local buffer of 12 bytes.\<close>

definition tfp_convert :: "(u32 \<Rightarrow> u8 list res) \<Rightarrow> u8 \<Rightarrow> u32 list \<Rightarrow> param \<Rightarrow> u8 list \<Rightarrow> sink \<Rightarrow> (u32 list \<times> param \<times> u8 list \<times> sink) run" where
  "tfp_convert str ch args p bf s =
     (if ch = 37 then run_then (Some (putf ch s)) (\<lambda>s1. Some (Inr (args, p, bf, s1)))
      else if ch \<notin> {117, 100, 105, 120, 88, 111, 99, 115} then Some (Inr (args, p, bf, s))
      else case args of
        [] \<Rightarrow> Some (Inl Out_Of_Bounds)
      | a # rest \<Rightarrow>
          if ch = 99 then run_then (Some (putf (ucast a) s)) (\<lambda>s1. Some (Inr (rest, p, bf, s1)))
          else if ch = 115 then
            run_then (Some (str a)) (\<lambda>t. run_then (Some (putchw p (t @ [0]) s)) (\<lambda>s1. Some (Inr (rest, p, bf, s1))))
          else
            let p1 = set_base ch p in
            run_then (if ch = 100 \<or> ch = 105 then i2a a p1 bf else run_then (ui2a a p1 bf) (\<lambda>bf1. Some (Inr (p1, bf1)))) (\<lambda>(p2, bf1).
            run_then (Some (putchw p2 bf1 s)) (\<lambda>s1. Some (Inr (rest, p2, bf1, s1)))))"

declare a2i.simps [simp del]

lemma a2i_length: "a2i ch src b num = (c, r, n) \<Longrightarrow> length r \<le> length src"
proof (induction src arbitrary: ch num)
  case (Cons a src)
  then show ?case by (subst (asm) a2i.simps) (fastforce split: if_splits)
qed (simp add: a2i.simps split: if_splits)

lemma read_flags_length: "read_flags fmt p = (c, r, q) \<Longrightarrow> length r \<le> length fmt"
  by (induction fmt p rule: read_flags.induct) (auto split: if_splits)

lemma read_spec_length: "read_spec fmt p = (c, r, q) \<Longrightarrow> length r \<le> length fmt"
  by (auto simp: read_spec_def Let_def split: if_splits prod.splits list.splits dest!: read_flags_length a2i_length)

function tfp_format :: "(u32 \<Rightarrow> u8 list res) \<Rightarrow> u8 list \<Rightarrow> u32 list \<Rightarrow> param \<Rightarrow> u8 list \<Rightarrow> sink \<Rightarrow> sink run" where
  "tfp_format str [] args p bf s = Some (Inr s)"
| "tfp_format str (c # fmt) args p bf s =
     (if c \<noteq> 37 then run_then (Some (putf c s)) (tfp_format str fmt args p bf)
      else case read_spec fmt p of (ch, fmt1, p1) \<Rightarrow>
        if ch = 0 then Some (Inr s)
        else run_then (tfp_convert str ch args p1 bf s) (\<lambda>(args1, p2, bf1, s1). tfp_format str fmt1 args1 p2 bf1 s1))"
  by pat_completeness auto
termination
  by (relation "measure (\<lambda>(str, fmt, args, p, bf, s). length fmt)") (auto dest: read_spec_length [OF sym])

text \<open>\<open>vsnprintf\<close>; \<open>p\<close> and \<open>bf\<close> are the values that the local variables of \<open>tfp_format\<close> begin with.\<close>

definition vsnprintf :: "(u32 \<Rightarrow> u8 list res) \<Rightarrow> param \<Rightarrow> u8 list \<Rightarrow> u8 list \<Rightarrow> u32 \<Rightarrow> u8 list \<Rightarrow> u32 list \<Rightarrow> (u32 \<times> u8 list) run" where
  "vsnprintf str p bf buffer sz fmt args =
     run_then (tfp_format str fmt args p bf (0, fmemopen_w buffer (sz - 1))) (\<lambda>(written, f).
     Some (and_then (store_at (mf_buffer f) 0 (mf_memory f)) (\<lambda>m. Inr (mf_bytes_written f, m))))"

section \<open>Numbers\<close>

lemma first_divisor_power:
  assumes "2 \<le> b" "b \<le> 16" "unat d = b ^ i" "i = 0 \<or> b ^ i \<le> unat num"
  shows "\<exists>j d'. first_divisor num (of_nat b) d = Some d' \<and> unat d' = b ^ j \<and> unat num < b ^ Suc j \<and> (j = 0 \<or> b ^ j \<le> unat num)"
  using assms(3,4)
proof (induction "Suc (unat num) - b ^ i" arbitrary: i d rule: less_induct)
  case less
  have ub: "unat (of_nat b :: u32) = b" using assms(2) by (simp add: unat_of_nat_small)
  have le: "num div d \<ge> of_nat b \<longleftrightarrow> b \<le> unat num div b ^ i" by (simp add: word_le_nat_alt unat_div ub less.prems(1))
  have pos: "0 < b ^ i" using assms(1) by simp
  show ?case
  proof (cases "b \<le> unat num div b ^ i")
    case True
    then have more: "b ^ Suc i \<le> unat num" using pos by (simp add: less_eq_div_iff_mult_less_eq)
    then have "unat d * unat (of_nat b :: u32) < 2 ^ LENGTH(32)"
      using unsigned_less [of num, where ?'a = nat] by (simp add: ub less.prems(1) mult.commute)
    from unat_mult_small [OF this] have "unat (d * of_nat b) = b ^ Suc i" by (simp add: ub less.prems(1) mult.commute)
    moreover have "b ^ i < b ^ Suc i" using assms(1) by simp
    ultimately have "\<exists>j d'. first_divisor num (of_nat b) (d * of_nat b) = Some d' \<and> unat d' = b ^ j \<and> unat num < b ^ Suc j \<and> (j = 0 \<or> b ^ j \<le> unat num)"
      using more diff_less_mono2 [of "b ^ i" "b ^ Suc i" "Suc (unat num)"] by (intro less.hyps [of "Suc i"]) linarith+
    then show ?thesis using True le by (subst first_divisor.simps) simp
  next
    case False
    then have "unat num < b ^ Suc i" using div_less_iff_less_mult [OF pos, of "unat num" b] by simp
    then show ?thesis using False le less.prems by (subst first_divisor.simps) auto
  qed
qed

lemma digit_char_word:
  assumes "unat (dgt :: u32) = k"
  shows "ucast dgt + (if dgt < 10 then 48 else (if up then 65 else 97) - 10) = digit_in up k"
proof -
  have "(ucast dgt :: u8) = of_nat k" using assms by auto
  moreover have "dgt < 10 \<longleftrightarrow> k < 10" using assms by (simp add: word_less_nat_alt)
  ultimately show ?thesis by (simp only: digit_in_def)
qed

lemma divide_digits_step:
  assumes "2 \<le> b" "b \<le> 16" "unat d = b ^ j" "k \<noteq> 0 \<or> j = 0 \<or> b ^ j \<le> unat num" "k < length bf"
  shows "divide_digits (of_nat b) up num d k bf =
    divide_digits (of_nat b) up (num mod d) (d div of_nat b) (k + 1) (bf[k := digit_in up (unat num div b ^ j)])"
proof -
  have ub: "unat (of_nat b :: u32) = b" using assms(2) by (simp add: unat_of_nat_small)
  have pos: "0 < b ^ j" using assms(1) by simp
  then have "d \<noteq> 0" using assms(3) by auto
  moreover have dgt: "unat (num div d) = unat num div b ^ j" by (simp add: unat_div assms(3))
  moreover have "num div d > 0" if "b ^ j \<le> unat num"
    using that pos dgt by (simp add: word_less_nat_alt div_greater_zero_iff)
  moreover have "d div of_nat b = 0" if "j = 0"
    using assms(1,3) that by (simp add: word_unat_eq_iff unat_div ub)
  ultimately have "k \<noteq> 0 \<or> num div d > 0 \<or> d div of_nat b = 0" "d \<noteq> 0" using assms(4) by auto
  then show ?thesis using assms(5) digit_char_word [OF dgt, of up]
    by (subst divide_digits.simps) (simp add: Let_def store_at_ok del: Suc_eq_plus1)
qed

lemma divide_digits_fixed:
  assumes "2 \<le> b" "b \<le> 16" "unat d = b ^ j" "unat num < b ^ Suc j" "k \<noteq> 0 \<or> j = 0 \<or> b ^ j \<le> unat num" "k + Suc j \<le> length bf"
  shows "divide_digits (of_nat b) up num d k bf = Some (Inr (k + Suc j, take k bf @ fixed_in b up (Suc j) (unat num) @ drop (k + Suc j) bf))"
  using assms(3-6)
proof (induction j arbitrary: d num k bf)
  case 0
  have ub: "unat (of_nat b :: u32) = b" using assms(2) by (simp add: unat_of_nat_small)
  have "d div of_nat b = 0" using 0(1) assms(1) by (simp add: word_unat_eq_iff unat_div ub)
  moreover have "divide_digits (of_nat b) up (num mod d) 0 (k + 1) bf' = Some (Inr (k + 1, bf'))" for bf'
    by (subst divide_digits.simps) simp
  ultimately show ?case using divide_digits_step [OF assms(1,2) 0(1,3)] 0(4) by (simp add: upd_conv_take_nth_drop)
next
  case (Suc j)
  have ub: "unat (of_nat b :: u32) = b" using assms(2) by (simp add: unat_of_nat_small)
  let ?c = "digit_in up (unat num div b ^ Suc j)"
  have d1: "unat (d div of_nat b) = b ^ j" using Suc.prems(1) assms(1) by (simp add: unat_div ub)
  have n1: "unat (num mod d) = unat num mod b ^ Suc j" by (simp add: unat_mod Suc.prems(1))
  have "divide_digits (of_nat b) up (num mod d) (d div of_nat b) (k + 1) (bf[k := ?c]) =
    Some (Inr (k + 1 + Suc j, take (k + 1) (bf[k := ?c]) @ fixed_in b up (Suc j) (unat (num mod d)) @ drop (k + 1 + Suc j) (bf[k := ?c])))"
    by (rule Suc.IH [OF d1]) (use Suc.prems(4) n1 assms(1) in auto)
  moreover have "take (k + 1) (bf[k := ?c]) = take k bf @ [?c]" using Suc.prems(4) by (simp add: take_Suc_conv_app_nth)
  moreover have "k < length bf" using Suc.prems(4) by simp
  ultimately show ?case using divide_digits_step [OF assms(1,2) Suc.prems(1,3)] n1 by simp
qed

text \<open>The number in base 8, 10 or 16 fits into the buffer of 12 bytes.\<close>

lemma ui2a_number:
  assumes "unat (p_base p) \<in> {8, 10, 16}" "length bf = 12"
  shows "\<exists>r. ui2a num p bf = Some (Inr (number_in (unat (p_base p)) (p_uc p) (unat num) @ 0 # r)) \<and> length (number_in (unat (p_base p)) (p_uc p) (unat num)) + length r = 11"
proof -
  let ?b = "unat (p_base p)" and ?n = "unat num"
  have b: "2 \<le> ?b" "?b \<le> 16" using assms(1) by auto
  have cb: "ucast (p_base p) = (of_nat ?b :: u32)" by simp
  obtain j d where d: "first_divisor num (of_nat ?b) 1 = Some d" "unat d = ?b ^ j" "?n < ?b ^ Suc j" "j = 0 \<or> ?b ^ j \<le> ?n"
    using first_divisor_power [OF b, of 1 0 num] by auto
  have "j \<le> 10"
  proof (rule ccontr)
    assume "\<not> j \<le> 10"
    then have "8 ^ 11 \<le> (8 :: nat) ^ j" by (intro power_increasing) auto
    also have "\<dots> \<le> ?b ^ j" by (rule power_mono) (use assms(1) in auto)
    also have "\<dots> \<le> ?n" using d(4) \<open>\<not> j \<le> 10\<close> by auto
    finally show False using unsigned_less [of num, where ?'a = nat] by simp
  qed
  then have fits: "0 + Suc j \<le> length bf" using assms(2) by simp
  have num: "number_in ?b (p_uc p) ?n = fixed_in ?b (p_uc p) (Suc j) ?n" by (rule number_in_fixed) (use b d in auto)
  let ?r = "drop (j + 2) bf"
  have "(fixed_in ?b (p_uc p) (Suc j) ?n @ drop (Suc j) bf)[Suc j := 0] = fixed_in ?b (p_uc p) (Suc j) ?n @ 0 # ?r"
    using \<open>j \<le> 10\<close> assms(2) by (simp add: list_update_append Cons_nth_drop_Suc [symmetric] del: fixed_in.simps)
  then have "ui2a num p bf = Some (Inr (fixed_in ?b (p_uc p) (Suc j) ?n @ 0 # ?r))"
    using divide_digits_fixed [OF b d(2,3) _ fits, of "p_uc p"] d(1,4) \<open>j \<le> 10\<close> assms(2)
    unfolding ui2a_def cb by (simp add: store_at_ok del: fixed_in.simps)
  then show ?thesis using num \<open>j \<le> 10\<close> assms(2) by (intro exI [of _ ?r]) (simp del: fixed_in.simps)
qed

section \<open>The text of a format\<close>

definition field :: "param \<Rightarrow> u8 list \<Rightarrow> u8 list" where
  "field p t =
     (let sg = (if p_sign p \<noteq> 0 then [p_sign p] else []);
          pre = (if p_alt p \<and> p_base p = 16 then [48, if p_uc p then 88 else 120] else if p_alt p \<and> p_base p = 8 then [48] else []);
          fill = nat (p_width p - int (length t + length sg + length pre))
      in if p_lz p then sg @ pre @ replicate fill 48 @ t else replicate fill 32 @ sg @ pre @ t)"

definition number_field :: "u8 \<Rightarrow> u32 \<Rightarrow> param \<Rightarrow> param \<times> u8 list" where
  "number_field ch a p =
     (let neg = ((ch = 100 \<or> ch = 105) \<and> a <s 0);
          p1 = (if neg then (set_base ch p)\<lparr>p_sign := 45\<rparr> else set_base ch p)
      in (p1, field p1 (number_in (unat (p_base p1)) (p_uc p1) (if neg then nat (- sint a) else unat a))))"

definition convert_text :: "(u32 \<Rightarrow> u8 list res) \<Rightarrow> u8 \<Rightarrow> u32 list \<Rightarrow> param \<Rightarrow> (u32 list \<times> param \<times> u8 list) option" where
  "convert_text str ch args p =
     (if ch = 37 then Some (args, p, [37])
      else if ch \<notin> {117, 100, 105, 120, 88, 111, 99, 115} then Some (args, p, [])
      else case args of
        [] \<Rightarrow> None
      | a # rest \<Rightarrow>
          if ch = 99 then Some (rest, p, [ucast a])
          else if ch = 115 then (case str a of Inl e \<Rightarrow> None | Inr t \<Rightarrow> if 0 \<in> set t then None else Some (rest, p, field p t))
          else
            (case number_field ch a p of (p1, t) \<Rightarrow> Some (rest, p1, t)))"

function format_text :: "(u32 \<Rightarrow> u8 list res) \<Rightarrow> u8 list \<Rightarrow> u32 list \<Rightarrow> param \<Rightarrow> u8 list option" where
  "format_text str [] args p = Some []"
| "format_text str (c # fmt) args p =
     (if c \<noteq> 37 then map_option (Cons c) (format_text str fmt args p)
      else case read_spec fmt p of (ch, fmt1, p1) \<Rightarrow>
        if ch = 0 then Some []
        else case convert_text str ch args p1 of None \<Rightarrow> None
          | Some (args1, p2, t) \<Rightarrow> map_option (append t) (format_text str fmt1 args1 p2))"
  by pat_completeness auto
termination
  by (relation "measure (\<lambda>(str, fmt, args, p). length fmt)") (auto dest: read_spec_length [OF sym])

section \<open>What reaches the buffer\<close>

text \<open>The state after a text was put: the buffer holds what fits of it, all of it is counted.\<close>

definition sunk :: "u8 list \<Rightarrow> u32 \<Rightarrow> u8 list \<Rightarrow> sink" where
  "sunk buffer sz t =
     (let k = min (length t) (unat sz) in
      (of_nat k, \<lparr>mf_memory = take k t @ drop k buffer, mf_buffer = k, mf_bytes_written = of_nat (length t), mf_size = sz\<rparr>))"

lemma putf_sunk:
  assumes "length t + 1 < 2 ^ 32" "unat sz \<le> length buffer"
  shows "putf c (sunk buffer sz t) = Inr (sunk buffer sz (t @ [c]))"
proof -
  have "unat (of_nat (length t) + 1 :: u32) = length t + 1"
    using unat_of_nat_small [of "length t + 1", where 'a = 32, unfolded of_nat_add of_nat_1] assms(1) by simp
  then have le: "of_nat (length t) + 1 \<le> sz \<longleftrightarrow> length t < unat sz" by (simp add: word_le_nat_alt Suc_le_eq)
  show ?thesis
  proof (cases "length t < unat sz")
    case True
    then have "(t @ drop (length t) buffer)[length t := c] = t @ c # drop (Suc (length t)) buffer"
      using assms(2) by (simp add: list_update_append Cons_nth_drop_Suc [symmetric])
    then show ?thesis using True le assms(2) by (simp add: putf_def sunk_def Let_def add.commute)
  next
    case False
    then show ?thesis using le by (simp add: putf_def sunk_def Let_def add.commute)
  qed
qed

lemma put_times_sunk:
  "length t + n < 2 ^ 32 \<Longrightarrow> unat sz \<le> length buffer \<Longrightarrow> put_times n c (sunk buffer sz t) = Inr (sunk buffer sz (t @ replicate n c))"
proof (induction n arbitrary: t)
  case (Suc n)
  then show ?case using Suc.IH [of "t @ [c]"] by (simp add: putf_sunk)
qed simp

lemma put_text_sunk:
  "0 \<notin> set u \<Longrightarrow> length t + length u < 2 ^ 32 \<Longrightarrow> unat sz \<le> length buffer \<Longrightarrow>
   put_text (u @ 0 # r) (sunk buffer sz t) = Inr (sunk buffer sz (t @ u))"
proof (induction u arbitrary: t)
  case (Cons c u)
  then show ?case using Cons.IH [of "t @ [c]"] by (simp add: putf_sunk)
qed simp

lemma pad_width_text: "0 \<notin> set u \<Longrightarrow> pad_width (u @ 0 # r) n = Inr (if n > 0 then max 0 (n - int (length u)) else n)"
  by (induction u arbitrary: n) auto

lemma putchw_sunk:
  assumes "0 \<notin> set u" "length t + length (field p u) < 2 ^ 32" "unat sz \<le> length buffer"
  shows "putchw p (u @ 0 # r) (sunk buffer sz t) = Inr (sunk buffer sz (t @ field p u))"
proof -
  define sg where "sg = (if p_sign p \<noteq> 0 then [p_sign p] else [])"
  define pre :: "u8 list" where "pre = (if p_alt p \<and> p_base p = 16 then [48, if p_uc p then 88 else 120] else if p_alt p \<and> p_base p = 8 then [48] else [])"
  define fill where "fill = nat (p_width p - int (length u + length sg + length pre))"
  have fld: "field p u = (if p_lz p then sg @ pre @ replicate fill 48 @ u else replicate fill 32 @ sg @ pre @ u)"
    by (simp add: field_def sg_def pre_def fill_def)
  then have len: "length t + fill + length sg + length pre + length u < 2 ^ 32" using assms(2) by (simp split: if_splits)
  define n0 where "n0 = (if p_width p > 0 then max 0 (p_width p - int (length u)) else p_width p)"
  define n1 where "n1 = (if p_sign p \<noteq> 0 then n0 - 1 else n0)"
  define n2 where "n2 = (if p_alt p \<and> p_base p = 16 then n1 - 2 else if p_alt p \<and> p_base p = 8 then n1 - 1 else n1)"
  have "n2 = n0 - int (length sg) - int (length pre)" by (simp add: n2_def n1_def sg_def pre_def)
  then have fill: "nat n2 = fill" by (simp add: fill_def n0_def max_def diff_diff_eq add.assoc)
  have sgn: "(if p_sign p \<noteq> 0 then putf (p_sign p) (sunk buffer sz v) else Inr (sunk buffer sz v)) = Inr (sunk buffer sz (v @ sg))"
    if "length v + length sg < 2 ^ 32" for v
    using that assms(3) by (auto simp: sg_def putf_sunk split: if_splits)
  have pfx: "(if p_alt p \<and> p_base p = 16 then and_then (putf 48 (sunk buffer sz v)) (putf (if p_uc p then 88 else 120))
      else if p_alt p \<and> p_base p = 8 then putf 48 (sunk buffer sz v) else Inr (sunk buffer sz v)) = Inr (sunk buffer sz (v @ pre))"
    if "length v + length pre < 2 ^ 32" for v
    using that assms(3) by (auto simp: pre_def putf_sunk split: if_splits)
  show ?thesis
  proof (cases "p_lz p")
    case True
    then show ?thesis using len assms(1,3)
      unfolding putchw_def pad_width_text [OF assms(1)] and_then_simps Let_def n0_def [symmetric] n1_def [symmetric] n2_def [symmetric] fill fld
      by (simp add: sgn pfx put_times_sunk put_text_sunk del: not_less cong: if_cong)
  next
    case False
    then show ?thesis using len assms(1,3)
      unfolding putchw_def pad_width_text [OF assms(1)] and_then_simps Let_def n0_def [symmetric] n1_def [symmetric] n2_def [symmetric] fill fld
      by (simp add: sgn pfx put_times_sunk put_text_sunk cong: if_cong)
  qed
qed

lemma tfp_convert_sunk:
  assumes "convert_text str ch args p = Some (args', p', u)" "length t + length u < 2 ^ 32" "unat sz \<le> length buffer" "length bf = 12" "p_sign p = 0"
  shows "\<exists>bf'. tfp_convert str ch args p bf (sunk buffer sz t) = Some (Inr (args', p', bf', sunk buffer sz (t @ u))) \<and> length bf' = 12"
proof (cases "ch = 37 \<or> ch \<notin> {117, 100, 105, 120, 88, 111, 99, 115}")
  case True
  then show ?thesis using assms by (auto simp: convert_text_def tfp_convert_def putf_sunk split: if_splits)
next
  case conv: False
  then obtain a rest where args: "args = a # rest" using assms(1) by (cases args) (auto simp: convert_text_def)
  consider (c) "ch = 99" | (s) "ch = 115" | (n) "ch \<in> {117, 100, 105, 120, 88, 111}" using conv by auto
  then show ?thesis
  proof cases
    case c
    then show ?thesis using assms args by (auto simp: convert_text_def tfp_convert_def putf_sunk)
  next
    case s
    then obtain v where v: "str a = Inr v" "0 \<notin> set v" "args' = rest" "p' = p" "u = field p v"
      using assms(1) args by (auto simp: convert_text_def split: sum.splits if_splits)
    then show ?thesis using assms(2-4) args s by (simp add: tfp_convert_def putchw_sunk)
  next
    case n
    then have cs: "ch \<noteq> 37" "ch \<in> {117, 100, 105, 120, 88, 111, 99, 115}" "ch \<noteq> 99" "ch \<noteq> 115" by auto
    define neg where "neg \<longleftrightarrow> (ch = 100 \<or> ch = 105) \<and> a <s 0"
    define p2 where "p2 = (if neg then (set_base ch p)\<lparr>p_sign := 45\<rparr> else set_base ch p)"
    define k where "k = (if neg then - a else a)"
    have uk: "(if neg then nat (- sint a) else unat a) = unat k" using unat_negative [of a] by (auto simp: k_def neg_def)
    have b: "unat (p_base p2) \<in> {8, 10, 16}" by (simp add: p2_def set_base_def)
    have u: "args' = rest" "p' = p2" "u = field p2 (number_in (unat (p_base p2)) (p_uc p2) (unat k))"
      using assms(1) cs unfolding uk [symmetric] by (auto simp: convert_text_def args number_field_def neg_def p2_def Let_def)
    obtain r where r: "ui2a k p2 bf = Some (Inr (number_in (unat (p_base p2)) (p_uc p2) (unat k) @ 0 # r))"
      "length (number_in (unat (p_base p2)) (p_uc p2) (unat k)) + length r = 11"
      using ui2a_number [OF b assms(4)] by blast
    have conv: "(if ch = 100 \<or> ch = 105 then i2a a (set_base ch p) bf
        else run_then (ui2a a (set_base ch p) bf) (\<lambda>bf1. Some (Inr (set_base ch p, bf1)))) =
        Some (Inr (p2, number_in (unat (p_base p2)) (p_uc p2) (unat k) @ 0 # r))"
      using r(1) by (auto simp: i2a_def k_def p2_def neg_def Let_def)
    have "2 \<le> unat (p_base p2)" "unat (p_base p2) \<le> 16" using b by auto
    from putchw_sunk [OF number_in_nonzero [OF this, of "p_uc p2" "unat k"], of t p2 sz buffer r] assms(2,3) u(3)
    have "putchw p2 (number_in (unat (p_base p2)) (p_uc p2) (unat k) @ 0 # r) (sunk buffer sz t) = Inr (sunk buffer sz (t @ u))" by simp
    then show ?thesis using cs r(2) u(1,2) conv by (simp add: tfp_convert_def args Let_def)
  qed
qed

lemma read_flags_sign: "read_flags fmt p = (ch, r, q) \<Longrightarrow> p_sign q = p_sign p"
  by (induction fmt p rule: read_flags.induct) (auto split: if_splits)

lemma read_spec_sign: "read_spec fmt p = (ch, r, q) \<Longrightarrow> p_sign q = 0"
  by (auto simp: read_spec_def Let_def split: if_splits prod.splits list.splits dest!: read_flags_sign)

lemma tfp_format_sunk:
  assumes "format_text str fmt args p = Some u" "length t + length u < 2 ^ 32" "unat sz \<le> length buffer" "length bf = 12"
  shows "tfp_format str fmt args p bf (sunk buffer sz t) = Some (Inr (sunk buffer sz (t @ u)))"
  using assms(1,2,4)
proof (induction fmt arbitrary: args p u t bf rule: length_induct)
  case (1 fmt)
  show ?case
  proof (cases fmt)
    case Nil
    then show ?thesis using 1 by simp
  next
    case (Cons c fmt1)
    show ?thesis
    proof (cases "c = 37")
      case False
      then obtain v where v: "format_text str fmt1 args p = Some v" "u = c # v" using 1(2) Cons by auto
      then have "tfp_format str fmt1 args p bf (sunk buffer sz (t @ [c])) = Some (Inr (sunk buffer sz ((t @ [c]) @ v)))"
        by (intro 1(1) [rule_format]) (use Cons 1(3,4) in auto)
      then show ?thesis using False Cons v 1(3) assms(3) by (simp add: putf_sunk)
    next
      case True
      obtain ch fmt2 p1 where sp: "read_spec fmt1 p = (ch, fmt2, p1)" by (cases "read_spec fmt1 p")
      show ?thesis
      proof (cases "ch = 0")
        case True
        then show ?thesis using \<open>c = 37\<close> Cons sp 1(2) by simp
      next
        case False
        then obtain args1 p2 v w where v: "convert_text str ch args p1 = Some (args1, p2, v)" "format_text str fmt2 args1 p2 = Some w" "u = v @ w"
          using \<open>c = 37\<close> Cons sp 1(2) by (auto split: option.splits)
        have "length t + length v < 2 ^ 32" using v(3) 1(3) by simp
        from tfp_convert_sunk [OF v(1) this assms(3) 1(4) read_spec_sign [OF sp]] obtain bf1 where
          c: "tfp_convert str ch args p1 bf (sunk buffer sz t) = Some (Inr (args1, p2, bf1, sunk buffer sz (t @ v)))" "length bf1 = 12" by blast
        have "tfp_format str fmt2 args1 p2 bf1 (sunk buffer sz (t @ v)) = Some (Inr (sunk buffer sz ((t @ v) @ w)))"
          by (intro 1(1) [rule_format]) (use Cons read_spec_length [OF sp] v c 1(3) in auto)
        then show ?thesis using \<open>c = 37\<close> False Cons sp v(3) c(1) by simp
      qed
    qed
  qed
qed

lemma vsnprintf_cuts:
  assumes "format_text str fmt args p = Some text" and "0 < sz" and "unat sz \<le> length buffer"
    and "length text < 2 ^ 32" and "length bf = 12"
  shows "vsnprintf str p bf buffer sz fmt args =
    Some (Inr (of_nat (length text), take (unat sz - 1) text @ 0 # drop (min (length text) (unat sz - 1) + 1) buffer))"
proof -
  let ?k = "min (length text) (unat sz - 1)"
  have "unat (sz - 1) = unat sz - 1" using assms(2) by (simp add: unat_minus_one word_gt_0)
  moreover have "0 < unat sz" using assms(2) by (simp add: word_less_nat_alt)
  ultimately have sz: "unat (sz - 1) = unat sz - 1" "unat (sz - 1) \<le> length buffer" "?k < length buffer" using assms(3) by auto
  have "(0, fmemopen_w buffer (sz - 1)) = sunk buffer (sz - 1) []" by (simp add: sunk_def fmemopen_w_def)
  then have f: "tfp_format str fmt args p bf (0, fmemopen_w buffer (sz - 1)) = Some (Inr (sunk buffer (sz - 1) text))"
    using tfp_format_sunk [OF assms(1) _ sz(2) assms(5), of "[]"] assms(4) by simp
  have "(take ?k text @ drop ?k buffer)[?k := 0] = take ?k text @ 0 # drop (?k + 1) buffer"
    using sz(3) by (simp add: list_update_append Cons_nth_drop_Suc [symmetric])
  moreover have "take ?k text = take (unat sz - 1) text" by (simp add: min_def)
  ultimately show ?thesis using f sz by (simp add: vsnprintf_def sunk_def Let_def store_at_ok)
qed

text \<open>C40: \<open>vsnprintf\<close> renders the format and cuts the text to the buffer. If the arguments suffice for the format and
  \<open>%s\<close> is used on readable strings, the bytes that are written are the longest prefix of the text that fits with its
  terminator, nothing behind them is touched, and the result is the length of the whole text.\<close>

theorem snprintf_truncates:
  assumes "format_text str fmt args p = Some text" and "0 < sz" and "unat sz \<le> length buffer"
    and "length text < 2 ^ 32" and "length bf = 12"
  shows "vsnprintf str p bf buffer sz fmt args =
    Some (Inr (of_nat (length text), take (unat sz - 1) text @ 0 # drop (min (length text) (unat sz - 1) + 1) buffer))"
  by (rule vsnprintf_cuts [OF assms])

text \<open>\<open>"%3u|%s"\<close> with 7 and the string \<open>AB\<close> in a buffer of 5 bytes: the text has six characters, four are kept.\<close>

theorem snprintf_truncates_witness:
  "vsnprintf (\<lambda>a. Inr [65, 66]) \<lparr>p_width = 0, p_lz = False, p_sign = 0, p_alt = False, p_base = 0, p_uc = False\<rparr> (replicate 12 1) (replicate 8 2) 5
     [37, 51, 117, 124, 37, 115] [7, 400] = Some (Inr (6, [32, 32, 55, 124, 0, 2, 2, 2]))"
proof -
  let ?p = "\<lambda>w b. \<lparr>p_width = w, p_lz = False, p_sign = 0, p_alt = False, p_base = b, p_uc = False\<rparr>"
  have p_width: "a2i 51 [117, 124, 37, 115] 10 0 = (117, [124, 37, 115], 3)"
    by (simp add: a2i.simps [of 51] a2i.simps [of 117] a2d_def)
  have u: "read_spec [51, 117, 124, 37, 115] (?p 0 0) = (117, [124, 37, 115], ?p 3 0)"
    by (simp add: read_spec_def p_width)
  have digit: "number_in 10 False 7 = [55]" by (simp add: number_in.simps [of 10 False 7] digit_in_def)
  have two: "replicate 2 (32 :: u8) = [32, 32]" by (simp add: numeral_2_eq_2)
  have f: "number_field 117 7 (?p 3 0) = (?p 3 10, [32, 32, 55])"
    by (simp add: number_field_def set_base_def field_def digit two)
  have s: "read_spec [115] (?p 3 10) = (115, [], ?p 0 10)" by (simp add: read_spec_def Let_def)
  have g: "field (?p 0 10) [65, 66] = [65, 66]" by (simp add: field_def)
  have "format_text (\<lambda>a. Inr [65, 66]) [37, 51, 117, 124, 37, 115] [7, 400] (?p 0 0) = Some [32, 32, 55, 124, 65, 66]"
    by (simp add: u f s g convert_text_def)
  from snprintf_truncates [OF this, of 5 "replicate 8 2" "replicate 12 1"] show ?thesis by (simp add: numeral_3_eq_3)
qed

text \<open>With size 0 the limit wraps around: the first character is written even into a buffer without room. This is how
  \<open>asprintf\<close> and \<open>vasprintf\<close> measure a text, with a null pointer.\<close>

lemma size_zero_unlimited:
  assumes "c \<noteq> 37"
  shows "vsnprintf str p bf [] 0 (c # fmt) args = Some (Inl Out_Of_Bounds)"
  using assms by (simp add: vsnprintf_def fmemopen_w_def putf_def)

text \<open>\<open>a2i\<close> takes the letter \<open>a\<close> for a decimal digit: its test for the base has the wrong bound.\<close>

lemma a2i_takes_ten: "a2i 97 [100] 10 0 = (100, [], 10)"
  by (simp add: a2i.simps [of 97] a2i.simps [of 100] a2d_def)

end
