(* ===== verification/File_Browser.thy ===== *)
theory File_Browser
  imports Libc_Strings Sgfx_Props
begin

text \<open>
  The file browser (\<open>userspace/files/files.c\<close>), on buffers as byte lists and pointers into them as indices. What
  a directory holds is an argument: the entries that the calls of \<open>os_next_file_in_dir\<close> return until the
  first that fails, or \<open>None\<close> if it cannot be opened.
\<close>

section \<open>State\<close>

record file_entry =
  attributes :: u32
  entry_name :: "u8 list"

record browser =
  entries :: "file_entry list"
  num_entries :: int
  selected_entry :: int
  path :: "u8 list"
  executed :: "u8 list list"

type_synonym directories = "u8 list \<Rightarrow> file_entry list option"

definition MAX_ENTRIES :: nat where "MAX_ENTRIES = 64"
definition ENTRY_IS_DIR :: u32 where "ENTRY_IS_DIR = 16"
definition FILE_LIST_Y_OFFSET :: int where "FILE_LIST_Y_OFFSET = 32"
definition FILE_LIST_Y_SPACING :: int where "FILE_LIST_Y_SPACING = 12"
definition SLASH :: u8 where "SLASH = 47"

definition no_entry :: file_entry where
  "no_entry = \<lparr>attributes = 0, entry_name = replicate 256 0\<rparr>"

definition initial_browser :: browser where
  "initial_browser = \<lparr>entries = replicate MAX_ENTRIES no_entry, num_entries = 0, selected_entry = - 1,
     path = replicate 256 0, executed = []\<rparr>"

section \<open>Operations\<close>

text \<open>The loop of \<open>read_directory\<close> from entry \<open>i\<close> on, over the entries that are still to come.\<close>

fun read_entries :: "nat \<Rightarrow> file_entry list \<Rightarrow> browser \<Rightarrow> browser res" where
  "read_entries i [] b = Inr b"
| "read_entries i (e # es) b =
     (if i < MAX_ENTRIES then
        in_bounds i (length (entries b))
          (read_entries (i + 1) es (b\<lparr>entries := (entries b)[i := e], num_entries := num_entries b + 1\<rparr>))
      else Inr b)"

definition read_directory :: "directories \<Rightarrow> browser \<Rightarrow> browser res" where
  "read_directory dir b =
     (let b1 = b\<lparr>num_entries := 0\<rparr> in
      and_then (c_string (path b1)) (\<lambda>p.
      case dir p of None \<Rightarrow> Inr b1 | Some es \<Rightarrow> read_entries 0 es b1))"

text \<open>\<open>last\<close> is the null pointer if there is no slash, and writing to it is a page fault.\<close>

definition go_up :: "browser \<Rightarrow> browser res" where
  "go_up b =
     and_then (libc_strcmp (path b) (cstr ''/'')) (\<lambda>d.
     if d = 0 then Inr b
     else
       and_then (libc_strrchr (path b) SLASH) (\<lambda>found.
       case found of
         None \<Rightarrow> Inl Page_Fault
       | Some i \<Rightarrow>
           (let k = (if i = 0 then 1 else i) in in_bounds k (length (path b)) (Inr (b\<lparr>path := (path b)[k := 0]\<rparr>)))))"

definition handle_mouse_move :: "int \<Rightarrow> int \<Rightarrow> browser \<Rightarrow> browser" where
  "handle_mouse_move x y b =
     (let b1 = b\<lparr>selected_entry := - 1\<rparr> in
      if x < 3 \<or> x > 240 - 3 then b1
      else if y < FILE_LIST_Y_OFFSET \<or> y \<ge> FILE_LIST_Y_OFFSET + num_entries b1 * FILE_LIST_Y_SPACING then b1
      else b1\<lparr>selected_entry := (y - FILE_LIST_Y_OFFSET) sdiv FILE_LIST_Y_SPACING\<rparr>)"

text \<open>The name of a directory is put behind the path. An index in front of the path or the entries would be a fault.\<close>

definition change_directory :: "u8 list \<Rightarrow> browser \<Rightarrow> browser res" where
  "change_directory name b =
     and_then (libc_strlen (path b)) (\<lambda>len.
     if len = 0 then Inl Out_Of_Bounds
     else
       and_then (if path b ! (len - 1) \<noteq> SLASH then libc_strcat (path b) (cstr ''/'') else Inr (path b)) (\<lambda>p.
       and_then (libc_strcat p name) (\<lambda>q. Inr (b\<lparr>path := q\<rparr>))))"

definition browser_left_click :: "directories \<Rightarrow> int \<Rightarrow> int \<Rightarrow> browser \<Rightarrow> browser res" where
  "browser_left_click dir x y b =
     (if x > 3 \<and> x < 240 - 3 \<and> y > 17 \<and> y < 27 then and_then (go_up b) (read_directory dir)
      else if selected_entry b = - 1 \<or> selected_entry b \<ge> num_entries b then Inr b
      else if selected_entry b < 0 then Inl Out_Of_Bounds
      else
        in_bounds (nat (selected_entry b)) (length (entries b))
          (let e = entries b ! nat (selected_entry b) in
           if attributes e AND ENTRY_IS_DIR \<noteq> 0
           then and_then (change_directory (entry_name e) b) (read_directory dir)
           else and_then (c_string (entry_name e)) (\<lambda>n. Inr (b\<lparr>executed := executed b @ [n]\<rparr>))))"

text \<open>A mouse event of the main loop, and the program before its loop.\<close>

definition browser_event :: "directories \<Rightarrow> int \<Rightarrow> int \<Rightarrow> bool \<Rightarrow> browser \<Rightarrow> browser res" where
  "browser_event dir x y buttons b =
     (let b1 = handle_mouse_move x y b in if buttons then browser_left_click dir x y b1 else Inr b1)"

definition start_browser :: "directories \<Rightarrow> browser res" where
  "start_browser dir =
     and_then (libc_strcpy (path initial_browser) (cstr ''0:/'')) (\<lambda>p. read_directory dir (initial_browser\<lparr>path := p\<rparr>))"

text \<open>The picture of a round, with \<open>font\<close> the font of the graphics library.\<close>

definition draw_entry :: "u8 list \<Rightarrow> browser \<Rightarrow> nat \<Rightarrow> graphics_context \<Rightarrow> graphics_context res" where
  "draw_entry font b i c =
     in_bounds i (length (entries b))
       (let e = entries b ! i;
            color = (if selected_entry b = int i then 0xFFFFFFFF
              else if attributes e AND ENTRY_IS_DIR \<noteq> 0 then 0xFF5B6EE1 else 0xFFCBDBFC)
        in and_then (c_string (entry_name e)) (\<lambda>n.
           sgfx_draw_string font n 3 (FILE_LIST_Y_OFFSET + FILE_LIST_Y_SPACING * int i) color c))"

definition draw_browser :: "u8 list \<Rightarrow> browser \<Rightarrow> graphics_context \<Rightarrow> graphics_context res" where
  "draw_browser font b c =
     and_then (sgfx_fill 0xFF000000 c) (\<lambda>c1.
     and_then (sgfx_draw_string font (map of_char ''Path:'') 3 5 0xFFFFFFFF c1) (\<lambda>c2.
     and_then (c_string (path b)) (\<lambda>p.
     and_then (sgfx_draw_string font p (3 + 10 * 7) 5 0xFFFFFFFF c2) (\<lambda>c3.
     and_then (sgfx_draw_string font (map of_char ''Go up'') 3 (5 + 12) 0xFFFFFFFF c3) (\<lambda>c4.
     for_res 0 (nat (num_entries b)) (draw_entry font b) c4)))))"

section \<open>What the string routines do\<close>

text \<open>A buffer that holds the string \<open>s\<close>.\<close>

definition holds :: "u8 list \<Rightarrow> u8 list \<Rightarrow> bool" where
  "holds p s \<longleftrightarrow> 0 \<notin> set s \<and> length s < length p \<and> take (length s) p = s \<and> p ! length s = 0"

lemma holds_iff: "holds p s \<longleftrightarrow> 0 \<notin> set s \<and> (\<exists>r. p = s @ 0 # r)"
proof
  assume h: "holds p s"
  then have "p = s @ p ! length s # drop (length s + 1) p"
    using id_take_nth_drop [of "length s" p] by (simp add: holds_def)
  with h show "0 \<notin> set s \<and> (\<exists>r. p = s @ 0 # r)" by (auto simp: holds_def)
qed (auto simp: holds_def)

lemma strlen_holds: "holds p s \<Longrightarrow> libc_strlen p = Inr (length s)"
proof -
  have "0 \<notin> set s \<Longrightarrow> libc_strlen (s @ 0 # r) = Inr (length s)" for r by (induction s) auto
  then show "holds p s \<Longrightarrow> libc_strlen p = Inr (length s)" by (auto simp: holds_iff)
qed

lemma c_string_holds: "holds p s \<Longrightarrow> c_string p = Inr s"
proof -
  have "0 \<notin> set s \<Longrightarrow> c_string (s @ 0 # r) = Inr s" for r by (induction s) auto
  then show "holds p s \<Longrightarrow> c_string p = Inr s" by (auto simp: holds_iff)
qed

lemma strchr_end: "0 \<notin> set s \<Longrightarrow> libc_strchr (s @ 0 # r) 0 = Inr (Some (length s))"
  by (induction s) auto

lemma strcpy_text:
  "0 \<notin> set s \<Longrightarrow> libc_strcpy d (s @ 0 # r) = (if length s < length d then Inr (s @ 0 # drop (length s + 1) d) else Inl Out_Of_Bounds)"
proof (induction s arbitrary: d)
  case Nil
  then show ?case by (cases d) simp_all
next
  case (Cons c s)
  then show ?case by (cases d) simp_all
qed

lemma strcat_text:
  assumes p: "holds p s" and q: "holds q t"
  shows "libc_strcat p q = (if length s + length t < length p then Inr (s @ t @ 0 # drop (length s + length t + 1) p) else Inl Out_Of_Bounds)"
proof -
  obtain r where r: "p = s @ 0 # r" "0 \<notin> set s" using p by (auto simp: holds_iff)
  obtain u where u: "q = t @ 0 # u" "0 \<notin> set t" using q by (auto simp: holds_iff)
  show ?thesis using strcpy_text [OF u(2), of "0 # r" u] strchr_end [OF r(2), of r] r(1) u(1)
    by (auto simp: libc_strcat_def)
qed

lemma strcat_holds:
  assumes "holds p s" and "holds q t" and "length s + length t < length p"
  shows "\<exists>p'. libc_strcat p q = Inr p' \<and> holds p' (s @ t) \<and> length p' = length p"
  using assms strcat_text [OF assms(1,2)] by (auto simp: holds_iff)

text \<open>The last occurrence of a character.\<close>

lemma strrchr_text:
  "0 \<notin> set s \<Longrightarrow> c \<noteq> 0 \<Longrightarrow> c \<notin> set t \<Longrightarrow> 0 \<notin> set t \<Longrightarrow> libc_strrchr (s @ c # t @ 0 # r) c = Inr (Some (length s))"
proof -
  assume a: "0 \<notin> set s" "c \<noteq> 0" "c \<notin> set t" "0 \<notin> set t"
  have t: "libc_strrchr_loop (t @ 0 # r) c i f = Inr f" for i f using a by (induction t arbitrary: i) auto
  have "libc_strrchr_loop (s @ c # t @ 0 # r) c i f = Inr (Some (i + length s))" for i f
    using a t by (induction s arbitrary: i f) auto
  then show ?thesis by (simp add: libc_strrchr_def)
qed

lemma strrchr_none: "0 \<notin> set s \<Longrightarrow> c \<notin> set s \<Longrightarrow> libc_strrchr (s @ 0 # r) c = Inr None"
proof -
  assume a: "0 \<notin> set s" "c \<notin> set s"
  have "libc_strrchr_loop (s @ 0 # r) c i None = Inr None" for i using a by (induction s arbitrary: i) auto
  then show ?thesis by (simp add: libc_strrchr_def)
qed

section \<open>The path\<close>

text \<open>A position in the file system: the names of the directories below the root of drive \<open>0:\<close>.\<close>

definition drive :: "u8 list" where "drive = [48, 58]"

definition path_text :: "u8 list list \<Rightarrow> u8 list" where
  "path_text names = drive @ concat (map (\<lambda>n. SLASH # n) names)"

definition name_ok :: "u8 list \<Rightarrow> bool" where
  "name_ok n \<longleftrightarrow> n \<noteq> [] \<and> 0 \<notin> set n \<and> SLASH \<notin> set n"

text \<open>The root has two spellings.\<close>

definition shows_dir :: "browser \<Rightarrow> u8 list list \<Rightarrow> bool" where
  "shows_dir b names \<longleftrightarrow> (\<forall>n\<in>set names. name_ok n) \<and> length (path b) = 256 \<and>
     (holds (path b) (path_text names) \<or> names = [] \<and> holds (path b) (drive @ [SLASH]))"

lemma slash_holds: "holds (cstr ''/'') [SLASH]"
  by (simp add: holds_def cstr_def SLASH_def)

lemma path_chars: "\<forall>n\<in>set names. name_ok n \<Longrightarrow> 0 \<notin> set (path_text names)"
  by (auto simp: path_text_def drive_def name_ok_def SLASH_def)

lemma path_end: "\<forall>n\<in>set names. name_ok n \<Longrightarrow> last (path_text names) \<noteq> SLASH"
proof (induction names rule: rev_induct)
  case (snoc n names)
  then have "n \<noteq> []" "SLASH \<notin> set n" by (simp_all add: name_ok_def)
  moreover from this have "last n \<noteq> SLASH" by (metis last_in_set)
  ultimately show ?case by (simp add: path_text_def)
qed (simp add: path_text_def drive_def SLASH_def)

lemma enter_dir:
  assumes sh: "shows_dir b names" and n: "holds name n" "name_ok n" and fit: "length (path_text (names @ [n])) < 256"
  shows "\<exists>b'. change_directory name b = Inr b' \<and> shows_dir b' (names @ [n])"
proof (cases "names = [] \<and> holds (path b) (drive @ [SLASH])")
  case True
  then have h: "holds (path b) (drive @ [SLASH])" by simp
  then have "path b ! Suc (Suc 0) = SLASH" by (auto simp: holds_iff drive_def)
  moreover have "length (drive @ [SLASH]) + length n < length (path b)"
    using fit sh True by (simp add: path_text_def shows_dir_def)
  from strcat_holds [OF h n(1) this] obtain q where "libc_strcat (path b) name = Inr q" "holds q ((drive @ [SLASH]) @ n)" "length q = length (path b)"
    by blast
  ultimately show ?thesis using sh n True strlen_holds [OF h]
    by (simp add: change_directory_def shows_dir_def path_text_def drive_def)
next
  case False
  let ?t = "path_text names"
  have h: "holds (path b) ?t" and ok: "\<forall>n\<in>set names. name_ok n" and len: "length (path b) = 256"
    using sh False by (auto simp: shows_dir_def)
  have t: "?t \<noteq> []" by (simp add: path_text_def drive_def)
  have "path b ! (length ?t - 1) = last ?t" using h t by (auto simp: holds_iff nth_append last_conv_nth)
  then have sl: "path b ! (length ?t - 1) \<noteq> SLASH" using path_end [OF ok] by simp
  have "length ?t + length [SLASH] < length (path b)" using fit len by (simp add: path_text_def)
  from strcat_holds [OF h slash_holds this] obtain p where p: "libc_strcat (path b) (cstr ''/'') = Inr p" "holds p (?t @ [SLASH])" "length p = 256"
    using len by metis
  have "length (?t @ [SLASH]) + length n < length p" using fit p(3) by (simp add: path_text_def)
  from strcat_holds [OF p(2) n(1) this] obtain q where "libc_strcat p name = Inr q" "holds q ((?t @ [SLASH]) @ n)" "length q = 256"
    using p(3) by metis
  then show ?thesis using strlen_holds [OF h] sl t p ok n(2) by (simp add: change_directory_def shows_dir_def path_text_def)
qed

lemma cmp_slash: "holds p s \<Longrightarrow> s \<noteq> [] \<Longrightarrow> hd s \<noteq> SLASH \<Longrightarrow> \<exists>d. libc_strcmp p (cstr ''/'') = Inr d \<and> d \<noteq> 0"
proof (cases s)
  case (Cons c u)
  assume "holds p s" "hd s \<noteq> SLASH"
  with Cons obtain q where "p = c # q" and c: "c \<noteq> 0" "c \<noteq> 47" by (auto simp: holds_iff SLASH_def)
  moreover have "uint c \<noteq> 47" using c(2) by (simp add: word_uint_eq_iff)
  ultimately show ?thesis by (simp add: cstr_def Let_def)
qed simp

lemma leave_dir:
  assumes sh: "shows_dir b (names @ [n])"
  shows "\<exists>b'. go_up b = Inr b' \<and> shows_dir b' names"
proof -
  let ?t = "path_text names"
  have h: "holds (path b) (?t @ SLASH # n)" and ok: "\<forall>n\<in>set names. name_ok n" "name_ok n" and len: "length (path b) = 256"
    using sh by (auto simp: shows_dir_def path_text_def)
  obtain r where r: "path b = ?t @ SLASH # n @ 0 # r" using h by (auto simp: holds_iff)
  have t: "0 \<notin> set ?t" "length ?t \<noteq> 0" "hd (?t @ SLASH # n) \<noteq> SLASH"
    using path_chars [OF ok(1)] by (simp_all add: path_text_def drive_def SLASH_def)
  have "libc_strrchr (path b) SLASH = Inr (Some (length ?t))"
    unfolding r by (rule strrchr_text) (use t(1) ok(2) in \<open>simp_all add: name_ok_def SLASH_def\<close>)
  moreover obtain d where "libc_strcmp (path b) (cstr ''/'') = Inr d" "d \<noteq> 0" using cmp_slash [OF h _ t(3)] by auto
  moreover have "(path b)[length ?t := 0] = ?t @ 0 # n @ 0 # r" by (simp add: r)
  ultimately show ?thesis using t ok len r by (auto simp: go_up_def shows_dir_def holds_iff)
qed

text \<open>Going up from the root first strips the slash; the second time there is none left.\<close>

lemma leave_root:
  assumes "holds (path b) (drive @ [SLASH])"
  shows "\<exists>b'. go_up b = Inr b' \<and> holds (path b') drive \<and> go_up b' = Inl Page_Fault"
proof -
  obtain r where r: "path b = drive @ SLASH # [] @ 0 # r" using assms by (auto simp: holds_iff)
  have "libc_strrchr (path b) SLASH = Inr (Some 2)"
    unfolding r using strrchr_text [of drive SLASH "[]" r] by (simp add: drive_def SLASH_def)
  moreover obtain d where "libc_strcmp (path b) (cstr ''/'') = Inr d" "d \<noteq> 0"
    using cmp_slash [OF assms] by (auto simp: drive_def SLASH_def)
  moreover have up: "(path b)[2 := 0] = drive @ 0 # 0 # r" by (simp add: r drive_def)
  moreover have "2 < length (path b)" by (simp add: r drive_def)
  ultimately have "go_up b = Inr (b\<lparr>path := drive @ 0 # 0 # r\<rparr>)" by (simp add: go_up_def)
  moreover have h: "holds (drive @ 0 # 0 # r) drive" by (auto simp: holds_iff drive_def)
  moreover have "libc_strrchr (drive @ 0 # 0 # r) SLASH = Inr None"
    by (rule strrchr_none) (simp_all add: drive_def SLASH_def)
  moreover obtain d' where "libc_strcmp (drive @ 0 # 0 # r) (cstr ''/'') = Inr d'" "d' \<noteq> 0"
    using cmp_slash [OF h] by (auto simp: drive_def SLASH_def)
  ultimately show ?thesis by (auto simp: go_up_def)
qed
section \<open>Events\<close>

text \<open>Every directory lists proper names; what is listed comes from the directory that is shown.\<close>

definition entry_ok :: "file_entry \<Rightarrow> bool" where
  "entry_ok e \<longleftrightarrow> (\<exists>n. holds (entry_name e) n \<and> name_ok n)"

definition dirs_ok :: "directories \<Rightarrow> bool" where
  "dirs_ok dir \<longleftrightarrow> (\<forall>p es. dir p = Some es \<longrightarrow> (\<forall>e\<in>set es. entry_ok e))"

definition browser_ok :: "browser \<Rightarrow> bool" where
  "browser_ok b \<longleftrightarrow> length (entries b) = 64 \<and> 0 \<le> num_entries b \<and> num_entries b \<le> 64 \<and>
     (\<forall>i<nat (num_entries b). entry_ok (entries b ! i))"

lemma read_entries_ok:
  assumes "length (entries b) = 64" and "num_entries b = int i" and "i \<le> 64"
    and "\<forall>j<i. entry_ok (entries b ! j)" and "\<forall>e\<in>set es. entry_ok e"
  shows "\<exists>b'. read_entries i es b = Inr b' \<and> browser_ok b' \<and> path b' = path b \<and> executed b' = executed b"
  using assms
proof (induction es arbitrary: i b)
  case Nil
  then show ?case by (simp add: browser_ok_def)
next
  case (Cons e es)
  show ?case
  proof (cases "i < 64")
    case True
    let ?b = "b\<lparr>entries := (entries b)[i := e], num_entries := num_entries b + 1\<rparr>"
    have "\<forall>j<i + 1. entry_ok (entries ?b ! j)" using Cons.prems True by (simp add: nth_list_update less_Suc_eq)
    then show ?thesis using Cons.IH [of ?b "i + 1"] Cons.prems True by (simp add: MAX_ENTRIES_def)
  next
    case False
    with Cons.prems show ?thesis by (simp add: MAX_ENTRIES_def browser_ok_def)
  qed
qed

lemma read_directory_ok:
  assumes "dirs_ok dir" and "browser_ok b" and "holds (path b) p"
  shows "\<exists>b'. read_directory dir b = Inr b' \<and> browser_ok b' \<and> path b' = path b \<and> executed b' = executed b"
proof (cases "dir p")
  case None
  with assms c_string_holds [OF assms(3)] show ?thesis by (simp add: read_directory_def browser_ok_def)
next
  case (Some es)
  then have "\<forall>e\<in>set es. entry_ok e" using assms(1) unfolding dirs_ok_def by blast
  then have "\<exists>b'. read_entries 0 es (b\<lparr>num_entries := 0\<rparr>) = Inr b' \<and> browser_ok b' \<and> path b' = path b \<and> executed b' = executed b"
    using read_entries_ok [of "b\<lparr>num_entries := 0\<rparr>" 0 es] assms(2) by (simp add: browser_ok_def)
  with Some c_string_holds [OF assms(3)] show ?thesis by (simp add: read_directory_def)
qed

lemma shows_dir_holds: "shows_dir b names \<Longrightarrow> \<exists>p. holds (path b) p"
  by (auto simp: shows_dir_def)

lemma shows_dir_cong: "path b' = path b \<Longrightarrow> shows_dir b' names = shows_dir b names"
  by (simp add: shows_dir_def)

lemma list_dir_ok:
  assumes "dirs_ok dir" and "browser_ok b" and "shows_dir b names"
  shows "\<exists>b'. read_directory dir b = Inr b' \<and> browser_ok b' \<and> shows_dir b' names"
  using read_directory_ok [OF assms(1,2)] shows_dir_holds [OF assms(3)] assms(3) shows_dir_cong by metis

text \<open>The entry under the mouse is the one that is drawn there: row \<open>i\<close> is 12 pixels high from \<open>32 + 12 * i\<close> on.\<close>

lemma mouse_on_row:
  assumes "3 \<le> x" "x \<le> 237" and "32 + 12 * int i \<le> y" "y < 44 + 12 * int i" and "int i < num_entries b"
  shows "handle_mouse_move x y b = b\<lparr>selected_entry := int i\<rparr>"
proof -
  have "(y - 32) div 12 = int i" using assms(3,4) by (intro int_div_pos_eq [of _ _ _ "y - 32 - 12 * int i"]) simp_all
  then have "(y - 32) sdiv 12 = int i" using assms(3) by (cases "y = 32") (auto simp: signed_divide_int_def)
  then show ?thesis using assms
    by (auto simp: handle_mouse_move_def FILE_LIST_Y_OFFSET_def FILE_LIST_Y_SPACING_def Let_def)
qed

lemma keep_path [simp]:
  "change_directory name (b\<lparr>selected_entry := k\<rparr>) = and_then (change_directory name b) (\<lambda>c. Inr (c\<lparr>selected_entry := k\<rparr>))"
  "go_up (b\<lparr>selected_entry := k\<rparr>) = and_then (go_up b) (\<lambda>c. Inr (c\<lparr>selected_entry := k\<rparr>))"
  by (auto simp: change_directory_def go_up_def and_then_def in_bounds_def Let_def split: sum.splits option.splits)

lemma keeps_entries:
  "change_directory name b = Inr c \<Longrightarrow> browser_ok b \<Longrightarrow> browser_ok c"
  "go_up b = Inr c \<Longrightarrow> browser_ok b \<Longrightarrow> browser_ok c"
  by (auto simp: change_directory_def go_up_def res_eq_Inr browser_ok_def Let_def split: if_splits option.splits)

lemma select_ok [simp]:
  "browser_ok (b\<lparr>selected_entry := k\<rparr>) = browser_ok b" "shows_dir (b\<lparr>selected_entry := k\<rparr>) names = shows_dir b names"
  by (simp_all add: browser_ok_def shows_dir_def)

lemma click_on_row:
  assumes "3 \<le> x" "x \<le> 237" and "32 + 12 * int i \<le> y" "y < 44 + 12 * int i" and "int i < num_entries b" and "browser_ok b"
  shows "browser_event dir x y True b =
    (let b1 = b\<lparr>selected_entry := int i\<rparr>; e = entries b ! i in
     if attributes e AND ENTRY_IS_DIR \<noteq> 0 then and_then (change_directory (entry_name e) b1) (read_directory dir)
     else and_then (c_string (entry_name e)) (\<lambda>n. Inr (b1\<lparr>executed := executed b @ [n]\<rparr>)))"
proof -
  have "\<not> y < 27" using assms(3) by simp
  then show ?thesis using assms(5,6) mouse_on_row [OF assms(1-5)]
    by (simp add: browser_event_def browser_left_click_def browser_ok_def Let_def)
qed

lemma click_go_up:
  assumes "3 < x" "x < 237" and "17 < y" "y < 27"
  shows "browser_event dir x y True b = and_then (go_up (b\<lparr>selected_entry := - 1\<rparr>)) (read_directory dir)"
  using assms by (simp add: browser_event_def browser_left_click_def handle_mouse_move_def FILE_LIST_Y_OFFSET_def Let_def)

text \<open>C36: Opening a directory and going up again. In a browser that shows the directory \<open>names\<close>, a click
  on the row of an entry opens exactly this entry: for a file the program of this name is started,
  for a directory whose path fits into the buffer it is shown and listed, and a click on the line
  at the top then shows the directory \<open>names\<close> again.\<close>

theorem browser_opens_and_returns:
  assumes "dirs_ok dir" and "browser_ok b" and "shows_dir b names" and "int i < num_entries b"
    and "3 \<le> x" "x \<le> 237" and "32 + 12 * int i \<le> y" "y < 44 + 12 * int i"
    and "3 < x'" "x' < 237" and "17 < y'" "y' < 27"
    and "holds (entry_name (entries b ! i)) n" and "length (path_text (names @ [n])) < 256"
  shows "if attributes (entries b ! i) AND ENTRY_IS_DIR = 0
    then browser_event dir x y True b = Inr (b\<lparr>selected_entry := int i, executed := executed b @ [n]\<rparr>)
    else \<exists>b1 b2. browser_event dir x y True b = Inr b1 \<and> browser_ok b1 \<and> shows_dir b1 (names @ [n]) \<and>
      browser_event dir x' y' True b1 = Inr b2 \<and> browser_ok b2 \<and> shows_dir b2 names"
proof -
  note click = click_on_row [OF assms(5-8,4,2), of dir]
  have "entry_ok (entries b ! i)" using assms(2,4) by (simp add: browser_ok_def)
  then have n: "name_ok n" using c_string_holds [OF assms(13)] c_string_holds by (fastforce simp: entry_ok_def)
  show ?thesis
  proof (cases "attributes (entries b ! i) AND ENTRY_IS_DIR = 0")
    case True
    then show ?thesis using click c_string_holds [OF assms(13)] by (simp add: Let_def)
  next
    case False
    obtain c where c: "change_directory (entry_name (entries b ! i)) b = Inr c" "shows_dir c (names @ [n])"
      using enter_dir [OF assms(3,13) n assms(14)] by blast
    have "browser_ok (c\<lparr>selected_entry := int i\<rparr>)" "shows_dir (c\<lparr>selected_entry := int i\<rparr>) (names @ [n])"
      using c keeps_entries(1) [OF c(1) assms(2)] by simp_all
    from list_dir_ok [OF assms(1) this] obtain b1 where
      b1: "read_directory dir (c\<lparr>selected_entry := int i\<rparr>) = Inr b1" "browser_ok b1" "shows_dir b1 (names @ [n])" by blast
    have ev: "browser_event dir x y True b = Inr b1" using click False c(1) b1(1) by (simp add: Let_def)
    obtain d where d: "go_up b1 = Inr d" "shows_dir d names" using leave_dir [OF b1(3)] by blast
    have "browser_ok (d\<lparr>selected_entry := - 1\<rparr>)" "shows_dir (d\<lparr>selected_entry := - 1\<rparr>) names"
      using d keeps_entries(2) [OF d(1) b1(2)] by simp_all
    from list_dir_ok [OF assms(1) this] obtain b2 where
      b2: "read_directory dir (d\<lparr>selected_entry := - 1\<rparr>) = Inr b2" "browser_ok b2" "shows_dir b2 names" by blast
    have "browser_event dir x' y' True b1 = Inr b2" using click_go_up [OF assms(9-12), of dir b1] d(1) b2(1) by simp
    with ev b1 b2 False show ?thesis by auto
  qed
qed

text \<open>A drive with one directory \<open>A\<close> in its root.\<close>

definition example_dir :: directories where
  "example_dir p = Some (if p = map of_char ''0:/'' then [\<lparr>attributes = 16, entry_name = 65 # replicate 255 0\<rparr>] else [])"

lemma example_dir_ok: "dirs_ok example_dir"
proof -
  have "holds (65 # replicate 255 0) [65]" by (simp add: holds_def)
  moreover have "name_ok [65]" by (simp add: name_ok_def SLASH_def)
  ultimately have "entry_ok \<lparr>attributes = 16, entry_name = 65 # replicate 255 0\<rparr>" by (auto simp: entry_ok_def)
  then show ?thesis by (simp add: dirs_ok_def example_dir_def)
qed

lemma start_browser_ok:
  assumes "dirs_ok dir"
  shows "\<exists>b. start_browser dir = Inr b \<and> browser_ok b \<and> holds (path b) (drive @ [SLASH]) \<and> shows_dir b []"
proof -
  have s: "cstr ''0:/'' = (drive @ [SLASH]) @ 0 # []" by (simp add: cstr_def drive_def SLASH_def)
  have z: "0 \<notin> set (drive @ [SLASH])" by (simp add: drive_def SLASH_def)
  let ?p = "(drive @ [SLASH]) @ 0 # replicate 252 0"
  have c: "libc_strcpy (path initial_browser) (cstr ''0:/'') = Inr ?p"
    unfolding s using strcpy_text [OF z, of "replicate 256 0" "[]"] by (simp add: initial_browser_def drive_def)
  have h: "holds ?p (drive @ [SLASH])" using z by (auto simp: holds_iff)
  have "browser_ok (initial_browser\<lparr>path := ?p\<rparr>)" by (simp add: browser_ok_def initial_browser_def MAX_ENTRIES_def)
  from read_directory_ok [OF assms this, of "drive @ [SLASH]"] h obtain b where
    "read_directory dir (initial_browser\<lparr>path := ?p\<rparr>) = Inr b" "browser_ok b" "path b = ?p" by auto
  moreover have "length ?p = 256" by (simp add: drive_def)
  ultimately show ?thesis using c h by (simp add: start_browser_def shows_dir_def)
qed

theorem browser_opens_and_returns_witness:
  "\<exists>b b1 b2. start_browser example_dir = Inr b \<and> browser_event example_dir 10 35 True b = Inr b1 \<and>
     shows_dir b1 [[65]] \<and> browser_event example_dir 10 20 True b1 = Inr b2 \<and> shows_dir b2 []"
proof -
  obtain b where b: "start_browser example_dir = Inr b" "browser_ok b" "shows_dir b []"
    using start_browser_ok [OF example_dir_ok] by blast
  have s: "libc_strcpy (path initial_browser) (cstr ''0:/'') = Inr ((drive @ [SLASH]) @ 0 # replicate 252 0)"
    using strcpy_text [of "drive @ [SLASH]" "replicate 256 0" "[]"]
    by (simp add: initial_browser_def cstr_def drive_def SLASH_def)
  have "c_string ((drive @ [SLASH]) @ 0 # replicate 252 0) = Inr (map of_char ''0:/'')"
    by (simp add: drive_def SLASH_def)
  then have e: "entries b ! 0 = \<lparr>attributes = 16, entry_name = 65 # replicate 255 0\<rparr>" "num_entries b = 1"
    using b(1) s by (auto simp: start_browser_def read_directory_def example_dir_def initial_browser_def MAX_ENTRIES_def Let_def)
  have "holds (65 # replicate 255 0) [65]" by (simp add: holds_def)
  then show ?thesis
    using browser_opens_and_returns [OF example_dir_ok b(2,3), of 0 10 35 10 20 "[65]"] b(1) e
    by (auto simp: path_text_def drive_def ENTRY_IS_DIR_def)
qed

text \<open>From the start, two clicks on the line at the top end the program with a page fault.\<close>

lemma browser_up_from_root:
  assumes "dirs_ok dir" and "3 < x" "x < 237" and "17 < y" "y < 27"
  shows "\<exists>b b1. start_browser dir = Inr b \<and> browser_event dir x y True b = Inr b1 \<and> browser_event dir x y True b1 = Inl Page_Fault"
proof -
  obtain b where b: "start_browser dir = Inr b" "browser_ok b" "holds (path b) (drive @ [SLASH])"
    using start_browser_ok [OF assms(1)] by blast
  obtain c where c: "go_up b = Inr c" "holds (path c) drive" "go_up c = Inl Page_Fault" using leave_root [OF b(3)] by blast
  have "browser_ok (c\<lparr>selected_entry := - 1\<rparr>)" using keeps_entries(2) [OF c(1) b(2)] by simp
  from read_directory_ok [OF assms(1) this, of drive] c(2) obtain b1 where
    b1: "read_directory dir (c\<lparr>selected_entry := - 1\<rparr>) = Inr b1" "path b1 = path c" by auto
  have "go_up b1 = Inl Page_Fault" using c(3) b1(2) by (simp add: go_up_def and_then_def in_bounds_def Let_def split: sum.splits option.splits if_splits)
  then show ?thesis using b(1) click_go_up [OF assms(2-5), of dir] c(1) b1(1) by simp
qed

end
