(* ===== verification/User_Programs.thy ===== *)
theory User_Programs
  imports Sgfx_Line Kern_State
begin

text \<open>
  The small user programs: \<open>userspace/draw/draw.c\<close>, \<open>userspace/terminal/terminal.c\<close>, \<open>userspace/timer/timer.c\<close>
  and the line drawing of \<open>userspace/cube\<close>. The main loop of a program is one round over the events that
  \<open>os_poll_event\<close> returned; the frame buffer is a list of pixels.
\<close>

section \<open>Drawing with the mouse\<close>

definition draw_at :: "int \<Rightarrow> int \<Rightarrow> u32 \<Rightarrow> u32 list \<Rightarrow> u32 list res" where
  "draw_at x y color f =
     (if x < 0 then Inr f else if y < 0 then Inr f else if x \<ge> 300 then Inr f else if y \<ge> 240 then Inr f
      else in_bounds (nat (x + y * 300)) (length f) (Inr (f[nat (x + y * 300) := color OR 0xFF000000])))"

definition dot_at :: "int \<Rightarrow> int \<Rightarrow> u32 \<Rightarrow> u32 list \<Rightarrow> u32 list res" where
  "dot_at x y color f =
     for_res 0 10 (\<lambda>yo. for_res 0 10 (\<lambda>xo. draw_at (x + int xo - 10 sdiv 2) (y + int yo - 10 sdiv 2) color)) f"

definition colors :: "u32 list" where
  "colors = [0xFF0000, 0x00FF00, 0x0000FF, 0xFFFF00, 0x00FFFF, 0xFF00FF, 0xFFFFFF]"

text \<open>The loop that blackens the window, and a polled event: a dot in the next colour.\<close>

definition draw_clear :: "u32 list \<Rightarrow> u32 list res" where
  "draw_clear f = for_res 0 (300 * 240) (\<lambda>i g. in_bounds i (length g) (Inr (g[i := 0xFF000000]))) f"

definition draw_event :: "event \<Rightarrow> nat \<times> u32 list \<Rightarrow> (nat \<times> u32 list) res" where
  "draw_event e = (\<lambda>(color_i, f).
     if ev_type e = EVENT_MOUSE_MOVE then
       in_bounds color_i (length colors)
         (and_then (dot_at (sint (data0 e)) (sint (data1 e)) (colors ! color_i) f) (\<lambda>g.
          Inr ((color_i + 1) mod length colors, g)))
     else Inr (color_i, f))"

fun draw_events :: "event list \<Rightarrow> nat \<times> u32 list \<Rightarrow> (nat \<times> u32 list) res" where
  "draw_events [] s = Inr s"
| "draw_events (e # es) s = and_then (draw_event e s) (draw_events es)"

section \<open>The terminal\<close>

definition textbuffer_width :: nat where "textbuffer_width = 360 div 10"
definition textbuffer_height :: nat where "textbuffer_height = 240 div 10"

record terminal =
  textbuffer :: "u8 list"
  text_cursor :: nat

definition start_terminal :: terminal where
  "start_terminal = \<lparr>textbuffer = (replicate (textbuffer_width * textbuffer_height) 0)[0 := 62], text_cursor = 2\<rparr>"

definition terminal_event :: "event \<Rightarrow> terminal \<Rightarrow> terminal res" where
  "terminal_event e t =
     (if ev_type e = EVENT_KEYBOARD \<and> data2 e \<noteq> 0 then
        in_bounds (text_cursor t) (length (textbuffer t))
          (Inr (t\<lparr>textbuffer := (textbuffer t)[text_cursor t := ucast (data1 e)], text_cursor := text_cursor t + 1\<rparr>))
      else Inr t)"

fun terminal_events :: "event list \<Rightarrow> terminal \<Rightarrow> terminal res" where
  "terminal_events [] t = Inr t"
| "terminal_events (e # es) t = and_then (terminal_event e t) (terminal_events es)"

definition terminal_char :: "u8 list \<Rightarrow> u8 list \<Rightarrow> nat \<Rightarrow> nat \<Rightarrow> graphics_context \<Rightarrow> graphics_context res" where
  "terminal_char font txt y x d =
     (let i = x + y * textbuffer_width in
      in_bounds i (length txt)
        (if txt ! i = 0 then Inr d else sgfx_draw_char font (txt ! i) (int x * 10) (int y * 10 + 2) 0xFFFFFFFF d))"

definition terminal_picture :: "u8 list \<Rightarrow> terminal \<Rightarrow> graphics_context \<Rightarrow> graphics_context res" where
  "terminal_picture font t c =
     and_then (sgfx_fill 0xFF000000 c) (\<lambda>d.
     for_res 0 textbuffer_height (\<lambda>y. for_res 0 textbuffer_width (terminal_char font (textbuffer t) y)) d)"

section \<open>The blinking timer window\<close>

definition timer_paint :: "u32 \<Rightarrow> u32 list \<Rightarrow> u32 list res" where
  "timer_paint color f = for_res 0 (250 * 250) (\<lambda>i g. in_bounds i (length g) (Inr (g[i := color]))) f"

definition timer_program_event :: "event \<Rightarrow> bool \<times> u32 list \<Rightarrow> (bool \<times> u32 list) res" where
  "timer_program_event e = (\<lambda>(st, f).
     if ev_type e = EVENT_TIMER then
       and_then (timer_paint (0xFF000000 OR (if \<not> st then 0xFF else 0)) f) (\<lambda>g. Inr (\<not> st, g))
     else Inr (st, f))"

section \<open>Lines of the cube\<close>

definition cube_pixel :: "int \<Rightarrow> int \<Rightarrow> u32 \<Rightarrow> graphics_context \<Rightarrow> graphics_context res" where
  "cube_pixel x y color c =
     (if x < 0 then Inr c else if y < 0 then Inr c else if x \<ge> uint (ctx_width c) then Inr c
      else if y \<ge> uint (ctx_height c) then Inr c else put_pixel x y color c)"

definition cube_init :: "u32 list \<Rightarrow> u32 \<Rightarrow> u32 \<Rightarrow> graphics_context" where
  "cube_init f w h = \<lparr>framebuffer = f, ctx_width = w, ctx_height = h, bytesize = w * h * 4\<rparr>"

definition cube_fill :: "u32 \<Rightarrow> graphics_context \<Rightarrow> graphics_context res" where
  "cube_fill color c = for_res 0 (unat (drop_bit 2 (bytesize c))) (\<lambda>i. put_index (of_nat i) color) c"

fun cube_line_steps :: "nat \<Rightarrow> int \<Rightarrow> int \<Rightarrow> int \<Rightarrow> int \<Rightarrow> int \<Rightarrow> int \<Rightarrow> int \<Rightarrow> int \<Rightarrow> int \<Rightarrow> u32 \<Rightarrow> graphics_context \<Rightarrow>
    graphics_context res" where
  "cube_line_steps 0 x0 y0 x1 y1 dx dy sx sy err color c = Inr c"
| "cube_line_steps (Suc n) x0 y0 x1 y1 dx dy sx sy err color c =
     and_then (cube_pixel x0 y0 color c) (\<lambda>d.
     if x0 = x1 \<and> y0 = y1 then Inr d
     else
       (let e2 = 2 * err;
            (err1, x0') = (if e2 \<ge> dy then (err + dy, x0 + sx) else (err, x0));
            (err2, y0') = (if e2 \<le> dx then (err1 + dx, y0 + sy) else (err1, y0))
        in cube_line_steps n x0' y0' x1 y1 dx dy sx sy err2 color d))"

definition cube_line :: "int \<Rightarrow> int \<Rightarrow> int \<Rightarrow> int \<Rightarrow> u32 \<Rightarrow> graphics_context \<Rightarrow> graphics_context res" where
  "cube_line x0 y0 x1 y1 color c =
     (let dx = (if x1 - x0 < 0 then - (x1 - x0) else x1 - x0); sx = (if x0 < x1 then 1 else - 1);
          dy = - (if y1 - y0 < 0 then - (y1 - y0) else y1 - y0); sy = (if y0 < y1 then 1 else - 1)
      in cube_line_steps 1000 x0 y0 x1 y1 dx dy sx sy (dx + dy) color c)"

text \<open>\<open>line_between\<close>: an edge of the cube between the projected corners \<open>a\<close> and \<open>b\<close>.\<close>

definition line_between :: "int list \<Rightarrow> nat \<Rightarrow> nat \<Rightarrow> u32 \<Rightarrow> graphics_context \<Rightarrow> graphics_context res" where
  "line_between coords a b color c =
     in_bounds (a * 2 + 1) (length coords) (in_bounds (b * 2 + 1) (length coords)
       (cube_line (coords ! (a * 2)) (coords ! (a * 2 + 1)) (coords ! (b * 2)) (coords ! (b * 2 + 1)) color c))"

section \<open>Filling a buffer\<close>

lemma paint_all:
  assumes "length f = n"
  shows "for_res 0 n (\<lambda>i g. in_bounds i (length g) (Inr (g[i := v]))) f = Inr (replicate n v)"
proof -
  have "\<exists>g. for_res 0 n (\<lambda>i g. in_bounds i (length g) (Inr (g[i := v]))) f = Inr g \<and> (length g = n \<and> (\<forall>j<n. g ! j = v))"
    using for_res_rule [of 0 n "\<lambda>i g. length g = n \<and> (\<forall>j<i. g ! j = v)" f "\<lambda>i g. in_bounds i (length g) (Inr (g[i := v]))"] assms
    by (auto simp: nth_list_update less_Suc_eq)
  then obtain g where "for_res 0 n (\<lambda>i g. in_bounds i (length g) (Inr (g[i := v]))) f = Inr g" "length g = n" "\<forall>j<n. g ! j = v"
    by blast
  moreover from this have "g = replicate n v" by (simp add: list_eq_iff_nth_eq)
  ultimately show ?thesis by simp
qed

section \<open>A dot is a rectangle\<close>

text \<open>Two loops whose bodies agree on the images of the states.\<close>

lemma for_res_image:
  assumes "\<And>i s. lo \<le> i \<Longrightarrow> i < hi \<Longrightarrow> body' i (h s) = and_then (body i s) (\<lambda>t. Inr (h t))"
  shows "for_res lo hi body' (h s) = and_then (for_res lo hi body s) (\<lambda>t. Inr (h t))"
  using assms
proof (induction "hi - lo" arbitrary: lo s)
  case (Suc n)
  then have "lo < hi" by simp
  with Suc show ?case by (cases "body lo s") (simp_all add: for_res_step)
qed simp

definition draw_ctx :: "u32 list \<Rightarrow> graphics_context" where
  "draw_ctx f = sgfx_init f 300 240"

lemma for_res_skip: "(\<And>i t. body i t = Inr t) \<Longrightarrow> for_res lo hi body s = Inr s"
proof (induction "hi - lo" arbitrary: lo)
  case (Suc n)
  then have "lo < hi" by simp
  with Suc show ?case by (simp add: for_res_step)
qed simp

lemma draw_ctx_pixel:
  assumes "0 \<le> y" and "y < 240"
  shows "blit_pixel (x - 5) (y - int yo) (\<lambda>_ _. Inr (Some (color OR 0xFF000000))) yo xo (draw_ctx f) =
    and_then (draw_at (x + int xo - 5) y color f) (\<lambda>g. Inr (draw_ctx g))"
proof (cases "x + int xo - 5 < 0 \<or> 300 \<le> x + int xo - 5")
  case True
  then have "int xo + (x - 5) < 0 \<or> int xo + (x - 5) \<ge> 300" by linarith
  with True show ?thesis using assms by (auto simp: blit_pixel_def draw_at_def draw_ctx_def sgfx_init_def)
next
  case False
  have "of_int (int xo + (x - 5)) + of_int y * 300 = (of_int (x + int xo - 5 + y * 300) :: u32)" by simp
  moreover have "unat (of_int (x + int xo - 5 + y * 300) :: u32) = nat (x + int xo - 5 + y * 300)"
    by (rule unat_of_int_small) (use False assms in auto)
  ultimately have ix: "unat (of_int (int xo + (x - 5)) + of_int y * 300 :: u32) = nat (x + int xo - 5 + y * 300)"
    by (simp only: )
  have rng: "\<not> (int xo + (x - 5) < 0 \<or> int xo + (x - 5) \<ge> 300)" using False by linarith
  have "put_pixel (int xo + (x - 5)) y (color OR 0xFF000000) (draw_ctx f) =
      in_bounds (nat (x + int xo - 5 + y * 300)) (length f) (Inr (draw_ctx (f[nat (x + int xo - 5 + y * 300) := color OR 0xFF000000])))"
    unfolding put_pixel_def put_index_def draw_ctx_def sgfx_init_def using ix by simp
  moreover have "blit_pixel (x - 5) (y - int yo) (\<lambda>_ _. Inr (Some (color OR 0xFF000000))) yo xo (draw_ctx f) =
      put_pixel (int xo + (x - 5)) y (color OR 0xFF000000) (draw_ctx f)"
    using rng by (simp add: blit_pixel_def draw_ctx_def sgfx_init_def)
  ultimately show ?thesis using False assms by (simp add: draw_at_def in_bounds_def)
qed

text \<open>Two programmers, one picture. The dot that the drawing program paints with its own clipped
  loops is the rectangle of 10 by 10 pixels around the mouse that the graphics library paints: for any
  position and any frame buffer, the results are the same, faults included.\<close>

theorem dot_is_rect:
  "sgfx_fill_rect (x - 5) (y - 5) 10 10 (color OR 0xFF000000) (sgfx_init f 300 240) =
     and_then (dot_at x y color f) (\<lambda>g. Inr (sgfx_init g 300 240))"
proof -
  let ?k = "\<lambda>_ _. Inr (Some (color OR 0xFF000000)) :: u32 option res"
  let ?row' = "\<lambda>yi d. let y' = int yi + (y - 5) in
       if y' < 0 \<or> y' \<ge> sint (ctx_height d) then Inr d else for_res 0 10 (blit_pixel (x - 5) (y - 5) ?k yi) d"
  let ?row = "\<lambda>yo. for_res 0 10 (\<lambda>xo. draw_at (x + int xo - 5) (y + int yo - 5) color)"
  have row: "?row' yo (draw_ctx g) = and_then (?row yo g) (\<lambda>g. Inr (draw_ctx g))" for yo g
  proof (cases "y + int yo - 5 < 0 \<or> 240 \<le> y + int yo - 5")
    case True
    then have "draw_at (x + int xo - 5) (y + int yo - 5) color t = Inr t" for xo t by (auto simp: draw_at_def)
    then have "?row yo g = Inr g" by (rule for_res_skip)
    moreover have "int yo + (y - 5) < 0 \<or> 240 \<le> int yo + (y - 5)" using True by linarith
    ultimately show ?thesis by (auto simp: draw_ctx_def sgfx_init_def Let_def)
  next
    case False
    have "for_res 0 10 (blit_pixel (x - 5) (y - 5) ?k yo) (draw_ctx g) = and_then (?row yo g) (\<lambda>g. Inr (draw_ctx g))"
    proof (rule for_res_image)
      fix xo t
      have "blit_pixel (x - 5) (y + int yo - 5 - int yo) ?k yo xo (draw_ctx t) =
          and_then (draw_at (x + int xo - 5) (y + int yo - 5) color t) (\<lambda>g. Inr (draw_ctx g))"
        by (rule draw_ctx_pixel) (use False in auto)
      moreover have "y + int yo - 5 - int yo = y - 5" by simp
      ultimately show "blit_pixel (x - 5) (y - 5) ?k yo xo (draw_ctx t) =
          and_then (draw_at (x + int xo - 5) (y + int yo - 5) color t) (\<lambda>g. Inr (draw_ctx g))" by simp
    qed
    moreover have "\<not> (int yo + (y - 5) < 0 \<or> 240 \<le> int yo + (y - 5))" using False by linarith
    ultimately show ?thesis by (simp add: draw_ctx_def sgfx_init_def Let_def)
  qed
  have "for_res 0 10 ?row' (draw_ctx f) = and_then (for_res 0 10 ?row f) (\<lambda>g. Inr (draw_ctx g))"
    by (rule for_res_image) (rule row)
  then show ?thesis by (simp add: sgfx_fill_rect_def blit_def dot_at_def draw_ctx_def signed_divide_int_def cong: if_cong)
qed

section \<open>Keys of the terminal\<close>

definition typed_keys :: "event list \<Rightarrow> u8 list" where
  "typed_keys es = map (\<lambda>e. ucast (data1 e)) (filter (\<lambda>e. ev_type e = EVENT_KEYBOARD \<and> data2 e \<noteq> 0) es)"

lemma terminal_events_spec:
  assumes "pre \<noteq> []"
  shows "terminal_events es \<lparr>textbuffer = pre @ replicate n 0, text_cursor = length pre\<rparr> =
    (if length (typed_keys es) \<le> n
     then Inr \<lparr>textbuffer = pre @ typed_keys es @ replicate (n - length (typed_keys es)) 0,
       text_cursor = length pre + length (typed_keys es)\<rparr>
     else Inl Out_Of_Bounds)"
  using assms
proof (induction es arbitrary: pre n)
  case (Cons e es)
  show ?case
  proof (cases "ev_type e = EVENT_KEYBOARD \<and> data2 e \<noteq> 0")
    case True
    show ?thesis
    proof (cases n)
      case 0
      with True show ?thesis by (simp add: terminal_event_def typed_keys_def)
    next
      case (Suc m)
      let ?c = "ucast (data1 e) :: u8"
      have "terminal_event e \<lparr>textbuffer = pre @ replicate n 0, text_cursor = length pre\<rparr> =
          Inr \<lparr>textbuffer = (pre @ [?c]) @ replicate m 0, text_cursor = length (pre @ [?c])\<rparr>"
        using True Suc by (simp add: terminal_event_def)
      with Cons.IH [of "pre @ [?c]" m] True Suc show ?thesis by (simp add: typed_keys_def)
    qed
  next
    case False
    with Cons show ?thesis by (auto simp: terminal_event_def typed_keys_def)
  qed
qed (simp add: typed_keys_def)

text \<open>What the terminal holds. From the start, after any events, the text buffer of 36 by 24 characters
  holds the prompt, a gap and the characters of the keys that were pressed, in this order; the
  key press after 862 of them writes outside the buffer, because the cursor is never checked.\<close>

theorem terminal_holds_keys:
  "terminal_events es start_terminal =
     (if length (typed_keys es) \<le> 862
      then Inr \<lparr>textbuffer = [62, 0] @ typed_keys es @ replicate (862 - length (typed_keys es)) 0,
        text_cursor = 2 + length (typed_keys es)\<rparr>
      else Inl Out_Of_Bounds)"
proof -
  have "replicate 864 (0 :: u8) = 0 # 0 # replicate 862 0" using replicate_Suc [of 863 "0 :: u8"] replicate_Suc [of 862 "0 :: u8"] by simp
  then have "start_terminal = \<lparr>textbuffer = [62, 0] @ replicate 862 0, text_cursor = length [62, 0 :: u8]\<rparr>"
    by (simp add: start_terminal_def textbuffer_width_def textbuffer_height_def)
  then show ?thesis using terminal_events_spec [of "[62, 0]" es 862] by simp
qed

section \<open>The cube's lines\<close>

text \<open>The line routine of the cube is the one of the graphics library, so its lines are straight as well.\<close>

lemma cube_line_is_line: "cube_line x0 y0 x1 y1 color c = sgfx_draw_line x0 y0 x1 y1 color c"
proof -
  have "cube_line_steps n x0 y0 x1 y1 dx dy sx sy err color c = line_steps n x0 y0 x1 y1 dx dy sx sy err color c"
    for n x0 y0 x1 y1 dx dy sx sy err c
    by (induction n arbitrary: x0 y0 err c) (auto simp: cube_pixel_def sgfx_pixel_def and_then_def split: sum.splits)
  then show ?thesis by (simp add: cube_line_def sgfx_draw_line_def abs_if Let_def)
qed

lemma timer_paints:
  assumes "length f = 62500"
  shows "timer_program_event e (st, f) =
    Inr (if ev_type e = EVENT_TIMER then (\<not> st, replicate 62500 (0xFF000000 OR (if st then 0 else 0xFF))) else (st, f))"
  using paint_all [OF assms] by (simp add: timer_program_event_def timer_paint_def)

end
