(* ===== verification/User_Malloc.thy ===== *)
theory User_Malloc
  imports Events Chunk_Heap Heap_Memory
begin

text \<open>
  The allocator of the user library (\<open>userspace/api/src/malloc.c\<close>), which began as a copy of the kernel's.
  A program sees the pages behind its heap as words; the system call \<open>set_heap_end\<close> is what
  \<open>kernel/userheap.c\<close> does to this view: fresh pages are zeroed, and the kernel stops if it runs out of
  frames or if the heap should shrink by a page. Headers have the layout of the kernel's, with the same names.
\<close>

section \<open>The heap as the program sees it\<close>

record user_heap =
  uh_words :: "nat \<Rightarrow> u32"
  uh_brk :: u32
  uh_free :: nat
  uh_start :: u32
  uh_size :: u32
  uh_threshold :: u32
  uh_initialized :: bool

text \<open>The word at an address of the heap; behind the last mapped page there is a page fault.\<close>

definition uh_offset :: "u32 \<Rightarrow> nat" where
  "uh_offset a = unat (a - USER_HEAP_START)"

definition uh_mapped :: "u32 \<Rightarrow> user_heap \<Rightarrow> bool" where
  "uh_mapped a s \<longleftrightarrow> uh_offset a < 4096 * unat (CEIL_DIV (uh_brk s) 0x1000 - CEIL_DIV USER_HEAP_START 0x1000)"

definition uh_load :: "u32 \<Rightarrow> user_heap \<Rightarrow> u32 res" where
  "uh_load a s = (if uh_mapped a s then Inr (uh_words s (uh_offset a div 4)) else Inl Page_Fault)"

definition uh_store :: "u32 \<Rightarrow> u32 \<Rightarrow> user_heap \<Rightarrow> user_heap res" where
  "uh_store a v s = (if uh_mapped a s then Inr (s\<lparr>uh_words := (uh_words s)(uh_offset a div 4 := v)\<rparr>) else Inl Page_Fault)"

text \<open>\<open>set_user_heap_end\<close> with the zeroed pages; \<open>uh_free\<close> is the number of pages that the kernel can map.\<close>

definition uh_set_end :: "u32 \<Rightarrow> user_heap \<Rightarrow> user_heap res" where
  "uh_set_end new_heap_end s =
     kassert (new_heap_end > USER_HEAP_START)
       (let old_page_top = CEIL_DIV (uh_brk s) 0x1000; new_page_top = CEIL_DIV new_heap_end 0x1000 in
        if old_page_top <s new_page_top then
          (let num = unat (new_page_top - old_page_top); first = unat (old_page_top - CEIL_DIV USER_HEAP_START 0x1000) in
           kassert (num \<le> uh_free s)
             (Inr (s\<lparr>uh_words := (\<lambda>i. if first \<le> i div 1024 \<and> i div 1024 < first + num then 0 else uh_words s i),
                uh_free := uh_free s - num, uh_brk := new_heap_end\<rparr>)))
        else kassert (\<not> new_page_top <s old_page_top) (Inr (s\<lparr>uh_brk := new_heap_end\<rparr>)))"

definition uh_set_size :: "u32 \<Rightarrow> u32 \<Rightarrow> user_heap \<Rightarrow> user_heap res" where
  "uh_set_size pos n s = and_then (uh_load pos s) (\<lambda>w. uh_store pos (mk_hdr n (hdr_used w)) s)"

definition uh_set_used :: "u32 \<Rightarrow> bool \<Rightarrow> user_heap \<Rightarrow> user_heap res" where
  "uh_set_used pos u s = and_then (uh_load pos s) (\<lambda>w. uh_store pos (mk_hdr (hdr_size w) u) s)"

section \<open>Operations\<close>

definition uh_change_size :: "u32 \<Rightarrow> user_heap \<Rightarrow> user_heap res" where
  "uh_change_size new_size s = and_then (uh_set_end (uh_start s + new_size) s) (\<lambda>s1. Inr (s1\<lparr>uh_size := new_size\<rparr>))"

definition malloc_init :: "u32 \<Rightarrow> user_heap \<Rightarrow> user_heap res" where
  "malloc_init initial_heap_size s =
     (let s1 = s\<lparr>uh_start := USER_HEAP_START, uh_size := 0, uh_threshold := 0, uh_initialized := True\<rparr>
      in and_then (uh_change_size initial_heap_size s1) (\<lambda>s2. uh_store (uh_start s2) 0 s2))"

definition uh_use_chunk :: "u32 \<Rightarrow> u32 \<Rightarrow> user_heap \<Rightarrow> (u32 \<times> user_heap) res" where
  "uh_use_chunk pos n s =
     and_then (uh_set_used pos True s) (\<lambda>s1.
     and_then (uh_load pos s1) (\<lambda>w.
     and_then
       (if hdr_size w = 0 then
          and_then (uh_set_size pos n s1) (\<lambda>s2.
          and_then (uh_set_size (pos + n) 0 s2) (\<lambda>s3.
          uh_set_used (pos + n) False s3))
        else
          (let diff = hdr_size w - n in
           if 8 \<le>s diff then
             and_then (uh_set_size (pos + n) diff s1) (\<lambda>s2.
             and_then (uh_set_used (pos + n) False s2) (\<lambda>s3.
             uh_set_size pos n s3))
           else Inr s1)) (\<lambda>s4.
     let addr = pos + HEADER in
     Inr (addr, if addr > uh_threshold s4 then s4\<lparr>uh_threshold := addr\<rparr> else s4))))"

partial_function (option) uh_search :: "u32 \<Rightarrow> u32 \<Rightarrow> user_heap \<Rightarrow> (u32 \<times> user_heap) run" where
  "uh_search n pos s =
     run_then
       (Some (if pos + n + HEADER > uh_start s + uh_size s
              then uh_change_size (pos + n + HEADER - uh_start s) s else Inr s)) (\<lambda>s1.
     run_then (Some (uh_load pos s1)) (\<lambda>w.
     if \<not> hdr_used w \<and> (hdr_size w \<ge> n \<or> hdr_size w = 0) then Some (uh_use_chunk pos n s1)
     else uh_search n (pos + hdr_size w) s1))"

definition os_malloc :: "u32 \<Rightarrow> user_heap \<Rightarrow> (u32 \<times> user_heap) run" where
  "os_malloc bytes s = uh_search (real_size bytes) (uh_start s) s"

partial_function (option) uh_swallow :: "u32 \<Rightarrow> u32 \<Rightarrow> user_heap \<Rightarrow> (bool \<times> user_heap) run" where
  "uh_swallow pos next_pos s =
     run_then (Some (uh_load next_pos s)) (\<lambda>w.
     if hdr_used w then Some (Inr (False, s))
     else if hdr_size w = 0 then
       run_then (Some (uh_set_size pos 0 s)) (\<lambda>s1. Some (Inr (True, s1\<lparr>uh_threshold := pos\<rparr>)))
     else
       run_then (Some (uh_load pos s)) (\<lambda>c.
       run_then (Some (uh_set_size pos (hdr_size c + hdr_size w) s)) (\<lambda>s1.
       run_then (Some (uh_load next_pos s1)) (\<lambda>w1.
       uh_swallow pos (next_pos + hdr_size w1) s1))))"

partial_function (option) uh_merge :: "u32 \<Rightarrow> user_heap \<Rightarrow> user_heap run" where
  "uh_merge pos s =
     run_then (Some (uh_load pos s)) (\<lambda>w.
     if hdr_size w = 0 then Some (Inr s)
     else
       run_then (if \<not> hdr_used w then uh_swallow pos (pos + hdr_size w) s else Some (Inr (False, s))) (\<lambda>r.
       if fst r then Some (Inr (snd r))
       else
         run_then (Some (uh_load pos (snd r))) (\<lambda>w1.
         if pos + hdr_size w1 \<ge> uh_start (snd r) + uh_size (snd r) then Some (Inr (snd r))
         else uh_merge (pos + hdr_size w1) (snd r))))"

definition os_free :: "u32 \<Rightarrow> user_heap \<Rightarrow> user_heap run" where
  "os_free addr s =
     (let chunk = addr - HEADER in
      run_then (Some (uh_load chunk s)) (\<lambda>w.
      if \<not> hdr_used w then Some (Inr s)
      else run_then (Some (uh_set_used chunk False s)) (\<lambda>s1. uh_merge (uh_start s1) s1)))"

definition get_total_bytes :: "user_heap \<Rightarrow> u32" where
  "get_total_bytes s = uh_threshold s - uh_start s"

section \<open>The memory keeps the contract\<close>

definition uh_space :: "user_heap \<Rightarrow> bool" where
  "uh_space s \<longleftrightarrow> uh_start s = USER_HEAP_START \<and> uh_brk s = uh_start s + uh_size s \<and> unat (uh_size s) \<le> 536870912"

definition uh_addr :: "nat \<Rightarrow> u32" where "uh_addr k = USER_HEAP_START + of_nat k"
definition uh_rd :: "user_heap \<Rightarrow> nat \<Rightarrow> u32" where "uh_rd s k = uh_words s (k div 4)"
definition uh_put :: "nat \<Rightarrow> u32 \<Rightarrow> user_heap \<Rightarrow> user_heap" where "uh_put k v s = s\<lparr>uh_words := (uh_words s)(k div 4 := v)\<rparr>"

definition uh_like :: "user_heap \<Rightarrow> user_heap \<Rightarrow> bool" where
  "uh_like s t \<longleftrightarrow> uh_space t \<and> uh_size t = uh_size s \<and> uh_free t = uh_free s"

definition uh_room :: "nat \<Rightarrow> user_heap \<Rightarrow> bool" where
  "uh_room n s \<longleftrightarrow> heap_pages n - heap_pages (unat (uh_size s)) \<le> uh_free s"

lemma uh_offset_addr: "k \<le> 536870912 \<Longrightarrow> uh_offset (uh_addr k) = k"
  by (simp add: uh_offset_def uh_addr_def unat_of_nat_small)

lemma unat_uh_addr: "k \<le> 536870912 \<Longrightarrow> unat (uh_addr k) = 536870912 + k"
  by (simp add: uh_addr_def USER_HEAP_START_def unat_add_small unat_of_nat_small)

lemma page_top:
  assumes "unat n \<le> 536870912"
  shows "unat (CEIL_DIV (USER_HEAP_START + n) 0x1000) = 131072 + heap_pages (unat n)"
proof -
  have "unat (USER_HEAP_START + n) = 536870912 + unat n" using assms by (simp add: USER_HEAP_START_def unat_add_small)
  then have "unat (USER_HEAP_START + n + 0xFFF) = 536875007 + unat n" using assms by (simp add: unat_add_small)
  moreover have "CEIL_DIV (USER_HEAP_START + n) 0x1000 = (USER_HEAP_START + n + 0xFFF) div 0x1000"
    by (simp add: CEIL_DIV_def algebra_simps)
  ultimately show ?thesis by (simp add: unat_div heap_pages_def)
qed

lemma page_top_start: "CEIL_DIV USER_HEAP_START 0x1000 = 131072"
  by (simp add: CEIL_DIV_def USER_HEAP_START_def)

lemma mapped_pages:
  assumes "uh_space s"
  shows "unat (CEIL_DIV (uh_brk s) 0x1000 - CEIL_DIV USER_HEAP_START 0x1000) = heap_pages (unat (uh_size s))"
proof -
  have "unat (CEIL_DIV (uh_brk s) 0x1000) = 131072 + heap_pages (unat (uh_size s))"
    using page_top [of "uh_size s"] assms by (simp add: uh_space_def)
  then show ?thesis unfolding page_top_start by (simp add: unat_sub word_le_nat_alt)
qed

lemma uh_in_heap:
  assumes "uh_space s" and "k < unat (uh_size s)"
  shows "uh_mapped (uh_addr k) s" "uh_offset (uh_addr k) = k"
proof -
  show o: "uh_offset (uh_addr k) = k" using assms by (intro uh_offset_addr) (simp add: uh_space_def)
  have "k < 4096 * heap_pages (unat (uh_size s))" using assms(2) by (simp add: heap_pages_def)
  then show "uh_mapped (uh_addr k) s" by (simp add: uh_mapped_def mapped_pages [OF assms(1)] o)
qed

lemma uh_access:
  assumes "uh_space s" and "k < unat (uh_size s)"
  shows "uh_load (uh_addr k) s = Inr (uh_rd s k)" "uh_store (uh_addr k) v s = Inr (uh_put k v s)"
  using uh_in_heap [OF assms] by (simp_all add: uh_load_def uh_store_def uh_rd_def uh_put_def)

lemma uh_like_put: "uh_space s \<Longrightarrow> uh_like s (uh_put k v s)"
  by (simp add: uh_like_def uh_space_def uh_put_def)

interpretation uheap: chunk_heap uh_space "\<lambda>s. unat (uh_size s)" uh_rd uh_put uh_like uh_addr uh_load uh_set_size uh_set_used
  "\<lambda>a s. s\<lparr>uh_threshold := a\<rparr>"
proof
  show "uh_set_size (uh_addr k) n s = Inr (uh_put k (mk_hdr n (hdr_used (uh_rd s k))) s)"
    "uh_set_used (uh_addr k) b s = Inr (uh_put k (mk_hdr (hdr_size (uh_rd s k)) b) s)"
    if "uh_space s" "k < unat (uh_size s)" for s k n b
    by (simp_all add: uh_set_size_def uh_set_used_def uh_access [OF that])
qed (simp_all add: uh_access uh_like_put, auto simp: uh_space_def uh_addr_def uh_like_def uh_rd_def uh_put_def)

text \<open>Making the heap larger.\<close>

lemma uh_change_size_ok:
  assumes sp: "uh_space s" and new: "unat n \<le> 536870912" "unat (uh_size s) < unat n"
    and room: "heap_pages (unat n) - heap_pages (unat (uh_size s)) \<le> uh_free s"
  shows "\<exists>t. uh_change_size n s = Inr t \<and> uh_space t \<and> uh_size t = n \<and>
    uh_free t = uh_free s - (heap_pages (unat n) - heap_pages (unat (uh_size s))) \<and> (\<forall>k<unat (uh_size s). uh_rd t k = uh_rd s k)"
proof -
  let ?o = "CEIL_DIV (uh_brk s) 0x1000" and ?n = "CEIL_DIV (USER_HEAP_START + n) 0x1000"
  let ?a = "heap_pages (unat (uh_size s))" and ?b = "heap_pages (unat n)"
  have st: "uh_start s = USER_HEAP_START" using sp by (simp add: uh_space_def)
  have uo: "unat ?o = 131072 + ?a" using page_top [of "uh_size s"] sp by (simp add: uh_space_def)
  have un: "unat ?n = 131072 + ?b" using page_top [OF new(1)] .
  have ab: "?a \<le> ?b" "?b \<le> 131072" using new by (simp_all add: heap_pages_def div_le_mono)
  have sl: "?o <s ?n \<longleftrightarrow> ?a < ?b" "?n <s ?o \<longleftrightarrow> ?b < ?a"
    unfolding word_sless_alt using ab by (simp_all add: sint_small uo un)
  have gt: "USER_HEAP_START + n > USER_HEAP_START"
    unfolding word_less_nat_alt using new by (simp add: USER_HEAP_START_def unat_add_small)
  have first: "unat (?o - CEIL_DIV USER_HEAP_START 0x1000) = ?a" by (rule mapped_pages [OF sp])
  show ?thesis
  proof (cases "?a < ?b")
    case True
    have "?o \<le> ?n" unfolding word_le_nat_alt uo un using True by simp
    then have num: "unat (?n - ?o) = ?b - ?a" by (simp add: unat_sub uo un)
    let ?w = "\<lambda>i. if ?a \<le> i div 1024 \<and> i div 1024 < ?a + (?b - ?a) then 0 else uh_words s i"
    let ?t = "s\<lparr>uh_words := ?w, uh_free := uh_free s - (?b - ?a), uh_brk := USER_HEAP_START + n, uh_size := n\<rparr>"
    have "uh_change_size n s = Inr ?t"
      using True gt room unfolding uh_change_size_def uh_set_end_def st Let_def sl(1) num first by simp
    moreover have "uh_rd ?t k = uh_rd s k" if "k < unat (uh_size s)" for k
    proof -
      have "k div 4 div 1024 = k div 4096" by (simp add: div_mult2_eq [symmetric])
      moreover have "k div 4096 < ?a" using that by (simp add: heap_pages_def div_less_iff_less_mult)
      ultimately show ?thesis by (simp add: uh_rd_def)
    qed
    moreover have "uh_space ?t" using new(1) st by (simp add: uh_space_def)
    ultimately show ?thesis by (intro exI [of _ ?t]) simp
  next
    case False
    then have eq: "?b - ?a = 0" "\<not> ?b < ?a" using ab by simp_all
    let ?t = "s\<lparr>uh_brk := USER_HEAP_START + n, uh_size := n\<rparr>"
    have "uh_change_size n s = Inr ?t"
      using False gt eq(2) unfolding uh_change_size_def uh_set_end_def st Let_def sl by simp
    moreover have "uh_space ?t" using new(1) st by (simp add: uh_space_def)
    ultimately show ?thesis using eq by (intro exI [of _ ?t]) (simp add: uh_rd_def)
  qed
qed

lemma uh_addr_simps: "uh_addr p + of_nat n = uh_addr (p + n)" "uh_addr p + HEADER = uh_addr (p + 16)"
  by (simp_all add: uh_addr_def HEADER_def)

lemma uh_end:
  assumes "uh_space s"
  shows "uh_start s + uh_size s = uh_addr (unat (uh_size s))"
  using assms by (simp add: uh_space_def uh_addr_def)

lemma uh_ensure:
  assumes sp: "uh_space s" and b: "p + n + 16 \<le> lim" "lim \<le> 536870912" and room: "uh_room lim s"
  shows "\<exists>t. (if uh_addr p + of_nat n + HEADER > uh_start s + uh_size s
      then uh_change_size (uh_addr p + of_nat n + HEADER - uh_start s) s else Inr s) = Inr t \<and>
    uh_space t \<and> p + n + 16 \<le> unat (uh_size t) \<and> unat (uh_size s) \<le> unat (uh_size t) \<and> uh_room lim t \<and>
    (\<forall>k<unat (uh_size s). uh_rd t k = uh_rd s k)"
proof -
  have a: "uh_addr p + of_nat n + HEADER = uh_addr (p + n + 16)" by (simp only: uh_addr_simps)
  have bb: "p + n + 16 \<le> 536870912" and sz: "unat (uh_size s) \<le> 536870912" using b sp by (simp_all add: uh_space_def)
  have cmp: "uh_addr p + of_nat n + HEADER > uh_start s + uh_size s \<longleftrightarrow> unat (uh_size s) < p + n + 16"
    unfolding a uh_end [OF sp] word_less_nat_alt unat_uh_addr [OF bb] unat_uh_addr [OF sz] by linarith
  have d: "uh_addr p + of_nat n + HEADER - uh_start s = of_nat (p + n + 16)"
    unfolding a using sp by (simp add: uh_addr_def uh_space_def)
  show ?thesis
  proof (cases "unat (uh_size s) < p + n + 16")
    case False
    with cmp sp room show ?thesis by auto
  next
    case True
    have un: "unat (of_nat (p + n + 16) :: u32) = p + n + 16" using bb by (intro unat_of_nat_small) simp
    have pg: "heap_pages (unat (uh_size s)) \<le> heap_pages (p + n + 16)" "heap_pages (p + n + 16) \<le> heap_pages lim"
      using True b(1) by (simp_all add: heap_pages_def div_le_mono)
    have un': "unat (of_nat (p + n + 16) :: u32) \<le> 536870912" "unat (uh_size s) < unat (of_nat (p + n + 16) :: u32)"
      using bb True by (simp_all only: un)
    have room': "heap_pages (p + n + 16) - heap_pages (unat (uh_size s)) \<le> uh_free s"
      using room pg unfolding uh_room_def by linarith
    obtain t where t: "uh_change_size (of_nat (p + n + 16)) s = Inr t" "uh_space t" "uh_size t = of_nat (p + n + 16)"
      "uh_free t = uh_free s - (heap_pages (p + n + 16) - heap_pages (unat (uh_size s)))" "\<forall>k<unat (uh_size s). uh_rd t k = uh_rd s k"
      using uh_change_size_ok [OF sp un', unfolded un, OF room'] by blast
    have size: "unat (uh_size t) = p + n + 16" by (simp only: t(3) un)
    have "uh_room lim t" using t(4) room pg unfolding uh_room_def size by linarith
    moreover have "(if uh_addr p + of_nat n + HEADER > uh_start s + uh_size s
      then uh_change_size (uh_addr p + of_nat n + HEADER - uh_start s) s else Inr s) = Inr t"
      unfolding d using True cmp t(1) by (simp only: if_True)
    ultimately show ?thesis using True t(2,5) size by (intro exI [of _ t]) simp
  qed
qed

interpretation ualloc: chunk_allocator uh_space "\<lambda>s. unat (uh_size s)" uh_rd uh_put uh_like uh_addr uh_load uh_set_size uh_set_used
  "\<lambda>a s. s\<lparr>uh_threshold := a\<rparr>" uh_use_chunk
  "\<lambda>pos n s. if pos + n + HEADER > uh_start s + uh_size s then uh_change_size (pos + n + HEADER - uh_start s) s else Inr s"
  uh_search "\<lambda>a s. if a > uh_threshold s then s\<lparr>uh_threshold := a\<rparr> else s" uh_room
proof
  show "uh_use_chunk pos n s =
       and_then (uh_set_used pos True s) (\<lambda>s1.
       and_then (uh_load pos s1) (\<lambda>w.
       and_then
         (if hdr_size w = 0 then
            and_then (uh_set_size pos n s1) (\<lambda>s2.
            and_then (uh_set_size (pos + n) 0 s2) (\<lambda>s3.
            uh_set_used (pos + n) False s3))
          else
            (let diff = hdr_size w - n in
             if 8 \<le>s diff then
               and_then (uh_set_size (pos + n) diff s1) (\<lambda>s2.
               and_then (uh_set_used (pos + n) False s2) (\<lambda>s3.
               uh_set_size pos n s3))
             else Inr s1)) (\<lambda>s4.
       Inr (pos + HEADER, if pos + HEADER > uh_threshold s4 then s4\<lparr>uh_threshold := pos + HEADER\<rparr> else s4))))"
    for pos n s by (simp only: uh_use_chunk_def Let_def)
  show "uh_like s (if a > uh_threshold s then s\<lparr>uh_threshold := a\<rparr> else s)" if "uh_space s" for s a
    using that by (simp add: uh_like_def uh_space_def)
  show "uh_rd (if a > uh_threshold s then s\<lparr>uh_threshold := a\<rparr> else s) k = uh_rd s k" for s a k by (simp add: uh_rd_def)
qed (rule uh_search.simps, rule uh_ensure)

interpretation ucoll: chunk_collector uh_space "\<lambda>s. unat (uh_size s)" uh_rd uh_put uh_like uh_addr uh_load uh_set_size uh_set_used
  "\<lambda>a s. s\<lparr>uh_threshold := a\<rparr>" uh_swallow uh_merge "\<lambda>pos s. pos \<ge> uh_start s + uh_size s"
proof
  show "\<not> uh_addr k \<ge> uh_start s + uh_size s" if "uh_space s" and "k < unat (uh_size s)" for s k
  proof -
    have sz: "unat (uh_size s) \<le> 536870912" using that(1) by (simp add: uh_space_def)
    have "k \<le> 536870912" using that(2) sz by simp
    then show ?thesis unfolding uh_end [OF that(1)] word_le_nat_alt unat_uh_addr [OF sz] using that(2) by (simp add: unat_uh_addr)
  qed
qed (rule uh_swallow.simps, rule uh_merge.simps)

section \<open>Properties\<close>

text \<open>The words of the heap spell the chain \<open>cs\<close>.\<close>

definition user_chain :: "user_heap \<Rightarrow> chunks \<Rightarrow> bool" where
  "user_chain s cs \<longleftrightarrow> uh_space s \<and> (\<forall>c\<in>set cs. chunk_ok c) \<and> hdrs (uh_rd s) 0 cs \<and> uh_rd s (total cs) = 0 \<and>
     total cs + 16 \<le> unat (uh_size s)"

lemma user_chain_iff: "user_chain s cs \<longleftrightarrow> uheap.chain s cs"
  by (simp add: user_chain_def uheap.chain_def)

lemma os_malloc_search:
  assumes "user_chain s cs" and "unat bytes + 31 < 4294967296"
  shows "os_malloc bytes s = uh_search (of_nat (chunk_size (unat bytes))) (uh_addr 0) s"
  using real_size_eq [OF assms(2)] assms(1) by (simp add: os_malloc_def user_chain_def uh_space_def uh_addr_def)

lemma os_free_merge:
  assumes "user_chain s cs" and "(q, m) \<in> used_blocks 0 cs"
  shows "os_free (uh_addr q + HEADER) s = run_then (Some (uh_set_used (uh_addr q) False s)) (uh_merge (uh_addr 0))"
proof -
  have ch: "uheap.chain s cs" using assms(1) by (simp add: user_chain_iff)
  obtain pre post where "cs = pre @ (m, True) # post" and q: "q = total pre" using used_block_split [OF assms(2)] by auto
  then have b: "q < unat (uh_size s)" using uheap.chain_at(6) [of s pre m True post] ch by simp
  have sp: "uh_space s" using assms(1) by (simp add: user_chain_def)
  have "uh_addr q + HEADER - HEADER = uh_addr q" by simp
  moreover have "uh_start s = uh_addr 0" using sp by (simp add: uh_space_def uh_addr_def)
  ultimately show ?thesis using ucoll.block_load [OF ch assms(2)] uheap.set_used [OF sp b]
    by (simp add: os_free_def uh_put_def)
qed

text \<open>C37: The allocator of the programs is correct. On a heap whose words spell a chain, for a request that
  fits below 512 MiB and for whose pages the kernel has frames, \<open>os_malloc\<close> returns the address of
  a new block by first fit: it has room for the request and overlaps no block in use, and the
  contents of all blocks are kept. \<open>os_free\<close> of a block in use returns, takes exactly this block
  away, leaves no two free neighbours and keeps the contents of the others.\<close>

theorem user_heap_correct:
  assumes "user_chain s cs" and "n = chunk_size (unat bytes)" and "total cs + n + 16 \<le> 536870912" and "uh_room (total cs + n + 16) s"
    and "(q, ds) = first_fit n 0 cs" and "(p, m) \<in> used_blocks 0 cs"
  shows "(\<exists>t. os_malloc bytes s = Some (Inr (uh_addr q + HEADER, t)) \<and> user_chain t ds \<and>
      used_blocks 0 ds = insert (q, n) (used_blocks 0 cs) \<and> unat bytes + 16 \<le> n \<and>
      (\<forall>(o', l)\<in>used_blocks 0 cs. (o' + l \<le> q \<or> q + n \<le> o') \<and> (\<forall>k. o' + 16 \<le> k \<longrightarrow> k < o' + l \<longrightarrow> uh_rd t k = uh_rd s k))) \<and>
    (\<exists>t es. os_free (uh_addr p + HEADER) s = Some (Inr t) \<and> user_chain t es \<and> compact es \<and>
      used_blocks 0 es = used_blocks 0 cs - {(p, m)} \<and>
      (\<forall>(o', l)\<in>used_blocks 0 es. \<forall>k. o' \<le> k \<longrightarrow> k < o' + l \<longrightarrow> uh_rd t k = uh_rd s k))"
proof -
  have ch: "uheap.chain s cs" using assms(1) by (simp add: user_chain_iff)
  have "unat bytes + 31 < 4294967296" using assms(2,3) chunk_size_facts(2) [of "unat bytes"] by linarith
  then have eq: "os_malloc bytes s = uh_search (of_nat n) (uh_addr 0) s" using os_malloc_search [OF assms(1)] assms(2) by simp
  note free = ucoll.free_correct [OF ch assms(6)]
  show ?thesis unfolding eq os_free_merge [OF assms(1,6)] user_chain_iff
  proof
    show "\<exists>t. uh_search (of_nat n) (uh_addr 0) s = Some (Inr (uh_addr q + HEADER, t)) \<and> uheap.chain t ds \<and>
      used_blocks 0 ds = insert (q, n) (used_blocks 0 cs) \<and> unat bytes + 16 \<le> n \<and>
      (\<forall>(o', l)\<in>used_blocks 0 cs. (o' + l \<le> q \<or> q + n \<le> o') \<and> (\<forall>k. o' + 16 \<le> k \<longrightarrow> k < o' + l \<longrightarrow> uh_rd t k = uh_rd s k))"
      by (rule ualloc.search_correct [OF ch assms(2,3,4,5)])
    show "\<exists>t es. run_then (Some (uh_set_used (uh_addr p) False s)) (uh_merge (uh_addr 0)) = Some (Inr t) \<and> uheap.chain t es \<and>
      compact es \<and> used_blocks 0 es = used_blocks 0 cs - {(p, m)} \<and>
      (\<forall>(o', l)\<in>used_blocks 0 es. \<forall>k. o' \<le> k \<longrightarrow> k < o' + l \<longrightarrow> uh_rd t k = uh_rd s k)"
      using free by blast
  qed
qed

text \<open>A program after its start: a heap of one page, and a first block of 100 bytes.\<close>

definition example_uheap :: user_heap where
  "example_uheap = \<lparr>uh_words = \<lambda>_. 7, uh_brk = USER_HEAP_START, uh_free = 10, uh_start = 0, uh_size = 0, uh_threshold = 0,
     uh_initialized = False\<rparr>"

lemma malloc_init_ok:
  assumes "uh_brk s = USER_HEAP_START" and "16 \<le> unat n" "unat n \<le> 536870912" and "heap_pages (unat n) \<le> uh_free s"
  shows "\<exists>t. malloc_init n s = Inr t \<and> user_chain t [] \<and> uh_size t = n \<and> uh_free t = uh_free s - heap_pages (unat n)"
proof -
  let ?s1 = "s\<lparr>uh_start := USER_HEAP_START, uh_size := 0, uh_threshold := 0, uh_initialized := True\<rparr>"
  have z: "heap_pages 0 = 0" by (simp add: heap_pages_def)
  have "uh_space ?s1" using assms(1) by (simp add: uh_space_def)
  from uh_change_size_ok [OF this assms(3)] assms(2,4) obtain t where
    t: "uh_change_size n ?s1 = Inr t" "uh_space t" "uh_size t = n" "uh_free t = uh_free s - heap_pages (unat n)" by (auto simp: z)
  have b: "0 < unat (uh_size t)" using assms(2) t(3) by simp
  have st: "uh_start t = uh_addr 0" using t(2) by (simp add: uh_space_def uh_addr_def)
  have "malloc_init n s = Inr (uh_put 0 0 t)" using t(1) st uh_access(2) [OF t(2) b] by (simp add: malloc_init_def Let_def)
  moreover have "user_chain (uh_put 0 0 t) []"
    using uh_like_put [OF t(2), of 0 0] assms(2) t(3) by (simp add: user_chain_def uh_like_def uh_rd_def uh_put_def)
  ultimately show ?thesis using t(3,4) by (intro exI [of _ "uh_put 0 0 t"]) (simp add: uh_put_def)
qed

theorem user_heap_correct_witness:
  "\<exists>s t u. malloc_init 0x1000 example_uheap = Inr s \<and> os_malloc 100 s = Some (Inr (uh_addr 0 + HEADER, t)) \<and>
     os_free (uh_addr 0 + HEADER) t = Some (Inr u) \<and> user_chain u []"
proof -
  have n: "chunk_size (unat (100 :: u32)) = 128" by (simp add: chunk_size_def)
  have pg: "heap_pages 4096 = 1" "heap_pages 144 = 1" "heap_pages 272 = 1" by (simp_all add: heap_pages_def)
  obtain s where s: "malloc_init 0x1000 example_uheap = Inr s" "user_chain s []" "uh_size s = 0x1000" "uh_free s = 9"
    using malloc_init_ok [of example_uheap "0x1000"] pg by (auto simp: example_uheap_def)
  have "uheap.chain s []" "uh_room (total [] + 128 + 16) s" using s pg by (simp_all add: user_chain_iff uh_room_def)
  then obtain t where t: "uh_search (of_nat 128) (uh_addr 0) s = Some (Inr (uh_addr 0 + HEADER, t))" "uheap.chain t [(128, True)]"
    using ualloc.search_correct [of s "[]" 128 100 0 "[(128, True)]"] by (auto simp: chunk_size_def)
  have m: "os_malloc 100 s = Some (Inr (uh_addr 0 + HEADER, t))" using os_malloc_search [OF s(2), of 100] t(1) n by simp
  have c: "user_chain t [(128, True)]" using t(2) by (simp add: user_chain_iff)
  have "0 < heap_pages (unat (uh_size t))" using c by (simp add: user_chain_def heap_pages_def div_greater_zero_iff)
  then have r: "uh_room (total [(128, True)] + 128 + 16) t" by (simp add: uh_room_def pg)
  from user_heap_correct [OF c, of 128 100 128 "[(128, True), (128, True)]" 0 128] n r obtain u es where
    u: "os_free (uh_addr 0 + HEADER) t = Some (Inr u)" "user_chain u es" "compact es" "used_blocks 0 es = {}" by auto
  have "es = []"
    using u(3,4) by (cases es rule: compact.cases) (auto split: if_splits)
  then show ?thesis using s(1) m u(1,2) by blast
qed

end
