(* ===== verification/Waiting.thy ===== *)
theory Waiting
  imports Clock Input Tasks
begin

text \<open>
  Code that waits in a loop: for the controller of the keyboard and the mouse (the port accesses of
  \<open>kernel/driver/mouse.c\<close> and \<open>keyboard.c\<close>), and \<open>sleep\<close> (\<open>kernel/time.c\<close>).
\<close>

section \<open>The mouse behind the controller\<close>

text \<open>\<open>while (((inb(0x64) & mask) == waiting) && --try_count > 0);\<close> with the counter \<open>n + 1\<close>.\<close>

fun wait_status :: "(u8 \<Rightarrow> bool) \<Rightarrow> device \<Rightarrow> nat \<Rightarrow> 'a ports_scheme \<Rightarrow> 'a ports_scheme" where
  "wait_status busy dev 0 s = snd (port_in dev 0x64 s)"
| "wait_status busy dev (Suc n) s =
     (let (v, s1) = port_in dev 0x64 s in if busy v then wait_status busy dev n s1 else s1)"

definition TRY_COUNT :: nat where "TRY_COUNT = 1000"

definition wait_write :: "device \<Rightarrow> 'a ports_scheme \<Rightarrow> 'a ports_scheme" where
  "wait_write dev = wait_status (\<lambda>v. v AND 2 \<noteq> 0) dev (TRY_COUNT - 1)"

definition wait_read :: "device \<Rightarrow> 'a ports_scheme \<Rightarrow> 'a ports_scheme" where
  "wait_read dev = wait_status (\<lambda>v. v AND 0x20 = 0) dev (TRY_COUNT - 1)"

definition write_mouse :: "device \<Rightarrow> u8 \<Rightarrow> 'a ports_scheme \<Rightarrow> 'a ports_scheme" where
  "write_mouse dev d s = port_out 0x60 d (wait_write dev (port_out 0x64 0xD4 (wait_write dev s)))"

definition read_mouse :: "device \<Rightarrow> 'a ports_scheme \<Rightarrow> u8 \<times> 'a ports_scheme" where
  "read_mouse dev s = port_in dev 0x60 (wait_read dev s)"

text \<open>The commands of \<open>init_mouse\<close>; its variables are \<open>Input.init_mouse\<close>.\<close>

definition start_mouse :: "device \<Rightarrow> 'a ports_scheme \<Rightarrow> 'a ports_scheme" where
  "start_mouse dev s =
     (let s1 = port_out 0x64 0x20 (wait_write dev s);
          (status, s2) = port_in dev 0x60 s1;
          s3 = port_out 0x60 (status OR 2) (port_out 0x64 0x60 s2)
      in write_mouse dev 0xF4 (port_out 0x64 0xA8 s3))"

text \<open>\<open>handle_mouse_interrupt\<close> with its port accesses.\<close>

definition mouse_interrupt :: "device \<Rightarrow> 'b ports_scheme \<Rightarrow> 'a gui_state_scheme \<Rightarrow> ('b ports_scheme \<times> 'a gui_state_scheme) res" where
  "mouse_interrupt dev p s =
     (let (d, p1) = read_mouse dev p in and_then (handle_mouse_interrupt d s) (\<lambda>s1. Inr (p1, s1)))"

text \<open>Setting the sample rate, which \<open>set_wheel_mode\<close> would use: \<open>outb\<close> has its arguments the wrong way round.\<close>

partial_function (option) wait_ack :: "device \<Rightarrow> 'a ports_scheme \<Rightarrow> 'a ports_scheme option" where
  "wait_ack dev s = (let (v, s1) = port_in dev 0x60 s in if v \<noteq> 0xFA then wait_ack dev s1 else Some s1)"

definition set_sample_rate :: "device \<Rightarrow> u8 \<Rightarrow> 'a ports_scheme \<Rightarrow> 'a ports_scheme option" where
  "set_sample_rate dev sample_rate s =
     Option.bind (wait_ack dev (wait_read dev (port_out 0xF3 0x60 (port_out 0xD4 0x64 s)))) (\<lambda>s1.
     wait_ack dev (wait_read dev (port_out (ucast sample_rate) 0x60 (port_out 0xD4 0x64 s1))))"

definition set_wheel_mode :: "device \<Rightarrow> 'a ports_scheme \<Rightarrow> 'a ports_scheme option" where
  "set_wheel_mode dev s =
     Option.bind (set_sample_rate dev 200 s) (\<lambda>s1.
     Option.bind (set_sample_rate dev 100 s1) (\<lambda>s2.
     Option.bind (set_sample_rate dev 80 s2) (\<lambda>s3.
     Some (snd (read_mouse dev (write_mouse dev 0xF2 s3))))))"

section \<open>The keyboard behind the controller\<close>

partial_function (option) wait_key :: "device \<Rightarrow> 'a ports_scheme \<Rightarrow> 'a ports_scheme option" where
  "wait_key dev s = (let (v, s1) = port_in dev 0x64 s in if v AND 1 = 0 then wait_key dev s1 else Some s1)"

definition read_scancode :: "device \<Rightarrow> 'a ports_scheme \<Rightarrow> (u8 \<times> 'a ports_scheme) option" where
  "read_scancode dev s = map_option (port_in dev 0x60) (wait_key dev s)"

section \<open>Sleeping\<close>

text \<open>The condition reads the volatile counter twice; \<open>readings\<close> are the values it has then. The comparison
  is unsigned because the argument is.\<close>

partial_function (option) sleep_loop :: "u64 \<Rightarrow> (nat \<Rightarrow> u64) \<Rightarrow> nat \<Rightarrow> nat option" where
  "sleep_loop sleep_millis readings i =
     (if readings i \<le> sleep_millis + readings (i + 1) then sleep_loop sleep_millis readings (i + 2) else Some i)"

definition sleep :: "u32 \<Rightarrow> u32 \<Rightarrow> u64 \<Rightarrow> (nat \<Rightarrow> u64) \<Rightarrow> 'a kern_state_scheme \<Rightarrow> 'a kern_state_scheme run" where
  "sleep isr_exit sleep_task sleep_millis readings s =
     run_then (create_kernel_task isr_exit sleep_task s) (\<lambda>(tid, s1).
     case sleep_loop sleep_millis readings 0 of None \<Rightarrow> None | Some i \<Rightarrow> kill_task tid s1)"

section \<open>What the waits do\<close>

lemma port_simps [simp]:
  "writes (snd (port_in dev p s)) = writes s" "writes (port_out p v s) = writes s @ [(p, v)]"
  "reads (snd (port_in dev p s)) = reads s + 1" "reads (port_out p v s) = reads s"
  by (simp_all add: port_in_def port_out_def)

lemma wait_status_bounds:
  "writes (wait_status busy dev n s) = writes s"
  "reads (wait_status busy dev n s) \<le> reads s + n + 1" "reads s < reads (wait_status busy dev n s)"
proof (induction n arbitrary: s)
  case (Suc n)
  { case 1 show ?case using Suc.IH(1) by (simp add: case_prod_unfold Let_def) }
  { case 2 show ?case using Suc.IH(2) [of "snd (port_in dev 0x64 s)"] by (simp add: case_prod_unfold Let_def) }
  { case 3 show ?case using Suc.IH(3) [of "snd (port_in dev 0x64 s)"] by (simp add: case_prod_unfold Let_def) }
qed simp_all

text \<open>Whatever the controller answers, the start of the mouse writes the same commands, after at most 3001 reads.\<close>

lemma start_mouse_commands:
  "\<exists>status. writes (start_mouse dev s) =
     writes s @ [(0x64, 0x20), (0x64, 0x60), (0x60, status OR 2), (0x64, 0xA8), (0x64, 0xD4), (0x60, 0xF4)] \<and>
   reads (start_mouse dev s) \<le> reads s + 3001"
proof -
  let ?s1 = "port_out 0x64 0x20 (wait_write dev s)"
  obtain status s2 where p: "port_in dev 0x60 ?s1 = (status, s2)" by fastforce
  have s2: "writes s2 = writes s @ [(0x64, 0x20)]" "reads s2 \<le> reads s + 1001"
    using arg_cong [OF p, of snd] wait_status_bounds(1,2) [of "\<lambda>v. v AND 2 \<noteq> 0" dev 999 s]
    by (auto simp: port_in_def port_out_def wait_write_def TRY_COUNT_def)
  let ?s4 = "port_out 0x64 0xA8 (port_out 0x60 (status OR 2) (port_out 0x64 0x60 s2))"
  have st: "start_mouse dev s = write_mouse dev 0xF4 ?s4" by (simp add: start_mouse_def p Let_def)
  have w: "writes (wait_write dev t) = writes t" "reads (wait_write dev t) \<le> reads t + 1000" for t :: "'a ports_scheme"
    using wait_status_bounds(1,2) [of "\<lambda>v. v AND 2 \<noteq> 0" dev 999 t] by (simp_all add: wait_write_def TRY_COUNT_def)
  have "reads (start_mouse dev s) \<le> reads ?s4 + 2000"
    unfolding st write_mouse_def using w(2) [of ?s4] w(2) [of "port_out 0x64 0xD4 (wait_write dev ?s4)"] by simp
  moreover have "writes (start_mouse dev s) = writes ?s4 @ [(0x64, 0xD4), (0x60, 0xF4)]"
    by (simp add: st write_mouse_def w(1))
  ultimately show ?thesis using s2 by (intro exI [of _ status]) simp
qed

text \<open>Sleeping does not end: as long as the sum does not wrap and the counter does not run backwards, the condition
  stays true.\<close>

lemma sleep_loop_ends:
  assumes "sleep_loop m f i = Some j"
  shows "\<exists>k\<ge>i. \<not> f k \<le> m + f (k + 1)"
  using assms
proof (induction rule: sleep_loop.raw_induct [rotated, consumes 1, case_names step])
  case (step lp m f i j)
  show ?case
  proof (cases "f i \<le> m + f (i + 1)")
    case True
    with step(2) have "lp m f (i + 2) = Some j" by simp
    from step(1) [OF this] show ?thesis by (meson add_leD1)
  qed auto
qed

lemma sleep_never_returns:
  assumes "\<And>i. f i \<le> f (i + 1)" and "\<And>i. unat m + unat (f i) < 2 ^ 64"
  shows "sleep isr_exit func m f s = None \<or> (\<exists>e. sleep isr_exit func m f s = Some (Inl e))"
proof -
  have "sleep_loop m f 0 = None"
  proof (rule ccontr)
    assume "sleep_loop m f 0 \<noteq> None"
    then obtain j k where "\<not> f k \<le> m + f (k + 1)" using sleep_loop_ends by blast
    moreover have "unat (m + f (k + 1)) = unat m + unat (f (k + 1))" using assms(2) [of "k + 1"] by (simp add: unat_add_small)
    ultimately show False using assms(1) [of k] by (simp add: word_le_nat_alt)
  qed
  then show ?thesis
    by (cases "create_kernel_task isr_exit func s") (auto simp: sleep_def run_then_def split: sum.splits)
qed

end
