(* ===== verification/User_Api.thy ===== *)
theory User_Api
  imports User_Calls Libc_Printf Sgfx
begin

text \<open>
  The functions of the user library around the stubs (\<open>userspace/api/src\<close>: \<open>basics.c\<close>, \<open>gui.c\<close>, \<open>io.c\<close>,
  \<open>shmem.c\<close>, \<open>heap.c\<close>, \<open>tasks.c\<close>, \<open>events.c\<close>, \<open>start.c\<close>), the task manager (\<open>userspace/tasks/tasks.c\<close>) and the test bed (\<open>userspace/testbed\<close>).
  \<open>invoke\<close> executes a stub: it gives the value the system call returns and the next state of the
  machine, or \<open>None\<close> if the call does not return.
\<close>

section \<open>Calls\<close>

type_synonym 'm invoke = "(regs \<Rightarrow> regs) \<Rightarrow> 'm \<Rightarrow> (u32 \<times> 'm) option"

definition os_get_task_id :: "'m invoke \<Rightarrow> 'm \<Rightarrow> (u32 \<times> 'm) option" where "os_get_task_id invoke = invoke user_get_task_id"
definition os_exit :: "'m invoke \<Rightarrow> 'm \<Rightarrow> (u32 \<times> 'm) option" where "os_exit invoke = invoke user_exit"
definition os_print :: "'m invoke \<Rightarrow> u32 \<Rightarrow> 'm \<Rightarrow> (u32 \<times> 'm) option" where "os_print invoke str = invoke (user_print str)"
definition os_exec :: "'m invoke \<Rightarrow> u32 \<Rightarrow> 'm \<Rightarrow> (u32 \<times> 'm) option" where "os_exec invoke path = invoke (user_exec path)"

definition os_create_window :: "'m invoke \<Rightarrow> u32 \<Rightarrow> u32 \<Rightarrow> u32 \<Rightarrow> 'm \<Rightarrow> (u32 \<times> 'm) option" where
  "os_create_window invoke width height flags = invoke (user_create_window width height flags)"
definition os_resize_window :: "'m invoke \<Rightarrow> u32 \<Rightarrow> u32 \<Rightarrow> u32 \<Rightarrow> 'm \<Rightarrow> (u32 \<times> 'm) option" where
  "os_resize_window invoke wid width height = invoke (user_resize_window wid width height)"
definition os_destroy_window :: "'m invoke \<Rightarrow> u32 \<Rightarrow> 'm \<Rightarrow> (u32 \<times> 'm) option" where
  "os_destroy_window invoke wid = invoke (user_destroy_window wid)"
definition os_swap_window_buffers :: "'m invoke \<Rightarrow> u32 \<Rightarrow> 'm \<Rightarrow> (u32 \<times> 'm) option" where
  "os_swap_window_buffers invoke wid = invoke (user_swap_window_buffers wid)"
definition os_set_window_title :: "'m invoke \<Rightarrow> u32 \<Rightarrow> u32 \<Rightarrow> 'm \<Rightarrow> (u32 \<times> 'm) option" where
  "os_set_window_title invoke wid text_addr = invoke (user_set_window_title wid text_addr)"

text \<open>Two calls: the shared memory of the window, and where it is mapped.\<close>

definition os_map_window_framebuffer :: "'m invoke \<Rightarrow> u32 \<Rightarrow> 'm \<Rightarrow> (u32 \<times> 'm) option" where
  "os_map_window_framebuffer invoke wid m =
     Option.bind (invoke (user_get_window_buffer wid) m) (\<lambda>(oid, m1). invoke (user_map_shared_mem oid) m1)"

text \<open>The results that are always 0.\<close>

definition zero_result :: "(u32 \<times> 'm) option \<Rightarrow> (u32 \<times> 'm) option" where
  "zero_result r = map_option (\<lambda>(v, m). (0, m)) r"

definition os_open_file :: "'m invoke \<Rightarrow> u32 \<Rightarrow> 'm \<Rightarrow> (u32 \<times> 'm) option" where "os_open_file invoke path = invoke (user_open_file path)"
definition os_close_file :: "'m invoke \<Rightarrow> u32 \<Rightarrow> 'm \<Rightarrow> (u32 \<times> 'm) option" where
  "os_close_file invoke fd m = zero_result (invoke (user_close_file fd) m)"
definition os_read_file :: "'m invoke \<Rightarrow> u32 \<Rightarrow> u32 \<Rightarrow> u32 \<Rightarrow> 'm \<Rightarrow> (u32 \<times> 'm) option" where
  "os_read_file invoke fd buffer num_bytes = invoke (user_read_file fd buffer num_bytes)"
definition os_get_file_size :: "'m invoke \<Rightarrow> u32 \<Rightarrow> 'm \<Rightarrow> (u32 \<times> 'm) option" where "os_get_file_size invoke fd = invoke (user_get_file_size fd)"
definition os_open_dir :: "'m invoke \<Rightarrow> u32 \<Rightarrow> 'm \<Rightarrow> (u32 \<times> 'm) option" where "os_open_dir invoke path = invoke (user_open_dir path)"
definition os_close_dir :: "'m invoke \<Rightarrow> 'm \<Rightarrow> (u32 \<times> 'm) option" where "os_close_dir invoke = invoke user_close_dir"
definition os_next_file_in_dir :: "'m invoke \<Rightarrow> u32 \<Rightarrow> 'm \<Rightarrow> (u32 \<times> 'm) option" where
  "os_next_file_in_dir invoke info = invoke (user_next_file_in_dir info)"

definition os_create_shared_mem :: "'m invoke \<Rightarrow> u32 \<Rightarrow> 'm \<Rightarrow> (u32 \<times> 'm) option" where
  "os_create_shared_mem invoke bytes = invoke (user_create_shared_mem bytes)"
definition os_destroy_shared_mem :: "'m invoke \<Rightarrow> u32 \<Rightarrow> 'm \<Rightarrow> (u32 \<times> 'm) option" where
  "os_destroy_shared_mem invoke oid m = zero_result (invoke (user_destroy_shared_mem oid) m)"
definition os_shared_mem_exists :: "'m invoke \<Rightarrow> u32 \<Rightarrow> 'm \<Rightarrow> (u32 \<times> 'm) option" where
  "os_shared_mem_exists invoke oid = invoke (user_shared_mem_exists oid)"
definition os_unmap_shared_mem :: "'m invoke \<Rightarrow> u32 \<Rightarrow> 'm \<Rightarrow> (u32 \<times> 'm) option" where
  "os_unmap_shared_mem invoke oid = invoke (user_unmap_shared_mem oid)"
definition os_map_shared_mem :: "'m invoke \<Rightarrow> u32 \<Rightarrow> 'm \<Rightarrow> (u32 \<times> 'm) option" where
  "os_map_shared_mem invoke oid = invoke (user_map_shared_mem oid)"

definition os_get_heap_start :: "'m invoke \<Rightarrow> 'm \<Rightarrow> (u32 \<times> 'm) option" where "os_get_heap_start invoke = invoke user_get_heap_start"
definition os_get_heap_end :: "'m invoke \<Rightarrow> 'm \<Rightarrow> (u32 \<times> 'm) option" where "os_get_heap_end invoke = invoke user_get_heap_end"
definition os_set_heap_end :: "'m invoke \<Rightarrow> u32 \<Rightarrow> 'm \<Rightarrow> (u32 \<times> 'm) option" where "os_set_heap_end invoke e = invoke (user_set_heap_end e)"
definition os_get_task_info :: "'m invoke \<Rightarrow> u32 \<Rightarrow> u32 \<Rightarrow> u32 \<Rightarrow> 'm \<Rightarrow> (u32 \<times> 'm) option" where
  "os_get_task_info invoke info_list list_max_size num_out = invoke (user_get_task_info info_list list_max_size num_out)"
definition os_set_timer_interval :: "'m invoke \<Rightarrow> u32 \<Rightarrow> u32 \<Rightarrow> 'm \<Rightarrow> (u32 \<times> 'm) option" where
  "os_set_timer_interval invoke timer_id interval_ms = invoke (user_set_timer_interval timer_id interval_ms)"
definition os_wait_for_events :: "'m invoke \<Rightarrow> 'm \<Rightarrow> (u32 \<times> 'm) option" where
  "os_wait_for_events invoke m = map_option (\<lambda>(v, m1). (1, m1)) (invoke user_wait_for_events m)"

text \<open>The start of a program: the counter of the handled events and the address of the event buffer.\<close>

definition init_user_events :: "'m invoke \<Rightarrow> 'm \<Rightarrow> ((nat \<times> u32) \<times> 'm) option" where
  "init_user_events invoke m =
     Option.bind (invoke user_get_event_buffer m) (\<lambda>(oid, m1).
     Option.bind (invoke (user_map_shared_mem oid) m1) (\<lambda>(buffer, m2). Some ((0, buffer), m2)))"

definition os_temp_init :: "'m invoke \<Rightarrow> (u32 \<Rightarrow> 'm \<Rightarrow> 'm option) \<Rightarrow> 'm \<Rightarrow> ((nat \<times> u32) \<times> 'm) option" where
  "os_temp_init invoke init_heap m =
     Option.bind (init_user_events invoke m) (\<lambda>(ev, m1). Option.bind (init_heap 0x1000 m1) (\<lambda>m2. Some (ev, m2)))"

text \<open>\<open>_start\<close>: the program \<open>main_program\<close> between the start of the library and the end of the task.\<close>

definition crt0_start :: "'m invoke \<Rightarrow> (u32 \<Rightarrow> 'm \<Rightarrow> 'm option) \<Rightarrow> ('m \<Rightarrow> 'm option) \<Rightarrow> 'm \<Rightarrow> (u32 \<times> 'm) option" where
  "crt0_start invoke init_heap main_program m =
     Option.bind (os_temp_init invoke init_heap m) (\<lambda>(ev, m1). Option.bind (main_program m1) (os_exit invoke))"

section \<open>The task manager\<close>

record task_manager =
  tm_infos :: "(u32 \<times> u32 \<times> u8 list) list"
  tm_num_entries :: int
  tm_selected :: int

definition start_task_manager :: task_manager where
  "start_task_manager = \<lparr>tm_infos = replicate 64 (0, 0, []), tm_num_entries = 0, tm_selected = - 1\<rparr>"

text \<open>\<open>update_task_info\<close> gets the tasks that the system call puts into the list of 64 entries.\<close>

definition update_task_info :: "(u32 \<times> u32 \<times> u8 list) list \<Rightarrow> task_manager \<Rightarrow> task_manager" where
  "update_task_info running t =
     t\<lparr>tm_infos := take 64 running @ drop (length (take 64 running)) (tm_infos t), tm_num_entries := int (length (take 64 running))\<rparr>"

definition tm_mouse_move :: "int \<Rightarrow> int \<Rightarrow> task_manager \<Rightarrow> task_manager" where
  "tm_mouse_move x y t =
     (let t1 = t\<lparr>tm_selected := - 1\<rparr> in
      if x < 3 \<or> x > 400 - 3 then t1
      else if y < 32 \<or> y \<ge> 32 + tm_num_entries t1 * 12 then t1
      else t1\<lparr>tm_selected := (y - 32) sdiv 12\<rparr>)"

text \<open>The reaction to an event; a click has no effect beyond the selection.\<close>

definition tm_event :: "(u32 \<times> u32 \<times> u8 list) list \<Rightarrow> event \<Rightarrow> task_manager \<Rightarrow> task_manager" where
  "tm_event running e t =
     (let t1 = (if ev_type e = EVENT_MOUSE_MOVE \<or> ev_type e = EVENT_MOUSE_CLICK
                then tm_mouse_move (sint (data0 e)) (sint (data1 e)) t else t)
      in if ev_type e = EVENT_TIMER \<and> data0 e = 0 then update_task_info running t1 else t1)"

text \<open>The entries that are drawn are always inside the list.\<close>

lemma tm_entries_inside:
  "length (tm_infos t) = 64 \<and> 0 \<le> tm_num_entries t \<and> tm_num_entries t \<le> 64 \<Longrightarrow>
   length (tm_infos (tm_event running e t)) = 64 \<and> 0 \<le> tm_num_entries (tm_event running e t) \<and> tm_num_entries (tm_event running e t) \<le> 64"
  by (auto simp: tm_event_def tm_mouse_move_def update_task_info_def Let_def)

text \<open>The line of a task, in a buffer of 128 bytes with the contents \<open>buffer\<close>: \<open>entry\<close> is its id, its state and the bytes
  of its name, \<open>name_address\<close> the pointer to them; \<open>p\<close> and \<open>bf\<close> are what the locals of \<open>tfp_format\<close> begin with.\<close>

definition tm_format :: "u8 list" where "tm_format = map of_char ''task id=%u state=%u name=%s''"

definition tm_line :: "param \<Rightarrow> u8 list \<Rightarrow> u8 list \<Rightarrow> u32 \<Rightarrow> u32 \<times> u32 \<times> u8 list \<Rightarrow> u8 list run" where
  "tm_line p bf buffer name_address entry =
     (case entry of (tid, st, nm) \<Rightarrow>
      run_then (vsnprintf (\<lambda>a. c_string nm) p bf buffer 128 tm_format [tid, st, name_address]) (\<lambda>(n, b).
      Some (c_string b)))"

definition tm_picture :: "u8 list \<Rightarrow> param \<Rightarrow> u8 list \<Rightarrow> u8 list \<Rightarrow> u32 \<Rightarrow> task_manager \<Rightarrow> graphics_context \<Rightarrow> graphics_context run" where
  "tm_picture font p bf buffer name_address t c =
     run_then (Some (sgfx_fill 0xFF000040 c)) (\<lambda>c1.
     run_then (Some (sgfx_draw_string font (map of_char ''Tasks:'') 3 5 0xFFFFFFFF c1)) (\<lambda>c2.
     for_run 0 (nat (tm_num_entries t)) (\<lambda>i d.
       run_then (Some (in_bounds i (length (tm_infos t)) (Inr (tm_infos t ! i)))) (\<lambda>entry.
       run_then (tm_line p bf buffer (name_address + of_nat i * 264) entry) (\<lambda>str.
       Some (sgfx_draw_string font str 3 (32 + 12 * int i) 0xFFFFFFFF d)))) c2))"

text \<open>Whatever the name of a task is, its line is found in the buffer and has at most 127 characters.\<close>

definition tm_text :: "u32 \<Rightarrow> u32 \<Rightarrow> u8 list \<Rightarrow> u8 list" where
  "tm_text tid st nm =
     map of_char ''task id='' @ number_in 10 False (unat tid) @ map of_char '' state='' @ number_in 10 False (unat st) @
     map of_char '' name='' @ nm"

lemma number_in_decimal: "number_in 10 up n = number_in 10 False n"
proof (induction "10 :: nat" up n rule: number_in.induct)
  case (1 up n)
  have "digit_in up k = digit_in False k" if "k < 10" for k using that by (simp add: digit_in_def)
  then show ?case using 1 by (subst (1 2) number_in.simps) simp
qed

lemma tm_format_text:
  assumes "c_string nm = Inr name"
  shows "format_text (\<lambda>a. c_string nm) tm_format [tid, st, name_address] p = Some (tm_text tid st name)"
proof -
  have nz: "0 \<notin> set name" using assms by (auto simp: c_string_eq dest: set_takeWhileD split: if_splits)
  let ?q = "\<lambda>p :: param. p\<lparr>p_lz := False, p_alt := False, p_width := 0, p_sign := 0\<rparr>"
  have u: "read_spec (117 # r) p = (117, r, ?q p)" for r p by (simp add: read_spec_def)
  have s: "read_spec (115 # r) p = (115, r, ?q p)" for r p by (simp add: read_spec_def)
  have n: "number_field 117 v (?q p) = ((?q p)\<lparr>p_base := 10\<rparr>, number_in 10 (p_uc p) (unat v))" for v p
    by (simp add: number_field_def set_base_def field_def)
  have f: "field (?q p) name = (if False then [] else name)" for p by (simp add: field_def)
  show ?thesis using nz assms
    by (simp add: tm_format_def tm_text_def u s n f convert_text_def number_in_decimal [of "p_uc p"] comp_def)
qed

lemma tm_line_text:
  assumes "c_string nm = Inr name" "length name < 2 ^ 31" "length buffer = 128" "length bf = 12"
  shows "tm_line p bf buffer name_address (tid, st, nm) = Some (Inr (take 127 (tm_text tid st name)))"
proof -
  let ?q = "\<lparr>p_width = 0, p_lz = False, p_sign = 0, p_alt = False, p_base = 10, p_uc = False\<rparr>"
  have len: "length (number_in 10 False (unat v)) \<le> 11" for v :: u32
    using ui2a_number [of ?q "replicate 12 0" v] by auto
  have "0 \<notin> set (tm_text tid st name)"
    using assms(1) number_in_nonzero [of 10 False] by (auto simp: tm_text_def c_string_eq dest: set_takeWhileD split: if_splits)
  then have nz: "0 \<notin> set (take 127 (tm_text tid st name))" by (meson in_set_takeD)
  have "length (tm_text tid st name) < 2 ^ 32"
    using len [of tid] len [of st] assms(2) by (simp add: tm_text_def)
  from vsnprintf_cuts [OF tm_format_text [OF assms(1)] _ _ this assms(4), of 128 buffer] assms(3) show ?thesis
    using c_string_text [OF nz] by (simp add: tm_line_def)
qed

section \<open>The test bed\<close>

text \<open>The reaction to an event: the texts that are printed; a click is an event of the mouse with a button. The picture
  after it.\<close>

definition testbed_event :: "event \<Rightarrow> u8 list list \<Rightarrow> u8 list list" where
  "testbed_event e printed =
     (if (ev_type e = EVENT_MOUSE_MOVE \<or> ev_type e = EVENT_MOUSE_CLICK) \<and> data2 e \<noteq> 0
      then printed @ [map of_char ''Mouse clicked''] else printed)"

definition testbed_picture :: "u8 list \<Rightarrow> graphics_context \<Rightarrow> graphics_context res" where
  "testbed_picture font c =
     and_then (sgfx_fill 0xFF000040 c) (sgfx_draw_string font (map of_char ''Tasks:'') 3 5 0xFFFFFFFF)"

end
