(* ===== verification/Crash.thy ===== *)
theory Crash
  imports Desktop Floppy
begin

text \<open>
  The end of the kernel (\<open>crash_and_burn\<close> and \<open>kernel_assert\<close> of \<open>kernel/util.c\<close>) and the test of the floppy
  drive (\<open>task_test_floppy\<close> of \<open>kernel/driver/floppy.c\<close>), a kernel task that never returns. Elsewhere a failed
  assertion is the fault \<open>Assert_Failed\<close>; here is what the screen shows then.
\<close>

section \<open>Crashing\<close>

text \<open>The state in which the CPU executes \<open>hlt\<close> for ever.\<close>

definition crash_and_burn :: "u8 list \<Rightarrow> 'a gui_state_scheme \<Rightarrow> 'a gui_state_scheme run" where
  "crash_and_burn font s =
     run_then (graphics_fill 0x0000FF s) (\<lambda>s1.
     run_then (draw_debug_console font 0xFFFFFF s1) (\<lambda>s2.
     run_then (graphics_copy_backbuffer s2) (\<lambda>s3.
     Some (Inr (disable_interrupts s3)))))"

text \<open>A false condition is logged; then a division by zero in the kernel enters its handler, which prints a stack trace
  and calls \<open>crash_and_burn\<close>. \<open>Inl\<close> is this state, \<open>Inr\<close> a normal return.\<close>

definition kernel_assert :: "u8 list \<Rightarrow> bool \<Rightarrow> 'a gui_state_scheme \<Rightarrow> ('a gui_state_scheme + 'a gui_state_scheme) run" where
  "kernel_assert font condition s =
     (if condition then Some (Inr (Inr s)) else run_then (crash_and_burn font s) (\<lambda>t. Some (Inr (Inl t))))"

lemma halt_is_final: "crash_and_burn font s = Some (Inr t) \<Longrightarrow> \<not> are_interrupts_enabled t"
  by (auto simp: crash_and_burn_def run_then_eq_Some_Inr interrupts_disabled)

section \<open>The test of the floppy drive\<close>

text \<open>The numbers that are logged, up to the endless loop: the bytes of the transfer buffer that are not zero after each
  track. \<open>contents c\<close> is what the buffer holds after track \<open>c\<close>; a byte is a signed character.\<close>

definition nonzero_bytes :: "u8 list \<Rightarrow> int list" where
  "nonzero_bytes b = map sint (filter (\<lambda>v. v \<noteq> 0) b)"

fun test_tracks :: "device \<Rightarrow> (nat \<Rightarrow> bool) \<Rightarrow> u32 \<Rightarrow> (nat \<Rightarrow> u8 list) \<Rightarrow> nat list \<Rightarrow> floppy \<Rightarrow> (int list \<times> floppy) option" where
  "test_tracks dev irq buf contents [] s = Some ([], s)"
| "test_tracks dev irq buf contents (c # cs) s =
     Option.bind (floppy_read_track dev irq buf floppy_base (of_nat c) s) (\<lambda>(r, s1).
     Option.bind (test_tracks dev irq buf contents cs s1) (\<lambda>(logged, s2).
     Some (nonzero_bytes (contents c) @ logged, s2)))"

definition task_test_floppy :: "device \<Rightarrow> (nat \<Rightarrow> bool) \<Rightarrow> u32 \<Rightarrow> (nat \<Rightarrow> u8 list) \<Rightarrow> floppy \<Rightarrow> (int list \<times> floppy) option" where
  "task_test_floppy dev irq buf contents s = test_tracks dev irq buf contents [0..<80] s"

end
