(* ===== verification/Kernel_Messages.thy ===== *)
theory Kernel_Messages
  imports Kernel_Fields Desktop Slib
begin

text \<open>
  The other texts that the kernel formats: the status line of the desktop (\<open>gui_draw_frame\<close> of \<open>kernel/gui.c\<close>),
  and the path of a shared library (\<open>find_or_load_shared_lib\<close> of \<open>kernel/slib.c\<close>).
\<close>

section \<open>The status line\<close>

text \<open>\<open>sprintf(time_str, ...)\<close>; the time takes two words among the arguments.\<close>

definition status_line :: "(u32 \<Rightarrow> u8 list) \<Rightarrow> reals \<Rightarrow> u8 list \<Rightarrow> u32 \<Rightarrow> u64 \<Rightarrow> (u32 \<times> u8 list) res" where
  "status_line str real time_str phys_mem time =
     kernel_sprintf str real time_str (cstr ''phys used: %dKiB   systime: %u'') [phys_mem, ucast time, ucast (drop_bit 32 time)]"

definition status_text :: "u32 \<Rightarrow> u64 \<Rightarrow> u8 list" where
  "status_text phys_mem time =
     map of_char ''phys used: '' @ signed_decimal phys_mem @ map of_char ''KiB   systime: '' @ decimal (unat (ucast time :: u32))"

lemma printf_text_status:
  "printf_text str real (cstr ''phys used: %dKiB   systime: %u'') (m # lo # rest) =
    Inr (map of_char ''phys used: '' @ signed_decimal m @ map of_char ''KiB   systime: '' @ decimal (unat lo))"
proof -
  let ?a = "map of_char ''phys used: '' :: u8 list" and ?b = "map of_char ''KiB   systime: '' :: u8 list"
  have a: "0 \<notin> set ?a" "37 \<notin> set ?a" and b: "0 \<notin> set ?b" "37 \<notin> set ?b" by simp_all
  have f: "cstr ''phys used: %dKiB   systime: %u'' = ?a @ (37 # 100 # (?b @ (37 # 117 # [0])))" by (simp add: cstr_def)
  have u: "printf_text str real (?b @ (37 # 117 # [0])) (lo # rest) = Inr (?b @ decimal (unat lo))"
    unfolding printf_text_plain [OF b] printf_text_conversions by simp
  show ?thesis unfolding f printf_text_plain [OF a] printf_text_conversions(1) u and_then_simps ..
qed

lemma status_text_length: "length (status_text m t) \<le> 49"
  using decimal_length [of "ucast t"] signed_decimal_length [of m] by (simp add: status_text_def)

text \<open>The line always fits into the 128 bytes of the local variable. Of the time, the lower half is shown.\<close>

lemma status_line_fits:
  assumes "length time_str = 128"
  shows "status_line str real time_str phys_mem time =
    Inr (of_nat (length (status_text phys_mem time)), status_text phys_mem time @ 0 # drop (length (status_text phys_mem time) + 1) time_str)"
proof -
  have "printf_text str real (cstr ''phys used: %dKiB   systime: %u'') [phys_mem, ucast time, ucast (drop_bit 32 time)] = Inr (status_text phys_mem time)"
    unfolding printf_text_status status_text_def ..
  from kernel_sprintf_fits [OF this] show ?thesis
    using status_text_length [of phys_mem time] assms by (simp add: status_line_def)
qed

text \<open>One frame of the desktop with this line.\<close>

definition status_bytes :: "(u32 \<Rightarrow> u8 list) \<Rightarrow> reals \<Rightarrow> u8 list \<Rightarrow> u32 \<Rightarrow> u64 \<Rightarrow> u8 list" where
  "status_bytes str real time_str phys_mem time =
     (case status_line str real time_str phys_mem time of Inl e \<Rightarrow> [] | Inr (n, b) \<Rightarrow> b)"

definition gui_frame :: "(u32 \<Rightarrow> u8 list) \<Rightarrow> reals \<Rightarrow> u8 list \<Rightarrow> u8 list \<Rightarrow> u32 list \<Rightarrow> 'a gui_state_scheme \<Rightarrow> 'a gui_state_scheme run" where
  "gui_frame str real time_str font cursor = gui_draw_frame font cursor (status_bytes str real time_str)"

lemma decimal_nonzero: "0 \<notin> set (decimal n)" "0 \<notin> set (signed_decimal a)"
  using number_in_nonzero [of 10 False] by (auto simp: decimal_def signed_decimal_def)

lemma status_bytes_shown:
  assumes "length time_str = 128"
  shows "c_string (status_bytes str real time_str phys_mem time) = Inr (status_text phys_mem time)"
proof -
  have "0 \<notin> set (status_text phys_mem time)" using decimal_nonzero by (simp add: status_text_def)
  then have "takeWhile (\<lambda>c. c \<noteq> 0) (status_text phys_mem time @ 0 # r) = status_text phys_mem time" for r
    by (subst takeWhile_append2) auto
  then show ?thesis by (simp add: status_bytes_def status_line_fits [OF assms] c_string_eq)
qed

section \<open>The path of a library\<close>

text \<open>The path that the model of the shared libraries uses is what \<open>snprintf\<close> writes.\<close>

lemma library_path_printed:
  assumes "c_string (str a) = Inr name" and "length path = MAX_PATH_LENGTH" and "length name < 2 ^ 31"
  shows "\<exists>rest. kernel_snprintf str real path (of_nat MAX_PATH_LENGTH) (cstr ''/%s'') [a] =
    Inr (of_nat (length name + 1), library_path name @ rest)"
proof -
  have f: "cstr ''/%s'' = [47] @ (37 # 115 # [0])" by (simp add: cstr_def)
  have t: "printf_text str real (cstr ''/%s'') [a] = Inr (47 # name)"
    unfolding f by (subst printf_text_plain) (simp_all del: printf_text.simps(2) add: printf_text_conversions(4) [where str = str and a = a, OF assms(1)],
      simp)
  show ?thesis
    using internal_vsnprintf_cuts [OF t, of 256 path] assms(2,3)
    by (auto simp: kernel_snprintf_def library_path_def MAX_PATH_LENGTH_def)
qed

end
