(* ===== verification/Spec2Isabelle.thy ===== *)
theory Spec2Isabelle
  imports Prelude Cpu Physalloc Paging Paging_Facts Paging_Spec Paging_Dirs Kmalloc Chunks Heap_Memory Chunk_Heap Kmalloc_Spec Heap_Props
    Kern_State Sharedmem Sharedmem_Pools Sharedmem_Props Tasks Tasks_Props Console Console_Props Sgfx Sgfx_Props
    Strings Events Events_Props Frames Gui_State Windows Windows_Props Input Desktop Desktop_Props
    Descriptors Bytes Elf Clock Log_Buffer Logging Floppy Ramdisk Machine Slib Syscalls Interrupts User_Calls Start
    User_Memory Elf_Props Tables System Sgfx_Line User_Stdio Breakout
    Libc_Strings Libc_Strings_Props Libc_Sort Libc_Numbers Libc_Printf File_Browser User_Programs User_Malloc Waiting User_Api Crash Digits Kernel_Printf Kernel_Printf_Props Kernel_Fields Kernel_Messages
begin

text \<open>
  \<^bold>\<open>QuadOS\<close> is a 32-bit x86 kernel with paging, preemptive tasks, shared memory, a window system,
  and a user library with a handful of programs. This development models its own C code; this block
  says which theory models which part, what is proved, and what is left out.

  \<^bold>\<open>How the program fits together.\<close> \<open>kernel_main\<close> sets up the descriptor and interrupt tables, the page
  frames, the page tables, the kernel heap, the tasks and shared memory, and starts the desktop as
  a kernel task. Afterwards everything happens in interrupts: the timer delivers timer events
  and calls the scheduler, the keyboard and the mouse feed the desktop and the shell, and programs
  enter by \<open>int 0x80\<close>. Programs are ELF files that \<open>create_user_task\<close> reads, maps and starts; they see
  the kernel through system calls, an event buffer and shared frame buffers, mostly by way of
  the user library.

  \<^bold>\<open>The state\<close> is one record that grows with the components, in the order of the C globals they own:
  \<open>cpu_state\<close> (interrupt flag, nesting counter, port output), \<open>pmm_state\<close> (frame bitmap), \<open>vm_state\<close>
  (physical memory, \<open>CR3\<close>, page directories), \<open>kheap_state\<close>, \<open>kern_state\<close> (shared memory, tasks, timer,
  event buffers), \<open>gui_state\<close> (windows, cursor, mouse, screen, console) and \<open>machine\<close> (interrupt and system
  call tables, libraries, the file system's volume). An operation is a function on every extension of
  the record it works on, so that components compose without glue. A user program has a state of its own.

  \<^bold>\<open>Results.\<close> A fault (failed assertion, access outside an array, page fault, division by zero) is a
  value of \<open>fault\<close>; \<open>'a res\<close> is a fault or a result, \<open>'a run\<close> is \<open>None\<close> if the code does not return.
  Loops that may not end are \<open>partial_function (option)\<close>; counted loops are \<open>for_res\<close> and \<open>for_run\<close>.
  There is no fuel: a loop is a recursion with a termination proof, or an option, and then the theorems
  say where it returns.

  \<^bold>\<open>Theories and sources: the kernel.\<close>
  \<^item> \<open>Prelude\<close>: words, results, loops, searches; \<open>CEIL_DIV\<close> of \<open>kernel/include/util.h\<close>.
  \<^item> \<open>Cpu\<close>: \<open>push_cli\<close>, \<open>pop_cli\<close> (\<open>kernel/interrupts.c\<close>). \<open>Descriptors\<close>: \<open>kernel/gdt.c\<close> and the gates and
    controllers of \<open>kernel/interrupts.c\<close>.
  \<^item> \<open>Physalloc\<close>: \<open>kernel/physalloc.c\<close>. \<open>Paging\<close> (model, with the MMU's walk), \<open>Paging_Facts\<close>,
    \<open>Paging_Spec\<close>, \<open>Paging_Dirs\<close>: \<open>kernel/memory.c\<close>. \<open>Bytes\<close>: byte-wise access through the page tables.
  \<^item> \<open>Kmalloc\<close>: \<open>kernel/kmalloc.c\<close>. \<open>Chunks\<close>: heaps as lists of chunks. \<open>Chunk_Heap\<close>: the interfaces between
    an allocator and its memory, which the heaps of the kernel and of programs share. \<open>Heap_Memory\<close>,
    \<open>Kmalloc_Spec\<close>, \<open>Heap_Props\<close>: the kernel heap as an instance of them, and its contract.
  \<^item> \<open>Kern_State\<close>: the kernel's tables. \<open>Sharedmem\<close>, \<open>Sharedmem_Pools\<close>, \<open>Sharedmem_Props\<close>:
    \<open>kernel/sharedmem.c\<close>. \<open>Tasks\<close>, \<open>Tasks_Props\<close>: \<open>kernel/tasks.c\<close>, \<open>tasks_asm.asm\<close>.
  \<^item> \<open>Events\<close>, \<open>Events_Props\<close>: \<open>kernel/events.c\<close>, \<open>pit.c\<close>, \<open>time.c\<close>, \<open>userheap.c\<close> and the reader in
    \<open>userspace/api/src/events.c\<close>.
  \<^item> \<open>Strings\<close>: \<open>kernel/util.c\<close>. \<open>Digits\<close>, \<open>Kernel_Printf\<close>, \<open>Kernel_Printf_Props\<close>, \<open>Kernel_Fields\<close>:
    \<open>kernel/printf.c\<close>. \<open>Console\<close>, \<open>Console_Props\<close>: \<open>kernel/console.c\<close>. \<open>Clock\<close>: \<open>kernel/serial.c\<close>,
    \<open>kernel/driver/rtc.c\<close>. \<open>Log_Buffer\<close>, \<open>Logging\<close>: \<open>kernel/log.c\<close>.
  \<^item> \<open>Sgfx\<close>, \<open>Sgfx_Props\<close>, \<open>Sgfx_Line\<close>: \<open>sgfx/sgfx.c\<close>. \<open>Gui_State\<close>, \<open>Windows\<close>, \<open>Windows_Props\<close>:
    \<open>kernel/windows.c\<close>, \<open>graphics.c\<close>. \<open>Input\<close>: \<open>kernel/driver/keyboard.c\<close>, \<open>mouse.c\<close>. \<open>Desktop\<close>,
    \<open>Desktop_Props\<close>: \<open>kernel/shell.c\<close>, \<open>gui.c\<close> and the dispatch of events. \<open>Kernel_Messages\<close>: the texts that
    \<open>gui.c\<close> and \<open>slib.c\<close> format.
  \<^item> \<open>Floppy\<close>, \<open>Ramdisk\<close>: \<open>kernel/driver/floppy.c\<close>, \<open>ramdisk.c\<close>. \<open>Waiting\<close>: the waits of \<open>mouse.c\<close>, \<open>keyboard.c\<close>
    and \<open>time.c\<close>. \<open>Crash\<close>: the end of the kernel in \<open>util.c\<close>, and the test of the floppy drive.
  \<^item> \<open>Elf\<close>, \<open>Elf_Props\<close>: \<open>kernel/elf.c\<close>. \<open>User_Memory\<close>: the memory of a new program. \<open>Machine\<close>, \<open>Slib\<close>: \<open>kernel/slib.c\<close> and
    \<open>create_user_task\<close>. \<open>Syscalls\<close>: \<open>kernel/syscall.c\<close>. \<open>Interrupts\<close>: the common interrupt handler and
    \<open>kernel/exceptions.c\<close>. \<open>Start\<close>: \<open>kernel/kernel.c\<close>.
  \<^item> \<open>Frames\<close>: what the memory components leave alone. \<open>Tables\<close>, \<open>System\<close>: the shape of the tables under
    every operation, and under every run of the system, and the fairness of the scheduler in such runs.

  \<^bold>\<open>Theories and sources: programs and their libraries.\<close>
  \<^item> \<open>User_Calls\<close>: \<open>userspace/api/src/syscalls.c\<close>. \<open>User_Api\<close>: \<open>basics.c\<close>, \<open>gui.c\<close>, \<open>io.c\<close>, \<open>shmem.c\<close> there, the start
    of a program, the task manager and the test bed. \<open>User_Malloc\<close>: \<open>malloc.c\<close>. \<open>User_Stdio\<close>: \<open>os_stdio.c\<close>.
  \<^item> \<open>Libc_Strings\<close>, \<open>Libc_Strings_Props\<close>, \<open>Libc_Sort\<close>, \<open>Libc_Numbers\<close>, \<open>Libc_Printf\<close>: \<open>userspace/libc/src\<close>.
  \<^item> \<open>Breakout\<close>, \<open>File_Browser\<close>, and \<open>User_Programs\<close> (drawing program, terminal, timer, the drawing
    routines of the cube): the programs of \<open>userspace\<close>.

  \<^bold>\<open>What the groups of lemmas show.\<close> Memory: the page tables are a map from addresses to frames
  that the operations change in exactly one place; both heaps are first-fit allocators on lists of
  chunks that keep the contents of blocks; the loader puts every segment where its header says.
  Tables: no interrupt, system call or program changes the shape of the kernel's tables. Tasks: the
  scheduler is round-robin, and in no run of interrupts, system calls and desktop rounds does it starve a ready task. Communication: event buffers are queues, mappings of
  shared memory are disjoint and show the frames of their object, in the kernel or in the directory of the task. Devices:
  what the drivers of the mouse, the clock and the floppy drive make of the bytes that the device sends. Screen: the console stays inside its buffer, rectangles and lines
  touch the pixels they should, windows form a stack and a click takes
  the one whose frame was drawn last at the point (with a margin of one pixel to the right and below). Text: each of the three
  formatted output routines writes the text of its format; the ones that know the size of the
  buffer cut it there. Programs: the game runs without faults for ever, and the file browser opens what is
  clicked and finds its way back.

  \<^bold>\<open>Bounds.\<close> The initial size of the kernel heap is at most 512 MiB where \<open>kmalloc_init\<close> is proved to succeed; a line to \<open>1000\<close> pixels per direction for the proof
  that it is straight; the waits for the controllers and the drive, which the code limits
  itself, to the code's own numbers of tries; a stack trace to 8 frames; paths to 256 bytes; the
  buffers of numbers to 12, 20 and 32 bytes.

  \<^bold>\<open>Decisions.\<close> Messages to the log are not an effect inside the operations of the kernel: \<open>kernel_log\<close>
  is modelled on its own. A message of a handler
  that contains a string of a program is formatted and is a fault if it overruns its buffer (\<open>Log_Buffer\<close>). Coordinates
  that are \<open>int32_t\<close> are integers; the counters of the mouse wrap around. The TLB is not modelled, so a missing or wrong
  \<open>invlpg\<close> is invisible. Event buffers are objects found by their address in the kernel. The heap of a
  program is the list of its words, a C string the list of the bytes from the pointer to the end of its
  object, and access behind it is a fault. Parameters stand for what is outside the code: the
  file system (\<open>fat_ops\<close>, over a volume), the devices behind ports, the addresses that the linker chooses,
  old contents of memory (\<open>junk\<close>, \<open>garbage\<close>), the font, the contents of directories, and the text of floating point numbers.

  \<^bold>\<open>Not modelled.\<close>
  \<^item> FatFs with its Unicode tables, a vendored library that makes up most of the lines of the repository.
  \<^item> The conversion of floating point numbers in \<open>kernel/printf.c\<close> and the rotation of the cube in
    \<open>userspace/cube\<close>: arithmetic on \<open>double\<close>. No message of the kernel contains such a number.
  \<^item> \<open>scanf\<close>, \<open>fgets\<close>, the arenas of the old allocator, \<open>calloc\<close> and \<open>realloc\<close> of \<open>userspace/libc\<close>, which no program calls.
  \<^item> The code in assembler, apart from the context switch: \<open>boot.asm\<close>, whose page directory is the state from which
    \<open>init_memory\<close> starts, the stubs of interrupts, and the loading of descriptor registers.
  \<^item> Test code, headers of the compiler, and pictures.
\<close>

end
